(* ===== verification/Prelude.thy ===== *)
theory Prelude
  imports Main "HOL-Library.Char_ord" "HOL-Library.AList"
begin

text \<open>
  Shared material of the development.

  Python exceptions are values of type \<open>exn\<close>: the class that is raised and a tag that names the
  raising check (the formatted message is not modelled). A fallible operation returns
  \<open>exn + 'a\<close>, \<open>Inl\<close> for the exception. A Python \<open>dict\<close> is an association list with distinct
  keys in insertion order (\<open>dget\<close>, \<open>dset\<close>, \<open>ddel\<close>), because iteration order and "oldest entry"
  matter in the code. Python's \<open>str.lower\<close> and friends are written out for ASCII characters.
  The locale \<open>step_machine\<close> is the contract shared by all the stateful components: an invariant
  kept by each operation is kept by every sequence of operations.
\<close>

section \<open>Exceptions and results\<close>

datatype exn =
    ValueError string
  | RuntimeError string
  | TypeError string
  | KeyError string
  | ImportError string
  | NotImplementedError string
  | FileNotFoundError string
  | PermissionError string
  | FileExistsError string
  | AttributeError string
  | OSError string
  | IndexError string
  | ConfigError string
  | NotAvailableError string

type_synonym 'a result = "exn + 'a"

definition rbind :: "'a result \<Rightarrow> ('a \<Rightarrow> 'b result) \<Rightarrow> 'b result" where
  "rbind r k = (case r of Inl e \<Rightarrow> Inl e | Inr a \<Rightarrow> k a)"

definition require :: "bool \<Rightarrow> exn \<Rightarrow> unit result" where
  "require b e = (if b then Inr () else Inl e)"

definition is_ok :: "'a result \<Rightarrow> bool" where
  "is_ok r = (case r of Inl _ \<Rightarrow> False | Inr _ \<Rightarrow> True)"

named_theorems py_simps \<open>evaluation rules for results and Python data\<close>

lemma rbind_simps [simp, py_simps]:
  "rbind (Inl e) k = Inl e"
  "rbind (Inr a) k = k a"
  by (simp_all add: rbind_def)

lemma rbind_eq_Inr [simp]: "rbind r k = Inr b \<longleftrightarrow> (\<exists>a. r = Inr a \<and> k a = Inr b)"
  by (cases r) auto

lemma rbind_eq_Inl: "rbind r k = Inl e \<longleftrightarrow> r = Inl e \<or> (\<exists>a. r = Inr a \<and> k a = Inl e)"
  by (cases r) auto

lemma require_simps [simp, py_simps]:
  "require True e = Inr ()"
  "require False e = Inl e"
  by (simp_all add: require_def)

lemma require_eq_Inr [simp]: "require b e = Inr u \<longleftrightarrow> b"
  by (cases b) auto

lemma require_eq_Inl [simp]: "require b e = Inl e' \<longleftrightarrow> \<not> b \<and> e = e'"
  by (cases b) auto

lemma is_ok_simps [simp, py_simps]:
  "is_ok (Inl e) = False"
  "is_ok (Inr a) = True"
  by (simp_all add: is_ok_def)

lemma is_ok_iff: "is_ok r \<longleftrightarrow> (\<exists>a. r = Inr a)"
  by (cases r) auto

section \<open>Stateful operations that may raise\<close>

text \<open>
  A method that raises keeps the changes it made to the state before the \<open>raise\<close>, so an operation
  is \<open>'s \<Rightarrow> 'a result \<times> 's\<close>. \<open>ebind\<close> is sequencing, \<open>elift\<close> runs a pure fallible
  computation, \<open>eupd\<close> changes the state.
\<close>

type_synonym ('s, 'a) eop = "'s \<Rightarrow> 'a result \<times> 's"

definition ereturn :: "'a \<Rightarrow> ('s, 'a) eop" where
  "ereturn a s = (Inr a, s)"

definition eraise :: "exn \<Rightarrow> ('s, 'a) eop" where
  "eraise e s = (Inl e, s)"

definition elift :: "'a result \<Rightarrow> ('s, 'a) eop" where
  "elift r s = (r, s)"

definition eupd :: "('s \<Rightarrow> 's) \<Rightarrow> ('s, unit) eop" where
  "eupd f s = (Inr (), f s)"

definition ebind :: "('s, 'a) eop \<Rightarrow> ('a \<Rightarrow> ('s, 'b) eop) \<Rightarrow> ('s, 'b) eop" where
  "ebind m k s = (case m s of (Inl e, s') \<Rightarrow> (Inl e, s') | (Inr a, s') \<Rightarrow> k a s')"

definition egets :: "('s \<Rightarrow> 'a) \<Rightarrow> ('s, 'a) eop" where
  "egets f s = (Inr (f s), s)"

text \<open>\<open>if not b: raise e\<close>.\<close>

definition eassert :: "('s \<Rightarrow> bool) \<Rightarrow> exn \<Rightarrow> ('s, unit) eop" where
  "eassert b e s = (if b s then Inr () else Inl e, s)"

text \<open>\<open>try: m except Exception: h; raise\<close>.\<close>

definition etry :: "('s, 'a) eop \<Rightarrow> ('s \<Rightarrow> 's) \<Rightarrow> ('s, 'a) eop" where
  "etry m h s = (case m s of (Inl e, s') \<Rightarrow> (Inl e, h s') | (Inr a, s') \<Rightarrow> (Inr a, s'))"

text \<open>A call into code outside the model that may raise: \<open>Some e\<close> is the exception it raises.\<close>

definition ecall :: "exn option \<Rightarrow> ('s, unit) eop" where
  "ecall f s = (case f of None \<Rightarrow> Inr () | Some e \<Rightarrow> Inl e, s)"

lemma eop_simps2 [simp, py_simps]:
  "egets f s = (Inr (f s), s)"
  "eassert b e s = (if b s then Inr () else Inl e, s)"
  "ecall x s = (case x of None \<Rightarrow> Inr () | Some e \<Rightarrow> Inl e, s)"
  by (simp_all add: egets_def eassert_def ecall_def)

lemma etry_eq_Inr: "etry m h s = (Inr a, t) \<longleftrightarrow> m s = (Inr a, t)"
  by (auto simp: etry_def split: prod.splits sum.splits)

lemma etry_eq_Inl: "etry m h s = (Inl e, t) \<longleftrightarrow> (\<exists>t'. m s = (Inl e, t') \<and> t = h t')"
  by (auto simp: etry_def split: prod.splits sum.splits)

lemma eop_simps [simp, py_simps]:
  "ereturn a s = (Inr a, s)"
  "eraise e s = (Inl e, s)"
  "elift r s = (r, s)"
  "eupd f s = (Inr (), f s)"
  by (simp_all add: ereturn_def eraise_def elift_def eupd_def)

lemma ebind_Inr [simp]: "m s = (Inr a, s') \<Longrightarrow> ebind m k s = k a s'"
  by (simp add: ebind_def)

lemma ebind_Inl [simp]: "m s = (Inl e, s') \<Longrightarrow> ebind m k s = (Inl e, s')"
  by (simp add: ebind_def)

lemma ebind_eq_Inr:
  "ebind m k s = (Inr b, t) \<longleftrightarrow> (\<exists>a s'. m s = (Inr a, s') \<and> k a s' = (Inr b, t))"
  by (auto simp: ebind_def split: prod.splits sum.splits)

lemma ebind_eq_Inl:
  "ebind m k s = (Inl e, t) \<longleftrightarrow>
     m s = (Inl e, t) \<or> (\<exists>a s'. m s = (Inr a, s') \<and> k a s' = (Inl e, t))"
  by (auto simp: ebind_def split: prod.splits sum.splits)

text \<open>
  Hoare triples for such operations: from \<open>P\<close>, a normal return satisfies \<open>Q\<close> and an exception
  leaves a state that satisfies \<open>E\<close>. \<open>keeps f m\<close>: the operation never changes \<open>f\<close> of the state.
\<close>

definition etriple :: "('s \<Rightarrow> bool) \<Rightarrow> ('s, 'a) eop \<Rightarrow> ('a \<Rightarrow> 's \<Rightarrow> bool) \<Rightarrow> ('s \<Rightarrow> bool) \<Rightarrow> bool" where
  "etriple P m Q E = (\<forall>s. P s \<longrightarrow> (case m s of (Inr a, s') \<Rightarrow> Q a s' | (Inl e, s') \<Rightarrow> E s'))"

definition keeps :: "('s \<Rightarrow> 'c) \<Rightarrow> ('s, 'a) eop \<Rightarrow> bool" where
  "keeps f m = (\<forall>s. f (snd (m s)) = f s)"

named_theorems hoare \<open>rules for etriple and keeps\<close>

lemma etriple_ebind [hoare]:
  "etriple P m R E \<Longrightarrow> (\<And>a. etriple (R a) (k a) Q E) \<Longrightarrow> etriple P (ebind m k) Q E"
  by (fastforce simp: etriple_def ebind_def split: prod.splits sum.splits)

lemma etriple_etry [hoare]:
  "etriple P m Q E' \<Longrightarrow> (\<And>s. E' s \<Longrightarrow> E (h s)) \<Longrightarrow> etriple P (etry m h) Q E"
  by (fastforce simp: etriple_def etry_def split: prod.splits sum.splits)

lemma etriple_weaken:
  "etriple P' m Q' E' \<Longrightarrow> (\<And>s. P s \<Longrightarrow> P' s) \<Longrightarrow> (\<And>a s. Q' a s \<Longrightarrow> Q a s) \<Longrightarrow>
     (\<And>s. E' s \<Longrightarrow> E s) \<Longrightarrow> etriple P m Q E"
  by (fastforce simp: etriple_def split: prod.splits sum.splits)

lemma etriple_keeps: "keeps f m \<Longrightarrow> etriple (\<lambda>s. P (f s)) m (\<lambda>_ s. P (f s)) (\<lambda>s. P (f s))"
  by (auto simp: etriple_def keeps_def split: prod.splits sum.splits) (metis snd_conv)+

lemma etripleD:
  "etriple P m Q E \<Longrightarrow> P s \<Longrightarrow> m s = (Inr a, s') \<Longrightarrow> Q a s'"
  "etriple P m Q E \<Longrightarrow> P s \<Longrightarrow> m s = (Inl e, s') \<Longrightarrow> E s'"
  by (auto simp: etriple_def split: prod.splits sum.splits) (metis sum.case prod.case)+

lemma etriple_both: "etriple P m (\<lambda>_. Q) Q \<Longrightarrow> P s \<Longrightarrow> Q (snd (m s))"
  by (cases "m s"; cases "fst (m s)") (auto simp: etriple_def split: prod.splits sum.splits)

lemma keeps_ebind [hoare]: "keeps f m \<Longrightarrow> (\<And>a. keeps f (k a)) \<Longrightarrow> keeps f (ebind m k)"
  by (auto simp: keeps_def ebind_def split: prod.splits sum.splits) (metis snd_conv)+

lemma keeps_basic [hoare]:
  "keeps f (ereturn a)" "keeps f (eraise e)" "keeps f (egets g)" "keeps f (eassert b e)"
  "keeps f (ecall x)" "keeps f (elift r)"
  by (auto simp: keeps_def elift_def)

lemma keeps_eupd [hoare]: "(\<And>s. f (g s) = f s) \<Longrightarrow> keeps f (eupd g)"
  by (simp add: keeps_def)

section \<open>Python dictionaries\<close>

type_synonym ('k, 'v) dict = "('k \<times> 'v) list"

definition dget :: "('k, 'v) dict \<Rightarrow> 'k \<Rightarrow> 'v option" where
  "dget d k = map_of d k"

fun dset :: "('k, 'v) dict \<Rightarrow> 'k \<Rightarrow> 'v \<Rightarrow> ('k, 'v) dict" where
  "dset [] k v = [(k, v)]"
| "dset ((k', v') # d) k v = (if k' = k then (k, v) # d else (k', v') # dset d k v)"

definition ddel :: "('k, 'v) dict \<Rightarrow> 'k \<Rightarrow> ('k, 'v) dict" where
  "ddel d k = filter (\<lambda>p. fst p \<noteq> k) d"

definition dkeys :: "('k, 'v) dict \<Rightarrow> 'k list" where
  "dkeys d = map fst d"

definition dmem :: "('k, 'v) dict \<Rightarrow> 'k \<Rightarrow> bool" where
  "dmem d k = (k \<in> set (dkeys d))"

definition dwf :: "('k, 'v) dict \<Rightarrow> bool" where
  "dwf d = distinct (dkeys d)"

lemma dget_simps [simp, py_simps]:
  "dget [] k = None"
  "dget ((k', v) # d) k = (if k' = k then Some v else dget d k)"
  by (simp_all add: dget_def)

lemma dkeys_simps [simp]:
  "dkeys [] = []"
  "dkeys (p # d) = fst p # dkeys d"
  "dkeys (d @ d') = dkeys d @ dkeys d'"
  by (simp_all add: dkeys_def)

lemma dmem_simps [simp, py_simps]:
  "dmem [] k = False"
  "dmem (p # d) k = (fst p = k \<or> dmem d k)"
  by (auto simp: dmem_def)

lemma dwf_simps [simp]:
  "dwf []"
  "dwf (p # d) = (\<not> dmem d (fst p) \<and> dwf d)"
  by (auto simp: dwf_def dmem_def)

lemma dmem_iff: "dmem d k \<longleftrightarrow> k \<in> set (dkeys d)"
  by (simp add: dmem_def)

lemma dget_None_iff: "dget d k = None \<longleftrightarrow> \<not> dmem d k"
  by (induction d) (auto split: if_splits)

lemma dget_Some_dmem: "dget d k = Some v \<Longrightarrow> dmem d k"
  by (metis dget_None_iff option.distinct(1))

lemma dmem_dget: "dmem d k \<Longrightarrow> \<exists>v. dget d k = Some v"
  by (metis dget_None_iff not_Some_eq)

lemma dget_dset [simp]: "dget (dset d k v) k' = (if k = k' then Some v else dget d k')"
  by (induction d) auto

lemma dset_not_Nil [simp]: "dset d k v \<noteq> []" "[] \<noteq> dset d k v"
  by (cases "(d, k, v)" rule: dset.cases; simp)+

lemma dmem_dset [simp]: "dmem (dset d k v) k' \<longleftrightarrow> k = k' \<or> dmem d k'"
  by (induction d) (auto split: if_splits)

lemma dkeys_dset: "dkeys (dset d k v) = (if dmem d k then dkeys d else dkeys d @ [k])"
  by (induction d) auto

lemma dwf_dset [simp]: "dwf d \<Longrightarrow> dwf (dset d k v)"
  by (induction d) auto

lemma length_dset: "length (dset d k v) = (if dmem d k then length d else Suc (length d))"
  by (induction d) auto

lemma dset_fresh: "\<not> dmem d k \<Longrightarrow> dset d k v = d @ [(k, v)]"
  by (induction d) auto

lemma dget_ddel [simp]: "dget (ddel d k) k' = (if k = k' then None else dget d k')"
  by (induction d) (auto simp: ddel_def)

lemma dmem_ddel [simp]: "dmem (ddel d k) k' \<longleftrightarrow> k \<noteq> k' \<and> dmem d k'"
  by (induction d) (auto simp: ddel_def)

lemma dkeys_ddel: "dkeys (ddel d k) = filter (\<lambda>k'. k' \<noteq> k) (dkeys d)"
  by (induction d) (auto simp: ddel_def)

lemma dwf_ddel [simp]: "dwf d \<Longrightarrow> dwf (ddel d k)"
  by (simp add: dwf_def dkeys_ddel)

lemma ddel_fresh: "\<not> dmem d k \<Longrightarrow> ddel d k = d"
  by (induction d) (auto simp: ddel_def)

lemma length_ddel: "dwf d \<Longrightarrow> length (ddel d k) = (if dmem d k then length d - 1 else length d)"
proof (induction d)
  case Nil
  then show ?case by (simp add: ddel_def)
next
  case (Cons p d)
  show ?case
  proof (cases "fst p = k")
    case True
    with Cons.prems have "ddel d k = d" by (auto intro: ddel_fresh)
    with True show ?thesis by (simp add: ddel_def)
  next
    case False
    with Cons show ?thesis
      by (cases d) (auto simp: ddel_def)
  qed
qed

lemma dget_append: "dget (d @ d') k = (case dget d k of None \<Rightarrow> dget d' k | Some v \<Rightarrow> Some v)"
  by (induction d) auto

section \<open>ASCII string operations\<close>

definition lower_char :: "char \<Rightarrow> char" where
  "lower_char c = (if CHR ''A'' \<le> c \<and> c \<le> CHR ''Z'' then char_of (of_char c + 32 :: nat) else c)"

definition lower :: "string \<Rightarrow> string" where
  "lower s = map lower_char s"

definition is_space :: "char \<Rightarrow> bool" where
  "is_space c = (c \<in> {CHR '' '', CHR 0x09, CHR 0x0A, CHR 0x0B, CHR 0x0C, CHR 0x0D,
                      CHR 0x1C, CHR 0x1D, CHR 0x1E, CHR 0x1F})"

definition strip :: "string \<Rightarrow> string" where
  "strip s = rev (dropWhile is_space (rev (dropWhile is_space s)))"

fun starts_with :: "string \<Rightarrow> string \<Rightarrow> bool" where
  "starts_with p s = (take (length p) s = p)"

definition ends_with :: "string \<Rightarrow> string \<Rightarrow> bool" where
  "ends_with s suffix = (drop (length s - length suffix) s = suffix \<and> length suffix \<le> length s)"

fun contains :: "string \<Rightarrow> string \<Rightarrow> bool" where
  "contains p [] = (p = [])"
| "contains p (c # s) = (starts_with p (c # s) \<or> contains p s)"

text \<open>\<open>s.split(sep)\<close> for a one-character separator: never empty.\<close>

fun split_on :: "char \<Rightarrow> string \<Rightarrow> string list" where
  "split_on sep [] = [[]]"
| "split_on sep (c # s) =
     (if c = sep then [] # split_on sep s
      else case split_on sep s of [] \<Rightarrow> [[c]] | w # ws \<Rightarrow> (c # w) # ws)"

text \<open>\<open>s.split()\<close>: the maximal runs of non-space characters.\<close>

fun words_acc :: "string \<Rightarrow> string \<Rightarrow> string list" where
  "words_acc w [] = (if w = [] then [] else [rev w])"
| "words_acc w (c # s) =
     (if is_space c then (if w = [] then words_acc [] s else rev w # words_acc [] s)
      else words_acc (c # w) s)"

definition words :: "string \<Rightarrow> string list" where
  "words s = words_acc [] s"

lemma split_on_nonempty [simp]: "split_on sep s \<noteq> []"
  by (induction s) (auto split: list.splits)

lemma split_on_no_sep: "w \<in> set (split_on sep s) \<Longrightarrow> sep \<notin> set w"
  by (induction s arbitrary: w) (auto split: if_splits list.splits)

section \<open>Python floats\<close>

text \<open>
  The code only compares floats and asks whether they are finite; the finite values are left to a
  linearly ordered type. Every comparison with \<open>nan\<close> is false.
\<close>

datatype 'r pyfloat = NaN | NegInf | PosInf | Finite 'r

fun fle :: "'r::linorder pyfloat \<Rightarrow> 'r pyfloat \<Rightarrow> bool" where
  "fle NaN _ = False"
| "fle _ NaN = False"
| "fle NegInf _ = True"
| "fle _ NegInf = False"
| "fle _ PosInf = True"
| "fle PosInf _ = False"
| "fle (Finite a) (Finite b) = (a \<le> b)"

fun flt :: "'r::linorder pyfloat \<Rightarrow> 'r pyfloat \<Rightarrow> bool" where
  "flt NaN _ = False"
| "flt _ NaN = False"
| "flt _ NegInf = False"
| "flt NegInf _ = True"
| "flt PosInf _ = False"
| "flt _ PosInf = True"
| "flt (Finite a) (Finite b) = (a < b)"

fun isfinite :: "'r pyfloat \<Rightarrow> bool" where
  "isfinite (Finite _) = True"
| "isfinite _ = False"

fun feq :: "'r pyfloat \<Rightarrow> 'r pyfloat \<Rightarrow> bool" where
  "feq NaN _ = False"
| "feq _ NaN = False"
| "feq a b = (a = b)"

lemma flt_fle: "flt a b \<Longrightarrow> fle a b"
  by (cases a; cases b) auto

section \<open>Runs of a state machine\<close>

fun run_steps :: "('s \<Rightarrow> 'e \<Rightarrow> 's) \<Rightarrow> 's \<Rightarrow> 'e list \<Rightarrow> 's" where
  "run_steps f s [] = s"
| "run_steps f s (e # es) = run_steps f (f s e) es"

lemma run_steps_append: "run_steps f s (es @ es') = run_steps f (run_steps f s es) es'"
  by (induction es arbitrary: s) auto

locale step_machine =
  fixes step :: "'s \<Rightarrow> 'e \<Rightarrow> 's"
    and inv :: "'s \<Rightarrow> bool"
  assumes step_inv: "inv s \<Longrightarrow> inv (step s e)"
begin

lemma run_inv: "inv s \<Longrightarrow> inv (run_steps step s es)"
  by (induction es arbitrary: s) (auto intro: step_inv)

lemma run_prefix_inv: "inv s \<Longrightarrow> inv (run_steps step s (take n es))"
  by (rule run_inv)

end

text \<open>
  A machine whose operations, while the invariant holds, never change what an observer \<open>obs\<close>
  says about the keys of a protected set: the frame contract of the buffer caches.
\<close>

locale frame_machine = step_machine +
  fixes obs :: "'s \<Rightarrow> 'k \<Rightarrow> 'v option"
  assumes step_frame: "inv s \<Longrightarrow> obs s k = Some v \<Longrightarrow> obs (step s e) k = Some v"
begin

lemma run_frame: "inv s \<Longrightarrow> obs s k = Some v \<Longrightarrow> obs (run_steps step s es) k = Some v"
  by (induction es arbitrary: s) (auto intro: step_inv step_frame)

end

text \<open>
  Refinement of observable behaviour: a relation between concrete and abstract states that every
  operation preserves, with the same answer on both sides, makes the answers of any sequence of
  operations agree.
\<close>

fun run_outputs :: "('s \<Rightarrow> 'e \<Rightarrow> 'o \<times> 's) \<Rightarrow> 's \<Rightarrow> 'e list \<Rightarrow> 'o list \<times> 's" where
  "run_outputs f s [] = ([], s)"
| "run_outputs f s (e # es) =
     (let (x, s') = f s e; (xs, t) = run_outputs f s' es in (x # xs, t))"

locale refinement =
  fixes cstep :: "'s \<Rightarrow> 'e \<Rightarrow> 'o \<times> 's"
    and astep :: "'a \<Rightarrow> 'e \<Rightarrow> 'o \<times> 'a"
    and rel :: "'s \<Rightarrow> 'a \<Rightarrow> bool"
  assumes step_output: "rel s a \<Longrightarrow> fst (cstep s e) = fst (astep a e)"
    and step_rel: "rel s a \<Longrightarrow> rel (snd (cstep s e)) (snd (astep a e))"
begin

lemma run_refines:
  "rel s a \<Longrightarrow> fst (run_outputs cstep s es) = fst (run_outputs astep a es) \<and>
     rel (snd (run_outputs cstep s es)) (snd (run_outputs astep a es))"
proof (induction es arbitrary: s a)
  case (Cons e es)
  show ?case
    using Cons.IH [OF step_rel [OF Cons.prems, of e]] step_output [OF Cons.prems, of e]
    by (simp add: Let_def case_prod_beta)
qed simp

end

section \<open>List lemmas\<close>

lemma sum_list_indicator: "sum_list (map (\<lambda>i. if i < r then (1::int) else 0) [0..<n]) = int (min r n)"
  by (induction n) (auto simp: min_def)

lemma sum_list_map_add_const:
  "sum_list (map (\<lambda>i. c + f i) xs) = int (length xs) * c + sum_list (map f xs)" for c :: int
  by (induction xs) (auto simp: algebra_simps)

lemma filter_eq_singleton_hd: "filter P xs = x # ys \<Longrightarrow> P x \<and> x \<in> set xs"
  by (metis filter_set list.set_intros(1) mem_Collect_eq set_filter)

end
