(* ===== verification/Device.thy ===== *)
theory Device
  imports Prelude
begin

text \<open>
  Device, graph-capture and ACL callback-worker queries of \<open>kt-kernel/python/experts_base.py\<close>.

  What torch, sglang, the environment and the C++ extension answer is the record \<open>dev_env\<close>, an
  argument of every query; a probe that is missing is \<open>None\<close> and a probe that raises is
  \<open>Some None\<close>. The module globals (\<open>_ascend_worker_degraded\<close> and the \<open>_done\<close> flag of
  \<open>_ensure_ascend_callback_worker\<close>) are the record \<open>acl_state\<close>.
\<close>

record device =
  dev_type :: string

record dev_env =
  env_force_sync :: string       \<comment> \<open>\<open>os.environ.get("KT_FORCE_SYNC_SUBMIT", "")\<close>\<close>
  env_external_sub :: string     \<comment> \<open>\<open>os.environ.get("KT_EXTERNAL_NPU_REPORT_SUBSCRIBER", "")\<close>\<close>
  ext_has_init :: bool
  ext_init_raises :: bool
  ext_worker_probe :: "bool option option"
  npu_available :: "bool option"
  sglang_capture :: "bool option"
  capture_probe :: "string \<Rightarrow> bool option option"
  has_synchronize :: "string \<Rightarrow> bool"

record acl_state =
  acl_done :: bool
  acl_degraded :: "bool option"

section \<open>The ACL callback worker\<close>

definition ascend_callback_worker_running :: "dev_env \<Rightarrow> bool option" where
  "ascend_callback_worker_running env =
     (case ext_worker_probe env of None \<Rightarrow> None | Some None \<Rightarrow> None | Some (Some b) \<Rightarrow> Some b)"

definition ascend_callback_worker_degraded :: "dev_env \<Rightarrow> acl_state \<Rightarrow> bool \<times> acl_state" where
  "ascend_callback_worker_degraded env st =
     (case acl_degraded st of
        Some b \<Rightarrow> (b, st)
      | None \<Rightarrow> (let d = (ascend_callback_worker_running env = Some False)
                 in (d, st\<lparr>acl_degraded := Some d\<rparr>)))"

definition uses_external_npu_report_subscriber :: "dev_env \<Rightarrow> bool" where
  "uses_external_npu_report_subscriber env = (env_external_sub env = ''1'')"

definition should_bypass_stream_callback :: "dev_env \<Rightarrow> acl_state \<Rightarrow> device \<Rightarrow> bool \<times> acl_state" where
  "should_bypass_stream_callback env st dev =
     (if env_force_sync env = ''1'' then (True, st)
      else if dev_type dev = ''npu'' \<and> \<not> uses_external_npu_report_subscriber env
      then ascend_callback_worker_degraded env st
      else (False, st))"

definition ensure_ascend_callback_worker :: "dev_env \<Rightarrow> acl_state \<Rightarrow> acl_state result" where
  "ensure_ascend_callback_worker env st =
     (if uses_external_npu_report_subscriber env then Inr st
      else if \<not> ext_has_init env then Inr st
      else if acl_done st then Inr st
      else if ext_init_raises env then Inl (RuntimeError ''init_ascend_callback_worker'')
      else Inr (st\<lparr>acl_done := True,
                   acl_degraded := Some (ascend_callback_worker_running env = Some False)\<rparr>))"

section \<open>Graph capture\<close>

definition sglang_is_capture_mode :: "dev_env \<Rightarrow> bool" where
  "sglang_is_capture_mode env = (sglang_capture env = Some True)"

definition device_graph_capture_state :: "dev_env \<Rightarrow> device \<Rightarrow> bool option" where
  "device_graph_capture_state env dev =
     (if sglang_is_capture_mode env then Some True
      else if dev_type dev \<in> {''cpu'', ''meta''} then Some False
      else case capture_probe env (dev_type dev) of
             None \<Rightarrow> None
           | Some None \<Rightarrow> None
           | Some (Some b) \<Rightarrow> Some b)"

datatype wait_outcome = WaitSkipped | WaitSynchronized

definition wait_device :: "dev_env \<Rightarrow> device \<Rightarrow> wait_outcome result" where
  "wait_device env dev =
     (if dev_type dev \<in> {''cpu'', ''meta''} then Inr WaitSkipped
      else case device_graph_capture_state env dev of
             Some True \<Rightarrow> Inr WaitSkipped
           | None \<Rightarrow> Inl (RuntimeError ''graph capture state is unavailable'')
           | Some False \<Rightarrow>
               if has_synchronize env (dev_type dev) then Inr WaitSynchronized
               else Inl (RuntimeError ''no synchronize()''))"

definition graph_capture_active :: "dev_env \<Rightarrow> device \<Rightarrow> bool" where
  "graph_capture_active env dev = (device_graph_capture_state env dev \<noteq> Some False)"

definition forward_task_autofree :: "dev_env \<Rightarrow> bool \<Rightarrow> device \<Rightarrow> bool" where
  "forward_task_autofree env sync_submit dev = (sync_submit \<or> \<not> graph_capture_active env dev)"

section \<open>Lemmas\<close>

lemmas device_defs =
  ascend_callback_worker_running_def ascend_callback_worker_degraded_def
  should_bypass_stream_callback_def ensure_ascend_callback_worker_def

text \<open>The degraded flag is probed once: afterwards no environment changes the answer.\<close>

lemma degraded_memo:
  assumes "ascend_callback_worker_degraded env st = (d, st')"
  shows "ascend_callback_worker_degraded env' st' = (d, st')"
  using assms by (auto simp: ascend_callback_worker_degraded_def Let_def split: option.splits)

lemma wait_device_never_while_capturing:
  "wait_device env dev = Inr WaitSynchronized \<Longrightarrow> \<not> graph_capture_active env dev"
  by (auto simp: wait_device_def graph_capture_active_def split: if_splits option.splits bool.splits)

lemma wait_device_ok_or_fail_closed:
  "wait_device env dev = Inl e \<Longrightarrow>
     dev_type dev \<notin> {''cpu'', ''meta''} \<and> device_graph_capture_state env dev \<noteq> Some True"
  by (auto simp: wait_device_def split: if_splits option.splits bool.splits)

lemma host_device_not_captured:
  "dev_type dev \<in> {''cpu'', ''meta''} \<Longrightarrow> \<not> sglang_is_capture_mode env \<Longrightarrow>
     \<not> graph_capture_active env dev"
  by (auto simp: graph_capture_active_def device_graph_capture_state_def)

text \<open>An accelerator backend that cannot report its capture state counts as capturing.\<close>

lemma unknown_backend_counts_as_capturing:
  "dev_type dev \<notin> {''cpu'', ''meta''} \<Longrightarrow>
     capture_probe env (dev_type dev) \<in> {None, Some None} \<Longrightarrow> graph_capture_active env dev"
  by (auto simp: graph_capture_active_def device_graph_capture_state_def)

text \<open>The callback path is taken on an NPU only if the worker is not known to be down.\<close>

lemma callback_path_has_dispatcher:
  assumes "should_bypass_stream_callback env st dev = (False, st')"
    and "dev_type dev = ''npu''" and "acl_degraded st = None"
  shows "uses_external_npu_report_subscriber env \<or> ascend_callback_worker_running env \<noteq> Some False"
  using assms
  by (auto simp: should_bypass_stream_callback_def ascend_callback_worker_degraded_def Let_def
      split: if_splits)

text \<open>
  After \<open>_ensure_ascend_callback_worker\<close> has started the worker the degraded flag is fixed, and
  the bypass decision for an NPU stream is exactly that flag.
\<close>

lemma ensure_idempotent:
  "ensure_ascend_callback_worker env st = Inr st' \<Longrightarrow>
     ensure_ascend_callback_worker env st' = Inr st'"
  by (auto simp: ensure_ascend_callback_worker_def split: if_splits)

end
