(* ===== verification/WorkerPool.thy ===== *)
theory WorkerPool
  imports Device
begin

text \<open>
  The CPUInfer pool, its configuration checks and the GPU placement masks of
  \<open>kt-kernel/python/experts_base.py\<close>: \<open>_MoEBase._get_cpu_infer\<close>, \<open>_validate_base_config\<close>,
  \<open>generate_gpu_experts_masks\<close> and \<open>_temporary_all_cpu_experts_mask\<close>.

  \<open>_cpu_infer_instance\<close> is a Python class attribute: a read walks the method resolution order of
  the class, an assignment \<open>cls._cpu_infer_instance = x\<close> writes the dictionary of \<open>cls\<close> itself.
  \<open>ps_attr\<close> is that dictionary for all classes together, and \<open>mro\<close> the resolution order.
\<close>

section \<open>State\<close>

record pool_config =
  subpool_count :: int
  subpool_numa_map :: "int list"
  subpool_thread_count :: "int list"

text \<open>A CPUInfer object: its identity and the configuration it was built from.\<close>

record cpuinfer =
  ci_id :: nat
  ci_config :: pool_config

datatype wrapper_class =
    MoEBase | BaseMoE | BaseSFTMoE
  | AMXMoE | NativeMoE | LlamafileMoE | GeneralMoE | AMXSFTMoE

fun mro :: "wrapper_class \<Rightarrow> wrapper_class list" where
  "mro MoEBase = [MoEBase]"
| "mro BaseMoE = [BaseMoE, MoEBase]"
| "mro BaseSFTMoE = [BaseSFTMoE, MoEBase]"
| "mro AMXMoE = [AMXMoE, BaseMoE, MoEBase]"
| "mro NativeMoE = [NativeMoE, BaseMoE, MoEBase]"
| "mro LlamafileMoE = [LlamafileMoE, BaseMoE, MoEBase]"
| "mro GeneralMoE = [GeneralMoE, BaseMoE, MoEBase]"
| "mro AMXSFTMoE = [AMXSFTMoE, BaseSFTMoE, MoEBase]"

record pool_state =
  ps_attr :: "(wrapper_class, cpuinfer option) dict"
  ps_next :: nat
  ps_acl :: acl_state

definition init_pool_state :: pool_state where
  "init_pool_state = \<lparr>ps_attr = [(MoEBase, None)], ps_next = 0,
                      ps_acl = \<lparr>acl_done = False, acl_degraded = None\<rparr>\<rparr>"

fun attr_lookup :: "(wrapper_class, cpuinfer option) dict \<Rightarrow> wrapper_class list \<Rightarrow> cpuinfer option" where
  "attr_lookup d [] = None"
| "attr_lookup d (c # cs) = (case dget d c of Some v \<Rightarrow> v | None \<Rightarrow> attr_lookup d cs)"

definition cpu_infer_instance :: "pool_state \<Rightarrow> wrapper_class \<Rightarrow> cpuinfer option" where
  "cpu_infer_instance st c = attr_lookup (ps_attr st) (mro c)"

section \<open>\<open>_get_cpu_infer\<close>\<close>

definition thread_split :: "int \<Rightarrow> int \<Rightarrow> int list" where
  "thread_split threads n =
     map (\<lambda>i. threads div n + (if int i < threads mod n then 1 else 0)) [0..<nat n]"

definition acl_on_pool_start :: "dev_env \<Rightarrow> acl_state \<Rightarrow> acl_state" where
  "acl_on_pool_start env a =
     (if npu_available env = Some True
      then (case ensure_ascend_callback_worker env a of Inl _ \<Rightarrow> a | Inr a' \<Rightarrow> a')
      else a)"

definition get_cpu_infer ::
  "dev_env \<Rightarrow> wrapper_class \<Rightarrow> int \<Rightarrow> int \<Rightarrow> int list option \<Rightarrow> pool_state \<Rightarrow> cpuinfer result \<times> pool_state" where
  "get_cpu_infer env c threads n numa_nodes st =
     (case cpu_infer_instance st c of
        Some inst \<Rightarrow> (Inr inst, st)
      | None \<Rightarrow>
          if n \<le> 0 then (Inl (ValueError ''threadpool_count must be positive''), st)
          else if threads < n then (Inl (ValueError ''cpuinfer_threads < threadpool_count''), st)
          else
            (let st1 = st\<lparr>ps_acl := acl_on_pool_start env (ps_acl st)\<rparr> in
             case (case numa_nodes of
                     Some ns \<Rightarrow> if int (length ns) \<noteq> n
                                then Inl (ValueError ''numa_nodes length'') else Inr ns
                   | None \<Rightarrow> Inr (map int [0..<nat n])) of
               Inl e \<Rightarrow> (Inl e, st1)
             | Inr numa_map \<Rightarrow>
                 (let inst = \<lparr>ci_id = ps_next st1,
                              ci_config = \<lparr>subpool_count = n, subpool_numa_map = numa_map,
                                           subpool_thread_count = thread_split threads n\<rparr>\<rparr>
                  in (Inr inst,
                      st1\<lparr>ps_attr := dset (ps_attr st1) c (Some inst),
                          ps_next := Suc (ps_next st1)\<rparr>))))"

definition validate_base_config :: "int \<Rightarrow> int \<Rightarrow> int \<Rightarrow> int \<Rightarrow> unit result" where
  "validate_base_config num_experts hidden_size moe_intermediate_size num_experts_per_tok =
     (if num_experts \<le> 0 then Inl (ValueError ''num_experts must be positive'')
      else if hidden_size \<le> 0 then Inl (ValueError ''hidden_size must be positive'')
      else if moe_intermediate_size \<le> 0 then Inl (ValueError ''moe_intermediate_size must be positive'')
      else if num_experts_per_tok \<le> 0 then Inl (ValueError ''num_experts_per_tok must be positive'')
      else if num_experts_per_tok > num_experts
      then Inl (ValueError ''num_experts_per_tok cannot exceed num_experts'')
      else Inr ())"

section \<open>Lemmas on the pool\<close>

definition concrete_class :: "wrapper_class \<Rightarrow> bool" where
  "concrete_class c = (c \<in> {AMXMoE, NativeMoE, LlamafileMoE, GeneralMoE, AMXSFTMoE})"

lemma length_thread_split [simp]: "length (thread_split threads n) = nat n"
  by (simp add: thread_split_def)

lemma thread_split_bounds:
  "t \<in> set (thread_split threads n) \<Longrightarrow> threads div n \<le> t \<and> t \<le> threads div n + 1"
  by (auto simp: thread_split_def)

lemma thread_split_sum:
  assumes "0 < n"
  shows "sum_list (thread_split threads n) = threads"
proof -
  have r: "0 \<le> threads mod n" "threads mod n < n" using assms by auto
  have "sum_list (thread_split threads n) =
          int (nat n) * (threads div n)
          + sum_list (map (\<lambda>i. if i < nat (threads mod n) then (1::int) else 0) [0..<nat n])"
    unfolding thread_split_def
    by (subst sum_list_map_add_const)
       (use r in \<open>auto intro!: arg_cong [where f = sum_list] simp: zless_nat_eq_int_zless\<close>)
  also have "\<dots> = n * (threads div n) + threads mod n"
    using r assms by (subst sum_list_indicator) simp
  finally show ?thesis by simp
qed

lemma thread_split_positive:
  assumes "0 < n" "n \<le> threads" "t \<in> set (thread_split threads n)"
  shows "1 \<le> t"
proof -
  have "1 \<le> threads div n" using assms(1,2) by (simp add: pos_imp_zdiv_pos_iff int_one_le_iff_zero_less)
  then show ?thesis using thread_split_bounds [OF assms(3)] by linarith
qed

lemma attr_lookup_dset_other:
  "c \<notin> set cs \<Longrightarrow> attr_lookup (dset d c v) cs = attr_lookup d cs"
  by (induction cs) (auto split: option.splits)

lemma concrete_mro: "concrete_class c \<Longrightarrow> c' \<noteq> c \<Longrightarrow> c \<notin> set (mro c')"
  by (cases c; cases c') (auto simp: concrete_class_def)

lemma mro_hd: "\<exists>cs. mro c = c # cs"
  by (cases c) auto

text \<open>What one call does to the class attributes: a hit changes nothing, a miss sets \<open>cls\<close> only.\<close>

lemma get_cpu_infer_hit:
  "cpu_infer_instance st c = Some inst \<Longrightarrow> get_cpu_infer env c threads n numa st = (Inr inst, st)"
  by (simp add: get_cpu_infer_def)

lemma get_cpu_infer_miss:
  assumes "get_cpu_infer env c threads n numa st = (Inr inst, st')"
    and "cpu_infer_instance st c = None"
  shows "0 < n \<and> n \<le> threads \<and>
    inst = \<lparr>ci_id = ps_next st, ci_config = \<lparr>subpool_count = n,
        subpool_numa_map = (case numa of Some ns \<Rightarrow> ns | None \<Rightarrow> map int [0..<nat n]),
        subpool_thread_count = thread_split threads n\<rparr>\<rparr> \<and>
    (\<forall>ns. numa = Some ns \<longrightarrow> int (length ns) = n) \<and>
    ps_attr st' = dset (ps_attr st) c (Some inst) \<and> ps_next st' = Suc (ps_next st)"
  using assms
  by (auto simp: get_cpu_infer_def Let_def split: if_splits option.splits)

lemma get_cpu_infer_error_attr:
  "get_cpu_infer env c threads n numa st = (Inl e, st') \<Longrightarrow>
     ps_attr st' = ps_attr st \<and> ps_next st' = ps_next st"
  by (auto simp: get_cpu_infer_def Let_def split: if_splits option.splits)

lemma get_cpu_infer_other_class:
  assumes "get_cpu_infer env c threads n numa st = (r, st')"
    and "concrete_class c" "c' \<noteq> c"
  shows "cpu_infer_instance st' c' = cpu_infer_instance st c'"
proof (cases r)
  case (Inl e)
  with assms(1) show ?thesis
    using get_cpu_infer_error_attr by (fastforce simp: cpu_infer_instance_def)
next
  case (Inr inst)
  show ?thesis
  proof (cases "cpu_infer_instance st c")
    case None
    with assms(1) Inr have "ps_attr st' = dset (ps_attr st) c (Some inst)"
      using get_cpu_infer_miss by blast
    then show ?thesis
      by (simp add: cpu_infer_instance_def attr_lookup_dset_other concrete_mro assms(2,3))
  next
    case (Some i)
    with assms(1) show ?thesis using get_cpu_infer_hit [OF Some] by simp
  qed
qed

lemma get_cpu_infer_own_class:
  assumes "get_cpu_infer env c threads n numa st = (Inr inst, st')"
  shows "cpu_infer_instance st' c = Some inst"
proof (cases "cpu_infer_instance st c")
  case None
  then have "ps_attr st' = dset (ps_attr st) c (Some inst)"
    using get_cpu_infer_miss [OF assms] by simp
  moreover obtain cs where "mro c = c # cs" using mro_hd by blast
  ultimately show ?thesis by (simp add: cpu_infer_instance_def)
next
  case (Some i)
  then show ?thesis using assms get_cpu_infer_hit [OF Some] by simp
qed

section \<open>Runs of wrapper constructions\<close>

text \<open>
  The concrete wrapper classes, the only ones that are instantiated; every constructor calls
  \<open>self._get_cpu_infer(...)\<close>, so \<open>cls\<close> is the concrete class.
\<close>

datatype backend = AMXBackend | NativeBackend | LlamafileBackend | GeneralBackend | SFTBackend

fun class_of :: "backend \<Rightarrow> wrapper_class" where
  "class_of AMXBackend = AMXMoE"
| "class_of NativeBackend = NativeMoE"
| "class_of LlamafileBackend = LlamafileMoE"
| "class_of GeneralBackend = GeneralMoE"
| "class_of SFTBackend = AMXSFTMoE"

record pool_call =
  pc_env :: dev_env
  pc_backend :: backend
  pc_threads :: int
  pc_count :: int
  pc_numa :: "int list option"

definition pool_step :: "pool_state \<Rightarrow> pool_call \<Rightarrow> pool_state" where
  "pool_step st e =
     snd (get_cpu_infer (pc_env e) (class_of (pc_backend e)) (pc_threads e) (pc_count e) (pc_numa e) st)"

lemma class_of_concrete [simp]: "concrete_class (class_of b)"
  by (cases b) (auto simp: concrete_class_def)

lemma class_of_inj [simp]: "class_of b = class_of b' \<longleftrightarrow> b = b'"
  by (cases b; cases b') auto

lemma class_of_not_base [simp]: "MoEBase \<noteq> class_of b" "class_of b \<noteq> MoEBase"
  by (cases b; simp)+

definition pool_wf :: "pool_state \<Rightarrow> bool" where
  "pool_wf st \<longleftrightarrow> cpu_infer_instance st MoEBase = None \<and>
     (\<forall>b inst. cpu_infer_instance st (class_of b) = Some inst \<longrightarrow> ci_id inst < ps_next st) \<and>
     (\<forall>b b' inst inst'. cpu_infer_instance st (class_of b) = Some inst \<longrightarrow>
        cpu_infer_instance st (class_of b') = Some inst' \<longrightarrow> ci_id inst = ci_id inst' \<longrightarrow> b = b')"

lemma pool_wf_init: "pool_wf init_pool_state"
proof -
  have "cpu_infer_instance init_pool_state (class_of b) = None" for b
    by (cases b) (simp_all add: cpu_infer_instance_def init_pool_state_def)
  moreover have "cpu_infer_instance init_pool_state MoEBase = None"
    by (simp add: cpu_infer_instance_def init_pool_state_def)
  ultimately show ?thesis
    by (simp add: pool_wf_def)
qed

lemma pool_wf_get:
  assumes wf: "pool_wf st"
    and g: "get_cpu_infer env (class_of b) threads n numa st = (r, st')"
  shows "pool_wf st'"
proof -
  have base: "cpu_infer_instance st' MoEBase = None"
    using get_cpu_infer_other_class [OF g] wf by (simp add: pool_wf_def)
  have other: "cpu_infer_instance st' (class_of b') = cpu_infer_instance st (class_of b')" if "b' \<noteq> b" for b'
    using get_cpu_infer_other_class [OF g] that by simp
  consider (same) "cpu_infer_instance st' (class_of b) = cpu_infer_instance st (class_of b)"
      "ps_next st' = ps_next st"
    | (fresh) inst where "cpu_infer_instance st' (class_of b) = Some inst"
      "ci_id inst = ps_next st" "ps_next st' = Suc (ps_next st)"
  proof (cases r)
    case (Inl e)
    then show ?thesis
      using that(1) get_cpu_infer_error_attr g by (fastforce simp: cpu_infer_instance_def)
  next
    case (Inr inst)
    show ?thesis
    proof (cases "cpu_infer_instance st (class_of b)")
      case None
      show ?thesis
        using that(2) get_cpu_infer_own_class get_cpu_infer_miss [OF _ None] g Inr by fastforce
    next
      case (Some i)
      show ?thesis using that(1) g get_cpu_infer_hit [OF Some] by simp
    qed
  qed
  then show ?thesis
  proof cases
    case same
    have "cpu_infer_instance st' (class_of b') = cpu_infer_instance st (class_of b')" for b'
      using same(1) other by (cases "b' = b") auto
    then show ?thesis using wf base same(2) by (simp add: pool_wf_def)
  next
    case (fresh inst)
    have old: "ci_id i < ps_next st" if "cpu_infer_instance st (class_of b') = Some i" for b' i
      using wf that unfolding pool_wf_def by blast
    have new: "cpu_infer_instance st' (class_of b') =
                 (if b' = b then Some inst else cpu_infer_instance st (class_of b'))" for b'
      using fresh(1) other by simp
    have bound: "ci_id i < ps_next st'" if "cpu_infer_instance st' (class_of b') = Some i" for b' i
      using that old [of b' i] fresh(2,3) by (auto simp: new split: if_splits)
    have uniq: "b1 = b2"
      if "cpu_infer_instance st' (class_of b1) = Some i1" "cpu_infer_instance st' (class_of b2) = Some i2"
        "ci_id i1 = ci_id i2" for b1 b2 i1 i2
      using that old [of b1 i1] old [of b2 i2] fresh(2) wf
      by (cases "b1 = b"; cases "b2 = b") (auto simp: new pool_wf_def)
    show ?thesis using base bound uniq unfolding pool_wf_def by blast
  qed
qed

interpretation pool: step_machine pool_step pool_wf
  by unfold_locales (metis pool_step_def pool_wf_get prod.collapse)

section \<open>Properties of the pool\<close>

text \<open>
  When a wrapper construction creates the pool, every NUMA subpool gets at least one worker
  thread, the per-subpool counts differ by at most one, and together they are exactly
  \<open>cpuinfer_threads\<close>.
\<close>

theorem pool_threads_partition:
  assumes "get_cpu_infer env c threads n numa st = (Inr inst, st')"
    and "cpu_infer_instance st c = None"
  shows "let counts = subpool_thread_count (ci_config inst) in
           int (length counts) = n \<and> int (length (subpool_numa_map (ci_config inst))) = n
           \<and> sum_list counts = threads
           \<and> (\<forall>t \<in> set counts. 1 \<le> t \<and> threads div n \<le> t \<and> t \<le> threads div n + 1)"
proof -
  note miss = get_cpu_infer_miss [OF assms]
  then have n: "0 < n" "n \<le> threads" by auto
  have counts: "subpool_thread_count (ci_config inst) = thread_split threads n" using miss by simp
  have numa: "int (length (subpool_numa_map (ci_config inst))) = n"
    using miss n by (cases numa) auto
  show ?thesis
    unfolding counts Let_def
    using n numa thread_split_sum thread_split_bounds thread_split_positive by auto
qed

definition idle_env :: dev_env where
  "idle_env = \<lparr>env_force_sync = [], env_external_sub = [], ext_has_init = False,
     ext_init_raises = False, ext_worker_probe = None, npu_available = None,
     sglang_capture = None, capture_probe = (\<lambda>_. Some (Some False)), has_synchronize = (\<lambda>_. True)\<rparr>"

definition sample_pool :: cpuinfer where
  "sample_pool = \<lparr>ci_id = 0, ci_config = \<lparr>subpool_count = 3, subpool_numa_map = [0, 1, 2],
     subpool_thread_count = [4, 3, 3]\<rparr>\<rparr>"

lemma sample_pool_created:
  "fst (get_cpu_infer idle_env AMXMoE 10 3 None init_pool_state) = Inr sample_pool"
  "cpu_infer_instance init_pool_state AMXMoE = None"
  by (simp_all add: get_cpu_infer_def cpu_infer_instance_def init_pool_state_def idle_env_def
      sample_pool_def thread_split_def acl_on_pool_start_def upt_rec Let_def)

theorem pool_threads_partition_witness:
  "sum_list (subpool_thread_count (ci_config sample_pool)) = 10"
proof -
  have "get_cpu_infer idle_env AMXMoE 10 3 None init_pool_state
          = (Inr sample_pool, snd (get_cpu_infer idle_env AMXMoE 10 3 None init_pool_state))"
    by (simp add: prod_eq_iff sample_pool_created)
  from pool_threads_partition [OF this sample_pool_created(2)] show ?thesis
    by (simp add: Let_def)
qed

text \<open>
  Whatever wrappers are constructed, in whatever order, the attribute read as
  \<open>_MoEBase._cpu_infer_instance\<close> stays \<open>None\<close> (the assignment goes to the concrete class), and two
  different backend classes never share a CPUInfer: the "singleton" is one per backend class.
\<close>

theorem pool_never_set_on_base:
  "let st = run_steps pool_step init_pool_state calls in
     cpu_infer_instance st MoEBase = None \<and>
     \<not> (\<exists>b b' i i'. b \<noteq> b' \<and> cpu_infer_instance st (class_of b) = Some i \<and>
          cpu_infer_instance st (class_of b') = Some i' \<and> ci_id i = ci_id i')"
  using pool.run_inv [OF pool_wf_init, of calls] unfolding pool_wf_def Let_def by blast

end
