(* ===== verification/Placement.thy ===== *)
theory Placement
  imports Prelude
begin

text \<open>
  Expert placement of \<open>kt-kernel/python/experts_base.py\<close>: \<open>generate_gpu_experts_masks\<close> (which
  experts live on the GPU), \<open>BaseMoEWrapper.select_deferred_experts\<close> (which experts of a batch are
  computed now and which one layer later) and \<open>_temporary_all_cpu_experts_mask\<close>.

  \<open>torch.topk\<close> is not in the repository: it is the parameter \<open>topk\<close>, and \<open>topk_ok\<close> is its
  documented behaviour (\<open>k\<close> distinct positions whose values are the largest, in any order).
  A two-dimensional tensor is a shape with its row-major data, or a list of rows.
\<close>

section \<open>Tensors and \<open>topk\<close>\<close>

record 'a tensor2 =
  t_rows :: nat
  t_cols :: nat
  t_data :: "'a list"

definition tensor_wf :: "'a tensor2 \<Rightarrow> bool" where
  "tensor_wf t = (length (t_data t) = t_rows t * t_cols t)"

type_synonym 'f topk = "'f list \<Rightarrow> nat \<Rightarrow> nat list"

definition topk_ok :: "('f::linorder) topk \<Rightarrow> 'f list \<Rightarrow> nat \<Rightarrow> bool" where
  "topk_ok topk xs k =
     (length (topk xs k) = k \<and> distinct (topk xs k) \<and> (\<forall>i \<in> set (topk xs k). i < length xs) \<and>
      (\<forall>i \<in> set (topk xs k). \<forall>j < length xs. j \<notin> set (topk xs k) \<longrightarrow> xs ! j \<le> xs ! i))"

text \<open>A concrete \<open>topk\<close>, for the witnesses: sort the positions by decreasing value.\<close>

definition topk_sort :: "int topk" where
  "topk_sort xs k = take k (sort_key (\<lambda>i. - (xs ! i)) [0..<length xs])"

section \<open>\<open>generate_gpu_experts_masks\<close>\<close>

definition clamp_experts :: "int \<Rightarrow> nat \<Rightarrow> nat" where
  "clamp_experts num_gpu_experts tot = nat (max (min num_gpu_experts (int tot)) 0)"

definition generate_gpu_experts_masks ::
  "'f topk \<Rightarrow> 'f tensor2 \<Rightarrow> int \<Rightarrow> bool tensor2" where
  "generate_gpu_experts_masks topk freq num_gpu_experts =
     (let tot = t_rows freq * t_cols freq;
          k = clamp_experts num_gpu_experts tot
      in if k = 0
         then \<lparr>t_rows = t_rows freq, t_cols = t_cols freq, t_data = replicate tot False\<rparr>
         else (let top_indices = topk (t_data freq) k
               in \<lparr>t_rows = t_rows freq, t_cols = t_cols freq,
                   t_data = map (\<lambda>i. i \<in> set top_indices) [0..<tot]\<rparr>))"

section \<open>\<open>select_deferred_experts\<close>\<close>

definition expert_valid :: "int \<Rightarrow> int \<Rightarrow> bool" where
  "expert_valid num_experts e = (0 \<le> e \<and> e < num_experts)"

definition clamp_protected :: "int \<Rightarrow> nat \<Rightarrow> nat" where
  "clamp_protected protected_k topk_cols = nat (max 0 (min protected_k (int topk_cols)))"

text \<open>
  The experts flagged by the scatter: the valid ones among the \<open>protected_k\<close> best-scored ids of
  any row of the batch. The flag is indexed by expert only, so it is shared by all rows.
\<close>

definition protected_experts ::
  "'f topk \<Rightarrow> int \<Rightarrow> nat \<Rightarrow> int list list \<Rightarrow> 'f list list \<Rightarrow> int list" where
  "protected_experts topk num_experts k expert_ids scores =
     filter (expert_valid num_experts)
       (concat (map (\<lambda>(ids, sc). map (\<lambda>i. ids ! i) (topk sc k)) (zip expert_ids scores)))"

definition protected_mask :: "int \<Rightarrow> int list \<Rightarrow> int \<Rightarrow> bool" where
  "protected_mask num_experts flagged e = (expert_valid num_experts e \<and> e \<in> set flagged)"

definition select_deferred_experts ::
  "'f topk \<Rightarrow> int \<Rightarrow> nat \<Rightarrow> int list list \<Rightarrow> 'f list list \<Rightarrow> int \<Rightarrow> int list list \<times> int list list" where
  "select_deferred_experts topk num_experts cols expert_ids scores protected_k =
     (let k = clamp_protected protected_k cols in
      if k = 0 then (map (map (\<lambda>_. -1)) expert_ids, expert_ids)
      else
        (let flagged = protected_experts topk num_experts k expert_ids scores;
             flag = protected_mask num_experts flagged
         in (map (map (\<lambda>e. if \<not> flag e then -1 else e)) expert_ids,
             map (map (\<lambda>e. if flag e then -1 else e)) expert_ids)))"

section \<open>\<open>_temporary_all_cpu_experts_mask\<close>\<close>

text \<open>
  The context manager around a body that may raise and may change the mask in place; the
  \<open>finally\<close> block copies the saved mask back on both exits.
\<close>

definition with_all_cpu_mask ::
  "bool \<Rightarrow> (bool list \<Rightarrow> 'a result \<times> bool list) \<Rightarrow> bool list \<Rightarrow> 'a result \<times> bool list" where
  "with_all_cpu_mask enabled body gmask =
     (if \<not> enabled then body gmask
      else (let saved_mask = gmask;
                zeroed = map (\<lambda>_. False) gmask;
                (r, _) = body zeroed
            in (r, saved_mask)))"

section \<open>Lemmas\<close>

lemma clamp_experts_le [simp]: "clamp_experts n tot \<le> tot"
  by (simp add: clamp_experts_def)

lemma clamp_protected_le [simp]: "clamp_protected k cols \<le> cols"
  by (simp add: clamp_protected_def)

lemma count_index_mask:
  assumes "distinct ix" "\<forall>i \<in> set ix. i < n"
  shows "length (filter (\<lambda>b. b) (map (\<lambda>i. i \<in> set ix) [0..<n])) = length ix"
proof -
  have "length (filter (\<lambda>b. b) (map (\<lambda>i. i \<in> set ix) [0..<n])) = length (filter (\<lambda>i. i \<in> set ix) [0..<n])"
    by (simp add: filter_map comp_def)
  also have "\<dots> = card (set (filter (\<lambda>i. i \<in> set ix) [0..<n]))"
    by (rule distinct_card [symmetric]) simp
  also have "set (filter (\<lambda>i. i \<in> set ix) [0..<n]) = set ix" using assms(2) by auto
  finally show ?thesis using assms(1) by (simp add: distinct_card)
qed

lemma mask_shape:
  "t_rows (generate_gpu_experts_masks topk freq n) = t_rows freq"
  "t_cols (generate_gpu_experts_masks topk freq n) = t_cols freq"
  "tensor_wf (generate_gpu_experts_masks topk freq n)"
  by (simp_all add: generate_gpu_experts_masks_def Let_def tensor_wf_def)

lemma deferred_row_partition:
  "(if \<not> m e then -1 else e) = (e::int) \<and> (if m e then -1 else e) = -1 \<or>
   (if \<not> m e then -1 else e) = -1 \<and> (if m e then -1 else e) = e"
  by simp

lemma length_filter_nth:
  "length (filter P xs) = card {i. i < length xs \<and> P (xs ! i)}"
  by (simp add: length_filter_conv_card)

text \<open>The ids a row keeps for later are at the positions outside the row's own top \<open>k\<close>.\<close>

lemma deferred_position_outside_topk:
  assumes "r < length expert_ids" "length scores = length expert_ids"
    and "i \<in> set (topk (scores ! r) k)" "expert_valid num_experts (expert_ids ! r ! i)"
  shows "protected_mask num_experts (protected_experts topk num_experts k expert_ids scores)
           (expert_ids ! r ! i)"
proof -
  have "(expert_ids ! r, scores ! r) \<in> set (zip expert_ids scores)"
    using assms(1,2) by (metis in_set_zip fst_conv snd_conv)
  then have "expert_ids ! r ! i \<in> set (protected_experts topk num_experts k expert_ids scores)"
    using assms(3,4) by (auto simp: protected_experts_def intro!: bexI)
  then show ?thesis using assms(4) by (simp add: protected_mask_def)
qed

lemma topk_sort_ok: "k \<le> length xs \<Longrightarrow> topk_ok topk_sort xs k"
proof -
  assume k: "k \<le> length xs"
  let ?l = "sort_key (\<lambda>i. - (xs ! i)) [0..<length xs]"
  have d: "distinct ?l" and st: "set ?l = {0..<length xs}" by simp_all
  have ln: "length ?l = length xs" by simp
  have "xs ! j \<le> xs ! i"
    if i: "i \<in> set (take k ?l)" and j: "j < length xs" "j \<notin> set (take k ?l)" for i j
  proof -
    have "j \<in> set ?l" using j(1) st by simp
    then have jd: "j \<in> set (drop k ?l)"
      using j(2) by (metis Un_iff append_take_drop_id set_append)
    have "sorted (map (\<lambda>i. - (xs ! i)) (take k ?l @ drop k ?l))" by simp
    then have "- (xs ! i) \<le> - (xs ! j)"
      using i jd unfolding map_append sorted_append by auto
    then show ?thesis by simp
  qed
  moreover have "\<forall>i \<in> set (take k ?l). i < length xs"
    using st by (auto dest: in_set_takeD)
  ultimately show ?thesis
    using k d ln by (auto simp: topk_ok_def topk_sort_def distinct_take)
qed

section \<open>Properties of placement\<close>

text \<open>
  The mask has the shape of the frequency table, marks exactly the requested number of
  experts (clamped to what exists), and no expert left on the CPU is activated more often than an
  expert placed on the GPU.
\<close>

theorem gpu_mask_selects_most_active:
  assumes "tensor_wf freq"
    and "topk_ok topk (t_data freq) (clamp_experts n (t_rows freq * t_cols freq))"
  shows "let m = generate_gpu_experts_masks topk freq n in
     t_rows m = t_rows freq \<and> t_cols m = t_cols freq \<and> tensor_wf m \<and>
     length (filter (\<lambda>b. b) (t_data m)) = clamp_experts n (t_rows freq * t_cols freq) \<and>
     \<not> (\<exists>i j. i < length (t_data m) \<and> j < length (t_data m) \<and> t_data m ! i \<and> \<not> t_data m ! j
          \<and> t_data freq ! i < t_data freq ! j)"
proof (cases "clamp_experts n (t_rows freq * t_cols freq) = 0")
  case True
  then show ?thesis
    by (auto simp: generate_gpu_experts_masks_def Let_def tensor_wf_def)
next
  case False
  let ?tot = "t_rows freq * t_cols freq"
  let ?ix = "topk (t_data freq) (clamp_experts n ?tot)"
  have data: "t_data (generate_gpu_experts_masks topk freq n) = map (\<lambda>i. i \<in> set ?ix) [0..<?tot]"
    using False by (simp add: generate_gpu_experts_masks_def Let_def)
  have ix: "length ?ix = clamp_experts n ?tot" "distinct ?ix" "\<forall>i \<in> set ?ix. i < ?tot"
    "\<forall>i \<in> set ?ix. \<forall>j < ?tot. j \<notin> set ?ix \<longrightarrow> t_data freq ! j \<le> t_data freq ! i"
    using assms by (simp_all add: topk_ok_def tensor_wf_def)
  have "length (filter (\<lambda>b. b) (map (\<lambda>i. i \<in> set ?ix) [0..<?tot])) = clamp_experts n ?tot"
    using count_index_mask [OF ix(2,3)] ix(1) by simp
  moreover have "\<not> (\<exists>i j. i < ?tot \<and> j < ?tot \<and> i \<in> set ?ix \<and> j \<notin> set ?ix \<and> t_data freq ! i < t_data freq ! j)"
    using ix(4) by (meson leD)
  ultimately show ?thesis
    by (simp only: Let_def mask_shape data length_map length_upt diff_zero nth_map_upt) auto
qed

definition sample_freq :: "int tensor2" where
  "sample_freq = \<lparr>t_rows = 2, t_cols = 4, t_data = [1, 5, 3, 8, 2, 4, 9, 1]\<rparr>"

theorem gpu_mask_selects_most_active_witness:
  "t_data (generate_gpu_experts_masks topk_sort sample_freq 3)
     = [False, True, False, True, False, False, True, False] \<and>
   length (filter (\<lambda>b. b) (t_data (generate_gpu_experts_masks topk_sort sample_freq 3))) = 3"
proof -
  have wf: "tensor_wf sample_freq" by (simp add: tensor_wf_def sample_freq_def)
  have k: "clamp_experts 3 (t_rows sample_freq * t_cols sample_freq) = 3"
    by (simp add: clamp_experts_def sample_freq_def)
  have tk: "topk_ok topk_sort (t_data sample_freq) (clamp_experts 3 (t_rows sample_freq * t_cols sample_freq))"
    by (rule topk_sort_ok) (simp add: k, simp add: sample_freq_def)
  have "t_data (generate_gpu_experts_masks topk_sort sample_freq 3)
     = [False, True, False, True, False, False, True, False]"
    by code_simp
  then show ?thesis
    using gpu_mask_selects_most_active [OF wf tk] unfolding Let_def k by blast
qed

text \<open>
  C25. Deferral splits every token's experts: at each position the id goes either to the immediate
  or to the deferred tensor and the other gets \<open>-1\<close>; and with \<open>num_experts_per_tok - max_deferred\<close>
  protected experts, a token whose routed ids are valid has at most \<open>max_deferred\<close> deferred ones.
\<close>

theorem deferral_partition_and_bound:
  assumes "r < length expert_ids" "length scores = length expert_ids"
    and "length (expert_ids ! r) = cols" "length (scores ! r) = cols"
    and "\<forall>e \<in> set (expert_ids ! r). expert_valid num_experts e"
    and "topk_ok topk (scores ! r) (clamp_protected protected_k cols)"
  shows "let (imm, dfr) = select_deferred_experts topk num_experts cols expert_ids scores protected_k in
     length (imm ! r) = cols \<and> length (dfr ! r) = cols \<and>
     \<not> (\<exists>i < cols. \<not> (imm ! r ! i = expert_ids ! r ! i \<and> dfr ! r ! i = -1 \<or>
                       imm ! r ! i = -1 \<and> dfr ! r ! i = expert_ids ! r ! i)) \<and>
     length (filter (\<lambda>e. e \<noteq> -1) (dfr ! r)) \<le> cols - clamp_protected protected_k cols"
proof (cases "clamp_protected protected_k cols = 0")
  case True
  have "length (filter (\<lambda>e. e \<noteq> -1) (expert_ids ! r)) \<le> cols"
    using assms(3) by (metis length_filter_le)
  with True show ?thesis
    using assms(1,3) by (simp add: select_deferred_experts_def)
next
  case False
  let ?k = "clamp_protected protected_k cols"
  let ?m = "protected_mask num_experts (protected_experts topk num_experts ?k expert_ids scores)"
  let ?ix = "topk (scores ! r) ?k"
  have sel: "select_deferred_experts topk num_experts cols expert_ids scores protected_k =
      (map (map (\<lambda>e. if \<not> ?m e then -1 else e)) expert_ids, map (map (\<lambda>e. if ?m e then -1 else e)) expert_ids)"
    using False by (simp add: select_deferred_experts_def Let_def)
  have "{i. i < cols \<and> map (\<lambda>e. if ?m e then -1 else e) (expert_ids ! r) ! i \<noteq> -1} \<subseteq> {..<cols} - set ?ix"
  proof (rule subsetI)
    fix i assume "i \<in> {i. i < cols \<and> map (\<lambda>e. if ?m e then -1 else e) (expert_ids ! r) ! i \<noteq> -1}"
    then have i: "i < cols" and ne: "\<not> ?m (expert_ids ! r ! i)"
      using assms(3) by (auto split: if_splits)
    have "expert_valid num_experts (expert_ids ! r ! i)" using assms(3,5) i by simp
    then have "i \<notin> set ?ix"
      using deferred_position_outside_topk [of r expert_ids scores i topk ?k num_experts,
          OF assms(1,2)] ne by blast
    with i show "i \<in> {..<cols} - set ?ix" by simp
  qed
  then have "card {i. i < cols \<and> map (\<lambda>e. if ?m e then -1 else e) (expert_ids ! r) ! i \<noteq> -1}
               \<le> card ({..<cols} - set ?ix)"
    by (intro card_mono) auto
  also have "\<dots> = cols - ?k"
    using assms(4,6) by (subst card_Diff_subset) (auto simp: topk_ok_def distinct_card)
  finally have "length (filter (\<lambda>e. e \<noteq> -1) (map (\<lambda>e. if ?m e then -1 else e) (expert_ids ! r))) \<le> cols - ?k"
    by (simp add: length_filter_nth assms(3))
  then show ?thesis
    using assms(1,3) by (simp add: sel)
qed

theorem deferral_partition_and_bound_witness:
  "select_deferred_experts topk_sort 8 3 [[4, 1, 6], [2, 4, 0]] [[10, 7, 3], [9, 2, 5]] 2
     = ([[4, 1, -1], [2, 4, 0]], [[-1, -1, 6], [-1, -1, -1]]) \<and>
   length (filter (\<lambda>e. e \<noteq> -1) (snd (select_deferred_experts topk_sort 8 3
      [[4, 1, 6], [2, 4, 0]] [[10, 7, 3], [9, 2, 5]] 2) ! 0)) \<le> 3 - clamp_protected 2 3"
proof -
  have tk: "topk_ok topk_sort ([[10, 7, 3], [9, 2, 5]] ! 0) (clamp_protected 2 3)"
    by (rule topk_sort_ok) (simp add: clamp_protected_def)
  have ev: "select_deferred_experts topk_sort 8 3 [[4, 1, 6], [2, 4, 0]] [[10, 7, 3], [9, 2, 5]] 2
     = ([[4, 1, -1], [2, 4, 0]], [[-1, -1, 6], [-1, -1, -1]])"
    by code_simp
  show ?thesis
    using deferral_partition_and_bound [of 0 "[[4, 1, 6], [2, 4, 0]]" "[[10, 7, 3], [9, 2, 5]]" 3 8, OF _ _ _ _ _ tk]
    by (simp add: ev expert_valid_def)
qed

end
