(* ===== verification/BufferCache.thy ===== *)
theory BufferCache
  imports WorkerPool
begin

text \<open>
  \<open>KExpertsCPUBuffer\<close> of \<open>kt-kernel/python/experts_base.py\<close>: the pinned staging buffers shared by all
  layers. \<open>capture_buffers\<close> are permanent (CUDA-graph host nodes keep raw pointers into them),
  \<open>temp_buffers\<close> is an \<open>OrderedDict\<close> used as an LRU, oldest entry first. A buffer is identified by
  its allocation (\<open>buf_id\<close>) and the shape it was allocated for; its contents are the subject of
  theory \<open>MoEForward\<close>. The effects of an operation on the device and on the CPU task queue are
  returned as a list of \<open>cache_event\<close>s.
\<close>

section \<open>State\<close>

record kbuffer =
  buf_id :: nat
  buf_batch :: nat
  buf_hidden :: nat
  buf_topk :: nat

record cache =
  capture_bs :: "nat list"
  capture_buffers :: "(nat, kbuffer) dict"
  temp_buffers :: "(nat, kbuffer) dict"
  max_temp_buffer_sizes :: int
  next_buf :: nat

datatype cache_event = DeviceWait wait_outcome | CpuDrain nat | Drop nat

definition init_cache :: "int \<Rightarrow> cache" where
  "init_cache n = \<lparr>capture_bs = [], capture_buffers = [], temp_buffers = [],
                   max_temp_buffer_sizes = n, next_buf = 0\<rparr>"

section \<open>Operations\<close>

definition move_to_end :: "('k, 'v) dict \<Rightarrow> 'k \<Rightarrow> 'v \<Rightarrow> ('k, 'v) dict" where
  "move_to_end d k v = ddel d k @ [(k, v)]"

text \<open>\<open>cpu_infer.sync(0)\<close> on the object read as \<open>_MoEBase._cpu_infer_instance\<close>, if there is one.\<close>

definition drain_base_instance :: "pool_state \<Rightarrow> cache_event list" where
  "drain_base_instance ps =
     (case cpu_infer_instance ps MoEBase of None \<Rightarrow> [] | Some inst \<Rightarrow> [CpuDrain (ci_id inst)])"

definition evict_oldest_temp_buffer ::
  "dev_env \<Rightarrow> pool_state \<Rightarrow> device \<Rightarrow> cache \<Rightarrow> cache_event list result \<times> cache" where
  "evict_oldest_temp_buffer env ps dev st =
     (if graph_capture_active env dev then (Inr [], st)
      else case wait_device env dev of
             Inl e \<Rightarrow> (Inl e, st)
           | Inr w \<Rightarrow>
               (case temp_buffers st of
                  [] \<Rightarrow> (Inl (KeyError ''popitem''), st)
                | (k, b) # rest \<Rightarrow>
                    (Inr (DeviceWait w # drain_base_instance ps @ [Drop (buf_id b)]),
                     st\<lparr>temp_buffers := rest\<rparr>)))"

definition new_buffer :: "nat \<Rightarrow> nat \<Rightarrow> nat \<Rightarrow> cache \<Rightarrow> kbuffer" where
  "new_buffer batch hidden topk st =
     \<lparr>buf_id = next_buf st, buf_batch = batch, buf_hidden = hidden, buf_topk = topk\<rparr>"

definition get_buffer ::
  "dev_env \<Rightarrow> pool_state \<Rightarrow> device \<Rightarrow> nat \<Rightarrow> nat \<Rightarrow> nat \<Rightarrow> cache
     \<Rightarrow> (kbuffer \<times> cache_event list) result \<times> cache" where
  "get_buffer env ps dev batch hidden topk st =
     (case dget (capture_buffers st) batch of
        Some b \<Rightarrow> (Inr (b, []), st)
      | None \<Rightarrow>
        (case dget (temp_buffers st) batch of
           Some b \<Rightarrow>
             (if batch \<in> set (capture_bs st) \<or> graph_capture_active env dev
              then (Inr (b, []), st\<lparr>capture_buffers := dset (capture_buffers st) batch b,
                                     temp_buffers := ddel (temp_buffers st) batch\<rparr>)
              else (Inr (b, []), st\<lparr>temp_buffers := move_to_end (temp_buffers st) batch b\<rparr>))
         | None \<Rightarrow>
             (let cur = new_buffer batch hidden topk st;
                  st1 = st\<lparr>next_buf := Suc (next_buf st)\<rparr> in
              if batch \<in> set (capture_bs st) \<or> graph_capture_active env dev
              then (Inr (cur, []), st1\<lparr>capture_buffers := dset (capture_buffers st1) batch cur\<rparr>)
              else
                (let st2 = st1\<lparr>temp_buffers := dset (temp_buffers st1) batch cur\<rparr> in
                 if int (length (temp_buffers st2)) > max_temp_buffer_sizes st2
                 then (case evict_oldest_temp_buffer env ps dev st2 of
                         (Inl e, st3) \<Rightarrow> (Inl e, st3)
                       | (Inr evs, st3) \<Rightarrow> (Inr (cur, evs), st3))
                 else (Inr (cur, []), st2)))))"

definition set_capture_batch_sizes :: "nat list \<Rightarrow> cache \<Rightarrow> cache" where
  "set_capture_batch_sizes bs st = st\<lparr>capture_bs := bs\<rparr>"

definition get_capture_batch_sizes :: "cache \<Rightarrow> nat list" where
  "get_capture_batch_sizes st = capture_bs st"

definition clear_buffer_cache :: "bool \<Rightarrow> pool_state \<Rightarrow> cache \<Rightarrow> cache_event list \<times> cache" where
  "clear_buffer_cache cuda_available ps st =
     ((if cuda_available then [DeviceWait WaitSynchronized] else []) @ drain_base_instance ps
        @ map (\<lambda>p. Drop (buf_id (snd p))) (temp_buffers st),
      st\<lparr>temp_buffers := []\<rparr>)"

text \<open>The cache as a state machine: one event per public entry point.\<close>

datatype cache_op =
    GetBuffer dev_env pool_state device nat nat nat
  | SetCapture "nat list"
  | ClearCache bool pool_state

fun cache_step :: "cache \<Rightarrow> cache_op \<Rightarrow> cache" where
  "cache_step st (GetBuffer env ps dev batch hidden topk) = snd (get_buffer env ps dev batch hidden topk st)"
| "cache_step st (SetCapture bs) = set_capture_batch_sizes bs st"
| "cache_step st (ClearCache cuda ps) = snd (clear_buffer_cache cuda ps st)"

section \<open>Well-formedness\<close>

definition dict_ok :: "nat \<Rightarrow> (nat, kbuffer) dict \<Rightarrow> bool" where
  "dict_ok n d \<longleftrightarrow> dwf d \<and> (\<forall>k b. dget d k = Some b \<longrightarrow> buf_batch b = k \<and> buf_id b < n)"

definition cache_wf :: "cache \<Rightarrow> bool" where
  "cache_wf st \<longleftrightarrow> dict_ok (next_buf st) (capture_buffers st) \<and> dict_ok (next_buf st) (temp_buffers st)
     \<and> (\<forall>k. \<not> (dmem (capture_buffers st) k \<and> dmem (temp_buffers st) k))"

lemma dict_ok_mono: "dict_ok n d \<Longrightarrow> n \<le> m \<Longrightarrow> dict_ok m d"
  by (fastforce simp: dict_ok_def)

lemma dict_ok_dset:
  "dict_ok n d \<Longrightarrow> buf_batch b = k \<Longrightarrow> buf_id b < n \<Longrightarrow> dict_ok n (dset d k b)"
  by (auto simp: dict_ok_def split: if_splits)

lemma dict_ok_ddel: "dict_ok n d \<Longrightarrow> dict_ok n (ddel d k)"
  by (auto simp: dict_ok_def split: if_splits)

lemma dict_ok_tl: "dict_ok n ((k, b) # d) \<Longrightarrow> dict_ok n d"
  unfolding dict_ok_def dwf_simps dget_simps by (metis dget_Some_dmem fst_conv)

lemma move_to_end_eq: "move_to_end d k v = dset (ddel d k) k v"
  by (simp add: move_to_end_def dset_fresh)

lemma length_move_to_end: "dwf d \<Longrightarrow> dmem d k \<Longrightarrow> length (move_to_end d k v) = length d"
  by (cases d) (auto simp: move_to_end_def length_ddel)

lemma init_cache_wf: "cache_wf (init_cache n)"
  by (simp add: cache_wf_def dict_ok_def init_cache_def)

lemma evict_cases:
  assumes "evict_oldest_temp_buffer env ps dev st = (r, st')"
  shows "st' = st \<or> (\<exists>k b rest. temp_buffers st = (k, b) # rest \<and> st' = st\<lparr>temp_buffers := rest\<rparr>)"
  using assms
  by (auto simp: evict_oldest_temp_buffer_def split: if_splits sum.splits list.splits prod.splits)

lemma evict_wf:
  assumes "evict_oldest_temp_buffer env ps dev st = (r, st')" "cache_wf st"
  shows "cache_wf st'"
  using evict_cases [OF assms(1)] assms(2)
  by (auto simp: cache_wf_def intro: dict_ok_tl)

lemma evict_capture:
  "evict_oldest_temp_buffer env ps dev st = (r, st') \<Longrightarrow>
     capture_buffers st' = capture_buffers st \<and> max_temp_buffer_sizes st' = max_temp_buffer_sizes st"
  using evict_cases by fastforce

text \<open>The four outcomes of \<open>get_buffer\<close>: hit, promotion, LRU touch, and allocation.\<close>

lemma get_buffer_cases:
  assumes g: "get_buffer env ps dev batch hidden topk st = (r, st')"
  obtains
    (hit) b where "dget (capture_buffers st) batch = Some b" "r = Inr (b, [])" "st' = st"
  | (promote) b where "dget (capture_buffers st) batch = None" "dget (temp_buffers st) batch = Some b"
      "batch \<in> set (capture_bs st) \<or> graph_capture_active env dev" "r = Inr (b, [])"
      "st' = st\<lparr>capture_buffers := dset (capture_buffers st) batch b,
                temp_buffers := ddel (temp_buffers st) batch\<rparr>"
  | (touch) b where "dget (capture_buffers st) batch = None" "dget (temp_buffers st) batch = Some b"
      "\<not> graph_capture_active env dev" "batch \<notin> set (capture_bs st)" "r = Inr (b, [])"
      "st' = st\<lparr>temp_buffers := move_to_end (temp_buffers st) batch b\<rparr>"
  | (pin) "dget (capture_buffers st) batch = None" "dget (temp_buffers st) batch = None"
      "batch \<in> set (capture_bs st) \<or> graph_capture_active env dev"
      "r = Inr (new_buffer batch hidden topk st, [])"
      "st' = st\<lparr>next_buf := Suc (next_buf st),
                capture_buffers := dset (capture_buffers st) batch (new_buffer batch hidden topk st)\<rparr>"
  | (alloc) st2 where "dget (capture_buffers st) batch = None" "dget (temp_buffers st) batch = None"
      "\<not> graph_capture_active env dev" "batch \<notin> set (capture_bs st)"
      "st2 = st\<lparr>next_buf := Suc (next_buf st),
                temp_buffers := dset (temp_buffers st) batch (new_buffer batch hidden topk st)\<rparr>"
      "(int (length (temp_buffers st2)) \<le> max_temp_buffer_sizes st \<and> st' = st2
          \<and> r = Inr (new_buffer batch hidden topk st, []))
       \<or> (int (length (temp_buffers st2)) > max_temp_buffer_sizes st
          \<and> ((\<exists>e. evict_oldest_temp_buffer env ps dev st2 = (Inl e, st') \<and> r = Inl e)
             \<or> (\<exists>evs. evict_oldest_temp_buffer env ps dev st2 = (Inr evs, st')
                  \<and> r = Inr (new_buffer batch hidden topk st, evs))))"
  using g unfolding get_buffer_def Let_def
  by (auto split: option.splits if_splits prod.splits sum.splits simp: not_less)

lemma new_buffer_simps [simp]:
  "buf_batch (new_buffer batch hidden topk st) = batch"
  "buf_hidden (new_buffer batch hidden topk st) = hidden"
  "buf_topk (new_buffer batch hidden topk st) = topk"
  "buf_id (new_buffer batch hidden topk st) = next_buf st"
  by (simp_all add: new_buffer_def)

lemma get_buffer_wf:
  assumes g: "get_buffer env ps dev batch hidden topk st = (r, st')" and wf: "cache_wf st"
  shows "cache_wf st'"
  using g
proof (cases rule: get_buffer_cases)
  case (hit b)
  with wf show ?thesis by simp
next
  case (promote b)
  have "buf_batch b = batch" "buf_id b < next_buf st"
    using wf promote(2) by (auto simp: cache_wf_def dict_ok_def)
  with wf promote(5) show ?thesis
    by (auto simp: cache_wf_def intro!: dict_ok_dset dict_ok_ddel)
next
  case (touch b)
  have "buf_batch b = batch" "buf_id b < next_buf st"
    using wf touch(2) by (auto simp: cache_wf_def dict_ok_def)
  with wf touch(1,6) show ?thesis
    by (auto simp: cache_wf_def move_to_end_eq dget_None_iff intro!: dict_ok_dset dict_ok_ddel)
next
  case pin
  with wf show ?thesis
    by (auto simp: cache_wf_def dget_None_iff intro!: dict_ok_dset intro: dict_ok_mono)
next
  case (alloc st2)
  have "cache_wf st2"
    using wf alloc(1,2,5)
    by (auto simp: cache_wf_def dget_None_iff intro!: dict_ok_dset intro: dict_ok_mono)
  with alloc(6) show ?thesis by (auto dest: evict_wf)
qed

text \<open>A buffer that reached \<open>capture_buffers\<close> is never replaced or dropped.\<close>

lemma get_buffer_capture_frame:
  assumes g: "get_buffer env ps dev batch hidden topk st = (r, st')"
    and b: "dget (capture_buffers st) k = Some b"
  shows "dget (capture_buffers st') k = Some b"
  using g
proof (cases rule: get_buffer_cases)
  case (alloc st2)
  have "dget (capture_buffers st2) k = Some b" using b alloc(5) by simp
  with alloc(6) show ?thesis by (auto dest: evict_capture)
qed (use b in auto)

lemma set_capture_wf: "cache_wf st \<Longrightarrow> cache_wf (set_capture_batch_sizes bs st)"
  by (simp add: cache_wf_def set_capture_batch_sizes_def)

lemma clear_wf: "cache_wf st \<Longrightarrow> cache_wf (snd (clear_buffer_cache cuda ps st))"
  by (simp add: cache_wf_def clear_buffer_cache_def dict_ok_def)

lemma cache_step_wf: "cache_wf st \<Longrightarrow> cache_wf (cache_step st e)"
  by (cases e) (auto intro: set_capture_wf clear_wf get_buffer_wf [OF prod.collapse [symmetric]])

lemma cache_step_capture:
  "dget (capture_buffers st) k = Some b \<Longrightarrow> dget (capture_buffers (cache_step st e)) k = Some b"
  by (cases e)
    (auto simp: set_capture_batch_sizes_def clear_buffer_cache_def
      intro: get_buffer_capture_frame [OF prod.collapse [symmetric]])

interpretation buffers: frame_machine cache_step cache_wf "\<lambda>st k. dget (capture_buffers st) k"
  by unfold_locales (auto intro: cache_step_wf cache_step_capture)

section \<open>The size of the LRU\<close>

definition can_evict :: "cache_op \<Rightarrow> bool" where
  "can_evict e = (case e of GetBuffer env _ dev _ _ _ \<Rightarrow> has_synchronize env (dev_type dev) | _ \<Rightarrow> True)"

definition lru_bounded :: "int \<Rightarrow> cache \<Rightarrow> bool" where
  "lru_bounded n st \<longleftrightarrow> cache_wf st \<and> max_temp_buffer_sizes st = n
     \<and> int (length (temp_buffers st)) \<le> max 0 n"

lemma wait_ok_when_not_captured:
  assumes "\<not> graph_capture_active env dev" "has_synchronize env (dev_type dev)"
  shows "\<exists>w. wait_device env dev = Inr w"
  using assms by (auto simp: wait_device_def graph_capture_active_def)

lemma evict_success:
  assumes "\<not> graph_capture_active env dev" "has_synchronize env (dev_type dev)"
    and "temp_buffers st = (k, b) # rest"
  shows "\<exists>w. evict_oldest_temp_buffer env ps dev st
           = (Inr (DeviceWait w # drain_base_instance ps @ [Drop (buf_id b)]), st\<lparr>temp_buffers := rest\<rparr>)"
  using wait_ok_when_not_captured [OF assms(1,2)] assms(1,3)
  by (auto simp: evict_oldest_temp_buffer_def)

lemma get_buffer_bounded:
  assumes g: "get_buffer env ps dev batch hidden topk st = (r, st')"
    and b: "lru_bounded n st" and sync: "has_synchronize env (dev_type dev)"
  shows "lru_bounded n st'"
proof -
  have wf: "cache_wf st'" using get_buffer_wf [OF g] b by (simp add: lru_bounded_def)
  from g show ?thesis
  proof (cases rule: get_buffer_cases)
    case (touch bf)
    have "dwf (temp_buffers st)" using b by (simp add: lru_bounded_def cache_wf_def dict_ok_def)
    then have "length (temp_buffers st') = length (temp_buffers st)"
      using touch(2,6) by (simp add: length_move_to_end dget_Some_dmem)
    with b wf touch(6) show ?thesis by (simp add: lru_bounded_def)
  next
    case (promote bf)
    have "length (temp_buffers st') \<le> length (temp_buffers st)"
      by (simp add: promote(5) ddel_def)
    with b wf promote(5) show ?thesis by (simp add: lru_bounded_def)
  next
    case (alloc st2)
    obtain k bf rest where t2: "temp_buffers st2 = (k, bf) # rest"
      using alloc(5) by (cases "temp_buffers st2") auto
    have len: "length (temp_buffers st2) = Suc (length (temp_buffers st))"
      using alloc(2,5) by (simp add: length_dset dget_None_iff)
    from alloc(6) evict_success [OF alloc(3) sync t2, of ps] t2 len b alloc(5) wf
    show ?thesis by (auto simp: lru_bounded_def)
  qed (use b wf in \<open>auto simp: lru_bounded_def\<close>)
qed

lemma run_bounded:
  "lru_bounded n st \<Longrightarrow> list_all can_evict es \<Longrightarrow> lru_bounded n (run_steps cache_step st es)"
proof (induction es arbitrary: st)
  case (Cons e es)
  have "lru_bounded n (cache_step st e)"
  proof (cases e)
    case (GetBuffer env ps dev batch hidden topk)
    with Cons.prems show ?thesis
      by (auto simp: can_evict_def intro: get_buffer_bounded [OF prod.collapse [symmetric]])
  next
    case (SetCapture bs)
    with Cons.prems(1) show ?thesis
      by (simp add: lru_bounded_def set_capture_wf) (simp add: set_capture_batch_sizes_def)
  next
    case (ClearCache cuda ps)
    with Cons.prems(1) show ?thesis
      by (simp add: lru_bounded_def clear_wf) (simp add: clear_buffer_cache_def)
  qed
  with Cons show ?case by simp
qed simp

lemma init_bounded: "lru_bounded n (init_cache n)"
  by (simp add: lru_bounded_def init_cache_wf) (simp add: init_cache_def)

lemma evict_events:
  "evict_oldest_temp_buffer env ps dev st = (Inr evs, st') \<Longrightarrow>
     evs = [] \<or> (\<exists>w i. evs = DeviceWait w # drain_base_instance ps @ [Drop i])"
  by (auto simp: evict_oldest_temp_buffer_def split: sum.splits list.splits if_splits)

lemma get_buffer_events:
  assumes g: "get_buffer env ps dev batch hidden topk st = (Inr (b, evs), st')"
  shows "evs = [] \<or> (\<exists>w i. evs = DeviceWait w # drain_base_instance ps @ [Drop i])"
  using g
proof (cases rule: get_buffer_cases)
  case (alloc st2)
  show ?thesis
  proof (cases "int (length (temp_buffers st2)) \<le> max_temp_buffer_sizes st")
    case True
    with alloc(6) show ?thesis by simp
  next
    case False
    with alloc(6) have "evict_oldest_temp_buffer env ps dev st2 = (Inr evs, st')" by auto
    then show ?thesis by (rule evict_events)
  qed
qed auto

section \<open>Properties of the buffer cache\<close>

text \<open>
  C6. A buffer handed out while a graph is being captured, or for a registered capture size, is in
  \<open>capture_buffers\<close> from then on: no later sequence of buffer requests, registrations and cache
  clearings drops or replaces it, so the pointers recorded in the graph stay valid.
\<close>

theorem captured_buffer_never_dropped:
  assumes "get_buffer env ps dev batch hidden topk st = (Inr (b, evs), st1)"
    and "cache_wf st" and "graph_capture_active env dev \<or> batch \<in> set (capture_bs st)"
  shows "evs = [] \<and> buf_batch b = batch \<and>
         dget (capture_buffers (run_steps cache_step st1 ops)) batch = Some b"
proof -
  have wf1: "cache_wf st1" using get_buffer_wf [OF assms(1,2)] .
  have "evs = [] \<and> dget (capture_buffers st1) batch = Some b"
    using assms(1)
  proof (cases rule: get_buffer_cases)
    case (touch bf)
    with assms(3) show ?thesis by simp
  next
    case (alloc st2)
    with assms(3) show ?thesis by simp
  qed auto
  moreover from this have "buf_batch b = batch"
    using wf1 by (auto simp: cache_wf_def dict_ok_def)
  ultimately show ?thesis using buffers.run_frame [OF wf1] by blast
qed

definition cuda_dev :: device where
  "cuda_dev = \<lparr>dev_type = ''cuda''\<rparr>"

definition capturing_env :: dev_env where
  "capturing_env = idle_env\<lparr>sglang_capture := Some True\<rparr>"

theorem captured_buffer_never_dropped_witness:
  "dget (capture_buffers (run_steps cache_step
      (snd (get_buffer capturing_env init_pool_state cuda_dev 8 16 2 (init_cache 1)))
      [ClearCache True init_pool_state, GetBuffer idle_env init_pool_state cuda_dev 4 16 2])) 8
   = Some \<lparr>buf_id = 0, buf_batch = 8, buf_hidden = 16, buf_topk = 2\<rparr>"
proof -
  have g: "get_buffer capturing_env init_pool_state cuda_dev 8 16 2 (init_cache 1)
     = (Inr (\<lparr>buf_id = 0, buf_batch = 8, buf_hidden = 16, buf_topk = 2\<rparr>, []),
        snd (get_buffer capturing_env init_pool_state cuda_dev 8 16 2 (init_cache 1)))"
    by (simp add: get_buffer_def init_cache_def graph_capture_active_def device_graph_capture_state_def
        sglang_is_capture_mode_def capturing_env_def new_buffer_def Let_def)
  have c: "graph_capture_active capturing_env cuda_dev"
    by (simp add: graph_capture_active_def device_graph_capture_state_def
        sglang_is_capture_mode_def capturing_env_def)
  show ?thesis
    using captured_buffer_never_dropped [OF g init_cache_wf, OF disjI1, OF c] by blast
qed

text \<open>
  From the empty cache, whatever sequence of requests, registrations and clearings runs, the LRU
  holds at most \<open>KT_MAX_TEMP_BUFFER_SIZES\<close> buffers (none if that is negative) on devices that can
  synchronize, and every cached buffer is filed under its own batch size.
\<close>

theorem lru_size_bounded:
  assumes "list_all can_evict ops"
  shows "let st = run_steps cache_step (init_cache n) ops in
     cache_wf st \<and> int (length (temp_buffers st)) \<le> max 0 n"
  using run_bounded [OF init_bounded assms] by (simp add: lru_bounded_def)

theorem lru_size_bounded_witness:
  "let st = run_steps cache_step (init_cache 1)
      [GetBuffer idle_env init_pool_state cuda_dev 8 16 2, GetBuffer idle_env init_pool_state cuda_dev 4 16 2]
   in int (length (temp_buffers st)) \<le> max 0 1"
  using lru_size_bounded [of "[GetBuffer idle_env init_pool_state cuda_dev 8 16 2,
      GetBuffer idle_env init_pool_state cuda_dev 4 16 2]" 1]
  by (simp add: can_evict_def idle_env_def Let_def)

text \<open>
  C22. The drain of the CPU task queue that precedes an eviction or a clear never happens: in every
  pool state that wrapper constructions can reach, evicting only waits for the device before it
  drops the oldest buffer, and clearing drops the buffers without any \<open>CPUInfer.sync\<close>.
\<close>

theorem eviction_never_drains_cpu_queue:
  "let ps = run_steps pool_step init_pool_state calls in
     (case get_buffer env ps dev batch hidden topk st of
        (Inl e, _) \<Rightarrow> True
      | (Inr (b, evs), _) \<Rightarrow> evs = [] \<or> (\<exists>w i. evs = [DeviceWait w, Drop i])) \<and>
     \<not> (\<exists>i. CpuDrain i \<in> set (fst (clear_buffer_cache cuda ps st)))"
proof -
  let ?ps = "run_steps pool_step init_pool_state calls"
  have "cpu_infer_instance ?ps MoEBase = None"
    using pool.run_inv [OF pool_wf_init] by (simp add: pool_wf_def)
  then have d: "drain_base_instance ?ps = []" by (simp add: drain_base_instance_def)
  show ?thesis
    unfolding Let_def using get_buffer_events [of env ?ps dev batch hidden topk st]
    by (auto simp: d clear_buffer_cache_def split: prod.splits sum.splits)
qed

end
