(* ===== verification/MoEForward.thy ===== *)
theory MoEForward
  imports BufferCache Placement "HOL-Library.Sublist"
begin

text \<open>
  The forward path of \<open>BaseMoEWrapper\<close> in \<open>kt-kernel/python/experts_base.py\<close>: host code that
  stages the inputs of a layer in a two-slot pinned buffer, submits the immediate and the deferred
  expert task to the CPU queue and collects the output.

  Three agents run concurrently: the Python thread, the device stream it enqueues copies and host
  callbacks on, and the CPUInfer worker that takes tasks from a FIFO queue. The Python methods are
  modelled as operations on \<open>host\<close> that emit the actions of the Python thread in program order;
  \<open>sys_step\<close> gives the meaning of the actions, one step of one agent at a time. The expert
  computation \<open>moe\<close> (C++) and the accumulation \<open>add\<close> of an incremental task are parameters.
\<close>

section \<open>Data\<close>

record wrapper =
  layer_idx :: int
  w_num_experts :: int
  num_experts_per_tok :: nat
  chunked_prefill_size :: int
  max_deferred_experts_per_token :: int

text \<open>\<open>hidden_states.view(-1, hidden_size)\<close>: number of rows, row length, device and contents.\<close>

record 'h hidden =
  hd_qlen :: nat
  hd_hidden :: nat
  hd_device :: device
  hd_data :: 'h

record task =
  tk_layer :: int
  tk_buf :: nat
  tk_slot :: nat
  tk_deferred :: bool
  tk_out :: nat
  tk_incremental :: bool
  tk_autofree :: bool

datatype ('h, 'f) stream_op =
    CopyInput nat nat 'h
  | CopyWeights nat nat "'f list list"
  | CopyImmediate nat nat "int list list"
  | CopyDeferred nat nat "int list list"
  | StreamSubmit task
  | StreamSync nat
  | CopyOutput nat nat

datatype ('h, 'f) host_op =
    Enqueue "('h, 'f) stream_op"
  | HostWait
  | HostSubmit task
  | HostSync nat

record ('h, 'f) host =
  ho_pending :: "(int, bool) dict"
  ho_cache :: cache
  ho_pool :: pool_state
  ho_acl :: acl_state
  ho_prog :: "('h, 'f) host_op list"

definition emit :: "('h, 'f) host_op list \<Rightarrow> (('h, 'f) host, unit) eop" where
  "emit ops = eupd (\<lambda>ho. ho\<lparr>ho_prog := ho_prog ho @ ops\<rparr>)"

section \<open>The methods of \<open>BaseMoEWrapper\<close>\<close>

definition check_qlen_fits_cpp_buffers :: "wrapper \<Rightarrow> 'h hidden \<Rightarrow> unit result" where
  "check_qlen_fits_cpp_buffers w hs =
     (if int (hd_qlen hs) > chunked_prefill_size w
      then Inl (ValueError ''qlen exceeds chunked_prefill_size'') else Inr ())"

text \<open>What an eviction makes the Python thread do before it frees the buffer.\<close>

fun cache_event_ops :: "cache_event \<Rightarrow> ('h, 'f) host_op list" where
  "cache_event_ops (DeviceWait WaitSynchronized) = [HostWait]"
| "cache_event_ops (DeviceWait WaitSkipped) = []"
| "cache_event_ops (CpuDrain i) = [HostSync 0]"
| "cache_event_ops (Drop i) = []"

definition fetch_buffer :: "dev_env \<Rightarrow> wrapper \<Rightarrow> 'h hidden \<Rightarrow> (('h, 'f) host, kbuffer) eop" where
  "fetch_buffer env w hs ho =
     (case get_buffer env (ho_pool ho) (hd_device hs) (hd_qlen hs) (hd_hidden hs)
             (num_experts_per_tok w) (ho_cache ho) of
        (Inl e, c) \<Rightarrow> (Inl e, ho\<lparr>ho_cache := c\<rparr>)
      | (Inr (b, evs), c) \<Rightarrow>
          (Inr b, ho\<lparr>ho_cache := c, ho_prog := ho_prog ho @ concat (map cache_event_ops evs)\<rparr>))"

definition current_slot :: "wrapper \<Rightarrow> nat" where
  "current_slot w = nat (layer_idx w mod 2)"

definition next_slot :: "wrapper \<Rightarrow> nat" where
  "next_slot w = (current_slot w + 1) mod 2"

text \<open>\<open>dst.copy_(src)\<close> requires equal last dimensions, or one to broadcast.\<close>

definition copy_in :: "nat \<Rightarrow> nat \<Rightarrow> ('h, 'f) stream_op \<Rightarrow> (('h, 'f) host, unit) eop" where
  "copy_in dst src op =
     (if src = dst \<or> src = 1 then emit [Enqueue op] else eraise (RuntimeError ''copy_ shape mismatch''))"

definition row_length :: "'a list list \<Rightarrow> nat" where
  "row_length m = (case m of [] \<Rightarrow> 0 | r # _ \<Rightarrow> length r)"

definition copy_rows :: "nat \<Rightarrow> 'a list list \<Rightarrow> ('h, 'f) stream_op \<Rightarrow> (('h, 'f) host, unit) eop" where
  "copy_rows dst m op = (if m = [] then emit [Enqueue op] else copy_in dst (row_length m) op)"

definition split_ids ::
  "'f topk \<Rightarrow> wrapper \<Rightarrow> int list list \<Rightarrow> 'f list list \<Rightarrow> int list list \<times> int list list option" where
  "split_ids topk w topk_ids topk_weights =
     (if max_deferred_experts_per_token w > 0
      then (let protected_k = int (num_experts_per_tok w) - max_deferred_experts_per_token w;
                (imm, dfr) = select_deferred_experts topk (w_num_experts w) (row_length topk_ids)
                               topk_ids topk_weights protected_k
            in (imm, Some dfr))
      else (topk_ids, None))"

definition prepare_forward_cpu_buffers ::
  "'f topk \<Rightarrow> dev_env \<Rightarrow> wrapper \<Rightarrow> 'h hidden \<Rightarrow> int list list \<Rightarrow> 'f list list
     \<Rightarrow> (('h, 'f) host, int list list option \<times> kbuffer) eop" where
  "prepare_forward_cpu_buffers topk env w hs topk_ids topk_weights =
     ebind (elift (check_qlen_fits_cpp_buffers w hs)) (\<lambda>_.
     ebind (fetch_buffer env w hs) (\<lambda>b.
       (let (imm, dfr) = split_ids topk w topk_ids topk_weights;
            i = buf_id b; s = current_slot w in
        ebind (copy_in (buf_hidden b) (hd_hidden hs) (CopyInput i s (hd_data hs))) (\<lambda>_.
        ebind (copy_rows (buf_topk b) topk_weights (CopyWeights i s topk_weights)) (\<lambda>_.
        ebind (copy_rows (buf_topk b) imm (CopyImmediate i s imm)) (\<lambda>_.
        ebind (case dfr of None \<Rightarrow> ereturn ()
                         | Some d \<Rightarrow> copy_rows (buf_topk b) d (CopyDeferred i s d)) (\<lambda>_.
        ereturn (dfr, b))))))))"

definition copy_inputs_to_cpu_buffers ::
  "'f topk \<Rightarrow> dev_env \<Rightarrow> wrapper \<Rightarrow> 'h hidden \<Rightarrow> int list list \<Rightarrow> 'f list list
     \<Rightarrow> (('h, 'f) host, unit) eop" where
  "copy_inputs_to_cpu_buffers topk env w hs topk_ids topk_weights =
     ebind (prepare_forward_cpu_buffers topk env w hs topk_ids topk_weights) (\<lambda>_. ereturn ())"

definition bypass_callback :: "dev_env \<Rightarrow> 'h hidden \<Rightarrow> (('h, 'f) host, bool) eop" where
  "bypass_callback env hs ho =
     (let (b, a) = should_bypass_stream_callback env (ho_acl ho) (hd_device hs)
      in (Inr b, ho\<lparr>ho_acl := a\<rparr>))"

definition wait_for_device :: "dev_env \<Rightarrow> 'h hidden \<Rightarrow> (('h, 'f) host, unit) eop" where
  "wait_for_device env hs =
     ebind (elift (wait_device env (hd_device hs)))
       (\<lambda>w. emit (cache_event_ops (DeviceWait w)))"

definition set_pending :: "wrapper \<Rightarrow> bool \<Rightarrow> (('h, 'f) host, unit) eop" where
  "set_pending w v = eupd (\<lambda>ho. ho\<lparr>ho_pending := dset (ho_pending ho) (layer_idx w) v\<rparr>)"

definition has_pending :: "('h, 'f) host \<Rightarrow> int \<Rightarrow> bool" where
  "has_pending ho l = (dget (ho_pending ho) l = Some True)"

definition immediate_task :: "wrapper \<Rightarrow> kbuffer \<Rightarrow> bool \<Rightarrow> bool \<Rightarrow> task" where
  "immediate_task w b incremental autofree =
     \<lparr>tk_layer = layer_idx w, tk_buf = buf_id b, tk_slot = current_slot w, tk_deferred = False,
      tk_out = current_slot w, tk_incremental = incremental, tk_autofree = autofree\<rparr>"

definition deferred_task :: "wrapper \<Rightarrow> kbuffer \<Rightarrow> bool \<Rightarrow> task" where
  "deferred_task w b autofree =
     \<lparr>tk_layer = layer_idx w, tk_buf = buf_id b, tk_slot = current_slot w, tk_deferred = True,
      tk_out = next_slot w, tk_incremental = False, tk_autofree = autofree\<rparr>"

definition submit_op :: "bool \<Rightarrow> task \<Rightarrow> ('h, 'f) host_op" where
  "submit_op direct t = (if direct then HostSubmit t else Enqueue (StreamSubmit t))"

definition submit_forward ::
  "'f topk \<Rightarrow> dev_env \<Rightarrow> wrapper \<Rightarrow> 'h hidden \<Rightarrow> int list list \<Rightarrow> 'f list list
     \<Rightarrow> (('h, 'f) host, unit) eop" where
  "submit_forward topk env w hs topk_ids topk_weights =
     ebind (prepare_forward_cpu_buffers topk env w hs topk_ids topk_weights) (\<lambda>(dfr, b).
     ebind (bypass_callback env hs) (\<lambda>bypass.
       (let sync_submit = (bypass \<or> dev_type (hd_device hs) = ''npu'');
            autofree = forward_task_autofree env sync_submit (hd_device hs) in
        ebind (if sync_submit then wait_for_device env hs else ereturn ()) (\<lambda>_.
        ebind (\<lambda>ho. emit [submit_op sync_submit
                          (immediate_task w b (has_pending ho (layer_idx w - 1)) autofree)] ho) (\<lambda>_.
        ebind (set_pending w False) (\<lambda>_.
          if dfr \<noteq> None
          then ebind (if sync_submit then wait_for_device env hs else ereturn ()) (\<lambda>_.
               ebind (emit [submit_op sync_submit (deferred_task w b autofree)]) (\<lambda>_.
               set_pending w True))
          else ereturn ()))))))"

definition copy_forward_output_to_device :: "dev_env \<Rightarrow> wrapper \<Rightarrow> 'h hidden \<Rightarrow> (('h, 'f) host, unit) eop" where
  "copy_forward_output_to_device env w hs =
     ebind (fetch_buffer env w hs) (\<lambda>b. emit [Enqueue (CopyOutput (buf_id b) (current_slot w))])"

definition allow_pending :: "wrapper \<Rightarrow> ('h, 'f) host \<Rightarrow> nat" where
  "allow_pending w ho = (if has_pending ho (layer_idx w) then 1 else 0)"

definition sync_forward :: "dev_env \<Rightarrow> wrapper \<Rightarrow> 'h hidden \<Rightarrow> (('h, 'f) host, unit) eop" where
  "sync_forward env w hs =
     ebind (fetch_buffer env w hs) (\<lambda>_ ho.
       (let allow = allow_pending w ho in
        ebind (bypass_callback env hs) (\<lambda>bypass.
        ebind (if bypass then emit [HostSync allow]
               else if dev_type (hd_device hs) = ''npu''
               then ebind (wait_for_device env hs) (\<lambda>_. emit [HostSync allow])
               else emit [Enqueue (StreamSync allow)]) (\<lambda>_.
        copy_forward_output_to_device env w hs)) ho))"

definition forward ::
  "'f topk \<Rightarrow> dev_env \<Rightarrow> wrapper \<Rightarrow> 'h hidden \<Rightarrow> int list list \<Rightarrow> 'f list list
     \<Rightarrow> (('h, 'f) host, unit) eop" where
  "forward topk env w hs topk_ids topk_weights =
     ebind (submit_forward topk env w hs topk_ids topk_weights) (\<lambda>_. sync_forward env w hs)"

text \<open>
  The two entry points for inputs staged earlier by \<open>copy_inputs_to_cpu_buffers\<close>. They look at
  the deferred ids in the pinned buffer itself; \<open>staged\<close> is its content at that moment.
\<close>

definition any_deferred :: "int list list \<Rightarrow> bool" where
  "any_deferred rows = list_ex (list_ex (\<lambda>e. e \<ge> 0)) rows"

definition forward_on_pinned_buffers ::
  "dev_env \<Rightarrow> wrapper \<Rightarrow> 'h hidden \<Rightarrow> (nat \<Rightarrow> nat \<Rightarrow> int list list) \<Rightarrow> (('h, 'f) host, unit) eop" where
  "forward_on_pinned_buffers env w hs staged =
     ebind (elift (check_qlen_fits_cpp_buffers w hs)) (\<lambda>_.
     ebind (fetch_buffer env w hs) (\<lambda>b.
     ebind (bypass_callback env hs) (\<lambda>bypass.
     ebind (\<lambda>ho. emit [submit_op True (immediate_task w b (has_pending ho (layer_idx w - 1)) True)] ho) (\<lambda>_.
     ebind (set_pending w False) (\<lambda>_.
       if max_deferred_experts_per_token w > 0 \<and> any_deferred (staged (buf_id b) (current_slot w))
       then ebind (emit [submit_op bypass
                    (deferred_task w b (forward_task_autofree env bypass (hd_device hs)))]) (\<lambda>_.
            set_pending w True)
       else ereturn ())))))"

definition run_pinned_forward_sync ::
  "dev_env \<Rightarrow> wrapper \<Rightarrow> 'h hidden \<Rightarrow> (nat \<Rightarrow> nat \<Rightarrow> int list list) \<Rightarrow> (('h, 'f) host, unit) eop" where
  "run_pinned_forward_sync env w hs staged =
     ebind (elift (check_qlen_fits_cpp_buffers w hs)) (\<lambda>_.
     ebind (fetch_buffer env w hs) (\<lambda>b.
     ebind (\<lambda>ho. emit [HostSubmit (immediate_task w b (has_pending ho (layer_idx w - 1)) True)] ho) (\<lambda>_.
     ebind (set_pending w False) (\<lambda>_.
     ebind (if max_deferred_experts_per_token w > 0 \<and> any_deferred (staged (buf_id b) (current_slot w))
            then ebind (emit [HostSubmit (deferred_task w b True)]) (\<lambda>_. set_pending w True)
            else ereturn ()) (\<lambda>_ ho.
     emit [HostSync (allow_pending w ho)] ho)))))"

section \<open>The three agents\<close>

text \<open>One slot of a pinned buffer, the memory, and the values that reached the device.\<close>

record ('h, 'f, 'o) slot =
  sl_input :: 'h
  sl_weights :: "'f list list"
  sl_immediate :: "int list list"
  sl_deferred :: "int list list"
  sl_output :: 'o

type_synonym ('h, 'f, 'o) memory = "nat \<Rightarrow> nat \<Rightarrow> ('h, 'f, 'o) slot"

record ('h, 'f, 'o) sys =
  sy_host :: "('h, 'f) host_op list"
  sy_stream :: "('h, 'f) stream_op list"
  sy_queue :: "task list"
  sy_mem :: "('h, 'f, 'o) memory"
  sy_outs :: "'o list"

type_synonym ('h, 'f, 'o) moe_fn = "int \<Rightarrow> int list list \<Rightarrow> 'f list list \<Rightarrow> 'h \<Rightarrow> 'o"

definition put_slot ::
  "nat \<Rightarrow> nat \<Rightarrow> (('h, 'f, 'o) slot \<Rightarrow> ('h, 'f, 'o) slot) \<Rightarrow> ('h, 'f, 'o) memory \<Rightarrow> ('h, 'f, 'o) memory" where
  "put_slot b s f m = m(b := (m b)(s := f (m b s)))"

text \<open>A forward task: \<open>incremental\<close> adds to the output buffer, otherwise it is overwritten.\<close>

definition exec_task ::
  "('h, 'f, 'o) moe_fn \<Rightarrow> ('o \<Rightarrow> 'o \<Rightarrow> 'o) \<Rightarrow> task \<Rightarrow> ('h, 'f, 'o) memory \<Rightarrow> ('h, 'f, 'o) memory" where
  "exec_task moe add t m =
     (let src = m (tk_buf t) (tk_slot t);
          ids = (if tk_deferred t then sl_deferred src else sl_immediate src);
          r = moe (tk_layer t) ids (sl_weights src) (sl_input src)
      in put_slot (tk_buf t) (tk_out t)
           (\<lambda>d. d\<lparr>sl_output := if tk_incremental t then add (sl_output d) r else r\<rparr>) m)"

fun exec_copy :: "('h, 'f) stream_op \<Rightarrow> ('h, 'f, 'o) memory \<Rightarrow> ('h, 'f, 'o) memory" where
  "exec_copy (CopyInput b s x) m = put_slot b s (\<lambda>d. d\<lparr>sl_input := x\<rparr>) m"
| "exec_copy (CopyWeights b s x) m = put_slot b s (\<lambda>d. d\<lparr>sl_weights := x\<rparr>) m"
| "exec_copy (CopyImmediate b s x) m = put_slot b s (\<lambda>d. d\<lparr>sl_immediate := x\<rparr>) m"
| "exec_copy (CopyDeferred b s x) m = put_slot b s (\<lambda>d. d\<lparr>sl_deferred := x\<rparr>) m"
| "exec_copy _ m = m"

datatype agent = Host | Stream | Worker

definition host_step :: "('h, 'f, 'o) sys \<Rightarrow> ('h, 'f, 'o) sys" where
  "host_step sy =
     (case sy_host sy of
        [] \<Rightarrow> sy
      | op # ops \<Rightarrow>
          (case op of
             Enqueue x \<Rightarrow> sy\<lparr>sy_host := ops, sy_stream := sy_stream sy @ [x]\<rparr>
           | HostWait \<Rightarrow> if sy_stream sy = [] then sy\<lparr>sy_host := ops\<rparr> else sy
           | HostSubmit t \<Rightarrow> sy\<lparr>sy_host := ops, sy_queue := sy_queue sy @ [t]\<rparr>
           | HostSync a \<Rightarrow> if length (sy_queue sy) \<le> a then sy\<lparr>sy_host := ops\<rparr> else sy))"

definition stream_step :: "('h, 'f, 'o) sys \<Rightarrow> ('h, 'f, 'o) sys" where
  "stream_step sy =
     (case sy_stream sy of
        [] \<Rightarrow> sy
      | op # ops \<Rightarrow>
          (case op of
             StreamSubmit t \<Rightarrow> sy\<lparr>sy_stream := ops, sy_queue := sy_queue sy @ [t]\<rparr>
           | StreamSync a \<Rightarrow> if length (sy_queue sy) \<le> a then sy\<lparr>sy_stream := ops\<rparr> else sy
           | CopyOutput b s \<Rightarrow>
               sy\<lparr>sy_stream := ops, sy_outs := sy_outs sy @ [sl_output (sy_mem sy b s)]\<rparr>
           | _ \<Rightarrow> sy\<lparr>sy_stream := ops, sy_mem := exec_copy op (sy_mem sy)\<rparr>))"

definition worker_step ::
  "('h, 'f, 'o) moe_fn \<Rightarrow> ('o \<Rightarrow> 'o \<Rightarrow> 'o) \<Rightarrow> ('h, 'f, 'o) sys \<Rightarrow> ('h, 'f, 'o) sys" where
  "worker_step moe add sy =
     (case sy_queue sy of
        [] \<Rightarrow> sy
      | t # q \<Rightarrow> sy\<lparr>sy_queue := q, sy_mem := exec_task moe add t (sy_mem sy)\<rparr>)"

fun sys_step ::
  "('h, 'f, 'o) moe_fn \<Rightarrow> ('o \<Rightarrow> 'o \<Rightarrow> 'o) \<Rightarrow> ('h, 'f, 'o) sys \<Rightarrow> agent \<Rightarrow> ('h, 'f, 'o) sys" where
  "sys_step moe add sy Host = host_step sy"
| "sys_step moe add sy Stream = stream_step sy"
| "sys_step moe add sy Worker = worker_step moe add sy"

definition sys_done :: "('h, 'f, 'o) sys \<Rightarrow> bool" where
  "sys_done sy = (sy_host sy = [] \<and> sy_stream sy = [])"

section \<open>Discipline of an action sequence\<close>

text \<open>
  Replaying the actions in program order, with \<open>q\<close> the tasks that may still be in the CPU queue:
  no copy into a slot finds a task that reads it (\<open>no_reader\<close>), no copy out of a slot finds a task
  that writes it (\<open>no_writer\<close>), and the Python thread touches the CPU queue directly only when the
  stream is drained (\<open>dirty\<close> says that it may not be).
\<close>

definition drop_done :: "nat \<Rightarrow> task list \<Rightarrow> task list" where
  "drop_done a q = drop (length q - a) q"

definition no_reader :: "nat \<Rightarrow> nat \<Rightarrow> task list \<Rightarrow> bool" where
  "no_reader b s q = list_all (\<lambda>t. \<not> (tk_buf t = b \<and> tk_slot t = s)) q"

definition no_writer :: "nat \<Rightarrow> nat \<Rightarrow> task list \<Rightarrow> bool" where
  "no_writer b s q = list_all (\<lambda>t. \<not> (tk_buf t = b \<and> tk_out t = s)) q"

fun stream_guard :: "task list \<Rightarrow> ('h, 'f) stream_op \<Rightarrow> bool" where
  "stream_guard q (CopyInput b s x) = no_reader b s q"
| "stream_guard q (CopyWeights b s x) = no_reader b s q"
| "stream_guard q (CopyImmediate b s x) = no_reader b s q"
| "stream_guard q (CopyDeferred b s x) = no_reader b s q"
| "stream_guard q (CopyOutput b s) = no_writer b s q"
| "stream_guard q _ = True"

fun stream_queue :: "task list \<Rightarrow> ('h, 'f) stream_op \<Rightarrow> task list" where
  "stream_queue q (StreamSubmit t) = q @ [t]"
| "stream_queue q (StreamSync a) = drop_done a q"
| "stream_queue q _ = q"

fun safe_stream :: "task list \<Rightarrow> ('h, 'f) stream_op list \<Rightarrow> bool" where
  "safe_stream q [] = True"
| "safe_stream q (op # ops) = (stream_guard q op \<and> safe_stream (stream_queue q op) ops)"

definition after_stream :: "task list \<Rightarrow> ('h, 'f) stream_op list \<Rightarrow> task list" where
  "after_stream q ops = foldl stream_queue q ops"

fun disc_host :: "task list \<Rightarrow> bool \<Rightarrow> ('h, 'f) host_op list \<Rightarrow> (task list \<times> bool) option" where
  "disc_host q dirty [] = Some (q, dirty)"
| "disc_host q dirty (Enqueue x # hs) =
     (if stream_guard q x then disc_host (stream_queue q x) True hs else None)"
| "disc_host q dirty (HostWait # hs) = disc_host q False hs"
| "disc_host q dirty (HostSubmit t # hs) = (if dirty then None else disc_host (q @ [t]) False hs)"
| "disc_host q dirty (HostSync a # hs) = (if dirty then None else disc_host (drop_done a q) False hs)"

definition safe :: "task list \<Rightarrow> ('h, 'f) stream_op list \<Rightarrow> ('h, 'f) host_op list \<Rightarrow> bool" where
  "safe q ss hs = (safe_stream q ss \<and> disc_host (after_stream q ss) (ss \<noteq> []) hs \<noteq> None)"

section \<open>Sequential meaning\<close>

text \<open>The same actions with every task run at the moment it is submitted.\<close>

fun eager_stream ::
  "('h, 'f, 'o) moe_fn \<Rightarrow> ('o \<Rightarrow> 'o \<Rightarrow> 'o) \<Rightarrow> ('h, 'f) stream_op \<Rightarrow> ('h, 'f, 'o) memory \<times> 'o list
     \<Rightarrow> ('h, 'f, 'o) memory \<times> 'o list" where
  "eager_stream moe add (StreamSubmit t) (m, os) = (exec_task moe add t m, os)"
| "eager_stream moe add (CopyOutput b s) (m, os) = (m, os @ [sl_output (m b s)])"
| "eager_stream moe add op (m, os) = (exec_copy op m, os)"

fun eager_host ::
  "('h, 'f, 'o) moe_fn \<Rightarrow> ('o \<Rightarrow> 'o \<Rightarrow> 'o) \<Rightarrow> ('h, 'f) host_op \<Rightarrow> ('h, 'f, 'o) memory \<times> 'o list
     \<Rightarrow> ('h, 'f, 'o) memory \<times> 'o list" where
  "eager_host moe add (Enqueue x) e = eager_stream moe add x e"
| "eager_host moe add (HostSubmit t) (m, os) = (exec_task moe add t m, os)"
| "eager_host moe add _ e = e"

definition flush_queue ::
  "('h, 'f, 'o) moe_fn \<Rightarrow> ('o \<Rightarrow> 'o \<Rightarrow> 'o) \<Rightarrow> task list \<Rightarrow> ('h, 'f, 'o) memory \<Rightarrow> ('h, 'f, 'o) memory" where
  "flush_queue moe add q m = fold (exec_task moe add) q m"

definition eager_final ::
  "('h, 'f, 'o) moe_fn \<Rightarrow> ('o \<Rightarrow> 'o \<Rightarrow> 'o) \<Rightarrow> ('h, 'f, 'o) sys \<Rightarrow> ('h, 'f, 'o) memory \<times> 'o list" where
  "eager_final moe add sy =
     fold (eager_host moe add) (sy_host sy)
       (fold (eager_stream moe add) (sy_stream sy)
          (flush_queue moe add (sy_queue sy) (sy_mem sy), sy_outs sy))"

definition sys_safe :: "('h, 'f, 'o) sys \<Rightarrow> bool" where
  "sys_safe sy = safe (sy_queue sy) (sy_stream sy) (sy_host sy)"

section \<open>Every interleaving agrees with the sequential meaning\<close>

lemma put_slot_other: "\<not> (b' = b \<and> s' = s) \<Longrightarrow> put_slot b s f m b' s' = m b' s'"
  by (auto simp: put_slot_def)

lemma put_slot_same [simp]: "put_slot b s f m b s = f (m b s)"
  by (simp add: put_slot_def)

lemma exec_task_output_other:
  "\<not> (tk_buf t = b \<and> tk_out t = s) \<Longrightarrow> exec_task moe add t m b s = m b s"
  by (auto simp: exec_task_def Let_def put_slot_def)

lemma flush_output_other: "no_writer b s q \<Longrightarrow> flush_queue moe add q m b s = m b s"
  unfolding flush_queue_def no_writer_def
  by (induction q arbitrary: m) (simp_all add: exec_task_output_other)

lemma put_exec_commute:
  assumes "\<not> (tk_buf t = b \<and> tk_slot t = s)"
    and f: "\<And>d v. f (d\<lparr>sl_output := v\<rparr>) = (f d)\<lparr>sl_output := v\<rparr>" "\<And>d. sl_output (f d) = sl_output d"
  shows "exec_task moe add t (put_slot b s f m) = put_slot b s f (exec_task moe add t m)"
proof -
  have src: "put_slot b s f m (tk_buf t) (tk_slot t) = m (tk_buf t) (tk_slot t)"
    using assms(1) by (intro put_slot_other) blast
  show ?thesis
    unfolding exec_task_def Let_def src
    by (intro ext) (auto simp: put_slot_def f)
qed

lemma flush_put:
  assumes "no_reader b s q"
    and "\<And>d v. f (d\<lparr>sl_output := v\<rparr>) = (f d)\<lparr>sl_output := v\<rparr>" "\<And>d. sl_output (f d) = sl_output d"
  shows "flush_queue moe add q (put_slot b s f m) = put_slot b s f (flush_queue moe add q m)"
  using assms(1) unfolding flush_queue_def no_reader_def
  by (induction q arbitrary: m) (simp_all add: put_exec_commute assms(2,3))

lemma flush_append: "flush_queue moe add (q @ [t]) m = exec_task moe add t (flush_queue moe add q m)"
  by (simp add: flush_queue_def)

lemma suffix_drop_done:
  assumes "suffix q' q" shows "suffix (drop_done a q') (drop_done a q)"
proof -
  obtain p where q: "q = p @ q'" using assms by (auto simp: suffix_def)
  show ?thesis
  proof (cases "a \<le> length q'")
    case True
    then show ?thesis by (simp add: q drop_done_def)
  next
    case False
    then have "drop_done a q' = q'" by (simp add: drop_done_def)
    moreover have "drop_done a q = drop (length p + length q' - a) p @ q'"
      using False by (simp add: q drop_done_def)
    ultimately show ?thesis by (simp add: suffix_def)
  qed
qed

lemma suffix_list_all: "suffix q' q \<Longrightarrow> list_all P q \<Longrightarrow> list_all P q'"
  by (auto simp: suffix_def)

lemma stream_guard_mono: "stream_guard q op \<Longrightarrow> suffix q' q \<Longrightarrow> stream_guard q' op"
  by (cases op) (auto simp: no_reader_def no_writer_def elim: suffix_list_all)

lemma stream_queue_mono: "suffix q' q \<Longrightarrow> suffix (stream_queue q' op) (stream_queue q op)"
  by (cases op) (auto simp: suffix_drop_done)

lemma safe_stream_mono: "safe_stream q ss \<Longrightarrow> suffix q' q \<Longrightarrow> safe_stream q' ss"
proof (induction ss arbitrary: q q')
  case (Cons op ss)
  then show ?case
    using stream_guard_mono [of q op q'] stream_queue_mono [of q' q op]
      Cons.IH [of "stream_queue q op" "stream_queue q' op"] by simp
qed simp

lemma after_stream_mono: "suffix q' q \<Longrightarrow> suffix (after_stream q' ss) (after_stream q ss)"
  unfolding after_stream_def
  by (induction ss arbitrary: q q') (auto intro: stream_queue_mono)

lemma disc_host_mono:
  "disc_host q d hs \<noteq> None \<Longrightarrow> suffix q' q \<Longrightarrow> (d' \<longrightarrow> d) \<Longrightarrow> disc_host q' d' hs \<noteq> None"
proof (induction hs arbitrary: q q' d d')
  case (Cons op hs)
  show ?case
  proof (cases op)
    case (Enqueue x)
    with Cons.prems(1) have "stream_guard q x" "disc_host (stream_queue q x) True hs \<noteq> None"
      by (simp_all split: if_splits)
    moreover have "disc_host (stream_queue q' x) True hs \<noteq> None"
      using Cons.IH [OF calculation(2) stream_queue_mono [OF Cons.prems(2)]] by simp
    ultimately show ?thesis
      using stream_guard_mono [OF _ Cons.prems(2)] Enqueue by simp
  next
    case HostWait
    with Cons.prems(1) have "disc_host q False hs \<noteq> None" by simp
    from Cons.IH [OF this Cons.prems(2), of False] show ?thesis using HostWait by simp
  next
    case (HostSubmit t)
    with Cons.prems(1) have g: "\<not> d" "disc_host (q @ [t]) False hs \<noteq> None"
      by (simp_all split: if_splits)
    moreover have "suffix (q' @ [t]) (q @ [t])" using Cons.prems(2) by simp
    ultimately show ?thesis
      using Cons.IH [of "q @ [t]" False "q' @ [t]" False] Cons.prems(3) HostSubmit by simp
  next
    case (HostSync a)
    with Cons.prems(1) have g: "\<not> d" "disc_host (drop_done a q) False hs \<noteq> None"
      by (simp_all split: if_splits)
    then show ?thesis
      using Cons.IH [OF g(2) suffix_drop_done [OF Cons.prems(2)], of False] Cons.prems(3) HostSync
      by simp
  qed
qed simp

lemma safe_mono: "safe q ss hs \<Longrightarrow> suffix q' q \<Longrightarrow> safe q' ss hs"
  unfolding safe_def by (meson after_stream_mono disc_host_mono safe_stream_mono)

lemma safe_stream_append:
  "safe_stream q (ss @ ss') = (safe_stream q ss \<and> safe_stream (after_stream q ss) ss')"
  by (induction q ss rule: safe_stream.induct) (auto simp: after_stream_def)

lemma safe_Enqueue: "safe q ss (Enqueue x # hs) \<Longrightarrow> safe q (ss @ [x]) hs"
  by (auto simp: safe_def safe_stream_append after_stream_def split: if_splits)

lemma safe_stream_head:
  assumes "safe q (op # ss) hs" shows "stream_guard q op" "safe (stream_queue q op) ss hs"
proof -
  show "stream_guard q op" using assms by (simp add: safe_def)
  have "disc_host (after_stream (stream_queue q op) ss) True hs \<noteq> None"
    using assms by (simp add: safe_def after_stream_def)
  then have "disc_host (after_stream (stream_queue q op) ss) (ss \<noteq> []) hs \<noteq> None"
    by (rule disc_host_mono) auto
  with assms show "safe (stream_queue q op) ss hs" by (simp add: safe_def)
qed

lemma drop_done_id [simp]: "length q \<le> a \<Longrightarrow> drop_done a q = q"
  by (simp add: drop_done_def)

text \<open>One step of any agent keeps the discipline and the sequential meaning.\<close>

lemma host_step_ok:
  assumes "sys_safe sy"
  shows "sys_safe (host_step sy) \<and> eager_final moe add (host_step sy) = eager_final moe add sy"
proof (cases "sy_host sy")
  case Nil
  then show ?thesis using assms by (simp add: host_step_def)
next
  case (Cons op ops)
  then have s: "safe (sy_queue sy) (sy_stream sy) (op # ops)" using assms by (simp add: sys_safe_def)
  show ?thesis
  proof (cases op)
    case (Enqueue x)
    with s have "safe (sy_queue sy) (sy_stream sy @ [x]) ops" by (simp add: safe_Enqueue)
    with Enqueue Cons show ?thesis by (simp add: host_step_def sys_safe_def eager_final_def)
  next
    case HostWait
    with s Cons assms show ?thesis
      by (auto simp: host_step_def sys_safe_def eager_final_def safe_def)
  next
    case (HostSubmit t)
    with s have "sy_stream sy = []" "safe (sy_queue sy @ [t]) [] ops"
      by (auto simp: safe_def after_stream_def split: if_splits)
    with HostSubmit Cons show ?thesis
      by (simp add: host_step_def sys_safe_def eager_final_def flush_append)
  next
    case (HostSync a)
    with s Cons assms show ?thesis
      by (auto simp: host_step_def sys_safe_def eager_final_def safe_def after_stream_def
          split: if_splits)
  qed
qed

lemma exec_copy_put:
  assumes "stream_guard q op" and "\<And>t. op \<noteq> StreamSubmit t" "\<And>a. op \<noteq> StreamSync a"
    and "\<And>b s. op \<noteq> CopyOutput b s"
  shows "flush_queue moe add q (exec_copy op m) = exec_copy op (flush_queue moe add q m)"
  using assms by (cases op) (simp_all add: flush_put)

lemma stream_step_ok:
  assumes "sys_safe sy"
  shows "sys_safe (stream_step sy) \<and> eager_final moe add (stream_step sy) = eager_final moe add sy"
proof (cases "sy_stream sy")
  case Nil
  then show ?thesis using assms by (simp add: stream_step_def)
next
  case (Cons op ops)
  then have s: "stream_guard (sy_queue sy) op" "safe (stream_queue (sy_queue sy) op) ops (sy_host sy)"
    using assms safe_stream_head unfolding sys_safe_def by fastforce+
  show ?thesis
  proof (cases op)
    case (StreamSubmit t)
    with s Cons show ?thesis
      by (simp add: stream_step_def sys_safe_def eager_final_def flush_append)
  next
    case (StreamSync a)
    with s Cons assms show ?thesis
      by (cases "length (sy_queue sy) \<le> a")
         (simp_all add: stream_step_def sys_safe_def eager_final_def)
  next
    case (CopyOutput b s')
    with s Cons show ?thesis
      by (simp add: stream_step_def sys_safe_def eager_final_def flush_output_other)
  qed (use s Cons in \<open>simp_all add: stream_step_def sys_safe_def eager_final_def flush_put\<close>)
qed

lemma worker_step_ok:
  assumes "sys_safe sy"
  shows "sys_safe (worker_step moe add sy) \<and>
         eager_final moe add (worker_step moe add sy) = eager_final moe add sy"
proof (cases "sy_queue sy")
  case Nil
  then show ?thesis using assms by (simp add: worker_step_def)
next
  case (Cons t q)
  have "suffix q (sy_queue sy)" by (simp add: Cons suffix_ConsI)
  with assms have "safe q (sy_stream sy) (sy_host sy)" unfolding sys_safe_def by (rule safe_mono)
  with Cons show ?thesis
    by (simp add: worker_step_def sys_safe_def eager_final_def flush_queue_def)
qed

lemma sys_step_ok:
  assumes "sys_safe sy"
  shows "sys_safe (sys_step moe add sy a) \<and>
         eager_final moe add (sys_step moe add sy a) = eager_final moe add sy"
  using host_step_ok [OF assms] stream_step_ok [OF assms] worker_step_ok [OF assms]
  by (cases a) simp_all

interpretation agents: step_machine "sys_step moe add"
  "\<lambda>sy. sys_safe sy \<and> eager_final moe add sy = e" for moe add e
  by unfold_locales (simp add: sys_step_ok)

section \<open>The program of one layer\<close>

record ('h, 'f) layer_input =
  li_wrapper :: wrapper
  li_hidden :: "'h hidden"
  li_ids :: "int list list"
  li_weights :: "'f list list"

definition layer_copies :: "'f topk \<Rightarrow> nat \<Rightarrow> ('h, 'f) layer_input \<Rightarrow> ('h, 'f) host_op list" where
  "layer_copies topk b x =
     (let w = li_wrapper x; s = current_slot w;
          (imm, dfr) = split_ids topk w (li_ids x) (li_weights x)
      in [Enqueue (CopyInput b s (hd_data (li_hidden x))), Enqueue (CopyWeights b s (li_weights x)),
          Enqueue (CopyImmediate b s imm)]
         @ (case dfr of None \<Rightarrow> [] | Some d \<Rightarrow> [Enqueue (CopyDeferred b s d)]))"

definition defers :: "('h, 'f) layer_input \<Rightarrow> bool" where
  "defers x = (max_deferred_experts_per_token (li_wrapper x) > 0)"

text \<open>How the tasks reach the queue and how the output is awaited.\<close>

datatype sync_mode = ByStream | Direct | DirectWait

fun submit_ops :: "sync_mode \<Rightarrow> task \<Rightarrow> ('h, 'f) host_op list" where
  "submit_ops ByStream t = [Enqueue (StreamSubmit t)]"
| "submit_ops _ t = [HostWait, HostSubmit t]"

fun sync_ops :: "sync_mode \<Rightarrow> nat \<Rightarrow> ('h, 'f) host_op list" where
  "sync_ops ByStream a = [Enqueue (StreamSync a)]"
| "sync_ops Direct a = [HostSync a]"
| "sync_ops DirectWait a = [HostWait, HostSync a]"

definition layer_prog ::
  "'f topk \<Rightarrow> sync_mode \<Rightarrow> bool \<Rightarrow> kbuffer \<Rightarrow> bool \<Rightarrow> ('h, 'f) layer_input \<Rightarrow> ('h, 'f) host_op list" where
  "layer_prog topk md autofree b incr x =
     layer_copies topk (buf_id b) x
     @ submit_ops md (immediate_task (li_wrapper x) b incr autofree)
     @ (if defers x then submit_ops md (deferred_task (li_wrapper x) b autofree) else [])
     @ sync_ops md (if defers x then 1 else 0)
     @ [Enqueue (CopyOutput (buf_id b) (current_slot (li_wrapper x)))]"

fun forward_pass :: "'f topk \<Rightarrow> dev_env \<Rightarrow> ('h, 'f) layer_input list \<Rightarrow> (('h, 'f) host, unit) eop" where
  "forward_pass topk env [] = ereturn ()"
| "forward_pass topk env (x # xs) =
     ebind (forward topk env (li_wrapper x) (li_hidden x) (li_ids x) (li_weights x))
       (\<lambda>_. forward_pass topk env xs)"

text \<open>What a layer must deliver: its immediate experts on top of what the layer before deferred.\<close>

definition layer_immediate :: "('h, 'f, 'o) moe_fn \<Rightarrow> 'f topk \<Rightarrow> ('h, 'f) layer_input \<Rightarrow> 'o" where
  "layer_immediate moe topk x =
     moe (layer_idx (li_wrapper x)) (fst (split_ids topk (li_wrapper x) (li_ids x) (li_weights x)))
       (li_weights x) (hd_data (li_hidden x))"

definition layer_deferred :: "('h, 'f, 'o) moe_fn \<Rightarrow> 'f topk \<Rightarrow> ('h, 'f) layer_input \<Rightarrow> 'o option" where
  "layer_deferred moe topk x =
     map_option (\<lambda>ids. moe (layer_idx (li_wrapper x)) ids (li_weights x) (hd_data (li_hidden x)))
       (snd (split_ids topk (li_wrapper x) (li_ids x) (li_weights x)))"

fun expected_outputs ::
  "('h, 'f, 'o) moe_fn \<Rightarrow> ('o \<Rightarrow> 'o \<Rightarrow> 'o) \<Rightarrow> 'f topk \<Rightarrow> 'o option \<Rightarrow> ('h, 'f) layer_input list \<Rightarrow> 'o list" where
  "expected_outputs moe add topk prev [] = []"
| "expected_outputs moe add topk prev (x # xs) =
     (case prev of None \<Rightarrow> layer_immediate moe topk x | Some d \<Rightarrow> add d (layer_immediate moe topk x))
       # expected_outputs moe add topk (layer_deferred moe topk x) xs"

section \<open>The discipline and the meaning of a layer's program\<close>

lemma disc_host_append:
  "disc_host q d (hs @ hs') =
     (case disc_host q d hs of None \<Rightarrow> None | Some (q', d') \<Rightarrow> disc_host q' d' hs')"
  by (induction q d hs rule: disc_host.induct) auto

text \<open>The task a layer may leave behind in the queue.\<close>

definition carried :: "kbuffer \<Rightarrow> bool \<Rightarrow> ('h, 'f) layer_input \<Rightarrow> task list" where
  "carried b autofree x = (if defers x then [deferred_task (li_wrapper x) b autofree] else [])"

lemma current_slot_cases: "current_slot w = 0 \<or> current_slot w = 1"
  unfolding current_slot_def by linarith

lemma next_slot_neq [simp]: "next_slot w \<noteq> current_slot w" "current_slot w \<noteq> next_slot w"
  using current_slot_cases [of w] by (auto simp: next_slot_def)

lemma next_slot_succ:
  assumes "layer_idx w' = layer_idx w + 1"
  shows "current_slot w' = next_slot w" "current_slot w \<noteq> current_slot w'"
proof -
  have "(layer_idx w + 1) mod 2 = 1 - layer_idx w mod 2" by presburger
  moreover have "layer_idx w mod 2 = 0 \<or> layer_idx w mod 2 = 1" by presburger
  ultimately show "current_slot w' = next_slot w"
    using assms by (auto simp: current_slot_def next_slot_def)
  then show "current_slot w \<noteq> current_slot w'" by simp
qed

lemma snd_split_ids: "snd (split_ids topk w ids ws) = None \<longleftrightarrow> max_deferred_experts_per_token w \<le> 0"
  by (auto simp: split_ids_def Let_def split: prod.splits)

lemma task_simps [simp]:
  "tk_buf (immediate_task w b i a) = buf_id b" "tk_slot (immediate_task w b i a) = current_slot w"
  "tk_out (immediate_task w b i a) = current_slot w" "tk_incremental (immediate_task w b i a) = i"
  "tk_deferred (immediate_task w b i a) = False" "tk_layer (immediate_task w b i a) = layer_idx w"
  "tk_buf (deferred_task w b a) = buf_id b" "tk_slot (deferred_task w b a) = current_slot w"
  "tk_out (deferred_task w b a) = next_slot w" "tk_incremental (deferred_task w b a) = False"
  "tk_deferred (deferred_task w b a) = True" "tk_layer (deferred_task w b a) = layer_idx w"
  by (simp_all add: immediate_task_def deferred_task_def)

lemma layer_copies_disc:
  assumes "no_reader (buf_id b) (current_slot (li_wrapper x)) q"
  shows "disc_host q d (layer_copies topk (buf_id b) x) = Some (q, True)"
  using assms by (auto simp: layer_copies_def Let_def split: prod.splits option.splits)

lemma submit_ops_disc: "disc_host q True (submit_ops md t) = Some (q @ [t], md = ByStream)"
  "disc_host q False (submit_ops md t) = Some (q @ [t], md = ByStream)"
  by (cases md; simp)+

lemma sync_ops_disc: "disc_host q (md = ByStream) (sync_ops md a) = Some (drop_done a q, md = ByStream)"
  by (cases md; simp)

lemma layer_prog_disc:
  assumes "no_reader (buf_id b) (current_slot (li_wrapper x)) q"
  shows "disc_host q d (layer_prog topk md autofree b incr x) = Some (carried b autofree x, True)"
proof -
  have sub: "disc_host q' d' (submit_ops md t) = Some (q' @ [t], md = ByStream)" for q' d' t
    using submit_ops_disc by (cases d') auto
  have fin: "no_writer (buf_id b) (current_slot (li_wrapper x)) (carried b autofree x)"
    by (simp add: no_writer_def carried_def)
  show ?thesis
  proof (cases "defers x")
    case True
    with fin show ?thesis
      by (simp add: layer_prog_def disc_host_append layer_copies_disc [OF assms] sub sync_ops_disc
          drop_done_def carried_def)
  next
    case False
    with fin show ?thesis
      by (simp add: layer_prog_def disc_host_append layer_copies_disc [OF assms] sub sync_ops_disc
          drop_done_def carried_def)
  qed
qed

lemma fold_submit_ops:
  "fold (eager_host moe add) (submit_ops md t) (m, os) = (exec_task moe add t m, os)"
  by (cases md) simp_all

lemma fold_sync_ops: "fold (eager_host moe add) (sync_ops md a) e = e"
  by (cases md; cases e) simp_all

text \<open>After the copies the slot holds the inputs of the layer; the outputs are untouched.\<close>

lemma layer_copies_eager:
  assumes "fold (eager_host moe add) (layer_copies topk (buf_id b) x) (m, os) = (m', os')"
    and "s = current_slot (li_wrapper x)" and "(imm, dfr) = split_ids topk (li_wrapper x) (li_ids x) (li_weights x)"
  shows "os' = os" "sl_input (m' (buf_id b) s) = hd_data (li_hidden x)"
    "sl_weights (m' (buf_id b) s) = li_weights x" "sl_immediate (m' (buf_id b) s) = imm"
    "dfr = Some d \<Longrightarrow> sl_deferred (m' (buf_id b) s) = d"
    "sl_output (m' (buf_id b) s) = sl_output (m (buf_id b) s)"
  using assms(1) unfolding assms(2) layer_copies_def assms(3) [symmetric] Let_def
  by (auto split: option.splits)

lemma layer_prog_eager:
  assumes inc: "incr \<Longrightarrow> prev = Some (sl_output (m (buf_id b) (current_slot (li_wrapper x))))"
    and ninc: "\<not> incr \<Longrightarrow> prev = None"
  shows "\<exists>m'. fold (eager_host moe add) (layer_prog topk md autofree b incr x) (m, os) =
        (m', os @ [case prev of None \<Rightarrow> layer_immediate moe topk x
                              | Some d \<Rightarrow> add d (layer_immediate moe topk x)]) \<and>
      (\<forall>d. layer_deferred moe topk x = Some d \<longrightarrow>
         sl_output (m' (buf_id b) (next_slot (li_wrapper x))) = d)"
proof -
  let ?w = "li_wrapper x" and ?i = "buf_id b"
  let ?s = "current_slot ?w"
  obtain imm dfr where sp: "(imm, dfr) = split_ids topk ?w (li_ids x) (li_weights x)"
    by (cases "split_ids topk ?w (li_ids x) (li_weights x)") auto
  obtain m1 os1 where c: "fold (eager_host moe add) (layer_copies topk ?i x) (m, os) = (m1, os1)"
    by (cases "fold (eager_host moe add) (layer_copies topk ?i x) (m, os)") auto
  note cs = layer_copies_eager [OF c refl sp]
  let ?t = "immediate_task ?w b incr autofree"
  define m2 where "m2 = exec_task moe add ?t m1"
  let ?r = "case prev of None \<Rightarrow> layer_immediate moe topk x | Some d \<Rightarrow> add d (layer_immediate moe topk x)"
  have imm: "layer_immediate moe topk x = moe (layer_idx ?w) imm (li_weights x) (hd_data (li_hidden x))"
    by (simp add: layer_immediate_def sp [symmetric])
  have m2: "m2 = put_slot ?i ?s (\<lambda>d. d\<lparr>sl_output := ?r\<rparr>) m1"
    using cs(2-4,6) inc ninc
    by (cases incr) (auto simp: m2_def exec_task_def Let_def put_slot_def imm fun_eq_iff)
  show ?thesis
  proof (cases "defers x")
    case False
    then have "dfr = None" using snd_split_ids [of topk ?w "li_ids x" "li_weights x"] sp [symmetric]
      by (simp add: defers_def)
    then have "layer_deferred moe topk x = None" by (simp add: layer_deferred_def sp [symmetric])
    moreover have "fold (eager_host moe add) (layer_prog topk md autofree b incr x) (m, os) = (m2, os @ [?r])"
      using False cs(1) by (simp add: layer_prog_def c fold_submit_ops fold_sync_ops m2 m2_def [symmetric])
    ultimately show ?thesis by simp
  next
    case True
    then obtain d where d: "dfr = Some d"
      using snd_split_ids [of topk ?w "li_ids x" "li_weights x"] sp [symmetric]
      by (cases dfr) (auto simp: defers_def)
    let ?u = "deferred_task ?w b autofree"
    define m3 where "m3 = exec_task moe add ?u m2"
    have "sl_output (m3 ?i ?s) = ?r"
      unfolding m3_def by (subst exec_task_output_other) (simp_all add: m2)
    moreover have "sl_output (m3 ?i (next_slot ?w)) =
        moe (layer_idx ?w) d (li_weights x) (hd_data (li_hidden x))"
      using cs(2,3) cs(5) [OF d] by (simp add: m3_def exec_task_def Let_def m2)
    moreover have "fold (eager_host moe add) (layer_prog topk md autofree b incr x) (m, os)
        = (m3, os @ [sl_output (m3 ?i ?s)])"
      using True cs(1)
      by (simp add: layer_prog_def c fold_submit_ops fold_sync_ops m2_def [symmetric] m3_def [symmetric])
    ultimately show ?thesis
      by (auto simp: layer_deferred_def sp [symmetric] d)
  qed
qed

section \<open>What the Python methods emit\<close>

definition cached :: "cache \<Rightarrow> nat \<Rightarrow> kbuffer \<Rightarrow> bool" where
  "cached c k b \<longleftrightarrow> dget (capture_buffers c) k = Some b \<or>
     dget (capture_buffers c) k = None \<and> dget (temp_buffers c) k = Some b"

lemma get_buffer_cached:
  assumes "cached c k b"
  shows "\<exists>c'. get_buffer env ps dev k h t c = (Inr (b, []), c') \<and> cached c' k b"
  using assms unfolding cached_def
  by (cases "dget (capture_buffers c) k")
     (auto simp: get_buffer_def move_to_end_def dget_append)

lemma fetch_buffer_cached:
  assumes "cached (ho_cache ho) (hd_qlen hs) b"
  obtains c where "fetch_buffer env w hs ho = (Inr b, ho\<lparr>ho_cache := c\<rparr>)" "cached c (hd_qlen hs) b"
  using get_buffer_cached [OF assms, of env "ho_pool ho" "hd_device hs" "hd_hidden hs" "num_experts_per_tok w"]
  by (auto simp: fetch_buffer_def)

text \<open>A first request leaves the buffer in the cache when the LRU has room for one.\<close>

lemma get_buffer_makes_cached:
  assumes "get_buffer env ps dev k h t c = (Inr (b, evs), c')" "cache_wf c"
    and "1 \<le> max_temp_buffer_sizes c"
  shows "cached c' k b"
  using assms(1)
proof (cases rule: get_buffer_cases)
  case (alloc st2)
  let ?n = "new_buffer k h t c"
  have fresh: "temp_buffers st2 = temp_buffers c @ [(k, ?n)]"
    using alloc(2,5) by (simp add: dset_fresh dget_None_iff)
  have b: "b = ?n" using alloc(6) by auto
  have cap: "dget (capture_buffers st2) k = None" using alloc(1,5) by simp
  show ?thesis
  proof (cases "c' = st2")
    case True
    then show ?thesis using cap b alloc(2) fresh by (simp add: cached_def dget_append)
  next
    case False
    with alloc(6) have big: "int (length (temp_buffers st2)) > max_temp_buffer_sizes c"
      and ev: "\<exists>r. evict_oldest_temp_buffer env ps dev st2 = (r, c')" by auto
    from big assms(3) fresh obtain p rest where p: "temp_buffers c = p # rest"
      by (cases "temp_buffers c") auto
    from ev False obtain rest' k' b' where
      "temp_buffers st2 = (k', b') # rest'" "c' = st2\<lparr>temp_buffers := rest'\<rparr>"
      using evict_cases by blast
    with p fresh have "c' = st2\<lparr>temp_buffers := rest @ [(k, ?n)]\<rparr>" by simp
    moreover have "dget rest k = None" using alloc(2) p by (cases p) (auto split: if_splits)
    ultimately show ?thesis using cap b by (simp add: cached_def dget_append)
  qed
qed (auto simp: cached_def move_to_end_def dget_append)

definition direct_submit :: "dev_env \<Rightarrow> device \<Rightarrow> bool" where
  "direct_submit env dev = (dev_type dev = ''npu'' \<or> env_force_sync env = ''1'')"

lemma bypass_cases:
  assumes "should_bypass_stream_callback env a dev = (bypass, a')" "dev_type dev \<noteq> ''npu''"
  shows "bypass \<longleftrightarrow> env_force_sync env = ''1''"
  using assms by (auto simp: should_bypass_stream_callback_def split: if_splits)

lemma bypass_direct:
  assumes "should_bypass_stream_callback env a dev = (bypass, a')"
  shows "bypass \<or> dev_type dev = ''npu'' \<longleftrightarrow> direct_submit env dev"
  using assms by (auto simp: should_bypass_stream_callback_def direct_submit_def split: if_splits)

lemma emit_simps [simp]: "emit ops ho = (Inr (), ho\<lparr>ho_prog := ho_prog ho @ ops\<rparr>)"
  by (simp add: emit_def)

lemma copy_in_Inr:
  "copy_in d s op ho = (Inr u, ho') \<Longrightarrow> ho' = ho\<lparr>ho_prog := ho_prog ho @ [Enqueue op]\<rparr>"
  by (auto simp: copy_in_def split: if_splits)

lemma copy_rows_Inr:
  "copy_rows d r op ho = (Inr u, ho') \<Longrightarrow> ho' = ho\<lparr>ho_prog := ho_prog ho @ [Enqueue op]\<rparr>"
  by (auto simp: copy_rows_def dest: copy_in_Inr split: if_splits)

lemma prepare_emits:
  assumes "prepare_forward_cpu_buffers topk env (li_wrapper x) (li_hidden x) (li_ids x) (li_weights x) ho
             = (Inr (dfr, b), ho')"
  shows "\<exists>ho1. fetch_buffer env (li_wrapper x) (li_hidden x) ho = (Inr b, ho1) \<and>
           ho' = ho1\<lparr>ho_prog := ho_prog ho1 @ layer_copies topk (buf_id b) x\<rparr> \<and> (dfr \<noteq> None \<longleftrightarrow> defers x)"
proof -
  obtain imm d where sp: "split_ids topk (li_wrapper x) (li_ids x) (li_weights x) = (imm, d)"
    by (cases "split_ids topk (li_wrapper x) (li_ids x) (li_weights x)")
  have "d \<noteq> None \<longleftrightarrow> defers x"
    using snd_split_ids [of topk "li_wrapper x" "li_ids x" "li_weights x"] by (auto simp: sp defers_def)
  with assms show ?thesis
    unfolding prepare_forward_cpu_buffers_def sp Let_def
    by (cases d)
       (auto simp: ebind_eq_Inr layer_copies_def sp Let_def dest!: copy_in_Inr copy_rows_Inr)
qed

text \<open>The program of a whole forward call, after the request for the buffer.\<close>

lemma wait_emits:
  assumes "wait_device env (hd_device hs) = Inr WaitSynchronized"
  shows "wait_for_device env hs ho = (Inr (), ho\<lparr>ho_prog := ho_prog ho @ [HostWait]\<rparr>)"
  using assms by (simp add: wait_for_device_def)

lemma submit_emits:
  assumes "submit_forward topk env (li_wrapper x) (li_hidden x) (li_ids x) (li_weights x) ho = (Inr (), ho')"
    and wait: "direct_submit env (hd_device (li_hidden x)) \<Longrightarrow>
                 wait_device env (hd_device (li_hidden x)) = Inr WaitSynchronized"
  shows "\<exists>ho1 b md af. fetch_buffer env (li_wrapper x) (li_hidden x) ho = (Inr b, ho1) \<and>
     (direct_submit env (hd_device (li_hidden x)) \<longleftrightarrow> md \<noteq> ByStream) \<and>
     ho_prog ho' = ho_prog ho1 @ layer_copies topk (buf_id b) x
        @ submit_ops md (immediate_task (li_wrapper x) b (has_pending ho1 (layer_idx (li_wrapper x) - 1)) af)
        @ (if defers x then submit_ops md (deferred_task (li_wrapper x) b af) else []) \<and>
     (\<forall>l. has_pending ho' l = (if l = layer_idx (li_wrapper x) then defers x else has_pending ho1 l)) \<and>
     ho_cache ho' = ho_cache ho1"
proof -
  obtain dfr b ho2 where
    prep: "prepare_forward_cpu_buffers topk env (li_wrapper x) (li_hidden x) (li_ids x) (li_weights x) ho
             = (Inr (dfr, b), ho2)"
    using assms(1) by (auto simp: submit_forward_def ebind_eq_Inr)
  obtain ho1 where f: "fetch_buffer env (li_wrapper x) (li_hidden x) ho = (Inr b, ho1)"
    and ho2: "ho2 = ho1\<lparr>ho_prog := ho_prog ho1 @ layer_copies topk (buf_id b) x\<rparr>"
    and dfr: "dfr \<noteq> None \<longleftrightarrow> defers x"
    using prepare_emits [OF prep] by blast
  obtain bypass a where bp: "should_bypass_stream_callback env (ho_acl ho1) (hd_device (li_hidden x)) = (bypass, a)"
    by (cases "should_bypass_stream_callback env (ho_acl ho1) (hd_device (li_hidden x))")
  note dir = bypass_direct [OF bp]
  let ?md = "if direct_submit env (hd_device (li_hidden x)) then Direct else ByStream"
  have "?md \<noteq> ByStream \<longleftrightarrow> direct_submit env (hd_device (li_hidden x))" by simp
  moreover have "ho_prog ho' = ho_prog ho1 @ layer_copies topk (buf_id b) x
        @ submit_ops ?md (immediate_task (li_wrapper x) b (has_pending ho1 (layer_idx (li_wrapper x) - 1))
             (forward_task_autofree env (direct_submit env (hd_device (li_hidden x))) (hd_device (li_hidden x))))
        @ (if defers x then submit_ops ?md (deferred_task (li_wrapper x) b
             (forward_task_autofree env (direct_submit env (hd_device (li_hidden x))) (hd_device (li_hidden x)))) else []) \<and>
      (\<forall>l. has_pending ho' l = (if l = layer_idx (li_wrapper x) then defers x else has_pending ho1 l)) \<and>
      ho_cache ho' = ho_cache ho1"
  proof (cases "direct_submit env (hd_device (li_hidden x))")
    case True
    show ?thesis
      using assms(1) True dfr dir
      by (simp add: submit_forward_def prep bypass_callback_def bp Let_def
          ebind_def wait_emits [OF wait [OF True]] ho2 set_pending_def has_pending_def
          submit_op_def split: if_splits) auto
  next
    case False
    show ?thesis
      using assms(1) False dfr dir
      by (simp add: submit_forward_def prep bypass_callback_def bp Let_def
          ebind_def ho2 set_pending_def has_pending_def
          submit_op_def split: if_splits) auto
  qed
  ultimately show ?thesis using f by blast
qed

lemma copy_output_emits:
  assumes "copy_forward_output_to_device env w hs ho = (Inr (), ho')"
    and "cached (ho_cache ho) (hd_qlen hs) b"
  shows "ho_prog ho' = ho_prog ho @ [Enqueue (CopyOutput (buf_id b) (current_slot w))] \<and>
         ho_pending ho' = ho_pending ho \<and> cached (ho_cache ho') (hd_qlen hs) b"
proof -
  obtain c where "fetch_buffer env w hs ho = (Inr b, ho\<lparr>ho_cache := c\<rparr>)" "cached c (hd_qlen hs) b"
    using fetch_buffer_cached [OF assms(2)] .
  with assms(1) show ?thesis
    by (auto simp: copy_forward_output_to_device_def ebind_def)
qed

lemma sync_emits:
  assumes "sync_forward env w hs ho = (Inr (), ho')" and ca: "cached (ho_cache ho) (hd_qlen hs) b"
    and wait: "direct_submit env (hd_device hs) \<Longrightarrow> wait_device env (hd_device hs) = Inr WaitSynchronized"
  shows "\<exists>md. (direct_submit env (hd_device hs) \<longleftrightarrow> md \<noteq> ByStream) \<and>
     ho_prog ho' = ho_prog ho @ sync_ops md (allow_pending w ho)
        @ [Enqueue (CopyOutput (buf_id b) (current_slot w))] \<and>
     ho_pending ho' = ho_pending ho \<and> cached (ho_cache ho') (hd_qlen hs) b"
proof -
  obtain c where f: "fetch_buffer env w hs ho = (Inr b, ho\<lparr>ho_cache := c\<rparr>)" "cached c (hd_qlen hs) b"
    using fetch_buffer_cached [OF ca] .
  obtain bypass a where bp: "should_bypass_stream_callback env (ho_acl ho) (hd_device hs) = (bypass, a)"
    by (cases "should_bypass_stream_callback env (ho_acl ho) (hd_device hs)")
  define md where "md = (if bypass then Direct else if dev_type (hd_device hs) = ''npu'' then DirectWait else ByStream)"
  define ho2 where "ho2 = ho\<lparr>ho_cache := c, ho_acl := a,
      ho_prog := ho_prog ho @ sync_ops md (allow_pending w ho)\<rparr>"
  have dir: "direct_submit env (hd_device hs) \<longleftrightarrow> md \<noteq> ByStream"
    using bypass_direct [OF bp] by (auto simp: md_def)
  have al: "allow_pending w (ho\<lparr>ho_cache := c\<rparr>) = allow_pending w ho"
    by (simp add: allow_pending_def has_pending_def)
  have "copy_forward_output_to_device env w hs ho2 = (Inr (), ho')"
  proof (cases md)
    case ByStream
    then have "\<not> bypass" "dev_type (hd_device hs) \<noteq> ''npu''" by (auto simp: md_def split: if_splits)
    with assms(1) ByStream show ?thesis
      by (simp add: sync_forward_def ebind_def f(1) bypass_callback_def bp al ho2_def Let_def)
  next
    case Direct
    then have "bypass" by (auto simp: md_def split: if_splits)
    with assms(1) Direct show ?thesis
      by (simp add: sync_forward_def ebind_def f(1) bypass_callback_def bp al ho2_def Let_def)
  next
    case DirectWait
    then have b: "\<not> bypass" "dev_type (hd_device hs) = ''npu''" by (auto simp: md_def split: if_splits)
    have "wait_device env (hd_device hs) = Inr WaitSynchronized" using wait b(2) by (simp add: direct_submit_def)
    with assms(1) DirectWait b show ?thesis
      by (simp add: sync_forward_def ebind_def f(1) bypass_callback_def bp al ho2_def Let_def wait_emits)
  qed
  moreover have "cached (ho_cache ho2) (hd_qlen hs) b" using f(2) by (simp add: ho2_def)
  ultimately have "ho_prog ho' = ho_prog ho2 @ [Enqueue (CopyOutput (buf_id b) (current_slot w))] \<and>
      ho_pending ho' = ho_pending ho2 \<and> cached (ho_cache ho') (hd_qlen hs) b"
    by (rule copy_output_emits)
  with dir show ?thesis by (auto simp: ho2_def)
qed

lemma forward_emits:
  assumes "forward topk env (li_wrapper x) (li_hidden x) (li_ids x) (li_weights x) ho = (Inr (), ho')"
    and f: "fetch_buffer env (li_wrapper x) (li_hidden x) ho = (Inr b, ho1)"
    and ca: "cached (ho_cache ho1) (hd_qlen (li_hidden x)) b"
    and wait: "direct_submit env (hd_device (li_hidden x)) \<Longrightarrow>
                 wait_device env (hd_device (li_hidden x)) = Inr WaitSynchronized"
  shows "\<exists>md af. ho_prog ho' = ho_prog ho1 @
        layer_prog topk md af b (has_pending ho1 (layer_idx (li_wrapper x) - 1)) x \<and>
     has_pending ho' (layer_idx (li_wrapper x)) = defers x \<and>
     cached (ho_cache ho') (hd_qlen (li_hidden x)) b"
proof -
  obtain ho2 where s: "submit_forward topk env (li_wrapper x) (li_hidden x) (li_ids x) (li_weights x) ho
      = (Inr (), ho2)" and y: "sync_forward env (li_wrapper x) (li_hidden x) ho2 = (Inr (), ho')"
    using assms(1) by (auto simp: forward_def ebind_eq_Inr)
  obtain md af where md: "direct_submit env (hd_device (li_hidden x)) \<longleftrightarrow> md \<noteq> ByStream"
    and p2: "ho_prog ho2 = ho_prog ho1 @ layer_copies topk (buf_id b) x
        @ submit_ops md (immediate_task (li_wrapper x) b (has_pending ho1 (layer_idx (li_wrapper x) - 1)) af)
        @ (if defers x then submit_ops md (deferred_task (li_wrapper x) b af) else [])"
    and h2: "\<forall>l. has_pending ho2 l = (if l = layer_idx (li_wrapper x) then defers x else has_pending ho1 l)"
    and c2: "ho_cache ho2 = ho_cache ho1"
    using submit_emits [OF s wait] f by fastforce
  from ca c2 have "cached (ho_cache ho2) (hd_qlen (li_hidden x)) b" by simp
  from sync_emits [OF y this wait] obtain md' where
    md': "direct_submit env (hd_device (li_hidden x)) \<longleftrightarrow> md' \<noteq> ByStream"
    and p': "ho_prog ho' = ho_prog ho2 @ sync_ops md' (allow_pending (li_wrapper x) ho2)
        @ [Enqueue (CopyOutput (buf_id b) (current_slot (li_wrapper x)))]"
    and q': "ho_pending ho' = ho_pending ho2" "cached (ho_cache ho') (hd_qlen (li_hidden x)) b"
    by blast
  have "allow_pending (li_wrapper x) ho2 = (if defers x then 1 else 0)"
    using h2 by (simp add: allow_pending_def)
  then have "ho_prog ho' = ho_prog ho1 @
        layer_prog topk md' af b (has_pending ho1 (layer_idx (li_wrapper x) - 1)) x"
    using p' p2 md md' by (cases md; cases md') (simp_all add: layer_prog_def)
  moreover have "has_pending ho' (layer_idx (li_wrapper x)) = defers x"
    using h2 q'(1) by (simp add: has_pending_def)
  ultimately show ?thesis using q'(2) by blast
qed

section \<open>A pass over the layers\<close>

text \<open>Consecutive layers \<open>k, k+1, \<dots>\<close> of one model on the same batch.\<close>

fun one_pass :: "int \<Rightarrow> nat \<Rightarrow> device \<Rightarrow> ('h, 'f) layer_input list \<Rightarrow> bool" where
  "one_pass k n dev [] = True"
| "one_pass k n dev (x # xs) =
     (layer_idx (li_wrapper x) = k \<and> hd_qlen (li_hidden x) = n \<and> hd_device (li_hidden x) = dev \<and>
      one_pass (k + 1) n dev xs)"

lemma next_layer_slot:
  assumes "layer_idx (li_wrapper x) = k" "one_pass (k + 1) n dev (y # ys)"
  shows "current_slot (li_wrapper y) = next_slot (li_wrapper x)"
  using assms by (intro next_slot_succ) simp

lemma forward_pass_rest:
  assumes "forward_pass topk env xs ho = (Inr (), ho')" "one_pass k n dev xs"
    and "cached (ho_cache ho) n b"
    and "direct_submit env dev \<Longrightarrow> wait_device env dev = Inr WaitSynchronized"
    and "has_pending ho (k - 1) \<longleftrightarrow> prev \<noteq> None"
    and "xs \<noteq> [] \<Longrightarrow> no_reader (buf_id b) (current_slot (li_wrapper (hd xs))) q"
    and "\<And>d. xs \<noteq> [] \<Longrightarrow> prev = Some d \<Longrightarrow> sl_output (m (buf_id b) (current_slot (li_wrapper (hd xs)))) = d"
  shows "\<exists>ops. ho_prog ho' = ho_prog ho @ ops \<and> disc_host q dirty ops \<noteq> None \<and>
     snd (fold (eager_host moe add) ops (m, os)) = os @ expected_outputs moe add topk prev xs"
  using assms
proof (induction xs arbitrary: ho k prev q m os dirty)
  case Nil
  then show ?case by (auto intro: exI [of _ "[]"])
next
  case (Cons x xs)
  let ?w = "li_wrapper x"
  have x: "layer_idx ?w = k" "hd_qlen (li_hidden x) = n" "hd_device (li_hidden x) = dev"
    and pass: "one_pass (k + 1) n dev xs"
    using Cons.prems(2) by simp_all
  obtain ho1 where fw: "forward topk env ?w (li_hidden x) (li_ids x) (li_weights x) ho = (Inr (), ho1)"
    and rest: "forward_pass topk env xs ho1 = (Inr (), ho')"
    using Cons.prems(1) by (auto simp: ebind_eq_Inr)
  have "cached (ho_cache ho) (hd_qlen (li_hidden x)) b" using Cons.prems(3) x by simp
  from fetch_buffer_cached [OF this] obtain c where
    f: "fetch_buffer env ?w (li_hidden x) ho = (Inr b, ho\<lparr>ho_cache := c\<rparr>)" "cached c n b"
    using x(2) by blast
  obtain md af where p1: "ho_prog ho1 = ho_prog ho @ layer_prog topk md af b (has_pending ho (k - 1)) x"
    and h1: "has_pending ho1 k = defers x" and c1: "cached (ho_cache ho1) n b"
    using forward_emits [OF fw f(1)] f(2) Cons.prems(4) x
    by (auto simp: has_pending_def)
  let ?P = "layer_prog topk md af b (has_pending ho (k - 1)) x"
  let ?d = "layer_deferred moe topk x"
  have disc: "disc_host q dirty ?P = Some (carried b af x, True)"
    using Cons.prems(6) by (intro layer_prog_disc) simp
  have inc: "has_pending ho (k - 1) \<Longrightarrow> prev = Some (sl_output (m (buf_id b) (current_slot ?w)))"
    "\<not> has_pending ho (k - 1) \<Longrightarrow> prev = None"
    using Cons.prems(5,7) by auto
  obtain m1 where e1: "fold (eager_host moe add) ?P (m, os) = (m1, os @ [case prev of
        None \<Rightarrow> layer_immediate moe topk x | Some d \<Rightarrow> add d (layer_immediate moe topk x)])"
    and d1: "\<forall>d. ?d = Some d \<longrightarrow> sl_output (m1 (buf_id b) (next_slot ?w)) = d"
    using layer_prog_eager [where incr = "has_pending ho (k - 1)" and prev = prev and m = m and b = b
        and x = x and md = md and autofree = af and moe = moe and add = add and topk = topk and os = os]
      inc by blast
  have pd: "has_pending ho1 (k + 1 - 1) \<longleftrightarrow> ?d \<noteq> None"
    using h1 snd_split_ids [of topk ?w "li_ids x" "li_weights x"]
    by (auto simp: layer_deferred_def defers_def)
  have slot: "xs \<noteq> [] \<Longrightarrow> current_slot (li_wrapper (hd xs)) = next_slot ?w"
    using next_layer_slot [OF x(1)] pass by (cases xs) auto
  have rd: "xs \<noteq> [] \<Longrightarrow> no_reader (buf_id b) (current_slot (li_wrapper (hd xs))) (carried b af x)"
    using slot by (simp add: no_reader_def carried_def)
  have out: "\<And>d. xs \<noteq> [] \<Longrightarrow> ?d = Some d \<Longrightarrow>
      sl_output (m1 (buf_id b) (current_slot (li_wrapper (hd xs)))) = d"
    using slot d1 by simp
  from Cons.IH [where m = m1, OF rest pass c1 Cons.prems(4) pd rd out] obtain ops where
    "ho_prog ho' = ho_prog ho1 @ ops" "disc_host (carried b af x) True ops \<noteq> None"
    "snd (fold (eager_host moe add) ops (m1, os @ [case prev of None \<Rightarrow> layer_immediate moe topk x
        | Some d \<Rightarrow> add d (layer_immediate moe topk x)])) = (os @ [case prev of
        None \<Rightarrow> layer_immediate moe topk x | Some d \<Rightarrow> add d (layer_immediate moe topk x)])
        @ expected_outputs moe add topk ?d xs"
    by blast
  with p1 disc e1 show ?case
    by (intro exI [of _ "?P @ ops"]) (simp add: disc_host_append)
qed

text \<open>The first layer may allocate the buffer and evict another one before it stages its inputs.\<close>

lemma cache_events_disc:
  "disc_host [] False (concat (map cache_event_ops evs)) = Some ([], False)"
proof (induction evs)
  case (Cons e evs)
  then show ?case
    by (cases e rule: cache_event_ops.cases) (simp_all add: disc_host_append drop_done_def)
qed simp

lemma cache_events_eager: "fold (eager_host moe add) (concat (map cache_event_ops evs)) e = e"
proof (induction evs)
  case (Cons v evs)
  then show ?case
    by (cases v rule: cache_event_ops.cases; cases e) simp_all
qed simp

lemma fetch_buffer_Inr:
  assumes "fetch_buffer env w hs ho = (Inr b, ho1)"
    and "cache_wf (ho_cache ho)" "1 \<le> max_temp_buffer_sizes (ho_cache ho)"
  obtains evs c where "ho1 = ho\<lparr>ho_cache := c, ho_prog := ho_prog ho @ concat (map cache_event_ops evs)\<rparr>"
    "cached c (hd_qlen hs) b"
  using assms get_buffer_makes_cached [OF _ assms(2,3)]
  by (fastforce simp: fetch_buffer_def split: prod.splits sum.splits)

lemma forward_pass_ok:
  assumes "forward_pass topk env xs ho = (Inr (), ho')" "one_pass k n dev xs"
    and "cache_wf (ho_cache ho)" "1 \<le> max_temp_buffer_sizes (ho_cache ho)"
    and wait: "direct_submit env dev \<Longrightarrow> wait_device env dev = Inr WaitSynchronized"
    and "\<not> has_pending ho (k - 1)" "ho_prog ho = []"
  shows "disc_host [] False (ho_prog ho') \<noteq> None \<and>
     snd (fold (eager_host moe add) (ho_prog ho') (m, os)) = os @ expected_outputs moe add topk None xs"
proof (cases xs)
  case Nil
  then show ?thesis using assms by simp
next
  case (Cons x ys)
  obtain b ho1 where f: "fetch_buffer env (li_wrapper x) (li_hidden x) ho = (Inr b, ho1)"
    using assms(1) Cons by (auto simp: ebind_eq_Inr forward_def submit_forward_def
        prepare_forward_cpu_buffers_def)
  from fetch_buffer_Inr [OF f assms(3,4)] obtain evs c where
    ho1: "ho1 = ho\<lparr>ho_cache := c, ho_prog := ho_prog ho @ concat (map cache_event_ops evs)\<rparr>"
    and c: "cached c (hd_qlen (li_hidden x)) b" .
  text \<open>From \<open>ho1\<close> on, the same calls find the buffer in the cache.\<close>
  have x: "layer_idx (li_wrapper x) = k" "hd_qlen (li_hidden x) = n" "hd_device (li_hidden x) = dev"
    and pass: "one_pass (k + 1) n dev ys"
    using assms(2) Cons by simp_all
  obtain ho2 where fw: "forward topk env (li_wrapper x) (li_hidden x) (li_ids x) (li_weights x) ho = (Inr (), ho2)"
    and rest: "forward_pass topk env ys ho2 = (Inr (), ho')"
    using assms(1) Cons by (auto simp: ebind_eq_Inr)
  obtain md af where p2: "ho_prog ho2 = concat (map cache_event_ops evs)
        @ layer_prog topk md af b False x"
    and h2: "has_pending ho2 k = defers x" and c2: "cached (ho_cache ho2) n b"
    using forward_emits [OF fw f] c wait x assms(6,7)
    by (auto simp: has_pending_def ho1)
  let ?d = "layer_deferred moe topk x"
  let ?P = "layer_prog topk md af b False x"
  have disc: "disc_host [] False ?P = Some (carried b af x, True)"
    by (intro layer_prog_disc) (simp add: no_reader_def)
  obtain m1 where e1: "fold (eager_host moe add) ?P (m, os) = (m1, os @ [layer_immediate moe topk x])"
    and d1: "\<forall>d. ?d = Some d \<longrightarrow> sl_output (m1 (buf_id b) (next_slot (li_wrapper x))) = d"
    using layer_prog_eager [where incr = False and prev = None and m = m and b = b
        and x = x and md = md and autofree = af and moe = moe and add = add and topk = topk and os = os]
    by auto
  have pd: "has_pending ho2 (k + 1 - 1) \<longleftrightarrow> ?d \<noteq> None"
    using h2 snd_split_ids [of topk "li_wrapper x" "li_ids x" "li_weights x"]
    by (auto simp: layer_deferred_def defers_def)
  have slot: "ys \<noteq> [] \<Longrightarrow> current_slot (li_wrapper (hd ys)) = next_slot (li_wrapper x)"
    using next_layer_slot [OF x(1)] pass by (cases ys) auto
  have rd: "ys \<noteq> [] \<Longrightarrow> no_reader (buf_id b) (current_slot (li_wrapper (hd ys))) (carried b af x)"
    using slot by (simp add: no_reader_def carried_def)
  have out: "\<And>d. ys \<noteq> [] \<Longrightarrow> ?d = Some d \<Longrightarrow>
      sl_output (m1 (buf_id b) (current_slot (li_wrapper (hd ys)))) = d"
    using slot d1 by simp
  from forward_pass_rest [where m = m1, OF rest pass c2 wait pd rd out] obtain ops where
    "ho_prog ho' = ho_prog ho2 @ ops" "disc_host (carried b af x) True ops \<noteq> None"
    "snd (fold (eager_host moe add) ops (m1, os @ [layer_immediate moe topk x])) =
       (os @ [layer_immediate moe topk x]) @ expected_outputs moe add topk ?d ys"
    by blast
  with p2 disc e1 show ?thesis
    by (simp add: disc_host_append cache_events_disc cache_events_eager Cons)
qed

definition start_sys ::
  "('h, 'f) host \<Rightarrow> ('h, 'f, 'o) memory \<Rightarrow> ('h, 'f, 'o) sys" where
  "start_sys ho m = \<lparr>sy_host = ho_prog ho, sy_stream = [], sy_queue = [], sy_mem = m, sy_outs = []\<rparr>"

lemma start_sys_safe: "disc_host [] False (ho_prog ho) \<noteq> None \<Longrightarrow> sys_safe (start_sys ho m)"
  by (simp add: sys_safe_def start_sys_def safe_def after_stream_def)

lemma eager_final_done: "sys_done sy \<Longrightarrow> snd (eager_final moe add sy) = sy_outs sy"
  by (simp add: sys_done_def eager_final_def)

text \<open>
  C1. A forward pass over consecutive layers delivers, for each layer, the result of its immediate
  experts added to what the previous layer deferred, whatever the interleaving of the Python
  thread, the device stream and the CPU worker, and whether tasks are submitted directly or
  through the stream.
\<close>

theorem forward_pass_correct:
  assumes "forward_pass topk env xs ho = (Inr (), ho')" and "one_pass k n dev xs"
    and "cache_wf (ho_cache ho)" and "1 \<le> max_temp_buffer_sizes (ho_cache ho)"
    and "direct_submit env dev \<Longrightarrow> wait_device env dev = Inr WaitSynchronized"
    and "\<not> has_pending ho (k - 1)" and "ho_prog ho = []"
    and "sys_done (run_steps (sys_step moe add) (start_sys ho' m) sched)"
  shows "sy_outs (run_steps (sys_step moe add) (start_sys ho' m) sched)
           = expected_outputs moe add topk None xs"
proof -
  note ok = forward_pass_ok [OF assms(1-7), of moe add m "[]"]
  let ?s = "start_sys ho' m" and ?t = "run_steps (sys_step moe add) (start_sys ho' m) sched"
  have "sys_safe ?s" using ok by (intro start_sys_safe) simp
  then have "eager_final moe add ?t = eager_final moe add ?s"
    using agents.run_inv [of ?s moe add "eager_final moe add ?s" sched] by simp
  moreover have "snd (eager_final moe add ?s) = expected_outputs moe add topk None xs"
    using ok by (simp add: eager_final_def start_sys_def flush_queue_def)
  ultimately show ?thesis using eager_final_done [OF assms(8), of moe add] by simp
qed

text \<open>A two-layer pass in which layer 3 defers one expert per token to layer 4.\<close>

definition sample_wrapper :: "int \<Rightarrow> int \<Rightarrow> wrapper" where
  "sample_wrapper l d = \<lparr>layer_idx = l, w_num_experts = 8, num_experts_per_tok = 2,
     chunked_prefill_size = 16, max_deferred_experts_per_token = d\<rparr>"

definition sample_layer :: "int \<Rightarrow> int \<Rightarrow> int list list \<Rightarrow> int \<Rightarrow> (int, int) layer_input" where
  "sample_layer l d ids h = \<lparr>li_wrapper = sample_wrapper l d,
     li_hidden = \<lparr>hd_qlen = 1, hd_hidden = 4, hd_device = cuda_dev, hd_data = h\<rparr>,
     li_ids = ids, li_weights = [[7, 3]]\<rparr>"

definition sample_pass :: "(int, int) layer_input list" where
  "sample_pass = [sample_layer 3 1 [[5, 2]] 100, sample_layer 4 0 [[6, 1]] 200]"

definition sample_host :: "(int, int) host" where
  "sample_host = \<lparr>ho_pending = [], ho_cache = init_cache 4, ho_pool = init_pool_state,
     ho_acl = \<lparr>acl_done = False, acl_degraded = None\<rparr>, ho_prog = []\<rparr>"

definition sample_moe :: "(int, int, int) moe_fn" where
  "sample_moe l ids ws h = h + sum_list (map (\<lambda>e. if e < 0 then 0 else e) (concat ids))"

definition sample_mem :: "(int, int, int) memory" where
  "sample_mem b s = \<lparr>sl_input = 0, sl_weights = [], sl_immediate = [], sl_deferred = [], sl_output = 0\<rparr>"

definition sample_sched :: "agent list" where
  "sample_sched = concat (replicate 14 [Host, Stream]) @ [Worker, Stream, Stream, Worker, Worker]
     @ concat (replicate 4 [Stream]) @ [Worker, Stream, Stream]"

theorem forward_pass_correct_witness:
  "sy_outs (run_steps (sys_step sample_moe (+))
     (start_sys (snd (forward_pass topk_sort idle_env sample_pass sample_host)) sample_mem) sample_sched)
   = [105, 309]"
proof -
  let ?r = "forward_pass topk_sort idle_env sample_pass sample_host"
  have "fst ?r = Inr ()" by code_simp
  then have r: "?r = (Inr (), snd ?r)" by (simp add: prod_eq_iff)
  have p: "one_pass 3 1 cuda_dev sample_pass"
    by (simp add: sample_pass_def sample_layer_def sample_wrapper_def)
  have c: "cache_wf (ho_cache sample_host)" "1 \<le> max_temp_buffer_sizes (ho_cache sample_host)"
    "\<not> has_pending sample_host (3 - 1)" "ho_prog sample_host = []"
    by (simp_all add: sample_host_def init_cache_wf has_pending_def) (simp add: init_cache_def)
  have d: "direct_submit idle_env cuda_dev \<Longrightarrow> wait_device idle_env cuda_dev = Inr WaitSynchronized"
    by (simp add: direct_submit_def cuda_dev_def idle_env_def)
  have f: "sys_done (run_steps (sys_step sample_moe (+)) (start_sys (snd ?r) sample_mem) sample_sched)"
    by code_simp
  have "expected_outputs sample_moe (+) topk_sort None sample_pass = [105, 309]"
    by code_simp
  with forward_pass_correct [OF r p c(1,2) d c(3,4) f] show ?thesis by simp
qed

section \<open>Progress\<close>

text \<open>Every step that is not blocked lowers this count of remaining work.\<close>

definition work_left :: "('h, 'f, 'o) sys \<Rightarrow> nat" where
  "work_left sy = 3 * length (sy_host sy) + 2 * length (sy_stream sy) + length (sy_queue sy)"

lemma sys_step_work:
  "sys_step moe add sy a = sy \<or> work_left (sys_step moe add sy a) < work_left sy"
  by (cases a)
     (auto simp: host_step_def stream_step_def worker_step_def work_left_def
       split: list.splits host_op.splits stream_op.splits)

lemma worker_enabled: "sy_queue sy \<noteq> [] \<Longrightarrow> work_left (worker_step moe add sy) < work_left sy"
  by (auto simp: worker_step_def work_left_def neq_Nil_conv)

lemma stream_enabled:
  "sy_stream sy \<noteq> [] \<Longrightarrow> sy_queue sy = [] \<Longrightarrow> work_left (stream_step sy) < work_left sy"
  by (auto simp: stream_step_def work_left_def neq_Nil_conv split: stream_op.splits)

lemma host_enabled:
  "sy_host sy \<noteq> [] \<Longrightarrow> sy_stream sy = [] \<Longrightarrow> sy_queue sy = [] \<Longrightarrow>
     work_left (host_step sy) < work_left sy"
  by (auto simp: host_step_def work_left_def neq_Nil_conv split: host_op.splits)

definition round :: "agent list" where
  "round = [Host, Stream, Worker]"

text \<open>No deadlock: in a round-robin round somebody makes progress until all work is done.\<close>

lemma round_progress:
  assumes "work_left sy > 0"
  shows "work_left (run_steps (sys_step moe add) sy round) < work_left sy"
proof -
  let ?f = "sys_step moe add"
  let ?h = "?f sy Host" let ?s = "?f ?h Stream" let ?w = "?f ?s Worker"
  have le: "work_left (?f t a) \<le> work_left t" for t a
    using sys_step_work [of moe add t a] by (elim disjE) simp_all
  have "work_left ?h < work_left sy \<or> work_left ?s < work_left ?h \<or> work_left ?w < work_left ?s"
  proof (rule ccontr)
    assume n: "\<not> ?thesis"
    then have h: "?h = sy" using sys_step_work [of moe add sy Host] by auto
    moreover have s: "?s = ?h" using n sys_step_work [of moe add ?h Stream] by auto
    ultimately have s': "?s = sy" by simp
    have "work_left (worker_step moe add sy) < work_left sy \<Longrightarrow> False" using n s' by simp
    then have q: "sy_queue sy = []" using worker_enabled by blast
    have "work_left (stream_step sy) < work_left sy \<Longrightarrow> False" using n h by simp
    then have st: "sy_stream sy = []" using stream_enabled q by blast
    have "work_left (host_step sy) < work_left sy \<Longrightarrow> False" using n by simp
    then have "sy_host sy = []" using host_enabled st q by blast
    with q st assms show False by (simp add: work_left_def)
  qed
  moreover have "work_left ?w \<le> work_left ?s" "work_left ?s \<le> work_left ?h" "work_left ?h \<le> work_left sy"
    using le by blast+
  ultimately show ?thesis by (auto simp: round_def)
qed

lemma rounds_finish:
  "work_left sy \<le> n \<Longrightarrow> work_left (run_steps (sys_step moe add) sy (concat (replicate n round))) = 0"
proof (induction n arbitrary: sy)
  case (Suc n)
  let ?t = "run_steps (sys_step moe add) sy round"
  have "work_left ?t \<le> n"
  proof (cases "work_left sy = 0")
    case True
    then have st: "sys_step moe add sy a = sy" for a
      using sys_step_work [of moe add sy a] by simp
    have "?t = sy" by (simp only: round_def run_steps.simps st)
    with True show ?thesis by simp
  next
    case False
    then show ?thesis using round_progress [of sy moe add] Suc.prems by simp
  qed
  from Suc.IH [OF this] show ?case by (simp add: run_steps_append)
qed simp

section \<open>Host callbacks that are not dispatched\<close>

text \<open>
  On an Ascend device the callbacks of a stream run only when a subscriber dispatches them. Without
  one they never fire: the stream waits for them for ever (\<open>Stalled\<close>), or it passes over them and
  nothing is submitted or awaited (\<open>Lost\<close>). \<open>device_step\<close> is \<open>sys_step\<close> on such a device.
\<close>

datatype dispatch = Dispatched | Stalled | Lost

fun is_callback :: "('h, 'f) stream_op \<Rightarrow> bool" where
  "is_callback (StreamSubmit t) = True"
| "is_callback (StreamSync a) = True"
| "is_callback _ = False"

definition device_stream_step :: "dispatch \<Rightarrow> ('h, 'f, 'o) sys \<Rightarrow> ('h, 'f, 'o) sys" where
  "device_stream_step cb sy =
     (case sy_stream sy of
        [] \<Rightarrow> sy
      | op # ops \<Rightarrow>
          (if \<not> is_callback op then stream_step sy
           else case cb of
             Dispatched \<Rightarrow> stream_step sy
           | Stalled \<Rightarrow> sy
           | Lost \<Rightarrow> sy\<lparr>sy_stream := ops\<rparr>))"

fun device_step ::
  "dispatch \<Rightarrow> ('h, 'f, 'o) moe_fn \<Rightarrow> ('o \<Rightarrow> 'o \<Rightarrow> 'o) \<Rightarrow> ('h, 'f, 'o) sys \<Rightarrow> agent \<Rightarrow> ('h, 'f, 'o) sys" where
  "device_step cb moe add sy Stream = device_stream_step cb sy"
| "device_step cb moe add sy a = sys_step moe add sy a"

fun host_callback :: "('h, 'f) host_op \<Rightarrow> bool" where
  "host_callback (Enqueue x) = is_callback x"
| "host_callback _ = False"

definition quiet :: "('h, 'f) host_op list \<Rightarrow> bool" where
  "quiet ops = list_all (\<lambda>op. \<not> host_callback op) ops"

lemma quiet_simps [simp]:
  "quiet []" "quiet (op # ops) \<longleftrightarrow> \<not> host_callback op \<and> quiet ops" "quiet (ops @ ops') \<longleftrightarrow> quiet ops \<and> quiet ops'"
  by (simp_all add: quiet_def)

text \<open>Without a callback on its way, the dispatcher does not matter.\<close>

definition sys_quiet :: "('h, 'f, 'o) sys \<Rightarrow> bool" where
  "sys_quiet sy \<longleftrightarrow> quiet (sy_host sy) \<and> list_all (\<lambda>op. \<not> is_callback op) (sy_stream sy)"

lemma device_step_quiet: "cb = Dispatched \<or> sys_quiet sy \<Longrightarrow> device_step cb moe add sy a = sys_step moe add sy a"
  by (cases a) (auto simp: device_stream_step_def sys_quiet_def stream_step_def split: list.splits)

lemma sys_step_quiet: "sys_quiet sy \<Longrightarrow> sys_quiet (sys_step moe add sy a)"
  by (cases a)
     (auto simp: sys_quiet_def host_step_def stream_step_def worker_step_def
       split: list.splits host_op.splits stream_op.splits)

lemma device_run:
  "cb = Dispatched \<or> sys_quiet sy \<Longrightarrow> run_steps (device_step cb moe add) sy es = run_steps (sys_step moe add) sy es"
proof (induction es arbitrary: sy)
  case (Cons e es)
  have "cb = Dispatched \<or> sys_quiet (sys_step moe add sy e)" using Cons.prems sys_step_quiet by blast
  from Cons.IH [OF this] show ?case by (simp add: device_step_quiet [OF Cons.prems])
qed simp

text \<open>The operations that put no callback on the stream of an NPU.\<close>

definition silent :: "(('h, 'f) host, 'a) eop \<Rightarrow> bool" where
  "silent m \<longleftrightarrow> (\<forall>ho. quiet (ho_prog ho) \<longrightarrow> quiet (ho_prog (snd (m ho))))"

lemma silent_ebind: "silent m \<Longrightarrow> (\<And>a. silent (k a)) \<Longrightarrow> silent (ebind m k)"
  by (simp add: silent_def ebind_def split: prod.split sum.split) (metis snd_conv)

lemma silent_pure: "silent (ereturn a)" "silent (eraise e)" "silent (elift r)" "silent (set_pending w v)" "silent (bypass_callback env hs)"
  by (simp_all add: silent_def set_pending_def bypass_callback_def split: prod.split)

lemma silent_emit: "quiet ops \<Longrightarrow> silent (emit ops)"
  by (simp add: silent_def)

lemma silent_emit_of: "(\<And>ho. quiet (f ho)) \<Longrightarrow> silent (\<lambda>ho. emit (f ho) ho)"
  by (simp add: silent_def)

lemma cache_events_quiet: "quiet (concat (map cache_event_ops evs))"
proof (induction evs)
  case (Cons e evs)
  then show ?case by (cases e rule: cache_event_ops.cases) simp_all
qed simp

lemma silent_fetch: "silent (fetch_buffer env w hs)"
  by (simp add: silent_def fetch_buffer_def cache_events_quiet split: prod.split sum.split)

lemma silent_copies:
  "\<not> is_callback op \<Longrightarrow> silent (copy_in d s op)" "\<not> is_callback op \<Longrightarrow> silent (copy_rows d r op)"
  by (simp_all add: copy_rows_def copy_in_def silent_emit silent_pure)

lemma silent_wait: "silent (wait_for_device env hs)"
  unfolding wait_for_device_def
  by (rule silent_ebind [OF silent_pure(3)]) (metis cache_event_ops.simps(1,2) quiet_simps(1,2) host_callback.simps(2) silent_emit wait_outcome.exhaust)

lemma silent_prepare: "silent (prepare_forward_cpu_buffers topk env w hs ids ws)"
  unfolding prepare_forward_cpu_buffers_def Let_def
  by (intro silent_ebind silent_pure silent_fetch)
     (auto intro!: silent_ebind silent_pure silent_copies split: prod.split option.split)

lemma silent_submit:
  assumes "dev_type (hd_device hs) = ''npu''"
  shows "silent (submit_forward topk env w hs ids ws)"
  unfolding submit_forward_def Let_def
  by (intro silent_ebind silent_prepare)
     (auto simp: assms submit_op_def intro!: silent_ebind silent_pure silent_wait silent_emit silent_emit_of simp del: emit_simps split: prod.split)

lemma silent_copy_output: "silent (copy_forward_output_to_device env w hs)"
  unfolding copy_forward_output_to_device_def by (intro silent_ebind silent_fetch silent_emit) simp

lemma silent_sync:
  assumes "dev_type (hd_device hs) = ''npu''"
  shows "silent (sync_forward env w hs)"
proof -
  let ?rest = "\<lambda>allow. ebind (bypass_callback env hs) (\<lambda>bypass. ebind (if bypass then emit [HostSync allow]
      else if dev_type (hd_device hs) = ''npu'' then ebind (wait_for_device env hs) (\<lambda>_. emit [HostSync allow])
      else emit [Enqueue (StreamSync allow)]) (\<lambda>_. copy_forward_output_to_device env w hs))"
  have "silent (?rest allow)" for allow
    by (intro silent_ebind silent_pure) (auto simp: assms intro!: silent_ebind silent_wait silent_emit silent_copy_output)
  then have "silent (\<lambda>ho. ?rest (allow_pending w ho) ho)" unfolding silent_def by blast
  then show ?thesis unfolding sync_forward_def Let_def by (intro silent_ebind silent_fetch)
qed

lemma silent_pass:
  assumes "one_pass k n dev xs" "dev_type dev = ''npu''"
  shows "silent (forward_pass topk env xs)"
  using assms
  by (induction xs arbitrary: k)
     (auto simp: forward_def intro!: silent_ebind silent_pure silent_submit silent_sync)

lemma finished_outputs:
  assumes "disc_host [] False (ho_prog ho) \<noteq> None" "sys_done (run_steps (sys_step moe add) (start_sys ho m) es)"
  shows "sy_outs (run_steps (sys_step moe add) (start_sys ho m) es) = snd (fold (eager_host moe add) (ho_prog ho) (m, []))"
proof -
  let ?s = "start_sys ho m" and ?t = "run_steps (sys_step moe add) (start_sys ho m) es"
  have "eager_final moe add ?t = eager_final moe add ?s"
    using agents.run_inv [of ?s moe add "eager_final moe add ?s" es] start_sys_safe [OF assms(1), of m] by simp
  then show ?thesis
    using eager_final_done [OF assms(2), of moe add] by (simp add: eager_final_def start_sys_def flush_queue_def)
qed

text \<open>
  C11. A forward pass finishes with the right outputs, also on an NPU whose stream callbacks never
  fire. After any partial interleaving of the program that \<open>forward\<close> emits for consecutive layers,
  three round-robin rounds per emitted action run every copy, task and synchronisation to the end,
  leave the CPU queue empty and deliver for each layer its immediate experts added to what the previous
  layer deferred. Callbacks are dispatched on every device but an NPU; there they may stall the stream
  or be lost, because the code submits and synchronises on the Python thread instead. As in C1,
  the buffer cache has room for one buffer, no deferred result is pending, and a device on which the code
  submits directly can be waited for.
\<close>

theorem forward_pass_finishes:
  assumes "forward_pass topk env xs ho = (Inr (), ho')" and "one_pass k n dev xs"
    and "cache_wf (ho_cache ho)" and "1 \<le> max_temp_buffer_sizes (ho_cache ho)"
    and "direct_submit env dev \<Longrightarrow> wait_device env dev = Inr WaitSynchronized"
    and "\<not> has_pending ho (k - 1)" and "ho_prog ho = []"
    and "cb = Dispatched \<or> dev_type dev = ''npu''"
  shows "let sy = run_steps (device_step cb moe add) (start_sys ho' m) sched;
       fin = run_steps (device_step cb moe add) sy (concat (replicate (3 * length (ho_prog ho')) round))
   in sys_done fin \<and> sy_queue fin = [] \<and> sy_outs fin = expected_outputs moe add topk None xs"
proof -
  let ?s = "start_sys ho' m" and ?es = "concat (replicate (3 * length (ho_prog ho')) round)"
  have "cb = Dispatched \<or> sys_quiet ?s"
    using silent_pass [OF assms(2), of topk env] assms(1,7,8)
    by (auto simp: silent_def sys_quiet_def start_sys_def) (metis quiet_simps(1) snd_conv)
  then have run: "run_steps (device_step cb moe add) ?s es = run_steps (sys_step moe add) ?s es" for es
    by (rule device_run)
  have le: "work_left (run_steps (sys_step moe add) s es) \<le> work_left s" for s es
  proof (induction es arbitrary: s)
    case (Cons e es)
    then show ?case using sys_step_work [of moe add s e] le_trans less_imp_le
      by (metis run_steps.simps(2))
  qed simp
  have "work_left (run_steps (sys_step moe add) ?s sched) \<le> 3 * length (ho_prog ho')"
    using le [of ?s sched] by (simp add: start_sys_def work_left_def)
  from rounds_finish [OF this, of moe add] have fin: "sys_done (run_steps (sys_step moe add) ?s (sched @ ?es))"
    "sy_queue (run_steps (sys_step moe add) ?s (sched @ ?es)) = []"
    by (simp_all add: work_left_def sys_done_def run_steps_append)
  note ok = forward_pass_ok [OF assms(1-7), of moe add m "[]"]
  have "sy_outs (run_steps (sys_step moe add) ?s (sched @ ?es)) = expected_outputs moe add topk None xs"
    using finished_outputs [OF _ fin(1)] ok by simp
  with fin show ?thesis unfolding Let_def run_steps_append [symmetric] unfolding run by simp
qed

text \<open>The two layers on an NPU without a dispatcher: the callbacks would stall the stream.\<close>

definition npu_dev :: device where
  "npu_dev = \<lparr>dev_type = ''npu''\<rparr>"

definition npu_pass :: "(int, int) layer_input list" where
  "npu_pass = map (\<lambda>x. x\<lparr>li_hidden := (li_hidden x)\<lparr>hd_device := npu_dev\<rparr>\<rparr>) sample_pass"

theorem forward_pass_finishes_witness:
  "\<exists>ho'. forward_pass topk_sort idle_env npu_pass sample_host = (Inr (), ho') \<and> ho_prog ho' \<noteq> [] \<and>
     (\<forall>sched. let sy = run_steps (device_step Stalled sample_moe (+)) (start_sys ho' sample_mem) sched;
        fin = run_steps (device_step Stalled sample_moe (+)) sy (concat (replicate (3 * length (ho_prog ho')) round))
      in sys_done fin \<and> sy_outs fin = [105, 309])"
proof -
  let ?r = "forward_pass topk_sort idle_env npu_pass sample_host"
  have "fst ?r = Inr ()" "ho_prog (snd ?r) \<noteq> []" by code_simp+
  then obtain ho' where r: "?r = (Inr (), ho')" "ho_prog ho' \<noteq> []" by (metis prod.collapse)
  have p: "one_pass 3 1 npu_dev npu_pass"
    by (simp add: npu_pass_def sample_pass_def sample_layer_def sample_wrapper_def)
  have c: "cache_wf (ho_cache sample_host)" "1 \<le> max_temp_buffer_sizes (ho_cache sample_host)"
    "\<not> has_pending sample_host (3 - 1)" "ho_prog sample_host = []"
    by (simp_all add: sample_host_def init_cache_wf has_pending_def) (simp add: init_cache_def)
  have d: "wait_device idle_env npu_dev = Inr WaitSynchronized" by code_simp
  have cb: "Stalled = Dispatched \<or> dev_type npu_dev = ''npu''" by (simp add: npu_dev_def)
  have "expected_outputs sample_moe (+) topk_sort None npu_pass = [105, 309]" by code_simp
  with r forward_pass_finishes [OF r(1) p c(1,2) d c(3,4) cb, of sample_moe "(+)" sample_mem] show ?thesis
    by (simp add: Let_def)
qed

section \<open>Error paths\<close>

text \<open>
  A batch longer than \<open>chunked_prefill_size\<close>, which would overrun the C++ output buffer, is
  rejected by every entry point that stages or submits work, before any buffer is requested and
  any action emitted: the host state is unchanged.
\<close>

theorem oversized_batch_rejected:
  assumes "chunked_prefill_size w < int (hd_qlen hs)"
  shows "\<exists>e. e = Inl (ValueError ''qlen exceeds chunked_prefill_size'') \<and>
     copy_inputs_to_cpu_buffers topk env w hs ids ws ho = (e, ho) \<and>
     submit_forward topk env w hs ids ws ho = (e, ho) \<and>
     forward topk env w hs ids ws ho = (e, ho) \<and>
     forward_on_pinned_buffers env w hs staged ho = (e, ho) \<and>
     run_pinned_forward_sync env w hs staged ho = (e, ho)"
  using assms
  by (simp add: copy_inputs_to_cpu_buffers_def submit_forward_def forward_def
      prepare_forward_cpu_buffers_def forward_on_pinned_buffers_def run_pinned_forward_sync_def
      check_qlen_fits_cpp_buffers_def ebind_def)

theorem oversized_batch_rejected_witness:
  "forward topk_sort idle_env (sample_wrapper 3 1)
     \<lparr>hd_qlen = 17, hd_hidden = 4, hd_device = cuda_dev, hd_data = 0\<rparr> [] [] sample_host
   = (Inl (ValueError ''qlen exceeds chunked_prefill_size''), sample_host)"
  using oversized_batch_rejected [of "sample_wrapper 3 1"
      "\<lparr>hd_qlen = 17, hd_hidden = 4, hd_device = cuda_dev, hd_data = 0\<rparr>" topk_sort idle_env "[]" "[]" sample_host]
  by (simp add: sample_wrapper_def)

text \<open>
  With \<open>KT_MAX_TEMP_BUFFER_SIZES=0\<close> every buffer is evicted as soon as it is allocated, so
  \<open>sync_forward\<close> gets a different buffer from the one \<open>submit_forward\<close> gave to the task: the
  copied output is never the one the task writes.
\<close>

theorem zero_lru_separates_submit_and_sync:
  assumes "max_temp_buffer_sizes c \<le> 0" "temp_buffers c = []" "dget (capture_buffers c) k = None"
    and "k \<notin> set (capture_bs c)" "\<not> graph_capture_active env dev"
    and "get_buffer env ps dev k h t c = (Inr (b, evs), c1)"
    and "get_buffer env ps dev k h t c1 = (Inr (b', evs'), c2)"
  shows "buf_id b' \<noteq> buf_id b \<and> Drop (buf_id b) \<in> set evs"
  using assms
  by (auto simp: get_buffer_def Let_def evict_oldest_temp_buffer_def new_buffer_def
      split: if_splits sum.splits prod.splits)

theorem zero_lru_separates_submit_and_sync_witness:
  "\<exists>b b' evs evs' c1 c2.
     get_buffer idle_env init_pool_state cuda_dev 8 16 2 (init_cache 0) = (Inr (b, evs), c1) \<and>
     get_buffer idle_env init_pool_state cuda_dev 8 16 2 c1 = (Inr (b', evs'), c2) \<and>
     buf_id b' \<noteq> buf_id b"
proof -
  let ?g = "get_buffer idle_env init_pool_state cuda_dev 8 16 2"
  define b where "b = (\<lambda>i. \<lparr>buf_id = i, buf_batch = 8, buf_hidden = 16, buf_topk = 2\<rparr>)"
  have e: "?g (init_cache 0) = (Inr (b 0, [DeviceWait WaitSynchronized, Drop 0]), snd (?g (init_cache 0)))"
    unfolding b_def by code_simp
  have e': "?g (snd (?g (init_cache 0)))
      = (Inr (b 1, [DeviceWait WaitSynchronized, Drop 1]), snd (?g (snd (?g (init_cache 0)))))"
    unfolding b_def by code_simp
  have "\<not> graph_capture_active idle_env cuda_dev" by code_simp
  with zero_lru_separates_submit_and_sync [OF _ _ _ _ _ e e'] have "buf_id (b 1) \<noteq> buf_id (b 0)"
    by (simp add: init_cache_def)
  with e e' show ?thesis by blast
qed

end
