(* ===== verification/SftGrads.thy ===== *)
theory SftGrads
  imports Prelude
begin

text \<open>
  The authoritative optimizer-gradient lifecycle of \<open>BaseSFTMoEWrapper\<close> in
  \<open>kt-kernel/python/sft/base.py\<close>: C++ writes optimizer gradients into persistent tensors, and
  \<open>Parameter.grad\<close> is either \<open>None\<close> (the window is closed) or that very tensor (open).

  Parameters and tensors are Python objects, identified by numbers; \<open>is\<close> is equality of numbers.
  \<open>gs_param\<close> and \<open>gs_tensor\<close> give the current attributes of an object, which code outside the
  wrapper may change; \<open>grad_op\<close> has such a change as its last constructor.
\<close>

section \<open>State\<close>

text \<open>\<open>_authoritative_grad_metadata\<close>: what must not change about a gradient tensor.\<close>

record tmeta =
  tm_dtype :: string
  tm_layout :: string
  tm_device :: "string \<times> int"
  tm_shape :: "nat list"
  tm_stride :: "nat list"
  tm_offset :: nat
  tm_ptr :: nat

record pinfo =
  pi_dtype :: string
  pi_device :: "string \<times> int"
  pi_shape :: "nat list"
  pi_grad :: "nat option"

record gentry =
  ge_name :: string
  ge_param :: nat
  ge_view :: nat
  ge_meta :: tmeta

record grad_state =
  gs_enabled :: bool
  gs_entries :: "gentry list"
  gs_pending :: bool
  gs_accumulate :: bool
  gs_param :: "nat \<Rightarrow> pinfo"
  gs_tensor :: "nat \<Rightarrow> tmeta"

datatype pyobj = PyParameter nat | PyTensor nat | PyOther

datatype window = WEmpty | WClosed | WOpen

section \<open>Operations\<close>

definition init_authoritative_optimizer_grads :: "grad_state \<Rightarrow> grad_state" where
  "init_authoritative_optimizer_grads gs =
     gs\<lparr>gs_entries := [], gs_pending := False, gs_accumulate := False\<rparr>"

definition set_grad :: "nat option \<Rightarrow> nat \<Rightarrow> grad_state \<Rightarrow> grad_state" where
  "set_grad g p gs = gs\<lparr>gs_param := (gs_param gs)(p := (gs_param gs p)\<lparr>pi_grad := g\<rparr>)\<rparr>"

fun registered_clash :: "nat \<Rightarrow> nat \<Rightarrow> gentry list \<Rightarrow> exn option" where
  "registered_clash p v [] = None"
| "registered_clash p v (e # es) =
     (if ge_param e = p then Some (RuntimeError ''Parameter is already registered'')
      else if ge_view e = v then Some (RuntimeError ''grad view is already registered'')
      else registered_clash p v es)"

definition register_grad :: "string \<Rightarrow> pyobj \<Rightarrow> pyobj \<Rightarrow> (grad_state, unit) eop" where
  "register_grad name parameter grad_view gs =
     (if \<not> gs_enabled gs then (Inr (), gs)
      else case parameter of
        PyParameter p \<Rightarrow>
          (case (case grad_view of PyOther \<Rightarrow> None | PyTensor v \<Rightarrow> Some v | PyParameter v \<Rightarrow> Some v) of
             None \<Rightarrow> (Inl (TypeError ''expected Tensor grad view''), gs)
           | Some v \<Rightarrow>
               (let pi = gs_param gs p; t = gs_tensor gs v in
                if pi_shape pi \<noteq> tm_shape t then (Inl (ValueError ''Parameter/grad shape mismatch''), gs)
                else if pi_dtype pi \<noteq> tm_dtype t \<or> pi_device pi \<noteq> tm_device t
                then (Inl (ValueError ''Parameter/grad dtype or device mismatch''), gs)
                else case registered_clash p v (gs_entries gs) of
                       Some e \<Rightarrow> (Inl e, gs)
                     | None \<Rightarrow>
                         (Inr (), (set_grad None p gs)\<lparr>gs_entries := gs_entries gs
                            @ [\<lparr>ge_name = name, ge_param = p, ge_view = v, ge_meta = t\<rparr>]\<rparr>)))
      | _ \<Rightarrow> (Inl (TypeError ''expected nn.Parameter''), gs))"

fun validate_metadata :: "grad_state \<Rightarrow> gentry list \<Rightarrow> unit result" where
  "validate_metadata gs [] = Inr ()"
| "validate_metadata gs (e # es) =
     (let t = gs_tensor gs (ge_view e); pi = gs_param gs (ge_param e) in
      if t \<noteq> ge_meta e then Inl (RuntimeError ''authoritative grad view metadata changed'')
      else if pi_shape pi \<noteq> tm_shape t \<or> pi_dtype pi \<noteq> tm_dtype t
      then Inl (RuntimeError ''Parameter metadata no longer matches'')
      else if pi_device pi \<noteq> tm_device t
      then Inl (RuntimeError ''Parameter device no longer matches'')
      else validate_metadata gs es)"

text \<open>The loop that counts \<open>None\<close> and aliased gradients.\<close>

fun count_grads :: "grad_state \<Rightarrow> gentry list \<Rightarrow> nat \<Rightarrow> nat \<Rightarrow> (nat \<times> nat) result" where
  "count_grads gs [] none_count alias_count = Inr (none_count, alias_count)"
| "count_grads gs (e # es) none_count alias_count =
     (case pi_grad (gs_param gs (ge_param e)) of
        None \<Rightarrow> count_grads gs es (none_count + 1) alias_count
      | Some g \<Rightarrow> if g = ge_view e then count_grads gs es none_count (alias_count + 1)
                  else Inl (RuntimeError ''Parameter.grad was externally replaced''))"

definition validate_grad_state :: "grad_state \<Rightarrow> window result" where
  "validate_grad_state gs =
     (if \<not> gs_enabled gs \<or> gs_entries gs = [] then Inr WEmpty
      else rbind (validate_metadata gs (gs_entries gs)) (\<lambda>_.
           rbind (count_grads gs (gs_entries gs) 0 0) (\<lambda>(none_count, alias_count).
             (let n = length (gs_entries gs) in
              if none_count = n then Inr WClosed
              else if alias_count = n then Inr WOpen
              else Inl (RuntimeError ''Mixed authoritative optimizer-gradient state'')))))"

definition prepare_grad_write :: "'r::{linorder,zero} pyfloat \<Rightarrow> (grad_state, bool) eop" where
  "prepare_grad_write scale gs =
     (if gs_pending gs then (Inl (RuntimeError ''backward submission is already pending''), gs)
      else if \<not> isfinite scale \<or> fle scale (Finite 0)
      then (Inl (ValueError ''optimizer_grad_scale must be finite and positive''), gs)
      else case validate_grad_state gs of
             Inl e \<Rightarrow> (Inl e, gs)
           | Inr st \<Rightarrow> (let accumulate = (st = WOpen)
                       in (Inr accumulate, gs\<lparr>gs_pending := True, gs_accumulate := accumulate\<rparr>)))"

definition abort_grad_write :: "grad_state \<Rightarrow> grad_state" where
  "abort_grad_write gs =
     (fold (\<lambda>e. set_grad None (ge_param e)) (gs_entries gs) gs)\<lparr>gs_pending := False, gs_accumulate := False\<rparr>"

definition publish_grads :: "(grad_state, unit) eop" where
  "publish_grads gs =
     (if \<not> gs_pending gs then (Inl (RuntimeError ''No backward submission is pending''), gs)
      else (let expected_state = (if gs_accumulate gs then WOpen else WClosed) in
            case validate_grad_state gs of
              Inl e \<Rightarrow> (Inl e, abort_grad_write gs)
            | Inr st \<Rightarrow>
                if st \<noteq> WEmpty \<and> st \<noteq> expected_state
                then (Inl (RuntimeError ''state changed during C++ backward''), abort_grad_write gs)
                else (Inr (), (fold (\<lambda>e. set_grad (Some (ge_view e)) (ge_param e)) (gs_entries gs) gs)
                                \<lparr>gs_pending := False, gs_accumulate := False\<rparr>)))"

definition release_grads :: "(grad_state, unit) eop" where
  "release_grads gs =
     (if \<not> gs_enabled gs then (Inr (), gs)
      else if gs_pending gs then (Inl (RuntimeError ''C++ backward is pending''), gs)
      else case validate_grad_state gs of
             Inl e \<Rightarrow> (Inl e, gs)
           | Inr _ \<Rightarrow> (Inr (), fold (\<lambda>e. set_grad None (ge_param e)) (gs_entries gs) gs))"

section \<open>Invariant\<close>

text \<open>Registration keeps parameters and views unique.\<close>

definition entries_distinct :: "gentry list \<Rightarrow> bool" where
  "entries_distinct es = (distinct (map ge_param es) \<and> distinct (map ge_view es))"

lemma registered_clash_None:
  "registered_clash p v es = None \<longleftrightarrow> p \<notin> ge_param ` set es \<and> v \<notin> ge_view ` set es"
  by (induction es) auto

lemma set_grad_simps [simp]:
  "gs_enabled (set_grad g p gs) = gs_enabled gs" "gs_entries (set_grad g p gs) = gs_entries gs"
  "gs_pending (set_grad g p gs) = gs_pending gs" "gs_accumulate (set_grad g p gs) = gs_accumulate gs"
  "gs_tensor (set_grad g p gs) = gs_tensor gs"
  "pi_shape (gs_param (set_grad g p gs) q) = pi_shape (gs_param gs q)"
  "pi_dtype (gs_param (set_grad g p gs) q) = pi_dtype (gs_param gs q)"
  "pi_device (gs_param (set_grad g p gs) q) = pi_device (gs_param gs q)"
  "pi_grad (gs_param (set_grad g p gs) q) = (if q = p then g else pi_grad (gs_param gs q))"
  by (simp_all add: set_grad_def)

lemma fold_set_grad_frame [simp]:
  "gs_enabled (fold (\<lambda>e. set_grad (f e) (ge_param e)) es gs) = gs_enabled gs"
  "gs_entries (fold (\<lambda>e. set_grad (f e) (ge_param e)) es gs) = gs_entries gs"
  "gs_pending (fold (\<lambda>e. set_grad (f e) (ge_param e)) es gs) = gs_pending gs"
  "gs_accumulate (fold (\<lambda>e. set_grad (f e) (ge_param e)) es gs) = gs_accumulate gs"
  "gs_tensor (fold (\<lambda>e. set_grad (f e) (ge_param e)) es gs) = gs_tensor gs"
  "pi_shape (gs_param (fold (\<lambda>e. set_grad (f e) (ge_param e)) es gs) q) = pi_shape (gs_param gs q)"
  "pi_dtype (gs_param (fold (\<lambda>e. set_grad (f e) (ge_param e)) es gs) q) = pi_dtype (gs_param gs q)"
  "pi_device (gs_param (fold (\<lambda>e. set_grad (f e) (ge_param e)) es gs) q) = pi_device (gs_param gs q)"
  by (induction es arbitrary: gs) simp_all

lemma fold_set_grad_other:
  "q \<notin> ge_param ` set es \<Longrightarrow>
     pi_grad (gs_param (fold (\<lambda>e. set_grad (f e) (ge_param e)) es gs) q) = pi_grad (gs_param gs q)"
  by (induction es arbitrary: gs) auto

lemma fold_set_grad_in:
  "distinct (map ge_param es) \<Longrightarrow> e \<in> set es \<Longrightarrow>
     pi_grad (gs_param (fold (\<lambda>e. set_grad (f e) (ge_param e)) es gs) (ge_param e)) = f e"
  by (induction es arbitrary: gs) (auto simp: fold_set_grad_other)

definition metadata_ok :: "grad_state \<Rightarrow> gentry \<Rightarrow> bool" where
  "metadata_ok gs e \<longleftrightarrow> gs_tensor gs (ge_view e) = ge_meta e \<and>
     pi_shape (gs_param gs (ge_param e)) = tm_shape (ge_meta e) \<and>
     pi_dtype (gs_param gs (ge_param e)) = tm_dtype (ge_meta e) \<and>
     pi_device (gs_param gs (ge_param e)) = tm_device (ge_meta e)"

lemma validate_metadata_ok: "validate_metadata gs es = Inr u \<longleftrightarrow> (\<forall>e \<in> set es. metadata_ok gs e)"
  by (induction es) (auto simp: metadata_ok_def Let_def split: if_splits)

lemma count_grads_Inr:
  assumes "count_grads gs es n a = Inr (n', a')"
  shows "n \<le> n' \<and> a \<le> a' \<and> (n' - n) + (a' - a) = length es
     \<and> (n' = n + length es \<longleftrightarrow> (\<forall>e \<in> set es. pi_grad (gs_param gs (ge_param e)) = None))
     \<and> (a' = a + length es \<longleftrightarrow> (\<forall>e \<in> set es. pi_grad (gs_param gs (ge_param e)) = Some (ge_view e)))"
  using assms
proof (induction es arbitrary: n a)
  case (Cons e es)
  show ?case
  proof (cases "pi_grad (gs_param gs (ge_param e))")
    case None
    with Cons.prems have c: "count_grads gs es (n + 1) a = Inr (n', a')" by simp
    from Cons.IH [OF c] None show ?thesis by auto
  next
    case (Some g)
    with Cons.prems have c: "g = ge_view e" "count_grads gs es n (a + 1) = Inr (n', a')"
      by (auto split: if_splits)
    from Cons.IH [OF c(2)] c(1) Some show ?thesis by auto
  qed
qed simp

definition all_grads :: "grad_state \<Rightarrow> bool \<Rightarrow> bool" where
  "all_grads gs opened \<longleftrightarrow> (\<forall>e \<in> set (gs_entries gs).
     pi_grad (gs_param gs (ge_param e)) = (if opened then Some (ge_view e) else None))"

lemma count_grads_uniform:
  assumes "\<forall>e \<in> set es. pi_grad (gs_param gs (ge_param e)) = (if opened then Some (ge_view e) else None)"
  shows "count_grads gs es n a = Inr (if opened then (n, a + length es) else (n + length es, a))"
  using assms by (induction es arbitrary: n a) auto

lemma validate_uniform:
  assumes "gs_enabled gs" "gs_entries gs \<noteq> []" "\<forall>e \<in> set (gs_entries gs). metadata_ok gs e" "all_grads gs opened"
  shows "validate_grad_state gs = Inr (if opened then WOpen else WClosed)"
  using assms validate_metadata_ok [of gs "gs_entries gs" "()"]
    count_grads_uniform [of "gs_entries gs" gs opened 0 0]
  by (cases opened) (auto simp: validate_grad_state_def all_grads_def)

section \<open>The optimizer window as an abstract machine\<close>

text \<open>
  What the optimizer relies on: the window is open once a backward has been published and until it
  is released or a backward fails; a backward in flight remembers whether it accumulates; no second
  backward and no release while one is in flight.
\<close>

datatype 'r grad_op = GPrepare "'r pyfloat" | GPublish | GAbort | GRelease

type_synonym grad_out = "bool option result"

record window_spec =
  sp_open :: bool
  sp_inflight :: "bool option"

fun spec_step :: "window_spec \<Rightarrow> 'r::{linorder,zero} grad_op \<Rightarrow> grad_out \<times> window_spec" where
  "spec_step sp (GPrepare scale) =
     (if sp_inflight sp \<noteq> None then (Inl (RuntimeError ''backward submission is already pending''), sp)
      else if \<not> isfinite scale \<or> fle scale (Finite 0)
      then (Inl (ValueError ''optimizer_grad_scale must be finite and positive''), sp)
      else (Inr (Some (sp_open sp)), sp\<lparr>sp_inflight := Some (sp_open sp)\<rparr>))"
| "spec_step sp GPublish =
     (if sp_inflight sp = None then (Inl (RuntimeError ''No backward submission is pending''), sp)
      else (Inr None, \<lparr>sp_open = True, sp_inflight = None\<rparr>))"
| "spec_step sp GAbort = (Inr None, \<lparr>sp_open = False, sp_inflight = None\<rparr>)"
| "spec_step sp GRelease =
     (if sp_inflight sp \<noteq> None then (Inl (RuntimeError ''C++ backward is pending''), sp)
      else (Inr None, sp\<lparr>sp_open := False\<rparr>))"

fun grad_step :: "grad_state \<Rightarrow> 'r::{linorder,zero} grad_op \<Rightarrow> grad_out \<times> grad_state" where
  "grad_step gs (GPrepare scale) =
     (let (r, gs') = prepare_grad_write scale gs in (map_sum id Some r, gs'))"
| "grad_step gs GPublish = (let (r, gs') = publish_grads gs in (map_sum id (\<lambda>_. None) r, gs'))"
| "grad_step gs GAbort = (Inr None, abort_grad_write gs)"
| "grad_step gs GRelease = (let (r, gs') = release_grads gs in (map_sum id (\<lambda>_. None) r, gs'))"

definition grad_ready :: "grad_state \<Rightarrow> bool" where
  "grad_ready gs \<longleftrightarrow> gs_enabled gs \<and> gs_entries gs \<noteq> [] \<and> entries_distinct (gs_entries gs) \<and>
     (\<forall>e \<in> set (gs_entries gs). metadata_ok gs e)"

definition window_rel :: "grad_state \<Rightarrow> window_spec \<Rightarrow> bool" where
  "window_rel gs sp \<longleftrightarrow> grad_ready gs \<and> all_grads gs (sp_open sp) \<and>
     gs_pending gs = (sp_inflight sp \<noteq> None) \<and>
     (\<forall>b. sp_inflight sp = Some b \<longrightarrow> b = sp_open sp \<and> gs_accumulate gs = b)"

lemma window_rel_validate:
  "window_rel gs sp \<Longrightarrow> validate_grad_state gs = Inr (if sp_open sp then WOpen else WClosed)"
  by (rule validate_uniform) (auto simp: window_rel_def grad_ready_def)

lemma fold_set_grad_ready:
  assumes "grad_ready gs" "gs' = fold (\<lambda>e. set_grad (f e) (ge_param e)) (gs_entries gs) gs"
  shows "grad_ready gs'" "\<And>e. e \<in> set (gs_entries gs) \<Longrightarrow> pi_grad (gs_param gs' (ge_param e)) = f e"
  using assms by (auto simp: grad_ready_def metadata_ok_def entries_distinct_def fold_set_grad_in)

lemma grad_ready_flags [simp]:
  "grad_ready (gs\<lparr>gs_pending := p, gs_accumulate := a\<rparr>) = grad_ready gs"
  by (simp add: grad_ready_def metadata_ok_def)

lemma window_step_rel:
  assumes "window_rel gs sp"
  shows "fst (grad_step gs e) = fst (spec_step sp e) \<and> window_rel (snd (grad_step gs e)) (snd (spec_step sp e))"
proof -
  note v = window_rel_validate [OF assms]
  have r: "grad_ready gs" and g: "all_grads gs (sp_open sp)" and p: "gs_pending gs = (sp_inflight sp \<noteq> None)"
    and b: "\<And>b. sp_inflight sp = Some b \<Longrightarrow> b = sp_open sp \<and> gs_accumulate gs = b"
    using assms by (auto simp: window_rel_def)
  have en: "gs_enabled gs" using r by (simp add: grad_ready_def)
  have close: "window_rel ((fold (\<lambda>e. set_grad None (ge_param e)) (gs_entries gs) gs)
      \<lparr>gs_pending := False, gs_accumulate := False\<rparr>) \<lparr>sp_open = False, sp_inflight = None\<rparr>"
    using fold_set_grad_ready [OF r refl, where f = "\<lambda>_. None"] by (simp add: window_rel_def all_grads_def)
  have pub: "window_rel ((fold (\<lambda>e. set_grad (Some (ge_view e)) (ge_param e)) (gs_entries gs) gs)
      \<lparr>gs_pending := False, gs_accumulate := False\<rparr>) \<lparr>sp_open = True, sp_inflight = None\<rparr>"
    using fold_set_grad_ready [OF r refl, where f = "\<lambda>e. Some (ge_view e)"] by (simp add: window_rel_def all_grads_def)
  show ?thesis
  proof (cases e)
    case (GPrepare scale)
    show ?thesis
    proof (cases "sp_inflight sp = None \<and> isfinite scale \<and> \<not> fle scale (Finite 0)")
      case True
      with GPrepare v p g r show ?thesis
        by (auto simp: prepare_grad_write_def window_rel_def Let_def all_grads_def split: if_splits)
    next
      case False
      with GPrepare p assms show ?thesis by (auto simp: prepare_grad_write_def)
    qed
  next
    case GPublish
    show ?thesis
    proof (cases "sp_inflight sp")
      case None
      with GPublish p assms show ?thesis by (simp add: publish_grads_def)
    next
      case (Some a)
      with GPublish p v b pub show ?thesis by (auto simp: publish_grads_def Let_def)
    qed
  next
    case GAbort
    with close show ?thesis by (simp add: abort_grad_write_def)
  next
    case GRelease
    show ?thesis
    proof (cases "sp_inflight sp")
      case None
      have "window_rel (fold (\<lambda>e. set_grad None (ge_param e)) (gs_entries gs) gs) (sp\<lparr>sp_open := False\<rparr>)"
        using fold_set_grad_ready [OF r refl, where f = "\<lambda>_. None"] None p by (simp add: window_rel_def all_grads_def)
      with GRelease None p v en show ?thesis by (simp add: release_grads_def)
    next
      case (Some a)
      with GRelease p assms en show ?thesis by (simp add: release_grads_def)
    qed
  qed
qed

interpretation window: refinement grad_step spec_step window_rel
  by unfold_locales (use window_step_rel in blast)+

text \<open>
  C2. From a registered, closed set of gradients, every sequence of prepare, publish, abort and
  release gives exactly the answers of the abstract window: in particular \<open>prepare\<close> asks C++ to
  accumulate if and only if a backward has been published since the last release or failure.
\<close>

theorem gradient_window_refines:
  assumes "grad_ready gs" and "all_grads gs False" and "\<not> gs_pending gs"
  shows "fst (run_outputs grad_step gs ops) =
         fst (run_outputs spec_step \<lparr>sp_open = False, sp_inflight = None\<rparr> ops) \<and>
         all_grads (snd (run_outputs grad_step gs ops))
           (sp_open (snd (run_outputs spec_step \<lparr>sp_open = False, sp_inflight = None\<rparr> ops)))"
proof -
  have "window_rel gs \<lparr>sp_open = False, sp_inflight = None\<rparr>"
    using assms by (simp add: window_rel_def)
  from window.run_refines [OF this, of ops] show ?thesis by (simp add: window_rel_def)
qed

definition sample_meta :: tmeta where
  "sample_meta = \<lparr>tm_dtype = ''bf16'', tm_layout = ''strided'', tm_device = (''cpu'', -1), tm_shape = [2, 3],
     tm_stride = [3, 1], tm_offset = 0, tm_ptr = 64\<rparr>"

definition sample_grads :: grad_state where
  "sample_grads = \<lparr>gs_enabled = True,
     gs_entries = [\<lparr>ge_name = ''base.gate_proj'', ge_param = 1, ge_view = 11, ge_meta = sample_meta\<rparr>,
                   \<lparr>ge_name = ''base.up_proj'', ge_param = 2, ge_view = 12, ge_meta = sample_meta\<rparr>],
     gs_pending = False, gs_accumulate = False,
     gs_param = (\<lambda>_. \<lparr>pi_dtype = ''bf16'', pi_device = (''cpu'', -1), pi_shape = [2, 3], pi_grad = None\<rparr>),
     gs_tensor = (\<lambda>_. sample_meta)\<rparr>"

lemma sample_grads_ready: "grad_ready sample_grads" "all_grads sample_grads False" "\<not> gs_pending sample_grads"
  by (simp_all add: sample_grads_def grad_ready_def entries_distinct_def metadata_ok_def all_grads_def
      sample_meta_def)

theorem gradient_window_refines_witness:
  "fst (run_outputs grad_step sample_grads
      [GPrepare (Finite (1::int)), GRelease, GPublish, GPrepare (Finite 1), GAbort, GPrepare (Finite 1)])
   = [Inr (Some False), Inl (RuntimeError ''C++ backward is pending''), Inr None, Inr (Some True),
      Inr None, Inr (Some False)]"
proof -
  let ?ops = "[GPrepare (Finite (1::int)), GRelease, GPublish, GPrepare (Finite 1), GAbort, GPrepare (Finite 1)]"
  have "fst (run_outputs spec_step \<lparr>sp_open = False, sp_inflight = None\<rparr> ?ops) =
    [Inr (Some False), Inl (RuntimeError ''C++ backward is pending''), Inr None, Inr (Some True),
      Inr None, Inr (Some False)]"
    by code_simp
  with conjunct1 [OF gradient_window_refines [OF sample_grads_ready, of ?ops]] show ?thesis
    by (rule trans)
qed

text \<open>
  The state check is exact: it answers \<open>closed\<close> only if every registered \<open>Parameter.grad\<close> is
  \<open>None\<close>, \<open>open\<close> only if every one of them is its own C++ tensor, and it raises (changing nothing)
  whenever a gradient was replaced from outside, a tensor was resized, or the two states are mixed;
  a \<open>publish\<close> that finds such a state closes all the windows.
\<close>

theorem grad_state_check_exact:
  assumes "gs_enabled gs" and "gs_entries gs \<noteq> []"
  shows "(validate_grad_state gs = Inr w \<longleftrightarrow>
            (\<forall>e \<in> set (gs_entries gs). metadata_ok gs e) \<and>
            (w = WClosed \<and> all_grads gs False \<or> w = WOpen \<and> all_grads gs True)) \<and>
         (gs_pending gs \<longrightarrow> (\<forall>e. fst (publish_grads gs) = Inl e \<longrightarrow>
            snd (publish_grads gs) = abort_grad_write gs))"
proof -
  have 1: "(\<forall>e \<in> set (gs_entries gs). metadata_ok gs e) \<and>
      (w = WClosed \<and> all_grads gs False \<or> w = WOpen \<and> all_grads gs True)"
    if v: "validate_grad_state gs = Inr w"
  proof -
    from v assms obtain n a where m: "validate_metadata gs (gs_entries gs) = Inr ()"
      and c: "count_grads gs (gs_entries gs) 0 0 = Inr (n, a)"
      and w: "n = length (gs_entries gs) \<and> w = WClosed \<or>
              n \<noteq> length (gs_entries gs) \<and> a = length (gs_entries gs) \<and> w = WOpen"
      by (auto simp: validate_grad_state_def Let_def split: if_splits)
    have k: "n = length (gs_entries gs) \<longleftrightarrow> all_grads gs False"
      "a = length (gs_entries gs) \<longleftrightarrow> all_grads gs True"
      using count_grads_Inr [OF c] by (simp_all add: all_grads_def)
    show ?thesis using m w by (simp add: validate_metadata_ok k) blast
  qed
  have 2: "validate_grad_state gs = Inr w"
    if "(\<forall>e \<in> set (gs_entries gs). metadata_ok gs e) \<and>
      (w = WClosed \<and> all_grads gs False \<or> w = WOpen \<and> all_grads gs True)"
    using that validate_uniform [OF assms, of False] validate_uniform [OF assms, of True] by auto
  have 3: "snd (publish_grads gs) = abort_grad_write gs"
    if "gs_pending gs" "fst (publish_grads gs) = Inl e" for e
    using that by (auto simp: publish_grads_def Let_def split: sum.splits if_splits)
  from 1 2 3 show ?thesis by blast
qed

theorem grad_state_check_exact_witness:
  "validate_grad_state (set_grad (Some 99) 2 sample_grads) \<noteq> Inr WClosed \<and>
   validate_grad_state sample_grads = Inr WClosed"
proof -
  let ?g = "set_grad (Some 99) 2 sample_grads"
  have a: "gs_enabled ?g" "gs_entries ?g \<noteq> []" "gs_enabled sample_grads" "gs_entries sample_grads \<noteq> []"
    by (simp_all add: sample_grads_def)
  have "\<not> all_grads ?g False" by (simp add: all_grads_def sample_grads_def)
  then show ?thesis
    using grad_state_check_exact [OF a(1,2), of WClosed] grad_state_check_exact [OF a(3,4), of WClosed]
      sample_grads_ready by (auto simp: grad_ready_def)
qed

end
