(* ===== verification/SftWrapper.thy ===== *)
theory SftWrapper
  imports SftGrads
begin

text \<open>
  The rest of \<open>kt-kernel/python/sft/base.py\<close>: the grow-only shared buffer, the checkpoint-output
  cache, and the forward and backward entry points of \<open>BaseSFTMoEWrapper\<close> with their bookkeeping
  (cache depth, pending asynchronous work, gradient window). Tensor contents are not modelled
  except for the cached checkpoint rows; a C++ task is an entry of \<open>sw_log\<close> that names the buffer
  it works on. A call into C++ or torch that may raise takes its exception from a \<open>faults\<close> record.
\<close>

section \<open>Shared buffer\<close>

record sft_buffer =
  sb_id :: nat
  sb_qlen :: nat
  sb_hidden :: int
  sb_topk :: int

record sft_pool =
  sp_shared :: "sft_buffer option"
  sp_next :: nat

definition get_sft_buffer :: "nat \<Rightarrow> int \<Rightarrow> int \<Rightarrow> sft_pool \<Rightarrow> sft_buffer \<times> sft_pool" where
  "get_sft_buffer qlen hidden topk bp =
     (let fresh = \<lparr>sb_id = sp_next bp, sb_qlen = qlen, sb_hidden = hidden, sb_topk = topk\<rparr>;
          grown = (fresh, bp\<lparr>sp_shared := Some fresh, sp_next := Suc (sp_next bp)\<rparr>) in
      case sp_shared bp of
        Some buf \<Rightarrow> if qlen \<le> sb_qlen buf then (buf, bp) else grown
      | None \<Rightarrow> grown)"

definition clear_sft_cache :: "sft_pool \<Rightarrow> sft_pool" where
  "clear_sft_cache bp = bp\<lparr>sp_shared := None\<rparr>"

section \<open>Configuration\<close>

definition validate_sft_config ::
  "int \<Rightarrow> 'r::{linordered_idom} pyfloat \<Rightarrow> 'r pyfloat \<Rightarrow> int \<Rightarrow> bool \<Rightarrow> unit result" where
  "validate_sft_config lora_rank lora_alpha lora_dropout max_cache_depth full_weight_grad =
     (if \<not> full_weight_grad \<and> lora_rank \<le> 0
      then Inl (ValueError ''lora_rank must be positive in LoRA mode'')
      else if lora_rank > 0 \<and> fle lora_alpha (Finite 0)
      then Inl (ValueError ''lora_alpha must be positive'')
      else if \<not> (fle (Finite 0) lora_dropout \<and> flt lora_dropout (Finite 1))
      then Inl (ValueError ''lora_dropout must be in [0, 1)'')
      else if max_cache_depth \<le> 0 then Inl (ValueError ''max_cache_depth must be positive'')
      else Inr ())"

section \<open>Checkpoint-output cache\<close>

datatype ck_state = CkEmpty | CkReady | CkPoisoned

text \<open>\<open>_checkpoint_output_cpu\<close> is a list of rows.\<close>

record 'v ckpt =
  ck_state :: ck_state
  ck_error :: "exn option"
  ck_output :: "'v list option"
  ck_qlen :: nat

definition init_ckpt :: "'v ckpt" where
  "init_ckpt = \<lparr>ck_state = CkEmpty, ck_error = None, ck_output = None, ck_qlen = 0\<rparr>"

definition poison_checkpoint_output :: "exn \<Rightarrow> 'v ckpt \<Rightarrow> 'v ckpt" where
  "poison_checkpoint_output e ck =
     \<lparr>ck_state = CkPoisoned, ck_error = Some e, ck_output = None, ck_qlen = 0\<rparr>"

definition validate_checkpoint_output :: "nat \<Rightarrow> ('v ckpt, unit) eop" where
  "validate_checkpoint_output qlen ck =
     (if ck_state ck = CkPoisoned then (Inl (RuntimeError ''Checkpoint forward cache is poisoned''), ck)
      else if ck_state ck \<noteq> CkReady \<or> ck_output ck = None
      then (Inl (RuntimeError ''No cached checkpoint forward output is available''), ck)
      else if qlen \<noteq> ck_qlen ck
      then (let e = RuntimeError ''Cached checkpoint qlen mismatch''
            in (Inl e, poison_checkpoint_output e ck))
      else (Inr (), ck))"

definition validate_checkpoint_cache_empty :: "('v ckpt, unit) eop" where
  "validate_checkpoint_cache_empty ck =
     (if ck_state ck = CkPoisoned then (Inl (RuntimeError ''Checkpoint forward cache is poisoned''), ck)
      else if ck_state ck \<noteq> CkEmpty \<or> ck_output ck \<noteq> None
      then (let e = RuntimeError ''Checkpoint forward cache is still live''
            in (Inl e, poison_checkpoint_output e ck))
      else (Inr (), ck))"

definition cache_checkpoint_output :: "string \<Rightarrow> 'v list \<Rightarrow> nat \<Rightarrow> ('v ckpt, unit) eop" where
  "cache_checkpoint_output device_type output_cpu qlen ck =
     (let (r, ck1) =
        (if ck_state ck = CkPoisoned then validate_checkpoint_output qlen ck else (Inr (), ck)) in
      case rbind r (\<lambda>_.
             if ck_state ck1 \<noteq> CkEmpty
             then Inl (RuntimeError ''Cannot replace a live checkpoint forward cache'')
             else if device_type \<noteq> ''cpu''
             then Inl (ValueError ''checkpoint CPU expert output must reside on CPU'')
             else if length output_cpu < qlen
             then Inl (ValueError ''checkpoint output is shorter than qlen'')
             else Inr (take qlen output_cpu)) of
        Inl e \<Rightarrow> (Inl e, poison_checkpoint_output e ck1)
      | Inr rows \<Rightarrow> (Inr (), \<lparr>ck_state = CkReady, ck_error = None, ck_output = Some rows, ck_qlen = qlen\<rparr>))"

text \<open>\<open>output.to(device=...)\<close> may raise: \<open>copy_fault\<close>. No copy is made without an output device.\<close>

definition get_checkpoint_output :: "nat \<Rightarrow> bool \<Rightarrow> exn option \<Rightarrow> ('v ckpt, 'v list) eop" where
  "get_checkpoint_output qlen to_device copy_fault ck =
     (case validate_checkpoint_output qlen ck of
        (Inl e, ck1) \<Rightarrow> (Inl e, ck1)
      | (Inr _, ck1) \<Rightarrow>
          (case ck_output ck1 of
             None \<Rightarrow> (Inl (RuntimeError ''assert output is not None''), ck1)
           | Some output \<Rightarrow>
               (if to_device then
                  (case copy_fault of
                     None \<Rightarrow> (Inr output, ck1)
                   | Some e \<Rightarrow> (Inl e, poison_checkpoint_output e ck1))
                else (Inr output, ck1))))"

definition clear_checkpoint_output :: "'v ckpt \<Rightarrow> 'v ckpt" where
  "clear_checkpoint_output ck =
     (if ck_state ck \<noteq> CkPoisoned
      then ck\<lparr>ck_output := None, ck_qlen := 0, ck_state := CkEmpty, ck_error := None\<rparr>
      else ck\<lparr>ck_output := None, ck_qlen := 0\<rparr>)"

text \<open>The cache as a state machine.\<close>

datatype 'v ck_op =
    CkCache string "'v list" nat
  | CkGet nat bool "exn option"
  | CkValidate nat
  | CkValidateEmpty
  | CkClear
  | CkPoison exn

type_synonym 'v ck_out = "'v list option result"

fun ck_step :: "'v ckpt \<Rightarrow> 'v ck_op \<Rightarrow> 'v ck_out \<times> 'v ckpt" where
  "ck_step ck (CkCache dev rows q) = map_prod (map_sum id (\<lambda>_. None)) id (cache_checkpoint_output dev rows q ck)"
| "ck_step ck (CkGet q d f) = map_prod (map_sum id Some) id (get_checkpoint_output q d f ck)"
| "ck_step ck (CkValidate q) = map_prod (map_sum id (\<lambda>_. None)) id (validate_checkpoint_output q ck)"
| "ck_step ck CkValidateEmpty = map_prod (map_sum id (\<lambda>_. None)) id (validate_checkpoint_cache_empty ck)"
| "ck_step ck CkClear = (Inr None, clear_checkpoint_output ck)"
| "ck_step ck (CkPoison e) = (Inr None, poison_checkpoint_output e ck)"

definition ck_wf :: "'v ckpt \<Rightarrow> bool" where
  "ck_wf ck \<longleftrightarrow>
     (case ck_output ck of
        None \<Rightarrow> ck_state ck \<noteq> CkReady \<and> ck_qlen ck = 0
      | Some rows \<Rightarrow> ck_state ck = CkReady \<and> length rows = ck_qlen ck)"

lemmas ckpt_defs = poison_checkpoint_output_def validate_checkpoint_output_def
  validate_checkpoint_cache_empty_def cache_checkpoint_output_def get_checkpoint_output_def
  clear_checkpoint_output_def Let_def

lemma ck_step_wf: "ck_wf ck \<Longrightarrow> ck_wf (snd (ck_step ck e))"
  by (cases e) (auto simp: ck_wf_def ckpt_defs split: option.splits if_splits sum.splits prod.splits)

lemma poisoned_step:
  assumes "ck_state ck = CkPoisoned" "ck_output ck = None"
  shows "ck_state (snd (ck_step ck e)) = CkPoisoned" "ck_output (snd (ck_step ck e)) = None"
    "fst (ck_step ck e) = Inr x \<Longrightarrow> x = None"
    "fst (ck_step ck (CkCache d rows q)) \<noteq> Inr y" "fst (ck_step ck (CkValidate q)) \<noteq> Inr y"
    "fst (ck_step ck CkValidateEmpty) \<noteq> Inr y"
  using assms by (cases e; auto simp: ckpt_defs)+

text \<open>
  The contract of the cache: it holds the rows of one forward from \<open>cache\<close> until \<open>clear\<close>, hands
  out exactly those rows, and any misuse poisons it for good.
\<close>

datatype 'v ck_spec = SpecEmpty | SpecLive "'v list" | SpecPoisoned

definition spec_poisoned :: "'v ck_out \<times> 'v ck_spec" where
  "spec_poisoned = (Inl (RuntimeError ''Checkpoint forward cache is poisoned''), SpecPoisoned)"

fun ck_spec_step :: "'v ck_spec \<Rightarrow> 'v ck_op \<Rightarrow> 'v ck_out \<times> 'v ck_spec" where
  "ck_spec_step SpecEmpty (CkCache dev rows q) =
     (if dev \<noteq> ''cpu'' then (Inl (ValueError ''checkpoint CPU expert output must reside on CPU''), SpecPoisoned)
      else if length rows < q then (Inl (ValueError ''checkpoint output is shorter than qlen''), SpecPoisoned)
      else (Inr None, SpecLive (take q rows)))"
| "ck_spec_step (SpecLive v) (CkCache dev rows q) =
     (Inl (RuntimeError ''Cannot replace a live checkpoint forward cache''), SpecPoisoned)"
| "ck_spec_step SpecPoisoned (CkCache dev rows q) = spec_poisoned"
| "ck_spec_step SpecEmpty (CkGet q d f) =
     (Inl (RuntimeError ''No cached checkpoint forward output is available''), SpecEmpty)"
| "ck_spec_step (SpecLive v) (CkGet q d f) =
     (if q \<noteq> length v then (Inl (RuntimeError ''Cached checkpoint qlen mismatch''), SpecPoisoned)
      else case (if d then f else None) of None \<Rightarrow> (Inr (Some v), SpecLive v) | Some e \<Rightarrow> (Inl e, SpecPoisoned))"
| "ck_spec_step SpecPoisoned (CkGet q d f) = spec_poisoned"
| "ck_spec_step SpecEmpty (CkValidate q) =
     (Inl (RuntimeError ''No cached checkpoint forward output is available''), SpecEmpty)"
| "ck_spec_step (SpecLive v) (CkValidate q) =
     (if q \<noteq> length v then (Inl (RuntimeError ''Cached checkpoint qlen mismatch''), SpecPoisoned)
      else (Inr None, SpecLive v))"
| "ck_spec_step SpecPoisoned (CkValidate q) = spec_poisoned"
| "ck_spec_step SpecEmpty CkValidateEmpty = (Inr None, SpecEmpty)"
| "ck_spec_step (SpecLive v) CkValidateEmpty =
     (Inl (RuntimeError ''Checkpoint forward cache is still live''), SpecPoisoned)"
| "ck_spec_step SpecPoisoned CkValidateEmpty = spec_poisoned"
| "ck_spec_step s CkClear = (Inr None, if s = SpecPoisoned then SpecPoisoned else SpecEmpty)"
| "ck_spec_step s (CkPoison e) = (Inr None, SpecPoisoned)"

fun ck_rel :: "'v ckpt \<Rightarrow> 'v ck_spec \<Rightarrow> bool" where
  "ck_rel ck SpecEmpty = (ck_state ck = CkEmpty \<and> ck_output ck = None \<and> ck_qlen ck = 0)"
| "ck_rel ck (SpecLive v) = (ck_state ck = CkReady \<and> ck_output ck = Some v \<and> ck_qlen ck = length v)"
| "ck_rel ck SpecPoisoned = (ck_state ck = CkPoisoned \<and> ck_output ck = None \<and> ck_qlen ck = 0)"

lemma ck_step_rel:
  assumes "ck_rel ck s"
  shows "fst (ck_step ck e) = fst (ck_spec_step s e) \<and> ck_rel (snd (ck_step ck e)) (snd (ck_spec_step s e))"
proof (cases e)
  case (CkGet q d f)
  with assms show ?thesis
    by (cases s) (auto simp: ckpt_defs spec_poisoned_def split: option.splits)
qed (use assms in \<open>cases s; auto simp: ckpt_defs spec_poisoned_def\<close>)+

interpretation checkpoint: refinement ck_step ck_spec_step ck_rel
  by unfold_locales (use ck_step_rel in blast)+

interpretation ckpt_wf: step_machine "\<lambda>ck e. snd (ck_step ck e)" ck_wf
  by unfold_locales (rule ck_step_wf)

text \<open>
  C15. The checkpoint cache answers every sequence of operations like its contract: rows cached by a
  forward are the rows every later successful read returns until they are cleared, a read with
  another length, a second cache or a failed copy poisons it, and once poisoned no operation,
  \<open>clear\<close> included, makes it usable again.
\<close>

theorem checkpoint_cache_refines:
  "fst (run_outputs ck_step init_ckpt ops) = fst (run_outputs ck_spec_step SpecEmpty ops) \<and>
   ck_rel (snd (run_outputs ck_step init_ckpt ops)) (snd (run_outputs ck_spec_step SpecEmpty ops))"
  by (rule checkpoint.run_refines) (simp add: init_ckpt_def)

section \<open>The wrapper\<close>

text \<open>Effects on the C++ side, in order; a task names the buffer it works on.\<close>

datatype 'r sft_event =
    SubmitForward nat bool
  | SubmitBackward nat bool "'r pyfloat"
  | SyncCpu
  | CopyInputs nat nat
  | CopyGradOutput nat nat
  | WaitRepack
  | SubmitRepack

record pending_forward =
  pf_buffer :: sft_buffer
  pf_save :: bool
  pf_qlen :: nat

record async_backward =
  ab_qlen :: nat
  ab_device :: "string option"
  ab_authoritative :: bool

text \<open>\<open>self.moe\<close>: \<open>None\<close>, or an object with or without the two repack methods.\<close>

record cpp_moe =
  has_submit_repack :: bool
  has_wait_repack :: bool

record 'r sft =
  sw_weights_loaded :: bool
  sw_lora_initialized :: bool
  sw_skip_lora :: bool
  sw_lora_rank :: int
  sw_hidden :: int
  sw_topk :: int
  sw_chunk :: int
  sw_moe :: "cpp_moe option"
  sw_cache_depth :: int
  sw_grads :: grad_state
  sw_pool :: sft_pool
  sw_pending :: "pending_forward option"
  sw_async :: "async_backward option"
  sw_repack_pending :: bool
  sw_log :: "'r sft_event list"

text \<open>The exceptions that C++ and torch calls of one operation raise, if any.\<close>

record faults =
  f_make :: "exn option"
  f_repack :: "exn option"
  f_submit :: "exn option"
  f_sync :: "exn option"
  f_return :: "exn option"

definition no_faults :: faults where
  "no_faults = \<lparr>f_make = None, f_repack = None, f_submit = None, f_sync = None, f_return = None\<rparr>"

definition log_event :: "'r sft_event \<Rightarrow> ('r sft, unit) eop" where
  "log_event ev = eupd (\<lambda>sw. sw\<lparr>sw_log := sw_log sw @ [ev]\<rparr>)"

definition fetch_sft_buffer :: "nat \<Rightarrow> ('r sft, sft_buffer) eop" where
  "fetch_sft_buffer qlen sw =
     (let (b, bp) = get_sft_buffer qlen (sw_hidden sw) (sw_topk sw) (sw_pool sw)
      in (Inr b, sw\<lparr>sw_pool := bp\<rparr>))"

definition on_grads :: "(grad_state, 'a) eop \<Rightarrow> ('r sft, 'a) eop" where
  "on_grads m sw = (let (r, gs) = m (sw_grads sw) in (r, sw\<lparr>sw_grads := gs\<rparr>))"

definition validate_forward_inputs :: "nat \<Rightarrow> int \<times> int \<Rightarrow> int \<times> int \<Rightarrow> 'r sft \<Rightarrow> unit result" where
  "validate_forward_inputs qlen ids_shape weights_shape sw =
     (if \<not> sw_weights_loaded sw then Inl (RuntimeError ''Weights not loaded'')
      else if sw_lora_rank sw > 0 \<and> \<not> sw_lora_initialized sw \<and> \<not> sw_skip_lora sw
      then Inl (RuntimeError ''LoRA weights not initialized'')
      else if int qlen > sw_chunk sw then Inl (ValueError ''qlen exceeds chunked_prefill_size'')
      else if ids_shape \<noteq> (int qlen, sw_topk sw) then Inl (ValueError ''expert_ids shape'')
      else if weights_shape \<noteq> (int qlen, sw_topk sw) then Inl (ValueError ''weights shape'')
      else Inr ())"

definition wait_backward_repack :: "exn option \<Rightarrow> ('r sft, unit) eop" where
  "wait_backward_repack fault sw =
     (let fin = eupd (\<lambda>sw. sw\<lparr>sw_repack_pending := False\<rparr>) in
      case sw_moe sw of
        None \<Rightarrow> fin sw
      | Some m \<Rightarrow>
          if \<not> sw_weights_loaded sw then fin sw
          else if has_wait_repack m
          then ebind (ecall fault) (\<lambda>_. ebind (log_event WaitRepack) (\<lambda>_. fin)) sw
          else fin sw)"

definition wait_for_pending_backward_repack :: "exn option \<Rightarrow> ('r sft, unit) eop" where
  "wait_for_pending_backward_repack fault sw =
     (if sw_repack_pending sw then wait_backward_repack fault sw else (Inr (), sw))"

definition submit_backward_repack :: "exn option \<Rightarrow> ('r sft, unit) eop" where
  "submit_backward_repack fault sw =
     (case sw_moe sw of
        None \<Rightarrow> (Inr (), sw)
      | Some m \<Rightarrow>
          if \<not> sw_weights_loaded sw \<or> \<not> has_submit_repack m then (Inr (), sw)
          else ebind (ecall fault) (\<lambda>_. ebind (log_event SubmitRepack)
                 (\<lambda>_. eupd (\<lambda>sw. sw\<lparr>sw_repack_pending := True\<rparr>))) sw)"

text \<open>\<open>if save_for_backward and self._cache_depth == 0: self._cache_depth += 1\<close>.\<close>

definition note_forward :: "bool \<Rightarrow> ('r sft, unit) eop" where
  "note_forward save = eupd (\<lambda>sw.
     if save \<and> sw_cache_depth sw = 0 then sw\<lparr>sw_cache_depth := sw_cache_depth sw + 1\<rparr> else sw)"

definition stage_and_submit_forward ::
  "nat \<Rightarrow> bool \<Rightarrow> faults \<Rightarrow> sft_buffer \<Rightarrow> ('r sft, unit) eop" where
  "stage_and_submit_forward qlen save f b =
     ebind (wait_for_pending_backward_repack (f_repack f)) (\<lambda>_.
     ebind (ecall (f_make f)) (\<lambda>_.
     ebind (ecall (f_submit f)) (\<lambda>_. log_event (SubmitForward (sb_id b) save))))"

text \<open>\<open>_return_output\<close> and \<open>_return_grads\<close> read the first \<open>qlen\<close> rows of a buffer.\<close>

definition sft_forward ::
  "nat \<Rightarrow> int \<times> int \<Rightarrow> int \<times> int \<Rightarrow> bool \<Rightarrow> faults \<Rightarrow> ('r sft, nat \<times> nat) eop" where
  "sft_forward qlen ids_shape weights_shape save f =
     ebind (\<lambda>sw. (validate_forward_inputs qlen ids_shape weights_shape sw, sw)) (\<lambda>_.
     ebind (fetch_sft_buffer qlen) (\<lambda>b.
     ebind (log_event (CopyInputs (sb_id b) qlen)) (\<lambda>_.
     ebind (stage_and_submit_forward qlen save f b) (\<lambda>_.
     ebind (log_event SyncCpu) (\<lambda>_.
     ebind (ecall (f_sync f)) (\<lambda>_.
     ebind (note_forward save) (\<lambda>_.
     ebind (ecall (f_return f)) (\<lambda>_. ereturn (sb_id b, qlen)))))))))"

definition sft_submit_forward ::
  "nat \<Rightarrow> int \<times> int \<Rightarrow> int \<times> int \<Rightarrow> bool \<Rightarrow> faults \<Rightarrow> ('r sft, unit) eop" where
  "sft_submit_forward qlen ids_shape weights_shape save f =
     ebind (\<lambda>sw. (validate_forward_inputs qlen ids_shape weights_shape sw, sw)) (\<lambda>_.
     ebind (fetch_sft_buffer qlen) (\<lambda>b.
     ebind (log_event (CopyInputs (sb_id b) qlen)) (\<lambda>_.
     ebind (eupd (\<lambda>sw. sw\<lparr>sw_pending := Some \<lparr>pf_buffer = b, pf_save = save, pf_qlen = qlen\<rparr>\<rparr>)) (\<lambda>_.
     stage_and_submit_forward qlen save f b))))"

definition sft_sync_forward :: "faults \<Rightarrow> ('r sft, nat \<times> nat) eop" where
  "sft_sync_forward f sw =
     (case sw_pending sw of
        None \<Rightarrow> (Inl (RuntimeError ''No pending forward''), sw)
      | Some p \<Rightarrow>
          ebind (log_event SyncCpu) (\<lambda>_.
          ebind (ecall (f_sync f)) (\<lambda>_.
          ebind (note_forward (pf_save p)) (\<lambda>_.
          ebind (eupd (\<lambda>sw. sw\<lparr>sw_pending := None\<rparr>)) (\<lambda>_.
          ebind (ecall (f_return f)) (\<lambda>_. ereturn (sb_id (pf_buffer p), pf_qlen p)))))) sw)"

text \<open>The checks and the preparation that \<open>backward\<close> and \<open>submit_backward_async\<close> share.\<close>

definition check_backward :: "'r::{linorder,zero} pyfloat \<Rightarrow> 'r sft \<Rightarrow> unit result" where
  "check_backward scale sw =
     (if sw_cache_depth sw \<le> 0 then Inl (RuntimeError ''No forward cache available'')
      else if gs_enabled (sw_grads sw) \<and> gs_pending (sw_grads sw)
      then Inl (RuntimeError ''backward submission is already pending'')
      else if \<not> isfinite scale \<or> fle scale (Finite 0)
      then Inl (ValueError ''optimizer_grad_scale must be finite and positive'')
      else Inr ())"

definition prepare_backward ::
  "nat \<Rightarrow> 'r::{linorder,zero} pyfloat \<Rightarrow> ('r sft, sft_buffer \<times> bool \<times> bool) eop" where
  "prepare_backward qlen scale =
     ebind (\<lambda>sw. (check_backward scale sw, sw)) (\<lambda>_.
     ebind (fetch_sft_buffer qlen) (\<lambda>b.
     ebind (log_event (CopyGradOutput (sb_id b) qlen)) (\<lambda>_.
     ebind (egets (\<lambda>sw. gs_enabled (sw_grads sw))) (\<lambda>use_authoritative.
     ebind (if use_authoritative then on_grads (prepare_grad_write scale) else ereturn False)
       (\<lambda>accumulate. ereturn (b, use_authoritative, accumulate))))))"

text \<open>
  \<open>_make_backward_task(buffer)\<close> without a scale uses the default 1.0, the value it is called
  without; the task carries the accumulate flag and the scale.
\<close>

definition submit_backward ::
  "sft_buffer \<Rightarrow> bool \<Rightarrow> 'r pyfloat \<Rightarrow> faults \<Rightarrow> ('r sft, unit) eop" where
  "submit_backward b accumulate scale f =
     ebind (ecall (f_make f)) (\<lambda>_.
     ebind (wait_for_pending_backward_repack (f_repack f)) (\<lambda>_.
     ebind (ecall (f_submit f)) (\<lambda>_. log_event (SubmitBackward (sb_id b) accumulate scale))))"

definition drop_failed_backward :: "bool \<Rightarrow> 'r sft \<Rightarrow> 'r sft" where
  "drop_failed_backward use_authoritative sw =
     (if use_authoritative
      then sw\<lparr>sw_grads := abort_grad_write (sw_grads sw), sw_cache_depth := max 0 (sw_cache_depth sw - 1)\<rparr>
      else sw)"

definition sft_backward :: "nat \<Rightarrow> 'r::{linorder,zero} pyfloat \<Rightarrow> faults \<Rightarrow> ('r sft, nat \<times> nat) eop" where
  "sft_backward qlen scale f =
     ebind (prepare_backward qlen scale) (\<lambda>(b, use_authoritative, accumulate).
     ebind (etry
       (ebind (submit_backward b accumulate scale f) (\<lambda>_.
        ebind (log_event SyncCpu) (\<lambda>_.
        ebind (ecall (f_sync f)) (\<lambda>_.
        ebind (ecall (f_return f)) (\<lambda>_.
        if use_authoritative then on_grads publish_grads else ereturn ())))))
       (drop_failed_backward use_authoritative)) (\<lambda>_.
     ebind (eupd (\<lambda>sw. sw\<lparr>sw_cache_depth := sw_cache_depth sw - 1\<rparr>)) (\<lambda>_.
     ereturn (sb_id b, qlen))))"

definition submit_backward_async ::
  "nat \<Rightarrow> string option \<Rightarrow> 'r::{linorder,zero} pyfloat \<Rightarrow> faults \<Rightarrow> ('r sft, unit) eop" where
  "submit_backward_async qlen output_device scale f =
     ebind (prepare_backward qlen scale) (\<lambda>(b, use_authoritative, accumulate).
     ebind (etry (submit_backward b accumulate scale f)
       (\<lambda>sw. (drop_failed_backward use_authoritative
                (if use_authoritative then snd (log_event SyncCpu sw) else sw))\<lparr>sw_async := None\<rparr>)) (\<lambda>_.
     eupd (\<lambda>sw. sw\<lparr>sw_async := Some \<lparr>ab_qlen = qlen, ab_device = output_device,
                                      ab_authoritative = use_authoritative\<rparr>\<rparr>)))"

definition sync_backward :: "faults \<Rightarrow> ('r sft, nat \<times> nat) eop" where
  "sync_backward f sw =
     (case sw_async sw of
        None \<Rightarrow> (Inl (RuntimeError ''No pending backward''), sw)
      | Some a \<Rightarrow>
          ebind (etry
            (ebind (log_event SyncCpu) (\<lambda>_.
             ebind (ecall (f_sync f)) (\<lambda>_.
             ebind (fetch_sft_buffer (ab_qlen a)) (\<lambda>b.
             ebind (ecall (f_return f)) (\<lambda>_.
             ebind (if ab_authoritative a then on_grads publish_grads else ereturn ()) (\<lambda>_.
             ereturn (sb_id b, ab_qlen a)))))))
            (\<lambda>sw. (drop_failed_backward (ab_authoritative a) sw)\<lparr>sw_async := None\<rparr>)) (\<lambda>result.
          ebind (eupd (\<lambda>sw. sw\<lparr>sw_cache_depth := sw_cache_depth sw - 1, sw_async := None\<rparr>)) (\<lambda>_.
          ereturn result)) sw)"

text \<open>The optimizer side: \<open>release_authoritative_optimizer_grads\<close> after a step.\<close>

definition sft_release :: "('r sft, unit) eop" where
  "sft_release = on_grads release_grads"

section \<open>Bookkeeping invariant\<close>

text \<open>The part of the state that the bookkeeping is about.\<close>

definition core :: "'r sft \<Rightarrow> int \<times> grad_state \<times> async_backward option" where
  "core sw = (sw_cache_depth sw, sw_grads sw, sw_async sw)"

lemma core_updates [simp]:
  "core (sw\<lparr>sw_log := l\<rparr>) = core sw" "core (sw\<lparr>sw_pool := bp\<rparr>) = core sw"
  "core (sw\<lparr>sw_pending := p\<rparr>) = core sw" "core (sw\<lparr>sw_repack_pending := b\<rparr>) = core sw"
  by (simp_all add: core_def)

lemma keeps_core_log [hoare]: "keeps core (log_event ev)"
  by (simp add: log_event_def keeps_eupd)

lemma keeps_core_fetch [hoare]: "keeps core (fetch_sft_buffer q)"
  by (simp add: keeps_def fetch_sft_buffer_def Let_def split: prod.splits)

lemma keeps_core_wait [hoare]: "keeps core (wait_backward_repack x)"
  by (auto simp: keeps_def wait_backward_repack_def ebind_def log_event_def Let_def
      split: option.splits)

lemma keeps_core_wait_pending [hoare]: "keeps core (wait_for_pending_backward_repack x)"
  by (simp add: keeps_def wait_for_pending_backward_repack_def keeps_core_wait [unfolded keeps_def, rule_format])

lemma keeps_core_submit_backward [hoare]: "keeps core (submit_backward b acc scale f)"
  unfolding submit_backward_def by (intro hoare)

lemma keeps_core_stage_forward [hoare]: "keeps core (stage_and_submit_forward q s f b)"
  unfolding stage_and_submit_forward_def by (intro hoare)

lemma keeps_core_repack [hoare]: "keeps core (submit_backward_repack x)"
  by (auto simp: keeps_def submit_backward_repack_def ebind_def log_event_def split: option.splits)

lemma core_frame: "keeps core m \<Longrightarrow> (\<And>s. P s = Pc (core s)) \<Longrightarrow> etriple P m (\<lambda>_. P) P"
  using etriple_keeps [of core m Pc] by (simp add: etriple_def)

definition sft_inv :: "'r sft \<Rightarrow> bool" where
  "sft_inv sw \<longleftrightarrow> gs_enabled (sw_grads sw) \<and> (sw_cache_depth sw = 0 \<or> sw_cache_depth sw = 1) \<and>
     gs_pending (sw_grads sw) = (sw_async sw \<noteq> None) \<and>
     (\<forall>a. sw_async sw = Some a \<longrightarrow> ab_authoritative a \<and> sw_cache_depth sw = 1)"

text \<open>Between a successful preparation and the end of a backward.\<close>

definition in_backward :: "'r sft \<Rightarrow> bool" where
  "in_backward sw \<longleftrightarrow> gs_enabled (sw_grads sw) \<and> gs_pending (sw_grads sw) \<and>
     sw_cache_depth sw = 1 \<and> (\<forall>a. sw_async sw = Some a \<longrightarrow> ab_authoritative a)"

lemma sft_inv_core: "sft_inv sw = (\<lambda>(d, g, a). gs_enabled g \<and> (d = 0 \<or> d = 1) \<and> gs_pending g = (a \<noteq> None)
    \<and> (\<forall>x. a = Some x \<longrightarrow> ab_authoritative x \<and> d = 1)) (core sw)"
  by (simp add: sft_inv_def core_def)

lemma in_backward_core: "in_backward sw = (\<lambda>(d, g, a). gs_enabled g \<and> gs_pending g \<and> d = 1 \<and>
    (\<forall>x. a = Some x \<longrightarrow> ab_authoritative x)) (core sw)"
  by (simp add: in_backward_def core_def)

lemma inv_frame: "keeps core m \<Longrightarrow> etriple sft_inv m (\<lambda>_. sft_inv) sft_inv"
  by (rule core_frame, assumption, rule sft_inv_core)

lemma bwd_frame: "keeps core m \<Longrightarrow> etriple in_backward m (\<lambda>_. in_backward) in_backward"
  by (rule core_frame, assumption, rule in_backward_core)

lemma abort_simps [simp]:
  "gs_enabled (abort_grad_write gs) = gs_enabled gs" "gs_pending (abort_grad_write gs) = False"
  "gs_accumulate (abort_grad_write gs) = False" "gs_entries (abort_grad_write gs) = gs_entries gs"
  by (simp_all add: abort_grad_write_def)

lemma prepare_backward_triple:
  "etriple sft_inv (prepare_backward q scale)
     (\<lambda>(b, u, acc) s. u \<and> in_backward s \<and> sw_async s = None) sft_inv"
proof -
  define R where "R = (\<lambda>s::'a sft. sft_inv s \<and> sw_cache_depth s = 1 \<and> sw_async s = None)"
  have Rc: "R s = (\<lambda>(d, g, a). gs_enabled g \<and> d = 1 \<and> \<not> gs_pending g \<and> a = None) (core s)" for s
    by (auto simp: R_def sft_inv_def core_def)
  have 1: "etriple sft_inv (\<lambda>sw. (check_backward scale sw, sw)) (\<lambda>_. R) sft_inv"
    by (auto simp: etriple_def check_backward_def R_def sft_inv_def)
  have 2: "etriple R m (\<lambda>_. R) sft_inv" if "keeps core m" for m :: "('a sft, 'b) eop"
    by (rule etriple_weaken [OF core_frame [where P = R, OF that]], rule Rc) (auto simp: R_def)
  have 3: "etriple R (egets (\<lambda>sw. gs_enabled (sw_grads sw))) (\<lambda>u s. u \<and> R s) sft_inv"
    by (auto simp: etriple_def R_def sft_inv_def)
  have 4: "etriple (\<lambda>s. u \<and> R s) (if u then on_grads (prepare_grad_write scale) else ereturn False)
      (\<lambda>acc s. u \<and> in_backward s \<and> sw_async s = None) sft_inv" for u
    by (auto simp: etriple_def on_grads_def prepare_grad_write_def R_def sft_inv_def in_backward_def Let_def
        split: sum.splits)
  have 5: "etriple (\<lambda>s. u \<and> in_backward s \<and> sw_async s = None) (ereturn (b, u, acc))
      (\<lambda>(b, u, acc) s. u \<and> in_backward s \<and> sw_async s = None) sft_inv" for b :: sft_buffer and u acc
    by (auto simp: etriple_def)
  show ?thesis
    unfolding prepare_backward_def
    apply (rule etriple_ebind [OF 1])
    apply (rule etriple_ebind [OF 2 [OF keeps_core_fetch]])
    subgoal for x b
      apply (rule etriple_ebind [OF 2 [OF keeps_core_log]])
      apply (rule etriple_ebind [OF 3])
      apply (rule etriple_ebind [OF 4])
      apply (rule 5)
      done
    done
qed

lemma drop_failed_inv:
  "in_backward s \<Longrightarrow> sft_inv ((drop_failed_backward True s)\<lparr>sw_async := None\<rparr>)"
  "in_backward s \<Longrightarrow> sw_async s = None \<Longrightarrow> sft_inv (drop_failed_backward True s)"
  by (auto simp: in_backward_def sft_inv_def drop_failed_backward_def)

text \<open>A publish either succeeds or aborts; the submission is no longer pending in both cases.\<close>

lemma publish_pending:
  "publish_grads gs = (r, gs') \<Longrightarrow> gs_pending gs \<Longrightarrow> \<not> gs_pending gs' \<and> gs_enabled gs' = gs_enabled gs"
  by (auto simp: publish_grads_def Let_def abort_grad_write_def split: sum.splits if_splits)

definition published :: "'r sft \<Rightarrow> bool" where
  "published sw \<longleftrightarrow> gs_enabled (sw_grads sw) \<and> \<not> gs_pending (sw_grads sw) \<and> sw_cache_depth sw = 1"

definition unfinished :: "'r sft \<Rightarrow> bool" where
  "unfinished sw \<longleftrightarrow> gs_enabled (sw_grads sw) \<and> sw_cache_depth sw = 1"

lemma unfinished_inv:
  "unfinished s \<Longrightarrow> sft_inv ((drop_failed_backward True s)\<lparr>sw_async := None\<rparr>)"
  "unfinished s \<Longrightarrow> sw_async s = None \<Longrightarrow> sft_inv (drop_failed_backward True s)"
  by (auto simp: unfinished_def sft_inv_def drop_failed_backward_def)

definition backward_async_is :: "async_backward option \<Rightarrow> 'r sft \<Rightarrow> bool" where
  "backward_async_is a sw \<longleftrightarrow> in_backward sw \<and> sw_async sw = a"

lemma async_frame: "keeps core m \<Longrightarrow> etriple (backward_async_is a) m (\<lambda>_. backward_async_is a) (backward_async_is a)"
  by (rule core_frame [where Pc = "\<lambda>(d, g, x). gs_enabled g \<and> gs_pending g \<and> d = 1 \<and>
        (\<forall>y. x = Some y \<longrightarrow> ab_authoritative y) \<and> x = a"])
     (auto simp: backward_async_is_def in_backward_def core_def)

lemma publish_triple:
  "etriple (backward_async_is a) (on_grads publish_grads)
     (\<lambda>_ s. published s \<and> sw_async s = a) (\<lambda>s. unfinished s \<and> sw_async s = a)"
  unfolding etriple_def
proof (intro allI impI)
  fix s :: "'a sft"
  assume "backward_async_is a s"
  then show "case on_grads publish_grads s of (Inl e, s') \<Rightarrow> unfinished s' \<and> sw_async s' = a
      | (Inr x, s') \<Rightarrow> published s' \<and> sw_async s' = a"
    using publish_pending [OF prod.collapse [symmetric], of "sw_grads s"]
    by (cases "publish_grads (sw_grads s)")
       (auto simp: on_grads_def backward_async_is_def in_backward_def published_def unfinished_def
         split: sum.splits)
qed

lemma frame_unfinished:
  assumes "keeps core m"
  shows "etriple (backward_async_is a) m (\<lambda>_. backward_async_is a) (\<lambda>s. unfinished s \<and> sw_async s = a)"
  using async_frame [OF assms]
  by (rule etriple_weaken) (auto simp: backward_async_is_def in_backward_def unfinished_def)

lemmas unfinished_rules = frame_unfinished [OF keeps_core_log] frame_unfinished [OF keeps_core_fetch]
  frame_unfinished [OF keeps_core_submit_backward] frame_unfinished [OF keeps_basic(5)]

text \<open>A failed backward closes the window and forgets the forward.\<close>

definition recovered :: "'r sft \<Rightarrow> bool" where
  "recovered sw \<longleftrightarrow> sft_inv sw \<and> all_grads (sw_grads sw) False \<and> sw_cache_depth sw = 0 \<and> sw_async sw = None"

lemma fold_set_None:
  "q \<in> ge_param ` set es \<or> pi_grad (gs_param gs q) = None \<Longrightarrow>
     pi_grad (gs_param (fold (\<lambda>e. set_grad None (ge_param e)) es gs) q) = None"
  by (induction es arbitrary: gs) auto

lemma abort_all_grads: "all_grads (abort_grad_write gs) False"
  by (simp add: all_grads_def abort_grad_write_def fold_set_None)

lemma unfinished_recovered:
  "unfinished s \<Longrightarrow> recovered ((drop_failed_backward True s)\<lparr>sw_async := None\<rparr>)"
  "unfinished s \<Longrightarrow> sw_async s = None \<Longrightarrow> recovered (drop_failed_backward True s)"
  by (auto simp: unfinished_def sft_inv_def drop_failed_backward_def recovered_def abort_all_grads)

lemma backward_body:
  "etriple (\<lambda>s. u \<and> in_backward s \<and> sw_async s = None)
     (etry (ebind (submit_backward b acc scale f) (\<lambda>_. ebind (log_event SyncCpu) (\<lambda>_.
        ebind (ecall (f_sync f)) (\<lambda>_. ebind (ecall (f_return f)) (\<lambda>_.
        if u then on_grads publish_grads else ereturn ())))))
       (drop_failed_backward u)) (\<lambda>_ s. published s \<and> sw_async s = None) recovered"
proof (cases u)
  case True
  have "etriple (backward_async_is None)
     (ebind (submit_backward b acc scale f) (\<lambda>_. ebind (log_event SyncCpu) (\<lambda>_.
      ebind (ecall (f_sync f)) (\<lambda>_. ebind (ecall (f_return f)) (\<lambda>_. on_grads publish_grads)))))
     (\<lambda>_ s. published s \<and> sw_async s = None) (\<lambda>s. unfinished s \<and> sw_async s = None)"
    by (rule etriple_ebind, rule unfinished_rules)+ (rule publish_triple)
  then have "etriple (backward_async_is None) (etry
     (ebind (submit_backward b acc scale f) (\<lambda>_. ebind (log_event SyncCpu) (\<lambda>_.
      ebind (ecall (f_sync f)) (\<lambda>_. ebind (ecall (f_return f)) (\<lambda>_. on_grads publish_grads)))))
     (drop_failed_backward True)) (\<lambda>_ s. published s \<and> sw_async s = None) recovered"
    by (rule etriple_etry) (blast intro: unfinished_recovered)
  moreover have P: "(\<lambda>s. u \<and> in_backward s \<and> sw_async s = None) = (backward_async_is None :: 'a sft \<Rightarrow> bool)"
    using True by (auto simp: backward_async_is_def fun_eq_iff)
  ultimately show ?thesis unfolding P using True by simp
qed (simp add: etriple_def)

lemma sft_backward_inv: "etriple sft_inv (sft_backward q scale f) (\<lambda>_. sft_inv) sft_inv"
proof -
  have body: "etriple (\<lambda>s. u \<and> in_backward s \<and> sw_async s = None)
     (etry (ebind (submit_backward b acc scale f) (\<lambda>_. ebind (log_event SyncCpu) (\<lambda>_.
        ebind (ecall (f_sync f)) (\<lambda>_. ebind (ecall (f_return f)) (\<lambda>_.
        if u then on_grads publish_grads else ereturn ())))))
       (drop_failed_backward u)) (\<lambda>_ s. published s \<and> sw_async s = None) sft_inv" for b acc u
    by (rule etriple_weaken [OF backward_body]) (auto simp: recovered_def)
  have fin: "etriple (\<lambda>s. published s \<and> sw_async s = None)
      (ebind (eupd (\<lambda>sw. sw\<lparr>sw_cache_depth := sw_cache_depth sw - 1\<rparr>)) (\<lambda>_. ereturn x))
      (\<lambda>_. sft_inv) sft_inv" for x :: "nat \<times> nat"
    by (auto simp: etriple_def ebind_def published_def sft_inv_def)
  show ?thesis
    unfolding sft_backward_def
    apply (rule etriple_ebind [OF prepare_backward_triple])
    subgoal for r
      apply (cases r)
      apply (simp only: prod.case)
      apply (rule etriple_ebind [OF body fin])
      done
    done
qed

lemma submit_backward_async_inv:
  "etriple sft_inv (submit_backward_async q dev scale f) (\<lambda>_. sft_inv) sft_inv"
proof -
  have body: "etriple (\<lambda>s. u \<and> in_backward s \<and> sw_async s = None)
     (ebind (etry (submit_backward b acc scale f)
       (\<lambda>sw. (drop_failed_backward u (if u then snd (log_event SyncCpu sw) else sw))\<lparr>sw_async := None\<rparr>))
       (\<lambda>_. eupd (\<lambda>sw. sw\<lparr>sw_async := Some \<lparr>ab_qlen = q, ab_device = dev, ab_authoritative = u\<rparr>\<rparr>)))
     (\<lambda>_. sft_inv) sft_inv" for b acc u
  proof (cases u)
    case True
    have l: "unfinished s \<Longrightarrow> unfinished (snd (log_event SyncCpu s))" for s :: "'a sft"
      by (simp add: unfinished_def log_event_def)
    have "etriple (backward_async_is None) (etry (submit_backward b acc scale f)
       (\<lambda>sw. (drop_failed_backward True (snd (log_event SyncCpu sw)))\<lparr>sw_async := None\<rparr>))
       (\<lambda>_. backward_async_is None) sft_inv"
      by (rule etriple_etry [OF frame_unfinished [OF keeps_core_submit_backward]]) (blast intro: unfinished_inv l)
    moreover have "etriple (backward_async_is None)
      (eupd (\<lambda>sw. sw\<lparr>sw_async := Some \<lparr>ab_qlen = q, ab_device = dev, ab_authoritative = True\<rparr>\<rparr>))
      (\<lambda>_. sft_inv) sft_inv"
      by (auto simp: etriple_def backward_async_is_def in_backward_def sft_inv_def)
    ultimately have "etriple (backward_async_is None) (ebind (etry (submit_backward b acc scale f)
       (\<lambda>sw. (drop_failed_backward True (snd (log_event SyncCpu sw)))\<lparr>sw_async := None\<rparr>))
       (\<lambda>_. eupd (\<lambda>sw. sw\<lparr>sw_async := Some \<lparr>ab_qlen = q, ab_device = dev, ab_authoritative = True\<rparr>\<rparr>)))
      (\<lambda>_. sft_inv) sft_inv"
      by (rule etriple_ebind)
    moreover have P: "(\<lambda>s. u \<and> in_backward s \<and> sw_async s = None) = (backward_async_is None :: 'a sft \<Rightarrow> bool)"
      using True by (auto simp: backward_async_is_def fun_eq_iff)
    ultimately show ?thesis unfolding P using True by simp
  qed (simp add: etriple_def)
  show ?thesis
    unfolding submit_backward_async_def
    apply (rule etriple_ebind [OF prepare_backward_triple])
    subgoal for r by (cases r) (simp only: prod.case, rule body)
    done
qed

lemma sync_backward_inv: "sft_inv s \<Longrightarrow> sft_inv (snd (sync_backward f s))"
proof (cases "sw_async s")
  case None
  then show "sft_inv s \<Longrightarrow> ?thesis" by (simp add: sync_backward_def)
next
  case (Some a)
  assume "sft_inv s"
  with Some have s: "backward_async_is (Some a) s" and u: "ab_authoritative a"
    by (auto simp: sft_inv_def backward_async_is_def in_backward_def)
  have "etriple (backward_async_is (Some a))
      (ebind (log_event SyncCpu) (\<lambda>_. ebind (ecall (f_sync f)) (\<lambda>_.
         ebind (fetch_sft_buffer (ab_qlen a)) (\<lambda>b. ebind (ecall (f_return f)) (\<lambda>_.
         ebind (on_grads publish_grads) (\<lambda>_. ereturn (sb_id b, ab_qlen a)))))))
      (\<lambda>_ s. published s \<and> sw_async s = Some a) (\<lambda>s. unfinished s \<and> sw_async s = Some a)"
    by (rule etriple_ebind, rule unfinished_rules)+
       (rule etriple_ebind [OF publish_triple], simp add: etriple_def)
  then have "etriple (backward_async_is (Some a)) (etry
      (ebind (log_event SyncCpu) (\<lambda>_. ebind (ecall (f_sync f)) (\<lambda>_.
         ebind (fetch_sft_buffer (ab_qlen a)) (\<lambda>b. ebind (ecall (f_return f)) (\<lambda>_.
         ebind (on_grads publish_grads) (\<lambda>_. ereturn (sb_id b, ab_qlen a)))))))
      (\<lambda>sw. (drop_failed_backward True sw)\<lparr>sw_async := None\<rparr>))
      (\<lambda>_ s. published s \<and> sw_async s = Some a) sft_inv"
    by (rule etriple_etry) (blast intro: unfinished_inv)
  then have "etriple (backward_async_is (Some a)) (ebind (etry
      (ebind (log_event SyncCpu) (\<lambda>_. ebind (ecall (f_sync f)) (\<lambda>_.
         ebind (fetch_sft_buffer (ab_qlen a)) (\<lambda>b. ebind (ecall (f_return f)) (\<lambda>_.
         ebind (on_grads publish_grads) (\<lambda>_. ereturn (sb_id b, ab_qlen a)))))))
      (\<lambda>sw. (drop_failed_backward True sw)\<lparr>sw_async := None\<rparr>))
      (\<lambda>result. ebind (eupd (\<lambda>sw. sw\<lparr>sw_cache_depth := sw_cache_depth sw - 1, sw_async := None\<rparr>)) (\<lambda>_.
          ereturn result))) (\<lambda>_. sft_inv) sft_inv"
    by (rule etriple_ebind) (auto simp: etriple_def ebind_def published_def sft_inv_def)
  from etriple_both [OF this s] show ?thesis
    by (simp add: sync_backward_def Some u)
qed

section \<open>The wrapper as a state machine\<close>

text \<open>\<open>SForeign\<close>: code outside the wrapper changes parameters and tensors.\<close>

datatype 'r sft_op =
    SForward nat "int \<times> int" "int \<times> int" bool faults
  | SSubmitForward nat "int \<times> int" "int \<times> int" bool faults
  | SSyncForward faults
  | SBackward nat "'r pyfloat" faults
  | SSubmitBackward nat "string option" "'r pyfloat" faults
  | SSyncBackward faults
  | SRelease
  | SSubmitRepack "exn option"
  | SForeign "nat \<Rightarrow> pinfo" "nat \<Rightarrow> tmeta"

fun sft_step :: "'r::{linorder,zero} sft \<Rightarrow> 'r sft_op \<Rightarrow> 'r sft" where
  "sft_step sw (SForward q i w s f) = snd (sft_forward q i w s f sw)"
| "sft_step sw (SSubmitForward q i w s f) = snd (sft_submit_forward q i w s f sw)"
| "sft_step sw (SSyncForward f) = snd (sft_sync_forward f sw)"
| "sft_step sw (SBackward q sc f) = snd (sft_backward q sc f sw)"
| "sft_step sw (SSubmitBackward q d sc f) = snd (submit_backward_async q d sc f sw)"
| "sft_step sw (SSyncBackward f) = snd (sync_backward f sw)"
| "sft_step sw SRelease = snd (sft_release sw)"
| "sft_step sw (SSubmitRepack x) = snd (submit_backward_repack x sw)"
| "sft_step sw (SForeign p t) = sw\<lparr>sw_grads := (sw_grads sw)\<lparr>gs_param := p, gs_tensor := t\<rparr>\<rparr>"

text \<open>The operations that can only raise the cache depth.\<close>

lemma note_forward_inv: "etriple sft_inv (note_forward save) (\<lambda>_. sft_inv) sft_inv"
  by (auto simp: etriple_def note_forward_def sft_inv_def)

lemma keeps_core_state [hoare]: "keeps core (\<lambda>sw. (g sw, sw))"
  by (simp add: keeps_def)

lemma keeps_core_pending [hoare]: "keeps core (eupd (\<lambda>sw. sw\<lparr>sw_pending := p\<rparr>))"
  by (simp add: keeps_def)

lemma sft_forward_inv: "etriple sft_inv (sft_forward q i w s f) (\<lambda>_. sft_inv) sft_inv"
  unfolding sft_forward_def
  by (rule etriple_ebind, (rule note_forward_inv | (rule inv_frame, rule hoare)))+
     (rule inv_frame, rule hoare)

lemma keeps_core_submit_forward: "keeps core (sft_submit_forward q i w s f)"
  unfolding sft_submit_forward_def by (intro hoare)

lemma sft_sync_forward_inv: "sft_inv s \<Longrightarrow> sft_inv (snd (sft_sync_forward f s))"
proof (cases "sw_pending s")
  case (Some p)
  have "etriple sft_inv (ebind (log_event SyncCpu) (\<lambda>_. ebind (ecall (f_sync f)) (\<lambda>_.
          ebind (note_forward (pf_save p)) (\<lambda>_. ebind (eupd (\<lambda>sw. sw\<lparr>sw_pending := None\<rparr>)) (\<lambda>_.
          ebind (ecall (f_return f)) (\<lambda>_. ereturn (sb_id (pf_buffer p), pf_qlen p)))))))
       (\<lambda>_. sft_inv) (sft_inv :: 'a sft \<Rightarrow> bool)"
    by (rule etriple_ebind, (rule note_forward_inv | (rule inv_frame, rule hoare)))+
       (rule inv_frame, rule hoare)
  from etriple_both [OF this] show "sft_inv s \<Longrightarrow> ?thesis"
    by (simp add: sft_sync_forward_def Some)
qed (simp add: sft_sync_forward_def)

lemma release_frame: "gs_enabled (snd (release_grads gs)) = gs_enabled gs \<and>
    gs_pending (snd (release_grads gs)) = gs_pending gs"
  by (auto simp: release_grads_def split: sum.splits)

lemma sft_release_inv: "sft_inv s \<Longrightarrow> sft_inv (snd (sft_release s))"
  using release_frame [of "sw_grads s"]
  by (cases "release_grads (sw_grads s)") (auto simp: sft_release_def on_grads_def sft_inv_def)

lemma sft_step_inv:
  assumes "sft_inv sw" shows "sft_inv (sft_step sw e)"
proof (cases e)
  case (SForward q i w s f)
  then show ?thesis using etriple_both [OF sft_forward_inv assms] by simp
next
  case (SSubmitForward q i w s f)
  then show ?thesis using etriple_both [OF inv_frame [OF keeps_core_submit_forward] assms] by simp
next
  case (SBackward q sc f)
  then show ?thesis using etriple_both [OF sft_backward_inv assms] by simp
next
  case (SSubmitBackward q d sc f)
  then show ?thesis using etriple_both [OF submit_backward_async_inv assms] by simp
next
  case (SSubmitRepack x)
  then show ?thesis using etriple_both [OF inv_frame [OF keeps_core_repack] assms] by simp
next
  case (SForeign p t)
  then show ?thesis using assms by (simp add: sft_inv_def)
qed (use assms in \<open>simp_all add: sft_sync_forward_inv sync_backward_inv sft_release_inv\<close>)

interpretation sft_machine: step_machine sft_step sft_inv
  by unfold_locales (rule sft_step_inv)

definition fresh_sft :: "bool \<Rightarrow> grad_state \<Rightarrow> 'r sft" where
  "fresh_sft authoritative gs =
     \<lparr>sw_weights_loaded = True, sw_lora_initialized = True, sw_skip_lora = False, sw_lora_rank = 8,
      sw_hidden = 4, sw_topk = 2, sw_chunk = 64, sw_moe = None, sw_cache_depth = 0,
      sw_grads = gs\<lparr>gs_enabled := authoritative\<rparr>, sw_pool = \<lparr>sp_shared = None, sp_next = 0\<rparr>,
      sw_pending = None, sw_async = None, sw_repack_pending = False, sw_log = []\<rparr>"

text \<open>
  C18. With authoritative gradients, and from a state without a cached forward, a pending submission or
  an outstanding asynchronous backward, no sequence of synchronous and asynchronous forwards and
  backwards, releases, C++ failures and foreign changes to the parameters gets the bookkeeping out
  of step: the cache depth is 0 or 1, and a gradient submission is pending exactly while an
  asynchronous backward is outstanding, which then owns the one cached forward.
\<close>

theorem sft_bookkeeping_invariant:
  assumes "gs_enabled (sw_grads sw)" and "\<not> gs_pending (sw_grads sw)"
    and "sw_cache_depth sw = 0" and "sw_async sw = None"
  shows "let sw' = run_steps sft_step sw ops in
     (sw_cache_depth sw' = 0 \<or> sw_cache_depth sw' = 1) \<and>
     gs_pending (sw_grads sw') = (sw_async sw' \<noteq> None) \<and>
     (sw_async sw' \<noteq> None \<longrightarrow> sw_cache_depth sw' = 1)"
proof -
  have "sft_inv sw" using assms by (simp add: sft_inv_def)
  from sft_machine.run_inv [OF this, of ops] show ?thesis by (auto simp: sft_inv_def Let_def)
qed

theorem sft_bookkeeping_invariant_witness:
  "sw_cache_depth (run_steps sft_step (fresh_sft True sample_grads)
     [SForward 3 (3, 2) (3, 2) True no_faults, SSubmitBackward 3 None (Finite (1::int)) no_faults,
      SBackward 3 (Finite 1) no_faults, SSyncBackward no_faults]) \<le> 1"
  using sft_bookkeeping_invariant [of "fresh_sft True sample_grads :: int sft"
     "[SForward 3 (3, 2) (3, 2) True no_faults, SSubmitBackward 3 None (Finite 1) no_faults,
      SBackward 3 (Finite 1) no_faults, SSyncBackward no_faults]"]
  by (auto simp: fresh_sft_def sample_grads_def Let_def)

text \<open>
  C20. A backward that fails anywhere after its preparation leaves nothing behind: every optimizer
  gradient is \<open>None\<close> again, no submission is pending, and the consumed forward cannot be used by
  another backward.
\<close>

theorem failed_backward_recovers:
  assumes "sft_inv sw" and "fst (prepare_backward q scale sw) = Inr x"
    and "sft_backward q scale f sw = (Inl e, sw')"
  shows "all_grads (sw_grads sw') False \<and> \<not> gs_pending (sw_grads sw') \<and> sw_async sw' = None \<and>
     fst (sft_backward q2 scale2 f2 sw') = Inl (RuntimeError ''No forward cache available'')"
proof -
  obtain b u acc s where p: "prepare_backward q scale sw = (Inr (b, u, acc), s)"
    using assms(2) by (metis prod.collapse prod_cases3)
  have s: "u \<and> in_backward s \<and> sw_async s = None"
    using etripleD(1) [OF prepare_backward_triple assms(1) p] by simp
  from assms(3) p have "recovered sw'"
    using etripleD(2) [OF backward_body s, of b acc scale f]
    by (auto simp: sft_backward_def ebind_eq_Inl)
  then show ?thesis
    by (auto simp: recovered_def sft_inv_def sft_backward_def prepare_backward_def check_backward_def
        ebind_def)
qed

theorem failed_backward_recovers_witness:
  "let sw = sft_step (fresh_sft True sample_grads) (SForward 3 (3, 2) (3, 2) True no_faults);
       sw' = snd (sft_backward 3 (Finite (1::int)) (no_faults\<lparr>f_sync := Some (RuntimeError ''task'')\<rparr>) sw)
   in \<not> gs_pending (sw_grads sw')"
proof -
  let ?sw = "sft_step (fresh_sft True sample_grads :: int sft) (SForward 3 (3, 2) (3, 2) True no_faults)"
  let ?f = "no_faults\<lparr>f_sync := Some (RuntimeError ''task'')\<rparr>"
  have i: "sft_inv ?sw"
    by (rule sft_step_inv) (simp add: sft_inv_def fresh_sft_def sample_grads_def)
  have p: "fst (prepare_backward 3 (Finite 1) ?sw) = Inr (\<lparr>sb_id = 0, sb_qlen = 3, sb_hidden = 4, sb_topk = 2\<rparr>, True, False)"
    by code_simp
  have "fst (sft_backward 3 (Finite 1) ?f ?sw) = Inl (RuntimeError ''task'')"
    by code_simp
  then have e: "sft_backward 3 (Finite 1) ?f ?sw = (Inl (RuntimeError ''task''), snd (sft_backward 3 (Finite 1) ?f ?sw))"
    by (simp add: prod_eq_iff)
  from failed_backward_recovers [OF i p e] show ?thesis by (simp add: Let_def)
qed

section \<open>Backends without authoritative gradients\<close>

text \<open>Once the depth is negative no operation brings it back.\<close>

definition depth_neg :: "'r sft \<Rightarrow> bool" where
  "depth_neg sw = (sw_cache_depth sw < 0)"

lemma neg_frame: "keeps core m \<Longrightarrow> etriple depth_neg m (\<lambda>_. depth_neg) depth_neg"
  by (rule core_frame [where Pc = "\<lambda>(d, g, a). d < 0"]) (simp_all add: depth_neg_def core_def)

lemma note_forward_neg: "etriple depth_neg (note_forward save) (\<lambda>_. depth_neg) depth_neg"
  by (auto simp: etriple_def note_forward_def depth_neg_def)

lemma prepare_backward_neg:
  "depth_neg sw \<Longrightarrow> prepare_backward q scale sw = (Inl (RuntimeError ''No forward cache available''), sw)"
  by (simp add: prepare_backward_def check_backward_def depth_neg_def ebind_def)

lemma sft_forward_neg: "etriple depth_neg (sft_forward q i w s f) (\<lambda>_. depth_neg) depth_neg"
  unfolding sft_forward_def
  by (rule etriple_ebind, (rule note_forward_neg | (rule neg_frame, rule hoare)))+
     (rule neg_frame, rule hoare)

lemma sft_sync_forward_neg: "depth_neg s \<Longrightarrow> depth_neg (snd (sft_sync_forward f s))"
proof (cases "sw_pending s")
  case (Some p)
  have "etriple depth_neg (ebind (log_event SyncCpu) (\<lambda>_. ebind (ecall (f_sync f)) (\<lambda>_.
          ebind (note_forward (pf_save p)) (\<lambda>_. ebind (eupd (\<lambda>sw. sw\<lparr>sw_pending := None\<rparr>)) (\<lambda>_.
          ebind (ecall (f_return f)) (\<lambda>_. ereturn (sb_id (pf_buffer p), pf_qlen p)))))))
       (\<lambda>_. depth_neg) (depth_neg :: 'a sft \<Rightarrow> bool)"
    by (rule etriple_ebind, (rule note_forward_neg | (rule neg_frame, rule hoare)))+
       (rule neg_frame, rule hoare)
  from etriple_both [OF this] show "depth_neg s \<Longrightarrow> ?thesis"
    by (simp add: sft_sync_forward_def Some)
qed (simp add: sft_sync_forward_def)

text \<open>Legacy backends: no gradient window, and every outstanding backward was submitted that way.\<close>

definition legacy_stuck :: "'r sft \<Rightarrow> bool" where
  "legacy_stuck sw \<longleftrightarrow> depth_neg sw \<and> sw_async sw = None"

lemma legacy_stuck_step: "legacy_stuck sw \<Longrightarrow> legacy_stuck (sft_step sw e)"
proof -
  assume s: "legacy_stuck sw"
  have a: "sw_async (snd (m sw)) = None" if "keeps sw_async m" for m :: "('a sft, 'b) eop"
    using that s by (simp add: keeps_def legacy_stuck_def)
  have core_async: "keeps sw_async m" if k: "keeps core m" for m :: "('a sft, 'b) eop"
    unfolding keeps_def
  proof
    fix s :: "'a sft"
    have "core (snd (m s)) = core s" using k by (simp add: keeps_def)
    then show "sw_async (snd (m s)) = sw_async s" by (simp add: core_def)
  qed
  have n: "keeps sw_async (note_forward sv :: ('a sft, unit) eop)" for sv
    by (simp add: keeps_def note_forward_def)
  have fw: "keeps sw_async (sft_forward q i w sv f :: ('a sft, nat \<times> nat) eop)" for q i w sv f
    unfolding sft_forward_def
    by (intro keeps_ebind core_async [OF keeps_core_log] core_async [OF keeps_core_fetch] n
        core_async [OF keeps_core_stage_forward] keeps_basic core_async [OF keeps_core_state])
  show ?thesis
  proof (cases e)
    case (SForward q i w sv f)
    then show ?thesis
      using s a [OF fw] etriple_both [OF sft_forward_neg, of sw] by (simp add: legacy_stuck_def)
  next
    case (SSubmitForward q i w sv f)
    then show ?thesis
      using s a [OF core_async [OF keeps_core_submit_forward]]
        etriple_both [OF neg_frame [OF keeps_core_submit_forward], of sw]
      by (simp add: legacy_stuck_def)
  next
    case (SSyncForward f)
    moreover have "sw_async (snd (sft_sync_forward f sw)) = None"
      using s by (auto simp: sft_sync_forward_def legacy_stuck_def ebind_def log_event_def note_forward_def
          split: option.splits)
    ultimately show ?thesis
      using s sft_sync_forward_neg [of sw f] by (simp add: legacy_stuck_def)
  next
    case (SBackward q sc f)
    then show ?thesis using s
      by (simp add: legacy_stuck_def sft_backward_def ebind_def prepare_backward_neg)
  next
    case (SSubmitBackward q d sc f)
    then show ?thesis using s
      by (simp add: legacy_stuck_def submit_backward_async_def ebind_def prepare_backward_neg)
  next
    case (SSyncBackward f)
    then show ?thesis using s by (simp add: legacy_stuck_def sync_backward_def)
  next
    case SRelease
    then show ?thesis using s
      by (auto simp: legacy_stuck_def depth_neg_def sft_release_def on_grads_def Let_def split: prod.splits)
  next
    case (SSubmitRepack x)
    then show ?thesis
      using s a [OF core_async [OF keeps_core_repack]]
        etriple_both [OF neg_frame [OF keeps_core_repack], of sw]
      by (simp add: legacy_stuck_def)
  next
    case (SForeign p t)
    then show ?thesis using s by (simp add: legacy_stuck_def depth_neg_def)
  qed
qed

interpretation stuck: step_machine sft_step legacy_stuck
  by unfold_locales (rule legacy_stuck_step)

text \<open>
  C36. Without authoritative gradients nothing stops a synchronous backward while an asynchronous
  one is outstanding; both consume the one cached forward, the depth becomes -1, and from then on
  every backward is refused, however many forwards follow.
\<close>

theorem legacy_mixed_backward_wedges:
  "let sw = run_steps sft_step (fresh_sft False sample_grads)
              [SForward 3 (3, 2) (3, 2) True no_faults,
               SSubmitBackward 3 None (Finite (1::int)) no_faults,
               SBackward 3 (Finite 1) no_faults, SSyncBackward no_faults]
   in sw_cache_depth sw = -1 \<and>
      fst (sft_backward q scale f (run_steps sft_step sw ops))
        = Inl (RuntimeError ''No forward cache available'')"
proof -
  let ?sw = "run_steps sft_step (fresh_sft False sample_grads)
              [SForward 3 (3, 2) (3, 2) True no_faults,
               SSubmitBackward 3 None (Finite (1::int)) no_faults,
               SBackward 3 (Finite 1) no_faults, SSyncBackward no_faults]"
  have d: "sw_cache_depth ?sw = -1" by code_simp
  have "sw_async ?sw = None" by code_simp
  with d have "legacy_stuck ?sw" by (simp add: legacy_stuck_def depth_neg_def)
  then have "legacy_stuck (run_steps sft_step ?sw ops)" by (rule stuck.run_inv)
  then have "fst (sft_backward q scale f (run_steps sft_step ?sw ops))
        = Inl (RuntimeError ''No forward cache available'')"
    by (simp add: legacy_stuck_def sft_backward_def ebind_def prepare_backward_neg)
  with d show ?thesis by (simp add: Let_def)
qed

section \<open>The buffer of an asynchronous backward\<close>

definition pool_ok :: "sft_pool \<Rightarrow> bool" where
  "pool_ok bp = (\<forall>b. sp_shared bp = Some b \<longrightarrow> sb_id b < sp_next bp)"

lemma get_sft_buffer_ok:
  assumes "get_sft_buffer qlen h t bp = (b, bp')"
  shows "qlen \<le> sb_qlen b" "sp_shared bp' = Some b" "pool_ok bp \<Longrightarrow> pool_ok bp'"
    "\<And>b0. pool_ok bp \<Longrightarrow> sp_shared bp = Some b0 \<Longrightarrow> sb_qlen b0 < qlen \<Longrightarrow> sb_id b0 < sb_id b"
    "\<And>b0. sp_shared bp = Some b0 \<Longrightarrow> qlen \<le> sb_qlen b0 \<Longrightarrow> b = b0 \<and> bp' = bp"
  using assms by (auto simp: get_sft_buffer_def Let_def pool_ok_def split: option.splits if_splits)

lemma keeps_pool [hoare]:
  "keeps sw_pool (log_event ev)" "keeps sw_pool (note_forward sv)" "keeps sw_pool (on_grads m)"
  by (auto simp: keeps_def log_event_def note_forward_def on_grads_def Let_def split: prod.splits)

lemma keeps_pool_wait [hoare]: "keeps sw_pool (wait_for_pending_backward_repack x)"
  by (auto simp: keeps_def wait_for_pending_backward_repack_def wait_backward_repack_def ebind_def
      log_event_def Let_def split: option.splits)

lemma keeps_pool_stage [hoare]: "keeps sw_pool (stage_and_submit_forward q s f b)"
  unfolding stage_and_submit_forward_def by (intro hoare)

lemma keepsD: "keeps g m \<Longrightarrow> m s = (r, s') \<Longrightarrow> g s' = g s"
  by (metis keeps_def snd_conv)

lemma fetch_sft_buffer_Inr:
  "fetch_sft_buffer q sw = (Inr b, sw') \<Longrightarrow>
     \<exists>bp. get_sft_buffer q (sw_hidden sw) (sw_topk sw) (sw_pool sw) = (b, bp) \<and> sw' = sw\<lparr>sw_pool := bp\<rparr>"
  by (auto simp: fetch_sft_buffer_def Let_def split: prod.splits)

text \<open>A submitted backward works on the buffer that is shared at that moment.\<close>

lemma submit_backward_async_buffer:
  assumes "submit_backward_async q dev scale f sw = (Inr (), sw1)" and "pool_ok (sw_pool sw)"
  shows "\<exists>b acc. sp_shared (sw_pool sw1) = Some b \<and> SubmitBackward (sb_id b) acc scale \<in> set (sw_log sw1)
     \<and> q \<le> sb_qlen b \<and> pool_ok (sw_pool sw1) \<and> (\<exists>a. sw_async sw1 = Some a \<and> ab_qlen a = q)"
proof -
  obtain b u acc s where p: "prepare_backward q scale sw = (Inr (b, u, acc), s)"
    and e: "ebind (etry (submit_backward b acc scale f)
       (\<lambda>sw. (drop_failed_backward u (if u then snd (log_event SyncCpu sw) else sw))\<lparr>sw_async := None\<rparr>)) (\<lambda>_.
     eupd (\<lambda>sw. sw\<lparr>sw_async := Some \<lparr>ab_qlen = q, ab_device = dev, ab_authoritative = u\<rparr>\<rparr>)) s = (Inr (), sw1)"
    using assms(1) by (auto simp: submit_backward_async_def ebind_eq_Inr)
  obtain s1 where f: "fetch_sft_buffer q sw = (Inr b, s1)"
    and g: "(if u then on_grads (prepare_grad_write scale) else ereturn False)
        (s1\<lparr>sw_log := sw_log s1 @ [CopyGradOutput (sb_id b) q]\<rparr>) = (Inr acc, s)"
    using p unfolding prepare_backward_def ebind_eq_Inr by (auto simp: log_event_def)
  obtain bp where bp: "get_sft_buffer q (sw_hidden sw) (sw_topk sw) (sw_pool sw) = (b, bp)" "sw_pool s1 = bp"
    using fetch_sft_buffer_Inr [OF f] by auto
  have "sw_pool s = bp"
    using g bp(2) by (auto split: if_splits dest: keepsD [OF keeps_pool(3)])
  then have sh: "sp_shared (sw_pool s) = Some b" and q: "q \<le> sb_qlen b" and ok: "pool_ok (sw_pool s)"
    using get_sft_buffer_ok(1-3) [OF bp(1)] assms(2) by simp_all
  from e obtain t where t: "submit_backward b acc scale f s = (Inr (), t)"
    and sw1: "sw1 = t\<lparr>sw_async := Some \<lparr>ab_qlen = q, ab_device = dev, ab_authoritative = u\<rparr>\<rparr>"
    by (auto simp: ebind_eq_Inr etry_eq_Inr)
  from t have "SubmitBackward (sb_id b) acc scale \<in> set (sw_log t)"
    by (auto simp: submit_backward_def ebind_eq_Inr log_event_def)
  moreover have "sw_pool t = sw_pool s"
    using t by (auto simp: submit_backward_def ebind_eq_Inr log_event_def dest: keepsD [OF keeps_pool_wait])
  ultimately show ?thesis using sh q ok sw1 by auto
qed

lemma sync_backward_buffer:
  assumes "sync_backward f sw = (Inr (i, n), sw')" and "sw_async sw = Some a"
  shows "\<exists>b bp. get_sft_buffer (ab_qlen a) (sw_hidden sw) (sw_topk sw) (sw_pool sw) = (b, bp) \<and> i = sb_id b"
  using assms
  by (auto simp: sync_backward_def ebind_eq_Inr etry_eq_Inr log_event_def dest!: fetch_sft_buffer_Inr)

lemma sft_submit_forward_buffer:
  assumes "sft_submit_forward q i w s f sw = (Inr (), sw')"
  shows "\<exists>b bp. get_sft_buffer q (sw_hidden sw) (sw_topk sw) (sw_pool sw) = (b, bp) \<and> sw_pool sw' = bp \<and>
     sw_async sw' = sw_async sw \<and> sp_shared bp = Some b"
proof -
  obtain b s1 where f: "fetch_sft_buffer q sw = (Inr b, s1)"
    and st: "stage_and_submit_forward q s f b (s1\<lparr>sw_log := sw_log s1 @ [CopyInputs (sb_id b) q],
      sw_pending := Some \<lparr>pf_buffer = b, pf_save = s, pf_qlen = q\<rparr>\<rparr>) = (Inr (), sw')"
    using assms by (auto simp: sft_submit_forward_def ebind_eq_Inr log_event_def)
  define t where "t = s1\<lparr>sw_log := sw_log s1 @ [CopyInputs (sb_id b) q],
      sw_pending := Some \<lparr>pf_buffer = b, pf_save = s, pf_qlen = q\<rparr>\<rparr>"
  obtain bp where g: "get_sft_buffer q (sw_hidden sw) (sw_topk sw) (sw_pool sw) = (b, bp)"
    and s1: "s1 = sw\<lparr>sw_pool := bp\<rparr>"
    using fetch_sft_buffer_Inr [OF f] by auto
  have t: "sw_pool t = bp" "sw_async t = sw_async sw" "stage_and_submit_forward q s f b t = (Inr (), sw')"
    using st by (simp_all add: t_def s1)
  have "core sw' = core t" using keepsD [OF keeps_core_stage_forward t(3)] .
  then have "sw_async sw' = sw_async sw" using t(2) by (simp add: core_def)
  with g t(1) keepsD [OF keeps_pool_stage t(3)] show ?thesis using get_sft_buffer_ok(2) [OF g] by auto
qed

text \<open>
  C31. \<open>sync_backward\<close> asks for the shared buffer again instead of keeping the one the task writes:
  if a forward with a longer batch grows the buffer in between, the gradients are read from the
  new buffer, which the backward task never wrote; if it does not grow, from the right one.
\<close>

theorem async_backward_reads_grown_buffer:
  assumes "submit_backward_async q dev scale f sw = (Inr (), sw1)" and "pool_ok (sw_pool sw)"
    and "sft_submit_forward q' ids ws save f' sw1 = (Inr (), sw2)"
    and "sync_backward f'' sw2 = (Inr (i, n), sw3)"
  shows "\<exists>b acc. sp_shared (sw_pool sw1) = Some b \<and>
     SubmitBackward (sb_id b) acc scale \<in> set (sw_log sw1) \<and> (i = sb_id b \<longleftrightarrow> q' \<le> sb_qlen b)"
proof -
  obtain b acc a where b: "sp_shared (sw_pool sw1) = Some b" "q \<le> sb_qlen b" "pool_ok (sw_pool sw1)"
    and l: "SubmitBackward (sb_id b) acc scale \<in> set (sw_log sw1)"
    and a: "sw_async sw1 = Some a" "ab_qlen a = q"
    using submit_backward_async_buffer [OF assms(1,2)] by blast
  obtain b2 bp2 where g2: "get_sft_buffer q' (sw_hidden sw1) (sw_topk sw1) (sw_pool sw1) = (b2, bp2)"
    "sw_pool sw2 = bp2" "sw_async sw2 = sw_async sw1" "sp_shared bp2 = Some b2"
    using sft_submit_forward_buffer [OF assms(3)] by blast
  obtain b3 bp3 where g3: "get_sft_buffer q (sw_hidden sw2) (sw_topk sw2) bp2 = (b3, bp3)" "i = sb_id b3"
    using sync_backward_buffer [OF assms(4), of a] a g2 by auto
  have "i = sb_id b \<longleftrightarrow> q' \<le> sb_qlen b"
  proof (cases "q' \<le> sb_qlen b")
    case True
    then have "b2 = b" using get_sft_buffer_ok(5) [OF g2(1) b(1)] by simp
    with g2(4) g3 b(2) True get_sft_buffer_ok(5) [OF g3(1)] show ?thesis by simp
  next
    case False
    then have lt: "sb_id b < sb_id b2" using get_sft_buffer_ok(4) [OF g2(1) b(3,1)] by simp
    have "q \<le> sb_qlen b2" using False b(2) get_sft_buffer_ok(1) [OF g2(1)] by simp
    with g2(4) g3 lt False get_sft_buffer_ok(5) [OF g3(1)] show ?thesis by simp
  qed
  with b(1) l show ?thesis by blast
qed

theorem async_backward_reads_grown_buffer_witness:
  "let sw = sft_step (fresh_sft False sample_grads) (SForward 3 (3, 2) (3, 2) True no_faults);
       sw1 = snd (submit_backward_async 3 None (Finite (1::int)) no_faults sw);
       sw2 = snd (sft_submit_forward 5 (5, 2) (5, 2) False no_faults sw1)
   in fst (sync_backward no_faults sw2) = Inr (1, 3) \<and>
      \<not> (\<exists>acc. SubmitBackward 1 acc (Finite 1) \<in> set (sw_log sw1))"
proof -
  let ?sw = "sft_step (fresh_sft False sample_grads :: int sft) (SForward 3 (3, 2) (3, 2) True no_faults)"
  let ?s1 = "submit_backward_async 3 None (Finite (1::int)) no_faults ?sw"
  let ?s2 = "sft_submit_forward 5 (5, 2) (5, 2) False no_faults (snd ?s1)"
  let ?s3 = "sync_backward no_faults (snd ?s2)"
  have "fst ?s1 = Inr ()" "fst ?s2 = Inr ()" by code_simp+
  then have s: "?s1 = (Inr (), snd ?s1)" "?s2 = (Inr (), snd ?s2)" by (simp_all add: prod_eq_iff)
  have s3: "fst ?s3 = Inr (1, 3)" by code_simp
  then have s3': "?s3 = (Inr (1, 3), snd ?s3)" by (simp add: prod_eq_iff)
  have ok: "pool_ok (sw_pool ?sw)"
  proof -
    have "sp_shared (sw_pool ?sw) = Some \<lparr>sb_id = 0, sb_qlen = 3, sb_hidden = 4, sb_topk = 2\<rparr>"
      "sp_next (sw_pool ?sw) = 1" by code_simp+
    then show ?thesis by (simp add: pool_ok_def)
  qed
  have sh: "sp_shared (sw_pool (snd ?s1)) = Some \<lparr>sb_id = 0, sb_qlen = 3, sb_hidden = 4, sb_topk = 2\<rparr>"
    by code_simp
  have lg: "sw_log (snd ?s1) = [CopyInputs 0 3, SubmitForward 0 True, SyncCpu, CopyGradOutput 0 3,
      SubmitBackward 0 False (Finite 1)]"
    by code_simp
  from async_backward_reads_grown_buffer [OF s(1) ok s(2) s3'] s3 lg
  show ?thesis by (auto simp: Let_def)
qed

end
