(* ===== verification/PyText.thy ===== *)
theory PyText
  imports Prelude
begin

text \<open>
  \<open>str\<close> and \<open>int\<close> on integers and their ASCII texts, used by the configuration (environment
  variables), the checkpoint files (layer numbers in names and keys) and the command line.
\<close>

section \<open>Printing integers\<close>

fun digits :: "nat \<Rightarrow> string" where
  "digits n = (if n < 10 then [char_of (48 + n)] else digits (n div 10) @ [char_of (48 + n mod 10)])"

declare digits.simps [simp del]

definition str_of_int :: "int \<Rightarrow> string" where
  "str_of_int i = (if i < 0 then CHR ''-'' # digits (nat (- i)) else digits (nat i))"

section \<open>Parsing integers\<close>

text \<open>
  \<open>int(s)\<close> on an ASCII string: surrounding white space, a sign, digits with single underscores
  between them.
\<close>

fun parse_digits :: "nat \<Rightarrow> string \<Rightarrow> nat option" where
  "parse_digits n [] = Some n"
| "parse_digits n (c # s) =
     (if CHR ''0'' \<le> c \<and> c \<le> CHR ''9'' then parse_digits (10 * n + (of_char c - 48)) s
      else if c = CHR ''_''
      then (case s of
              d # s' \<Rightarrow> (if CHR ''0'' \<le> d \<and> d \<le> CHR ''9''
                          then parse_digits (10 * n + (of_char d - 48)) s' else None)
            | [] \<Rightarrow> None)
      else None)"

definition parse_nat :: "string \<Rightarrow> nat option" where
  "parse_nat s = (case s of [] \<Rightarrow> None | c # _ \<Rightarrow> (if c = CHR ''_'' then None else parse_digits 0 s))"

definition parse_int :: "string \<Rightarrow> int option" where
  "parse_int s0 =
     (let s = strip s0 in
      case s of
        [] \<Rightarrow> None
      | c # s' \<Rightarrow>
          (if c = CHR ''-'' then map_option (\<lambda>n. - int n) (parse_nat s')
           else if c = CHR ''+'' then map_option int (parse_nat s')
           else map_option int (parse_nat s)))"

section \<open>Integers survive printing and parsing\<close>

lemma digit_range: "k < 10 \<Longrightarrow> CHR ''0'' \<le> char_of (48 + k) \<and> char_of (48 + k) \<le> CHR ''9''" for k :: nat
  by (auto simp: less_eq_char_def)

lemma digits_are_digits: "\<forall>c \<in> set (digits n). CHR ''0'' \<le> c \<and> c \<le> CHR ''9''"
proof (induction n rule: digits.induct)
  case (1 n)
  show ?case using 1 digit_range [of "n mod 10"] digit_range [of n]
    by (subst digits.simps) (auto)
qed

lemma parse_digits_append:
  "\<forall>c \<in> set xs. CHR ''0'' \<le> c \<and> c \<le> CHR ''9'' \<Longrightarrow>
   parse_digits m (xs @ ys) = Option.bind (parse_digits m xs) (\<lambda>k. parse_digits k ys)"
  by (induction xs arbitrary: m) auto

lemma parse_digits_digits: "parse_digits 0 (digits n) = Some n"
proof (induction n rule: digits.induct)
  case (1 n)
  show ?case using 1 digit_range [of "n mod 10"] digit_range [of n] digits_are_digits [of "n div 10"]
    by (subst digits.simps) (auto simp: parse_digits_append)
qed

lemma digits_nonempty: "digits n \<noteq> []"
  by (subst digits.simps) (auto)

lemma dropWhile_none: "\<forall>c \<in> set s. \<not> P c \<Longrightarrow> dropWhile P s = s"
  by (cases s) auto

lemma strip_no_space: "\<forall>c \<in> set s. \<not> is_space c \<Longrightarrow> strip s = s"
  by (simp add: strip_def dropWhile_none)

lemma digit_not_special:
  "CHR ''0'' \<le> c \<Longrightarrow> \<not> is_space c \<and> c \<noteq> CHR ''-'' \<and> c \<noteq> CHR ''+'' "
  by (auto simp: is_space_def less_eq_char_def)

lemma digit_not_underscore: "c \<le> CHR ''9'' \<Longrightarrow> c \<noteq> CHR ''_''"
  by (auto simp: less_eq_char_def)

lemma parse_nat_digits: "parse_nat (digits n) = Some n"
  using digits_are_digits [of n] parse_digits_digits [of n] digits_nonempty [of n]
  by (cases "digits n") (auto simp: parse_nat_def digit_not_underscore)

lemma digits_cons:
  obtains c s where "digits n = c # s" "c \<noteq> CHR ''-''" "c \<noteq> CHR ''+''"
proof (cases "digits n")
  case Nil
  with digits_nonempty show ?thesis by simp
next
  case (Cons c s)
  with digits_are_digits [of n] digit_not_special [of c] that show ?thesis by simp
qed

lemma str_of_int_no_space: "strip (str_of_int i) = str_of_int i"
proof (rule strip_no_space)
  have "\<forall>c \<in> set (digits n). \<not> is_space c" for n
    using digits_are_digits digit_not_special by blast
  moreover have "\<not> is_space (CHR ''-'')" by (simp add: is_space_def)
  ultimately show "\<forall>c \<in> set (str_of_int i). \<not> is_space c"
    by (simp add: str_of_int_def)
qed

lemma parse_str_of_int: "parse_int (str_of_int i) = Some i"
proof (cases "i < 0")
  case True
  then show ?thesis
    by (simp add: parse_int_def str_of_int_no_space Let_def)
      (simp add: str_of_int_def parse_nat_digits)
next
  case False
  then have s: "str_of_int i = digits (nat i)" by (simp add: str_of_int_def)
  obtain c s where "digits (nat i) = c # s" "c \<noteq> CHR ''-''" "c \<noteq> CHR ''+''" by (rule digits_cons)
  with False s parse_nat_digits [of "nat i"] str_of_int_no_space [of i] show ?thesis
    by (simp add: parse_int_def Let_def)
qed

lemma str_of_int_nonempty: "str_of_int i \<noteq> []"
  using digits_nonempty by (auto simp: str_of_int_def)

lemma str_of_int_inj: "str_of_int a = str_of_int b \<longleftrightarrow> a = b"
  by (metis option.inject parse_str_of_int)

end
