(* ===== verification/SftBackend.thy ===== *)
theory SftBackend
  imports PyText
begin

text \<open>
  \<open>kt-kernel/python/sft/backend.py\<close>: SFT method aliases, the public backend names, the
  compressed-tensors contract of RAWINT4 checkpoints and the runtime checks of the loaded extension;
  and \<open>_supports_authoritative_optimizer_grads\<close> of \<open>sft/base.py\<close>, which depends on the aliases.

  A configuration is a Python value (\<open>pyval\<close>): a mapping or an object with attributes, down to
  the scalars the checks compare. The values of \<open>str()\<close> on lists, mappings and objects are
  only ever compared with plain words, so they are left as a bracket or a brace.
\<close>

section \<open>Python values\<close>

datatype pyval =
    PNone | PBool bool | PInt int | PStr string
  | PList "pyval list" | PMap "(string \<times> pyval) list" | PObj "(string \<times> pyval) list"

text \<open>\<open>==\<close>: \<open>True == 1\<close> and \<open>False == 0\<close>.\<close>

fun as_int :: "pyval \<Rightarrow> int option" where
  "as_int (PBool b) = Some (if b then 1 else 0)"
| "as_int (PInt i) = Some i"
| "as_int _ = None"

definition pyeq :: "pyval \<Rightarrow> pyval \<Rightarrow> bool" where
  "pyeq a b = (case as_int a of Some i \<Rightarrow> as_int b = Some i | None \<Rightarrow> a = b)"

fun pystr :: "pyval \<Rightarrow> string" where
  "pystr PNone = ''None''"
| "pystr (PBool b) = (if b then ''True'' else ''False'')"
| "pystr (PInt i) = str_of_int i"
| "pystr (PStr s) = s"
| "pystr (PList _) = ''[''"
| "pystr (PMap _) = ''{''"
| "pystr (PObj _) = ''{''"

definition is_mapping :: "pyval \<Rightarrow> bool" where
  "is_mapping v = (case v of PMap _ \<Rightarrow> True | _ \<Rightarrow> False)"

definition config_value :: "pyval \<Rightarrow> string \<Rightarrow> pyval \<Rightarrow> pyval" where
  "config_value config name dflt =
     (case (case config of PMap d \<Rightarrow> dget d name | PObj d \<Rightarrow> dget d name | _ \<Rightarrow> None) of
        Some v \<Rightarrow> v | None \<Rightarrow> dflt)"

section \<open>Methods and backend names\<close>

definition is_int8_sft_method :: "string \<Rightarrow> bool" where
  "is_int8_sft_method m = (m \<in> {''INT8_SFT'', ''AMXINT8_SFT''})"

definition is_fp8_sft_method :: "string \<Rightarrow> bool" where
  "is_fp8_sft_method m = (m \<in> {''AMXFP8_SFT'', ''FP8_SFT''})"

definition is_rawint4_sft_method :: "string \<Rightarrow> bool" where
  "is_rawint4_sft_method m = (m \<in> {''RAWINT4_SFT'', ''AMXINT4_KGroup_SFT''})"

definition supports_authoritative_optimizer_grads :: "string \<Rightarrow> int \<Rightarrow> bool \<Rightarrow> int \<Rightarrow> bool" where
  "supports_authoritative_optimizer_grads method num_gpu_experts full_weight_grad lora_rank =
     (if num_gpu_experts \<noteq> 0 then False
      else if method = ''AMXBF16_SFT'' then True
      else (is_int8_sft_method method \<or> is_fp8_sft_method method \<or> is_rawint4_sft_method method) \<and>
           \<not> full_weight_grad \<and> lora_rank > 0)"

text \<open>The result and whether a \<open>FutureWarning\<close> is issued.\<close>

definition normalize_sft_backend :: "string \<Rightarrow> string option \<Rightarrow> string \<times> bool" where
  "normalize_sft_backend backend expert_weight_format =
     (let normalized = lower (strip backend) in
      if normalized = ''auto'' then
        (if expert_weight_format = Some ''int8'' then (''INT8'', False)
         else if expert_weight_format = Some ''fp8'' then (''FP8'', False)
         else if expert_weight_format = Some ''rawint4'' then (''RAWINT4'', False)
         else (''AMXBF16'', False))
      else if normalized = ''int8'' then (''INT8'', False)
      else if normalized = ''amxint8'' then (''INT8'', True)
      else if normalized = ''fp8'' then (''FP8'', False)
      else if normalized = ''amxfp8'' then (''FP8'', True)
      else if normalized = ''rawint4'' then (''RAWINT4'', False)
      else if normalized = ''amxint4_kgroup'' then (''RAWINT4'', True)
      else (backend, False))"

section \<open>RAWINT4 checkpoints\<close>

definition dashes :: "string \<Rightarrow> string" where
  "dashes s = map (\<lambda>c. if c = CHR ''_'' then CHR ''-'' else c) s"

definition rawint4_scheme :: "(string \<times> pyval) list" where
  "rawint4_scheme = [(''type'', PStr ''int''), (''num_bits'', PInt 4), (''strategy'', PStr ''group''),
     (''group_size'', PInt 32), (''dynamic'', PBool False), (''symmetric'', PBool True),
     (''actorder'', PNone), (''block_structure'', PNone)]"

definition scheme_matches :: "pyval \<Rightarrow> bool" where
  "scheme_matches weights = list_all (\<lambda>(name, v). pyeq (config_value weights name PNone) v) rawint4_scheme"

definition explicit_zero_point :: "pyval \<Rightarrow> bool" where
  "explicit_zero_point weights =
     (case weights of PMap d \<Rightarrow> dmem d ''zero_point''
                    | _ \<Rightarrow> config_value weights ''zero_point'' PNone \<noteq> PNone)"

text \<open>The loop over the groups; the result is \<open>checked\<close>.\<close>

fun check_groups :: "(string \<times> pyval) list \<Rightarrow> nat \<Rightarrow> nat result" where
  "check_groups [] checked = Inr checked"
| "check_groups ((group_name, grp) # groups) checked =
     (if config_value grp ''input_activations'' PNone \<noteq> PNone
         \<or> config_value grp ''output_activations'' PNone \<noteq> PNone
      then Inl (ValueError ''must be weight-only quantization'')
      else (let weights = config_value grp ''weights'' PNone in
            if weights = PNone then check_groups groups checked
            else if \<not> scheme_matches weights then Inl (ValueError ''unsupported weight scheme'')
            else if explicit_zero_point weights then Inl (ValueError ''must not declare zero-point metadata'')
            else check_groups groups (checked + 1)))"

record rawint4_contract =
  rc_bits :: int
  rc_group_size :: int
  rc_signed :: bool
  rc_symmetric :: bool
  rc_zero_point :: bool
  rc_format :: string

definition the_rawint4_contract :: rawint4_contract where
  "the_rawint4_contract = \<lparr>rc_bits = 4, rc_group_size = 32, rc_signed = True, rc_symmetric = True,
     rc_zero_point = False, rc_format = ''pack-quantized''\<rparr>"

definition quantization_config :: "pyval \<Rightarrow> pyval" where
  "quantization_config model_config =
     (let text_config = config_value model_config ''text_config'' PNone;
          quant_config = config_value model_config ''quantization_config'' PNone in
      if quant_config = PNone \<and> text_config \<noteq> PNone
      then config_value text_config ''quantization_config'' PNone else quant_config)"

definition get_rawint4_checkpoint_contract :: "pyval \<Rightarrow> rawint4_contract result" where
  "get_rawint4_checkpoint_contract model_config =
     (let quant_config = quantization_config model_config;
          quant_method = dashes (lower (pystr (config_value quant_config ''quant_method'' (PStr []))));
          weight_format = dashes (lower (pystr (config_value quant_config ''format'' (PStr []))));
          status = lower (pystr (config_value quant_config ''quantization_status'' (PStr [])));
          groups = config_value quant_config ''config_groups'' PNone in
      if quant_config = PNone then Inl (ValueError ''requires quantization_config metadata'')
      else if quant_method \<noteq> ''compressed-tensors'' then Inl (ValueError ''requires compressed-tensors'')
      else if weight_format \<noteq> ''pack-quantized'' then Inl (ValueError ''requires pack-quantized'')
      else if status \<noteq> ''compressed'' then Inl (ValueError ''requires compressed'')
      else case groups of
             PMap [] \<Rightarrow> Inl (ValueError ''requires non-empty config_groups'')
           | PMap gs \<Rightarrow> rbind (check_groups gs 0) (\<lambda>checked.
               if checked = 0 then Inl (ValueError ''quantization_config has no weight scheme'')
               else Inr the_rawint4_contract)
           | _ \<Rightarrow> Inl (ValueError ''requires non-empty config_groups''))"

section \<open>Runtime checks\<close>

text \<open>The loaded extension: its metadata attributes and the classes of its \<open>moe\<close> module, if any.\<close>

record extension =
  ex_attrs :: "(string, string) dict"
  ex_moe :: "string list option"

record sft_runtime =
  rt_cpu_variant :: string
  rt_kernel :: string
  rt_layout :: string

definition get_runtime ::
  "string \<Rightarrow> string \<Rightarrow> string \<Rightarrow> string list \<Rightarrow> string \<Rightarrow> extension \<Rightarrow> sft_runtime result" where
  "get_runtime kernel_attr layout_attr cls kernels layout ext =
     (case (dget (ex_attrs ext) ''__cpu_variant__'', dget (ex_attrs ext) kernel_attr,
            dget (ex_attrs ext) layout_attr) of
        (Some v, Some k, Some l) \<Rightarrow>
          (if (case ex_moe ext of None \<Rightarrow> True | Some cs \<Rightarrow> cls \<notin> set cs)
           then Inl (RuntimeError ''extension does not provide this SFT'')
           else if lower k \<notin> set kernels then Inl (RuntimeError ''wrong kernel'')
           else if l \<noteq> layout then Inl (RuntimeError ''weight-layout mismatch'')
           else Inr \<lparr>rt_cpu_variant = lower v, rt_kernel = lower k, rt_layout = l\<rparr>)
      | _ \<Rightarrow> Inl (RuntimeError ''extension predates the runtime metadata''))"

definition get_int8_runtime :: "extension \<Rightarrow> sft_runtime result" where
  "get_int8_runtime = get_runtime ''__int8_kernel__'' ''__int8_weight_layout__'' ''AMXInt8_SFT_MOE''
     [''amx-int8'', ''avx512-vnni'', ''onednn-vnni''] ''kt-int8-n32-k64-vnni-v1''"

definition get_fp8_runtime :: "extension \<Rightarrow> sft_runtime result" where
  "get_fp8_runtime = get_runtime ''__fp8_kernel__'' ''__fp8_weight_layout__'' ''AMXFP8_SFT_MOE''
     [''avx512-fp8-decode-bf16''] ''block-e4m3-128x128''"

definition get_rawint4_runtime :: "extension \<Rightarrow> sft_runtime result" where
  "get_rawint4_runtime = get_runtime ''__rawint4_kernel__'' ''__rawint4_weight_layout__''
     ''AMXInt4_KGroup_SFT_MOE'' [''amx-int4-kgroup-g32''] ''compressed-tensors-rawint4-g32-v1''"

section \<open>Properties\<close>

lemma lower_names:
  "lower (strip ''INT8'') = ''int8''" "lower (strip ''FP8'') = ''fp8''"
  "lower (strip ''RAWINT4'') = ''rawint4''" "lower (strip ''AMXBF16'') = ''amxbf16''"
  by code_simp+

lemma known_backend_fixpoint:
  "normalize_sft_backend ''INT8'' f = (''INT8'', False)"
  "normalize_sft_backend ''FP8'' f = (''FP8'', False)"
  "normalize_sft_backend ''RAWINT4'' f = (''RAWINT4'', False)"
  "normalize_sft_backend ''AMXBF16'' f = (''AMXBF16'', False)"
  by (simp_all only: normalize_sft_backend_def Let_def lower_names) simp_all

lemma normalized_names:
  "lower (strip b) \<in> {''auto'', ''int8'', ''amxint8'', ''fp8'', ''amxfp8'', ''rawint4'', ''amxint4_kgroup''} \<Longrightarrow>
     fst (normalize_sft_backend b f) \<in> {''INT8'', ''FP8'', ''RAWINT4'', ''AMXBF16''}"
  by (elim insertE emptyE) (simp_all add: normalize_sft_backend_def Let_def)

lemma unknown_backend_kept:
  "lower (strip b) \<notin> {''auto'', ''int8'', ''amxint8'', ''fp8'', ''amxfp8'', ''rawint4'', ''amxint4_kgroup''} \<Longrightarrow>
     normalize_sft_backend b f = (b, False)"
  unfolding normalize_sft_backend_def Let_def insert_iff by simp

text \<open>
  Normalising a backend name is idempotent and silent the second time, whatever the weight
  format: the public names are fixed points, so a stored result never changes or warns again.
\<close>

theorem normalize_sft_backend_idempotent:
  "normalize_sft_backend (fst (normalize_sft_backend b f)) g = (fst (normalize_sft_backend b f), False) \<or>
   fst (normalize_sft_backend b f) = b \<and> normalize_sft_backend b g = normalize_sft_backend b f"
proof (cases "lower (strip b) \<in> {''auto'', ''int8'', ''amxint8'', ''fp8'', ''amxfp8'', ''rawint4'', ''amxint4_kgroup''}")
  case True
  from normalized_names [OF this, of f] show ?thesis
    by (elim insertE emptyE) (simp_all only: known_backend_fixpoint simp_thms)
next
  case False
  from unknown_backend_kept [OF this] show ?thesis by simp
qed

lemma check_groups_Inr:
  assumes "check_groups gs n = Inr m"
  shows "n \<le> m \<and> (\<forall>(name, g) \<in> set gs. config_value g ''weights'' PNone = PNone \<or>
      scheme_matches (config_value g ''weights'' PNone) \<and> \<not> explicit_zero_point (config_value g ''weights'' PNone))
    \<and> (n < m \<longleftrightarrow> (\<exists>(name, g) \<in> set gs. config_value g ''weights'' PNone \<noteq> PNone))"
  using assms
proof (induction gs n rule: check_groups.induct)
  case (2 name g gs n)
  show ?case
  proof (cases "config_value g ''weights'' PNone = PNone")
    case True
    with 2 show ?thesis by (auto simp: Let_def split: if_splits)
  next
    case False
    with 2 have "Suc n \<le> m" "scheme_matches (config_value g ''weights'' PNone)"
      "\<not> explicit_zero_point (config_value g ''weights'' PNone)"
      "\<forall>(name, g) \<in> set gs. config_value g ''weights'' PNone = PNone \<or>
         scheme_matches (config_value g ''weights'' PNone) \<and> \<not> explicit_zero_point (config_value g ''weights'' PNone)"
      by (auto simp: Let_def split: if_splits)
    with False show ?thesis by auto
  qed
qed auto

text \<open>
  An accepted RAWINT4 checkpoint declares at least one weight scheme, and every scheme it
  declares is 4-bit symmetric group-32 integer quantisation without a zero point: the layout the
  KGroup kernel decodes.
\<close>

theorem rawint4_contract_sound:
  assumes "get_rawint4_checkpoint_contract cfg = Inr c"
  shows "c = the_rawint4_contract \<and>
    (\<exists>gs. config_value (quantization_config cfg) ''config_groups'' PNone = PMap gs \<and>
       (\<exists>(name, g) \<in> set gs. config_value g ''weights'' PNone \<noteq> PNone) \<and>
       (\<forall>(name, g) \<in> set gs. config_value g ''weights'' PNone \<noteq> PNone \<longrightarrow>
          (let w = config_value g ''weights'' PNone in
           pyeq (config_value w ''num_bits'' PNone) (PInt 4) \<and>
           pyeq (config_value w ''group_size'' PNone) (PInt 32) \<and>
           pyeq (config_value w ''symmetric'' PNone) (PBool True) \<and> \<not> explicit_zero_point w)))"
proof -
  obtain gs n where gs: "config_value (quantization_config cfg) ''config_groups'' PNone = PMap gs"
    and n: "check_groups gs 0 = Inr n" "n \<noteq> 0" and c: "c = the_rawint4_contract"
    using assms
    by (auto simp: get_rawint4_checkpoint_contract_def Let_def split: if_splits pyval.splits list.splits)
  have "(\<exists>(name, g) \<in> set gs. config_value g ''weights'' PNone \<noteq> PNone)"
    and all: "\<forall>(name, g) \<in> set gs. config_value g ''weights'' PNone = PNone \<or>
      scheme_matches (config_value g ''weights'' PNone) \<and> \<not> explicit_zero_point (config_value g ''weights'' PNone)"
    using check_groups_Inr [OF n(1)] n(2) by simp_all
  then show ?thesis using gs c
    by (fastforce simp: scheme_matches_def rawint4_scheme_def Let_def)
qed

definition sample_quant :: pyval where
  "sample_quant = PMap [(''quantization_config'', PObj [(''quant_method'', PStr ''compressed_tensors''),
     (''format'', PStr ''pack-quantized''), (''quantization_status'', PStr ''compressed''),
     (''config_groups'', PMap [(''group_0'', PMap [(''weights'', PMap rawint4_scheme)])])])]"

theorem rawint4_contract_sound_witness:
  "get_rawint4_checkpoint_contract sample_quant = Inr the_rawint4_contract \<and> rc_bits the_rawint4_contract = 4"
proof -
  have "get_rawint4_checkpoint_contract sample_quant = Inr the_rawint4_contract" by code_simp
  with rawint4_contract_sound [OF this] show ?thesis by (simp add: the_rawint4_contract_def)
qed

end
