(* ===== verification/NativeMoE.thy ===== *)
theory NativeMoE
  imports Prelude
begin

text \<open>
  \<open>kt-kernel/python/utils/amx.py\<close>: what stands between a checkpoint and the C++ kernels. The layout
  checks of the FP8, MXFP8 and MXFP4 formats, the check of the physical-to-logical expert map, the
  choice of a kernel from the compiled backends, the host CPU and an environment override, the
  activation contract of \<open>NativeMoEWrapper.__init__\<close> and its shared checkpoint loader.

  A tensor is known by its dtype, shape and placement; the compiled classes and the host are read
  from the record \<open>caps\<close>. Loading the tensors themselves is not modelled.
\<close>

section \<open>Tensors and layout checks\<close>

record tensor_info =
  ti_dtype :: string
  ti_shape :: "nat list"
  ti_device :: string
  ti_contiguous :: bool

definition element_size :: "string \<Rightarrow> nat" where
  "element_size dt =
     (if dt \<in> {''uint8'', ''int8'', ''bool'', ''float8_e4m3fn'', ''float8_e5m2''} then 1
      else if dt \<in> {''bfloat16'', ''float16'', ''int16''} then 2
      else if dt \<in> {''float32'', ''int32''} then 4 else 8)"

definition ceil_div :: "nat \<Rightarrow> nat \<Rightarrow> nat" where
  "ceil_div n b = (n + b - 1) div b"

definition block_fp8_expert_ok :: "nat \<times> nat \<Rightarrow> nat \<Rightarrow> tensor_info \<times> tensor_info \<Rightarrow> unit result" where
  "block_fp8_expert_ok expected block_size p =
     (let (weight, scale) = p;
          exp_scale = map (\<lambda>d. ceil_div d block_size) (ti_shape weight) in
      if length (ti_shape weight) \<noteq> 2 \<or> element_size (ti_dtype weight) \<noteq> 1
         \<or> ti_dtype weight \<notin> {''uint8'', ''float8_e4m3fn''}
      then Inl (ValueError ''expected a 2-D, one-byte E4M3FN weight tensor'')
      else if ti_shape weight \<noteq> [fst expected, snd expected] then Inl (ValueError ''expected weight shape'')
      else if ti_dtype scale \<noteq> ''float32'' \<or> length (ti_shape scale) \<noteq> 2 \<or> ti_shape scale \<noteq> exp_scale
      then Inl (ValueError ''block FP8 requires a float32 scale tensor'')
      else Inr ())"

definition mxfp8_expert_ok :: "nat \<times> nat \<Rightarrow> nat \<Rightarrow> tensor_info \<times> tensor_info \<Rightarrow> unit result" where
  "mxfp8_expert_ok expected group_size p =
     (let (weight, scale) = p; n = ti_shape weight ! 0; k = ti_shape weight ! 1 in
      if ti_dtype weight \<noteq> ''uint8'' \<or> length (ti_shape weight) \<noteq> 2 \<or> element_size (ti_dtype weight) \<noteq> 1
      then Inl (ValueError ''expected a 2-D, one-byte E4M3FN weight tensor'')
      else if ti_shape weight \<noteq> [fst expected, snd expected] then Inl (ValueError ''expected weight shape'')
      else if k mod group_size \<noteq> 0 then Inl (ValueError ''K must be divisible by group_size'')
      else if ti_dtype scale \<noteq> ''uint8'' \<or> length (ti_shape scale) \<noteq> 2
         \<or> ti_shape scale \<noteq> [n, k div group_size]
      then Inl (ValueError ''expected uint8 UE8M0 scales'')
      else Inr ())"

definition mxfp4_expert_ok :: "nat \<times> nat \<Rightarrow> nat \<Rightarrow> tensor_info \<times> tensor_info \<Rightarrow> unit result" where
  "mxfp4_expert_ok expected group_size p =
     (let (weight, scale) = p;
          packed = [fst expected, snd expected div 2];
          n = ti_shape weight ! 0; packed_k = ti_shape weight ! 1 in
      if ti_dtype weight \<noteq> ''uint8'' \<or> length (ti_shape weight) \<noteq> 2 \<or> element_size (ti_dtype weight) \<noteq> 1
      then Inl (ValueError ''expected a 2-D packed uint8 weight tensor'')
      else if ti_shape weight \<noteq> packed then Inl (ValueError ''expected packed weight shape'')
      else if (packed_k * 2) mod group_size \<noteq> 0
      then Inl (ValueError ''logical K must be divisible by group_size'')
      else if ti_dtype scale \<noteq> ''bfloat16'' \<or> length (ti_shape scale) \<noteq> 2
         \<or> ti_shape scale \<noteq> [n, packed_k * 2 div group_size]
      then Inl (ValueError ''expected BF16 UE8M0 scales'')
      else Inr ())"

text \<open>\<open>for expert_id, (weight, scale) in enumerate(zip(weights, scales))\<close>.\<close>

fun check_all :: "('a \<Rightarrow> unit result) \<Rightarrow> 'a list \<Rightarrow> unit result" where
  "check_all f [] = Inr ()"
| "check_all f (x # xs) = (case f x of Inl e \<Rightarrow> Inl e | Inr _ \<Rightarrow> check_all f xs)"

definition validate_layout ::
  "(tensor_info \<times> tensor_info \<Rightarrow> unit result) \<Rightarrow> tensor_info list \<Rightarrow> tensor_info list \<Rightarrow> unit result" where
  "validate_layout expert_ok weights scales =
     (if length weights \<noteq> length scales then Inl (ValueError ''weight/scale expert counts differ'')
      else check_all expert_ok (zip weights scales))"

definition validate_block_fp8_layout ::
  "tensor_info list \<Rightarrow> tensor_info list \<Rightarrow> nat \<times> nat \<Rightarrow> nat \<Rightarrow> unit result" where
  "validate_block_fp8_layout weights scales expected block_size =
     validate_layout (block_fp8_expert_ok expected block_size) weights scales"

definition validate_mxfp8_layout ::
  "tensor_info list \<Rightarrow> tensor_info list \<Rightarrow> nat \<times> nat \<Rightarrow> nat \<Rightarrow> unit result" where
  "validate_mxfp8_layout weights scales expected group_size =
     validate_layout (mxfp8_expert_ok expected group_size) weights scales"

definition validate_mxfp4_layout ::
  "tensor_info list \<Rightarrow> tensor_info list \<Rightarrow> nat \<times> nat \<Rightarrow> nat \<Rightarrow> unit result" where
  "validate_mxfp4_layout weights scales expected group_size =
     validate_layout (mxfp4_expert_ok expected group_size) weights scales"

text \<open>
  \<open>physical_to_logical_map_cpu\<close>: \<open>None\<close> stands for an object that is not a tensor. That the minimum
  is negative (the maximum too large) is that some entry is.
\<close>

definition validate_expert_mapping ::
  "(tensor_info \<times> int list) option \<Rightarrow> nat \<Rightarrow> (string, nat) dict \<Rightarrow> nat result" where
  "validate_expert_mapping m expected_physical logical_counts =
     (case m of
        None \<Rightarrow> Inl (TypeError ''physical_to_logical_map_cpu must be a torch.Tensor'')
      | Some (ti, ids) \<Rightarrow>
          if ti_device ti \<noteq> ''cpu'' then Inl (ValueError ''must reside on CPU'')
          else if ti_dtype ti \<noteq> ''int64'' then Inl (ValueError ''must use torch.int64'')
          else if length (ti_shape ti) \<noteq> 1 then Inl (ValueError ''must be one-dimensional'')
          else if \<not> ti_contiguous ti then Inl (ValueError ''must be contiguous'')
          else if length ids \<noteq> expected_physical
          then Inl (ValueError ''length must match the native physical expert count'')
          else
            (case map snd logical_counts of
               [] \<Rightarrow> Inl (ValueError ''projections contain different logical expert counts'')
             | c # cs \<Rightarrow>
                 if list_ex (\<lambda>d. d \<noteq> c) cs
                 then Inl (ValueError ''projections contain different logical expert counts'')
                 else if c = 0 then Inl (ValueError ''checkpoint contains no logical experts'')
                 else if list_ex (\<lambda>i. i < 0) ids \<or> list_ex (\<lambda>i. i \<ge> int c) ids
                 then Inl (ValueError ''out-of-range logical expert ID'')
                 else Inr c))"

section \<open>Host and kernel selection\<close>

text \<open>
  \<open>_host_has_cpu_flag\<close>: the first line of \<open>/proc/cpuinfo\<close> that starts with \<open>flags\<close> decides.
  \<open>None\<close> for a file that cannot be opened; a \<open>flags\<close> line without a colon is an IndexError.
\<close>

fun flags_of_cpuinfo :: "string list \<Rightarrow> string list result" where
  "flags_of_cpuinfo [] = Inr []"
| "flags_of_cpuinfo (line # lines) =
     (if starts_with ''flags'' line
      then (if CHR '':'' \<in> set line then Inr (words (tl (dropWhile (\<lambda>c. c \<noteq> CHR '':'') line)))
            else Inl (IndexError ''list index out of range''))
      else flags_of_cpuinfo lines)"

definition host_has_cpu_flag :: "string list option \<Rightarrow> string list \<Rightarrow> bool result" where
  "host_has_cpu_flag cpuinfo flag_names =
     (case cpuinfo of
        None \<Rightarrow> Inr False
      | Some lines \<Rightarrow> map_sum id (\<lambda>flags. list_ex (\<lambda>n. n \<in> set flags) flag_names) (flags_of_cpuinfo lines))"

datatype kernel =
    AMXInt4KGroup | AMXInt4KGroupBlocked | AMXFP4KGroup | AMXMXFP8KGroup | AMXFP8 | AMXBF16
  | AMXFP8PerChannel | AMXInt4 | AMXInt8
  | AVX2BF16 | AVX2FP8 | AVX2GPTQInt4 | AVX2RawInt4 | AVX2MXFP4 | AVX2MXFP8
  | AVXVNNI256GPTQInt4 | AVXVNNI256GPTQInt4Packed | AVXVNNI256RawInt4
  | NEONMXFP4 | NEONFP8 | NEONMXFP8 | NEONBF16 | SYCLGPTQInt4

record caps =
  compiled :: "kernel list"
  avx_vnni :: bool
  amx_flag :: bool   \<comment> \<open>\<open>_host_has_cpu_flag("amx_tile", "amx_bf16")\<close>\<close>

definition has :: "caps \<Rightarrow> kernel \<Rightarrow> bool" where
  "has c k = (k \<in> set (compiled c))"

definition group_size_ok :: "int \<Rightarrow> int option \<Rightarrow> bool" where
  "group_size_ok max_size group_size =
     (case group_size of None \<Rightarrow> True | Some g \<Rightarrow> g > 0 \<and> g mod 32 = 0 \<and> g \<le> max_size)"

definition forced_backend :: "string \<Rightarrow> string" where
  "forced_backend env = lower (strip env)"

definition select_gptq_int4_backend :: "caps \<Rightarrow> string \<Rightarrow> int option \<Rightarrow> kernel option result" where
  "select_gptq_int4_backend c env group_size =
     (let forced = forced_backend env;
          avxvnni_group_supported = group_size_ok 256 group_size;
          packed_group_supported = group_size_ok 2048 group_size in
      if forced \<in> {''packed'', ''avxvnni-packed'', ''avxvnni256-packed''} then
        (if \<not> has c AVXVNNI256GPTQInt4Packed then Inl (RuntimeError ''packed: not compiled in'')
         else if \<not> avx_vnni c then Inl (RuntimeError ''packed: CPU does not support avx_vnni'')
         else if \<not> packed_group_supported then Inl (RuntimeError ''packed: group_size is unsupported'')
         else Inr (Some AVXVNNI256GPTQInt4Packed))
      else if forced \<in> {''avxvnni'', ''avxvnni256''} then
        (if \<not> has c AVXVNNI256GPTQInt4 then Inl (RuntimeError ''avxvnni: not compiled in'')
         else if \<not> avx_vnni c then Inl (RuntimeError ''avxvnni: CPU does not support avx_vnni'')
         else if \<not> avxvnni_group_supported then Inl (RuntimeError ''avxvnni: group_size is unsupported'')
         else Inr (Some AVXVNNI256GPTQInt4))
      else if forced = ''avx2'' then
        (if \<not> has c AVX2GPTQInt4 then Inl (RuntimeError ''avx2: not compiled in'')
         else Inr (Some AVX2GPTQInt4))
      else if has c AVXVNNI256GPTQInt4Packed \<and> avx_vnni c \<and> packed_group_supported
      then Inr (Some AVXVNNI256GPTQInt4Packed)
      else if has c AVXVNNI256GPTQInt4 \<and> avx_vnni c \<and> avxvnni_group_supported
      then Inr (Some AVXVNNI256GPTQInt4)
      else if has c AVX2GPTQInt4 then Inr (Some AVX2GPTQInt4)
      else Inr None)"

definition select_rawint4_backend :: "caps \<Rightarrow> string \<Rightarrow> int option \<Rightarrow> kernel option result" where
  "select_rawint4_backend c env group_size =
     (let forced = forced_backend env; avxvnni_group_supported = group_size_ok 256 group_size in
      if forced = ''amx'' then
        (if \<not> has c AMXInt4KGroup then Inl (RuntimeError ''amx: not compiled in'')
         else Inr (Some AMXInt4KGroup))
      else if forced \<in> {''amx_blocked'', ''blocked''} then
        (if \<not> has c AMXInt4KGroupBlocked then Inl (RuntimeError ''amx_blocked: not compiled in'')
         else Inr (Some AMXInt4KGroupBlocked))
      else if forced \<in> {''avxvnni'', ''avxvnni256''} then
        (if \<not> has c AVXVNNI256RawInt4 then Inl (RuntimeError ''avxvnni: not compiled in'')
         else if \<not> avx_vnni c then Inl (RuntimeError ''avxvnni: CPU does not support avx_vnni'')
         else if \<not> avxvnni_group_supported then Inl (RuntimeError ''avxvnni: group_size is unsupported'')
         else Inr (Some AVXVNNI256RawInt4))
      else if forced = ''avx2'' then
        (if \<not> has c AVX2RawInt4 then Inl (RuntimeError ''avx2: not compiled in'')
         else Inr (Some AVX2RawInt4))
      else if has c AMXInt4KGroup then Inr (Some AMXInt4KGroup)
      else if has c AVXVNNI256RawInt4 \<and> avx_vnni c \<and> avxvnni_group_supported
      then Inr (Some AVXVNNI256RawInt4)
      else if has c AVX2RawInt4 then Inr (Some AVX2RawInt4)
      else Inr None)"

definition select_mxfp4_backend :: "caps \<Rightarrow> string \<Rightarrow> kernel option result" where
  "select_mxfp4_backend c env =
     (let forced = forced_backend env in
      if forced = ''amx'' then
        (if \<not> has c AMXFP4KGroup then Inl (RuntimeError ''amx: not compiled in'')
         else Inr (Some AMXFP4KGroup))
      else if forced = ''avx2'' then
        (if \<not> has c AVX2MXFP4 then Inl (RuntimeError ''avx2: not compiled in'') else Inr (Some AVX2MXFP4))
      else if forced = ''neon'' then
        (if \<not> has c NEONMXFP4 then Inl (RuntimeError ''neon: not compiled in'') else Inr (Some NEONMXFP4))
      else if has c AMXFP4KGroup then Inr (Some AMXFP4KGroup)
      else if has c AVX2MXFP4 then Inr (Some AVX2MXFP4)
      else if has c NEONMXFP4 then Inr (Some NEONMXFP4)
      else Inr None)"

definition select_mxfp8_backend :: "caps \<Rightarrow> string \<Rightarrow> kernel option result" where
  "select_mxfp8_backend c env =
     (let forced = forced_backend env in
      if forced = ''amx'' then
        (if \<not> has c AMXMXFP8KGroup then Inl (RuntimeError ''amx: not compiled in'')
         else if \<not> amx_flag c then Inl (RuntimeError ''amx: the host CPU lacks AMX'')
         else Inr (Some AMXMXFP8KGroup))
      else if forced = ''avx2'' then
        (if \<not> has c AVX2MXFP8 then Inl (RuntimeError ''avx2: not compiled in'') else Inr (Some AVX2MXFP8))
      else if forced = ''neon'' then
        (if \<not> has c NEONMXFP8 then Inl (RuntimeError ''neon: not compiled in'') else Inr (Some NEONMXFP8))
      else if has c AMXMXFP8KGroup \<and> amx_flag c then Inr (Some AMXMXFP8KGroup)
      else if has c AVX2MXFP8 then Inr (Some AVX2MXFP8)
      else if has c NEONMXFP8 then Inr (Some NEONMXFP8)
      else Inr None)"

section \<open>The activation contract\<close>

definition native_situ_methods :: "string list" where
  "native_situ_methods = [''RAWINT4'', ''FP8'', ''BF16'', ''FP8_PERCHANNEL'', ''GPTQ_INT4'',
     ''MXFP4'', ''NVFP4'', ''MXFP8'']"

definition native_swiglu_methods :: "string list" where
  "native_swiglu_methods = ''SYCL_GPTQ_INT4'' # native_situ_methods"

text \<open>The activation arguments as they travel from the factory to \<open>NativeMoEWrapper\<close>.\<close>

record 'r act_config =
  ac_activation :: string
  ac_situ_beta :: "'r pyfloat option"
  ac_situ_linear_beta :: "'r pyfloat option"
  ac_alpha :: "'r pyfloat"
  ac_limit :: "'r pyfloat"

text \<open>Callers that predate the explicit contract: the Kimi-K3 tuple becomes SiTU.\<close>

definition resolve_legacy_activation ::
  "string \<Rightarrow> 'r::linordered_idom pyfloat option \<Rightarrow> 'r pyfloat option \<Rightarrow> 'r pyfloat \<Rightarrow> 'r pyfloat \<Rightarrow> 'r act_config" where
  "resolve_legacy_activation method situ_beta situ_linear_beta swiglu_alpha swiglu_limit =
     (if method = ''MXFP4'' \<and> feq swiglu_alpha (Finite 4) \<and> feq swiglu_limit (Finite 25)
      then \<lparr>ac_activation = ''situ'', ac_situ_beta = Some swiglu_alpha,
            ac_situ_linear_beta = Some swiglu_limit, ac_alpha = Finite 0, ac_limit = Finite 0\<rparr>
      else \<lparr>ac_activation = (if flt (Finite 0) swiglu_alpha then ''swiglu_oai'' else ''silu''),
            ac_situ_beta = situ_beta, ac_situ_linear_beta = situ_linear_beta,
            ac_alpha = swiglu_alpha, ac_limit = swiglu_limit\<rparr>)"

definition finite_positive :: "'r::linordered_idom pyfloat \<Rightarrow> bool" where
  "finite_positive x = (isfinite x \<and> \<not> fle x (Finite 0))"

definition finite_nonneg :: "'r::linordered_idom pyfloat \<Rightarrow> bool" where
  "finite_nonneg x = (isfinite x \<and> \<not> flt x (Finite 0))"

text \<open>The checks of \<open>NativeMoEWrapper.__init__\<close> on the resolved configuration.\<close>

definition check_native_activation :: "string \<Rightarrow> 'r::linordered_idom act_config \<Rightarrow> unit result" where
  "check_native_activation method ac =
     (let act = ac_activation ac; beta = ac_situ_beta ac; linear = ac_situ_linear_beta ac;
          alpha = ac_alpha ac; limit = ac_limit ac in
      if \<not> finite_nonneg limit then Inl (ValueError ''swiglu_limit must be finite and non-negative'')
      else if \<not> finite_nonneg alpha then Inl (ValueError ''swiglu_alpha must be finite and non-negative'')
      else if act \<notin> {''silu'', ''swiglu_oai'', ''situ''} then Inl (ValueError ''Unsupported activation'')
      else rbind
        (if act = ''situ'' then
           (if method \<notin> set native_situ_methods then Inl (ValueError ''SiTU is unsupported for method'')
            else if (case beta of None \<Rightarrow> True | Some b \<Rightarrow> \<not> finite_positive b)
            then Inl (ValueError ''SiTU requires a finite positive situ_beta'')
            else if (case linear of None \<Rightarrow> False | Some l \<Rightarrow> \<not> finite_nonneg l)
            then Inl (ValueError ''situ_linear_beta must be finite and non-negative'')
            else if \<not> feq alpha (Finite 0) \<or> \<not> feq limit (Finite 0)
            then Inl (ValueError ''SiTU must not reuse swiglu_alpha/swiglu_limit'')
            else Inr ())
         else if beta \<noteq> None \<or> linear \<noteq> None
         then Inl (ValueError ''SiTU beta parameters require situ'')
         else if act = ''swiglu_oai'' \<and> \<not> finite_positive alpha
         then Inl (ValueError ''SwiGLU-OAI requires a finite positive swiglu_alpha'')
         else if act = ''silu'' \<and> \<not> feq alpha (Finite 0)
         then Inl (ValueError ''silu cannot use swiglu_alpha'')
         else Inr ())
        (\<lambda>_. if \<not> feq limit (Finite 0) \<and> method \<notin> set native_swiglu_methods
              then Inl (ValueError ''the clamp requires a shared native method'') else Inr ()))"

text \<open>The kernels that make a method available.\<close>

definition method_kernels :: "string \<Rightarrow> kernel list option" where
  "method_kernels method =
     (if method = ''RAWINT4'' then Some [AMXInt4KGroup, AVX2RawInt4, AVXVNNI256RawInt4]
      else if method = ''FP8'' then Some [AMXFP8, AVX2FP8, NEONFP8]
      else if method = ''FP8_PERCHANNEL'' then Some [AMXFP8PerChannel]
      else if method = ''BF16'' then Some [AMXBF16, AVX2BF16, NEONBF16]
      else if method = ''GPTQ_INT4''
      then Some [AVX2GPTQInt4, AVXVNNI256GPTQInt4, AVXVNNI256GPTQInt4Packed]
      else if method = ''SYCL_GPTQ_INT4'' then Some [SYCLGPTQInt4]
      else if method = ''NVFP4'' then Some [AVX2MXFP4]
      else if method = ''MXFP4'' then Some [AMXFP4KGroup, AVX2MXFP4, NEONMXFP4]
      else if method = ''MXFP8'' then Some [AMXMXFP8KGroup, AVX2MXFP8, NEONMXFP8]
      else None)"

definition check_method_available :: "caps \<Rightarrow> string \<Rightarrow> unit result" where
  "check_method_available c method =
     (case method_kernels method of
        None \<Rightarrow> Inr ()
      | Some ks \<Rightarrow> if list_ex (has c) ks then Inr ()
                   else Inl (RuntimeError ''backend not available''))"

text \<open>Everything \<open>NativeMoEWrapper.__init__\<close> checks before the base constructor.\<close>

definition native_init ::
  "caps \<Rightarrow> string \<Rightarrow> string option \<Rightarrow> 'r::linordered_idom pyfloat option \<Rightarrow> 'r pyfloat option
     \<Rightarrow> 'r pyfloat \<Rightarrow> 'r pyfloat \<Rightarrow> 'r act_config result" where
  "native_init c method activation situ_beta situ_linear_beta swiglu_alpha swiglu_limit =
     (let ac = (case activation of
                  None \<Rightarrow> resolve_legacy_activation method situ_beta situ_linear_beta swiglu_alpha swiglu_limit
                | Some a \<Rightarrow> \<lparr>ac_activation = a, ac_situ_beta = situ_beta,
                              ac_situ_linear_beta = situ_linear_beta,
                              ac_alpha = swiglu_alpha, ac_limit = swiglu_limit\<rparr>)
      in rbind (check_native_activation method ac) (\<lambda>_.
         rbind (check_method_available c method) (\<lambda>_. Inr ac)))"

definition amx_init_check :: "caps \<Rightarrow> string \<Rightarrow> unit result" where
  "amx_init_check c method =
     (if method = ''AMXINT4'' \<and> \<not> has c AMXInt4 then Inl (RuntimeError ''AMXINT4 backend not available'')
      else if method = ''AMXINT8'' \<and> \<not> has c AMXInt8 then Inl (RuntimeError ''AMXINT8 backend not available'')
      else Inr ())"

section \<open>Shared checkpoint loaders\<close>

datatype loader_kind =
    Compressed | FP8Blocks | FP8PerChannel | BF16Loader | GPTQ | MXFP4Loader | NVFP4Loader | MXFP8Loader

definition create_loader :: "string \<Rightarrow> loader_kind result" where
  "create_loader method =
     (if method = ''RAWINT4'' then Inr Compressed
      else if method = ''FP8'' then Inr FP8Blocks
      else if method = ''FP8_PERCHANNEL'' then Inr FP8PerChannel
      else if method = ''BF16'' then Inr BF16Loader
      else if method \<in> {''GPTQ_INT4'', ''SYCL_GPTQ_INT4''} then Inr GPTQ
      else if method = ''MXFP4'' then Inr MXFP4Loader
      else if method = ''NVFP4'' then Inr NVFP4Loader
      else if method = ''MXFP8'' then Inr MXFP8Loader
      else Inl (NotImplementedError ''Unsupported method for NativeMoEWrapper''))"

record loader =
  ld_kind :: loader_kind
  ld_path :: string
  ld_open :: bool
  ld_indexed :: bool

text \<open>
  The two class attributes and the loader objects by identity. \<open>canon\<close> is
  \<open>realpath(abspath(fspath(p)))\<close>, a parameter; \<open>fault\<close> is an exception of a loader's constructor.
  A loader opens its files lazily, so handles are open from its creation on in the worst case.
\<close>

record loader_state =
  ls_instance :: "nat option"
  ls_key :: "(string \<times> string) option"
  ls_loaders :: "(nat, loader) dict"
  ls_next :: nat

definition init_loaders :: loader_state where
  "init_loaders = \<lparr>ls_instance = None, ls_key = None, ls_loaders = [], ls_next = 0\<rparr>"

definition upd_loader :: "nat \<Rightarrow> (loader \<Rightarrow> loader) \<Rightarrow> loader_state \<Rightarrow> loader_state" where
  "upd_loader i f st =
     (case dget (ls_loaders st) i of
        None \<Rightarrow> st
      | Some l \<Rightarrow> st\<lparr>ls_loaders := dset (ls_loaders st) i (f l)\<rparr>)"

definition close_all_handles :: "nat \<Rightarrow> loader_state \<Rightarrow> loader_state" where
  "close_all_handles i = upd_loader i (\<lambda>l. l\<lparr>ld_open := False\<rparr>)"

definition clear_index :: "nat \<Rightarrow> loader_state \<Rightarrow> loader_state" where
  "clear_index i = upd_loader i (\<lambda>l. l\<lparr>ld_open := False, ld_indexed := False\<rparr>)"

definition make_loader_key :: "(string \<Rightarrow> string) \<Rightarrow> string \<Rightarrow> string \<Rightarrow> string \<times> string" where
  "make_loader_key canon method path = (method, canon path)"

definition ensure_loader ::
  "(string \<Rightarrow> string) \<Rightarrow> string \<Rightarrow> string \<Rightarrow> exn option \<Rightarrow> (loader_state, nat) eop" where
  "ensure_loader canon method path fault st =
     (let key = make_loader_key canon method path in
      case ls_instance st of
        Some i \<Rightarrow>
          if ls_key st = Some key then (Inr i, st)
          else (let st1 = close_all_handles i st in
                case rbind (create_loader method) (\<lambda>k. case fault of None \<Rightarrow> Inr k | Some e \<Rightarrow> Inl e) of
                  Inl e \<Rightarrow> (Inl e, st1)
                | Inr k \<Rightarrow> (Inr (ls_next st1),
                    st1\<lparr>ls_instance := Some (ls_next st1), ls_key := Some key,
                        ls_loaders := dset (ls_loaders st1) (ls_next st1)
                          \<lparr>ld_kind = k, ld_path = path, ld_open = True, ld_indexed = True\<rparr>,
                        ls_next := Suc (ls_next st1)\<rparr>))
      | None \<Rightarrow>
          (case rbind (create_loader method) (\<lambda>k. case fault of None \<Rightarrow> Inr k | Some e \<Rightarrow> Inl e) of
             Inl e \<Rightarrow> (Inl e, st)
           | Inr k \<Rightarrow> (Inr (ls_next st),
               st\<lparr>ls_instance := Some (ls_next st), ls_key := Some key,
                  ls_loaders := dset (ls_loaders st) (ls_next st)
                    \<lparr>ld_kind = k, ld_path = path, ld_open = True, ld_indexed = True\<rparr>,
                  ls_next := Suc (ls_next st)\<rparr>)))"

definition release_loader :: "bool \<Rightarrow> nat option \<Rightarrow> loader_state \<Rightarrow> loader_state" where
  "release_loader drop_index ldr st =
     (case (case ldr of Some i \<Rightarrow> Some i | None \<Rightarrow> ls_instance st) of
        None \<Rightarrow> st
      | Some i \<Rightarrow>
          (let st1 = (if drop_index then clear_index i st else close_all_handles i st) in
           if drop_index \<and> ls_instance st1 = Some i
           then st1\<lparr>ls_instance := None, ls_key := None\<rparr> else st1))"

definition force_release_loader :: "loader_state \<Rightarrow> loader_state" where
  "force_release_loader = release_loader True None"

text \<open>The loader of \<open>AMXMoEWrapper\<close>: one per process, built for the first path that asks.\<close>

definition amx_safetensor_loader :: "string \<Rightarrow> string option \<Rightarrow> string \<times> string option" where
  "amx_safetensor_loader weight_path inst =
     (case inst of None \<Rightarrow> (weight_path, Some weight_path) | Some p \<Rightarrow> (p, inst))"

section \<open>Layout checks are exact\<close>

lemma check_all_Inr: "check_all f xs = Inr u \<longleftrightarrow> (\<forall>x \<in> set xs. f x = Inr ())"
  by (induction xs) (auto split: sum.splits)

lemma validate_layout_Inr:
  "validate_layout f ws ss = Inr u \<longleftrightarrow>
     length ws = length ss \<and> (\<forall>i < length ws. f (ws ! i, ss ! i) = Inr ())"
  by (auto simp: validate_layout_def check_all_Inr set_zip)

lemma mxfp4_expert_ok_Inr:
  "mxfp4_expert_ok (n, k) g (w, s) = Inr u \<longleftrightarrow>
     ti_dtype w = ''uint8'' \<and> ti_shape w = [n, k div 2] \<and> (k div 2 * 2) mod g = 0 \<and>
     ti_dtype s = ''bfloat16'' \<and> ti_shape s = [n, k div 2 * 2 div g]"
  by (auto simp: mxfp4_expert_ok_def Let_def element_size_def)

lemma mxfp8_expert_ok_Inr:
  "mxfp8_expert_ok (n, k) g (w, s) = Inr u \<longleftrightarrow>
     ti_dtype w = ''uint8'' \<and> ti_shape w = [n, k] \<and> k mod g = 0 \<and>
     ti_dtype s = ''uint8'' \<and> ti_shape s = [n, k div g]"
  by (auto simp: mxfp8_expert_ok_def Let_def element_size_def)

lemma block_fp8_expert_ok_Inr:
  "block_fp8_expert_ok (n, k) b (w, s) = Inr u \<longleftrightarrow>
     ti_dtype w \<in> {''uint8'', ''float8_e4m3fn''} \<and> ti_shape w = [n, k] \<and>
     ti_dtype s = ''float32'' \<and> ti_shape s = [ceil_div n b, ceil_div k b]"
  by (auto simp: block_fp8_expert_ok_def Let_def element_size_def)

lemma ceil_div_covers: "0 < b \<Longrightarrow> n \<le> ceil_div n b * b \<and> ceil_div n b * b < n + b"
proof -
  assume b: "0 < b"
  let ?q = "(n + b - 1) div b"
  have "?q * b + (n + b - 1) mod b = n + b - 1" by simp
  moreover have "(n + b - 1) mod b < b" using b by simp
  ultimately show ?thesis using b unfolding ceil_div_def by linarith
qed

text \<open>
  The three layout checks accept exactly the layouts the kernels index: as many scale as weight
  tensors, one-byte weights of the expected shape (half as wide for packed MXFP4), and for every
  row one scale per group with no element outside a group (MXFP8, MXFP4), or a block grid that
  covers the matrix with less than one block to spare (FP8).
\<close>

theorem accepted_layouts_cover_weights:
  assumes "0 < g" and "even k" and "0 < b"
  shows
   "(validate_mxfp8_layout ws ss (n, k) g = Inr () \<longrightarrow> length ws = length ss \<and> (\<forall>i < length ws.
       ti_shape (ws ! i) = [n, k] \<and> (\<exists>c. ti_shape (ss ! i) = [n, c] \<and> c * g = k))) \<and>
    (validate_mxfp4_layout ws ss (n, k) g = Inr () \<longrightarrow> length ws = length ss \<and> (\<forall>i < length ws.
       \<exists>p. ti_shape (ws ! i) = [n, p] \<and> p * 2 = k \<and> (\<exists>c. ti_shape (ss ! i) = [n, c] \<and> c * g = k))) \<and>
    (validate_block_fp8_layout ws ss (n, k) b = Inr () \<longrightarrow> length ws = length ss \<and> (\<forall>i < length ws.
       ti_shape (ws ! i) = [n, k] \<and> (\<exists>r c. ti_shape (ss ! i) = [r, c] \<and>
         n \<le> r * b \<and> r * b < n + b \<and> k \<le> c * b \<and> c * b < k + b)))"
proof (intro conjI impI)
  assume "validate_mxfp8_layout ws ss (n, k) g = Inr ()"
  then show "length ws = length ss" "\<forall>i < length ws.
       ti_shape (ws ! i) = [n, k] \<and> (\<exists>c. ti_shape (ss ! i) = [n, c] \<and> c * g = k)"
    by (auto simp: validate_mxfp8_layout_def validate_layout_Inr mxfp8_expert_ok_Inr)
next
  assume "validate_mxfp4_layout ws ss (n, k) g = Inr ()"
  then show "length ws = length ss" "\<forall>i < length ws.
       \<exists>p. ti_shape (ws ! i) = [n, p] \<and> p * 2 = k \<and> (\<exists>c. ti_shape (ss ! i) = [n, c] \<and> c * g = k)"
    using assms(2) by (auto simp: validate_mxfp4_layout_def validate_layout_Inr mxfp4_expert_ok_Inr)
next
  assume "validate_block_fp8_layout ws ss (n, k) b = Inr ()"
  then show "length ws = length ss" "\<forall>i < length ws.
       ti_shape (ws ! i) = [n, k] \<and> (\<exists>r c. ti_shape (ss ! i) = [r, c] \<and>
         n \<le> r * b \<and> r * b < n + b \<and> k \<le> c * b \<and> c * b < k + b)"
    using ceil_div_covers [OF assms(3)]
    by (auto simp: validate_block_fp8_layout_def validate_layout_Inr block_fp8_expert_ok_Inr)
qed

definition sample_tensor :: "string \<Rightarrow> nat list \<Rightarrow> tensor_info" where
  "sample_tensor dt sh = \<lparr>ti_dtype = dt, ti_shape = sh, ti_device = ''cpu'', ti_contiguous = True\<rparr>"

theorem accepted_layouts_cover_weights_witness:
  "\<exists>c. ti_shape ([sample_tensor ''bfloat16'' [4, 2]] ! 0) = [4, c] \<and> c * 32 = (64::nat)"
proof -
  have v: "validate_mxfp4_layout [sample_tensor ''uint8'' [4, 32]] [sample_tensor ''bfloat16'' [4, 2]] (4, 64) 32
      = Inr ()"
    by (simp add: validate_mxfp4_layout_def validate_layout_def mxfp4_expert_ok_def sample_tensor_def
        element_size_def)
  from accepted_layouts_cover_weights [of 32 64 1 "[sample_tensor ''uint8'' [4, 32]]"
      "[sample_tensor ''bfloat16'' [4, 2]]" 4] v
  show ?thesis by auto
qed

section \<open>The expert map is in range\<close>

text \<open>
  An accepted physical-to-logical map has one entry per physical expert, every entry is the
  index of a logical expert that each projection of the checkpoint has, and so none is negative,
  which the native code would read as a huge unsigned index.
\<close>

theorem accepted_mapping_in_range:
  assumes "validate_expert_mapping (Some (ti, ids)) n counts = Inr c"
  shows "length ids = n \<and> 0 < c \<and> (\<forall>i < n. 0 \<le> ids ! i \<and> ids ! i < int c) \<and>
     (\<forall>p \<in> set counts. snd p = c)"
proof -
  from assms obtain c0 cs where cs: "map snd counts = c0 # cs" "\<not> list_ex (\<lambda>d. d \<noteq> c0) cs" "c = c0"
    and pos: "0 < c0" and len: "length ids = n"
    and rng: "\<forall>x \<in> set ids. 0 \<le> x \<and> x < int c0"
    by (auto simp: validate_expert_mapping_def list_ex_iff not_less not_le split: if_splits list.splits)
  have "0 \<le> ids ! i \<and> ids ! i < int c" if "i < n" for i
    using that len rng cs(3) by (auto dest: nth_mem)
  moreover have "snd p = c" if "p \<in> set counts" for p
  proof -
    have "snd p \<in> set (c0 # cs)" using that cs(1) by (metis imageI set_map)
    then show ?thesis using cs(2,3) by (auto simp: list_ex_iff)
  qed
  ultimately show ?thesis using len pos cs(3) by blast
qed

theorem accepted_mapping_in_range_witness:
  "0 \<le> [1, 0, 1::int] ! 2 \<and> [1, 0, 1] ! 2 < int 2"
proof -
  have "validate_expert_mapping (Some (sample_tensor ''int64'' [3], [1, 0, 1])) 3
      [(''gate'', 2), (''up'', 2)] = Inr 2"
    by (simp add: validate_expert_mapping_def sample_tensor_def)
  from accepted_mapping_in_range [OF this] show ?thesis by simp
qed

section \<open>A selected kernel can run\<close>

definition runs_here :: "caps \<Rightarrow> int option \<Rightarrow> kernel \<Rightarrow> bool" where
  "runs_here c group_size k \<longleftrightarrow> has c k \<and>
     (k \<in> {AVXVNNI256GPTQInt4, AVXVNNI256GPTQInt4Packed, AVXVNNI256RawInt4} \<longrightarrow> avx_vnni c) \<and>
     (k \<in> {AVXVNNI256GPTQInt4, AVXVNNI256RawInt4} \<longrightarrow> group_size_ok 256 group_size) \<and>
     (k = AVXVNNI256GPTQInt4Packed \<longrightarrow> group_size_ok 2048 group_size) \<and>
     (k = AMXMXFP8KGroup \<longrightarrow> amx_flag c)"

text \<open>
  Whatever the environment override says, each of the four selectors answers only with a kernel
  that is compiled in, that the host CPU supports as far as the code checks it, and whose group
  size it accepts; without an override it answers \<open>None\<close> only if no such kernel exists.
\<close>

theorem selected_kernel_runs:
  "(\<forall>k. select_gptq_int4_backend c env gs = Inr (Some k) \<longrightarrow> runs_here c gs k) \<and>
   (\<forall>k. select_rawint4_backend c env gs = Inr (Some k) \<longrightarrow> runs_here c gs k) \<and>
   (\<forall>k. select_mxfp4_backend c env = Inr (Some k) \<longrightarrow> runs_here c gs k) \<and>
   (\<forall>k. select_mxfp8_backend c env = Inr (Some k) \<longrightarrow> runs_here c gs k) \<and>
   (select_gptq_int4_backend c env gs = Inr None \<longrightarrow>
      \<not> list_ex (runs_here c gs) [AVXVNNI256GPTQInt4Packed, AVXVNNI256GPTQInt4, AVX2GPTQInt4]) \<and>
   (select_rawint4_backend c env gs = Inr None \<longrightarrow>
      \<not> list_ex (runs_here c gs) [AMXInt4KGroup, AVXVNNI256RawInt4, AVX2RawInt4]) \<and>
   (select_mxfp4_backend c env = Inr None \<longrightarrow>
      \<not> list_ex (runs_here c gs) [AMXFP4KGroup, AVX2MXFP4, NEONMXFP4]) \<and>
   (select_mxfp8_backend c env = Inr None \<longrightarrow>
      \<not> list_ex (runs_here c gs) [AMXMXFP8KGroup, AVX2MXFP8, NEONMXFP8])"
proof -
  have "\<forall>k. select_gptq_int4_backend c env gs = Inr (Some k) \<longrightarrow> runs_here c gs k"
    by (auto simp: select_gptq_int4_backend_def Let_def runs_here_def split: if_splits)
  moreover have "\<forall>k. select_rawint4_backend c env gs = Inr (Some k) \<longrightarrow> runs_here c gs k"
    by (auto simp: select_rawint4_backend_def Let_def runs_here_def split: if_splits)
  moreover have "\<forall>k. select_mxfp4_backend c env = Inr (Some k) \<longrightarrow> runs_here c gs k"
    by (auto simp: select_mxfp4_backend_def Let_def runs_here_def split: if_splits)
  moreover have "\<forall>k. select_mxfp8_backend c env = Inr (Some k) \<longrightarrow> runs_here c gs k"
    by (auto simp: select_mxfp8_backend_def Let_def runs_here_def split: if_splits)
  moreover have "select_gptq_int4_backend c env gs = Inr None \<longrightarrow>
      \<not> list_ex (runs_here c gs) [AVXVNNI256GPTQInt4Packed, AVXVNNI256GPTQInt4, AVX2GPTQInt4]"
    by (auto simp: select_gptq_int4_backend_def Let_def runs_here_def split: if_splits)
  moreover have "select_rawint4_backend c env gs = Inr None \<longrightarrow>
      \<not> list_ex (runs_here c gs) [AMXInt4KGroup, AVXVNNI256RawInt4, AVX2RawInt4]"
    by (auto simp: select_rawint4_backend_def Let_def runs_here_def split: if_splits)
  moreover have "select_mxfp4_backend c env = Inr None \<longrightarrow>
      \<not> list_ex (runs_here c gs) [AMXFP4KGroup, AVX2MXFP4, NEONMXFP4]"
    by (auto simp: select_mxfp4_backend_def Let_def runs_here_def split: if_splits)
  moreover have "select_mxfp8_backend c env = Inr None \<longrightarrow>
      \<not> list_ex (runs_here c gs) [AMXMXFP8KGroup, AVX2MXFP8, NEONMXFP8]"
    by (auto simp: select_mxfp8_backend_def Let_def runs_here_def split: if_splits)
  ultimately show ?thesis by blast
qed

definition sample_caps :: caps where
  "sample_caps = \<lparr>compiled = [AVX2GPTQInt4, AVXVNNI256GPTQInt4], avx_vnni = True, amx_flag = False\<rparr>"

theorem selected_kernel_runs_witness:
  "runs_here sample_caps (Some 64) AVXVNNI256GPTQInt4 \<and> \<not> runs_here sample_caps (Some 64) AVX2MXFP8"
proof -
  have "select_gptq_int4_backend sample_caps [] (Some 64) = Inr (Some AVXVNNI256GPTQInt4)"
    by (simp add: select_gptq_int4_backend_def Let_def forced_backend_def strip_def lower_def
        sample_caps_def has_def group_size_ok_def)
  then have "runs_here sample_caps (Some 64) AVXVNNI256GPTQInt4"
    using selected_kernel_runs [of sample_caps "[]" "Some 64"] by blast
  moreover have "\<not> runs_here sample_caps (Some 64) AVX2MXFP8"
    by (simp add: runs_here_def has_def sample_caps_def)
  ultimately show ?thesis by blast
qed

section \<open>The shared loader belongs to the request\<close>

definition loaders_wf :: "(string \<Rightarrow> string) \<Rightarrow> loader_state \<Rightarrow> bool" where
  "loaders_wf canon st \<longleftrightarrow>
     (\<forall>i l. dget (ls_loaders st) i = Some l \<longrightarrow> i < ls_next st) \<and>
     (case ls_instance st of
        None \<Rightarrow> True
      | Some i \<Rightarrow> \<exists>l method. dget (ls_loaders st) i = Some l \<and> ls_key st = Some (method, canon (ld_path l)) \<and>
                  create_loader method = Inr (ld_kind l) \<and> ld_indexed l)"

datatype loader_op = LEnsure string string "exn option" | LRelease bool "nat option"

fun loader_step :: "(string \<Rightarrow> string) \<Rightarrow> loader_state \<Rightarrow> loader_op \<Rightarrow> loader_state" where
  "loader_step canon st (LEnsure method path fault) = snd (ensure_loader canon method path fault st)"
| "loader_step canon st (LRelease di ldr) = release_loader di ldr st"

lemma init_loaders_wf: "loaders_wf canon init_loaders"
  by (simp add: loaders_wf_def init_loaders_def)

lemma upd_loader_simps [simp]:
  "ls_instance (upd_loader i f st) = ls_instance st" "ls_key (upd_loader i f st) = ls_key st"
  "ls_next (upd_loader i f st) = ls_next st"
  "dget (ls_loaders (upd_loader i f st)) j =
     (if i = j then map_option f (dget (ls_loaders st) j) else dget (ls_loaders st) j)"
  by (auto simp: upd_loader_def split: option.splits)

lemma close_all_handles_wf: "loaders_wf canon st \<Longrightarrow> loaders_wf canon (close_all_handles i st)"
  by (fastforce simp: loaders_wf_def close_all_handles_def split: option.splits)

lemma clear_index_other_wf:
  "loaders_wf canon st \<Longrightarrow> ls_instance st \<noteq> Some i \<Longrightarrow> loaders_wf canon (clear_index i st)"
  by (fastforce simp: loaders_wf_def clear_index_def split: option.splits)

lemma release_loader_wf:
  assumes wf: "loaders_wf canon st" shows "loaders_wf canon (release_loader di ldr st)"
proof (cases "case ldr of Some i \<Rightarrow> Some i | None \<Rightarrow> ls_instance st")
  case (Some i)
  show ?thesis
  proof (cases "di \<and> ls_instance st = Some i")
    case True
    with wf Some show ?thesis
      by (auto simp: release_loader_def Let_def loaders_wf_def clear_index_def)
  next
    case False
    with wf Some show ?thesis
      using close_all_handles_wf [OF wf] clear_index_other_wf [OF wf]
      by (auto simp: release_loader_def Let_def close_all_handles_def clear_index_def)
  qed
qed (use wf in \<open>simp add: release_loader_def\<close>)

lemma ensure_loader_wf:
  assumes "loaders_wf canon st" shows "loaders_wf canon (snd (ensure_loader canon method path fault st))"
proof -
  have new: "loaders_wf canon (s\<lparr>ls_instance := Some (ls_next s), ls_key := Some (method, canon path),
        ls_loaders := dset (ls_loaders s) (ls_next s) \<lparr>ld_kind = k, ld_path = path, ld_open = True, ld_indexed = True\<rparr>,
        ls_next := Suc (ls_next s)\<rparr>)"
    if "loaders_wf canon s" "create_loader method = Inr k" for s k
    using that by (fastforce simp: loaders_wf_def split: if_splits)
  show ?thesis
    using assms close_all_handles_wf [OF assms]
    by (cases fault; cases "create_loader method")
       (auto simp: ensure_loader_def Let_def make_loader_key_def new split: option.splits)
qed

interpretation loaders: step_machine "loader_step canon" "loaders_wf canon" for canon
proof unfold_locales
  fix s e assume "loaders_wf canon s"
  then show "loaders_wf canon (loader_step canon s e)"
    by (cases e) (simp_all add: ensure_loader_wf release_loader_wf)
qed

text \<open>
  After any history of requests, failures and releases, the loader \<open>NativeMoEWrapper\<close> gets is of
  the format of its method, was built for the same real path, and still has its index.
\<close>

theorem native_loader_matches_request:
  assumes "ensure_loader canon method path fault (run_steps (loader_step canon) init_loaders ops) = (Inr i, st)"
  shows "\<exists>l. dget (ls_loaders st) i = Some l \<and> create_loader method = Inr (ld_kind l) \<and>
     canon (ld_path l) = canon path \<and> ld_indexed l"
proof -
  let ?s = "run_steps (loader_step canon) init_loaders ops"
  have wf: "loaders_wf canon ?s" by (rule loaders.run_inv [OF init_loaders_wf])
  have "loaders_wf canon st" using ensure_loader_wf [OF wf] assms by (metis snd_conv)
  moreover have "ls_instance st = Some i \<and> ls_key st = Some (method, canon path)"
    using assms
    by (auto simp: ensure_loader_def Let_def make_loader_key_def split: option.splits sum.splits if_splits)
  ultimately show ?thesis by (auto simp: loaders_wf_def)
qed

theorem native_loader_matches_request_witness:
  "\<exists>l. dget (ls_loaders (snd (ensure_loader id ''FP8'' ''/b'' None
        (run_steps (loader_step id) init_loaders [LEnsure ''BF16'' ''/a'' None])))) 1 = Some l \<and>
     ld_kind l = FP8Blocks \<and> ld_path l = ''/b''"
proof -
  let ?e = "ensure_loader id ''FP8'' ''/b'' None
        (run_steps (loader_step id) init_loaders [LEnsure ''BF16'' ''/a'' None])"
  have "fst ?e = Inr 1" by code_simp
  then have "?e = (Inr 1, snd ?e)" by (simp add: prod_eq_iff)
  from native_loader_matches_request [OF this] show ?thesis
    by (auto simp: create_loader_def)
qed

text \<open>
  The SafeTensor loader of \<open>AMXMoEWrapper\<close> has no such key: once a wrapper has been built for
  one path, a wrapper for any other path reads its weights from the first one.
\<close>

lemma amx_loader_ignores_path:
  "let (p1, inst) = amx_safetensor_loader path1 None in
   p1 = path1 \<and> fst (amx_safetensor_loader path2 inst) = path1"
  by (simp add: amx_safetensor_loader_def)

end
