(* ===== verification/MoEFactory.thy ===== *)
theory MoEFactory
  imports MoEForward SftWrapper SftBackend NativeMoE
begin

text \<open>
  \<open>KTMoEWrapper\<close> of \<open>kt-kernel/python/experts.py\<close>: the factory that checks mode, method and
  activation arguments and picks the backend class, and the constructors of \<open>BaseMoEWrapper\<close> and
  \<open>BaseSFTMoEWrapper\<close> it ends in. The \<open>activation\<close> argument is a Python value of any type.
\<close>

section \<open>Methods\<close>

definition inference_methods :: "string list" where
  "inference_methods = [''AMXINT4'', ''AMXINT8'', ''RAWINT4'', ''FP8'', ''BF16'', ''FP8_PERCHANNEL'',
     ''GPTQ_INT4'', ''SYCL_GPTQ_INT4'', ''MXFP4'', ''NVFP4'', ''MXFP8'', ''LLAMAFILE'', ''MOE_INT4'', ''MOE_INT8'']"

definition sft_methods :: "string list" where
  "sft_methods = [''AMXBF16_SFT'', ''AMXFP8_SFT'', ''INT8_SFT'', ''AMXINT8_SFT'', ''AMXINT4_SFT'',
     ''AMXINT4_1_SFT'', ''RAWINT4_SFT'', ''AMXINT4_KGroup_SFT'', ''AMXINT4_1KGroup_SFT'',
     ''AMXBF16_SFT_SkipLoRA'', ''AMXINT8_SFT_SkipLoRA'', ''AMXINT4_SFT_SkipLoRA'',
     ''AMXINT4_1_SFT_SkipLoRA'', ''AMXINT4_KGroup_SFT_SkipLoRA'', ''AMXINT4_1KGroup_SFT_SkipLoRA'']"

definition backend_of_method :: "string \<Rightarrow> backend result" where
  "backend_of_method method =
     (if method \<in> {''AMXINT4'', ''AMXINT8''} then Inr AMXBackend
      else if method \<in> {''RAWINT4'', ''FP8'', ''BF16'', ''FP8_PERCHANNEL'', ''GPTQ_INT4'',
                       ''SYCL_GPTQ_INT4'', ''MXFP4'', ''NVFP4'', ''MXFP8''} then Inr NativeBackend
      else if method = ''LLAMAFILE'' then Inr LlamafileBackend
      else if method \<in> {''MOE_INT4'', ''MOE_INT8''} then Inr GeneralBackend
      else Inl (NotImplementedError ''Unsupported inference method''))"

section \<open>\<open>_create_inference_wrapper\<close>\<close>

text \<open>What the caller passes about the activation.\<close>

record 'r act_args =
  aa_activation :: pyval
  aa_situ_beta :: "'r pyfloat option"
  aa_situ_linear_beta :: "'r pyfloat option"
  aa_alpha :: "'r pyfloat"
  aa_limit :: "'r pyfloat"

definition resolve_activation :: "backend \<Rightarrow> string \<Rightarrow> 'r::linordered_idom act_args \<Rightarrow> 'r act_config result" where
  "resolve_activation b method aa =
     (let given = (\<lambda>a. \<lparr>ac_activation = a, ac_situ_beta = aa_situ_beta aa,
                         ac_situ_linear_beta = aa_situ_linear_beta aa,
                         ac_alpha = aa_alpha aa, ac_limit = aa_limit aa\<rparr>);
          resolved =
            (if aa_activation aa = PNone \<and> b = NativeBackend
             then Inr (resolve_legacy_activation method (aa_situ_beta aa) (aa_situ_linear_beta aa)
                         (aa_alpha aa) (aa_limit aa))
             else if aa_activation aa = PNone \<and> b = LlamafileBackend
             then Inr (given (if flt (Finite 0) (aa_alpha aa) then ''swiglu_oai'' else ''silu''))
             else if aa_activation aa = PNone then Inr (given ''silu'')
             else case aa_activation aa of
                    PStr s \<Rightarrow> Inr (given (lower s))
                  | _ \<Rightarrow> Inl (ValueError ''Unsupported MoE activation''))
      in rbind resolved (\<lambda>ac.
           if ac_activation ac \<in> {''silu'', ''swiglu_oai'', ''situ''} then Inr ac
           else Inl (ValueError ''Unsupported MoE activation'')))"

definition check_factory_native :: "string \<Rightarrow> 'r::linordered_idom act_config \<Rightarrow> unit result" where
  "check_factory_native method ac =
     (let act = ac_activation ac; beta = ac_situ_beta ac; linear = ac_situ_linear_beta ac;
          alpha = ac_alpha ac; limit = ac_limit ac in
      if method \<notin> set native_swiglu_methods \<and> (act = ''swiglu_oai'' \<or> \<not> feq limit (Finite 0))
      then Inl (ValueError ''this method bypasses the shared CPU activation path'')
      else if act = ''situ'' then
        (if method \<notin> set native_situ_methods then Inl (ValueError ''SiTU is unsupported for method'')
         else if (case beta of None \<Rightarrow> True | Some b \<Rightarrow> \<not> finite_positive b)
         then Inl (ValueError ''SiTU requires a finite positive situ_beta'')
         else if (case linear of None \<Rightarrow> False | Some l \<Rightarrow> \<not> finite_nonneg l)
         then Inl (ValueError ''situ_linear_beta must be finite and non-negative'')
         else if \<not> feq alpha (Finite 0) \<or> \<not> feq limit (Finite 0)
         then Inl (ValueError ''SiTU parameters must not be mixed'')
         else Inr ())
      else if beta \<noteq> None \<or> linear \<noteq> None then Inl (ValueError ''situ_beta requires situ'')
      else if act = ''swiglu_oai'' \<and> \<not> finite_positive alpha
      then Inl (ValueError ''SwiGLU-OAI requires a finite positive swiglu_alpha'')
      else if act = ''silu'' \<and> \<not> feq alpha (Finite 0)
      then Inl (ValueError ''silu cannot use swiglu_alpha'')
      else Inr ())"

definition check_factory_llamafile :: "'r::linordered_idom act_config \<Rightarrow> unit result" where
  "check_factory_llamafile ac =
     (let act = ac_activation ac; alpha = ac_alpha ac in
      if act = ''situ'' \<or> ac_situ_beta ac \<noteq> None \<or> ac_situ_linear_beta ac \<noteq> None
      then Inl (ValueError ''Llamafile MoE does not support SiTU'')
      else if act = ''swiglu_oai'' \<and> \<not> finite_positive alpha
      then Inl (ValueError ''Llamafile SwiGLU-OAI requires a finite positive swiglu_alpha'')
      else if act = ''silu'' \<and> \<not> feq alpha (Finite 0)
      then Inl (ValueError ''silu cannot use swiglu_alpha'')
      else Inr ())"

text \<open>
  The backend and the activation arguments its constructor is called with; \<open>None\<close> when it is
  called without any.
\<close>

definition create_inference_wrapper ::
  "string \<Rightarrow> 'r::linordered_idom act_args \<Rightarrow> (backend \<times> 'r act_config option) result" where
  "create_inference_wrapper method aa =
     rbind (backend_of_method method) (\<lambda>b.
     rbind (resolve_activation b method aa) (\<lambda>ac.
       case b of
         NativeBackend \<Rightarrow> rbind (check_factory_native method ac) (\<lambda>_. Inr (b, Some ac))
       | LlamafileBackend \<Rightarrow>
           rbind (check_factory_llamafile ac) (\<lambda>_.
             Inr (b, Some (ac\<lparr>ac_situ_beta := None, ac_situ_linear_beta := None\<rparr>)))
       | _ \<Rightarrow>
           if ac_activation ac \<noteq> ''silu'' \<or> ac_situ_beta ac \<noteq> None \<or> ac_situ_linear_beta ac \<noteq> None
           then Inl (ValueError ''activation is unsupported by backend'')
           else if \<not> feq (ac_limit ac) (Finite 0)
           then Inl (ValueError ''swiglu_limit is unsupported by method'')
           else Inr (b, None)))"

section \<open>\<open>KTMoEWrapper.__new__\<close>\<close>

text \<open>Which constructor is called: an inference backend, or the SFT wrapper.\<close>

datatype 'r constructor_call = CallInference backend "'r act_config option" | CallSft

definition kt_moe_wrapper_new ::
  "string \<Rightarrow> string \<Rightarrow> 'r::linordered_idom act_args \<Rightarrow> 'r constructor_call result" where
  "kt_moe_wrapper_new mode method aa =
     (if mode \<notin> {''inference'', ''sft''} then Inl (ValueError ''Unknown mode'')
      else if mode = ''inference'' then
        (if method \<notin> set inference_methods
         then Inl (ValueError ''Method not supported for inference mode'')
         else map_sum id (\<lambda>(b, ac). CallInference b ac) (create_inference_wrapper method aa))
      else if method \<notin> set sft_methods then Inl (ValueError ''Method not supported for SFT mode'')
      else if \<not> feq (aa_limit aa) (Finite 0)
      then Inl (ValueError ''swiglu_limit is not supported in sft'')
      else if aa_activation aa \<notin> {PNone, PStr ''silu''} \<or> aa_situ_beta aa \<noteq> None
              \<or> aa_situ_linear_beta aa \<noteq> None
      then Inl (ValueError ''custom inference activations are not supported in sft'')
      else Inr CallSft)"

section \<open>Base constructors\<close>

record base_wrapper =
  bw_wrapper :: wrapper
  bw_mask :: "bool list"
  bw_num_gpu_experts :: nat
  bw_cpu_infer :: cpuinfer

text \<open>\<open>gpu_experts_mask\<close> in a pinned tensor of \<open>num_experts\<close> entries; \<open>copy_\<close> broadcasts one entry.\<close>

definition init_gpu_mask :: "nat \<Rightarrow> bool list option \<Rightarrow> bool list result" where
  "init_gpu_mask num_experts gpu_experts_mask =
     (case gpu_experts_mask of
        None \<Rightarrow> Inr (replicate num_experts False)
      | Some m \<Rightarrow> if length m = num_experts then Inr m
                  else if length m = 1 then Inr (replicate num_experts (hd m))
                  else Inl (RuntimeError ''copy_ shape mismatch''))"

definition base_moe_init ::
  "dev_env \<Rightarrow> backend \<Rightarrow> int \<Rightarrow> nat \<Rightarrow> nat \<Rightarrow> int \<Rightarrow> int option \<Rightarrow> bool list option \<Rightarrow> int \<Rightarrow> int
     \<Rightarrow> int list option \<Rightarrow> (('h, 'f) host, base_wrapper) eop" where
  "base_moe_init env b layer n_experts n_per_tok chunk max_deferred gpu_mask threads pool_count numa ho =
     (case init_gpu_mask n_experts gpu_mask of
        Inl e \<Rightarrow> (Inl e, ho)
      | Inr m \<Rightarrow>
          (let w = \<lparr>layer_idx = layer, w_num_experts = int n_experts, num_experts_per_tok = n_per_tok,
                    chunked_prefill_size = chunk,
                    max_deferred_experts_per_token = (case max_deferred of None \<Rightarrow> 0 | Some d \<Rightarrow> d)\<rparr>;
               ho1 = ho\<lparr>ho_pending := dset (ho_pending ho) layer False\<rparr>;
               (r, ps) = get_cpu_infer env (class_of b) threads pool_count numa (ho_pool ho1);
               ho2 = ho1\<lparr>ho_pool := ps\<rparr>
           in case r of
                Inl e \<Rightarrow> (Inl e, ho2)
              | Inr inst \<Rightarrow>
                  (Inr \<lparr>bw_wrapper = w, bw_mask = m, bw_num_gpu_experts = length (filter id m),
                        bw_cpu_infer = inst\<rparr>, ho2)))"

text \<open>\<open>BaseSFTMoEWrapper.__init__\<close>: the pool is fetched before the arguments are checked.\<close>

definition base_sft_init ::
  "dev_env \<Rightarrow> int \<Rightarrow> int \<Rightarrow> int \<Rightarrow> int \<Rightarrow> int \<Rightarrow> int \<Rightarrow> int \<Rightarrow> int \<Rightarrow> 'r::linordered_idom pyfloat \<Rightarrow> 'r pyfloat
     \<Rightarrow> int \<Rightarrow> bool \<Rightarrow> sft_pool \<Rightarrow> grad_state \<Rightarrow> (pool_state, 'r sft) eop" where
  "base_sft_init env n_experts n_per_tok hidden inter_size threads pool_count chunk
     lora_rank lora_alpha lora_dropout depth full shared gs ps =
     (let (r, ps1) = get_cpu_infer env AMXSFTMoE threads pool_count None ps in
      (rbind r (\<lambda>_.
       rbind (validate_base_config n_experts hidden inter_size n_per_tok) (\<lambda>_.
       rbind (validate_sft_config lora_rank lora_alpha lora_dropout depth full) (\<lambda>_.
       Inr \<lparr>sw_weights_loaded = False, sw_lora_initialized = False, sw_skip_lora = False,
            sw_lora_rank = lora_rank, sw_hidden = hidden, sw_topk = n_per_tok, sw_chunk = chunk,
            sw_moe = None, sw_cache_depth = 0,
            sw_grads = init_authoritative_optimizer_grads (gs\<lparr>gs_enabled := False\<rparr>),
            sw_pool = shared, sw_pending = None, sw_async = None, sw_repack_pending = False,
            sw_log = []\<rparr>))), ps1))"

section \<open>Properties\<close>

lemma act_in: "(if P then Inr ac' else Inl e) = Inr ac \<Longrightarrow> P \<and> ac' = ac"
  by (simp split: if_splits)

text \<open>
  The factory and the constructor agree: whenever the factory accepts a native method with a
  clamp limit that is finite and not negative, the arguments it hands over pass every activation
  check of \<open>NativeMoEWrapper.__init__\<close>.
\<close>

theorem factory_activation_accepted:
  assumes "create_inference_wrapper method aa = Inr (NativeBackend, Some ac)"
    and "finite_nonneg (aa_limit aa)"
  shows "check_native_activation method ac = Inr ()"
proof -
  from assms(1) obtain b ac' where b: "resolve_activation b method aa = Inr ac'" and
    k: "(case b of
         NativeBackend \<Rightarrow> rbind (check_factory_native method ac') (\<lambda>_. Inr (b, Some ac'))
       | LlamafileBackend \<Rightarrow>
           rbind (check_factory_llamafile ac') (\<lambda>_.
             Inr (b, Some (ac'\<lparr>ac_situ_beta := None, ac_situ_linear_beta := None\<rparr>)))
       | _ \<Rightarrow>
           if ac_activation ac' \<noteq> ''silu'' \<or> ac_situ_beta ac' \<noteq> None \<or> ac_situ_linear_beta ac' \<noteq> None
           then Inl (ValueError ''activation is unsupported by backend'')
           else if \<not> feq (ac_limit ac') (Finite 0)
           then Inl (ValueError ''swiglu_limit is unsupported by method'')
           else Inr (b, None)) = Inr (NativeBackend, Some ac)"
    unfolding create_inference_wrapper_def rbind_eq_Inr by blast
  have r: "resolve_activation NativeBackend method aa = Inr ac"
    and c: "check_factory_native method ac = Inr ()"
    using b k by (cases b; auto split: if_splits)+
  have act: "ac_activation ac \<in> {''silu'', ''swiglu_oai'', ''situ''}"
    using r unfolding resolve_activation_def Let_def rbind_eq_Inr by (blast dest: act_in)
  have lim: "finite_nonneg (ac_limit ac)"
    using r assms(2)
    by (auto simp: resolve_activation_def resolve_legacy_activation_def Let_def finite_nonneg_def
        split: if_splits pyval.splits)
  have alpha: "finite_nonneg (ac_alpha ac)"
    using c act
    by (cases "ac_alpha ac")
       (auto simp: check_factory_native_def Let_def finite_nonneg_def finite_positive_def split: if_splits)
  show ?thesis
    using c act lim alpha
    by (auto simp: check_factory_native_def check_native_activation_def Let_def split: if_splits)
qed

definition sample_act :: "int act_args" where
  "sample_act = \<lparr>aa_activation = PNone, aa_situ_beta = None, aa_situ_linear_beta = None,
     aa_alpha = Finite 4, aa_limit = Finite 25\<rparr>"

theorem factory_activation_accepted_witness:
  "check_native_activation ''MXFP4'' \<lparr>ac_activation = ''situ'', ac_situ_beta = Some (Finite (4::int)),
     ac_situ_linear_beta = Some (Finite 25), ac_alpha = Finite 0, ac_limit = Finite 0\<rparr> = Inr ()"
proof -
  have "create_inference_wrapper ''MXFP4'' sample_act = Inr (NativeBackend,
      Some \<lparr>ac_activation = ''situ'', ac_situ_beta = Some (Finite 4),
        ac_situ_linear_beta = Some (Finite 25), ac_alpha = Finite 0, ac_limit = Finite 0\<rparr>)"
    by code_simp
  moreover have "finite_nonneg (aa_limit sample_act)" by code_simp
  ultimately show ?thesis by (rule factory_activation_accepted)
qed

text \<open>
  The factory does not fail closed on \<open>swiglu_alpha\<close>: the AMX and general backends and the SFT
  mode accept any value of it, NaN and infinities included, and construct a backend without it,
  while a non-zero \<open>swiglu_limit\<close> in the same call is refused.
\<close>

theorem swiglu_alpha_dropped:
  assumes "method \<in> {''AMXINT4'', ''AMXINT8'', ''MOE_INT4'', ''MOE_INT8''}"
    and "aa_activation aa = PNone" "aa_situ_beta aa = None" "aa_situ_linear_beta aa = None"
  shows "(if feq (aa_limit aa) (Finite 0)
          then (\<exists>b. kt_moe_wrapper_new ''inference'' method aa = Inr (CallInference b None)) \<and>
               kt_moe_wrapper_new ''sft'' ''AMXBF16_SFT'' aa = Inr CallSft
          else (\<exists>e. kt_moe_wrapper_new ''inference'' method aa = Inl e) \<and>
               (\<exists>e. kt_moe_wrapper_new ''sft'' ''AMXBF16_SFT'' aa = Inl e))"
proof -
  have m: "method \<in> set inference_methods"
    using assms(1) by (auto simp: inference_methods_def)
  have b: "backend_of_method method = Inr AMXBackend \<or> backend_of_method method = Inr GeneralBackend"
    using assms(1) by (elim insertE emptyE) (simp_all add: backend_of_method_def)
  have s: "''AMXBF16_SFT'' \<in> set sft_methods" by (simp add: sft_methods_def)
  show ?thesis
    using m b s assms(2-4)
    by (auto simp: kt_moe_wrapper_new_def create_inference_wrapper_def resolve_activation_def Let_def)
qed

theorem swiglu_alpha_dropped_witness:
  "kt_moe_wrapper_new ''sft'' ''AMXBF16_SFT'' (sample_act\<lparr>aa_alpha := PosInf, aa_limit := Finite 0\<rparr>) = Inr CallSft"
  using swiglu_alpha_dropped [of "''AMXINT4''" "sample_act\<lparr>aa_alpha := PosInf, aa_limit := Finite 0\<rparr>"]
  by (simp add: sample_act_def)

end
