(* ===== verification/SftConfig.thy ===== *)
theory SftConfig
  imports SftBackend
begin

text \<open>
  \<open>kt-kernel/python/sft/config.py\<close>: the SFT configuration. \<open>kt_config\<close> is the dataclass
  \<open>KTConfig\<close> with its fields at their annotated types; \<open>post_init\<close> is \<open>__post_init__\<close>, cut
  into the stages in which the code resolves and checks the fields. The process state
  (\<open>proc\<close>) is the environment, torch's thread count and the number of deprecation warnings. The
  machine (CPU affinity, the topology files under \<open>/sys\<close>) is the record \<open>host\<close>;
  \<open>json.loads\<close> and \<open>float\<close> on strings are the parameters \<open>loads\<close> and \<open>parse_float\<close>
  (\<open>None\<close> when they raise), and the finite floats are a linearly ordered ring.
\<close>

section \<open>The process and the machine\<close>

record proc =
  p_environ :: "(string, string) dict"
  p_torch_threads :: "int option"
  p_warnings :: nat

record host =
  h_affinity :: "nat list option"
  h_cpu_count :: "nat option"
  h_package_id :: "nat \<Rightarrow> string option"
  h_core_id :: "nat \<Rightarrow> string option"
  h_torch :: bool

definition getenv :: "proc \<Rightarrow> string \<Rightarrow> string option" where
  "getenv p key = dget (p_environ p) key"

definition env_int :: "proc \<Rightarrow> string \<Rightarrow> int option \<Rightarrow> int option result" where
  "env_int p key dflt =
     (case getenv p key of
        None \<Rightarrow> Inr dflt
      | Some value \<Rightarrow>
          (if value = [] then Inr dflt
           else case parse_int value of
                  None \<Rightarrow> Inl (ValueError ''invalid literal for int()'')
                | Some i \<Rightarrow> Inr (Some i)))"

definition env_float ::
  "(string \<Rightarrow> 'r pyfloat option) \<Rightarrow> proc \<Rightarrow> string \<Rightarrow> 'r pyfloat option \<Rightarrow> 'r pyfloat option result" where
  "env_float parse_float p key dflt =
     (case getenv p key of
        None \<Rightarrow> Inr dflt
      | Some value \<Rightarrow>
          (if value = [] then Inr dflt
           else case parse_float value of
                  None \<Rightarrow> Inl (ValueError ''could not convert string to float'')
                | Some f \<Rightarrow> Inr (Some f)))"

definition env_bool :: "proc \<Rightarrow> string \<Rightarrow> bool \<Rightarrow> bool" where
  "env_bool p key dflt =
     (case getenv p key of
        None \<Rightarrow> dflt
      | Some value \<Rightarrow>
          (if value = [] then dflt else lower value \<in> {''1'', ''true'', ''yes''}))"

section \<open>OpenMP threads\<close>

definition available_cpu_ids :: "host \<Rightarrow> nat list" where
  "available_cpu_ids h =
     (case h_affinity h of
        Some ids \<Rightarrow> remdups ids
      | None \<Rightarrow> [0..<(case h_cpu_count h of Some n \<Rightarrow> (if n = 0 then 1 else n) | None \<Rightarrow> 1)])"

definition read_cpu_topology :: "host \<Rightarrow> nat \<Rightarrow> (int \<times> int) option" where
  "read_cpu_topology h cpu_id =
     (case Option.bind (h_package_id h cpu_id) parse_int of
        None \<Rightarrow> None
      | Some package_id \<Rightarrow>
          (case Option.bind (h_core_id h cpu_id) parse_int of
             None \<Rightarrow> None
           | Some core_id \<Rightarrow> Some (package_id, core_id)))"

definition detect_physical_cpu_count :: "host \<Rightarrow> int" where
  "detect_physical_cpu_count h =
     (let cpu_ids = available_cpu_ids h;
          physical_cores = remdups (List.map_filter (read_cpu_topology h) cpu_ids) in
      max 1 (int (if physical_cores \<noteq> [] then length physical_cores else length cpu_ids)))"

definition choose_omp_threads :: "host \<Rightarrow> proc \<Rightarrow> int result" where
  "choose_omp_threads h p =
     rbind (env_int p ''ACCELERATE_KT_OMP_NUM_THREADS'' None) (\<lambda>kt_override.
     rbind (env_int p ''OMP_NUM_THREADS'' None) (\<lambda>current_omp.
     case kt_override of
       Some n \<Rightarrow> Inr n
     | None \<Rightarrow>
         (if (case current_omp of Some n \<Rightarrow> n > 1 | None \<Rightarrow> False) then Inr (the current_omp)
          else rbind (env_int p ''WORLD_SIZE'' (Some 1)) (\<lambda>world.
               if the world > 1 then
                 rbind (env_int p ''RANK'' (Some 0)) (\<lambda>rank.
                 if the rank \<noteq> 0 then Inr 1 else Inr (detect_physical_cpu_count h))
               else Inr (detect_physical_cpu_count h)))))"

definition set_omp :: "host \<Rightarrow> int \<Rightarrow> proc \<Rightarrow> proc" where
  "set_omp h num_threads p =
     p\<lparr>p_environ := dset (p_environ p) ''OMP_NUM_THREADS'' (str_of_int num_threads),
       p_torch_threads := (if h_torch h then Some num_threads else p_torch_threads p)\<rparr>"

definition configure_omp_threads :: "host \<Rightarrow> (proc, int) eop" where
  "configure_omp_threads h p =
     (case choose_omp_threads h p of
        Inl e \<Rightarrow> (Inl e, p)
      | Inr num_threads \<Rightarrow>
          (if num_threads < 1 then (Inl (ValueError ''OpenMP thread count must be positive''), p)
           else (Inr num_threads, set_omp h num_threads p)))"

section \<open>Activation policy\<close>

record kt_activation_policy =
  pol_cpu :: string
  pol_gpu :: string

definition policy_post_init :: "kt_activation_policy \<Rightarrow> kt_activation_policy result" where
  "policy_post_init pol =
     (if pol_cpu pol \<notin> {''retain'', ''recompute''} then Inl (ValueError ''activation_policy.cpu'')
      else if pol_gpu pol \<notin> {''retain'', ''recompute''} then Inl (ValueError ''activation_policy.gpu'')
      else if pol_cpu pol = ''recompute'' \<and> pol_gpu pol = ''retain''
      then Inl (NotImplementedError ''cpu=recompute, gpu=retain is not implemented'')
      else Inr pol)"

text \<open>
  A value decoded from JSON. A field of a policy mapping that is not a string is either an
  unhashable value, for which the set membership test raises \<open>TypeError\<close>, or not a valid name.
\<close>

datatype json =
    JNull | JBool bool | JNumber string | JString string | JArray "json list"
  | JObject "(string \<times> json) list"

definition policy_field :: "string \<Rightarrow> json \<Rightarrow> string result" where
  "policy_field tag v =
     (case v of
        JString s \<Rightarrow> (if s \<in> {''retain'', ''recompute''} then Inr s else Inl (ValueError tag))
      | JArray _ \<Rightarrow> Inl (TypeError ''unhashable type'')
      | JObject _ \<Rightarrow> Inl (TypeError ''unhashable type'')
      | _ \<Rightarrow> Inl (ValueError tag))"

definition policy_from_mapping :: "(string, json) dict \<Rightarrow> kt_activation_policy result" where
  "policy_from_mapping d =
     (if set (dkeys d) \<noteq> {''cpu'', ''gpu''}
      then Inl (ValueError ''kt_activation_policy must contain exactly cpu and gpu'')
      else rbind (policy_field ''activation_policy.cpu'' (the (dget d ''cpu''))) (\<lambda>cpu.
           rbind (policy_field ''activation_policy.gpu'' (the (dget d ''gpu''))) (\<lambda>gpu.
           policy_post_init \<lparr>pol_cpu = cpu, pol_gpu = gpu\<rparr>)))"

text \<open>What the field \<open>kt_activation_policy\<close> holds: a policy, a mapping or another object.\<close>

datatype policy_value =
    Policy kt_activation_policy | PolicyMapping "(string, json) dict" | PolicyOther

definition policy_from_value :: "policy_value \<Rightarrow> kt_activation_policy result" where
  "policy_from_value v =
     (case v of
        Policy pol \<Rightarrow> Inr pol
      | PolicyMapping d \<Rightarrow> policy_from_mapping d
      | PolicyOther \<Rightarrow> Inl (TypeError ''kt_activation_policy must be a policy or a mapping''))"

definition legacy_activation_policy_from_env :: "string \<Rightarrow> (proc, kt_activation_policy) eop" where
  "legacy_activation_policy_from_env v =
     (let normalized = lower (strip v);
          make = (\<lambda>cpu. ebind (eupd (\<lambda>p. p\<lparr>p_warnings := p_warnings p + 1\<rparr>))
                   (\<lambda>_. elift (policy_post_init \<lparr>pol_cpu = cpu, pol_gpu = ''recompute''\<rparr>))) in
      if normalized \<in> {''1'', ''true'', ''yes'', ''on''} then make ''retain''
      else if normalized \<in> {''0'', ''false'', ''no'', ''off''} then make ''recompute''
      else eraise (ValueError ''must be a boolean value''))"

definition activation_policy_from_env :: "(string \<Rightarrow> json option) \<Rightarrow> string \<Rightarrow> kt_activation_policy result" where
  "activation_policy_from_env loads v =
     (case loads v of
        None \<Rightarrow> Inl (ValueError ''must be a JSON object'')
      | Some (JObject d) \<Rightarrow> policy_from_value (PolicyMapping d)
      | Some _ \<Rightarrow> policy_from_value PolicyOther)"

section \<open>The configuration\<close>

record 'r kt_config =
  kt_backend :: "string option"
  kt_num_threads :: "int option"
  kt_tp_enabled :: "bool option"
  kt_threadpool_count :: "int option"
  kt_weight_path :: "string option"
  kt_non_expert_weight_path :: "string option"
  kt_expert_weight_format :: "string option"
  kt_weight_lifecycle :: "string option"
  kt_expert_checkpoint_path :: "string option"
  kt_num_gpu_experts :: "int option"
  kt_skip_expert_loading :: "bool option"
  kt_share_backward_bb :: "bool option"
  kt_share_cache_pool :: "bool option"
  kt_force_fused_expert_lora :: "bool option"
  kt_max_cache_depth :: "int option"
  kt_model_max_length :: "int option"
  kt_activation_policy :: "policy_value option"
  kt_lora_rank :: "int option"
  kt_lora_alpha :: "'r pyfloat option"
  kt_lora_dropout :: "'r pyfloat option"
  kt_train_mode :: "string option"
  kt_full_weight_grad :: "bool option"
  kt_use_lora_experts :: "bool option"
  kt_lora_expert_num :: "int option"
  kt_lora_expert_intermediate_size :: "int option"

text \<open>\<open>x if x is not None else y\<close>, and Python's truth value of an optional field.\<close>

definition orelse :: "'a option \<Rightarrow> 'a option \<Rightarrow> 'a option" where
  "orelse x y = (case x of Some v \<Rightarrow> Some v | None \<Rightarrow> y)"

definition env_int_or :: "proc \<Rightarrow> int option \<Rightarrow> string \<Rightarrow> int option \<Rightarrow> int option result" where
  "env_int_or p x key dflt = (case x of Some v \<Rightarrow> Inr (Some v) | None \<Rightarrow> env_int p key dflt)"

definition env_bool_or :: "proc \<Rightarrow> bool option \<Rightarrow> string \<Rightarrow> bool \<Rightarrow> bool option" where
  "env_bool_or p x key dflt = (case x of Some v \<Rightarrow> Some v | None \<Rightarrow> Some (env_bool p key dflt))"

definition nonempty :: "string option \<Rightarrow> bool" where
  "nonempty x = (x \<noteq> None \<and> x \<noteq> Some [])"

definition int_or0 :: "int option \<Rightarrow> int" where
  "int_or0 x = (case x of Some i \<Rightarrow> i | None \<Rightarrow> 0)"

definition truth :: "bool option \<Rightarrow> bool" where
  "truth x = (x = Some True)"

definition default_config :: "'r kt_config" where
  "default_config = \<lparr>kt_backend = None, kt_num_threads = None, kt_tp_enabled = None,
     kt_threadpool_count = None, kt_weight_path = None, kt_non_expert_weight_path = None,
     kt_expert_weight_format = None, kt_weight_lifecycle = None, kt_expert_checkpoint_path = None,
     kt_num_gpu_experts = None, kt_skip_expert_loading = None, kt_share_backward_bb = None,
     kt_share_cache_pool = None, kt_force_fused_expert_lora = None, kt_max_cache_depth = None,
     kt_model_max_length = None, kt_activation_policy = None, kt_lora_rank = None,
     kt_lora_alpha = None, kt_lora_dropout = None, kt_train_mode = None,
     kt_full_weight_grad = None, kt_use_lora_experts = None, kt_lora_expert_num = None,
     kt_lora_expert_intermediate_size = None\<rparr>"

section \<open>Resolution and checks\<close>

definition resolve_format :: "proc \<Rightarrow> 'r kt_config \<Rightarrow> 'r kt_config result" where
  "resolve_format p c =
     (let fmt = map_option (\<lambda>s. lower (strip s))
                  (orelse (kt_expert_weight_format c) (getenv p ''ACCELERATE_KT_EXPERT_WEIGHT_FORMAT'')) in
      if fmt \<in> {None, Some ''bf16'', Some ''int8'', Some ''fp8'', Some ''rawint4''}
      then Inr (c\<lparr>kt_expert_weight_format := fmt\<rparr>)
      else Inl (ValueError ''kt_expert_weight_format''))"

definition resolve_lifecycle :: "proc \<Rightarrow> 'r kt_config \<Rightarrow> 'r kt_config result" where
  "resolve_lifecycle p c =
     (let lifecycle = lower (strip (case kt_weight_lifecycle c of
            Some s \<Rightarrow> s
          | None \<Rightarrow> (case getenv p ''ACCELERATE_KT_WEIGHT_LIFECYCLE'' of
                      Some s \<Rightarrow> s | None \<Rightarrow> ''persistent''))) in
      if lifecycle \<in> {''persistent'', ''ephemeral''}
      then Inr (c\<lparr>kt_weight_lifecycle := Some lifecycle\<rparr>)
      else Inl (ValueError ''kt_weight_lifecycle''))"

definition set_explicitly :: "string option \<Rightarrow> bool" where
  "set_explicitly v = (case v of Some s \<Rightarrow> strip s \<noteq> [] | None \<Rightarrow> False)"

definition policy_env :: string where
  "policy_env = ''ACCELERATE_KT_ACTIVATION_POLICY''"

definition legacy_env :: string where
  "legacy_env = ''KT_REUSE_CHECKPOINT_FORWARD''"

definition resolve_policy ::
  "(string \<Rightarrow> json option) \<Rightarrow> policy_value option \<Rightarrow> (proc, kt_activation_policy) eop" where
  "resolve_policy loads value p =
     (let forwarded = getenv p policy_env; legacy = getenv p legacy_env in
      (case value of
         Some v \<Rightarrow>
           (if set_explicitly forwarded then eraise (ValueError ''kt_activation_policy conflicts with the environment'')
            else if set_explicitly legacy then eraise (ValueError ''kt_activation_policy conflicts with the legacy variable'')
            else elift (policy_from_value v))
       | None \<Rightarrow>
           (if set_explicitly forwarded \<and> set_explicitly legacy
            then eraise (ValueError ''the environment conflicts with the legacy variable'')
            else if set_explicitly forwarded then elift (activation_policy_from_env loads (the forwarded))
            else if set_explicitly legacy then legacy_activation_policy_from_env (the legacy)
            else ereturn \<lparr>pol_cpu = ''recompute'', pol_gpu = ''recompute''\<rparr>)) p)"

definition known_sft_backends :: "string set" where
  "known_sft_backends = {''auto'', ''int8'', ''fp8'', ''amxbf16'', ''amxint8'', ''amxfp8'', ''amxint4'',
     ''rawint4'', ''amxint4_kgroup'', ''amxbf16_skiplora'', ''amxint8_skiplora'', ''amxint4_skiplora''}"

definition format_of_backend :: "string \<Rightarrow> string option" where
  "format_of_backend b =
     (if b = ''int8'' then Some ''int8'' else if b = ''fp8'' then Some ''fp8''
      else if b = ''rawint4'' then Some ''rawint4''
      else if b = ''amxbf16'' then Some ''bf16'' else None)"

definition backend_of_format :: "string \<Rightarrow> string" where
  "backend_of_format f = (if f = ''bf16'' then ''amxbf16'' else f)"

definition default_backend :: "proc \<Rightarrow> 'r kt_config \<Rightarrow> string" where
  "default_backend p c =
     (case kt_backend c of
        Some b \<Rightarrow> b
      | None \<Rightarrow>
          (if nonempty (getenv p ''ACCELERATE_KT_BACKEND'') then the (getenv p ''ACCELERATE_KT_BACKEND'')
           else if kt_expert_weight_format c \<in> {Some ''int8'', Some ''fp8'', Some ''rawint4''} then ''auto''
           else ''AMXBF16''))"

definition resolve_backend :: "'r kt_config \<Rightarrow> (proc, 'r kt_config) eop" where
  "resolve_backend c p =
     (let b = default_backend p c in
      if lower b \<notin> known_sft_backends then (Inl (ValueError ''unknown kt_backend''), p)
      else (let (backend, warned) = normalize_sft_backend b (kt_expert_weight_format c);
                p' = (if warned then p\<lparr>p_warnings := p_warnings p + 1\<rparr> else p);
                fmt = orelse (kt_expert_weight_format c) (format_of_backend (lower backend)) in
            if (case fmt of Some f \<Rightarrow> lower backend \<noteq> backend_of_format f | None \<Rightarrow> False)
            then (Inl (ValueError ''kt_expert_weight_format conflicts with the backend''), p')
            else (Inr (c\<lparr>kt_backend := Some backend, kt_expert_weight_format := fmt\<rparr>), p')))"

text \<open>The defaults before and after the LoRA block; each field is only read from the environment when unset.\<close>

definition fill_runtime_fields :: "proc \<Rightarrow> 'r kt_config \<Rightarrow> 'r kt_config result" where
  "fill_runtime_fields p c =
     rbind (env_int_or p (kt_num_threads c) ''ACCELERATE_KT_NUM_THREADS'' (Some 1)) (\<lambda>num_threads.
     rbind (env_int_or p (kt_threadpool_count c) ''ACCELERATE_KT_THREADPOOL_COUNT'' (Some 1)) (\<lambda>pools.
     rbind (env_int_or p (kt_num_gpu_experts c) ''ACCELERATE_KT_NUM_GPU_EXPERTS'' (Some 0)) (\<lambda>gpu_experts.
     rbind (env_int_or p (kt_max_cache_depth c) ''ACCELERATE_KT_MAX_CACHE_DEPTH'' (Some 2)) (\<lambda>depth.
     Inr (c\<lparr>kt_num_threads := num_threads,
            kt_tp_enabled := env_bool_or p (kt_tp_enabled c) ''ACCELERATE_KT_TP_ENABLED'' False,
            kt_threadpool_count := pools,
            kt_weight_path := orelse (kt_weight_path c) (getenv p ''ACCELERATE_KT_WEIGHT_PATH''),
            kt_non_expert_weight_path :=
              orelse (kt_non_expert_weight_path c) (getenv p ''ACCELERATE_KT_NON_EXPERT_WEIGHT_PATH''),
            kt_expert_checkpoint_path :=
              orelse (kt_expert_checkpoint_path c) (getenv p ''ACCELERATE_KT_EXPERT_CHECKPOINT_PATH''),
            kt_num_gpu_experts := gpu_experts,
            kt_max_cache_depth := depth,
            kt_share_backward_bb := env_bool_or p (kt_share_backward_bb c)
              ''ACCELERATE_KT_SHARE_BACKWARD_BB'' (kt_expert_weight_format c \<noteq> Some ''rawint4''),
            kt_share_cache_pool := orelse (kt_share_cache_pool c) (Some False),
            kt_force_fused_expert_lora := env_bool_or p (kt_force_fused_expert_lora c)
              ''ACCELERATE_KT_FORCE_FUSED_EXPERT_LORA'' False,
            kt_use_lora_experts := env_bool_or p (kt_use_lora_experts c)
              ''ACCELERATE_KT_USE_LORA_EXPERTS'' False\<rparr>)))))"

definition env_float_or ::
  "(string \<Rightarrow> 'r pyfloat option) \<Rightarrow> proc \<Rightarrow> 'r pyfloat option \<Rightarrow> string \<Rightarrow> 'r pyfloat option
     \<Rightarrow> 'r pyfloat option result" where
  "env_float_or parse_float p x key dflt =
     (case x of Some v \<Rightarrow> Inr (Some v) | None \<Rightarrow> env_float parse_float p key dflt)"

definition fill_lora_fields ::
  "(string \<Rightarrow> 'r::linordered_idom pyfloat option) \<Rightarrow> proc \<Rightarrow> 'r kt_config \<Rightarrow> 'r kt_config result" where
  "fill_lora_fields parse_float p c =
     rbind (env_int_or p (kt_lora_expert_num c) ''ACCELERATE_KT_LORA_EXPERT_NUM'' None) (\<lambda>expert_num.
     rbind (env_int_or p (kt_lora_expert_intermediate_size c)
              ''ACCELERATE_KT_LORA_EXPERT_INTERMEDIATE_SIZE'' None) (\<lambda>expert_size.
     rbind (env_int_or p (kt_lora_rank c) ''ACCELERATE_KT_LORA_RANK'' None) (\<lambda>rank.
     rbind (env_float_or parse_float p (kt_lora_alpha c) ''ACCELERATE_KT_LORA_ALPHA'' None) (\<lambda>alpha.
     rbind (env_float_or parse_float p (kt_lora_dropout c) ''ACCELERATE_KT_LORA_DROPOUT''
              (Some (Finite 0))) (\<lambda>dropout.
     if \<not> (fle (Finite 0) (the dropout) \<and> flt (the dropout) (Finite 1))
     then Inl (ValueError ''kt_lora_dropout must be in [0, 1)'')
     else Inr (c\<lparr>kt_lora_expert_num := expert_num,
                 kt_lora_expert_intermediate_size := expert_size,
                 kt_lora_rank := rank,
                 kt_lora_alpha := orelse alpha (map_option (\<lambda>r. Finite (of_int (r * 2))) rank),
                 kt_lora_dropout := dropout\<rparr>))))))"

definition fill_mode_fields :: "proc \<Rightarrow> 'r kt_config \<Rightarrow> 'r kt_config result" where
  "fill_mode_fields p c =
     (let mode = (case kt_train_mode c of
                    Some m \<Rightarrow> m
                  | None \<Rightarrow> (case getenv p ''ACCELERATE_KT_TRAIN_MODE'' of Some m \<Rightarrow> m | None \<Rightarrow> ''lora'')) in
      rbind (env_int_or p (kt_model_max_length c) ''ACCELERATE_KT_MODEL_MAX_LENGTH'' None) (\<lambda>max_length.
      Inr (c\<lparr>kt_train_mode := Some mode,
             kt_full_weight_grad := orelse (kt_full_weight_grad c) (Some (mode \<in> {''full'', ''hybrid''})),
             kt_model_max_length := max_length,
             kt_skip_expert_loading :=
               orelse (kt_skip_expert_loading c)
                 (if dmem (p_environ p) ''ACCELERATE_KT_SKIP_EXPERT_LOADING''
                  then Some (env_bool p ''ACCELERATE_KT_SKIP_EXPERT_LOADING'' True) else None)\<rparr>)))"

text \<open>The constraints of the quantised formats, in the order of the code.\<close>

definition lora_only :: "'r kt_config \<Rightarrow> bool" where
  "lora_only c = (kt_train_mode c = Some ''lora'' \<and> \<not> truth (kt_full_weight_grad c))"

definition uses_backend :: "'r kt_config \<Rightarrow> string \<Rightarrow> bool" where
  "uses_backend c name = (map_option lower (kt_backend c) = Some name)"

definition check_int8 :: "'r kt_config \<Rightarrow> unit result" where
  "check_int8 c =
     rbind (require (uses_backend c ''int8'') (ValueError ''INT8 backend'')) (\<lambda>_.
     rbind (require (lora_only c) (ValueError ''INT8 LoRA only'')) (\<lambda>_.
     rbind (require (int_or0 (kt_num_gpu_experts c) = 0) (ValueError ''INT8 kt_num_gpu_experts'')) (\<lambda>_.
     rbind (require (\<not> truth (kt_use_lora_experts c)) (ValueError ''INT8 GPU LoRA experts'')) (\<lambda>_.
     rbind (require (truth (kt_share_backward_bb c)) (ValueError ''INT8 kt_share_backward_bb'')) (\<lambda>_.
     rbind (require (\<not> nonempty (kt_expert_checkpoint_path c)) (ValueError ''INT8 kt_expert_checkpoint_path'')) (\<lambda>_.
     require (nonempty (kt_weight_path c)) (ValueError ''INT8 kt_weight_path'')))))))"

definition check_fp8 :: "'r kt_config \<Rightarrow> unit result" where
  "check_fp8 c =
     rbind (require (uses_backend c ''fp8'') (ValueError ''FP8 backend'')) (\<lambda>_.
     rbind (require (lora_only c) (ValueError ''FP8 LoRA only'')) (\<lambda>_.
     rbind (require (int_or0 (kt_lora_rank c) > 0) (ValueError ''FP8 kt_lora_rank'')) (\<lambda>_.
     rbind (require (int_or0 (kt_num_gpu_experts c) = 0) (ValueError ''FP8 kt_num_gpu_experts'')) (\<lambda>_.
     rbind (require (\<not> truth (kt_use_lora_experts c)) (ValueError ''FP8 GPU LoRA experts'')) (\<lambda>_.
     rbind (require (truth (kt_share_backward_bb c)) (ValueError ''FP8 kt_share_backward_bb'')) (\<lambda>_.
     require (kt_weight_lifecycle c = Some ''persistent'') (ValueError ''FP8 kt_weight_lifecycle'')))))))"

definition effective_threadpool_count :: "'r kt_config \<Rightarrow> int" where
  "effective_threadpool_count c =
     (if truth (kt_tp_enabled c)
      then (if int_or0 (kt_threadpool_count c) = 0 then 1 else int_or0 (kt_threadpool_count c)) else 1)"

definition check_rawint4 :: "kt_activation_policy \<Rightarrow> 'r::linordered_idom kt_config \<Rightarrow> unit result" where
  "check_rawint4 pol c =
     rbind (require (uses_backend c ''rawint4'') (ValueError ''RAWINT4 backend'')) (\<lambda>_.
     rbind (require (lora_only c) (ValueError ''RAWINT4 LoRA only'')) (\<lambda>_.
     rbind (require (int_or0 (kt_lora_rank c) = 8) (ValueError ''RAWINT4 kt_lora_rank'')) (\<lambda>_.
     rbind (require (feq (case kt_lora_dropout c of Some d \<Rightarrow> d | None \<Rightarrow> Finite 0) (Finite 0))
              (ValueError ''RAWINT4 kt_lora_dropout'')) (\<lambda>_.
     rbind (require (effective_threadpool_count c \<in> {1, 2}) (ValueError ''RAWINT4 TP1/TP2'')) (\<lambda>_.
     rbind (require (int_or0 (kt_num_gpu_experts c) = 0) (ValueError ''RAWINT4 kt_num_gpu_experts'')) (\<lambda>_.
     rbind (require (\<not> truth (kt_use_lora_experts c)) (ValueError ''RAWINT4 GPU LoRA experts'')) (\<lambda>_.
     rbind (require (\<not> truth (kt_share_backward_bb c)) (ValueError ''RAWINT4 kt_share_backward_bb'')) (\<lambda>_.
     rbind (require (truth (kt_force_fused_expert_lora c)) (ValueError ''RAWINT4 kt_force_fused_expert_lora'')) (\<lambda>_.
     rbind (require (\<not> nonempty (kt_expert_checkpoint_path c)) (ValueError ''RAWINT4 kt_expert_checkpoint_path'')) (\<lambda>_.
     rbind (require (kt_weight_lifecycle c = Some ''persistent'') (ValueError ''RAWINT4 kt_weight_lifecycle'')) (\<lambda>_.
     require (\<not> (pol_cpu pol = ''retain'' \<and> pol_gpu pol = ''recompute''))
       (ValueError ''RAWINT4 checkpoint-forward reuse''))))))))))))"

definition check_config :: "kt_activation_policy \<Rightarrow> 'r::linordered_idom kt_config \<Rightarrow> unit result" where
  "check_config pol c =
     rbind (require (\<not> nonempty (kt_non_expert_weight_path c) \<or> kt_expert_weight_format c = Some ''int8'')
              (ValueError ''kt_non_expert_weight_path'')) (\<lambda>_.
     rbind (if kt_expert_weight_format c = Some ''int8'' then check_int8 c else Inr ()) (\<lambda>_.
     rbind (if kt_expert_weight_format c = Some ''fp8'' then check_fp8 c else Inr ()) (\<lambda>_.
     rbind (if kt_expert_weight_format c = Some ''rawint4'' then check_rawint4 pol c else Inr ()) (\<lambda>_.
     require (kt_weight_lifecycle c \<noteq> Some ''ephemeral'' \<or> kt_expert_weight_format c = Some ''int8'')
       (ValueError ''kt_weight_lifecycle=ephemeral'')))))"

definition post_init ::
  "host \<Rightarrow> (string \<Rightarrow> json option) \<Rightarrow> (string \<Rightarrow> 'r::linordered_idom pyfloat option) \<Rightarrow> 'r kt_config
     \<Rightarrow> (proc, 'r kt_config) eop" where
  "post_init h loads parse_float c0 =
     ebind (configure_omp_threads h) (\<lambda>_.
     ebind (\<lambda>p. elift (resolve_format p c0) p) (\<lambda>c1.
     ebind (\<lambda>p. elift (resolve_lifecycle p c1) p) (\<lambda>c2.
     ebind (resolve_policy loads (kt_activation_policy c2)) (\<lambda>pol.
     ebind (resolve_backend (c2\<lparr>kt_activation_policy := Some (Policy pol)\<rparr>)) (\<lambda>c3.
     ebind (\<lambda>p. elift (fill_runtime_fields p c3) p) (\<lambda>c4.
     ebind (\<lambda>p. elift (fill_lora_fields parse_float p c4) p) (\<lambda>c5.
     ebind (\<lambda>p. elift (fill_mode_fields p c5) p) (\<lambda>c6.
     ebind (elift (check_config pol c6)) (\<lambda>_.
     ereturn c6)))))))))"

section \<open>Mappings of fields\<close>

text \<open>\<open>_validated_mapping\<close>: a key is a string or another object (\<open>None\<close>).\<close>

definition field_names :: "string list" where
  "field_names = [''kt_backend'', ''kt_num_threads'', ''kt_tp_enabled'', ''kt_threadpool_count'',
     ''kt_weight_path'', ''kt_non_expert_weight_path'', ''kt_expert_weight_format'',
     ''kt_weight_lifecycle'', ''kt_expert_checkpoint_path'', ''kt_num_gpu_experts'',
     ''kt_skip_expert_loading'', ''kt_share_backward_bb'', ''kt_share_cache_pool'',
     ''kt_force_fused_expert_lora'', ''kt_max_cache_depth'', ''kt_model_max_length'',
     ''kt_activation_policy'', ''kt_lora_rank'', ''kt_lora_alpha'', ''kt_lora_dropout'',
     ''kt_train_mode'', ''kt_full_weight_grad'', ''kt_use_lora_experts'', ''kt_lora_expert_num'',
     ''kt_lora_expert_intermediate_size'', ''kt_checkpoint_files'', ''kt_sharded_metadata'',
     ''kt_wrap_fn'', ''kt_wrap_kwargs'']"

definition validated_mapping :: "(string option, pyval) dict \<Rightarrow> (string, pyval) dict result" where
  "validated_mapping obj =
     (if None \<in> set (dkeys obj) then Inl (TypeError ''KTConfig field names must be strings'')
      else (let payload = map (\<lambda>(k, v). (the k, v)) obj in
            if (case dget payload ''enabled'' of
                  Some v \<Rightarrow> (case v of PNone \<Rightarrow> False | PBool _ \<Rightarrow> False | _ \<Rightarrow> True) | None \<Rightarrow> False)
            then Inl (TypeError ''KT framework field enabled must be a bool or None'')
            else (let rest = ddel payload ''enabled'' in
                  if set (dkeys rest) \<subseteq> set field_names then Inr rest
                  else Inl (TypeError ''Unknown KTConfig fields''))))"

section \<open>Properties of the thread configuration\<close>

lemma dset_same: "dget d k = Some v \<Longrightarrow> dset d k v = d"
  by (induction d) (auto split: if_splits)

lemma getenv_set_omp:
  "getenv (set_omp h n p) key = (if key = ''OMP_NUM_THREADS'' then Some (str_of_int n) else getenv p key)"
  by (simp add: getenv_def set_omp_def)

lemma env_int_cong: "getenv q key = getenv p key \<Longrightarrow> env_int q key d = env_int p key d"
  by (simp add: env_int_def)

lemma env_int_set_omp:
  "env_int (set_omp h n p) key d =
     (if key = ''OMP_NUM_THREADS'' then Inr (Some n) else env_int p key d)"
  by (simp add: env_int_def getenv_set_omp str_of_int_nonempty parse_str_of_int)

lemma choose_omp_again: 
  assumes "choose_omp_threads h p = Inr n" "n \<ge> 1"
  shows "choose_omp_threads h (set_omp h n p) = Inr n"
  using assms
  by (auto simp: choose_omp_threads_def env_int_set_omp split: option.splits if_splits)

text \<open>
  Configuring OpenMP returns at least one thread, leaves the count in \<open>OMP_NUM_THREADS\<close> in a
  form that parses back to it (and in torch, when present), and is stable: configuring again in
  the resulting environment chooses the same count and changes nothing, on every rank.
\<close>

theorem omp_configuration_stable:
  assumes "configure_omp_threads h p = (Inr n, p')"
  shows "n \<ge> 1 \<and> Option.bind (getenv p' ''OMP_NUM_THREADS'') parse_int = Some n \<and>
    (h_torch h \<longrightarrow> p_torch_threads p' = Some n) \<and>
    configure_omp_threads h p' = (Inr n, p')"
proof -
  have n: "choose_omp_threads h p = Inr n" "n \<ge> 1" and p': "p' = set_omp h n p"
    using assms by (auto simp: configure_omp_threads_def split: sum.splits if_splits)
  have "set_omp h n p' = p'"
    by (simp add: p' set_omp_def dset_same)
  with n choose_omp_again [OF n] show ?thesis
    by (simp add: configure_omp_threads_def p' getenv_set_omp parse_str_of_int) (simp add: set_omp_def)
qed

definition sample_host :: host where
  "sample_host = \<lparr>h_affinity = Some [0, 1, 2, 3], h_cpu_count = Some 8,
     h_package_id = (\<lambda>_. Some ''0''), h_core_id = (\<lambda>cpu. Some (digits (cpu div 2))), h_torch = True\<rparr>"

definition sample_proc :: "(string, string) dict \<Rightarrow> proc" where
  "sample_proc env = \<lparr>p_environ = env, p_torch_threads = None, p_warnings = 0\<rparr>"

theorem omp_configuration_stable_witness:
  "fst (configure_omp_threads sample_host (sample_proc [(''OMP_NUM_THREADS'', ''1'')])) = Inr 2 \<and>
   fst (configure_omp_threads sample_host
     (snd (configure_omp_threads sample_host (sample_proc [(''OMP_NUM_THREADS'', ''1'')])))) = Inr 2"
proof -
  have r: "fst (configure_omp_threads sample_host (sample_proc [(''OMP_NUM_THREADS'', ''1'')])) = Inr 2"
    by code_simp
  then show ?thesis
    using omp_configuration_stable [of sample_host "sample_proc [(''OMP_NUM_THREADS'', ''1'')]" 2]
    by (metis prod.collapse fst_conv)
qed

section \<open>What the stages establish\<close>

text \<open>
  What each stage establishes, and that a configuration with these properties passes the stage
  unchanged in any process with the same environment.
\<close>

definition format_settled :: "proc \<Rightarrow> 'r kt_config \<Rightarrow> bool" where
  "format_settled p c =
     (case kt_expert_weight_format c of
        None \<Rightarrow> getenv p ''ACCELERATE_KT_EXPERT_WEIGHT_FORMAT'' = None
      | Some f \<Rightarrow> f \<in> {''bf16'', ''int8'', ''fp8'', ''rawint4''})"

definition lifecycle_settled :: "'r kt_config \<Rightarrow> bool" where
  "lifecycle_settled c = (kt_weight_lifecycle c \<in> {Some ''persistent'', Some ''ephemeral''})"

definition backend_settled :: "'r kt_config \<Rightarrow> bool" where
  "backend_settled c =
     (case kt_backend c of
        None \<Rightarrow> False
      | Some b \<Rightarrow>
          lower b \<in> known_sft_backends \<and>
          normalize_sft_backend b (kt_expert_weight_format c) = (b, False) \<and>
          (case kt_expert_weight_format c of
             None \<Rightarrow> format_of_backend (lower b) = None
           | Some f \<Rightarrow> lower b = backend_of_format f))"

definition runtime_settled :: "proc \<Rightarrow> 'r kt_config \<Rightarrow> bool" where
  "runtime_settled p c =
     (kt_num_threads c \<noteq> None \<and> kt_tp_enabled c \<noteq> None \<and> kt_threadpool_count c \<noteq> None \<and>
      kt_num_gpu_experts c \<noteq> None \<and> kt_max_cache_depth c \<noteq> None \<and>
      kt_share_backward_bb c \<noteq> None \<and> kt_share_cache_pool c \<noteq> None \<and>
      kt_force_fused_expert_lora c \<noteq> None \<and> kt_use_lora_experts c \<noteq> None \<and>
      (kt_weight_path c = None \<longrightarrow> getenv p ''ACCELERATE_KT_WEIGHT_PATH'' = None) \<and>
      (kt_non_expert_weight_path c = None \<longrightarrow> getenv p ''ACCELERATE_KT_NON_EXPERT_WEIGHT_PATH'' = None) \<and>
      (kt_expert_checkpoint_path c = None \<longrightarrow> getenv p ''ACCELERATE_KT_EXPERT_CHECKPOINT_PATH'' = None))"

definition lora_settled ::
  "(string \<Rightarrow> 'r::linordered_idom pyfloat option) \<Rightarrow> proc \<Rightarrow> 'r kt_config \<Rightarrow> bool" where
  "lora_settled parse_float p c =
     ((kt_lora_expert_num c = None \<longrightarrow> env_int p ''ACCELERATE_KT_LORA_EXPERT_NUM'' None = Inr None) \<and>
      (kt_lora_expert_intermediate_size c = None \<longrightarrow>
         env_int p ''ACCELERATE_KT_LORA_EXPERT_INTERMEDIATE_SIZE'' None = Inr None) \<and>
      (kt_lora_rank c = None \<longrightarrow> env_int p ''ACCELERATE_KT_LORA_RANK'' None = Inr None) \<and>
      (kt_lora_alpha c = None \<longrightarrow> kt_lora_rank c = None \<and>
         env_float parse_float p ''ACCELERATE_KT_LORA_ALPHA'' None = Inr None) \<and>
      (\<exists>d. kt_lora_dropout c = Some d \<and> fle (Finite 0) d \<and> flt d (Finite 1)))"

definition mode_settled :: "proc \<Rightarrow> 'r kt_config \<Rightarrow> bool" where
  "mode_settled p c =
     (kt_train_mode c \<noteq> None \<and> kt_full_weight_grad c \<noteq> None \<and>
      (kt_model_max_length c = None \<longrightarrow> env_int p ''ACCELERATE_KT_MODEL_MAX_LENGTH'' None = Inr None) \<and>
      (kt_skip_expert_loading c = None \<longrightarrow> \<not> dmem (p_environ p) ''ACCELERATE_KT_SKIP_EXPERT_LOADING''))"

lemmas settled_defs = format_settled_def lifecycle_settled_def backend_settled_def runtime_settled_def
  lora_settled_def mode_settled_def

lemma settled_cong:
  assumes "p_environ q = p_environ p"
  shows "format_settled q c = format_settled p c" "runtime_settled q c = runtime_settled p c"
    "lora_settled pf q c = lora_settled pf p c" "mode_settled q c = mode_settled p c"
  by (simp_all add: settled_defs getenv_def env_int_def env_float_def assms split: option.split)

lemma orelse_simps [simp]: "orelse (Some v) y = Some v" "orelse None y = y"
  by (simp_all add: orelse_def)

lemma format_names_fixed:
  "\<forall>f \<in> {''bf16'', ''int8'', ''fp8'', ''rawint4''}. lower (strip f) = f"
  by code_simp

lemma lifecycle_names_fixed: "\<forall>f \<in> {''persistent'', ''ephemeral''}. lower (strip f) = f"
  by code_simp

lemma orelse_keep: "(v = None \<longrightarrow> y = None) \<Longrightarrow> orelse v y = v"
  by (cases v) auto

lemma orelse_None: "orelse v y = None \<longleftrightarrow> v = None \<and> y = None"
  by (auto simp: orelse_def split: option.splits)

lemma orelse_Some: "\<exists>y. orelse v (Some x) = Some y"
  by (cases v) auto

lemma env_int_or_keep: "(v = None \<longrightarrow> env_int q key d = Inr None) \<Longrightarrow> env_int_or q v key d = Inr v"
  by (cases v) (auto simp: env_int_or_def)

lemma env_bool_or_keep: "v \<noteq> None \<Longrightarrow> env_bool_or q v key d = v"
  by (auto simp: env_bool_or_def)

lemma env_float_or_keep:
  "(v = None \<longrightarrow> env_float pf q key d = Inr None) \<Longrightarrow> env_float_or pf q v key d = Inr v"
  by (cases v) (auto simp: env_float_or_def)

lemma env_int_Some: "env_int p key (Some d) \<noteq> Inr None"
  by (simp add: env_int_def split: option.split)

lemma env_int_or_None: "env_int_or p v key d = Inr None \<longleftrightarrow> v = None \<and> env_int p key d = Inr None"
  by (simp add: env_int_or_def split: option.split)

lemma env_float_or_None:
  "env_float_or pf p v key d = Inr None \<longleftrightarrow> v = None \<and> env_float pf p key d = Inr None"
  by (simp add: env_float_or_def split: option.split)

lemma env_bool_or_None: "env_bool_or p v key d \<noteq> None"
  by (simp add: env_bool_or_def split: option.split)

lemma resolve_format_fixed:
  assumes "format_settled p c"
  shows "resolve_format p c = Inr c"
proof (cases "kt_expert_weight_format c")
  case None
  with assms have "getenv p ''ACCELERATE_KT_EXPERT_WEIGHT_FORMAT'' = None"
    by (simp add: format_settled_def)
  with None show ?thesis by (simp add: resolve_format_def Let_def)
next
  case (Some f)
  with assms have f: "f \<in> {''bf16'', ''int8'', ''fp8'', ''rawint4''}" by (simp add: format_settled_def)
  then have "Some f \<in> {None, Some ''bf16'', Some ''int8'', Some ''fp8'', Some ''rawint4''}" by auto
  with Some bspec [OF format_names_fixed f] show ?thesis
    by (simp only: resolve_format_def Let_def orelse_simps option.map if_True) (cases c, simp)
qed

lemma resolve_format_settles:
  assumes "resolve_format p c = Inr c'"
  shows "format_settled p c'"
proof -
  let ?f = "orelse (kt_expert_weight_format c) (getenv p ''ACCELERATE_KT_EXPERT_WEIGHT_FORMAT'')"
  have "map_option (\<lambda>s. lower (strip s)) ?f \<in> {None, Some ''bf16'', Some ''int8'', Some ''fp8'', Some ''rawint4''}"
    and c': "c' = c\<lparr>kt_expert_weight_format := map_option (\<lambda>s. lower (strip s)) ?f\<rparr>"
    using assms by (simp_all only: resolve_format_def Let_def sum.inject sum.distinct split: if_splits)
  then show ?thesis
    by (cases ?f) (auto simp: format_settled_def orelse_None)
qed

lemma resolve_lifecycle_fixed:
  assumes "lifecycle_settled c"
  shows "resolve_lifecycle q c = Inr c"
proof -
  obtain s where s: "kt_weight_lifecycle c = Some s" "s \<in> {''persistent'', ''ephemeral''}"
    using assms by (auto simp: lifecycle_settled_def)
  with bspec [OF lifecycle_names_fixed s(2)] show ?thesis
    by (simp only: resolve_lifecycle_def Let_def option.case if_True) (cases c, simp)
qed

lemma resolve_lifecycle_settles:
  assumes "resolve_lifecycle p c = Inr c'"
  shows "lifecycle_settled c'"
  using assms
  by (simp only: resolve_lifecycle_def Let_def sum.inject sum.distinct split: if_splits)
    (auto simp: lifecycle_settled_def)

lemma runtime_fixed:
  assumes "runtime_settled p c"
  shows "fill_runtime_fields p c = Inr c"
  using assms
  by (clarsimp simp: fill_runtime_fields_def runtime_settled_def env_int_or_keep env_bool_or_keep
      orelse_keep)

lemma runtime_settles:
  assumes "fill_runtime_fields p c = Inr c'"
  shows "runtime_settled p c'"
proof -
  obtain a b d e where r: "env_int_or p (kt_num_threads c) ''ACCELERATE_KT_NUM_THREADS'' (Some 1) = Inr a"
    "env_int_or p (kt_threadpool_count c) ''ACCELERATE_KT_THREADPOOL_COUNT'' (Some 1) = Inr b"
    "env_int_or p (kt_num_gpu_experts c) ''ACCELERATE_KT_NUM_GPU_EXPERTS'' (Some 0) = Inr d"
    "env_int_or p (kt_max_cache_depth c) ''ACCELERATE_KT_MAX_CACHE_DEPTH'' (Some 2) = Inr e"
    using assms unfolding fill_runtime_fields_def rbind_eq_Inr by blast
  then have "a \<noteq> None" "b \<noteq> None" "d \<noteq> None" "e \<noteq> None"
    using env_int_Some by (metis env_int_or_None)+
  with assms r show ?thesis
    by (simp add: fill_runtime_fields_def runtime_settled_def env_bool_or_None orelse_None
        del: not_None_eq) (drule sym, simp add: env_bool_or_None orelse_None del: not_None_eq)
qed

lemma lora_fixed:
  assumes "lora_settled pf p c"
  shows "fill_lora_fields pf p c = Inr c"
proof -
  obtain d where "kt_lora_dropout c = Some d" "fle (Finite 0) d" "flt d (Finite 1)"
    using assms by (auto simp: lora_settled_def)
  with assms show ?thesis
    by (clarsimp simp: fill_lora_fields_def lora_settled_def env_int_or_keep env_float_or_keep
        orelse_keep)
qed

lemma mode_fixed:
  assumes "mode_settled p c"
  shows "fill_mode_fields p c = Inr c"
proof -
  obtain m where "kt_train_mode c = Some m"
    using assms by (auto simp: mode_settled_def)
  with assms show ?thesis
    by (clarsimp simp: fill_mode_fields_def mode_settled_def Let_def env_int_or_keep 
        orelse_keep)
qed

lemma lora_settles:
  assumes "fill_lora_fields pf p c = Inr c'"
  shows "lora_settled pf p c'"
proof -
  obtain a b d e f where r: "env_int_or p (kt_lora_expert_num c) ''ACCELERATE_KT_LORA_EXPERT_NUM'' None = Inr a"
    "env_int_or p (kt_lora_expert_intermediate_size c)
       ''ACCELERATE_KT_LORA_EXPERT_INTERMEDIATE_SIZE'' None = Inr b"
    "env_int_or p (kt_lora_rank c) ''ACCELERATE_KT_LORA_RANK'' None = Inr d"
    "env_float_or pf p (kt_lora_alpha c) ''ACCELERATE_KT_LORA_ALPHA'' None = Inr e"
    "env_float_or pf p (kt_lora_dropout c) ''ACCELERATE_KT_LORA_DROPOUT'' (Some (Finite 0)) = Inr f"
    using assms unfolding fill_lora_fields_def rbind_eq_Inr by blast
  obtain f' where f: "f = Some f'" using r(5)
    by (cases f) (auto simp: env_float_or_def env_float_def split: option.splits if_splits)
  have "fle (Finite 0) f'" "flt f' (Finite 1)"
    and c': "c' = c\<lparr>kt_lora_expert_num := a, kt_lora_expert_intermediate_size := b, kt_lora_rank := d,
       kt_lora_alpha := orelse e (map_option (\<lambda>r. Finite (of_int (r * 2))) d), kt_lora_dropout := f\<rparr>"
    using assms r f by (auto simp: fill_lora_fields_def split: if_splits)
  with r f show ?thesis
    by (auto simp: lora_settled_def orelse_None env_int_or_None env_float_or_None)
qed

lemma mode_settles:
  assumes "fill_mode_fields p c = Inr c'"
  shows "mode_settled p c'"
proof -
  obtain a where r: "env_int_or p (kt_model_max_length c) ''ACCELERATE_KT_MODEL_MAX_LENGTH'' None = Inr a"
    using assms unfolding fill_mode_fields_def rbind_eq_Inr Let_def by blast
  with assms show ?thesis
    by (auto simp: fill_mode_fields_def mode_settled_def Let_def orelse_None env_int_or_None orelse_Some)
qed

lemma space_code: "is_space c \<Longrightarrow> (of_char c :: nat) \<le> 32"
  unfolding is_space_def by (elim insertE emptyE) simp_all

lemma lower_char_space [simp]: "is_space (lower_char c) = is_space c"
proof (cases "CHR ''A'' \<le> c \<and> c \<le> CHR ''Z''")
  case True
  then have n: "(65::nat) \<le> of_char c" "(of_char c :: nat) \<le> 90" by (auto simp: less_eq_char_def)
  then have "(of_char (lower_char c) :: nat) = of_char c + 32"
    using True by (simp add: lower_char_def)
  with n space_code [of c] space_code [of "lower_char c"] show ?thesis by linarith
qed (auto simp: lower_char_def)

lemma lower_strip: "lower (strip b) = strip (lower b)"
  by (simp add: lower_def strip_def dropWhile_map rev_map comp_def)

lemma known_no_space_all: "\<forall>b \<in> known_sft_backends. strip b = b"
  by code_simp

lemma public_names_known_all:
  "\<forall>b \<in> {''INT8'', ''FP8'', ''RAWINT4'', ''AMXBF16''}. lower b \<in> known_sft_backends"
  by code_simp

lemma known_no_space: "b \<in> known_sft_backends \<Longrightarrow> strip b = b"
  using known_no_space_all by blast

lemma public_names_known:
  "b \<in> {''INT8'', ''FP8'', ''RAWINT4'', ''AMXBF16''} \<Longrightarrow> lower b \<in> known_sft_backends"
  using public_names_known_all by blast

lemma normalized_backend:
  assumes "lower b \<in> known_sft_backends" "normalize_sft_backend b f = (b', w)"
  shows "lower b' \<in> known_sft_backends \<and> normalize_sft_backend b' g = (b', False)"
proof (cases "lower (strip b) \<in> {''auto'', ''int8'', ''amxint8'', ''fp8'', ''amxfp8'', ''rawint4'', ''amxint4_kgroup''}")
  case True
  from normalized_names [OF this, of f] assms(2)
  have b': "b' \<in> {''INT8'', ''FP8'', ''RAWINT4'', ''AMXBF16''}" by simp
  then have "normalize_sft_backend b' g = (b', False)"
    by (elim insertE emptyE) (simp_all only: known_backend_fixpoint)
  with public_names_known [OF b'] show ?thesis by simp
next
  case False
  from unknown_backend_kept [OF this] assms show ?thesis by auto
qed

lemma format_backend_inverse:
  "format_of_backend b = Some f \<Longrightarrow> b = backend_of_format f"
  by (auto simp: format_of_backend_def backend_of_format_def split: if_splits)

lemma resolve_backend_settles:
  assumes "resolve_backend c p = (Inr c', p')"
  shows "backend_settled c' \<and> p_environ p' = p_environ p \<and> p_torch_threads p' = p_torch_threads p"
proof -
  let ?b = "default_backend p c"
  obtain b' w where n: "normalize_sft_backend ?b (kt_expert_weight_format c) = (b', w)" by fastforce
  have known: "lower ?b \<in> known_sft_backends"
    using assms by (auto simp: resolve_backend_def Let_def split: if_splits)
  let ?f = "orelse (kt_expert_weight_format c) (format_of_backend (lower b'))"
  have c': "c' = c\<lparr>kt_backend := Some b', kt_expert_weight_format := ?f\<rparr>"
    and f: "case ?f of Some f \<Rightarrow> lower b' = backend_of_format f | None \<Rightarrow> True"
    and p': "p_environ p' = p_environ p" "p_torch_threads p' = p_torch_threads p"
    using assms known n by (auto simp: resolve_backend_def Let_def split: if_splits option.splits)
  from f normalized_backend [OF known n] show ?thesis
    unfolding c' p' backend_settled_def by (simp add: orelse_None split: option.splits)
qed

lemma resolve_backend_fixed:
  assumes "backend_settled c"
  shows "resolve_backend c q = (Inr c, q)"
proof -
  obtain b where b: "kt_backend c = Some b" "lower b \<in> known_sft_backends"
    "normalize_sft_backend b (kt_expert_weight_format c) = (b, False)"
    using assms by (auto simp: backend_settled_def split: option.splits)
  have f: "orelse (kt_expert_weight_format c) (format_of_backend (lower b)) = kt_expert_weight_format c"
    "case kt_expert_weight_format c of Some f \<Rightarrow> lower b = backend_of_format f | None \<Rightarrow> True"
    using assms b(1) by (auto simp: backend_settled_def split: option.splits)
  show ?thesis
    using b f by (cases c) (auto simp: resolve_backend_def default_backend_def Let_def split: option.splits)
qed

section \<open>Constructing a configuration twice\<close>

text \<open>
  The contract of a resolution stage: what it returns is settled, and a settled configuration
  passes it unchanged.
\<close>

locale resolver =
  fixes run :: "'c \<Rightarrow> 'c result"
    and settled :: "'c \<Rightarrow> bool"
  assumes settles: "run c = Inr c' \<Longrightarrow> settled c'"
    and fixed: "settled c \<Longrightarrow> run c = Inr c"
begin

lemma run_twice: "run c = Inr c' \<Longrightarrow> run c' = Inr c'"
  by (rule fixed [OF settles])

end

interpretation format_stage: resolver "resolve_format p" "format_settled p" for p
  by unfold_locales (rule resolve_format_settles resolve_format_fixed, assumption)+

interpretation lifecycle_stage: resolver "resolve_lifecycle p" lifecycle_settled for p
  by unfold_locales (rule resolve_lifecycle_settles resolve_lifecycle_fixed, assumption)+

interpretation runtime_stage: resolver "fill_runtime_fields p" "runtime_settled p" for p
  by unfold_locales (rule runtime_settles runtime_fixed, assumption)+

interpretation lora_stage: resolver "fill_lora_fields pf p" "lora_settled pf p" for pf p
  by unfold_locales (rule lora_settles lora_fixed, assumption)+

interpretation mode_stage: resolver "fill_mode_fields p" "mode_settled p" for p
  by unfold_locales (rule mode_settles mode_fixed, assumption)+

lemma runtime_fields_kept:
  assumes "fill_runtime_fields p c = Inr c'"
  shows "kt_expert_weight_format c' = kt_expert_weight_format c" "kt_backend c' = kt_backend c"
    "kt_weight_lifecycle c' = kt_weight_lifecycle c" "kt_activation_policy c' = kt_activation_policy c"
  using assms by (auto simp: fill_runtime_fields_def)

lemma lora_fields_kept:
  assumes "fill_lora_fields pf p c = Inr c'"
  shows "\<exists>a b d e f. c' = c\<lparr>kt_lora_expert_num := a, kt_lora_expert_intermediate_size := b,
     kt_lora_rank := d, kt_lora_alpha := e, kt_lora_dropout := f\<rparr>"
  using assms by (simp add: fill_lora_fields_def split: if_splits) blast

lemma mode_fields_kept:
  assumes "fill_mode_fields p c = Inr c'"
  shows "\<exists>a b d e. c' = c\<lparr>kt_train_mode := a, kt_full_weight_grad := b, kt_model_max_length := d,
     kt_skip_expert_loading := e\<rparr>"
  using assms unfolding fill_mode_fields_def Let_def rbind_eq_Inr by blast

lemma runtime_frame:
  assumes "fill_runtime_fields p c = Inr c'"
  shows "format_settled q c' = format_settled q c" "lifecycle_settled c' = lifecycle_settled c"
    "backend_settled c' = backend_settled c" "kt_activation_policy c' = kt_activation_policy c"
  by (simp_all only: format_settled_def lifecycle_settled_def backend_settled_def runtime_fields_kept [OF assms])

lemma lora_frame:
  assumes "fill_lora_fields pf p c = Inr c'"
  shows "format_settled q c' = format_settled q c" "lifecycle_settled c' = lifecycle_settled c"
    "backend_settled c' = backend_settled c" "kt_activation_policy c' = kt_activation_policy c"
    "runtime_settled q c' = runtime_settled q c"
proof -
  obtain a b d e f where c': "c' = c\<lparr>kt_lora_expert_num := a, kt_lora_expert_intermediate_size := b,
     kt_lora_rank := d, kt_lora_alpha := e, kt_lora_dropout := f\<rparr>"
    using lora_fields_kept [OF assms] by blast
  show "format_settled q c' = format_settled q c" "lifecycle_settled c' = lifecycle_settled c"
    "backend_settled c' = backend_settled c" "kt_activation_policy c' = kt_activation_policy c"
    "runtime_settled q c' = runtime_settled q c"
    by (simp_all add: c' format_settled_def lifecycle_settled_def backend_settled_def runtime_settled_def
        cong: option.case_cong)
qed

lemma mode_frame:
  assumes "fill_mode_fields p c = Inr c'"
  shows "format_settled q c' = format_settled q c" "lifecycle_settled c' = lifecycle_settled c"
    "backend_settled c' = backend_settled c" "kt_activation_policy c' = kt_activation_policy c"
    "runtime_settled q c' = runtime_settled q c" "lora_settled pf q c' = lora_settled pf q c"
proof -
  obtain a b d e where c': "c' = c\<lparr>kt_train_mode := a, kt_full_weight_grad := b,
     kt_model_max_length := d, kt_skip_expert_loading := e\<rparr>"
    using mode_fields_kept [OF assms] by blast
  show "format_settled q c' = format_settled q c" "lifecycle_settled c' = lifecycle_settled c"
    "backend_settled c' = backend_settled c" "kt_activation_policy c' = kt_activation_policy c"
    "runtime_settled q c' = runtime_settled q c" "lora_settled pf q c' = lora_settled pf q c"
    by (simp_all add: c' format_settled_def lifecycle_settled_def backend_settled_def runtime_settled_def
        lora_settled_def cong: option.case_cong)
qed

lemma lifecycle_frame:
  "resolve_lifecycle p c = Inr c' \<Longrightarrow> format_settled q c' = format_settled q c"
  by (simp only: resolve_lifecycle_def Let_def sum.inject sum.distinct split: if_splits)
    (auto simp: format_settled_def)

lemma format_of_backend_names:
  "format_of_backend b = Some f \<Longrightarrow> f \<in> {''bf16'', ''int8'', ''fp8'', ''rawint4''}"
  by (simp add: format_of_backend_def split: if_splits)

lemma backend_frame:
  assumes "resolve_backend c p = (Inr c', p')" "format_settled q c"
  shows "format_settled q c'" "lifecycle_settled c' = lifecycle_settled c"
    "kt_activation_policy c' = kt_activation_policy c"
proof -
  obtain b f where c': "c' = c\<lparr>kt_backend := Some b,
      kt_expert_weight_format := orelse (kt_expert_weight_format c) (format_of_backend f)\<rparr>"
    using assms(1) by (auto simp: resolve_backend_def Let_def split: if_splits prod.splits)
  show "lifecycle_settled c' = lifecycle_settled c" "kt_activation_policy c' = kt_activation_policy c"
    by (simp_all add: c' lifecycle_settled_def)
  show "format_settled q c'"
    using assms(2) format_of_backend_names [of f]
    by (cases "kt_expert_weight_format c"; cases "format_of_backend f")
      (simp_all add: c' format_settled_def)
qed

lemma resolve_policy_env: "p_environ (snd (resolve_policy loads v p)) = p_environ p"
  "p_torch_threads (snd (resolve_policy loads v p)) = p_torch_threads p"
  by (auto simp: resolve_policy_def legacy_activation_policy_from_env_def Let_def ebind_def
      split: option.splits)

definition settled ::
  "(string \<Rightarrow> 'r::linordered_idom pyfloat option) \<Rightarrow> proc \<Rightarrow> kt_activation_policy \<Rightarrow> 'r kt_config \<Rightarrow> bool" where
  "settled pf p pol c =
     (format_settled p c \<and> lifecycle_settled c \<and> backend_settled c \<and> runtime_settled p c \<and>
      lora_settled pf p c \<and> mode_settled p c \<and> kt_activation_policy c = Some (Policy pol) \<and>
      check_config pol c = Inr ())"

lemma configure_omp_same_env:
  assumes "configure_omp_threads h p = (Inr n, p')" "p_environ q = p_environ p'"
    "p_torch_threads q = p_torch_threads p'"
  shows "configure_omp_threads h q = (Inr n, q)"
proof -
  have n: "choose_omp_threads h p = Inr n" "n \<ge> 1" and p': "p' = set_omp h n p"
    using assms(1) by (auto simp: configure_omp_threads_def split: sum.splits if_splits)
  have "env_int q = env_int p'"
    by (simp add: fun_eq_iff env_int_def getenv_def assms(2))
  then have "choose_omp_threads h q = choose_omp_threads h p'"
    unfolding choose_omp_threads_def by (simp only:)
  moreover have "set_omp h n q = q"
    using assms(2,3) by (simp add: p' set_omp_def dset_same)
  ultimately show ?thesis
    using n choose_omp_again [OF n] by (simp add: configure_omp_threads_def p')
qed

lemma post_init_settles:
  assumes "post_init h loads pf c p = (Inr c', p')"
  shows "\<exists>n pol. settled pf p' pol c' \<and> configure_omp_threads h p' = (Inr n, p') \<and>
    (\<forall>key. key \<noteq> ''OMP_NUM_THREADS'' \<longrightarrow> getenv p' key = getenv p key)"
proof -
  obtain n p1 c1 c2 pol p2 c3 c4 c5 where
    omp: "configure_omp_threads h p = (Inr n, p1)" and
    c1: "resolve_format p1 c = Inr c1" and c2: "resolve_lifecycle p1 c1 = Inr c2" and
    pol: "resolve_policy loads (kt_activation_policy c2) p1 = (Inr pol, p2)" and
    c3: "resolve_backend (c2\<lparr>kt_activation_policy := Some (Policy pol)\<rparr>) p2 = (Inr c3, p')" and
    c4: "fill_runtime_fields p' c3 = Inr c4" and c5: "fill_lora_fields pf p' c4 = Inr c5" and
    c6: "fill_mode_fields p' c5 = Inr c'" and chk: "check_config pol c' = Inr ()"
    using assms by (auto simp: post_init_def ebind_eq_Inr)
  have env: "p_environ p' = p_environ p1" "p_torch_threads p' = p_torch_threads p1"
    using resolve_policy_env [of loads "kt_activation_policy c2" p1] resolve_backend_settles [OF c3] pol
    by simp_all
  have f2: "format_settled p' c2"
    using format_stage.settles [OF c1] lifecycle_frame [OF c2] settled_cong(1) [OF env(1), of c1] by simp
  then have f2': "format_settled p' (c2\<lparr>kt_activation_policy := Some (Policy pol)\<rparr>)"
    by (simp add: format_settled_def)
  have l2: "lifecycle_settled (c2\<lparr>kt_activation_policy := Some (Policy pol)\<rparr>)"
    using lifecycle_stage.settles [OF c2] by (simp add: lifecycle_settled_def)
  note b = backend_frame [OF c3 f2'] resolve_backend_settles [OF c3]
  have "settled pf p' pol c'"
    using b l2 runtime_stage.settles [OF c4] lora_stage.settles [OF c5] mode_stage.settles [OF c6] chk
    by (simp add: settled_def runtime_frame [OF c4] lora_frame [OF c5] mode_frame [OF c6])
  moreover have "getenv p' key = getenv p key" if "key \<noteq> ''OMP_NUM_THREADS''" for key
    using omp that getenv_set_omp [of h n p key]
    by (auto simp: getenv_def env configure_omp_threads_def split: sum.splits if_splits)
  ultimately show ?thesis
    using configure_omp_same_env [OF omp env] by blast
qed

lemma settled_post_init:
  assumes "settled pf p pol c" "configure_omp_threads h p = (Inr n, p)"
  shows "post_init h loads pf c p =
    (case resolve_policy loads (Some (Policy pol)) p of
       (Inl e, q) \<Rightarrow> (Inl e, q) | (Inr _, q) \<Rightarrow> (Inr c, p))"
proof -
  have f: "resolve_format p c = Inr c" "resolve_lifecycle p c = Inr c" "resolve_backend c p = (Inr c, p)"
    "fill_runtime_fields p c = Inr c" "fill_lora_fields pf p c = Inr c" "fill_mode_fields p c = Inr c"
    "kt_activation_policy c = Some (Policy pol)" "check_config pol c = Inr ()"
    using assms(1) by (simp_all add: settled_def format_stage.fixed lifecycle_stage.fixed
        resolve_backend_fixed runtime_stage.fixed lora_stage.fixed mode_stage.fixed)
  have pol: "resolve_policy loads (Some (Policy pol)) p \<in> {(Inr pol, p)} \<union> range (\<lambda>e. (Inl e, p))"
    by (auto simp: resolve_policy_def policy_from_value_def Let_def)
  have c: "c\<lparr>kt_activation_policy := Some (Policy pol)\<rparr> = c"
    using f(7) by (cases c) simp
  have f3: "resolve_backend (c\<lparr>kt_activation_policy := Some (Policy pol)\<rparr>) p = (Inr c, p)"
    by (simp only: c f(3))
  show ?thesis
    using pol f f3 assms(2)
    by (auto simp: post_init_def ebind_def)
qed

text \<open>
  Constructing a configuration again from an accepted one (as \<open>dataclasses.replace\<close> does)
  yields the same configuration, leaves the process unchanged and issues no warning: every default
  and every normalisation is a fixed point. The exception is a policy that came from the
  environment: then the second construction is refused as a conflict between field and variable.
\<close>

theorem revalidation_fixed_point:
  assumes "post_init h loads pf c p = (Inr c', p')"
  shows "post_init h loads pf c' p' =
    (if set_explicitly (getenv p policy_env)
     then (Inl (ValueError ''kt_activation_policy conflicts with the environment''), p')
     else if set_explicitly (getenv p legacy_env)
     then (Inl (ValueError ''kt_activation_policy conflicts with the legacy variable''), p')
     else (Inr c', p'))"
proof -
  obtain n pol where s: "settled pf p' pol c'" "configure_omp_threads h p' = (Inr n, p')"
    and e: "\<And>key. key \<noteq> ''OMP_NUM_THREADS'' \<Longrightarrow> getenv p' key = getenv p key"
    using post_init_settles [OF assms] by blast
  have "getenv p' policy_env = getenv p policy_env" "getenv p' legacy_env = getenv p legacy_env"
    by (rule e; simp add: policy_env_def legacy_env_def)+
  then show ?thesis
    by (simp add: settled_post_init [OF s] resolve_policy_def policy_from_value_def Let_def)
qed

definition sample_config :: "int kt_config" where
  "sample_config = default_config\<lparr>kt_backend := Some ''AMXInt4_KGroup'', kt_lora_rank := Some 8,
     kt_force_fused_expert_lora := Some True\<rparr>"

definition sample_run :: "(string, string) dict \<Rightarrow> int kt_config result \<times> proc" where
  "sample_run env = post_init sample_host (\<lambda>_. None) (\<lambda>_. None) sample_config (sample_proc env)"

theorem revalidation_fixed_point_witness:
  "\<exists>c p. sample_run [] = (Inr c, p) \<and> kt_expert_weight_format c = Some ''rawint4'' \<and> p_warnings p = 1 \<and>
     post_init sample_host (\<lambda>_. None) (\<lambda>_. None) c p = (Inr c, p)"
proof -
  have "is_ok (fst (sample_run []))" by code_simp
  then obtain c p where r: "sample_run [] = (Inr c, p)" by (cases "sample_run []") (auto simp: is_ok_iff)
  have "(case sample_run [] of (Inr c, p) \<Rightarrow> kt_expert_weight_format c = Some ''rawint4'' \<and> p_warnings p = 1
           | _ \<Rightarrow> False)" by code_simp
  with r revalidation_fixed_point [OF r [unfolded sample_run_def]] show ?thesis
    by (simp add: set_explicitly_def getenv_def sample_proc_def)
qed

end
