(* ===== verification/SftWrap.thy ===== *)
theory SftWrap
  imports SftConfig "HOL-Library.List_Lexorder"
begin

text \<open>
  \<open>kt-kernel/python/sft/wrapper.py\<close>: what \<open>wrap_moe_layers_with_kt_wrapper\<close> decides before it
  touches a layer: the kernel method of the configured backend, the rank used for LoRA, the
  constraints of the weight format and of the activation policy, the runtime probe that rank 0
  makes for all ranks, the dimension checks and the choice of the weight source. The file system is
  the record \<open>file_system\<close>; the resolver of Hugging Face checkpoint files belongs to the
  \<open>transformers\<close> package and is a parameter (\<open>None\<close> when it raises or is missing).
\<close>

section \<open>Method and mode\<close>

definition kt_backend_map :: "(string \<times> string) list" where
  "kt_backend_map = [(''AMXBF16'', ''AMXBF16_SFT''), (''FP8'', ''AMXFP8_SFT''), (''AMXFP8'', ''AMXFP8_SFT''),
     (''INT8'', ''INT8_SFT''), (''AMXINT8'', ''INT8_SFT''), (''RAWINT4'', ''RAWINT4_SFT''),
     (''AMXINT4_KGroup'', ''RAWINT4_SFT''), (''AMXINT4'', ''AMXINT4_SFT''),
     (''AMXBF16_SkipLoRA'', ''AMXBF16_SFT_SkipLoRA''), (''AMXINT8_SkipLoRA'', ''AMXINT8_SFT_SkipLoRA''),
     (''AMXINT4_SkipLoRA'', ''AMXINT4_SFT_SkipLoRA'')]"

definition kt_method :: "string \<Rightarrow> string result" where
  "kt_method b =
     (case dget kt_backend_map b of
        Some m \<Rightarrow> Inr m
      | None \<Rightarrow>
          (case dget (map (\<lambda>(k, v). (lower k, v)) kt_backend_map) (lower b) of
             Some m \<Rightarrow> Inr m
           | None \<Rightarrow> Inl (ConfigError ''Unknown kt_backend'')))"

definition wrap_lora_rank :: "'r kt_config \<Rightarrow> int" where
  "wrap_lora_rank c =
     (let lora_rank = (case kt_lora_rank c of Some r \<Rightarrow> r | None \<Rightarrow> 1) in
      if kt_train_mode c = Some ''full'' then 0
      else if truth (kt_full_weight_grad c) \<and> kt_train_mode c \<noteq> Some ''hybrid'' \<and> lora_rank > 0
      then (if kt_lora_rank c = None then 0 else lora_rank)
      else lora_rank)"

definition supports_checkpoint_forward_reuse :: "bool \<Rightarrow> int \<Rightarrow> bool" where
  "supports_checkpoint_forward_reuse full_weight_grad lora_rank =
     ((full_weight_grad \<and> lora_rank = 0) \<or> (\<not> full_weight_grad \<and> lora_rank > 0))"

section \<open>Format constraints\<close>

definition frozen_lora :: "'r kt_config \<Rightarrow> bool" where
  "frozen_lora c = (\<not> truth (kt_full_weight_grad c) \<and> kt_train_mode c = Some ''lora'')"

definition cpu_experts_only :: "'r kt_config \<Rightarrow> bool" where
  "cpu_experts_only c = (int_or0 (kt_num_gpu_experts c) = 0 \<and> \<not> truth (kt_use_lora_experts c))"

definition persistent :: "'r kt_config \<Rightarrow> bool" where
  "persistent c = (kt_weight_lifecycle c = Some ''persistent'')"

definition wrap_check_int8 :: "string \<Rightarrow> 'r kt_config \<Rightarrow> unit result" where
  "wrap_check_int8 m c =
     rbind (require (m = ''INT8_SFT'') (ConfigError ''int8 requires INT8'')) (\<lambda>_.
     rbind (require (frozen_lora c \<and> wrap_lora_rank c > 0) (ConfigError ''INT8 LoRA only'')) (\<lambda>_.
     rbind (require (cpu_experts_only c) (ConfigError ''INT8 CPU experts'')) (\<lambda>_.
     require (truth (kt_share_backward_bb c)) (ConfigError ''INT8 kt_share_backward_bb''))))"

definition wrap_check_fp8 :: "string \<Rightarrow> 'r kt_config \<Rightarrow> unit result" where
  "wrap_check_fp8 m c =
     rbind (require (m = ''AMXFP8_SFT'') (ConfigError ''fp8 requires FP8'')) (\<lambda>_.
     rbind (require (frozen_lora c \<and> wrap_lora_rank c > 0) (ConfigError ''FP8 LoRA only'')) (\<lambda>_.
     rbind (require (cpu_experts_only c) (ConfigError ''FP8 CPU experts'')) (\<lambda>_.
     rbind (require (truth (kt_share_backward_bb c)) (ConfigError ''FP8 kt_share_backward_bb'')) (\<lambda>_.
     require (persistent c) (ConfigError ''FP8 persistent'')))))"

definition wrap_check_rawint4 :: "string \<Rightarrow> 'r::linordered_idom kt_config \<Rightarrow> unit result" where
  "wrap_check_rawint4 m c =
     rbind (require (m = ''RAWINT4_SFT'') (ConfigError ''rawint4 requires RAWINT4'')) (\<lambda>_.
     rbind (require (frozen_lora c \<and> wrap_lora_rank c = 8) (ConfigError ''RAWINT4 rank-8 LoRA only'')) (\<lambda>_.
     rbind (require (feq (case kt_lora_dropout c of Some d \<Rightarrow> d | None \<Rightarrow> Finite 0) (Finite 0))
              (ConfigError ''RAWINT4 lora_dropout'')) (\<lambda>_.
     rbind (require (cpu_experts_only c) (ConfigError ''RAWINT4 CPU experts'')) (\<lambda>_.
     rbind (require (\<not> truth (kt_share_backward_bb c)) (ConfigError ''RAWINT4 kt_share_backward_bb'')) (\<lambda>_.
     rbind (require (truth (kt_force_fused_expert_lora c)) (ConfigError ''RAWINT4 fused LoRA'')) (\<lambda>_.
     require (persistent c) (ConfigError ''RAWINT4 persistent'')))))))"

definition check_activation_policy ::
  "string \<Rightarrow> kt_activation_policy \<Rightarrow> 'r kt_config \<Rightarrow> unit result" where
  "check_activation_policy m pol c =
     rbind (require (\<not> (pol_cpu pol = ''retain'' \<and>
              (\<not> supports_checkpoint_forward_reuse (truth (kt_full_weight_grad c)) (wrap_lora_rank c) \<or>
               m \<notin> {''AMXBF16_SFT'', ''AMXFP8_SFT'', ''INT8_SFT'', ''RAWINT4_SFT''} \<or>
               int_or0 (kt_num_gpu_experts c) \<noteq> 0 \<or> truth (kt_use_lora_experts c))))
            (ConfigError ''activation_policy.cpu=retain'')) (\<lambda>_.
     require (\<not> (kt_expert_weight_format c = Some ''rawint4'' \<and> pol_cpu pol = ''retain'' \<and>
                pol_gpu pol = ''recompute''))
       (ConfigError ''RAWINT4 checkpoint-forward reuse''))"

text \<open>Lines 366 to 474: from the backend name to the accepted kernel method.\<close>

definition wrap_method :: "kt_activation_policy \<Rightarrow> 'r::linordered_idom kt_config \<Rightarrow> string result" where
  "wrap_method pol c =
     rbind (kt_method (case kt_backend c of Some b \<Rightarrow> b | None \<Rightarrow> ''None'')) (\<lambda>m.
     rbind (require (\<not> (truth (kt_force_fused_expert_lora c) \<and> contains ''SkipLoRA'' m))
              (ConfigError ''fused expert LoRA with SkipLoRA'')) (\<lambda>_.
     rbind (if kt_expert_weight_format c = Some ''int8'' then wrap_check_int8 m c else Inr ()) (\<lambda>_.
     rbind (if kt_expert_weight_format c = Some ''fp8'' then wrap_check_fp8 m c else Inr ()) (\<lambda>_.
     rbind (if kt_expert_weight_format c = Some ''rawint4'' then wrap_check_rawint4 m c else Inr ()) (\<lambda>_.
     rbind (check_activation_policy m pol c) (\<lambda>_.
     Inr m))))))"

section \<open>Probing on rank 0\<close>

text \<open>
  \<open>error\<close> is the outcome of the stage on this rank (only rank 0 runs it), \<open>payload\<close> what the
  broadcast from rank 0 delivers.
\<close>

definition sync_rank0_wrap_error :: "bool \<Rightarrow> int \<Rightarrow> int \<Rightarrow> exn option \<Rightarrow> exn option \<Rightarrow> unit result" where
  "sync_rank0_wrap_error initialized rank world_size error payload =
     (if world_size \<le> 1 \<or> \<not> initialized
      then (case error of Some e \<Rightarrow> Inl e | None \<Rightarrow> Inr ())
      else case payload of
             None \<Rightarrow> Inr ()
           | Some _ \<Rightarrow>
               (case error of
                  Some e \<Rightarrow> (if rank = 0 then Inl e else Inl (RuntimeError ''rank 0 failed''))
                | None \<Rightarrow> Inl (RuntimeError ''rank 0 failed'')))"

definition error_of :: "'a result \<Rightarrow> exn option" where
  "error_of r = (case r of Inl e \<Rightarrow> Some e | Inr _ \<Rightarrow> None)"

text \<open>The runtime probe of the configured format; a failure becomes \<open>KTAMXNotAvailableError\<close>.\<close>

definition probe_runtime :: "string option \<Rightarrow> extension \<Rightarrow> sft_runtime option result" where
  "probe_runtime fmt ext =
     (let wrapped = (\<lambda>r. case r of Inl _ \<Rightarrow> Inl (NotAvailableError ''SFT kernel'') | Inr x \<Rightarrow> Inr (Some x)) in
      if fmt = Some ''int8'' then wrapped (get_int8_runtime ext)
      else if fmt = Some ''fp8'' then wrapped (get_fp8_runtime ext)
      else if fmt = Some ''rawint4'' then wrapped (get_rawint4_runtime ext)
      else Inr None)"

definition select_runtime ::
  "string option \<Rightarrow> pyval \<Rightarrow> bool \<Rightarrow> int \<Rightarrow> int \<Rightarrow> extension \<Rightarrow> exn option \<Rightarrow> unit result" where
  "select_runtime fmt model_config initialized rank world_size ext payload =
     rbind (if fmt = Some ''rawint4''
            then (case get_rawint4_checkpoint_contract model_config of
                    Inl _ \<Rightarrow> Inl (ConfigError ''RAWINT4 checkpoint'') | Inr _ \<Rightarrow> Inr ())
            else Inr ()) (\<lambda>_.
     if fmt \<in> {Some ''int8'', Some ''fp8'', Some ''rawint4''}
     then sync_rank0_wrap_error initialized rank world_size
            (if rank = 0 then error_of (probe_runtime fmt ext) else None) payload
     else Inr ())"

section \<open>Dimensions\<close>

text \<open>\<open>tuple(v)\<close>, as far as the comparison with \<open>(128, 128)\<close> sees it.\<close>

definition is_128_pair :: "pyval \<Rightarrow> bool result" where
  "is_128_pair v =
     (case v of
        PList vs \<Rightarrow> Inr (length vs = 2 \<and> list_all (\<lambda>x. pyeq x (PInt 128)) vs)
      | PStr _ \<Rightarrow> Inr False
      | PMap _ \<Rightarrow> Inr False
      | _ \<Rightarrow> Inl (TypeError ''object is not iterable''))"

text \<open>\<open>str(v or "")\<close>.\<close>

definition str_or_empty :: "pyval \<Rightarrow> string" where
  "str_or_empty v =
     (if v \<in> {PNone, PBool False, PInt 0, PStr [], PList [], PMap []} then [] else pystr v)"

definition native_fp8_block_size :: "pyval \<Rightarrow> (int \<times> int) result" where
  "native_fp8_block_size model_config =
     (let quant_config = quantization_config model_config;
          block_size = (let b = config_value quant_config ''weight_block_size'' PNone in
                        if b = PNone then config_value quant_config ''weight_block_shape'' PNone else b) in
      if quant_config = PNone then Inl (ConfigError ''native FP8 SFT requires quantization_config'')
      else if \<not> contains ''fp8'' (lower (str_or_empty (config_value quant_config ''quant_method'' PNone)))
      then Inl (ConfigError ''native FP8 SFT requires an FP8 checkpoint'')
      else if block_size = PNone then Inl (ConfigError ''weight_block_size'')
      else rbind (is_128_pair block_size) (\<lambda>ok.
           if ok then Inr (128, 128) else Inl (ConfigError ''weight_block_size'')))"

definition wrap_threadpool_count :: "'r kt_config \<Rightarrow> int" where
  "wrap_threadpool_count c = (if truth (kt_tp_enabled c) then int_or0 (kt_threadpool_count c) else 1)"

definition tp_slices_ok :: "int \<Rightarrow> int \<Rightarrow> int \<Rightarrow> bool" where
  "tp_slices_ok unit_size intermediate_size n =
     (intermediate_size mod n = 0 \<and> (intermediate_size div n) mod unit_size = 0)"

definition check_dims :: "pyval \<Rightarrow> int \<Rightarrow> int \<Rightarrow> 'r kt_config \<Rightarrow> unit result" where
  "check_dims model_config hidden_size intermediate_size c =
     (let n = wrap_threadpool_count c in
      rbind (if kt_expert_weight_format c = Some ''fp8'' then
               rbind (native_fp8_block_size model_config) (\<lambda>_.
               rbind (require (hidden_size mod 128 = 0 \<and> intermediate_size mod 128 = 0)
                        (ConfigError ''FP8 dimensions'')) (\<lambda>_.
               require (n \<ge> 1 \<and> tp_slices_ok 128 intermediate_size n) (ConfigError ''FP8 TP slice'')))
             else Inr ()) (\<lambda>_.
      if kt_expert_weight_format c = Some ''rawint4'' then
        rbind (require (n \<in> {1, 2}) (ConfigError ''RAWINT4 TP1/TP2'')) (\<lambda>_.
        rbind (require (hidden_size mod 32 = 0 \<and> intermediate_size mod 32 = 0)
                 (ConfigError ''RAWINT4 dimensions'')) (\<lambda>_.
        require (tp_slices_ok 32 intermediate_size n) (ConfigError ''RAWINT4 TP slice'')))
      else Inr ()))"

section \<open>Weight source\<close>

text \<open>
  \<open>os.path\<close> on POSIX paths. The file system answers whether a path is a regular file or a
  directory, the parsed \<open>weight_map\<close> of an index file (\<open>None\<close> if it is missing or not a JSON object,
  an exception if the file cannot be decoded), the safetensors files of a directory and absolute
  paths. Paths handed to \<open>pathlib\<close> are taken in its normal form (no trailing slash).
\<close>

record file_system =
  fs_isfile :: "string \<Rightarrow> bool"
  fs_isdir :: "string \<Rightarrow> bool"
  fs_weight_map :: "string \<Rightarrow> (string \<times> string) list option result"
  fs_safetensors :: "string \<Rightarrow> string list"
  fs_abspath :: "string \<Rightarrow> string"

definition path_join :: "string \<Rightarrow> string \<Rightarrow> string" where
  "path_join a b =
     (if starts_with ''/'' b then b
      else if a = [] \<or> ends_with a ''/'' then a @ b else a @ ''/'' @ b)"

definition basename :: "string \<Rightarrow> string" where
  "basename p = last (split_on (CHR ''/'') p)"

definition dirname :: "string \<Rightarrow> string" where
  "dirname p =
     (let head = take (length p - length (basename p)) p in
      if list_all (\<lambda>c. c = CHR ''/'') head then head
      else rev (dropWhile (\<lambda>c. c = CHR ''/'') (rev head)))"

definition resolve_full_weight_checkpoint :: "file_system \<Rightarrow> string option \<Rightarrow> string option" where
  "resolve_full_weight_checkpoint fs path =
     (case path of
        None \<Rightarrow> None
      | Some candidate \<Rightarrow>
          (if fs_isfile fs candidate
           then (if basename candidate \<noteq> ''kt_full_experts.index.json'' then None
                 else Some (dirname (fs_abspath fs candidate)))
           else if fs_isfile fs (path_join candidate ''kt_full_experts.index.json'')
           then Some (fs_abspath fs candidate) else None))"

definition all_safetensors :: "string list option \<Rightarrow> bool" where
  "all_safetensors files =
     (case files of None \<Rightarrow> False | Some fs \<Rightarrow> fs \<noteq> [] \<and> list_all (\<lambda>f. ends_with f ''.safetensors'') fs)"

definition resolve_raw_safetensors ::
  "file_system \<Rightarrow> (string \<Rightarrow> string list option) \<Rightarrow> string \<Rightarrow> string list option result" where
  "resolve_raw_safetensors fs hf_resolve path =
     (let index_path = path_join path ''model.safetensors.index.json'' in
      if all_safetensors (hf_resolve path) then Inr (hf_resolve path)
      else if fs_isfile fs path \<and> ends_with path ''.safetensors'' \<and> basename path \<noteq> ''.safetensors''
      then Inr (Some [path])
      else if \<not> fs_isdir fs path then Inr None
      else if fs_isfile fs index_path then
        rbind (fs_weight_map fs index_path) (\<lambda>wm.
          case wm of
           None \<Rightarrow> Inl (ConfigError ''invalid safetensors index'')
         | Some [] \<Rightarrow> Inl (ConfigError ''invalid safetensors index'')
         | Some weight_map \<Rightarrow>
             (let files = sort (remdups (map (\<lambda>(_, f). path_join path f) weight_map)) in
              if list_all (fs_isfile fs) files then Inr (Some files)
              else Inl (FileNotFoundError ''missing shard'')))
      else (let files = sort (fs_safetensors fs path) in
            Inr (if files \<noteq> [] then Some files else None)))"

datatype weight_source = KtWeightPath string | FullCheckpoint string | CheckpointFiles "string list" | ModelWeights

definition raw_format :: "'r kt_config \<Rightarrow> bool" where
  "raw_format c = (kt_expert_weight_format c \<in> {Some ''fp8'', Some ''rawint4''})"

definition use_kt_weight_path :: "'r kt_config \<Rightarrow> bool" where
  "use_kt_weight_path c = (kt_weight_path c \<noteq> None \<and> \<not> raw_format c)"

text \<open>
  The recorded checkpoint files after lines 620 to 657; \<open>files\<close> are those the loader recorded
  before.
\<close>

definition recorded_files ::
  "file_system \<Rightarrow> (string \<Rightarrow> string list option) \<Rightarrow> string list option \<Rightarrow> 'r kt_config
     \<Rightarrow> string list option result" where
  "recorded_files fs hf_resolve files c =
     (let expert_path = kt_expert_checkpoint_path c;
          files1 = (if resolve_full_weight_checkpoint fs expert_path = None \<and> nonempty expert_path \<and>
                       all_safetensors (hf_resolve (the expert_path))
                    then hf_resolve (the expert_path) else files) in
      if raw_format c \<and> (files1 = None \<or> files1 = Some []) \<and> nonempty (kt_weight_path c)
      then rbind (resolve_raw_safetensors fs hf_resolve (the (kt_weight_path c))) (\<lambda>r.
           Inr (if r \<noteq> None then r else files1))
      else Inr files1)"

definition check_source :: "string option \<Rightarrow> 'r kt_config \<Rightarrow> unit result" where
  "check_source full c =
     (let fmt = kt_expert_weight_format c; expert_path = kt_expert_checkpoint_path c in
      rbind (require (fmt \<noteq> Some ''int8'' \<or> use_kt_weight_path c)
               (ConfigError ''INT8 requires kt_weight_path'')) (\<lambda>_.
      rbind (require (fmt \<noteq> Some ''int8'' \<or> (full = None \<and> \<not> nonempty expert_path))
               (ConfigError ''INT8 does not support Full checkpoints'')) (\<lambda>_.
      rbind (require (fmt \<noteq> Some ''fp8'' \<or> full = None)
               (ConfigError ''FP8 does not support KT Full checkpoints'')) (\<lambda>_.
      require (fmt \<noteq> Some ''rawint4'' \<or> (full = None \<and> \<not> nonempty expert_path))
        (ConfigError ''RAWINT4 does not support alternate checkpoints'')))))"

text \<open>Lines 659 and 688 to 726; \<open>model_path\<close> is the model's \<open>name_or_path\<close>.\<close>

definition final_source ::
  "(string \<Rightarrow> string list option) \<Rightarrow> string option \<Rightarrow> string option \<Rightarrow> string list option \<Rightarrow> 'r kt_config
     \<Rightarrow> weight_source result" where
  "final_source hf_resolve model_path full files c =
     (let use_kt = use_kt_weight_path c;
          use_files = (files \<noteq> None \<and> files \<noteq> Some [] \<and> \<not> use_kt \<and> full = None);
          skip = (\<not> use_kt \<and> full = None \<and> \<not> use_files \<and> truth (kt_skip_expert_loading c));
          late = (if skip \<and> nonempty model_path \<and> all_safetensors (hf_resolve (the model_path))
                  then hf_resolve (the model_path) else None) in
      if skip \<and> late = None then Inl (ConfigError ''kt_skip_expert_loading without expert weights'')
      else if raw_format c \<and> \<not> use_files \<and> late = None
      then Inl (ConfigError ''raw safetensors checkpoint files required'')
      else Inr (case full of
                  Some d \<Rightarrow> FullCheckpoint d
                | None \<Rightarrow>
                    (if late \<noteq> None then CheckpointFiles (the late)
                     else if use_files then CheckpointFiles (the files)
                     else if use_kt then KtWeightPath (the (kt_weight_path c))
                     else ModelWeights)))"

definition select_weight_source ::
  "file_system \<Rightarrow> (string \<Rightarrow> string list option) \<Rightarrow> string list option \<Rightarrow> string option
     \<Rightarrow> 'r kt_config \<Rightarrow> weight_source result" where
  "select_weight_source fs hf_resolve files model_path c =
     (let full = resolve_full_weight_checkpoint fs (kt_expert_checkpoint_path c) in
      if full \<noteq> None \<and> use_kt_weight_path c
      then Inl (ConfigError ''two authoritative expert weight sources'')
      else rbind (recorded_files fs hf_resolve files c) (\<lambda>files'.
           rbind (check_source full c) (\<lambda>_.
           final_source hf_resolve model_path full files' c)))"

section \<open>Configurations that pass both layers\<close>

lemma check_config_int8:
  assumes "check_config pol c = Inr ()" "kt_expert_weight_format c = Some ''int8''"
  shows "lora_only c" "int_or0 (kt_num_gpu_experts c) = 0" "\<not> truth (kt_use_lora_experts c)"
    "truth (kt_share_backward_bb c)" "\<not> nonempty (kt_expert_checkpoint_path c)" "nonempty (kt_weight_path c)"
  using assms by (simp_all add: check_config_def check_int8_def)

lemma check_config_fp8:
  assumes "check_config pol c = Inr ()" "kt_expert_weight_format c = Some ''fp8''"
  shows "lora_only c" "int_or0 (kt_lora_rank c) > 0" "int_or0 (kt_num_gpu_experts c) = 0"
    "\<not> truth (kt_use_lora_experts c)" "truth (kt_share_backward_bb c)" "persistent c"
  using assms by (simp_all add: check_config_def check_fp8_def persistent_def)

lemma check_config_rawint4:
  assumes "check_config pol c = Inr ()" "kt_expert_weight_format c = Some ''rawint4''"
  shows "lora_only c" "int_or0 (kt_lora_rank c) = 8"
    "feq (case kt_lora_dropout c of Some d \<Rightarrow> d | None \<Rightarrow> Finite 0) (Finite 0)"
    "effective_threadpool_count c \<in> {1, 2}"
    "int_or0 (kt_num_gpu_experts c) = 0" "\<not> truth (kt_use_lora_experts c)"
    "\<not> truth (kt_share_backward_bb c)" "truth (kt_force_fused_expert_lora c)"
    "\<not> nonempty (kt_expert_checkpoint_path c)" "persistent c"
    "\<not> (pol_cpu pol = ''retain'' \<and> pol_gpu pol = ''recompute'')"
  using assms by (simp_all add: check_config_def check_rawint4_def persistent_def)

text \<open>The public name of a format's backend, its kernel method and the condition the wrapper adds.\<close>

definition quantised :: "string \<Rightarrow> string \<Rightarrow> string \<Rightarrow> bool" where
  "quantised f b m = ((f, b, m) \<in> {(''int8'', ''INT8'', ''INT8_SFT''), (''fp8'', ''FP8'', ''AMXFP8_SFT''),
                                  (''rawint4'', ''RAWINT4'', ''RAWINT4_SFT'')})"

lemma settled_quantised_backend:
  assumes "backend_settled c" "kt_expert_weight_format c = Some f" "quantised f n m"
  shows "kt_backend c = Some n \<and> kt_method n = Inr m"
proof -
  obtain b where b: "kt_backend c = Some b" "lower b \<in> known_sft_backends"
    "normalize_sft_backend b (Some f) = (b, False)" "lower b = backend_of_format f"
    using assms(1,2) by (auto simp: backend_settled_def split: option.splits)
  have "strip (lower b) = lower b" using known_no_space [OF b(2)] .
  then have "lower (strip b) = backend_of_format f" using b(4) by (simp add: lower_strip)
  then have "normalize_sft_backend b (Some f) = (n, False)"
    using assms(3) unfolding quantised_def
    by (elim insertE emptyE) (simp_all add: normalize_sft_backend_def backend_of_format_def Let_def)
  moreover have "kt_method n = Inr m"
    using assms(3) unfolding quantised_def
    by (elim insertE emptyE) (simp_all add: kt_method_def kt_backend_map_def)
  ultimately show ?thesis using b by simp
qed

text \<open>
  C26. A configuration accepted by \<open>KTConfig\<close> for a quantised format passes every check the
  wrapper makes for that format and for the activation policy, is bound to the format's own kernel
  method and always runs with authoritative optimizer gradients. For INT8 this needs a LoRA rank
  that is unset or positive: the configuration does not check it, the wrapper does.
\<close>

theorem accepted_quantised_config_wraps:
  assumes "post_init h loads pf c0 p = (Inr c, p')"
    and "kt_expert_weight_format c = Some f" "quantised f b m"
    and "f = ''int8'' \<longrightarrow> (\<forall>r. kt_lora_rank c = Some r \<longrightarrow> r > 0)"
  shows "\<exists>pol. kt_activation_policy c = Some (Policy pol) \<and> kt_backend c = Some b \<and>
    wrap_method pol c = Inr m \<and>
    supports_authoritative_optimizer_grads m (int_or0 (kt_num_gpu_experts c))
      (truth (kt_full_weight_grad c)) (wrap_lora_rank c)"
proof -
  obtain pol where s: "settled pf p' pol c" using post_init_settles [OF assms(1)] by blast
  then have chk: "check_config pol c = Inr ()" and pol: "kt_activation_policy c = Some (Policy pol)"
    and b: "kt_backend c = Some b" "kt_method b = Inr m"
    using settled_quantised_backend [OF _ assms(2,3)] by (simp_all add: settled_def)
  have rank: "kt_lora_rank c = Some r \<Longrightarrow> wrap_lora_rank c = r" "kt_lora_rank c = None \<Longrightarrow> wrap_lora_rank c = 1"
    if "lora_only c" for r using that by (auto simp: wrap_lora_rank_def lora_only_def Let_def)
  from assms(3) consider "f = ''int8''" "m = ''INT8_SFT''" | "f = ''fp8''" "m = ''AMXFP8_SFT''"
    | "f = ''rawint4''" "m = ''RAWINT4_SFT''"
    unfolding quantised_def by blast
  then have "wrap_method pol c = Inr m \<and>
    supports_authoritative_optimizer_grads m (int_or0 (kt_num_gpu_experts c))
      (truth (kt_full_weight_grad c)) (wrap_lora_rank c)"
  proof cases
    case 1
    note k = check_config_int8 [OF chk assms(2) [unfolded 1]]
    have "wrap_lora_rank c > 0" using rank [OF k(1)] assms(4) 1 by (cases "kt_lora_rank c") auto
    with k b assms(2) 1 show ?thesis
      by (simp add: wrap_method_def wrap_check_int8_def check_activation_policy_def frozen_lora_def
          lora_only_def cpu_experts_only_def supports_checkpoint_forward_reuse_def
          supports_authoritative_optimizer_grads_def is_int8_sft_method_def)
  next
    case 2
    note k = check_config_fp8 [OF chk assms(2) [unfolded 2]]
    have "wrap_lora_rank c > 0" using rank [OF k(1)] k(2) by (cases "kt_lora_rank c") (auto simp: int_or0_def)
    with k b assms(2) 2 show ?thesis
      by (simp add: wrap_method_def wrap_check_fp8_def check_activation_policy_def frozen_lora_def
          lora_only_def cpu_experts_only_def supports_checkpoint_forward_reuse_def
          supports_authoritative_optimizer_grads_def is_fp8_sft_method_def)
  next
    case 3
    note k = check_config_rawint4 [OF chk assms(2) [unfolded 3]]
    have "wrap_lora_rank c = 8" using rank [OF k(1)] k(2) by (cases "kt_lora_rank c") (auto simp: int_or0_def)
    with k b assms(2) 3 show ?thesis
      by (simp add: wrap_method_def wrap_check_rawint4_def check_activation_policy_def frozen_lora_def
          lora_only_def cpu_experts_only_def supports_checkpoint_forward_reuse_def
          supports_authoritative_optimizer_grads_def is_rawint4_sft_method_def)
  qed
  with pol b show ?thesis by blast
qed

theorem accepted_quantised_config_wraps_witness:
  "\<exists>c p. sample_run [] = (Inr c, p) \<and>
     wrap_method \<lparr>pol_cpu = ''recompute'', pol_gpu = ''recompute''\<rparr> c = Inr ''RAWINT4_SFT''"
proof -
  let ?pol = "\<lparr>pol_cpu = ''recompute'', pol_gpu = ''recompute''\<rparr>"
  have "(case sample_run [] of (Inr c, p) \<Rightarrow> kt_expert_weight_format c = Some ''rawint4'' \<and>
           kt_activation_policy c = Some (Policy ?pol) | _ \<Rightarrow> False)" by code_simp
  then obtain c p where r: "sample_run [] = (Inr c, p)" and f: "kt_expert_weight_format c = Some ''rawint4''"
    and pol: "kt_activation_policy c = Some (Policy ?pol)"
    by (auto split: prod.splits sum.splits)
  have "quantised ''rawint4'' ''RAWINT4'' ''RAWINT4_SFT''" by (simp add: quantised_def)
  from accepted_quantised_config_wraps [OF r [unfolded sample_run_def] f this] pol r show ?thesis
    by auto
qed

text \<open>
  When rank 0 fails in a wrapping stage, every rank of an initialised process group raises;
  when the group is not initialised yet, rank 0 alone raises and the other ranks go on. When rank 0
  succeeds, no rank raises.
\<close>

theorem wrap_error_coherence:
  "is_ok (sync_rank0_wrap_error initialized rank world (if rank = 0 then err else None) err) =
   (if err = None then True else if world > 1 \<and> initialized then False else rank \<noteq> 0)"
  by (auto simp: sync_rank0_wrap_error_def split: option.splits)

lemma all_safetensors_files: "all_safetensors x \<Longrightarrow> \<exists>l. x = Some l \<and> l \<noteq> []"
  by (cases x) (auto simp: all_safetensors_def)

lemma final_source_cases:
  assumes "final_source hf model_path full files c = Inr s"
  shows "case s of
      KtWeightPath p \<Rightarrow> kt_weight_path c = Some p \<and> \<not> raw_format c \<and> full = None
    | FullCheckpoint d \<Rightarrow> full = Some d
    | CheckpointFiles l \<Rightarrow> l \<noteq> [] \<and> full = None \<and> \<not> use_kt_weight_path c
    | ModelWeights \<Rightarrow> full = None \<and> kt_weight_path c = None \<and> \<not> raw_format c \<and>
        \<not> truth (kt_skip_expert_loading c)"
proof (cases full)
  case None
  let ?kt = "use_kt_weight_path c"
  let ?use = "files \<noteq> None \<and> files \<noteq> Some [] \<and> \<not> ?kt"
  let ?skip = "\<not> ?kt \<and> \<not> ?use \<and> truth (kt_skip_expert_loading c)"
  consider "\<not> ?skip" | "?skip" "nonempty model_path" "all_safetensors (hf (the model_path))"
    | "?skip" "\<not> (nonempty model_path \<and> all_safetensors (hf (the model_path)))" by blast
  then show ?thesis
  proof cases
    case 1
    with assms None show ?thesis
      by (auto simp: final_source_def Let_def use_kt_weight_path_def split: if_splits)
  next
    case 2
    with all_safetensors_files [OF 2(3)] assms None show ?thesis
      by (auto simp: final_source_def)
  next
    case 3
    with assms None show ?thesis by (auto simp: final_source_def)
  qed
qed (use assms in \<open>auto simp: final_source_def Let_def split: if_splits\<close>)

text \<open>
  The weight source is unambiguous and fits the format: \<open>.kt\<close> weights are only used when no
  Full checkpoint is selected and never for FP8 or RAWINT4; a Full checkpoint excludes
  \<open>kt_weight_path\<close> and every quantised format; FP8 and RAWINT4 always read a non-empty list of
  safetensors files; and the model's own weights are only used for an unquantised format whose
  expert weights were not skipped at load time.
\<close>

theorem weight_source_sound:
  assumes "select_weight_source fs hf files model_path c = Inr s"
  shows "case s of
      KtWeightPath p \<Rightarrow> kt_weight_path c = Some p \<and>
        kt_expert_weight_format c \<notin> {Some ''fp8'', Some ''rawint4''} \<and>
        resolve_full_weight_checkpoint fs (kt_expert_checkpoint_path c) = None
    | FullCheckpoint d \<Rightarrow> resolve_full_weight_checkpoint fs (kt_expert_checkpoint_path c) = Some d \<and>
        kt_weight_path c = None \<and>
        kt_expert_weight_format c \<notin> {Some ''int8'', Some ''fp8'', Some ''rawint4''}
    | CheckpointFiles l \<Rightarrow> l \<noteq> [] \<and> kt_expert_weight_format c \<noteq> Some ''int8'' \<and>
        resolve_full_weight_checkpoint fs (kt_expert_checkpoint_path c) = None \<and>
        (kt_weight_path c = None \<or> kt_expert_weight_format c \<in> {Some ''fp8'', Some ''rawint4''})
    | ModelWeights \<Rightarrow> kt_weight_path c = None \<and> \<not> truth (kt_skip_expert_loading c) \<and>
        kt_expert_weight_format c \<notin> {Some ''int8'', Some ''fp8'', Some ''rawint4''}"
proof -
  let ?full = "resolve_full_weight_checkpoint fs (kt_expert_checkpoint_path c)"
  obtain files' where one: "\<not> (?full \<noteq> None \<and> use_kt_weight_path c)"
    and chk: "check_source ?full c = Inr ()" and fin: "final_source hf model_path ?full files' c = Inr s"
    using assms by (auto simp: select_weight_source_def Let_def split: if_splits)
  have full: "?full \<noteq> None \<Longrightarrow> kt_weight_path c = None \<and>
      kt_expert_weight_format c \<notin> {Some ''int8'', Some ''fp8'', Some ''rawint4''}"
    and int8: "kt_expert_weight_format c = Some ''int8'' \<Longrightarrow> use_kt_weight_path c"
    using chk one by (auto simp: check_source_def Let_def use_kt_weight_path_def raw_format_def)
  show ?thesis
    using final_source_cases [OF fin] full int8
    by (cases s) (auto simp: use_kt_weight_path_def raw_format_def)
qed

definition sample_fs :: file_system where
  "sample_fs = \<lparr>fs_isfile = (\<lambda>p. p \<in> {''/m/model.safetensors.index.json'', ''/m/a.safetensors'', ''/m/b.safetensors''}),
     fs_isdir = (\<lambda>p. p = ''/m''),
     fs_weight_map = (\<lambda>_. Inr (Some [(''w1'', ''b.safetensors''), (''w2'', ''a.safetensors''), (''w3'', ''b.safetensors'')])),
     fs_safetensors = (\<lambda>_. []), fs_abspath = (\<lambda>p. p)\<rparr>"

theorem weight_source_sound_witness:
  "select_weight_source sample_fs (\<lambda>_. None) None None
     (sample_config\<lparr>kt_expert_weight_format := Some ''rawint4'', kt_weight_path := Some ''/m''\<rparr>) =
     Inr (CheckpointFiles [''/m/a.safetensors'', ''/m/b.safetensors'']) \<and>
   kt_expert_weight_format (sample_config\<lparr>kt_expert_weight_format := Some ''rawint4'',
     kt_weight_path := Some ''/m''\<rparr>) \<noteq> Some ''int8''"
proof -
  have r: "select_weight_source sample_fs (\<lambda>_. None) None None
     (sample_config\<lparr>kt_expert_weight_format := Some ''rawint4'', kt_weight_path := Some ''/m''\<rparr>) =
     Inr (CheckpointFiles [''/m/a.safetensors'', ''/m/b.safetensors''])" by code_simp
  from weight_source_sound [OF this] r show ?thesis by simp
qed

text \<open>
  \<open>KTConfig\<close> does not check the LoRA rank of an INT8 run: an accepted INT8 configuration with
  an explicit rank that is not positive is only refused later, when the wrapper looks at it, while
  FP8 and RAWINT4 refuse such a rank at construction.
\<close>

theorem int8_rank_checked_late:
  assumes "post_init h loads pf c0 p = (Inr c, p')" "kt_lora_rank c = Some r" "r \<le> 0"
  shows "kt_expert_weight_format c \<notin> {Some ''fp8'', Some ''rawint4''} \<and>
    (if kt_expert_weight_format c = Some ''int8''
     then \<exists>pol. kt_activation_policy c = Some (Policy pol) \<and>
       wrap_method pol c = Inl (ConfigError ''INT8 LoRA only'')
     else True)"
proof -
  obtain pol where s: "settled pf p' pol c" using post_init_settles [OF assms(1)] by blast
  then have chk: "check_config pol c = Inr ()" and pol: "kt_activation_policy c = Some (Policy pol)"
    and b: "backend_settled c" by (simp_all add: settled_def)
  have "kt_expert_weight_format c \<noteq> Some ''fp8''" "kt_expert_weight_format c \<noteq> Some ''rawint4''"
    using check_config_fp8(2) [OF chk] check_config_rawint4(2) [OF chk] assms(2,3)
    by (auto simp: int_or0_def)
  moreover have "wrap_method pol c = Inl (ConfigError ''INT8 LoRA only'')"
    if f: "kt_expert_weight_format c = Some ''int8''"
  proof -
    have "quantised ''int8'' ''INT8'' ''INT8_SFT''" by (simp add: quantised_def)
    from settled_quantised_backend [OF b f this]
    have "kt_backend c = Some ''INT8''" "kt_method ''INT8'' = Inr ''INT8_SFT''" by simp_all
    moreover have "\<not> wrap_lora_rank c > 0"
      using check_config_int8(1) [OF chk f] assms(2,3) by (simp add: wrap_lora_rank_def lora_only_def Let_def)
    ultimately show ?thesis using f by (simp add: wrap_method_def wrap_check_int8_def)
  qed
  ultimately show ?thesis using pol by simp
qed

definition sample_int8 :: "int kt_config" where
  "sample_int8 = default_config\<lparr>kt_expert_weight_format := Some ''INT8'', kt_lora_rank := Some 0,
     kt_weight_path := Some ''/w''\<rparr>"

theorem int8_rank_checked_late_witness:
  "\<exists>c p. post_init sample_host (\<lambda>_. None) (\<lambda>_. None) sample_int8 (sample_proc []) = (Inr c, p) \<and>
     kt_expert_weight_format c = Some ''int8'' \<and>
     (\<exists>pol. kt_activation_policy c = Some (Policy pol) \<and> \<not> is_ok (wrap_method pol c))"
proof -
  have "(case post_init sample_host (\<lambda>_. None) (\<lambda>_. None) sample_int8 (sample_proc []) of
           (Inr c, p) \<Rightarrow> kt_expert_weight_format c = Some ''int8'' \<and> kt_lora_rank c = Some 0 | _ \<Rightarrow> False)"
    by code_simp
  then obtain c p where r: "post_init sample_host (\<lambda>_. None) (\<lambda>_. None) sample_int8 (sample_proc []) = (Inr c, p)"
    and f: "kt_expert_weight_format c = Some ''int8''" "kt_lora_rank c = Some 0"
    by (auto split: prod.splits sum.splits)
  from int8_rank_checked_late [OF r f(2)] r f show ?thesis by (auto simp: is_ok_def)
qed

text \<open>
  An empty \<open>kt_weight_path\<close> (an empty environment variable is enough) still selects the \<open>.kt\<close>
  loader for an unquantised format, although every other empty variable counts as unset.
\<close>

lemma empty_weight_path_selected:
  "select_weight_source fs hf None None
     (default_config\<lparr>kt_weight_path := Some [], kt_expert_weight_format := Some ''bf16''\<rparr>) =
   Inr (KtWeightPath [])"
  by (simp add: select_weight_source_def recorded_files_def check_source_def final_source_def Let_def
      default_config_def resolve_full_weight_checkpoint_def raw_format_def use_kt_weight_path_def nonempty_def)

end
