(* ===== verification/FileTree.thy ===== *)
theory FileTree
  imports Prelude "HOL-Library.Sublist"
begin

text \<open>
  The file system as the checkpoint and weight-store code sees it: a finite map from absolute
  physical paths (lists of components) to directories, regular files and symbolic links, with the
  \<open>os\<close> and \<open>pathlib\<close> operations the code calls. A directory records its owner and whether group
  or others may write it; a file its size and content; a link the physical path it finally resolves
  to. The order of the map is the order in which a directory is listed.
\<close>

type_synonym path = "string list"

datatype 'c node = Dir int bool | File int 'c | Link path

type_synonym 'c tree = "(path, 'c node) dict"

section \<open>Paths\<close>

definition slash :: char where
  "slash = CHR ''/''"

text \<open>\<open>PurePosixPath(s).is_absolute()\<close>, its components below the root and \<open>as_posix()\<close>.\<close>

definition is_absolute :: "string \<Rightarrow> bool" where
  "is_absolute s = starts_with [slash] s"

definition path_parts :: "string \<Rightarrow> path" where
  "path_parts s = filter (\<lambda>c. c \<noteq> [] \<and> c \<noteq> ''.'') (split_on slash s)"

fun join_path :: "path \<Rightarrow> string" where
  "join_path [] = []"
| "join_path [c] = c"
| "join_path (c # cs) = c @ slash # join_path cs"

text \<open>A name that a directory can list.\<close>

definition entry_name :: "string \<Rightarrow> bool" where
  "entry_name c \<longleftrightarrow> c \<noteq> [] \<and> c \<noteq> ''.'' \<and> c \<noteq> ''..'' \<and> slash \<notin> set c"

lemma split_on_no [simp]: "sep \<notin> set c \<Longrightarrow> split_on sep c = [c]"
  by (induction c) auto

lemma split_on_append: "sep \<notin> set c \<Longrightarrow> split_on sep (c @ sep # s) = c # split_on sep s"
  by (induction c) auto

lemma split_join: "cs \<noteq> [] \<Longrightarrow> \<forall>c \<in> set cs. slash \<notin> set c \<Longrightarrow> split_on slash (join_path cs) = cs"
  by (induction cs rule: join_path.induct) (simp_all add: split_on_append)

lemma path_parts_join: "\<forall>c \<in> set cs. entry_name c \<Longrightarrow> path_parts (join_path cs) = cs"
  by (cases cs) (auto simp: path_parts_def split_join entry_name_def filter_id_conv)

lemma join_path_inj:
  "\<forall>c \<in> set cs. entry_name c \<Longrightarrow> \<forall>c \<in> set ds. entry_name c \<Longrightarrow> join_path cs = join_path ds \<longleftrightarrow> cs = ds"
  by (metis path_parts_join)

lemma join_path_relative:
  assumes "\<forall>c \<in> set cs. entry_name c"
  shows "\<not> is_absolute (join_path cs)"
proof (cases cs)
  case (Cons c ds)
  with assms obtain x xs where "c = x # xs" "x \<noteq> slash" by (cases c) (auto simp: entry_name_def)
  with Cons show ?thesis by (cases ds) (simp_all add: is_absolute_def)
qed (simp add: is_absolute_def)

section \<open>Lookup\<close>

definition link_target :: "'c tree \<Rightarrow> path \<Rightarrow> path option" where
  "link_target fs p = (case dget fs p of Some (Link t) \<Rightarrow> Some t | _ \<Rightarrow> None)"

fun canon_from :: "'c tree \<Rightarrow> path \<Rightarrow> path \<Rightarrow> path" where
  "canon_from fs cur [] = cur"
| "canon_from fs cur (c # cs) =
     (case link_target fs (cur @ [c]) of
        Some t \<Rightarrow> canon_from fs t cs
      | None \<Rightarrow> canon_from fs (cur @ [c]) cs)"

text \<open>\<open>Path.resolve()\<close>, and the physical path of a directory entry (its last component not followed).\<close>

definition resolve :: "'c tree \<Rightarrow> path \<Rightarrow> path" where
  "resolve fs p = canon_from fs [] p"

definition phys :: "'c tree \<Rightarrow> path \<Rightarrow> path" where
  "phys fs p = resolve fs (butlast p) @ [last p]"

definition lstat :: "'c tree \<Rightarrow> path \<Rightarrow> 'c node option" where
  "lstat fs p = dget fs (phys fs p)"

definition stat :: "'c tree \<Rightarrow> path \<Rightarrow> 'c node option" where
  "stat fs p = dget fs (resolve fs p)"

definition is_link :: "'c tree \<Rightarrow> path \<Rightarrow> bool" where
  "is_link fs p = (case lstat fs p of Some (Link _) \<Rightarrow> True | _ \<Rightarrow> False)"

definition is_file :: "'c tree \<Rightarrow> path \<Rightarrow> bool" where
  "is_file fs p = (case stat fs p of Some (File _ _) \<Rightarrow> True | _ \<Rightarrow> False)"

definition is_dir :: "'c tree \<Rightarrow> path \<Rightarrow> bool" where
  "is_dir fs p = (case stat fs p of Some (Dir _ _) \<Rightarrow> True | _ \<Rightarrow> False)"

definition path_exists :: "'c tree \<Rightarrow> path \<Rightarrow> bool" where
  "path_exists fs p = (stat fs p \<noteq> None)"

definition file_size :: "'c tree \<Rightarrow> path \<Rightarrow> int" where
  "file_size fs p = (case stat fs p of Some (File n _) \<Rightarrow> n | _ \<Rightarrow> 0)"

definition children :: "'c tree \<Rightarrow> path \<Rightarrow> string list" where
  "children fs d = map last (filter (\<lambda>q. q \<noteq> [] \<and> butlast q = d) (dkeys fs))"

definition iterdir :: "'c tree \<Rightarrow> path \<Rightarrow> string list" where
  "iterdir fs p = children fs (resolve fs p)"

text \<open>
  \<open>os.walk(p, followlinks=False)\<close>: the entries below \<open>p\<close> that are not directories, as paths
  relative to \<open>p\<close>; a link is an entry of its directory, listed as a file unless it leads to a
  directory, and is never descended.
\<close>

definition walk_files :: "'c tree \<Rightarrow> path \<Rightarrow> path list" where
  "walk_files fs p =
     (let d = resolve fs p in
      map (\<lambda>q. drop (length d) q)
        (filter (\<lambda>q. strict_prefix d q \<and>
           (case dget fs q of Some (File _ _) \<Rightarrow> True | Some (Link t) \<Rightarrow> \<not> is_dir fs t | _ \<Rightarrow> False))
         (dkeys fs)))"

section \<open>Changes\<close>

definition unlink :: "path \<Rightarrow> 'c tree \<Rightarrow> 'c tree result" where
  "unlink p fs =
     (case lstat fs p of
        None \<Rightarrow> Inl (FileNotFoundError ''unlink'')
      | Some (Dir _ _) \<Rightarrow> Inl (OSError ''is a directory'')
      | Some _ \<Rightarrow> Inr (ddel fs (phys fs p)))"

definition rmdir :: "path \<Rightarrow> 'c tree \<Rightarrow> 'c tree result" where
  "rmdir p fs =
     (case lstat fs p of
        None \<Rightarrow> Inl (FileNotFoundError ''rmdir'')
      | Some (Dir _ _) \<Rightarrow>
          (if children fs (phys fs p) = [] then Inr (ddel fs (phys fs p)) else Inl (OSError ''directory not empty''))
      | Some _ \<Rightarrow> Inl (OSError ''not a directory''))"

text \<open>\<open>open(p, "x")\<close> followed by writing \<open>n\<close> bytes of content \<open>c\<close>.\<close>

definition create_file :: "path \<Rightarrow> int \<Rightarrow> 'c \<Rightarrow> 'c tree \<Rightarrow> 'c tree result" where
  "create_file p n c fs =
     (if \<not> is_dir fs (butlast p) then Inl (FileNotFoundError ''open'')
      else if lstat fs p \<noteq> None then Inl (FileExistsError ''open'')
      else Inr (dset fs (phys fs p) (File n c)))"

text \<open>\<open>os.replace\<close> of a file, and of a directory with everything below it to a free name.\<close>

definition replace_file :: "path \<Rightarrow> path \<Rightarrow> 'c tree \<Rightarrow> 'c tree result" where
  "replace_file src dst fs =
     (case lstat fs src of
        Some (File n c) \<Rightarrow>
          (case lstat fs dst of
             Some (Dir _ _) \<Rightarrow> Inl (OSError ''is a directory'')
           | _ \<Rightarrow> Inr (dset (ddel fs (phys fs src)) (phys fs dst) (File n c)))
      | _ \<Rightarrow> Inl (FileNotFoundError ''replace''))"

definition move_key :: "path \<Rightarrow> path \<Rightarrow> path \<Rightarrow> path" where
  "move_key src dst q = (if prefix src q then dst @ drop (length src) q else q)"

definition rename_dir :: "path \<Rightarrow> path \<Rightarrow> 'c tree \<Rightarrow> 'c tree" where
  "rename_dir src dst fs = map (\<lambda>(q, n). (move_key src dst q, n)) fs"

section \<open>Trees without links below a root\<close>

text \<open>
  A well-formed tree: every entry has a proper name and a directory as parent. Below a resolved root
  without links, logical and physical paths agree.
\<close>

definition tree_wf :: "'c tree \<Rightarrow> bool" where
  "tree_wf fs \<longleftrightarrow> dwf fs \<and>
     (\<forall>p n. dget fs p = Some n \<longrightarrow> p \<noteq> [] \<and> entry_name (last p) \<and>
        (butlast p \<noteq> [] \<longrightarrow> (\<exists>u w. dget fs (butlast p) = Some (Dir u w))))"

definition plain_root :: "'c tree \<Rightarrow> path \<Rightarrow> bool" where
  "plain_root fs r \<longleftrightarrow> r \<noteq> [] \<and> resolve fs r = r \<and> (\<forall>q. link_target fs (r @ q) = None)"

definition same_links :: "'c tree \<Rightarrow> 'c tree \<Rightarrow> bool" where
  "same_links fs fs' \<longleftrightarrow> link_target fs = link_target fs'"

lemma link_target_Some: "link_target fs p = Some t \<longleftrightarrow> dget fs p = Some (Link t)"
  by (simp add: link_target_def split: option.split node.split)

lemma link_target_None: "link_target fs p = None \<longleftrightarrow> (\<forall>t. dget fs p \<noteq> Some (Link t))"
  by (simp add: link_target_def split: option.split node.split)

lemma canon_from_append: "canon_from fs cur (a @ b) = canon_from fs (canon_from fs cur a) b"
  by (induction a arbitrary: cur) (auto split: option.splits)

lemma canon_from_same: "same_links fs fs' \<Longrightarrow> canon_from fs cur p = canon_from fs' cur p"
  by (induction p arbitrary: cur) (simp_all add: same_links_def split: option.split)

lemma resolve_same: "same_links fs fs' \<Longrightarrow> resolve fs p = resolve fs' p"
  by (simp add: resolve_def canon_from_same)

lemma plain_root_same: "same_links fs fs' \<Longrightarrow> plain_root fs r \<Longrightarrow> plain_root fs' r"
  by (simp add: plain_root_def resolve_same [of fs fs'] same_links_def)

lemma canon_from_plain: "(\<And>q. link_target fs (r @ q) = None) \<Longrightarrow> canon_from fs r p = r @ p"
proof (induction p arbitrary: r)
  case (Cons c cs)
  have "link_target fs ((r @ [c]) @ q) = None" for q using Cons.prems [of "c # q"] by simp
  from Cons.IH [OF this] Cons.prems [of "[c]"] show ?case by simp
qed simp

lemma resolve_plain: "plain_root fs r \<Longrightarrow> resolve fs (r @ p) = r @ p"
  by (simp add: plain_root_def resolve_def canon_from_append canon_from_plain)

lemma phys_plain: "plain_root fs r \<Longrightarrow> p \<noteq> [] \<Longrightarrow> phys fs (r @ p) = r @ p"
  by (simp add: phys_def resolve_plain butlast_append)

lemma stat_plain: "plain_root fs r \<Longrightarrow> stat fs (r @ p) = dget fs (r @ p)"
  by (simp add: stat_def resolve_plain)

lemma lstat_plain: "plain_root fs r \<Longrightarrow> p \<noteq> [] \<Longrightarrow> lstat fs (r @ p) = dget fs (r @ p)"
  by (simp add: lstat_def phys_plain)

lemma iterdir_plain: "plain_root fs r \<Longrightarrow> iterdir fs (r @ p) = children fs (r @ p)"
  by (simp add: iterdir_def resolve_plain)

lemma is_link_plain: "plain_root fs r \<Longrightarrow> p \<noteq> [] \<Longrightarrow> \<not> is_link fs (r @ p)"
  by (auto simp: is_link_def lstat_plain plain_root_def link_target_None split: option.split node.split)

lemmas plain_simps = resolve_plain phys_plain stat_plain lstat_plain iterdir_plain is_link_plain

lemma same_links_refl [simp]: "same_links fs fs"
  by (simp add: same_links_def)

lemma same_links_trans: "same_links a b \<Longrightarrow> same_links b c \<Longrightarrow> same_links a c"
  by (auto simp: same_links_def)

lemma same_links_ddel: "link_target fs p = None \<Longrightarrow> same_links fs (ddel fs p)"
  by (auto simp: same_links_def link_target_def fun_eq_iff)

lemma same_links_dset:
  "link_target fs p = None \<Longrightarrow> (\<And>t. n \<noteq> Link t) \<Longrightarrow> same_links fs (dset fs p n)"
  by (cases n) (auto simp: same_links_def link_target_def fun_eq_iff)

lemma children_mem: "c \<in> set (children fs d) \<longleftrightarrow> dmem fs (d @ [c])"
proof
  assume "c \<in> set (children fs d)"
  then obtain q where q: "q \<in> set (dkeys fs)" "q \<noteq> []" "butlast q = d" "last q = c"
    by (auto simp: children_def)
  from q(2-4) have "q = d @ [c]" by (metis append_butlast_last_id)
  with q(1) show "dmem fs (d @ [c])" by (simp add: dmem_def)
next
  assume "dmem fs (d @ [c])"
  then show "c \<in> set (children fs d)" by (force simp: children_def dmem_def)
qed

lemma children_empty: "children fs d = [] \<longleftrightarrow> (\<forall>c. \<not> dmem fs (d @ [c]))"
  by (metis children_mem list.set_intros(1) neq_Nil_conv empty_iff list.set(1))

lemma wf_parent:
  "tree_wf fs \<Longrightarrow> dmem fs (d @ q @ [c]) \<Longrightarrow> d \<noteq> [] \<Longrightarrow> \<exists>u w. dget fs (d @ q) = Some (Dir u w)"
proof -
  assume wf: "tree_wf fs" and m: "dmem fs (d @ q @ [c])" and d: "d \<noteq> []"
  obtain n where n: "dget fs (d @ q @ [c]) = Some n" using dmem_dget [OF m] by blast
  then have "butlast (d @ q @ [c]) \<noteq> [] \<longrightarrow> (\<exists>u w. dget fs (butlast (d @ q @ [c])) = Some (Dir u w))"
    using wf unfolding tree_wf_def by blast
  with d show ?thesis by (simp add: butlast_append)
qed

text \<open>A directory that lists nothing has nothing below it.\<close>

lemma empty_dir_below:
  assumes "tree_wf fs" "d \<noteq> []" "children fs d = []"
  shows "\<not> dmem fs (d @ q) \<or> q = []"
proof (induction q rule: rev_induct)
  case (snoc c q)
  show ?case
  proof (cases q)
    case Nil
    with assms(3) show ?thesis by (simp add: children_empty)
  next
    case (Cons a as)
    with snoc wf_parent [OF assms(1), of d q c] assms(2) show ?thesis
      by (metis append.assoc dget_Some_dmem list.distinct(1))
  qed
qed simp

lemma tree_wf_ddel:
  assumes "tree_wf fs" "children fs p = []"
  shows "tree_wf (ddel fs p)"
proof -
  have "butlast q \<noteq> p" if "dget fs q = Some n" for q n
  proof
    assume p: "butlast q = p"
    from that assms(1) have "q \<noteq> []" by (auto simp: tree_wf_def)
    with p have "q = p @ [last q]" by (metis append_butlast_last_id)
    with assms(2) dget_Some_dmem [OF that] show False by (metis children_empty)
  qed
  with assms(1) show ?thesis by (auto simp: tree_wf_def split: if_splits)
qed

lemma file_no_children: "tree_wf fs \<Longrightarrow> dget fs p = Some (File n c) \<Longrightarrow> children fs p = []"
proof -
  assume wf: "tree_wf fs" and f: "dget fs p = Some (File n c)"
  have "\<not> dmem fs (p @ [x])" for x
  proof
    assume "dmem fs (p @ [x])"
    moreover have "p \<noteq> []" using wf f by (auto simp: tree_wf_def)
    ultimately show False using wf_parent [OF wf, of p "[]" x] f by simp
  qed
  then show ?thesis by (simp add: children_empty)
qed

lemma tree_wf_dset_file:
  assumes "tree_wf fs" "dget fs (butlast p) = Some (Dir u w)" "entry_name (last p)" "p \<noteq> []"
    "\<forall>u w. dget fs p \<noteq> Some (Dir u w)"
  shows "tree_wf (dset fs p (File n c))"
proof -
  have "butlast p \<noteq> p" using assms(4) by (metis append_butlast_last_id append_self_conv list.distinct(1))
  moreover have "butlast q \<noteq> p" if "dget fs q = Some m" "butlast q \<noteq> []" for q m
    using that assms(1,5) unfolding tree_wf_def by metis
  ultimately show ?thesis using assms unfolding tree_wf_def
    by (auto split: if_splits)
qed

text \<open>In a well-formed tree every entry is stored under its physical path.\<close>

lemma resolve_parent: "tree_wf fs \<Longrightarrow> dmem fs p \<Longrightarrow> resolve fs (butlast p) = butlast p"
proof (induction p rule: rev_induct)
  case (snoc c p)
  show ?case
  proof (cases "p = []")
    case False
    obtain u w where d: "dget fs p = Some (Dir u w)"
      using dmem_dget [OF snoc.prems(2)] snoc.prems(1) False by (fastforce simp: tree_wf_def)
    have "resolve fs p = canon_from fs (resolve fs (butlast p)) [last p]"
      unfolding resolve_def using False by (metis append_butlast_last_id canon_from_append)
    also have "\<dots> = p"
      using snoc.IH [OF snoc.prems(1) dget_Some_dmem [OF d]] d False by (simp add: link_target_def)
    finally show ?thesis by simp
  qed (simp add: resolve_def)
qed (simp add: resolve_def)

lemma phys_self: "tree_wf fs \<Longrightarrow> dmem fs p \<Longrightarrow> phys fs p = p"
proof -
  assume wf: "tree_wf fs" and m: "dmem fs p"
  then have "p \<noteq> []" using dmem_dget [OF m] by (auto simp: tree_wf_def)
  then show ?thesis by (simp add: phys_def resolve_parent [OF wf m])
qed

text \<open>Well-formedness of a concrete tree, entry by entry.\<close>

lemma tree_wf_all:
  "tree_wf fs \<longleftrightarrow> dwf fs \<and> list_all (\<lambda>(p, n). p \<noteq> [] \<and> entry_name (last p) \<and>
     (butlast p = [] \<or> (case dget fs (butlast p) of Some (Dir _ _) \<Rightarrow> True | _ \<Rightarrow> False))) fs"
  if "dwf fs"
proof -
  have "(\<forall>p n. dget fs p = Some n \<longrightarrow> Q p) \<longleftrightarrow> list_all (\<lambda>(p, n). Q p) fs" for Q
    using that by (force simp: dget_def dwf_def dkeys_def list_all_iff map_of_eq_Some_iff)
  then show ?thesis
    unfolding tree_wf_def by (auto simp: list_all_iff split: option.splits node.splits)
qed

end
