(* ===== verification/Ephemeral.thy ===== *)
theory Ephemeral
  imports FileTree PyText "HOL-Library.List_Lexorder"
begin

text \<open>
  \<open>kt-kernel/python/sft/ephemeral.py\<close>: pre-quantised INT8 expert weights that live in
  \<open>/dev/shm\<close> for one run. A producer publishes a complete staging tree under its final name; the
  training process opens it (\<open>EphemeralKTWeightStore.open\<close>), deletes each layer once the kernel
  has loaded it (\<open>consume_layer\<close>) and removes the root (\<open>finish\<close>, or \<open>cleanup\<close> from a
  signal handler or at exit).

  The file system is a \<open>FileTree\<close>. A JSON document is kept decoded: \<open>ManifestFile\<close> and
  \<open>LeaseFile\<close> are the documents with the fields (and field types) of the code's dictionaries,
  \<open>OtherData\<close> is any other content, which every reader refuses. \<open>consume_layer\<close> is the list of
  primitive effects the code performs one after the other, so that an interruption is a prefix of it.
\<close>

section \<open>Documents\<close>

record file_entry =
  fe_path :: string
  fe_size :: int

record layer_entry =
  le_index :: int
  le_numa_count :: int
  le_state :: string
  le_files :: "file_entry list"
  le_bytes :: int

record manifest =
  mf_schema_version :: int
  mf_state :: string
  mf_run_id :: string
  mf_owner_uid :: int
  mf_producer_pid :: int
  mf_created_unix_ns :: int
  mf_format :: string
  mf_backend :: string
  mf_threadpool_count :: int
  mf_expert_num :: int
  mf_hidden_size :: int
  mf_intermediate_size :: int
  mf_layers :: "layer_entry list"
  mf_bytes :: int

record lease =
  ls_schema_version :: int
  ls_run_id :: string
  ls_owner_uid :: int
  ls_producer_pid :: int

datatype content = WeightData | ManifestFile manifest | LeaseFile lease | OtherData

type_synonym etree = "content tree"

text \<open>The calling process: its ids, the clock and the processes alive (\<open>/proc/<pid>\<close> exists).\<close>

record owner =
  ow_uid :: int
  ow_pid :: int
  ow_now :: int
  ow_alive :: "int \<Rightarrow> bool"

definition manifest_name :: string where
  "manifest_name = ''kt-ephemeral-manifest.json''"

definition staging_lease_name :: string where
  "staging_lease_name = ''kt-ephemeral-staging-lease.json''"

definition tmp_name :: "string \<Rightarrow> int \<Rightarrow> string" where
  "tmp_name name pid = ''.'' @ name @ ''.'' @ str_of_int pid @ ''.tmp''"

definition layer_name :: "int \<Rightarrow> string" where
  "layer_name i = ''_layer_'' @ str_of_int i"

definition numa_name :: "int \<Rightarrow> string" where
  "numa_name i = ''_numa_'' @ str_of_int i"

section \<open>The root\<close>

definition alnum :: "char \<Rightarrow> bool" where
  "alnum c = ((CHR ''A'' \<le> c \<and> c \<le> CHR ''Z'') \<or> (CHR ''a'' \<le> c \<and> c \<le> CHR ''z'') \<or>
              (CHR ''0'' \<le> c \<and> c \<le> CHR ''9''))"

definition valid_run_id :: "string \<Rightarrow> bool" where
  "valid_run_id s =
     (case s of
        [] \<Rightarrow> False
      | c # cs \<Rightarrow> alnum c \<and> 5 \<le> length cs \<and> length cs \<le> 127 \<and>
          list_all (\<lambda>d. alnum d \<or> d \<in> {CHR ''.'', CHR ''_'', CHR ''-''}) cs)"

definition root_name :: "string \<Rightarrow> bool \<Rightarrow> string" where
  "root_name run_id staging = ''kt-int8-'' @ run_id @ (if staging then ''.staging'' else [])"

definition ephemeral_base :: path where
  "ephemeral_base = [''dev'', ''shm'']"

definition validated_owned_root :: "owner \<Rightarrow> string \<Rightarrow> string \<Rightarrow> bool \<Rightarrow> 'c tree \<Rightarrow> path result" where
  "validated_owned_root ow root run_id staging fs =
     (let p = path_parts root in
      rbind (require (valid_run_id run_id) (ValueError ''run_id'')) (\<lambda>_.
      rbind (require (path_exists fs ephemeral_base) (FileNotFoundError ''/dev/shm'')) (\<lambda>_.
      rbind (require (is_absolute root) (ValueError ''absolute path'')) (\<lambda>_.
      rbind (require (p \<noteq> [] \<and> last p = root_name run_id staging) (ValueError ''root name'')) (\<lambda>_.
      rbind (require (\<not> is_link fs p) (ValueError ''root must not be a symlink'')) (\<lambda>_.
      case stat fs p of
        None \<Rightarrow> Inl (FileNotFoundError ''root'')
      | Some (Dir uid writable) \<Rightarrow>
          (let r = resolve fs p in
           rbind (require (butlast r = resolve fs ephemeral_base) (ValueError ''direct child'')) (\<lambda>_.
           rbind (require (uid = ow_uid ow) (PermissionError ''owner'')) (\<lambda>_.
           rbind (require (\<not> writable) (PermissionError ''group- or world-writable'')) (\<lambda>_.
           Inr r))))
      | Some _ \<Rightarrow> Inl (OSError ''not a directory'')))))))"

section \<open>Effects on the tree\<close>

text \<open>An operation of the file system inside a method: a failing one changes nothing and raises.\<close>

definition run_fs :: "('c tree \<Rightarrow> 'c tree result) \<Rightarrow> ('c tree, unit) eop" where
  "run_fs f fs = (case f fs of Inl e \<Rightarrow> (Inl e, fs) | Inr fs' \<Rightarrow> (Inr (), fs'))"

definition query :: "('c tree \<Rightarrow> 'a result) \<Rightarrow> ('c tree, 'a) eop" where
  "query f fs = (f fs, fs)"

text \<open>The size of the JSON text is never read; it is a positive constant of the model.\<close>

definition atomic_write :: "path \<Rightarrow> string \<Rightarrow> int \<Rightarrow> content \<Rightarrow> (etree, unit) eop" where
  "atomic_write root name pid doc =
     ebind (run_fs (create_file (root @ [tmp_name name pid]) 1 doc)) (\<lambda>_.
     run_fs (replace_file (root @ [tmp_name name pid]) (root @ [name])))"

section \<open>Publishing\<close>

text \<open>\<open>_KT_FILE_RE.fullmatch\<close>: the projection, expert number and kind of a weight file name.\<close>

definition strip_prefix :: "string \<Rightarrow> string \<Rightarrow> string option" where
  "strip_prefix p s = (if take (length p) s = p then Some (drop (length p) s) else None)"

definition is_digit :: "char \<Rightarrow> bool" where
  "is_digit c = (CHR ''0'' \<le> c \<and> c \<le> CHR ''9'')"

definition parse_kind :: "string \<Rightarrow> (string \<times> string) option" where
  "parse_kind s =
     (if ends_with s ''Byte_quant_.kt'' then Some (take (length s - 14) s, ''quant'')
      else if ends_with s ''Byte_scale_.kt'' then Some (take (length s - 14) s, ''scale'')
      else None)"

text \<open>Projection, expert text, the text before \<open>Byte_\<close>, and the kind.\<close>

definition split_kt_name :: "string \<Rightarrow> (string \<times> string \<times> string \<times> string) option" where
  "split_kt_name name =
     Option.bind (strip_prefix ''INT8_'' name) (\<lambda>s.
     Option.bind (List.find (\<lambda>p. strip_prefix (p @ ''_'') s \<noteq> None) [''gate'', ''up'', ''down'']) (\<lambda>proj.
     (let t = the (strip_prefix (proj @ ''_'') s);
          expert = takeWhile is_digit t in
      Option.bind (strip_prefix ''_'' (dropWhile is_digit t)) (\<lambda>u.
      Option.bind (parse_kind u) (\<lambda>(middle, kind).
      if expert \<noteq> [] then Some (proj, expert, middle, kind) else None)))))"

definition kt_file_match :: "string \<Rightarrow> (string \<times> nat \<times> string) option" where
  "kt_file_match name =
     (case split_kt_name name of
        Some (proj, expert, middle, kind) \<Rightarrow>
          (if CHR 0x0A \<in> set middle then None else Some (proj, the (parse_nat expert), kind))
      | None \<Rightarrow> None)"

type_synonym identity = "int \<times> string \<times> nat \<times> string"

fun scan_entries ::
  "etree \<Rightarrow> path \<Rightarrow> int \<Rightarrow> int \<Rightarrow> int \<Rightarrow> string list \<Rightarrow> identity list \<times> file_entry list
     \<Rightarrow> (identity list \<times> file_entry list) result" where
  "scan_entries fs root layer numa expert_num [] acc = Inr acc"
| "scan_entries fs root layer numa expert_num (name # names) (observed, files) =
     (let rel = [layer_name layer, numa_name numa, name] in
      if is_link fs (root @ rel) \<or> \<not> is_file fs (root @ rel)
      then Inl (ValueError ''unexpected non-regular INT8 weight entry'')
      else case kt_file_match name of
             None \<Rightarrow> Inl (ValueError ''unexpected INT8 .kt filename'')
           | Some (proj, expert, kind) \<Rightarrow>
               (if \<not> int expert < expert_num then Inl (ValueError ''out-of-range expert'')
                else if (numa, proj, expert, kind) \<in> set observed then Inl (ValueError ''duplicate INT8 file'')
                else if file_size fs (root @ rel) \<le> 0 then Inl (ValueError ''INT8 .kt file is empty'')
                else scan_entries fs root layer numa expert_num names
                       (observed @ [(numa, proj, expert, kind)],
                        files @ [\<lparr>fe_path = join_path rel, fe_size = file_size fs (root @ rel)\<rparr>])))"

fun scan_numas ::
  "etree \<Rightarrow> path \<Rightarrow> int \<Rightarrow> int \<Rightarrow> int list \<Rightarrow> identity list \<times> file_entry list
     \<Rightarrow> (identity list \<times> file_entry list) result" where
  "scan_numas fs root layer expert_num [] acc = Inr acc"
| "scan_numas fs root layer expert_num (numa # numas) acc =
     (let dir = root @ [layer_name layer, numa_name numa] in
      if is_link fs dir then Inl (ValueError ''NUMA directory must not be a symlink'')
      else rbind (scan_entries fs root layer numa expert_num (iterdir fs dir) acc) (\<lambda>acc'.
           scan_numas fs root layer expert_num numas acc'))"

definition identity_list :: "int \<Rightarrow> int \<Rightarrow> identity list" where
  "identity_list numa_count expert_num =
     List.product [0..numa_count - 1] (List.product [''gate'', ''up'', ''down'']
       (List.product [0..<nat expert_num] [''quant'', ''scale'']))"

definition scan_layer :: "etree \<Rightarrow> path \<Rightarrow> int \<Rightarrow> int \<Rightarrow> int \<Rightarrow> layer_entry result" where
  "scan_layer fs root layer numa_count expert_num =
     (let dir = root @ [layer_name layer];
          entries = iterdir fs dir in
      if \<not> is_dir fs dir \<or> is_link fs dir then Inl (ValueError ''missing or unsafe INT8 layer directory'')
      else if list_ex (\<lambda>c. \<not> is_dir fs (dir @ [c])) entries
      then Inl (ValueError ''entries outside NUMA directories'')
      else if set entries \<noteq> set (map numa_name [0..numa_count - 1])
      then Inl (ValueError ''NUMA directories mismatch'')
      else rbind (scan_numas fs root layer expert_num [0..numa_count - 1] ([], [])) (\<lambda>(observed, files).
           if \<not> set (identity_list numa_count expert_num) \<subseteq> set observed
           then Inl (ValueError ''missing INT8 files'')
           else Inr \<lparr>le_index = layer, le_numa_count = numa_count, le_state = ''ready'',
                     le_files = sort_key fe_path files, le_bytes = sum_list (map fe_size files)\<rparr>))"

fun scan_layers :: "etree \<Rightarrow> path \<Rightarrow> int \<Rightarrow> int \<Rightarrow> int list \<Rightarrow> layer_entry list result" where
  "scan_layers fs root numa_count expert_num [] = Inr []"
| "scan_layers fs root numa_count expert_num (i # idxs) =
     rbind (scan_layer fs root i numa_count expert_num) (\<lambda>l.
     rbind (scan_layers fs root numa_count expert_num idxs) (\<lambda>ls. Inr (l # ls)))"

text \<open>Dimensions of the model, checked before anything is touched.\<close>

record dims =
  d_numa_count :: int
  d_expert_num :: int
  d_hidden_size :: int
  d_intermediate_size :: int

definition new_manifest :: "owner \<Rightarrow> string \<Rightarrow> dims \<Rightarrow> layer_entry list \<Rightarrow> manifest" where
  "new_manifest ow run_id d layers =
     \<lparr>mf_schema_version = 1, mf_state = ''ready'', mf_run_id = run_id, mf_owner_uid = ow_uid ow,
      mf_producer_pid = ow_pid ow, mf_created_unix_ns = ow_now ow, mf_format = ''int8'',
      mf_backend = ''AMXINT8'', mf_threadpool_count = d_numa_count d, mf_expert_num = d_expert_num d,
      mf_hidden_size = d_hidden_size d, mf_intermediate_size = d_intermediate_size d,
      mf_layers = layers, mf_bytes = sum_list (map le_bytes layers)\<rparr>"

definition lease_ok :: "owner \<Rightarrow> string \<Rightarrow> content \<Rightarrow> bool" where
  "lease_ok ow run_id c =
     (case c of
        LeaseFile l \<Rightarrow> ls_schema_version l = 1 \<and> ls_run_id l = run_id \<and> ls_owner_uid l = ow_uid ow
      | _ \<Rightarrow> False)"

definition read_doc :: "'c tree \<Rightarrow> path \<Rightarrow> 'c option" where
  "read_doc fs p = (case stat fs p of Some (File _ c) \<Rightarrow> Some c | _ \<Rightarrow> None)"

definition drop_lease :: "owner \<Rightarrow> string \<Rightarrow> path \<Rightarrow> (etree, unit) eop" where
  "drop_lease ow run_id root fs =
     (let p = root @ [staging_lease_name] in
      if path_exists fs p \<or> is_link fs p then
        (if is_link fs p \<or> \<not> is_file fs p then (Inl (ValueError ''unsafe ephemeral staging lease''), fs)
         else if \<not> lease_ok ow run_id (the (read_doc fs p))
         then (Inl (ValueError ''ephemeral staging lease mismatch''), fs)
         else run_fs (unlink p) fs)
      else (Inr (), fs))"

definition publish_ephemeral ::
  "owner \<Rightarrow> string \<Rightarrow> string \<Rightarrow> int list \<Rightarrow> dims \<Rightarrow> (etree, path) eop" where
  "publish_ephemeral ow staging_root run_id layer_indices d =
     ebind (elift (require (d_numa_count d > 0 \<and> d_expert_num d > 0 \<and> d_hidden_size d > 0 \<and>
                            d_intermediate_size d > 0) (ValueError ''dimensions must be positive''))) (\<lambda>_.
     ebind (query (validated_owned_root ow staging_root run_id True)) (\<lambda>staging.
     ebind (drop_lease ow run_id staging) (\<lambda>_.
     let unique_layers = sort (remdups layer_indices) in
     ebind (eassert (\<lambda>fs. set (iterdir fs staging) = set (map layer_name unique_layers))
              (ValueError ''staging root entries mismatch'')) (\<lambda>_.
     ebind (query (\<lambda>fs. scan_layers fs staging (d_numa_count d) (d_expert_num d) unique_layers)) (\<lambda>layers.
     ebind (elift (require (layers \<noteq> []) (ValueError ''at least one expert layer''))) (\<lambda>_.
     ebind (atomic_write staging manifest_name (ow_pid ow) (ManifestFile (new_manifest ow run_id d layers))) (\<lambda>_.
     let ready = butlast staging @ [root_name run_id False] in
     ebind (eassert (\<lambda>fs. \<not> path_exists fs ready \<and> \<not> is_link fs ready)
              (FileExistsError ''ephemeral INT8 ready root already exists'')) (\<lambda>_.
     ebind (eupd (rename_dir staging ready)) (\<lambda>_.
     ereturn ready)))))))))"

section \<open>Staging leases\<close>

definition write_staging_lease :: "owner \<Rightarrow> string \<Rightarrow> string \<Rightarrow> int \<Rightarrow> (etree, unit) eop" where
  "write_staging_lease ow staging_root run_id producer_pid =
     ebind (elift (require (producer_pid > 0) (ValueError ''producer_pid must be positive''))) (\<lambda>_.
     ebind (query (validated_owned_root ow staging_root run_id True)) (\<lambda>root.
     atomic_write root staging_lease_name (ow_pid ow)
       (LeaseFile \<lparr>ls_schema_version = 1, ls_run_id = run_id, ls_owner_uid = ow_uid ow,
                   ls_producer_pid = producer_pid\<rparr>)))"

text \<open>
  \<open>os.walk(root, topdown=False)\<close> visits every directory after its subdirectories and removes what
  it lists; links are unlinked, never followed. The entries of the tree below the root go, deepest
  first, then the root.
\<close>

definition cleanup_staging :: "owner \<Rightarrow> string \<Rightarrow> string \<Rightarrow> (etree, unit) eop" where
  "cleanup_staging ow staging_root run_id =
     ebind (query (validated_owned_root ow staging_root run_id True)) (\<lambda>root.
     eupd (filter (\<lambda>(q, n). \<not> prefix root q)))"

definition reclaim_stale_staging :: "owner \<Rightarrow> string \<Rightarrow> string \<Rightarrow> (etree, bool) eop" where
  "reclaim_stale_staging ow staging_root run_id =
     ebind (query (validated_owned_root ow staging_root run_id True)) (\<lambda>root.
     let p = root @ [staging_lease_name] in
     ebind (eassert (\<lambda>fs. \<not> is_link fs p \<and> is_file fs p) (RuntimeError ''no regular lease'')) (\<lambda>_.
     ebind (eassert (\<lambda>fs. lease_ok ow run_id (the (read_doc fs p))) (RuntimeError ''lease mismatch'')) (\<lambda>_.
     ebind (egets (\<lambda>fs. case the (read_doc fs p) of LeaseFile l \<Rightarrow> ls_producer_pid l | _ \<Rightarrow> 0)) (\<lambda>pid.
     ebind (elift (require (pid > 0) (RuntimeError ''invalid producer_pid''))) (\<lambda>_.
     if ow_alive ow pid then ereturn False
     else ebind (cleanup_staging ow (slash # join_path root) run_id) (\<lambda>_. ereturn True))))))"

section \<open>The store\<close>

record store =
  st_root :: path
  st_manifest :: manifest
  st_closed :: bool
  st_handlers :: bool

fun check_files :: "etree \<Rightarrow> path \<Rightarrow> int \<Rightarrow> file_entry list \<Rightarrow> string list \<Rightarrow> int \<Rightarrow> (string list \<times> int) result" where
  "check_files fs root layer [] seen bytes = Inr (seen, bytes)"
| "check_files fs root layer (e # es) seen bytes =
     (let parts = path_parts (fe_path e); p = root @ parts in
      if fe_path e \<in> set seen then Inl (ValueError ''invalid or duplicate file entry'')
      else if is_absolute (fe_path e) \<or> ''..'' \<in> set parts then Inl (ValueError ''unsafe manifest path'')
      else if take 1 parts \<noteq> [layer_name layer] then Inl (ValueError ''manifest path is outside layer'')
      else if is_link fs p \<or> \<not> is_file fs p then Inl (ValueError ''missing or unsafe manifest file'')
      else if fe_size e \<le> 0 \<or> file_size fs p \<noteq> fe_size e then Inl (ValueError ''manifest size mismatch'')
      else check_files fs root layer es (seen @ [fe_path e]) (bytes + file_size fs p))"

definition validate_manifest_layer :: "etree \<Rightarrow> path \<Rightarrow> layer_entry \<Rightarrow> unit result" where
  "validate_manifest_layer fs root l =
     rbind (require (le_files l \<noteq> []) (ValueError ''layer manifest has no files'')) (\<lambda>_.
     rbind (check_files fs root (le_index l) (le_files l) [] 0) (\<lambda>(seen, bytes).
     rbind (require (set (map (\<lambda>q. join_path (layer_name (le_index l) # q))
                       (walk_files fs (root @ [layer_name (le_index l)]))) = set seen)
              (ValueError ''file set differs from its manifest'')) (\<lambda>_.
     require (bytes = le_bytes l) (ValueError ''byte total mismatch''))))"

fun validate_layers :: "etree \<Rightarrow> path \<Rightarrow> layer_entry list \<Rightarrow> unit result" where
  "validate_layers fs root [] = Inr ()"
| "validate_layers fs root (l # ls) =
     (if le_state l \<noteq> ''ready'' then Inl (ValueError ''cannot be resumed after partial consumption'')
      else rbind (validate_manifest_layer fs root l) (\<lambda>_. validate_layers fs root ls))"

definition metadata_ok :: "owner \<Rightarrow> dims \<Rightarrow> manifest \<Rightarrow> bool" where
  "metadata_ok ow d m =
     (mf_schema_version m = 1 \<and> mf_state m = ''ready'' \<and> mf_owner_uid m = ow_uid ow \<and>
      mf_format m = ''int8'' \<and> mf_backend m = ''AMXINT8'' \<and> mf_threadpool_count m = d_numa_count d \<and>
      mf_expert_num m = d_expert_num d \<and> mf_hidden_size m = d_hidden_size d \<and>
      mf_intermediate_size m = d_intermediate_size d)"

definition open_store :: "owner \<Rightarrow> string \<Rightarrow> int list \<Rightarrow> dims \<Rightarrow> etree \<Rightarrow> store result" where
  "open_store ow root layer_indices d fs =
     (let mp = path_parts root @ [manifest_name]; expected = sort (remdups layer_indices) in
      if is_link fs mp \<or> \<not> is_file fs mp then Inl (ValueError ''root requires a manifest'')
      else case the (read_doc fs mp) of
             ManifestFile m \<Rightarrow>
               rbind (validated_owned_root ow root (mf_run_id m) False fs) (\<lambda>r.
               rbind (require (metadata_ok ow d m) (ValueError ''manifest mismatch'')) (\<lambda>_.
               rbind (require (sort (map le_index (mf_layers m)) = expected) (ValueError ''layer set mismatch'')) (\<lambda>_.
               rbind (validate_layers fs r (mf_layers m)) (\<lambda>_.
               rbind (require (set (iterdir fs r) = set (manifest_name # map layer_name expected))
                        (ValueError ''root contains files outside its manifest'')) (\<lambda>_.
               Inr \<lparr>st_root = r, st_manifest = m, st_closed = False, st_handlers = True\<rparr>)))))
           | _ \<Rightarrow> Inl (ValueError ''unreadable manifest''))"

section \<open>Consuming a layer\<close>

record world =
  w_fs :: etree
  w_store :: store

datatype prim = SetLayerState int string | WriteTmp | PublishTmp | DeleteChecked path | RemoveDir path

definition set_layer_state :: "int \<Rightarrow> string \<Rightarrow> store \<Rightarrow> store" where
  "set_layer_state i s st =
     st\<lparr>st_manifest := (st_manifest st)\<lparr>mf_layers :=
          map (\<lambda>l. if le_index l = i then l\<lparr>le_state := s\<rparr> else l) (mf_layers (st_manifest st))\<rparr>\<rparr>"

definition on_fs :: "(etree \<Rightarrow> etree result) \<Rightarrow> world \<Rightarrow> unit result \<times> world" where
  "on_fs f w = (case f (w_fs w) of Inl e \<Rightarrow> (Inl e, w) | Inr fs' \<Rightarrow> (Inr (), w\<lparr>w_fs := fs'\<rparr>))"

definition run_prim :: "owner \<Rightarrow> prim \<Rightarrow> world \<Rightarrow> unit result \<times> world" where
  "run_prim ow op w =
     (let st = w_store w; r = st_root st; tmp = r @ [tmp_name manifest_name (ow_pid ow)] in
      case op of
        SetLayerState i s \<Rightarrow> (Inr (), w\<lparr>w_store := set_layer_state i s st\<rparr>)
      | WriteTmp \<Rightarrow> on_fs (create_file tmp 1 (ManifestFile (st_manifest st))) w
      | PublishTmp \<Rightarrow> on_fs (replace_file tmp (r @ [manifest_name])) w
      | DeleteChecked p \<Rightarrow>
          (if is_link (w_fs w) p \<or> \<not> is_file (w_fs w) p
           then (Inl (RuntimeError ''refusing to delete unsafe ephemeral file''), w)
           else on_fs (unlink p) w)
      | RemoveDir p \<Rightarrow> on_fs (rmdir p) w)"

fun run_prims :: "owner \<Rightarrow> prim list \<Rightarrow> world \<Rightarrow> unit result \<times> world" where
  "run_prims ow [] w = (Inr (), w)"
| "run_prims ow (op # ops) w =
     (case run_prim ow op w of (Inl e, w') \<Rightarrow> (Inl e, w') | (Inr _, w') \<Rightarrow> run_prims ow ops w')"

definition consume_script :: "path \<Rightarrow> layer_entry \<Rightarrow> prim list" where
  "consume_script root l =
     (let dir = root @ [layer_name (le_index l)] in
      [SetLayerState (le_index l) ''consuming'', WriteTmp, PublishTmp] @
      map (\<lambda>e. DeleteChecked (root @ path_parts (fe_path e))) (le_files l) @
      map (\<lambda>k. RemoveDir (dir @ [numa_name k])) (rev [0..le_numa_count l - 1]) @
      [RemoveDir dir, SetLayerState (le_index l) ''consumed'', WriteTmp, PublishTmp])"

definition find_layer :: "store \<Rightarrow> int \<Rightarrow> layer_entry option" where
  "find_layer st i = List.find (\<lambda>l. le_index l = i) (mf_layers (st_manifest st))"

text \<open>
  \<open>consume_layer\<close>, stopped after at most \<open>stop\<close> primitive effects when \<open>stop\<close> is a number (a
  signal arrives there), run to its end when it is \<open>None\<close>.
\<close>

definition consume_layer :: "owner \<Rightarrow> int \<Rightarrow> nat option \<Rightarrow> world \<Rightarrow> unit result \<times> world" where
  "consume_layer ow i stop w =
     (let st = w_store w in
      if st_closed st then (Inl (RuntimeError ''store is already closed''), w)
      else case find_layer st i of
             None \<Rightarrow> (Inl (KeyError ''layer is not listed''), w)
           | Some l \<Rightarrow>
               (if le_state l \<noteq> ''ready'' then (Inl (RuntimeError ''layer state''), w)
                else case validate_manifest_layer (w_fs w) (st_root st) l of
                       Inl e \<Rightarrow> (Inl e, w)
                     | Inr _ \<Rightarrow>
                         (let script = consume_script (st_root st) l in
                          run_prims ow (case stop of None \<Rightarrow> script | Some k \<Rightarrow> take k script) w)))"

definition close_store :: "world \<Rightarrow> world" where
  "close_store w = w\<lparr>w_store := (w_store w)\<lparr>st_closed := True, st_handlers := False\<rparr>\<rparr>"

definition finish :: "world \<Rightarrow> unit result \<times> world" where
  "finish w =
     (let st = w_store w; r = st_root st in
      if list_ex (\<lambda>l. le_state l \<noteq> ''consumed'') (mf_layers (st_manifest st))
      then (Inl (RuntimeError ''unconsumed layers''), w)
      else case on_fs (unlink (r @ [manifest_name])) w of
             (Inl e, w') \<Rightarrow> (Inl e, w')
           | (Inr _, w') \<Rightarrow>
               (case on_fs (rmdir r) w' of
                  (Inl e, w'') \<Rightarrow> (Inl e, w'')
                | (Inr _, w'') \<Rightarrow> (Inr (), close_store w'')))"

section \<open>Cleanup\<close>

definition try_fs :: "('c tree \<Rightarrow> 'c tree result) \<Rightarrow> 'c tree \<Rightarrow> 'c tree" where
  "try_fs f fs = (case f fs of Inr fs' \<Rightarrow> fs' | Inl _ \<Rightarrow> fs)"

definition discard_file :: "path \<Rightarrow> 'c tree \<Rightarrow> 'c tree" where
  "discard_file p fs = (if is_file fs p \<and> \<not> is_link fs p then try_fs (unlink p) fs else fs)"

definition discard_dir :: "path \<Rightarrow> 'c tree \<Rightarrow> 'c tree" where
  "discard_dir p fs = (if is_dir fs p \<and> \<not> is_link fs p then try_fs (rmdir p) fs else fs)"

definition discard_entry :: "path \<Rightarrow> file_entry \<Rightarrow> 'c tree \<Rightarrow> 'c tree" where
  "discard_entry root e fs =
     (let parts = path_parts (fe_path e) in
      if is_absolute (fe_path e) \<or> ''..'' \<in> set parts then fs else discard_file (root @ parts) fs)"

definition discard_layer :: "path \<Rightarrow> layer_entry \<Rightarrow> 'c tree \<Rightarrow> 'c tree" where
  "discard_layer root l fs =
     (if le_state l = ''consumed'' then fs
      else (let dir = root @ [layer_name (le_index l)];
                fs1 = fold (discard_entry root) (le_files l) fs;
                fs2 = fold (\<lambda>k. discard_dir (dir @ [numa_name k])) (rev [0..le_numa_count l - 1]) fs1 in
            discard_dir dir fs2))"

definition cleanup :: "owner \<Rightarrow> world \<Rightarrow> world" where
  "cleanup ow w =
     (let st = w_store w; r = st_root st in
      if st_closed st then w
      else close_store (w\<lparr>w_fs :=
             try_fs (rmdir r)
               (discard_file (r @ [tmp_name manifest_name (ow_pid ow)])
                 (discard_file (r @ [manifest_name])
                   (fold (discard_layer r) (mf_layers (st_manifest st)) (w_fs w))))\<rparr>))"

end
