(* ===== verification/EphemeralStore.thy ===== *)
theory EphemeralStore
  imports Ephemeral
begin

text \<open>
  What a store guarantees about the file system: every operation, stopped anywhere, keeps the root
  within the manifest, so that \<open>cleanup\<close> always removes the whole root and nothing else.
\<close>

section \<open>Trees that only lose entries below a root\<close>

definition shrinks :: "path \<Rightarrow> 'c tree \<Rightarrow> 'c tree \<Rightarrow> bool" where
  "shrinks r fs fs' \<longleftrightarrow> tree_wf fs' \<and> plain_root fs' r \<and>
     (\<forall>p. dget fs' p = dget fs p \<or> (dget fs' p = None \<and> strict_prefix r p))"

lemma shrinks_refl: "tree_wf fs \<Longrightarrow> plain_root fs r \<Longrightarrow> shrinks r fs fs"
  by (simp add: shrinks_def)

lemma shrinks_trans: "shrinks r a b \<Longrightarrow> shrinks r b c \<Longrightarrow> shrinks r a c"
  unfolding shrinks_def by metis

lemma shrinks_None: "shrinks r fs fs' \<Longrightarrow> dget fs p = None \<Longrightarrow> dget fs' p = None"
  unfolding shrinks_def by metis

lemma shrinks_Some: "shrinks r fs fs' \<Longrightarrow> dget fs' p = Some n \<Longrightarrow> dget fs p = Some n"
  unfolding shrinks_def by (metis option.distinct(1))

lemma shrinks_outside: "shrinks r fs fs' \<Longrightarrow> \<not> strict_prefix r p \<Longrightarrow> dget fs' p = dget fs p"
  unfolding shrinks_def by metis

lemma shrinks_ddel:
  assumes "tree_wf fs" "plain_root fs r" "q \<noteq> []" "children fs (r @ q) = []"
  shows "shrinks r fs (ddel fs (r @ q))"
proof -
  have "link_target fs (r @ q) = None" using assms(2) by (simp add: plain_root_def)
  then have "plain_root (ddel fs (r @ q)) r" using assms(2) by (metis plain_root_same same_links_ddel)
  with assms show ?thesis by (auto simp: shrinks_def tree_wf_ddel strict_prefix_def)
qed

lemma is_file_plain: "plain_root fs r \<Longrightarrow> is_file fs (r @ q) = (\<exists>n c. dget fs (r @ q) = Some (File n c))"
  by (auto simp: is_file_def stat_plain split: option.splits node.splits)

lemma is_dir_plain: "plain_root fs r \<Longrightarrow> is_dir fs (r @ q) = (\<exists>u w. dget fs (r @ q) = Some (Dir u w))"
  by (auto simp: is_dir_def stat_plain split: option.splits node.splits)

lemma unlink_plain:
  "plain_root fs r \<Longrightarrow> q \<noteq> [] \<Longrightarrow> unlink (r @ q) fs = Inr fs' \<Longrightarrow>
     (\<exists>n c. dget fs (r @ q) = Some (File n c)) \<and> fs' = ddel fs (r @ q)"
  by (auto simp: unlink_def lstat_plain phys_plain plain_root_def link_target_None
      split: option.splits node.splits)

lemma rmdir_plain:
  "plain_root fs r \<Longrightarrow> q \<noteq> [] \<Longrightarrow> rmdir (r @ q) fs = Inr fs' \<Longrightarrow>
     (\<exists>u w. dget fs (r @ q) = Some (Dir u w)) \<and> children fs (r @ q) = [] \<and> fs' = ddel fs (r @ q)"
  by (auto simp: rmdir_def lstat_plain phys_plain split: option.splits node.splits if_splits)

lemma unlink_shrinks:
  "tree_wf fs \<Longrightarrow> plain_root fs r \<Longrightarrow> q \<noteq> [] \<Longrightarrow> unlink (r @ q) fs = Inr fs' \<Longrightarrow> shrinks r fs fs'"
  by (metis unlink_plain file_no_children shrinks_ddel)

lemma rmdir_shrinks:
  "tree_wf fs \<Longrightarrow> plain_root fs r \<Longrightarrow> q \<noteq> [] \<Longrightarrow> rmdir (r @ q) fs = Inr fs' \<Longrightarrow> shrinks r fs fs'"
  by (metis rmdir_plain shrinks_ddel)

lemma discard_file_plain:
  assumes "tree_wf fs" "plain_root fs r" "q \<noteq> []"
  shows "shrinks r fs (discard_file (r @ q) fs) \<and> (\<forall>n c. dget (discard_file (r @ q) fs) (r @ q) \<noteq> Some (File n c))"
proof (cases "\<exists>n c. dget fs (r @ q) = Some (File n c)")
  case True
  then have "discard_file (r @ q) fs = ddel fs (r @ q)"
    using assms by (auto simp: discard_file_def try_fs_def is_file_plain is_link_plain unlink_def plain_simps)
  with True assms show ?thesis by (auto intro: shrinks_ddel file_no_children)
next
  case False
  then have "discard_file (r @ q) fs = fs"
    using assms by (simp add: discard_file_def is_file_plain)
  with False assms show ?thesis by (simp add: shrinks_refl)
qed

lemma discard_dir_plain:
  assumes "tree_wf fs" "plain_root fs r" "q \<noteq> []"
  shows "shrinks r fs (discard_dir (r @ q) fs) \<and>
    (children fs (r @ q) = [] \<longrightarrow> (\<forall>u w. dget (discard_dir (r @ q) fs) (r @ q) \<noteq> Some (Dir u w)))"
proof (cases "(\<exists>u w. dget fs (r @ q) = Some (Dir u w)) \<and> children fs (r @ q) = []")
  case True
  then have "discard_dir (r @ q) fs = ddel fs (r @ q)"
    using assms by (auto simp: discard_dir_def try_fs_def is_dir_plain is_link_plain rmdir_def plain_simps)
  with True assms show ?thesis by (auto intro: shrinks_ddel)
next
  case False
  then have "discard_dir (r @ q) fs = fs"
    using assms by (auto simp: discard_dir_def try_fs_def is_dir_plain rmdir_def plain_simps)
  with False assms show ?thesis by (auto simp: shrinks_refl)
qed

section \<open>Layers on disk\<close>

definition numa_dirs :: "layer_entry \<Rightarrow> path set" where
  "numa_dirs l = (\<lambda>k. [layer_name (le_index l), numa_name k]) ` {0..<le_numa_count l}"

definition file_paths :: "layer_entry \<Rightarrow> path set" where
  "file_paths l = path_parts ` fe_path ` set (le_files l)"

definition layer_ok :: "layer_entry \<Rightarrow> bool" where
  "layer_ok l \<longleftrightarrow> (\<forall>e \<in> set (le_files l). \<not> is_absolute (fe_path e) \<and> ''..'' \<notin> set (path_parts (fe_path e)) \<and>
     take 1 (path_parts (fe_path e)) = [layer_name (le_index l)])"

text \<open>An entry of the root that belongs to layer \<open>l\<close>.\<close>

definition owned :: "layer_entry \<Rightarrow> path \<Rightarrow> 'c node \<Rightarrow> bool" where
  "owned l q n \<longleftrightarrow>
     (case n of
        Dir _ _ \<Rightarrow> q = [layer_name (le_index l)] \<or> q \<in> numa_dirs l
      | File _ _ \<Rightarrow> q \<in> file_paths l
      | Link _ \<Rightarrow> False)"

definition bookkeeping :: "owner \<Rightarrow> path \<Rightarrow> 'c node \<Rightarrow> bool" where
  "bookkeeping ow q n \<longleftrightarrow>
     (case n of
        File _ _ \<Rightarrow> q = [manifest_name] \<or> q = [tmp_name manifest_name (ow_pid ow)]
      | _ \<Rightarrow> False)"

text \<open>Everything below the root is bookkeeping or belongs to a layer that is not consumed.\<close>

definition contained :: "owner \<Rightarrow> path \<Rightarrow> layer_entry list \<Rightarrow> etree \<Rightarrow> bool" where
  "contained ow r ls fs \<longleftrightarrow> tree_wf fs \<and> plain_root fs r \<and> (\<exists>u w. dget fs r = Some (Dir u w)) \<and>
     (\<forall>q n. q \<noteq> [] \<and> dget fs (r @ q) = Some n \<longrightarrow>
        bookkeeping ow q n \<or> (\<exists>l \<in> set ls. le_state l \<noteq> ''consumed'' \<and> owned l q n))"

lemma containedD:
  "contained ow r ls fs \<Longrightarrow> dget fs (r @ q) = Some n \<Longrightarrow> q \<noteq> [] \<Longrightarrow>
     bookkeeping ow q n \<or> (\<exists>l \<in> set ls. le_state l \<noteq> ''consumed'' \<and> owned l q n)"
  unfolding contained_def by blast

lemma contained_shrinks: "contained ow r ls fs \<Longrightarrow> shrinks r fs fs' \<Longrightarrow> contained ow r ls fs'"
  unfolding contained_def shrinks_def by (metis option.distinct(1) strict_prefix_def)

lemma layer_name_inj [simp]: "layer_name i = layer_name j \<longleftrightarrow> i = j"
  by (metis layer_name_def parse_str_of_int same_append_eq option.inject)

lemma numa_name_inj [simp]: "numa_name i = numa_name j \<longleftrightarrow> i = j"
  by (metis numa_name_def parse_str_of_int same_append_eq option.inject)

lemma layer_name_neq [simp]: "layer_name i \<noteq> manifest_name" "manifest_name \<noteq> layer_name i"
  "layer_name i \<noteq> tmp_name n p" "tmp_name n p \<noteq> layer_name i"
  by (simp_all add: layer_name_def manifest_name_def tmp_name_def)

lemma owned_hd: "layer_ok l \<Longrightarrow> owned l q n \<Longrightarrow> \<exists>q'. q = layer_name (le_index l) # q'"
  unfolding owned_def numa_dirs_def file_paths_def layer_ok_def
  by (cases n; cases q) (auto, (metis list.inject take_Suc_Cons One_nat_def)+)

lemma bookkeeping_hd: "bookkeeping ow q n \<Longrightarrow> q \<noteq> layer_name i # q'"
  by (cases n) (auto simp: bookkeeping_def)

text \<open>What one layer loses.\<close>

lemma fold_discard_entries:
  assumes "tree_wf fs" "plain_root fs r" "layer_ok l" "set es \<subseteq> set (le_files l)"
  shows "shrinks r fs (fold (discard_entry r) es fs) \<and>
    (\<forall>e \<in> set es. \<forall>n c. dget (fold (discard_entry r) es fs) (r @ path_parts (fe_path e)) \<noteq> Some (File n c))"
  using assms(1,2,4)
proof (induction es arbitrary: fs)
  case (Cons e es)
  let ?q = "path_parts (fe_path e)"
  have e: "\<not> is_absolute (fe_path e)" "''..'' \<notin> set ?q" "?q \<noteq> []"
    using assms(3) Cons.prems(3) by (auto simp: layer_ok_def)
  then have d: "discard_entry r e fs = discard_file (r @ ?q) fs"
    by (simp add: discard_entry_def)
  note 1 = discard_file_plain [OF Cons.prems(1,2) e(3)]
  then have w: "tree_wf (discard_entry r e fs)" "plain_root (discard_entry r e fs) r"
    unfolding d by (simp_all add: shrinks_def)
  have "set es \<subseteq> set (le_files l)" using Cons.prems(3) by simp
  note 2 = Cons.IH [OF w this]
  let ?f = "discard_entry r e fs" and ?F = "fold (discard_entry r) es (discard_entry r e fs)"
  have nf: "\<forall>n c. dget ?f (r @ ?q) \<noteq> Some (File n c)" using 1 unfolding d by simp
  have s: "shrinks r fs ?f" "shrinks r ?f ?F" using 1 2 unfolding d by simp_all
  have "dget ?F (r @ ?q) \<noteq> Some (File n c)" for n c
    using nf shrinks_Some [OF s(2)] by blast
  moreover have "fold (discard_entry r) (e # es) fs = ?F" by simp
  ultimately show ?case using 2 shrinks_trans [OF s] by (simp only: list.set ball_simps) blast
qed (simp add: shrinks_refl)

lemma fold_discard_dirs:
  assumes "tree_wf fs" "plain_root fs r" "\<forall>k \<in> set ks. children fs (r @ [d, numa_name k]) = []"
  shows "shrinks r fs (fold (\<lambda>k. discard_dir (r @ [d, numa_name k])) ks fs) \<and>
    (\<forall>k \<in> set ks. \<forall>u w. dget (fold (\<lambda>k. discard_dir (r @ [d, numa_name k])) ks fs) (r @ [d, numa_name k]) \<noteq> Some (Dir u w))"
  using assms
proof (induction ks arbitrary: fs)
  case (Cons k ks)
  let ?f = "discard_dir (r @ [d, numa_name k]) fs"
  note 1 = discard_dir_plain [OF Cons.prems(1,2), of "[d, numa_name k]"]
  then have w: "tree_wf ?f" "plain_root ?f r" by (simp_all add: shrinks_def)
  have "\<forall>k \<in> set ks. children ?f (r @ [d, numa_name k]) = []"
    using Cons.prems(3) 1 by (metis children_empty dget_None_iff list.set_intros(2) shrinks_None list.distinct(1))
  note 2 = Cons.IH [OF w this]
  let ?F = "fold (\<lambda>k. discard_dir (r @ [d, numa_name k])) ks ?f"
  have nd: "\<forall>u w. dget ?f (r @ [d, numa_name k]) \<noteq> Some (Dir u w)" using 1 Cons.prems(3) by simp
  have s: "shrinks r fs ?f" "shrinks r ?f ?F" using 1 2 by simp_all
  moreover have "dget ?F (r @ [d, numa_name k]) \<noteq> Some (Dir u w)" for u w
    using nd shrinks_Some [OF s(2)] by blast
  moreover have "fold (\<lambda>k. discard_dir (r @ [d, numa_name k])) (k # ks) fs = ?F" by simp
  ultimately show ?case using 2 shrinks_trans [of r fs ?f ?F] by (simp only: list.set ball_simps) blast
qed (simp add: shrinks_refl)

text \<open>Cleaning one layer leaves a tree contained in the other layers.\<close>

lemma discard_layer_contained:
  assumes c: "contained ow r (l # ls) fs" and ok: "\<forall>l' \<in> set (l # ls). layer_ok l'"
    and dist: "le_index l \<notin> le_index ` set ls"
  shows "contained ow r ls (discard_layer r l fs) \<and> shrinks r fs (discard_layer r l fs)"
proof (cases "le_state l = ''consumed''")
  case True
  then have "contained ow r ls fs" using c by (auto simp: contained_def)
  moreover have "shrinks r fs fs" using c by (simp add: contained_def shrinks_refl)
  ultimately show ?thesis using True by (simp add: discard_layer_def)
next
  case False
  let ?i = "layer_name (le_index l)"
  let ?fs1 = "fold (discard_entry r) (le_files l) fs"
  let ?ks = "rev [0..le_numa_count l - 1]"
  let ?fs2 = "fold (\<lambda>k. discard_dir (r @ [?i, numa_name k])) ?ks ?fs1"
  let ?fs3 = "discard_dir (r @ [?i]) ?fs2"
  have d: "discard_layer r l fs = ?fs3" using False by (simp add: discard_layer_def Let_def)
  have wf: "tree_wf fs" "plain_root fs r" using c by (simp_all add: contained_def)
  note 1 = fold_discard_entries [OF wf bspec [OF ok] subset_refl, of l, simplified]
  have c1: "contained ow r (l # ls) ?fs1" using c contained_shrinks 1 by blast
  have only_dirs1: "q = [?i] \<or> q \<in> numa_dirs l" if g: "dget ?fs1 (r @ q) = Some n" and q: "q = ?i # q'" for q q' n
  proof -
    have "\<not> bookkeeping ow q n" using bookkeeping_hd q by blast
    then obtain l' where l': "l' \<in> set (l # ls)" "owned l' q n"
      using containedD [OF c1 g] q by blast
    with owned_hd ok q have "le_index l' = le_index l" by fastforce
    with l'(1) dist have "l' = l" by (metis image_eqI set_ConsD)
    with l'(2) 1 g show ?thesis
      unfolding owned_def file_paths_def by (cases n) auto
  qed
  have "children ?fs1 (r @ [?i, numa_name k]) = []" for k
  proof -
    have "dget ?fs1 (r @ [?i, numa_name k, x]) = None" for x
      using only_dirs1 [of "[?i, numa_name k, x]"] by (cases "dget ?fs1 (r @ [?i, numa_name k, x])")
        (auto simp: numa_dirs_def)
    then show ?thesis by (simp add: children_empty dget_None_iff)
  qed
  then have 2: "shrinks r ?fs1 ?fs2"
    "\<forall>k \<in> set ?ks. \<forall>u w. dget ?fs2 (r @ [?i, numa_name k]) \<noteq> Some (Dir u w)"
    using fold_discard_dirs [of ?fs1 r ?ks ?i] 1 by (simp_all add: shrinks_def)
  have c2: "contained ow r (l # ls) ?fs2" using c1 contained_shrinks 2(1) by blast
  have only_layer2: "q = [?i]" if g: "dget ?fs2 (r @ q) = Some n" and q: "q = ?i # q'" for q q' n
  proof (rule ccontr)
    assume "q \<noteq> [?i]"
    with only_dirs1 [OF shrinks_Some [OF 2(1) g] q] have nd: "q \<in> numa_dirs l" by simp
    have "\<not> bookkeeping ow q n" using bookkeeping_hd q by blast
    then obtain l' where l': "l' \<in> set (l # ls)" "owned l' q n"
      using containedD [OF c2 g] q by blast
    with owned_hd ok q have "le_index l' = le_index l" by fastforce
    with l'(1) dist have "l' = l" by (metis image_eqI set_ConsD)
    with l'(2) 1 shrinks_Some [OF 2(1) g] have "\<exists>u w. n = Dir u w"
      unfolding owned_def file_paths_def by (cases n) auto
    with nd 2(2) g show False by (auto simp: numa_dirs_def)
  qed
  have "children ?fs2 (r @ [?i]) = []"
  proof -
    have "dget ?fs2 (r @ [?i, x]) = None" for x
      using only_layer2 [of "[?i, x]"] by (cases "dget ?fs2 (r @ [?i, x])") auto
    then show ?thesis by (simp add: children_empty dget_None_iff)
  qed
  moreover have "tree_wf ?fs2" "plain_root ?fs2 r" using 2(1) by (simp_all add: shrinks_def)
  ultimately have 3: "shrinks r ?fs2 ?fs3" "\<forall>u w. dget ?fs3 (r @ [?i]) \<noteq> Some (Dir u w)"
    using discard_dir_plain [of ?fs2 r "[?i]"] by simp_all
  have c3: "contained ow r (l # ls) ?fs3" using c2 contained_shrinks 3(1) by blast
  have gone: "dget ?fs3 (r @ q) \<noteq> Some n" if o: "owned l q n" for q n
  proof
    assume g: "dget ?fs3 (r @ q) = Some n"
    obtain q' where q: "q = ?i # q'" using owned_hd [OF bspec [OF ok] o] by auto
    from only_layer2 [OF shrinks_Some [OF 3(1) g] q] have qi: "q = [?i]" .
    have "\<not> (\<exists>u w. n = Dir u w)" using 3(2) g qi by auto
    with o 1 shrinks_Some [OF 2(1) shrinks_Some [OF 3(1) g]] show False
      unfolding owned_def file_paths_def by (cases n) auto
  qed
  have "contained ow r ls ?fs3" using c3 gone unfolding contained_def by (metis set_ConsD)
  moreover have "shrinks r fs ?fs3" using 1 2(1) 3(1) shrinks_trans by blast
  ultimately show ?thesis by (simp add: d)
qed

section \<open>Cleanup\<close>

lemma fold_discard_layers:
  assumes "contained ow r ls fs" "\<forall>l \<in> set ls. layer_ok l" "distinct (map le_index ls)"
  shows "contained ow r [] (fold (discard_layer r) ls fs) \<and> shrinks r fs (fold (discard_layer r) ls fs)"
  using assms
proof (induction ls arbitrary: fs)
  case Nil
  then show ?case by (simp add: contained_def shrinks_refl)
next
  case (Cons l ls)
  have "le_index l \<notin> le_index ` set ls" using Cons.prems(3) by simp
  from discard_layer_contained [OF Cons.prems(1,2) this]
  have 1: "contained ow r ls (discard_layer r l fs)" "shrinks r fs (discard_layer r l fs)" by simp_all
  with Cons show ?case using shrinks_trans [OF 1(2)] by simp
qed

lemma tmp_name_neq [simp]: "tmp_name manifest_name p \<noteq> manifest_name"
  by (simp add: tmp_name_def manifest_name_def)

definition outside_kept :: "path \<Rightarrow> 'c tree \<Rightarrow> 'c tree \<Rightarrow> bool" where
  "outside_kept r fs fs' \<longleftrightarrow> (\<forall>p. \<not> prefix r p \<longrightarrow> dget fs' p = dget fs p)"

definition store_inv :: "owner \<Rightarrow> etree \<Rightarrow> world \<Rightarrow> bool" where
  "store_inv ow fs0 w \<longleftrightarrow>
     (let st = w_store w; ls = mf_layers (st_manifest st) in
      \<not> st_closed st \<and> contained ow (st_root st) ls (w_fs w) \<and> (\<forall>l \<in> set ls. layer_ok l) \<and>
      distinct (map le_index ls) \<and> outside_kept (st_root st) fs0 (w_fs w))"

lemma cleanup_removes_root:
  assumes "store_inv ow fs0 w"
  shows "(\<forall>q. dget (w_fs (cleanup ow w)) (st_root (w_store w) @ q) = None) \<and>
    outside_kept (st_root (w_store w)) fs0 (w_fs (cleanup ow w)) \<and> st_closed (w_store (cleanup ow w))"
proof -
  let ?r = "st_root (w_store w)" and ?ls = "mf_layers (st_manifest (w_store w))"
  let ?fs1 = "fold (discard_layer ?r) ?ls (w_fs w)"
  let ?fs2 = "discard_file (?r @ [manifest_name]) ?fs1"
  let ?fs3 = "discard_file (?r @ [tmp_name manifest_name (ow_pid ow)]) ?fs2"
  have inv: "contained ow ?r ?ls (w_fs w)" "\<forall>l \<in> set ?ls. layer_ok l" "distinct (map le_index ?ls)"
    "outside_kept ?r fs0 (w_fs w)" "\<not> st_closed (w_store w)"
    using assms by (simp_all add: store_inv_def Let_def)
  from fold_discard_layers [OF inv(1-3)] have 1: "contained ow ?r [] ?fs1" "shrinks ?r (w_fs w) ?fs1"
    by simp_all
  then have "shrinks ?r ?fs1 ?fs2" and m: "\<forall>n c. dget ?fs2 (?r @ [manifest_name]) \<noteq> Some (File n c)"
    using discard_file_plain [of ?fs1 ?r "[manifest_name]"] by (simp_all add: contained_def)
  note 2 = this(1)
  have "shrinks ?r ?fs2 ?fs3"
    and t: "\<forall>n c. dget ?fs3 (?r @ [tmp_name manifest_name (ow_pid ow)]) \<noteq> Some (File n c)"
    using discard_file_plain [of ?fs2 ?r "[tmp_name manifest_name (ow_pid ow)]"] 2
    by (simp_all add: shrinks_def)
  note 3 = this(1)
  have c3: "contained ow ?r [] ?fs3" using contained_shrinks 1(1) 2 3 by blast
  have none: "dget ?fs3 (?r @ q) = None" if q: "q \<noteq> []" for q
  proof (cases "dget ?fs3 (?r @ q)")
    case (Some n)
    then have "bookkeeping ow q n" using containedD [OF c3 Some q] by simp
    moreover have "dget ?fs2 (?r @ q) = Some n" using shrinks_Some [OF 3 Some] .
    ultimately show ?thesis using m t Some by (cases n) (auto simp: bookkeeping_def)
  qed
  have wf3: "tree_wf ?fs3" "plain_root ?fs3 ?r" using 3 by (simp_all add: shrinks_def)
  obtain u v where root: "dget ?fs3 ?r = Some (Dir u v)" using c3 by (auto simp: contained_def)
  have "children ?fs3 ?r = []" using none by (simp add: children_empty dget_None_iff)
  moreover have "phys ?fs3 ?r = ?r" using phys_self [OF wf3(1) dget_Some_dmem [OF root]] .
  ultimately have "try_fs (rmdir ?r) ?fs3 = ddel ?fs3 ?r"
    using root by (simp add: try_fs_def rmdir_def lstat_def)
  then have w: "w_fs (cleanup ow w) = ddel ?fs3 ?r" "st_closed (w_store (cleanup ow w))"
    using inv(5) by (simp_all add: cleanup_def close_store_def Let_def)
  have "dget (ddel ?fs3 ?r) (?r @ q) = None" for q using none [of q] by (cases "q = []") auto
  moreover have "outside_kept ?r fs0 (ddel ?fs3 ?r)"
    unfolding outside_kept_def
  proof (intro allI impI)
    fix p assume p: "\<not> prefix ?r p"
    then have "\<not> strict_prefix ?r p" "p \<noteq> ?r" by (auto simp: strict_prefix_def)
    with p inv(4) shrinks_outside [OF 1(2)] shrinks_outside [OF 2] shrinks_outside [OF 3]
    show "dget (ddel ?fs3 ?r) p = dget fs0 p" by (simp add: outside_kept_def)
  qed
  ultimately show ?thesis by (simp add: w)
qed

section \<open>Interrupted consumption\<close>

lemma entry_name_bookkeeping: "entry_name manifest_name" "entry_name (tmp_name manifest_name p)"
proof -
  have "slash \<notin> set (digits n)" for n
    using digits_are_digits [of n] by (auto simp: slash_def less_eq_char_def)
  then have "slash \<notin> set (str_of_int p)" by (simp add: str_of_int_def slash_def)
  then show "entry_name (tmp_name manifest_name p)"
    by (simp add: entry_name_def tmp_name_def manifest_name_def slash_def)
qed (simp add: entry_name_def manifest_name_def slash_def)

text \<open>Writing a bookkeeping file.\<close>

lemma contained_write:
  assumes c: "contained ow r ls fs" and q: "q = manifest_name \<or> q = tmp_name manifest_name (ow_pid ow)"
    and nd: "\<forall>u w. dget fs (r @ [q]) \<noteq> Some (Dir u w)"
  shows "contained ow r ls (dset fs (r @ [q]) (File n doc))"
proof -
  let ?fs = "dset fs (r @ [q]) (File n doc)"
  obtain u w where root: "dget fs r = Some (Dir u w)" and wf: "tree_wf fs" "plain_root fs r"
    using c by (auto simp: contained_def)
  have "tree_wf ?fs"
    using tree_wf_dset_file [OF wf(1), of "r @ [q]"] root nd q entry_name_bookkeeping by auto
  moreover have "plain_root ?fs r"
    using wf(2) by (intro plain_root_same [OF same_links_dset]) (auto simp: plain_root_def)
  moreover have "bookkeeping ow [q] (File n doc)" using q by (auto simp: bookkeeping_def)
  ultimately show ?thesis
    using c root by (auto simp: contained_def)
qed

lemma contained_mono:
  assumes "contained ow r ls fs"
    "\<And>l q n. l \<in> set ls \<Longrightarrow> le_state l \<noteq> ''consumed'' \<Longrightarrow> owned l q n \<Longrightarrow> dget fs (r @ q) = Some n \<Longrightarrow>
       \<exists>l' \<in> set ls'. le_state l' \<noteq> ''consumed'' \<and> owned l' q n"
  shows "contained ow r ls' fs"
  using assms unfolding contained_def by meson

lemma outside_kept_shrinks: "outside_kept r fs0 fs \<Longrightarrow> shrinks r fs fs' \<Longrightarrow> outside_kept r fs0 fs'"
  by (simp add: outside_kept_def shrinks_def strict_prefix_def) metis

lemma on_fs_cases:
  obtains (err) e where "f (w_fs w) = Inl e" "on_fs f w = (Inl e, w)"
  | (ok) fs' where "f (w_fs w) = Inr fs'" "on_fs f w = (Inr (), w\<lparr>w_fs := fs'\<rparr>)"
  by (cases "f (w_fs w)") (auto simp: on_fs_def)

lemma store_inv_fs:
  "store_inv ow fs0 w \<Longrightarrow> contained ow (st_root (w_store w)) (mf_layers (st_manifest (w_store w))) fs' \<Longrightarrow>
     outside_kept (st_root (w_store w)) (w_fs w) fs' \<Longrightarrow> store_inv ow fs0 (w\<lparr>w_fs := fs'\<rparr>)"
  by (simp add: store_inv_def Let_def outside_kept_def)

lemma store_inv_shrinks:
  "store_inv ow fs0 w \<Longrightarrow> shrinks (st_root (w_store w)) (w_fs w) fs' \<Longrightarrow> store_inv ow fs0 (w\<lparr>w_fs := fs'\<rparr>)"
  by (auto simp: store_inv_def Let_def intro: contained_shrinks outside_kept_shrinks)

definition benign :: "path \<Rightarrow> prim \<Rightarrow> bool" where
  "benign r op =
     (case op of
        SetLayerState i s \<Rightarrow> s \<noteq> ''consumed''
      | DeleteChecked p \<Rightarrow> strict_prefix r p
      | RemoveDir p \<Rightarrow> strict_prefix r p
      | _ \<Rightarrow> True)"

lemma set_layer_state_layers [simp]:
  "mf_layers (st_manifest (set_layer_state i s st)) =
     map (\<lambda>l. if le_index l = i then l\<lparr>le_state := s\<rparr> else l) (mf_layers (st_manifest st))"
  "st_root (set_layer_state i s st) = st_root st" "st_closed (set_layer_state i s st) = st_closed st"
  by (simp_all add: set_layer_state_def)

lemma owned_state [simp]: "owned (l\<lparr>le_state := s\<rparr>) q n = owned l q n"
  by (simp add: owned_def numa_dirs_def file_paths_def cong: node.case_cong)

lemma store_inv_set:
  assumes inv: "store_inv ow fs0 w"
    and ok: "s \<noteq> ''consumed'' \<or> (\<forall>q. dget (w_fs w) (st_root (w_store w) @ layer_name i # q) = None)"
  shows "store_inv ow fs0 (w\<lparr>w_store := set_layer_state i s (w_store w)\<rparr>)"
proof -
  let ?r = "st_root (w_store w)" and ?ls = "mf_layers (st_manifest (w_store w))"
  let ?f = "\<lambda>l. if le_index l = i then l\<lparr>le_state := s\<rparr> else l"
  have i: "contained ow ?r ?ls (w_fs w)" "\<forall>l \<in> set ?ls. layer_ok l" "distinct (map le_index ?ls)"
    using inv by (simp_all add: store_inv_def Let_def)
  have "contained ow ?r (map ?f ?ls) (w_fs w)"
  proof (rule contained_mono [OF i(1)])
    fix l q n assume l: "l \<in> set ?ls" "le_state l \<noteq> ''consumed''" "owned l q n" "dget (w_fs w) (?r @ q) = Some n"
    have "?f l \<in> set (map ?f ?ls)" using l(1) by simp
    moreover have "owned (?f l) q n" using l(3) by simp
    moreover have "le_state (?f l) \<noteq> ''consumed''"
    proof (cases "le_index l = i \<and> s = ''consumed''")
      case True
      with ok have "\<forall>q. dget (w_fs w) (?r @ layer_name i # q) = None" by simp
      with owned_hd [OF bspec [OF i(2) l(1)] l(3)] l(4) True show ?thesis by auto
    qed (use l(2) in auto)
    ultimately show "\<exists>l' \<in> set (map ?f ?ls). le_state l' \<noteq> ''consumed'' \<and> owned l' q n" by blast
  qed
  moreover have "map le_index (map ?f ?ls) = map le_index ?ls" by simp
  then have "distinct (map le_index (map ?f ?ls))" using i(3) by (simp only:)
  moreover have "\<forall>l \<in> set (map ?f ?ls). layer_ok l" using i(2) by (auto simp: layer_ok_def)
  ultimately show ?thesis
    using inv unfolding store_inv_def Let_def by (simp del: map_map)
qed

lemma benign_keeps:
  assumes inv: "store_inv ow fs0 w" and b: "benign (st_root (w_store w)) op"
  shows "store_inv ow fs0 (snd (run_prim ow op w)) \<and> st_root (w_store (snd (run_prim ow op w))) = st_root (w_store w)"
proof -
  let ?r = "st_root (w_store w)" and ?ls = "mf_layers (st_manifest (w_store w))" and ?fs = "w_fs w"
  let ?tmp = "tmp_name manifest_name (ow_pid ow)"
  have c: "contained ow ?r ?ls ?fs" using inv by (simp add: store_inv_def Let_def)
  then have wf: "tree_wf ?fs" "plain_root ?fs ?r" by (simp_all add: contained_def)
  show ?thesis
  proof (cases op)
    case (SetLayerState i s)
    with store_inv_set [OF inv] b show ?thesis by (simp add: run_prim_def benign_def)
  next
    case WriteTmp
    show ?thesis
    proof (cases rule: on_fs_cases [of "create_file (?r @ [?tmp]) 1 (ManifestFile (st_manifest (w_store w)))" w])
      case (ok fs')
      then have "fs' = dset ?fs (?r @ [?tmp]) (File 1 (ManifestFile (st_manifest (w_store w))))"
        "dget ?fs (?r @ [?tmp]) = None"
        using wf(2) by (auto simp: create_file_def plain_simps split: if_splits)
      with contained_write [OF c, of ?tmp] ok store_inv_fs [OF inv] WriteTmp show ?thesis
        by (simp add: run_prim_def Let_def outside_kept_def)
    qed (use inv WriteTmp in \<open>simp add: run_prim_def Let_def\<close>)
  next
    case PublishTmp
    show ?thesis
    proof (cases rule: on_fs_cases [of "replace_file (?r @ [?tmp]) (?r @ [manifest_name])" w])
      case (ok fs')
      then obtain n d where t: "dget ?fs (?r @ [?tmp]) = Some (File n d)"
        and nd: "\<forall>u v. dget ?fs (?r @ [manifest_name]) \<noteq> Some (Dir u v)"
        and fs': "fs' = dset (ddel ?fs (?r @ [?tmp])) (?r @ [manifest_name]) (File n d)"
        using wf(2) by (auto simp: replace_file_def plain_simps split: option.splits node.splits)
      have s: "shrinks ?r ?fs (ddel ?fs (?r @ [?tmp]))"
        using shrinks_ddel [OF wf, of "[?tmp]"] file_no_children [OF wf(1) t] by simp
      then have "contained ow ?r ?ls fs'"
        using contained_write [OF contained_shrinks [OF c s], of manifest_name] nd by (simp add: fs')
      moreover have "outside_kept ?r ?fs fs'" by (auto simp: outside_kept_def fs')
      ultimately show ?thesis using ok store_inv_fs [OF inv] PublishTmp by (simp add: run_prim_def Let_def)
    qed (use inv PublishTmp in \<open>simp add: run_prim_def Let_def\<close>)
  next
    case (DeleteChecked p)
    then obtain q where p: "p = ?r @ q" "q \<noteq> []" using b by (auto simp: benign_def strict_prefix_def prefix_def)
    show ?thesis
    proof (cases rule: on_fs_cases [of "unlink p" w])
      case (ok fs')
      with unlink_shrinks [OF wf p(2)] p store_inv_shrinks [OF inv] DeleteChecked inv show ?thesis
        by (simp add: run_prim_def Let_def)
    qed (use inv DeleteChecked in \<open>simp add: run_prim_def Let_def\<close>)
  next
    case (RemoveDir p)
    then obtain q where p: "p = ?r @ q" "q \<noteq> []" using b by (auto simp: benign_def strict_prefix_def prefix_def)
    show ?thesis
    proof (cases rule: on_fs_cases [of "rmdir p" w])
      case (ok fs')
      with rmdir_shrinks [OF wf p(2)] p store_inv_shrinks [OF inv] RemoveDir inv show ?thesis
        by (simp add: run_prim_def Let_def)
    qed (use inv RemoveDir in \<open>simp add: run_prim_def Let_def\<close>)
  qed
qed

lemma benign_run:
  "store_inv ow fs0 w \<Longrightarrow> \<forall>op \<in> set ops. benign (st_root (w_store w)) op \<Longrightarrow>
     store_inv ow fs0 (snd (run_prims ow ops w)) \<and>
     st_root (w_store (snd (run_prims ow ops w))) = st_root (w_store w)"
proof (induction ops arbitrary: w)
  case (Cons op ops)
  have b: "benign (st_root (w_store w)) op" using Cons.prems(2) by simp
  obtain res w' where w': "run_prim ow op w = (res, w')" by fastforce
  with benign_keeps [OF Cons.prems(1) b]
  have 1: "store_inv ow fs0 w'" "st_root (w_store w') = st_root (w_store w)" by simp_all
  have "\<forall>op \<in> set ops. benign (st_root (w_store w')) op" using Cons.prems(2) 1(2) by simp
  from Cons.IH [OF 1(1) this] 1 w' show ?case by (cases res) simp_all
qed simp

lemma run_prims_append:
  "run_prims ow (a @ b) w =
     (case run_prims ow a w of (Inl e, w') \<Rightarrow> (Inl e, w') | (Inr _, w') \<Rightarrow> run_prims ow b w')"
  by (induction a arbitrary: w) (auto split: prod.splits sum.splits)

lemma run_prims_app_Inl: "run_prims ow a w = (Inl e, v) \<Longrightarrow> run_prims ow (a @ b) w = (Inl e, v)"
  by (simp add: run_prims_append)

lemma run_prims_app_Inr: "run_prims ow a w = (Inr u, v) \<Longrightarrow> run_prims ow (a @ b) w = run_prims ow b v"
  by (simp add: run_prims_append)

lemma deletes_benign:
  assumes "layer_ok l"
  shows "\<forall>op \<in> set ([SetLayerState (le_index l) ''consuming'', WriteTmp, PublishTmp] @
      map (\<lambda>e. DeleteChecked (r @ path_parts (fe_path e))) (le_files l) @
      map (\<lambda>k. RemoveDir (r @ [layer_name (le_index l), numa_name k])) (rev [0..le_numa_count l - 1]) @
      [RemoveDir (r @ [layer_name (le_index l)])]). benign r op"
  using assms by (fastforce simp: benign_def layer_ok_def strict_prefix_def)

text \<open>After the last directory of a layer is removed, nothing of the layer is left.\<close>

lemma layer_dir_removed:
  assumes "store_inv ow fs0 w" "run_prim ow (RemoveDir (st_root (w_store w) @ [c])) w = (Inr (), w')"
  shows "dget (w_fs w') (st_root (w_store w) @ c # q) = None \<and> w_store w' = w_store w"
proof -
  let ?r = "st_root (w_store w)"
  have wf: "tree_wf (w_fs w)" "plain_root (w_fs w) ?r"
    using assms(1) by (simp_all add: store_inv_def contained_def Let_def)
  obtain fs' where fs': "rmdir (?r @ [c]) (w_fs w) = Inr fs'" and w': "w' = w\<lparr>w_fs := fs'\<rparr>"
    using assms(2) by (cases rule: on_fs_cases [of "rmdir (?r @ [c])" w]) (auto simp: run_prim_def Let_def)
  from rmdir_plain [OF wf(2) _ fs']
  have "children (w_fs w) (?r @ [c]) = []" and d: "fs' = ddel (w_fs w) (?r @ [c])" by simp_all
  then have "\<not> dmem (w_fs w) ((?r @ [c]) @ q) \<or> q = []" by (intro empty_dir_below [OF wf(1)]) simp_all
  then show ?thesis by (auto simp: w' d dget_None_iff)
qed

lemma run_last: "run_prims ow (a @ [op]) w = (Inr (), w') \<Longrightarrow>
    \<exists>v. run_prims ow a w = (Inr (), v) \<and> run_prim ow op v = (Inr (), w')"
  by (auto simp: run_prims_append split: prod.splits sum.splits)

lemma consume_prefix_inv:
  assumes inv: "store_inv ow fs0 w" and l: "layer_ok l" and r: "r = st_root (w_store w)"
  shows "store_inv ow fs0 (snd (run_prims ow (take k (consume_script r l)) w)) \<and>
    st_root (w_store (snd (run_prims ow (take k (consume_script r l)) w))) = r"
proof -
  let ?init = "[SetLayerState (le_index l) ''consuming'', WriteTmp, PublishTmp] @
      map (\<lambda>e. DeleteChecked (r @ path_parts (fe_path e))) (le_files l) @
      map (\<lambda>k. RemoveDir (r @ [layer_name (le_index l), numa_name k])) (rev [0..le_numa_count l - 1])"
  let ?last = "RemoveDir (r @ [layer_name (le_index l)])"
  let ?A = "?init @ [?last]" and ?B = "[SetLayerState (le_index l) ''consumed'', WriteTmp, PublishTmp]"
  have script: "consume_script r l = ?A @ ?B" by (simp add: consume_script_def Let_def)
  have benA: "\<forall>op \<in> set ?A. benign r op" using deletes_benign [OF l, of r] by simp
  show ?thesis
  proof (cases "k \<le> length ?A")
    case True
    then have "take k (consume_script r l) = take k ?A" by (simp only: script take_append) simp
    moreover have "\<forall>op \<in> set (take k ?A). benign r op" using benA by (meson in_set_takeD)
    ultimately show ?thesis using benign_run [OF inv] r by metis
  next
    case False
    then have tk: "take k (consume_script r l) = ?A @ take (k - length ?A) ?B"
      by (simp only: script take_append) simp
    obtain res v where v: "run_prims ow ?A w = (res, v)" by fastforce
    have v_inv: "store_inv ow fs0 v" "st_root (w_store v) = r"
      using benign_run [OF inv, of ?A] benA r v by simp_all
    show ?thesis
    proof (cases res)
      case (Inl e)
      have "run_prims ow (take k (consume_script r l)) w = (Inl e, v)"
        unfolding tk by (rule run_prims_app_Inl [OF v [unfolded Inl]])
      with v_inv show ?thesis by simp
    next
      case (Inr u)
      have "run_prims ow (?init @ [?last]) w = (Inr (), v)" unfolding v Inr by simp
      from run_last [OF this] obtain v0
        where v0: "run_prims ow ?init w = (Inr (), v0)" "run_prim ow ?last v0 = (Inr (), v)" by blast
      have "\<forall>op \<in> set ?init. benign r op" using benA by simp
      then have inv0: "store_inv ow fs0 v0" "st_root (w_store v0) = r"
        using benign_run [OF inv, of ?init] r v0(1) by simp_all
      have gone: "\<forall>q. dget (w_fs v) (st_root (w_store v) @ layer_name (le_index l) # q) = None"
        using layer_dir_removed [OF inv0(1)] v0(2) inv0(2) v_inv(2) by metis
      let ?v1 = "v\<lparr>w_store := set_layer_state (le_index l) ''consumed'' (w_store v)\<rparr>"
      have v1: "store_inv ow fs0 ?v1" "st_root (w_store ?v1) = r"
        using store_inv_set [OF v_inv(1)] gone v_inv(2) by simp_all
      have B: "take j ?B = [] \<or> take j ?B = SetLayerState (le_index l) ''consumed'' # take (j - 1) [WriteTmp, PublishTmp]" for j
        by (cases j) simp_all
      have "\<forall>op \<in> set (take j [WriteTmp, PublishTmp]). benign r op" for j
        using in_set_takeD [of _ j "[WriteTmp, PublishTmp]"] by (fastforce simp: benign_def)
      note 2 = benign_run [OF v1(1)] this v1(2)
      have "run_prims ow (take k (consume_script r l)) w = run_prims ow (take (k - length ?A) ?B) v"
        unfolding tk by (rule run_prims_app_Inr [OF v [unfolded Inr]])
      moreover have "store_inv ow fs0 (snd (run_prims ow (take j ?B) v)) \<and>
          st_root (w_store (snd (run_prims ow (take j ?B) v))) = r" for j
      proof (cases "take j ?B = []")
        case False
        with B have "take j ?B = SetLayerState (le_index l) ''consumed'' # take (j - 1) [WriteTmp, PublishTmp]"
          by blast
        then have "run_prims ow (take j ?B) v = run_prims ow (take (j - 1) [WriteTmp, PublishTmp]) ?v1"
          by (simp add: run_prim_def)
        with 2 show ?thesis by metis
      qed (use v_inv in simp)
      ultimately show ?thesis by metis
    qed
  qed
qed

lemma find_layer_Some: "find_layer st i = Some l \<Longrightarrow> l \<in> set (mf_layers (st_manifest st)) \<and> le_index l = i"
  by (auto simp: find_layer_def find_Some_iff)

lemma consume_layer_inv:
  assumes inv: "store_inv ow fs0 w"
  shows "store_inv ow fs0 (snd (consume_layer ow i stop w)) \<and>
    st_root (w_store (snd (consume_layer ow i stop w))) = st_root (w_store w)"
proof (cases "find_layer (w_store w) i")
  case (Some l)
  then have l: "layer_ok l" using inv find_layer_Some by (fastforce simp: store_inv_def Let_def)
  let ?s = "consume_script (st_root (w_store w)) l"
  obtain k where k: "(case stop of None \<Rightarrow> ?s | Some k \<Rightarrow> take k ?s) = take k ?s"
    by (cases stop) (simp_all, metis take_all order_refl)
  have "consume_layer ow i stop w = run_prims ow (take k ?s) w \<or> snd (consume_layer ow i stop w) = w"
    using k by (simp add: consume_layer_def Let_def Some split: sum.split)
  then show ?thesis using consume_prefix_inv [OF inv l refl, of k] inv by metis
qed (use inv in \<open>simp add: consume_layer_def Let_def\<close>)

definition store_step :: "owner \<Rightarrow> world \<Rightarrow> int \<times> nat option \<Rightarrow> world" where
  "store_step ow w op = snd (consume_layer ow (fst op) (snd op) w)"

interpretation ephemeral_store: step_machine "store_step ow"
    "\<lambda>w. store_inv ow fs0 w \<and> st_root (w_store w) = r" for ow fs0 r
  unfolding store_step_def by unfold_locales (use consume_layer_inv in blast)

end
