(* ===== verification/EphemeralPublish.thy ===== *)
theory EphemeralPublish
  imports EphemeralStore "HOL-Library.Multiset"
begin

text \<open>
  From publishing to opening: a tree that \<open>publish_ephemeral\<close> accepts is exactly what its manifest
  lists, so the store opens it, and the guarantees of the store apply.
\<close>

section \<open>A layer as its entry describes it\<close>

definition layer_described :: "'c tree \<Rightarrow> path \<Rightarrow> layer_entry \<Rightarrow> bool" where
  "layer_described fs r l \<longleftrightarrow>
     le_files l \<noteq> [] \<and> distinct (map fe_path (le_files l)) \<and> le_bytes l = sum_list (map fe_size (le_files l)) \<and>
     (\<exists>u w. dget fs (r @ [layer_name (le_index l)]) = Some (Dir u w)) \<and>
     (\<forall>k \<in> {0..<le_numa_count l}. \<exists>u w. dget fs (r @ [layer_name (le_index l), numa_name k]) = Some (Dir u w)) \<and>
     (\<forall>e \<in> set (le_files l). \<exists>k c d. 0 \<le> k \<and> k < le_numa_count l \<and> entry_name c \<and> fe_size e > 0 \<and>
        fe_path e = join_path [layer_name (le_index l), numa_name k, c] \<and>
        dget fs (r @ [layer_name (le_index l), numa_name k, c]) = Some (File (fe_size e) d)) \<and>
     (\<forall>q n. dget fs (r @ layer_name (le_index l) # q) = Some n \<longrightarrow> owned l (layer_name (le_index l) # q) n)"

lemma layer_described_entry:
  assumes "layer_described fs r l" "e \<in> set (le_files l)"
  obtains k c d where "0 \<le> k" "k < le_numa_count l" "entry_name c" "fe_size e > 0"
    "fe_path e = join_path [layer_name (le_index l), numa_name k, c]"
    "dget fs (r @ [layer_name (le_index l), numa_name k, c]) = Some (File (fe_size e) d)"
proof -
  have "\<exists>k c d. 0 \<le> k \<and> k < le_numa_count l \<and> entry_name c \<and> fe_size e > 0 \<and>
      fe_path e = join_path [layer_name (le_index l), numa_name k, c] \<and>
      dget fs (r @ [layer_name (le_index l), numa_name k, c]) = Some (File (fe_size e) d)"
    using assms unfolding layer_described_def by (elim conjE) (rule bspec)
  then show ?thesis using that by blast
qed

lemma entry_name_layer [simp]: "entry_name (layer_name i)" "entry_name (numa_name i)"
proof -
  have "slash \<notin> set (digits n)" for n
    using digits_are_digits [of n] by (auto simp: slash_def less_eq_char_def)
  then have "slash \<notin> set (str_of_int i)" by (simp add: str_of_int_def slash_def)
  then show "entry_name (layer_name i)" "entry_name (numa_name i)"
    by (simp_all add: entry_name_def layer_name_def numa_name_def slash_def)
qed

lemma parts3 [simp]: "entry_name c \<Longrightarrow> path_parts (join_path [layer_name i, numa_name k, c]) = [layer_name i, numa_name k, c]"
  by (rule path_parts_join) simp

lemma layer_described_ok:
  assumes "layer_described fs r l"
  shows "layer_ok l"
  unfolding layer_ok_def
proof
  fix e assume "e \<in> set (le_files l)"
  then obtain k c where c: "entry_name c" and p: "fe_path e = join_path [layer_name (le_index l), numa_name k, c]"
    using assms unfolding layer_described_def by blast
  have n: "\<forall>x \<in> set [layer_name (le_index l), numa_name k, c]. entry_name x" using c by simp
  then have "''..'' \<notin> set [layer_name (le_index l), numa_name k, c]" by (metis entry_name_def)
  with join_path_relative [OF n] parts3 [OF c] p
  show "\<not> is_absolute (fe_path e) \<and> ''..'' \<notin> set (path_parts (fe_path e)) \<and>
      take 1 (path_parts (fe_path e)) = [layer_name (le_index l)]" by (simp del: join_path.simps)
qed

lemma canonical_child:
  assumes "resolve fs d = d"
  shows "lstat fs (d @ [c]) = dget fs (d @ [c])"
    "\<not> is_link fs (d @ [c]) \<Longrightarrow> resolve fs (d @ [c]) = d @ [c]"
    "\<not> is_link fs (d @ [c]) \<Longrightarrow> stat fs (d @ [c]) = dget fs (d @ [c])"
proof -
  show l: "lstat fs (d @ [c]) = dget fs (d @ [c])" by (simp add: lstat_def phys_def assms)
  assume "\<not> is_link fs (d @ [c])"
  then have "link_target fs (d @ [c]) = None"
    by (simp add: is_link_def l link_target_def split: option.splits node.splits)
  moreover have "resolve fs (d @ [c]) = canon_from fs d [c]"
    using assms unfolding resolve_def by (simp add: canon_from_append)
  ultimately show "resolve fs (d @ [c]) = d @ [c]" by simp
  then show "stat fs (d @ [c]) = dget fs (d @ [c])" by (simp add: stat_def)
qed

text \<open>What a successful scan of one NUMA directory, and of all of them, has seen.\<close>

definition scanned_entry :: "etree \<Rightarrow> path \<Rightarrow> int \<Rightarrow> int \<Rightarrow> string \<Rightarrow> file_entry \<Rightarrow> bool" where
  "scanned_entry fs r i k c e \<longleftrightarrow> fe_path e = join_path [layer_name i, numa_name k, c] \<and> fe_size e > 0 \<and>
     (\<exists>d. dget fs (r @ [layer_name i, numa_name k, c]) = Some (File (fe_size e) d))"

lemma scan_entries_Inr:
  assumes "scan_entries fs r i k E names (obs, files) = Inr (obs', files')"
    and can: "resolve fs (r @ [layer_name i, numa_name k]) = r @ [layer_name i, numa_name k]"
  shows "\<exists>es. files' = files @ es \<and> list_all2 (scanned_entry fs r i k) names es"
  using assms(1)
proof (induction names arbitrary: obs files)
  case (Cons c names)
  let ?p = "r @ [layer_name i, numa_name k, c]"
  let ?e = "\<lparr>fe_path = join_path [layer_name i, numa_name k, c], fe_size = file_size fs ?p\<rparr>"
  obtain obs1 where nl: "\<not> is_link fs ?p" "is_file fs ?p" "file_size fs ?p > 0"
    and rest: "scan_entries fs r i k E names (obs1, files @ [?e]) = Inr (obs', files')"
    using Cons.prems by (auto simp: Let_def split: if_splits option.splits simp del: join_path.simps)
  have "stat fs ?p = dget fs ?p" using canonical_child(3) [OF can, of c] nl(1) by simp
  then have "scanned_entry fs r i k c ?e"
    using nl(2,3) by (auto simp: scanned_entry_def is_file_def file_size_def split: option.splits node.splits)
  with Cons.IH [OF rest] show ?case by auto
qed simp

lemma scan_numas_Inr:
  assumes "scan_numas fs r i E ks (obs, files) = Inr (obs', files')"
    and can: "resolve fs (r @ [layer_name i]) = r @ [layer_name i]"
  shows "\<exists>ess. files' = files @ concat ess \<and>
    list_all2 (\<lambda>k es. list_all2 (scanned_entry fs r i k) (children fs (r @ [layer_name i, numa_name k])) es \<and>
      \<not> is_link fs (r @ [layer_name i, numa_name k])) ks ess"
  using assms(1)
proof (induction ks arbitrary: obs files)
  case (Cons k ks)
  let ?d = "r @ [layer_name i, numa_name k]"
  obtain obs1 files1 where nl: "\<not> is_link fs ?d"
    and scan: "scan_entries fs r i k E (iterdir fs ?d) (obs, files) = Inr (obs1, files1)"
    and rest: "scan_numas fs r i E ks (obs1, files1) = Inr (obs', files')"
    using Cons.prems by (auto simp: Let_def split: if_splits)
  have can': "resolve fs ?d = ?d" using canonical_child(2) [OF can, of "numa_name k"] nl by simp
  from scan_entries_Inr [OF scan can'] obtain es where es: "files1 = files @ es"
    "list_all2 (scanned_entry fs r i k) (children fs ?d) es" by (auto simp: iterdir_def can')
  from Cons.IH [OF rest] es nl show ?case by (fastforce intro: exI [of _ "es # _"])
qed simp


lemma scanned_paths:
  assumes "list_all2 (scanned_entry fs r i k) names es"
  shows "map fe_path es = map (\<lambda>c. join_path [layer_name i, numa_name k, c]) names"
  using assms by (induction names es rule: list_all2_induct) (simp_all add: scanned_entry_def del: join_path.simps)

lemma children_names: "tree_wf fs \<Longrightarrow> c \<in> set (children fs d) \<Longrightarrow> entry_name c"
  using dmem_dget [of fs "d @ [c]"] by (fastforce simp: children_mem tree_wf_def)

lemma children_distinct: "tree_wf fs \<Longrightarrow> distinct (children fs d)"
proof -
  assume "tree_wf fs"
  then have "distinct (dkeys fs)" by (simp add: tree_wf_def dwf_def)
  then show ?thesis unfolding children_def
    by (auto simp: distinct_map inj_on_def intro!: distinct_filter) (metis append_butlast_last_id)
qed


lemma wf_ancestor:
  assumes "tree_wf fs" "p \<noteq> []"
  shows "dmem fs (p @ q) \<Longrightarrow> q \<noteq> [] \<Longrightarrow> \<exists>u w. dget fs p = Some (Dir u w)"
proof (induction q rule: rev_induct)
  case (snoc c q)
  obtain u w where d: "dget fs (p @ q) = Some (Dir u w)"
    using wf_parent [OF assms(1) _ assms(2)] snoc.prems(1) by blast
  show ?case
  proof (cases "q = []")
    case False
    with snoc.IH dget_Some_dmem [OF d] show ?thesis by blast
  qed (use d in simp)
qed simp

lemma distinct_pairs:
  "distinct ks \<Longrightarrow> \<forall>k \<in> set ks. distinct (f k) \<Longrightarrow> distinct (concat (map (\<lambda>k. map (Pair k) (f k)) ks))"
  by (induction ks) (auto simp: distinct_map inj_on_def)

lemma scan_entries_lengths:
  "scan_entries fs r i k E names (obs, files) = Inr (obs', files') \<Longrightarrow> length obs = length files \<Longrightarrow>
     length obs' = length files'"
  by (induction names arbitrary: obs files) (auto simp: Let_def split: if_splits option.splits)

lemma scan_numas_lengths:
  "scan_numas fs r i E ks (obs, files) = Inr (obs', files') \<Longrightarrow> length obs = length files \<Longrightarrow>
     length obs' = length files'"
  by (induction ks arbitrary: obs files) (auto simp: Let_def split: if_splits dest: scan_entries_lengths)

lemma identity_list_nonempty: "0 < n \<Longrightarrow> 0 < E \<Longrightarrow> identity_list n E \<noteq> []"
proof -
  assume "0 < n" "0 < E"
  then have "(0, ''gate'', 0, ''quant'') \<in> set (identity_list n E)" by (simp add: identity_list_def)
  then show ?thesis by force
qed

lemma scanned_numas_paths:
  assumes "list_all2 (\<lambda>k es. list_all2 (scanned_entry fs r i k) (children fs (r @ [layer_name i, numa_name k])) es \<and> P k) ks ess"
  shows "map fe_path (concat ess) =
    map (\<lambda>(k, c). join_path [layer_name i, numa_name k, c])
      (concat (map (\<lambda>k. map (Pair k) (children fs (r @ [layer_name i, numa_name k]))) ks))"
  using assms
  by (induction ks ess rule: list_all2_induct)
    (auto simp: comp_def simp del: join_path.simps dest: scanned_paths)

lemma scanned_numas_entry:
  assumes "list_all2 (\<lambda>k es. list_all2 (scanned_entry fs r i k) (f k) es \<and> P k) ks ess" "e \<in> set (concat ess)"
  shows "\<exists>k \<in> set ks. \<exists>c \<in> set (f k). scanned_entry fs r i k c e"
  using assms
  by (induction ks ess rule: list_all2_induct) (auto simp: list_all2_conv_all_nth in_set_conv_nth, (metis nth_mem)+)

lemma scanned_numas_child:
  assumes "list_all2 (\<lambda>k es. list_all2 (scanned_entry fs r i k) (f k) es \<and> P k) ks ess" "k \<in> set ks" "c \<in> set (f k)"
  shows "\<exists>e \<in> set (concat ess). scanned_entry fs r i k c e"
  using assms
  by (induction ks ess rule: list_all2_induct)
    (auto simp: list_all2_conv_all_nth in_set_conv_nth, (metis UN_I UnI1 nth_mem)+)


lemma list_all2_ex: "list_all2 P xs ys \<Longrightarrow> x \<in> set xs \<Longrightarrow> \<exists>y \<in> set ys. P x y"
  by (induction xs ys rule: list_all2_induct) auto

text \<open>A layer that \<open>scan_layer\<close> accepts is what its entry says.\<close>

lemma scan_layer_described:
  assumes scan: "scan_layer fs r i n E = Inr l" and wf: "tree_wf fs" and can: "resolve fs r = r"
    and r: "r \<noteq> []" and pos: "0 < n" "0 < E"
  shows "le_index l = i \<and> le_numa_count l = n \<and> le_state l = ''ready'' \<and> layer_described fs r l"
proof -
  let ?L = "layer_name i" and ?dir = "r @ [layer_name i]"
  let ?numa = "\<lambda>k. r @ [layer_name i, numa_name k]"
  obtain obs files where nl: "is_dir fs ?dir" "\<not> is_link fs ?dir"
    and dirs: "\<forall>c \<in> set (iterdir fs ?dir). is_dir fs (?dir @ [c])"
    and names: "set (iterdir fs ?dir) = set (map numa_name [0..n - 1])"
    and numas: "scan_numas fs r i E [0..n - 1] ([], []) = Inr (obs, files)"
    and all: "set (identity_list n E) \<subseteq> set obs"
    and l: "l = \<lparr>le_index = i, le_numa_count = n, le_state = ''ready'',
                   le_files = sort_key fe_path files, le_bytes = sum_list (map fe_size files)\<rparr>"
    using scan unfolding scan_layer_def Let_def
    by (auto split: if_splits sum.splits simp: list_ex_iff simp del: set_map set_upto)
  have canL: "resolve fs ?dir = ?dir" and "stat fs ?dir = dget fs ?dir"
    using canonical_child(2,3) [OF can nl(2)] by simp_all
  then obtain u w where root: "dget fs ?dir = Some (Dir u w)"
    using nl(1) by (auto simp: is_dir_def split: option.splits node.splits)
  have kids: "set (children fs ?dir) = numa_name ` {0..<n}"
    using names by (simp add: iterdir_def canL atLeastLessThanPlusOne_atLeastAtMost_int [symmetric])
  obtain ess where files: "files = concat ess" and ess: "list_all2 (\<lambda>k es.
      list_all2 (scanned_entry fs r i k) (children fs (?numa k)) es \<and> \<not> is_link fs (?numa k)) [0..n - 1] ess"
    using scan_numas_Inr [OF numas canL] by auto
  have nlk: "\<not> is_link fs (?numa k)" if "k \<in> {0..<n}" for k
    using list_all2_ex [OF ess, of k] that by auto
  have numa_dir: "\<exists>u w. dget fs (?numa k) = Some (Dir u w)" if k: "k \<in> {0..<n}" for k
  proof -
    have "is_dir fs (?numa k)" using dirs kids k by (simp add: iterdir_def canL)
    with canonical_child(3) [OF canL, of "numa_name k"] nlk [OF k] show ?thesis
      by (auto simp: is_dir_def split: option.splits node.splits)
  qed
  have entry: "\<exists>k c. 0 \<le> k \<and> k < n \<and> c \<in> set (children fs (?numa k)) \<and> scanned_entry fs r i k c e"
    if e: "e \<in> set files" for e
    using scanned_numas_entry [OF ess e [unfolded files]] by auto
  have child: "\<exists>e \<in> set files. scanned_entry fs r i k c e" if "k \<in> {0..<n}" "c \<in> set (children fs (?numa k))" for k c
    using scanned_numas_child [OF ess, of k c] that files by simp
  have below: "owned l (?L # q) nd" if g: "dget fs (r @ ?L # q) = Some nd" for q nd
  proof (cases q)
    case Nil
    then show ?thesis using root g by (auto simp: owned_def l)
  next
    case (Cons a q')
    have m: "dmem fs ((?dir @ [a]) @ q')" using g Cons dget_Some_dmem by simp
    have da: "dmem fs (?dir @ [a])"
      using wf_ancestor [OF wf _ m] m by (cases "q' = []") (auto dest: dget_Some_dmem)
    then have "a \<in> set (children fs ?dir)" by (simp add: children_mem)
    then obtain k where k: "a = numa_name k" "k \<in> {0..<n}" unfolding kids by blast
    obtain u' w' where d: "dget fs (?numa k) = Some (Dir u' w')" using numa_dir [OF k(2)] by blast
    show ?thesis
    proof (cases q')
      case Nil
      with g d Cons k show ?thesis by (auto simp: owned_def numa_dirs_def l)
    next
      case (Cons c q'')
      have m': "dmem fs ((?numa k @ [c]) @ q'')" using m Cons k by simp
      have "dmem fs (?numa k @ [c])"
        using wf_ancestor [OF wf _ m'] m' by (cases "q'' = []") (auto dest: dget_Some_dmem)
      then have c: "c \<in> set (children fs (?numa k))" by (simp only: children_mem)
      from child [OF k(2) this] obtain e d where e: "e \<in> set files"
        "fe_path e = join_path [?L, numa_name k, c]" "dget fs (r @ [?L, numa_name k, c]) = Some (File (fe_size e) d)"
        by (auto simp: scanned_entry_def simp del: join_path.simps)
      have "q'' = []" using wf_ancestor [OF wf _ m'] e(3) by (cases "q'' = []") auto
      moreover have "entry_name c" using children_names [OF wf c] .
      ultimately show ?thesis
        using e g \<open>q = a # q'\<close> Cons k(1)
        by (force simp: owned_def file_paths_def l image_iff simp del: join_path.simps dest: parts3 [of c i k])
    qed
  qed
  have "distinct (map fe_path files)"
  proof -
    let ?pairs = "concat (map (\<lambda>k. map (Pair k) (children fs (?numa k))) [0..n - 1])"
    have "distinct ?pairs" by (rule distinct_pairs) (simp_all add: children_distinct wf)
    moreover have "inj_on (\<lambda>(k, c). join_path [?L, numa_name k, c]) (set ?pairs)"
    proof (rule inj_onI, clarsimp simp del: join_path.simps)
      fix k c k' c' assume "c \<in> set (children fs (?numa k))" "c' \<in> set (children fs (?numa k'))"
        and eq: "join_path [?L, numa_name k, c] = join_path [?L, numa_name k', c']"
      then have n: "entry_name c" "entry_name c'" using children_names [OF wf] by blast+
      have "[?L, numa_name k, c] = [?L, numa_name k', c']"
        using parts3 [OF n(1), of i k] parts3 [OF n(2), of i k'] unfolding eq by (rule trans [OF sym])
      then show "k = k' \<and> c = c'" by simp
    qed
    ultimately show ?thesis
      using scanned_numas_paths [OF ess] by (simp only: files distinct_map)
  qed
  moreover have "files \<noteq> []"
    using scan_numas_lengths [OF numas] identity_list_nonempty [OF pos] all by auto
  moreover have "sum_list (map fe_size (sort_key fe_path files)) = sum_list (map fe_size files)"
    by (metis mset_map mset_sort sum_mset_sum_list)
  moreover have "distinct (map fe_path (sort_key fe_path files)) = distinct (map fe_path files)"
    by (rule mset_eq_imp_distinct_iff) simp
  moreover have "sort_key fe_path files \<noteq> []" if "files \<noteq> []"
    using that by (metis length_0_conv length_sort)
  moreover have "\<exists>k c d. 0 \<le> k \<and> k < n \<and> entry_name c \<and> fe_size e > 0 \<and>
      fe_path e = join_path [?L, numa_name k, c] \<and> dget fs (r @ [?L, numa_name k, c]) = Some (File (fe_size e) d)"
    if e: "e \<in> set files" for e
    using entry [OF e] children_names [OF wf] unfolding scanned_entry_def by blast
  ultimately have "layer_described fs r l"
    unfolding layer_described_def
    by (intro conjI ballI allI impI) (simp_all add: l root numa_dir below [unfolded l] del: join_path.simps)
  then show ?thesis by (simp add: l)
qed

end
