(* ===== verification/EphemeralOpen.thy ===== *)
theory EphemeralOpen
  imports EphemeralPublish
begin

text \<open>
  The round trip of the weight store: the tree that \<open>publish_ephemeral\<close> leaves under the final name
  is accepted by \<open>open_store\<close>, and from there every history of consumed layers, stopped anywhere,
  can be cleaned up completely.
\<close>

section \<open>Layers that validate\<close>

lemma layer_described_move:
  assumes "layer_described fs r l"
    and "\<And>q. dget fs' (r' @ layer_name (le_index l) # q) = dget fs (r @ layer_name (le_index l) # q)"
  shows "layer_described fs' r' l"
  using assms(1) unfolding layer_described_def assms(2) [of "[]", simplified]
    assms(2) [of "[_]"] assms(2) [of "[_, _]"] assms(2) .

lemma check_files_described:
  assumes plain: "plain_root fs r"
    and es: "\<forall>e \<in> set es. \<exists>k c d. entry_name c \<and> fe_size e > 0 \<and>
        fe_path e = join_path [layer_name i, numa_name k, c] \<and>
        dget fs (r @ [layer_name i, numa_name k, c]) = Some (File (fe_size e) d)"
    and "distinct (seen @ map fe_path es)"
  shows "check_files fs r i es seen b = Inr (seen @ map fe_path es, b + sum_list (map fe_size es))"
  using es assms(3)
proof (induction es arbitrary: seen b)
  case (Cons e es)
  obtain k c d where c: "entry_name c" "fe_size e > 0"
    and p: "fe_path e = join_path [layer_name i, numa_name k, c]"
    and f: "dget fs (r @ [layer_name i, numa_name k, c]) = Some (File (fe_size e) d)"
    using Cons.prems(1) by auto
  have parts: "path_parts (fe_path e) = [layer_name i, numa_name k, c]" using parts3 [OF c(1)] p by simp
  have "\<forall>x \<in> set [layer_name i, numa_name k, c]. entry_name x" using c(1) by simp
  from join_path_relative [OF this] have rel: "\<not> is_absolute (fe_path e)" unfolding p .
  have dd: "''..'' \<notin> set [layer_name i, numa_name k, c]"
    using c(1) entry_name_layer by (metis empty_iff entry_name_def list.set(1) set_ConsD)
  have st: "is_file fs (r @ [layer_name i, numa_name k, c])" "\<not> is_link fs (r @ [layer_name i, numa_name k, c])"
    "file_size fs (r @ [layer_name i, numa_name k, c]) = fe_size e"
    using plain f by (auto simp: is_file_plain is_link_plain file_size_def stat_plain)
  have "check_files fs r i es (seen @ [fe_path e]) (b + fe_size e) =
      Inr ((seen @ [fe_path e]) @ map fe_path es, b + fe_size e + sum_list (map fe_size es))"
    using Cons.IH [of "seen @ [fe_path e]" "b + fe_size e"] Cons.prems by simp
  then show ?case
    using Cons.prems(2) c(2) rel dd st by (simp add: Let_def parts)
qed simp

lemma walk_files_plain:
  assumes "plain_root fs r"
  shows "q \<in> set (walk_files fs (r @ p)) \<longleftrightarrow> q \<noteq> [] \<and>
    (case dget fs (r @ p @ q) of Some (File _ _) \<Rightarrow> True | Some (Link t) \<Rightarrow> \<not> is_dir fs t | _ \<Rightarrow> False)"
    (is "_ \<longleftrightarrow> q \<noteq> [] \<and> ?P (r @ p @ q)")
proof
  assume "q \<in> set (walk_files fs (r @ p))"
  then obtain x where "strict_prefix (r @ p) x" "?P x" "q = drop (length (r @ p)) x"
    unfolding walk_files_def Let_def resolve_plain [OF assms] set_map set_filter by blast
  then show "q \<noteq> [] \<and> ?P (r @ p @ q)" by (auto simp: strict_prefix_def prefix_def)
next
  assume q: "q \<noteq> [] \<and> ?P (r @ p @ q)"
  then have "r @ p @ q \<in> set (dkeys fs)"
    by (auto simp: dmem_iff [symmetric] intro: dget_Some_dmem split: option.splits)
  moreover have "strict_prefix (r @ p) (r @ p @ q)" "q = drop (length (r @ p)) (r @ p @ q)"
    using q by (auto simp: strict_prefix_def)
  ultimately show "q \<in> set (walk_files fs (r @ p))"
    using q unfolding walk_files_def Let_def resolve_plain [OF assms] set_map set_filter by blast
qed

lemma walk_described:
  assumes wf: "tree_wf fs" and plain: "plain_root fs r" and d: "layer_described fs r l"
  shows "set (map (\<lambda>q. join_path (layer_name (le_index l) # q)) (walk_files fs (r @ [layer_name (le_index l)])))
    = set (map fe_path (le_files l))"
proof -
  let ?L = "layer_name (le_index l)"
  have walk: "q \<in> set (walk_files fs (r @ [?L])) \<longleftrightarrow> q \<noteq> [] \<and>
      (case dget fs (r @ ?L # q) of Some (File _ _) \<Rightarrow> True | Some (Link t) \<Rightarrow> \<not> is_dir fs t | _ \<Rightarrow> False)" for q
    using walk_files_plain [OF plain, of q "[?L]"] by simp
  show ?thesis
  proof (intro set_eqI iffI)
    fix s assume "s \<in> set (map (\<lambda>q. join_path (?L # q)) (walk_files fs (r @ [?L])))"
    then obtain q n where q: "s = join_path (?L # q)" "q \<noteq> []" "dget fs (r @ ?L # q) = Some n"
      "case n of File _ _ \<Rightarrow> True | Link t \<Rightarrow> \<not> is_dir fs t | _ \<Rightarrow> False"
      by (auto simp: walk simp del: join_path.simps split: option.splits)
    have "owned l (?L # q) n" using d q(3) unfolding layer_described_def by blast
    with q(4) have "?L # q \<in> file_paths l" by (cases n) (simp_all add: owned_def)
    then obtain e where e: "e \<in> set (le_files l)" "path_parts (fe_path e) = ?L # q"
      by (auto simp: file_paths_def)
    obtain k c where c: "entry_name c" "fe_path e = join_path [?L, numa_name k, c]"
      using d e(1) unfolding layer_described_def by blast
    have "?L # q = [?L, numa_name k, c]" using e(2) parts3 [OF c(1)] c(2) by metis
    with c(2) q(1) have "s = fe_path e" by metis
    with e(1) show "s \<in> set (map fe_path (le_files l))" by simp
  next
    fix s assume "s \<in> set (map fe_path (le_files l))"
    then obtain e where e: "e \<in> set (le_files l)" "s = fe_path e" by auto
    then obtain k c dd where c: "fe_path e = join_path [?L, numa_name k, c]"
      "dget fs (r @ [?L, numa_name k, c]) = Some (File (fe_size e) dd)"
      using d unfolding layer_described_def by blast
    then have "[numa_name k, c] \<in> set (walk_files fs (r @ [?L]))" by (simp add: walk)
    with c(1) e(2) show "s \<in> set (map (\<lambda>q. join_path (?L # q)) (walk_files fs (r @ [?L])))"
      by (force simp del: join_path.simps)
  qed
qed

lemma validate_described:
  assumes "tree_wf fs" "plain_root fs r" "layer_described fs r l"
  shows "validate_manifest_layer fs r l = Inr ()"
proof -
  have "check_files fs r (le_index l) (le_files l) [] 0 =
      Inr ([] @ map fe_path (le_files l), 0 + sum_list (map fe_size (le_files l)))"
  proof (rule check_files_described [OF assms(2)])
    show "\<forall>e \<in> set (le_files l). \<exists>k c d. entry_name c \<and> fe_size e > 0 \<and>
        fe_path e = join_path [layer_name (le_index l), numa_name k, c] \<and>
        dget fs (r @ [layer_name (le_index l), numa_name k, c]) = Some (File (fe_size e) d)"
      using assms(3) unfolding layer_described_def by blast
    show "distinct ([] @ map fe_path (le_files l))" using assms(3) unfolding layer_described_def by simp
  qed
  moreover have "le_files l \<noteq> []" "le_bytes l = sum_list (map fe_size (le_files l))"
    using assms(3) unfolding layer_described_def by blast+
  ultimately show ?thesis
    using walk_described [OF assms] by (simp add: validate_manifest_layer_def)
qed


section \<open>Renaming a directory to a free name\<close>

lemma dget_rename_dir:
  assumes "\<forall>k \<in> set (dkeys fs). \<not> prefix dst k" "\<not> prefix src dst" "\<not> prefix dst src"
  shows "dget (rename_dir src dst fs) p =
    (if prefix dst p then dget fs (src @ drop (length dst) p) else if prefix src p then None else dget fs p)"
  using assms(1)
proof (induction fs)
  case (Cons kv fs)
  obtain k v where kv: "kv = (k, v)" by fastforce
  have k: "\<not> prefix dst k" and tl: "\<forall>k \<in> set (dkeys fs). \<not> prefix dst k" using Cons.prems kv by simp_all
  note IH = Cons.IH [OF tl]
  have nb: "\<not> (prefix src p \<and> prefix dst p)" using assms(2,3) prefix_same_cases by blast
  have step: "dget (rename_dir src dst (kv # fs)) p = (if move_key src dst k = p then Some v else dget (rename_dir src dst fs) p)"
    by (simp add: rename_dir_def kv)
  consider (new) q where "p = dst @ q" | (old) q where "p = src @ q" "\<not> prefix dst p" | (other) "\<not> prefix dst p" "\<not> prefix src p"
    by (meson prefixE)
  then show ?case
  proof cases
    case (new q)
    have "move_key src dst k = dst @ q \<longleftrightarrow> k = src @ q" using k by (auto simp: move_key_def prefix_def)
    then show ?thesis unfolding step IH using new by (simp add: kv)
  next
    case (old q)
    have "move_key src dst k \<noteq> p" using old by (auto simp: move_key_def) (metis prefixI)
    then show ?thesis unfolding step IH using old by simp
  next
    case other
    have "move_key src dst k = p \<longleftrightarrow> k = p" using other by (auto simp: move_key_def)
    then show ?thesis unfolding step IH using other by (simp add: kv)
  qed
qed (simp add: rename_dir_def)

lemma dwf_rename_dir:
  assumes "\<forall>k \<in> set (dkeys fs). \<not> prefix dst k" "dwf fs"
  shows "dwf (rename_dir src dst fs)"
proof -
  have "dkeys (rename_dir src dst fs) = map (move_key src dst) (dkeys fs)"
    by (simp add: rename_dir_def dkeys_def case_prod_unfold comp_def)
  moreover have "inj_on (move_key src dst) (set (dkeys fs))"
    using assms(1) by (auto simp: inj_on_def move_key_def prefix_def split: if_splits)
  ultimately show ?thesis using assms(2) by (simp add: dwf_def distinct_map)
qed

text \<open>A sibling name that is free.\<close>

lemma rename_sibling:
  assumes wf: "tree_wf fs" and plain: "plain_root fs (d @ [a])" and dir: "dget fs (d @ [a]) = Some (Dir u w)"
    and free: "dget fs (d @ [b]) = None" and b: "entry_name b" and fs': "fs' = rename_dir (d @ [a]) (d @ [b]) fs"
  shows "dget fs' (d @ b # q) = dget fs (d @ a # q)"
    "tree_wf fs'" "plain_root fs' (d @ [b])" "same_links fs fs'"
proof -
  have ne: "a \<noteq> b" using dir free by auto
  have none: "\<forall>k \<in> set (dkeys fs). \<not> prefix (d @ [b]) k"
  proof (intro ballI notI)
    fix k assume "k \<in> set (dkeys fs)" "prefix (d @ [b]) k"
    then obtain q where q: "dmem fs ((d @ [b]) @ q)" by (auto simp: dmem_iff prefix_def)
    have "\<not> dmem fs (d @ [b])" using free by (simp add: dget_None_iff)
    with wf_ancestor [OF wf _ q] q show False by (cases "q = []") (auto dest: dget_Some_dmem)
  qed
  have get: "dget fs' p = (if prefix (d @ [b]) p then dget fs ((d @ [a]) @ drop (length (d @ [b])) p)
      else if prefix (d @ [a]) p then None else dget fs p)" for p
    unfolding fs' by (rule dget_rename_dir [OF none]) (use ne in \<open>auto simp: prefix_def\<close>)
  show moved: "dget fs' (d @ b # q) = dget fs (d @ a # q)" for q by (simp add: get)
  have "link_target fs' p = link_target fs p" for p
  proof (cases "prefix (d @ [b]) p")
    case True
    then obtain q where p: "p = (d @ [b]) @ q" by (auto simp: prefix_def)
    have "dget fs p = None" using none True by (auto simp: dget_None_iff dmem_iff)
    moreover have "link_target fs (d @ a # q) = None" using plain by (simp add: plain_root_def)
    ultimately show ?thesis using p moved [of q] by (simp add: link_target_def)
  next
    case False
    show ?thesis
    proof (cases "prefix (d @ [a]) p")
      case True
      then obtain q where p: "p = (d @ [a]) @ q" by (auto simp: prefix_def)
      have "link_target fs p = None" using plain by (simp add: plain_root_def p)
      then show ?thesis using get [of p] False True by (simp add: link_target_def)
    qed (use get [of p] False in \<open>simp add: link_target_def\<close>)
  qed
  then show links: "same_links fs fs'" by (simp add: same_links_def fun_eq_iff)
  have "resolve fs d = d" using resolve_parent [OF wf, of "d @ [a]"] dget_Some_dmem [OF dir] by simp
  then have "resolve fs (d @ [b]) = d @ [b]"
    using free by (simp add: resolve_def canon_from_append link_target_def)
  moreover have "link_target fs (d @ b # q) = None" for q
  proof -
    have "\<not> dmem fs (d @ b # q)" using none by (auto simp: dmem_iff)
    then show ?thesis by (simp add: link_target_def dget_None_iff [symmetric])
  qed
  ultimately show "plain_root fs' (d @ [b])"
    using links resolve_same [OF links, of "d @ [b]"] by (simp add: plain_root_def same_links_def)
  show "tree_wf fs'"
    unfolding tree_wf_def
  proof (intro conjI allI impI)
    show "dwf fs'" unfolding fs' using dwf_rename_dir [OF none] wf by (simp add: tree_wf_def)
  next
    fix p n assume p: "dget fs' p = Some n"
    have "(p \<noteq> [] \<and> entry_name (last p)) \<and> (butlast p \<noteq> [] \<longrightarrow> (\<exists>u w. dget fs' (butlast p) = Some (Dir u w)))"
    proof (cases "prefix (d @ [b]) p")
      case True
      then obtain q where q: "p = d @ b # q" by (auto simp: prefix_def)
      then have g: "dget fs (d @ a # q) = Some n" using p moved by simp
      have parent: "butlast (d @ a # q) \<noteq> [] \<longrightarrow> (\<exists>u w. dget fs (butlast (d @ a # q)) = Some (Dir u w))"
        using wf g unfolding tree_wf_def by blast
      show ?thesis
      proof (cases "q = []")
        case True
        have "\<not> prefix (d @ [b]) d" "\<not> prefix (d @ [a]) d" by (auto simp: prefix_def)
        with True q parent b get [of d] show ?thesis by simp
      next
        case False
        have "entry_name (last (d @ a # q))" using wf g unfolding tree_wf_def by blast
        with False q parent moved [of "butlast q"] show ?thesis by (simp add: butlast_append)
      qed
    next
      case False
      then have g: "dget fs p = Some n" and na: "\<not> prefix (d @ [a]) p"
        using p get [of p] by (simp_all split: if_splits)
      then have pn: "p \<noteq> []" "entry_name (last p)"
        "butlast p \<noteq> [] \<longrightarrow> (\<exists>u w. dget fs (butlast p) = Some (Dir u w))"
        using wf unfolding tree_wf_def by blast+
      have "\<not> prefix (d @ [b]) (butlast p)" "\<not> prefix (d @ [a]) (butlast p)"
        using False na by (meson prefix_order.trans prefixeq_butlast)+
      with pn get [of "butlast p"] show ?thesis by simp
    qed
    then show "p \<noteq> []" "entry_name (last p)" "butlast p \<noteq> [] \<Longrightarrow> \<exists>u w. dget fs' (butlast p) = Some (Dir u w)"
      by blast+
  qed
qed


section \<open>What publishing does to the tree\<close>

lemma root_validated:
  assumes "validated_owned_root ow root run_id staging fs = Inr r" and wf: "tree_wf fs"
  shows "resolve fs r = r" "dget fs r = Some (Dir (ow_uid ow) False)" "valid_run_id run_id"
    "path_exists fs ephemeral_base" "butlast r = resolve fs ephemeral_base"
    "r = resolve fs (path_parts root)" "r \<noteq> []" "last r = root_name run_id staging"
proof -
  let ?p = "path_parts root"
  have p: "?p \<noteq> []" "last ?p = root_name run_id staging" "\<not> is_link fs ?p"
    and st: "stat fs ?p = Some (Dir (ow_uid ow) False)"
    using assms(1) unfolding validated_owned_root_def Let_def
    by (auto split: option.splits node.splits)
  show r: "r = resolve fs ?p" and "butlast r = resolve fs ephemeral_base"
    and "path_exists fs ephemeral_base" "valid_run_id run_id"
    using assms(1) unfolding validated_owned_root_def Let_def by (auto split: option.splits node.splits)
  show d: "dget fs r = Some (Dir (ow_uid ow) False)" using st by (simp add: stat_def r)
  show ne: "r \<noteq> []" using d wf by (auto simp: tree_wf_def)
  have "link_target fs (phys fs ?p) = None"
    using p(3) by (auto simp: is_link_def lstat_def link_target_def split: option.splits node.splits)
  moreover have "resolve fs ?p = canon_from fs (resolve fs (butlast ?p)) [last ?p]"
    unfolding resolve_def by (metis append_butlast_last_id canon_from_append p(1))
  ultimately have "r = phys fs ?p" by (simp add: r phys_def)
  then show "last r = root_name run_id staging" by (simp add: phys_def p(2))
  have "resolve fs r = canon_from fs (resolve fs (butlast r)) [last r]"
    unfolding resolve_def using ne by (metis append_butlast_last_id canon_from_append)
  then show "resolve fs r = r"
    using resolve_parent [OF wf dget_Some_dmem [OF d]] ne d by (simp add: link_target_def)
qed

lemma publish_parts:
  assumes "publish_ephemeral ow root run_id idxs d fs = (Inr ready, fs')"
  obtains r fs1 fs2 layers where
    "0 < d_numa_count d" "0 < d_expert_num d"
    "validated_owned_root ow root run_id True fs = Inr r"
    "drop_lease ow run_id r fs = (Inr (), fs1)"
    "set (iterdir fs1 r) = set (map layer_name (sort (remdups idxs)))"
    "scan_layers fs1 r (d_numa_count d) (d_expert_num d) (sort (remdups idxs)) = Inr layers"
    "atomic_write r manifest_name (ow_pid ow) (ManifestFile (new_manifest ow run_id d layers)) fs1 = (Inr (), fs2)"
    "ready = butlast r @ [root_name run_id False]" "\<not> path_exists fs2 ready" "\<not> is_link fs2 ready"
    "fs' = rename_dir r ready fs2"
  using assms unfolding publish_ephemeral_def Let_def
  by (auto simp: ebind_eq_Inr query_def simp del: set_map set_sort set_remdups split: if_splits)

lemma drop_lease_tree:
  assumes "drop_lease ow run_id r fs = (Inr (), fs1)" "tree_wf fs" "resolve fs r = r"
  shows "tree_wf fs1 \<and> same_links fs fs1 \<and> (\<forall>p. p \<noteq> r @ [staging_lease_name] \<longrightarrow> dget fs1 p = dget fs p)"
proof (cases "fs1 = fs")
  case False
  let ?p = "r @ [staging_lease_name]"
  have nl: "\<not> is_link fs ?p" "is_file fs ?p" and u: "unlink ?p fs = Inr fs1"
    using assms(1) False by (auto simp: drop_lease_def Let_def run_fs_def split: if_splits sum.splits)
  then obtain n c where f: "dget fs ?p = Some (File n c)"
    using canonical_child(3) [OF assms(3)] by (auto simp: is_file_def split: option.splits node.splits)
  have "fs1 = ddel fs ?p"
    using u f canonical_child(1) [OF assms(3)] assms(3) by (simp add: unlink_def phys_def)
  with f assms(2) show ?thesis
    by (simp add: tree_wf_ddel file_no_children same_links_ddel link_target_def)
qed (use assms in simp)

lemma scan_layers_described:
  assumes "scan_layers fs r n E idxs = Inr ls" "tree_wf fs" "resolve fs r = r" "r \<noteq> []" "0 < n" "0 < E"
  shows "map le_index ls = idxs \<and> (\<forall>l \<in> set ls. le_state l = ''ready'' \<and> layer_described fs r l)"
  using assms(1)
proof (induction idxs arbitrary: ls)
  case (Cons i idxs)
  then obtain l ls' where l: "scan_layer fs r i n E = Inr l" "scan_layers fs r n E idxs = Inr ls'" "ls = l # ls'"
    by auto
  with Cons.IH [OF l(2)] scan_layer_described [OF l(1) assms(2-6)] show ?case by simp
qed simp

text \<open>A root that holds nothing but described layers has no links below it.\<close>

lemma described_plain:
  assumes wf: "tree_wf fs" and can: "resolve fs r = r" and r: "r \<noteq> []" and d: "dget fs r = Some (Dir u w)"
    and entries: "set (iterdir fs r) = set (map layer_name (map le_index ls))"
    and ls: "\<forall>l \<in> set ls. layer_described fs r l"
  shows "plain_root fs r"
    "\<And>q n. dget fs (r @ q) = Some n \<Longrightarrow> q \<noteq> [] \<Longrightarrow> \<exists>l \<in> set ls. owned l q n \<and> hd q = layer_name (le_index l)"
proof -
  show below: "\<exists>l \<in> set ls. owned l q n \<and> hd q = layer_name (le_index l)" if g: "dget fs (r @ q) = Some n" and q: "q \<noteq> []" for q n
  proof -
    obtain c q' where q': "q = c # q'" using q by (cases q) auto
    have m: "dmem fs ((r @ [c]) @ q')" using g q' dget_Some_dmem by simp
    have "dmem fs (r @ [c])" using wf_ancestor [OF wf _ m] m by (cases "q' = []") (auto dest: dget_Some_dmem)
    then have "c \<in> set (iterdir fs r)" by (simp add: iterdir_def can children_mem)
    then obtain l where l: "l \<in> set ls" "c = layer_name (le_index l)" unfolding entries by auto
    then have "owned l (layer_name (le_index l) # q') n"
      using bspec [OF ls l(1)] g q' unfolding layer_described_def by simp
    with l q' show ?thesis by auto
  qed
  have "link_target fs (r @ q) = None" for q
  proof (cases "dget fs (r @ q)")
    case (Some n)
    show ?thesis
    proof (cases "q = []")
      case False
      with below [OF Some] have "\<exists>l. owned l q n" by blast
      then have "\<not> (\<exists>t. n = Link t)" by (auto simp: owned_def)
      then show ?thesis using Some by (simp add: link_target_None)
    qed (use d in \<open>simp add: link_target_def\<close>)
  qed (simp add: link_target_def)
  with can r show "plain_root fs r" by (simp add: plain_root_def)
qed

lemma atomic_write_plain:
  assumes "atomic_write r name pid doc fs = (Inr (), fs2)" "tree_wf fs" "plain_root fs r"
    "dget fs r = Some (Dir u w)" "entry_name name" "entry_name (tmp_name name pid)" "tmp_name name pid \<noteq> name"
  shows "tree_wf fs2" "plain_root fs2 r" "same_links fs fs2"
    "dget fs2 p = (if p = r @ [name] then Some (File 1 doc) else dget fs p)"
proof -
  let ?t = "r @ [tmp_name name pid]" and ?m = "r @ [name]"
  obtain fs' where c: "create_file ?t 1 doc fs = Inr fs'" "replace_file ?t ?m fs' = Inr fs2"
    using assms(1) by (auto simp: atomic_write_def ebind_eq_Inr run_fs_def split: sum.splits)
  have fs': "fs' = dset fs ?t (File 1 doc)" and free: "dget fs ?t = None"
    using c(1) assms(3) by (auto simp: create_file_def plain_simps split: if_splits)
  have wf': "tree_wf fs'"
    unfolding fs' by (rule tree_wf_dset_file [OF assms(2)]) (use assms(4,6) free in auto)
  have pl': "plain_root fs' r"
    unfolding fs' using assms(3) by (intro plain_root_same [OF same_links_dset]) (auto simp: plain_root_def)
  have nd: "\<forall>u w. dget fs' ?m \<noteq> Some (Dir u w)" and fs2: "fs2 = dset (ddel fs' ?t) ?m (File 1 doc)"
    using c(2) pl' by (auto simp: replace_file_def plain_simps fs' split: option.splits node.splits)
  have g: "dget fs' ?t = Some (File 1 doc)" by (simp add: fs')
  have wd: "tree_wf (ddel fs' ?t)" using tree_wf_ddel [OF wf' file_no_children [OF wf' g]] .
  show "tree_wf fs2"
    unfolding fs2 by (rule tree_wf_dset_file [OF wd]) (use assms(4,5) nd in \<open>auto simp: fs'\<close>)
  have "plain_root (ddel fs' ?t) r"
    using pl' by (intro plain_root_same [OF same_links_ddel]) (auto simp: plain_root_def)
  then show "plain_root fs2 r"
    unfolding fs2 by (intro plain_root_same [OF same_links_dset]) (auto simp: plain_root_def)
  show get: "dget fs2 p = (if p = r @ [name] then Some (File 1 doc) else dget fs p)" for p
    using free by (auto simp: fs2 fs')
  have "link_target fs ?m = None" using assms(3) by (simp add: plain_root_def)
  then have "link_target fs p = link_target fs2 p" for p
    using get [of p] by (cases "p = ?m") (simp_all add: link_target_def)
  then show "same_links fs fs2" by (simp add: same_links_def fun_eq_iff)
qed


lemma wf_names: "tree_wf fs \<Longrightarrow> dmem fs p \<Longrightarrow> \<forall>c \<in> set p. entry_name c"
proof (induction p rule: rev_induct)
  case (snoc c p)
  obtain n where n: "dget fs (p @ [c]) = Some n" using dmem_dget [OF snoc.prems(2)] by blast
  then have "entry_name c" "p \<noteq> [] \<longrightarrow> dmem fs p"
    using snoc.prems(1) unfolding tree_wf_def by (fastforce dest: dget_Some_dmem)+
  with snoc.IH [OF snoc.prems(1)] show ?case by (cases "p = []") auto
qed simp

lemma root_name_entry: "valid_run_id s \<Longrightarrow> entry_name (root_name s False)"
proof -
  assume v: "valid_run_id s"
  have "\<not> alnum slash" by (simp add: alnum_def slash_def less_eq_char_def)
  then have "slash \<notin> set s"
    using v by (auto simp: valid_run_id_def list_all_iff slash_def split: list.splits)
  then show ?thesis by (simp add: root_name_def entry_name_def slash_def)
qed

lemma root_names_differ: "root_name s True \<noteq> root_name s False"
  by (simp add: root_name_def)

text \<open>The published tree.\<close>

definition published :: "owner \<Rightarrow> string \<Rightarrow> int list \<Rightarrow> dims \<Rightarrow> path \<Rightarrow> layer_entry list \<Rightarrow> etree \<Rightarrow> bool" where
  "published ow run_id idxs d ready layers fs \<longleftrightarrow>
     tree_wf fs \<and> plain_root fs ready \<and> dget fs ready = Some (Dir (ow_uid ow) False) \<and>
     dget fs (ready @ [manifest_name]) = Some (File 1 (ManifestFile (new_manifest ow run_id d layers))) \<and>
     valid_run_id run_id \<and> last ready = root_name run_id False \<and>
     butlast ready = resolve fs ephemeral_base \<and> path_exists fs ephemeral_base \<and>
     map le_index layers = sort (remdups idxs) \<and>
     (\<forall>l \<in> set layers. le_state l = ''ready'' \<and> layer_described fs ready l) \<and>
     (\<forall>q n. dget fs (ready @ q) = Some n \<and> q \<noteq> [] \<longrightarrow>
        bookkeeping ow q n \<and> q = [manifest_name] \<or>
        (\<exists>l \<in> set layers. owned l q n \<and> hd q = layer_name (le_index l)))"

lemma publish_published:
  assumes pub: "publish_ephemeral ow root run_id idxs d fs = (Inr ready, fs')" and wf: "tree_wf fs"
  shows "\<exists>layers. published ow run_id idxs d ready layers fs'"
proof -
  obtain r fs1 fs2 layers where pos: "0 < d_numa_count d" "0 < d_expert_num d"
    and root: "validated_owned_root ow root run_id True fs = Inr r"
    and dl: "drop_lease ow run_id r fs = (Inr (), fs1)"
    and entries: "set (iterdir fs1 r) = set (map layer_name (sort (remdups idxs)))"
    and scan: "scan_layers fs1 r (d_numa_count d) (d_expert_num d) (sort (remdups idxs)) = Inr layers"
    and wr: "atomic_write r manifest_name (ow_pid ow) (ManifestFile (new_manifest ow run_id d layers)) fs1 = (Inr (), fs2)"
    and ready: "ready = butlast r @ [root_name run_id False]"
    and free: "\<not> path_exists fs2 ready" "\<not> is_link fs2 ready"
    and fs': "fs' = rename_dir r ready fs2"
    by (rule publish_parts [OF pub])
  note rv = root_validated [OF root wf]
  let ?a = "root_name run_id True" and ?b = "root_name run_id False"
  obtain dd where r: "r = dd @ [?a]" and dd: "butlast r = dd" using rv(7,8) by (metis append_butlast_last_id)
  have ready: "ready = dd @ [?b]" using ready dd by simp
  from drop_lease_tree [OF dl wf rv(1)] have 1: "tree_wf fs1" "same_links fs fs1" "dget fs1 r = dget fs r"
    by simp_all
  have can1: "resolve fs1 r = r" using resolve_same [OF 1(2)] rv(1) by metis
  have dir1: "dget fs1 r = Some (Dir (ow_uid ow) False)" using 1(3) rv(2) by simp
  from scan_layers_described [OF scan 1(1) can1 rv(7) pos]
  have idx: "map le_index layers = sort (remdups idxs)"
    and ls: "\<forall>l \<in> set layers. le_state l = ''ready''" "\<forall>l \<in> set layers. layer_described fs1 r l" by simp_all
  note pl1 = described_plain [OF 1(1) can1 rv(7) dir1 entries [folded idx] ls(2)]
  note 2 = atomic_write_plain [OF wr 1(1) pl1(1) dir1 entry_name_bookkeeping tmp_name_neq]
  have dir2: "dget fs2 r = Some (Dir (ow_uid ow) False)" using 2(4) [of r] dir1 by simp
  have "resolve fs2 dd = dd" using resolve_parent [OF 2(1) dget_Some_dmem [OF dir2]] by (simp add: dd)
  from canonical_child [OF this, of ?b] free have none: "dget fs2 (dd @ [?b]) = None"
    by (simp add: ready path_exists_def)
  have "plain_root fs2 (dd @ [?a])" "dget fs2 (dd @ [?a]) = Some (Dir (ow_uid ow) False)"
    "fs' = rename_dir (dd @ [?a]) (dd @ [?b]) fs2"
    using 2(2) dir2 fs' by (simp_all add: r ready)
  note 3 = rename_sibling [OF 2(1) this(1,2) none root_name_entry [OF rv(3)] this(3)]
  have moved: "dget fs' (ready @ q) = dget fs2 (r @ q)" for q using 3(1) [of q] by (simp add: r ready)
  have links: "same_links fs fs'" using same_links_trans [OF same_links_trans [OF 1(2) 2(3)] 3(4)] .
  have base: "resolve fs' ephemeral_base = dd" using resolve_same [OF links] rv(5) dd by metis
  have dir: "dget fs' ready = Some (Dir (ow_uid ow) False)" using moved [of "[]"] dir2 by simp
  have "dd \<noteq> []" using rv(4,5) wf dd by (auto simp: path_exists_def stat_def tree_wf_def)
  then have "path_exists fs' ephemeral_base"
    using 3(2) dir unfolding tree_wf_def path_exists_def stat_def base ready by fastforce
  moreover have "dget fs' (ready @ [manifest_name]) = Some (File 1 (ManifestFile (new_manifest ow run_id d layers)))"
    using moved [of "[manifest_name]"] 2(4) by simp
  moreover have "layer_described fs' ready l" if "l \<in> set layers" for l
    by (rule layer_described_move [OF bspec [OF ls(2) that]])
      (use moved [of "layer_name (le_index l) # _"] 2(4) in simp)
  moreover have "bookkeeping ow q n \<and> q = [manifest_name] \<or>
      (\<exists>l \<in> set layers. owned l q n \<and> hd q = layer_name (le_index l))" if "dget fs' (ready @ q) = Some n" "q \<noteq> []" for q n
    using that moved [of q] 2(4) [of "r @ q"] pl1(2) [of q n] by (auto simp: bookkeeping_def split: if_splits)
  ultimately have "published ow run_id idxs d ready layers fs'"
    using 3(2,3) dir rv(3) base idx ls(1) unfolding published_def by (auto simp: ready)
  then show ?thesis by blast
qed


section \<open>Opening a published store\<close>

lemma path_parts_root: "path_parts (slash # s) = path_parts s"
  by (simp add: path_parts_def)

lemma validate_layers_described:
  "tree_wf fs \<Longrightarrow> plain_root fs r \<Longrightarrow> \<forall>l \<in> set ls. le_state l = ''ready'' \<and> layer_described fs r l \<Longrightarrow>
     validate_layers fs r ls = Inr ()"
  by (induction ls) (simp_all add: validate_described)

lemma open_published:
  assumes "published ow run_id idxs d ready layers fs" and uid: "ow_uid ow' = ow_uid ow"
  shows "open_store ow' (slash # join_path ready) idxs d fs =
    Inr \<lparr>st_root = ready, st_manifest = new_manifest ow run_id d layers, st_closed = False, st_handlers = True\<rparr>"
proof -
  let ?p = "slash # join_path ready" and ?m = "new_manifest ow run_id d layers"
  have p: "tree_wf fs" "plain_root fs ready" "dget fs ready = Some (Dir (ow_uid ow) False)"
    "dget fs (ready @ [manifest_name]) = Some (File 1 (ManifestFile ?m))"
    "valid_run_id run_id" "last ready = root_name run_id False"
    "butlast ready = resolve fs ephemeral_base" "path_exists fs ephemeral_base"
    "map le_index layers = sort (remdups idxs)"
    and ls: "\<forall>l \<in> set layers. le_state l = ''ready'' \<and> layer_described fs ready l"
    and below: "\<And>q n. dget fs (ready @ q) = Some n \<Longrightarrow> q \<noteq> [] \<Longrightarrow> q = [manifest_name] \<or>
        (\<exists>l \<in> set layers. hd q = layer_name (le_index l))"
    using assms unfolding published_def by blast+
  have parts: "path_parts ?p = ready"
    by (simp add: path_parts_root path_parts_join wf_names [OF p(1) dget_Some_dmem [OF p(3)]])
  have ne: "ready \<noteq> []" and can: "resolve fs ready = ready" using p(2) by (simp_all add: plain_root_def)
  have "\<not> is_link fs ready"
    using phys_self [OF p(1) dget_Some_dmem [OF p(3)]] p(3) by (simp add: is_link_def lstat_def)
  then have root: "validated_owned_root ow' ?p run_id False fs = Inr ready"
    using p(3,5-8) ne uid by (simp add: validated_owned_root_def Let_def parts is_absolute_def stat_def can)
  have mf: "\<not> is_link fs (ready @ [manifest_name])" "is_file fs (ready @ [manifest_name])"
    "read_doc fs (ready @ [manifest_name]) = Some (ManifestFile ?m)"
    using p(2,4) by (simp_all add: is_link_plain is_file_plain read_doc_def stat_plain)
  have "set (iterdir fs ready) = set (manifest_name # map layer_name (sort (remdups idxs)))"
  proof (intro set_eqI iffI)
    fix c assume "c \<in> set (iterdir fs ready)"
    then obtain n where "dget fs (ready @ [c]) = Some n"
      by (auto simp: iterdir_def can children_mem dest: dmem_dget)
    with below [of "[c]"] show "c \<in> set (manifest_name # map layer_name (sort (remdups idxs)))"
      unfolding p(9) [symmetric] by auto
  next
    fix c assume "c \<in> set (manifest_name # map layer_name (sort (remdups idxs)))"
    then consider "c = manifest_name" | l where "l \<in> set layers" "c = layer_name (le_index l)"
      unfolding p(9) [symmetric] by auto
    then have "\<exists>n. dget fs (ready @ [c]) = Some n"
      using p(4) ls unfolding layer_described_def by cases blast+
    then show "c \<in> set (iterdir fs ready)"
      by (auto simp: iterdir_def can children_mem intro: dget_Some_dmem)
  qed
  moreover have "sort (sort (remdups idxs)) = sort (remdups idxs)" by (simp add: sorted_sort_id)
  ultimately show ?thesis
    using mf root p(9) validate_layers_described [OF p(1,2) ls]
    by (simp add: open_store_def Let_def parts metadata_ok_def new_manifest_def uid)
qed

lemma published_store_inv:
  assumes "published ow run_id idxs d ready layers fs"
  shows "store_inv ow' fs \<lparr>w_fs = fs, w_store = \<lparr>st_root = ready, st_manifest = new_manifest ow run_id d layers,
    st_closed = False, st_handlers = True\<rparr>\<rparr>"
proof -
  have ls: "\<forall>l \<in> set layers. le_state l = ''ready'' \<and> layer_described fs ready l"
    and idx: "map le_index layers = sort (remdups idxs)"
    and dir: "dget fs ready = Some (Dir (ow_uid ow) False)"
    and wf: "tree_wf fs" "plain_root fs ready"
    using assms unfolding published_def by blast+
  have "bookkeeping ow' q n \<or> (\<exists>l \<in> set layers. le_state l \<noteq> ''consumed'' \<and> owned l q n)"
    if "q \<noteq> []" "dget fs (ready @ q) = Some n" for q n
  proof -
    have "bookkeeping ow q n \<and> q = [manifest_name] \<or> (\<exists>l \<in> set layers. owned l q n)"
      using assms that unfolding published_def by blast
    then have "bookkeeping ow' q n \<or> (\<exists>l \<in> set layers. owned l q n)"
      by (cases n) (auto simp: bookkeeping_def)
    moreover have "\<forall>l \<in> set layers. le_state l \<noteq> ''consumed''" using ls by auto
    ultimately show ?thesis by blast
  qed
  then have "contained ow' ready layers fs"
    using wf dir unfolding contained_def by blast
  moreover have "\<forall>l \<in> set layers. layer_ok l" using ls layer_described_ok by blast
  moreover have "distinct (map le_index layers)" by (simp add: idx)
  ultimately show ?thesis by (simp add: store_inv_def new_manifest_def outside_kept_def)
qed

end
