(* ===== verification/EphemeralLifecycle.thy ===== *)
theory EphemeralLifecycle
  imports EphemeralOpen
begin

text \<open>
  Consuming layers to their end. \<open>live\<close> is the state between two completed calls of
  \<open>consume_layer\<close>: every ready layer is on disk as listed, every consumed one is gone. From such a
  state \<open>consume_layer\<close> cannot fail, and once all layers are consumed \<open>finish\<close> removes the root.
\<close>

section \<open>Deleting the files and directories of a layer\<close>

lemma run_deletes:
  assumes "tree_wf (w_fs w)" "plain_root (w_fs w) r" "distinct qs"
    "\<forall>q \<in> set qs. q \<noteq> [] \<and> (\<exists>n c. dget (w_fs w) (r @ q) = Some (File n c))"
  shows "\<exists>fs'. run_prims ow (map (\<lambda>q. DeleteChecked (r @ q)) qs) w = (Inr (), w\<lparr>w_fs := fs'\<rparr>) \<and>
    shrinks r (w_fs w) fs' \<and> (\<forall>p. dget fs' p = (if p \<in> (@) r ` set qs then None else dget (w_fs w) p))"
  using assms
proof (induction qs arbitrary: w)
  case Nil
  then show ?case by (auto simp: shrinks_refl intro!: exI [of _ "w_fs w"])
next
  case (Cons q qs)
  let ?w = "w\<lparr>w_fs := ddel (w_fs w) (r @ q)\<rparr>"
  obtain n c where f: "dget (w_fs w) (r @ q) = Some (File n c)" and q: "q \<noteq> []" using Cons.prems(4) by auto
  have step: "run_prim ow (DeleteChecked (r @ q)) w = (Inr (), ?w)"
    using Cons.prems(2) f q by (simp add: run_prim_def is_link_plain is_file_plain on_fs_def unlink_def plain_simps)
  have s: "shrinks r (w_fs w) (ddel (w_fs w) (r @ q))"
    using shrinks_ddel [OF Cons.prems(1,2) q file_no_children [OF Cons.prems(1) f]] .
  have "tree_wf (w_fs ?w)" "plain_root (w_fs ?w) r" using s by (simp_all add: shrinks_def)
  moreover have "\<forall>p \<in> set qs. p \<noteq> [] \<and> (\<exists>n c. dget (w_fs ?w) (r @ p) = Some (File n c))" "distinct qs"
    using Cons.prems(3,4) by auto
  ultimately obtain fs' where fs': "run_prims ow (map (\<lambda>q. DeleteChecked (r @ q)) qs) ?w = (Inr (), ?w\<lparr>w_fs := fs'\<rparr>)"
    "shrinks r (ddel (w_fs w) (r @ q)) fs'"
    "\<forall>p. dget fs' p = (if p \<in> (@) r ` set qs then None else dget (ddel (w_fs w) (r @ q)) p)"
    using Cons.IH [of ?w] by fastforce
  have "run_prims ow (map (\<lambda>q. DeleteChecked (r @ q)) (q # qs)) w = (Inr (), w\<lparr>w_fs := fs'\<rparr>)"
    using step fs'(1) by simp
  moreover have "\<forall>p. dget fs' p = (if p \<in> (@) r ` set (q # qs) then None else dget (w_fs w) p)"
    using fs'(3) by auto
  ultimately show ?case using shrinks_trans [OF s fs'(2)] by blast
qed

lemma run_rmdirs:
  assumes "tree_wf (w_fs w)" "plain_root (w_fs w) r" "distinct qs"
    "\<forall>q \<in> set qs. q \<noteq> [] \<and> (\<exists>u v. dget (w_fs w) (r @ q) = Some (Dir u v)) \<and> children (w_fs w) (r @ q) = []"
  shows "\<exists>fs'. run_prims ow (map (\<lambda>q. RemoveDir (r @ q)) qs) w = (Inr (), w\<lparr>w_fs := fs'\<rparr>) \<and>
    shrinks r (w_fs w) fs' \<and> (\<forall>p. dget fs' p = (if p \<in> (@) r ` set qs then None else dget (w_fs w) p))"
  using assms
proof (induction qs arbitrary: w)
  case Nil
  then show ?case by (auto simp: shrinks_refl intro!: exI [of _ "w_fs w"])
next
  case (Cons q qs)
  let ?fs = "ddel (w_fs w) (r @ q)"
  let ?w = "w\<lparr>w_fs := ?fs\<rparr>"
  obtain u v where f: "dget (w_fs w) (r @ q) = Some (Dir u v)" and q: "q \<noteq> []"
    and e: "children (w_fs w) (r @ q) = []" using Cons.prems(4) by auto
  have step: "run_prim ow (RemoveDir (r @ q)) w = (Inr (), ?w)"
    using Cons.prems(2) f q e by (simp add: run_prim_def on_fs_def rmdir_def plain_simps)
  have s: "shrinks r (w_fs w) ?fs" using shrinks_ddel [OF Cons.prems(1,2) q e] .
  have "children ?fs d = []" if "children (w_fs w) d = []" for d
    using that by (simp add: children_empty)
  then have "\<forall>p \<in> set qs. p \<noteq> [] \<and> (\<exists>u v. dget (w_fs ?w) (r @ p) = Some (Dir u v)) \<and> children (w_fs ?w) (r @ p) = []"
    "distinct qs" using Cons.prems(3,4) by auto
  moreover have "tree_wf (w_fs ?w)" "plain_root (w_fs ?w) r" using s by (simp_all add: shrinks_def)
  ultimately obtain fs' where fs': "run_prims ow (map (\<lambda>q. RemoveDir (r @ q)) qs) ?w = (Inr (), ?w\<lparr>w_fs := fs'\<rparr>)"
    "shrinks r ?fs fs'" "\<forall>p. dget fs' p = (if p \<in> (@) r ` set qs then None else dget ?fs p)"
    using Cons.IH [of ?w] by fastforce
  have "run_prims ow (map (\<lambda>q. RemoveDir (r @ q)) (q # qs)) w = (Inr (), w\<lparr>w_fs := fs'\<rparr>)"
    using step fs'(1) by simp
  moreover have "\<forall>p. dget fs' p = (if p \<in> (@) r ` set (q # qs) then None else dget (w_fs w) p)"
    using fs'(3) by auto
  ultimately show ?case using shrinks_trans [OF s fs'(2)] by blast
qed

text \<open>Rewriting the manifest.\<close>

definition save_manifest :: "owner \<Rightarrow> int \<Rightarrow> string \<Rightarrow> prim list" where
  "save_manifest ow i s = [SetLayerState i s, WriteTmp, PublishTmp]"

lemma run_save_manifest:
  assumes wf: "tree_wf (w_fs w)" "plain_root (w_fs w) r" and r: "st_root (w_store w) = r"
    and dir: "dget (w_fs w) r = Some (Dir u v)" and mf: "dget (w_fs w) (r @ [manifest_name]) = Some (File n c)"
    and tmp: "dget (w_fs w) (r @ [tmp_name manifest_name (ow_pid ow)]) = None"
  shows "\<exists>fs'. run_prims ow (save_manifest ow i s) w =
      (Inr (), w\<lparr>w_fs := fs', w_store := set_layer_state i s (w_store w)\<rparr>) \<and> tree_wf fs' \<and> plain_root fs' r \<and>
    (\<forall>p. dget fs' p = (if p = r @ [manifest_name]
       then Some (File 1 (ManifestFile (st_manifest (set_layer_state i s (w_store w))))) else dget (w_fs w) p))"
proof -
  let ?st = "set_layer_state i s (w_store w)"
  let ?doc = "ManifestFile (st_manifest ?st)" and ?t = "r @ [tmp_name manifest_name (ow_pid ow)]" and ?m = "r @ [manifest_name]"
  let ?f1 = "dset (w_fs w) ?t (File 1 ?doc)"
  let ?f2 = "dset (ddel ?f1 ?t) ?m (File 1 ?doc)"
  have c: "create_file ?t 1 ?doc (w_fs w) = Inr ?f1"
    using wf(2) dir tmp is_dir_plain [OF wf(2), of "[]"] by (simp add: create_file_def plain_simps)
  have pl: "plain_root ?f1 r"
    using wf(2) by (intro plain_root_same [OF same_links_dset]) (auto simp: plain_root_def)
  have p: "replace_file ?t ?m ?f1 = Inr ?f2"
    using pl mf by (simp add: replace_file_def plain_simps)
  have aw: "atomic_write r manifest_name (ow_pid ow) ?doc (w_fs w) = (Inr (), ?f2)"
    using c p by (simp add: atomic_write_def run_fs_def ebind_def)
  note 1 = atomic_write_plain [OF aw wf dir entry_name_bookkeeping tmp_name_neq]
  have "run_prims ow (save_manifest ow i s) w = (Inr (), w\<lparr>w_fs := ?f2, w_store := ?st\<rparr>)"
    using c p r by (simp add: save_manifest_def run_prim_def on_fs_def Let_def)
  then show ?thesis using 1(1,2,4) by blast
qed


definition remove_layer :: "path \<Rightarrow> layer_entry \<Rightarrow> prim list" where
  "remove_layer r l =
     map (\<lambda>q. DeleteChecked (r @ q)) (map (path_parts \<circ> fe_path) (le_files l)) @
     map (\<lambda>q. RemoveDir (r @ q)) (map (\<lambda>k. [layer_name (le_index l), numa_name k]) (rev [0..le_numa_count l - 1])) @
     map (\<lambda>q. RemoveDir (r @ q)) [[layer_name (le_index l)]]"

lemma consume_script_parts:
  "consume_script r l = save_manifest ow (le_index l) ''consuming'' @ remove_layer r l @ save_manifest ow (le_index l) ''consumed''"
  by (simp add: consume_script_def remove_layer_def save_manifest_def Let_def comp_def)

lemma described_paths:
  assumes "layer_described fs r l"
  shows "distinct (map (path_parts \<circ> fe_path) (le_files l))"
    "\<forall>q \<in> set (map (path_parts \<circ> fe_path) (le_files l)). q \<noteq> [] \<and> hd q = layer_name (le_index l) \<and>
       (\<exists>n c. dget fs (r @ q) = Some (File n c))"
proof -
  have e: "\<exists>k c. path_parts (fe_path e) = [layer_name (le_index l), numa_name k, c] \<and>
      fe_path e = join_path [layer_name (le_index l), numa_name k, c] \<and>
      (\<exists>d. dget fs (r @ [layer_name (le_index l), numa_name k, c]) = Some (File (fe_size e) d))"
    if "e \<in> set (le_files l)" for e
    by (rule layer_described_entry [OF assms that]) (metis parts3)
  then have "join_path (path_parts (fe_path e)) = fe_path e" if "e \<in> set (le_files l)" for e
    using that by metis
  then have "inj_on path_parts (set (map fe_path (le_files l)))"
    by (auto simp del: join_path.simps intro!: inj_on_inverseI [of _ join_path])
  moreover have "distinct (map fe_path (le_files l))" using assms unfolding layer_described_def by blast
  ultimately show "distinct (map (path_parts \<circ> fe_path) (le_files l))"
    by (metis distinct_map map_map)
  show "\<forall>q \<in> set (map (path_parts \<circ> fe_path) (le_files l)). q \<noteq> [] \<and> hd q = layer_name (le_index l) \<and>
       (\<exists>n c. dget fs (r @ q) = Some (File n c))"
  proof
    fix q assume "q \<in> set (map (path_parts \<circ> fe_path) (le_files l))"
    then obtain x where "x \<in> set (le_files l)" "q = path_parts (fe_path x)" by auto
    with e show "q \<noteq> [] \<and> hd q = layer_name (le_index l) \<and> (\<exists>n c. dget fs (r @ q) = Some (File n c))"
      by fastforce
  qed
qed

lemma run_remove_layer:
  assumes wf: "tree_wf (w_fs w)" "plain_root (w_fs w) r" and d: "layer_described (w_fs w) r l"
  shows "\<exists>fs'. run_prims ow (remove_layer r l) w = (Inr (), w\<lparr>w_fs := fs'\<rparr>) \<and> shrinks r (w_fs w) fs' \<and>
    (\<forall>p. dget fs' p = (if prefix (r @ [layer_name (le_index l)]) p then None else dget (w_fs w) p))"
proof -
  let ?L = "layer_name (le_index l)" and ?qs = "map (path_parts \<circ> fe_path) (le_files l)"
  let ?ds = "map (\<lambda>k. [layer_name (le_index l), numa_name k]) (rev [0..le_numa_count l - 1])"
  note paths = described_paths [OF d]
  have own: "owned l (?L # q) n" if "dget (w_fs w) (r @ ?L # q) = Some n" for q n
    using d that unfolding layer_described_def by blast
  have qs: "set ?qs = file_paths l" and ds: "set ?ds = numa_dirs l"
    by (auto simp: file_paths_def numa_dirs_def)
  obtain fs1 where 1: "run_prims ow (map (\<lambda>q. DeleteChecked (r @ q)) ?qs) w = (Inr (), w\<lparr>w_fs := fs1\<rparr>)"
    "shrinks r (w_fs w) fs1" "\<forall>p. dget fs1 p = (if p \<in> (@) r ` file_paths l then None else dget (w_fs w) p)"
    using run_deletes [OF wf paths(1), of ow] paths(2) unfolding qs by blast
  have own1: "q = [] \<or> ?L # q \<in> numa_dirs l" if g: "dget fs1 (r @ ?L # q) = Some n" for q n
  proof -
    have "?L # q \<notin> file_paths l" "dget (w_fs w) (r @ ?L # q) = Some n"
      using g 1(3) by (auto split: if_splits)
    with own [of q n] show ?thesis by (cases n) (simp_all add: owned_def)
  qed
  have dirs: "\<exists>u v. dget fs1 (r @ [?L]) = Some (Dir u v)" "\<forall>q \<in> numa_dirs l. \<exists>u v. dget fs1 (r @ q) = Some (Dir u v)"
  proof -
    have keep: "dget fs1 (r @ q) = Some (Dir u v)" if "dget (w_fs w) (r @ q) = Some (Dir u v)" for q u v
      using 1(3) paths(2) that unfolding qs by force
    show "\<exists>u v. dget fs1 (r @ [?L]) = Some (Dir u v)"
      using d keep unfolding layer_described_def by blast
    show "\<forall>q \<in> numa_dirs l. \<exists>u v. dget fs1 (r @ q) = Some (Dir u v)"
      using d keep unfolding layer_described_def numa_dirs_def by blast
  qed
  have empty: "children fs1 (r @ [?L, numa_name k]) = []" for k
  proof -
    have "dget fs1 (r @ [?L, numa_name k, x]) = None" for x
      using own1 [of "[numa_name k, x]"] by (cases "dget fs1 (r @ [?L, numa_name k, x])") (auto simp: numa_dirs_def)
    then show ?thesis by (simp add: children_empty dget_None_iff)
  qed
  let ?w1 = "w\<lparr>w_fs := fs1\<rparr>"
  have wf1: "tree_wf (w_fs ?w1)" "plain_root (w_fs ?w1) r" using 1(2) by (simp_all add: shrinks_def)
  have "distinct ?ds" by (auto simp: distinct_map inj_on_def)
  moreover have "\<forall>q \<in> set ?ds. q \<noteq> [] \<and> (\<exists>u v. dget (w_fs ?w1) (r @ q) = Some (Dir u v)) \<and> children (w_fs ?w1) (r @ q) = []"
    using dirs(2) empty unfolding ds by (auto simp: numa_dirs_def)
  ultimately obtain fs2 where 2: "run_prims ow (map (\<lambda>q. RemoveDir (r @ q)) ?ds) ?w1 = (Inr (), ?w1\<lparr>w_fs := fs2\<rparr>)"
    "shrinks r fs1 fs2" "\<forall>p. dget fs2 p = (if p \<in> (@) r ` numa_dirs l then None else dget fs1 p)"
    using run_rmdirs [OF wf1, of ?ds ow] unfolding ds by auto
  have own2: "q = []" if g: "dget fs2 (r @ ?L # q) = Some n" for q n
    using g 2(3) own1 [of q n] by (auto split: if_splits)
  let ?w2 = "?w1\<lparr>w_fs := fs2\<rparr>"
  have wf2: "tree_wf (w_fs ?w2)" "plain_root (w_fs ?w2) r" using 2(2) by (simp_all add: shrinks_def)
  have "children fs2 (r @ [?L]) = []"
  proof -
    have "dget fs2 (r @ [?L, x]) = None" for x using own2 [of "[x]"] by (cases "dget fs2 (r @ [?L, x])") auto
    then show ?thesis by (simp add: children_empty dget_None_iff)
  qed
  moreover have "\<exists>u v. dget fs2 (r @ [?L]) = Some (Dir u v)" using dirs(1) 2(3) by (auto simp: numa_dirs_def)
  ultimately have "\<forall>q \<in> set [[?L]]. q \<noteq> [] \<and> (\<exists>u v. dget (w_fs ?w2) (r @ q) = Some (Dir u v)) \<and> children (w_fs ?w2) (r @ q) = []"
    by simp
  then obtain fs3 where 3: "run_prims ow (map (\<lambda>q. RemoveDir (r @ q)) [[?L]]) ?w2 = (Inr (), ?w2\<lparr>w_fs := fs3\<rparr>)"
    "shrinks r fs2 fs3" "\<forall>p. dget fs3 p = (if p = r @ [?L] then None else dget fs2 p)"
    using run_rmdirs [OF wf2, of "[[?L]]" ow] by auto
  have "run_prims ow (remove_layer r l) w = (Inr (), w\<lparr>w_fs := fs3\<rparr>)"
    unfolding remove_layer_def run_prims_app_Inr [OF 1(1)] run_prims_app_Inr [OF 2(1)] 3(1) by simp
  moreover have "shrinks r (w_fs w) fs3" using 1(2) 2(2) 3(2) shrinks_trans by blast
  moreover have "dget fs3 p = (if prefix (r @ [?L]) p then None else dget (w_fs w) p)" for p
  proof (cases "prefix (r @ [?L]) p")
    case True
    then obtain q where p: "p = r @ ?L # q" by (auto simp: prefix_def)
    show ?thesis using 3(3) own2 [of q] True unfolding p by (cases "dget fs2 (r @ ?L # q)") auto
  next
    case False
    then have "p \<notin> (@) r ` file_paths l" "p \<notin> (@) r ` numa_dirs l" "p \<noteq> r @ [?L]"
      using paths(2) unfolding qs by (force simp: numa_dirs_def prefix_def neq_Nil_conv)+
    with 1(3) 2(3) 3(3) False show ?thesis by simp
  qed
  ultimately show ?thesis by blast
qed


section \<open>Between two calls\<close>

definition live :: "path \<Rightarrow> world \<Rightarrow> bool" where
  "live r w \<longleftrightarrow>
     (let st = w_store w; fs = w_fs w; ls = mf_layers (st_manifest st) in
      st_root st = r \<and> \<not> st_closed st \<and> tree_wf fs \<and> plain_root fs r \<and> (\<exists>u v. dget fs r = Some (Dir u v)) \<and>
      (\<exists>n c. dget fs (r @ [manifest_name]) = Some (File n c)) \<and> distinct (map le_index ls) \<and>
      (\<forall>l \<in> set ls. le_state l = ''consumed'' \<or> le_state l = ''ready'' \<and> layer_described fs r l) \<and>
      (\<forall>q n. q \<noteq> [] \<longrightarrow> dget fs (r @ q) = Some n \<longrightarrow>
         q = [manifest_name] \<or> (\<exists>l \<in> set ls. le_state l = ''ready'' \<and> hd q = layer_name (le_index l))))"

definition mark_consumed :: "int \<Rightarrow> layer_entry list \<Rightarrow> layer_entry list" where
  "mark_consumed i ls = map (\<lambda>l. if le_index l = i then l\<lparr>le_state := ''consumed''\<rparr> else l) ls"

lemma find_unique: "distinct (map f xs) \<Longrightarrow> x \<in> set xs \<Longrightarrow> List.find (\<lambda>y. f y = f x) xs = Some x"
  by (induction xs) force+

lemma find_layer_unique:
  "distinct (map le_index (mf_layers (st_manifest st))) \<Longrightarrow> l \<in> set (mf_layers (st_manifest st)) \<Longrightarrow>
     find_layer st (le_index l) = Some l"
  unfolding find_layer_def by (rule find_unique)

lemma consume_live:
  assumes lv: "live r w" and l: "l \<in> set (mf_layers (st_manifest (w_store w)))" "le_state l = ''ready''"
  shows "\<exists>w'. consume_layer ow (le_index l) None w = (Inr (), w') \<and> live r w' \<and>
    mf_layers (st_manifest (w_store w')) = mark_consumed (le_index l) (mf_layers (st_manifest (w_store w)))"
proof -
  let ?i = "le_index l" and ?ls = "mf_layers (st_manifest (w_store w))" and ?t = "tmp_name manifest_name (ow_pid ow)"
  obtain u v n c where r: "st_root (w_store w) = r" and open_: "\<not> st_closed (w_store w)"
    and wf: "tree_wf (w_fs w)" "plain_root (w_fs w) r" and dir: "dget (w_fs w) r = Some (Dir u v)"
    and mf: "dget (w_fs w) (r @ [manifest_name]) = Some (File n c)" and dist: "distinct (map le_index ?ls)"
    and ls: "\<forall>l \<in> set ?ls. le_state l = ''consumed'' \<or> le_state l = ''ready'' \<and> layer_described (w_fs w) r l"
    and below: "\<forall>q n. q \<noteq> [] \<longrightarrow> dget (w_fs w) (r @ q) = Some n \<longrightarrow> q = [manifest_name] \<or>
        (\<exists>l \<in> set ?ls. le_state l = ''ready'' \<and> hd q = layer_name (le_index l))"
    using lv unfolding live_def Let_def by blast
  have d: "layer_described (w_fs w) r l" using ls l by fastforce
  have tmp: "dget (w_fs w) (r @ [?t]) = None"
    using below [rule_format, of "[?t]"] by (cases "dget (w_fs w) (r @ [?t])") auto
  obtain fs1 where 1: "run_prims ow (save_manifest ow ?i ''consuming'') w =
      (Inr (), w\<lparr>w_fs := fs1, w_store := set_layer_state ?i ''consuming'' (w_store w)\<rparr>)"
    and wf1: "tree_wf fs1" "plain_root fs1 r"
    and get1: "\<And>p. p \<noteq> r @ [manifest_name] \<Longrightarrow> dget fs1 p = dget (w_fs w) p"
      "\<exists>n c. dget fs1 (r @ [manifest_name]) = Some (File n c)"
    using run_save_manifest [OF wf r dir mf tmp, of ?i "''consuming''"] by fastforce
  let ?w1 = "w\<lparr>w_fs := fs1, w_store := set_layer_state ?i ''consuming'' (w_store w)\<rparr>"
  have "layer_described (w_fs ?w1) r l" by (rule layer_described_move [OF d]) (simp add: get1)
  then obtain fs2 where 2: "run_prims ow (remove_layer r l) ?w1 = (Inr (), ?w1\<lparr>w_fs := fs2\<rparr>)"
    "shrinks r fs1 fs2" "\<And>p. dget fs2 p = (if prefix (r @ [layer_name ?i]) p then None else dget fs1 p)"
    using run_remove_layer [of ?w1 r l ow] wf1 by auto
  let ?w2 = "?w1\<lparr>w_fs := fs2\<rparr>"
  have w2: "tree_wf (w_fs ?w2)" "plain_root (w_fs ?w2) r" "st_root (w_store ?w2) = r"
    "dget (w_fs ?w2) r = Some (Dir u v)" "dget (w_fs ?w2) (r @ [?t]) = None"
    using 2(2,3) r dir tmp get1 by (auto simp: shrinks_def prefix_def)
  obtain n' c' where mf2: "dget (w_fs ?w2) (r @ [manifest_name]) = Some (File n' c')"
    using get1(2) 2(3) by (auto simp: prefix_def)
  obtain fs3 where 3: "run_prims ow (save_manifest ow ?i ''consumed'') ?w2 =
      (Inr (), ?w2\<lparr>w_fs := fs3, w_store := set_layer_state ?i ''consumed'' (w_store ?w2)\<rparr>)"
    and wf3: "tree_wf fs3" "plain_root fs3 r"
    and get3: "\<And>p. p \<noteq> r @ [manifest_name] \<Longrightarrow> dget fs3 p = dget fs2 p"
      "\<exists>n c. dget fs3 (r @ [manifest_name]) = Some (File n c)"
    using run_save_manifest [OF w2(1-4) mf2 w2(5), of ?i "''consumed''"] by fastforce
  let ?w3 = "?w2\<lparr>w_fs := fs3, w_store := set_layer_state ?i ''consumed'' (w_store ?w2)\<rparr>"
  have "run_prims ow (consume_script r l) w = (Inr (), ?w3)"
    unfolding consume_script_parts [of r l ow] run_prims_app_Inr [OF 1] run_prims_app_Inr [OF 2(1)] by (rule 3)
  then have run: "consume_layer ow ?i None w = (Inr (), ?w3)"
    using open_ find_layer_unique [OF dist l(1)] l(2) validate_described [OF wf d]
    by (simp add: consume_layer_def Let_def r)
  have layers: "mf_layers (st_manifest (w_store ?w3)) = mark_consumed ?i ?ls"
    by (auto simp: mark_consumed_def)
  have get: "dget fs3 p = (if prefix (r @ [layer_name ?i]) p then None else dget (w_fs w) p)"
    if "p \<noteq> r @ [manifest_name]" for p using get3(1) 2(3) get1(1) that by simp
  have "le_state k = ''consumed'' \<or> le_state k = ''ready'' \<and> layer_described fs3 r k"
    if k: "k \<in> set (mark_consumed ?i ?ls)" for k
  proof -
    from k obtain k0 where k0: "k0 \<in> set ?ls" "k = (if le_index k0 = ?i then k0\<lparr>le_state := ''consumed''\<rparr> else k0)"
      by (auto simp: mark_consumed_def)
    show ?thesis
    proof (cases "le_index k0 = ?i \<or> le_state k0 = ''consumed''")
      case False
      then have "layer_described (w_fs w) r k0" using ls k0(1) by blast
      then have "layer_described fs3 r k0"
        by (rule layer_described_move) (use False in \<open>simp add: get\<close>)
      with False k0 ls show ?thesis by auto
    qed (use k0 in auto)
  qed
  moreover have "q = [manifest_name] \<or> (\<exists>k \<in> set (mark_consumed ?i ?ls). le_state k = ''ready'' \<and> hd q = layer_name (le_index k))"
    if q: "q \<noteq> []" "dget fs3 (r @ q) = Some m" for q m
  proof (cases "q = [manifest_name]")
    case False
    with q(2) get [of "r @ q"] have np: "\<not> prefix [layer_name ?i] q" and g: "dget (w_fs w) (r @ q) = Some m"
      by (auto split: if_splits)
    from below [rule_format, OF q(1) g] False obtain k where k: "k \<in> set ?ls" "le_state k = ''ready''"
      "hd q = layer_name (le_index k)" by auto
    moreover have "le_index k \<noteq> ?i" using np k(3) q(1) by (cases q) auto
    then have "k \<in> set (mark_consumed ?i ?ls)" using k(1) by (force simp: mark_consumed_def)
    ultimately show ?thesis by blast
  qed simp
  moreover have "distinct (map le_index (mark_consumed ?i ?ls))"
    using dist by (simp add: mark_consumed_def comp_def if_distrib [of le_index] cong: if_cong)
  moreover have "dget fs3 r = Some (Dir u v)" using get [of r] dir by (simp add: prefix_def)
  ultimately have "live r ?w3"
    using wf3 get3(2) open_ r unfolding live_def Let_def layers by simp
  with run layers show ?thesis by blast
qed


text \<open>All layers, in any order.\<close>

lemma mark_consumed_mem: "l \<in> set (mark_consumed i ls) \<Longrightarrow>
    \<exists>l0 \<in> set ls. l = (if le_index l0 = i then l0\<lparr>le_state := ''consumed''\<rparr> else l0)"
  by (auto simp: mark_consumed_def)

lemma fold_mark_consumed:
  "l \<in> set (fold mark_consumed order ls) \<Longrightarrow>
     (le_index l \<in> set order \<longrightarrow> le_state l = ''consumed'') \<and> le_index l \<in> le_index ` set ls"
proof (induction order arbitrary: l rule: rev_induct)
  case (snoc i order)
  then have "l \<in> set (mark_consumed i (fold mark_consumed order ls))" by simp
  from mark_consumed_mem [OF this] obtain l0 where l0: "l0 \<in> set (fold mark_consumed order ls)"
    "l = (if le_index l0 = i then l0\<lparr>le_state := ''consumed''\<rparr> else l0)" by blast
  with snoc.IH [OF l0(1)] show ?case by auto
qed simp

lemma consume_order:
  assumes "live r w" "distinct order"
    "\<forall>i \<in> set order. \<exists>l \<in> set (mf_layers (st_manifest (w_store w))). le_index l = i \<and> le_state l = ''ready''"
  shows "\<exists>w'. run_outputs (\<lambda>w i. consume_layer ow i None w) w order = (map (\<lambda>_. Inr ()) order, w') \<and> live r w' \<and>
    mf_layers (st_manifest (w_store w')) = fold mark_consumed order (mf_layers (st_manifest (w_store w)))"
  using assms
proof (induction order arbitrary: w)
  case (Cons i order)
  let ?ls = "mf_layers (st_manifest (w_store w))"
  obtain l where l: "l \<in> set ?ls" "le_state l = ''ready''" "le_index l = i" using Cons.prems(3) by auto
  obtain w1 where w1: "consume_layer ow i None w = (Inr (), w1)" "live r w1"
    "mf_layers (st_manifest (w_store w1)) = mark_consumed i ?ls"
    using consume_live [OF Cons.prems(1) l(1,2), of ow] l(3) by auto
  have "\<exists>l \<in> set (mark_consumed i ?ls). le_index l = j \<and> le_state l = ''ready''" if "j \<in> set order" for j
  proof -
    have "j \<noteq> i" using that Cons.prems(2) by auto
    moreover obtain k where "k \<in> set ?ls" "le_index k = j" "le_state k = ''ready''" using Cons.prems(3) \<open>j \<in> set order\<close> by (meson list.set_intros(2))
    ultimately have "k \<in> set (mark_consumed i ?ls) \<and> le_index k = j \<and> le_state k = ''ready''" by (force simp: mark_consumed_def)
    then show ?thesis by blast
  qed
  then obtain w' where w': "run_outputs (\<lambda>w i. consume_layer ow i None w) w1 order = (map (\<lambda>_. Inr ()) order, w')"
    "live r w'" "mf_layers (st_manifest (w_store w')) = fold mark_consumed order (mark_consumed i ?ls)"
    using Cons.IH [OF w1(2)] Cons.prems(2) w1(3) by auto
  with w1(1) show ?case by simp
qed simp

lemma finish_live:
  assumes lv: "live r w" and all: "\<forall>l \<in> set (mf_layers (st_manifest (w_store w))). le_state l = ''consumed''"
  shows "fst (finish w) = Inr () \<and> (\<forall>q. dget (w_fs (snd (finish w))) (r @ q) = None) \<and>
    st_closed (w_store (snd (finish w)))"
proof -
  let ?fs1 = "ddel (w_fs w) (r @ [manifest_name])"
  obtain u v n c where r: "st_root (w_store w) = r"
    and wf: "tree_wf (w_fs w)" "plain_root (w_fs w) r" and dir: "dget (w_fs w) r = Some (Dir u v)"
    and mf: "dget (w_fs w) (r @ [manifest_name]) = Some (File n c)"
    and below: "\<forall>q n. q \<noteq> [] \<longrightarrow> dget (w_fs w) (r @ q) = Some n \<longrightarrow> q = [manifest_name]"
    using lv all unfolding live_def Let_def by fastforce
  have u1: "unlink (r @ [manifest_name]) (w_fs w) = Inr ?fs1" using wf(2) mf by (simp add: unlink_def plain_simps)
  have wf1: "tree_wf ?fs1" using tree_wf_ddel [OF wf(1) file_no_children [OF wf(1) mf]] .
  have none: "dget ?fs1 (r @ q) = None" if "q \<noteq> []" for q
    using below that by (cases "dget (w_fs w) (r @ q)") auto
  have dir1: "dget ?fs1 r = Some (Dir u v)" using dir by simp
  have "children ?fs1 r = []" using none unfolding children_empty dget_None_iff [symmetric] by blast
  then have u2: "rmdir r ?fs1 = Inr (ddel ?fs1 r)"
    using dir1 phys_self [OF wf1 dget_Some_dmem [OF dir1]] by (simp add: rmdir_def lstat_def)
  have nc: "\<not> list_ex (\<lambda>l. le_state l \<noteq> ''consumed'') (mf_layers (st_manifest (w_store w)))"
    using all by (auto simp: list_ex_iff)
  have "dget (ddel ?fs1 r) (r @ q) = None" for q using none [of q] by (cases "q = []") auto
  then show ?thesis using nc u1 u2 by (simp add: finish_def Let_def on_fs_def r close_store_def)
qed

lemma published_live:
  assumes p: "published ow run_id idxs d ready layers fs"
  shows "live ready \<lparr>w_fs = fs, w_store = \<lparr>st_root = ready, st_manifest = new_manifest ow run_id d layers,
    st_closed = False, st_handlers = True\<rparr>\<rparr>"
proof -
  have "distinct (map le_index layers)" using p unfolding published_def by simp
  moreover have "q = [manifest_name] \<or> (\<exists>l \<in> set layers. le_state l = ''ready'' \<and> hd q = layer_name (le_index l))"
    if "q \<noteq> []" "dget fs (ready @ q) = Some n" for q n using p that unfolding published_def by blast
  ultimately show ?thesis using p unfolding live_def published_def by (auto simp: new_manifest_def)
qed


section \<open>The life of a weight store\<close>

lemma publish_open:
  assumes "publish_ephemeral ow root run_id idxs d fs = (Inr ready, fs')" "tree_wf fs" "ow_uid ow' = ow_uid ow"
    "open_store ow' (slash # join_path ready) idxs d fs' = Inr st"
  obtains layers where "published ow run_id idxs d ready layers fs'"
    "st = \<lparr>st_root = ready, st_manifest = new_manifest ow run_id d layers, st_closed = False, st_handlers = True\<rparr>"
proof -
  obtain layers where p: "published ow run_id idxs d ready layers fs'"
    using publish_published [OF assms(1,2)] by blast
  with open_published [OF p assms(3)] assms(4) that show ?thesis by simp
qed

text \<open>
  C14. Publishing and opening are inverse: when \<open>publish_ephemeral_int8_weights\<close> returns a path, a
  process of the same user that calls \<open>EphemeralKTWeightStore.open\<close> on it, with the same layers and
  dimensions, is given a store whose manifest is the published one, rooted at that path, open, and
  listing exactly the layers asked for, all of them ready.
\<close>

theorem published_store_opens:
  assumes "publish_ephemeral ow root run_id idxs d fs = (Inr ready, fs')" "tree_wf fs" "ow_uid ow' = ow_uid ow"
  shows "\<exists>layers. open_store ow' (slash # join_path ready) idxs d fs' =
      Inr \<lparr>st_root = ready, st_manifest = new_manifest ow run_id d layers, st_closed = False, st_handlers = True\<rparr> \<and>
    map (\<lambda>l. (le_index l, le_state l)) layers = map (\<lambda>i. (i, ''ready'')) (sort (remdups idxs)) \<and>
    read_doc fs' (ready @ [manifest_name]) = Some (ManifestFile (new_manifest ow run_id d layers))"
proof -
  obtain layers where p: "published ow run_id idxs d ready layers fs'"
    using publish_published [OF assms(1,2)] by blast
  then have idx: "map le_index layers = sort (remdups idxs)" and r: "\<forall>l \<in> set layers. le_state l = ''ready''"
    and m: "plain_root fs' ready" "dget fs' (ready @ [manifest_name]) = Some (File 1 (ManifestFile (new_manifest ow run_id d layers)))"
    unfolding published_def by blast+
  have "map (\<lambda>l. (le_index l, le_state l)) layers = map (\<lambda>i. (i, ''ready'')) (map le_index layers)"
    using r by simp
  then show ?thesis using open_published [OF p assms(3)] m unfolding idx by (auto simp: read_doc_def stat_plain)
qed

text \<open>A staging tree with one layer, one NUMA node and one expert, and the two processes.\<close>

definition sample_producer :: owner where
  "sample_producer = \<lparr>ow_uid = 1000, ow_pid = 41, ow_now = 7, ow_alive = (\<lambda>_. True)\<rparr>"

definition sample_trainer :: owner where
  "sample_trainer = \<lparr>ow_uid = 1000, ow_pid = 42, ow_now = 8, ow_alive = (\<lambda>_. True)\<rparr>"

definition sample_dims :: dims where
  "sample_dims = \<lparr>d_numa_count = 1, d_expert_num = 1, d_hidden_size = 64, d_intermediate_size = 32\<rparr>"

definition sample_weights :: "path \<Rightarrow> etree" where
  "sample_weights dir =
     map (\<lambda>c. (dir @ [c], File 8 WeightData))
       [''INT8_gate_0_8Byte_quant_.kt'', ''INT8_gate_0_8Byte_scale_.kt'', ''INT8_up_0_8Byte_quant_.kt'',
        ''INT8_up_0_8Byte_scale_.kt'', ''INT8_down_0_8Byte_quant_.kt'', ''INT8_down_0_8Byte_scale_.kt'']"

definition sample_staging :: path where
  "sample_staging = [''dev'', ''shm'', ''kt-int8-run-01.staging'']"

definition sample_tree :: etree where
  "sample_tree =
     [([''dev''], Dir 0 False), ([''dev'', ''shm''], Dir 0 True), ([''dev'', ''shm'', ''other''], File 3 OtherData),
      (sample_staging, Dir 1000 False),
      (sample_staging @ [staging_lease_name],
       File 1 (LeaseFile \<lparr>ls_schema_version = 1, ls_run_id = ''run-01'', ls_owner_uid = 1000, ls_producer_pid = 41\<rparr>)),
      (sample_staging @ [''_layer_3''], Dir 1000 False), (sample_staging @ [''_layer_3'', ''_numa_0''], Dir 1000 False)] @
     sample_weights (sample_staging @ [''_layer_3'', ''_numa_0''])"

definition sample_publish :: "path result \<times> etree" where
  "sample_publish = publish_ephemeral sample_producer ''/dev/shm/kt-int8-run-01.staging'' ''run-01'' [3] sample_dims sample_tree"

lemma sample_publish_result:
  "sample_publish = (Inr [''dev'', ''shm'', ''kt-int8-run-01''], snd sample_publish)"
proof -
  have "fst sample_publish = Inr [''dev'', ''shm'', ''kt-int8-run-01'']" by code_simp
  then show ?thesis by (metis prod.collapse)
qed

lemma sample_tree_wf: "tree_wf sample_tree"
proof -
  have "dwf sample_tree" by code_simp
  from tree_wf_all [OF this] show ?thesis by (rule iffD2) code_simp
qed

lemma sample_uid: "ow_uid sample_trainer = ow_uid sample_producer"
  by (simp add: sample_trainer_def sample_producer_def)

lemma published_store_opens_witness:
  "\<exists>layers. open_store sample_trainer (slash # join_path [''dev'', ''shm'', ''kt-int8-run-01'']) [3] sample_dims (snd sample_publish) =
      Inr \<lparr>st_root = [''dev'', ''shm'', ''kt-int8-run-01''],
           st_manifest = new_manifest sample_producer ''run-01'' sample_dims layers, st_closed = False, st_handlers = True\<rparr> \<and>
    map (\<lambda>l. (le_index l, le_state l)) layers = [(3, ''ready'')]"
  using published_store_opens [OF sample_publish_result [unfolded sample_publish_def] sample_tree_wf sample_uid]
  unfolding sample_publish_def [symmetric] by auto

text \<open>
  C5. A weight store can be abandoned at any moment. After publishing and opening, let layers be
  consumed in any order, each call possibly stopped by a signal or an error after any of its
  effects (the half-written manifest, some files of a layer, some directories); \<open>cleanup\<close> then
  removes every file and directory under the root, and the root, and changes nothing outside it.
\<close>

theorem interrupted_store_cleans_up:
  assumes "publish_ephemeral ow root run_id idxs d fs = (Inr ready, fs')" "tree_wf fs" "ow_uid ow' = ow_uid ow"
    "open_store ow' (slash # join_path ready) idxs d fs' = Inr st"
  shows "let w = cleanup ow' (run_steps (store_step ow') \<lparr>w_fs = fs', w_store = st\<rparr> ops) in
    (\<forall>q. dget (w_fs w) (ready @ q) = None) \<and> outside_kept ready fs' (w_fs w) \<and> st_closed (w_store w)"
proof -
  obtain layers where p: "published ow run_id idxs d ready layers fs'"
    and st: "st = \<lparr>st_root = ready, st_manifest = new_manifest ow run_id d layers, st_closed = False, st_handlers = True\<rparr>"
    by (rule publish_open [OF assms])
  let ?w = "run_steps (store_step ow') \<lparr>w_fs = fs', w_store = st\<rparr> ops"
  have "store_inv ow' fs' ?w \<and> st_root (w_store ?w) = ready"
    by (rule ephemeral_store.run_inv) (use published_store_inv [OF p] in \<open>simp add: st\<close>)
  with cleanup_removes_root [of ow' fs' ?w] show ?thesis by (auto simp: Let_def)
qed

lemma interrupted_store_cleans_up_witness:
  "\<exists>st. open_store sample_trainer (slash # join_path [''dev'', ''shm'', ''kt-int8-run-01'']) [3] sample_dims (snd sample_publish) = Inr st \<and>
    (let w = cleanup sample_trainer (run_steps (store_step sample_trainer) \<lparr>w_fs = snd sample_publish, w_store = st\<rparr> [(3, Some 5)]) in
     dget (w_fs w) [''dev'', ''shm'', ''kt-int8-run-01''] = None \<and>
     dget (w_fs w) [''dev'', ''shm'', ''other''] = Some (File 3 OtherData))"
proof -
  note pub = sample_publish_result [unfolded sample_publish_def]
  obtain st where st: "open_store sample_trainer (slash # join_path [''dev'', ''shm'', ''kt-int8-run-01'']) [3] sample_dims
      (snd sample_publish) = Inr st"
    using open_published [OF _ sample_uid] publish_published [OF pub sample_tree_wf]
    unfolding sample_publish_def by blast
  have "dget (snd sample_publish) [''dev'', ''shm'', ''other''] = Some (File 3 OtherData)" by code_simp
  moreover have "\<not> prefix [''dev'', ''shm'', ''kt-int8-run-01''] [''dev'', ''shm'', ''other'']" by code_simp
  moreover note interrupted_store_cleans_up [OF pub sample_tree_wf sample_uid st [unfolded sample_publish_def],
      of "[(3, Some 5)]", folded sample_publish_def]
  ultimately show ?thesis using st unfolding Let_def outside_kept_def by (metis append_Nil2)
qed

text \<open>
  C17. A weight store that is used to the end leaves nothing. After publishing and opening, consuming
  every layer once, in any order, succeeds each time, \<open>finish\<close> succeeds, and then nothing is left
  under the root, nor the root itself.
\<close>

theorem consumed_store_finishes:
  assumes "publish_ephemeral ow root run_id idxs d fs = (Inr ready, fs')" "tree_wf fs" "ow_uid ow' = ow_uid ow"
    "open_store ow' (slash # join_path ready) idxs d fs' = Inr st" "distinct order" "set order = set idxs"
  shows "\<exists>w. run_outputs (\<lambda>w i. consume_layer ow' i None w) \<lparr>w_fs = fs', w_store = st\<rparr> order =
      (map (\<lambda>_. Inr ()) order, w) \<and>
    fst (finish w) = Inr () \<and> (\<forall>q. dget (w_fs (snd (finish w))) (ready @ q) = None)"
proof -
  obtain layers where p: "published ow run_id idxs d ready layers fs'"
    and st: "st = \<lparr>st_root = ready, st_manifest = new_manifest ow run_id d layers, st_closed = False, st_handlers = True\<rparr>"
    by (rule publish_open [OF assms(1-4)])
  have ls: "mf_layers (st_manifest st) = layers" by (simp add: st new_manifest_def)
  have idx: "le_index ` set layers = set order"
    using p assms(6) unfolding published_def by (metis list.set_map set_remdups set_sort)
  moreover have "\<forall>l \<in> set layers. le_state l = ''ready''" using p unfolding published_def by blast
  ultimately have "\<forall>i \<in> set order. \<exists>l \<in> set layers. le_index l = i \<and> le_state l = ''ready''" by force
  with consume_order [OF published_live [OF p] assms(5), of ow', folded st]
  obtain w where w: "run_outputs (\<lambda>w i. consume_layer ow' i None w) \<lparr>w_fs = fs', w_store = st\<rparr> order =
      (map (\<lambda>_. Inr ()) order, w)" "live ready w" "mf_layers (st_manifest (w_store w)) = fold mark_consumed order layers"
    by (auto simp: ls)
  have "\<forall>l \<in> set (mf_layers (st_manifest (w_store w))). le_state l = ''consumed''"
    using fold_mark_consumed idx unfolding w(3) by blast
  from finish_live [OF w(2) this] w(1) show ?thesis by blast
qed

lemma consumed_store_finishes_witness:
  "\<exists>st w. open_store sample_trainer (slash # join_path [''dev'', ''shm'', ''kt-int8-run-01'']) [3] sample_dims (snd sample_publish) = Inr st \<and>
    run_outputs (\<lambda>w i. consume_layer sample_trainer i None w) \<lparr>w_fs = snd sample_publish, w_store = st\<rparr> [3] = ([Inr ()], w) \<and>
    fst (finish w) = Inr () \<and> dget (w_fs (snd (finish w))) [''dev'', ''shm'', ''kt-int8-run-01''] = None"
proof -
  note pub = sample_publish_result [unfolded sample_publish_def]
  obtain st where st: "open_store sample_trainer (slash # join_path [''dev'', ''shm'', ''kt-int8-run-01'']) [3] sample_dims
      (snd sample_publish) = Inr st"
    using open_published [OF _ sample_uid] publish_published [OF pub sample_tree_wf]
    unfolding sample_publish_def by blast
  have "distinct [3 :: int]" "set [3 :: int] = set [3]" by simp_all
  from consumed_store_finishes [OF pub sample_tree_wf sample_uid st [unfolded sample_publish_def] this,
      folded sample_publish_def]
  obtain w where w: "run_outputs (\<lambda>w i. consume_layer sample_trainer i None w) \<lparr>w_fs = snd sample_publish, w_store = st\<rparr> [3] =
      (map (\<lambda>_. Inr ()) [3 :: int], w)" "fst (finish w) = Inr ()"
    "\<forall>q. dget (w_fs (snd (finish w))) ([''dev'', ''shm'', ''kt-int8-run-01''] @ q) = None" by blast
  have "dget (w_fs (snd (finish w))) [''dev'', ''shm'', ''kt-int8-run-01''] = None"
    using w(3) [rule_format, of "[]"] by simp
  with w(1,2) st show ?thesis unfolding list.map by blast
qed

text \<open>A root whose layer directory is a link to a directory of the user outside the root.\<close>

definition linked_layer :: layer_entry where
  "linked_layer = \<lparr>le_index = 0, le_numa_count = 1, le_state = ''ready'',
     le_files = [\<lparr>fe_path = ''_layer_0/_numa_0/w'', fe_size = 8\<rparr>], le_bytes = 8\<rparr>"

definition linked_tree :: etree where
  "linked_tree =
     [([''dev''], Dir 0 False), ([''dev'', ''shm''], Dir 0 True), ([''home''], Dir 0 False), ([''home'', ''u''], Dir 1000 False),
      ([''home'', ''u'', ''_numa_0''], Dir 1000 False), ([''home'', ''u'', ''_numa_0'', ''w''], File 8 WeightData),
      ([''dev'', ''shm'', ''kt-int8-run-01''], Dir 1000 False),
      ([''dev'', ''shm'', ''kt-int8-run-01'', ''_layer_0''], Link [''home'', ''u'']),
      ([''dev'', ''shm'', ''kt-int8-run-01'', manifest_name],
       File 1 (ManifestFile (new_manifest sample_producer ''run-01'' sample_dims [linked_layer])))]"

definition linked_consume :: "unit result \<times> etree" where
  "linked_consume =
     (case open_store sample_trainer ''/dev/shm/kt-int8-run-01'' [0] sample_dims linked_tree of
        Inl e \<Rightarrow> (Inl e, linked_tree)
      | Inr st \<Rightarrow> (case consume_layer sample_trainer 0 None \<lparr>w_fs = linked_tree, w_store = st\<rparr> of (res, w) \<Rightarrow> (res, w_fs w)))"

text \<open>
  The promise is only kept for trees that \<open>publish\<close> made: \<open>open\<close> does not check that a layer
  directory is not a symbolic link, as \<open>_scan_layer\<close> does. On a root whose \<open>_layer_0\<close> leads to a
  directory elsewhere, \<open>consume_layer\<close> deletes the files there, outside the root, and then fails with an
  error when it reaches the link itself.
\<close>

theorem linked_layer_escapes:
  "scan_layer linked_tree [''dev'', ''shm'', ''kt-int8-run-01''] 0 1 1 = Inl (ValueError ''missing or unsafe INT8 layer directory'') \<and>
   dget linked_tree [''home'', ''u'', ''_numa_0'', ''w''] = Some (File 8 WeightData) \<and>
   fst linked_consume = Inl (OSError ''not a directory'') \<and>
   dget (snd linked_consume) [''home'', ''u'', ''_numa_0'', ''w''] = None \<and>
   dget (snd linked_consume) [''home'', ''u'', ''_numa_0''] = None"
  by code_simp

end
