(* ===== verification/FullWeights.thy ===== *)
theory FullWeights
  imports PyText
begin

text \<open>
  \<open>kt-kernel/python/sft/checkpoint.py\<close>: the Full-weight checkpoint of the expert parameters, one
  shard file per layer and an index that names them. The checkpoint directory is a dictionary from
  base names to entries; the index is published last, by a rename, so it is the commit point.

  Input and output may fail: the \<open>n\<close>-th operation of a save ends as \<open>io n\<close> says (\<open>Partial\<close> leaves a
  truncated file), and \<open>rm name\<close> says whether a removal succeeds. The safetensors format is kept
  decoded: a shard file holds its metadata and its tensors, and \<open>size\<close> gives its length. A JSON
  value of a type the code tests for is \<open>None\<close> when the type is wrong or the field is missing; an entry
  of the index that is \<open>null\<close> is a missing entry.
\<close>

section \<open>Parameters and wrappers\<close>

record 'a tensor =
  tn_shape :: "int list"
  tn_dtype :: string
  tn_data :: 'a

record 'a param =
  pm_tensor :: "'a tensor"
  pm_on_cpu :: bool
  pm_contiguous :: bool
  pm_requires_grad :: bool

record 'a backend =
  bk_bufs :: "(string, 'a param) dict"
  bk_dirty :: bool
  bk_load_failed :: bool

record 'a ckw =
  cw_layer_idx :: int
  cw_full :: bool
  cw_expert_num :: int
  cw_intermediate_size :: int
  cw_hidden_size :: int
  cw_backend :: "'a backend option"

definition projection_names :: "string list" where
  "projection_names = [''gate_proj'', ''up_proj'', ''down_proj'']"

definition dtype_name :: string where
  "dtype_name = ''BF16''"

definition checkpoint_format :: string where
  "checkpoint_format = ''kt_full_experts''"

definition index_name :: string where
  "index_name = ''kt_full_experts.index.json''"

definition expected_shapes :: "'a ckw \<Rightarrow> (string, int list) dict" where
  "expected_shapes w =
     [(''gate_proj'', [cw_expert_num w, cw_intermediate_size w, cw_hidden_size w]),
      (''up_proj'', [cw_expert_num w, cw_intermediate_size w, cw_hidden_size w]),
      (''down_proj'', [cw_expert_num w, cw_hidden_size w, cw_intermediate_size w])]"

fun collect_params :: "(string, 'a param) dict \<Rightarrow> string list \<Rightarrow> (string, 'a param) dict result" where
  "collect_params bufs [] = Inr []"
| "collect_params bufs (name # names) =
     (case dget bufs name of
        None \<Rightarrow> Inl (RuntimeError ''missing authoritative Parameter'')
      | Some p \<Rightarrow> rbind (collect_params bufs names) (\<lambda>ps. Inr ((name, p) # ps)))"

definition backend_parameters :: "'a ckw \<Rightarrow> (string, 'a param) dict result" where
  "backend_parameters w =
     (case cw_backend w of
        None \<Rightarrow> Inl (RuntimeError ''rank 0 does not own the KT Full backend'')
      | Some b \<Rightarrow> collect_params (bk_bufs b) projection_names)"

fun validate_parameters :: "(string, int list) dict \<Rightarrow> (string, 'a param) dict \<Rightarrow> unit result" where
  "validate_parameters shapes [] = Inr ()"
| "validate_parameters shapes ((name, p) # ps) =
     rbind (require (Some (tn_shape (pm_tensor p)) = dget shapes name) (RuntimeError ''shape mismatch'')) (\<lambda>_.
     rbind (require (tn_dtype (pm_tensor p) = dtype_name) (RuntimeError ''dtype mismatch'')) (\<lambda>_.
     rbind (require (pm_on_cpu p) (RuntimeError ''must be on CPU'')) (\<lambda>_.
     rbind (require (pm_contiguous p) (RuntimeError ''must be contiguous'')) (\<lambda>_.
     rbind (require (pm_requires_grad p) (RuntimeError ''must require gradients'')) (\<lambda>_.
     validate_parameters shapes ps)))))"

definition validate_parameter_set :: "'a ckw \<Rightarrow> (string, 'a param) dict \<Rightarrow> unit result" where
  "validate_parameter_set w ps = validate_parameters (expected_shapes w) ps"

section \<open>The directory\<close>

record jlayer =
  jl_file :: "string option"
  jl_size :: "int option"
  jl_shapes :: "(string, int list) dict option"

datatype jentry = JLayer jlayer | JNotDict

record index_doc =
  ix_format :: "string option"
  ix_version :: "int option"
  ix_dtype :: "string option"
  ix_generation :: "string option"
  ix_layers :: "(string, jentry) dict option"

record 'a shard =
  sh_meta :: "(string, string) dict"
  sh_tensors :: "(string, 'a tensor) dict"

datatype 'a ccontent = ShardData "'a shard" | IndexData index_doc | JsonValue | Garbage

datatype 'a centry = CFile int "'a ccontent" | CSub

type_synonym 'a cdir = "(string, 'a centry) dict"

definition cd_isfile :: "'a cdir \<Rightarrow> string \<Rightarrow> bool" where
  "cd_isfile dir name = (case dget dir name of Some (CFile _ _) \<Rightarrow> True | _ \<Rightarrow> False)"

definition cd_size :: "'a cdir \<Rightarrow> string \<Rightarrow> int" where
  "cd_size dir name = (case dget dir name of Some (CFile n _) \<Rightarrow> n | _ \<Rightarrow> 0)"

definition cd_write :: "string \<Rightarrow> int \<Rightarrow> 'a ccontent \<Rightarrow> 'a cdir \<Rightarrow> 'a cdir result" where
  "cd_write name n c dir =
     (if dget dir name = Some CSub then Inl (OSError ''is a directory'') else Inr (dset dir name (CFile n c)))"

definition cd_replace :: "string \<Rightarrow> string \<Rightarrow> 'a cdir \<Rightarrow> 'a cdir result" where
  "cd_replace src dst dir =
     (case dget dir src of
        Some (CFile n c) \<Rightarrow>
          (if dget dir dst = Some CSub then Inl (OSError ''is a directory'')
           else Inr (dset (ddel dir src) dst (CFile n c)))
      | _ \<Rightarrow> Inl (FileNotFoundError ''replace''))"

text \<open>
  \<open>os.remove\<close>; a missing file is what the callers ignore. Names are those of files: the \<open>ValueError\<close> for
  a name with an embedded NUL, which an index could contain and no directory does, is left out.
\<close>

definition cd_remove :: "(string \<Rightarrow> bool) \<Rightarrow> string \<Rightarrow> 'a cdir \<Rightarrow> 'a cdir result" where
  "cd_remove rm name dir =
     (case dget dir name of
        None \<Rightarrow> Inl (FileNotFoundError ''remove'')
      | Some CSub \<Rightarrow> Inl (OSError ''is a directory'')
      | Some (CFile _ _) \<Rightarrow> (if rm name then Inr (ddel dir name) else Inl (OSError ''remove'')))"

section \<open>Reading\<close>

definition read_index :: "'a cdir \<Rightarrow> index_doc result" where
  "read_index dir =
     (case dget dir index_name of
        None \<Rightarrow> Inl (FileNotFoundError ''Missing KT Full checkpoint index'')
      | Some (CFile _ (IndexData d)) \<Rightarrow>
          rbind (require (ix_format d = Some checkpoint_format) (RuntimeError ''format'')) (\<lambda>_.
          rbind (require (ix_version d = Some 1) (RuntimeError ''version'')) (\<lambda>_.
          rbind (require (ix_dtype d = Some dtype_name) (RuntimeError ''dtype'')) (\<lambda>_.
          rbind (require (ix_generation d \<noteq> None \<and> ix_generation d \<noteq> Some []) (RuntimeError ''generation'')) (\<lambda>_.
          rbind (require (ix_layers d \<noteq> None) (RuntimeError ''layers'')) (\<lambda>_.
          Inr d)))))
      | Some (CFile _ (ShardData _)) \<Rightarrow> Inl (ValueError ''utf-8'')
      | Some (CFile _ JsonValue) \<Rightarrow> Inl (AttributeError ''get'')
      | Some _ \<Rightarrow> Inl (RuntimeError ''Failed to read KT Full checkpoint index''))"

definition safe_shard_path :: "string option \<Rightarrow> string result" where
  "safe_shard_path f =
     (case f of
        None \<Rightarrow> Inl (RuntimeError ''Invalid shard filename'')
      | Some name \<Rightarrow>
          (if name = [] then Inl (RuntimeError ''Invalid shard filename'')
           else if CHR ''/'' \<in> set name then Inl (RuntimeError ''shard must be a basename'')
           else Inr name))"

text \<open>Equality of dictionaries.\<close>

definition dict_eq :: "('k, 'v) dict \<Rightarrow> ('k, 'v) dict \<Rightarrow> bool" where
  "dict_eq a b = (list_all (\<lambda>(k, v). dget b k = Some v) a \<and> list_all (\<lambda>k. dmem a k) (dkeys b))"

fun check_tensors :: "(string, int list) dict \<Rightarrow> (string, 'a tensor) dict \<Rightarrow> string list \<Rightarrow> unit result" where
  "check_tensors shapes ts [] = Inr ()"
| "check_tensors shapes ts (name # names) =
     (let t = the (dget ts name) in
      rbind (require (Some (tn_shape t) = dget shapes name) (RuntimeError ''shape mismatch'')) (\<lambda>_.
      rbind (require (tn_dtype t = dtype_name) (RuntimeError ''dtype mismatch'')) (\<lambda>_.
      check_tensors shapes ts names)))"

definition check_shard :: "int \<Rightarrow> (string, int list) dict \<Rightarrow> string \<Rightarrow> 'a shard \<Rightarrow> unit result" where
  "check_shard idx shapes gen s =
     rbind (require (set (dkeys (sh_tensors s)) = set projection_names) (RuntimeError ''keys mismatch'')) (\<lambda>_.
     rbind (require (dget (sh_meta s) ''format'' = Some checkpoint_format) (RuntimeError ''format metadata'')) (\<lambda>_.
     rbind (require (dget (sh_meta s) ''version'' = Some (str_of_int 1)) (RuntimeError ''version metadata'')) (\<lambda>_.
     rbind (require (dget (sh_meta s) ''generation'' = Some gen) (RuntimeError ''generation metadata'')) (\<lambda>_.
     rbind (require (dget (sh_meta s) ''layer_idx'' = Some (str_of_int idx)) (RuntimeError ''layer metadata'')) (\<lambda>_.
     check_tensors shapes (sh_tensors s) projection_names)))))"

definition inspect_layer_shard ::
  "'a cdir \<Rightarrow> int \<Rightarrow> jentry \<Rightarrow> (string, int list) dict \<Rightarrow> string \<Rightarrow> string result" where
  "inspect_layer_shard dir idx entry shapes gen =
     (case entry of
        JNotDict \<Rightarrow> Inl (RuntimeError ''invalid index entry'')
      | JLayer l \<Rightarrow>
          (case jl_shapes l of
             None \<Rightarrow> Inl (RuntimeError ''index shapes mismatch'')
           | Some sh \<Rightarrow>
               rbind (require (dict_eq sh (map (\<lambda>n. (n, the (dget shapes n))) projection_names))
                        (RuntimeError ''index shapes mismatch'')) (\<lambda>_.
               rbind (safe_shard_path (jl_file l)) (\<lambda>name.
               rbind (require (cd_isfile dir name) (FileNotFoundError ''missing shard'')) (\<lambda>_.
               rbind (require (case jl_size l of None \<Rightarrow> False | Some n \<Rightarrow> n > 0) (RuntimeError ''invalid shard size'')) (\<lambda>_.
               rbind (require (jl_size l = Some (cd_size dir name)) (RuntimeError ''shard size mismatch'')) (\<lambda>_.
               case dget dir name of
                 Some (CFile _ (ShardData s)) \<Rightarrow> rbind (check_shard idx shapes gen s) (\<lambda>_. Inr name)
               | _ \<Rightarrow> Inl (RuntimeError ''safe_open'')))))))) "

definition shard_at :: "'a cdir \<Rightarrow> string \<Rightarrow> 'a shard" where
  "shard_at dir name =
     (case dget dir name of Some (CFile _ (ShardData s)) \<Rightarrow> s | _ \<Rightarrow> \<lparr>sh_meta = [], sh_tensors = []\<rparr>)"

definition load_full_weight_layer ::
  "'a cdir \<Rightarrow> int \<Rightarrow> (string, int list) dict \<Rightarrow> 'a tensor list result" where
  "load_full_weight_layer dir idx shapes =
     rbind (require (cd_isfile dir index_name) (FileNotFoundError ''No kt_full_experts.index.json found'')) (\<lambda>_.
     rbind (read_index dir) (\<lambda>d.
     case dget (the (ix_layers d)) (str_of_int idx) of
       None \<Rightarrow> Inl (RuntimeError ''missing from KT Full checkpoint index'')
     | Some e \<Rightarrow>
         rbind (inspect_layer_shard dir idx e shapes (the (ix_generation d))) (\<lambda>name.
         Inr (map (\<lambda>n. the (dget (sh_tensors (shard_at dir name)) n)) projection_names))))"


section \<open>Saving\<close>

datatype io = Done | Fails | Partial

record 'a sv =
  sv_dir :: "'a cdir"
  sv_tick :: nat
  sv_temps :: "string list"
  sv_created :: "string list"
  sv_entries :: "(string, jentry) dict"
  sv_seen :: "int list"

text \<open>
  The next input/output operation: \<open>f\<close> is its effect (which may itself be an error), \<open>g\<close> what a
  partial failure leaves.
\<close>

definition io_op :: "(nat \<Rightarrow> io) \<Rightarrow> ('a cdir \<Rightarrow> 'a cdir result) \<Rightarrow> ('a cdir \<Rightarrow> 'a cdir) \<Rightarrow> ('a sv, unit) eop" where
  "io_op io f g s =
     (let s' = s\<lparr>sv_tick := Suc (sv_tick s)\<rparr> in
      case f (sv_dir s) of
        Inl e \<Rightarrow> (Inl e, s')
      | Inr dir \<Rightarrow>
          (case io (sv_tick s) of
             Done \<Rightarrow> (Inr (), s'\<lparr>sv_dir := dir\<rparr>)
           | Fails \<Rightarrow> (Inl (OSError ''I/O''), s')
           | Partial \<Rightarrow> (Inl (OSError ''I/O''), s'\<lparr>sv_dir := g (sv_dir s)\<rparr>)))"

definition io_write :: "(nat \<Rightarrow> io) \<Rightarrow> string \<Rightarrow> int \<Rightarrow> 'a ccontent \<Rightarrow> ('a sv, unit) eop" where
  "io_write io name n c = io_op io (cd_write name n c) (\<lambda>dir. dset dir name (CFile 1 Garbage))"

definition io_replace :: "(nat \<Rightarrow> io) \<Rightarrow> string \<Rightarrow> string \<Rightarrow> ('a sv, unit) eop" where
  "io_replace io src dst = io_op io (cd_replace src dst) id"

definition pad5 :: "int \<Rightarrow> string" where
  "pad5 i = replicate (5 - length (str_of_int i)) (CHR ''0'') @ str_of_int i"

definition shard_name :: "string \<Rightarrow> int \<Rightarrow> string" where
  "shard_name gen i = ''kt_full_experts-'' @ gen @ ''-layer-'' @ pad5 i @ ''.safetensors''"

definition shard_temp :: "string \<Rightarrow> int \<Rightarrow> string" where
  "shard_temp gen i = shard_name gen i @ ''.tmp''"

definition index_temp :: "string \<Rightarrow> string" where
  "index_temp gen = index_name @ ''.'' @ gen @ ''.tmp''"

definition layer_shard :: "string \<Rightarrow> int \<Rightarrow> (string, 'a param) dict \<Rightarrow> 'a shard" where
  "layer_shard gen i ps =
     \<lparr>sh_meta = [(''format'', checkpoint_format), (''version'', str_of_int 1), (''generation'', gen),
                 (''layer_idx'', str_of_int i)],
      sh_tensors = map (\<lambda>(name, p). (name, pm_tensor p)) ps\<rparr>"

definition layer_entry :: "string \<Rightarrow> int \<Rightarrow> int \<Rightarrow> (string, 'a param) dict \<Rightarrow> jentry" where
  "layer_entry gen i n ps =
     JLayer \<lparr>jl_file = Some (shard_name gen i), jl_size = Some n,
             jl_shapes = Some (map (\<lambda>name. (name, tn_shape (pm_tensor (the (dget ps name))))) projection_names)\<rparr>"

definition save_layer :: "(nat \<Rightarrow> io) \<Rightarrow> ('a shard \<Rightarrow> int) \<Rightarrow> string \<Rightarrow> 'a ckw \<Rightarrow> ('a sv, unit) eop" where
  "save_layer io shard_size gen w =
     (let i = cw_layer_idx w in
      ebind (elift (require (0 \<le> i) (RuntimeError ''Invalid negative KT Full layer index''))) (\<lambda>_.
      ebind (eassert (\<lambda>s. i \<notin> set (sv_seen s)) (RuntimeError ''Duplicate KT Full wrapper'')) (\<lambda>_.
      ebind (eupd (\<lambda>s. s\<lparr>sv_seen := i # sv_seen s\<rparr>)) (\<lambda>_.
      ebind (elift (backend_parameters w)) (\<lambda>ps.
      ebind (elift (validate_parameter_set w ps)) (\<lambda>_.
      ebind (eupd (\<lambda>s. s\<lparr>sv_temps := sv_temps s @ [shard_temp gen i]\<rparr>)) (\<lambda>_.
      ebind (io_write io (shard_temp gen i) (shard_size (layer_shard gen i ps)) (ShardData (layer_shard gen i ps))) (\<lambda>_.
      ebind (io_replace io (shard_temp gen i) (shard_name gen i)) (\<lambda>_.
      ebind (eupd (\<lambda>s. s\<lparr>sv_temps := remove1 (shard_temp gen i) (sv_temps s),
                         sv_created := sv_created s @ [shard_name gen i]\<rparr>)) (\<lambda>_.
      ebind (io_op io Inr id) (\<lambda>_.
      eupd (\<lambda>s. s\<lparr>sv_entries := dset (sv_entries s) (str_of_int i)
                     (layer_entry gen i (cd_size (sv_dir s) (shard_name gen i)) ps)\<rparr>))))))))))))"

fun save_layers :: "(nat \<Rightarrow> io) \<Rightarrow> ('a shard \<Rightarrow> int) \<Rightarrow> string \<Rightarrow> 'a ckw list \<Rightarrow> ('a sv, unit) eop" where
  "save_layers io shard_size gen [] = ereturn ()"
| "save_layers io shard_size gen (w # ws) = ebind (save_layer io shard_size gen w) (\<lambda>_. save_layers io shard_size gen ws)"

definition new_index :: "string \<Rightarrow> (string, jentry) dict \<Rightarrow> index_doc" where
  "new_index gen entries =
     \<lparr>ix_format = Some checkpoint_format, ix_version = Some 1, ix_dtype = Some dtype_name,
      ix_generation = Some gen, ix_layers = Some entries\<rparr>"

definition save_index :: "(nat \<Rightarrow> io) \<Rightarrow> string \<Rightarrow> ('a sv, unit) eop" where
  "save_index io gen =
     ebind (eupd (\<lambda>s. s\<lparr>sv_temps := sv_temps s @ [index_temp gen]\<rparr>)) (\<lambda>_.
     ebind (egets sv_entries) (\<lambda>entries.
     ebind (io_write io (index_temp gen) 1 (IndexData (new_index gen entries))) (\<lambda>_.
     ebind (io_replace io (index_temp gen) index_name) (\<lambda>_.
     eupd (\<lambda>s. s\<lparr>sv_temps := remove1 (index_temp gen) (sv_temps s)\<rparr>)))))"

text \<open>The handler: remove what was written; an error other than a missing file ends it.\<close>

fun remove_all :: "(string \<Rightarrow> bool) \<Rightarrow> string list \<Rightarrow> 'a cdir \<Rightarrow> exn option \<times> 'a cdir" where
  "remove_all rm [] dir = (None, dir)"
| "remove_all rm (name # names) dir =
     (case cd_remove rm name dir of
        Inr dir' \<Rightarrow> remove_all rm names dir'
      | Inl (FileNotFoundError _) \<Rightarrow> remove_all rm names dir
      | Inl e \<Rightarrow> (Some e, dir))"

text \<open>After the commit: remove the shards of the previous index, ignoring errors.\<close>

definition drop_superseded :: "(string \<Rightarrow> bool) \<Rightarrow> string list \<Rightarrow> jentry \<Rightarrow> 'a cdir \<Rightarrow> 'a cdir" where
  "drop_superseded rm created entry dir =
     (case entry of
        JNotDict \<Rightarrow> dir
      | JLayer l \<Rightarrow>
          (case safe_shard_path (jl_file l) of
             Inl _ \<Rightarrow> dir
           | Inr name \<Rightarrow>
               (if name \<in> set created then dir
                else case cd_remove rm name dir of Inl _ \<Rightarrow> dir | Inr dir' \<Rightarrow> dir')))"

definition previous_entries :: "'a cdir \<Rightarrow> jentry list" where
  "previous_entries dir =
     (if cd_isfile dir index_name
      then (case read_index dir of Inl _ \<Rightarrow> [] | Inr d \<Rightarrow> map snd (the (ix_layers d)))
      else [])"

definition save_full_weight_checkpoint ::
  "int \<Rightarrow> (nat \<Rightarrow> io) \<Rightarrow> (string \<Rightarrow> bool) \<Rightarrow> ('a shard \<Rightarrow> int) \<Rightarrow> string \<Rightarrow> 'a ckw list \<Rightarrow> 'a cdir
     \<Rightarrow> bool result \<times> 'a cdir" where
  "save_full_weight_checkpoint rank io rm shard_size gen wrappers dir =
     (let full = filter cw_full wrappers in
      if full = [] \<or> rank \<noteq> 0 then (Inr False, dir)
      else case ebind (save_layers io shard_size gen (sort_key cw_layer_idx full)) (\<lambda>_. save_index io gen)
                  \<lparr>sv_dir = dir, sv_tick = 0, sv_temps = [], sv_created = [], sv_entries = [], sv_seen = []\<rparr> of
             (Inl e, s) \<Rightarrow>
               (case remove_all rm (sv_temps s @ sv_created s) (sv_dir s) of
                  (None, dir') \<Rightarrow> (Inl e, dir')
                | (Some e', dir') \<Rightarrow> (Inl e', dir'))
           | (Inr _, s) \<Rightarrow> (Inr True, fold (drop_superseded rm (sv_created s)) (previous_entries dir) (sv_dir s)))"

section \<open>Loading\<close>

fun index_layers :: "string list \<Rightarrow> int list \<Rightarrow> int list result" where
  "index_layers [] saved = Inr saved"
| "index_layers (key # keys) saved =
     (case parse_int key of
        None \<Rightarrow> Inl (RuntimeError ''Invalid layer key'')
      | Some i \<Rightarrow>
          (if i < 0 \<or> str_of_int i \<noteq> key \<or> i \<in> set saved
           then Inl (RuntimeError ''Non-canonical or duplicate layer key'')
           else index_layers keys (i # saved)))"

fun check_wrappers :: "'a ckw list \<Rightarrow> int list \<Rightarrow> unit result" where
  "check_wrappers [] seen = Inr ()"
| "check_wrappers (w # ws) seen =
     rbind (require (cw_layer_idx w \<notin> set seen) (RuntimeError ''Duplicate KT Full wrapper'')) (\<lambda>_.
     rbind (backend_parameters w) (\<lambda>ps.
     rbind (validate_parameter_set w ps) (\<lambda>_.
     check_wrappers ws (cw_layer_idx w # seen))))"

fun inspect_layers :: "'a cdir \<Rightarrow> index_doc \<Rightarrow> 'a ckw list \<Rightarrow> (int, string) dict result" where
  "inspect_layers dir d [] = Inr []"
| "inspect_layers dir d (w # ws) =
     rbind (inspect_layer_shard dir (cw_layer_idx w) (the (dget (the (ix_layers d)) (str_of_int (cw_layer_idx w))))
              (expected_shapes w) (the (ix_generation d))) (\<lambda>name.
     rbind (inspect_layers dir d ws) (\<lambda>m. Inr ((cw_layer_idx w, name) # m)))"

definition set_param :: "int \<Rightarrow> string \<Rightarrow> 'a tensor \<Rightarrow> 'a ckw \<Rightarrow> 'a ckw" where
  "set_param i name t w =
     (if cw_full w \<and> cw_layer_idx w = i
      then w\<lparr>cw_backend := map_option (\<lambda>b. b\<lparr>bk_bufs :=
               map (\<lambda>(n, p). (n, if n = name then p\<lparr>pm_tensor := t\<rparr> else p)) (bk_bufs b)\<rparr>) (cw_backend w)\<rparr>
      else w)"

definition set_flags :: "bool option \<Rightarrow> bool \<Rightarrow> 'a ckw \<Rightarrow> 'a ckw" where
  "set_flags dirty failed w =
     (if cw_full w
      then w\<lparr>cw_backend := map_option (\<lambda>b. b\<lparr>bk_dirty := (case dirty of None \<Rightarrow> bk_dirty b | Some x \<Rightarrow> x),
                                                   bk_load_failed := failed\<rparr>) (cw_backend w)\<rparr>
      else w)"

text \<open>The copies, in order; \<open>fault = Some n\<close> makes the \<open>n\<close>-th of them raise.\<close>

definition copy_plan :: "'a cdir \<Rightarrow> (int, string) dict \<Rightarrow> (int \<times> string \<times> 'a tensor) list" where
  "copy_plan dir shards =
     concat (map (\<lambda>i. map (\<lambda>n. (i, n, the (dget (sh_tensors (shard_at dir (the (dget shards i)))) n))) projection_names)
       (sort (dkeys shards)))"

definition apply_copies :: "(int \<times> string \<times> 'a tensor) list \<Rightarrow> 'a ckw list \<Rightarrow> 'a ckw list" where
  "apply_copies plan ws = fold (\<lambda>(i, n, t). map (set_param i n t)) plan ws"

definition load_rank0 :: "nat option \<Rightarrow> 'a cdir \<Rightarrow> 'a ckw list \<Rightarrow> nat result \<times> 'a ckw list" where
  "load_rank0 fault dir ws =
     (let full = filter cw_full ws in
      case rbind (read_index dir) (\<lambda>d.
           rbind (check_wrappers full []) (\<lambda>_.
           rbind (index_layers (dkeys (the (ix_layers d))) []) (\<lambda>saved.
           rbind (require (set saved = set (map cw_layer_idx full)) (RuntimeError ''layer set mismatch'')) (\<lambda>_.
           inspect_layers dir d full)))) of
        Inl e \<Rightarrow> (Inl e, ws)
      | Inr shards \<Rightarrow>
          (let plan = copy_plan dir shards in
           case fault of
             Some n \<Rightarrow>
               (if n < length plan
                then (Inl (RuntimeError ''copy''), map (set_flags None True) (apply_copies (take n plan) ws))
                else (Inr (length full), map (set_flags (Some True) False) (apply_copies plan ws)))
           | None \<Rightarrow> (Inr (length full), map (set_flags (Some True) False) (apply_copies plan ws))))"

text \<open>
  What one rank does: \<open>status\<close> is the error rank 0 broadcasts. Only rank 0 touches parameters. The
  broadcast itself does not fail: a process group that breaks there leaves the loaded parameters and
  flags of rank 0 as they are.
\<close>

definition load_outcome :: "bool \<Rightarrow> exn option \<Rightarrow> bool result" where
  "load_outcome full err = (if \<not> full then Inr False else case err of None \<Rightarrow> Inr True
     | Some _ \<Rightarrow> Inl (RuntimeError ''Failed to load KT Full checkpoint''))"

definition load_full_weight_checkpoint ::
  "int \<Rightarrow> int \<Rightarrow> bool \<Rightarrow> exn option \<Rightarrow> nat option \<Rightarrow> 'a cdir \<Rightarrow> 'a ckw list \<Rightarrow> bool result \<times> 'a ckw list" where
  "load_full_weight_checkpoint rank world initialized status fault dir ws =
     (if filter cw_full ws = [] then (Inr False, ws)
      else if rank = 0 then
        (if \<not> cd_isfile dir index_name then (load_outcome True (Some (FileNotFoundError ''index'')), ws)
         else case load_rank0 fault dir ws of
                (Inl e, ws') \<Rightarrow> (load_outcome True (Some e), ws')
              | (Inr _, ws') \<Rightarrow> (load_outcome True None, ws'))
      else (load_outcome True (if world > 1 \<and> initialized then status else None), ws))"

end
