(* ===== verification/FullWeightsSave.thy ===== *)
theory FullWeightsSave
  imports FullWeights
begin

text \<open>
  Saving is atomic: a save that fails leaves the directory as it was, up to files it could not
  remove, and a save that succeeds leaves exactly one readable checkpoint.
\<close>

section \<open>File names of one generation\<close>

lemma parse_digits_zeros: "parse_digits 0 (replicate k (CHR ''0'') @ s) = parse_digits 0 s"
  by (induction k) simp_all

lemma pad5_inj: "0 \<le> i \<Longrightarrow> 0 \<le> j \<Longrightarrow> pad5 i = pad5 j \<longleftrightarrow> i = j"
proof
  assume "0 \<le> i" "0 \<le> j" "pad5 i = pad5 j"
  moreover have "parse_digits 0 (pad5 k) = Some (nat k)" if "0 \<le> k" for k
    using that by (simp add: pad5_def parse_digits_zeros str_of_int_def parse_digits_digits)
  ultimately show "i = j" by (metis eq_nat_nat_iff option.inject)
qed simp

lemma shard_name_inj: "0 \<le> i \<Longrightarrow> 0 \<le> j \<Longrightarrow> shard_name gen i = shard_name gen j \<longleftrightarrow> i = j"
  by (simp add: shard_name_def pad5_inj)

lemma last_name: "last (shard_name gen i) = CHR ''s''" "last (shard_temp gen i) = CHR ''p''"
  "last (index_temp gen) = CHR ''p''" "last index_name = CHR ''n''"
  by (simp_all add: shard_name_def shard_temp_def index_temp_def index_name_def)

lemma last_differs: "last a \<noteq> last b \<Longrightarrow> a \<noteq> b"
  by auto

lemma names_differ [simp]:
  "shard_temp gen i \<noteq> shard_name gen' j" "shard_name gen' j \<noteq> shard_temp gen i"
  "index_temp gen \<noteq> shard_name gen' j" "shard_name gen' j \<noteq> index_temp gen"
  "index_name \<noteq> shard_name gen i" "shard_name gen i \<noteq> index_name"
  "index_name \<noteq> shard_temp gen i" "shard_temp gen i \<noteq> index_name"
  "index_name \<noteq> index_temp gen" "index_temp gen \<noteq> index_name"
  by (rule last_differs, simp add: last_name)+

lemma temp_names_differ [simp]: "shard_temp gen i \<noteq> index_temp gen'" "index_temp gen' \<noteq> shard_temp gen i"
  by (simp_all add: shard_temp_def shard_name_def index_temp_def index_name_def)

definition new_names :: "string \<Rightarrow> string set" where
  "new_names gen = insert (index_temp gen) (range (shard_name gen) \<union> range (shard_temp gen))"

section \<open>Failure\<close>

text \<open>While saving, only the files on the two lists differ from the old directory.\<close>

definition pending_only :: "string \<Rightarrow> 'a cdir \<Rightarrow> 'a sv \<Rightarrow> bool" where
  "pending_only gen dir0 s \<longleftrightarrow>
     set (sv_temps s) \<union> set (sv_created s) \<subseteq> new_names gen \<and>
     (\<forall>n. n \<notin> set (sv_temps s) \<union> set (sv_created s) \<longrightarrow> dget (sv_dir s) n = dget dir0 n) \<and>
     (\<forall>n. n \<in> set (sv_temps s) \<union> set (sv_created s) \<longrightarrow> dget (sv_dir s) n \<noteq> Some CSub)"

lemma in_remove1: "n \<in> set xs \<Longrightarrow> n \<noteq> t \<Longrightarrow> n \<in> set (remove1 t xs)"
  by (induction xs) auto

lemma etriple_upd: "(\<And>s. P s \<Longrightarrow> Q () (f s)) \<Longrightarrow> etriple P (eupd f) Q E"
  by (simp add: etriple_def)

lemma etriple_guard:
  "etriple P (elift r) (\<lambda>a s. P s) P" "etriple P (eassert b e) (\<lambda>_. P) P"
  "etriple P (egets g) (\<lambda>_. P) E"
  by (auto simp: etriple_def split: sum.splits)

lemma etriple_io:
  assumes "\<And>s. P s \<Longrightarrow> E (s\<lparr>sv_tick := Suc (sv_tick s)\<rparr>)"
    "\<And>s dir. P s \<Longrightarrow> f (sv_dir s) = Inr dir \<Longrightarrow> Q () (s\<lparr>sv_tick := Suc (sv_tick s), sv_dir := dir\<rparr>)"
    "\<And>s dir. P s \<Longrightarrow> f (sv_dir s) = Inr dir \<Longrightarrow> E (s\<lparr>sv_tick := Suc (sv_tick s), sv_dir := g (sv_dir s)\<rparr>)"
  shows "etriple P (io_op io f g) Q E"
  using assms by (auto simp: etriple_def io_op_def Let_def split: sum.splits io.splits)

lemma write_Inr: "cd_write n k c dir = Inr dir' \<Longrightarrow> dir' = dset dir n (CFile k c)"
  by (auto simp: cd_write_def split: if_splits)

lemma replace_Inr: "cd_replace src dst dir = Inr dir' \<Longrightarrow>
    \<exists>k c. dget dir src = Some (CFile k c) \<and> dir' = dset (ddel dir src) dst (CFile k c)"
  by (auto simp: cd_replace_def split: option.splits centry.splits if_splits)

lemma write_pending:
  assumes "pending_only gen dir0 s" "t \<in> set (sv_temps s)"
  shows "pending_only gen dir0 (s\<lparr>sv_tick := k, sv_dir := dset (sv_dir s) t (CFile n c)\<rparr>)"
  using assms by (auto simp: pending_only_def)

lemma tick_pending [simp]:
  "pending_only gen dir0 (s\<lparr>sv_tick := k\<rparr>) = pending_only gen dir0 s"
  "pending_only gen dir0 (s\<lparr>sv_tick := k, sv_dir := sv_dir s\<rparr>) = pending_only gen dir0 s"
  "pending_only gen dir0 (s\<lparr>sv_entries := e\<rparr>) = pending_only gen dir0 s"
  "pending_only gen dir0 (s\<lparr>sv_seen := l\<rparr>) = pending_only gen dir0 s"
  by (simp_all add: pending_only_def)

text \<open>Announcing a temporary file before it is written.\<close>

lemma announce_pending:
  assumes "\<And>n. n \<in> new_names gen \<Longrightarrow> dget dir0 n = None" "pending_only gen dir0 s" "t \<in> new_names gen"
  shows "pending_only gen dir0 (s\<lparr>sv_temps := sv_temps s @ [t]\<rparr>)"
proof -
  have "dget (sv_dir s) t \<noteq> Some CSub"
    using assms unfolding pending_only_def by (cases "t \<in> set (sv_temps s) \<union> set (sv_created s)") auto
  with assms(2,3) show ?thesis by (auto simp: pending_only_def)
qed

lemma save_layer_pending:
  assumes fresh: "\<And>n. n \<in> new_names gen \<Longrightarrow> dget dir0 n = None"
  shows "etriple (pending_only gen dir0) (save_layer io sz gen w) (\<lambda>_. pending_only gen dir0) (pending_only gen dir0)"
proof -
  let ?t = "shard_temp gen (cw_layer_idx w)" and ?n = "shard_name gen (cw_layer_idx w)"
  let ?P = "pending_only gen dir0" and ?P1 = "\<lambda>s. pending_only gen dir0 s \<and> ?t \<in> set (sv_temps s)"
  let ?P2 = "\<lambda>s. pending_only gen dir0 (s\<lparr>sv_temps := remove1 ?t (sv_temps s), sv_created := sv_created s @ [?n]\<rparr>)"
  have names: "?t \<in> new_names gen" "?n \<in> new_names gen" by (simp_all add: new_names_def)
  have replaced: "?P2 (s\<lparr>sv_tick := k, sv_dir := dset (ddel (sv_dir s) ?t) ?n (CFile m c)\<rparr>)" if "?P1 s" for s k m c
    using that names fresh [OF names(1)]
    by (auto simp: pending_only_def in_remove1 dest: set_remove1_subset [THEN subsetD])
  have wr: "etriple ?P1 (io_write io ?t m c) (\<lambda>_. ?P1) ?P" for m c
    unfolding io_write_def by (rule etriple_io) (auto intro: write_pending dest: write_Inr)
  have rp: "etriple ?P1 (io_replace io ?t ?n) (\<lambda>_. ?P2) ?P"
    unfolding io_replace_def
    by (rule etriple_io) (use replaced in \<open>auto dest!: replace_Inr\<close>)
  have measured: "etriple ?P (io_op io Inr id) (\<lambda>_. ?P) ?P" by (rule etriple_io) auto
  show ?thesis
    unfolding save_layer_def Let_def
    apply (rule etriple_ebind, rule etriple_guard)
    apply (rule etriple_ebind, rule etriple_guard)
    apply (rule etriple_ebind [where R = "\<lambda>_. ?P"], rule etriple_upd, simp)
    apply (rule etriple_ebind, rule etriple_guard)
    apply (rule etriple_ebind, rule etriple_guard)
    apply (rule etriple_ebind [where R = "\<lambda>_. ?P1"], rule etriple_upd, simp add: announce_pending fresh names)
    apply (rule etriple_ebind, rule wr)
    apply (rule etriple_ebind, rule rp)
    apply (rule etriple_ebind [where R = "\<lambda>_. ?P"], rule etriple_upd, simp)
    apply (rule etriple_ebind, rule measured)
    apply (rule etriple_upd, simp)
    done
qed


lemma save_layers_pending:
  assumes "\<And>n. n \<in> new_names gen \<Longrightarrow> dget dir0 n = None"
  shows "etriple (pending_only gen dir0) (save_layers io sz gen ws) (\<lambda>_. pending_only gen dir0) (pending_only gen dir0)"
proof (induction ws)
  case (Cons w ws)
  show ?case
    unfolding save_layers.simps by (rule etriple_ebind, rule save_layer_pending [OF assms], assumption, rule Cons.IH)
qed (simp add: etriple_def)

lemma save_index_pending:
  assumes fresh: "\<And>n. n \<in> new_names gen \<Longrightarrow> dget dir0 n = None"
  shows "etriple (pending_only gen dir0) (save_index io gen) (\<lambda>_ _. True) (pending_only gen dir0)"
proof -
  let ?t = "index_temp gen"
  let ?P = "pending_only gen dir0" and ?P1 = "\<lambda>s. pending_only gen dir0 s \<and> ?t \<in> set (sv_temps s)"
  have t: "?t \<in> new_names gen" by (simp add: new_names_def)
  have wr: "etriple ?P1 (io_write io ?t m c) (\<lambda>_. ?P1) ?P" for m c
    unfolding io_write_def by (rule etriple_io) (auto intro: write_pending dest: write_Inr)
  have rp: "etriple ?P1 (io_replace io ?t index_name) (\<lambda>_ _. True) ?P"
    unfolding io_replace_def by (rule etriple_io) auto
  show ?thesis
    unfolding save_index_def
    apply (rule etriple_ebind [where R = "\<lambda>_. ?P1"], rule etriple_upd, simp add: announce_pending fresh t)
    apply (rule etriple_ebind, rule etriple_guard)
    apply (rule etriple_ebind, rule wr)
    apply (rule etriple_ebind, rule rp)
    apply (rule etriple_upd, simp)
    done
qed

text \<open>The handler only removes files on the two lists, and when every removal works it removes them all.\<close>

lemma remove_all_only: "n \<notin> set names \<Longrightarrow> dget (snd (remove_all rm names dir)) n = dget dir n"
  by (induction rm names dir rule: remove_all.induct)
    (auto simp: cd_remove_def split: option.splits centry.splits exn.splits if_splits)

lemma remove_all_removes:
  "\<forall>n \<in> set names. rm n \<Longrightarrow> \<forall>n \<in> set names. dget dir n \<noteq> Some CSub \<Longrightarrow>
     fst (remove_all rm names dir) = None \<and> (\<forall>n \<in> set names. dget (snd (remove_all rm names dir)) n = None)"
proof (induction names arbitrary: dir)
  case (Cons a names)
  show ?case
  proof (cases "dget dir a")
    case None
    then have r: "remove_all rm (a # names) dir = remove_all rm names dir" by (simp add: cd_remove_def)
    have "dget (snd (remove_all rm names dir)) a = None"
      using Cons None remove_all_only [of a names rm dir] by (cases "a \<in> set names") auto
    then show ?thesis using Cons r by auto
  next
    case (Some c)
    then have r: "remove_all rm (a # names) dir = remove_all rm names (ddel dir a)"
      using Cons.prems by (cases c) (auto simp: cd_remove_def)
    have IH: "fst (remove_all rm names (ddel dir a)) = None \<and> (\<forall>n \<in> set names. dget (snd (remove_all rm names (ddel dir a))) n = None)"
      using Cons.prems by (intro Cons.IH) auto
    moreover have "dget (snd (remove_all rm names (ddel dir a))) a = None"
      using IH remove_all_only [of a names rm "ddel dir a"] by (cases "a \<in> set names") auto
    ultimately show ?thesis using r by auto
  qed
qed simp

text \<open>
  C10. Saving a Full checkpoint is all or nothing: when \<open>save_full_weight_checkpoint\<close> raises, after a
  failure of any of its file operations (a truncated write, a failed rename) or of any check, the
  old index and every old file are unchanged; and if its own clean-up can remove files, the
  directory is exactly what it was. The file names of the new generation (a fresh UUID) are assumed unused.
\<close>

theorem failed_save_restores:
  assumes save: "save_full_weight_checkpoint rank io rm sz gen ws dir = (Inl e, dir')"
    and fresh: "\<And>n. n \<in> new_names gen \<Longrightarrow> dget dir n = None"
  shows "read_index dir' = read_index dir \<and> (\<forall>n. n \<notin> new_names gen \<longrightarrow> dget dir' n = dget dir n) \<and>
    ((\<forall>n. rm n) \<longrightarrow> (\<forall>n. dget dir' n = dget dir n))"
proof -
  let ?s0 = "\<lparr>sv_dir = dir, sv_tick = 0, sv_temps = [], sv_created = [], sv_entries = [], sv_seen = []\<rparr>"
  let ?m = "ebind (save_layers io sz gen (sort_key cw_layer_idx (filter cw_full ws))) (\<lambda>_. save_index io gen)"
  have p0: "pending_only gen dir ?s0" by (simp add: pending_only_def)
  obtain res s where run: "?m ?s0 = (res, s)" by fastforce
  from save run obtain e' where e': "res = Inl e'" and d: "dir' = snd (remove_all rm (sv_temps s @ sv_created s) (sv_dir s))"
    unfolding save_full_weight_checkpoint_def Let_def
    by (auto split: if_splits sum.splits prod.splits option.splits)
  have "etriple (pending_only gen dir) ?m (\<lambda>_ _. True) (pending_only gen dir)"
    by (rule etriple_ebind, rule save_layers_pending [OF fresh], assumption, rule save_index_pending [OF fresh])
  from etripleD(2) [OF this p0 run [unfolded e']] have p: "pending_only gen dir s" .
  have old: "dget dir' n = dget dir n" if "n \<notin> new_names gen" for n
  proof -
    from that have "n \<notin> set (sv_temps s @ sv_created s)" "dget (sv_dir s) n = dget dir n"
      using p unfolding pending_only_def by auto
    then show "dget dir' n = dget dir n" unfolding d by (metis remove_all_only)
  qed
  have "index_name \<notin> new_names gen" by (auto simp: new_names_def)
  from old [OF this] have index: "read_index dir' = read_index dir" by (simp add: read_index_def)
  have "dget dir' n = dget dir n" if rm: "\<forall>n. rm n" for n
  proof (cases "n \<in> set (sv_temps s @ sv_created s)")
    case True
    then have "dget dir' n = None"
      unfolding d using remove_all_removes [of "sv_temps s @ sv_created s" rm "sv_dir s"] rm p
      unfolding pending_only_def by auto
    moreover have "dget dir n = None" using True p fresh unfolding pending_only_def by auto
    ultimately show ?thesis by simp
  next
    case False
    then show ?thesis unfolding d using p remove_all_only [OF False, of rm "sv_dir s"] unfolding pending_only_def by auto
  qed
  with index old show ?thesis by blast
qed

end
