(* ===== verification/FullWeightsLoad.thy ===== *)
theory FullWeightsLoad
  imports FullWeightsSave
begin

text \<open>
  A save that succeeds can be loaded: the index names shards of its own generation that hold the
  tensors of the wrappers, every check of the loader passes on them, and wrappers with the same
  layers and shapes receive exactly the saved tensors.
\<close>

section \<open>What a successful save leaves\<close>

lemma io_op_Inr: "io_op io f g s = (Inr u, s') \<longleftrightarrow>
    (\<exists>dir. f (sv_dir s) = Inr dir \<and> io (sv_tick s) = Done \<and> s' = s\<lparr>sv_tick := Suc (sv_tick s), sv_dir := dir\<rparr>)"
  by (auto simp: io_op_def Let_def split: sum.splits io.splits)

definition params_of :: "'a ckw \<Rightarrow> (string, 'a param) dict" where
  "params_of w = (case backend_parameters w of Inl _ \<Rightarrow> [] | Inr ps \<Rightarrow> ps)"

definition shard_of :: "string \<Rightarrow> 'a ckw \<Rightarrow> 'a shard" where
  "shard_of gen w = layer_shard gen (cw_layer_idx w) (params_of w)"

definition valid_wrapper :: "'a ckw \<Rightarrow> bool" where
  "valid_wrapper w \<longleftrightarrow> is_ok (rbind (backend_parameters w) (validate_parameter_set w))"

lemma valid_wrapper_iff: "valid_wrapper w \<longleftrightarrow>
    backend_parameters w = Inr (params_of w) \<and> validate_parameter_set w (params_of w) = Inr ()"
  by (cases "backend_parameters w") (auto simp: valid_wrapper_def params_of_def is_ok_iff)

lemma save_layer_Inr:
  assumes "save_layer io sz gen w s = (Inr u, s')"
  shows "0 \<le> cw_layer_idx w \<and> cw_layer_idx w \<notin> set (sv_seen s) \<and> valid_wrapper w \<and>
    sv_seen s' = cw_layer_idx w # sv_seen s \<and> sv_created s' = sv_created s @ [shard_name gen (cw_layer_idx w)] \<and>
    (\<forall>n. dget (sv_dir s') n =
      (if n = shard_name gen (cw_layer_idx w) then Some (CFile (sz (shard_of gen w)) (ShardData (shard_of gen w)))
       else if n = shard_temp gen (cw_layer_idx w) then None else dget (sv_dir s) n)) \<and>
    sv_entries s' = dset (sv_entries s) (str_of_int (cw_layer_idx w))
      (layer_entry gen (cw_layer_idx w) (sz (shard_of gen w)) (params_of w))"
proof -
  obtain ps where ps: "backend_parameters w = Inr ps" "validate_parameter_set w ps = Inr ()"
    using assms by (auto simp: save_layer_def Let_def ebind_eq_Inr)
  then have po: "params_of w = ps" by (simp add: params_of_def)
  show ?thesis
    using assms ps unfolding save_layer_def Let_def ebind_eq_Inr io_write_def io_replace_def io_op_Inr
    by (auto simp: po shard_of_def valid_wrapper_iff cd_size_def split: if_splits dest!: write_Inr replace_Inr)
qed

definition entry_of :: "('a shard \<Rightarrow> int) \<Rightarrow> string \<Rightarrow> 'a ckw \<Rightarrow> string \<times> jentry" where
  "entry_of sz gen w = (str_of_int (cw_layer_idx w), layer_entry gen (cw_layer_idx w) (sz (shard_of gen w)) (params_of w))"

definition shards_saved :: "('a shard \<Rightarrow> int) \<Rightarrow> string \<Rightarrow> 'a ckw list \<Rightarrow> 'a sv \<Rightarrow> bool" where
  "shards_saved sz gen ws s \<longleftrightarrow>
     distinct (map cw_layer_idx ws) \<and> set (sv_seen s) = set (map cw_layer_idx ws) \<and>
     sv_created s = map (shard_name gen \<circ> cw_layer_idx) ws \<and> sv_entries s = map (entry_of sz gen) ws \<and>
     (\<forall>w \<in> set ws. 0 \<le> cw_layer_idx w \<and> valid_wrapper w \<and> dget (sv_dir s) (shard_name gen (cw_layer_idx w)) =
        Some (CFile (sz (shard_of gen w)) (ShardData (shard_of gen w))))"

declare str_of_int_inj [simp]

lemma save_layer_saved:
  assumes s: "shards_saved sz gen ws s" and run: "save_layer io sz gen w s = (Inr u, s')"
  shows "shards_saved sz gen (ws @ [w]) s'"
proof -
  note r = save_layer_Inr [OF run]
  have "\<not> dmem (sv_entries s) (str_of_int (cw_layer_idx w))"
    using s r by (force simp: shards_saved_def dmem_iff dkeys_def entry_of_def)
  then have "sv_entries s' = map (entry_of sz gen) (ws @ [w])"
    using s r by (simp add: dset_fresh shards_saved_def entry_of_def)
  moreover have "cw_layer_idx w \<notin> set (map cw_layer_idx ws)" using s r unfolding shards_saved_def by metis
  moreover have "dget (sv_dir s') (shard_name gen (cw_layer_idx x)) =
      Some (CFile (sz (shard_of gen x)) (ShardData (shard_of gen x)))" if "x \<in> set ws" for x
  proof -
    have x: "0 \<le> cw_layer_idx x" "cw_layer_idx x \<noteq> cw_layer_idx w"
      "dget (sv_dir s) (shard_name gen (cw_layer_idx x)) = Some (CFile (sz (shard_of gen x)) (ShardData (shard_of gen x)))"
      using s that \<open>cw_layer_idx w \<notin> _\<close> by (auto simp: shards_saved_def) (metis imageI)
    then show ?thesis using r shard_name_inj [of "cw_layer_idx x" "cw_layer_idx w" gen] by simp
  qed
  ultimately show ?thesis using s r by (simp add: shards_saved_def)
qed

lemma save_layers_saved:
  "shards_saved sz gen ws0 s \<Longrightarrow> save_layers io sz gen ws s = (Inr u, s') \<Longrightarrow> shards_saved sz gen (ws0 @ ws) s'"
proof (induction ws arbitrary: ws0 s)
  case (Cons w ws)
  then obtain s1 where s1: "save_layer io sz gen w s = (Inr (), s1)" "save_layers io sz gen ws s1 = (Inr u, s')"
    by (auto simp: ebind_eq_Inr)
  from Cons.IH [OF save_layer_saved [OF Cons.prems(1) s1(1)] s1(2)] show ?case by simp
qed simp

text \<open>The directory of a committed checkpoint.\<close>

definition committed :: "('a shard \<Rightarrow> int) \<Rightarrow> string \<Rightarrow> 'a ckw list \<Rightarrow> 'a cdir \<Rightarrow> bool" where
  "committed sz gen ws dir \<longleftrightarrow>
     distinct (map cw_layer_idx ws) \<and>
     dget dir index_name = Some (CFile 1 (IndexData (new_index gen (map (entry_of sz gen) ws)))) \<and>
     (\<forall>w \<in> set ws. 0 \<le> cw_layer_idx w \<and> valid_wrapper w \<and> dget dir (shard_name gen (cw_layer_idx w)) =
        Some (CFile (sz (shard_of gen w)) (ShardData (shard_of gen w))))"

lemma save_index_committed:
  assumes "shards_saved sz gen ws s" "save_index io gen s = (Inr u, s')"
  shows "committed sz gen ws (sv_dir s') \<and> sv_created s' = map (shard_name gen \<circ> cw_layer_idx) ws"
proof -
  have "sv_created s' = sv_created s" and "dget (sv_dir s') n =
      (if n = index_name then Some (CFile 1 (IndexData (new_index gen (sv_entries s))))
       else if n = index_temp gen then None else dget (sv_dir s) n)" for n
    using assms(2) unfolding save_index_def ebind_eq_Inr io_write_def io_replace_def io_op_Inr
    by (auto split: if_splits dest!: write_Inr replace_Inr)
  then show ?thesis using assms(1) by (simp add: shards_saved_def committed_def)
qed

lemma drop_superseded_keeps:
  "n \<in> set created \<or> (\<forall>l. e = JLayer l \<longrightarrow> jl_file l \<noteq> Some n) \<Longrightarrow>
     dget (drop_superseded rm created e dir) n = dget dir n"
  by (cases e) (auto simp: drop_superseded_def safe_shard_path_def cd_remove_def
      split: sum.splits option.splits centry.splits if_splits)

lemma fold_drop_keeps:
  "n \<in> set created \<or> (\<forall>l. JLayer l \<in> set es \<longrightarrow> jl_file l \<noteq> Some n) \<Longrightarrow>
     dget (fold (drop_superseded rm created) es dir) n = dget dir n"
  by (induction es arbitrary: dir) (auto simp: drop_superseded_keeps)

lemma save_commits:
  assumes save: "save_full_weight_checkpoint rank io rm sz gen ws dir = (Inr True, dir')"
    and prev: "\<And>l. JLayer l \<in> set (previous_entries dir) \<Longrightarrow> jl_file l \<noteq> Some index_name"
  shows "committed sz gen (sort_key cw_layer_idx (filter cw_full ws)) dir'"
proof -
  let ?s0 = "\<lparr>sv_dir = dir, sv_tick = 0, sv_temps = [], sv_created = [], sv_entries = [], sv_seen = []\<rparr>"
  let ?ws = "sort_key cw_layer_idx (filter cw_full ws)"
  obtain s where run: "ebind (save_layers io sz gen ?ws) (\<lambda>_. save_index io gen) ?s0 = (Inr (), s)"
    and d: "dir' = fold (drop_superseded rm (sv_created s)) (previous_entries dir) (sv_dir s)"
    using save unfolding save_full_weight_checkpoint_def Let_def
    by (auto split: if_splits sum.splits prod.splits option.splits)
  obtain s1 where s1: "save_layers io sz gen ?ws ?s0 = (Inr (), s1)" "save_index io gen s1 = (Inr (), s)"
    using run by (auto simp: ebind_eq_Inr)
  have "shards_saved sz gen [] ?s0" by (simp add: shards_saved_def)
  from save_layers_saved [OF this s1(1)] have "shards_saved sz gen ?ws s1" by simp
  from save_index_committed [OF this s1(2)]
  have c: "committed sz gen ?ws (sv_dir s)" "sv_created s = map (shard_name gen \<circ> cw_layer_idx) ?ws" by simp_all
  have "dget dir' index_name = dget (sv_dir s) index_name"
    unfolding d by (rule fold_drop_keeps) (use prev in blast)
  moreover have "dget dir' (shard_name gen (cw_layer_idx w)) = dget (sv_dir s) (shard_name gen (cw_layer_idx w))"
    if "w \<in> set ?ws" for w
    unfolding d by (rule fold_drop_keeps) (use that c(2) in auto)
  ultimately show ?thesis using c(1) unfolding committed_def by simp
qed


section \<open>Every check of the loader passes\<close>

lemma valid_wrapper_params:
  assumes "valid_wrapper w"
  obtains g u d where "params_of w = [(''gate_proj'', g), (''up_proj'', u), (''down_proj'', d)]"
    "tn_shape (pm_tensor g) = [cw_expert_num w, cw_intermediate_size w, cw_hidden_size w]"
    "tn_shape (pm_tensor u) = [cw_expert_num w, cw_intermediate_size w, cw_hidden_size w]"
    "tn_shape (pm_tensor d) = [cw_expert_num w, cw_hidden_size w, cw_intermediate_size w]"
    "tn_dtype (pm_tensor g) = dtype_name" "tn_dtype (pm_tensor u) = dtype_name" "tn_dtype (pm_tensor d) = dtype_name"
proof -
  have v: "backend_parameters w = Inr (params_of w)" "validate_parameter_set w (params_of w) = Inr ()"
    using assms by (simp_all add: valid_wrapper_iff)
  then obtain g u d where p: "params_of w = [(''gate_proj'', g), (''up_proj'', u), (''down_proj'', d)]"
    by (auto simp: backend_parameters_def projection_names_def split: option.splits) metis
  show ?thesis
    by (rule that [OF p]) (use v(2) in \<open>simp_all add: p validate_parameter_set_def expected_shapes_def\<close>)
qed

text \<open>\<open>uuid.uuid4().hex\<close> is not empty and has no slash.\<close>

definition valid_generation :: "string \<Rightarrow> bool" where
  "valid_generation gen \<longleftrightarrow> gen \<noteq> [] \<and> CHR ''/'' \<notin> set gen"

lemma shard_name_safe: "valid_generation gen \<Longrightarrow> CHR ''/'' \<notin> set (shard_name gen i)"
proof -
  assume g: "valid_generation gen"
  have "CHR ''/'' \<notin> set (digits n)" for n
    using digits_are_digits [of n] by (auto simp: less_eq_char_def)
  then have "CHR ''/'' \<notin> set (pad5 i)" by (auto simp: pad5_def str_of_int_def)
  with g show ?thesis by (simp add: shard_name_def valid_generation_def)
qed

text \<open>Two wrappers of the same layer and shapes, one saved and one to be loaded.\<close>

lemma inspect_saved:
  assumes v: "valid_wrapper w" and f: "dget dir (shard_name gen i) = Some (CFile n (ShardData (shard_of gen w)))"
    and i: "i = cw_layer_idx w" and n: "0 < n" and gen: "valid_generation gen" and sh: "expected_shapes w' = expected_shapes w"
  shows "inspect_layer_shard dir i (layer_entry gen i n (params_of w)) (expected_shapes w') gen = Inr (shard_name gen i)"
proof -
  obtain g u d where p: "params_of w = [(''gate_proj'', g), (''up_proj'', u), (''down_proj'', d)]"
    "tn_shape (pm_tensor g) = [cw_expert_num w, cw_intermediate_size w, cw_hidden_size w]"
    "tn_shape (pm_tensor u) = [cw_expert_num w, cw_intermediate_size w, cw_hidden_size w]"
    "tn_shape (pm_tensor d) = [cw_expert_num w, cw_hidden_size w, cw_intermediate_size w]"
    "tn_dtype (pm_tensor g) = dtype_name" "tn_dtype (pm_tensor u) = dtype_name" "tn_dtype (pm_tensor d) = dtype_name"
    by (rule valid_wrapper_params [OF v])
  have safe: "safe_shard_path (Some (shard_name gen i)) = Inr (shard_name gen i)"
    using shard_name_safe [OF gen] by (simp add: safe_shard_path_def) (simp add: shard_name_def)
  have chk: "check_shard i (expected_shapes w') gen (shard_of gen w) = Inr ()"
    unfolding check_shard_def shard_of_def layer_shard_def sh i
    by (simp add: p projection_names_def expected_shapes_def Let_def checkpoint_format_def)
  have shapes: "dict_eq (map (\<lambda>name. (name, tn_shape (pm_tensor (the (dget (params_of w) name))))) projection_names)
      (map (\<lambda>n. (n, the (dget (expected_shapes w') n))) projection_names)"
    unfolding sh by (simp add: p projection_names_def expected_shapes_def dict_eq_def)
  have "cd_isfile dir (shard_name gen i)" "cd_size dir (shard_name gen i) = n"
    using f by (simp_all add: cd_isfile_def cd_size_def)
  then show ?thesis
    using shapes safe n f chk by (simp add: inspect_layer_shard_def layer_entry_def)
qed


lemma index_layers_saved:
  "\<forall>i \<in> set is. 0 \<le> i \<Longrightarrow> distinct is \<Longrightarrow> set is \<inter> set saved = {} \<Longrightarrow>
     index_layers (map str_of_int is) saved = Inr (rev is @ saved)"
  by (induction "is" arbitrary: saved) (auto simp: parse_str_of_int)

lemma check_wrappers_valid:
  "\<forall>w \<in> set ws. valid_wrapper w \<Longrightarrow> distinct (map cw_layer_idx ws) \<Longrightarrow> cw_layer_idx ` set ws \<inter> set seen = {} \<Longrightarrow>
     check_wrappers ws seen = Inr ()"
  by (induction ws arbitrary: seen) (auto simp: valid_wrapper_iff)

text \<open>Wrappers \<open>ws'\<close> that can take over the parameters of \<open>ws\<close>.\<close>

definition same_layout :: "'a ckw list \<Rightarrow> 'a ckw list \<Rightarrow> bool" where
  "same_layout ws ws' \<longleftrightarrow>
     distinct (map cw_layer_idx (filter cw_full ws')) \<and>
     set (map cw_layer_idx (filter cw_full ws')) = set (map cw_layer_idx (filter cw_full ws)) \<and>
     (\<forall>w' \<in> set (filter cw_full ws'). valid_wrapper w' \<and>
        (\<forall>w \<in> set (filter cw_full ws). cw_layer_idx w = cw_layer_idx w' \<longrightarrow> expected_shapes w' = expected_shapes w))"

lemma entry_lookup:
  "distinct (map cw_layer_idx ws) \<Longrightarrow> w \<in> set ws \<Longrightarrow>
     dget (map (entry_of sz gen) ws) (str_of_int (cw_layer_idx w)) =
       Some (layer_entry gen (cw_layer_idx w) (sz (shard_of gen w)) (params_of w))"
  by (induction ws) (auto simp: entry_of_def)

lemma inspect_layers_saved:
  assumes c: "committed sz gen ws dir" and sz: "\<And>s. 0 < sz s" and gen: "valid_generation gen"
    and tw: "\<forall>w' \<in> set ws'. \<exists>w \<in> set ws. cw_layer_idx w = cw_layer_idx w' \<and> expected_shapes w' = expected_shapes w"
  shows "inspect_layers dir (new_index gen (map (entry_of sz gen) ws)) ws' =
    Inr (map (\<lambda>w'. (cw_layer_idx w', shard_name gen (cw_layer_idx w'))) ws')"
  using tw
proof (induction ws')
  case (Cons w' ws')
  obtain w where w: "w \<in> set ws" "cw_layer_idx w = cw_layer_idx w'" "expected_shapes w' = expected_shapes w"
    using Cons.prems by auto
  have d: "distinct (map cw_layer_idx ws)" using c by (simp add: committed_def)
  have s: "valid_wrapper w" "dget dir (shard_name gen (cw_layer_idx w)) = Some (CFile (sz (shard_of gen w)) (ShardData (shard_of gen w)))"
    using c w(1) by (auto simp: committed_def)
  have "inspect_layer_shard dir (cw_layer_idx w) (layer_entry gen (cw_layer_idx w) (sz (shard_of gen w)) (params_of w))
      (expected_shapes w') gen = Inr (shard_name gen (cw_layer_idx w))"
    by (rule inspect_saved [OF s refl sz gen w(3)])
  with Cons entry_lookup [OF d w(1), of sz gen] show ?case
    by (simp add: new_index_def w(2))
qed simp

section \<open>The copies\<close>

lemma set_param_frame [simp]: "cw_full (set_param i n t w) = cw_full w" "cw_layer_idx (set_param i n t w) = cw_layer_idx w"
  by (simp_all add: set_param_def)

lemma apply_copies_map: "apply_copies plan ws = map (fold (\<lambda>(i, n, t). set_param i n t) plan) ws"
  unfolding apply_copies_def by (induction plan arbitrary: ws) (simp_all add: case_prod_unfold)

lemma fold_other_layer:
  "\<forall>x \<in> set plan. fst x \<noteq> cw_layer_idx w \<Longrightarrow> fold (\<lambda>(i, n, t). set_param i n t) plan w = w"
  by (induction plan) (auto simp: set_param_def)

lemma fold_frame:
  "cw_layer_idx (fold (\<lambda>(i, n, t). set_param i n t) plan w) = cw_layer_idx w"
  "cw_full (fold (\<lambda>(i, n, t). set_param i n t) plan w) = cw_full w"
  by (induction plan arbitrary: w) (simp_all add: case_prod_unfold)

lemma fold_own_layer:
  assumes "distinct js" "\<And>j x. j \<in> set js \<Longrightarrow> x \<in> set (f j) \<Longrightarrow> fst x = j" "cw_layer_idx w \<in> set js"
  shows "fold (\<lambda>(i, n, t). set_param i n t) (concat (map f js)) w =
    fold (\<lambda>(i, n, t). set_param i n t) (f (cw_layer_idx w)) w"
  using assms
proof (induction js arbitrary: w)
  case (Cons j js)
  show ?case
  proof (cases "j = cw_layer_idx w")
    case True
    let ?v = "fold (\<lambda>(i, n, t). set_param i n t) (f j) w"
    have "fold (\<lambda>(i, n, t). set_param i n t) (concat (map f js)) ?v = ?v"
      by (rule fold_other_layer) (use Cons.prems True in \<open>force simp: fold_frame\<close>)
    then show ?thesis using True by simp
  next
    case False
    then have "fold (\<lambda>(i, n, t). set_param i n t) (f j) w = w"
      using Cons.prems(2) [of j] by (intro fold_other_layer) auto
    with False Cons show ?thesis by simp
  qed
qed simp

definition expert_tensors :: "'a ckw \<Rightarrow> (string \<times> 'a tensor) list" where
  "expert_tensors w = map (\<lambda>(n, p). (n, pm_tensor p)) (params_of w)"

lemma dget_map_val: "dget (map (\<lambda>(n, p). (n, h n p)) d) k = map_option (h k) (dget d k)"
  by (induction d) auto

text \<open>Copying the three projections of its layer into a valid wrapper.\<close>

lemma copy_three:
  assumes full: "cw_full w" and v: "valid_wrapper w"
  shows "expert_tensors (fold (\<lambda>(i, n, t). set_param i n t)
      (map (\<lambda>n. (cw_layer_idx w, n, T n)) projection_names) w) = map (\<lambda>n. (n, T n)) projection_names"
proof -
  obtain b where b: "cw_backend w = Some b" and c: "collect_params (bk_bufs b) projection_names = Inr (params_of w)"
    using v by (auto simp: valid_wrapper_iff backend_parameters_def split: option.splits)
  obtain g u d where "dget (bk_bufs b) ''gate_proj'' = Some g" "dget (bk_bufs b) ''up_proj'' = Some u"
    "dget (bk_bufs b) ''down_proj'' = Some d"
    using c by (auto simp: projection_names_def split: option.splits)
  then show ?thesis
    using full b by (simp add: expert_tensors_def params_of_def backend_parameters_def projection_names_def set_param_def
        dget_map_val del: map_map)
qed


lemma set_flags_frame [simp]:
  "cw_full (set_flags x y w) = cw_full w" "cw_layer_idx (set_flags x y w) = cw_layer_idx w"
  "params_of (set_flags x y w) = params_of w"
  by (auto simp: set_flags_def params_of_def backend_parameters_def split: option.splits)

lemma valid_backend: "valid_wrapper w \<Longrightarrow> cw_backend w \<noteq> None"
  by (cases "cw_backend w") (auto simp: valid_wrapper_iff backend_parameters_def)

lemma set_param_backend [simp]: "cw_backend (set_param i n t w) = None \<longleftrightarrow> cw_backend w = None"
  by (simp add: set_param_def)

lemma backend_kept: "cw_backend (fold (\<lambda>(i, n, t). set_param i n t) plan w) = None \<longleftrightarrow> cw_backend w = None"
  by (induction plan arbitrary: w) (simp_all add: case_prod_unfold)

lemma dget_keyed: "i \<in> set is \<Longrightarrow> dget (map (\<lambda>i. (i, g i)) is) i = Some (g i)"
  by (induction "is") auto

lemma load_committed:
  assumes c: "committed sz gen (sort_key cw_layer_idx (filter cw_full ws)) dir"
    and gen: "valid_generation gen" and sz: "\<And>s. 0 < sz s" and lay: "same_layout ws ws'"
  defines "plan \<equiv> copy_plan dir (map (\<lambda>w'. (cw_layer_idx w', shard_name gen (cw_layer_idx w'))) (filter cw_full ws'))"
  shows "load_rank0 None dir ws' =
      (Inr (length (filter cw_full ws')), map (set_flags (Some True) False) (apply_copies plan ws'))"
    "w \<in> set (filter cw_full ws) \<Longrightarrow> w' \<in> set (filter cw_full ws') \<Longrightarrow> cw_layer_idx w' = cw_layer_idx w \<Longrightarrow>
      expert_tensors (fold (\<lambda>(i, n, t). set_param i n t) plan w') = expert_tensors w"
proof -
  let ?ws = "sort_key cw_layer_idx (filter cw_full ws)" and ?full = "filter cw_full ws'"
  let ?d = "new_index gen (map (entry_of sz gen) ?ws)"
  have ws: "set ?ws = set (filter cw_full ws)" by simp
  have lay': "distinct (map cw_layer_idx ?full)" "set (map cw_layer_idx ?full) = set (map cw_layer_idx ?ws)"
    "\<forall>w' \<in> set ?full. valid_wrapper w'"
    "\<forall>w' \<in> set ?full. \<exists>w \<in> set ?ws. cw_layer_idx w = cw_layer_idx w' \<and> expected_shapes w' = expected_shapes w"
  proof -
    show "distinct (map cw_layer_idx ?full)" "\<forall>w' \<in> set ?full. valid_wrapper w'"
      using lay unfolding same_layout_def by blast+
    have eq: "set (map cw_layer_idx ?full) = set (map cw_layer_idx (filter cw_full ws))"
      using lay unfolding same_layout_def by blast
    then show "set (map cw_layer_idx ?full) = set (map cw_layer_idx ?ws)" by simp
    show "\<forall>w' \<in> set ?full. \<exists>w \<in> set ?ws. cw_layer_idx w = cw_layer_idx w' \<and> expected_shapes w' = expected_shapes w"
    proof
      fix w' assume w': "w' \<in> set ?full"
      then have "cw_layer_idx w' \<in> set (map cw_layer_idx (filter cw_full ws))" using eq by (metis imageI list.set_map)
      then obtain w where w: "w \<in> set (filter cw_full ws)" "cw_layer_idx w = cw_layer_idx w'" by auto
      moreover have "expected_shapes w' = expected_shapes w" using lay w w' unfolding same_layout_def by blast
      ultimately show "\<exists>w \<in> set ?ws. cw_layer_idx w = cw_layer_idx w' \<and> expected_shapes w' = expected_shapes w"
        unfolding ws by blast
    qed
  qed
  have cm: "distinct (map cw_layer_idx ?ws)" "dget dir index_name = Some (CFile 1 (IndexData ?d))"
    "\<forall>w \<in> set ?ws. 0 \<le> cw_layer_idx w \<and> valid_wrapper w \<and>
       dget dir (shard_name gen (cw_layer_idx w)) = Some (CFile (sz (shard_of gen w)) (ShardData (shard_of gen w)))"
    using c unfolding committed_def by blast+
  have "read_index dir = Inr ?d"
    using cm(2) gen by (simp add: read_index_def new_index_def valid_generation_def)
  moreover have "check_wrappers ?full [] = Inr ()"
    by (rule check_wrappers_valid) (use lay' in auto)
  moreover have "dkeys (the (ix_layers ?d)) = map str_of_int (map cw_layer_idx ?ws)"
    by (simp add: new_index_def dkeys_def entry_of_def)
  moreover have "index_layers (map str_of_int (map cw_layer_idx ?ws)) [] = Inr (rev (map cw_layer_idx ?ws) @ [])"
    by (rule index_layers_saved) (use cm(1,3) in auto)
  moreover have "set (rev (map cw_layer_idx ?ws) @ []) = set (map cw_layer_idx ?full)" using lay'(2) by simp
  moreover note inspect_layers_saved [OF c sz gen lay'(4)]
  ultimately show "load_rank0 None dir ws' =
      (Inr (length ?full), map (set_flags (Some True) False) (apply_copies plan ws'))"
    unfolding load_rank0_def Let_def plan_def by simp
  show "expert_tensors (fold (\<lambda>(i, n, t). set_param i n t) plan w') = expert_tensors w"
    if w: "w \<in> set (filter cw_full ws)" and w': "w' \<in> set ?full" and eq: "cw_layer_idx w' = cw_layer_idx w"
  proof -
    let ?shards = "map (\<lambda>w'. (cw_layer_idx w', shard_name gen (cw_layer_idx w'))) ?full"
    let ?f = "\<lambda>i. map (\<lambda>n. (i, n, the (dget (sh_tensors (shard_at dir (the (dget ?shards i)))) n))) projection_names"
    have keys: "dkeys ?shards = map cw_layer_idx ?full" by (simp add: dkeys_def)
    have mem: "cw_layer_idx w' \<in> set (map cw_layer_idx ?full)" using w' by simp
    have "dget ?shards (cw_layer_idx w') = Some (shard_name gen (cw_layer_idx w'))"
      using dget_keyed [OF mem, of "shard_name gen"] by (simp add: comp_def)
    moreover have "shard_at dir (shard_name gen (cw_layer_idx w')) = shard_of gen w"
      using cm(3) w eq ws by (simp add: shard_at_def)
    ultimately have f: "?f (cw_layer_idx w') = map (\<lambda>n. (cw_layer_idx w', n, the (dget (sh_tensors (shard_of gen w)) n))) projection_names"
      by simp
    have "fold (\<lambda>(i, n, t). set_param i n t) plan w' = fold (\<lambda>(i, n, t). set_param i n t) (?f (cw_layer_idx w')) w'"
      unfolding plan_def copy_plan_def keys
      by (rule fold_own_layer) (use lay'(1) mem in auto)
    then have "expert_tensors (fold (\<lambda>(i, n, t). set_param i n t) plan w') =
        map (\<lambda>n. (n, the (dget (sh_tensors (shard_of gen w)) n))) projection_names"
      unfolding f using copy_three [of w'] w' lay'(3) by simp
    moreover have "valid_wrapper w" using cm(3) w ws by blast
    then obtain g u d where "params_of w = [(''gate_proj'', g), (''up_proj'', u), (''down_proj'', d)]"
      by (rule valid_wrapper_params)
    ultimately show ?thesis
      by (simp add: shard_of_def layer_shard_def expert_tensors_def projection_names_def)
  qed
qed

section \<open>Claims\<close>

definition names_index :: "jentry \<Rightarrow> bool" where
  "names_index e = (case e of JLayer l \<Rightarrow> jl_file l = Some index_name | JNotDict \<Rightarrow> False)"

text \<open>
  C9. A checkpoint that is saved can be loaded: after \<open>save_full_weight_checkpoint\<close> returns on rank
  0, \<open>load_full_weight_checkpoint\<close> on wrappers with the same layers and shapes succeeds; each of them
  then holds exactly the tensors that the wrapper of its layer was saved with, marked as changed and
  as not failed. (The shard of a previous index must not be the index file itself.)
\<close>

theorem saved_checkpoint_loads:
  assumes "save_full_weight_checkpoint 0 io rm sz gen ws dir = (Inr True, dir')"
    "valid_generation gen" "\<And>s. 0 < sz s" "\<not> list_ex names_index (previous_entries dir)" "same_layout ws ws'"
    "filter cw_full ws' \<noteq> []"
  shows "\<exists>ws''. load_full_weight_checkpoint 0 world initialized status None dir' ws' = (Inr True, ws'') \<and>
    map cw_layer_idx ws'' = map cw_layer_idx ws' \<and>
    (\<forall>w \<in> set ws. \<forall>w'' \<in> set ws''. cw_full w \<and> cw_full w'' \<and> cw_layer_idx w'' = cw_layer_idx w \<longrightarrow>
       expert_tensors w'' = expert_tensors w \<and> (\<exists>b. cw_backend w'' = Some b \<and> bk_dirty b \<and> \<not> bk_load_failed b))"
proof -
  have "committed sz gen (sort_key cw_layer_idx (filter cw_full ws)) dir'"
    by (rule save_commits [OF assms(1)]) (use assms(4) in \<open>auto simp: list_ex_iff names_index_def split: jentry.splits\<close>)
  note c = this
  note load = load_committed [OF c assms(2,3,5)]
  let ?plan = "copy_plan dir' (map (\<lambda>w'. (cw_layer_idx w', shard_name gen (cw_layer_idx w'))) (filter cw_full ws'))"
  let ?ws'' = "map (set_flags (Some True) False) (apply_copies ?plan ws')"
  have "cd_isfile dir' index_name" using c by (simp add: committed_def cd_isfile_def)
  then have run: "load_full_weight_checkpoint 0 world initialized status None dir' ws' = (Inr True, ?ws'')"
    using assms(6) load(1) by (simp add: load_full_weight_checkpoint_def load_outcome_def)
  have "expert_tensors w'' = expert_tensors w \<and> (\<exists>b. cw_backend w'' = Some b \<and> bk_dirty b \<and> \<not> bk_load_failed b)"
    if w: "w \<in> set ws" "cw_full w" and w'': "w'' \<in> set ?ws''" "cw_full w''" "cw_layer_idx w'' = cw_layer_idx w" for w w''
  proof -
    obtain w' where w': "w' \<in> set ws'" "w'' = set_flags (Some True) False (fold (\<lambda>(i, n, t). set_param i n t) ?plan w')"
      using w''(1) unfolding apply_copies_map by auto
    then have full: "w' \<in> set (filter cw_full ws')" "cw_layer_idx w' = cw_layer_idx w"
      using w''(2,3) by (auto simp: fold_frame)
    have "expert_tensors w'' = expert_tensors w"
      using load(2) [of w w'] w full by (simp add: w'(2) expert_tensors_def)
    moreover have "cw_backend w' \<noteq> None"
      using assms(5) full(1) by (auto simp: same_layout_def dest!: valid_backend)
    then have "\<exists>b. cw_backend w'' = Some b \<and> bk_dirty b \<and> \<not> bk_load_failed b"
      using w''(2) backend_kept [of ?plan w'] unfolding w'(2) by (auto simp: set_flags_def fold_frame)
    ultimately show ?thesis by blast
  qed
  moreover have "map cw_layer_idx ?ws'' = map cw_layer_idx ws'"
    by (simp add: apply_copies_map fold_frame)
  ultimately show ?thesis using run by blast
qed


text \<open>One layer with three small parameters, an older checkpoint, and the generation \<open>9f\<close>.\<close>

definition sample_param :: "int list \<Rightarrow> nat \<Rightarrow> nat param" where
  "sample_param shape x =
     \<lparr>pm_tensor = \<lparr>tn_shape = shape, tn_dtype = ''BF16'', tn_data = x\<rparr>, pm_on_cpu = True, pm_contiguous = True,
      pm_requires_grad = True\<rparr>"

definition sample_wrapper :: "nat \<Rightarrow> nat ckw" where
  "sample_wrapper x =
     \<lparr>cw_layer_idx = 3, cw_full = True, cw_expert_num = 2, cw_intermediate_size = 4, cw_hidden_size = 8,
      cw_backend = Some \<lparr>bk_bufs = [(''gate_proj'', sample_param [2, 4, 8] x), (''up_proj'', sample_param [2, 4, 8] (x + 1)),
                                    (''down_proj'', sample_param [2, 8, 4] (x + 2))],
                         bk_dirty = False, bk_load_failed = True\<rparr>\<rparr>"

definition sample_dir :: "string \<Rightarrow> nat cdir" where
  "sample_dir old =
     [(index_name, CFile 1 (IndexData (new_index ''old''
         [(''3'', JLayer \<lparr>jl_file = Some old, jl_size = Some 1, jl_shapes = None\<rparr>)]))),
      (''old.bin'', CFile 1 Garbage)]"

definition sample_save :: "(nat \<Rightarrow> io) \<Rightarrow> string \<Rightarrow> bool result \<times> nat cdir" where
  "sample_save io old = save_full_weight_checkpoint 0 io (\<lambda>_. True) (\<lambda>_. 96) ''9f'' [sample_wrapper 5] (sample_dir old)"

lemma sample_save_ok: "sample_save (\<lambda>_. Done) ''old.bin'' = (Inr True, snd (sample_save (\<lambda>_. Done) ''old.bin''))"
proof -
  have "fst (sample_save (\<lambda>_. Done) ''old.bin'') = Inr True" by code_simp
  then show ?thesis by (metis prod.collapse)
qed

lemma saved_checkpoint_loads_witness:
  "\<exists>ws''. load_full_weight_checkpoint 0 1 False None None (snd (sample_save (\<lambda>_. Done) ''old.bin'')) [sample_wrapper 0] = (Inr True, ws'') \<and>
    map cw_layer_idx ws'' = [3]"
proof -
  have prev: "\<not> list_ex names_index (previous_entries (sample_dir ''old.bin''))" by code_simp
  have "distinct (map cw_layer_idx (filter cw_full [sample_wrapper 0])) \<and>
      set (map cw_layer_idx (filter cw_full [sample_wrapper 0])) = set (map cw_layer_idx (filter cw_full [sample_wrapper 5])) \<and>
      valid_wrapper (sample_wrapper 0) \<and> expected_shapes (sample_wrapper 0) = expected_shapes (sample_wrapper 5)"
    unfolding valid_wrapper_def by code_simp
  then have lay: "same_layout [sample_wrapper 5] [sample_wrapper 0]"
    by (simp add: same_layout_def sample_wrapper_def)
  have "filter cw_full [sample_wrapper 0] \<noteq> []" "valid_generation ''9f''"
    by (simp_all add: sample_wrapper_def valid_generation_def)
  from saved_checkpoint_loads [OF sample_save_ok [unfolded sample_save_def] this(2) _ prev lay this(1), of 1 False None,
      folded sample_save_def]
  show ?thesis by (auto simp: sample_wrapper_def)
qed

lemma failed_save_restores_witness:
  "\<exists>e. fst (sample_save (\<lambda>n. if n = 3 then Partial else Done) ''old.bin'') = Inl e \<and>
    read_index (snd (sample_save (\<lambda>n. if n = 3 then Partial else Done) ''old.bin'')) = read_index (sample_dir ''old.bin'') \<and>
    dget (snd (sample_save (\<lambda>n. if n = 3 then Partial else Done) ''old.bin'')) ''old.bin'' = Some (CFile 1 Garbage)"
proof -
  let ?r = "sample_save (\<lambda>n. if n = 3 then Partial else Done) ''old.bin''"
  have "fst ?r = Inl (OSError ''I/O'')" by code_simp
  then have r: "?r = (Inl (OSError ''I/O''), snd ?r)" by (metis prod.collapse)
  have fresh: "dget (sample_dir ''old.bin'') n = None" if "n \<in> new_names ''9f''" for n
  proof -
    have "n \<noteq> index_name" "last n = CHR ''s'' \<or> last n = CHR ''p''"
      using that by (auto simp: new_names_def last_name)
    then show ?thesis by (auto simp: sample_dir_def)
  qed
  have "dget (sample_dir ''old.bin'') ''old.bin'' = Some (CFile 1 Garbage)" by code_simp
  with failed_save_restores [OF r [unfolded sample_save_def] fresh, folded sample_save_def] r
  show ?thesis by (metis fst_conv)
qed

text \<open>
  C32. A failed load is never silent: when \<open>load_full_weight_checkpoint\<close> raises on rank 0, either no
  parameter was touched, or every Full backend carries the failure flag that stops the next
  forward pass, whichever copy failed.
\<close>

theorem failed_load_is_flagged:
  assumes "load_full_weight_checkpoint 0 world initialized status fault dir ws = (Inl e, ws')"
  shows "ws' = ws \<or>
    list_all (\<lambda>w. cw_full w \<longrightarrow> (case cw_backend w of Some b \<Rightarrow> bk_load_failed b | None \<Rightarrow> False)) ws'"
proof (cases "ws' = ws")
  case False
  have valid: "\<forall>w \<in> set (filter cw_full ws). cw_backend w \<noteq> None" if "check_wrappers (filter cw_full ws) seen = Inr ()" for seen
    using that by (induction ws arbitrary: seen) (auto simp: backend_parameters_def split: option.splits if_splits)
  obtain n plan where ws': "ws' = map (set_flags None True) (apply_copies (take n plan) ws)"
    and ok: "check_wrappers (filter cw_full ws) [] = Inr ()"
    using assms False
    by (auto simp: load_full_weight_checkpoint_def load_outcome_def load_rank0_def Let_def rbind_eq_Inl
        split: if_splits prod.splits sum.splits option.splits)
  show ?thesis
    unfolding ws' apply_copies_map
    using valid [OF ok] by (auto simp: list_all_iff set_flags_def fold_frame backend_kept split: option.splits)
qed simp

lemma failed_load_is_flagged_witness:
  "\<exists>e ws'. load_full_weight_checkpoint 0 1 False None (Some 1) (snd (sample_save (\<lambda>_. Done) ''old.bin'')) [sample_wrapper 0] = (Inl e, ws') \<and>
    ws' \<noteq> [sample_wrapper 0] \<and> map (\<lambda>w. map_option bk_load_failed (cw_backend w)) ws' = [Some True]"
proof -
  let ?r = "load_full_weight_checkpoint 0 1 False None (Some 1) (snd (sample_save (\<lambda>_. Done) ''old.bin'')) [sample_wrapper 0]"
  have 1: "fst ?r = Inl (RuntimeError ''Failed to load KT Full checkpoint'')" by code_simp
  have 2: "map cw_full (snd ?r) = [True]" "map params_of (snd ?r) \<noteq> map params_of [sample_wrapper 0]" by code_simp+
  then have ne: "snd ?r \<noteq> [sample_wrapper 0]" by metis
  have r: "?r = (Inl (RuntimeError ''Failed to load KT Full checkpoint''), snd ?r)" using 1 by (metis prod.collapse)
  from failed_load_is_flagged [OF r] ne 2(1) r show ?thesis
    by (auto simp: list_all_iff split: option.splits)
qed

text \<open>
  The clean-up after a save trusts the previous index: when its entry names the index file itself,
  a save that reports success deletes the index it has just published, and the directory no longer
  holds a loadable checkpoint.
\<close>

theorem self_named_index_lost:
  "fst (sample_save (\<lambda>_. Done) index_name) = Inr True \<and>
   dget (snd (sample_save (\<lambda>_. Done) index_name)) index_name = None \<and>
   load_full_weight_checkpoint 0 1 False None None (snd (sample_save (\<lambda>_. Done) index_name)) [sample_wrapper 0] =
     (Inl (RuntimeError ''Failed to load KT Full checkpoint''), [sample_wrapper 0])"
proof -
  have "fst (sample_save (\<lambda>_. Done) index_name) = Inr True" by code_simp
  moreover have none: "dget (snd (sample_save (\<lambda>_. Done) index_name)) index_name = None" by code_simp
  ultimately show ?thesis
    by (simp add: load_full_weight_checkpoint_def cd_isfile_def load_outcome_def sample_wrapper_def)
qed

end
