(* ===== verification/Collectives.thy ===== *)
theory Collectives
  imports Prelude
begin

text \<open>
  Ranks that communicate. The program of a rank is a tree of communication requests: a collective
  of \<open>torch.distributed\<close> (\<open>all_gather\<close>, \<open>broadcast\<close>) or one batch of point-to-point operations
  with rank 0 (\<open>batch_isend_irecv\<close> and waiting for it). A system is the list of the programs of all
  ranks. It moves when its next communication is matched: a collective when every rank has reached
  the same one, a batch of rank 0 when every peer it names has reached the matching send or
  receive of the same length. A system that cannot move and is not finished is a deadlock.
\<close>

section \<open>Programs of one rank\<close>

datatype 'x msg = Ints "int list" | Text string

datatype 'x req =
    AllGather "'x msg"
  | Bcast nat "'x msg"
  | RecvFrom "(nat \<times> nat) list"
  | SendRoot "'x list"
  | SendTo "(nat \<times> 'x list) list"
  | RecvRoot nat

datatype 'x rep = Replies "'x msg list" | Chunks "'x list list" | Ack

datatype ('x, 'a) proc = Fin 'a | Comm "'x req" "'x rep \<Rightarrow> ('x, 'a) proc"

primrec pbind :: "('x, 'a) proc \<Rightarrow> ('a \<Rightarrow> ('x, 'b) proc) \<Rightarrow> ('x, 'b) proc" where
  "pbind (Fin a) f = f a"
| "pbind (Comm r k) f = Comm r (\<lambda>x. pbind (k x) f)"

definition pending :: "('x, 'a) proc \<Rightarrow> 'x req option" where
  "pending p = (case p of Fin _ \<Rightarrow> None | Comm r _ \<Rightarrow> Some r)"

definition resume :: "('x, 'a) proc \<Rightarrow> 'x rep \<Rightarrow> ('x, 'a) proc" where
  "resume p x = (case p of Fin _ \<Rightarrow> p | Comm _ k \<Rightarrow> k x)"

lemma pending_simps [simp]: "pending (Fin a) = None" "pending (Comm r k) = Some r"
  by (simp_all add: pending_def)

lemma resume_simps [simp]: "resume (Fin a) x = Fin a" "resume (Comm r k) x = k x"
  by (simp_all add: resume_def)

section \<open>Systems\<close>

definition gathered :: "('x, 'a) proc \<Rightarrow> 'x msg option" where
  "gathered p = (case pending p of Some (AllGather v) \<Rightarrow> Some v | _ \<Rightarrow> None)"

definition broadcasting :: "nat \<Rightarrow> ('x, 'a) proc \<Rightarrow> 'x msg option" where
  "broadcasting src p = (case pending p of Some (Bcast s v) \<Rightarrow> (if s = src then Some v else None) | _ \<Rightarrow> None)"

definition sending :: "('x, 'a) proc \<Rightarrow> 'x list option" where
  "sending p = (case pending p of Some (SendRoot rows) \<Rightarrow> Some rows | _ \<Rightarrow> None)"

definition receiving :: "('x, 'a) proc \<Rightarrow> nat option" where
  "receiving p = (case pending p of Some (RecvRoot n) \<Rightarrow> Some n | _ \<Rightarrow> None)"

definition wake :: "('x, 'a) proc list \<Rightarrow> (nat \<Rightarrow> 'x rep option) \<Rightarrow> ('x, 'a) proc list" where
  "wake ps f = map (\<lambda>i. case f i of None \<Rightarrow> ps ! i | Some x \<Rightarrow> resume (ps ! i) x) [0..<length ps]"

definition sys_step :: "('x, 'a) proc list \<Rightarrow> ('x, 'a) proc list option" where
  "sys_step ps =
     (case ps of
        [] \<Rightarrow> None
      | root # _ \<Rightarrow>
          (case pending root of
             Some (AllGather _) \<Rightarrow>
               (if list_all (\<lambda>p. gathered p \<noteq> None) ps
                then Some (wake ps (\<lambda>_. Some (Replies (map (the \<circ> gathered) ps)))) else None)
           | Some (Bcast src _) \<Rightarrow>
               (if src < length ps \<and> list_all (\<lambda>p. broadcasting src p \<noteq> None) ps
                then Some (wake ps (\<lambda>_. Some (Replies [the (broadcasting src (ps ! src))]))) else None)
           | Some (RecvFrom specs) \<Rightarrow>
               (if list_all (\<lambda>(src, n). 0 < src \<and> src < length ps \<and> map_option length (sending (ps ! src)) = Some n) specs
                then Some (wake ps (\<lambda>i. if i = 0 then Some (Chunks (map (\<lambda>(src, n). the (sending (ps ! src))) specs))
                                       else if i \<in> fst ` set specs then Some Ack else None))
                else None)
           | Some (SendTo parts) \<Rightarrow>
               (if list_all (\<lambda>(dst, rows). 0 < dst \<and> dst < length ps \<and> receiving (ps ! dst) = Some (length rows)) parts
                then Some (wake ps (\<lambda>i. if i = 0 then Some Ack
                                       else map_option (\<lambda>rows. Chunks [rows]) (map_of parts i)))
                else None)
           | _ \<Rightarrow> None))"

fun run_system :: "nat \<Rightarrow> ('x, 'a) proc list \<Rightarrow> ('x, 'a) proc list" where
  "run_system 0 ps = ps"
| "run_system (Suc n) ps = (case sys_step ps of None \<Rightarrow> ps | Some qs \<Rightarrow> run_system n qs)"

lemma sys_step_hd:
  "ps \<noteq> [] \<Longrightarrow> pending (hd ps) = Some (AllGather v) \<Longrightarrow> sys_step ps =
     (if list_all (\<lambda>p. gathered p \<noteq> None) ps
      then Some (wake ps (\<lambda>_. Some (Replies (map (the \<circ> gathered) ps)))) else None)"
  "ps \<noteq> [] \<Longrightarrow> pending (hd ps) = Some (Bcast src v) \<Longrightarrow> sys_step ps =
     (if src < length ps \<and> list_all (\<lambda>p. broadcasting src p \<noteq> None) ps
      then Some (wake ps (\<lambda>_. Some (Replies [the (broadcasting src (ps ! src))]))) else None)"
  "ps \<noteq> [] \<Longrightarrow> pending (hd ps) = Some (RecvFrom specs) \<Longrightarrow> sys_step ps =
     (if list_all (\<lambda>(src, n). 0 < src \<and> src < length ps \<and> map_option length (sending (ps ! src)) = Some n) specs
      then Some (wake ps (\<lambda>i. if i = 0 then Some (Chunks (map (\<lambda>(src, n). the (sending (ps ! src))) specs))
                             else if i \<in> fst ` set specs then Some Ack else None))
      else None)"
  "ps \<noteq> [] \<Longrightarrow> pending (hd ps) = Some (SendTo parts) \<Longrightarrow> sys_step ps =
     (if list_all (\<lambda>(dst, rows). 0 < dst \<and> dst < length ps \<and> receiving (ps ! dst) = Some (length rows)) parts
      then Some (wake ps (\<lambda>i. if i = 0 then Some Ack else map_option (\<lambda>rows. Chunks [rows]) (map_of parts i)))
      else None)"
  by (auto simp only: sys_step_def neq_Nil_conv list.case list.sel option.case req.case)

text \<open>Every rank returns: the system is deterministic, so this is the outcome of its only run.\<close>

definition finishes :: "('x, 'a) proc list \<Rightarrow> 'a list \<Rightarrow> bool" where
  "finishes ps rs \<longleftrightarrow> (\<exists>n. run_system n ps = map Fin rs)"

definition deadlocked :: "('x, 'a) proc list \<Rightarrow> bool" where
  "deadlocked ps \<longleftrightarrow> sys_step ps = None \<and> list_ex (\<lambda>p. pending p \<noteq> None) ps"

lemma finishes_Fin: "finishes (map Fin rs) rs"
  unfolding finishes_def by (rule exI [of _ 0]) simp

lemma finishes_map_Fin: "finishes (map (\<lambda>i. Fin (g i)) xs) (map g xs)"
  using finishes_Fin [of "map g xs"] by (simp add: comp_def)

lemma finishes_step: "sys_step ps = Some qs \<Longrightarrow> finishes qs rs \<Longrightarrow> finishes ps rs"
  unfolding finishes_def by (metis option.simps(5) run_system.simps(2))

lemma sys_step_finished [simp]: "sys_step (map Fin rs) = None"
  by (cases rs) (simp_all add: sys_step_def)

text \<open>The outcome is unique, and no reachable state of a system that finishes is a deadlock.\<close>

lemma finishes_unique:
  fixes ps :: "('x, 'a) proc list"
  shows "finishes ps rs \<Longrightarrow> finishes ps rs' \<Longrightarrow> rs = rs'"
proof -
  have inj: "map Fin rs = (map Fin rs' :: ('x, 'a) proc list) \<Longrightarrow> rs = rs'"
    by (simp add: inj_map_eq_map inj_def)
  have "rs = rs'" if "run_system n ps = map Fin rs" "run_system m ps = map Fin rs'" for n m
    using that
  proof (induction n arbitrary: m ps)
    case 0
    then have "run_system m ps = ps" by (cases m) simp_all
    with 0 inj show ?case by simp
  next
    case (Suc n)
    show ?case
    proof (cases "sys_step ps")
      case None
      then have "run_system m ps = ps" by (cases m) simp_all
      with Suc.prems None inj show ?thesis by simp
    next
      case (Some qs)
      show ?thesis
      proof (cases m)
        case 0
        with Suc.prems(2) Some show ?thesis by simp
      next
        case (Suc m')
        with Suc.IH [of qs m'] Suc.prems Some show ?thesis by simp
      qed
    qed
  qed
  then show "finishes ps rs \<Longrightarrow> finishes ps rs' \<Longrightarrow> rs = rs'" by (auto simp: finishes_def)
qed

section \<open>Composition\<close>

lemma resume_pbind: "pending p \<noteq> None \<Longrightarrow> resume (pbind p f) x = pbind (resume p x) f"
  by (cases p) simp_all

lemma pending_pbind: "pending p \<noteq> None \<Longrightarrow> pending (pbind p f) = pending p"
  by (cases p) simp_all

lemma wake_length [simp]: "length (wake ps f) = length ps"
  by (simp add: wake_def)

lemma wake_pbind:
  assumes "length fs = length ps" "\<And>i x. i < length ps \<Longrightarrow> f i = Some x \<Longrightarrow> pending (ps ! i) \<noteq> None"
  shows "wake (map2 pbind ps fs) f = map2 pbind (wake ps f) fs"
proof (rule nth_equalityI)
  fix i assume "i < length (wake (map2 pbind ps fs) f)"
  then have "i < length ps" using assms(1) by simp
  then show "wake (map2 pbind ps fs) f ! i = map2 pbind (wake ps f) fs ! i"
    using assms by (cases "f i") (simp_all add: wake_def resume_pbind)
qed (use assms(1) in simp)

lemma participant_pbind:
  "gathered p \<noteq> None \<Longrightarrow> gathered (pbind p f) = gathered p"
  "broadcasting src p \<noteq> None \<Longrightarrow> broadcasting src (pbind p f) = broadcasting src p"
  "sending p \<noteq> None \<Longrightarrow> sending (pbind p f) = sending p"
  "receiving p \<noteq> None \<Longrightarrow> receiving (pbind p f) = receiving p"
  by (cases p; simp add: gathered_def broadcasting_def sending_def receiving_def)+

lemma participant_pending:
  "gathered p \<noteq> None \<Longrightarrow> pending p \<noteq> None" "broadcasting src p \<noteq> None \<Longrightarrow> pending p \<noteq> None"
  "sending p \<noteq> None \<Longrightarrow> pending p \<noteq> None" "receiving p \<noteq> None \<Longrightarrow> pending p \<noteq> None"
  by (auto simp: gathered_def broadcasting_def sending_def receiving_def split: option.splits)

lemma sys_step_pbind:
  assumes step: "sys_step ps = Some qs" and len: "length fs = length ps"
  shows "sys_step (map2 pbind ps fs) = Some (map2 pbind qs fs)"
proof -
  let ?bs = "map2 pbind ps fs"
  have ne: "ps \<noteq> []" using step by (auto simp: sys_step_def)
  then have neb: "?bs \<noteq> []" "fs \<noteq> []" using len by (cases ps; cases fs; simp)+
  have nth: "?bs ! i = pbind (ps ! i) (fs ! i)" if "i < length ps" for i using that len by simp
  obtain r where r: "pending (hd ps) = Some r"
    using step ne by (cases ps) (auto simp: sys_step_def split: option.splits)
  have "hd ?bs = pbind (hd ps) (hd fs)" using ne neb by (cases ps; cases fs) simp_all
  then have r': "pending (hd ?bs) = Some r" using r pending_pbind [of "hd ps" "hd fs"] by simp
  have root: "ps ! 0 = hd ps" using ne by (simp add: hd_conv_nth)
  show ?thesis
  proof (cases r)
    case (AllGather v)
    have all: "list_all (\<lambda>p. gathered p \<noteq> None) ps" and qs: "qs = wake ps (\<lambda>_. Some (Replies (map (the \<circ> gathered) ps)))"
      using step sys_step_hd(1) [OF ne r [unfolded AllGather]] by (simp_all split: if_splits)
    have "map (the \<circ> gathered) ?bs = map (the \<circ> gathered) ps"
      using all len by (intro nth_equalityI) (auto simp: list_all_length participant_pbind)
    moreover have "list_all (\<lambda>p. gathered p \<noteq> None) ?bs" using all len by (auto simp: list_all_length participant_pbind)
    moreover have "wake ?bs (\<lambda>_. Some x) = map2 pbind (wake ps (\<lambda>_. Some x)) fs" for x
      by (rule wake_pbind [OF len]) (use all participant_pending(1) in \<open>auto simp: list_all_length\<close>)
    ultimately show ?thesis using qs sys_step_hd(1) [OF neb(1) r' [unfolded AllGather]] by simp
  next
    case (Bcast src v)
    have src: "src < length ps" and all: "list_all (\<lambda>p. broadcasting src p \<noteq> None) ps"
      and qs: "qs = wake ps (\<lambda>_. Some (Replies [the (broadcasting src (ps ! src))]))"
      using step sys_step_hd(2) [OF ne r [unfolded Bcast]] by (simp_all split: if_splits)
    have "broadcasting src (?bs ! src) = broadcasting src (ps ! src)"
      using all src by (simp add: nth list_all_length participant_pbind)
    moreover have "list_all (\<lambda>p. broadcasting src p \<noteq> None) ?bs" using all len by (auto simp: list_all_length participant_pbind)
    moreover have "wake ?bs (\<lambda>_. Some x) = map2 pbind (wake ps (\<lambda>_. Some x)) fs" for x
      by (rule wake_pbind [OF len]) (use all participant_pending(2) [of src] in \<open>auto simp: list_all_length\<close>)
    moreover have "src < length ?bs" using src len by simp
    ultimately show ?thesis using qs sys_step_hd(2) [OF neb(1) r' [unfolded Bcast]] by simp
  next
    case (RecvFrom specs)
    have ok: "list_all (\<lambda>(src, n). 0 < src \<and> src < length ps \<and> map_option length (sending (ps ! src)) = Some n) specs"
      and qs: "qs = wake ps (\<lambda>i. if i = 0 then Some (Chunks (map (\<lambda>(src, n). the (sending (ps ! src))) specs))
                                       else if i \<in> fst ` set specs then Some Ack else None)"
      using step sys_step_hd(3) [OF ne r [unfolded RecvFrom]] by (simp_all split: if_splits)
    have s: "sending (?bs ! src) = sending (ps ! src)" "src < length ps" "pending (ps ! src) \<noteq> None" if "(src, n) \<in> set specs" for src n
      using ok that participant_pending(3) [of "ps ! src"] by (auto simp: list_all_iff nth participant_pbind)
    have C: "map (\<lambda>(src, n). the (sending (?bs ! src))) specs = map (\<lambda>(src, n). the (sending (ps ! src))) specs"
      using s(1) by auto
    have ok': "list_all (\<lambda>(src, n). 0 < src \<and> src < length ?bs \<and> map_option length (sending (?bs ! src)) = Some n) specs"
      using ok s(1) len by (fastforce simp: list_all_iff)
    have W: "wake ?bs (\<lambda>i. if i = 0 then Some x else if i \<in> fst ` set specs then Some Ack else None) =
        map2 pbind (wake ps (\<lambda>i. if i = 0 then Some x else if i \<in> fst ` set specs then Some Ack else None)) fs" for x
      by (rule wake_pbind [OF len]) (use s(3) r root in \<open>fastforce split: if_splits\<close>)
    show ?thesis unfolding sys_step_hd(3) [OF neb(1) r' [unfolded RecvFrom]] C W qs if_P [OF ok'] ..
  next
    case (SendTo parts)
    have ok: "list_all (\<lambda>(dst, rows). 0 < dst \<and> dst < length ps \<and> receiving (ps ! dst) = Some (length rows)) parts"
      and qs: "qs = wake ps (\<lambda>i. if i = 0 then Some Ack else map_option (\<lambda>rows. Chunks [rows]) (map_of parts i))"
      using step sys_step_hd(4) [OF ne r [unfolded SendTo]] by (simp_all split: if_splits)
    have s: "receiving (?bs ! dst) = receiving (ps ! dst)" "dst < length ps" "pending (ps ! dst) \<noteq> None" if "(dst, rows) \<in> set parts" for dst rows
      using ok that participant_pending(4) [of "ps ! dst"] by (auto simp: list_all_iff nth participant_pbind)
    have "list_all (\<lambda>(dst, rows). 0 < dst \<and> dst < length ?bs \<and> receiving (?bs ! dst) = Some (length rows)) parts"
      using ok s(1) len by (fastforce simp: list_all_iff)
    moreover have "wake ?bs (\<lambda>i. if i = 0 then Some Ack else map_option (\<lambda>rows. Chunks [rows]) (map_of parts i)) =
        map2 pbind (wake ps (\<lambda>i. if i = 0 then Some Ack else map_option (\<lambda>rows. Chunks [rows]) (map_of parts i))) fs"
      by (rule wake_pbind [OF len]) (use s(3) r root in \<open>auto split: if_splits dest: map_of_SomeD\<close>)
    ultimately show ?thesis using qs sys_step_hd(4) [OF neb(1) r' [unfolded SendTo]] by simp
  qed (use step r ne in \<open>cases ps; simp add: sys_step_def\<close>)+
qed


lemma run_system_pbind:
  "run_system n ps = map Fin rs \<Longrightarrow> length fs = length ps \<Longrightarrow> finishes (map2 (\<lambda>r f. f r) rs fs) ts \<Longrightarrow>
     finishes (map2 pbind ps fs) ts"
proof (induction n arbitrary: ps)
  case 0
  then have "map2 pbind ps fs = map2 (\<lambda>r f. f r) rs fs"
    by (simp add: list_eq_iff_nth_eq)
  with 0 show ?case by simp
next
  case (Suc n)
  show ?case
  proof (cases "sys_step ps")
    case None
    with Suc.prems have "ps = map Fin rs" by simp
    then have "map2 pbind ps fs = map2 (\<lambda>r f. f r) rs fs"
      using Suc.prems(2) by (simp add: list_eq_iff_nth_eq)
    with Suc.prems show ?thesis by simp
  next
    case (Some qs)
    then have "length qs = length ps"
      by (auto simp: sys_step_def split: list.splits option.splits req.splits if_splits)
    with Suc Some have "finishes (map2 pbind qs fs) ts" by simp
    with finishes_step [OF sys_step_pbind [OF Some Suc.prems(2)]] show ?thesis by blast
  qed
qed

text \<open>The same program on every rank of \<open>[0..<n]\<close>.\<close>

lemma finishes_pbind:
  assumes "finishes (map P [0..<n]) (map R [0..<n])" "finishes (map (\<lambda>i. F i (R i)) [0..<n]) ts"
  shows "finishes (map (\<lambda>i. pbind (P i) (F i)) [0..<n]) ts"
proof -
  have 1: "map2 pbind (map P [0..<n]) (map F [0..<n]) = map (\<lambda>i. pbind (P i) (F i)) [0..<n]"
    and 2: "map2 (\<lambda>r f. f r) (map R [0..<n]) (map F [0..<n]) = map (\<lambda>i. F i (R i)) [0..<n]"
    by (simp_all add: list_eq_iff_nth_eq)
  from assms(1) obtain m where "run_system m (map P [0..<n]) = map Fin (map R [0..<n])" by (auto simp: finishes_def)
  from run_system_pbind [OF this, of "map F [0..<n]" ts] assms(2) show ?thesis unfolding 1 2 by simp
qed

section \<open>Programs with a local state that may raise\<close>

type_synonym ('x, 's, 'a) dop = "'s \<Rightarrow> ('x, 'a result \<times> 's) proc"

definition dreturn :: "'a \<Rightarrow> ('x, 's, 'a) dop" where
  "dreturn a s = Fin (Inr a, s)"

definition draise :: "exn \<Rightarrow> ('x, 's, 'a) dop" where
  "draise e s = Fin (Inl e, s)"

text \<open>A local operation: no communication.\<close>

definition dlocal :: "('s, 'a) eop \<Rightarrow> ('x, 's, 'a) dop" where
  "dlocal m s = Fin (m s)"

definition dcomm :: "'x req \<Rightarrow> ('x, 's, 'x rep) dop" where
  "dcomm r s = Comm r (\<lambda>x. Fin (Inr x, s))"

definition dbind :: "('x, 's, 'a) dop \<Rightarrow> ('a \<Rightarrow> ('x, 's, 'b) dop) \<Rightarrow> ('x, 's, 'b) dop" where
  "dbind m k s = pbind (m s) (\<lambda>(r, s'). case r of Inl e \<Rightarrow> Fin (Inl e, s') | Inr a \<Rightarrow> k a s')"

text \<open>\<open>try: m except Exception: h; raise\<close>.\<close>

definition dtry :: "('x, 's, 'a) dop \<Rightarrow> (exn \<Rightarrow> 's \<Rightarrow> 's) \<Rightarrow> ('x, 's, 'a) dop" where
  "dtry m h s = pbind (m s) (\<lambda>(r, s'). case r of Inl e \<Rightarrow> Fin (Inl e, h e s') | Inr a \<Rightarrow> Fin (Inr a, s'))"

text \<open>\<open>try: m except Exception as exc: ...\<close> with the outcome kept as a value.\<close>

definition dattempt :: "('x, 's, 'a) dop \<Rightarrow> ('x, 's, 'a result) dop" where
  "dattempt m s = pbind (m s) (\<lambda>(r, s'). Fin (Inr r, s'))"

text \<open>
  All ranks \<open>0\<close> to \<open>n - 1\<close> run \<open>M i\<close> in the local state \<open>S i\<close>; every one returns, rank \<open>i\<close> with
  \<open>R i\<close>.
\<close>

definition spmd :: "nat \<Rightarrow> (nat \<Rightarrow> ('x, 's, 'a) dop) \<Rightarrow> (nat \<Rightarrow> 's) \<Rightarrow> (nat \<Rightarrow> 'a result \<times> 's) \<Rightarrow> bool" where
  "spmd n M S R \<longleftrightarrow> finishes (map (\<lambda>i. M i (S i)) [0..<n]) (map R [0..<n])"

lemma spmd_cong:
  "(\<And>i. i < n \<Longrightarrow> M i (S i) = M' i (S' i)) \<Longrightarrow> (\<And>i. i < n \<Longrightarrow> R i = R' i) \<Longrightarrow> spmd n M S R \<longleftrightarrow> spmd n M' S' R'"
proof -
  assume "\<And>i. i < n \<Longrightarrow> M i (S i) = M' i (S' i)" "\<And>i. i < n \<Longrightarrow> R i = R' i"
  then have "map (\<lambda>i. M i (S i)) [0..<n] = map (\<lambda>i. M' i (S' i)) [0..<n]" "map R [0..<n] = map R' [0..<n]" by auto
  then show ?thesis unfolding spmd_def by (simp only:)
qed

lemma spmd_unique: "spmd n M S R \<Longrightarrow> spmd n M S R' \<Longrightarrow> i < n \<Longrightarrow> R i = R' i"
  unfolding spmd_def by (drule (1) finishes_unique) auto

lemma spmd_local:
  assumes "\<And>i. i < n \<Longrightarrow> M i (S i) = Fin (R i)"
  shows "spmd n M S R"
proof -
  have "map (\<lambda>i. M i (S i)) [0..<n] = map Fin (map R [0..<n])" using assms by simp
  then show ?thesis by (simp only: spmd_def finishes_Fin)
qed

lemma spmd_bind:
  assumes "spmd n M S (\<lambda>i. (Inr (A i), S' i))" "spmd n (\<lambda>i. K i (A i)) S' R"
  shows "spmd n (\<lambda>i. dbind (M i) (K i)) S R"
  using assms unfolding spmd_def dbind_def
  by (intro finishes_pbind [where R = "\<lambda>i. (Inr (A i), S' i)"]) simp_all

lemma spmd_bind_raise:
  assumes "spmd n M S (\<lambda>i. (Inl (E i), S' i))"
  shows "spmd n (\<lambda>i. dbind (M i) (K i)) S (\<lambda>i. (Inl (E i), S' i))"
  using assms unfolding spmd_def dbind_def
  by (intro finishes_pbind [where R = "\<lambda>i. (Inl (E i), S' i)"])
    (simp_all add: finishes_map_Fin)

lemma spmd_try:
  assumes "spmd n M S (\<lambda>i. (Inr (A i), S' i))"
  shows "spmd n (\<lambda>i. dtry (M i) (H i)) S (\<lambda>i. (Inr (A i), S' i))"
  using assms unfolding spmd_def dtry_def
  by (intro finishes_pbind [where R = "\<lambda>i. (Inr (A i), S' i)"])
    (simp_all add: finishes_map_Fin)

lemma spmd_try_raise:
  assumes "spmd n M S (\<lambda>i. (Inl (E i), S' i))"
  shows "spmd n (\<lambda>i. dtry (M i) (H i)) S (\<lambda>i. (Inl (E i), H i (E i) (S' i)))"
  using assms unfolding spmd_def dtry_def
  by (intro finishes_pbind [where R = "\<lambda>i. (Inl (E i), S' i)"])
    (simp_all add: finishes_map_Fin)

lemma spmd_attempt:
  assumes "spmd n M S R"
  shows "spmd n (\<lambda>i. dattempt (M i)) S (\<lambda>i. (Inr (fst (R i)), snd (R i)))"
  using assms unfolding spmd_def dattempt_def
  by (intro finishes_pbind [where R = R]) (simp_all add: case_prod_unfold finishes_map_Fin)

section \<open>The communications\<close>

lemma sys_step_gather:
  assumes len: "0 < length ps" and v: "\<forall>i < length ps. gathered (ps ! i) = Some (V i)"
  shows "sys_step ps = Some (wake ps (\<lambda>_. Some (Replies (map V [0..<length ps]))))"
proof -
  have m: "map (the \<circ> gathered) ps = map V [0..<length ps]" by (rule nth_equalityI) (use v in simp_all)
  have a: "list_all (\<lambda>p. gathered p \<noteq> None) ps" using v by (simp add: list_all_length)
  have ne: "ps \<noteq> []" using len by blast
  have "gathered (hd ps) = Some (V 0)" using v len ne by (simp add: hd_conv_nth)
  then obtain w where "pending (hd ps) = Some (AllGather w)"
    by (auto simp: gathered_def split: option.splits req.splits)
  from sys_step_hd(1) [OF ne this] show ?thesis unfolding m if_P [OF a] .
qed

lemma sys_step_bcast:
  assumes len: "src < length ps" and v: "\<forall>i < length ps. broadcasting src (ps ! i) = Some (V i)"
  shows "sys_step ps = Some (wake ps (\<lambda>_. Some (Replies [V src])))"
proof -
  have a: "src < length ps \<and> list_all (\<lambda>p. broadcasting src p \<noteq> None) ps" using v len by (simp add: list_all_length)
  have ne: "ps \<noteq> []" using len by (metis list.size(3) not_less0)
  then have "broadcasting src (hd ps) = Some (V 0)" using v by (simp add: hd_conv_nth)
  then obtain w where "pending (hd ps) = Some (Bcast src w)"
    by (auto simp: broadcasting_def split: option.splits req.splits if_splits)
  from sys_step_hd(2) [OF ne this] show ?thesis unfolding if_P [OF a] using v len by simp
qed

lemma spmd_step:
  assumes "sys_step (map (\<lambda>i. M i (S i)) [0..<n]) = Some (map Fin (map R [0..<n]))"
  shows "spmd n M S R"
  using assms finishes_step finishes_Fin unfolding spmd_def by blast

lemma spmd_gather_all:
  assumes n: "0 < n"
  shows "spmd n (\<lambda>i. dcomm (AllGather (V i))) S (\<lambda>i. (Inr (Replies (map V [0..<n])), S i))"
proof (rule spmd_step)
  let ?ps = "map (\<lambda>i. dcomm (AllGather (V i)) (S i)) [0..<n]"
  have "sys_step ?ps = Some (wake ?ps (\<lambda>_. Some (Replies (map V [0..<length ?ps]))))"
    by (rule sys_step_gather) (use n in \<open>simp_all add: gathered_def dcomm_def\<close>)
  then show "sys_step ?ps = Some (map Fin (map (\<lambda>i. (Inr (Replies (map V [0..<n])), S i)) [0..<n]))"
    by (simp add: wake_def dcomm_def)
qed

lemma spmd_bcast:
  assumes "src < n"
  shows "spmd n (\<lambda>i. dcomm (Bcast src (V i))) S (\<lambda>i. (Inr (Replies [V src]), S i))"
proof (rule spmd_step)
  let ?ps = "map (\<lambda>i. dcomm (Bcast src (V i)) (S i)) [0..<n]"
  have "sys_step ?ps = Some (wake ?ps (\<lambda>_. Some (Replies [V src])))"
    by (rule sys_step_bcast) (use assms in \<open>simp_all add: broadcasting_def dcomm_def\<close>)
  then show "sys_step ?ps = Some (map Fin (map (\<lambda>i. (Inr (Replies [V src]), S i)) [0..<n]))"
    by (simp add: wake_def dcomm_def)
qed

text \<open>One batch of receives on rank 0, matched by a send of every peer that has rows.\<close>

lemma spmd_recv:
  assumes n: "0 < n" and q: "\<And>i. i < n \<Longrightarrow> length (V i) = q i"
  defines "specs \<equiv> map (\<lambda>i. (i, q i)) (filter (\<lambda>i. 0 < q i) [1..<n])"
  shows "spmd n (\<lambda>i. if i = 0 then dcomm (RecvFrom specs) else if 0 < q i then dcomm (SendRoot (V i)) else dreturn Ack) S
    (\<lambda>i. (Inr (if i = 0 then Chunks (map V (filter (\<lambda>i. 0 < q i) [1..<n])) else Ack), S i))"
proof (rule spmd_step)
  let ?m = "\<lambda>i. if i = 0 then dcomm (RecvFrom specs) else if 0 < q i then dcomm (SendRoot (V i)) else dreturn Ack"
  let ?ps = "map (\<lambda>i. ?m i (S i)) [0..<n]"
  let ?js = "filter (\<lambda>i. 0 < q i) [1..<n]"
  have s: "sending (?ps ! j) = Some (V j)" if "j \<in> set ?js" for j
    using that by (simp add: sending_def dcomm_def)
  have ok: "list_all (\<lambda>(src, n). 0 < src \<and> src < length ?ps \<and> map_option length (sending (?ps ! src)) = Some n) specs"
    using s q by (auto simp: list_all_iff specs_def)
  have chunks: "map (\<lambda>(src, n). the (sending (?ps ! src))) specs = map V ?js"
    using s by (auto simp: specs_def)
  have root: "?ps \<noteq> []" "pending (hd ?ps) = Some (RecvFrom specs)"
    using n by (simp_all add: hd_map dcomm_def)
  have "sys_step ?ps = Some (wake ?ps (\<lambda>i. if i = 0 then Some (Chunks (map V ?js))
      else if i \<in> fst ` set specs then Some Ack else None))"
    unfolding sys_step_hd(3) [OF root] chunks using ok by (simp only: if_True)
  also have "\<dots> = Some (map Fin (map (\<lambda>i. (Inr (if i = 0 then Chunks (map V ?js) else Ack), S i)) [0..<n]))"
    by (auto simp: wake_def dcomm_def dreturn_def specs_def image_iff)
  finally show "sys_step ?ps = \<dots>" .
qed

lemma map_of_keyed: "map_of (map (\<lambda>i. (i, V i)) js) i = (if i \<in> set js then Some (V i) else None)"
  by (induction js) auto

lemma spmd_send:
  assumes n: "0 < n" and q: "\<And>i. i < n \<Longrightarrow> length (V i) = q i"
  defines "parts \<equiv> map (\<lambda>i. (i, V i)) (filter (\<lambda>i. 0 < q i) [1..<n])"
  shows "spmd n (\<lambda>i. if i = 0 then dcomm (SendTo parts) else if 0 < q i then dcomm (RecvRoot (q i)) else dreturn (Chunks [[]])) S
    (\<lambda>i. (Inr (if i = 0 then Ack else Chunks [V i]), S i))"
proof (rule spmd_step)
  let ?m = "\<lambda>i. if i = 0 then dcomm (SendTo parts) else if 0 < q i then dcomm (RecvRoot (q i)) else dreturn (Chunks [[]])"
  let ?ps = "map (\<lambda>i. ?m i (S i)) [0..<n]"
  let ?js = "filter (\<lambda>i. 0 < q i) [1..<n]"
  have ok: "list_all (\<lambda>(dst, rows). 0 < dst \<and> dst < length ?ps \<and> receiving (?ps ! dst) = Some (length rows)) parts"
    using q by (auto simp: list_all_iff parts_def receiving_def dcomm_def)
  have root: "?ps \<noteq> []" "pending (hd ?ps) = Some (SendTo parts)"
    using n by (simp_all add: hd_map dcomm_def)
  have look: "map_of parts i = (if i \<in> set ?js then Some (V i) else None)" for i
    unfolding parts_def by (rule map_of_keyed)
  have empty: "V i = []" if "i < n" "\<not> 0 < q i" for i using q [OF that(1)] that(2) by simp
  have "sys_step ?ps = Some (wake ?ps (\<lambda>i. if i = 0 then Some Ack else map_option (\<lambda>rows. Chunks [rows]) (map_of parts i)))"
    unfolding sys_step_hd(4) [OF root] using ok by (simp only: if_True)
  also have "\<dots> = Some (map Fin (map (\<lambda>i. (Inr (if i = 0 then Ack else Chunks [V i]), S i)) [0..<n]))"
    using empty by (auto simp: wake_def dcomm_def dreturn_def look)
  finally show "sys_step ?ps = \<dots>" .
qed

section \<open>Laws of the program combinators\<close>

lemma dbind_return [simp]: "dbind (dreturn a) k = k a"
  by (rule ext) (simp add: dbind_def dreturn_def)

lemma dbind_raise [simp]: "dbind (draise e) k = draise e"
  by (rule ext) (simp add: dbind_def draise_def)

lemma pbind_Fin: "pbind p Fin = p"
  by (induction p) simp_all

lemma dbind_return_right: "dbind m dreturn = m"
proof
  fix s
  have E: "(\<lambda>(r, s'). case r of Inl e \<Rightarrow> Fin (Inl e, s') | Inr a \<Rightarrow> dreturn a s') = Fin"
    by (auto simp: dreturn_def fun_eq_iff split: sum.splits)
  show "dbind m dreturn s = m s" unfolding dbind_def E pbind_Fin ..
qed

lemma dbind_unit_right: "dbind m (\<lambda>_. dreturn ()) = m" for m :: "('x, 's, unit) dop"
  using dbind_return_right [of m] by (simp add: unit_eq)

lemma spmd_eqI:
  assumes "spmd n M' S R" "\<And>i. i < n \<Longrightarrow> M i = M' i"
  shows "spmd n M S R"
  using assms(1) spmd_cong [of n M S M' S R R] assms(2) by simp

lemma pbind_assoc: "pbind (pbind p f) g = pbind p (\<lambda>a. pbind (f a) g)"
  by (induction p) simp_all

lemma dbind_assoc: "dbind (dbind m k) k' = dbind m (\<lambda>a. dbind (k a) k')"
  by (rule ext) (auto simp: dbind_def pbind_assoc fun_eq_iff intro!: arg_cong [where f = "pbind _"] split: sum.splits)

lemma dlocal_elift [simp]: "dlocal (elift (Inl e)) = draise e" "dlocal (elift (Inr a)) = dreturn a"
  by (simp_all add: fun_eq_iff dlocal_def elift_def draise_def dreturn_def)

lemma dbind_at: "m l = m' l \<Longrightarrow> dbind m k l = dbind m' k l"
  by (simp add: dbind_def)

lemma dbind_if: "dbind (if b then m else m') k = (if b then dbind m k else dbind m' k)"
  by simp

end
