(* ===== verification/DistUtils.thy ===== *)
theory DistUtils
  imports Collectives PyText
begin

text \<open>
  \<open>kt-kernel/python/sft/dist_utils.py\<close> and the exception helpers of \<open>kt-kernel/python/sft/autograd.py\<close>:
  rank and world size, the agreement of all ranks on the checkpoint state, variable-length gather
  to and scatter from rank 0, and the broadcast of a failure before the next collective.
\<close>

section \<open>Rank and world size\<close>

definition distributed_rank_world_size :: "(int \<times> int) option \<Rightarrow> string option \<Rightarrow> string option \<Rightarrow> (int \<times> int) result" where
  "distributed_rank_world_size initialized rank_text world_text =
     (case initialized of
        Some rw \<Rightarrow> Inr rw
      | None \<Rightarrow>
          (case (rank_text, world_text) of
             (Some r, Some w) \<Rightarrow>
               (case (parse_int r, parse_int w) of
                  (Some rank, Some world) \<Rightarrow>
                    (if world \<le> 0 \<or> rank < 0 \<or> rank \<ge> world
                     then Inl (RuntimeError ''Invalid distributed launcher environment'')
                     else Inr (rank, world))
                | _ \<Rightarrow> Inl (RuntimeError ''Invalid distributed launcher environment''))
           | _ \<Rightarrow> Inr (0, 1)))"

section \<open>Agreement\<close>

record ck_control =
  cc_layer :: int
  cc_phase :: string
  cc_action :: string
  cc_cpu_policy :: "string option"
  cc_gpu_policy :: "string option"
  cc_owner_valid :: bool

definition phase_id :: "string \<Rightarrow> int" where
  "phase_id p = (if p = ''none'' then 0 else if p = ''first_forward'' then 1 else if p = ''recompute'' then 2
     else if p = ''other'' then 3 else if p = ''error'' then 4 else -1)"

definition action_id :: "string \<Rightarrow> int" where
  "action_id a = (if a = ''normal'' then 0 else if a = ''cache_first_forward'' then 1
     else if a = ''reuse_recompute'' then 2 else -1)"

definition policy_id :: "string option \<Rightarrow> int" where
  "policy_id p = (if p = None then 0 else if p = Some ''recompute'' then 1 else if p = Some ''retain'' then 2 else -1)"

definition encode_state :: "int \<Rightarrow> ck_control \<Rightarrow> int list" where
  "encode_state qlen c =
     [qlen, cc_layer c, phase_id (cc_phase c), action_id (cc_action c), policy_id (cc_cpu_policy c),
      policy_id (cc_gpu_policy c), if cc_owner_valid c then 1 else 0]"

text \<open>The check every rank makes on the gathered states: nothing negative, one control tuple.\<close>

definition invalid_state :: "int list \<Rightarrow> bool" where
  "invalid_state st = list_ex (\<lambda>v. v < 0) (take 6 st)"

definition check_states :: "int list list \<Rightarrow> int list result" where
  "check_states states =
     (if list_ex invalid_state states \<or> length (remdups (map tl states)) \<noteq> 1
      then Inl (RuntimeError ''KT checkpoint control flow differs across ranks'')
      else Inr (map hd states))"

definition ints_of :: "'x msg \<Rightarrow> int list" where
  "ints_of m = (case m of Ints vs \<Rightarrow> vs | Text _ \<Rightarrow> [])"

definition text_of :: "'x msg \<Rightarrow> string" where
  "text_of m = (case m of Text s \<Rightarrow> s | Ints _ \<Rightarrow> [])"

definition replies :: "'x rep \<Rightarrow> 'x msg list" where
  "replies r = (case r of Replies ms \<Rightarrow> ms | _ \<Rightarrow> [])"

definition chunks :: "'x rep \<Rightarrow> 'x list list" where
  "chunks r = (case r of Chunks cs \<Rightarrow> cs | _ \<Rightarrow> [])"

text \<open>\<open>process_world\<close> is \<open>dist.get_world_size()\<close>, \<open>None\<close> when no process group is initialised.\<close>

definition all_gather_checkpoint_state :: "nat option \<Rightarrow> nat \<Rightarrow> int \<Rightarrow> ck_control \<Rightarrow> ('x, 's, int list) dop" where
  "all_gather_checkpoint_state process_world world qlen c s =
     (if world = 1 then dlocal (elift (check_states [encode_state qlen c])) s
      else case process_world of
             None \<Rightarrow> draise (RuntimeError ''requires an initialized process group'') s
           | Some n \<Rightarrow>
               (if n \<noteq> world then draise (RuntimeError ''Checkpoint state world-size mismatch'') s
                else dbind (dcomm (AllGather (Ints (encode_state qlen c)))) (\<lambda>rep.
                     dlocal (elift (check_states (map ints_of (replies rep))))) s))"

definition all_gather_qlens :: "int \<Rightarrow> ('x, 's, int list) dop" where
  "all_gather_qlens qlen =
     dbind (dcomm (AllGather (Ints [qlen]))) (\<lambda>rep. dreturn (map (hd \<circ> ints_of) (replies rep)))"

section \<open>Gather and scatter\<close>

definition qlen_offsets :: "int list \<Rightarrow> int list" where
  "qlen_offsets qlens = fold (\<lambda>q offsets. offsets @ [last offsets + q]) qlens [0]"

definition py_slice :: "int \<Rightarrow> int \<Rightarrow> 'x list \<Rightarrow> 'x list" where
  "py_slice a b xs = take (nat (b - a)) (drop (nat a) xs)"

definition rank_slices :: "int list \<Rightarrow> 'x list \<Rightarrow> 'x list list" where
  "rank_slices qlens rows =
     map (\<lambda>i. py_slice (qlen_offsets qlens ! i) (qlen_offsets qlens ! Suc i) rows) [0..<length qlens]"

definition busy_peers :: "int list \<Rightarrow> nat \<Rightarrow> nat list" where
  "busy_peers qlens world = filter (\<lambda>i. 0 < qlens ! i) [1..<world]"

definition gather_varlen_to_rank0 ::
  "'x list \<Rightarrow> int list \<Rightarrow> nat \<Rightarrow> nat \<Rightarrow> ('x, 's, 'x list list option) dop" where
  "gather_varlen_to_rank0 rows qlens rank world =
     (if int (length rows) \<noteq> qlens ! rank then draise (RuntimeError ''Local leading dim mismatch'')
      else if rank = 0 then
        (let peers = busy_peers qlens world in
         if peers = [] then dreturn (Some (rows # map (\<lambda>_. []) [1..<world]))
         else dbind (dcomm (RecvFrom (map (\<lambda>i. (i, nat (qlens ! i))) peers))) (\<lambda>rep.
              dreturn (Some (rows # map (\<lambda>i. case map_of (zip peers (chunks rep)) i of None \<Rightarrow> [] | Some c \<Rightarrow> c) [1..<world]))))
      else if 0 < qlens ! rank then dbind (dcomm (SendRoot rows)) (\<lambda>_. dreturn None)
      else dreturn None)"

definition scatter_varlen_from_rank0 ::
  "'x list list option \<Rightarrow> int list \<Rightarrow> nat \<Rightarrow> nat \<Rightarrow> ('x, 's, 'x list) dop" where
  "scatter_varlen_from_rank0 rank0_chunks qlens rank world =
     (if rank = 0 then
        (case rank0_chunks of
           None \<Rightarrow> draise (RuntimeError ''rank0_chunks must contain one chunk per rank'')
         | Some cs \<Rightarrow>
             (if length cs \<noteq> world then draise (RuntimeError ''rank0_chunks must contain one chunk per rank'')
              else if int (length (cs ! 0)) \<noteq> qlens ! 0 then draise (RuntimeError ''Rank0 local chunk mismatch'')
              else if list_ex (\<lambda>i. int (length (cs ! i)) \<noteq> qlens ! i) (busy_peers qlens world)
              then draise (RuntimeError ''chunk mismatch on rank0'')
              else if busy_peers qlens world = [] then dreturn (cs ! 0)
              else dbind (dcomm (SendTo (map (\<lambda>i. (i, cs ! i)) (busy_peers qlens world)))) (\<lambda>_. dreturn (cs ! 0))))
      else if 0 < qlens ! rank then dbind (dcomm (RecvRoot (nat (qlens ! rank)))) (\<lambda>rep. dreturn (hd (chunks rep)))
      else dreturn [])"

section \<open>Failures\<close>

definition exn_class :: "exn \<Rightarrow> string" where
  "exn_class e =
     (case e of
        ValueError _ \<Rightarrow> ''ValueError''
      | RuntimeError _ \<Rightarrow> ''RuntimeError''
      | TypeError _ \<Rightarrow> ''TypeError''
      | KeyError _ \<Rightarrow> ''KeyError''
      | ImportError _ \<Rightarrow> ''ImportError''
      | NotImplementedError _ \<Rightarrow> ''NotImplementedError''
      | FileNotFoundError _ \<Rightarrow> ''FileNotFoundError''
      | PermissionError _ \<Rightarrow> ''PermissionError''
      | FileExistsError _ \<Rightarrow> ''FileExistsError''
      | AttributeError _ \<Rightarrow> ''AttributeError''
      | OSError _ \<Rightarrow> ''OSError''
      | IndexError _ \<Rightarrow> ''IndexError''
      | ConfigError _ \<Rightarrow> ''KTAMXConfigError''
      | NotAvailableError _ \<Rightarrow> ''KTAMXNotAvailableError'')"

definition exn_message :: "exn \<Rightarrow> string" where
  "exn_message e =
     (case e of
        ValueError s \<Rightarrow> s
      | RuntimeError s \<Rightarrow> s
      | TypeError s \<Rightarrow> s
      | KeyError s \<Rightarrow> s
      | ImportError s \<Rightarrow> s
      | NotImplementedError s \<Rightarrow> s
      | FileNotFoundError s \<Rightarrow> s
      | PermissionError s \<Rightarrow> s
      | FileExistsError s \<Rightarrow> s
      | AttributeError s \<Rightarrow> s
      | OSError s \<Rightarrow> s
      | IndexError s \<Rightarrow> s
      | ConfigError s \<Rightarrow> s
      | NotAvailableError s \<Rightarrow> s)"

text \<open>\<open>f"{type(error).__name__}: {error}"\<close>.\<close>

definition exn_text :: "exn \<Rightarrow> string" where
  "exn_text e = exn_class e @ '': '' @ exn_message e"

definition encoded_error :: "bool \<Rightarrow> exn option \<Rightarrow> string" where
  "encoded_error mine err = (case err of Some e \<Rightarrow> (if mine then exn_text e else []) | None \<Rightarrow> [])"

definition raise_synced :: "string \<Rightarrow> string \<Rightarrow> ('x, 's, unit) dop" where
  "raise_synced ctx text = draise (RuntimeError (ctx @ '': '' @ text))"

definition sync_rank0_exception :: "string \<Rightarrow> exn option \<Rightarrow> nat \<Rightarrow> nat \<Rightarrow> ('x, 's, unit) dop" where
  "sync_rank0_exception ctx err rank world =
     (if world \<le> 1 then (case err of None \<Rightarrow> dreturn () | Some e \<Rightarrow> raise_synced ctx (exn_message e))
      else (let text = encoded_error (rank = 0) err in
        dbind (dcomm (Bcast 0 (Ints [int (length text)]))) (\<lambda>rep.
        if hd (ints_of (hd (replies rep))) = 0 then dreturn ()
        else dbind (dcomm (Bcast 0 (Text text))) (\<lambda>rep2. raise_synced ctx (text_of (hd (replies rep2)))))))"

definition sync_any_rank_exception :: "string \<Rightarrow> exn option \<Rightarrow> nat \<Rightarrow> nat \<Rightarrow> ('x, 's, unit) dop" where
  "sync_any_rank_exception ctx err rank world =
     (if world \<le> 1 then (case err of None \<Rightarrow> dreturn () | Some e \<Rightarrow> raise_synced ctx (exn_message e))
      else (let text = encoded_error True err in
        dbind (dcomm (AllGather (Ints [int (length text)]))) (\<lambda>rep.
        (let lengths = map (hd \<circ> ints_of) (replies rep);
             failing = filter (\<lambda>i. 0 < lengths ! i) [0..<length lengths] in
         if failing = [] then dreturn ()
         else dbind (dcomm (Bcast (hd failing) (Text text))) (\<lambda>rep2.
              raise_synced (ctx @ '' on rank '' @ str_of_int (int (hd failing))) (text_of (hd (replies rep2))))))))"

definition any_rank_error :: "string \<Rightarrow> nat \<Rightarrow> exn \<Rightarrow> exn" where
  "any_rank_error ctx j e = RuntimeError (ctx @ '' on rank '' @ str_of_int (int j) @ '': '' @ exn_text e)"

section \<open>What every rank sees\<close>

lemma exn_text_nonempty [simp]: "exn_text e \<noteq> []"
  by (simp add: exn_text_def)

lemma reply_simps [simp]:
  "replies (Replies ms) = ms" "chunks (Chunks cs) = cs" "ints_of (Ints vs) = vs" "text_of (Text s) = s"
  by (simp_all add: replies_def chunks_def ints_of_def text_of_def)

lemma spmd_return: "spmd n (\<lambda>i. dreturn (A i)) S (\<lambda>i. (Inr (A i), S i))"
  by (rule spmd_local) (simp add: dreturn_def)

lemma spmd_raise: "spmd n (\<lambda>i. draise (E i)) S (\<lambda>i. (Inl (E i), S i))"
  by (rule spmd_local) (simp add: draise_def)

lemma spmd_sync_rank0:
  assumes n: "1 < n"
  shows "spmd n (\<lambda>i. sync_rank0_exception ctx (err i) i n) S
    (\<lambda>i. (case err 0 of None \<Rightarrow> Inr () | Some e \<Rightarrow> Inl (RuntimeError (ctx @ '': '' @ exn_text e)), S i))"
proof -
  let ?text = "\<lambda>i. encoded_error (i = 0) (err i)"
  let ?n0 = "int (length (?text 0))"
  have b: "spmd n (\<lambda>i. dcomm (Bcast 0 (Ints [int (length (?text i))]))) S (\<lambda>i. (Inr (Replies [Ints [?n0]]), S i))"
    by (rule spmd_bcast) (use n in simp)
  have k: "spmd n (\<lambda>i. if ?n0 = 0 then dreturn () else dbind (dcomm (Bcast 0 (Text (?text i))))
        (\<lambda>rep2. raise_synced ctx (text_of (hd (replies rep2))))) S
      (\<lambda>i. (case err 0 of None \<Rightarrow> Inr () | Some e \<Rightarrow> Inl (RuntimeError (ctx @ '': '' @ exn_text e)), S i))"
  proof (cases "err 0")
    case None
    then show ?thesis using spmd_return [of n "\<lambda>_. ()" S] by (simp add: encoded_error_def)
  next
    case (Some e)
    have A: "spmd n (\<lambda>i. dcomm (Bcast 0 (Text (?text i)))) S (\<lambda>i. (Inr (Replies [Text (?text 0)]), S i))"
      by (rule spmd_bcast) (use n in simp)
    have B: "spmd n (\<lambda>i. raise_synced ctx (text_of (hd (replies (Replies [Text (?text 0)]))))) S
        (\<lambda>i. (Inl (RuntimeError (ctx @ '': '' @ exn_text e)), S i))"
      unfolding raise_synced_def using spmd_raise [of n "\<lambda>_. RuntimeError (ctx @ '': '' @ exn_text e)" S]
      by (simp add: encoded_error_def Some)
    have "?n0 \<noteq> 0" using Some by (simp add: encoded_error_def)
    moreover have "spmd n (\<lambda>i. dbind (dcomm (Bcast 0 (Text (?text i)))) (\<lambda>rep2. raise_synced ctx (text_of (hd (replies rep2))))) S
        (\<lambda>i. (Inl (RuntimeError (ctx @ '': '' @ exn_text e)), S i))"
      by (rule spmd_bind [OF A]) (rule B)
    ultimately show ?thesis using Some by simp
  qed
  have "spmd n (\<lambda>i. dbind (dcomm (Bcast 0 (Ints [int (length (?text i))]))) (\<lambda>rep.
        if hd (ints_of (hd (replies rep))) = 0 then dreturn ()
        else dbind (dcomm (Bcast 0 (Text (?text i)))) (\<lambda>rep2. raise_synced ctx (text_of (hd (replies rep2)))))) S
      (\<lambda>i. (case err 0 of None \<Rightarrow> Inr () | Some e \<Rightarrow> Inl (RuntimeError (ctx @ '': '' @ exn_text e)), S i))"
    by (rule spmd_bind [OF b]) (use k in simp)
  with n show ?thesis unfolding sync_rank0_exception_def Let_def by simp
qed

lemma find_hd_filter: "filter P xs \<noteq> [] \<Longrightarrow> find P xs = Some (hd (filter P xs))"
  by (induction xs) auto

lemma spmd_sync_any:
  assumes n: "1 < n"
  shows "spmd n (\<lambda>i. sync_any_rank_exception ctx (err i) i n) S
    (\<lambda>i. (case find (\<lambda>j. err j \<noteq> None) [0..<n] of None \<Rightarrow> Inr ()
           | Some j \<Rightarrow> Inl (any_rank_error ctx j (the (err j))), S i))"
proof -
  let ?text = "\<lambda>i. encoded_error True (err i)"
  let ?lens = "map (\<lambda>i. int (length (?text i))) [0..<n]"
  let ?failing = "filter (\<lambda>i. 0 < ?lens ! i) [0..<length ?lens]"
  have f: "?failing = filter (\<lambda>j. err j \<noteq> None) [0..<n]"
    by (auto simp: encoded_error_def intro!: filter_cong split: option.splits)
  have b: "spmd n (\<lambda>i. dcomm (AllGather (Ints [int (length (?text i))]))) S
      (\<lambda>i. (Inr (Replies (map (\<lambda>i. Ints [int (length (?text i))]) [0..<n])), S i))"
    by (rule spmd_gather_all) (use n in simp)
  have lens: "map (hd \<circ> ints_of) (replies (Replies (map (\<lambda>i. Ints [int (length (?text i))]) [0..<n]))) = ?lens" by simp
  let ?R = "\<lambda>i. (case find (\<lambda>j. err j \<noteq> None) [0..<n] of None \<Rightarrow> Inr ()
           | Some j \<Rightarrow> Inl (any_rank_error ctx j (the (err j))), S i)"
  have k: "spmd n (\<lambda>i. if ?failing = [] then dreturn ()
         else dbind (dcomm (Bcast (hd ?failing) (Text (?text i)))) (\<lambda>rep2. raise_synced (ctx @ '' on rank '' @ str_of_int (int (hd ?failing))) (text_of (hd (replies rep2))))) S ?R"
  proof (cases "?failing = []")
    case True
    then have "find (\<lambda>j. err j \<noteq> None) [0..<n] = None" unfolding f by (auto simp: find_None_iff filter_empty_conv)
    with True spmd_return [of n "\<lambda>_. ()" S] show ?thesis by simp
  next
    case False
    let ?j = "hd ?failing"
    have j: "?j < n" "err ?j \<noteq> None" using hd_in_set [OF False] unfolding f by auto
    have fj: "find (\<lambda>j. err j \<noteq> None) [0..<n] = Some ?j" using False unfolding f by (rule find_hd_filter)
    have A: "spmd n (\<lambda>i. dcomm (Bcast ?j (Text (?text i)))) S (\<lambda>i. (Inr (Replies [Text (?text ?j)]), S i))"
      by (rule spmd_bcast [OF j(1)])
    have B: "spmd n (\<lambda>i. raise_synced (ctx @ '' on rank '' @ str_of_int (int ?j)) (text_of (hd (replies (Replies [Text (?text ?j)]))))) S
        (\<lambda>i. (Inl (any_rank_error ctx ?j (the (err ?j))), S i))"
      using j(2) unfolding raise_synced_def
      using spmd_raise [of n "\<lambda>_. any_rank_error ctx ?j (the (err ?j))" S] by (auto simp: encoded_error_def any_rank_error_def)
    have "spmd n (\<lambda>i. dbind (dcomm (Bcast ?j (Text (?text i)))) (\<lambda>rep2. raise_synced (ctx @ '' on rank '' @ str_of_int (int (hd ?failing))) (text_of (hd (replies rep2))))) S
        (\<lambda>i. (Inl (any_rank_error ctx ?j (the (err ?j))), S i))"
      by (rule spmd_bind [OF A]) (rule B)
    with False show ?thesis unfolding fj by simp
  qed
  have "spmd n (\<lambda>i. dbind (dcomm (AllGather (Ints [int (length (?text i))]))) (\<lambda>rep.
        (let lengths = map (hd \<circ> ints_of) (replies rep);
             failing = filter (\<lambda>i. 0 < lengths ! i) [0..<length lengths] in
         if failing = [] then dreturn ()
         else dbind (dcomm (Bcast (hd failing) (Text (?text i)))) (\<lambda>rep2.
              raise_synced (ctx @ '' on rank '' @ str_of_int (int (hd failing))) (text_of (hd (replies rep2))))))) S ?R"
    by (rule spmd_bind [OF b]) (use k in \<open>simp only: lens Let_def\<close>)
  with n show ?thesis unfolding sync_any_rank_exception_def Let_def by simp
qed

section \<open>Agreement of all ranks\<close>

lemma phase_id_inj: "\<not> phase_id p < 0 \<Longrightarrow> phase_id q = phase_id p \<Longrightarrow> q = p"
  by (simp add: phase_id_def split: if_splits)

lemma action_id_inj: "\<not> action_id a < 0 \<Longrightarrow> action_id b = action_id a \<Longrightarrow> b = a"
  by (simp add: action_id_def split: if_splits)

lemma policy_id_inj: "\<not> policy_id p < 0 \<Longrightarrow> policy_id q = policy_id p \<Longrightarrow> q = p"
  by (simp add: policy_id_def split: if_splits)

lemma one_value: "length (remdups xs) = 1 \<Longrightarrow> x \<in> set xs \<Longrightarrow> y \<in> set xs \<Longrightarrow> x = y"
  by (metis card_1_singletonE length_remdups_card_conv singletonD)

lemma encode_state_inj:
  "\<not> invalid_state (encode_state q c) \<Longrightarrow> tl (encode_state q c) = tl (encode_state q' c') \<Longrightarrow> c = c'"
  by (auto simp: encode_state_def invalid_state_def dest: phase_id_inj action_id_inj policy_id_inj
      intro!: ck_control.equality split: if_splits)

lemma check_states_agree:
  assumes "check_states (map (\<lambda>i. encode_state (q i) (c i)) [0..<n]) = Inr qs"
  shows "qs = map q [0..<n]" "\<And>i. i < n \<Longrightarrow> 0 \<le> q i" "\<And>i j. i < n \<Longrightarrow> j < n \<Longrightarrow> c i = c j"
proof -
  let ?st = "map (\<lambda>i. encode_state (q i) (c i)) [0..<n]"
  have ok: "\<not> list_ex invalid_state ?st" and one: "length (remdups (map tl ?st)) = 1" and qs: "qs = map hd ?st"
    using assms by (simp_all add: check_states_def split: if_splits)
  show "qs = map q [0..<n]" unfolding qs by (simp add: encode_state_def comp_def)
  have v: "\<not> invalid_state (encode_state (q i) (c i))" if "i < n" for i
    using ok that by (simp add: list_ex_iff)
  show "0 \<le> q i" if "i < n" for i using v [OF that] by (simp add: invalid_state_def encode_state_def)
  show "c i = c j" if "i < n" "j < n" for i j
  proof (rule encode_state_inj [OF v [OF that(1)]])
    show "tl (encode_state (q i) (c i)) = tl (encode_state (q j) (c j))"
      by (rule one_value [OF one]) (use that in auto)
  qed
qed

lemma spmd_check_state:
  assumes n: "1 < n"
  shows "spmd n (\<lambda>i. all_gather_checkpoint_state (Some n) n (q i) (c i)) S
    (\<lambda>i. (check_states (map (\<lambda>i. encode_state (q i) (c i)) [0..<n]), S i))"
proof -
  let ?v = "\<lambda>i. Ints (encode_state (q i) (c i))"
  have "spmd n (\<lambda>i. dbind (dcomm (AllGather (?v i))) (\<lambda>rep. dlocal (elift (check_states (map ints_of (replies rep)))))) S
    (\<lambda>i. (check_states (map (\<lambda>i. encode_state (q i) (c i)) [0..<n]), S i))"
  proof (rule spmd_bind)
    show "spmd n (\<lambda>i. dcomm (AllGather (?v i))) S (\<lambda>i. (Inr (Replies (map ?v [0..<n])), S i))"
      by (rule spmd_gather_all) (use n in simp)
    show "spmd n (\<lambda>i. dlocal (elift (check_states (map ints_of (replies (Replies (map ?v [0..<n]))))))) S
       (\<lambda>i. (check_states (map (\<lambda>i. encode_state (q i) (c i)) [0..<n]), S i))"
      by (rule spmd_local) (simp add: dlocal_def elift_def comp_def)
  qed
  with n show ?thesis
    by (subst spmd_cong [where M' = "\<lambda>i. dbind (dcomm (AllGather (?v i)))
        (\<lambda>rep. dlocal (elift (check_states (map ints_of (replies rep)))))" and S' = S])
      (simp_all add: all_gather_checkpoint_state_def)
qed

section \<open>Gather and scatter of all ranks\<close>

lemma busy_peers_empty: "busy_peers qs n = [] \<Longrightarrow> 0 < i \<Longrightarrow> i < n \<Longrightarrow> \<not> 0 < qs ! i"
  by (auto simp: busy_peers_def filter_empty_conv)

lemma upt_rank0: "0 < n \<Longrightarrow> [0..<n] = 0 # [1..<n]"
  by (simp add: upt_conv_Cons)

lemma map_of_peers:
  assumes "\<And>i. i \<in> set js \<Longrightarrow> i \<notin> set ps \<Longrightarrow> V i = []"
  shows "map (\<lambda>i. case map_of (zip ps (map V ps)) i of None \<Rightarrow> [] | Some c \<Rightarrow> c) js = map V js"
  using assms by (auto simp: map_of_zip_map)

lemma spmd_gather_varlen:
  assumes n: "0 < n" and qs: "\<And>i. i < n \<Longrightarrow> int (length (V i)) = qs ! i"
  shows "spmd n (\<lambda>i. gather_varlen_to_rank0 (V i) qs i n) S
    (\<lambda>i. (Inr (if i = 0 then Some (map V [0..<n]) else None), S i))"
proof -
  let ?ps = "busy_peers qs n"
  have empty: "V i = []" if "0 < i" "i < n" "i \<notin> set ?ps" for i
    using that qs [of i] by (cases "V i") (simp_all add: busy_peers_def)
  let ?rest = "\<lambda>rep. map (\<lambda>i. case map_of (zip ?ps (chunks rep)) i of None \<Rightarrow> [] | Some c \<Rightarrow> c) [1..<n]"
  show ?thesis
  proof (cases "?ps = []")
    case True
    then have "map (\<lambda>_. []) [1..<n] = map V [1..<n]" using empty by simp
    with True n qs show ?thesis
      by (intro spmd_local)
        (use busy_peers_empty [OF True] in \<open>auto simp: gather_varlen_to_rank0_def dreturn_def upt_rank0\<close>)
  next
    case False
    let ?q = "\<lambda>i. length (V i)"
    have ps: "filter (\<lambda>i. 0 < ?q i) [1..<n] = ?ps"
      unfolding busy_peers_def by (rule filter_cong) (use qs in \<open>auto simp flip: qs\<close>)
    have specs: "map (\<lambda>i. (i, nat (qs ! i))) ?ps = map (\<lambda>i. (i, ?q i)) ?ps"
      using qs by (auto simp: busy_peers_def simp flip: qs)
    let ?M = "\<lambda>i. if i = 0 then dcomm (RecvFrom (map (\<lambda>i. (i, ?q i)) ?ps))
                  else if 0 < ?q i then dcomm (SendRoot (V i)) else dreturn Ack"
    let ?K = "\<lambda>i rep. dreturn (if i = 0 then Some (V 0 # ?rest rep) else None)"
    have "spmd n (\<lambda>i. dbind (?M i) (?K i)) S (\<lambda>i. (Inr (if i = 0 then Some (map V [0..<n]) else None), S i))"
    proof (rule spmd_bind)
      show "spmd n ?M S (\<lambda>i. (Inr (if i = 0 then Chunks (map V ?ps) else Ack), S i))"
        using spmd_recv [of n V ?q S] n unfolding ps by simp
      have "?rest (Chunks (map V ?ps)) = map V [1..<n]"
        unfolding reply_simps by (rule map_of_peers) (use empty in simp)
      then show "spmd n (\<lambda>i. ?K i (if i = 0 then Chunks (map V ?ps) else Ack)) S
          (\<lambda>i. (Inr (if i = 0 then Some (map V [0..<n]) else None), S i))"
        by (intro spmd_local) (simp add: dreturn_def upt_rank0 n)
    qed
    moreover have "gather_varlen_to_rank0 (V i) qs i n (S i) = dbind (?M i) (?K i) (S i)" if "i < n" for i
    proof (cases "i = 0")
      case True
      with False n qs [of 0] show ?thesis
        unfolding specs [symmetric] by (simp add: gather_varlen_to_rank0_def Let_def dbind_def)
    next
      case False
      with that show ?thesis
        by (auto simp: gather_varlen_to_rank0_def dbind_def dreturn_def simp flip: qs)
    qed
    ultimately show ?thesis
      by (subst spmd_cong [where M' = "\<lambda>i. dbind (?M i) (?K i)" and S' = S]) auto
  qed
qed

lemma spmd_scatter_varlen:
  assumes n: "0 < n" and qs: "\<And>i. i < n \<Longrightarrow> int (length (V i)) = qs ! i"
    and C: "C 0 = Some (map V [0..<n])"
  shows "spmd n (\<lambda>i. scatter_varlen_from_rank0 (C i) qs i n) S (\<lambda>i. (Inr (V i), S i))"
proof -
  let ?ps = "busy_peers qs n"
  have sub: "i \<in> set ?ps \<Longrightarrow> 0 < i \<and> i < n" for i by (auto simp: busy_peers_def)
  have len: "\<not> list_ex (\<lambda>i. int (length (map V [0..<n] ! i)) \<noteq> qs ! i) ?ps"
    using qs by (auto simp: list_ex_iff busy_peers_def)
  have empty: "V i = []" if "i < n" "\<not> 0 < qs ! i" for i using that qs [of i] by (cases "V i") simp_all
  show ?thesis
  proof (cases "?ps = []")
    case True
    have "scatter_varlen_from_rank0 (C i) qs i n (S i) = Fin (Inr (V i), S i)" if i: "i < n" for i
      using True busy_peers_empty [OF True, of i] n qs [of 0] C empty [OF i] i
      by (cases "i = 0") (simp_all add: scatter_varlen_from_rank0_def dreturn_def)
    then show ?thesis by (rule spmd_local)
  next
    case False
    let ?q = "\<lambda>i. length (V i)"
    have ps: "filter (\<lambda>i. 0 < ?q i) [1..<n] = ?ps"
      unfolding busy_peers_def by (rule filter_cong) (use qs in \<open>auto simp flip: qs\<close>)
    have parts: "map (\<lambda>i. (i, map V [0..<n] ! i)) ?ps = map (\<lambda>i. (i, V i)) ?ps" using sub by auto
    let ?M = "\<lambda>i. if i = 0 then dcomm (SendTo (map (\<lambda>i. (i, V i)) ?ps))
                  else if 0 < ?q i then dcomm (RecvRoot (?q i)) else dreturn (Chunks [[]])"
    let ?K = "\<lambda>i rep. dreturn (if i = 0 then V 0 else hd (chunks rep))"
    have "spmd n (\<lambda>i. dbind (?M i) (?K i)) S (\<lambda>i. (Inr (V i), S i))"
    proof (rule spmd_bind)
      show "spmd n ?M S (\<lambda>i. (Inr (if i = 0 then Ack else Chunks [V i]), S i))"
        using spmd_send [of n V ?q S] n unfolding ps by simp
      show "spmd n (\<lambda>i. ?K i (if i = 0 then Ack else Chunks [V i])) S (\<lambda>i. (Inr (V i), S i))"
        by (rule spmd_local) (simp add: dreturn_def)
    qed
    moreover have "scatter_varlen_from_rank0 (C i) qs i n (S i) = dbind (?M i) (?K i) (S i)" if i: "i < n" for i
    proof (cases "i = 0")
      case True
      with False len C qs [OF i] n show ?thesis
        unfolding parts [symmetric] by (simp add: scatter_varlen_from_rank0_def dbind_def)
    next
      case False
      with i qs [OF i] show ?thesis
        by (auto simp: scatter_varlen_from_rank0_def dbind_def dreturn_def simp flip: qs)
    qed
    ultimately show ?thesis
      by (subst spmd_cong [where M' = "\<lambda>i. dbind (?M i) (?K i)" and S' = S]) auto
  qed
qed

section \<open>Slices of the concatenated rows\<close>

lemma fold_offsets:
  "fold (\<lambda>q offsets. offsets @ [last offsets + q]) qs (os @ [z]) = os @ map (\<lambda>i. z + sum_list (take i qs)) [0..<Suc (length qs)]"
proof (induction qs arbitrary: os z)
  case (Cons q qs)
  have "map (\<lambda>i. z + sum_list (take i (q # qs))) [0..<Suc (Suc (length qs))] =
      z # map (\<lambda>i. z + q + sum_list (take i qs)) [0..<Suc (length qs)]"
    by (subst upt_conv_Cons) (simp_all add: map_Suc_upt [symmetric] comp_def add.assoc del: upt_Suc)
  then show ?case using Cons [of "os @ [z]" "z + q"] by (simp del: upt_Suc)
qed simp

lemma qlen_offsets_nth: "i \<le> length qs \<Longrightarrow> qlen_offsets qs ! i = sum_list (take i qs)"
  unfolding qlen_offsets_def using fold_offsets [of qs "[]" 0] by (simp del: upt_Suc)

lemma sum_lengths: "sum_list (map (\<lambda>c. int (length c)) cs) = int (length (concat cs))"
  by (induction cs) simp_all

lemma slice_of_concat:
  assumes "i < length cs"
  shows "py_slice (int (length (concat (take i cs)))) (int (length (concat (take (Suc i) cs)))) (concat cs) = cs ! i"
proof -
  have "concat cs = concat (take i cs) @ cs ! i @ concat (drop (Suc i) cs)"
    using assms by (metis append_take_drop_id concat.simps(2) concat_append Cons_nth_drop_Suc)
  then show ?thesis using assms by (simp add: py_slice_def take_Suc_conv_app_nth)
qed

lemma rank_slices_concat:
  assumes "qs = map (\<lambda>c. int (length c)) cs"
  shows "rank_slices qs (concat cs) = cs"
proof (rule nth_equalityI)
  fix i assume "i < length (rank_slices qs (concat cs))"
  then have i: "i < length cs" using assms by (simp add: rank_slices_def)
  have off: "qlen_offsets qs ! j = int (length (concat (take j cs)))" if "j \<le> length cs" for j
    using that assms qlen_offsets_nth [of j qs] by (simp add: take_map sum_lengths)
  show "rank_slices qs (concat cs) ! i = cs ! i"
    using i assms off slice_of_concat [OF i] by (simp add: rank_slices_def)
qed (use assms in \<open>simp add: rank_slices_def\<close>)

lemma rank_slices_nth: "i < length qs \<Longrightarrow> rank_slices qs rows ! i =
    py_slice (sum_list (take i qs)) (sum_list (take (Suc i) qs)) rows"
  by (simp add: rank_slices_def qlen_offsets_nth)

lemma rank_slices_length [simp]: "length (rank_slices qs rows) = length qs"
  by (simp add: rank_slices_def)

lemma rank_slices_lengths:
  assumes nn: "\<And>q. q \<in> set qs \<Longrightarrow> 0 \<le> q" and len: "int (length rows) = sum_list qs" and i: "i < length qs"
  shows "int (length (rank_slices qs rows ! i)) = qs ! i"
proof -
  have "sum_list qs = sum_list (take (Suc i) qs) + sum_list (drop (Suc i) qs)"
    by (metis append_take_drop_id sum_list_append)
  moreover have "0 \<le> sum_list (drop (Suc i) qs)" "0 \<le> sum_list (take i qs)"
    by (rule sum_list_nonneg; use nn in \<open>auto dest: in_set_dropD in_set_takeD\<close>)+
  moreover have "sum_list (take (Suc i) qs) = sum_list (take i qs) + qs ! i" "0 \<le> qs ! i"
    using i nn by (simp_all add: take_Suc_conv_app_nth)
  ultimately show ?thesis
    unfolding rank_slices_nth [OF i] using len by (simp add: py_slice_def min_def) arith
qed

lemma concat_rank_slices:
  assumes nn: "\<And>q. q \<in> set qs \<Longrightarrow> 0 \<le> q" and len: "int (length rows) = sum_list qs"
  shows "concat (rank_slices qs rows) = rows"
  using assms
proof (induction qs arbitrary: rows rule: rev_induct)
  case (snoc q qs)
  let ?m = "nat (sum_list qs)"
  have nn: "0 \<le> sum_list qs" by (rule sum_list_nonneg) (use snoc.prems in auto)
  have q: "0 \<le> q" using snoc.prems by simp
  have len: "int (length (take ?m rows)) = sum_list qs"
    using snoc.prems(2) nn q by (simp add: min_def) arith
  have le: "sum_list (take (Suc i) qs) \<le> sum_list qs" for i
  proof -
    have "sum_list qs = sum_list (take (Suc i) qs) + sum_list (drop (Suc i) qs)"
      by (metis append_take_drop_id sum_list_append)
    moreover have "0 \<le> sum_list (drop (Suc i) qs)"
      by (rule sum_list_nonneg) (use snoc.prems in \<open>auto dest: in_set_dropD\<close>)
    ultimately show ?thesis by simp
  qed
  have "rank_slices (qs @ [q]) rows = rank_slices qs (take ?m rows) @ [drop ?m rows]"
  proof (rule nth_equalityI)
    fix i assume "i < length (rank_slices (qs @ [q]) rows)"
    then consider "i < length qs" | "i = length qs" by fastforce
    then show "rank_slices (qs @ [q]) rows ! i = (rank_slices qs (take ?m rows) @ [drop ?m rows]) ! i"
    proof cases
      case 1
      have "0 \<le> sum_list (take i qs)" by (rule sum_list_nonneg) (use snoc.prems in \<open>auto dest: in_set_takeD\<close>)
      with 1 le [of i] show ?thesis
        by (simp add: rank_slices_nth nth_append py_slice_def drop_take min_def)
    next
      case 2
      with snoc.prems nn show ?thesis by (simp add: rank_slices_nth py_slice_def nth_append)
    qed
  qed simp
  then show ?case using snoc.IH [OF _ len] snoc.prems by simp
qed (simp add: rank_slices_def)

section \<open>What the protocol gives\<close>

text \<open>
  C23. The agreement is sound and uniform: all ranks get the same verdict, none is left waiting, and
  when it is positive every rank knows the true sequence lengths, all of them non-negative, and all
  ranks were in the same layer, phase, action, activation policy and owner state.
\<close>

theorem agreement_sound:
  assumes n: "1 < n"
  shows "\<exists>v. spmd n (\<lambda>i. all_gather_checkpoint_state (Some n) n (q i) (c i)) S (\<lambda>i. (v, S i)) \<and>
    (\<forall>qs. v = Inr qs \<longrightarrow> qs = map q [0..<n] \<and> list_all (\<lambda>i. 0 \<le> q i \<and> c i = c 0) [0..<n])"
proof (intro exI conjI allI impI)
  show "spmd n (\<lambda>i. all_gather_checkpoint_state (Some n) n (q i) (c i)) S
      (\<lambda>i. (check_states (map (\<lambda>i. encode_state (q i) (c i)) [0..<n]), S i))"
    by (rule spmd_check_state [OF n])
  fix qs assume ok: "check_states (map (\<lambda>i. encode_state (q i) (c i)) [0..<n]) = Inr qs"
  show "qs = map q [0..<n]" by (rule check_states_agree(1) [OF ok])
  show "list_all (\<lambda>i. 0 \<le> q i \<and> c i = c 0) [0..<n]"
    unfolding list_all_iff
  proof (intro ballI conjI)
    fix i assume "i \<in> set [0..<n]"
    then have i: "i < n" by simp
    show "0 \<le> q i" by (rule check_states_agree(2) [OF ok i])
    show "c i = c 0" by (rule check_states_agree(3) [OF ok i]) (use n in simp)
  qed
qed

definition sample_control :: "nat \<Rightarrow> ck_control" where
  "sample_control i = \<lparr>cc_layer = 3, cc_phase = ''recompute'', cc_action = (if i = 2 then ''normal'' else ''reuse_recompute''),
     cc_cpu_policy = Some ''retain'', cc_gpu_policy = Some ''recompute'', cc_owner_valid = True\<rparr>"

theorem agreement_sound_witness:
  "\<exists>e. spmd 3 (\<lambda>i. all_gather_checkpoint_state (Some 3) 3 (int i) (sample_control i) :: (nat, unit, int list) dop) (\<lambda>_. ()) (\<lambda>i. (Inl e, ()))"
proof -
  obtain v where v: "spmd 3 (\<lambda>i. all_gather_checkpoint_state (Some 3) 3 (int i) (sample_control i) :: (nat, unit, int list) dop) (\<lambda>_. ()) (\<lambda>i. (v, ()))"
    "\<forall>qs. v = Inr qs \<longrightarrow> list_all (\<lambda>i. 0 \<le> int i \<and> sample_control i = sample_control 0) [0..<3]"
    using agreement_sound [of 3 int sample_control "\<lambda>_. ()"] by auto
  have "\<not> list_all (\<lambda>i. 0 \<le> int i \<and> sample_control i = sample_control 0) [0..<3]"
    by code_simp
  with v(2) have "\<exists>e. v = Inl e" by (cases v) auto
  with v(1) show ?thesis by blast
qed

text \<open>
  Scattering what was gathered gives every rank its own rows back: the gather to rank 0 followed by
  the scatter of the concatenated rows, cut at the offsets of the sequence lengths, is the identity
  on every rank, also when some ranks, or all of them, have no rows.
\<close>

theorem gather_scatter_roundtrip:
  assumes n: "0 < n"
  shows "spmd n (\<lambda>i. dbind (gather_varlen_to_rank0 (V i) (map (\<lambda>j. int (length (V j))) [0..<n]) i n)
      (\<lambda>g. scatter_varlen_from_rank0
         (map_option (\<lambda>cs. rank_slices (map (\<lambda>j. int (length (V j))) [0..<n]) (concat cs)) g)
         (map (\<lambda>j. int (length (V j))) [0..<n]) i n)) S (\<lambda>i. (Inr (V i), S i))"
proof -
  let ?qs = "map (\<lambda>j. int (length (V j))) [0..<n]"
  have gather: "spmd n (\<lambda>i. gather_varlen_to_rank0 (V i) ?qs i n) S (\<lambda>i. (Inr (if i = 0 then Some (map V [0..<n]) else None), S i))"
    by (rule spmd_gather_varlen [OF n]) simp
  have cut: "rank_slices ?qs (concat (map V [0..<n])) = map V [0..<n]" by (rule rank_slices_concat) simp
  have scatter: "spmd n (\<lambda>i. scatter_varlen_from_rank0
      (map_option (\<lambda>cs. rank_slices ?qs (concat cs)) (if i = 0 then Some (map V [0..<n]) else None)) ?qs i n) S (\<lambda>i. (Inr (V i), S i))"
    by (rule spmd_scatter_varlen [OF n]) (simp_all add: cut)
  show ?thesis by (rule spmd_bind [OF gather]) (rule scatter)
qed

theorem gather_scatter_roundtrip_witness:
  "spmd 3 (\<lambda>i. dbind (gather_varlen_to_rank0 (replicate i i) (map (\<lambda>j. int (length (replicate j j))) [0..<3]) i 3)
      (\<lambda>g. scatter_varlen_from_rank0
         (map_option (\<lambda>cs. rank_slices (map (\<lambda>j. int (length (replicate j j))) [0..<3]) (concat cs)) g)
         (map (\<lambda>j. int (length (replicate j j))) [0..<3]) i 3)) (\<lambda>_. ()) (\<lambda>i. (Inr (replicate i i), ()))"
  by (rule gather_scatter_roundtrip) simp

text \<open>The launcher environment never yields a rank outside the world.\<close>

lemma launcher_rank_in_world:
  "distributed_rank_world_size None rank_text world_text = Inr (rank, world) \<Longrightarrow> 0 \<le> rank \<and> rank < world"
  by (auto simp: distributed_rank_world_size_def split: option.splits if_splits)

end
