(* ===== verification/KTLayer.thy ===== *)
theory KTLayer
  imports DistUtils SftConfig SftWrapper
begin

text \<open>
  The forward pass of \<open>KTMoELayerWrapper\<close> in \<open>kt-kernel/python/sft/layer.py\<close> with the forward half of
  \<open>KTMoEFunction\<close> in \<open>kt-kernel/python/sft/autograd.py\<close>: one rank owns the CPU backend, the others send
  their tokens to it and receive their rows of the result. The arithmetic of the expert kernel is
  the parameter \<open>moe\<close> (hidden rows, expert ids, routing weights to output rows) and \<open>add\<close> adds two
  output rows. Calls that may raise take their exception from a \<open>kt_faults\<close> record.
\<close>

section \<open>Control\<close>

definition activation_checkpoint_action :: "kt_activation_policy \<Rightarrow> string \<Rightarrow> string" where
  "activation_checkpoint_action pol phase =
     (if pol_gpu pol = ''recompute'' \<and> pol_cpu pol = ''retain''
      then if phase = ''first_forward'' then ''cache_first_forward''
           else if phase = ''recompute'' then ''reuse_recompute''
           else ''normal''
      else ''normal'')"

definition validate_activation_checkpoint_phase :: "kt_activation_policy \<Rightarrow> string \<Rightarrow> bool \<Rightarrow> unit result" where
  "validate_activation_checkpoint_phase pol phase requires_backward =
     (if phase \<notin> {''none'', ''first_forward'', ''recompute''}
      then Inl (RuntimeError ''Cannot determine activation checkpoint phase'')
      else if pol_gpu pol = ''retain'' \<and> phase \<in> {''first_forward'', ''recompute''}
      then Inl (RuntimeError ''activation_policy.gpu=retain conflicts with active gradient checkpointing'')
      else if requires_backward \<and> pol_gpu pol = ''recompute'' \<and> phase = ''none''
      then Inl (RuntimeError ''activation_policy.gpu=recompute requires non-reentrant gradient checkpointing'')
      else Inr ())"

text \<open>
  \<open>_checkpoint_hook_mode\<close>: the explicit phase of the KT context manager, else what the innermost
  saved-tensors hook of autograd is: the query may raise, there may be no hook, its qualified name
  may not be readable.
\<close>

definition checkpoint_hook_mode :: "string option \<Rightarrow> string result option result \<Rightarrow> string" where
  "checkpoint_hook_mode explicit hooks =
     (case explicit of
        Some phase \<Rightarrow> phase
      | None \<Rightarrow>
          (case hooks of
             Inl _ \<Rightarrow> ''error''
           | Inr None \<Rightarrow> ''none''
           | Inr (Some (Inl _)) \<Rightarrow> ''other''
           | Inr (Some (Inr tag)) \<Rightarrow>
               (if contains ''_recomputation_hook.__init__.<locals>.pack_hook'' tag then ''recompute''
                else if contains ''_checkpoint_hook.__init__.<locals>.pack_hook'' tag then ''first_forward''
                else ''other'')))"

section \<open>State of a rank\<close>

text \<open>
  The backend of rank 0. \<open>kb_batch\<close> is the pending asynchronous forward with its \<open>save_for_backward\<close>
  flag, \<open>kb_depth\<close> the \<open>_cache_depth\<close> of the wrapper (how many forward caches a backward may consume),
  and \<open>kb_wgrad\<close> what the optimizer gradients are made of: for each contribution the divisor \<open>d\<close> of its
  \<open>optimizer_grad_scale = 1/d\<close> and the rows of output gradients it was computed from.
\<close>

record 'x kt_backend =
  kb_ckpt :: "'x ckpt"
  kb_batch :: "('x list \<times> 'x list \<times> 'x list \<times> bool) option"
  kb_depth :: int
  kb_wgrad :: "(nat \<times> 'x list) list"
  kb_weights_loaded :: bool
  kb_lora_initialized :: bool
  kb_load_failed :: bool
  kb_base_dirty :: bool
  kb_window :: bool

record 'x kt_layer =
  kl_backend :: "'x kt_backend option"
  kl_lora_dirty :: bool

record kt_faults =
  kf_lora :: "exn option"
  kf_base :: "exn option"
  kf_validate :: "exn option"
  kf_submit :: "exn option"
  kf_sync :: "exn option"
  kf_return :: "exn option"
  kf_copy :: "exn option"

text \<open>
  What a rank brings to a forward call. \<open>kr_gpu\<close> is \<open>None\<close> when the layer has neither shared nor
  LoRA experts, otherwise the outcome of computing them on the rank's own tokens.
\<close>

record 'x kt_rank =
  kr_wrapped_world :: nat
  kr_policy :: kt_activation_policy
  kr_layer :: int
  kr_phase :: string
  kr_hidden :: "'x list"
  kr_ids :: "'x list"
  kr_weights :: "'x list"
  kr_autograd :: bool
  kr_full :: bool
  kr_gpu :: "'x list result option"
  kr_faults :: kt_faults

definition kr_qlen :: "'x kt_rank \<Rightarrow> nat" where
  "kr_qlen r = length (kr_hidden r)"

definition kr_action :: "'x kt_rank \<Rightarrow> string" where
  "kr_action r = activation_checkpoint_action (kr_policy r) (kr_phase r)"

text \<open>\<open>save_for_backward\<close> of the submission: off in a first forward that is not cached.\<close>

definition kr_save :: "'x kt_rank \<Rightarrow> bool" where
  "kr_save r = (kr_autograd r \<and> \<not> (kr_phase r = ''first_forward'' \<and> kr_action r \<noteq> ''cache_first_forward''))"

section \<open>Operations on the backend\<close>

definition err_of :: "'a result \<Rightarrow> exn option" where
  "err_of r = (case r of Inl e \<Rightarrow> Some e | Inr _ \<Rightarrow> None)"

text \<open>\<open>try: m except Exception as exc: h(exc)\<close>, first keeping the outcome, then raising again.\<close>

definition ecapture :: "('s \<Rightarrow> 'b \<times> 's) \<Rightarrow> ('s, 'b) eop" where
  "ecapture m s = (Inr (fst (m s)), snd (m s))"

definition ehandle :: "('s, 'a) eop \<Rightarrow> (exn \<Rightarrow> 's \<Rightarrow> 's) \<Rightarrow> ('s, 'a) eop" where
  "ehandle m h s = (case m s of (Inl e, s') \<Rightarrow> (Inl e, h e s') | (Inr a, s') \<Rightarrow> (Inr a, s'))"

definition on_backend :: "('x kt_backend, 'a) eop \<Rightarrow> ('x kt_layer, 'a) eop" where
  "on_backend m l =
     (case kl_backend l of
        None \<Rightarrow> (Inl (AttributeError ''NoneType''), l)
      | Some b \<Rightarrow> (fst (m b), l\<lparr>kl_backend := Some (snd (m b))\<rparr>))"

definition on_ckpt :: "('x ckpt, 'a) eop \<Rightarrow> ('x kt_backend, 'a) eop" where
  "on_ckpt m b = (fst (m (kb_ckpt b)), b\<lparr>kb_ckpt := snd (m (kb_ckpt b))\<rparr>)"

definition poison_checkpoint_cache :: "exn \<Rightarrow> 'x kt_layer \<Rightarrow> 'x kt_layer" where
  "poison_checkpoint_cache e l =
     l\<lparr>kl_backend := map_option (\<lambda>b. b\<lparr>kb_ckpt := poison_checkpoint_output e (kb_ckpt b)\<rparr>) (kl_backend l)\<rparr>"

definition poison_if :: "bool \<Rightarrow> exn \<Rightarrow> 'x kt_layer \<Rightarrow> 'x kt_layer" where
  "poison_if retained e l = (if retained then poison_checkpoint_cache e l else l)"

definition backend_flag :: "('x kt_backend \<Rightarrow> bool) \<Rightarrow> 'x kt_layer \<Rightarrow> bool" where
  "backend_flag g l = (case kl_backend l of None \<Rightarrow> False | Some b \<Rightarrow> g b)"

definition update_lora_pointers :: "kt_faults \<Rightarrow> ('x kt_layer, unit) eop" where
  "update_lora_pointers f l =
     (if backend_flag kb_weights_loaded l \<and> backend_flag kb_lora_initialized l then ecall (kf_lora f) l else (Inr (), l))"

definition refresh_backend_weights :: "bool \<Rightarrow> kt_faults \<Rightarrow> ('x kt_layer, unit) eop" where
  "refresh_backend_weights full f =
     ebind (\<lambda>l. if kl_lora_dirty l
                then ebind (update_lora_pointers f) (\<lambda>_. eupd (\<lambda>l. l\<lparr>kl_lora_dirty := False\<rparr>)) l
                else (Inr (), l)) (\<lambda>_.
     ebind (eassert (\<lambda>l. \<not> (full \<and> backend_flag kb_load_failed l))
              (RuntimeError ''a previous KT Full checkpoint load failed'')) (\<lambda>_ l.
     if full \<and> backend_flag kb_base_dirty l
     then ebind (ecall (kf_base f)) (\<lambda>_. on_backend (eupd (\<lambda>b. b\<lparr>kb_base_dirty := False\<rparr>))) l
     else (Inr (), l)))"

definition validate_cache_empty :: "('x kt_layer, unit) eop" where
  "validate_cache_empty l =
     (if kl_backend l = None then (Inr (), l) else on_backend (on_ckpt validate_checkpoint_cache_empty) l)"

definition validate_cached_output :: "nat \<Rightarrow> ('x kt_layer, unit) eop" where
  "validate_cached_output qlen l =
     (if kl_backend l = None then (Inl (RuntimeError ''No cached checkpoint forward output is available''), l)
      else on_backend (on_ckpt (validate_checkpoint_output qlen)) l)"

definition kb_submit_forward :: "bool \<Rightarrow> 'x list \<Rightarrow> 'x list \<Rightarrow> 'x list \<Rightarrow> kt_faults \<Rightarrow> ('x kt_layer, unit) eop" where
  "kb_submit_forward save hidden ids weights f =
     ebind (on_backend (ecall (kf_validate f))) (\<lambda>_.
     ebind (on_backend (eupd (\<lambda>b. b\<lparr>kb_batch := Some (hidden, ids, weights, save)\<rparr>))) (\<lambda>_. ecall (kf_submit f)))"

text \<open>A forward saved for backward makes one cache available, unless one is left already.\<close>

definition grow_depth :: "bool \<Rightarrow> int \<Rightarrow> int" where
  "grow_depth save depth = (if save \<and> depth = 0 then depth + 1 else depth)"

definition kb_sync_forward ::
  "('x list \<Rightarrow> 'x list \<Rightarrow> 'x list \<Rightarrow> 'x list) \<Rightarrow> kt_faults \<Rightarrow> ('x kt_layer, 'x list) eop" where
  "kb_sync_forward moe f = on_backend (\<lambda>b.
     (case kb_batch b of
        None \<Rightarrow> (Inl (RuntimeError ''No pending forward. Call submit_forward() first.''), b)
      | Some (hidden, ids, weights, save) \<Rightarrow>
          ebind (ecall (kf_sync f)) (\<lambda>_.
          ebind (eupd (\<lambda>b. b\<lparr>kb_depth := grow_depth save (kb_depth b), kb_batch := None\<rparr>)) (\<lambda>_.
          ebind (ecall (kf_return f)) (\<lambda>_. ereturn (moe hidden ids weights)))) b))"

text \<open>\<open>.view(total, hidden_size)\<close> raises when the rows do not add up.\<close>

definition view_rows :: "nat \<Rightarrow> 'x list \<Rightarrow> 'x list result" where
  "view_rows total_qlen rows =
     (if length rows = total_qlen then Inr rows else Inl (RuntimeError ''shape is invalid for input size''))"

definition cpu_expert_output ::
  "('x list \<Rightarrow> 'x list \<Rightarrow> 'x list \<Rightarrow> 'x list) \<Rightarrow> bool \<Rightarrow> bool \<Rightarrow> nat \<Rightarrow> kt_faults \<Rightarrow> ('x kt_layer, 'x list) eop" where
  "cpu_expert_output moe cache reuse qlen f =
     ebind (if reuse then on_backend (on_ckpt (get_checkpoint_output qlen True (kf_copy f)))
            else if cache then
              ebind (kb_sync_forward moe f) (\<lambda>rows.
              ebind (on_backend (on_ckpt (cache_checkpoint_output ''cpu'' rows qlen))) (\<lambda>_.
              ebind (ecall (kf_copy f)) (\<lambda>_. ereturn rows)))
            else kb_sync_forward moe f)
       (\<lambda>rows. elift (view_rows qlen rows))"

section \<open>Submission\<close>

definition ownership_error :: "nat \<Rightarrow> nat \<Rightarrow> 'x kt_rank \<Rightarrow> 'x kt_layer \<Rightarrow> exn option" where
  "ownership_error n rank r l =
     (if kr_wrapped_world r \<noteq> n then Some (RuntimeError ''KT wrapper was created for another world_size'')
      else if rank = 0 \<and> kl_backend l = None then Some (RuntimeError ''rank 0 does not own the KT backend'')
      else if rank \<noteq> 0 \<and> kl_backend l \<noteq> None then Some (RuntimeError ''rank unexpectedly owns a KT backend'')
      else None)"

definition rank_control :: "nat \<Rightarrow> nat \<Rightarrow> 'x kt_rank \<Rightarrow> 'x kt_layer \<Rightarrow> ck_control" where
  "rank_control n rank r l =
     \<lparr>cc_layer = kr_layer r, cc_phase = kr_phase r, cc_action = kr_action r,
      cc_cpu_policy = Some (pol_cpu (kr_policy r)), cc_gpu_policy = Some (pol_gpu (kr_policy r)),
      cc_owner_valid = (ownership_error n rank r l = None)\<rparr>"

definition refresh_and_check :: "'x kt_rank \<Rightarrow> ('x kt_layer, unit) eop" where
  "refresh_and_check r =
     ebind (refresh_backend_weights (kr_full r) (kr_faults r)) (\<lambda>_.
     if kr_action r = ''cache_first_forward'' then validate_cache_empty else ereturn ())"

text \<open>The two things rank 0 does with its backend: check the cached rows, or submit the gathered batch.\<close>

definition check_cached_rows :: "nat \<Rightarrow> exn option \<Rightarrow> ('x kt_layer, unit result) eop" where
  "check_cached_rows qlen refresh_error =
     ecapture (ehandle (ebind (ecall refresh_error) (\<lambda>_. validate_cached_output qlen)) poison_checkpoint_cache)"

definition submit_gathered ::
  "'x kt_rank \<Rightarrow> exn option \<Rightarrow> 'x list list \<Rightarrow> 'x list list \<Rightarrow> 'x list list \<Rightarrow> ('x kt_layer, unit result) eop" where
  "submit_gathered r refresh_error hs ids ws =
     ecapture (ehandle
       (ebind (ecall refresh_error) (\<lambda>_. kb_submit_forward (kr_save r) (concat hs) (concat ids) (concat ws) (kr_faults r)))
       (poison_if (kr_action r = ''cache_first_forward'')))"

definition gpu_experts_dist :: "nat \<Rightarrow> nat \<Rightarrow> 'x kt_rank \<Rightarrow> ('x, 'x kt_layer, 'x list option) dop" where
  "gpu_experts_dist n rank r =
     (case kr_gpu r of
        None \<Rightarrow> dreturn None
      | Some out \<Rightarrow>
          dbind (dtry (sync_any_rank_exception ''local GPU expert forward failed'' (err_of out) rank n)
                   (poison_if (kr_action r \<in> {''cache_first_forward'', ''reuse_recompute''}))) (\<lambda>_.
          (case out of Inl e \<Rightarrow> draise e | Inr rows \<Rightarrow> dreturn (Some rows))))"

definition the_list :: "'a list option \<Rightarrow> 'a list" where
  "the_list xs = (case xs of None \<Rightarrow> [] | Some ys \<Rightarrow> ys)"

definition submit_part_dist ::
  "nat \<Rightarrow> nat \<Rightarrow> 'x kt_rank \<Rightarrow> int list \<Rightarrow> exn option \<Rightarrow> ('x, 'x kt_layer, unit) dop" where
  "submit_part_dist n rank r qs refresh_error =
     (if kr_action r = ''reuse_recompute'' then
        dbind (if rank = 0 then dlocal (check_cached_rows (nat (sum_list qs)) refresh_error) else dreturn (Inr ())) (\<lambda>out.
        sync_rank0_exception ''checkpoint cache validation failed'' (err_of out) rank n)
      else
        dbind (gather_varlen_to_rank0 (kr_hidden r) qs rank n) (\<lambda>hs.
        dbind (gather_varlen_to_rank0 (kr_ids r) qs rank n) (\<lambda>ids.
        dbind (gather_varlen_to_rank0 (kr_weights r) qs rank n) (\<lambda>ws.
        dbind (if rank = 0 then dlocal (submit_gathered r refresh_error (the_list hs) (the_list ids) (the_list ws))
               else dreturn (Inr ())) (\<lambda>out.
        sync_rank0_exception ''CPU forward submission failed'' (err_of out) rank n)))))"

definition submit_and_compute_gpu_dist ::
  "nat \<Rightarrow> nat \<Rightarrow> 'x kt_rank \<Rightarrow> ('x, 'x kt_layer, 'x list option \<times> int list) dop" where
  "submit_and_compute_gpu_dist n rank r l =
     (let owner = ownership_error n rank r l in
      dbind (all_gather_checkpoint_state (Some n) n (int (kr_qlen r)) (rank_control n rank r l)) (\<lambda>qs.
      if qs ! rank \<noteq> int (kr_qlen r) then draise (RuntimeError ''qlen mismatch'')
      else
        dbind (dlocal (elift (validate_activation_checkpoint_phase (kr_policy r) (kr_phase r) (kr_save r)))) (\<lambda>_.
        dbind (case owner of None \<Rightarrow> dreturn () | Some e \<Rightarrow> draise (RuntimeError (''KT ownership validation failed: '' @ exn_message e))) (\<lambda>_.
        dbind (if rank = 0 then dlocal (ecapture (refresh_and_check r)) else dreturn (Inr ())) (\<lambda>refresh.
        dbind (submit_part_dist n rank r qs (err_of refresh)) (\<lambda>_.
        dbind (gpu_experts_dist n rank r) (\<lambda>gpu. dreturn (gpu, qs))))))) l)"

text \<open>The single-process path.\<close>

definition submit_and_compute_gpu_local :: "'x kt_rank \<Rightarrow> ('x kt_layer, 'x list option) eop" where
  "submit_and_compute_gpu_local r =
     ebind (refresh_backend_weights (kr_full r) (kr_faults r)) (\<lambda>_.
     ebind (if kr_action r = ''cache_first_forward'' then ehandle validate_cache_empty poison_checkpoint_cache
            else ereturn ()) (\<lambda>_.
     ebind (if kr_action r = ''reuse_recompute'' then validate_cached_output (kr_qlen r)
            else ehandle (kb_submit_forward (kr_save r) (kr_hidden r) (kr_ids r) (kr_weights r) (kr_faults r))
                   (poison_if (kr_action r = ''cache_first_forward''))) (\<lambda>_.
     (case kr_gpu r of
        None \<Rightarrow> ereturn None
      | Some (Inr rows) \<Rightarrow> ereturn (Some rows)
      | Some (Inl e) \<Rightarrow>
          ehandle (eraise e) (poison_if (kr_action r \<in> {''cache_first_forward'', ''reuse_recompute''}))))))"

section \<open>Collecting the output\<close>

text \<open>Rank 0 obtains the rows of all ranks, shares a failure, and every rank receives its slice.\<close>

definition sync_and_scatter ::
  "string \<Rightarrow> (nat \<Rightarrow> ('x kt_layer, 'x list) eop) \<Rightarrow> (exn \<Rightarrow> 'x kt_layer \<Rightarrow> 'x kt_layer) \<Rightarrow> nat \<Rightarrow> nat \<Rightarrow> nat \<Rightarrow>
   int list option \<Rightarrow> ('x, 'x kt_layer, 'x list) dop" where
  "sync_and_scatter ctx output h n rank qlen all_qlens =
     dbind (case all_qlens of
              None \<Rightarrow> all_gather_qlens (int qlen)
            | Some qs \<Rightarrow> (if length qs \<noteq> n then draise (RuntimeError ''all_qlens length mismatch'') else dreturn qs)) (\<lambda>qs.
     if qs ! rank \<noteq> int qlen then draise (RuntimeError ''qlen mismatch'')
     else
       dbind (if rank = 0
              then dlocal (ecapture (ehandle
                     (ebind (output (nat (sum_list qs))) (\<lambda>rows. ereturn (rank_slices qs rows))) h))
              else dreturn (Inr [])) (\<lambda>out.
       dbind (sync_rank0_exception ctx (err_of out) rank n) (\<lambda>_.
       scatter_varlen_from_rank0 (case out of Inl _ \<Rightarrow> None | Inr cs \<Rightarrow> if rank = 0 then Some cs else None) qs rank n)))"

definition kt_function_forward ::
  "('x list \<Rightarrow> 'x list \<Rightarrow> 'x list \<Rightarrow> 'x list) \<Rightarrow> nat \<Rightarrow> nat \<Rightarrow> 'x kt_rank \<Rightarrow> int list option \<Rightarrow> ('x, 'x kt_layer, 'x list) dop" where
  "kt_function_forward moe n rank r all_qlens =
     (let cache = (kr_action r = ''cache_first_forward''); reuse = (kr_action r = ''reuse_recompute'');
          output = (\<lambda>qlen. cpu_expert_output moe cache reuse qlen (kr_faults r)) in
      if 1 < n
      then sync_and_scatter ''CPU forward synchronization failed'' output (poison_if (cache \<or> reuse)) n rank (kr_qlen r) all_qlens
      else dlocal (ehandle (output (kr_qlen r)) (poison_if (cache \<or> reuse))))"

definition sync_forward_output_no_autograd ::
  "('x list \<Rightarrow> 'x list \<Rightarrow> 'x list \<Rightarrow> 'x list) \<Rightarrow> nat \<Rightarrow> nat \<Rightarrow> 'x kt_rank \<Rightarrow> int list option \<Rightarrow> ('x, 'x kt_layer, 'x list) dop" where
  "sync_forward_output_no_autograd moe n rank r all_qlens =
     (let output = (\<lambda>qlen. cpu_expert_output moe False False qlen (kr_faults r)) in
      if 1 < n
      then sync_and_scatter ''CPU inference forward failed'' output (\<lambda>_. id) n rank (kr_qlen r) all_qlens
      else dlocal (output (kr_qlen r)))"

definition collect_output ::
  "('x list \<Rightarrow> 'x list \<Rightarrow> 'x list \<Rightarrow> 'x list) \<Rightarrow> nat \<Rightarrow> nat \<Rightarrow> 'x kt_rank \<Rightarrow> int list option \<Rightarrow> ('x, 'x kt_layer, 'x list) dop" where
  "collect_output moe n rank r all_qlens =
     (if kr_autograd r then kt_function_forward moe n rank r all_qlens
      else sync_forward_output_no_autograd moe n rank r all_qlens)"

definition combine_outputs :: "('x \<Rightarrow> 'x \<Rightarrow> 'x) \<Rightarrow> 'x list \<Rightarrow> 'x list option \<Rightarrow> 'x list" where
  "combine_outputs add out gpu = (case gpu of None \<Rightarrow> out | Some g \<Rightarrow> map2 add out g)"

definition layer_forward ::
  "('x list \<Rightarrow> 'x list \<Rightarrow> 'x list \<Rightarrow> 'x list) \<Rightarrow> ('x \<Rightarrow> 'x \<Rightarrow> 'x) \<Rightarrow> nat \<Rightarrow> nat \<Rightarrow> 'x kt_rank \<Rightarrow> ('x, 'x kt_layer, 'x list) dop" where
  "layer_forward moe add n rank r =
     (if 1 < n then
        dbind (submit_and_compute_gpu_dist n rank r) (\<lambda>(gpu, qs).
        dbind (collect_output moe n rank r (Some qs)) (\<lambda>out. dreturn (combine_outputs add out gpu)))
      else
        dbind (dlocal (elift (validate_activation_checkpoint_phase (kr_policy r) (kr_phase r) (kr_autograd r)))) (\<lambda>_.
        dbind (dlocal (submit_and_compute_gpu_local r)) (\<lambda>gpu.
        dbind (collect_output moe n rank r None) (\<lambda>out. dreturn (combine_outputs add out gpu)))))"

section \<open>Rank 0 works, everybody learns the outcome\<close>

lemma err_of_simps [simp]: "err_of (Inl e) = Some e" "err_of (Inr a) = None"
  by (simp_all add: err_of_def)

lemma err_of_None: "err_of r = None \<longleftrightarrow> is_ok r"
  by (cases r) simp_all

lemma spmd_root_capture:
  "spmd n (\<lambda>i. if i = 0 then dlocal (ecapture (m i)) else dreturn d) S
     (\<lambda>i. (Inr (if i = 0 then fst (m 0 (S 0)) else d), (S(0 := snd (m 0 (S 0)))) i))"
  by (rule spmd_local) (simp add: dlocal_def ecapture_def dreturn_def)

definition root_error :: "string \<Rightarrow> exn \<Rightarrow> exn" where
  "root_error ctx e = RuntimeError (ctx @ '': '' @ exn_text e)"

lemma spmd_root_sync:
  assumes n: "1 < n" and run: "m 0 (S 0) = (out, s')"
    and ok: "\<And>a. out = Inr a \<Longrightarrow> spmd n (\<lambda>i. K i (if i = 0 then Inr a else d)) (S(0 := s')) R"
    and bad: "\<And>e. out = Inl e \<Longrightarrow> R = (\<lambda>i. (Inl (root_error ctx e), (S(0 := s')) i))"
  shows "spmd n (\<lambda>i. dbind (if i = 0 then dlocal (ecapture (m i)) else dreturn d) (\<lambda>res.
     dbind (sync_rank0_exception ctx (err_of res) i n) (\<lambda>_. K i res))) S R"
proof (rule spmd_bind)
  let ?A = "\<lambda>i. if i = 0 then out else d"
  show "spmd n (\<lambda>i. if i = 0 then dlocal (ecapture (m i)) else dreturn d) S (\<lambda>i. (Inr (?A i), (S(0 := s')) i))"
    using spmd_root_capture [of n m d S] unfolding run fst_conv snd_conv .
  note sync = spmd_sync_rank0 [OF n, of ctx "\<lambda>i. err_of (?A i)" "S(0 := s')"]
  show "spmd n (\<lambda>i. dbind (sync_rank0_exception ctx (err_of (?A i)) i n) (\<lambda>_. K i (?A i))) (S(0 := s')) R"
  proof (cases out)
    case (Inl e)
    have "spmd n (\<lambda>i. sync_rank0_exception ctx (err_of (?A i)) i n) (S(0 := s'))
        (\<lambda>i. (Inl (root_error ctx e), (S(0 := s')) i))"
      using sync Inl by (simp add: root_error_def)
    then show ?thesis unfolding bad [OF Inl] by (rule spmd_bind_raise)
  next
    case (Inr a)
    have "spmd n (\<lambda>i. sync_rank0_exception ctx (err_of (?A i)) i n) (S(0 := s')) (\<lambda>i. (Inr (), (S(0 := s')) i))"
      using sync Inr by simp
    then show ?thesis by (rule spmd_bind) (use ok [OF Inr] in \<open>simp only: Inr\<close>)
  qed
qed

section \<open>Submission of all ranks\<close>

definition joined :: "(nat \<Rightarrow> 'x list) \<Rightarrow> nat \<Rightarrow> 'x list" where
  "joined V n = concat (map V [0..<n])"

text \<open>What rank 0 does on its backend in the submission, as one operation.\<close>

definition root_submit :: "'x kt_rank \<Rightarrow> nat \<Rightarrow> exn option \<Rightarrow> 'x list \<Rightarrow> 'x list \<Rightarrow> 'x list \<Rightarrow> ('x kt_layer, unit) eop" where
  "root_submit r qlen refresh_error hidden ids weights =
     (if kr_action r = ''reuse_recompute''
      then ehandle (ebind (ecall refresh_error) (\<lambda>_. validate_cached_output qlen)) poison_checkpoint_cache
      else ehandle (ebind (ecall refresh_error) (\<lambda>_. kb_submit_forward (kr_save r) hidden ids weights (kr_faults r)))
             (poison_if (kr_action r = ''cache_first_forward'')))"

definition submit_context :: "'x kt_rank \<Rightarrow> string" where
  "submit_context r = (if kr_action r = ''reuse_recompute'' then ''checkpoint cache validation failed''
     else ''CPU forward submission failed'')"

definition wf_rank :: "'x kt_rank \<Rightarrow> bool" where
  "wf_rank r = (length (kr_ids r) = kr_qlen r \<and> length (kr_weights r) = kr_qlen r)"

lemma sum_list_qlens: "sum_list (map (\<lambda>i. int (length (V i))) [0..<n]) = int (length (joined V n))"
  unfolding joined_def using sum_lengths [of "map V [0..<n]"] by (simp add: comp_def)

lemma spmd_submit_part:
  assumes n: "1 < n" and wf: "\<And>i. i < n \<Longrightarrow> wf_rank (r i)"
    and act: "\<And>i. i < n \<Longrightarrow> kr_action (r i) = kr_action (r 0)"
    and qs: "qs = map (\<lambda>i. int (kr_qlen (r i))) [0..<n]"
    and run: "root_submit (r 0) (length (joined (\<lambda>i. kr_hidden (r i)) n)) (err 0) (joined (\<lambda>i. kr_hidden (r i)) n)
        (joined (\<lambda>i. kr_ids (r i)) n) (joined (\<lambda>i. kr_weights (r i)) n) (S 0) = (out, s')"
  shows "spmd n (\<lambda>i. submit_part_dist n i (r i) qs (err i)) S
    (\<lambda>i. (case out of Inr _ \<Rightarrow> Inr () | Inl e \<Rightarrow> Inl (root_error (submit_context (r 0)) e), (S(0 := s')) i))"
    (is "spmd n _ S ?R")
proof (cases "kr_action (r 0) = ''reuse_recompute''")
  case True
  have total: "nat (sum_list qs) = length (joined (\<lambda>i. kr_hidden (r i)) n)"
    unfolding qs kr_qlen_def sum_list_qlens by simp
  let ?m = "\<lambda>i. ehandle (ebind (ecall (err i)) (\<lambda>_. validate_cached_output (nat (sum_list qs)))) poison_checkpoint_cache"
  let ?ctx = "''checkpoint cache validation failed''"
  have "spmd n (\<lambda>i. dbind (if i = 0 then dlocal (ecapture (?m i)) else dreturn (Inr ())) (\<lambda>res.
      dbind (sync_rank0_exception ?ctx (err_of res) i n) (\<lambda>_. dreturn ()))) S ?R"
  proof (rule spmd_root_sync [OF n])
    show "?m 0 (S 0) = (out, s')" using run True by (simp add: root_submit_def total)
    show "spmd n (\<lambda>i. dreturn ()) (S(0 := s')) ?R" if "out = Inr a" for a
      using spmd_return [of n "\<lambda>_. ()" "S(0 := s')"] that by simp
    show "?R = (\<lambda>i. (Inl (root_error ?ctx e), (S(0 := s')) i))" if "out = Inl e" for e
      using that True by (simp add: submit_context_def)
  qed
  then show ?thesis
    by (rule spmd_eqI) (simp add: submit_part_dist_def check_cached_rows_def dbind_return_right act True)
next
  case False
  let ?H = "\<lambda>i. kr_hidden (r i)" and ?I = "\<lambda>i. kr_ids (r i)" and ?W = "\<lambda>i. kr_weights (r i)"
  let ?ctx = "''CPU forward submission failed''"
  let ?G = "\<lambda>V i. if i = 0 then Some (map V [0..<n]) else None"
  have not_reuse: "(kr_action (r i) = ''reuse_recompute'') = False" if "i < n" for i
    unfolding act [OF that] using False by simp
  have len: "int (length (kr_hidden (r i))) = qs ! i" "int (length (kr_ids (r i))) = qs ! i"
    "int (length (kr_weights (r i))) = qs ! i" if "i < n" for i
    using that wf [OF that] by (simp_all add: qs wf_rank_def kr_qlen_def)
  have g: "spmd n (\<lambda>i. gather_varlen_to_rank0 (V i) qs i n) S (\<lambda>i. (Inr (?G V i), S i))"
    if "\<And>i. i < n \<Longrightarrow> int (length (V i)) = qs ! i" for V :: "nat \<Rightarrow> 'a list"
    by (rule spmd_gather_varlen) (use n that in simp_all)
  let ?m = "\<lambda>i. ehandle (ebind (ecall (err i)) (\<lambda>_. kb_submit_forward (kr_save (r i)) (concat (the_list (?G ?H i)))
      (concat (the_list (?G ?I i))) (concat (the_list (?G ?W i))) (kr_faults (r i))))
      (poison_if (kr_action (r i) = ''cache_first_forward''))"
  have last: "spmd n (\<lambda>i. dbind (if i = 0 then dlocal (ecapture (?m i)) else dreturn (Inr ())) (\<lambda>res.
      dbind (sync_rank0_exception ?ctx (err_of res) i n) (\<lambda>_. dreturn ()))) S ?R"
  proof (rule spmd_root_sync [OF n])
    show "?m 0 (S 0) = (out, s')" using run False by (simp add: root_submit_def the_list_def joined_def)
    show "spmd n (\<lambda>i. dreturn ()) (S(0 := s')) ?R" if "out = Inr a" for a
      using spmd_return [of n "\<lambda>_. ()" "S(0 := s')"] that by simp
    show "?R = (\<lambda>i. (Inl (root_error ?ctx e), (S(0 := s')) i))" if "out = Inl e" for e
      using that False by (simp add: submit_context_def)
  qed
  have "spmd n (\<lambda>i. dbind (gather_varlen_to_rank0 (?H i) qs i n) (\<lambda>hs.
        dbind (gather_varlen_to_rank0 (?I i) qs i n) (\<lambda>ids.
        dbind (gather_varlen_to_rank0 (?W i) qs i n) (\<lambda>ws.
        dbind (if i = 0 then dlocal (submit_gathered (r i) (err i) (the_list hs) (the_list ids) (the_list ws))
               else dreturn (Inr ())) (\<lambda>out.
        sync_rank0_exception ?ctx (err_of out) i n))))) S ?R"
    apply (rule spmd_bind [OF g [OF len(1)]], assumption)
    apply (rule spmd_bind [OF g [OF len(2)]], assumption)
    apply (rule spmd_bind [OF g [OF len(3)]], assumption)
    using last by (simp only: submit_gathered_def dbind_unit_right)
  then show ?thesis
    by (rule spmd_eqI) (simp only: submit_part_dist_def not_reuse if_False)
qed

end
