(* ===== verification/KTForward.thy ===== *)
theory KTForward
  imports KTLayer
begin

text \<open>
  The forward pass over several ranks: it computes what one process computes on the concatenated
  tokens, and whatever fails on whichever rank, all ranks leave it together.
\<close>

section \<open>GPU experts and scatter\<close>

lemma spmd_gpu_ok:
  assumes n: "1 < n" and g: "\<And>i. i < n \<Longrightarrow> kr_gpu (r i) = map_option Inr (g i)"
    and uni: "\<And>i. i < n \<Longrightarrow> (g i = None) = (g 0 = None)"
  shows "spmd n (\<lambda>i. gpu_experts_dist n i (r i)) S (\<lambda>i. (Inr (g i), S i))"
proof (cases "g 0")
  case None
  then have "gpu_experts_dist n i (r i) = dreturn (g i)" if "i < n" for i
    using g [OF that] uni [OF that] by (simp add: gpu_experts_dist_def)
  then show ?thesis by (rule spmd_eqI [OF spmd_return])
next
  case (Some g0)
  let ?M = "\<lambda>i. dtry (sync_any_rank_exception ''local GPU expert forward failed'' None i n)
                   (poison_if (kr_action (r i) \<in> {''cache_first_forward'', ''reuse_recompute''}))"
  have sync: "spmd n (\<lambda>i. sync_any_rank_exception ''local GPU expert forward failed'' None i n) S (\<lambda>i. (Inr (), S i))"
    using spmd_sync_any [OF n, of "''local GPU expert forward failed''" "\<lambda>_. None" S]
    by (simp add: find_None_iff [THEN iffD2])
  have "spmd n (\<lambda>i. dbind (?M i) (\<lambda>_. dreturn (g i))) S (\<lambda>i. (Inr (g i), S i))"
    by (rule spmd_bind [OF spmd_try [OF sync]]) (rule spmd_return)
  then show ?thesis
  proof (rule spmd_eqI)
    fix i assume i: "i < n"
    with uni Some obtain gi where "g i = Some gi" by fastforce
    with g [OF i] show "gpu_experts_dist n i (r i) = dbind (?M i) (\<lambda>_. dreturn (g i))"
      by (simp add: gpu_experts_dist_def)
  qed
qed

lemma spmd_gpu_bad:
  assumes n: "1 < n" and g: "\<And>i. i < n \<Longrightarrow> kr_gpu (r i) = Some (out i)" and bad: "i < n" "out i = Inl e"
  shows "\<exists>E S'. spmd n (\<lambda>i. gpu_experts_dist n i (r i)) S (\<lambda>i. (Inl (E i), S' i))"
proof -
  let ?err = "\<lambda>i. err_of (out i)" and ?ctx = "''local GPU expert forward failed''"
  have "\<exists>j. find (\<lambda>j. ?err j \<noteq> None) [0..<n] = Some j"
    using bad find_None_iff [of "\<lambda>j. ?err j \<noteq> None" "[0..<n]"] by fastforce
  then obtain j where "find (\<lambda>j. ?err j \<noteq> None) [0..<n] = Some j" ..
  with spmd_sync_any [OF n, of ?ctx ?err S]
  have sync: "spmd n (\<lambda>i. sync_any_rank_exception ?ctx (?err i) i n) S
      (\<lambda>i. (Inl (any_rank_error ?ctx j (the (?err j))), S i))" by simp
  let ?H = "\<lambda>i. poison_if (kr_action (r i) \<in> {''cache_first_forward'', ''reuse_recompute''})"
  note spmd_bind_raise [OF spmd_try_raise [OF sync, of ?H],
      of "\<lambda>i _. case out i of Inl e \<Rightarrow> draise e | Inr rows \<Rightarrow> dreturn (Some rows)"]
  then have "spmd n (\<lambda>i. gpu_experts_dist n i (r i)) S
      (\<lambda>i. (Inl (any_rank_error ?ctx j (the (?err j))), ?H i (any_rank_error ?ctx j (the (?err j))) (S i)))"
    by (rule spmd_eqI) (simp add: gpu_experts_dist_def g)
  then show ?thesis by (intro exI)
qed

lemma spmd_sync_and_scatter:
  assumes n: "1 < n" and qs: "qs = map (\<lambda>i. int (q i)) [0..<n]"
    and run: "ehandle (output 0 (nat (sum_list qs))) (h 0) (S 0) = (out, s')"
    and rows: "\<And>rows. out = Inr rows \<Longrightarrow> length rows = nat (sum_list qs)"
  shows "spmd n (\<lambda>i. sync_and_scatter ctx (output i) (h i) n i (q i) (Some qs)) S
    (\<lambda>i. (case out of Inl e \<Rightarrow> Inl (root_error ctx e) | Inr rows \<Rightarrow> Inr (rank_slices qs rows ! i), (S(0 := s')) i))"
    (is "spmd n _ S ?R")
proof -
  let ?m = "\<lambda>i. ehandle (ebind (output i (nat (sum_list qs))) (\<lambda>rows. ereturn (rank_slices qs rows))) (h i)"
  let ?K = "\<lambda>i res. scatter_varlen_from_rank0 (case res of Inl _ \<Rightarrow> None | Inr cs \<Rightarrow> if i = 0 then Some cs else None) qs i n"
  have len: "length qs = n" and nn: "\<And>q. q \<in> set qs \<Longrightarrow> 0 \<le> q" by (auto simp: qs)
  have "spmd n (\<lambda>i. dbind (if i = 0 then dlocal (ecapture (?m i)) else dreturn (Inr [])) (\<lambda>res.
      dbind (sync_rank0_exception ctx (err_of res) i n) (\<lambda>_. ?K i res))) S ?R"
  proof (rule spmd_root_sync [OF n])
    show "?m 0 (S 0) = (map_sum id (rank_slices qs) out, s')"
      using run by (cases out) (auto simp: ehandle_def ebind_def split: prod.splits sum.splits)
  next
    fix cs assume "map_sum id (rank_slices qs) out = Inr cs"
    then obtain rows where out: "out = Inr rows" and cs: "cs = rank_slices qs rows" by (cases out) auto
    have tot: "int (length rows) = sum_list qs"
      using assms(4) [OF out] sum_list_nonneg [of qs] nn by simp
    have "spmd n (\<lambda>i. ?K i (if i = 0 then Inr cs else Inr [])) (S(0 := s')) (\<lambda>i. (Inr (cs ! i), (S(0 := s')) i))"
    proof (rule spmd_scatter_varlen)
      show "int (length (cs ! i)) = qs ! i" if "i < n" for i
        unfolding cs by (rule rank_slices_lengths) (use nn tot len that in auto)
      have "map (\<lambda>i. cs ! i) [0..<n] = cs" using len map_nth [of cs] by (simp add: cs)
      then show "(case if 0 = (0::nat) then Inr cs else Inr [] of Inl _ \<Rightarrow> None | Inr cs \<Rightarrow> if 0 = (0::nat) then Some cs else None)
          = Some (map (\<lambda>i. cs ! i) [0..<n])" by simp
    qed (use n in simp)
    then show "spmd n (\<lambda>i. ?K i (if i = 0 then Inr cs else Inr [])) (S(0 := s')) ?R"
      by (simp only: out cs sum.case)
  next
    fix e assume "map_sum id (rank_slices qs) out = Inl e"
    then have "out = Inl e" by (cases out) auto
    then show "?R = (\<lambda>i. (Inl (root_error ctx e), (S(0 := s')) i))" by simp
  qed
  then show ?thesis
    by (rule spmd_eqI) (simp add: sync_and_scatter_def len, simp add: qs)
qed

section \<open>Collecting the output of all ranks\<close>

definition root_collect ::
  "('x list \<Rightarrow> 'x list \<Rightarrow> 'x list \<Rightarrow> 'x list) \<Rightarrow> 'x kt_rank \<Rightarrow> nat \<Rightarrow> ('x kt_layer, 'x list) eop" where
  "root_collect moe r qlen =
     (let cache = (kr_action r = ''cache_first_forward''); reuse = (kr_action r = ''reuse_recompute'') in
      if kr_autograd r
      then ehandle (cpu_expert_output moe cache reuse qlen (kr_faults r)) (poison_if (cache \<or> reuse))
      else cpu_expert_output moe False False qlen (kr_faults r))"

lemma ehandle_id [simp]: "ehandle m (\<lambda>_. id) = m"
  by (rule ext) (auto simp: ehandle_def split: prod.splits sum.splits)

lemma ehandle_Inr: "ehandle m h s = (Inr a, s') \<longleftrightarrow> m s = (Inr a, s')"
  by (auto simp: ehandle_def split: prod.splits sum.splits)

lemma cpu_expert_output_length: "cpu_expert_output moe cache reuse qlen f s = (Inr rows, s') \<Longrightarrow> length rows = qlen"
  unfolding cpu_expert_output_def by (auto simp: ebind_eq_Inr elift_def view_rows_def split: if_splits)

lemma root_collect_length: "root_collect moe r qlen s = (Inr rows, s') \<Longrightarrow> length rows = qlen"
  by (auto simp: root_collect_def Let_def ehandle_Inr dest: cpu_expert_output_length split: if_splits)

lemma collect_output_local: "collect_output moe 1 0 r None = dlocal (root_collect moe r (kr_qlen r))"
  by (simp add: collect_output_def kt_function_forward_def sync_forward_output_no_autograd_def root_collect_def Let_def)

lemma spmd_collect_output:
  assumes n: "1 < n" and qs: "qs = map (\<lambda>i. int (kr_qlen (r i))) [0..<n]"
    and auto: "\<And>i. i < n \<Longrightarrow> kr_autograd (r i) = kr_autograd (r 0)"
    and act: "\<And>i. i < n \<Longrightarrow> kr_action (r i) = kr_action (r 0)"
    and run: "root_collect moe (r 0) (nat (sum_list qs)) (S 0) = (out, s')"
  shows "\<exists>ctx. spmd n (\<lambda>i. collect_output moe n i (r i) (Some qs)) S
    (\<lambda>i. (case out of Inl e \<Rightarrow> Inl (root_error ctx e) | Inr rows \<Rightarrow> Inr (rank_slices qs rows ! i), (S(0 := s')) i))"
proof -
  have len: "out = Inr rows \<Longrightarrow> length rows = nat (sum_list qs)" for rows
    using run root_collect_length by blast
  show ?thesis
  proof (cases "kr_autograd (r 0)")
    case True
    let ?c = "kr_action (r 0) = ''cache_first_forward''" and ?u = "kr_action (r 0) = ''reuse_recompute''"
    have "spmd n (\<lambda>i. sync_and_scatter ''CPU forward synchronization failed''
        (\<lambda>qlen. cpu_expert_output moe ?c ?u qlen (kr_faults (r i))) (poison_if (?c \<or> ?u)) n i (kr_qlen (r i)) (Some qs)) S
      (\<lambda>i. (case out of Inl e \<Rightarrow> Inl (root_error ''CPU forward synchronization failed'' e)
             | Inr rows \<Rightarrow> Inr (rank_slices qs rows ! i), (S(0 := s')) i))"
      by (rule spmd_sync_and_scatter [OF n qs _ len]) (use run True in \<open>simp_all add: root_collect_def Let_def\<close>)
    then have "spmd n (\<lambda>i. collect_output moe n i (r i) (Some qs)) S
      (\<lambda>i. (case out of Inl e \<Rightarrow> Inl (root_error ''CPU forward synchronization failed'' e)
             | Inr rows \<Rightarrow> Inr (rank_slices qs rows ! i), (S(0 := s')) i))"
    proof (rule spmd_eqI)
      fix i assume i: "i < n"
      show "collect_output moe n i (r i) (Some qs) = sync_and_scatter ''CPU forward synchronization failed''
        (\<lambda>qlen. cpu_expert_output moe ?c ?u qlen (kr_faults (r i))) (poison_if (?c \<or> ?u)) n i (kr_qlen (r i)) (Some qs)"
        unfolding collect_output_def kt_function_forward_def Let_def auto [OF i] act [OF i] using True n by simp
    qed
    then show ?thesis ..
  next
    case False
    have "spmd n (\<lambda>i. sync_and_scatter ''CPU inference forward failed''
        (\<lambda>qlen. cpu_expert_output moe False False qlen (kr_faults (r i))) (\<lambda>_. id) n i (kr_qlen (r i)) (Some qs)) S
      (\<lambda>i. (case out of Inl e \<Rightarrow> Inl (root_error ''CPU inference forward failed'' e)
             | Inr rows \<Rightarrow> Inr (rank_slices qs rows ! i), (S(0 := s')) i))"
      by (rule spmd_sync_and_scatter [OF n qs _ len]) (use run False in \<open>simp_all add: root_collect_def Let_def\<close>)
    then have "spmd n (\<lambda>i. collect_output moe n i (r i) (Some qs)) S
      (\<lambda>i. (case out of Inl e \<Rightarrow> Inl (root_error ''CPU inference forward failed'' e)
             | Inr rows \<Rightarrow> Inr (rank_slices qs rows ! i), (S(0 := s')) i))"
    proof (rule spmd_eqI)
      fix i assume i: "i < n"
      show "collect_output moe n i (r i) (Some qs) = sync_and_scatter ''CPU inference forward failed''
        (\<lambda>qlen. cpu_expert_output moe False False qlen (kr_faults (r i))) (\<lambda>_. id) n i (kr_qlen (r i)) (Some qs)"
        unfolding collect_output_def sync_forward_output_no_autograd_def Let_def auto [OF i] using False n by simp
    qed
    then show ?thesis ..
  qed
qed

section \<open>All ranks leave together\<close>

definition coherent :: "nat \<Rightarrow> (nat \<Rightarrow> ('x, 's, 'a) dop) \<Rightarrow> (nat \<Rightarrow> 's) \<Rightarrow> bool" where
  "coherent n M S \<longleftrightarrow> (\<exists>R. spmd n M S R \<and> ((\<forall>i < n. is_ok (fst (R i))) \<or> (\<forall>i < n. \<not> is_ok (fst (R i)))))"

lemma coherent_raise: "spmd n M S (\<lambda>i. (Inl (E i), S' i)) \<Longrightarrow> coherent n M S"
  by (auto simp: coherent_def)

lemma coherent_ok: "spmd n M S (\<lambda>i. (Inr (A i), S' i)) \<Longrightarrow> coherent n M S"
  by (auto simp: coherent_def)

lemma coherent_bind:
  assumes "spmd n M S (\<lambda>i. (Inr (A i), S' i))" "coherent n (\<lambda>i. K i (A i)) S'"
  shows "coherent n (\<lambda>i. dbind (M i) (K i)) S"
  using assms spmd_bind unfolding coherent_def by blast

lemma coherent_bind_raise:
  "spmd n M S (\<lambda>i. (Inl (E i), S' i)) \<Longrightarrow> coherent n (\<lambda>i. dbind (M i) (K i)) S"
  by (rule coherent_raise [OF spmd_bind_raise])

lemma coherent_eqI: "coherent n M' S \<Longrightarrow> (\<And>i. i < n \<Longrightarrow> M i (S i) = M' i (S i)) \<Longrightarrow> coherent n M S"
  unfolding coherent_def using spmd_cong [of n M S M' S] by blast

text \<open>A step whose outcome is that of rank 0.\<close>

lemma coherent_bind_root:
  assumes "spmd n M S (\<lambda>i. (case out of Inl e \<Rightarrow> Inl (E e) | Inr a \<Rightarrow> Inr (A a i), S' i))"
    "\<And>a. out = Inr a \<Longrightarrow> coherent n (\<lambda>i. K i (A a i)) S'"
  shows "coherent n (\<lambda>i. dbind (M i) (K i)) S"
proof (cases out)
  case (Inl e)
  show ?thesis by (rule coherent_bind_raise) (use assms(1) Inl in simp)
next
  case (Inr a)
  have "spmd n M S (\<lambda>i. (Inr (A a i), S' i))" using assms(1) Inr by simp
  then show ?thesis by (rule coherent_bind) (rule assms(2) [OF Inr])
qed

lemma rank_control_eq:
  assumes "rank_control n i r l = rank_control n j r' l'"
  shows "kr_action r = kr_action r'" "kr_phase r = kr_phase r'" "kr_policy r = kr_policy r'"
    "(ownership_error n i r l = None) = (ownership_error n j r' l' = None)"
  using assms by (simp_all add: rank_control_def)

lemma coherent_gpu:
  assumes n: "1 < n" and uni: "\<And>i. i < n \<Longrightarrow> (kr_gpu (r i) = None) = (kr_gpu (r 0) = None)"
    and K: "\<And>g. coherent n (\<lambda>i. K i (g i)) S"
  shows "coherent n (\<lambda>i. dbind (gpu_experts_dist n i (r i)) (K i)) S"
proof (cases "\<exists>i<n. \<exists>e. kr_gpu (r i) = Some (Inl e)")
  case True
  then obtain i e where i: "i < n" "kr_gpu (r i) = Some (Inl e)" by blast
  then have "kr_gpu (r 0) \<noteq> None" using uni [OF i(1)] by simp
  then have "\<And>j. j < n \<Longrightarrow> kr_gpu (r j) = Some (the (kr_gpu (r j)))" using uni by fastforce
  then obtain E S' where "spmd n (\<lambda>i. gpu_experts_dist n i (r i)) S (\<lambda>i. (Inl (E i), S' i))"
    using spmd_gpu_bad [OF n _ i(1), of r "\<lambda>j. the (kr_gpu (r j))" e] i(2) by fastforce
  then show ?thesis by (rule coherent_bind_raise)
next
  case False
  let ?g = "\<lambda>i. case kr_gpu (r i) of Some (Inr rows) \<Rightarrow> Some rows | _ \<Rightarrow> None"
  have "kr_gpu (r i) = map_option Inr (?g i)" if "i < n" for i
    using False that by (cases "kr_gpu (r i)") (auto split: sum.splits)
  moreover from this have "(?g i = None) = (?g 0 = None)" if "i < n" for i
    using uni [OF that] that n by (metis (no_types, lifting) less_trans map_option_is_None zero_less_one)
  ultimately have "spmd n (\<lambda>i. gpu_experts_dist n i (r i)) S (\<lambda>i. (Inr (?g i), S i))"
    by (rule spmd_gpu_ok [OF n])
  then show ?thesis by (rule coherent_bind) (rule K)
qed

lemma coherent_collect:
  assumes "1 < n" "qs = map (\<lambda>i. int (kr_qlen (r i))) [0..<n]"
    "\<And>i. i < n \<Longrightarrow> kr_autograd (r i) = kr_autograd (r 0)" "\<And>i. i < n \<Longrightarrow> kr_action (r i) = kr_action (r 0)"
  shows "coherent n (\<lambda>i. dbind (collect_output moe n i (r i) (Some qs)) (\<lambda>out. dreturn (c i out))) S"
proof -
  obtain out s' where "root_collect moe (r 0) (nat (sum_list qs)) (S 0) = (out, s')" by fastforce
  from spmd_collect_output [where r = r and S = S, OF assms this] obtain ctx where
    "spmd n (\<lambda>i. collect_output moe n i (r i) (Some qs)) S
      (\<lambda>i. (case out of Inl e \<Rightarrow> Inl (root_error ctx e) | Inr rows \<Rightarrow> Inr (rank_slices qs rows ! i), (S(0 := s')) i))" ..
  then show ?thesis by (rule coherent_bind_root) (rule coherent_ok [OF spmd_return])
qed

lemma coherent_submit:
  assumes n: "1 < n" and wf: "\<And>i. i < n \<Longrightarrow> wf_rank (r i)"
    and act: "\<And>i. i < n \<Longrightarrow> kr_action (r i) = kr_action (r 0)"
    and qs: "qs = map (\<lambda>i. int (kr_qlen (r i))) [0..<n]"
    and K: "\<And>S. coherent n (\<lambda>i. K i ()) S"
  shows "coherent n (\<lambda>i. dbind (if i = 0 then dlocal (ecapture (refresh_and_check (r i))) else dreturn (Inr ())) (\<lambda>refresh.
    dbind (submit_part_dist n i (r i) qs (err_of refresh)) (K i))) S"
proof (rule coherent_bind [OF spmd_root_capture])
  let ?err = "\<lambda>i::nat. err_of (if i = 0 then fst (refresh_and_check (r 0) (S 0)) else Inr ())"
  let ?S = "S(0 := snd (refresh_and_check (r 0) (S 0)))"
  obtain out s' where "root_submit (r 0) (length (joined (\<lambda>i. kr_hidden (r i)) n)) (?err 0) (joined (\<lambda>i. kr_hidden (r i)) n)
        (joined (\<lambda>i. kr_ids (r i)) n) (joined (\<lambda>i. kr_weights (r i)) n) (?S 0) = (out, s')"
    by (meson surj_pair)
  then have "spmd n (\<lambda>i. submit_part_dist n i (r i) qs (?err i)) ?S
    (\<lambda>i. (case out of Inr _ \<Rightarrow> Inr () | Inl e \<Rightarrow> Inl (root_error (submit_context (r 0)) e), (?S(0 := s')) i))"
    by (intro spmd_submit_part n wf act qs)
  then show "coherent n (\<lambda>i. dbind (submit_part_dist n i (r i) qs (?err i)) (K i)) ?S"
    by (rule coherent_bind_root) (rule K)
qed

text \<open>The forward pass after the agreement.\<close>

definition forward_tail ::
  "('x list \<Rightarrow> 'x list \<Rightarrow> 'x list \<Rightarrow> 'x list) \<Rightarrow> ('x \<Rightarrow> 'x \<Rightarrow> 'x) \<Rightarrow> nat \<Rightarrow> nat \<Rightarrow> 'x kt_rank \<Rightarrow> exn option \<Rightarrow> int list \<Rightarrow>
   ('x, 'x kt_layer, 'x list) dop" where
  "forward_tail moe add n rank r owner qs =
     (if qs ! rank \<noteq> int (kr_qlen r) then draise (RuntimeError ''qlen mismatch'')
      else
        dbind (dlocal (elift (validate_activation_checkpoint_phase (kr_policy r) (kr_phase r) (kr_save r)))) (\<lambda>_.
        dbind (case owner of None \<Rightarrow> dreturn () | Some e \<Rightarrow> draise (RuntimeError (''KT ownership validation failed: '' @ exn_message e))) (\<lambda>_.
        dbind (if rank = 0 then dlocal (ecapture (refresh_and_check r)) else dreturn (Inr ())) (\<lambda>refresh.
        dbind (submit_part_dist n rank r qs (err_of refresh)) (\<lambda>_.
        dbind (gpu_experts_dist n rank r) (\<lambda>gpu.
        dbind (collect_output moe n rank r (Some qs)) (\<lambda>out. dreturn (combine_outputs add out gpu))))))))"

lemma layer_forward_tail:
  assumes "1 < n"
  shows "layer_forward moe add n rank r l =
    dbind (all_gather_checkpoint_state (Some n) n (int (kr_qlen r)) (rank_control n rank r l))
      (forward_tail moe add n rank r (ownership_error n rank r l)) l"
proof -
  let ?A = "all_gather_checkpoint_state (Some n) n (int (kr_qlen r)) (rank_control n rank r l)"
  let ?k = "\<lambda>qs. if qs ! rank \<noteq> int (kr_qlen r) then draise (RuntimeError ''qlen mismatch'')
      else
        dbind (dlocal (elift (validate_activation_checkpoint_phase (kr_policy r) (kr_phase r) (kr_save r)))) (\<lambda>_.
        dbind (case ownership_error n rank r l of None \<Rightarrow> dreturn ()
               | Some e \<Rightarrow> draise (RuntimeError (''KT ownership validation failed: '' @ exn_message e))) (\<lambda>_.
        dbind (if rank = 0 then dlocal (ecapture (refresh_and_check r)) else dreturn (Inr ())) (\<lambda>refresh.
        dbind (submit_part_dist n rank r qs (err_of refresh)) (\<lambda>_.
        dbind (gpu_experts_dist n rank r) (\<lambda>gpu. dreturn (gpu, qs))))))"
  let ?K = "\<lambda>(gpu, qs). dbind (collect_output moe n rank r (Some qs)) (\<lambda>out. dreturn (combine_outputs add out gpu))"
  have "layer_forward moe add n rank r l = dbind (submit_and_compute_gpu_dist n rank r) ?K l"
    using assms by (simp add: layer_forward_def)
  also have "\<dots> = dbind (dbind ?A ?k) ?K l"
    by (rule dbind_at) (simp only: submit_and_compute_gpu_dist_def Let_def)
  also have "\<dots> = dbind ?A (\<lambda>qs. dbind (?k qs) ?K) l"
    by (simp only: dbind_assoc)
  also have "(\<lambda>qs. dbind (?k qs) ?K) = forward_tail moe add n rank r (ownership_error n rank r l)"
    by (rule ext) (simp only: forward_tail_def dbind_if dbind_raise dbind_assoc dbind_return prod.case)
  finally show ?thesis .
qed

lemma coherent_tail:
  assumes n: "1 < n" and wf: "\<And>i. i < n \<Longrightarrow> wf_rank (r i)" and qs: "qs = map (\<lambda>i. int (kr_qlen (r i))) [0..<n]"
    and auto: "\<And>i. i < n \<Longrightarrow> kr_autograd (r i) = kr_autograd (r 0)"
    and gpu: "\<And>i. i < n \<Longrightarrow> (kr_gpu (r i) = None) = (kr_gpu (r 0) = None)"
    and act: "\<And>i. i < n \<Longrightarrow> kr_action (r i) = kr_action (r 0)"
    and phase: "\<And>i. i < n \<Longrightarrow> kr_phase (r i) = kr_phase (r 0)"
    and pol: "\<And>i. i < n \<Longrightarrow> kr_policy (r i) = kr_policy (r 0)"
    and own: "\<And>i. i < n \<Longrightarrow> (owner i = None) = (owner 0 = None)"
  shows "coherent n (\<lambda>i. forward_tail moe add n i (r i) (owner i) qs) S"
proof -
  let ?v = "validate_activation_checkpoint_phase (kr_policy (r 0)) (kr_phase (r 0)) (kr_save (r 0))"
  let ?own = "\<lambda>i. case owner i of None \<Rightarrow> dreturn ()
      | Some e \<Rightarrow> draise (RuntimeError (''KT ownership validation failed: '' @ exn_message e))"
  let ?rest = "\<lambda>i. dbind (if i = 0 then dlocal (ecapture (refresh_and_check (r i))) else dreturn (Inr ())) (\<lambda>refresh.
        dbind (submit_part_dist n i (r i) qs (err_of refresh)) (\<lambda>_.
        dbind (gpu_experts_dist n i (r i)) (\<lambda>gpu.
        dbind (collect_output moe n i (r i) (Some qs)) (\<lambda>out. dreturn (combine_outputs add out gpu)))))"
  have collect: "coherent n (\<lambda>i. dbind (collect_output moe n i (r i) (Some qs))
      (\<lambda>out. dreturn (combine_outputs add out (g i)))) S" for g S
    by (rule coherent_collect [OF n qs auto act])
  have gpus: "coherent n (\<lambda>i. dbind (gpu_experts_dist n i (r i)) (\<lambda>gpu.
        dbind (collect_output moe n i (r i) (Some qs)) (\<lambda>out. dreturn (combine_outputs add out gpu)))) S" for S
    by (rule coherent_gpu [where r = r, OF n gpu]) (assumption, rule collect)
  have rest: "coherent n ?rest S"
    by (rule coherent_submit [where r = r, OF n wf act qs]) (assumption+, rule gpus)
  have "coherent n (\<lambda>i. dbind (?own i) (\<lambda>_. ?rest i)) S"
  proof (cases "owner 0")
    case None
    have "owner i = None" if "i < n" for i using own [OF that] None by simp
    then show ?thesis by (intro coherent_eqI [OF rest]) simp
  next
    case (Some e)
    have "\<exists>e. owner i = Some e" if "i < n" for i using own [OF that] Some by auto
    then show ?thesis
      by (intro coherent_eqI [OF coherent_raise [OF spmd_raise [of n
          "\<lambda>i. RuntimeError (''KT ownership validation failed: '' @ exn_message (the (owner i)))"]]]) fastforce
  qed
  then have "coherent n (\<lambda>i. dbind (dlocal (elift ?v)) (\<lambda>_. dbind (?own i) (\<lambda>_. ?rest i))) S"
    by (cases ?v) (simp_all add: coherent_raise [OF spmd_raise])
  then show ?thesis
  proof (rule coherent_eqI)
    fix i assume i: "i < n"
    have save: "kr_save (r i) = kr_save (r 0)"
      unfolding kr_save_def auto [OF i] act [OF i] phase [OF i] ..
    have "qs ! i = int (kr_qlen (r i))" using i by (simp add: qs)
    then show "forward_tail moe add n i (r i) (owner i) qs (S i) =
        dbind (dlocal (elift ?v)) (\<lambda>_. dbind (?own i) (\<lambda>_. ?rest i)) (S i)"
      unfolding forward_tail_def save pol [OF i] phase [OF i] by simp
  qed
qed

text \<open>
  C4. When the ranks agree on whether autograd is on and on whether the layer has GPU experts, no rank
  is left waiting in a collective, however they disagree otherwise and whatever fails: for
  every assignment of phases, policies, layers, sequence lengths (empty ones included), backend
  owners, backend states and failures of the refresh, the submission, the CPU kernel, the cache or
  the GPU experts of any rank, the forward pass of \<open>n\<close> ranks terminates, and either all ranks return
  rows or all raise. The first condition cannot be dropped: see \<open>autograd_disagreement_deadlocks\<close> in
  \<open>KTBackwardAll\<close>.
\<close>

theorem forward_coherent:
  assumes n: "1 < n" and wf: "\<And>i. i < n \<Longrightarrow> wf_rank (r i)"
    and auto: "\<And>i. i < n \<Longrightarrow> kr_autograd (r i) = kr_autograd (r 0)"
    and gpu: "\<And>i. i < n \<Longrightarrow> (kr_gpu (r i) = None) = (kr_gpu (r 0) = None)"
  shows "coherent n (\<lambda>i. layer_forward moe add n i (r i)) S"
proof -
  let ?q = "\<lambda>i. int (kr_qlen (r i))" and ?c = "\<lambda>i. rank_control n i (r i) (S i)"
  let ?states = "check_states (map (\<lambda>i. encode_state (?q i) (?c i)) [0..<n])"
  have agree: "spmd n (\<lambda>i. all_gather_checkpoint_state (Some n) n (?q i) (?c i)) S
      (\<lambda>i. (case ?states of Inl e \<Rightarrow> Inl e | Inr qs \<Rightarrow> Inr qs, S i))"
    using spmd_check_state [OF n, of ?q ?c S] by (cases ?states) simp_all
  have "coherent n (\<lambda>i. dbind (all_gather_checkpoint_state (Some n) n (?q i) (?c i))
      (forward_tail moe add n i (r i) (ownership_error n i (r i) (S i)))) S"
  proof (rule coherent_bind_root [OF agree])
    fix qs assume ok: "?states = Inr qs"
    note qs = check_states_agree(1) [OF ok]
    have eq: "rank_control n i (r i) (S i) = rank_control n 0 (r 0) (S 0)" if "i < n" for i
      using check_states_agree(3) [OF ok that, of 0] n by simp
    show "coherent n (\<lambda>i. forward_tail moe add n i (r i) (ownership_error n i (r i) (S i)) qs) S"
      by (rule coherent_tail [OF n wf qs auto gpu]) (erule rank_control_eq [OF eq] | assumption)+
  qed
  then show ?thesis
    by (rule coherent_eqI) (use n in \<open>simp add: layer_forward_tail\<close>)
qed

end
