(* ===== verification/KTBackward.thy ===== *)
theory KTBackward
  imports KTForward
begin

text \<open>
  The backward half of \<open>KTMoEFunction\<close> in \<open>kt-kernel/python/sft/autograd.py\<close>: the checkpoint recompute
  that autograd triggers, gathering the output gradients, the CPU backward on rank 0, publishing and
  closing the authoritative gradient window, and the scatter of input and routing gradients. The
  gradient arithmetic is the parameter \<open>bwd\<close>; \<open>recompute\<close> is the recomputation of the decoder layer,
  which communicates itself.
\<close>

section \<open>State and faults\<close>

record kt_ctx =
  cx_qlen :: nat
  cx_all_qlens :: "int list option"
  cx_cache :: bool
  cx_reuse :: bool
  cx_authoritative :: bool

text \<open>
  \<open>bf_prepare\<close> is a failure of the backward of the wrapper before its \<open>try\<close> (a submission already
  pending, the copy of the output gradients, the preparation of the gradient window), \<open>bf_backward\<close>
  one inside it (the repack that is waited for, the kernel, the copy of its result, the publication).
\<close>

record kt_bfaults =
  bf_prepare :: "exn option"
  bf_backward :: "exn option"
  bf_view :: "exn option"
  bf_clear :: "exn option"
  bf_release :: "exn option"
  bf_repack :: "exn option"

definition cx_retained :: "kt_ctx \<Rightarrow> bool" where
  "cx_retained c = (cx_cache c \<or> cx_reuse c)"

definition release_window :: "kt_bfaults \<Rightarrow> 'x kt_layer \<Rightarrow> 'x kt_layer" where
  "release_window f l =
     (if bf_release f = None then l\<lparr>kl_backend := map_option (\<lambda>b. b\<lparr>kb_window := False\<rparr>) (kl_backend l)\<rparr> else l)"

definition close_window :: "bool \<Rightarrow> kt_bfaults \<Rightarrow> 'x kt_layer \<Rightarrow> 'x kt_layer" where
  "close_window pub f l = (if pub then release_window f l else l)"

section \<open>The backend\<close>

text \<open>
  \<open>backward\<close> of the wrapper with \<open>optimizer_grad_scale = 1/d\<close>, which is finite and positive for every
  \<open>d > 0\<close>. An authoritative backward adds to the optimizer gradients while their window is open and
  overwrites them otherwise; the legacy kernel always overwrites. A failed authoritative backward
  closes the window and gives up one forward cache, so that whatever the kernel has half written is
  overwritten by the next one.
\<close>

definition kb_backward ::
  "('x list \<Rightarrow> 'x list \<times> 'x list) \<Rightarrow> nat \<Rightarrow> kt_ctx \<Rightarrow> kt_bfaults \<Rightarrow> 'x list \<Rightarrow> ('x kt_layer, 'x list \<times> 'x list) eop" where
  "kb_backward bwd d c f go = on_backend (\<lambda>b.
     (if kb_depth b \<le> 0
      then (Inl (RuntimeError ''No forward cache available. Call forward(save_for_backward=True) first.''), b)
      else (case bf_prepare f of
              Some e \<Rightarrow> (Inl e, b)
            | None \<Rightarrow>
                (case bf_backward f of
                   Some e \<Rightarrow>
                     (Inl e, if cx_authoritative c then b\<lparr>kb_window := False, kb_depth := max 0 (kb_depth b - 1)\<rparr> else b)
                 | None \<Rightarrow>
                     (Inr (bwd go),
                      b\<lparr>kb_window := kb_window b \<or> cx_authoritative c,
                        kb_wgrad := (if cx_authoritative c \<and> kb_window b then kb_wgrad b else []) @ [(d, go)],
                        kb_depth := kb_depth b - 1\<rparr>)))))"

definition root_backward ::
  "('x list \<Rightarrow> 'x list \<times> 'x list) \<Rightarrow> nat \<Rightarrow> kt_ctx \<Rightarrow> kt_bfaults \<Rightarrow> 'x list \<Rightarrow> ('x kt_layer, 'x list \<times> 'x list) eop" where
  "root_backward bwd n c f go =
     ebind (eassert (\<lambda>l. kl_backend l \<noteq> None) (RuntimeError ''Rank 0 does not own the KT backend''))
       (\<lambda>_. kb_backward bwd n c f go)"

definition view_grads :: "kt_bfaults \<Rightarrow> nat \<Rightarrow> 'x list \<times> 'x list \<Rightarrow> ('x list \<times> 'x list) result" where
  "view_grads f qlen g =
     (case bf_view f of
        Some e \<Rightarrow> Inl e
      | None \<Rightarrow> rbind (view_rows qlen (fst g)) (\<lambda>gi. rbind (view_rows qlen (snd g)) (\<lambda>gw. Inr (gi, gw))))"

definition view_input_grads :: "kt_bfaults \<Rightarrow> nat \<Rightarrow> 'x list \<times> 'x list \<Rightarrow> ('x list \<times> 'x list) result" where
  "view_input_grads f qlen g =
     (case bf_view f of
        Some e \<Rightarrow> Inl e
      | None \<Rightarrow> rbind (view_rows qlen (fst g)) (\<lambda>gi. Inr (gi, snd g)))"

definition clear_checkpoint_cache :: "kt_bfaults \<Rightarrow> ('x kt_layer, unit) eop" where
  "clear_checkpoint_cache f l =
     (case bf_clear f of
        Some e \<Rightarrow> (Inl e, l)
      | None \<Rightarrow> (Inr (), l\<lparr>kl_backend := map_option (\<lambda>b. b\<lparr>kb_ckpt := clear_checkpoint_output (kb_ckpt b)\<rparr>) (kl_backend l)\<rparr>))"

text \<open>
  The block rank 0 runs between the gather and the scatters: the outcome, whether gradients are
  still published, and the new state.
\<close>

definition rank0_backward ::
  "('x list \<Rightarrow> 'x list \<times> 'x list) \<Rightarrow> nat \<Rightarrow> kt_ctx \<Rightarrow> kt_bfaults \<Rightarrow> int list \<Rightarrow> 'x list \<Rightarrow>
   'x kt_layer \<Rightarrow> (('x list list \<times> 'x list list) result \<times> bool) \<times> 'x kt_layer" where
  "rank0_backward bwd n c f qs go l =
     (let (res, l1) = root_backward bwd n c f go l;
          pub = (is_ok res \<and> cx_authoritative c);
          out = rbind res (\<lambda>g. rbind (view_grads f (length go) g) (\<lambda>(gi, gw). Inr (rank_slices qs gi, rank_slices qs gw)));
          l2 = (case out of Inr _ \<Rightarrow> l1 | Inl e \<Rightarrow> poison_if (cx_retained c) e (close_window pub f l1));
          pub2 = (pub \<and> is_ok out)
      in case clear_checkpoint_cache f l2 of
           (Inr _, l3) \<Rightarrow> ((out, pub2), l3)
         | (Inl e, l3) \<Rightarrow>
             ((case out of Inr _ \<Rightarrow> Inl e | Inl e0 \<Rightarrow> Inl e0, False),
              close_window pub2 f (poison_checkpoint_cache e l3)))"

section \<open>The backward pass\<close>

definition after_recompute :: "nat \<Rightarrow> nat \<Rightarrow> kt_ctx \<Rightarrow> unit result \<Rightarrow> ('x, 'x kt_layer, unit) dop" where
  "after_recompute n rank c outcome =
     (if cx_retained c \<and> 1 < n
      then dtry (sync_any_rank_exception ''checkpoint recompute failed'' (err_of outcome) rank n) poison_checkpoint_cache
      else (case outcome of
              Inr _ \<Rightarrow> dreturn ()
            | Inl e \<Rightarrow> dtry (draise e) (poison_if (cx_retained c))))"

definition repack_next :: "kt_ctx \<Rightarrow> kt_bfaults \<Rightarrow> ('x kt_layer, unit) eop" where
  "repack_next c f = ehandle (ecall (bf_repack f)) (\<lambda>_. close_window (cx_authoritative c) f)"

text \<open>After rank 0's outcome has been shared: the two scatters, then the next layer's repack.\<close>

definition chunks_for :: "nat \<Rightarrow> ('x list list \<times> 'x list list) result \<Rightarrow> ('x list list \<times> 'x list list \<Rightarrow> 'x list list) \<Rightarrow> 'x list list option" where
  "chunks_for rank out part = (case out of Inr p \<Rightarrow> if rank = 0 then Some (part p) else None | Inl _ \<Rightarrow> None)"

definition scatter_and_repack ::
  "nat \<Rightarrow> nat \<Rightarrow> kt_ctx \<Rightarrow> kt_bfaults \<Rightarrow> int list \<Rightarrow> ('x list list \<times> 'x list list) result \<Rightarrow> bool \<Rightarrow>
   ('x, 'x kt_layer, 'x list \<times> 'x list) dop" where
  "scatter_and_repack n rank c f qs out pub =
     dbind (dtry
       (dbind (scatter_varlen_from_rank0 (chunks_for rank out fst) qs rank n) (\<lambda>gi.
        dbind (scatter_varlen_from_rank0 (chunks_for rank out snd) qs rank n) (\<lambda>gw. dreturn (gi, gw))))
       (\<lambda>_. close_window (rank = 0 \<and> pub) f)) (\<lambda>grads.
     dbind (if rank = 0 then dlocal (ecapture (repack_next c f)) else dreturn (Inr ())) (\<lambda>repack.
     dbind (sync_rank0_exception ''backward repack submission failed'' (err_of repack) rank n) (\<lambda>_. dreturn grads)))"

definition backward_dist ::
  "('x list \<Rightarrow> 'x list \<times> 'x list) \<Rightarrow> nat \<Rightarrow> nat \<Rightarrow> kt_ctx \<Rightarrow> kt_bfaults \<Rightarrow> 'x list \<Rightarrow> ('x, 'x kt_layer, 'x list \<times> 'x list) dop" where
  "backward_dist bwd n rank c f go =
     dbind (case cx_all_qlens c of
              Some qs \<Rightarrow> if length qs = n then dreturn qs else all_gather_qlens (int (cx_qlen c))
            | None \<Rightarrow> all_gather_qlens (int (cx_qlen c))) (\<lambda>qs.
     if qs ! rank \<noteq> int (cx_qlen c) then draise (RuntimeError ''Backward qlen mismatch'')
     else
       dbind (gather_varlen_to_rank0 go qs rank n) (\<lambda>gathered.
       dbind (if rank = 0 then dlocal (ecapture (rank0_backward bwd n c f qs (concat (the_list gathered))))
              else dreturn (Inr ([], []), False)) (\<lambda>a.
       dbind (sync_rank0_exception ''CPU backward failed'' (err_of (fst a)) rank n) (\<lambda>_.
       scatter_and_repack n rank c f qs (fst a) (snd a)))))"

text \<open>Without a process group: a rank without a backend returns zero gradients.\<close>

definition backward_local ::
  "'x \<Rightarrow> ('x list \<Rightarrow> 'x list \<times> 'x list) \<Rightarrow> kt_ctx \<Rightarrow> kt_bfaults \<Rightarrow> 'x list \<Rightarrow> ('x kt_layer, 'x list \<times> 'x list) eop" where
  "backward_local zero bwd c f go l =
     (if kl_backend l = None then (Inr (replicate (cx_qlen c) zero, replicate (cx_qlen c) zero), l)
      else
        (let (out, l1) = ehandle (ebind (kb_backward bwd 1 c f go) (\<lambda>g. elift (view_input_grads f (cx_qlen c) g)))
               (\<lambda>e l. close_window (cx_authoritative c) f (poison_if (cx_retained c) e l)) l;
             (cleared, l2) = ehandle (clear_checkpoint_cache f) (\<lambda>_. close_window (cx_authoritative c) f) l1
         in case (cleared, out) of
              (Inl e, _) \<Rightarrow> (Inl e, l2)
            | (Inr _, Inl e) \<Rightarrow> (Inl e, l2)
            | (Inr _, Inr grads) \<Rightarrow> ebind (repack_next c f) (\<lambda>_. ereturn grads) l2))"

definition kt_function_backward ::
  "'x \<Rightarrow> ('x list \<Rightarrow> 'x list \<times> 'x list) \<Rightarrow> nat \<Rightarrow> nat \<Rightarrow> kt_ctx \<Rightarrow> kt_bfaults \<Rightarrow> ('x, 'x kt_layer, unit) dop \<Rightarrow> 'x list \<Rightarrow>
   ('x, 'x kt_layer, 'x list \<times> 'x list) dop" where
  "kt_function_backward zero bwd n rank c f recompute go =
     dbind (dattempt recompute) (\<lambda>outcome.
     dbind (after_recompute n rank c outcome) (\<lambda>_.
     if 1 < n then backward_dist bwd n rank c f go else dlocal (backward_local zero bwd c f go)))"

section \<open>Rank 0\<close>

lemma window_closed:
  "bf_release f = None \<Longrightarrow> \<not> backend_flag kb_window (release_window f l)"
  by (cases "kl_backend l") (simp_all add: release_window_def backend_flag_def)

lemma window_poison [simp]: "backend_flag kb_window (poison_checkpoint_cache e l) = backend_flag kb_window l"
  by (cases "kl_backend l") (simp_all add: poison_checkpoint_cache_def backend_flag_def)

lemma window_poison_if [simp]: "backend_flag kb_window (poison_if b e l) = backend_flag kb_window l"
  by (simp add: poison_if_def)

lemma window_clear: "clear_checkpoint_cache f l = (r, l') \<Longrightarrow> backend_flag kb_window l' = backend_flag kb_window l"
  by (cases "kl_backend l") (auto simp: clear_checkpoint_cache_def backend_flag_def split: option.splits)

lemma kb_backward_window:
  assumes "kb_backward bwd d c f go l = (res, l1)" "\<not> backend_flag kb_window l"
  shows "backend_flag kb_window l1 \<longrightarrow> is_ok res \<and> cx_authoritative c"
  using assms by (cases "kl_backend l")
    (auto simp: kb_backward_def on_backend_def backend_flag_def split: if_splits option.splits)

lemma root_backward_Inr: "root_backward bwd d c f go l = (Inr g, l1) \<longleftrightarrow> kb_backward bwd d c f go l = (Inr g, l1)"
  by (auto simp: root_backward_def ebind_eq_Inr eassert_def kb_backward_def on_backend_def split: if_splits option.splits)

lemma root_backward_window:
  assumes "root_backward bwd d c f go l = (res, l1)" "\<not> backend_flag kb_window l"
  shows "backend_flag kb_window l1 \<longrightarrow> is_ok res \<and> cx_authoritative c"
  using assms kb_backward_window [of bwd d c f go l res l1]
  by (auto simp: root_backward_def ebind_def eassert_def split: if_splits)

lemma rank0_backward_closed:
  assumes rel: "bf_release f = None" and closed: "\<not> backend_flag kb_window l"
    and run: "rank0_backward bwd d c f qs go l = ((Inl e, pub), l')"
  shows "\<not> backend_flag kb_window l'"
proof -
  obtain res l1 where res: "root_backward bwd d c f go l = (res, l1)" by fastforce
  note w = root_backward_window [OF res closed]
  let ?p = "is_ok res \<and> cx_authoritative c"
  have c1: "\<not> backend_flag kb_window (close_window ?p f l1)"
    using w window_closed [OF rel] by (auto simp: close_window_def)
  show ?thesis
    using run w c1 window_closed [OF rel]
    by (auto simp: rank0_backward_def res Let_def close_window_def split: prod.splits sum.splits if_splits
        dest!: window_clear)
qed

lemma rank0_backward_ok:
  assumes "rank0_backward bwd d c f qs go l = ((Inr (gis, gws), pub), l')"
  obtains gi gw l1 where "kb_backward bwd d c f go l = (Inr (gi, gw), l1)" "view_grads f (length go) (gi, gw) = Inr (gi, gw)"
    "clear_checkpoint_cache f l1 = (Inr (), l')" "gis = rank_slices qs gi" "gws = rank_slices qs gw"
    "length gi = length go" "length gw = length go"
  using assms
  by (auto simp: rank0_backward_def Let_def view_grads_def view_rows_def root_backward_Inr
      split: prod.splits sum.splits if_splits option.splits)

section \<open>All ranks\<close>

definition grads_match :: "nat \<Rightarrow> (nat \<Rightarrow> kt_ctx) \<Rightarrow> (nat \<Rightarrow> 'x list) \<Rightarrow> bool" where
  "grads_match n c go = list_all (\<lambda>i. cx_qlen (c i) = length (go i) \<and>
     cx_all_qlens (c i) = Some (map (\<lambda>j. int (length (go j))) [0..<n]) \<and>
     cx_cache (c i) = cx_cache (c 0) \<and> cx_reuse (c i) = cx_reuse (c 0)) [0..<n]"

lemma grads_matchD:
  assumes "grads_match n c go" "i < n"
  shows "cx_qlen (c i) = length (go i)" "cx_all_qlens (c i) = Some (map (\<lambda>j. int (length (go j))) [0..<n])"
    "cx_retained (c i) = cx_retained (c 0)"
  using assms(1) [unfolded grads_match_def list_all_iff, THEN bspec, of i] assms(2) by (auto simp: cx_retained_def)

text \<open>Gather, rank 0's block, and what every rank receives.\<close>

lemma spmd_backward_root:
  assumes n: "1 < n" and m: "grads_match n c go" and qs: "qs = map (\<lambda>j. int (length (go j))) [0..<n]"
    and run: "rank0_backward bwd n (c 0) (f 0) qs (joined go n) (S 0) = ((out, pub), s')"
    and bad: "\<And>e. out = Inl e \<Longrightarrow> R = (\<lambda>i. (Inl (root_error ''CPU backward failed'' e), (S(0 := s')) i))"
    and ok: "\<And>p. out = Inr p \<Longrightarrow> spmd n (\<lambda>i. scatter_and_repack n i (c i) (f i) qs
       (if i = 0 then Inr p else Inr ([], [])) (if i = 0 then pub else False)) (S(0 := s')) R"
  shows "spmd n (\<lambda>i. backward_dist bwd n i (c i) (f i) (go i)) S R"
proof -
  let ?G = "\<lambda>i. if i = 0 then Some (map go [0..<n]) else None"
  let ?blk = "\<lambda>i. rank0_backward bwd n (c i) (f i) qs (concat (the_list (?G i)))"
  let ?A = "\<lambda>i::nat. if i = 0 then (out, pub) else (Inr ([], []), False)"
  let ?sync = "\<lambda>i. sync_rank0_exception ''CPU backward failed'' (err_of (fst (?A i))) i n"
  let ?rest = "\<lambda>i. scatter_and_repack n i (c i) (f i) qs (fst (?A i)) (snd (?A i))"
  have gather: "spmd n (\<lambda>i. gather_varlen_to_rank0 (go i) qs i n) S (\<lambda>i. (Inr (?G i), S i))"
    by (rule spmd_gather_varlen) (use n in \<open>simp_all add: qs\<close>)
  have blk: "?blk 0 (S 0) = ((out, pub), s')" using run by (simp add: the_list_def joined_def)
  have block: "spmd n (\<lambda>i. if i = 0 then dlocal (ecapture (?blk i)) else dreturn (Inr ([], []), False)) S
      (\<lambda>i. (Inr (?A i), (S(0 := s')) i))"
    using spmd_root_capture [of n ?blk "(Inr ([], []), False)" S] unfolding blk fst_conv snd_conv .
  have fin: "spmd n (\<lambda>i. dbind (?sync i) (\<lambda>_. ?rest i)) (S(0 := s')) R"
  proof (cases out)
    case (Inl e)
    have "spmd n ?sync (S(0 := s')) (\<lambda>i. (Inl (root_error ''CPU backward failed'' e), (S(0 := s')) i))"
      using spmd_sync_rank0 [OF n, of "''CPU backward failed''" "\<lambda>i. err_of (fst (?A i))" "S(0 := s')"] Inl
      by (simp add: root_error_def)
    then show ?thesis unfolding bad [OF Inl] by (rule spmd_bind_raise)
  next
    case (Inr p)
    have sync: "spmd n ?sync (S(0 := s')) (\<lambda>i. (Inr (), (S(0 := s')) i))"
      using spmd_sync_rank0 [OF n, of "''CPU backward failed''" "\<lambda>i. err_of (fst (?A i))" "S(0 := s')"] Inr by simp
    have "?rest i = scatter_and_repack n i (c i) (f i) qs (if i = 0 then Inr p else Inr ([], [])) (if i = 0 then pub else False)" for i
      by (simp add: Inr)
    then have "spmd n ?rest (S(0 := s')) R" using ok [OF Inr] by (simp only:)
    then show ?thesis by (rule spmd_bind [OF sync])
  qed
  have "spmd n (\<lambda>i. dbind (gather_varlen_to_rank0 (go i) qs i n) (\<lambda>gathered.
       dbind (if i = 0 then dlocal (ecapture (rank0_backward bwd n (c i) (f i) qs (concat (the_list gathered))))
              else dreturn (Inr ([], []), False)) (\<lambda>a.
       dbind (sync_rank0_exception ''CPU backward failed'' (err_of (fst a)) i n) (\<lambda>_.
       scatter_and_repack n i (c i) (f i) qs (fst a) (snd a))))) S R"
    by (rule spmd_bind [OF gather], rule spmd_bind [OF block], rule fin)
  then show ?thesis
  proof (rule spmd_eqI)
    fix i assume i: "i < n"
    have "qs ! i = int (cx_qlen (c i))" "length qs = n" using i grads_matchD(1) [OF m i] by (simp_all add: qs)
    then show "backward_dist bwd n i (c i) (f i) (go i) = dbind (gather_varlen_to_rank0 (go i) qs i n) (\<lambda>gathered.
       dbind (if i = 0 then dlocal (ecapture (rank0_backward bwd n (c i) (f i) qs (concat (the_list gathered))))
              else dreturn (Inr ([], []), False)) (\<lambda>a.
       dbind (sync_rank0_exception ''CPU backward failed'' (err_of (fst a)) i n) (\<lambda>_.
       scatter_and_repack n i (c i) (f i) qs (fst a) (snd a))))"
      unfolding backward_dist_def grads_matchD(2) [OF m i] qs [symmetric] by simp
  qed
qed

lemma spmd_scatter_and_repack:
  assumes n: "1 < n" and len: "length gis = n" "length gws = n"
    and rows: "\<And>i. i < n \<Longrightarrow> int (length (gis ! i)) = qs ! i" "\<And>i. i < n \<Longrightarrow> int (length (gws ! i)) = qs ! i"
    and rp: "repack_next (c 0) (f 0) (S 0) = (rp, s')"
  shows "spmd n (\<lambda>i. scatter_and_repack n i (c i) (f i) qs (if i = 0 then Inr (gis, gws) else Inr ([], [])) (pub i)) S
    (\<lambda>i. (case rp of Inr _ \<Rightarrow> Inr (gis ! i, gws ! i) | Inl e \<Rightarrow> Inl (root_error ''backward repack submission failed'' e), (S(0 := s')) i))"
    (is "spmd n _ S ?R")
proof -
  let ?out = "\<lambda>i::nat. if i = 0 then Inr (gis, gws) else Inr ([], [])"
  have nth: "map ((!) gis) [0..<n] = gis" "map ((!) gws) [0..<n] = gws"
    using len map_nth [of gis] map_nth [of gws] by simp_all
  have s1: "spmd n (\<lambda>i. scatter_varlen_from_rank0 (chunks_for i (?out i) fst) qs i n) S (\<lambda>i. (Inr (gis ! i), S i))"
    by (rule spmd_scatter_varlen) (use n rows nth in \<open>simp_all add: chunks_for_def\<close>)
  have s2: "spmd n (\<lambda>i. scatter_varlen_from_rank0 (chunks_for i (?out i) snd) qs i n) S (\<lambda>i. (Inr (gws ! i), S i))"
    by (rule spmd_scatter_varlen) (use n rows nth in \<open>simp_all add: chunks_for_def\<close>)
  have "spmd n (\<lambda>i. dbind (scatter_varlen_from_rank0 (chunks_for i (?out i) fst) qs i n) (\<lambda>gi.
      dbind (scatter_varlen_from_rank0 (chunks_for i (?out i) snd) qs i n) (\<lambda>gw. dreturn (gi, gw)))) S
      (\<lambda>i. (Inr (gis ! i, gws ! i), S i))"
    by (rule spmd_bind [OF s1], rule spmd_bind [OF s2], rule spmd_return)
  note scatters = spmd_try [OF this]
  have repack: "spmd n (\<lambda>i. dbind (if i = 0 then dlocal (ecapture (repack_next (c i) (f i))) else dreturn (Inr ())) (\<lambda>res.
      dbind (sync_rank0_exception ''backward repack submission failed'' (err_of res) i n)
        (\<lambda>_. dreturn (gis ! i, gws ! i)))) S ?R"
    by (rule spmd_root_sync [where m = "\<lambda>i. repack_next (c i) (f i)" and S = S
          and K = "\<lambda>i _. dreturn (gis ! i, gws ! i)", OF n rp])
      (simp_all add: spmd_return del: fun_upd_apply)
  show ?thesis unfolding scatter_and_repack_def
    by (rule spmd_bind [OF scatters]) (rule repack)
qed

section \<open>Equivalence with one process\<close>

lemma local_backward_steps:
  assumes "backward_local zero bwd c f go l = (Inr (gi, gw), l')" "kl_backend l \<noteq> None" "cx_qlen c = length go"
    "length gw = length go"
  obtains l1 l2 where "kb_backward bwd 1 c f go l = (Inr (gi, gw), l1)" "view_grads f (length go) (gi, gw) = Inr (gi, gw)"
    "clear_checkpoint_cache f l1 = (Inr (), l2)" "repack_next c f l2 = (Inr (), l')" "length gi = length go"
  using assms
  by (auto simp: backward_local_def Let_def ehandle_Inr ebind_eq_Inr elift_def view_input_grads_def view_grads_def
      view_rows_def split: prod.splits sum.splits option.splits if_splits)

lemma rank0_backward_run:
  assumes "kb_backward bwd d c f go l = (Inr (gi, gw), l1)" "view_grads f (length go) (gi, gw) = Inr (gi, gw)"
    "clear_checkpoint_cache f l1 = (Inr (), l2)"
  shows "rank0_backward bwd d c f qs go l = ((Inr (rank_slices qs gi, rank_slices qs gw), cx_authoritative c), l2)"
  using assms by (simp add: rank0_backward_def root_backward_Inr [THEN iffD2])

text \<open>The state of a backend whose last contribution to the optimizer gradients has divisor \<open>d\<close>.\<close>

definition scale_last :: "nat \<Rightarrow> (nat \<times> 'x list) list \<Rightarrow> (nat \<times> 'x list) list" where
  "scale_last d ws = (if ws = [] then [] else butlast ws @ [(d, snd (last ws))])"

definition rescaled :: "nat \<Rightarrow> 'x kt_layer \<Rightarrow> 'x kt_layer" where
  "rescaled d l = l\<lparr>kl_backend := map_option (\<lambda>b. b\<lparr>kb_wgrad := scale_last d (kb_wgrad b)\<rparr>) (kl_backend l)\<rparr>"

lemma kb_backward_rescaled:
  assumes "kb_backward bwd d c f go l = (Inr g, l1)"
  shows "kb_backward bwd d' c f go l = (Inr g, rescaled d' l1)"
  using assms by (auto simp: kb_backward_def on_backend_def rescaled_def scale_last_def split: if_splits option.splits)

lemma clear_rescaled:
  assumes "clear_checkpoint_cache f l1 = (Inr (), l2)"
  shows "clear_checkpoint_cache f (rescaled d l1) = (Inr (), rescaled d l2)"
  using assms by (cases "kl_backend l1") (auto simp: clear_checkpoint_cache_def rescaled_def split: option.splits)

lemma repack_rescaled:
  assumes "repack_next c f l = (Inr (), l')"
  shows "repack_next c f (rescaled d l) = (Inr (), rescaled d l')"
  using assms by (auto simp: repack_next_def ehandle_def ecall_def split: option.splits)

definition grad_qlens :: "nat \<Rightarrow> (nat \<Rightarrow> 'x list) \<Rightarrow> int list" where
  "grad_qlens n go = map (\<lambda>j. int (length (go j))) [0..<n]"

text \<open>
  C12. The distributed backward pass computes what one process computes: when the single-process
  backward on the concatenated output gradients returns input and routing gradients \<open>gi\<close> and \<open>gw\<close> and
  leaves the backend in state \<open>l'\<close>, then all \<open>n\<close> ranks return, rank \<open>i\<close> with its own rows of \<open>gi\<close> and
  \<open>gw\<close>, and rank 0's backend ends in \<open>l'\<close> but for the scale of the contribution this backward makes to
  the optimizer gradients, which is \<open>1/n\<close> instead of \<open>1\<close> on the same rows (the average over ranks that
  data parallelism wants). So gradients are accumulated, overwritten and published exactly when one
  process does it, the forward cache is consumed, the checkpoint cache cleared and the next layer's
  repack submitted.
\<close>

theorem distributed_backward_is_local:
  assumes n: "1 < n" and m: "grads_match n c go" and own: "kl_backend (S 0) \<noteq> None"
    and single: "backward_local zero bwd ((c 0)\<lparr>cx_qlen := length (joined go n)\<rparr>) (f 0) (joined go n) (S 0) = (Inr (gi, gw), l')"
    and len: "length gw = length (joined go n)"
  shows "spmd n (\<lambda>i. backward_dist bwd n i (c i) (f i) (go i)) S
    (\<lambda>i. (Inr (rank_slices (grad_qlens n go) gi ! i, rank_slices (grad_qlens n go) gw ! i), (S(0 := rescaled n l')) i))"
proof -
  define qs where "qs = map (\<lambda>j. int (length (go j))) [0..<n]"
  let ?c = "(c 0)\<lparr>cx_qlen := length (joined go n)\<rparr>"
  obtain l1 l2 where bw: "kb_backward bwd 1 ?c (f 0) (joined go n) (S 0) = (Inr (gi, gw), l1)"
    and view: "view_grads (f 0) (length (joined go n)) (gi, gw) = Inr (gi, gw)"
    and clear: "clear_checkpoint_cache (f 0) l1 = (Inr (), l2)" and rp: "repack_next ?c (f 0) l2 = (Inr (), l')"
    and gi: "length gi = length (joined go n)"
    by (rule local_backward_steps [OF single own _ len]) simp
  have same: "cx_authoritative ?c = cx_authoritative (c 0)" by simp
  have "kb_backward bwd 1 ?c = kb_backward bwd 1 (c 0)" "repack_next ?c = repack_next (c 0)"
    unfolding fun_eq_iff kb_backward_def repack_next_def same by simp_all
  note bw = kb_backward_rescaled [OF bw [unfolded this], of n] and clear = clear_rescaled [OF clear, of n]
    and rp = repack_rescaled [OF rp [unfolded this], of n]
  have tot: "int (length (joined go n)) = sum_list qs" unfolding qs_def sum_list_qlens ..
  have nn: "\<And>q. q \<in> set qs \<Longrightarrow> 0 \<le> q" unfolding qs_def by auto
  have lq: "length qs = n" by (simp add: qs_def)
  show ?thesis unfolding grad_qlens_def qs_def [symmetric]
  proof (rule spmd_backward_root [where c = c and f = f and S = S and go = go and qs = qs,
        OF n m qs_def rank0_backward_run [OF bw view clear]])
    fix p assume "(Inr (rank_slices qs gi, rank_slices qs gw) :: ('a list list \<times> 'a list list) result) = Inr p"
    then have p: "p = (rank_slices qs gi, rank_slices qs gw)" by simp
    have "spmd n (\<lambda>i. scatter_and_repack n i (c i) (f i) qs
        (if i = 0 then Inr (rank_slices qs gi, rank_slices qs gw) else Inr ([], [])) (if i = 0 then cx_authoritative (c 0) else False)) (S(0 := rescaled n l2))
      (\<lambda>i. (case (Inr () :: unit result) of Inr _ \<Rightarrow> Inr (rank_slices qs gi ! i, rank_slices qs gw ! i)
          | Inl e \<Rightarrow> Inl (root_error ''backward repack submission failed'' e), ((S(0 := rescaled n l2))(0 := rescaled n l')) i))"
    proof (rule spmd_scatter_and_repack [OF n])
      show "int (length (rank_slices qs gi ! i)) = qs ! i" "int (length (rank_slices qs gw ! i)) = qs ! i" if "i < n" for i
        by (rule rank_slices_lengths; use nn tot gi len lq that in simp)+
    qed (use lq rp in simp_all)
    then show "spmd n (\<lambda>i. scatter_and_repack n i (c i) (f i) qs (if i = 0 then Inr p else Inr ([], []))
        (if i = 0 then cx_authoritative (c 0) else False)) (S(0 := rescaled n l2))
      (\<lambda>i. (Inr (rank_slices qs gi ! i, rank_slices qs gw ! i), (S(0 := rescaled n l')) i))"
      unfolding p sum.case fun_upd_upd .
  qed simp
qed

section \<open>All ranks leave the backward pass together\<close>

definition settled :: "nat \<Rightarrow> (nat \<Rightarrow> 'a result \<times> 'x kt_layer) \<Rightarrow> bool" where
  "settled n R = (list_all (\<lambda>i. is_ok (fst (R i))) [0..<n] \<or>
     list_all (\<lambda>i. \<not> is_ok (fst (R i))) [0..<n] \<and> \<not> backend_flag kb_window (snd (R 0)))"

lemma backward_dist_settles:
  assumes n: "1 < n" and m: "grads_match n c go" and rel: "bf_release (f 0) = None"
    and closed: "\<not> backend_flag kb_window (S 0)"
  shows "\<exists>R. spmd n (\<lambda>i. backward_dist bwd n i (c i) (f i) (go i)) S R \<and> settled n R"
proof -
  let ?qs = "map (\<lambda>j. int (length (go j))) [0..<n]"
  obtain out pub s' where run: "rank0_backward bwd n (c 0) (f 0) ?qs (joined go n) (S 0) = ((out, pub), s')"
    by (metis surj_pair)
  show ?thesis
  proof (cases out)
    case (Inl e)
    have "spmd n (\<lambda>i. backward_dist bwd n i (c i) (f i) (go i)) S
        (\<lambda>i. (Inl (root_error ''CPU backward failed'' e), (S(0 := s')) i))"
      by (rule spmd_backward_root [where c = c and f = f and S = S and go = go, OF n m refl run]) (use Inl in simp_all)
    moreover have "\<not> backend_flag kb_window s'"
      by (rule rank0_backward_closed [OF rel closed run [unfolded Inl]])
    ultimately show ?thesis by (intro exI conjI) (assumption, simp add: settled_def list_all_iff)
  next
    case (Inr p)
    obtain gis gws where p: "p = (gis, gws)" by fastforce
    obtain gi gw l1 where bw: "kb_backward bwd n (c 0) (f 0) (joined go n) (S 0) = (Inr (gi, gw), l1)"
      and clear: "clear_checkpoint_cache (f 0) l1 = (Inr (), s')" and gs: "gis = rank_slices ?qs gi" "gws = rank_slices ?qs gw"
      "length gi = length (joined go n)" "length gw = length (joined go n)"
      by (rule rank0_backward_ok [OF run [unfolded Inr p]])
    obtain rp s'' where rp: "repack_next (c 0) (f 0) s' = (rp, s'')" by fastforce
    let ?R = "\<lambda>i. (case rp of Inr _ \<Rightarrow> Inr (gis ! i, gws ! i)
        | Inl e \<Rightarrow> Inl (root_error ''backward repack submission failed'' e), ((S(0 := s'))(0 := s'')) i)"
    have "spmd n (\<lambda>i. backward_dist bwd n i (c i) (f i) (go i)) S ?R"
    proof (rule spmd_backward_root [where c = c and f = f and S = S and go = go, OF n m refl run])
      fix p' assume "out = Inr p'"
      then have p': "p' = (gis, gws)" using Inr p by simp
      show "spmd n (\<lambda>i. scatter_and_repack n i (c i) (f i) ?qs (if i = 0 then Inr p' else Inr ([], []))
          (if i = 0 then pub else False)) (S(0 := s')) ?R"
        unfolding p'
      proof (rule spmd_scatter_and_repack [OF n])
        show "int (length (gis ! i)) = ?qs ! i" "int (length (gws ! i)) = ?qs ! i" if "i < n" for i
          unfolding gs(1,2)
          by (rule rank_slices_lengths; use gs(3,4) that in \<open>auto simp: sum_list_qlens\<close>)+
      qed (use gs rp in simp_all)
    qed (use Inr in simp)
    moreover have "\<not> backend_flag kb_window s''" if "rp = Inl e" for e
      using rp that window_closed [OF rel] kb_backward_window [OF bw closed] window_clear [OF clear]
      by (cases "bf_repack (f 0)") (auto simp: repack_next_def ehandle_def ecall_def close_window_def split: if_splits)
    then have "settled n ?R" by (cases rp) (simp_all add: settled_def list_all_iff)
    ultimately show ?thesis by blast
  qed
qed

end
