(* ===== verification/KTForwardEq.thy ===== *)
theory KTForwardEq
  imports KTForward
begin

text \<open>
  Distributed forward against the single-process forward: on the concatenated tokens of all ranks
  both do the same to the backend and compute the same rows.
\<close>

section \<open>One process that holds all tokens\<close>

definition joined_rank :: "nat \<Rightarrow> (nat \<Rightarrow> 'x kt_rank) \<Rightarrow> (nat \<Rightarrow> 'x list option) \<Rightarrow> 'x kt_rank" where
  "joined_rank n r g =
     (r 0)\<lparr>kr_hidden := joined (\<lambda>i. kr_hidden (r i)) n, kr_ids := joined (\<lambda>i. kr_ids (r i)) n,
       kr_weights := joined (\<lambda>i. kr_weights (r i)) n,
       kr_gpu := (if g 0 = None then None else Some (Inr (joined (\<lambda>i. the_list (g i)) n)))\<rparr>"

lemma joined_rank_fields [simp]:
  "kr_action (joined_rank n r g) = kr_action (r 0)" "kr_full (joined_rank n r g) = kr_full (r 0)"
  "kr_faults (joined_rank n r g) = kr_faults (r 0)" "kr_autograd (joined_rank n r g) = kr_autograd (r 0)"
  "kr_policy (joined_rank n r g) = kr_policy (r 0)" "kr_phase (joined_rank n r g) = kr_phase (r 0)"
  "kr_qlen (joined_rank n r g) = length (joined (\<lambda>i. kr_hidden (r i)) n)"
  "kr_save (joined_rank n r g) = kr_save (r 0)"
  by (simp_all add: joined_rank_def kr_action_def kr_qlen_def kr_save_def)

lemma joined_rank_ops:
  "refresh_and_check (joined_rank n r g) = refresh_and_check (r 0)"
  "root_submit (joined_rank n r g) = root_submit (r 0)"
  "kr_hidden (joined_rank n r g) = joined (\<lambda>i. kr_hidden (r i)) n"
  "kr_ids (joined_rank n r g) = joined (\<lambda>i. kr_ids (r i)) n"
  "kr_weights (joined_rank n r g) = joined (\<lambda>i. kr_weights (r i)) n"
  "kr_qlen (joined_rank n r g) = length (joined (\<lambda>i. kr_hidden (r i)) n)"
  by (simp_all add: refresh_and_check_def root_submit_def fun_eq_iff) (simp_all add: joined_rank_def)

definition uniform_ranks :: "nat \<Rightarrow> (nat \<Rightarrow> 'x kt_rank) \<Rightarrow> bool" where
  "uniform_ranks n r = list_all (\<lambda>i. wf_rank (r i) \<and> kr_wrapped_world (r i) = n \<and> kr_policy (r i) = kr_policy (r 0) \<and>
     kr_layer (r i) = kr_layer (r 0) \<and> kr_phase (r i) = kr_phase (r 0) \<and> kr_autograd (r i) = kr_autograd (r 0)) [0..<n]"

definition rank_qlens :: "nat \<Rightarrow> (nat \<Rightarrow> 'x kt_rank) \<Rightarrow> int list" where
  "rank_qlens n r = map (\<lambda>i. int (kr_qlen (r i))) [0..<n]"

definition policy_ok :: "kt_activation_policy \<Rightarrow> bool" where
  "policy_ok pol = (pol_cpu pol \<in> {''recompute'', ''retain''} \<and> pol_gpu pol \<in> {''recompute'', ''retain''})"

text \<open>The GPU experts' rows of every rank, one for each of its tokens.\<close>

definition gpu_rows :: "nat \<Rightarrow> (nat \<Rightarrow> 'x kt_rank) \<Rightarrow> (nat \<Rightarrow> 'x list option) \<Rightarrow> bool" where
  "gpu_rows n r g = list_all (\<lambda>i. kr_gpu (r i) = map_option Inr (g i) \<and> (g i = None) = (g 0 = None) \<and>
     (g i = None \<or> length (the_list (g i)) = kr_qlen (r i))) [0..<n]"

definition rank0_owns :: "nat \<Rightarrow> (nat \<Rightarrow> 'x kt_layer) \<Rightarrow> bool" where
  "rank0_owns n S = list_all (\<lambda>i. (kl_backend (S i) \<noteq> None) = (i = 0)) [0..<n]"

lemma uniform_ranksD:
  assumes "uniform_ranks n r" "i < n"
  shows "wf_rank (r i)" "kr_wrapped_world (r i) = n" "kr_policy (r i) = kr_policy (r 0)" "kr_layer (r i) = kr_layer (r 0)"
    "kr_phase (r i) = kr_phase (r 0)" "kr_autograd (r i) = kr_autograd (r 0)" "kr_action (r i) = kr_action (r 0)"
    "kr_save (r i) = kr_save (r 0)"
proof -
  have "wf_rank (r i) \<and> kr_wrapped_world (r i) = n \<and> kr_policy (r i) = kr_policy (r 0) \<and>
     kr_layer (r i) = kr_layer (r 0) \<and> kr_phase (r i) = kr_phase (r 0) \<and> kr_autograd (r i) = kr_autograd (r 0)"
    using assms(1) [unfolded uniform_ranks_def list_all_iff, THEN bspec, of i] assms(2) by simp
  then show "wf_rank (r i)" "kr_wrapped_world (r i) = n" "kr_policy (r i) = kr_policy (r 0)" "kr_layer (r i) = kr_layer (r 0)"
    "kr_phase (r i) = kr_phase (r 0)" "kr_autograd (r i) = kr_autograd (r 0)" "kr_action (r i) = kr_action (r 0)"
    "kr_save (r i) = kr_save (r 0)"
    by (simp_all add: kr_action_def kr_save_def)
qed

section \<open>Taking the single run apart\<close>

lemma dlocal_run: "dbind (dlocal m) k s = (case m s of (Inl e, s') \<Rightarrow> Fin (Inl e, s') | (Inr a, s') \<Rightarrow> k a s')"
  by (simp add: dbind_def dlocal_def split: prod.splits)

lemma local_forward_steps:
  assumes "layer_forward moe add 1 0 r l = Fin (Inr out, l')"
  obtains gpu l1 rows where "validate_activation_checkpoint_phase (kr_policy r) (kr_phase r) (kr_autograd r) = Inr ()"
    "submit_and_compute_gpu_local r l = (Inr gpu, l1)" "root_collect moe r (kr_qlen r) l1 = (Inr rows, l')"
    "out = combine_outputs add rows gpu"
  using assms
  by (auto simp: layer_forward_def dlocal_run collect_output_local [simplified] elift_def dreturn_def
      split: prod.splits sum.splits)

lemma local_submit_steps:
  assumes "submit_and_compute_gpu_local r l = (Inr gpu, l1)"
  obtains lb where "refresh_and_check r l = (Inr (), lb)"
    "root_submit r (kr_qlen r) None (kr_hidden r) (kr_ids r) (kr_weights r) lb = (Inr (), l1)"
    "kr_gpu r = map_option Inr gpu"
  using assms
  by (auto simp: submit_and_compute_gpu_local_def refresh_and_check_def root_submit_def ebind_eq_Inr ehandle_Inr ecall_def
      split: if_splits option.splits sum.splits)

section \<open>Slices of sums\<close>

lemma py_slice_map2: "py_slice a b (map2 f xs ys) = map2 f (py_slice a b xs) (py_slice a b ys)"
  by (simp add: py_slice_def take_map drop_map take_zip drop_zip)

lemma rank_slices_map2:
  "i < length qs \<Longrightarrow> rank_slices qs (map2 f xs ys) ! i = map2 f (rank_slices qs xs ! i) (rank_slices qs ys ! i)"
  by (simp add: rank_slices_nth py_slice_map2)

section \<open>Agreement of uniform ranks\<close>

lemma check_states_uniform:
  assumes n: "0 < n" and valid: "0 \<le> cc_layer c" "0 \<le> phase_id (cc_phase c)" "0 \<le> action_id (cc_action c)"
    "0 \<le> policy_id (cc_cpu_policy c)" "0 \<le> policy_id (cc_gpu_policy c)"
  shows "check_states (map (\<lambda>i. encode_state (int (q i)) c) [0..<n]) = Inr (map (\<lambda>i. int (q i)) [0..<n])"
proof -
  have "map tl (map (\<lambda>i. encode_state (int (q i)) c) [0..<n]) = replicate n (tl (encode_state 0 c))"
    by (intro nth_equalityI) (simp_all add: encode_state_def)
  then have "length (remdups (map tl (map (\<lambda>i. encode_state (int (q i)) c) [0..<n]))) = 1"
    using n by (simp add: length_remdups_card_conv)
  moreover have "\<not> list_ex invalid_state (map (\<lambda>i. encode_state (int (q i)) c) [0..<n])"
    using valid by (simp add: list_ex_iff invalid_state_def encode_state_def not_less)
  moreover have "map hd (map (\<lambda>i. encode_state (int (q i)) c) [0..<n]) = map (\<lambda>i. int (q i)) [0..<n]"
    by (simp add: encode_state_def)
  ultimately show ?thesis unfolding check_states_def by simp
qed

lemma action_id_nonneg: "0 \<le> action_id (activation_checkpoint_action pol phase)"
  by (simp add: action_id_def activation_checkpoint_action_def)

lemma valid_phase_id: "validate_activation_checkpoint_phase pol phase b = Inr u \<Longrightarrow> 0 \<le> phase_id phase"
  by (auto simp: validate_activation_checkpoint_phase_def phase_id_def split: if_splits)

lemma valid_save:
  "validate_activation_checkpoint_phase pol phase b = Inr u \<Longrightarrow> (phase = ''none'' \<Longrightarrow> b' = b) \<Longrightarrow>
     validate_activation_checkpoint_phase pol phase b' = Inr ()"
  by (auto simp: validate_activation_checkpoint_phase_def split: if_splits)

lemma policy_id_ok: "policy_ok pol \<Longrightarrow> 0 \<le> policy_id (Some (pol_cpu pol)) \<and> 0 \<le> policy_id (Some (pol_gpu pol))"
  by (auto simp: policy_ok_def policy_id_def)

section \<open>Equivalence\<close>

text \<open>The part after the agreement, given what rank 0 does with its backend.\<close>

lemma spmd_forward_tail:
  assumes n: "1 < n" and uni: "uniform_ranks n r" and qs: "qs = map (\<lambda>i. int (kr_qlen (r i))) [0..<n]"
    and valid: "validate_activation_checkpoint_phase (kr_policy (r 0)) (kr_phase (r 0)) (kr_save (r 0)) = Inr ()"
    and owner: "\<And>i. i < n \<Longrightarrow> owner i = None"
    and gpu: "\<And>i. i < n \<Longrightarrow> kr_gpu (r i) = map_option Inr (g i)" "\<And>i. i < n \<Longrightarrow> (g i = None) = (g 0 = None)"
    and refresh: "refresh_and_check (r 0) (S 0) = (Inr (), lb)"
    and root: "root_submit (r 0) (length (joined (\<lambda>i. kr_hidden (r i)) n)) None (joined (\<lambda>i. kr_hidden (r i)) n)
      (joined (\<lambda>i. kr_ids (r i)) n) (joined (\<lambda>i. kr_weights (r i)) n) lb = (Inr (), l1)"
    and col: "root_collect moe (r 0) (nat (sum_list qs)) l1 = (Inr rows, l')"
  shows "spmd n (\<lambda>i. forward_tail moe add n i (r i) (owner i) qs) S
    (\<lambda>i. (Inr (combine_outputs add (rank_slices qs rows ! i) (g i)), (S(0 := l')) i))" (is "spmd n _ S ?R")
proof -
  note u = uniform_ranksD [OF uni]
  let ?S1 = "S(0 := lb)" and ?S2 = "S(0 := l1)" and ?S3 = "S(0 := l')"
  have A: "spmd n (\<lambda>i. if i = 0 then dlocal (ecapture (refresh_and_check (r i))) else dreturn (Inr ())) S
      (\<lambda>i. (Inr (Inr ()), ?S1 i))"
    using spmd_root_capture [of n "\<lambda>i. refresh_and_check (r i)" "Inr ()" S] unfolding refresh fst_conv snd_conv if_cancel .
  have B: "spmd n (\<lambda>i. submit_part_dist n i (r i) qs (err_of (Inr ()))) ?S1 (\<lambda>i. (Inr (), ?S2 i))"
    using spmd_submit_part [where S = ?S1 and err = "\<lambda>_. None" and r = r, OF n u(1) u(7) qs] root by simp
  have C: "spmd n (\<lambda>i. gpu_experts_dist n i (r i)) ?S2 (\<lambda>i. (Inr (g i), ?S2 i))"
    by (rule spmd_gpu_ok [where r = r, OF n gpu])
  obtain ctx where "spmd n (\<lambda>i. collect_output moe n i (r i) (Some qs)) ?S2
      (\<lambda>i. (case (Inr rows :: 'a list result) of Inl e \<Rightarrow> Inl (root_error ctx e) | Inr rows \<Rightarrow> Inr (rank_slices qs rows ! i), (?S2(0 := l')) i))"
    using spmd_collect_output [where S = ?S2 and r = r and moe = moe, OF n qs u(6) u(7)] col by auto
  then have D: "spmd n (\<lambda>i. collect_output moe n i (r i) (Some qs)) ?S2 (\<lambda>i. (Inr (rank_slices qs rows ! i), ?S3 i))"
    by simp
  have "spmd n (\<lambda>i. dbind (if i = 0 then dlocal (ecapture (refresh_and_check (r i))) else dreturn (Inr ())) (\<lambda>refresh.
        dbind (submit_part_dist n i (r i) qs (err_of refresh)) (\<lambda>_.
        dbind (gpu_experts_dist n i (r i)) (\<lambda>gpu.
        dbind (collect_output moe n i (r i) (Some qs)) (\<lambda>out. dreturn (combine_outputs add out gpu)))))) S ?R"
    by (rule spmd_bind [OF A], rule spmd_bind [OF B], rule spmd_bind [OF C], rule spmd_bind [OF D], rule spmd_return)
  then show ?thesis
  proof (rule spmd_eqI)
    fix i assume i: "i < n"
    show "forward_tail moe add n i (r i) (owner i) qs =
        dbind (if i = 0 then dlocal (ecapture (refresh_and_check (r i))) else dreturn (Inr ())) (\<lambda>refresh.
        dbind (submit_part_dist n i (r i) qs (err_of refresh)) (\<lambda>_.
        dbind (gpu_experts_dist n i (r i)) (\<lambda>gpu.
        dbind (collect_output moe n i (r i) (Some qs)) (\<lambda>out. dreturn (combine_outputs add out gpu)))))"
      using i owner [OF i] valid u(3) [OF i] u(5) [OF i] u(8) [OF i]
      unfolding forward_tail_def qs by simp
  qed
qed

lemma spmd_agreement:
  assumes n: "1 < n" and valid: "0 \<le> cc_layer c" "0 \<le> phase_id (cc_phase c)" "0 \<le> action_id (cc_action c)"
    "0 \<le> policy_id (cc_cpu_policy c)" "0 \<le> policy_id (cc_gpu_policy c)" and same: "\<And>i. i < n \<Longrightarrow> C i = c"
  shows "spmd n (\<lambda>i. all_gather_checkpoint_state (Some n) n (int (q i)) (C i)) S
    (\<lambda>i. (Inr (map (\<lambda>i. int (q i)) [0..<n]), S i))"
proof -
  have "map (\<lambda>i. encode_state (int (q i)) (C i)) [0..<n] = map (\<lambda>i. encode_state (int (q i)) c) [0..<n]"
    using same by simp
  with spmd_check_state [OF n, of "\<lambda>i. int (q i)" C S] check_states_uniform [OF _ valid, of n q] n
  show ?thesis by simp
qed

text \<open>Adding the GPU rows and cutting at the offsets commute.\<close>

lemma combine_slices:
  assumes g: "\<And>i. i < n \<Longrightarrow> (g i = None) = (g 0 = None)" "\<And>i. i < n \<Longrightarrow> g 0 = None \<or> length (the_list (g i)) = kr_qlen (r i)"
    and gp: "kr_gpu (joined_rank n r g) = map_option Inr gp" and i: "i < n"
  shows "combine_outputs add (rank_slices (rank_qlens n r) rows ! i) (g i) =
    rank_slices (rank_qlens n r) (combine_outputs add rows gp) ! i"
proof (cases "g 0")
  case None
  with gp g(1) [OF i] show ?thesis by (simp add: combine_outputs_def joined_rank_def)
next
  case (Some g0)
  let ?gs = "map (\<lambda>i. the_list (g i)) [0..<n]"
  have "gp = Some (concat ?gs)" using gp Some by (cases gp) (simp_all add: joined_rank_def joined_def)
  moreover have "rank_qlens n r = map (\<lambda>c. int (length c)) ?gs"
    using g(2) Some by (simp add: rank_qlens_def)
  then have "rank_slices (rank_qlens n r) (concat ?gs) = ?gs" by (rule rank_slices_concat)
  moreover obtain x where "g i = Some x" using g(1) [OF i] Some by fastforce
  ultimately show ?thesis
    using i by (simp add: combine_outputs_def rank_slices_map2 rank_qlens_def the_list_def)
qed

lemma combined_length:
  assumes g: "\<And>i. i < n \<Longrightarrow> g 0 = None \<or> length (the_list (g i)) = kr_qlen (r i)"
    and gp: "kr_gpu (joined_rank n r g) = map_option Inr gp" and rows: "length rows = length (joined (\<lambda>i. kr_hidden (r i)) n)"
  shows "length (combine_outputs add rows gp) = length (joined (\<lambda>i. kr_hidden (r i)) n)"
proof -
  have "length (joined (\<lambda>i. the_list (g i)) n) = length (joined (\<lambda>i. kr_hidden (r i)) n)" if "g 0 \<noteq> None"
  proof -
    have "map (\<lambda>i. length (the_list (g i))) [0..<n] = map (\<lambda>i. length (kr_hidden (r i))) [0..<n]"
      using g that by (simp add: kr_qlen_def)
    then show ?thesis by (simp only: joined_def length_concat map_map comp_def)
  qed
  with rows gp show ?thesis by (auto simp: combine_outputs_def joined_rank_def split: if_splits option.splits)
qed

text \<open>
  C3. The distributed forward pass computes what one process computes on the tokens of all ranks put
  together: when the single-process layer, on the concatenation of the ranks' tokens, returns rows
  \<open>out\<close> and leaves its backend in state \<open>l'\<close>, then \<open>n\<close> ranks with the same configuration, of which rank
  0 owns that backend, all return, rank \<open>i\<close> with its own consecutive rows of \<open>out\<close>, and rank 0's
  backend ends in \<open>l'\<close>: the same rows cached, the same forward cache left for a backward pass
  (\<open>save_for_backward\<close> and the cache depth), the same weights refreshed. This holds for the normal, the caching and the cache-reusing action, with and
  without autograd and GPU experts, and for ranks without tokens.
\<close>

theorem distributed_forward_is_local:
  assumes n: "1 < n" and uni: "uniform_ranks n r" and pol: "policy_ok (kr_policy (r 0))" and layer: "0 \<le> kr_layer (r 0)"
    and gpu: "gpu_rows n r g" and own: "rank0_owns n S"
    and single: "layer_forward moe add 1 0 (joined_rank n r g) (S 0) = Fin (Inr out, l')"
  shows "spmd n (\<lambda>i. layer_forward moe add n i (r i)) S (\<lambda>i. (Inr (rank_slices (rank_qlens n r) out ! i), (S(0 := l')) i)) \<and>
    concat (rank_slices (rank_qlens n r) out) = out"
proof -
  let ?J = "joined_rank n r g" and ?total = "length (joined (\<lambda>i. kr_hidden (r i)) n)"
  note u = uniform_ranksD [OF uni]
  have gi: "kr_gpu (r i) = map_option Inr (g i)" "(g i = None) = (g 0 = None)"
    "g 0 = None \<or> length (the_list (g i)) = kr_qlen (r i)" if "i < n" for i
    using gpu [unfolded gpu_rows_def list_all_iff, THEN bspec, of i] that by auto
  have owner: "ownership_error n i (r i) (S i) = None" if "i < n" for i
    using own [unfolded rank0_owns_def list_all_iff, THEN bspec, of i] that u(2) [OF that]
    by (cases "i = 0") (simp_all add: ownership_error_def)
  obtain gp l1 rows where valid: "validate_activation_checkpoint_phase (kr_policy (r 0)) (kr_phase (r 0)) (kr_autograd (r 0)) = Inr ()"
    and sub: "submit_and_compute_gpu_local ?J (S 0) = (Inr gp, l1)"
    and col: "root_collect moe ?J ?total l1 = (Inr rows, l')" and out: "out = combine_outputs add rows gp"
    by (rule local_forward_steps [OF single]) (simp only: joined_rank_fields)
  obtain lb where refresh: "refresh_and_check (r 0) (S 0) = (Inr (), lb)"
    and root: "root_submit (r 0) ?total None (joined (\<lambda>i. kr_hidden (r i)) n) (joined (\<lambda>i. kr_ids (r i)) n)
      (joined (\<lambda>i. kr_weights (r i)) n) lb = (Inr (), l1)" and gp: "kr_gpu ?J = map_option Inr gp"
    by (rule local_submit_steps [OF sub]) (simp only: joined_rank_ops)
  let ?c = "rank_control n 0 (r 0) (S 0)"
  have total: "nat (sum_list (rank_qlens n r)) = ?total"
    unfolding rank_qlens_def kr_qlen_def sum_list_qlens by simp
  have col': "root_collect moe (r 0) (nat (sum_list (rank_qlens n r))) l1 = (Inr rows, l')"
    using col unfolding total root_collect_def joined_rank_fields .
  have save: "validate_activation_checkpoint_phase (kr_policy (r 0)) (kr_phase (r 0)) (kr_save (r 0)) = Inr ()"
    by (rule valid_save [OF valid]) (simp add: kr_save_def)
  have agree: "spmd n (\<lambda>i. all_gather_checkpoint_state (Some n) n (int (kr_qlen (r i))) (rank_control n i (r i) (S i))) S
      (\<lambda>i. (Inr (rank_qlens n r), S i))"
    unfolding rank_qlens_def
  proof (rule spmd_agreement [OF n])
    show "rank_control n i (r i) (S i) = ?c" if "i < n" for i
      using owner [OF that] owner [of 0] n u(3,4,5,7) [OF that] by (simp add: rank_control_def)
  qed (use layer valid_phase_id [OF valid] action_id_nonneg policy_id_ok [OF pol] in
      \<open>simp_all add: rank_control_def kr_action_def\<close>)
  have slice: "combine_outputs add (rank_slices (rank_qlens n r) rows ! i) (g i) = rank_slices (rank_qlens n r) out ! i" if "i < n" for i
    unfolding out by (rule combine_slices [OF gi(2,3) gp that])
  have "spmd n (\<lambda>i. forward_tail moe add n i (r i) (ownership_error n i (r i) (S i)) (rank_qlens n r)) S
      (\<lambda>i. (Inr (combine_outputs add (rank_slices (rank_qlens n r) rows ! i) (g i)), (S(0 := l')) i))"
    by (rule spmd_forward_tail [where r = r and g = g and S = S, OF n uni rank_qlens_def save owner gi(1,2) refresh root col'])
  then have "spmd n (\<lambda>i. dbind (all_gather_checkpoint_state (Some n) n (int (kr_qlen (r i))) (rank_control n i (r i) (S i)))
      (forward_tail moe add n i (r i) (ownership_error n i (r i) (S i)))) S
      (\<lambda>i. (Inr (combine_outputs add (rank_slices (rank_qlens n r) rows ! i) (g i)), (S(0 := l')) i))"
    by (rule spmd_bind [OF agree])
  then have run: "spmd n (\<lambda>i. layer_forward moe add n i (r i)) S (\<lambda>i. (Inr (rank_slices (rank_qlens n r) out ! i), (S(0 := l')) i))"
    by (rule spmd_cong [THEN iffD2, rotated 2]) (simp_all add: layer_forward_tail [OF n] slice)
  have "length out = ?total" unfolding out by (rule combined_length [OF gi(3) gp root_collect_length [OF col]])
  then have "concat (rank_slices (rank_qlens n r) out) = out"
    by (intro concat_rank_slices) (auto simp: rank_qlens_def kr_qlen_def sum_list_qlens)
  with run show ?thesis ..
qed

section \<open>Two ranks\<close>

text \<open>The single-process path as one operation that can be evaluated.\<close>

definition local_run ::
  "('x list \<Rightarrow> 'x list \<Rightarrow> 'x list \<Rightarrow> 'x list) \<Rightarrow> ('x \<Rightarrow> 'x \<Rightarrow> 'x) \<Rightarrow> 'x kt_rank \<Rightarrow> ('x kt_layer, 'x list) eop" where
  "local_run moe add r =
     ebind (elift (validate_activation_checkpoint_phase (kr_policy r) (kr_phase r) (kr_autograd r))) (\<lambda>_.
     ebind (submit_and_compute_gpu_local r) (\<lambda>gpu.
     ebind (root_collect moe r (kr_qlen r)) (\<lambda>rows. ereturn (combine_outputs add rows gpu))))"

lemma layer_forward_local: "layer_forward moe add 1 0 r l = Fin (local_run moe add r l)"
  by (auto simp: layer_forward_def local_run_def dlocal_run collect_output_local [simplified] elift_def dreturn_def
      ebind_def split: prod.splits sum.splits)

definition no_kt_faults :: kt_faults where
  "no_kt_faults = \<lparr>kf_lora = None, kf_base = None, kf_validate = None, kf_submit = None, kf_sync = None,
     kf_return = None, kf_copy = None\<rparr>"

definition sample_rank :: "string \<Rightarrow> kt_faults \<Rightarrow> nat \<Rightarrow> nat kt_rank" where
  "sample_rank phase f i =
     \<lparr>kr_wrapped_world = 2, kr_policy = \<lparr>pol_cpu = ''retain'', pol_gpu = ''recompute''\<rparr>, kr_layer = 3, kr_phase = phase,
      kr_hidden = (if i = 0 then [1, 2] else [5]), kr_ids = (if i = 0 then [0, 1] else [1]),
      kr_weights = (if i = 0 then [1, 1] else [2]), kr_autograd = True, kr_full = True,
      kr_gpu = Some (Inr (if i = 0 then [100, 200] else [300])), kr_faults = f\<rparr>"

definition sample_layer :: "nat \<Rightarrow> nat kt_layer" where
  "sample_layer i =
     \<lparr>kl_backend = (if i = 0 then Some \<lparr>kb_ckpt = init_ckpt, kb_batch = None, kb_depth = 0, kb_wgrad = [], kb_weights_loaded = True,
        kb_lora_initialized = True, kb_load_failed = False, kb_base_dirty = True, kb_window = False\<rparr> else None),
      kl_lora_dirty = True\<rparr>"

definition sample_moe :: "nat list \<Rightarrow> nat list \<Rightarrow> nat list \<Rightarrow> nat list" where
  "sample_moe h ids w = map2 (\<lambda>x (e, v). (x + e) * v) h (zip ids w)"

theorem forward_coherent_witness:
  "coherent 2 (\<lambda>i. layer_forward sample_moe (+) 2 i (sample_rank ''first_forward'' (no_kt_faults\<lparr>kf_submit := Some (OSError [])\<rparr>) i)) sample_layer"
  by (rule forward_coherent) (auto simp: sample_rank_def wf_rank_def kr_qlen_def)

theorem distributed_forward_is_local_witness:
  "\<exists>l'. spmd 2 (\<lambda>i. layer_forward sample_moe (+) 2 i (sample_rank ''first_forward'' no_kt_faults i)) sample_layer
     (\<lambda>i. (Inr (rank_slices [2, 1] [101, 203, 312] ! i), (sample_layer(0 := l')) i))"
proof -
  let ?r = "sample_rank ''first_forward'' no_kt_faults" and ?g = "\<lambda>i::nat. Some (if i = 0 then [100, 200] else [300])"
  have "fst (local_run sample_moe (+) (joined_rank 2 ?r ?g) (sample_layer 0)) = Inr [101, 203, 312]" by code_simp
  then obtain l' where "local_run sample_moe (+) (joined_rank 2 ?r ?g) (sample_layer 0) = (Inr [101, 203, 312], l')"
    by (metis prod.collapse)
  then have single: "layer_forward sample_moe (+) 1 0 (joined_rank 2 ?r ?g) (sample_layer 0) = Fin (Inr [101, 203, 312], l')"
    by (simp only: layer_forward_local)
  have "rank_qlens 2 ?r = [2, 1]" by code_simp
  moreover have "uniform_ranks 2 ?r" by code_simp
  moreover have "policy_ok (kr_policy (?r 0))" "0 \<le> kr_layer (?r 0)" by (simp_all add: sample_rank_def policy_ok_def)
  moreover have "gpu_rows 2 ?r ?g" by code_simp
  moreover have "rank0_owns 2 sample_layer" by code_simp
  ultimately show ?thesis
    using distributed_forward_is_local [of 2 ?r ?g sample_layer sample_moe "(+)", OF _ _ _ _ _ _ single] by auto
qed

end
