(* ===== verification/KTBackwardAll.thy ===== *)
theory KTBackwardAll
  imports KTBackward KTForwardEq
begin

text \<open>
  The whole backward pass with the recompute that autograd triggers: when the ranks leave it together,
  and where they do not.
\<close>

section \<open>Recompute and backward\<close>

lemma spmd_settles_bind:
  assumes "spmd n M S (\<lambda>i. (Inr (A i), S' i))" "\<exists>R. spmd n (\<lambda>i. K i (A i)) S' R \<and> settled n R"
  shows "\<exists>R. spmd n (\<lambda>i. dbind (M i) (K i)) S R \<and> settled n R"
  using assms spmd_bind by blast

lemma spmd_settles_raise:
  assumes "spmd n M S (\<lambda>i. (Inl (E i), S' i))" "\<not> backend_flag kb_window (S' 0)"
  shows "\<exists>R. spmd n (\<lambda>i. dbind (M i) (K i)) S R \<and> settled n R"
  using spmd_bind_raise [OF assms(1)] assms(2) by (intro exI conjI) (assumption, simp add: settled_def list_all_iff)

lemma dtry_raise: "dtry (draise e) h s = Fin (Inl e, h e s)"
  by (simp add: dtry_def draise_def)

text \<open>Sharing the outcome of the recompute, and what follows it.\<close>

lemma after_recompute_settles:
  assumes n: "1 < n" and ret: "\<And>i. i < n \<Longrightarrow> cx_retained (c i) = cx_retained (c 0)" and closed: "\<not> backend_flag kb_window (S1 0)"
    and agree: "cx_retained (c 0) \<or> list_all (\<lambda>i. is_ok (res i)) [0..<n] \<or> list_all (\<lambda>i. \<not> is_ok (res i)) [0..<n]"
    and dist: "\<exists>R. spmd n rest S1 R \<and> settled n R"
  shows "\<exists>R. spmd n (\<lambda>i. dbind (after_recompute n i (c i) (res i)) (\<lambda>_. rest i)) S1 R \<and> settled n R"
proof (cases "cx_retained (c 0)")
  case True
  note sync = spmd_sync_any [OF n, of "''checkpoint recompute failed''" "\<lambda>i. err_of (res i)" S1]
  have A: "after_recompute n i (c i) (res i) = dtry (sync_any_rank_exception ''checkpoint recompute failed'' (err_of (res i)) i n) poison_checkpoint_cache"
    if "i < n" for i using ret [OF that] True n by (simp add: after_recompute_def)
  show ?thesis
  proof (cases "find (\<lambda>j. err_of (res j) \<noteq> None) [0..<n]")
    case None
    with sync have "spmd n (\<lambda>i. sync_any_rank_exception ''checkpoint recompute failed'' (err_of (res i)) i n) S1 (\<lambda>i. (Inr (), S1 i))" by simp
    then have "spmd n (\<lambda>i. after_recompute n i (c i) (res i)) S1 (\<lambda>i. (Inr (), S1 i))"
      by (intro spmd_eqI [OF spmd_try A])
    then show ?thesis by (rule spmd_settles_bind) (rule dist)
  next
    case (Some j)
    let ?E = "any_rank_error ''checkpoint recompute failed'' j (the (err_of (res j)))"
    from sync Some have "spmd n (\<lambda>i. sync_any_rank_exception ''checkpoint recompute failed'' (err_of (res i)) i n) S1 (\<lambda>i. (Inl ?E, S1 i))" by simp
    from spmd_try_raise [OF this, of "\<lambda>_. poison_checkpoint_cache"]
    have "spmd n (\<lambda>i. after_recompute n i (c i) (res i)) S1 (\<lambda>i. (Inl ?E, poison_checkpoint_cache ?E (S1 i)))"
      by (rule spmd_eqI) (rule A)
    then show ?thesis by (rule spmd_settles_raise) (simp add: closed)
  qed
next
  case False
  have A: "after_recompute n i (c i) (res i) s = (case res i of Inr _ \<Rightarrow> Fin (Inr (), s) | Inl e \<Rightarrow> Fin (Inl e, s))"
    if "i < n" for i s using ret [OF that] False
    by (cases "res i") (simp_all add: after_recompute_def dtry_raise dreturn_def poison_if_def)
  from agree False consider "list_all (\<lambda>i. is_ok (res i)) [0..<n]" | "list_all (\<lambda>i. \<not> is_ok (res i)) [0..<n]" by blast
  then show ?thesis
  proof cases
    case 1
    have "after_recompute n i (c i) (res i) (S1 i) = Fin (Inr (), S1 i)" if "i < n" for i
    proof -
      have "is_ok (res i)" using 1 that by (simp add: list_all_iff)
      then show ?thesis using A [OF that] by (cases "res i") auto
    qed
    then have "spmd n (\<lambda>i. after_recompute n i (c i) (res i)) S1 (\<lambda>i. (Inr (), S1 i))" by (rule spmd_local)
    then show ?thesis by (rule spmd_settles_bind) (rule dist)
  next
    case 2
    have "after_recompute n i (c i) (res i) (S1 i) = Fin (Inl (the (err_of (res i))), S1 i)" if "i < n" for i
    proof -
      have "\<not> is_ok (res i)" using 2 that by (simp add: list_all_iff)
      then show ?thesis using A [OF that] by (cases "res i") auto
    qed
    then have "spmd n (\<lambda>i. after_recompute n i (c i) (res i)) S1 (\<lambda>i. (Inl (the (err_of (res i))), S1 i))"
      by (rule spmd_local)
    then show ?thesis by (rule spmd_settles_raise) (rule closed)
  qed
qed

text \<open>
  C7. No rank is left waiting in the backward pass, and a failed backward leaves no gradients
  published, under these conditions: the ranks agree on the sequence lengths and on caching, the window
  is closed after the recompute, releasing the window does not fail, and the recompute fails on all
  ranks or on none unless the checkpoint output is retained, when it may fail on any. The CPU backward, the reshaping of its result, the clean-up of the cache or the repack
  of the next layer may fail on rank 0. Then either all ranks return their gradients, or all raise
  and rank 0's authoritative gradient window is closed. The next theorem shows what happens when an
  unretained recompute fails on one rank only.
\<close>

theorem backward_settles:
  assumes n: "1 < n" and m: "grads_match n c go" and rel: "bf_release (f 0) = None"
    and rec: "spmd n rcp S (\<lambda>i. (res i, S1 i))" and closed: "\<not> backend_flag kb_window (S1 0)"
    and agree: "cx_retained (c 0) \<or> list_all (\<lambda>i. is_ok (res i)) [0..<n] \<or> list_all (\<lambda>i. \<not> is_ok (res i)) [0..<n]"
  shows "\<exists>R. spmd n (\<lambda>i. kt_function_backward zero bwd n i (c i) (f i) (rcp i) (go i)) S R \<and> settled n R"
proof -
  note ret = grads_matchD(3) [OF m]
  have dist: "\<exists>R. spmd n (\<lambda>i. backward_dist bwd n i (c i) (f i) (go i)) S1 R \<and> settled n R"
    by (rule backward_dist_settles [where c = c and f = f and go = go and S = S1, OF n m rel closed])
  have after: "\<exists>R. spmd n (\<lambda>i. dbind (after_recompute n i (c i) (res i)) (\<lambda>_. backward_dist bwd n i (c i) (f i) (go i))) S1 R \<and> settled n R"
    by (rule after_recompute_settles [where c = c, OF n _ closed agree dist]) (rule ret)
  have "spmd n (\<lambda>i. dattempt (rcp i)) S (\<lambda>i. (Inr (res i), S1 i))" using spmd_attempt [OF rec] by simp
  from spmd_settles_bind [OF this, of "\<lambda>i outcome. dbind (after_recompute n i (c i) outcome)
      (\<lambda>_. backward_dist bwd n i (c i) (f i) (go i))", OF after]
  show ?thesis using n by (simp add: kt_function_backward_def)
qed

section \<open>Where ranks are left waiting\<close>

lemma two_ranks: "map P [0..<2] = [P 0, P 1]"
  by (simp add: numeral_2_eq_2)

lemma deadlock_pair: "pending p = Some r \<Longrightarrow> deadlocked [Fin a, p]"
  by (simp add: deadlocked_def sys_step_def)

text \<open>
  C38. Without a retained checkpoint output a failure of the recompute is not shared: when it fails on
  rank 0 and rank 1 has rows, rank 0 raises and rank 1 waits for ever in the gather of the output
  gradients.
\<close>

theorem unretained_recompute_failure_deadlocks:
  assumes "grads_match 2 c go" "\<not> cx_retained (c 0)" "go 1 \<noteq> []"
  shows "deadlocked (map (\<lambda>i. kt_function_backward zero bwd 2 i (c i) (f i) (if i = 0 then draise e else dreturn ()) (go i) (S i)) [0..<2])"
proof -
  let ?P = "\<lambda>i. kt_function_backward zero bwd 2 i (c i) (f i) (if i = 0 then draise e else dreturn ()) (go i) (S i)"
  have ret: "\<not> cx_retained (c 1)" using grads_matchD(3) [OF assms(1), of 1] assms(2) by simp
  have p0: "?P 0 = Fin (Inl e, S 0)"
    using assms(2) by (simp add: kt_function_backward_def after_recompute_def dattempt_def draise_def dbind_def dtry_def poison_if_def)
  have qs: "cx_all_qlens (c 1) = Some [int (length (go 0)), int (length (go 1))]" "cx_qlen (c 1) = length (go 1)"
    using grads_matchD [OF assms(1), of 1] by (simp_all add: numeral_2_eq_2)
  have p1: "pending (?P 1) = Some (SendRoot (go 1))"
    using ret qs assms(3)
    by (simp add: kt_function_backward_def after_recompute_def dattempt_def dreturn_def dbind_def backward_dist_def
        gather_varlen_to_rank0_def dcomm_def)
  have "map ?P [0..<2] = [Fin (Inl e, S 0), ?P 1]" unfolding two_ranks p0 ..
  then show ?thesis using deadlock_pair [OF p1, of "(Inl e, S 0)"] by (simp only:)
qed

definition half_autograd :: "nat \<Rightarrow> nat kt_rank" where
  "half_autograd i = (sample_rank ''none'' no_kt_faults i)\<lparr>kr_autograd := (i = 0)\<rparr>"

lemma agreement_program:
  "all_gather_checkpoint_state (Some 2) 2 q c =
     dbind (dcomm (AllGather (Ints (encode_state q c)))) (\<lambda>rep. dlocal (elift (check_states (map ints_of (replies rep)))))"
  by (rule ext) (simp add: all_gather_checkpoint_state_def)

lemma agreement_step:
  assumes "\<And>i. i < 2 \<Longrightarrow> P i = dbind (dcomm (AllGather (V i))) (K i) (S i)"
  shows "run_system 1 (map P [0..<2]) = map (\<lambda>i. K i (Replies [V 0, V 1]) (S i)) [0..<2]"
proof -
  have c: "P i = Comm (AllGather (V i)) (\<lambda>x. K i x (S i))" if "i < 2" for i
    using assms [OF that] by (simp add: dbind_def dcomm_def)
  have "map P [0..<2] = [Comm (AllGather (V 0)) (\<lambda>x. K 0 x (S 0)), Comm (AllGather (V 1)) (\<lambda>x. K 1 x (S 1))]"
    unfolding two_ranks using c [of 0] c [of 1] by simp
  then show ?thesis
    by (simp add: two_ranks sys_step_def gathered_def wake_def numeral_2_eq_2)
qed

text \<open>
  The agreement does not cover whether autograd is on: with \<open>activation_policy.gpu=recompute\<close> and
  no checkpointing active, a rank that needs a backward pass raises after the agreement while a rank
  without one goes on, so that two ranks that differ in this alone end in a deadlock.
\<close>

theorem autograd_disagreement_deadlocks:
  "deadlocked (run_system 1 (map (\<lambda>i. layer_forward sample_moe (+) 2 i (half_autograd i) (sample_layer i)) [0..<2]))"
proof -
  let ?V = "\<lambda>i. Ints (encode_state (int (kr_qlen (half_autograd i))) (rank_control 2 i (half_autograd i) (sample_layer i))) :: nat msg"
  let ?T = "\<lambda>i. forward_tail sample_moe (+) 2 i (half_autograd i) (ownership_error 2 i (half_autograd i) (sample_layer i))"
  let ?K = "\<lambda>i rep. dbind (dlocal (elift (check_states (map ints_of (replies rep))))) (?T i)"
  have verdict: "check_states (map ints_of [?V 0, ?V 1]) = Inr [2, 1]" by code_simp
  have "run_system 1 (map (\<lambda>i. layer_forward sample_moe (+) 2 i (half_autograd i) (sample_layer i)) [0..<2]) =
      map (\<lambda>i. ?K i (Replies [?V 0, ?V 1]) (sample_layer i)) [0..<2]"
    by (rule agreement_step [where P = "\<lambda>i. layer_forward sample_moe (+) 2 i (half_autograd i) (sample_layer i)"
          and K = ?K and S = sample_layer and V = ?V])
      (simp only: layer_forward_tail one_less_numeral_iff semiring_norm agreement_program dbind_assoc)
  also have "\<dots> = [?T 0 [2, 1] (sample_layer 0), ?T 1 [2, 1] (sample_layer 1)]"
    unfolding two_ranks reply_simps verdict by simp
  also have "?T 0 [2, 1] (sample_layer 0) = Fin (Inl (RuntimeError ''activation_policy.gpu=recompute requires non-reentrant gradient checkpointing''), sample_layer 0)"
    by (simp add: forward_tail_def half_autograd_def sample_rank_def kr_qlen_def kr_save_def
        validate_activation_checkpoint_phase_def draise_def dbind_def)
  finally have run: "run_system 1 (map (\<lambda>i. layer_forward sample_moe (+) 2 i (half_autograd i) (sample_layer i)) [0..<2]) =
      [Fin (Inl (RuntimeError ''activation_policy.gpu=recompute requires non-reentrant gradient checkpointing''), sample_layer 0),
       ?T 1 [2, 1] (sample_layer 1)]" .
  have "pending (?T 1 [2, 1] (sample_layer 1)) = Some (SendRoot [5])"
    by (simp add: forward_tail_def half_autograd_def sample_rank_def sample_layer_def kr_qlen_def kr_save_def kr_action_def
        ownership_error_def activation_checkpoint_action_def validate_activation_checkpoint_phase_def
        submit_part_dist_def gather_varlen_to_rank0_def dcomm_def dbind_def dreturn_def)
  then show ?thesis unfolding run by (rule deadlock_pair)
qed

section \<open>Two ranks\<close>

definition sample_ctx :: "bool \<Rightarrow> nat \<Rightarrow> kt_ctx" where
  "sample_ctx cache i = \<lparr>cx_qlen = (if i = 0 then 2 else 1), cx_all_qlens = Some [2, 1], cx_cache = cache, cx_reuse = False,
     cx_authoritative = True\<rparr>"

definition sample_grad :: "nat \<Rightarrow> nat list" where
  "sample_grad i = (if i = 0 then [1, 2] else [5])"

definition sample_bwd :: "nat list \<Rightarrow> nat list \<times> nat list" where
  "sample_bwd g = (map (\<lambda>x. 2 * x) g, map Suc g)"

definition no_bfaults :: kt_bfaults where
  "no_bfaults = \<lparr>bf_prepare = None, bf_backward = None, bf_view = None, bf_clear = None, bf_release = None, bf_repack = None\<rparr>"

lemma sample_grads_match: "grads_match 2 (sample_ctx cache) sample_grad"
  by (simp add: grads_match_def sample_ctx_def sample_grad_def two_ranks) (simp add: numeral_2_eq_2)

text \<open>The two ranks after a forward pass that was saved for the backward pass.\<close>

definition forwarded_layer :: "nat \<Rightarrow> nat kt_layer" where
  "forwarded_layer i = (sample_layer i)\<lparr>kl_backend := map_option (\<lambda>b. b\<lparr>kb_depth := 1\<rparr>) (kl_backend (sample_layer i))\<rparr>"

lemma sample_window: "\<not> backend_flag kb_window (forwarded_layer 0)"
  by (simp add: backend_flag_def sample_layer_def forwarded_layer_def)

theorem distributed_backward_is_local_witness:
  "\<exists>l'. spmd 2 (\<lambda>i. backward_dist sample_bwd 2 i (sample_ctx True i) no_bfaults (sample_grad i)) forwarded_layer
     (\<lambda>i. (Inr (rank_slices [2, 1] [2, 4, 10] ! i, rank_slices [2, 1] [2, 3, 6] ! i), (forwarded_layer(0 := rescaled 2 l')) i)) \<and>
     map_option kb_wgrad (kl_backend (rescaled 2 l')) = Some [(2, [1, 2, 5])] \<and> backend_flag kb_window l'"
proof -
  let ?c = "(sample_ctx True 0)\<lparr>cx_qlen := length (joined sample_grad 2)\<rparr>"
  let ?run = "backward_local 0 sample_bwd ?c no_bfaults (joined sample_grad 2) (forwarded_layer 0)"
  have "fst ?run = Inr ([2, 4, 10], [2, 3, 6])" by code_simp
  then obtain l' where run: "?run = (Inr ([2, 4, 10], [2, 3, 6]), l')" by (metis prod.collapse)
  have "backend_flag kb_window (snd ?run)" by code_simp
  then have w: "backend_flag kb_window l'" unfolding run by simp
  have "map_option kb_wgrad (kl_backend (rescaled 2 (snd ?run))) = Some [(2, [1, 2, 5])]" by code_simp
  then have d: "map_option kb_wgrad (kl_backend (rescaled 2 l')) = Some [(2, [1, 2, 5])]" unfolding run by simp
  have "grad_qlens 2 sample_grad = [2, 1]" "length (joined sample_grad 2) = 3" by code_simp+
  with w d distributed_backward_is_local [where c = "sample_ctx True" and f = "\<lambda>_. no_bfaults" and S = forwarded_layer,
      OF _ sample_grads_match _ run]
  show ?thesis by (auto simp: sample_layer_def forwarded_layer_def)
qed

theorem backward_settles_witness:
  "\<exists>R. spmd 2 (\<lambda>i. kt_function_backward 0 sample_bwd 2 i (sample_ctx True i)
       (no_bfaults\<lparr>bf_repack := Some (RuntimeError [])\<rparr>) (if i = 1 then draise (OSError []) else dreturn ()) (sample_grad i))
     forwarded_layer R \<and> settled 2 R"
proof (rule backward_settles [where f = "\<lambda>_. no_bfaults\<lparr>bf_repack := Some (RuntimeError [])\<rparr>"
      and rcp = "\<lambda>i. if i = 1 then draise (OSError []) else dreturn ()"])
  show "spmd 2 (\<lambda>i. if i = 1 then draise (OSError []) else dreturn ()) forwarded_layer
      (\<lambda>i. (if i = 1 then Inl (OSError []) else Inr (), forwarded_layer i))"
    by (rule spmd_local) (simp add: draise_def dreturn_def)
qed (simp_all add: sample_grads_match sample_window no_bfaults_def, simp add: cx_retained_def sample_ctx_def)

theorem unretained_recompute_failure_deadlocks_witness:
  "deadlocked (map (\<lambda>i. kt_function_backward 0 sample_bwd 2 i (sample_ctx False i) no_bfaults
     (if i = 0 then draise (OSError []) else dreturn ()) (sample_grad i) (forwarded_layer i)) [0..<2])"
  by (rule unretained_recompute_failure_deadlocks [where f = "\<lambda>_. no_bfaults"])
    (simp_all add: sample_grads_match cx_retained_def, simp_all add: sample_ctx_def sample_grad_def)

end
