(* ===== verification/CpuDetect.thy ===== *)
theory CpuDetect
  imports PyText
begin

text \<open>
  \<open>kt-kernel/python/_cpu_detect.py\<close>: which compiled variant of the extension suits the host, and
  loading it with a chain of fallbacks. \<open>/proc/cpuinfo\<close>, the package \<open>cpufeature\<close>, the shared objects
  found by \<open>glob\<close> and the outcome of executing one of them enter as parameters; debug output is left
  out.
\<close>

section \<open>Variants\<close>

definition variant_level :: "string \<Rightarrow> nat option" where
  "variant_level = map_of
     [(''arm'', 0), (''avx2'', 0), (''avx512_base'', 1), (''avx512_vnni'', 2), (''avx512_vbmi'', 3),
      (''avx512_bf16'', 4), (''amx'', 5)]"

definition arm_arches :: "string list" where
  "arm_arches = [''aarch64'', ''arm64'']"

definition x86_variants :: "string list" where
  "x86_variants = [''amx'', ''avx512_bf16'', ''avx512_vbmi'', ''avx512_vnni'', ''avx512_base'', ''avx2'']"

definition arm_variants :: "string list" where
  "arm_variants = [''arm'']"

definition x86_variant_requirements :: "(string \<times> string list) list" where
  "x86_variant_requirements =
     [(''amx'', [''amx_tile'', ''amx_int8'', ''amx_bf16'', ''avx512f'', ''avx512bw'', ''avx512_vnni'', ''avx512_vbmi'', ''avx512_bf16'']),
      (''avx512_bf16'', [''avx512f'', ''avx512bw'', ''avx512_vnni'', ''avx512_vbmi'', ''avx512_bf16'']),
      (''avx512_vbmi'', [''avx512f'', ''avx512bw'', ''avx512_vnni'', ''avx512_vbmi'']),
      (''avx512_vnni'', [''avx512f'', ''avx512bw'', ''avx512_vnni'']),
      (''avx512_base'', [''avx512f'', ''avx512bw'']),
      (''avx2'', [''avx2''])]"

definition validate_loaded_variant :: "string \<Rightarrow> string \<Rightarrow> unit result" where
  "validate_loaded_variant detected loaded =
     (case (variant_level detected, variant_level loaded) of
        (Some d, Some l) \<Rightarrow>
          (if l > d then Inl (RuntimeError ''The installed kt-kernel extension requires a newer CPU ISA than this host'')
           else Inr ())
      | _ \<Rightarrow> Inl (RuntimeError ''Unknown kt-kernel CPU variant metadata''))"

section \<open>Detection\<close>

text \<open>The part after the first colon; a line without one raises.\<close>

definition after_colon :: "string \<Rightarrow> string result" where
  "after_colon line =
     (case dropWhile (\<lambda>c. c \<noteq> CHR '':'') line of
        [] \<Rightarrow> Inl (IndexError ''list index out of range'')
      | _ # rest \<Rightarrow> Inr rest)"

definition cpu_flags_from_cpuinfo :: "string \<Rightarrow> string list result" where
  "cpu_flags_from_cpuinfo cpuinfo =
     (case find (\<lambda>line. starts_with ''flags'' line \<or> starts_with ''features'' line)
             (split_on CHR 0x0A (lower cpuinfo)) of
        None \<Rightarrow> Inr []
      | Some line \<Rightarrow> rbind (after_colon line) (\<lambda>rest. Inr (words rest)))"

definition has_flag :: "string list \<Rightarrow> string \<Rightarrow> bool" where
  "has_flag flags f = (f \<in> set flags \<or> filter (\<lambda>c. c \<noteq> CHR ''_'') f \<in> set flags)"

definition best_variant :: "(string \<Rightarrow> bool) \<Rightarrow> (string \<times> string list) list \<Rightarrow> string" where
  "best_variant has requirements =
     (case find (\<lambda>(_, required). list_all has required) requirements of
        None \<Rightarrow> ''avx2''
      | Some (v, _) \<Rightarrow> v)"

definition detect_x86_variant_from_cpuinfo :: "string \<Rightarrow> string result" where
  "detect_x86_variant_from_cpuinfo cpuinfo =
     rbind (cpu_flags_from_cpuinfo cpuinfo) (\<lambda>flags. Inr (best_variant (has_flag flags) x86_variant_requirements))"

text \<open>\<open>cpufeature\<close> names the features in upper case with underscores.\<close>

definition upper_char :: "char \<Rightarrow> char" where
  "upper_char c = (if CHR ''a'' \<le> c \<and> c \<le> CHR ''z'' then char_of (of_char c - 32 :: nat) else c)"

definition cpufeature_requirements :: "(string \<times> string list) list" where
  "cpufeature_requirements = map (\<lambda>(v, fs). (v, map (map upper_char) fs)) x86_variant_requirements"

record cpu_host =
  ch_override :: "string option"
  ch_arch :: "string result"
  ch_cpuinfo :: "string result"
  ch_cpufeature :: "(string \<Rightarrow> bool) option"

definition host_arch :: "cpu_host \<Rightarrow> string" where
  "host_arch h = (case ch_arch h of Inl _ \<Rightarrow> [] | Inr a \<Rightarrow> lower a)"

definition is_file_not_found :: "exn \<Rightarrow> bool" where
  "is_file_not_found e = (case e of FileNotFoundError _ \<Rightarrow> True | _ \<Rightarrow> False)"

definition detect_cpu_features :: "cpu_host \<Rightarrow> string" where
  "detect_cpu_features h =
     (let variant = lower (case ch_override h of None \<Rightarrow> [] | Some v \<Rightarrow> v);
          on_arm = (host_arch h \<in> set arm_arches);
          valid = (if on_arm then arm_variants else x86_variants) in
      if variant \<in> set valid then variant
      else if on_arm then ''arm''
      else
        (case rbind (ch_cpuinfo h) detect_x86_variant_from_cpuinfo of
           Inr detected \<Rightarrow> detected
         | Inl e \<Rightarrow>
             (if is_file_not_found e then
                (case ch_cpufeature h of
                   None \<Rightarrow> ''avx2''
                 | Some feature \<Rightarrow> best_variant feature cpufeature_requirements)
              else ''avx2'')))"

section \<open>Loading\<close>

text \<open>
  The package directory: the shared objects of a variant and of a single-variant build in the order
  \<open>glob\<close> gives them, and what executing one of them yields.
\<close>

record 'm package =
  pk_variant_files :: "string \<Rightarrow> string list"
  pk_single_files :: "string list"
  pk_exec :: "string \<Rightarrow> 'm result"

definition fallback_chain :: "string \<Rightarrow> string option" where
  "fallback_chain v =
     (case map_of
        [(''amx'', Some ''avx512_bf16''), (''avx512_bf16'', Some ''avx512_vbmi''), (''avx512_vbmi'', Some ''avx512_vnni''),
         (''avx512_vnni'', Some ''avx512_base''), (''avx512_base'', Some ''avx2''), (''avx2'', None), (''arm'', None)] v of
        None \<Rightarrow> None
      | Some next_variant \<Rightarrow> next_variant)"

definition try_variant :: "'m package \<Rightarrow> string \<Rightarrow> 'm result" where
  "try_variant pk v =
     (let so_files = (if pk_variant_files pk v = [] then pk_single_files pk else pk_variant_files pk v) in
      case so_files of
        [] \<Rightarrow> Inl (ImportError ''No .so file found for variant'')
      | so_file # _ \<Rightarrow> pk_exec pk so_file)"

definition falls_back :: "exn \<Rightarrow> bool" where
  "falls_back e = (case e of ImportError _ \<Rightarrow> True | FileNotFoundError _ \<Rightarrow> True | _ \<Rightarrow> False)"

definition chain_level :: "string \<Rightarrow> nat" where
  "chain_level v = (case variant_level v of None \<Rightarrow> 0 | Some l \<Rightarrow> l)"

lemma fallback_lower: "fallback_chain v = Some v' \<Longrightarrow> chain_level v' < chain_level v"
  by (auto simp: fallback_chain_def chain_level_def variant_level_def split: option.splits if_splits)

function load_extension :: "'m package \<Rightarrow> string \<Rightarrow> 'm result" where
  "load_extension pk v =
     (case try_variant pk v of
        Inr ext \<Rightarrow> Inr ext
      | Inl e \<Rightarrow>
          (if \<not> falls_back e then Inl e
           else case fallback_chain v of
                  Some next_variant \<Rightarrow> load_extension pk next_variant
                | None \<Rightarrow> Inl (ImportError ''Failed to load kt_kernel extension'')))"
  by pat_completeness auto
termination
  by (relation "measure (\<lambda>(_, v). chain_level v)") (auto dest: fallback_lower)

declare load_extension.simps [simp del]

text \<open>\<open>variant_of\<close> reads \<open>__cpu_variant__\<close> of the module, if it has one.\<close>

definition initialize_extension :: "('m \<Rightarrow> string option) \<Rightarrow> 'm package \<Rightarrow> cpu_host \<Rightarrow> ('m \<times> string) result" where
  "initialize_extension variant_of pk h =
     (let detected = detect_cpu_features h in
      rbind (load_extension pk detected) (\<lambda>ext.
      let loaded = (case variant_of ext of None \<Rightarrow> detected | Some v \<Rightarrow> v) in
      rbind (validate_loaded_variant detected loaded) (\<lambda>_. Inr (ext, loaded))))"

section \<open>The chain of fallbacks\<close>

function attempts :: "string \<Rightarrow> string list" where
  "attempts v = v # (case fallback_chain v of None \<Rightarrow> [] | Some v' \<Rightarrow> attempts v')"
  by pat_completeness auto
termination
  by (relation "measure chain_level") (auto dest: fallback_lower)

declare attempts.simps [simp del]

lemma attempts_length: "length (attempts v) \<le> Suc (chain_level v)"
proof (induction v rule: attempts.induct)
  case (1 v)
  show ?case
  proof (cases "fallback_chain v")
    case None
    then show ?thesis by (subst attempts.simps) simp
  next
    case (Some v')
    with 1 [OF Some] fallback_lower [OF Some] show ?thesis by (subst attempts.simps) simp
  qed
qed

lemma chain_level_bound: "chain_level v \<le> 5"
  by (auto simp: chain_level_def variant_level_def split: option.splits)

fun first_loaded :: "('m result) list \<Rightarrow> 'm result" where
  "first_loaded [] = Inl (ImportError ''Failed to load kt_kernel extension'')"
| "first_loaded (r # rs) =
     (case r of Inr ext \<Rightarrow> Inr ext | Inl e \<Rightarrow> if falls_back e then first_loaded rs else Inl e)"

text \<open>
  Loading ends after at most six attempts, each with a variant of a strictly lower level, and its
  result is that of the first attempt that does not fail with an import error: the recursion is
  the search through the fallback chain.
\<close>

theorem load_extension_is_search:
  "load_extension pk v = first_loaded (map (try_variant pk) (attempts v)) \<and> length (attempts v) \<le> 6 \<and>
     sorted_wrt (\<lambda>a b. chain_level b < chain_level a) (attempts v)"
proof (intro conjI)
  show "load_extension pk v = first_loaded (map (try_variant pk) (attempts v))"
  proof (induction v rule: attempts.induct)
    case (1 v)
    show ?case
      using 1 by (subst attempts.simps, subst load_extension.simps) (auto split: sum.splits option.splits)
  qed
  show "length (attempts v) \<le> 6" using attempts_length [of v] chain_level_bound [of v] by simp
  show "sorted_wrt (\<lambda>a b. chain_level b < chain_level a) (attempts v)"
  proof (induction v rule: attempts.induct)
    case (1 v)
    show ?case
    proof (cases "fallback_chain v")
      case None
      then show ?thesis by (subst attempts.simps) simp
    next
      case (Some v')
      have "\<forall>w \<in> set (attempts v'). chain_level w \<le> chain_level v'"
        using 1 [OF Some] by (subst (asm) attempts.simps, subst attempts.simps) (auto intro: less_imp_le)
      with 1 [OF Some] fallback_lower [OF Some] show ?thesis
        by (subst attempts.simps) (auto simp: Some)
    qed
  qed
qed

section \<open>The variant suits the host\<close>

definition needed :: "string \<Rightarrow> string list" where
  "needed v = (case map_of x86_variant_requirements v of None \<Rightarrow> [] | Some fs \<Rightarrow> fs)"

lemma chain_levels [simp]:
  "chain_level ''amx'' = 5" "chain_level ''avx512_bf16'' = 4" "chain_level ''avx512_vbmi'' = 3"
  "chain_level ''avx512_vnni'' = 2" "chain_level ''avx512_base'' = 1" "chain_level ''avx2'' = 0" "chain_level ''arm'' = 0"
  by code_simp+

lemma best_variant_if:
  "best_variant has x86_variant_requirements =
     (if list_all has (needed ''amx'') then ''amx''
      else if list_all has (needed ''avx512_bf16'') then ''avx512_bf16''
      else if list_all has (needed ''avx512_vbmi'') then ''avx512_vbmi''
      else if list_all has (needed ''avx512_vnni'') then ''avx512_vnni''
      else if list_all has (needed ''avx512_base'') then ''avx512_base''
      else ''avx2'')"
proof -
  have reqs: "x86_variant_requirements = map (\<lambda>v. (v, needed v)) x86_variants" by code_simp
  show ?thesis unfolding reqs by (simp add: best_variant_def x86_variants_def)
qed

lemma best_variant_cases:
  "best_variant has x86_variant_requirements = ''avx2'' \<or>
     list_all has (needed (best_variant has x86_variant_requirements))"
  by (simp add: best_variant_if)

lemma best_variant_best:
  assumes "v \<in> set x86_variants" "list_all has (needed v)"
  shows "chain_level v \<le> chain_level (best_variant has x86_variant_requirements)"
proof -
  have "v \<in> {''amx'', ''avx512_bf16'', ''avx512_vbmi'', ''avx512_vnni'', ''avx512_base'', ''avx2''}"
    using assms(1) by (simp add: x86_variants_def)
  with assms(2) show ?thesis
    unfolding best_variant_if by (elim insertE emptyE) simp_all
qed

text \<open>
  On an x86 host whose \<open>/proc/cpuinfo\<close> can be read and without an override, detection picks a
  variant all of whose instruction-set flags the CPU reports (\<open>avx2\<close> is the floor and needs none),
  and no variant of a higher level would do.
\<close>

theorem detected_variant_best:
  assumes "host_arch h \<notin> set arm_arches" "ch_override h = None" "ch_cpuinfo h = Inr text"
    "cpu_flags_from_cpuinfo text = Inr flags"
  shows "(detect_cpu_features h = ''avx2'' \<or> list_all (has_flag flags) (needed (detect_cpu_features h))) \<and>
    list_all (\<lambda>v. list_all (has_flag flags) (needed v) \<longrightarrow> chain_level v \<le> chain_level (detect_cpu_features h)) x86_variants"
proof -
  have "detect_cpu_features h = best_variant (has_flag flags) x86_variant_requirements"
    using assms by (simp add: detect_cpu_features_def detect_x86_variant_from_cpuinfo_def lower_def x86_variants_def)
  then show ?thesis
    using best_variant_cases [of "has_flag flags"] best_variant_best [of _ "has_flag flags"] by (auto simp: list_all_iff)
qed

section \<open>What a build needs\<close>

text \<open>
  The switches under which \<open>setup.py\<close> compiles each variant, and the instruction sets they turn on
  beyond the AVX2 floor of every x86 build (\<open>CMakeLists.txt\<close>: \<open>LLAMA_AVX512\<close> adds \<open>-mavx512f\<close>, \<open>-mavx512bw\<close>,
  \<open>-mavx512dq\<close> and \<open>-mavx512vl\<close>). This is independent of the tables that detection reads.
\<close>

record build_switches =
  bs_avx512 :: bool
  bs_vnni :: bool
  bs_bf16 :: bool
  bs_vbmi :: bool
  bs_amx :: bool

definition setup_variants :: "(string \<times> build_switches) list" where
  "setup_variants =
     [(''avx2'', \<lparr>bs_avx512 = False, bs_vnni = False, bs_bf16 = False, bs_vbmi = False, bs_amx = False\<rparr>),
      (''avx512_base'', \<lparr>bs_avx512 = True, bs_vnni = False, bs_bf16 = False, bs_vbmi = False, bs_amx = False\<rparr>),
      (''avx512_vnni'', \<lparr>bs_avx512 = True, bs_vnni = True, bs_bf16 = False, bs_vbmi = False, bs_amx = False\<rparr>),
      (''avx512_vbmi'', \<lparr>bs_avx512 = True, bs_vnni = True, bs_bf16 = False, bs_vbmi = True, bs_amx = False\<rparr>),
      (''avx512_bf16'', \<lparr>bs_avx512 = True, bs_vnni = True, bs_bf16 = True, bs_vbmi = True, bs_amx = False\<rparr>),
      (''amx'', \<lparr>bs_avx512 = True, bs_vnni = True, bs_bf16 = True, bs_vbmi = True, bs_amx = True\<rparr>)]"

definition switch_isa :: "build_switches \<Rightarrow> string list" where
  "switch_isa b =
     (if bs_avx512 b then [''avx512f'', ''avx512bw'', ''avx512dq'', ''avx512vl''] else []) @
     (if bs_vnni b then [''avx512_vnni''] else []) @ (if bs_bf16 b then [''avx512_bf16''] else []) @
     (if bs_vbmi b then [''avx512_vbmi''] else []) @
     (if bs_amx b then [''amx_tile'', ''amx_int8'', ''amx_bf16''] else [])"

definition build_isa :: "string \<Rightarrow> string list" where
  "build_isa v = (case map_of setup_variants v of None \<Rightarrow> [] | Some b \<Rightarrow> switch_isa b)"

text \<open>
  \<open>built\<close> names the variant a module was compiled as: the file of a variant holds that variant, a
  module that declares a variant declares its own, and the file of a single-variant build declares one.
\<close>

definition honest_package :: "('m \<Rightarrow> string option) \<Rightarrow> ('m \<Rightarrow> string) \<Rightarrow> 'm package \<Rightarrow> bool" where
  "honest_package variant_of built pk \<longleftrightarrow>
     (\<forall>f ext. pk_exec pk f = Inr ext \<longrightarrow>
        (\<forall>v. f \<in> set (pk_variant_files pk v) \<longrightarrow> built ext = v) \<and>
        (\<forall>v. variant_of ext = Some v \<longrightarrow> built ext = v) \<and>
        (f \<in> set (pk_single_files pk) \<longrightarrow> variant_of ext \<noteq> None))"

lemma loaded_from_attempt:
  "load_extension pk v = Inr ext \<Longrightarrow> \<exists>v' \<in> set (attempts v). try_variant pk v' = Inr ext"
proof (induction v rule: attempts.induct)
  case (1 v)
  from 1(2) consider "try_variant pk v = Inr ext" | v' where "fallback_chain v = Some v'" "load_extension pk v' = Inr ext"
    by (subst (asm) load_extension.simps) (auto split: sum.splits if_splits option.splits)
  then show ?case
  proof cases
    case 1
    then show ?thesis by (subst attempts.simps) auto
  next
    case 2
    with 1(1) show ?thesis by (subst attempts.simps) auto
  qed
qed

lemma tried_file:
  "try_variant pk v = Inr ext \<Longrightarrow> \<exists>f. pk_exec pk f = Inr ext \<and> (f \<in> set (pk_variant_files pk v) \<or> f \<in> set (pk_single_files pk))"
  by (cases "pk_variant_files pk v"; cases "pk_single_files pk") (auto simp: try_variant_def)

text \<open>What a module of a lower level, or one tried after a variant, was compiled for.\<close>

definition covered :: "string \<Rightarrow> string \<Rightarrow> bool" where
  "covered v b \<longleftrightarrow> list_all (\<lambda>f. f \<in> set (needed v) \<or> f \<in> {''avx512dq'', ''avx512vl''} \<and> ''avx512bw'' \<in> set (needed v)) (build_isa b)"

lemma covered_lower:
  assumes "v \<in> set x86_variants" "validate_loaded_variant v b = Inr ()"
  shows "covered v b"
proof -
  let ?names = "[''arm'', ''avx2'', ''avx512_base'', ''avx512_vnni'', ''avx512_vbmi'', ''avx512_bf16'', ''amx'']"
  have all: "list_all (\<lambda>v. list_all (\<lambda>b. is_ok (validate_loaded_variant v b) \<longrightarrow> covered v b) ?names) x86_variants" by code_simp
  have "variant_level b \<noteq> None" using assms(2) by (auto simp: validate_loaded_variant_def split: option.splits)
  then have "b \<in> set ?names" by (auto simp: variant_level_def split: if_splits)
  with all assms show ?thesis unfolding list_all_iff is_ok_iff by blast
qed

lemma covered_attempt: "v \<in> set x86_variants \<Longrightarrow> b \<in> set (attempts v) \<Longrightarrow> covered v b"
proof -
  assume "v \<in> set x86_variants" "b \<in> set (attempts v)"
  moreover have "list_all (\<lambda>v. list_all (covered v) (attempts v)) x86_variants" by code_simp
  ultimately show ?thesis unfolding list_all_iff by blast
qed

text \<open>
  C35. On an x86 host that forces no variant and whose \<open>/proc/cpuinfo\<close> can be read, the extension that
  \<open>initialize\<close> returns was compiled only for instruction sets beyond AVX2 that the CPU reports. What a
  variant is compiled for is what the build scripts switch on for it (\<open>build_isa\<close>), whatever the tables
  and the fallback chain of the loader say. The package is honest about its files, and a CPU that reports
  \<open>avx512bw\<close> reports \<open>avx512dq\<close> and \<open>avx512vl\<close>, which are compiled in but not looked for.
\<close>

theorem initialized_variant_fits:
  assumes "initialize_extension variant_of pk h = Inr (ext, loaded)"
    and "host_arch h \<notin> set arm_arches" "lower (case ch_override h of None \<Rightarrow> [] | Some v \<Rightarrow> v) \<notin> set x86_variants"
    and "ch_cpuinfo h = Inr text" "cpu_flags_from_cpuinfo text = Inr flags"
    and "honest_package variant_of built pk"
    and "has_flag flags ''avx512bw'' \<Longrightarrow> has_flag flags ''avx512dq'' \<and> has_flag flags ''avx512vl''"
  shows "list_all (has_flag flags) (build_isa (built ext))"
proof -
  let ?v = "detect_cpu_features h"
  have best: "?v = best_variant (has_flag flags) x86_variant_requirements"
    using assms(2-5) by (simp add: detect_cpu_features_def detect_x86_variant_from_cpuinfo_def Let_def)
  then have x86: "?v \<in> set x86_variants" unfolding best best_variant_if by (simp add: x86_variants_def)
  from assms(1) obtain b where load: "load_extension pk ?v = Inr ext" and b: "b = (case variant_of ext of None \<Rightarrow> ?v | Some v \<Rightarrow> v)"
    "validate_loaded_variant ?v b = Inr ()"
    by (auto simp: initialize_extension_def Let_def rbind_eq_Inr)
  from loaded_from_attempt [OF load] obtain v' where v': "v' \<in> set (attempts ?v)" "try_variant pk v' = Inr ext" by blast
  from tried_file [OF v'(2)] obtain f where f: "pk_exec pk f = Inr ext" "f \<in> set (pk_variant_files pk v') \<or> f \<in> set (pk_single_files pk)"
    by blast
  have "covered ?v (built ext)"
  proof (cases "variant_of ext")
    case None
    with f assms(6) have "built ext = v'" unfolding honest_package_def by blast
    with covered_attempt [OF x86 v'(1)] show ?thesis by simp
  next
    case (Some u)
    with f assms(6) have "built ext = u" unfolding honest_package_def by blast
    with covered_lower [OF x86 b(2)] Some b(1) show ?thesis by simp
  qed
  moreover have "''avx512bw'' \<in> set (needed ?v) \<Longrightarrow> list_all (has_flag flags) (needed ?v)"
    using best_variant_cases [of "has_flag flags"] unfolding best by (auto simp: needed_def x86_variant_requirements_def)
  moreover have "needed ?v = [''avx2''] \<or> list_all (has_flag flags) (needed ?v)"
    using best_variant_cases [of "has_flag flags"] unfolding best by (auto simp: needed_def x86_variant_requirements_def)
  moreover have "f \<noteq> ''avx2''" if "f \<in> set (build_isa (built ext))" for f
    using that by (auto simp: build_isa_def switch_isa_def split: option.splits if_splits)
  ultimately show ?thesis using assms(7) unfolding covered_def list_all_iff by fastforce
qed

section \<open>A host\<close>

definition sample_cpuinfo :: string where
  "sample_cpuinfo = ''model: x'' @ [CHR 0x0A] @ ''flags : fpu AVX2 avx512f avx512bw avx512dq avx512vl avx512vnni''"

definition sample_host :: cpu_host where
  "sample_host = \<lparr>ch_override = None, ch_arch = Inr ''x86_64'', ch_cpuinfo = Inr sample_cpuinfo, ch_cpufeature = None\<rparr>"

definition sample_package :: "string package" where
  "sample_package = \<lparr>pk_variant_files = (\<lambda>v. if v \<in> {''amx'', ''avx512_base''} then [v] else []), pk_single_files = [],
     pk_exec = (\<lambda>f. Inr f)\<rparr>"

theorem detected_variant_best_witness: "detect_cpu_features sample_host = ''avx512_vnni''"
proof -
  let ?text = "sample_cpuinfo"
  let ?flags = "[''fpu'', ''avx2'', ''avx512f'', ''avx512bw'', ''avx512dq'', ''avx512vl'', ''avx512vnni'']"
  have "host_arch sample_host \<notin> set arm_arches" "cpu_flags_from_cpuinfo ?text = Inr ?flags" by code_simp+
  then have best: "list_all (\<lambda>v. list_all (has_flag ?flags) (needed v) \<longrightarrow> chain_level v \<le> chain_level (detect_cpu_features sample_host)) x86_variants"
    and fits: "detect_cpu_features sample_host = ''avx2'' \<or> list_all (has_flag ?flags) (needed (detect_cpu_features sample_host))"
    using detected_variant_best [of sample_host ?text ?flags] by (simp_all add: sample_host_def)
  have "list_all (has_flag ?flags) (needed ''avx512_vnni'')" by code_simp
  then have "2 \<le> chain_level (detect_cpu_features sample_host)"
    using best by (simp add: x86_variants_def)
  moreover have "detect_cpu_features sample_host = ''avx512_vnni''" by code_simp
  ultimately show ?thesis by simp
qed

text \<open>The package has the builds \<open>amx\<close> and \<open>avx512_base\<close>; the host lacks AMX and gets the second.\<close>

theorem initialized_variant_fits_witness:
  "\<exists>ext. initialize_extension Some sample_package sample_host = Inr (ext, ''avx512_base'') \<and>
     build_isa ext = [''avx512f'', ''avx512bw'', ''avx512dq'', ''avx512vl''] \<and>
     list_all (has_flag [''fpu'', ''avx2'', ''avx512f'', ''avx512bw'', ''avx512dq'', ''avx512vl'', ''avx512vnni'']) (build_isa ext)"
proof -
  let ?flags = "[''fpu'', ''avx2'', ''avx512f'', ''avx512bw'', ''avx512dq'', ''avx512vl'', ''avx512vnni'']"
  have run: "initialize_extension Some sample_package sample_host = Inr (''avx512_base'', ''avx512_base'')" by code_simp
  have host: "host_arch sample_host \<notin> set arm_arches"
    "lower (case ch_override sample_host of None \<Rightarrow> [] | Some v \<Rightarrow> v) \<notin> set x86_variants" by code_simp+
  have flags: "ch_cpuinfo sample_host = Inr sample_cpuinfo" "cpu_flags_from_cpuinfo sample_cpuinfo = Inr ?flags"
    by (simp add: sample_host_def) code_simp
  have honest: "honest_package Some id sample_package"
    by (auto simp: honest_package_def sample_package_def split: if_splits)
  have more: "has_flag ?flags ''avx512dq'' \<and> has_flag ?flags ''avx512vl''" by code_simp
  have isa: "build_isa ''avx512_base'' = [''avx512f'', ''avx512bw'', ''avx512dq'', ''avx512vl'']" by code_simp
  have "list_all (has_flag ?flags) (build_isa (id ''avx512_base''))"
    by (rule initialized_variant_fits [OF run host flags honest]) (rule more)
  with run isa show ?thesis by auto
qed

text \<open>
  On ARM the single build is compiled without any of the x86 macros, so that the module calls itself
  \<open>avx2\<close>; the documentation promises \<open>arm\<close>.
\<close>

lemma arm_reported_as_avx2:
  assumes "host_arch h = ''aarch64''" "ch_override h = None" "load_extension pk ''arm'' = Inr ext"
    "variant_of ext = Some ''avx2''"
  shows "initialize_extension variant_of pk h = Inr (ext, ''avx2'')"
proof -
  have "detect_cpu_features h = ''arm''" using assms(1,2) by (simp add: detect_cpu_features_def arm_arches_def arm_variants_def lower_def)
  moreover have "validate_loaded_variant ''arm'' ''avx2'' = Inr ()" by code_simp
  ultimately show ?thesis using assms(3,4) by (simp add: initialize_extension_def)
qed

end
