(* ===== verification/Tuna.thy ===== *)
theory Tuna
  imports PyText
begin

text \<open>
  \<open>kt-kernel/python/cli/utils/tuna_engine.py\<close>: the search for the largest number of experts per layer
  that fits on the GPUs. Starting a server and what it prints are parameters; the search sees
  \<open>works i k\<close>, whether the test with \<open>k\<close> GPU experts passes when \<open>i\<close> servers have been started before
  it, so that a repeated test may end differently. The configuration file of the model is missing,
  unreadable or a dictionary.
\<close>

section \<open>Reading the model configuration\<close>

datatype config_file = Missing | Broken | Config "(string, int) dict"

definition expert_keys :: "string list" where
  "expert_keys = [''num_experts_per_tok'', ''num_local_experts'', ''n_routed_experts'', ''num_experts'']"

definition get_num_experts :: "config_file \<Rightarrow> int result" where
  "get_num_experts f =
     (case f of
        Missing \<Rightarrow> Inl (ValueError ''config.json not found'')
      | Broken \<Rightarrow> Inl (ValueError ''Failed to parse config.json'')
      | Config config \<Rightarrow>
          (case find (\<lambda>key. dmem config key) expert_keys of
             None \<Rightarrow> Inl (ValueError ''Cannot find num_experts field'')
           | Some key \<Rightarrow> (case dget config key of None \<Rightarrow> Inl (KeyError key) | Some n \<Rightarrow> Inr n)))"

definition oom_patterns :: "string list" where
  "oom_patterns =
     [''cuda out of memory'', ''out of memory'', ''outofmemoryerror'', ''oom'', ''failed to allocate'',
      ''cumemalloc failed'', ''cumemallocasync failed'', ''allocation failed'']"

definition detect_oom :: "string option \<Rightarrow> bool" where
  "detect_oom line =
     (case line of None \<Rightarrow> False | Some l \<Rightarrow> list_ex (\<lambda>p. contains p (lower l)) oom_patterns)"

section \<open>Testing one configuration\<close>

text \<open>
  What \<open>test_config\<close> sees of a server it starts: at each turn of its loop the seconds since the start,
  whether the process has exited, and what \<open>readline\<close> returns or raises. When the list is used up
  \<open>readline\<close> does not return, and neither does \<open>test_config\<close>.
\<close>

record observation =
  ob_elapsed :: int
  ob_exited :: bool
  ob_line :: "string result"

datatype startup = Server_ready | Gave_up | Blocked

definition start_timeout :: int where
  "start_timeout = 60"

definition announces_ready :: "string \<Rightarrow> bool" where
  "announces_ready line \<longleftrightarrow> contains ''Uvicorn running'' line \<or> contains ''Application startup complete'' line"

fun wait_for_server :: "observation list \<Rightarrow> startup" where
  "wait_for_server [] = Blocked"
| "wait_for_server (ob # obs) =
     (if start_timeout \<le> ob_elapsed ob then Gave_up
      else if ob_exited ob then Gave_up
      else case ob_line ob of
             Inl _ \<Rightarrow> Gave_up
           | Inr line \<Rightarrow>
               (if line = [] then wait_for_server obs
                else if detect_oom (Some line) then Gave_up
                else if announces_ready line then Server_ready
                else wait_for_server obs))"

text \<open>Whether the process could be started, the answer of the test request, and whether it ends when killed.\<close>

record server_run =
  sv_spawned :: bool
  sv_observed :: "observation list"
  sv_inference :: bool
  sv_stops :: bool

definition test_config :: "server_run \<Rightarrow> bool option" where
  "test_config sv =
     (if \<not> sv_spawned sv then Some False
      else case wait_for_server (sv_observed sv) of
             Blocked \<Rightarrow> None
           | Gave_up \<Rightarrow> Some False
           | Server_ready \<Rightarrow> Some (sv_stops sv \<and> sv_inference sv))"

section \<open>The search\<close>

text \<open>The loop with its iteration counter, which is the number of servers started; \<open>//\<close> floors.\<close>

function search_experts :: "(nat \<Rightarrow> int \<Rightarrow> bool) \<Rightarrow> int \<Rightarrow> int \<Rightarrow> int \<Rightarrow> nat \<Rightarrow> int \<times> nat" where
  "search_experts works left right res iteration =
     (if left \<le> right then
        (let mid = (left + right) div 2 in
         if works iteration mid then search_experts works (mid + 1) right mid (Suc iteration)
         else search_experts works left (mid - 1) res (Suc iteration))
      else (res, iteration))"
  by pat_completeness auto
termination
  by (relation "measure (\<lambda>(_, left, right, _, _). nat (right - left + 1))") auto

declare search_experts.simps [simp del]

text \<open>\<open>math.ceil(math.log2(num_experts + 1))\<close>, which raises below 1.\<close>

fun ceil_log2 :: "nat \<Rightarrow> nat" where
  "ceil_log2 n = (if n \<le> 1 then 0 else Suc (ceil_log2 ((n + 1) div 2)))"

declare ceil_log2.simps [simp del]

definition total_iterations :: "int \<Rightarrow> nat result" where
  "total_iterations num_experts =
     (if num_experts + 1 \<le> 0 then Inl (ValueError ''math domain error'') else Inr (ceil_log2 (nat (num_experts + 1))))"

text \<open>The outcome and the number of servers started.\<close>

definition find_max_gpu_experts :: "config_file \<Rightarrow> (nat \<Rightarrow> int \<Rightarrow> bool) \<Rightarrow> int result \<times> nat" where
  "find_max_gpu_experts f works =
     (case rbind (get_num_experts f) (\<lambda>num_experts. rbind (total_iterations num_experts) (\<lambda>_. Inr num_experts)) of
        Inl e \<Rightarrow> (Inl e, 0)
      | Inr num_experts \<Rightarrow> (case search_experts works 0 num_experts 0 0 of (res, iteration) \<Rightarrow> (Inr res, iteration)))"

definition run_tuna :: "config_file \<Rightarrow> (nat \<Rightarrow> int \<Rightarrow> bool) \<Rightarrow> int result \<times> nat" where
  "run_tuna f works =
     (case find_max_gpu_experts f works of
        (Inl e, starts) \<Rightarrow> (Inl e, starts)
      | (Inr res, starts) \<Rightarrow>
          (if res = 0
           then (if works starts 0 then Inr res else Inl (ValueError ''Minimum GPU memory requirements not met''), Suc starts)
           else (Inr res, starts)))"

section \<open>Correctness of the search\<close>

text \<open>What works with more experts on the GPU works with fewer.\<close>

definition downward :: "(int \<Rightarrow> bool) \<Rightarrow> bool" where
  "downward works \<longleftrightarrow> (\<forall>a b. 0 \<le> a \<longrightarrow> a \<le> b \<longrightarrow> works b \<longrightarrow> works a)"

lemma downwardD: "downward works \<Longrightarrow> works b \<Longrightarrow> 0 \<le> a \<Longrightarrow> a \<le> b \<Longrightarrow> works a"
  by (auto simp: downward_def)

text \<open>What holds whenever the loop tests its condition: below \<open>left\<close> everything works, above \<open>right\<close> nothing.\<close>

definition window_ok :: "(int \<Rightarrow> bool) \<Rightarrow> int \<Rightarrow> int \<Rightarrow> int \<Rightarrow> int \<Rightarrow> bool" where
  "window_ok works n left right res \<longleftrightarrow>
     0 \<le> left \<and> left \<le> right + 1 \<and> right \<le> n \<and> res = max 0 (left - 1) \<and>
     (\<forall>k. 0 \<le> k \<longrightarrow> k < left \<longrightarrow> works k) \<and> (\<forall>k. right < k \<longrightarrow> k \<le> n \<longrightarrow> \<not> works k)"

lemma window_up:
  assumes "window_ok works n left right res" "downward works" "left \<le> right" "works ((left + right) div 2)"
  shows "window_ok works n ((left + right) div 2 + 1) right ((left + right) div 2)"
proof -
  have "left \<le> (left + right) div 2" "(left + right) div 2 \<le> right" "0 \<le> left"
    using assms(1,3) by (auto simp: window_ok_def)
  with assms show ?thesis by (auto simp: window_ok_def intro: downwardD [OF assms(2) assms(4)])
qed

lemma window_down:
  assumes "window_ok works n left right res" "downward works" "left \<le> right" "\<not> works ((left + right) div 2)"
  shows "window_ok works n left ((left + right) div 2 - 1) res"
proof -
  have mid: "left \<le> (left + right) div 2" "(left + right) div 2 \<le> right" "0 \<le> left"
    using assms(1,3) by (auto simp: window_ok_def)
  have "\<not> works k" if "(left + right) div 2 - 1 < k" for k
    using downwardD [OF assms(2), of k "(left + right) div 2"] assms(4) mid that by auto
  with mid assms(1) show ?thesis by (auto simp: window_ok_def)
qed

definition largest_fit :: "(int \<Rightarrow> bool) \<Rightarrow> int \<Rightarrow> int \<Rightarrow> bool" where
  "largest_fit works n r \<longleftrightarrow>
     0 \<le> r \<and> r \<le> max 0 n \<and> (0 < r \<longrightarrow> works r) \<and> (\<forall>k. r < k \<longrightarrow> k \<le> n \<longrightarrow> \<not> works k)"

lemma search_largest:
  assumes "window_ok fits n left right res" "downward fits" "\<forall>i. works i = fits"
  shows "largest_fit fits n (fst (search_experts works left right res it))"
  using assms
proof (induction works left right res it rule: search_experts.induct)
  case (1 works left right res it)
  from 1(5) have w: "works it = fits" by simp
  show ?case
  proof (cases "left \<le> right")
    case False
    with 1(3) have "left = right + 1" "res = max 0 (left - 1)" by (auto simp: window_ok_def)
    with 1(3) False show ?thesis
      by (subst search_experts.simps) (auto simp: window_ok_def largest_fit_def max_def)
  next
    case True
    show ?thesis
    proof (cases "works it ((left + right) div 2)")
      case fits: True
      with 1(1) [OF True refl fits window_up [OF 1(3,4) True fits [unfolded w]] 1(4,5)] True
      show ?thesis by (subst search_experts.simps) (simp add: Let_def)
    next
      case fails: False
      with 1(2) [OF True refl fails window_down [OF 1(3,4) True fails [unfolded w]] 1(4,5)] True
      show ?thesis by (subst search_experts.simps) (simp add: Let_def)
    qed
  qed
qed

section \<open>The number of server starts\<close>

fun bit_len :: "nat \<Rightarrow> nat" where
  "bit_len n = (if n = 0 then 0 else Suc (bit_len (n div 2)))"

declare bit_len.simps [simp del]

lemma bit_len_mono: "m \<le> n \<Longrightarrow> bit_len m \<le> bit_len n"
proof (induction n arbitrary: m rule: bit_len.induct)
  case (1 n)
  then show ?case
    by (subst bit_len.simps, subst (2) bit_len.simps) (auto intro: div_le_mono)
qed

lemma search_iterations:
  "snd (search_experts works left right res it) \<le> it + bit_len (nat (right - left + 1))"
proof (induction works left right res it rule: search_experts.induct)
  case (1 works left right res it)
  show ?case
  proof (cases "left \<le> right")
    case False
    then show ?thesis by (subst search_experts.simps) simp
  next
    case True
    let ?mid = "(left + right) div 2"
    have halves: "nat (right - (?mid + 1) + 1) \<le> nat (right - left + 1) div 2"
      "nat (?mid - 1 - left + 1) \<le> nat (right - left + 1) div 2" by auto
    have step: "bit_len (nat (right - left + 1)) = Suc (bit_len (nat (right - left + 1) div 2))"
      using True by (subst bit_len.simps) simp
    show ?thesis
    proof (cases "works it ?mid")
      case fits: True
      have "snd (search_experts works (?mid + 1) right ?mid (Suc it)) \<le> it + bit_len (nat (right - left + 1))"
        using 1(1) [OF True refl fits] bit_len_mono [OF halves(1)] step by simp
      with True fits show ?thesis by (subst search_experts.simps) (simp add: Let_def)
    next
      case fails: False
      have "snd (search_experts works left (?mid - 1) res (Suc it)) \<le> it + bit_len (nat (right - left + 1))"
        using 1(2) [OF True refl fails] bit_len_mono [OF halves(2)] step by simp
      with True fails show ?thesis by (subst search_experts.simps) (simp add: Let_def)
    qed
  qed
qed

text \<open>What the search returns is what it started with or has passed a test, whatever the tests answer.\<close>

lemma search_tested:
  "0 \<le> left \<Longrightarrow> right \<le> n \<Longrightarrow> 0 \<le> res \<Longrightarrow> res \<le> n \<Longrightarrow> search_experts works left right res it = (r, s) \<Longrightarrow>
     it \<le> s \<and> 0 \<le> r \<and> r \<le> n \<and> (r = res \<or> (\<exists>i < s. works i r))"
proof (induction works left right res it rule: search_experts.induct)
  case (1 works left right res it)
  let ?mid = "(left + right) div 2"
  show ?case
  proof (cases "left \<le> right")
    case False
    with 1(3-7) show ?thesis by (subst (asm) search_experts.simps) simp
  next
    case True
    have mid: "0 \<le> ?mid" "?mid \<le> n" "0 \<le> ?mid + 1" "?mid - 1 \<le> n" using True 1(3,4) by linarith+
    show ?thesis
    proof (cases "works it ?mid")
      case fits: True
      have "search_experts works (?mid + 1) right ?mid (Suc it) = (r, s)"
        using 1(7) True fits by (subst (asm) search_experts.simps) (simp add: Let_def)
      from 1(1) [OF True refl fits mid(3) 1(4) mid(1,2) this] fits show ?thesis by auto
    next
      case fails: False
      have "search_experts works left (?mid - 1) res (Suc it) = (r, s)"
        using 1(7) True fails by (subst (asm) search_experts.simps) (simp add: Let_def)
      from 1(2) [OF True refl fails 1(3) mid(4) 1(5,6) this] show ?thesis by auto
    qed
  qed
qed

section \<open>A server that starts\<close>

definition healthy :: "observation \<Rightarrow> bool" where
  "healthy ob \<longleftrightarrow> ob_elapsed ob < start_timeout \<and> \<not> ob_exited ob \<and>
     (case ob_line ob of Inl _ \<Rightarrow> False | Inr line \<Rightarrow> \<not> detect_oom (Some line))"

definition ready_at :: "observation \<Rightarrow> bool" where
  "ready_at ob \<longleftrightarrow> (case ob_line ob of Inl _ \<Rightarrow> False | Inr line \<Rightarrow> announces_ready line)"

lemma empty_line [simp]: "\<not> detect_oom (Some [])" "\<not> announces_ready []"
  by code_simp+

lemma wait_for_server_ready:
  "wait_for_server obs = Server_ready \<longleftrightarrow> (\<exists>pre ob post. obs = pre @ ob # post \<and> list_all healthy pre \<and> healthy ob \<and> ready_at ob)"
proof (induction obs)
  case Nil
  show ?case by simp
next
  case (Cons ob obs)
  have "(\<exists>pre ob' post. ob # obs = pre @ ob' # post \<and> list_all healthy pre \<and> healthy ob' \<and> ready_at ob') \<longleftrightarrow>
      healthy ob \<and> (ready_at ob \<or> (\<exists>pre ob' post. obs = pre @ ob' # post \<and> list_all healthy pre \<and> healthy ob' \<and> ready_at ob'))"
    (is "?L \<longleftrightarrow> ?R")
  proof
    assume ?L
    then obtain pre ob' post where split: "ob # obs = pre @ ob' # post" "list_all healthy pre" "healthy ob'" "ready_at ob'"
      by blast
    then show ?R by (cases pre) auto
  next
    assume r: ?R
    then have h: "healthy ob" by blast
    from r consider "ready_at ob" | pre ob' post where "obs = pre @ ob' # post" "list_all healthy pre" "healthy ob'" "ready_at ob'"
      by blast
    then show ?L
    proof cases
      case 1
      with h have "ob # obs = [] @ ob # obs \<and> list_all healthy [] \<and> healthy ob \<and> ready_at ob" by simp
      then show ?thesis by blast
    next
      case 2
      with h have "ob # obs = (ob # pre) @ ob' # post \<and> list_all healthy (ob # pre) \<and> healthy ob' \<and> ready_at ob'" by simp
      then show ?thesis by blast
    qed
  qed
  moreover have "wait_for_server (ob # obs) = Server_ready \<longleftrightarrow> healthy ob \<and> (ready_at ob \<or> wait_for_server obs = Server_ready)"
    by (cases "ob_line ob") (auto simp: healthy_def ready_at_def)
  ultimately show ?case by (simp only: Cons.IH)
qed

text \<open>
  A configuration passes the test exactly when the process starts, some line of its output
  announces that the server runs, up to there every turn is within a minute with the process alive and no
  line that looks like an allocation failure, the test request succeeds and the process can be stopped.
\<close>

theorem config_passes_iff:
  "test_config sv = Some True \<longleftrightarrow>
     sv_spawned sv \<and> sv_inference sv \<and> sv_stops sv \<and>
     (\<exists>pre ob post. sv_observed sv = pre @ ob # post \<and> list_all healthy pre \<and> healthy ob \<and> ready_at ob)"
  unfolding wait_for_server_ready [symmetric] by (auto simp: test_config_def split: startup.splits)

text \<open>A line of output that merely has the letters \<open>oom\<close> in a word counts as an allocation failure.\<close>

lemma oom_in_a_word: "detect_oom (Some ''Loading model /models/bloom-7b1'')"
  by code_simp

section \<open>What tuning finds\<close>

lemma window_start: "window_ok works n 0 n 0 \<longleftrightarrow> - 1 \<le> n"
  by (auto simp: window_ok_def)

lemma found_experts:
  assumes "get_num_experts f = Inr n" "0 \<le> n"
  obtains r s where "search_experts works 0 n 0 0 = (r, s)" "find_max_gpu_experts f works = (Inr r, s)"
    "0 \<le> r" "r \<le> n" "r = 0 \<or> (\<exists>i < s. works i r)" "s \<le> bit_len (nat (n + 1))"
proof -
  obtain r s where rs: "search_experts works 0 n 0 0 = (r, s)" by fastforce
  with assms have "find_max_gpu_experts f works = (Inr r, s)"
    by (simp add: find_max_gpu_experts_def total_iterations_def)
  with rs search_tested [OF _ _ _ _ rs, of n] search_iterations [of works 0 n 0 0] assms(2)
  show ?thesis by (intro that) auto
qed

text \<open>
  C33. Tuning starts at most \<open>bit_len (n + 1)\<close> servers when it finds a positive number of experts, and
  one more otherwise (it tests 0 again), whatever the tests answer, a repeated one included. What it
  returns lies between 0 and the number \<open>n\<close> read from the configuration and has passed a test, and it
  raises only after a failed test of 0. When in addition the tests answer consistently and fewer experts
  on the GPU never need more memory, what it returns is the largest number up to \<open>n\<close> that works.
\<close>

theorem tuning_finds_largest:
  assumes "get_num_experts f = Inr n" "0 \<le> n" and run: "run_tuna f works = (res, starts)"
  shows "(case res of
       Inr k \<Rightarrow> 0 \<le> k \<and> k \<le> n \<and> (\<exists>i < starts. works i k) \<and>
         (downward fits \<and> (\<forall>i. works i = fits) \<longrightarrow> (\<forall>k'. k < k' \<longrightarrow> k' \<le> n \<longrightarrow> \<not> fits k'))
     | Inl e \<Rightarrow> e = ValueError ''Minimum GPU memory requirements not met'' \<and> \<not> works (starts - 1) 0) \<and>
     starts \<le> bit_len (nat (n + 1)) + (if res \<in> Inr ` {0<..} then 0 else 1)"
proof -
  obtain r s where s: "search_experts works 0 n 0 0 = (r, s)" and find: "find_max_gpu_experts f works = (Inr r, s)"
    and r: "0 \<le> r" "r \<le> n" "r = 0 \<or> (\<exists>i < s. works i r)" "s \<le> bit_len (nat (n + 1))"
    by (rule found_experts [OF assms(1,2), where works = works])
  have largest: "\<not> fits k'" if "downward fits" "\<forall>i. works i = fits" "r < k'" "k' \<le> n" for k'
    using search_largest [OF window_start [THEN iffD2] that(1,2), of n 0] assms(2) s that(3,4) by (auto simp: largest_fit_def)
  show ?thesis
  proof (cases "r = 0")
    case True
    with run find r(2,4) largest show ?thesis by (cases "works s 0") (auto simp: run_tuna_def)
  next
    case False
    with run find r largest show ?thesis by (auto simp: run_tuna_def)
  qed
qed

theorem tuning_finds_largest_witness:
  "run_tuna (Config [(''n_routed_experts'', 64)]) (\<lambda>_ k. k \<le> 23) = (Inr 23, 6) \<and> (6::nat) \<le> 7"
proof -
  have cfg: "get_num_experts (Config [(''n_routed_experts'', 64)]) = Inr 64" by code_simp
  have run: "run_tuna (Config [(''n_routed_experts'', 64)]) (\<lambda>_ k. k \<le> 23) = (Inr 23, 6)" by code_simp
  have "bit_len (nat (64 + 1)) = 7" by code_simp
  with tuning_finds_largest [OF cfg _ run] run show ?thesis by (simp add: image_iff)
qed

text \<open>The bound is attained, and the number of steps that is printed is exceeded.\<close>

lemma one_start_more:
  "run_tuna (Config [(''num_experts'', 6)]) (\<lambda>_ _. False) = (Inl (ValueError ''Minimum GPU memory requirements not met''), 4)"
  "bit_len (nat (6 + 1)) = 3" "total_iterations 6 = Inr 3"
  "run_tuna (Config [(''num_experts'', 7)]) (\<lambda>_ _. True) = (Inr 7, 4)" "total_iterations 7 = Inr 3"
  by code_simp+

text \<open>
  The configuration of a model with both fields is searched up to the number of experts that are
  active for a token (\<open>num_experts_per_tok\<close>), not the number of experts of a layer: a server that
  works with every expert on the GPU is tuned to the few active ones.
\<close>

theorem tuning_stops_at_active_experts:
  assumes "dget config ''num_experts_per_tok'' = Some k" "0 \<le> k" "\<forall>i j. works i j"
  shows "fst (run_tuna (Config config) works) = Inr k"
proof -
  have cfg: "get_num_experts (Config config) = Inr k"
    using assms by (auto simp: get_num_experts_def expert_keys_def dget_Some_dmem)
  obtain r s where s: "search_experts works 0 k 0 0 = (r, s)" and find: "find_max_gpu_experts (Config config) works = (Inr r, s)"
    by (rule found_experts [OF cfg assms(2), where works = works])
  have "works = (\<lambda>_ _. True)" using assms(3) by (simp add: fun_eq_iff)
  then have "largest_fit (\<lambda>_. True) k r"
    using search_largest [OF window_start [THEN iffD2], of k "\<lambda>_. True" works 0] assms(2) s by (simp add: downward_def)
  then have "r = k" using assms(2) by (force simp: largest_fit_def)
  with find assms(3) show ?thesis by (simp add: run_tuna_def)
qed

theorem tuning_stops_at_active_experts_witness:
  "fst (run_tuna (Config [(''n_routed_experts'', 256), (''num_experts_per_tok'', 8)]) (\<lambda>_ _. True)) = Inr 8"
  by (rule tuning_stops_at_active_experts) simp_all

end
