(* ===== verification/Json.thy ===== *)
theory Json
  imports Prelude
begin

text \<open>
  JSON documents as Python sees them after \<open>json.load\<close>: values of the seven types, numbers compared
  by value whatever their type (\<open>True == 1 == 1.0\<close>), objects compared as dictionaries. A document
  that is written and read again has the same values of the same types (\<open>jsame\<close>); only the order in
  which an object lists its keys may change.
\<close>

section \<open>Values\<close>

text \<open>A finite float is its \<open>as_integer_ratio()\<close>: numerator and positive denominator in lowest terms.\<close>

type_synonym ratio = "int \<times> int"

datatype jvalue =
    VNull | VBool bool | VInt int | VFloat "ratio pyfloat" | VStr string | VList "jvalue list"
  | VObject "(string \<times> jvalue) list"

text \<open>\<open>d.get(key)\<close>, and \<open>==\<close> of a JSON value with an integer (\<open>True == 1\<close>, \<open>2.0 == 2\<close>).\<close>

definition obj_get :: "(string, jvalue) dict \<Rightarrow> string \<Rightarrow> jvalue" where
  "obj_get d key = (case dget d key of None \<Rightarrow> VNull | Some v \<Rightarrow> v)"

definition number_of :: "jvalue \<Rightarrow> ratio pyfloat option" where
  "number_of v =
     (case v of
        VInt n \<Rightarrow> Some (Finite (n, 1))
      | VBool b \<Rightarrow> Some (Finite (if b then 1 else 0, 1))
      | VFloat f \<Rightarrow> Some f
      | _ \<Rightarrow> None)"

definition equals_int :: "jvalue \<Rightarrow> int \<Rightarrow> bool" where
  "equals_int v n =
     (case v of
        VInt m \<Rightarrow> m = n
      | VBool b \<Rightarrow> n = (if b then 1 else 0)
      | VFloat (Finite q) \<Rightarrow> q = (n, 1)
      | _ \<Rightarrow> False)"

text \<open>\<open>v == w\<close>.\<close>

definition numbers_equal :: "jvalue \<Rightarrow> jvalue \<Rightarrow> bool" where
  "numbers_equal v w =
     (case (number_of v, number_of w) of (Some a, Some b) \<Rightarrow> feq a b | _ \<Rightarrow> False)"

fun jeq :: "jvalue \<Rightarrow> jvalue \<Rightarrow> bool"
  and jeq_list :: "jvalue list \<Rightarrow> jvalue list \<Rightarrow> bool"
  and jeq_fields :: "(string \<times> jvalue) list \<Rightarrow> (string, jvalue) dict \<Rightarrow> bool" where
  "jeq VNull w = (w = VNull)"
| "jeq (VStr s) w = (w = VStr s)"
| "jeq (VList xs) w = (case w of VList ys \<Rightarrow> jeq_list xs ys | _ \<Rightarrow> False)"
| "jeq (VObject d) w = (case w of VObject e \<Rightarrow> length d = length e \<and> jeq_fields d e | _ \<Rightarrow> False)"
| "jeq (VBool b) w = numbers_equal (VBool b) w"
| "jeq (VInt n) w = numbers_equal (VInt n) w"
| "jeq (VFloat f) w = numbers_equal (VFloat f) w"
| "jeq_list [] ys = (ys = [])"
| "jeq_list (x # xs) ys = (case ys of [] \<Rightarrow> False | y # ys' \<Rightarrow> jeq x y \<and> jeq_list xs ys')"
| "jeq_fields [] e = True"
| "jeq_fields ((k, v) # d) e =
     ((case dget e k of None \<Rightarrow> False | Some w \<Rightarrow> jeq v w) \<and> jeq_fields d e)"

text \<open>Well-formed values: the keys of every object are distinct and no number is \<open>nan\<close>.\<close>

fun jwf :: "jvalue \<Rightarrow> bool" where
  "jwf (VList xs) = list_all jwf xs"
| "jwf (VObject d) = (dwf d \<and> list_all (\<lambda>p. jwf (snd p)) d)"
| "jwf (VFloat f) = (f \<noteq> NaN)"
| "jwf v = True"

section \<open>The same document\<close>

fun jsame :: "jvalue \<Rightarrow> jvalue \<Rightarrow> bool"
  and jsame_list :: "jvalue list \<Rightarrow> jvalue list \<Rightarrow> bool"
  and jsame_fields :: "(string \<times> jvalue) list \<Rightarrow> (string, jvalue) dict \<Rightarrow> bool" where
  "jsame (VList xs) w = (case w of VList ys \<Rightarrow> jsame_list xs ys | _ \<Rightarrow> False)"
| "jsame (VObject d) w = (case w of VObject e \<Rightarrow> length d = length e \<and> jsame_fields d e | _ \<Rightarrow> False)"
| "jsame VNull w = (w = VNull)"
| "jsame (VBool b) w = (w = VBool b)"
| "jsame (VInt n) w = (w = VInt n)"
| "jsame (VFloat f) w = (w = VFloat f)"
| "jsame (VStr s) w = (w = VStr s)"
| "jsame_list [] ys = (ys = [])"
| "jsame_list (x # xs) ys = (case ys of [] \<Rightarrow> False | y # ys' \<Rightarrow> jsame x y \<and> jsame_list xs ys')"
| "jsame_fields [] e = True"
| "jsame_fields ((k, v) # d) e =
     ((case dget e k of None \<Rightarrow> False | Some w \<Rightarrow> jsame v w) \<and> jsame_fields d e)"

lemma feq_refl: "f \<noteq> NaN \<Longrightarrow> feq f f"
  by (cases f) auto

lemma jsame_jeq:
  "jsame v w \<Longrightarrow> jwf v \<Longrightarrow> jeq v w"
  "jsame_list xs ys \<Longrightarrow> list_all jwf xs \<Longrightarrow> jeq_list xs ys"
  "jsame_fields d e \<Longrightarrow> list_all (\<lambda>p. jwf (snd p)) d \<Longrightarrow> jeq_fields d e"
  by (induction v w and xs ys and d e rule: jsame_jsame_list_jsame_fields.induct)
    (auto simp: numbers_equal_def number_of_def feq_refl split: jvalue.splits list.splits option.splits)

lemma jsame_fields_iff:
  "jsame_fields d e \<longleftrightarrow> (\<forall>(k, v) \<in> set d. \<exists>w. dget e k = Some w \<and> jsame v w)"
  by (induction d) (auto split: option.splits)

lemma dget_mem: "dwf d \<Longrightarrow> (k, v) \<in> set d \<Longrightarrow> dget d k = Some v"
  by (simp add: dget_def dwf_def dkeys_def)

lemma jsame_refl: "jwf v \<Longrightarrow> jsame v v"
proof (induction v)
  case (VList xs)
  then have "jsame_list ys ys" if "set ys \<subseteq> set xs" for ys
    using that by (induction ys) (auto simp: list_all_iff)
  then show ?case by simp
next
  case (VObject d)
  have "jsame v v \<and> dget d k = Some v" if "(k, v) \<in> set d" for k v
    using VObject that by (fastforce simp: list_all_iff dget_mem Basic_BNFs.snds.simps)
  then show ?case by (auto simp: jsame_fields_iff)
qed auto

lemma jsame_fields_get:
  "jsame_fields d e \<Longrightarrow> dget d k = Some v \<Longrightarrow> \<exists>w. dget e k = Some w \<and> jsame v w"
  by (induction d) (auto split: option.splits if_splits)

lemma jsame_fields_keys: "jsame_fields d e \<Longrightarrow> set (dkeys d) \<subseteq> set (dkeys e)"
  by (induction d) (auto split: option.splits dest!: dget_Some_dmem simp: dmem_def)

lemma jsame_object:
  assumes "jsame (VObject d) (VObject e)" "dwf d" "dwf e"
  shows "set (dkeys e) = set (dkeys d)"
    "dget d k = Some v \<Longrightarrow> \<exists>w. dget e k = Some w \<and> jsame v w"
    "dget e k = Some w \<Longrightarrow> \<exists>v. dget d k = Some v \<and> jsame v w"
proof -
  have l: "length (dkeys d) = length (dkeys e)" and f: "jsame_fields d e" using assms(1) by (simp_all add: dkeys_def)
  show keys: "set (dkeys e) = set (dkeys d)"
  proof (rule card_subset_eq [symmetric])
    show "set (dkeys d) \<subseteq> set (dkeys e)" using jsame_fields_keys [OF f] .
    show "card (set (dkeys d)) = card (set (dkeys e))"
      using assms(2,3) l by (simp add: dwf_def distinct_card)
  qed simp
  show get: "dget d k = Some v \<Longrightarrow> \<exists>w. dget e k = Some w \<and> jsame v w" for k v by (rule jsame_fields_get [OF f])
  assume w: "dget e k = Some w"
  then have "dmem d k" using keys dget_Some_dmem by (fastforce simp: dmem_def)
  then obtain v where "dget d k = Some v" using dmem_dget by metis
  with get [OF this] w show "\<exists>v. dget d k = Some v \<and> jsame v w" by auto
qed

lemma jsame_object_cases: "jsame (VObject d) w \<Longrightarrow> \<exists>e. w = VObject e"
  by (cases w) auto

lemma jsame_list_nth: "jsame_list xs ys \<longleftrightarrow> length xs = length ys \<and> (\<forall>i < length xs. jsame (xs ! i) (ys ! i))"
proof (induction xs arbitrary: ys)
  case (Cons x xs)
  then show ?case by (cases ys) (auto simp: less_Suc_eq_0_disj)
qed auto

lemma jsame_sym: "jsame v w \<Longrightarrow> jwf v \<Longrightarrow> jwf w \<Longrightarrow> jsame w v"
proof (induction v arbitrary: w)
  case (VList xs)
  then obtain ys where w: "w = VList ys" "jsame_list xs ys" by (cases w) auto
  then show ?case
    using VList unfolding w(1) jsame.simps jvalue.case jsame_list_nth by (simp add: list_all_length)
next
  case (VObject d)
  then obtain e where w: "w = VObject e" "dwf d" "dwf e" by (cases w) auto
  have get: "dget d k = Some a \<Longrightarrow> a \<in> Basic_BNFs.snds (k, a) \<and> (k, a) \<in> set d" for k a
    by (auto simp: dget_def intro: map_of_SomeD)
  have "\<exists>a. dget d k = Some a \<and> jsame b a" if "(k, b) \<in> set e" for k b
  proof -
    have b: "dget e k = Some b" using dget_mem [OF w(3) that] .
    with jsame_object(3) [OF VObject.prems(1) [unfolded w(1)] w(2,3)] obtain a where a: "dget d k = Some a" "jsame a b" by blast
    have "jwf a" using get [OF a(1)] VObject.prems(2) by (auto simp: list_all_iff)
    moreover have "jwf b" using that VObject.prems(3) w(1) by (auto simp: list_all_iff)
    ultimately show ?thesis using VObject.IH get [OF a(1)] a by blast
  qed
  moreover have "length e = length d" using VObject.prems(1) w(1) by simp
  ultimately show ?case unfolding w(1) by (auto simp: jsame_fields_iff)
qed (case_tac w; auto)+

lemma jsame_jeq_sym: "jsame v w \<Longrightarrow> jwf v \<Longrightarrow> jwf w \<Longrightarrow> jeq w v"
  using jsame_sym jsame_jeq(1) by blast

text \<open>The fields the code reads with \<open>get\<close> are the same on both sides.\<close>

lemma jsame_get:
  "jsame (VObject d) (VObject e) \<Longrightarrow> dwf d \<Longrightarrow> dwf e \<Longrightarrow> jsame (obj_get d k) (obj_get e k)"
  using jsame_object [of d e] by (cases "dget d k"; cases "dget e k") (fastforce simp: obj_get_def)+

section \<open>Equality of field lists\<close>

lemma jeq_fields_iff:
  "jeq_fields d e \<longleftrightarrow> (\<forall>(k, v) \<in> set d. \<exists>w. dget e k = Some w \<and> jeq v w)"
  by (induction d) (auto split: option.splits)

lemma jeq_Str [simp]: "jeq v (VStr s) \<longleftrightarrow> v = VStr s"
  by (cases v) (auto simp: numbers_equal_def number_of_def split: option.split)

end
