(* ===== verification/WeightManifest.thy ===== *)
theory WeightManifest
  imports Ephemeral Json
begin

text \<open>
  \<open>kt-kernel/python/sft/weight_manifest.py\<close>: a tree of pre-quantised INT8 expert weights is
  checked against its manifest before the kernels read it. The file system is a \<open>FileTree\<close>; the JSON
  decoder, the SHA-256 digest of a content and the access rights of the process are the parameters of
  \<open>reader\<close>. Names and digit strings are ASCII.
\<close>

section \<open>JSON values\<close>

definition positive_int :: "jvalue \<Rightarrow> int result" where
  "positive_int v =
     (case v of
        VInt n \<Rightarrow> (if 0 < n then Inr n else Inl (ValueError ''must be a positive integer''))
      | _ \<Rightarrow> Inl (ValueError ''must be a positive integer''))"

definition nonnegative_int :: "jvalue \<Rightarrow> int result" where
  "nonnegative_int v =
     (case v of
        VInt n \<Rightarrow> (if 0 \<le> n then Inr n else Inl (ValueError ''must be a non-negative integer''))
      | _ \<Rightarrow> Inl (ValueError ''must be a non-negative integer''))"

text \<open>\<open>str(v).strip().lower()\<close> as far as a comparison with a word can tell: only a string prints as one.\<close>

definition word_of :: "jvalue \<Rightarrow> string" where
  "word_of v = (case v of VStr s \<Rightarrow> lower (strip s) | _ \<Rightarrow> [])"

record 'c reader =
  rd_json :: "'c \<Rightarrow> jvalue option"
  rd_sha256 :: "'c \<Rightarrow> string"
  rd_readable :: "path \<Rightarrow> bool"

section \<open>Root and manifest\<close>

definition weight_manifest_name :: string where
  "weight_manifest_name = ''kt-weight-manifest.json''"

definition legacy_manifest_name :: string where
  "legacy_manifest_name = ''kt-ephemeral-manifest.json''"

definition int8_weight_layout :: string where
  "int8_weight_layout = ''kt-int8-n32-k64-vnni-v1''"

definition dir_at :: "'c tree \<Rightarrow> path \<Rightarrow> bool" where
  "dir_at fs p = (resolve fs p = [] \<or> is_dir fs p)"

definition resolve_root :: "'c tree \<Rightarrow> string \<Rightarrow> path result" where
  "resolve_root fs root =
     (let p = path_parts root in
      if \<not> is_absolute root then Inl (ValueError ''root must be an absolute path'')
      else if p \<noteq> [] \<and> is_link fs p then Inl (ValueError ''root must not be a symlink'')
      else if resolve fs p \<noteq> [] \<and> \<not> path_exists fs p then Inl (FileNotFoundError ''root'')
      else if \<not> dir_at fs p then Inl (ValueError ''root must be a directory'')
      else Inr (resolve fs p))"

definition load_manifest :: "'c reader \<Rightarrow> 'c tree \<Rightarrow> path \<Rightarrow> (string \<times> (string, jvalue) dict \<times> int) result" where
  "load_manifest rd fs root =
     (case filter (\<lambda>name. path_exists fs (root @ [name]) \<or> is_link fs (root @ [name]))
             [weight_manifest_name, legacy_manifest_name] of
        [name] \<Rightarrow>
          (if is_link fs (root @ [name]) then Inl (ValueError ''manifest must be a regular file'')
           else case stat fs (root @ [name]) of
             Some (File _ c) \<Rightarrow>
               (case rd_json rd c of
                  None \<Rightarrow> Inl (ValueError ''cannot read INT8 manifest'')
                | Some (VObject manifest) \<Rightarrow>
                    (case obj_get manifest ''schema_version'' of
                       VInt version \<Rightarrow>
                         (if version \<notin> {1, 2} then Inl (ValueError ''unsupported schema_version'')
                          else if version = 1 \<and> name \<noteq> legacy_manifest_name
                          then Inl (ValueError ''schema-1 manifests must use the legacy name'')
                          else if version = 2 \<and> name \<noteq> weight_manifest_name
                          then Inl (ValueError ''schema-2 manifests must use the name of the format'')
                          else Inr (name, manifest, version))
                     | _ \<Rightarrow> Inl (ValueError ''unsupported schema_version''))
                | Some _ \<Rightarrow> Inl (ValueError ''manifest root must be a JSON object''))
           | _ \<Rightarrow> Inl (ValueError ''manifest must be a regular file''))
      | _ \<Rightarrow> Inl (ValueError ''exactly one manifest''))"

section \<open>The files of a layer\<close>

record geometry =
  g_numa_count :: int
  g_expert_num :: int
  g_hidden_size :: int
  g_intermediate_size :: int

text \<open>Projection, expert, encoded size and kind of \<open>_KT_FILE_RE\<close>; the NUMA node of \<open>_numa_<n>\<close>.\<close>

definition kt_name_groups :: "string \<Rightarrow> (string \<times> nat \<times> nat \<times> string) option" where
  "kt_name_groups name =
     Option.bind (split_kt_name name) (\<lambda>(proj, expert, encoded, kind).
     if encoded \<noteq> [] \<and> list_all is_digit encoded then Some (proj, the (parse_nat expert), the (parse_nat encoded), kind) else None)"

definition numa_of :: "string \<Rightarrow> nat option" where
  "numa_of part =
     Option.bind (strip_prefix ''_numa_'' part) (\<lambda>s. if s \<noteq> [] \<and> list_all is_digit s then parse_nat s else None)"

definition projection_size :: "geometry \<Rightarrow> string \<Rightarrow> string \<Rightarrow> int" where
  "projection_size g proj kind =
     (let per_numa = g_intermediate_size g div g_numa_count g in
      if kind = ''quant'' then g_hidden_size g * per_numa
      else if proj = ''down'' then g_hidden_size g * 4
      else per_numa * 4)"

definition sha256_text :: "string \<Rightarrow> bool" where
  "sha256_text s \<longleftrightarrow> length s = 64 \<and> list_all (\<lambda>c. is_digit c \<or> (CHR ''a'' \<le> c \<and> c \<le> CHR ''f'')) s"

fun entry_sizes :: "'c tree \<Rightarrow> path \<Rightarrow> path \<Rightarrow> string list \<Rightarrow> (string, int) dict \<Rightarrow> (string, int) dict result" where
  "entry_sizes fs root dir [] sizes = Inr sizes"
| "entry_sizes fs root dir (name # names) sizes =
     (case lstat fs (root @ dir @ [name]) of
        Some (File n _) \<Rightarrow> entry_sizes fs root dir names (dset sizes (join_path (dir @ [name])) n)
      | _ \<Rightarrow> Inl (ValueError ''unexpected non-regular INT8 entry''))"

fun numa_sizes :: "'c tree \<Rightarrow> path \<Rightarrow> int \<Rightarrow> int list \<Rightarrow> (string, int) dict \<Rightarrow> (string, int) dict result" where
  "numa_sizes fs root layer [] sizes = Inr sizes"
| "numa_sizes fs root layer (k # ks) sizes =
     rbind (entry_sizes fs root [layer_name layer, numa_name k] (iterdir fs (root @ [layer_name layer, numa_name k])) sizes)
       (\<lambda>sizes'. numa_sizes fs root layer ks sizes')"

section \<open>Checking a layer\<close>

record checked =
  ck_paths :: "string list"
  ck_identities :: "identity list"
  ck_bytes :: int

definition check_hash :: "'c reader \<Rightarrow> 'c tree \<Rightarrow> path \<Rightarrow> int \<Rightarrow> bool \<Rightarrow> jvalue \<Rightarrow> unit result" where
  "check_hash rd fs p version verify expected =
     (if 2 \<le> version \<and> (case expected of VStr s \<Rightarrow> \<not> sha256_text s | _ \<Rightarrow> True)
      then Inl (ValueError ''requires a lowercase SHA256 digest'')
      else if \<not> verify then Inr ()
      else case expected of
             VStr s \<Rightarrow>
               (case stat fs p of
                  Some (File _ c) \<Rightarrow> require (rd_sha256 rd c = s) (ValueError ''SHA256 mismatch'')
                | _ \<Rightarrow> Inl (OSError ''cannot read''))
           | _ \<Rightarrow> Inl (ValueError ''full hash verification is unavailable''))"

definition parse_relative :: "geometry \<Rightarrow> int \<Rightarrow> string \<Rightarrow> (identity \<times> nat) result" where
  "parse_relative g layer relative =
     (let parts = path_parts relative in
      if is_absolute relative \<or> ''..'' \<in> set parts then Inl (ValueError ''unsafe manifest path'')
      else case parts of
        [layer_part, numa_part, file_part] \<Rightarrow>
          (if layer_part \<noteq> layer_name layer then Inl (ValueError ''manifest path is outside layer'')
           else case numa_of numa_part of
             None \<Rightarrow> Inl (ValueError ''invalid NUMA path'')
           | Some numa \<Rightarrow>
               (if \<not> int numa < g_numa_count g then Inl (ValueError ''out-of-range NUMA index'')
                else case kt_name_groups file_part of
                  None \<Rightarrow> Inl (ValueError ''unexpected .kt filename'')
                | Some (proj, expert, encoded, kind) \<Rightarrow>
                    (if \<not> int expert < g_expert_num g then Inl (ValueError ''out-of-range expert'')
                     else Inr ((int numa, proj, expert, kind), encoded))))
      | _ \<Rightarrow> Inl (ValueError ''unexpected manifest path depth''))"

definition check_item ::
  "'c reader \<Rightarrow> 'c tree \<Rightarrow> path \<Rightarrow> int \<Rightarrow> int \<Rightarrow> geometry \<Rightarrow> bool \<Rightarrow> (string, int) dict \<Rightarrow> jvalue \<Rightarrow> checked \<Rightarrow> checked result" where
  "check_item rd fs root layer version g verify sizes item ck =
     (case item of
        VObject obj \<Rightarrow>
          (case obj_get obj ''path'' of
             VStr relative \<Rightarrow>
               (if relative \<in> set (ck_paths ck) then Inl (ValueError ''invalid or duplicate path'')
                else rbind (parse_relative g layer relative) (\<lambda>(identity, encoded).
                let p = root @ path_parts relative;
                    contract = projection_size g (fst (snd identity)) (snd (snd (snd identity))) in
                if identity \<in> set (ck_identities ck) then Inl (ValueError ''duplicate INT8 file identity'')
                else case dget sizes relative of
                  None \<Rightarrow> Inl (ValueError ''missing or unsafe manifest file'')
                | Some observed \<Rightarrow>
                    (if \<not> rd_readable rd p then Inl (PermissionError ''not readable'')
                     else rbind (positive_int (obj_get obj ''size_bytes'')) (\<lambda>expected.
                     if int encoded \<noteq> contract \<or> expected \<noteq> contract then Inl (ValueError ''size contract mismatch'')
                     else if observed \<noteq> expected then Inl (ValueError ''manifest size mismatch'')
                     else rbind (check_hash rd fs p version verify (obj_get obj ''sha256'')) (\<lambda>_.
                     Inr \<lparr>ck_paths = ck_paths ck @ [relative], ck_identities = ck_identities ck @ [identity],
                          ck_bytes = ck_bytes ck + observed\<rparr>)))))
           | _ \<Rightarrow> Inl (ValueError ''invalid or duplicate path''))
      | _ \<Rightarrow> Inl (ValueError ''non-object file entry''))"

fun check_items ::
  "'c reader \<Rightarrow> 'c tree \<Rightarrow> path \<Rightarrow> int \<Rightarrow> int \<Rightarrow> geometry \<Rightarrow> bool \<Rightarrow> (string, int) dict \<Rightarrow> jvalue list \<Rightarrow> checked \<Rightarrow> checked result" where
  "check_items rd fs root layer version g verify sizes [] ck = Inr ck"
| "check_items rd fs root layer version g verify sizes (item # items) ck =
     rbind (check_item rd fs root layer version g verify sizes item ck) (\<lambda>ck'.
     check_items rd fs root layer version g verify sizes items ck')"

definition check_files_of ::
  "'c reader \<Rightarrow> 'c tree \<Rightarrow> path \<Rightarrow> int \<Rightarrow> int \<Rightarrow> geometry \<Rightarrow> bool \<Rightarrow> (string, jvalue) dict \<Rightarrow> (int \<times> int) result" where
  "check_files_of rd fs root layer version g verify obj =
     (let numas = [0..g_numa_count g - 1] in
      rbind (numa_sizes fs root layer numas []) (\<lambda>sizes.
      case obj_get obj ''files'' of
        VList files \<Rightarrow>
          (if int (length files) \<noteq> g_numa_count g * g_expert_num g * 3 * 2 then Inl (ValueError ''must list exactly the files'')
           else rbind (check_items rd fs root layer version g verify sizes files
                         \<lparr>ck_paths = [], ck_identities = [], ck_bytes = 0\<rparr>) (\<lambda>ck.
           if set (ck_identities ck) \<noteq> set (identity_list (g_numa_count g) (g_expert_num g))
           then Inl (ValueError ''file inventory is incomplete'')
           else if set (dkeys sizes) \<noteq> set (ck_paths ck) then Inl (ValueError ''file set differs from manifest'')
           else rbind (positive_int (obj_get obj ''bytes'')) (\<lambda>bytes.
           if ck_bytes ck \<noteq> bytes then Inl (ValueError ''byte total mismatch'')
           else Inr (int (length files), ck_bytes ck))))
      | _ \<Rightarrow> Inl (ValueError ''must list exactly the files'')))"

definition validate_layer ::
  "'c reader \<Rightarrow> 'c tree \<Rightarrow> path \<Rightarrow> int \<Rightarrow> geometry \<Rightarrow> bool \<Rightarrow> jvalue \<Rightarrow> (int \<times> int) result" where
  "validate_layer rd fs root version g verify entry =
     (case entry of
        VObject obj \<Rightarrow>
          rbind (nonnegative_int (obj_get obj ''index'')) (\<lambda>layer.
          rbind (require (obj_get obj ''state'' = VStr ''ready'') (ValueError ''must be in state ready'')) (\<lambda>_.
          rbind (positive_int (obj_get obj ''numa_count'')) (\<lambda>numa_count.
          if numa_count \<noteq> g_numa_count g then Inl (ValueError ''NUMA count mismatch'')
          else
            (let dir = root @ [layer_name layer]; entries = iterdir fs dir in
             if is_link fs dir \<or> \<not> is_dir fs dir then Inl (ValueError ''missing or unsafe layer directory'')
             else if list_ex (\<lambda>c. is_link fs (dir @ [c]) \<or> \<not> is_dir fs (dir @ [c])) entries
             then Inl (ValueError ''entries outside NUMA directories'')
             else if set entries \<noteq> set (map numa_name [0..g_numa_count g - 1])
             then Inl (ValueError ''NUMA directories mismatch'')
             else check_files_of rd fs root layer version g verify obj))))
      | _ \<Rightarrow> Inl (ValueError ''layer entries must be JSON objects''))"

fun validate_all ::
  "'c reader \<Rightarrow> 'c tree \<Rightarrow> path \<Rightarrow> int \<Rightarrow> geometry \<Rightarrow> bool \<Rightarrow> jvalue list \<Rightarrow> (int \<times> int) result" where
  "validate_all rd fs root version g verify [] = Inr (0, 0)"
| "validate_all rd fs root version g verify (l # ls) =
     rbind (validate_layer rd fs root version g verify l) (\<lambda>(n, b).
     rbind (validate_all rd fs root version g verify ls) (\<lambda>(ns, bs). Inr (n + ns, b + bs)))"

section \<open>Checking the tree\<close>

record validated =
  vm_root :: path
  vm_path :: path
  vm_schema_version :: int
  vm_layout :: string
  vm_layers :: "int list"
  vm_file_count :: int
  vm_size_bytes :: int

definition layout_of :: "int \<Rightarrow> (string, jvalue) dict \<Rightarrow> string result" where
  "layout_of version manifest =
     (if version = 1 then
        (if word_of (obj_get manifest ''backend'') \<notin> {''amxint8'', ''int8''}
         then Inl (ValueError ''legacy schema-1 manifest backend'') else Inr int8_weight_layout)
      else if obj_get manifest ''layout'' \<noteq> VStr int8_weight_layout then Inl (ValueError ''manifest layout mismatch'')
      else if dmem manifest ''backend'' \<and> word_of (obj_get manifest ''backend'') \<notin> {''auto'', ''int8''}
      then Inl (ValueError ''schema-2 manifest backend must be hardware-neutral'')
      else Inr int8_weight_layout)"

definition layer_index :: "jvalue \<Rightarrow> int result" where
  "layer_index l =
     (case l of
        VObject obj \<Rightarrow> nonnegative_int (obj_get obj ''index'')
      | _ \<Rightarrow> Inl (ValueError ''layers must contain objects''))"

fun layer_indices :: "jvalue list \<Rightarrow> int list result" where
  "layer_indices [] = Inr []"
| "layer_indices (l # ls) = rbind (layer_index l) (\<lambda>i. rbind (layer_indices ls) (\<lambda>is. Inr (i # is)))"

definition geometry_matches :: "geometry \<Rightarrow> (string, jvalue) dict \<Rightarrow> bool" where
  "geometry_matches g manifest \<longleftrightarrow>
     obj_get manifest ''state'' = VStr ''ready'' \<and> obj_get manifest ''expert_weight_format'' = VStr ''int8'' \<and>
     equals_int (obj_get manifest ''threadpool_count'') (g_numa_count g) \<and>
     equals_int (obj_get manifest ''expert_num'') (g_expert_num g) \<and>
     equals_int (obj_get manifest ''hidden_size'') (g_hidden_size g) \<and>
     equals_int (obj_get manifest ''intermediate_size'') (g_intermediate_size g)"

definition validate_persistent_int8_weights ::
  "'c reader \<Rightarrow> 'c tree \<Rightarrow> string \<Rightarrow> int list \<Rightarrow> geometry \<Rightarrow> bool option \<Rightarrow> validated result" where
  "validate_persistent_int8_weights rd fs root indices g verify_hashes =
     (let expected = sort (remdups indices) in
      rbind (require (0 < g_numa_count g \<and> 0 < g_expert_num g \<and> 0 < g_hidden_size g \<and> 0 < g_intermediate_size g)
               (ValueError ''must be a positive integer'')) (\<lambda>_.
      rbind (require (g_intermediate_size g mod g_numa_count g = 0) (ValueError ''must be divisible'')) (\<lambda>_.
      rbind (require (expected \<noteq> [] \<and> list_all (\<lambda>i. 0 \<le> i) expected) (ValueError ''non-negative layer indices'')) (\<lambda>_.
      rbind (resolve_root fs root) (\<lambda>r.
      rbind (load_manifest rd fs r) (\<lambda>(name, manifest, version).
      let verify = (case verify_hashes of None \<Rightarrow> 2 \<le> version | Some b \<Rightarrow> b) in
      rbind (require (geometry_matches g manifest) (ValueError ''manifest mismatch'')) (\<lambda>_.
      rbind (layout_of version manifest) (\<lambda>layout.
      case obj_get manifest ''layers'' of
        VList layers \<Rightarrow>
          rbind (layer_indices layers) (\<lambda>actual.
          rbind (require (distinct actual) (ValueError ''duplicate layer indices'')) (\<lambda>_.
          rbind (require (sort actual = expected) (ValueError ''layer set mismatch'')) (\<lambda>_.
          rbind (validate_all rd fs r version g verify layers) (\<lambda>(file_count, size_bytes).
          rbind (positive_int (obj_get manifest ''bytes'')) (\<lambda>bytes.
          rbind (require (size_bytes = bytes) (ValueError ''manifest byte total mismatch'')) (\<lambda>_.
          rbind (require (\<not> list_ex (\<lambda>c. is_link fs (r @ [c])) (iterdir fs r)) (ValueError ''root must not contain symlinks'')) (\<lambda>_.
          rbind (require (set (iterdir fs r) = set (name # map layer_name expected)) (ValueError ''root entries differ'')) (\<lambda>_.
          Inr \<lparr>vm_root = r, vm_path = r @ [name], vm_schema_version = version, vm_layout = layout,
               vm_layers = expected, vm_file_count = file_count, vm_size_bytes = size_bytes\<rparr>))))))))
      | _ \<Rightarrow> Inl (ValueError ''manifest layers must be a list'')))))))))"

end
