(* ===== verification/WeightManifestSound.thy ===== *)
theory WeightManifestSound
  imports WeightManifest EphemeralPublish
begin

text \<open>
  What acceptance by \<open>validate_persistent_int8_weights\<close> means: below the root there is nothing but
  the manifest and, for every expected layer, one directory for each NUMA node with exactly one file for
  each projection, expert and kind, of the size the kernels read.
\<close>

section \<open>Physical paths\<close>

lemma resolve_entry:
  assumes "tree_wf fs" "dget fs r = Some n" "\<forall>t. n \<noteq> Link t"
  shows "resolve fs r = r"
proof -
  have ne: "r \<noteq> []" using assms(1,2) by (auto simp: tree_wf_def)
  have "resolve fs r = canon_from fs (resolve fs (butlast r)) [last r]"
    unfolding resolve_def using ne by (metis append_butlast_last_id canon_from_append)
  also have "\<dots> = canon_from fs (butlast r) [last r]"
    by (simp add: resolve_parent [OF assms(1) dget_Some_dmem [OF assms(2)]])
  also have "\<dots> = r"
    using ne assms(2,3) by (cases n) (simp_all add: link_target_def)
  finally show ?thesis .
qed

lemma resolve_child:
  assumes "resolve fs d = d"
  shows "resolve fs (d @ [c]) = (case link_target fs (d @ [c]) of Some t \<Rightarrow> t | None \<Rightarrow> d @ [c])"
  using assms by (simp add: resolve_def canon_from_append split: option.split)

lemma lstat_child: "resolve fs d = d \<Longrightarrow> lstat fs (d @ [c]) = dget fs (d @ [c])"
  by (simp add: lstat_def phys_def)

lemma real_dir:
  assumes "resolve fs d = d" "\<not> is_link fs (d @ [c])" "is_dir fs (d @ [c])"
  shows "(\<exists>u w. dget fs (d @ [c]) = Some (Dir u w)) \<and> resolve fs (d @ [c]) = d @ [c]"
proof -
  have "link_target fs (d @ [c]) = None"
    using assms(1,2) by (auto simp: is_link_def lstat_child link_target_def split: option.splits node.splits)
  then have "resolve fs (d @ [c]) = d @ [c]" using resolve_child [OF assms(1)] by simp
  with assms(3) show ?thesis by (auto simp: is_dir_def stat_def split: option.splits node.splits)
qed

section \<open>Names\<close>

lemma str_of_int_digits: "0 \<le> k \<Longrightarrow> str_of_int k = digits (nat k)"
  by (simp add: str_of_int_def)

lemma names_inj [simp]: "layer_name a = layer_name b \<longleftrightarrow> a = b" "numa_name a = numa_name b \<longleftrightarrow> a = b"
  by (simp_all add: layer_name_def numa_name_def str_of_int_inj)

lemma numa_of_name: "0 \<le> k \<Longrightarrow> numa_of (numa_name k) = Some (nat k)"
  using digits_are_digits [of "nat k"] digits_nonempty [of "nat k"] parse_nat_digits [of "nat k"]
  by (simp add: numa_of_def numa_name_def str_of_int_digits strip_prefix_def list_all_iff is_digit_def)

section \<open>The sizes found in the tree\<close>

definition entry_path :: "int \<Rightarrow> int \<Rightarrow> string \<Rightarrow> string" where
  "entry_path i k c = join_path [layer_name i, numa_name k, c]"

lemma entry_path_inj:
  "entry_name c \<Longrightarrow> entry_name c' \<Longrightarrow> entry_path i k c = entry_path i' k' c' \<longleftrightarrow> i = i' \<and> k = k' \<and> c = c'"
  unfolding entry_path_def by (subst join_path_inj) auto

lemma entry_sizes_dget:
  "entry_sizes fs r dir names sizes = Inr sizes' \<Longrightarrow>
     (\<forall>c \<in> set names. \<exists>n d. lstat fs (r @ dir @ [c]) = Some (File n d)) \<and>
     (dget sizes' rel = Some n \<longleftrightarrow>
        (\<exists>c \<in> set names. rel = join_path (dir @ [c]) \<and> (\<exists>d. lstat fs (r @ dir @ [c]) = Some (File n d))) \<or>
        dget sizes rel = Some n \<and> (\<forall>c \<in> set names. rel \<noteq> join_path (dir @ [c])))"
  if "\<forall>c \<in> set names. entry_name c" "\<forall>c \<in> set dir. entry_name c"
  using that(1)
proof (induction names arbitrary: sizes)
  case (Cons c names)
  from Cons.prems(1) obtain m d where reg: "lstat fs (r @ dir @ [c]) = Some (File m d)"
    and rest: "entry_sizes fs r dir names (dset sizes (join_path (dir @ [c])) m) = Inr sizes'"
    by (auto split: option.splits node.splits)
  have inj: "join_path (dir @ [c]) = join_path (dir @ [c']) \<longleftrightarrow> c = c'" if "c' \<in> set (c # names)" for c'
    using that Cons.prems(2) \<open>\<forall>c \<in> set dir. entry_name c\<close> by (subst join_path_inj) auto
  show ?case
  proof (cases "rel = join_path (dir @ [c])")
    case True
    then have eq: "rel = join_path (dir @ [c']) \<longleftrightarrow> c = c'" if "c' \<in> set (c # names)" for c' using inj [OF that] by simp
    have "(\<exists>c' \<in> set (c # names). rel = join_path (dir @ [c']) \<and> (\<exists>d. lstat fs (r @ dir @ [c']) = Some (File n d))) \<longleftrightarrow> m = n"
      using eq reg by fastforce
    moreover have "(\<exists>c' \<in> set names. rel = join_path (dir @ [c']) \<and> (\<exists>d. lstat fs (r @ dir @ [c']) = Some (File n d))) \<longleftrightarrow>
        c \<in> set names \<and> m = n"
      using eq reg by fastforce
    moreover have "(\<forall>c' \<in> set names. rel \<noteq> join_path (dir @ [c'])) \<longleftrightarrow> c \<notin> set names" using eq by auto
    ultimately show ?thesis using Cons.IH [OF rest] Cons.prems(2) reg True by auto
  next
    case False
    then show ?thesis using Cons.IH [OF rest] Cons.prems(2) reg by auto
  qed
qed simp

lemma numa_sizes_dget:
  assumes "\<forall>k \<in> set ks. \<forall>c \<in> set (iterdir fs (r @ [layer_name i, numa_name k])). entry_name c"
  shows "numa_sizes fs r i ks sizes = Inr sizes' \<Longrightarrow>
     (\<forall>k \<in> set ks. \<forall>c \<in> set (iterdir fs (r @ [layer_name i, numa_name k])).
        \<exists>n d. lstat fs (r @ [layer_name i, numa_name k, c]) = Some (File n d)) \<and>
     (dget sizes' rel = Some n \<longleftrightarrow>
        (\<exists>k \<in> set ks. \<exists>c \<in> set (iterdir fs (r @ [layer_name i, numa_name k])).
           rel = entry_path i k c \<and> (\<exists>d. lstat fs (r @ [layer_name i, numa_name k, c]) = Some (File n d))) \<or>
        dget sizes rel = Some n \<and>
          (\<forall>k \<in> set ks. \<forall>c \<in> set (iterdir fs (r @ [layer_name i, numa_name k])). rel \<noteq> entry_path i k c))"
  using assms
proof (induction ks arbitrary: sizes)
  case (Cons k ks)
  let ?names = "\<lambda>k. iterdir fs (r @ [layer_name i, numa_name k])"
  from Cons.prems(1) obtain mid where
    mid: "entry_sizes fs r [layer_name i, numa_name k] (?names k) sizes = Inr mid" and
    rest: "numa_sizes fs r i ks mid = Inr sizes'" by (auto simp del: entry_sizes.simps)
  have head: "(\<forall>c \<in> set (?names k). \<exists>n d. lstat fs (r @ [layer_name i, numa_name k, c]) = Some (File n d)) \<and>
     (dget mid rel = Some n \<longleftrightarrow>
        (\<exists>c \<in> set (?names k). rel = entry_path i k c \<and> (\<exists>d. lstat fs (r @ [layer_name i, numa_name k, c]) = Some (File n d))) \<or>
        dget sizes rel = Some n \<and> (\<forall>c \<in> set (?names k). rel \<noteq> entry_path i k c))" for rel n
    using entry_sizes_dget [OF _ _ mid, of rel n] Cons.prems(2) by (simp add: entry_path_def del: join_path.simps)
  show ?case
  proof (cases "\<exists>k' \<in> set ks. \<exists>c \<in> set (?names k'). rel = entry_path i k' c")
    case False
    with Cons.IH [OF rest] head [of rel n] Cons.prems(2) show ?thesis by auto
  next
    case True
    then obtain k' c where here: "k' \<in> set ks" "c \<in> set (?names k')" "rel = entry_path i k' c" by blast
    have same: "k'' = k' \<and> c'' = c" if "k'' \<in> set (k # ks)" "c'' \<in> set (?names k'')" "rel = entry_path i k'' c''" for k'' c''
      using that here Cons.prems(2) entry_path_inj by (metis list.set_intros(2))
    let ?P = "\<exists>d. lstat fs (r @ [layer_name i, numa_name k', c]) = Some (File n d)"
    have any: "(\<exists>k'' \<in> set S. \<exists>c'' \<in> set (?names k''). rel = entry_path i k'' c'' \<and>
        (\<exists>d. lstat fs (r @ [layer_name i, numa_name k'', c'']) = Some (File n d))) \<longleftrightarrow> ?P"
      if S: "set S \<subseteq> set (k # ks)" "k' \<in> set S" for S
    proof
      assume "\<exists>k'' \<in> set S. \<exists>c'' \<in> set (?names k''). rel = entry_path i k'' c'' \<and>
        (\<exists>d. lstat fs (r @ [layer_name i, numa_name k'', c'']) = Some (File n d))"
      then obtain k'' c'' where f: "k'' \<in> set S" "c'' \<in> set (?names k'')" "rel = entry_path i k'' c''"
        "\<exists>d. lstat fs (r @ [layer_name i, numa_name k'', c'']) = Some (File n d)" by blast
      with same [OF _ f(2,3)] S(1) have "k'' = k'" "c'' = c" by blast+
      with f(4) show ?P by simp
    qed (use here S in blast)
    have "dget sizes' rel = Some n \<longleftrightarrow> ?P"
      using Cons.IH [OF rest] Cons.prems(2) any [of ks] here True by (simp add: set_subset_Cons) blast
    moreover have "\<not> (\<forall>k'' \<in> set (k # ks). \<forall>c'' \<in> set (?names k''). rel \<noteq> entry_path i k'' c'')" using here by auto
    ultimately show ?thesis
      using Cons.IH [OF rest] Cons.prems(2) any [of "k # ks"] here(1) head [of rel n] by (simp only:) auto
  qed
qed simp

section \<open>The listed files\<close>

definition size_of :: "geometry \<Rightarrow> identity \<Rightarrow> int" where
  "size_of g idn = projection_size g (fst (snd idn)) (snd (snd (snd idn)))"

definition listed :: "geometry \<Rightarrow> int \<Rightarrow> (string, int) dict \<Rightarrow> string \<Rightarrow> identity \<Rightarrow> bool" where
  "listed g i sizes rel idn \<longleftrightarrow>
     (\<exists>enc. parse_relative g i rel = Inr (idn, enc) \<and> int enc = size_of g idn) \<and> dget sizes rel = Some (size_of g idn)"

lemma check_item_Inr:
  assumes "check_item rd fs r i version g verify sizes item ck = Inr ck'"
  shows "\<exists>rel idn. ck' = \<lparr>ck_paths = ck_paths ck @ [rel], ck_identities = ck_identities ck @ [idn],
      ck_bytes = ck_bytes ck + size_of g idn\<rparr> \<and>
    rel \<notin> set (ck_paths ck) \<and> idn \<notin> set (ck_identities ck) \<and> listed g i sizes rel idn"
proof -
  obtain obj rel where obj: "item = VObject obj" "obj_get obj ''path'' = VStr rel" "rel \<notin> set (ck_paths ck)"
    using assms by (auto simp: check_item_def split: jvalue.splits if_splits)
  then obtain idn enc where pr: "parse_relative g i rel = Inr (idn, enc)"
    using assms by (auto simp: check_item_def)
  then have "idn \<notin> set (ck_identities ck)" "dget sizes rel = Some (size_of g idn)" "int enc = size_of g idn"
    "ck' = \<lparr>ck_paths = ck_paths ck @ [rel], ck_identities = ck_identities ck @ [idn], ck_bytes = ck_bytes ck + size_of g idn\<rparr>"
    using assms obj by (auto simp: check_item_def size_of_def Let_def split: if_splits option.splits)
  with obj(3) pr show ?thesis unfolding listed_def by blast
qed

lemma check_items_Inr:
  "check_items rd fs r i version g verify sizes items ck = Inr ck' \<Longrightarrow>
     \<exists>rels ids. ck' = \<lparr>ck_paths = ck_paths ck @ rels, ck_identities = ck_identities ck @ ids,
         ck_bytes = ck_bytes ck + sum_list (map (size_of g) ids)\<rparr> \<and>
       list_all2 (listed g i sizes) rels ids \<and>
       (distinct (ck_paths ck) \<longrightarrow> distinct (ck_paths ck @ rels)) \<and>
       (distinct (ck_identities ck) \<longrightarrow> distinct (ck_identities ck @ ids))"
proof (induction items arbitrary: ck)
  case Nil
  then show ?case by (intro exI [of _ "[]"]) simp
next
  case (Cons item items)
  then obtain ck1 where one: "check_item rd fs r i version g verify sizes item ck = Inr ck1"
    and rest: "check_items rd fs r i version g verify sizes items ck1 = Inr ck'" by auto
  obtain rel idn where step: "ck1 = \<lparr>ck_paths = ck_paths ck @ [rel], ck_identities = ck_identities ck @ [idn],
      ck_bytes = ck_bytes ck + size_of g idn\<rparr>"
    "rel \<notin> set (ck_paths ck)" "idn \<notin> set (ck_identities ck)" "listed g i sizes rel idn"
    using check_item_Inr [OF one] by blast
  from Cons.IH [OF rest] obtain rels ids where tail:
    "ck' = \<lparr>ck_paths = ck_paths ck1 @ rels, ck_identities = ck_identities ck1 @ ids,
        ck_bytes = ck_bytes ck1 + sum_list (map (size_of g) ids)\<rparr>"
    "list_all2 (listed g i sizes) rels ids"
    "distinct (ck_paths ck1) \<longrightarrow> distinct (ck_paths ck1 @ rels)"
    "distinct (ck_identities ck1) \<longrightarrow> distinct (ck_identities ck1 @ ids)" by blast
  show ?case
    by (rule exI [of _ "rel # rels"], rule exI [of _ "idn # ids"]) (use step tail in auto)
qed

lemma parse_entry_path:
  assumes "entry_name c" "0 \<le> k" "parse_relative g i (entry_path i k c) = Inr (idn, enc)"
  shows "\<exists>proj e kind. idn = (k, proj, e, kind) \<and> kt_name_groups c = Some (proj, e, enc, kind)"
  using assms(3)
  by (auto simp: parse_relative_def entry_path_def parts3 [OF assms(1)] numa_of_name [OF assms(2)] Let_def assms(2)
      simp del: join_path.simps split: if_splits option.splits)

section \<open>The size of a layer\<close>

lemma sum_list_product:
  "sum_list (map f (List.product xs ys)) = sum_list (map (\<lambda>x. sum_list (map (\<lambda>y. f (x, y)) ys)) xs)" for f :: "_ \<Rightarrow> int"
  by (induction xs) (simp_all add: comp_def)

definition layer_bytes :: "geometry \<Rightarrow> int" where
  "layer_bytes g =
     (let per_numa = g_intermediate_size g div g_numa_count g in
      g_numa_count g * g_expert_num g * (3 * (g_hidden_size g * per_numa) + 8 * per_numa + 4 * g_hidden_size g))"

lemma identity_list_bytes:
  assumes "0 \<le> g_numa_count g" "0 \<le> g_expert_num g"
  shows "sum_list (map (size_of g) (identity_list (g_numa_count g) (g_expert_num g))) = layer_bytes g"
  using assms
  by (simp add: identity_list_def sum_list_product size_of_def projection_size_def layer_bytes_def Let_def
      sum_list_triv algebra_simps)

lemma identity_list_distinct: "distinct (identity_list n E)"
  unfolding identity_list_def by (intro distinct_product) simp_all

lemma identities_bytes:
  assumes "0 \<le> g_numa_count g" "0 \<le> g_expert_num g" "distinct ids"
    "set ids = set (identity_list (g_numa_count g) (g_expert_num g))"
  shows "sum_list (map (size_of g) ids) = layer_bytes g"
  using identity_list_bytes [OF assms(1,2)] assms(3,4) identity_list_distinct
  by (metis sum_list_distinct_conv_sum_set)

section \<open>A layer that is accepted\<close>

definition holds_file :: "'c tree \<Rightarrow> path \<Rightarrow> geometry \<Rightarrow> int \<Rightarrow> identity \<Rightarrow> string \<Rightarrow> bool" where
  "holds_file fs r g i idn c \<longleftrightarrow>
     (\<exists>d. dget fs (r @ [layer_name i, numa_name (fst idn), c]) = Some (File (size_of g idn) d)) \<and>
     (\<exists>enc. kt_name_groups c = Some (fst (snd idn), fst (snd (snd idn)), enc, snd (snd (snd idn))) \<and> int enc = size_of g idn)"

definition layer_exact :: "'c tree \<Rightarrow> path \<Rightarrow> geometry \<Rightarrow> int \<Rightarrow> bool" where
  "layer_exact fs r g i \<longleftrightarrow>
     (let numas = [0..g_numa_count g - 1]; ids = set (identity_list (g_numa_count g) (g_expert_num g)) in
      (\<exists>u w. dget fs (r @ [layer_name i]) = Some (Dir u w)) \<and>
      set (children fs (r @ [layer_name i])) = set (map numa_name numas) \<and>
      (\<forall>k \<in> set numas. (\<exists>u w. dget fs (r @ [layer_name i, numa_name k]) = Some (Dir u w)) \<and>
         (\<forall>c \<in> set (children fs (r @ [layer_name i, numa_name k])). \<exists>idn \<in> ids. fst idn = k \<and> holds_file fs r g i idn c)) \<and>
      (\<forall>idn \<in> ids. \<exists>!c. holds_file fs r g i idn c))"

lemma layer_exactD:
  assumes "layer_exact fs r g i"
  shows "k \<in> {0..g_numa_count g - 1} \<Longrightarrow> \<exists>u w. dget fs (r @ [layer_name i, numa_name k]) = Some (Dir u w)"
    and "k \<in> {0..g_numa_count g - 1} \<Longrightarrow> c \<in> set (children fs (r @ [layer_name i, numa_name k])) \<Longrightarrow>
      \<exists>idn \<in> set (identity_list (g_numa_count g) (g_expert_num g)). fst idn = k \<and> holds_file fs r g i idn c"
  using assms unfolding layer_exact_def Let_def set_upto by blast+

text \<open>The files that the walk over the NUMA directories finds, for a layer whose directories are real.\<close>

definition real_layer :: "'c tree \<Rightarrow> path \<Rightarrow> geometry \<Rightarrow> int \<Rightarrow> (string, int) dict \<Rightarrow> bool" where
  "real_layer fs r g i sizes \<longleftrightarrow> tree_wf fs \<and>
     (\<forall>k \<in> {0..g_numa_count g - 1}. (\<exists>u w. dget fs (r @ [layer_name i, numa_name k]) = Some (Dir u w)) \<and>
        resolve fs (r @ [layer_name i, numa_name k]) = r @ [layer_name i, numa_name k]) \<and>
     numa_sizes fs r i [0..g_numa_count g - 1] [] = Inr sizes"

lemma wf_entry: "tree_wf fs \<Longrightarrow> dget fs (d @ [c]) = Some n \<Longrightarrow> entry_name c"
  unfolding tree_wf_def by fastforce

lemma child_mem: "dget fs (d @ [c]) = Some n \<Longrightarrow> c \<in> set (children fs d)"
  by (simp add: children_mem dget_Some_dmem)

lemma real_listing:
  assumes "real_layer fs r g i sizes" "k \<in> {0..g_numa_count g - 1}"
  shows "iterdir fs (r @ [layer_name i, numa_name k]) = children fs (r @ [layer_name i, numa_name k])"
    "lstat fs (r @ [layer_name i, numa_name k, c]) = dget fs (r @ [layer_name i, numa_name k, c])"
  using assms lstat_child [of fs "r @ [layer_name i, numa_name k]" c] by (auto simp: real_layer_def iterdir_def)

lemma real_sizes:
  assumes real: "real_layer fs r g i sizes"
  shows "k \<in> {0..g_numa_count g - 1} \<Longrightarrow> c \<in> set (children fs (r @ [layer_name i, numa_name k])) \<Longrightarrow>
      \<exists>n d. dget fs (r @ [layer_name i, numa_name k, c]) = Some (File n d)"
    and "dget sizes rel = Some n \<longleftrightarrow>
     (\<exists>k \<in> {0..g_numa_count g - 1}. \<exists>c. rel = entry_path i k c \<and> (\<exists>d. dget fs (r @ [layer_name i, numa_name k, c]) = Some (File n d)))"
proof -
  have found: "numa_sizes fs r i [0..g_numa_count g - 1] [] = Inr sizes" and wf: "tree_wf fs"
    using real by (simp_all add: real_layer_def)
  have entries: "\<forall>k \<in> set [0..g_numa_count g - 1]. \<forall>c \<in> set (iterdir fs (r @ [layer_name i, numa_name k])). entry_name c"
    using real_listing(1) [OF real] children_names [OF wf] by auto
  note all = numa_sizes_dget [OF entries found]
  show "\<exists>n d. dget fs (r @ [layer_name i, numa_name k, c]) = Some (File n d)"
    if "k \<in> {0..g_numa_count g - 1}" "c \<in> set (children fs (r @ [layer_name i, numa_name k]))"
  proof -
    have "\<forall>c \<in> set (iterdir fs (r @ [layer_name i, numa_name k])). \<exists>n d. lstat fs (r @ [layer_name i, numa_name k, c]) = Some (File n d)"
      using conjunct1 [OF all [of "[]" 0]] that(1) by simp
    with that real_listing [OF real that(1)] show ?thesis by auto
  qed
  have child: "c \<in> set (children fs (r @ [layer_name i, numa_name k]))"
    if "dget fs (r @ [layer_name i, numa_name k, c]) = Some (File n d)" for k c d
    using child_mem [of fs "r @ [layer_name i, numa_name k]" c] that by simp
  show "dget sizes rel = Some n \<longleftrightarrow>
     (\<exists>k \<in> {0..g_numa_count g - 1}. \<exists>c. rel = entry_path i k c \<and> (\<exists>d. dget fs (r @ [layer_name i, numa_name k, c]) = Some (File n d)))"
    (is "?L \<longleftrightarrow> ?R")
  proof
    assume ?L
    then obtain k c d where f: "k \<in> {0..g_numa_count g - 1}" "rel = entry_path i k c"
      "lstat fs (r @ [layer_name i, numa_name k, c]) = Some (File n d)" using all [of rel n] by auto
    then have "dget fs (r @ [layer_name i, numa_name k, c]) = Some (File n d)" by (simp only: real_listing(2) [OF real f(1)])
    with f(1,2) show ?R by blast
  next
    assume ?R
    then obtain k c d where k: "k \<in> {0..g_numa_count g - 1}" and f: "rel = entry_path i k c"
      "dget fs (r @ [layer_name i, numa_name k, c]) = Some (File n d)" by blast
    with child [OF f(2)] real_listing(1) [OF real k] real_listing(2) [OF real k, of c] all [of rel n] show ?L by auto
  qed
qed

text \<open>A listed path is that of a file in the tree.\<close>

lemma listed_file:
  assumes real: "real_layer fs r g i sizes" and l: "listed g i sizes rel idn"
  shows "\<exists>c. rel = entry_path i (fst idn) c \<and> entry_name c \<and> fst idn \<in> {0..g_numa_count g - 1} \<and> holds_file fs r g i idn c"
proof -
  obtain enc where enc: "parse_relative g i rel = Inr (idn, enc)" "int enc = size_of g idn" "dget sizes rel = Some (size_of g idn)"
    using l by (auto simp: listed_def)
  then obtain k c d where f: "k \<in> {0..g_numa_count g - 1}" "rel = entry_path i k c"
    "dget fs (r @ [layer_name i, numa_name k, c]) = Some (File (size_of g idn) d)"
    using real_sizes(2) [OF real] by blast
  then have c: "entry_name c"
    using wf_entry [of fs "r @ [layer_name i, numa_name k]" c] real by (simp add: real_layer_def)
  have "0 \<le> k" using f(1) by simp
  from parse_entry_path [OF c this enc(1) [unfolded f(2)]]
  obtain proj e kind where "idn = (k, proj, e, kind)" "kt_name_groups c = Some (proj, e, enc, kind)" by auto
  with f c enc(2) show ?thesis by (auto simp: holds_file_def)
qed

lemma list_all2_injective:
  assumes all: "list_all2 P xs ys" and dist: "distinct ys" and fn: "\<And>x y y'. P x y \<Longrightarrow> P x y' \<Longrightarrow> y = y'"
    and mem: "x \<in> set xs" "x' \<in> set xs" "P x y" "P x' y"
  shows "x = x'"
proof -
  obtain m m' where m: "m < length xs" "xs ! m = x" "m' < length xs" "xs ! m' = x'"
    using mem(1,2) by (auto simp: in_set_conv_nth)
  with all mem(3,4) fn have "ys ! m = y" "ys ! m' = y" by (auto simp: list_all2_conv_all_nth)
  with m dist all have "m = m'" by (metis list_all2_lengthD nth_eq_iff_index_eq)
  with m show ?thesis by simp
qed

lemma list_all2_left: "list_all2 P xs ys \<Longrightarrow> x \<in> set xs \<Longrightarrow> \<exists>y \<in> set ys. P x y"
  by (induction rule: list_all2_induct) auto

lemma list_all2_right: "list_all2 P xs ys \<Longrightarrow> y \<in> set ys \<Longrightarrow> \<exists>x \<in> set xs. P x y"
  by (induction rule: list_all2_induct) auto

lemma listed_layer_exact:
  assumes real: "real_layer fs r g i sizes"
    and items: "list_all2 (listed g i sizes) rels ids" "distinct ids"
    and complete: "set ids = set (identity_list (g_numa_count g) (g_expert_num g))" "set (dkeys sizes) = set rels"
    and dir: "\<exists>u w. dget fs (r @ [layer_name i]) = Some (Dir u w)"
    and numas: "set (children fs (r @ [layer_name i])) = set (map numa_name [0..g_numa_count g - 1])"
  shows "layer_exact fs r g i"
proof -
  let ?ids = "set (identity_list (g_numa_count g) (g_expert_num g))"
  have wf: "tree_wf fs" using real by (simp add: real_layer_def)
  have fn: "\<And>rel idn idn'. listed g i sizes rel idn \<Longrightarrow> listed g i sizes rel idn' \<Longrightarrow> idn = idn'"
    unfolding listed_def by (metis prod.inject sum.inject(2))
  have in_list: "entry_path i k c \<in> set rels"
    if k: "k \<in> {0..g_numa_count g - 1}" and f: "dget fs (r @ [layer_name i, numa_name k, c]) = Some (File n d)" for k c n d
  proof -
    have "dget sizes (entry_path i k c) = Some n" by (subst real_sizes(2) [OF real]) (use k f in blast)
    from dget_Some_dmem [OF this] complete(2) show ?thesis by (simp add: dmem_iff)
  qed
  have "\<exists>idn \<in> ?ids. fst idn = k \<and> holds_file fs r g i idn c"
    if k: "k \<in> {0..g_numa_count g - 1}" and c: "c \<in> set (children fs (r @ [layer_name i, numa_name k]))" for k c
  proof -
    obtain n d where f: "dget fs (r @ [layer_name i, numa_name k, c]) = Some (File n d)"
      using real_sizes(1) [OF real k c] by blast
    obtain idn where idn: "idn \<in> ?ids" "listed g i sizes (entry_path i k c) idn"
      using list_all2_left [OF items(1) in_list [OF k f]] complete(1) by blast
    from listed_file [OF real idn(2)] obtain c' where "entry_path i k c = entry_path i (fst idn) c'" "entry_name c'"
      "holds_file fs r g i idn c'" by blast
    with children_names [OF wf c] idn(1) show ?thesis by (metis entry_path_inj)
  qed
  moreover have "\<exists>!c. holds_file fs r g i idn c" if idn: "idn \<in> ?ids" for idn
  proof -
    obtain rel where rel: "rel \<in> set rels" "listed g i sizes rel idn"
      using list_all2_right [OF items(1)] idn complete(1) by blast
    from listed_file [OF real rel(2)] obtain c where c: "rel = entry_path i (fst idn) c" "entry_name c"
      "fst idn \<in> {0..g_numa_count g - 1}" "holds_file fs r g i idn c" by blast
    have "c' = c" if h: "holds_file fs r g i idn c'" for c'
    proof -
      obtain d where f: "dget fs (r @ [layer_name i, numa_name (fst idn), c']) = Some (File (size_of g idn) d)"
        using h by (auto simp: holds_file_def)
      have c': "entry_name c'" using wf_entry [OF wf, of "r @ [layer_name i, numa_name (fst idn)]" c'] f by simp
      have mem: "entry_path i (fst idn) c' \<in> set rels" by (rule in_list [OF c(3) f])
      obtain idn' where idn': "listed g i sizes (entry_path i (fst idn) c') idn'"
        using list_all2_left [OF items(1) mem] by blast
      obtain enc where p: "parse_relative g i (entry_path i (fst idn) c') = Inr (idn', enc)" using idn' by (auto simp: listed_def)
      have "0 \<le> fst idn" using c(3) by simp
      from parse_entry_path [OF c' this p] h have "idn' = idn" by (cases idn) (auto simp: holds_file_def)
      with idn' have l: "listed g i sizes (entry_path i (fst idn) c') idn" by simp
      have "entry_path i (fst idn) c' = rel"
        by (rule list_all2_injective [OF items _ mem rel(1) l rel(2)]) (rule fn)
      with c(1,2) c' show ?thesis by (metis entry_path_inj)
    qed
    with c(4) show ?thesis by blast
  qed
  ultimately show ?thesis using dir numas real by (auto simp: layer_exact_def real_layer_def Let_def)
qed

text \<open>A layer that passes is exactly the layer the geometry describes.\<close>

lemma check_files_of_exact:
  assumes ok: "check_files_of rd fs r i version g verify obj = Inr (n, b)"
    and wf: "tree_wf fs" and pos: "0 < g_numa_count g" "0 < g_expert_num g"
    and numas: "set (children fs (r @ [layer_name i])) = set (map numa_name [0..g_numa_count g - 1])"
    and dir: "\<exists>u w. dget fs (r @ [layer_name i]) = Some (Dir u w)"
    and dirs: "\<forall>k \<in> {0..g_numa_count g - 1}. (\<exists>u w. dget fs (r @ [layer_name i, numa_name k]) = Some (Dir u w)) \<and>
        resolve fs (r @ [layer_name i, numa_name k]) = r @ [layer_name i, numa_name k]"
  shows "layer_exact fs r g i \<and> n = g_numa_count g * g_expert_num g * 6 \<and> b = layer_bytes g"
proof -
  obtain sizes where sizes: "numa_sizes fs r i [0..g_numa_count g - 1] [] = Inr sizes"
    using ok by (auto simp: check_files_of_def Let_def)
  obtain files ck where ck: "obj_get obj ''files'' = VList files" "n = int (length files)" "b = ck_bytes ck"
    "int (length files) = g_numa_count g * g_expert_num g * 3 * 2"
    "check_items rd fs r i version g verify sizes files \<lparr>ck_paths = [], ck_identities = [], ck_bytes = 0\<rparr> = Inr ck"
    "set (ck_identities ck) = set (identity_list (g_numa_count g) (g_expert_num g))" "set (dkeys sizes) = set (ck_paths ck)"
    using ok sizes by (auto simp: check_files_of_def Let_def split: jvalue.splits if_splits)
  obtain rels ids where items: "ck = \<lparr>ck_paths = rels, ck_identities = ids, ck_bytes = sum_list (map (size_of g) ids)\<rparr>"
    "list_all2 (listed g i sizes) rels ids" "distinct ids"
    using check_items_Inr [OF ck(5)] by auto
  have "real_layer fs r g i sizes" using wf dirs sizes by (simp add: real_layer_def)
  then have "layer_exact fs r g i"
    by (rule listed_layer_exact [OF _ items(2,3) _ _ dir numas]) (use ck(6,7) items(1) in simp_all)
  moreover have "b = layer_bytes g"
    using identities_bytes [of g ids] pos items(1,3) ck(3,6) by simp
  ultimately show ?thesis using ck(2,4) by simp
qed

lemma validate_layer_exact:
  assumes ok: "validate_layer rd fs r version g verify entry = Inr (n, b)"
    and wf: "tree_wf fs" and pos: "0 < g_numa_count g" "0 < g_expert_num g" and r: "resolve fs r = r"
  shows "\<exists>i. layer_index entry = Inr i \<and> layer_exact fs r g i \<and> n = g_numa_count g * g_expert_num g * 6 \<and> b = layer_bytes g"
proof -
  obtain obj i where obj: "entry = VObject obj" "nonnegative_int (obj_get obj ''index'') = Inr i"
    using ok by (auto simp: validate_layer_def split: jvalue.splits)
  have safe: "\<not> is_link fs (r @ [layer_name i])" "is_dir fs (r @ [layer_name i])"
    "\<forall>c \<in> set (iterdir fs (r @ [layer_name i])). \<not> is_link fs (r @ [layer_name i] @ [c]) \<and> is_dir fs (r @ [layer_name i] @ [c])"
    "set (iterdir fs (r @ [layer_name i])) = set (map numa_name [0..g_numa_count g - 1])"
    "check_files_of rd fs r i version g verify obj = Inr (n, b)"
    using ok obj by (auto simp: validate_layer_def Let_def list_ex_iff split: if_splits)
  from real_dir [OF r safe(1,2)] have dir: "\<exists>u w. dget fs (r @ [layer_name i]) = Some (Dir u w)"
    "resolve fs (r @ [layer_name i]) = r @ [layer_name i]" by blast+
  have numas: "set (children fs (r @ [layer_name i])) = set (map numa_name [0..g_numa_count g - 1])"
    using safe(4) dir(2) by (simp add: iterdir_def)
  have "(\<exists>u w. dget fs (r @ [layer_name i, numa_name k]) = Some (Dir u w)) \<and>
      resolve fs (r @ [layer_name i, numa_name k]) = r @ [layer_name i, numa_name k]"
    if "k \<in> {0..g_numa_count g - 1}" for k
    using real_dir [OF dir(2), of "numa_name k"] safe(3,4) that by simp
  with check_files_of_exact [OF safe(5) wf pos numas dir(1)] obj show ?thesis by (simp add: layer_index_def)
qed

lemma validate_all_exact:
  assumes "validate_all rd fs r version g verify ls = Inr (n, b)" "layer_indices ls = Inr idxs"
    and wf: "tree_wf fs" and pos: "0 < g_numa_count g" "0 < g_expert_num g" and r: "resolve fs r = r"
  shows "(\<forall>i \<in> set idxs. layer_exact fs r g i) \<and> n = int (length idxs) * (g_numa_count g * g_expert_num g * 6) \<and>
    b = int (length idxs) * layer_bytes g"
  using assms(1,2)
proof (induction ls arbitrary: n b idxs)
  case (Cons l ls)
  then obtain n1 b1 n2 b2 where parts: "validate_layer rd fs r version g verify l = Inr (n1, b1)"
    "validate_all rd fs r version g verify ls = Inr (n2, b2)" "n = n1 + n2" "b = b1 + b2" by auto
  from Cons.prems(2) obtain i js where idx: "layer_index l = Inr i" "layer_indices ls = Inr js" "idxs = i # js" by auto
  from Cons.IH [OF parts(2) idx(2)] validate_layer_exact [OF parts(1) wf pos r] parts(3,4) idx
  show ?case by (auto simp: algebra_simps)
qed simp

section \<open>A tree that is accepted\<close>

lemma validate_parts:
  assumes "validate_persistent_int8_weights rd fs root indices g verify_hashes = Inr v"
  shows "\<exists>manifest verify layers actual name.
    0 < g_numa_count g \<and> 0 < g_expert_num g \<and> resolve_root fs root = Inr (vm_root v) \<and>
    load_manifest rd fs (vm_root v) = Inr (name, manifest, vm_schema_version v) \<and> vm_path v = vm_root v @ [name] \<and>
    obj_get manifest ''layers'' = VList layers \<and> layer_indices layers = Inr actual \<and> distinct actual \<and>
    sort actual = vm_layers v \<and> vm_layers v = sort (remdups indices) \<and>
    validate_all rd fs (vm_root v) (vm_schema_version v) g verify layers = Inr (vm_file_count v, vm_size_bytes v) \<and>
    set (iterdir fs (vm_root v)) = set (name # map layer_name (vm_layers v))"
proof -
  obtain r name manifest version where pre: "0 < g_numa_count g" "0 < g_expert_num g" "resolve_root fs root = Inr r"
    "load_manifest rd fs r = Inr (name, manifest, version)"
    using assms by (auto simp: validate_persistent_int8_weights_def Let_def)
  show ?thesis
  proof (cases "obj_get manifest ''layers''")
    case (VList layers)
    with assms pre show ?thesis by (auto simp: validate_persistent_int8_weights_def Let_def)
  qed (use assms pre in \<open>auto simp: validate_persistent_int8_weights_def Let_def\<close>)
qed

definition expected_node :: "geometry \<Rightarrow> validated \<Rightarrow> path \<Rightarrow> 'c node \<Rightarrow> bool" where
  "expected_node g v q n \<longleftrightarrow>
     (case q of
        [a] \<Rightarrow> (vm_path v = vm_root v @ [a] \<and> (\<exists>m d. n = File m d)) \<or>
               (\<exists>i \<in> set (vm_layers v). a = layer_name i \<and> (\<exists>u w. n = Dir u w))
      | [a, b] \<Rightarrow> (\<exists>i \<in> set (vm_layers v). \<exists>k \<in> {0..g_numa_count g - 1}. a = layer_name i \<and> b = numa_name k \<and> (\<exists>u w. n = Dir u w))
      | [a, b, c] \<Rightarrow> (\<exists>i \<in> set (vm_layers v). \<exists>idn \<in> set (identity_list (g_numa_count g) (g_expert_num g)).
             a = layer_name i \<and> b = numa_name (fst idn) \<and> (\<exists>d. n = File (size_of g idn) d) \<and>
             (\<exists>enc. kt_name_groups c = Some (fst (snd idn), fst (snd (snd idn)), enc, snd (snd (snd idn)))))
      | _ \<Rightarrow> False)"

lemma resolved_root:
  assumes "resolve_root fs root = Inr r" "tree_wf fs"
  shows "resolve fs r = r"
proof -
  have r: "r = resolve fs (path_parts root)" and d: "dir_at fs (path_parts root)"
    using assms(1) by (auto simp: resolve_root_def Let_def split: if_splits)
  show ?thesis
  proof (cases "r = []")
    case False
    with r d obtain u w where "dget fs r = Some (Dir u w)"
      by (auto simp: dir_at_def is_dir_def stat_def split: option.splits node.splits)
    from resolve_entry [OF assms(2) this] show ?thesis by simp
  qed (simp add: resolve_def)
qed

lemma manifest_is_file:
  assumes "load_manifest rd fs r = Inr (name, manifest, version)" "resolve fs r = r"
  shows "\<exists>m d. dget fs (r @ [name]) = Some (File m d)"
proof -
  have l: "\<not> is_link fs (r @ [name])" and f: "\<exists>m d. stat fs (r @ [name]) = Some (File m d)"
    using assms(1) by (auto simp: load_manifest_def split: list.splits if_splits option.splits node.splits jvalue.splits)
  from l have "link_target fs (r @ [name]) = None"
    using lstat_child [OF assms(2), of name] by (auto simp: is_link_def link_target_def split: option.splits node.splits)
  with f resolve_child [OF assms(2), of name] show ?thesis by (simp add: stat_def)
qed

lemma exact_children:
  assumes "layer_exact fs r g i" "tree_wf fs" "dget fs (r @ layer_name i # q) = Some n" "q \<noteq> []"
  shows "(\<exists>k \<in> {0..g_numa_count g - 1}. q = [numa_name k] \<and> (\<exists>u w. n = Dir u w)) \<or>
    (\<exists>idn \<in> set (identity_list (g_numa_count g) (g_expert_num g)). \<exists>c. q = [numa_name (fst idn), c] \<and>
       holds_file fs r g i idn c)"
proof -
  obtain b q' where q: "q = b # q'" using assms(4) by (cases q) auto
  have b: "dmem fs (r @ [layer_name i, b])"
  proof (cases "q' = []")
    case False
    from wf_ancestor [OF assms(2), of "r @ [layer_name i, b]" q'] dget_Some_dmem [OF assms(3)] q False
    show ?thesis by (fastforce intro: dget_Some_dmem)
  qed (use assms(3) q in \<open>auto intro: dget_Some_dmem\<close>)
  then have "b \<in> set (children fs (r @ [layer_name i]))" by (simp add: children_mem)
  then obtain k where k: "k \<in> {0..g_numa_count g - 1}" "b = numa_name k"
    using assms(1) by (auto simp: layer_exact_def Let_def)
  show ?thesis
  proof (cases q')
    case Nil
    with k q assms(3) layer_exactD(1) [OF assms(1) k(1)] show ?thesis by auto
  next
    case (Cons c q'')
    have m: "dmem fs (r @ [layer_name i, numa_name k, c])"
    proof (cases "q'' = []")
      case False
      from wf_ancestor [OF assms(2), of "r @ [layer_name i, numa_name k, c]" q''] dget_Some_dmem [OF assms(3)] q k Cons False
      show ?thesis by (fastforce intro: dget_Some_dmem)
    qed (use assms(3) q k Cons in \<open>auto intro: dget_Some_dmem\<close>)
    then have "c \<in> set (children fs (r @ [layer_name i, numa_name k]))" by (simp add: children_mem)
    then obtain idn where idn: "idn \<in> set (identity_list (g_numa_count g) (g_expert_num g))" "fst idn = k" "holds_file fs r g i idn c"
      using layer_exactD(2) [OF assms(1) k(1)] by blast
    have "q'' = []"
    proof (rule ccontr)
      assume "q'' \<noteq> []"
      with wf_ancestor [OF assms(2), of "r @ [layer_name i, numa_name k, c]" q''] dget_Some_dmem [OF assms(3)] q k Cons
      obtain u w where "dget fs (r @ [layer_name i, numa_name k, c]) = Some (Dir u w)" by auto
      with idn(2,3) show False by (auto simp: holds_file_def)
    qed
    with idn q k(2) Cons show ?thesis by auto
  qed
qed

text \<open>Everything below the root of an accepted tree.\<close>

lemma node_expected:
  assumes wf: "tree_wf fs" and r: "resolve fs (vm_root v) = vm_root v"
    and exact: "\<And>i. i \<in> set (vm_layers v) \<Longrightarrow> layer_exact fs (vm_root v) g i"
    and manifest: "vm_path v = vm_root v @ [name]" "\<exists>m d. dget fs (vm_root v @ [name]) = Some (File m d)"
    and entries: "set (iterdir fs (vm_root v)) = set (name # map layer_name (vm_layers v))"
    and q: "q \<noteq> []" "dget fs (vm_root v @ q) = Some n"
  shows "expected_node g v q n"
proof -
  obtain a q' where a: "q = a # q'" using q(1) by (cases q) auto
  have "dmem fs (vm_root v @ [a])"
  proof (cases "q' = []")
    case False
    with wf_ancestor [OF wf, of "vm_root v @ [a]" q'] dget_Some_dmem [OF q(2)] a show ?thesis
      by (fastforce intro: dget_Some_dmem)
  qed (use q(2) a in \<open>auto intro: dget_Some_dmem\<close>)
  then have "a \<in> set (iterdir fs (vm_root v))" using r by (simp add: iterdir_def children_mem)
  with entries consider "a = name" | i where "i \<in> set (vm_layers v)" "a = layer_name i" by auto
  then show ?thesis
  proof cases
    case 1
    obtain m d where f: "dget fs (vm_root v @ [name]) = Some (File m d)" using manifest(2) by blast
    have "q' = []"
    proof (rule ccontr)
      assume "q' \<noteq> []"
      with wf_ancestor [OF wf, of "vm_root v @ [name]" q'] dget_Some_dmem [OF q(2)] a 1 f show False by auto
    qed
    moreover have "n = File m d" using a 1 f q(2) calculation by simp
    ultimately show ?thesis using a 1 manifest(1) by (simp add: expected_node_def)
  next
    case (2 i)
    show ?thesis
    proof (cases "q' = []")
      case True
      with exact [OF 2(1)] a 2 q(2) show ?thesis by (auto simp: expected_node_def layer_exact_def Let_def)
    next
      case False
      have "dget fs (vm_root v @ layer_name i # q') = Some n" using q(2) a 2(2) by simp
      from exact_children [OF exact [OF 2(1)] wf this False]
      consider k where "k \<in> {0..g_numa_count g - 1}" "q' = [numa_name k]" "\<exists>u w. n = Dir u w"
        | idn c where "idn \<in> set (identity_list (g_numa_count g) (g_expert_num g))" "q' = [numa_name (fst idn), c]"
          "holds_file fs (vm_root v) g i idn c" by blast
      then show ?thesis
      proof cases
        case dir: 1
        with a 2 show ?thesis by (auto simp: expected_node_def)
      next
        case weights: 2
        then have "(\<exists>d. n = File (size_of g idn) d) \<and>
            (\<exists>enc. kt_name_groups c = Some (fst (snd idn), fst (snd (snd idn)), enc, snd (snd (snd idn))))"
          using a 2(2) q(2) by (auto simp: holds_file_def)
        with weights(1) 2(1) show ?thesis unfolding a weights(2) 2(2) expected_node_def list.case by blast
      qed
    qed
  qed
qed

text \<open>
  C19. When a weight tree is accepted, everything below its root is expected: the manifest, and for each
  requested layer the NUMA directories with weight files of the sizes that the geometry demands,
  without a symbolic link at any level; and every layer has exactly one file for each NUMA node,
  projection, expert and kind.
\<close>

theorem accepted_tree_exact:
  assumes ok: "validate_persistent_int8_weights rd fs root indices g verify_hashes = Inr v" and wf: "tree_wf fs"
  shows "vm_layers v = sort (remdups indices) \<and>
    (\<forall>q n. q \<noteq> [] \<longrightarrow> dget fs (vm_root v @ q) = Some n \<longrightarrow> expected_node g v q n) \<and>
    (\<forall>i \<in> set (vm_layers v). \<forall>idn \<in> set (identity_list (g_numa_count g) (g_expert_num g)).
       \<exists>!c. holds_file fs (vm_root v) g i idn c)"
proof -
  obtain manifest verify layers actual name where parts:
    "0 < g_numa_count g" "0 < g_expert_num g" "resolve_root fs root = Inr (vm_root v)"
    "load_manifest rd fs (vm_root v) = Inr (name, manifest, vm_schema_version v)" "vm_path v = vm_root v @ [name]"
    "layer_indices layers = Inr actual" "sort actual = vm_layers v" "vm_layers v = sort (remdups indices)"
    "validate_all rd fs (vm_root v) (vm_schema_version v) g verify layers = Inr (vm_file_count v, vm_size_bytes v)"
    "set (iterdir fs (vm_root v)) = set (name # map layer_name (vm_layers v))"
    using validate_parts [OF ok] by blast
  have r: "resolve fs (vm_root v) = vm_root v" by (rule resolved_root [OF parts(3) wf])
  have layers: "set actual = set (vm_layers v)" using parts(7) by (metis set_sort)
  have exact: "layer_exact fs (vm_root v) g i" if "i \<in> set (vm_layers v)" for i
    using validate_all_exact [OF parts(9,6) wf parts(1,2) r] that layers by blast
  have "expected_node g v q n" if q: "q \<noteq> []" "dget fs (vm_root v @ q) = Some n" for q n
    by (rule node_expected [OF wf r exact parts(5) manifest_is_file [OF parts(4) r] parts(10) q])
  moreover have "\<exists>!c. holds_file fs (vm_root v) g i idn c"
    if "i \<in> set (vm_layers v)" "idn \<in> set (identity_list (g_numa_count g) (g_expert_num g))" for i idn
    using exact [OF that(1)] that(2) by (auto simp: layer_exact_def Let_def)
  ultimately show ?thesis using parts(8) by blast
qed

text \<open>
  The reported number of files and bytes are those of the geometry: six files for each layer, NUMA
  node and expert, holding the three quantised matrices and their scales.
\<close>

theorem accepted_size:
  assumes ok: "validate_persistent_int8_weights rd fs root indices g verify_hashes = Inr v" and wf: "tree_wf fs"
  shows "vm_file_count v = int (length (vm_layers v)) * (g_numa_count g * g_expert_num g * 6) \<and>
    vm_size_bytes v = int (length (vm_layers v)) * layer_bytes g"
proof -
  obtain layers actual verify where parts: "0 < g_numa_count g" "0 < g_expert_num g" "resolve_root fs root = Inr (vm_root v)"
    "layer_indices layers = Inr actual" "sort actual = vm_layers v"
    "validate_all rd fs (vm_root v) (vm_schema_version v) g verify layers = Inr (vm_file_count v, vm_size_bytes v)"
    using validate_parts [OF ok] by blast
  have "length actual = length (vm_layers v)" using parts(5) by (metis length_sort)
  with validate_all_exact [OF parts(6,4) wf parts(1,2) resolved_root [OF parts(3) wf]] show ?thesis by simp
qed

text \<open>
  The contract is on numbers, not on spellings: a name with leading zeros is taken for the expert, while the
  kernels open the name with the plain decimal. A JSON \<open>true\<close> passes for a count of one.
\<close>

lemma padded_name_accepted: "kt_name_groups ''INT8_gate_007_06Byte_quant_.kt'' = Some (''gate'', 7, 6, ''quant'')"
  by code_simp

lemma true_is_a_count: "equals_int (VBool True) 1"
  by (simp add: equals_int_def)

section \<open>A tree on disk\<close>

definition sample_file :: "string \<Rightarrow> int \<Rightarrow> jvalue" where
  "sample_file c n =
     VObject [(''path'', VStr (entry_path 3 0 c)), (''size_bytes'', VInt n), (''sha256'', VStr (replicate 64 CHR ''0''))]"

definition sample_files :: "(string \<times> int) list" where
  "sample_files =
     [(''INT8_gate_0_6Byte_quant_.kt'', 6), (''INT8_gate_0_12Byte_scale_.kt'', 12), (''INT8_up_0_6Byte_quant_.kt'', 6),
      (''INT8_up_0_12Byte_scale_.kt'', 12), (''INT8_down_0_6Byte_quant_.kt'', 6), (''INT8_down_0_8Byte_scale_.kt'', 8)]"

definition sample_manifest :: jvalue where
  "sample_manifest =
     VObject [(''schema_version'', VInt 2), (''state'', VStr ''ready''), (''expert_weight_format'', VStr ''int8''),
       (''layout'', VStr int8_weight_layout), (''threadpool_count'', VBool True), (''expert_num'', VInt 1),
       (''hidden_size'', VInt 2), (''intermediate_size'', VFloat (Finite (3, 1))), (''bytes'', VInt 50),
       (''layers'', VList [VObject [(''index'', VInt 3), (''state'', VStr ''ready''), (''numa_count'', VInt 1),
          (''bytes'', VInt 50), (''files'', VList (map (\<lambda>(c, n). sample_file c n) sample_files))]])]"

definition sample_reader :: "jvalue reader" where
  "sample_reader = \<lparr>rd_json = Some, rd_sha256 = (\<lambda>_. replicate 64 CHR ''0''), rd_readable = (\<lambda>_. True)\<rparr>"

definition sample_geometry :: geometry where
  "sample_geometry = \<lparr>g_numa_count = 1, g_expert_num = 1, g_hidden_size = 2, g_intermediate_size = 3\<rparr>"

definition sample_disk :: "jvalue tree" where
  "sample_disk =
     [([''w''], Dir 0 False), ([''w'', weight_manifest_name], File 9 sample_manifest), ([''w'', ''_layer_3''], Dir 0 False),
      ([''w'', ''_layer_3'', ''_numa_0''], Dir 0 False)] @
     map (\<lambda>(c, n). ([''w'', ''_layer_3'', ''_numa_0'', c], File n VNull)) sample_files"

definition sample_validated :: validated where
  "sample_validated =
     \<lparr>vm_root = [''w''], vm_path = [''w'', weight_manifest_name], vm_schema_version = 2, vm_layout = int8_weight_layout,
      vm_layers = [3], vm_file_count = 6, vm_size_bytes = 50\<rparr>"

lemma sample_accepted:
  "validate_persistent_int8_weights sample_reader sample_disk ''/w'' [3, 3] sample_geometry None = Inr sample_validated"
  by code_simp

lemma sample_disk_wf: "tree_wf sample_disk"
proof -
  have "dwf sample_disk" by code_simp
  from tree_wf_all [OF this] show ?thesis by (rule iffD2) code_simp
qed

theorem accepted_tree_exact_witness:
  "\<exists>!c. holds_file sample_disk [''w''] sample_geometry 3 (0, ''down'', 0, ''scale'') c"
proof -
  have "(0, ''down'', 0, ''scale'') \<in> set (identity_list (g_numa_count sample_geometry) (g_expert_num sample_geometry))"
    by code_simp
  with accepted_tree_exact [OF sample_accepted sample_disk_wf] show ?thesis by (simp add: sample_validated_def)
qed

theorem accepted_size_witness: "layer_bytes sample_geometry = 50"
  using accepted_size [OF sample_accepted sample_disk_wf] by (simp add: sample_validated_def)

end
