(* ===== verification/Routing.thy ===== *)
theory Routing
  imports Complex_Main Placement
begin

text \<open>
  Expert routing of \<open>KTMoELayerWrapper\<close> (\<open>kt-kernel/python/sft/layer.py\<close>): the routing metadata of a
  DeepSeek layer (\<open>DeepSeekRoutingSpec.from_modules\<close>) and \<open>_compute_routing\<close> for its kinds of router.

  Numbers are elements of an ordered field, without the rounding of floating point; the conversions to
  \<open>bfloat16\<close> and to the type of the logits, \<open>sigmoid\<close>, \<open>softmax\<close> and \<open>topk\<close> are the parameters
  \<open>numeric\<close>, and what the router module returns (or raises) is part of \<open>routing\<close>. A tensor with one row
  for each token is a list of rows; a row of logits has one entry for each expert.
\<close>

section \<open>Routing metadata\<close>

datatype 'r meta = MInt int | MBool bool | MFloat "'r pyfloat" | MStr string | MOther nat

definition meta_number :: "'r::linordered_field meta \<Rightarrow> 'r pyfloat option" where
  "meta_number v =
     (case v of
        MInt i \<Rightarrow> Some (Finite (of_int i))
      | MBool b \<Rightarrow> Some (Finite (if b then 1 else 0))
      | MFloat x \<Rightarrow> Some x
      | _ \<Rightarrow> None)"

text \<open>Python's \<open>==\<close> on such values.\<close>

definition meta_eq :: "'r::linordered_field meta \<Rightarrow> 'r meta \<Rightarrow> bool" where
  "meta_eq a b =
     (case (meta_number a, meta_number b) of
        (Some x, Some y) \<Rightarrow> x \<noteq> NaN \<and> y \<noteq> NaN \<and> x = y
      | (None, None) \<Rightarrow> a = b
      | _ \<Rightarrow> False)"

text \<open>The attributes of \<open>moe\<close>, \<open>router\<close> and their configurations; an attribute may be \<open>None\<close>.\<close>

type_synonym 'r attrs = "(string, 'r meta option) dict"

definition attr_value :: "'r attrs \<Rightarrow> string \<Rightarrow> 'r meta option" where
  "attr_value src alias = (case dget src alias of Some v \<Rightarrow> v | None \<Rightarrow> None)"

fun first_value :: "'r attrs \<Rightarrow> string list \<Rightarrow> 'r meta option" where
  "first_value src [] = None"
| "first_value src (alias # aliases) =
     (case attr_value src alias of Some v \<Rightarrow> Some v | None \<Rightarrow> first_value src aliases)"

definition observed_values :: "'r attrs option list \<Rightarrow> string list \<Rightarrow> 'r meta list" where
  "observed_values sources aliases =
     List.map_filter (\<lambda>src. case src of None \<Rightarrow> None | Some attrs \<Rightarrow> first_value attrs aliases) sources"

definition resolve_meta :: "'r::linordered_field attrs option list \<Rightarrow> string list \<Rightarrow> 'r meta result" where
  "resolve_meta sources aliases =
     (case observed_values sources aliases of
        [] \<Rightarrow> Inl (ValueError ''routing metadata is missing'')
      | v # vs \<Rightarrow> (if list_ex (\<lambda>w. \<not> meta_eq w v) vs then Inl (ValueError ''conflicting routing metadata'') else Inr v))"

definition positive_meta :: "'r::linordered_field attrs option list \<Rightarrow> string list \<Rightarrow> int result" where
  "positive_meta sources aliases =
     rbind (resolve_meta sources aliases) (\<lambda>v.
       case v of
         MInt n \<Rightarrow> (if n \<le> 0 then Inl (ValueError ''must be a positive integer'') else Inr n)
       | _ \<Rightarrow> Inl (ValueError ''must be a positive integer''))"

definition float_meta :: "(string \<Rightarrow> 'r pyfloat option) \<Rightarrow> 'r::linordered_field meta \<Rightarrow> 'r pyfloat result" where
  "float_meta parse_float v =
     (case meta_number v of
        Some x \<Rightarrow> Inr x
      | None \<Rightarrow>
          (case v of
             MStr s \<Rightarrow> (case parse_float s of Some x \<Rightarrow> Inr x | None \<Rightarrow> Inl (ValueError ''could not convert string to float''))
           | _ \<Rightarrow> Inl (TypeError ''float() argument'')))"

record 'r routing_spec =
  rs_expert_num :: int
  rs_n_group :: int
  rs_topk_group :: int
  rs_top_k :: int
  rs_norm_topk_prob :: bool
  rs_routed_scaling_factor :: 'r

definition from_modules ::
  "(string \<Rightarrow> 'r pyfloat option) \<Rightarrow> 'r::linordered_field attrs option list \<Rightarrow> int \<Rightarrow> 'r routing_spec result" where
  "from_modules parse_float sources expert_num =
     rbind (positive_meta sources [''n_group'']) (\<lambda>n_group.
     rbind (positive_meta sources [''topk_group'']) (\<lambda>topk_group.
     rbind (positive_meta sources [''n_routed_experts'', ''num_local_experts'']) (\<lambda>routed_expert_num.
     rbind (positive_meta sources [''top_k'', ''num_experts_per_tok'']) (\<lambda>top_k.
     rbind (resolve_meta sources [''norm_topk_prob'']) (\<lambda>normalise.
     rbind (case normalise of MBool b \<Rightarrow> Inr b | _ \<Rightarrow> Inl (ValueError ''norm_topk_prob must be bool'')) (\<lambda>norm_topk_prob.
     rbind (rbind (resolve_meta sources [''routed_scaling_factor'']) (float_meta parse_float)) (\<lambda>factor.
     rbind (case factor of
              Finite x \<Rightarrow> (if x \<le> 0 then Inl (ValueError ''must be finite and positive'') else Inr x)
            | _ \<Rightarrow> Inl (ValueError ''must be finite and positive'')) (\<lambda>scale.
     if routed_expert_num \<noteq> expert_num then Inl (ValueError ''does not match the KT architecture'')
     else if expert_num \<le> 0 \<or> expert_num mod n_group \<noteq> 0 then Inl (ValueError ''divisible by n_group'')
     else if expert_num div n_group < 2 then Inl (ValueError ''at least two experts per group'')
     else if n_group < topk_group then Inl (ValueError ''topk_group exceeds n_group'')
     else if topk_group * (expert_num div n_group) < top_k then Inl (ValueError ''top_k exceeds the selected groups'')
     else Inr \<lparr>rs_expert_num = expert_num, rs_n_group = n_group, rs_topk_group = topk_group, rs_top_k = top_k,
               rs_norm_topk_prob = norm_topk_prob, rs_routed_scaling_factor = scale\<rparr>))))))))"

section \<open>Selection\<close>

record 'r numeric =
  nm_topk :: "'r topk"
  nm_sigmoid :: "'r \<Rightarrow> 'r"
  nm_softmax :: "'r list \<Rightarrow> 'r list"
  nm_bfloat16 :: "'r \<Rightarrow> 'r"
  nm_logits_type :: "'r \<Rightarrow> 'r"

definition topk_checked :: "'r topk \<Rightarrow> 'r list \<Rightarrow> nat \<Rightarrow> nat list result" where
  "topk_checked topk xs k =
     (if length xs < k then Inl (RuntimeError ''selected index k out of range'') else Inr (topk xs k))"

fun all_results :: "'a result list \<Rightarrow> 'a list result" where
  "all_results [] = Inr []"
| "all_results (r # rs) = rbind r (\<lambda>a. rbind (all_results rs) (\<lambda>as. Inr (a # as)))"

text \<open>The experts of group \<open>g\<close>, and \<open>topk(2)[0].sum()\<close> over the choice scores of each group.\<close>

definition group_block :: "nat \<Rightarrow> 'a list \<Rightarrow> nat \<Rightarrow> 'a list" where
  "group_block per_group xs g = take per_group (drop (g * per_group) xs)"

definition group_score :: "'r::linordered_field topk \<Rightarrow> 'r list \<Rightarrow> 'r result" where
  "group_score topk xs = rbind (topk_checked topk xs 2) (\<lambda>ix. Inr (sum_list (map (\<lambda>i. xs ! i) ix)))"

definition masked_scores :: "nat \<Rightarrow> nat list \<Rightarrow> 'r::linordered_field list \<Rightarrow> 'r list" where
  "masked_scores per_group groups choice =
     map (\<lambda>e. if e div per_group \<in> set groups then choice ! e else 0) [0..<length choice]"

definition select_grouped ::
  "'r::linordered_field topk \<Rightarrow> nat \<Rightarrow> nat \<Rightarrow> nat \<Rightarrow> nat \<Rightarrow> 'r list \<Rightarrow> nat list result" where
  "select_grouped topk expert_num n_group topk_group top_k choice =
     (let per_group = expert_num div n_group in
      if n_group = 0 \<or> n_group * per_group \<noteq> length choice then Inl (RuntimeError ''shape is invalid for input'')
      else
        rbind (all_results (map (\<lambda>g. group_score topk (group_block per_group choice g)) [0..<n_group])) (\<lambda>group_scores.
        rbind (topk_checked topk group_scores topk_group) (\<lambda>group_idx.
        topk_checked topk (masked_scores per_group group_idx choice) top_k)))"

definition eps :: "'r::linordered_field" where
  "eps = 1 / 10 ^ 20"

definition scaled_weights :: "bool \<Rightarrow> 'r::linordered_field \<Rightarrow> 'r list \<Rightarrow> nat list \<Rightarrow> 'r list" where
  "scaled_weights normalise scale probs ids =
     (let ws = map (\<lambda>i. probs ! i) ids;
          ws' = (if normalise then map (\<lambda>w. w / (sum_list ws + eps)) ws else ws) in
      map (\<lambda>w. w * scale) ws')"

definition deepseek_row ::
  "'r::linordered_field numeric \<Rightarrow> 'r routing_spec \<Rightarrow> 'r list \<Rightarrow> 'r list \<Rightarrow> (nat list \<times> 'r list) result" where
  "deepseek_row nm spec bias logits =
     (let probs = map (nm_sigmoid nm) logits in
      if length bias \<noteq> length probs then Inl (RuntimeError ''size of tensor must match'')
      else
        rbind (select_grouped (nm_topk nm) (nat (rs_expert_num spec)) (nat (rs_n_group spec)) (nat (rs_topk_group spec))
                 (nat (rs_top_k spec)) (map2 (+) probs bias)) (\<lambda>ids.
        Inr (ids, scaled_weights (rs_norm_topk_prob spec) (rs_routed_scaling_factor spec) probs ids)))"

section \<open>\<open>_compute_routing\<close>\<close>

text \<open>A tensor that a router returns, with floating-point or integer rows; the two outputs are rows too.\<close>

datatype 'r rows = Floats "'r list list" | Ints "nat list list"

datatype 'r router_output = Single "'r rows" | Several "'r rows list"

record 'r routing =
  ro_router_type :: string
  ro_wrapped :: bool
  ro_spec :: "'r routing_spec option"
  ro_bias :: "'r list option"
  ro_n_group :: "nat option"
  ro_topk_group :: "nat option"
  ro_top_k :: "nat option"
  ro_norm_topk_prob :: "bool option"
  ro_scaling_factor :: "'r option"
  ro_expert_num :: nat
  ro_experts_per_tok :: nat
  ro_grad_enabled :: bool
  ro_weights_grad :: bool
  ro_output :: "'r router_output result"

definition or_default :: "'a option \<Rightarrow> 'a \<Rightarrow> 'a" where
  "or_default a d = (case a of Some x \<Rightarrow> x | None \<Rightarrow> d)"

definition finish_routing :: "'r numeric \<Rightarrow> 'r routing \<Rightarrow> 'r rows \<Rightarrow> 'r rows \<Rightarrow> ('r rows \<times> 'r rows) result" where
  "finish_routing nm ro ids weights =
     (let weights' = (case weights of Floats ws \<Rightarrow> Floats (map (map (nm_bfloat16 nm)) ws) | Ints ws \<Rightarrow> Ints ws) in
      if ro_grad_enabled ro \<and> \<not> ro_weights_grad ro
      then Inl (RuntimeError ''routing weights are detached but gradients are required'')
      else Inr (ids, weights'))"

definition finish_rows :: "'r numeric \<Rightarrow> 'r routing \<Rightarrow> (nat list \<times> 'r list) list \<Rightarrow> ('r rows \<times> 'r rows) result" where
  "finish_rows nm ro out = finish_routing nm ro (Ints (map fst out)) (Floats (map snd out))"

text \<open>\<open>router_probs + correction_bias\<close>: a bias of length 1 is added to every score.\<close>

definition add_bias :: "'r::linordered_field list \<Rightarrow> 'r list option \<Rightarrow> 'r list result" where
  "add_bias probs bias =
     (case bias of
        None \<Rightarrow> Inr probs
      | Some bs \<Rightarrow>
          (if length bs = length probs then Inr (map2 (+) probs bs)
           else if length bs = 1 then Inr (map (\<lambda>p. p + hd bs) probs)
           else Inl (RuntimeError ''size of tensor must match'')))"

definition glm_row :: "'r::linordered_field numeric \<Rightarrow> 'r routing \<Rightarrow> 'r list \<Rightarrow> (nat list \<times> 'r list) result" where
  "glm_row nm ro logits =
     (let probs = map (nm_sigmoid nm) logits;
          n_group = or_default (ro_n_group ro) 1 in
      rbind (add_bias probs (ro_bias ro)) (\<lambda>scores.
      rbind (select_grouped (nm_topk nm) (ro_expert_num ro) n_group (or_default (ro_topk_group ro) n_group)
               (or_default (ro_top_k ro) (ro_experts_per_tok ro)) scores) (\<lambda>ids.
      Inr (ids, scaled_weights (or_default (ro_norm_topk_prob ro) True) (or_default (ro_scaling_factor ro) 1) probs ids))))"

definition softmax_row :: "'r::linordered_field numeric \<Rightarrow> bool \<Rightarrow> nat \<Rightarrow> 'r list \<Rightarrow> (nat list \<times> 'r list) result" where
  "softmax_row nm normalise top_k logits =
     (let probs = nm_softmax nm logits in
      rbind (topk_checked (nm_topk nm) probs top_k) (\<lambda>ids.
      let ws = map (\<lambda>i. probs ! i) ids in
      Inr (ids, if normalise then map (\<lambda>w. w / sum_list ws) ws else ws)))"

definition wrapped_routing :: "'r::linordered_field numeric \<Rightarrow> 'r routing \<Rightarrow> 'r list list \<Rightarrow> ('r rows \<times> 'r rows) result" where
  "wrapped_routing nm ro logits =
     (if ro_router_type ro = ''deepseek_gate'' then
        (case ro_spec ro of
           None \<Rightarrow> Inl (RuntimeError ''DeepSeek routing spec was not initialized'')
         | Some spec \<Rightarrow>
             (case ro_bias ro of
                None \<Rightarrow> Inl (RuntimeError ''DeepSeek noaux_tc gate is missing e_score_correction_bias'')
              | Some bias \<Rightarrow> rbind (all_results (map (deepseek_row nm spec bias) logits)) (finish_rows nm ro)))
      else if ro_router_type ro = ''glm4_moe_gate''
      then rbind (all_results (map (glm_row nm ro) logits)) (finish_rows nm ro)
      else
        rbind (all_results (map (softmax_row nm (or_default (ro_norm_topk_prob ro) True)
                 (or_default (ro_top_k ro) (ro_experts_per_tok ro))) logits)) (\<lambda>out.
        finish_rows nm ro (map (\<lambda>(ids, ws). (ids, map (nm_logits_type nm) ws)) out)))"

definition as_logits :: "'r rows \<Rightarrow> 'r list list result" where
  "as_logits t = (case t of Floats rows \<Rightarrow> Inr rows | Ints _ \<Rightarrow> Inl (RuntimeError ''softmax not implemented for integers''))"

definition plain_routing :: "'r::linordered_field numeric \<Rightarrow> 'r routing \<Rightarrow> 'r router_output \<Rightarrow> ('r rows \<times> 'r rows) result" where
  "plain_routing nm ro out =
     (let soft = (\<lambda>t. rbind (as_logits t) (\<lambda>logits.
            rbind (all_results (map (softmax_row nm True (ro_experts_per_tok ro)) logits)) (finish_rows nm ro))) in
      case out of
        Several (a # b # c # _) \<Rightarrow> finish_routing nm ro c b
      | Several (a # _) \<Rightarrow> soft a
      | Several [] \<Rightarrow> Inl (IndexError ''tuple index out of range'')
      | Single t \<Rightarrow> soft t)"

text \<open>What the constructor of the layer keeps of the original router and its metadata.\<close>

datatype router_module = No_router | Linear_router | Parameter_router | Other_router

definition init_routing ::
  "(string \<Rightarrow> 'r pyfloat option) \<Rightarrow> string \<Rightarrow> router_module \<Rightarrow> 'r::linordered_field attrs option list \<Rightarrow> int
     \<Rightarrow> 'r list option \<Rightarrow> (bool \<times> 'r routing_spec option) result" where
  "init_routing parse_float router_type original sources expert_num bias =
     (let wrapped = (original = Parameter_router) in
      if router_type = ''deepseek_gate'' \<and> wrapped then
        rbind (from_modules parse_float sources expert_num) (\<lambda>spec.
        case bias of
          Some b \<Rightarrow> (if int (length b) = expert_num then Inr (True, Some spec)
                     else Inl (ValueError ''correction bias must have one entry per expert''))
        | None \<Rightarrow> Inl (ValueError ''correction bias must have one entry per expert''))
      else Inr (wrapped, None))"

text \<open>
  The state is the training mode of the router: the native gate is switched to evaluation around its call,
  which asserts that mode.
\<close>

definition compute_routing :: "'r::linordered_field numeric \<Rightarrow> 'r routing \<Rightarrow> (bool, 'r rows \<times> 'r rows) eop" where
  "compute_routing nm ro =
     (if ro_router_type ro = ''deepseek_gate'' \<and> \<not> ro_wrapped ro then
        ebind (egets (\<lambda>training. training)) (\<lambda>was_training.
        ebind (eupd (\<lambda>training. if was_training then False else training)) (\<lambda>_.
        ebind (elift (ro_output ro)) (\<lambda>out.
        ebind (eupd (\<lambda>training. if was_training then True else training)) (\<lambda>_.
        (case out of
           Several [topk_ids, topk_weights] \<Rightarrow> elift (finish_routing nm ro topk_ids topk_weights)
         | _ \<Rightarrow> eraise (RuntimeError ''DeepSeek gate must return (topk_ids, topk_weights)''))))))
      else
        ebind (elift (ro_output ro)) (\<lambda>out.
        if ro_wrapped ro then
          (case out of
             Single (Floats logits) \<Rightarrow> elift (wrapped_routing nm ro logits)
           | _ \<Rightarrow> eraise (TypeError ''the projection returns a tensor of logits''))
        else elift (plain_routing nm ro out)))"

end
