(* ===== verification/RoutingSound.thy ===== *)
theory RoutingSound
  imports Routing
begin

text \<open>
  Which experts \<open>_compute_routing\<close> selects, and with which weights. \<open>topk_law\<close> is the documented
  behaviour of \<open>torch.topk\<close>.
\<close>

definition topk_law :: "('r::linorder) topk \<Rightarrow> bool" where
  "topk_law topk \<longleftrightarrow> (\<forall>xs k. k \<le> length xs \<longrightarrow> topk_ok topk xs k)"

lemma topk_checkedE:
  assumes "topk_checked topk xs k = Inr ix" "topk_law topk"
  shows "length ix = k" "distinct ix" "\<forall>i \<in> set ix. i < length xs" "k \<le> length xs"
    "i \<in> set ix \<Longrightarrow> j < length xs \<Longrightarrow> j \<notin> set ix \<Longrightarrow> xs ! j \<le> xs ! i"
proof -
  have ix: "ix = topk xs k" "k \<le> length xs" using assms(1) by (auto simp: topk_checked_def split: if_splits)
  with assms(2) have "topk_ok topk xs k" by (simp add: topk_law_def)
  with ix show "length ix = k" "distinct ix" "\<forall>i \<in> set ix. i < length xs" "k \<le> length xs"
    "i \<in> set ix \<Longrightarrow> j < length xs \<Longrightarrow> j \<notin> set ix \<Longrightarrow> xs ! j \<le> xs ! i"
    by (simp_all add: topk_ok_def)
qed

lemma topk_checked_total: "k \<le> length xs \<Longrightarrow> topk_checked topk xs k = Inr (topk xs k)"
  by (simp add: topk_checked_def)

lemma all_results_Inr: "all_results rs = Inr as \<longleftrightarrow> rs = map Inr as"
  by (induction rs arbitrary: as) (auto simp: Cons_eq_map_conv)

section \<open>The scores of groups\<close>

text \<open>The largest sum of two different entries.\<close>

definition best_pair :: "'r::linordered_field list \<Rightarrow> 'r" where
  "best_pair xs = Max ((\<lambda>(a, b). xs ! a + xs ! b) ` {(a, b). a < length xs \<and> b < length xs \<and> a \<noteq> b})"

lemma pair_bound:
  fixes xs :: "'r::linordered_field list"
  assumes "length ix = 2" "distinct ix"
    and top: "\<And>i j. i \<in> set ix \<Longrightarrow> j < length xs \<Longrightarrow> j \<notin> set ix \<Longrightarrow> xs ! j \<le> xs ! i"
    and ab: "a < length xs" "b < length xs" "a \<noteq> b"
  shows "xs ! a + xs ! b \<le> sum_list (map (\<lambda>i. xs ! i) ix)"
proof -
  obtain i j where ix: "ix = [i, j]" "i \<noteq> j"
    using assms(1,2) by (auto simp: numeral_2_eq_2 length_Suc_conv)
  consider "a \<in> set ix" "b \<in> set ix" | "a \<in> set ix" "b \<notin> set ix" | "a \<notin> set ix" "b \<in> set ix" | "a \<notin> set ix" "b \<notin> set ix"
    by blast
  then show ?thesis
  proof cases
    case 1
    with ab(3) ix show ?thesis by (auto simp: add.commute)
  next
    case 2
    with top [of i b] top [of j b] ab ix show ?thesis by (auto simp: add.commute)
  next
    case 3
    with top [of i a] top [of j a] ab ix show ?thesis by (auto simp: add.commute)
  next
    case 4
    with top [of i a] top [of j b] ab ix show ?thesis by (simp add: add_mono)
  qed
qed

lemma group_score_best:
  assumes "topk_law topk" "2 \<le> length xs"
  shows "group_score topk xs = Inr (best_pair xs)"
proof -
  let ?ix = "topk xs 2"
  have sel: "topk_checked topk xs 2 = Inr ?ix" by (rule topk_checked_total [OF assms(2)])
  note ix = topk_checkedE [OF sel assms(1)]
  let ?S = "(\<lambda>(a, b). xs ! a + xs ! b) ` {(a, b). a < length xs \<and> b < length xs \<and> a \<noteq> b}"
  have fin: "finite ?S"
    by (rule finite_imageI, rule finite_subset [of _ "{..<length xs} \<times> {..<length xs}"]) auto
  obtain i j where ij: "?ix = [i, j]" using ix(1) by (auto simp: numeral_2_eq_2 length_Suc_conv)
  have "sum_list (map (\<lambda>i. xs ! i) ?ix) \<in> ?S"
    using ix(2,3) by (auto simp: ij intro!: rev_image_eqI [of "(i, j)"])
  moreover have "s \<le> sum_list (map (\<lambda>i. xs ! i) ?ix)" if "s \<in> ?S" for s
    using that pair_bound [OF ix(1,2,5)] by auto
  ultimately have "best_pair xs = sum_list (map (\<lambda>i. xs ! i) ?ix)"
    unfolding best_pair_def using fin by (intro Max_eqI) auto
  with sel show ?thesis by (simp add: group_score_def)
qed

lemma group_block_length: "(g + 1) * per_group \<le> length xs \<Longrightarrow> length (group_block per_group xs g) = per_group"
  by (simp add: group_block_def algebra_simps)

section \<open>The selected experts\<close>

text \<open>
  The intended selection: \<open>top_k\<close> different experts of the \<open>topk_group\<close> groups with the best pairs, the
  best ones of these groups.
\<close>

definition selects_in_groups :: "nat \<Rightarrow> nat \<Rightarrow> nat \<Rightarrow> nat \<Rightarrow> 'r::linordered_field list \<Rightarrow> nat list \<Rightarrow> bool" where
  "selects_in_groups n_group per_group topk_group top_k choice ids \<longleftrightarrow>
     (\<exists>groups. distinct groups \<and> length groups = topk_group \<and> set groups \<subseteq> {..<n_group} \<and>
        (\<forall>g \<in> set groups. \<forall>h \<in> {..<n_group} - set groups.
           best_pair (group_block per_group choice h) \<le> best_pair (group_block per_group choice g)) \<and>
        length ids = top_k \<and> distinct ids \<and> (\<forall>i \<in> set ids. i < length choice \<and> i div per_group \<in> set groups) \<and>
        (\<forall>i \<in> set ids. \<forall>e < length choice. e div per_group \<in> set groups \<longrightarrow> e \<notin> set ids \<longrightarrow> choice ! e \<le> choice ! i))"

lemma select_grouped_steps:
  assumes law: "topk_law topk" and shape: "0 < n_group" "length choice = n_group * per_group" "expert_num div n_group = per_group"
    and per: "2 \<le> per_group" and k: "topk_group \<le> n_group" "top_k \<le> length choice"
  obtains groups ids where "select_grouped topk expert_num n_group topk_group top_k choice = Inr ids"
    "distinct groups" "length groups = topk_group" "set groups \<subseteq> {..<n_group}"
    "\<forall>g \<in> set groups. \<forall>h \<in> {..<n_group} - set groups.
       best_pair (group_block per_group choice h) \<le> best_pair (group_block per_group choice g)"
    "topk_checked topk (masked_scores per_group groups choice) top_k = Inr ids"
proof -
  let ?scores = "map (\<lambda>g. best_pair (group_block per_group choice g)) [0..<n_group]"
  have block: "2 \<le> length (group_block per_group choice g)" if "g < n_group" for g
  proof -
    have "(g + 1) * per_group \<le> n_group * per_group" using that by (intro mult_right_mono) auto
    with per show ?thesis by (simp add: group_block_length shape(2))
  qed
  have scores: "all_results (map (\<lambda>g. group_score topk (group_block per_group choice g)) [0..<n_group]) = Inr ?scores"
    by (simp add: all_results_Inr group_score_best [OF law block])
  have sel: "topk_checked topk ?scores topk_group = Inr (topk ?scores topk_group)"
    using k(1) by (simp add: topk_checked_total)
  note g = topk_checkedE [OF sel law]
  have "topk_checked topk (masked_scores per_group (topk ?scores topk_group) choice) top_k =
      Inr (topk (masked_scores per_group (topk ?scores topk_group) choice) top_k)"
    using k(2) by (simp add: topk_checked_total masked_scores_def)
  moreover from this have "select_grouped topk expert_num n_group topk_group top_k choice =
      Inr (topk (masked_scores per_group (topk ?scores topk_group) choice) top_k)"
    using shape scores sel by (simp add: select_grouped_def Let_def)
  moreover have "\<forall>a \<in> set (topk ?scores topk_group). \<forall>h \<in> {..<n_group} - set (topk ?scores topk_group).
       best_pair (group_block per_group choice h) \<le> best_pair (group_block per_group choice a)"
  proof (intro ballI)
    fix a h assume a: "a \<in> set (topk ?scores topk_group)" and h: "h \<in> {..<n_group} - set (topk ?scores topk_group)"
    have "a < n_group" using g(3) a by auto
    with g(5) [OF a, of h] h show "best_pair (group_block per_group choice h) \<le> best_pair (group_block per_group choice a)" by auto
  qed
  moreover have "set (topk ?scores topk_group) \<subseteq> {..<n_group}" using g(3) by auto
  ultimately show ?thesis using that g(1,2) by blast
qed

lemma masked_nth: "e < length choice \<Longrightarrow>
    masked_scores per_group groups choice ! e = (if e div per_group \<in> set groups then choice ! e else 0)"
  by (simp add: masked_scores_def)

lemma block_members:
  assumes "(0::nat) < per_group" "set groups \<subseteq> {..<n_group}" "distinct groups"
  shows "card {e. e < n_group * per_group \<and> e div per_group \<in> set groups} = length groups * per_group"
proof -
  have "bij_betw (\<lambda>(g, c). g * per_group + c) (set groups \<times> {..<per_group}) {e. e < n_group * per_group \<and> e div per_group \<in> set groups}"
    (is "bij_betw ?f ?A ?B")
  proof (rule bij_betw_byWitness [where f' = "\<lambda>e. (e div per_group, e mod per_group)"])
    show "?f ` ?A \<subseteq> ?B"
    proof safe
      fix g c assume "g \<in> set groups" "c < per_group"
      with assms(2) have "g + 1 \<le> n_group" by auto
      then have "(g + 1) * per_group \<le> n_group * per_group" by (rule mult_right_mono) simp
      with \<open>c < per_group\<close> show "g * per_group + c < n_group * per_group" by simp
      show "(g * per_group + c) div per_group \<in> set groups" using \<open>g \<in> set groups\<close> \<open>c < per_group\<close> by simp
    qed
  qed (use assms(1) in auto)
  then have "card ?B = card ?A" by (simp add: bij_betw_same_card)
  then show ?thesis using assms(3) by (simp add: card_cartesian_product distinct_card)
qed

text \<open>Choosing from scores that are positive in the selected groups never leaves them.\<close>

lemma grouped_positive:
  assumes sel: "topk_checked topk (masked_scores per_group groups choice) top_k = Inr ids" and law: "topk_law topk"
    and shape: "0 < per_group" "length choice = n_group * per_group" "set groups \<subseteq> {..<n_group}" "distinct groups"
    and k: "top_k \<le> length groups * per_group" and pos: "\<forall>e < length choice. 0 < choice ! e"
  shows "\<forall>i \<in> set ids. i div per_group \<in> set groups"
proof (rule ccontr)
  note s = topk_checkedE [OF sel law]
  assume "\<not> ?thesis"
  then obtain i where i: "i \<in> set ids" "i div per_group \<notin> set groups" by blast
  let ?G = "{e. e < n_group * per_group \<and> e div per_group \<in> set groups}"
  have len: "length (masked_scores per_group groups choice) = length choice" by (simp add: masked_scores_def)
  have "?G \<subseteq> set ids"
  proof
    fix e assume e: "e \<in> ?G"
    show "e \<in> set ids"
    proof (rule ccontr)
      assume "e \<notin> set ids"
      with s(5) [OF i(1), of e] e i s(3) len shape(2) have "choice ! e \<le> 0" by (simp add: masked_nth)
      with pos e shape(2) show False by (auto simp: not_less [symmetric])
    qed
  qed
  then have "insert i ?G \<subseteq> set ids" using i(1) by simp
  then have "card (insert i ?G) \<le> card (set ids)" by (intro card_mono) auto
  moreover have "card (insert i ?G) = Suc (length groups * per_group)"
    using i(2) by (subst card_insert_disjoint) (auto simp: block_members [OF shape(1,3,4)])
  ultimately show False using s(1,2) k by (simp add: distinct_card)
qed

text \<open>From negative scores it always leaves them, as long as there are enough masked experts.\<close>

lemma grouped_negative:
  assumes sel: "topk_checked topk (masked_scores per_group groups choice) top_k = Inr ids" and law: "topk_law topk"
    and shape: "0 < per_group" "length choice = n_group * per_group" "set groups \<subseteq> {..<n_group}" "distinct groups"
    and k: "top_k \<le> (n_group - length groups) * per_group" and neg: "\<forall>e < length choice. choice ! e < 0"
  shows "\<forall>i \<in> set ids. i div per_group \<notin> set groups"
proof (rule ccontr)
  note s = topk_checkedE [OF sel law]
  assume "\<not> ?thesis"
  then obtain i where i: "i \<in> set ids" "i div per_group \<in> set groups" by blast
  let ?G = "{e. e < n_group * per_group \<and> e div per_group \<in> set groups}"
  let ?M = "{..<n_group * per_group} - ?G"
  have len: "length (masked_scores per_group groups choice) = length choice" by (simp add: masked_scores_def)
  have "?M \<subseteq> set ids"
  proof
    fix e assume e: "e \<in> ?M"
    show "e \<in> set ids"
    proof (rule ccontr)
      assume "e \<notin> set ids"
      with s(5) [OF i(1), of e] e i s(3) len shape(2) have "0 \<le> choice ! i" by (auto simp: masked_nth)
      moreover have "i < length choice" using i(1) s(3) len by simp
      ultimately show False using neg by (auto simp: not_less [symmetric])
    qed
  qed
  then have "card (insert i ?M) \<le> card (set ids)" using i(1) by (intro card_mono) auto
  moreover have "i \<notin> ?M" using i s(3) len shape(2) by simp
  then have "card (insert i ?M) = Suc (card ?M)" by (subst card_insert_disjoint) auto
  moreover have "card ?M = n_group * per_group - length groups * per_group"
    by (subst card_Diff_subset) (auto simp: block_members [OF shape(1,3,4)])
  ultimately show False using s(1,2) k by (simp add: distinct_card diff_mult_distrib)
qed

section \<open>DeepSeek layers\<close>

lemma positive_meta_Inr: "positive_meta sources aliases = Inr n \<Longrightarrow> 0 < n"
proof -
  assume "positive_meta sources aliases = Inr n"
  then obtain v where "resolve_meta sources aliases = Inr v" and v: "(case v of MInt k \<Rightarrow> (if k \<le> 0 then Inl (ValueError ''must be a positive integer'') else Inr k)
       | _ \<Rightarrow> Inl (ValueError ''must be a positive integer'')) = Inr n"
    unfolding positive_meta_def by auto
  then show "0 < n" by (cases v) (simp_all split: if_splits)
qed

lemma accepted_spec:
  assumes "from_modules parse_float sources E = Inr spec"
  shows "rs_expert_num spec = E \<and> 0 < E \<and> 0 < rs_n_group spec \<and> 0 < rs_top_k spec \<and> 0 < rs_routed_scaling_factor spec \<and>
    E mod rs_n_group spec = 0 \<and> 2 \<le> E div rs_n_group spec \<and> 0 < rs_topk_group spec \<and> rs_topk_group spec \<le> rs_n_group spec \<and>
    rs_top_k spec \<le> rs_topk_group spec * (E div rs_n_group spec)"
proof -
  obtain G T K b x where parts: "positive_meta sources [''n_group''] = Inr G" "positive_meta sources [''topk_group''] = Inr T"
    "positive_meta sources [''top_k'', ''num_experts_per_tok''] = Inr K" "0 < x" "0 < E" "E mod G = 0" "2 \<le> E div G" "T \<le> G"
    "K \<le> T * (E div G)"
    "spec = \<lparr>rs_expert_num = E, rs_n_group = G, rs_topk_group = T, rs_top_k = K, rs_norm_topk_prob = b, rs_routed_scaling_factor = x\<rparr>"
    using assms unfolding from_modules_def
    by (elim rbind_eq_Inr [THEN iffD1, elim_format] exE conjE) (auto split: if_splits pyfloat.splits simp: not_less not_le)
  from positive_meta_Inr [OF parts(1)] positive_meta_Inr [OF parts(2)] positive_meta_Inr [OF parts(3)] parts(4-)
  show ?thesis by simp
qed

text \<open>The same facts for the natural numbers that the selection works with.\<close>

lemma spec_shape:
  assumes "from_modules parse_float sources E = Inr spec"
  defines "G \<equiv> nat (rs_n_group spec)" and "P \<equiv> nat (E div rs_n_group spec)"
  shows "0 < G" "nat (rs_expert_num spec) = G * P" "nat (rs_expert_num spec) div G = P" "2 \<le> P"
    "nat (rs_topk_group spec) \<le> G" "nat (rs_top_k spec) \<le> nat (rs_topk_group spec) * P" "nat (rs_top_k spec) \<le> G * P"
    "0 < nat (rs_top_k spec)" "nat E = G * P"
proof -
  note a = accepted_spec [OF assms(1)]
  have "E = rs_n_group spec * (E div rs_n_group spec)" using a by (metis add.right_neutral mult_div_mod_eq)
  then have "nat E = nat (rs_n_group spec) * nat (E div rs_n_group spec)"
    using a by (metis less_imp_le nat_mult_distrib)
  then show E: "nat (rs_expert_num spec) = G * P" "nat E = G * P" using a by (simp_all add: G_def P_def)
  have "rs_topk_group spec \<le> rs_n_group spec" using a by simp
  then show "nat (rs_topk_group spec) \<le> G" unfolding G_def by (rule nat_mono)
  show "0 < G" "2 \<le> P" "0 < nat (rs_top_k spec)"
    unfolding G_def P_def using a by linarith+
  then show "nat (rs_expert_num spec) div G = P" using E by simp
  have "nat (rs_top_k spec) \<le> nat (rs_topk_group spec * (E div rs_n_group spec))" using a by (intro nat_mono) simp
  then show k: "nat (rs_top_k spec) \<le> nat (rs_topk_group spec) * P" using a by (simp add: P_def nat_mult_distrib)
  have "nat (rs_topk_group spec) * P \<le> G * P"
    using \<open>nat (rs_topk_group spec) \<le> G\<close> by (rule mult_right_mono) simp
  then show "nat (rs_top_k spec) \<le> G * P" by (rule order.trans [OF k])
qed

definition choice_scores :: "'r::linordered_field numeric \<Rightarrow> 'r list \<Rightarrow> 'r list \<Rightarrow> 'r list" where
  "choice_scores nm bias logits = map2 (+) (map (nm_sigmoid nm) logits) bias"

lemma init_routing_spec:
  assumes "init_routing parse_float ''deepseek_gate'' Parameter_router sources E (Some bias) = Inr (True, Some spec)"
  shows "from_modules parse_float sources E = Inr spec" "length bias = nat E"
  using assms by (auto simp: init_routing_def split: if_splits)

lemma deepseek_row_steps:
  assumes law: "topk_law (nm_topk nm)" and spec: "from_modules parse_float sources E = Inr spec"
    and len: "length bias = nat E" "length logits = nat E"
  defines "G \<equiv> nat (rs_n_group spec)" and "P \<equiv> nat (E div rs_n_group spec)"
  obtains groups ids where
    "deepseek_row nm spec bias logits = Inr (ids, scaled_weights (rs_norm_topk_prob spec) (rs_routed_scaling_factor spec)
       (map (nm_sigmoid nm) logits) ids)"
    "distinct groups" "length groups = nat (rs_topk_group spec)" "set groups \<subseteq> {..<G}"
    "\<forall>g \<in> set groups. \<forall>h \<in> {..<G} - set groups.
       best_pair (group_block P (choice_scores nm bias logits) h) \<le> best_pair (group_block P (choice_scores nm bias logits) g)"
    "topk_checked (nm_topk nm) (masked_scores P groups (choice_scores nm bias logits)) (nat (rs_top_k spec)) = Inr ids"
proof -
  note sh = spec_shape [OF spec, folded G_def P_def]
  have size: "length (choice_scores nm bias logits) = G * P" using len sh(9) by (simp add: choice_scores_def)
  then obtain groups ids where g: "select_grouped (nm_topk nm) (nat (rs_expert_num spec)) G (nat (rs_topk_group spec)) (nat (rs_top_k spec))
      (choice_scores nm bias logits) = Inr ids"
    "distinct groups" "length groups = nat (rs_topk_group spec)" "set groups \<subseteq> {..<G}"
    "\<forall>g \<in> set groups. \<forall>h \<in> {..<G} - set groups.
       best_pair (group_block P (choice_scores nm bias logits) h) \<le> best_pair (group_block P (choice_scores nm bias logits) g)"
    "topk_checked (nm_topk nm) (masked_scores P groups (choice_scores nm bias logits)) (nat (rs_top_k spec)) = Inr ids"
    by (rule select_grouped_steps [OF law sh(1) _ sh(3,4,5), of "choice_scores nm bias logits" "nat (rs_top_k spec)"])
      (simp_all add: sh(7) size)
  have "deepseek_row nm spec bias logits = Inr (ids, scaled_weights (rs_norm_topk_prob spec) (rs_routed_scaling_factor spec)
       (map (nm_sigmoid nm) logits) ids)"
    using g(1) len by (simp add: deepseek_row_def choice_scores_def G_def)
  with g(2-) that show ?thesis by blast
qed

text \<open>
  C21. On a DeepSeek layer whose metadata and correction bias the constructor accepted, and with positive
  choice scores, a row of logits is always routed: to \<open>top_k\<close> different experts of the
  \<open>topk_group\<close> groups with the best pairs of scores, the best experts of these groups.
\<close>

theorem deepseek_selects_in_groups:
  assumes law: "topk_law (nm_topk nm)"
    and init: "init_routing parse_float ''deepseek_gate'' Parameter_router sources E (Some bias) = Inr (True, Some spec)"
    and len: "length logits = nat E" and pos: "\<forall>s \<in> set (choice_scores nm bias logits). 0 < s"
  shows "\<exists>ids. deepseek_row nm spec bias logits = Inr (ids, scaled_weights (rs_norm_topk_prob spec)
        (rs_routed_scaling_factor spec) (map (nm_sigmoid nm) logits) ids) \<and>
    selects_in_groups (nat (rs_n_group spec)) (nat (E div rs_n_group spec)) (nat (rs_topk_group spec)) (nat (rs_top_k spec))
      (choice_scores nm bias logits) ids"
proof -
  let ?c = "choice_scores nm bias logits" and ?P = "nat (E div rs_n_group spec)"
  note spec = init_routing_spec [OF init]
  note sh = spec_shape [OF spec(1)]
  obtain groups ids where g:
    "deepseek_row nm spec bias logits = Inr (ids, scaled_weights (rs_norm_topk_prob spec) (rs_routed_scaling_factor spec)
       (map (nm_sigmoid nm) logits) ids)"
    "distinct groups" "length groups = nat (rs_topk_group spec)" "set groups \<subseteq> {..<nat (rs_n_group spec)}"
    "\<forall>g \<in> set groups. \<forall>h \<in> {..<nat (rs_n_group spec)} - set groups.
       best_pair (group_block ?P ?c h) \<le> best_pair (group_block ?P ?c g)"
    "topk_checked (nm_topk nm) (masked_scores ?P groups ?c) (nat (rs_top_k spec)) = Inr ids"
    by (rule deepseek_row_steps [OF law spec(1,2) len])
  note s = topk_checkedE [OF g(6) law]
  have size: "length ?c = nat (rs_n_group spec) * ?P" using len spec(2) sh(9) by (simp add: choice_scores_def)
  have inside: "\<forall>i \<in> set ids. i div ?P \<in> set groups"
  proof (rule grouped_positive [OF g(6) law _ size g(4,2)])
    show "0 < ?P" using sh(4) by simp
    show "nat (rs_top_k spec) \<le> length groups * ?P" using sh(6) g(3) by simp
    show "\<forall>e < length ?c. 0 < ?c ! e" using pos by simp
  qed
  have best: "?c ! e \<le> ?c ! i" if "i \<in> set ids" "e < length ?c" "e div ?P \<in> set groups" "e \<notin> set ids" for i e
    using s(5) [OF that(1), of e] that inside s(3) by (simp add: masked_scores_def)
  have "selects_in_groups (nat (rs_n_group spec)) ?P (nat (rs_topk_group spec)) (nat (rs_top_k spec)) ?c ids"
    unfolding selects_in_groups_def
    by (rule exI [of _ groups]) (use g(2-5) s(1-3) inside best in \<open>auto simp: masked_scores_def\<close>)
  with g(1) show ?thesis by blast
qed

text \<open>
  C37. The masked experts keep the score 0, so a row whose scores are all negative is routed only to experts
  outside the selected groups when there are at least \<open>top_k\<close> of them.
\<close>

theorem negative_scores_leave_groups:
  assumes law: "topk_law (nm_topk nm)"
    and init: "init_routing parse_float ''deepseek_gate'' Parameter_router sources E (Some bias) = Inr (True, Some spec)"
    and len: "length logits = nat E" and neg: "\<forall>s \<in> set (choice_scores nm bias logits). s < 0"
    and many: "rs_top_k spec \<le> (rs_n_group spec - rs_topk_group spec) * (E div rs_n_group spec)"
  shows "\<exists>ids ws groups. deepseek_row nm spec bias logits = Inr (ids, ws) \<and> ids \<noteq> [] \<and>
    distinct groups \<and> length groups = nat (rs_topk_group spec) \<and>
    (\<forall>g \<in> set groups. \<forall>h \<in> {..<nat (rs_n_group spec)} - set groups.
       best_pair (group_block (nat (E div rs_n_group spec)) (choice_scores nm bias logits) h) \<le>
       best_pair (group_block (nat (E div rs_n_group spec)) (choice_scores nm bias logits) g)) \<and>
    (\<forall>i \<in> set ids. i div nat (E div rs_n_group spec) \<notin> set groups)"
proof -
  let ?c = "choice_scores nm bias logits" and ?P = "nat (E div rs_n_group spec)"
  note spec = init_routing_spec [OF init]
  note sh = spec_shape [OF spec(1)] and a = accepted_spec [OF spec(1)]
  obtain groups ids where g:
    "deepseek_row nm spec bias logits = Inr (ids, scaled_weights (rs_norm_topk_prob spec) (rs_routed_scaling_factor spec)
       (map (nm_sigmoid nm) logits) ids)"
    "distinct groups" "length groups = nat (rs_topk_group spec)" "set groups \<subseteq> {..<nat (rs_n_group spec)}"
    "\<forall>g \<in> set groups. \<forall>h \<in> {..<nat (rs_n_group spec)} - set groups.
       best_pair (group_block ?P ?c h) \<le> best_pair (group_block ?P ?c g)"
    "topk_checked (nm_topk nm) (masked_scores ?P groups ?c) (nat (rs_top_k spec)) = Inr ids"
    by (rule deepseek_row_steps [OF law spec(1,2) len])
  note s = topk_checkedE [OF g(6) law]
  have size: "length ?c = nat (rs_n_group spec) * ?P" using len spec(2) sh(9) by (simp add: choice_scores_def)
  have "\<forall>i \<in> set ids. i div ?P \<notin> set groups"
  proof (rule grouped_negative [OF g(6) law _ size g(4,2)])
    show "0 < ?P" using sh(4) by simp
    have "nat (rs_top_k spec) \<le> nat ((rs_n_group spec - rs_topk_group spec) * (E div rs_n_group spec))" by (rule nat_mono [OF many])
    also have "\<dots> = (nat (rs_n_group spec) - length groups) * ?P" using a g(3) by (simp add: nat_mult_distrib nat_diff_distrib)
    finally show "nat (rs_top_k spec) \<le> (nat (rs_n_group spec) - length groups) * ?P" .
    show "\<forall>e < length ?c. ?c ! e < 0" using neg by simp
  qed
  moreover have "ids \<noteq> []" using s(1) sh(8) by auto
  ultimately show ?thesis using g(1,2,3,5) by blast
qed

section \<open>Weights\<close>

lemma sum_list_positive: "xs \<noteq> [] \<Longrightarrow> \<forall>x \<in> set xs. 0 < x \<Longrightarrow> 0 < sum_list xs" for xs :: "'r::linordered_field list"
proof (induction xs)
  case (Cons x xs)
  then show ?case by (cases "xs = []") (simp_all add: add_pos_pos)
qed simp

text \<open>
  With normalisation the weights of a row are positive and sum to less than the scaling factor.
\<close>

theorem deepseek_weights_bounded:
  assumes law: "topk_law (nm_topk nm)"
    and init: "init_routing parse_float ''deepseek_gate'' Parameter_router sources E (Some bias) = Inr (True, Some spec)"
    and row: "deepseek_row nm spec bias logits = Inr (ids, ws)" "rs_norm_topk_prob spec"
    and sigmoid: "\<forall>x. 0 < nm_sigmoid nm x"
  shows "(\<forall>w \<in> set ws. 0 < w) \<and> sum_list ws < rs_routed_scaling_factor spec \<and> length ws = nat (rs_top_k spec)"
proof -
  let ?probs = "map (nm_sigmoid nm) logits" and ?s = "rs_routed_scaling_factor spec"
  let ?S = "sum_list (map (\<lambda>i. ?probs ! i) ids)"
  note spec = init_routing_spec [OF init]
  obtain choice where sel: "topk_checked (nm_topk nm) choice (nat (rs_top_k spec)) = Inr ids" and len: "length choice \<le> length ?probs"
    and ws: "ws = scaled_weights True ?s ?probs ids"
    using row by (auto simp: deepseek_row_def select_grouped_def masked_scores_def Let_def split: if_splits)
  note i = topk_checkedE [OF sel law]
  have ne: "ids \<noteq> []" using i(1) spec_shape(8) [OF spec(1)] by auto
  have pos: "\<forall>j \<in> set ids. 0 < ?probs ! j" using i(3) len sigmoid by auto
  have sum: "0 < ?S" by (rule sum_list_positive) (use pos ne in auto)
  have e: "(0 :: 'a) < eps" "0 < ?s" using accepted_spec [OF spec(1)] by (simp_all add: eps_def)
  have den: "0 < ?S + eps" using sum e(1) by simp
  have form: "ws = map (\<lambda>j. ?probs ! j * (?s / (?S + eps))) ids" by (simp add: ws scaled_weights_def Let_def comp_def)
  have "sum_list ws = ?S * (?s / (?S + eps))" unfolding form by (rule sum_list_mult_const)
  also have "\<dots> < ?s" using den e sum by (simp add: field_simps)
  finally have "sum_list ws < ?s" .
  moreover have "\<forall>w \<in> set ws. 0 < w" using form pos den e(2) by simp
  ultimately show ?thesis using form i(1) by simp
qed

section \<open>The shape of the result\<close>

definition row_routed :: "nat \<Rightarrow> 'r list \<Rightarrow> nat list \<times> 'r list \<Rightarrow> bool" where
  "row_routed k logits out \<longleftrightarrow>
     distinct (fst out) \<and> length (fst out) = k \<and> length (snd out) = k \<and> (\<forall>e \<in> set (fst out). e < length logits)"

lemma scaled_weights_length [simp]: "length (scaled_weights normalise scale probs ids) = length ids"
  by (simp add: scaled_weights_def Let_def)

lemma select_grouped_shape:
  assumes "select_grouped topk E G T k choice = Inr ids" "topk_law topk"
  shows "distinct ids \<and> length ids = k \<and> (\<forall>e \<in> set ids. e < length choice)"
proof -
  obtain groups where "topk_checked topk (masked_scores (E div G) groups choice) k = Inr ids"
    using assms(1) by (auto simp: select_grouped_def Let_def split: if_splits)
  from topk_checkedE [OF this assms(2)] show ?thesis by (simp add: masked_scores_def)
qed

lemma deepseek_row_shape:
  "deepseek_row nm spec bias logits = Inr out \<Longrightarrow> topk_law (nm_topk nm) \<Longrightarrow> row_routed (nat (rs_top_k spec)) logits out"
  by (auto simp: deepseek_row_def row_routed_def Let_def dest: select_grouped_shape split: if_splits)

lemma add_bias_length: "add_bias probs bias = Inr scores \<Longrightarrow> length scores = length probs"
  by (auto simp: add_bias_def split: option.splits if_splits)

lemma glm_row_shape:
  "glm_row nm ro logits = Inr out \<Longrightarrow> topk_law (nm_topk nm) \<Longrightarrow>
     row_routed (or_default (ro_top_k ro) (ro_experts_per_tok ro)) logits out"
  by (auto simp: glm_row_def row_routed_def Let_def rbind_eq_Inr dest!: select_grouped_shape add_bias_length split: if_splits option.splits)

lemma softmax_row_shape:
  assumes "softmax_row nm normalise k logits = Inr out" "topk_law (nm_topk nm)" "length (nm_softmax nm logits) = length logits"
  shows "row_routed k logits out"
proof -
  obtain ids where "topk_checked (nm_topk nm) (nm_softmax nm logits) k = Inr ids" "fst out = ids" "length (snd out) = length ids"
    using assms(1) by (auto simp: softmax_row_def Let_def)
  with topk_checkedE [OF this(1) assms(2)] assms(3) show ?thesis by (simp add: row_routed_def)
qed

lemma all_results_rows:
  assumes "all_results (map f rows) = Inr out" "\<And>l r. f l = Inr r \<Longrightarrow> P l r"
  shows "list_all2 P rows out"
proof -
  have "map f rows = map Inr out" using assms(1) by (simp add: all_results_Inr)
  then have "length rows = length out" by (metis length_map)
  moreover have "P (rows ! i) (out ! i)" if "i < length rows" for i
    using \<open>map f rows = map Inr out\<close> that \<open>length rows = length out\<close> by (intro assms(2)) (metis nth_map)
  ultimately show ?thesis by (simp add: list_all2_conv_all_nth)
qed

definition routed_top_k :: "'r routing \<Rightarrow> nat" where
  "routed_top_k ro =
     (case (ro_router_type ro = ''deepseek_gate'', ro_spec ro) of
        (True, Some spec) \<Rightarrow> nat (rs_top_k spec)
      | _ \<Rightarrow> or_default (ro_top_k ro) (ro_experts_per_tok ro))"

lemma finish_rows_Inr:
  assumes "finish_rows nm ro out = Inr (ids, ws)"
  shows "ids = Ints (map fst out) \<and> ws = Floats (map (map (nm_bfloat16 nm)) (map snd out))"
  using assms by (auto simp: finish_rows_def finish_routing_def Let_def split: if_splits)

lemma wrapped_routing_rows:
  assumes run: "wrapped_routing nm ro logits = Inr (ids, ws)" and law: "topk_law (nm_topk nm)"
    and soft: "\<forall>l. length (nm_softmax nm l) = length l"
  shows "\<exists>out. list_all2 (row_routed (routed_top_k ro)) logits out \<and> ids = Ints (map fst out) \<and>
    ws = Floats (map (map (nm_bfloat16 nm)) (map snd out))"
proof (cases "ro_router_type ro = ''deepseek_gate''")
  case True
  with run obtain spec bias out where s: "ro_spec ro = Some spec"
    "all_results (map (deepseek_row nm spec bias) logits) = Inr out" "finish_rows nm ro out = Inr (ids, ws)"
    by (auto simp: wrapped_routing_def split: option.splits)
  have "list_all2 (row_routed (routed_top_k ro)) logits out"
    by (rule all_results_rows [OF s(2)]) (use True s(1) deepseek_row_shape [OF _ law] in \<open>simp add: routed_top_k_def\<close>)
  with finish_rows_Inr [OF s(3)] show ?thesis by blast
next
  case other: False
  have k: "routed_top_k ro = or_default (ro_top_k ro) (ro_experts_per_tok ro)" using other by (simp add: routed_top_k_def)
  show ?thesis
  proof (cases "ro_router_type ro = ''glm4_moe_gate''")
    case True
    with run other obtain out where s: "all_results (map (glm_row nm ro) logits) = Inr out" "finish_rows nm ro out = Inr (ids, ws)"
      by (auto simp: wrapped_routing_def)
    have "list_all2 (row_routed (routed_top_k ro)) logits out"
      by (rule all_results_rows [OF s(1)]) (use k glm_row_shape [OF _ law] in simp)
    with finish_rows_Inr [OF s(2)] show ?thesis by blast
  next
    case False
    let ?cast = "\<lambda>(ids, ws). (ids, map (nm_logits_type nm) ws)"
    from run other False obtain out where
      s: "all_results (map (softmax_row nm (or_default (ro_norm_topk_prob ro) True) (routed_top_k ro)) logits) = Inr out"
        "finish_rows nm ro (map ?cast out) = Inr (ids, ws)"
      unfolding k by (auto simp: wrapped_routing_def)
    have "list_all2 (row_routed (routed_top_k ro)) logits out"
      by (rule all_results_rows [OF s(1)]) (use softmax_row_shape [OF _ law] soft in blast)
    then have "list_all2 (row_routed (routed_top_k ro)) logits (map ?cast out)"
      by (auto simp: list_all2_conv_all_nth row_routed_def split: prod.splits)
    with finish_rows_Inr [OF s(2)] show ?thesis by blast
  qed
qed

text \<open>
  C28. Whatever the kind of a wrapped router, a routing that is returned has for each token exactly
  \<open>top_k\<close> different experts, all of them entries of the logits, with as many weights; and the training
  mode of the router is as before.
\<close>

theorem routing_well_shaped:
  assumes run: "compute_routing nm ro mode = (Inr (ids, ws), mode')" and wrapped: "ro_wrapped ro" "ro_output ro = Inr (Single (Floats logits))"
    and law: "topk_law (nm_topk nm)" and soft: "\<forall>l. length (nm_softmax nm l) = length l"
  shows "\<exists>idrows wrows. ids = Ints idrows \<and> ws = Floats wrows \<and> length idrows = length logits \<and> length wrows = length logits \<and>
    (\<forall>t < length logits. distinct (idrows ! t) \<and> length (idrows ! t) = routed_top_k ro \<and>
       length (wrows ! t) = routed_top_k ro \<and> (\<forall>e \<in> set (idrows ! t). e < length (logits ! t))) \<and> mode' = mode"
proof -
  have w: "wrapped_routing nm ro logits = Inr (ids, ws)" "mode' = mode"
    using run wrapped by (simp_all add: compute_routing_def ebind_def)
  from wrapped_routing_rows [OF w(1) law soft] obtain out where
    out: "list_all2 (row_routed (routed_top_k ro)) logits out" "ids = Ints (map fst out)"
      "ws = Floats (map (map (nm_bfloat16 nm)) (map snd out))" by blast
  from out(1) have "length out = length logits" by (simp add: list_all2_lengthD)
  with out w(2) show ?thesis
    by (intro exI [of _ "map fst out"] exI [of _ "map (map (nm_bfloat16 nm)) (map snd out)"])
      (auto simp: list_all2_conv_all_nth row_routed_def)
qed

text \<open>The native gate is put back into training mode, unless the gate raises.\<close>

lemma native_gate_mode:
  assumes "ro_router_type ro = ''deepseek_gate''" "\<not> ro_wrapped ro"
  shows "snd (compute_routing nm ro mode) = (mode \<and> is_ok (ro_output ro))"
  using assms
  by (cases "ro_output ro") (auto simp: compute_routing_def ebind_def split: router_output.splits list.splits)

section \<open>Examples\<close>

definition topk_by_sorting :: "('r::linordered_field) topk" where
  "topk_by_sorting xs k = take k (sort_key (\<lambda>i. - (xs ! i)) [0..<length xs])"

lemma topk_by_sorting_law: "topk_law topk_by_sorting"
  unfolding topk_law_def
proof (intro allI impI)
  fix xs :: "'a list" and k assume k: "k \<le> length xs"
  let ?f = "\<lambda>i. - (xs ! i)"
  let ?ys = "sort_key ?f [0..<length xs]"
  have ys: "distinct ?ys" "set ?ys = {..<length xs}" "length ?ys = length xs" "sorted (map ?f (take k ?ys @ drop k ?ys))"
    by (auto simp: sorted_sort_key)
  have "xs ! j \<le> xs ! i" if "i \<in> set (take k ?ys)" "j < length xs" "j \<notin> set (take k ?ys)" for i j
  proof -
    have "j \<in> set ?ys" using that(2) ys(2) by simp
    then have "j \<in> set (drop k ?ys)" using that(3) by (metis Un_iff append_take_drop_id set_append)
    then have "?f i \<le> ?f j" using ys(4) that(1) unfolding map_append sorted_append by auto
    then show ?thesis by simp
  qed
  moreover have "\<forall>i \<in> set (take k ?ys). i < length xs" using ys(2) set_take_subset by (metis lessThan_iff subsetD)
  ultimately show "topk_ok topk_by_sorting xs k" using k ys(1,3) by (simp add: topk_ok_def topk_by_sorting_def)
qed

definition sample_numeric :: "rat numeric" where
  "sample_numeric =
     \<lparr>nm_topk = topk_by_sorting, nm_sigmoid = (\<lambda>x. 1 / (1 + x * x)), nm_softmax = (\<lambda>l. l), nm_bfloat16 = (\<lambda>x. x),
      nm_logits_type = (\<lambda>x. x)\<rparr>"

definition sample_moe :: "rat attrs option list" where
  "sample_moe =
     [Some [(''n_group'', Some (MInt 2)), (''topk_group'', Some (MInt 1)), (''n_routed_experts'', Some (MInt 4)),
            (''top_k'', Some (MInt 2))],
      None, Some [(''norm_topk_prob'', Some (MBool True)), (''routed_scaling_factor'', Some (MInt 1))], None]"

definition sample_spec :: "rat routing_spec" where
  "sample_spec = \<lparr>rs_expert_num = 4, rs_n_group = 2, rs_topk_group = 1, rs_top_k = 2, rs_norm_topk_prob = True,
     rs_routed_scaling_factor = 1\<rparr>"

lemma sample_init:
  "init_routing (\<lambda>_. None) ''deepseek_gate'' Parameter_router sample_moe 4 (Some [b, b, b, b]) = Inr (True, Some sample_spec)"
proof -
  have "from_modules (\<lambda>_. None) sample_moe 4 = Inr sample_spec" by code_simp
  then show ?thesis by (simp add: init_routing_def)
qed

lemma sample_numeric_fields: "nm_topk sample_numeric = topk_by_sorting" "topk_law (nm_topk sample_numeric)"
  "\<forall>x. 0 < nm_sigmoid sample_numeric x"
  by (auto simp: sample_numeric_def topk_by_sorting_law intro: add_pos_nonneg)

theorem deepseek_selects_in_groups_witness:
  "\<exists>ids. selects_in_groups 2 2 1 2 (choice_scores sample_numeric [0, 0, 0, 0] [0, 1, 2, 3]) ids"
proof -
  have "\<forall>s \<in> set (choice_scores sample_numeric [0, 0, 0, 0] [0, 1, 2, 3]). 0 < s" by code_simp
  from deepseek_selects_in_groups [OF sample_numeric_fields(2) sample_init _ this] show ?thesis
    by (auto simp: sample_spec_def)
qed

theorem negative_scores_leave_groups_witness:
  "\<exists>ids ws groups. deepseek_row sample_numeric sample_spec [-2, -2, -2, -2] [0, 1, 2, 3] = Inr (ids, ws) \<and> ids \<noteq> [] \<and>
    length groups = 1 \<and> (\<forall>i \<in> set ids. i div 2 \<notin> set groups)"
proof -
  have neg: "\<forall>s \<in> set (choice_scores sample_numeric [-2, -2, -2, -2] [0, 1, 2, 3]). s < 0" by code_simp
  have many: "rs_top_k sample_spec \<le> (rs_n_group sample_spec - rs_topk_group sample_spec) * (4 div rs_n_group sample_spec)"
    by (simp add: sample_spec_def)
  from negative_scores_leave_groups [OF sample_numeric_fields(2) sample_init _ neg many] show ?thesis
    by (auto simp: sample_spec_def)
qed

theorem deepseek_weights_bounded_witness:
  "\<exists>ids ws. deepseek_row sample_numeric sample_spec [0, 0, 0, 0] [0, 1, 2, 3] = Inr (ids, ws) \<and> sum_list ws < 1 \<and> length ws = 2"
proof -
  have len: "length [0 :: rat, 0, 0, 0] = nat 4" "length [0 :: rat, 1, 2, 3] = nat 4" by simp_all
  obtain ids ws where row: "deepseek_row sample_numeric sample_spec [0, 0, 0, 0] [0, 1, 2, 3] = Inr (ids, ws)"
    by (rule deepseek_row_steps [OF sample_numeric_fields(2) init_routing_spec(1) [OF sample_init] len])
  from deepseek_weights_bounded [OF sample_numeric_fields(2) sample_init row _ sample_numeric_fields(3)] row show ?thesis
    by (auto simp: sample_spec_def)
qed

definition sample_routing :: "rat routing" where
  "sample_routing =
     \<lparr>ro_router_type = ''glm4_moe_gate'', ro_wrapped = True, ro_spec = None, ro_bias = None, ro_n_group = Some 2,
      ro_topk_group = Some 1, ro_top_k = None, ro_norm_topk_prob = None, ro_scaling_factor = None, ro_expert_num = 4,
      ro_experts_per_tok = 2, ro_grad_enabled = False, ro_weights_grad = False,
      ro_output = Inr (Single (Floats [[0, 1, 2, 3], [3, 2, 1, 0]]))\<rparr>"

theorem routing_well_shaped_witness:
  "\<exists>ids ws. compute_routing sample_numeric sample_routing True = (Inr (Ints ids, Floats ws), True) \<and>
     length (ids ! 1) = 2 \<and> distinct (ids ! 1)"
proof -
  have "is_ok (fst (compute_routing sample_numeric sample_routing True))" by code_simp
  then obtain ids ws mode where run: "compute_routing sample_numeric sample_routing True = (Inr (ids, ws), mode)"
    by (cases "compute_routing sample_numeric sample_routing True"; cases "fst (compute_routing sample_numeric sample_routing True)") auto
  have out: "ro_wrapped sample_routing" "ro_output sample_routing = Inr (Single (Floats [[0, 1, 2, 3], [3, 2, 1, 0]]))"
    "\<forall>l. length (nm_softmax sample_numeric l) = length l"
    by (simp_all add: sample_routing_def sample_numeric_def)
  from routing_well_shaped [OF run out(1,2) sample_numeric_fields(2) out(3)] run show ?thesis
    by (auto simp: routed_top_k_def sample_routing_def or_default_def)
qed

end
