(* ===== verification/Artifacts.thy ===== *)
theory Artifacts
  imports WeightManifestSound FullWeights
    "HOL-Library.Word"
begin

text \<open>
  The reading and checking helpers of \<open>kt-kernel/python/sft/artifacts.py\<close>, shared by the three
  artifacts it owns: the sampled identity of a RAWINT4 base checkpoint, the cache of non-expert
  weights and the adapter bundle. \<open>codec\<close> collects what the code takes from outside: SHA-256 of a byte
  sequence, the JSON printer, the header of a safetensors file, and the bytes and \<open>fstat\<close> results of
  a file. Names and texts are ASCII; a path names no \<open>..\<close>.
\<close>

abbreviation ArtifactError :: "string \<Rightarrow> exn" where
  "ArtifactError \<equiv> RuntimeError"

type_synonym bytes = "8 word list"

record tensor_meta =
  tm_shape :: "int list"
  tm_dtype :: string

record file_stat =
  fs_dev :: int
  fs_ino :: int
  fs_ctime_ns :: int
  fs_size :: int

record 'c codec = "'c reader" +
  cd_sha :: "bytes \<Rightarrow> string"
  cd_dumps :: "jvalue \<Rightarrow> string"
  cd_json_file :: "jvalue \<Rightarrow> int \<times> 'c"
  cd_garbage :: 'c
  cd_tensors :: "'c \<Rightarrow> (string, tensor_meta) dict option"
  cd_bytes :: "'c \<Rightarrow> bytes"
  cd_fstat :: "path \<Rightarrow> nat \<Rightarrow> file_stat"
  cd_cwd :: path

definition ascii :: "string \<Rightarrow> bytes" where
  "ascii s = map (\<lambda>c. word_of_nat (of_char c)) s"

definition sha_text :: "'c codec \<Rightarrow> string \<Rightarrow> string" where
  "sha_text cd s = cd_sha cd (ascii s)"

definition nul :: string where
  "nul = [CHR 0x00]"

section \<open>Names and paths\<close>

definition is_basename :: "string \<Rightarrow> bool" where
  "is_basename s \<longleftrightarrow> slash \<notin> set s"

definition path_text :: "path \<Rightarrow> string" where
  "path_text p = slash # join_path p"

text \<open>\<open>root / name\<close>, and the absolute path that a text names.\<close>

definition subpath :: "path \<Rightarrow> string \<Rightarrow> path" where
  "subpath root name = (if is_absolute name then path_parts name else root @ path_parts name)"

definition absolute_path :: "'c codec \<Rightarrow> string \<Rightarrow> path" where
  "absolute_path cd s = subpath (cd_cwd cd) s"

section \<open>Reading\<close>

definition regular_file :: "'c tree \<Rightarrow> path \<Rightarrow> bool" where
  "regular_file fs p \<longleftrightarrow> \<not> is_link fs p \<and> is_file fs p"

definition sha256_file :: "'c codec \<Rightarrow> 'c tree \<Rightarrow> path \<Rightarrow> string result" where
  "sha256_file cd fs p =
     (case stat fs p of
        None \<Rightarrow> Inl (FileNotFoundError ''open'')
      | Some (File _ c) \<Rightarrow>
          (if rd_readable cd p then Inr (rd_sha256 cd c) else Inl (PermissionError ''open''))
      | Some _ \<Rightarrow> Inl (OSError ''is a directory''))"

definition read_json :: "'c codec \<Rightarrow> 'c tree \<Rightarrow> path \<Rightarrow> (string, jvalue) dict result" where
  "read_json cd fs p =
     (if \<not> regular_file fs p then Inl (ArtifactError ''must be a regular file'')
      else case stat fs p of
        Some (File _ c) \<Rightarrow>
          (if \<not> rd_readable cd p then Inl (ArtifactError ''could not read'')
           else case rd_json cd c of
             None \<Rightarrow> Inl (ArtifactError ''could not read'')
           | Some (VObject d) \<Rightarrow> Inr d
           | Some _ \<Rightarrow> Inl (ArtifactError ''must contain a JSON object''))
      | _ \<Rightarrow> Inl (ArtifactError ''must be a regular file''))"

definition require_string :: "jvalue \<Rightarrow> string result" where
  "require_string v =
     (case v of
        VStr s \<Rightarrow> (if s \<noteq> [] then Inr s else Inl (ArtifactError ''must be a non-empty string''))
      | _ \<Rightarrow> Inl (ArtifactError ''must be a non-empty string''))"

definition require_sha256 :: "jvalue \<Rightarrow> string result" where
  "require_sha256 v =
     rbind (require_string v) (\<lambda>s.
     if sha256_text s then Inr s else Inl (ArtifactError ''must be a lowercase SHA256 digest''))"

definition require_positive :: "jvalue \<Rightarrow> int result" where
  "require_positive v =
     (case v of
        VInt n \<Rightarrow> (if 0 < n then Inr n else Inl (ArtifactError ''must be a positive integer''))
      | _ \<Rightarrow> Inl (ArtifactError ''must be a positive integer''))"

text \<open>\<open>os.path.exists\<close>; the file-system root is a directory without an entry of its own.\<close>

definition exists_at :: "'c tree \<Rightarrow> path \<Rightarrow> bool" where
  "exists_at fs p \<longleftrightarrow> resolve fs p = [] \<or> path_exists fs p"

definition same_source :: "'c codec \<Rightarrow> 'c tree \<Rightarrow> string \<Rightarrow> string \<Rightarrow> bool" where
  "same_source cd fs expected actual =
     (let p = absolute_path cd expected; q = absolute_path cd actual in
      if (expected \<noteq> [] \<and> exists_at fs p) \<or> (actual \<noteq> [] \<and> exists_at fs q) then resolve fs p = resolve fs q
      else expected = actual)"

definition safe_root :: "'c tree \<Rightarrow> string \<Rightarrow> path result" where
  "safe_root fs s =
     (let p = path_parts s in
      if \<not> is_absolute s then Inl (ArtifactError ''must be an absolute path'')
      else if (p \<noteq> [] \<and> is_link fs p) \<or> \<not> dir_at fs p then Inl (ArtifactError ''must be a real directory'')
      else Inr (resolve fs p))"

definition canonical_json_sha256 :: "'c codec \<Rightarrow> (string, jvalue) dict \<Rightarrow> string" where
  "canonical_json_sha256 cd payload = sha_text cd (cd_dumps cd (VObject payload))"

text \<open>\<open>safe_open\<close> parses the header of a safetensors file.\<close>

definition open_shard :: "'c codec \<Rightarrow> 'c tree \<Rightarrow> path \<Rightarrow> (string, tensor_meta) dict result" where
  "open_shard cd fs p =
     (case stat fs p of
        Some (File _ c) \<Rightarrow>
          (case cd_tensors cd c of None \<Rightarrow> Inl (OSError ''SafetensorError'') | Some ts \<Rightarrow> Inr ts)
      | _ \<Rightarrow> Inl (FileNotFoundError ''safe_open''))"

section \<open>The names in a safetensors index\<close>

definition safetensors_index :: string where
  "safetensors_index = ''model.safetensors.index.json''"

definition safetensors_name :: "string \<Rightarrow> bool" where
  "safetensors_name s \<longleftrightarrow> is_basename s \<and> ends_with s ''.safetensors''"

fun shard_names :: "(string \<times> jvalue) list \<Rightarrow> string list result" where
  "shard_names [] = Inr []"
| "shard_names ((key, v) # weight_map) =
     (if key = [] then Inl (ArtifactError ''tensor names must be non-empty strings'')
      else case v of
        VStr s \<Rightarrow>
          (if safetensors_name s then rbind (shard_names weight_map) (\<lambda>names. Inr (s # names))
           else Inl (ArtifactError ''unsafe shard name''))
      | _ \<Rightarrow> Inl (ArtifactError ''unsafe shard name''))"

section \<open>Writing\<close>

text \<open>
  The disk during an operation that writes: the tree and the number of operations done so far. The
  \<open>n\<close>-th operation ends as \<open>io n\<close> says; one that fails half way (\<open>Partial\<close>) leaves what \<open>g\<close> says.
\<close>

record 'c disk =
  dk_tree :: "'c tree"
  dk_tick :: nat

definition disk_op :: "(nat \<Rightarrow> io) \<Rightarrow> ('c tree \<Rightarrow> 'c tree result) \<Rightarrow> ('c tree \<Rightarrow> 'c tree) \<Rightarrow> ('c disk, unit) eop" where
  "disk_op io f g d =
     (let d' = d\<lparr>dk_tick := Suc (dk_tick d)\<rparr> in
      case f (dk_tree d) of
        Inl e \<Rightarrow> (Inl e, d')
      | Inr fs \<Rightarrow>
          (case io (dk_tick d) of
             Done \<Rightarrow> (Inr (), d'\<lparr>dk_tree := fs\<rparr>)
           | Fails \<Rightarrow> (Inl (OSError ''I/O''), d')
           | Partial \<Rightarrow> (Inl (OSError ''I/O''), d'\<lparr>dk_tree := g (dk_tree d)\<rparr>)))"

definition disk_query :: "('c tree \<Rightarrow> 'a result) \<Rightarrow> ('c disk, 'a) eop" where
  "disk_query f d = (f (dk_tree d), d)"

text \<open>\<open>os.fsync\<close> of a directory: it may fail, and changes nothing that a reader sees.\<close>

definition fsync :: "(nat \<Rightarrow> io) \<Rightarrow> ('c disk, unit) eop" where
  "fsync io = disk_op io Inr id"

text \<open>
  \<open>_write_json_atomic\<close>: \<open>mkstemp\<close> beside the target (\<open>token\<close> is the random part of the name), the
  document, \<open>os.replace\<close>, and a handler that removes the temporary file, if it is still there.
\<close>

definition temp_name :: "string \<Rightarrow> string \<Rightarrow> string" where
  "temp_name name token = ''.'' @ name @ ''.'' @ token @ ''.tmp''"

definition fill_file :: "path \<Rightarrow> int \<times> 'c \<Rightarrow> 'c tree \<Rightarrow> 'c tree" where
  "fill_file p doc fs = dset fs (phys fs p) (File (fst doc) (snd doc))"

definition unlink_temp :: "(nat \<Rightarrow> io) \<Rightarrow> path \<Rightarrow> ('c disk, unit) eop" where
  "unlink_temp io temp d =
     (if lstat (dk_tree d) temp = None then (Inr (), d) else disk_op io (unlink temp) id d)"

definition write_json_atomic ::
  "'c codec \<Rightarrow> (nat \<Rightarrow> io) \<Rightarrow> string \<Rightarrow> path \<Rightarrow> string \<Rightarrow> (string, jvalue) dict \<Rightarrow> ('c disk, unit) eop" where
  "write_json_atomic cd io token dir name payload =
     (let temp = dir @ [temp_name name token] in
      ebind (disk_op io (create_file temp 0 (cd_garbage cd)) id) (\<lambda>_ d.
      case ebind (disk_op io (\<lambda>fs. Inr (fill_file temp (cd_json_file cd (VObject payload)) fs))
                    (fill_file temp (1, cd_garbage cd))) (\<lambda>_.
           ebind (disk_op io (replace_file temp (dir @ [name])) id) (\<lambda>_.
           fsync io)) d of
        (Inr u, d') \<Rightarrow> (Inr u, d')
      | (Inl e, d') \<Rightarrow>
          (case unlink_temp io temp d' of
             (Inr _, d'') \<Rightarrow> (Inl e, d'')
           | (Inl e', d'') \<Rightarrow> (Inl e', d''))))"

text \<open>\<open>json.load\<close> after \<open>json.dump\<close>.\<close>

definition json_law :: "'c codec \<Rightarrow> bool" where
  "json_law cd \<longleftrightarrow> (\<forall>v. jwf v \<longrightarrow> (\<exists>w. rd_json cd (snd (cd_json_file cd v)) = Some w \<and> jsame v w \<and> jwf w))"

section \<open>Facts about reading\<close>

lemma shard_names_Inr:
  "shard_names weight_map = Inr names \<Longrightarrow> (\<forall>s \<in> set names. safetensors_name s) \<and> length names = length weight_map"
  by (induction weight_map arbitrary: names rule: shard_names.induct) (auto split: if_splits jvalue.splits)

lemma read_json_Inr:
  "read_json cd fs p = Inr d \<longleftrightarrow>
     regular_file fs p \<and> rd_readable cd p \<and> (\<exists>n c. stat fs p = Some (File n c) \<and> rd_json cd c = Some (VObject d))"
  by (auto simp: read_json_def regular_file_def is_file_def split: option.splits node.splits jvalue.splits)

lemma sha256_file_Inr:
  "sha256_file cd fs p = Inr s \<longleftrightarrow>
     rd_readable cd p \<and> (\<exists>n c. stat fs p = Some (File n c) \<and> rd_sha256 cd c = s)"
  by (auto simp: sha256_file_def split: option.splits node.splits)

lemma require_string_Inr [simp]: "require_string v = Inr s \<longleftrightarrow> v = VStr s \<and> s \<noteq> []"
  by (auto simp: require_string_def split: jvalue.splits)

lemma require_sha256_Inr [simp]: "require_sha256 v = Inr s \<longleftrightarrow> v = VStr s \<and> sha256_text s"
proof -
  have "sha256_text s \<Longrightarrow> s \<noteq> []" by (auto simp: sha256_text_def)
  then show ?thesis unfolding require_sha256_def by (auto split: if_splits)
qed

lemma not_sha256_Nil [simp]: "\<not> sha256_text []"
  by (simp add: sha256_text_def)

lemma require_positive_Inr [simp]: "require_positive v = Inr n \<longleftrightarrow> v = VInt n \<and> 0 < n"
  by (auto simp: require_positive_def split: jvalue.splits)

lemma resolve_idem:
  assumes "tree_wf fs" "resolve fs p \<noteq> []" "\<exists>u w. dget fs (resolve fs p) = Some (Dir u w)"
  shows "resolve fs (resolve fs p) = resolve fs p"
  using assms resolve_entry [of fs "resolve fs p"] by auto

lemma safe_root_resolved:
  assumes "tree_wf fs" "safe_root fs s = Inr r"
  shows "resolve fs r = r" "dir_at fs r"
proof -
  let ?p = "path_parts s"
  from assms(2) have r: "r = resolve fs ?p" and d: "dir_at fs ?p"
    by (auto simp: safe_root_def Let_def split: if_splits)
  show idem: "resolve fs r = r"
  proof (cases "r = []")
    case True
    then show ?thesis by (simp add: resolve_def)
  next
    case False
    with d r have "\<exists>u w. dget fs r = Some (Dir u w)"
      by (auto simp: dir_at_def is_dir_def stat_def split: option.splits node.splits)
    with False r show ?thesis using resolve_idem [OF assms(1), of ?p] by simp
  qed
  with d r show "dir_at fs r" by (simp add: dir_at_def is_dir_def stat_def)
qed

section \<open>Facts about writing\<close>

lemma disk_op_cases:
  "disk_op io f g d = (Inr u, d') \<Longrightarrow> f (dk_tree d) = Inr (dk_tree d')"
  "disk_op io f g d = (Inl e, d') \<Longrightarrow> dk_tree d' = dk_tree d \<or> dk_tree d' = g (dk_tree d)"
  by (auto simp: disk_op_def Let_def split: sum.splits io.splits)

lemma fsync_tree: "dk_tree (snd (fsync io d)) = dk_tree d"
  by (simp add: fsync_def disk_op_def Let_def split: io.split)

lemma name_not_temp: "temp_name name token \<noteq> name" "name \<noteq> temp_name name token"
proof -
  have "length (temp_name name token) \<noteq> length name" by (simp add: temp_name_def)
  then show "temp_name name token \<noteq> name" "name \<noteq> temp_name name token" by metis+
qed

text \<open>A path whose components are directories, none of them a link.\<close>

definition real_path :: "'c tree \<Rightarrow> path \<Rightarrow> bool" where
  "real_path fs dir \<longleftrightarrow> (\<forall>k. 0 < k \<and> k \<le> length dir \<longrightarrow> (\<exists>u w. dget fs (take k dir) = Some (Dir u w)))"

lemma real_path_resolve: "real_path fs dir \<Longrightarrow> resolve fs dir = dir"
proof (induction dir rule: rev_induct)
  case (snoc c dir)
  have "real_path fs dir"
    unfolding real_path_def
  proof (intro allI impI)
    fix k assume "0 < k \<and> k \<le> length dir"
    then show "\<exists>u w. dget fs (take k dir) = Some (Dir u w)"
      using snoc.prems [unfolded real_path_def, rule_format, of k] by simp
  qed
  moreover have "link_target fs (dir @ [c]) = None"
    using snoc.prems [unfolded real_path_def, rule_format, of "Suc (length dir)"] by (auto simp: link_target_def)
  ultimately show ?case using resolve_child [of fs dir c] snoc.IH by simp
qed (simp add: resolve_def)

lemma real_path_agree:
  assumes "real_path fs dir" "\<And>q. length q \<le> length dir \<Longrightarrow> dget fs' q = dget fs q"
  shows "real_path fs' dir"
  using assms unfolding real_path_def by simp

lemma real_path_dir: "real_path fs dir \<Longrightarrow> dir_at fs dir"
proof (cases dir rule: rev_cases)
  case (snoc ds d)
  assume r: "real_path fs dir"
  then show ?thesis
    using r [unfolded real_path_def, rule_format, of "length dir"] snoc
    by (auto simp: dir_at_def is_dir_def stat_def real_path_resolve)
qed (simp add: dir_at_def resolve_def)

lemma safe_root_real:
  assumes "tree_wf fs" "safe_root fs s = Inr r"
  shows "real_path fs r"
proof -
  have up: "\<exists>u w. dget fs (take k p) = Some (Dir u w)"
    if "dget fs p = Some (Dir u w)" "0 < k" "k \<le> length p" for p k u w
    using that
  proof (induction p arbitrary: u w rule: rev_induct)
    case (snoc c p)
    show ?case
    proof (cases "k \<le> length p")
      case True
      with snoc.prems(2) have "p \<noteq> []" by auto
      with assms(1) snoc.prems(1) obtain u' w' where "dget fs p = Some (Dir u' w')"
        unfolding tree_wf_def by fastforce
      from snoc.IH [OF this snoc.prems(2) True] True show ?thesis by simp
    next
      case False
      with snoc.prems(3) have "k = Suc (length p)" by simp
      with snoc.prems(1) show ?thesis by simp
    qed
  qed simp
  show ?thesis
  proof (cases "r = []")
    case False
    have "resolve fs r = r" "dir_at fs r" using safe_root_resolved [OF assms] by blast+
    with False obtain u w where "dget fs r = Some (Dir u w)"
      by (auto simp: dir_at_def is_dir_def stat_def split: option.splits node.splits)
    with up show ?thesis unfolding real_path_def by blast
  qed (simp add: real_path_def)
qed

text \<open>A tree with the same entries, the target and the temporary file apart.\<close>

definition written :: "path \<Rightarrow> path \<Rightarrow> int \<times> 'c \<Rightarrow> 'c tree \<Rightarrow> 'c tree \<Rightarrow> bool" where
  "written temp target doc fs fs' \<longleftrightarrow>
     dget fs temp = None \<and>
     (\<forall>q. dget fs' q = (if q = target then Some (File (fst doc) (snd doc)) else dget fs q))"

definition only_temp :: "path \<Rightarrow> 'c tree \<Rightarrow> 'c tree \<Rightarrow> bool" where
  "only_temp temp fs fs' \<longleftrightarrow> fs' = fs \<or>
     dget fs temp = None \<and> (\<forall>q. q \<noteq> temp \<longrightarrow> dget fs' q = dget fs q) \<and>
     (\<forall>t. dget fs' temp \<noteq> Some (Link t))"

lemma create_file_Inr:
  assumes "resolve fs dir = dir" "create_file (dir @ [x]) n c fs = Inr fs'"
  shows "fs' = dset fs (dir @ [x]) (File n c)" "dget fs (dir @ [x]) = None" "resolve fs' dir = dir"
proof -
  show fs': "fs' = dset fs (dir @ [x]) (File n c)" and free: "dget fs (dir @ [x]) = None"
    using assms by (auto simp: create_file_def lstat_def phys_def split: if_splits)
  have "link_target fs (dir @ [x]) = None" using free by (simp add: link_target_def)
  then have "same_links fs fs'" unfolding fs' by (rule same_links_dset) simp
  then show "resolve fs' dir = dir" using resolve_same assms(1) by metis
qed

lemma fill_file_dir:
  assumes "resolve fs dir = dir" "dget fs (dir @ [x]) = Some (File n c)"
  shows "fill_file (dir @ [x]) doc fs = dset fs (dir @ [x]) (File (fst doc) (snd doc))"
    "resolve (fill_file (dir @ [x]) doc fs) dir = dir"
proof -
  show eq: "fill_file (dir @ [x]) doc fs = dset fs (dir @ [x]) (File (fst doc) (snd doc))"
    using assms(1) by (simp add: fill_file_def phys_def)
  have "link_target fs (dir @ [x]) = None" using assms(2) by (simp add: link_target_def)
  then have "same_links fs (dset fs (dir @ [x]) (File (fst doc) (snd doc)))" by (rule same_links_dset) simp
  then show "resolve (fill_file (dir @ [x]) doc fs) dir = dir" unfolding eq using resolve_same assms(1) by metis
qed

lemma replace_file_dir:
  assumes "resolve fs dir = dir" "dget fs (dir @ [x]) = Some (File n c)" "x \<noteq> y"
    "replace_file (dir @ [x]) (dir @ [y]) fs = Inr fs'"
  shows "dget fs' q = (if q = dir @ [y] then Some (File n c) else if q = dir @ [x] then None else dget fs q)"
  using assms by (auto simp: replace_file_def lstat_def phys_def split: option.splits node.splits)

text \<open>The temporary file of a target in a real directory.\<close>

definition temp_path :: "path \<Rightarrow> string \<Rightarrow> string \<Rightarrow> path" where
  "temp_path dir name token = dir @ [temp_name name token]"

lemma temp_path_longer: "length q \<le> length dir \<Longrightarrow> q \<noteq> temp_path dir name token \<and> q \<noteq> dir @ [name]"
  by (auto simp: temp_path_def)

lemma temp_not_target: "temp_path dir name token \<noteq> dir @ [name]" "dir @ [name] \<noteq> temp_path dir name token"
  by (simp_all add: temp_path_def name_not_temp)

lemma real_path_temp:
  assumes "real_path fs dir" "only_temp (temp_path dir name token) fs fs' \<or> written (temp_path dir name token) (dir @ [name]) doc fs fs'"
  shows "real_path fs' dir" "phys fs' (temp_path dir name token) = temp_path dir name token"
proof -
  show "real_path fs' dir"
  proof (rule real_path_agree [OF assms(1)])
    fix q :: path assume "length q \<le> length dir"
    from temp_path_longer [OF this] assms(2) show "dget fs' q = dget fs q"
      by (auto simp: only_temp_def written_def)
  qed
  then show "phys fs' (temp_path dir name token) = temp_path dir name token"
    by (simp add: phys_def temp_path_def real_path_resolve)
qed

lemma unlink_temp_cases:
  assumes u: "unlink_temp io (temp_path dir name token) d1 = (r, d2)"
    and real: "real_path fs dir" and free: "dget fs (temp_path dir name token) = None"
  shows "only_temp (temp_path dir name token) fs (dk_tree d1) \<Longrightarrow> only_temp (temp_path dir name token) fs (dk_tree d2)"
    "written (temp_path dir name token) (dir @ [name]) doc fs (dk_tree d1) \<Longrightarrow> dk_tree d2 = dk_tree d1"
proof -
  let ?temp = "temp_path dir name token"
  show "only_temp ?temp fs (dk_tree d2)" if o: "only_temp ?temp fs (dk_tree d1)"
  proof (cases "lstat (dk_tree d1) ?temp = None")
    case True
    with u o show ?thesis by (simp add: unlink_temp_def)
  next
    case False
    then have step: "disk_op io (unlink ?temp) id d1 = (r, d2)" using u unfolding unlink_temp_def by (simp only: if_False)
    have ph: "phys (dk_tree d1) ?temp = ?temp" using real_path_temp(2) real o by blast
    show ?thesis
    proof (cases r)
      case (Inl e)
      with step disk_op_cases(2) [of io _ id d1 e d2] o show ?thesis by auto
    next
      case (Inr u)
      with step have "unlink ?temp (dk_tree d1) = Inr (dk_tree d2)" using disk_op_cases(1) by blast
      then have "dk_tree d2 = ddel (dk_tree d1) ?temp" using ph by (auto simp: unlink_def split: option.splits node.splits)
      with o free show ?thesis by (auto simp: only_temp_def)
    qed
  qed
  show "dk_tree d2 = dk_tree d1" if w: "written ?temp (dir @ [name]) doc fs (dk_tree d1)"
  proof -
    have "phys (dk_tree d1) ?temp = ?temp" using real_path_temp(2) real w by blast
    then have "lstat (dk_tree d1) ?temp = None" using w temp_not_target(1) free by (simp add: lstat_def written_def)
    with u show ?thesis by (simp add: unlink_temp_def)
  qed
qed

definition write_body ::
  "'c codec \<Rightarrow> (nat \<Rightarrow> io) \<Rightarrow> path \<Rightarrow> path \<Rightarrow> int \<times> 'c \<Rightarrow> ('c disk, unit) eop" where
  "write_body cd io temp target doc =
     ebind (disk_op io (\<lambda>fs. Inr (fill_file temp doc fs)) (fill_file temp (1, cd_garbage cd))) (\<lambda>_.
     ebind (disk_op io (replace_file temp target) id) (\<lambda>_. fsync io))"

lemma write_body_cases:
  assumes b: "write_body cd io (temp_path dir name token) (dir @ [name]) doc d0 = (r, d')"
    and real: "real_path fs dir" and free: "dget fs (temp_path dir name token) = None"
    and d0: "dk_tree d0 = dset fs (temp_path dir name token) (File n c)"
  shows "written (temp_path dir name token) (dir @ [name]) doc fs (dk_tree d') \<or>
    (\<exists>e. r = Inl e) \<and> only_temp (temp_path dir name token) fs (dk_tree d')"
proof -
  let ?temp = "temp_path dir name token"
  let ?f = "disk_op io (\<lambda>fs. Inr (fill_file ?temp doc fs)) (fill_file ?temp (1, cd_garbage cd))"
  let ?m = "disk_op io (replace_file ?temp (dir @ [name])) id"
  have "only_temp ?temp fs (dk_tree d0)" using free d0 by (simp add: only_temp_def)
  then have "real_path (dk_tree d0) dir" using real_path_temp(1) real by blast
  then have dir0: "resolve (dk_tree d0) dir = dir" by (rule real_path_resolve)
  note fill = fill_file_dir [of "dk_tree d0" dir "temp_name name token" n c, folded temp_path_def, OF dir0]
  have g0: "dget (dk_tree d0) ?temp = Some (File n c)" using d0 by simp
  have early: "only_temp ?temp fs fs1"
    if "fs1 = dk_tree d0 \<or> fs1 = fill_file ?temp (1, cd_garbage cd) (dk_tree d0) \<or> fs1 = fill_file ?temp doc (dk_tree d0)" for fs1
    using that d0 free fill(1) [OF g0] by (auto simp: only_temp_def)
  obtain r1 d1 where f: "?f d0 = (r1, d1)" by force
  show ?thesis
  proof (cases r1)
    case (Inl e)
    then have "dk_tree d1 = dk_tree d0 \<or> dk_tree d1 = fill_file ?temp (1, cd_garbage cd) (dk_tree d0)"
      using f disk_op_cases(2) by blast
    with early have "only_temp ?temp fs (dk_tree d1)" by blast
    moreover have "r = Inl e" "d' = d1" using b f Inl by (simp_all add: write_body_def)
    ultimately show ?thesis by blast
  next
    case (Inr u1)
    then have d1: "dk_tree d1 = fill_file ?temp doc (dk_tree d0)" using f disk_op_cases(1) by fastforce
    have g1: "dget (dk_tree d1) ?temp = Some (File (fst doc) (snd doc))" using d1 fill(1) [OF g0] by simp
    have dir1: "resolve (dk_tree d1) dir = dir" using d1 fill(2) [OF g0] by simp
    obtain r2 d2 where m: "?m d1 = (r2, d2)" by force
    show ?thesis
    proof (cases r2)
      case (Inl e)
      then have "dk_tree d2 = dk_tree d1" using m disk_op_cases(2) [of io _ id d1 e d2] by auto
      with early d1 have "only_temp ?temp fs (dk_tree d2)" by metis
      moreover have "r = Inl e" "d' = d2" using b f m Inr Inl by (simp_all add: write_body_def)
      ultimately show ?thesis by blast
    next
      case (Inr u2)
      then have "replace_file ?temp (dir @ [name]) (dk_tree d1) = Inr (dk_tree d2)" using m disk_op_cases(1) by blast
      from replace_file_dir [of "dk_tree d1" dir "temp_name name token", folded temp_path_def, OF dir1 g1 name_not_temp(1) this]
      have "written ?temp (dir @ [name]) doc fs (dk_tree d2)"
        unfolding written_def using d1 fill(1) [OF g0] d0 free temp_not_target(2) by auto
      moreover have "dk_tree d' = dk_tree d2"
        using b f m \<open>r1 = Inr u1\<close> Inr fsync_tree [of io d2] by (simp add: write_body_def)
      ultimately show ?thesis by simp
    qed
  qed
qed

text \<open>The target is either as before, or it is the new document: never a part of it.\<close>

lemma write_json_atomic_cases:
  assumes w: "write_json_atomic cd io token dir name payload d = (r, d')" and real: "real_path (dk_tree d) dir"
  shows "written (temp_path dir name token) (dir @ [name]) (cd_json_file cd (VObject payload)) (dk_tree d) (dk_tree d') \<or>
    (\<exists>e. r = Inl e) \<and> only_temp (temp_path dir name token) (dk_tree d) (dk_tree d')"
proof -
  let ?temp = "temp_path dir name token" and ?doc = "cd_json_file cd (VObject payload)"
  let ?c = "disk_op io (create_file ?temp 0 (cd_garbage cd)) id"
  have dir: "resolve (dk_tree d) dir = dir" using real by (rule real_path_resolve)
  obtain r0 d0 where c: "?c d = (r0, d0)" by force
  show ?thesis
  proof (cases r0)
    case (Inl e)
    with c have "dk_tree d0 = dk_tree d" using disk_op_cases(2) [of io _ id d e d0] by auto
    moreover have "r = Inl e" "d' = d0" using w c Inl by (simp_all add: write_json_atomic_def temp_path_def Let_def)
    ultimately show ?thesis by (simp add: only_temp_def)
  next
    case (Inr u)
    with c have "create_file ?temp 0 (cd_garbage cd) (dk_tree d) = Inr (dk_tree d0)" using disk_op_cases(1) by blast
    from create_file_Inr [OF dir this [unfolded temp_path_def], folded temp_path_def]
    have d0: "dk_tree d0 = dset (dk_tree d) ?temp (File 0 (cd_garbage cd))" and free: "dget (dk_tree d) ?temp = None" by auto
    obtain r1 d1 where b: "write_body cd io ?temp (dir @ [name]) ?doc d0 = (r1, d1)" by force
    have w': "(case (r1, d1) of (Inr u, d') \<Rightarrow> (Inr u, d')
       | (Inl e, d') \<Rightarrow> (case unlink_temp io ?temp d' of (Inr _, d'') \<Rightarrow> (Inl e, d'') | (Inl e', d'') \<Rightarrow> (Inl e', d''))) = (r, d')"
      using w c Inr b unfolding write_json_atomic_def temp_path_def [symmetric] Let_def write_body_def by simp
    note cases = write_body_cases [OF b real free d0]
    show ?thesis
    proof (cases r1)
      case (Inl e)
      obtain r2 d2 where u: "unlink_temp io ?temp d1 = (r2, d2)" by force
      have "(case r2 of Inr _ \<Rightarrow> (Inl e, d2) | Inl e' \<Rightarrow> (Inl e', d2)) = (r, d')"
        using w' unfolding Inl u prod.case sum.case by assumption
      then have "d' = d2" "\<exists>e. r = Inl e" by (auto split: sum.splits)
      with cases unlink_temp_cases [OF u real free] show ?thesis by metis
    next
      case (Inr u1)
      with w' cases show ?thesis by simp
    qed
  qed
qed

end
