(* ===== verification/RawInt4Base.thy ===== *)
theory RawInt4Base
  imports Artifacts
begin

text \<open>
  The sampled identity of a RAWINT4 base checkpoint (\<open>_rawint4_shard_record\<close>,
  \<open>_rawint4_base_fingerprint\<close>, \<open>_rawint4_base_identity\<close>, \<open>_validate_rawint4_base_identity\<close> of
  \<open>kt-kernel/python/sft/artifacts.py\<close>). A shard of hundreds of megabytes is not read in full: its
  identity digests the safetensors header and eight windows of 64 KiB spread over the payload, and the
  device, inode and change time of the file stand in for the rest at the recorded path.
\<close>

section \<open>One shard\<close>

definition sample_bytes :: int where
  "sample_bytes = 64 * 1024"

definition sample_count :: int where
  "sample_count = 8"

text \<open>\<open>int.from_bytes(prefix, byteorder="little", signed=False)\<close>.\<close>

fun le_int :: "bytes \<Rightarrow> int" where
  "le_int [] = 0"
| "le_int (b # bs) = uint b + 256 * le_int bs"

definition sample_offsets :: "int \<Rightarrow> int \<Rightarrow> int list" where
  "sample_offsets payload_start payload_size =
     (let window_size = min sample_bytes payload_size; span = payload_size - window_size in
      sort (remdups (payload_start #
        (if payload_size > window_size
         then map (\<lambda>i. payload_start + span * i div (sample_count - 1)) [0..sample_count - 1] else []))))"

fun sample_stream :: "bytes \<Rightarrow> int \<Rightarrow> int \<Rightarrow> int list \<Rightarrow> bytes result" where
  "sample_stream content payload_start window_size [] = Inr []"
| "sample_stream content payload_start window_size (offset # offsets) =
     (let chunk = take (nat window_size) (drop (nat offset) content) in
      if int (length chunk) \<noteq> window_size then Inl (ArtifactError ''changed while fingerprinting'')
      else rbind (sample_stream content payload_start window_size offsets) (\<lambda>rest.
           Inr (ascii (str_of_int (offset - payload_start)) @ ascii nul @ chunk @ rest)))"

text \<open>The header and the bytes that the sample digest covers, of a file whose first \<open>fstat\<close> gives \<open>nbytes\<close>.\<close>

definition shard_samples :: "bytes \<Rightarrow> int \<Rightarrow> (bytes \<times> bytes) result" where
  "shard_samples content nbytes =
     (let prefix = take 8 content; header_size = le_int prefix; header = take (nat header_size) (drop 8 content) in
      if length prefix \<noteq> 8 then Inl (ArtifactError ''has no safetensors header'')
      else if header_size \<le> 0 \<or> header_size > nbytes - 8 then Inl (ArtifactError ''has an invalid safetensors header'')
      else if int (length header) \<noteq> header_size then Inl (ArtifactError ''has a truncated safetensors header'')
      else
        let payload_start = 8 + header_size; payload_size = nbytes - payload_start in
        rbind (sample_stream content payload_start (min sample_bytes payload_size) (sample_offsets payload_start payload_size))
          (\<lambda>samples. Inr (header, samples)))"

record shard_rec =
  sr_name :: string
  sr_size :: int
  sr_header_sha256 :: string
  sr_sample_sha256 :: string
  sr_device :: int
  sr_inode :: int
  sr_ctime_ns :: int

definition same_identity :: "file_stat \<Rightarrow> file_stat \<Rightarrow> bool" where
  "same_identity a b \<longleftrightarrow>
     fs_dev a = fs_dev b \<and> fs_ino a = fs_ino b \<and> fs_ctime_ns a = fs_ctime_ns b \<and> fs_size a = fs_size b"

definition rawint4_shard_record :: "'c codec \<Rightarrow> 'c tree \<Rightarrow> path \<Rightarrow> shard_rec result" where
  "rawint4_shard_record cd fs p =
     (if \<not> is_file fs p then Inl (ArtifactError ''must be a readable file'')
      else case stat fs p of
        Some (File _ c) \<Rightarrow>
          (if \<not> rd_readable cd p then Inl (PermissionError ''open'')
           else
             let st = cd_fstat cd p 0 in
             rbind (shard_samples (cd_bytes cd c) (fs_size st)) (\<lambda>(header, samples).
             rbind (require (same_identity st (cd_fstat cd p 1)) (ArtifactError ''changed while fingerprinting'')) (\<lambda>_.
             rbind (require (same_identity st (cd_fstat cd p 2)) (ArtifactError ''was replaced while fingerprinting'')) (\<lambda>_.
             Inr \<lparr>sr_name = last p, sr_size = fs_size st, sr_header_sha256 = cd_sha cd header,
                  sr_sample_sha256 = cd_sha cd samples, sr_device = fs_dev st, sr_inode = fs_ino st,
                  sr_ctime_ns = fs_ctime_ns st\<rparr>))))
      | _ \<Rightarrow> Inl (ArtifactError ''must be a readable file''))"

definition shard_identity_json :: "shard_rec \<Rightarrow> jvalue" where
  "shard_identity_json r =
     VObject [(''device'', VInt (sr_device r)), (''inode'', VInt (sr_inode r)), (''ctime_ns'', VInt (sr_ctime_ns r))]"

definition shard_json :: "shard_rec \<Rightarrow> (string, jvalue) dict" where
  "shard_json r =
     [(''name'', VStr (sr_name r)), (''size'', VInt (sr_size r)), (''header_sha256'', VStr (sr_header_sha256 r)),
      (''sample_sha256'', VStr (sr_sample_sha256 r)), (''file_identity'', shard_identity_json r)]"

section \<open>The checkpoint\<close>

definition rawint4_schema :: string where
  "rawint4_schema = ''safetensors-sharded-sampled-v1''"

text \<open>\<open>str(item.get("name", ""))\<close>; the callers have checked that every name is a string.\<close>

definition record_name :: "(string, jvalue) dict \<Rightarrow> string" where
  "record_name d = (case obj_get d ''name'' of VStr s \<Rightarrow> s | _ \<Rightarrow> [])"

definition portable :: "(string, jvalue) dict \<Rightarrow> jvalue" where
  "portable d = VObject (map (\<lambda>field. (field, obj_get d field)) [''header_sha256'', ''name'', ''sample_sha256'', ''size''])"

definition rawint4_base_fingerprint :: "'c codec \<Rightarrow> string \<Rightarrow> string \<Rightarrow> (string, jvalue) dict list \<Rightarrow> string" where
  "rawint4_base_fingerprint cd config_sha256 index_sha256 shards =
     sha_text cd (''kt-rawint4-base-safetensors-v1'' @ nul @ config_sha256 @ nul @ index_sha256 @ nul @
       concat (map (\<lambda>d. cd_dumps cd (portable d) @ nul) (sort_key record_name shards)))"

fun shard_records :: "'c codec \<Rightarrow> 'c tree \<Rightarrow> path \<Rightarrow> string list \<Rightarrow> shard_rec list result" where
  "shard_records cd fs root [] = Inr []"
| "shard_records cd fs root (name # names) =
     rbind (rawint4_shard_record cd fs (root @ [name])) (\<lambda>r.
     rbind (shard_records cd fs root names) (\<lambda>rs. Inr (r # rs)))"

text \<open>\<open>path.resolve(strict=True)\<close>.\<close>

definition resolve_strict :: "'c tree \<Rightarrow> path \<Rightarrow> path result" where
  "resolve_strict fs p =
     (if exists_at fs p then Inr (resolve fs p) else Inl (ArtifactError ''could not resolve RAWINT4 base checkpoint metadata''))"

definition base_json :: "'c codec \<Rightarrow> path \<Rightarrow> string \<Rightarrow> string \<Rightarrow> shard_rec list \<Rightarrow> (string, jvalue) dict" where
  "base_json cd root config_digest index_digest shards =
     [(''model_name_or_path'', VStr (path_text root)), (''fingerprint_schema'', VStr rawint4_schema),
      (''fingerprint'', VStr (rawint4_base_fingerprint cd config_digest index_digest (map shard_json shards))),
      (''config_sha256'', VStr config_digest), (''index_sha256'', VStr index_digest),
      (''shards'', VList (map (\<lambda>r. VObject (shard_json r)) shards))]"

definition rawint4_base_identity :: "'c codec \<Rightarrow> 'c tree \<Rightarrow> string \<Rightarrow> (string, jvalue) dict result" where
  "rawint4_base_identity cd fs model_path =
     rbind (safe_root fs model_path) (\<lambda>root.
     rbind (resolve_strict fs (root @ [''config.json''])) (\<lambda>config_path.
     rbind (resolve_strict fs (root @ [safetensors_index])) (\<lambda>index_path.
     rbind (read_json cd fs config_path) (\<lambda>config.
     rbind (read_json cd fs index_path) (\<lambda>index.
     case obj_get index ''weight_map'' of
       VObject weight_map \<Rightarrow>
         (if weight_map = [] then Inl (ArtifactError ''weight_map must be a non-empty object'')
          else
            rbind (shard_names weight_map) (\<lambda>names.
            rbind (shard_records cd fs root (sort (remdups names))) (\<lambda>shards.
            Inr (base_json cd root (canonical_json_sha256 cd config) (canonical_json_sha256 cd index) shards))))
     | _ \<Rightarrow> Inl (ArtifactError ''weight_map must be a non-empty object''))))))"

section \<open>Comparing a saved identity with the checkpoint\<close>

definition identity_fields :: "string list" where
  "identity_fields = [''device'', ''inode'', ''ctime_ns'']"

definition valid_identity :: "jvalue \<Rightarrow> bool" where
  "valid_identity v =
     (case v of
        VObject d \<Rightarrow> list_all (\<lambda>field. case obj_get d field of VInt _ \<Rightarrow> True | _ \<Rightarrow> False) identity_fields
      | _ \<Rightarrow> False)"

fun check_shard_records :: "jvalue list \<Rightarrow> string list \<Rightarrow> unit result" where
  "check_shard_records [] names = Inr ()"
| "check_shard_records (v # vs) names =
     (case v of
        VObject d \<Rightarrow>
          rbind (require_string (obj_get d ''name'')) (\<lambda>name.
          rbind (require (safetensors_name name \<and> name \<notin> set names) (ArtifactError ''invalid RAWINT4 base shard name'')) (\<lambda>_.
          rbind (require_positive (obj_get d ''size'')) (\<lambda>_.
          rbind (require_sha256 (obj_get d ''header_sha256'')) (\<lambda>_.
          rbind (require_sha256 (obj_get d ''sample_sha256'')) (\<lambda>_.
          rbind (require (valid_identity (obj_get d ''file_identity'')) (ArtifactError ''invalid file_identity'')) (\<lambda>_.
          check_shard_records vs (name # names)))))))
      | _ \<Rightarrow> Inl (ArtifactError ''must be an object''))"

definition object_fields :: "jvalue \<Rightarrow> (string, jvalue) dict" where
  "object_fields v = (case v of VObject d \<Rightarrow> d | _ \<Rightarrow> [])"

definition check_base_side :: "'c codec \<Rightarrow> (string, jvalue) dict \<Rightarrow> unit result" where
  "check_base_side cd value =
     (if obj_get value ''fingerprint_schema'' \<noteq> VStr rawint4_schema
      then Inl (ArtifactError ''unsupported RAWINT4 base fingerprint schema'')
      else
        rbind (require_sha256 (obj_get value ''fingerprint'')) (\<lambda>fingerprint.
        rbind (require_sha256 (obj_get value ''config_sha256'')) (\<lambda>config_digest.
        rbind (require_sha256 (obj_get value ''index_sha256'')) (\<lambda>index_digest.
        case obj_get value ''shards'' of
          VList shards \<Rightarrow>
            (if shards = [] then Inl (ArtifactError ''shards must be non-empty'')
             else
               rbind (check_shard_records shards []) (\<lambda>_.
               require (fingerprint = rawint4_base_fingerprint cd config_digest index_digest (map object_fields shards))
                 (ArtifactError ''RAWINT4 base fingerprint is invalid'')))
        | _ \<Rightarrow> Inl (ArtifactError ''shards must be non-empty'')))))"

definition shard_list :: "(string, jvalue) dict \<Rightarrow> (string, jvalue) dict list" where
  "shard_list value = (case obj_get value ''shards'' of VList vs \<Rightarrow> map object_fields vs | _ \<Rightarrow> [])"

definition identity_map :: "(string, jvalue) dict \<Rightarrow> jvalue" where
  "identity_map value = VObject (map (\<lambda>d. (record_name d, obj_get d ''file_identity'')) (shard_list value))"

definition validate_rawint4_base_identity :: "'c codec \<Rightarrow> 'c tree \<Rightarrow> jvalue \<Rightarrow> jvalue \<Rightarrow> unit result" where
  "validate_rawint4_base_identity cd fs saved current =
     (case (saved, current) of
        (VObject s, VObject c) \<Rightarrow>
          rbind (check_base_side cd s) (\<lambda>_.
          rbind (check_base_side cd c) (\<lambda>_.
          rbind (require (obj_get s ''fingerprint'' = obj_get c ''fingerprint'')
                   (ArtifactError ''RAWINT4 base checkpoint fingerprint changed'')) (\<lambda>_.
          rbind (require_string (obj_get s ''model_name_or_path'')) (\<lambda>saved_path.
          rbind (require_string (obj_get c ''model_name_or_path'')) (\<lambda>current_path.
          if same_source cd fs current_path saved_path
          then require (jeq (identity_map s) (identity_map c))
                 (ArtifactError ''RAWINT4 base shards were replaced at the recorded path'')
          else Inr ())))))
      | _ \<Rightarrow> Inl (ArtifactError ''RAWINT4 base identity must be an object''))"

end
