(* ===== verification/RawInt4Sound.thy ===== *)
theory RawInt4Sound
  imports RawInt4Base
begin

text \<open>
  What the sampled identity of a RAWINT4 checkpoint tells apart: all of a shard whose payload fits in
  eight windows, and never all of a larger one; at the recorded path the identity of the file itself
  closes the gap. The identity of an unchanged checkpoint is accepted after a trip through the manifest.
\<close>

section \<open>The windows\<close>

lemma sample_offsets_set:
  "set (sample_offsets start psize) =
     (if psize > sample_bytes
      then insert start ((\<lambda>i. start + (psize - sample_bytes) * i div 7) ` {0..7}) else {start})"
  by (auto simp: sample_offsets_def Let_def sample_count_def min_def)

lemma sample_offsets_bounds:
  assumes "0 \<le> psize" "off \<in> set (sample_offsets start psize)"
  shows "start \<le> off" "off + min sample_bytes psize \<le> start + psize"
proof -
  have "0 \<le> (psize - sample_bytes) * i div 7 \<and> (psize - sample_bytes) * i div 7 \<le> psize - sample_bytes"
    if "i \<in> {0..7}" "psize > sample_bytes" for i
  proof -
    have "(psize - sample_bytes) * i \<le> (psize - sample_bytes) * 7" using that by (intro mult_left_mono) auto
    then have "(psize - sample_bytes) * i div 7 \<le> (psize - sample_bytes) * 7 div 7" by (rule zdiv_mono1) simp
    moreover have "0 \<le> (psize - sample_bytes) * i" using that by simp
    ultimately show ?thesis by (simp add: pos_imp_zdiv_nonneg_iff)
  qed
  note range = this
  consider "off = start" | i where "psize > sample_bytes" "i \<in> {0..7}" "off = start + (psize - sample_bytes) * i div 7"
    using assms(2) by (auto simp: sample_offsets_set split: if_splits)
  then have "start \<le> off \<and> off + min sample_bytes psize \<le> start + psize"
  proof cases
    case 1
    then show ?thesis by simp
  next
    case 2
    with range [OF 2(2,1)] show ?thesis by simp
  qed
  then show "start \<le> off" "off + min sample_bytes psize \<le> start + psize" by auto
qed

text \<open>The payload position \<open>x\<close> lies in a window.\<close>

definition sampled :: "int \<Rightarrow> int \<Rightarrow> int \<Rightarrow> bool" where
  "sampled start psize x \<longleftrightarrow> (\<exists>off \<in> set (sample_offsets start psize). off \<le> x \<and> x < off + min sample_bytes psize)"

lemma windows_touch:
  fixes span w y :: int
  assumes "0 \<le> y" "y < span + w" "0 \<le> span" "span \<le> 7 * w" "0 < w"
  shows "\<exists>i \<in> {0..7}. span * i div 7 \<le> y \<and> y < span * i div 7 + w"
proof -
  have step: "span * (i + 1) div 7 \<le> span * i div 7 + w" for i
  proof -
    have "span * (i + 1) \<le> span * i + w * 7" using assms(4) by (simp add: algebra_simps)
    then have "span * (i + 1) div 7 \<le> (span * i + w * 7) div 7" by (rule zdiv_mono1) simp
    then show ?thesis by simp
  qed
  define t :: "nat \<Rightarrow> int" where "t k = span * int k div 7" for k
  have t0: "t 0 = 0" and t7: "t 7 = span" and tS: "t (Suc k) \<le> t k + w" for k
    using step [of "int k"] by (simp_all add: t_def add.commute)
  have "y < t n + w \<Longrightarrow> \<exists>k \<le> n. t k \<le> y \<and> y < t k + w" for n
  proof (induction n)
    case 0
    with t0 assms(1) show ?case by auto
  next
    case (Suc n)
    show ?case
    proof (cases "t (Suc n) \<le> y")
      case False
      then have "y < t n + w" using tS [of n] by linarith
      from Suc.IH [OF this] show ?thesis by (auto intro: le_SucI)
    qed (use Suc.prems in auto)
  qed
  from this [of 7] t7 assms(2) obtain k where "k \<le> 7" "t k \<le> y" "y < t k + w" by auto
  then show ?thesis by (intro bexI [of _ "int k"]) (auto simp: t_def)
qed

lemma window_gap:
  fixes span w :: int
  assumes "7 * w < span" "0 < w" "i \<in> {0..7}"
  shows "\<not> (span * i div 7 \<le> span * 6 div 7 + w \<and> span * 6 div 7 + w < span * i div 7 + w)"
proof (cases "i = 7")
  case True
  have "span * 6 div 7 + w < span" using assms(1,2) by linarith
  with True show ?thesis by simp
next
  case False
  with assms(3) have "i \<le> 6" by simp
  then have "span * i \<le> span * 6" using assms(1,2) by (intro mult_left_mono) auto
  then have "span * i div 7 \<le> span * 6 div 7" by (rule zdiv_mono1) simp
  then show ?thesis by simp
qed

lemma small_payload_sampled:
  assumes "0 \<le> psize" "psize \<le> 8 * sample_bytes" "start \<le> x" "x < start + psize"
  shows "sampled start psize x"
proof (cases "psize > sample_bytes")
  case True
  obtain i where "i \<in> {0..7}" "(psize - sample_bytes) * i div 7 \<le> x - start"
    "x - start < (psize - sample_bytes) * i div 7 + sample_bytes"
    using windows_touch [of "x - start" "psize - sample_bytes" sample_bytes] assms True
    by (auto simp: sample_bytes_def)
  with True have "start + (psize - sample_bytes) * i div 7 \<in> set (sample_offsets start psize)"
    by (simp add: sample_offsets_set)
  moreover have "start + (psize - sample_bytes) * i div 7 \<le> x \<and>
      x < start + (psize - sample_bytes) * i div 7 + min sample_bytes psize"
    using \<open>(psize - sample_bytes) * i div 7 \<le> x - start\<close>
      \<open>x - start < (psize - sample_bytes) * i div 7 + sample_bytes\<close> True by simp
  ultimately show ?thesis unfolding sampled_def by blast
qed (use assms in \<open>auto simp: sampled_def sample_offsets_set min_def\<close>)

lemma large_payload_gap:
  assumes "8 * sample_bytes < psize"
  shows "\<exists>x. start \<le> x \<and> x < start + psize \<and> \<not> sampled start psize x"
proof -
  let ?span = "psize - sample_bytes" and ?x = "start + (psize - sample_bytes) * 6 div 7 + sample_bytes"
  have w: "0 < sample_bytes" by (simp add: sample_bytes_def)
  have span: "7 * sample_bytes < ?span" using assms by simp
  have "s * 6 div 7 < s" if "0 < s" for s :: int using that by linarith
  from this [of ?span] have below: "?span * 6 div 7 < ?span" using span w by linarith
  have "\<not> sampled start psize ?x"
    using window_gap [OF span w] assms w by (auto simp: sampled_def sample_offsets_set min_def)
  moreover have "0 \<le> ?span * 6 div 7" using span w by (simp add: pos_imp_zdiv_nonneg_iff)
  moreover have "?span * 6 div 7 + sample_bytes < psize" using below by linarith
  ultimately show ?thesis using w by (intro exI [of _ ?x]) auto
qed

section \<open>The digested bytes\<close>

definition window :: "bytes \<Rightarrow> int \<Rightarrow> int \<Rightarrow> bytes" where
  "window content off w = take (nat w) (drop (nat off) content)"

lemma sample_stream_Inr:
  "sample_stream content start w offs = Inr s \<longleftrightarrow>
     (\<forall>off \<in> set offs. int (length (window content off w)) = w) \<and>
     s = concat (map (\<lambda>off. ascii (str_of_int (off - start)) @ ascii nul @ window content off w) offs)"
  by (induction offs arbitrary: s) (auto simp: window_def Let_def)

lemma concat_windows_eq:
  assumes "\<forall>off \<in> set offs. length (f off) = length (g off)"
    "concat (map (\<lambda>off. h off @ f off) offs) = concat (map (\<lambda>off. h off @ g off) offs)"
  shows "\<forall>off \<in> set offs. f off = g off"
  using assms by (induction offs) auto

lemma sample_stream_eq:
  assumes "sample_stream a start w offs = Inr s" "sample_stream b start w offs = Inr s" "off \<in> set offs"
  shows "window a off w = window b off w"
proof -
  have "\<forall>off \<in> set offs. int (length (window a off w)) = w" "\<forall>off \<in> set offs. int (length (window b off w)) = w"
    and s: "concat (map (\<lambda>off. (ascii (str_of_int (off - start)) @ ascii nul) @ window a off w) offs) =
      concat (map (\<lambda>off. (ascii (str_of_int (off - start)) @ ascii nul) @ window b off w) offs)"
    using assms(1,2) by (simp_all add: sample_stream_Inr)
  then have "\<forall>off \<in> set offs. length (window a off w) = length (window b off w)" by (metis of_nat_eq_iff)
  from concat_windows_eq [OF this s] assms(3) show ?thesis by blast
qed

lemma window_nth:
  assumes "window a off w = window b off w" "0 \<le> off" "off \<le> int i" "int i < off + w" "i < length a" "i < length b"
  shows "a ! i = b ! i"
proof -
  have "i - nat off < nat w" using assms(2-4) by linarith
  then have "window a off w ! (i - nat off) = a ! i" "window b off w ! (i - nat off) = b ! i"
    using assms(2,3,5,6) by (simp_all add: window_def)
  with assms(1) show ?thesis by simp
qed

lemma window_update: "0 \<le> off \<Longrightarrow> int i < off \<or> off + w \<le> int i \<Longrightarrow> window (a[i := x]) off w = window a off w"
proof -
  assume off: "0 \<le> off" and i: "int i < off \<or> off + w \<le> int i"
  show ?thesis
  proof (cases "int i < off")
    case True
    then have "i < nat off" by linarith
    then show ?thesis by (simp add: window_def drop_update_cancel)
  next
    case False
    with i off have "nat w \<le> i - nat off" "nat off \<le> i" by linarith+
    then show ?thesis by (simp add: window_def drop_update_swap take_update_cancel)
  qed
qed

lemma le_int_inj: "length a = length b \<Longrightarrow> le_int a = le_int b \<Longrightarrow> a = b"
proof (induction a arbitrary: b)
  case (Cons x a)
  then obtain y b' where b: "b = y # b'" by (cases b) auto
  have "uint x < 256" "uint y < 256" "0 \<le> uint x" "0 \<le> uint y"
    using uint_lt2p [of x] uint_lt2p [of y] by simp_all
  note range = this
  have digit: "p = q \<and> r = t" if "0 \<le> p" "p < 256" "0 \<le> q" "q < 256" "p + 256 * r = q + 256 * t" for p q r t :: int
  proof -
    have "(p + 256 * r) mod 256 = p" "(q + 256 * t) mod 256 = q" using that(1-4) by simp_all
    with that(5) have "p = q" by simp
    with that(5) show ?thesis by simp
  qed
  have "uint x = uint y \<and> le_int a = le_int b'"
    by (rule digit [OF range(3,1,4,2)]) (use Cons.prems(2) b in simp)
  with Cons b show ?case by (simp add: word_uint_eq_iff)
qed simp

lemma shard_samples_Inr:
  "shard_samples content n = Inr (header, samples) \<longleftrightarrow>
     8 \<le> length content \<and> header \<noteq> [] \<and> int (length header) \<le> n - 8 \<and>
     le_int (take 8 content) = int (length header) \<and> take (length header) (drop 8 content) = header \<and>
     sample_stream content (8 + int (length header)) (min sample_bytes (n - (8 + int (length header))))
       (sample_offsets (8 + int (length header)) (n - (8 + int (length header)))) = Inr samples"
  (is "?l \<longleftrightarrow> ?r")
proof
  assume ?l
  then have len: "int (length header) = le_int (take 8 content)" "0 < le_int (take 8 content)"
    and h: "header = take (nat (le_int (take 8 content))) (drop 8 content)"
    unfolding shard_samples_def Let_def by (auto split: if_splits)
  from len(1) have "nat (le_int (take 8 content)) = length header" by simp
  with h have "take (length header) (drop 8 content) = header" by simp
  with \<open>?l\<close> len show ?r unfolding shard_samples_def Let_def by (auto split: if_splits)
next
  assume ?r
  then have "nat (le_int (take 8 content)) = length header" by simp
  with \<open>?r\<close> show ?l unfolding shard_samples_def Let_def by simp
qed

lemma samples_determine:
  assumes a: "shard_samples a n = Inr (header, samples)" "int (length a) = n"
    and b: "shard_samples b n = Inr (header, samples)" "int (length b) = n"
    and small: "n \<le> 8 + int (length header) + 8 * sample_bytes"
  shows "a = b"
proof -
  define k where "k = length header"
  note A = a(1) [unfolded shard_samples_Inr, folded k_def] and B = b(1) [unfolded shard_samples_Inr, folded k_def]
  have len: "length a = length b" using a(2) b(2) by simp
  have "take 8 a = take 8 b" by (rule le_int_inj) (use A B len in simp_all)
  moreover have "take k (drop 8 a) = take k (drop 8 b)" using A B by simp
  ultimately have pre: "take (8 + k) a = take (8 + k) b" by (simp add: take_add)
  have "a ! i = b ! i" if i: "i < length a" for i
  proof (cases "i < 8 + k")
    case True
    with pre show ?thesis by (metis nth_take)
  next
    case False
    have "sampled (8 + int k) (n - (8 + int k)) (int i)"
      by (rule small_payload_sampled) (use False small i a(2) A in \<open>simp_all add: k_def\<close>)
    then obtain off where off: "off \<in> set (sample_offsets (8 + int k) (n - (8 + int k)))" "off \<le> int i"
      "int i < off + min sample_bytes (n - (8 + int k))" by (auto simp: sampled_def)
    have "0 \<le> n - (8 + int k)" using A by linarith
    from sample_offsets_bounds(1) [OF this off(1)] have "0 \<le> off" by linarith
    moreover have "window a off (min sample_bytes (n - (8 + int k))) = window b off (min sample_bytes (n - (8 + int k)))"
      by (rule sample_stream_eq [OF _ _ off(1)]) (use A B in blast)+
    ultimately show ?thesis using off(2,3) i len by (intro window_nth [of a off _ b i]) simp_all
  qed
  with len show ?thesis by (simp add: nth_equalityI)
qed

lemma samples_miss:
  assumes a: "shard_samples a n = Inr (header, samples)" "int (length a) = n"
    and large: "8 + int (length header) + 8 * sample_bytes < n"
  shows "\<exists>i < length a. \<forall>x. shard_samples (a[i := x]) n = Inr (header, samples)"
proof -
  define k where "k = length header"
  note A = a(1) [unfolded shard_samples_Inr, folded k_def]
  let ?start = "8 + int k" and ?w = "min sample_bytes (n - (8 + int k))"
  obtain y where y: "?start \<le> y" "y < n" "\<not> sampled ?start (n - ?start) y"
    using large_payload_gap [of "n - ?start" ?start] large by (auto simp: k_def)
  define i where "i = nat y"
  have i: "int i = y" "i < length a" "8 + k \<le> i" using y a(2) by (simp_all add: i_def)
  have "shard_samples (a[i := x]) n = Inr (header, samples)" for x
  proof -
    have "window (a[i := x]) off ?w = window a off ?w" if "off \<in> set (sample_offsets ?start (n - ?start))" for off
    proof (rule window_update)
      show "0 \<le> off" using sample_offsets_bounds(1) [OF _ that] large by (simp add: sample_bytes_def k_def)
      show "int i < off \<or> off + ?w \<le> int i"
        using y(3) that i(1) unfolding sampled_def by force
    qed
    then have "sample_stream (a[i := x]) ?start ?w (sample_offsets ?start (n - ?start)) = Inr samples"
      using A unfolding sample_stream_Inr by (auto cong: map_cong)
    moreover have "take 8 (a[i := x]) = take 8 a" using i(3) by (simp add: take_update_cancel)
    moreover have "take k (drop 8 (a[i := x])) = take k (drop 8 a)"
      using i(3) by (simp add: drop_update_swap take_update_cancel)
    ultimately show ?thesis using A unfolding shard_samples_Inr k_def by (simp only: length_list_update simp_thms)
  qed
  with i(2) show ?thesis by blast
qed

section \<open>A checkpoint's identity and its copy in a manifest\<close>

definition valid_shards :: "shard_rec list \<Rightarrow> bool" where
  "valid_shards rs \<longleftrightarrow> rs \<noteq> [] \<and> sorted (map sr_name rs) \<and> distinct (map sr_name rs) \<and>
     (\<forall>r \<in> set rs. safetensors_name (sr_name r) \<and> 0 < sr_size r \<and>
        sha256_text (sr_header_sha256 r) \<and> sha256_text (sr_sample_sha256 r))"

text \<open>A manifest entry \<open>d\<close> that was written from the record \<open>r\<close>.\<close>

definition identity_like :: "shard_rec \<Rightarrow> jvalue \<Rightarrow> bool" where
  "identity_like r v \<longleftrightarrow> (\<exists>e. v = VObject e \<and> dwf e \<and> jsame (shard_identity_json r) (VObject e))"

definition shard_like :: "shard_rec \<Rightarrow> (string, jvalue) dict \<Rightarrow> bool" where
  "shard_like r d \<longleftrightarrow>
     obj_get d ''name'' = VStr (sr_name r) \<and> obj_get d ''size'' = VInt (sr_size r) \<and>
     obj_get d ''header_sha256'' = VStr (sr_header_sha256 r) \<and> obj_get d ''sample_sha256'' = VStr (sr_sample_sha256 r) \<and>
     identity_like r (obj_get d ''file_identity'')"

definition base_like :: "'c codec \<Rightarrow> path \<Rightarrow> string \<Rightarrow> string \<Rightarrow> shard_rec list \<Rightarrow> (string, jvalue) dict \<Rightarrow> bool" where
  "base_like cd root c i rs s \<longleftrightarrow>
     obj_get s ''model_name_or_path'' = VStr (path_text root) \<and> obj_get s ''fingerprint_schema'' = VStr rawint4_schema \<and>
     obj_get s ''fingerprint'' = VStr (rawint4_base_fingerprint cd c i (map shard_json rs)) \<and>
     obj_get s ''config_sha256'' = VStr c \<and> obj_get s ''index_sha256'' = VStr i \<and>
     (\<exists>ds. obj_get s ''shards'' = VList (map VObject ds) \<and> list_all2 shard_like rs ds)"

lemma shard_json_wf: "dwf (shard_json r)" "dwf (base_json cd root c i rs)"
  by (simp_all add: shard_json_def base_json_def)

lemma shard_like_json:
  assumes "jsame (VObject (shard_json r)) (VObject d)" "jwf (VObject d)"
  shows "shard_like r d"
proof -
  have wf: "dwf d" using assms(2) by simp
  note get = jsame_get [OF assms(1) shard_json_wf(1) wf]
  have id: "jsame (shard_identity_json r) (obj_get d ''file_identity'')"
    using get [of "''file_identity''"] by (simp add: shard_json_def obj_get_def)
  then obtain e where e: "obj_get d ''file_identity'' = VObject e"
    using jsame_object_cases by (fastforce simp: shard_identity_json_def)
  then have "(''file_identity'', VObject e) \<in> set d"
    using map_of_SomeD by (fastforce simp: obj_get_def dget_def split: option.splits)
  with assms(2) have "dwf e" by (auto simp: list_all_iff)
  with id e have "identity_like r (obj_get d ''file_identity'')" by (simp add: identity_like_def)
  then show ?thesis
    using get [of "''name''"] get [of "''size''"] get [of "''header_sha256''"] get [of "''sample_sha256''"]
    unfolding shard_like_def shard_json_def by (simp add: obj_get_def)
qed

lemma shard_like_self: "shard_like r (shard_json r)"
  by (rule shard_like_json, rule jsame_refl) (simp_all add: shard_json_def shard_identity_json_def)

lemma obj_get_list_wf: "jwf (VObject s) \<Longrightarrow> obj_get s k = VList vs \<Longrightarrow> v \<in> set vs \<Longrightarrow> jwf v"
  using map_of_SomeD [of s k] by (fastforce simp: obj_get_def dget_def list_all_iff split: option.splits)

lemma base_like_json:
  assumes "jsame (VObject (base_json cd root c i rs)) (VObject s)" "jwf (VObject s)"
  shows "base_like cd root c i rs s"
proof -
  have wf: "dwf s" using assms(2) by simp
  note get = jsame_get [OF assms(1) shard_json_wf(2) wf]
  have "jsame (VList (map (\<lambda>r. VObject (shard_json r)) rs)) (obj_get s ''shards'')"
    using get [of "''shards''"] by (simp add: base_json_def obj_get_def)
  then obtain vs where vs: "obj_get s ''shards'' = VList vs" "length vs = length rs"
    and each: "\<And>k. k < length rs \<Longrightarrow> jsame (VObject (shard_json (rs ! k))) (vs ! k)"
    by (cases "obj_get s ''shards''") (auto simp: jsame_list_nth)
  have obj: "\<exists>d. vs ! k = VObject d \<and> shard_like (rs ! k) d" if "k < length rs" for k
  proof -
    from each [OF that] obtain d where d: "vs ! k = VObject d" by (blast dest: jsame_object_cases)
    have "vs ! k \<in> set vs" using that vs(2) by simp
    from obj_get_list_wf [OF assms(2) vs(1) this] d have "jwf (VObject d)" by simp
    with each [OF that] d show ?thesis using shard_like_json by auto
  qed
  have "vs = map VObject (map object_fields vs) \<and> list_all2 shard_like rs (map object_fields vs)"
    using obj vs(2) by (auto simp: list_all2_conv_all_nth object_fields_def intro!: nth_equalityI) force+
  with vs(1) show ?thesis
    using get [of "''model_name_or_path''"] get [of "''fingerprint_schema''"] get [of "''fingerprint''"]
      get [of "''config_sha256''"] get [of "''index_sha256''"]
    unfolding base_like_def base_json_def by (auto simp: obj_get_def simp del: map_map)
qed

lemma base_like_self: "base_like cd root c i rs (base_json cd root c i rs)"
proof -
  have "list_all2 shard_like rs (map shard_json rs)" by (simp add: list_all2_conv_all_nth shard_like_self)
  then show ?thesis unfolding base_like_def base_json_def by (auto simp: obj_get_def intro!: exI [of _ "map shard_json rs"])
qed

lemma like_names: "list_all2 shard_like rs ds \<Longrightarrow> map record_name ds = map sr_name rs"
  by (induction rule: list_all2_induct) (simp_all add: shard_like_def record_name_def)

lemma like_fingerprint:
  assumes "list_all2 shard_like rs ds" "valid_shards rs"
  shows "rawint4_base_fingerprint cd c i ds = rawint4_base_fingerprint cd c i (map shard_json rs)"
proof -
  have "record_name (shard_json r) = sr_name r" for r by (simp add: record_name_def shard_json_def obj_get_def)
  then have "map record_name (map shard_json rs) = map sr_name rs" by simp
  then have sorted: "sort_key record_name ds = ds" "sort_key record_name (map shard_json rs) = map shard_json rs"
    using like_names [OF assms(1)] assms(2) unfolding valid_shards_def by (metis sort_key_id_if_sorted)+
  have "portable d = portable (shard_json r)" if "shard_like r d" for r d
    using that by (simp add: shard_like_def portable_def shard_json_def obj_get_def)
  then have "map (\<lambda>d. cd_dumps cd (portable d) @ nul) ds = map (\<lambda>d. cd_dumps cd (portable d) @ nul) (map shard_json rs)"
    using assms(1) by (auto simp: list_all2_conv_all_nth intro!: nth_equalityI)
  with sorted show ?thesis by (simp add: rawint4_base_fingerprint_def)
qed

lemma identity_like_valid: "identity_like r v \<Longrightarrow> valid_identity v"
proof -
  assume "identity_like r v"
  then obtain e where e: "v = VObject e" "dwf e" and same: "jsame (shard_identity_json r) (VObject e)"
    by (auto simp: identity_like_def)
  note get = jsame_get [OF same [unfolded shard_identity_json_def] _ e(2)]
  show ?thesis
    using get [of "''device''"] get [of "''inode''"] get [of "''ctime_ns''"] e(1)
    by (simp add: valid_identity_def identity_fields_def obj_get_def)
qed

lemma check_shard_records_ok:
  assumes "list_all2 shard_like rs ds" "\<forall>r \<in> set rs. safetensors_name (sr_name r) \<and> 0 < sr_size r \<and>
      sha256_text (sr_header_sha256 r) \<and> sha256_text (sr_sample_sha256 r)"
    "distinct (map sr_name rs)" "set names \<inter> sr_name ` set rs = {}"
  shows "check_shard_records (map VObject ds) names = Inr ()"
  using assms
proof (induction arbitrary: names rule: list_all2_induct)
  case (Cons r rs d ds)
  have ne: "sr_name r \<noteq> []" using Cons.prems(1) by (auto simp: safetensors_name_def ends_with_def)
  have "check_shard_records (map VObject ds) (sr_name r # names) = Inr ()"
    using Cons.prems by (intro Cons.IH) auto
  with Cons.prems Cons.hyps(1) ne identity_like_valid [of r] show ?case
    by (auto simp: shard_like_def require_string_def require_positive_def require_sha256_def require_def)
qed simp

lemma base_like_check:
  assumes "base_like cd root c i rs s" "valid_shards rs" "sha256_text c" "sha256_text i" "\<And>b. sha256_text (cd_sha cd b)"
  shows "check_base_side cd s = Inr ()"
proof -
  obtain ds where ds: "obj_get s ''shards'' = VList (map VObject ds)" "list_all2 shard_like rs ds"
    using assms(1) by (auto simp: base_like_def)
  have ne: "ds \<noteq> []" using ds(2) assms(2) by (auto simp: valid_shards_def)
  have chk: "check_shard_records (map VObject ds) [] = Inr ()"
    using check_shard_records_ok [OF ds(2)] assms(2) by (simp add: valid_shards_def)
  have id: "map object_fields (map VObject ds) = ds" by (simp add: object_fields_def comp_def)
  have fp: "require_sha256 (obj_get s ''fingerprint'') = Inr (rawint4_base_fingerprint cd c i (map shard_json rs))"
    and cf: "require_sha256 (obj_get s ''config_sha256'') = Inr c" "require_sha256 (obj_get s ''index_sha256'') = Inr i"
    and sc: "obj_get s ''fingerprint_schema'' = VStr rawint4_schema"
    using assms(1,3,4,5) by (simp_all add: base_like_def rawint4_base_fingerprint_def sha_text_def)
  show ?thesis
    unfolding check_base_side_def fp cf sc ds(1) id rbind_simps jvalue.case
    using chk ne like_fingerprint [OF ds(2) assms(2), of cd c i] by simp
qed

section \<open>Replaced files\<close>

lemma identity_like_fields:
  assumes "identity_like r v"
  shows "\<exists>e. v = VObject e \<and> dwf e \<and> length e = 3 \<and> set (dkeys e) = set identity_fields \<and>
    (\<forall>k w. dget e k = Some w \<longleftrightarrow> dget (object_fields (shard_identity_json r)) k = Some w)"
proof -
  obtain e where e: "v = VObject e" "dwf e" and same: "jsame (shard_identity_json r) (VObject e)"
    using assms by (auto simp: identity_like_def)
  define d where "d = object_fields (shard_identity_json r)"
  have d: "shard_identity_json r = VObject d" "dwf d" by (simp_all add: shard_identity_json_def object_fields_def d_def)
  note obj = jsame_object [OF same [unfolded d(1)] d(2) e(2)]
  have exact: "jsame a b \<Longrightarrow> b = a" if "dget d k = Some a" for a b k
    using that by (auto simp: shard_identity_json_def object_fields_def d_def split: if_splits)
  have get: "dget e k = Some w \<longleftrightarrow> dget (object_fields (shard_identity_json r)) k = Some w" for k w
    unfolding d_def [symmetric] using obj(2) [of k] obj(3) [of k] exact by metis
  have "length e = 3" using same by (simp add: shard_identity_json_def)
  moreover have "set (dkeys e) = set identity_fields"
    using obj(1) by (simp add: shard_identity_json_def object_fields_def identity_fields_def d_def)
  ultimately show ?thesis using e get by blast
qed

lemma identity_dget:
  "dget (object_fields (shard_identity_json r)) k =
     (if k = ''device'' then Some (VInt (sr_device r)) else if k = ''inode'' then Some (VInt (sr_inode r))
      else if k = ''ctime_ns'' then Some (VInt (sr_ctime_ns r)) else None)"
  by (simp add: shard_identity_json_def object_fields_def)

lemma identities_equal:
  assumes "identity_like r v" "identity_like r' v'"
  shows "jeq v v' \<longleftrightarrow> shard_identity_json r = shard_identity_json r'"
proof -
  obtain e where e: "v = VObject e" "dwf e" "length e = 3" "set (dkeys e) = set identity_fields"
    "\<forall>k w. dget e k = Some w \<longleftrightarrow> dget (object_fields (shard_identity_json r)) k = Some w"
    using identity_like_fields [OF assms(1)] by blast
  obtain e' where e': "v' = VObject e'" "length e' = 3"
    "\<forall>k w. dget e' k = Some w \<longleftrightarrow> dget (object_fields (shard_identity_json r')) k = Some w"
    using identity_like_fields [OF assms(2)] by blast
  let ?d = "object_fields (shard_identity_json r)" and ?d' = "object_fields (shard_identity_json r')"
  have mem: "(k, w) \<in> set e \<longleftrightarrow> dget e k = Some w" for k w
    using e(2) by (simp add: dget_def dwf_def dkeys_def)
  have "jeq v v' \<longleftrightarrow> (\<forall>k w. dget e k = Some w \<longrightarrow> (\<exists>w'. dget e' k = Some w' \<and> jeq w w'))"
    using e(1,3) e'(1,2) by (simp add: jeq_fields_iff Ball_def mem split_paired_All)
  also have "\<dots> \<longleftrightarrow> (\<forall>k w. dget ?d k = Some w \<longrightarrow> (\<exists>w'. dget ?d' k = Some w' \<and> jeq w w'))"
    by (simp only: e(5) e'(3))
  finally have eq: "jeq v v' \<longleftrightarrow> (\<forall>k w. dget ?d k = Some w \<longrightarrow> (\<exists>w'. dget ?d' k = Some w' \<and> jeq w w'))" .
  have ints: "jeq (VInt a) (VInt b) \<longleftrightarrow> a = b" for a b by (simp add: numbers_equal_def number_of_def)
  show ?thesis
  proof
    assume "jeq v v'"
    then have get: "\<And>k w. dget ?d k = Some w \<Longrightarrow> \<exists>w'. dget ?d' k = Some w' \<and> jeq w w'" using eq by blast
    show "shard_identity_json r = shard_identity_json r'"
    proof -
      have "sr_device r = sr_device r'" using get [of "''device''"] ints by (simp add: identity_dget)
      moreover have "sr_inode r = sr_inode r'" using get [of "''inode''"] ints by (simp add: identity_dget)
      moreover have "sr_ctime_ns r = sr_ctime_ns r'" using get [of "''ctime_ns''"] ints by (simp add: identity_dget)
      ultimately show ?thesis by (simp add: shard_identity_json_def)
    qed
  next
    assume "shard_identity_json r = shard_identity_json r'"
    then have "?d' = ?d" by simp
    moreover have "jeq w w" if "dget ?d k = Some w" for k w using that ints by (auto simp: identity_dget split: if_splits)
    ultimately show "jeq v v'" unfolding eq by auto
  qed
qed

definition shard_idents :: "shard_rec list \<Rightarrow> (string \<times> jvalue) list" where
  "shard_idents rs = map (\<lambda>r. (sr_name r, shard_identity_json r)) rs"

lemma like_dget:
  "list_all2 shard_like rs ds \<Longrightarrow> distinct (map sr_name rs) \<Longrightarrow> r \<in> set rs \<Longrightarrow>
     \<exists>v. dget (map (\<lambda>d. (record_name d, obj_get d ''file_identity'')) ds) (sr_name r) = Some v \<and> identity_like r v"
  by (induction rule: list_all2_induct) (auto simp: shard_like_def record_name_def)

lemma like_member:
  "list_all2 shard_like rs ds \<Longrightarrow> (k, v) \<in> set (map (\<lambda>d. (record_name d, obj_get d ''file_identity'')) ds) \<Longrightarrow>
     \<exists>r \<in> set rs. k = sr_name r \<and> identity_like r v"
  by (induction rule: list_all2_induct) (auto simp: shard_like_def record_name_def)

lemma identity_maps_equal:
  assumes l: "list_all2 shard_like rs ds" and l': "list_all2 shard_like rs' ds'"
    and v: "valid_shards rs" and v': "valid_shards rs'"
  shows "jeq (VObject (map (\<lambda>d. (record_name d, obj_get d ''file_identity'')) ds))
             (VObject (map (\<lambda>d. (record_name d, obj_get d ''file_identity'')) ds')) \<longleftrightarrow> shard_idents rs = shard_idents rs'"
    (is "jeq (VObject ?m) (VObject ?m') \<longleftrightarrow> _")
proof -
  have len: "length ?m = length rs" "length ?m' = length rs'" using l l' by (simp_all add: list_all2_lengthD)
  have d: "distinct (map sr_name rs)" "distinct (map sr_name rs')" "sorted (map sr_name rs)" "sorted (map sr_name rs')"
    using v v' by (simp_all add: valid_shards_def)
  have step: "jeq (VObject ?m) (VObject ?m') \<longleftrightarrow> length rs = length rs' \<and>
      (\<forall>r \<in> set rs. \<exists>r' \<in> set rs'. sr_name r = sr_name r' \<and> shard_identity_json r = shard_identity_json r')"
    (is "?l \<longleftrightarrow> length rs = length rs' \<and> ?all")
  proof -
    have "jeq_fields ?m ?m' \<longleftrightarrow> ?all"
    proof
      assume fields: "jeq_fields ?m ?m'"
      show ?all
      proof
        fix r assume r: "r \<in> set rs"
        obtain a where a: "dget ?m (sr_name r) = Some a" "identity_like r a" using like_dget [OF l d(1) r] by blast
        from map_of_SomeD [OF a(1) [unfolded dget_def]] have "(sr_name r, a) \<in> set ?m" .
        with fields obtain b where b: "dget ?m' (sr_name r) = Some b" "jeq a b" by (fastforce simp: jeq_fields_iff)
        from map_of_SomeD [OF b(1) [unfolded dget_def]] have "(sr_name r, b) \<in> set ?m'" .
        from like_member [OF l' this] obtain r' where r': "r' \<in> set rs'" "sr_name r = sr_name r'" "identity_like r' b"
          by blast
        with identities_equal [OF a(2) r'(3)] b(2)
        show "\<exists>r' \<in> set rs'. sr_name r = sr_name r' \<and> shard_identity_json r = shard_identity_json r'" by blast
      qed
    next
      assume all: ?all
      show "jeq_fields ?m ?m'"
        unfolding jeq_fields_iff
      proof clarify
        fix k a assume "(k, a) \<in> set ?m"
        from like_member [OF l this] obtain r where r: "r \<in> set rs" "k = sr_name r" "identity_like r a" by blast
        with all obtain r' where r': "r' \<in> set rs'" "k = sr_name r'" "shard_identity_json r = shard_identity_json r'" by force
        from like_dget [OF l' d(2) r'(1)] obtain b where b: "dget ?m' k = Some b" "identity_like r' b" using r'(2) by blast
        with identities_equal [OF r(3) b(2)] r'(3) show "\<exists>w. dget ?m' k = Some w \<and> jeq a w" by blast
      qed
    qed
    then show ?thesis using len by simp
  qed
  show ?thesis
  proof
    assume ?l
    with step have n: "length rs = length rs'" and all: "\<forall>r \<in> set rs. \<exists>r' \<in> set rs'. sr_name r = sr_name r' \<and>
        shard_identity_json r = shard_identity_json r'" by blast+
    have sub: "set (shard_idents rs) \<subseteq> set (shard_idents rs')" using all by (force simp: shard_idents_def)
    have dist: "distinct (shard_idents rs)" "distinct (shard_idents rs')"
      using d(1,2) by (auto simp: shard_idents_def distinct_map inj_on_def)
    have "set (shard_idents rs) = set (shard_idents rs')"
      using sub distinct_card [OF dist(1)] distinct_card [OF dist(2)] n
      by (intro card_subset_eq) (simp_all only: List.finite_set shard_idents_def length_map)
    then have "sr_name ` set rs = sr_name ` set rs'"
      by (auto simp: shard_idents_def image_iff set_eq_iff) metis+
    then have names: "map sr_name rs = map sr_name rs'"
      using d by (intro sorted_distinct_set_unique) simp_all
    have "shard_identity_json (rs ! i) = shard_identity_json (rs' ! i)" if i: "i < length rs" for i
    proof -
      obtain r' where r': "r' \<in> set rs'" "sr_name (rs ! i) = sr_name r'" "shard_identity_json (rs ! i) = shard_identity_json r'"
        using all i nth_mem by blast
      have "sr_name (rs' ! i) = sr_name (rs ! i)" using names i n by (metis nth_map)
      with r' d(2) i n have "rs' ! i = r'" by (metis distinct_map inj_onD nth_mem)
      with r'(3) show ?thesis by simp
    qed
    with names n show "shard_idents rs = shard_idents rs'"
      by (auto simp: shard_idents_def list_eq_iff_nth_eq)
  next
    assume eq: "shard_idents rs = shard_idents rs'"
    then have "length rs = length rs'" by (metis length_map shard_idents_def)
    moreover have "\<forall>r \<in> set rs. (sr_name r, shard_identity_json r) \<in> set (shard_idents rs')"
      unfolding eq [symmetric] by (auto simp: shard_idents_def)
    ultimately show ?l unfolding step by (force simp: shard_idents_def)
  qed
qed

lemma validation_of_bases:
  assumes s: "base_like cd root c i rs s" "valid_shards rs" "sha256_text c" "sha256_text i"
    and t: "base_like cd root' c' i' rs' t" "valid_shards rs'" "sha256_text c'" "sha256_text i'"
    and sha: "\<And>b. sha256_text (cd_sha cd b)"
  shows "validate_rawint4_base_identity cd fs (VObject s) (VObject t) = Inr () \<longleftrightarrow>
     obj_get s ''fingerprint'' = obj_get t ''fingerprint'' \<and>
     (same_source cd fs (path_text root') (path_text root) \<longrightarrow> shard_idents rs = shard_idents rs')"
proof -
  obtain ds where ds: "obj_get s ''shards'' = VList (map VObject ds)" "list_all2 shard_like rs ds"
    using s(1) by (auto simp: base_like_def)
  obtain ds' where ds': "obj_get t ''shards'' = VList (map VObject ds')" "list_all2 shard_like rs' ds'"
    using t(1) by (auto simp: base_like_def)
  have id: "identity_map s = VObject (map (\<lambda>d. (record_name d, obj_get d ''file_identity'')) ds)"
    "identity_map t = VObject (map (\<lambda>d. (record_name d, obj_get d ''file_identity'')) ds')"
    by (simp_all add: identity_map_def shard_list_def ds ds' object_fields_def comp_def)
  have paths: "require_string (obj_get s ''model_name_or_path'') = Inr (path_text root)"
    "require_string (obj_get t ''model_name_or_path'') = Inr (path_text root')"
    using s(1) t(1) by (simp_all add: base_like_def path_text_def)
  show ?thesis
    unfolding validate_rawint4_base_identity_def prod.case jvalue.case base_like_check [OF s sha] base_like_check [OF t sha]
      rbind_simps paths id
    using identity_maps_equal [OF ds(2) ds'(2) s(2) t(2)] by (simp only: rbind_eq_Inr) (auto simp del: jeq.simps split: if_splits)
qed

section \<open>The identity that the code computes\<close>

lemma shard_record_Inr:
  assumes "rawint4_shard_record cd fs (root @ [name]) = Inr r" "\<And>b. sha256_text (cd_sha cd b)"
  shows "sr_name r = name \<and> 0 < sr_size r \<and> sha256_text (sr_header_sha256 r) \<and> sha256_text (sr_sample_sha256 r)"
  using assms by (auto simp: rawint4_shard_record_def Let_def shard_samples_Inr split: if_splits option.splits node.splits)

lemma shard_records_Inr:
  assumes "\<And>b. sha256_text (cd_sha cd b)"
  shows "shard_records cd fs root names = Inr rs \<Longrightarrow>
     map sr_name rs = names \<and>
     (\<forall>r \<in> set rs. 0 < sr_size r \<and> sha256_text (sr_header_sha256 r) \<and> sha256_text (sr_sample_sha256 r))"
  by (induction names arbitrary: rs) (use shard_record_Inr [OF _ assms] in fastforce)+

lemma base_identity_Inr:
  assumes "rawint4_base_identity cd fs p = Inr v" "\<And>b. sha256_text (cd_sha cd b)"
  shows "\<exists>root c i rs. safe_root fs p = Inr root \<and> v = base_json cd root c i rs \<and> valid_shards rs \<and>
    sha256_text c \<and> sha256_text i"
proof -
  from assms(1) obtain root config index where
    r: "safe_root fs p = Inr root" and
    rest: "(case obj_get index ''weight_map'' of
       VObject weight_map \<Rightarrow>
         (if weight_map = [] then Inl (ArtifactError ''weight_map must be a non-empty object'')
          else
            rbind (shard_names weight_map) (\<lambda>names.
            rbind (shard_records cd fs root (sort (remdups names))) (\<lambda>shards.
            Inr (base_json cd root (canonical_json_sha256 cd config) (canonical_json_sha256 cd index) shards))))
     | _ \<Rightarrow> Inl (ArtifactError ''weight_map must be a non-empty object'')) = Inr v"
    unfolding rawint4_base_identity_def by (simp only: rbind_eq_Inr) blast
  from rest obtain weight_map names rs where
    v: "v = base_json cd root (canonical_json_sha256 cd config) (canonical_json_sha256 cd index) rs" and
    n: "shard_names weight_map = Inr names" "weight_map \<noteq> []" and
    rs: "shard_records cd fs root (sort (remdups names)) = Inr rs"
    by (cases "obj_get index ''weight_map''") (auto split: if_splits)
  have "names \<noteq> []" using shard_names_Inr [OF n(1)] n(2) by auto
  with shard_records_Inr [OF assms(2) rs] have "rs \<noteq> []" by (metis list.map_disc_iff set_empty set_remdups set_sort)
  moreover have "safetensors_name (sr_name r)" if "r \<in> set rs" for r
  proof -
    have "sr_name r \<in> set (map sr_name rs)" using that by simp
    then show ?thesis using shard_records_Inr [OF assms(2) rs] shard_names_Inr [OF n(1)] by simp
  qed
  ultimately have "valid_shards rs"
    using shard_records_Inr [OF assms(2) rs] by (simp add: valid_shards_def)
  with r v assms(2) show ?thesis by (auto simp: canonical_json_sha256_def sha_text_def)
qed

definition location :: "(string, jvalue) dict \<Rightarrow> string" where
  "location v = (case obj_get v ''model_name_or_path'' of VStr s \<Rightarrow> s | _ \<Rightarrow> [])"

definition shard_identities :: "(string, jvalue) dict \<Rightarrow> (string \<times> jvalue) list" where
  "shard_identities v = map (\<lambda>d. (record_name d, obj_get d ''file_identity'')) (shard_list v)"

lemma base_json_reads:
  "location (base_json cd root c i rs) = path_text root"
  "shard_identities (base_json cd root c i rs) = shard_idents rs"
  "obj_get (base_json cd root c i rs) ''fingerprint'' = VStr (rawint4_base_fingerprint cd c i (map shard_json rs))"
  by (simp_all add: location_def base_json_def obj_get_def shard_identities_def shard_list_def shard_idents_def
      record_name_def shard_json_def object_fields_def)

lemma base_json_codec:
  "cd_sha cd0 = cd_sha cd \<Longrightarrow> cd_dumps cd0 = cd_dumps cd \<Longrightarrow> base_json cd0 root c i rs = base_json cd root c i rs"
  by (simp add: base_json_def rawint4_base_fingerprint_def sha_text_def)

section \<open>Properties\<close>

text \<open>
  C27. How much of a RAWINT4 shard its sampled identity pins down. Take a shard file of \<open>n\<close> bytes from
  which the code digests the header and sample bytes \<open>d\<close>. It is the only file of that length with these
  digested bytes exactly when its payload is at most eight windows of 64 KiB (512 KiB); in every larger
  shard some byte can be changed without any effect on the portable identity.
\<close>

theorem rawint4_samples_exact:
  assumes "int (length a) = n" "shard_samples a n = Inr d"
  shows "(\<forall>b. int (length b) = n \<and> shard_samples b n = Inr d \<longrightarrow> b = a) \<longleftrightarrow>
     n \<le> 8 + int (length (fst d)) + 8 * sample_bytes"
proof (cases d)
  case (Pair header samples)
  note a = assms(2) [unfolded Pair]
  show ?thesis
  proof (cases "n \<le> 8 + int (length header) + 8 * sample_bytes")
    case True
    with samples_determine [OF a assms(1)] Pair show ?thesis by auto
  next
    case False
    then obtain i where i: "i < length a" "\<forall>x. shard_samples (a[i := x]) n = Inr d"
      using samples_miss [OF a assms(1)] Pair by auto
    have "a[i := a ! i + 1] \<noteq> a" using i(1) by (metis nth_list_update_eq add_cancel_right_right zero_neq_one)
    with i(2) assms(1) False Pair show ?thesis by (auto intro!: exI [of _ "a[i := a ! i + 1]"])
  qed
qed

theorem rawint4_samples_exact_witness:
  "let a = [2, 0, 0, 0, 0, 0, 0, 0, 123, 125, 7, 8, 9] in
     shard_samples a 13 = Inr ([123, 125], ascii ''0'' @ ascii nul @ [7, 8, 9]) \<and>
     (\<forall>b. int (length b) = 13 \<and> shard_samples b 13 = Inr ([123, 125], ascii ''0'' @ ascii nul @ [7, 8, 9]) \<longrightarrow> b = a)"
proof -
  have s: "shard_samples [2, 0, 0, 0, 0, 0, 0, 0, 123, 125, 7, 8, 9] 13 = Inr ([123, 125], ascii ''0'' @ ascii nul @ [7, 8, 9])"
    by code_simp
  show ?thesis
    using rawint4_samples_exact [OF _ s] s by (simp add: sample_bytes_def)
qed

text \<open>
  C29. The RAWINT4 base of an adapter, checked at load time. Let \<open>old\<close> be the identity taken when the
  adapter was saved, \<open>saved\<close> the same document read back from the manifest, and \<open>new\<close> the identity of
  the checkpoint at load time. The check accepts exactly when the portable fingerprints agree and, if
  both identities name the same directory, every shard is still the same file (device, inode and
  change time). So an unchanged checkpoint is accepted, a moved copy is accepted on its fingerprint
  alone, and a shard replaced in place is refused even when the sampled windows do not see the change.
\<close>

theorem rawint4_validation_exact:
  assumes "\<forall>b. sha256_text (cd_sha cd b)" "cd_sha cd0 = cd_sha cd" "cd_dumps cd0 = cd_dumps cd"
    and "rawint4_base_identity cd0 fs0 p0 = Inr old" "rawint4_base_identity cd fs p = Inr new"
    and "jsame (VObject old) (VObject saved)" "jwf (VObject saved)"
  shows "validate_rawint4_base_identity cd fs (VObject saved) (VObject new) = Inr () \<longleftrightarrow>
     obj_get old ''fingerprint'' = obj_get new ''fingerprint'' \<and>
     (same_source cd fs (location new) (location old) \<longrightarrow> shard_identities old = shard_identities new)"
proof -
  have sha: "\<And>b. sha256_text (cd_sha cd b)" "\<And>b. sha256_text (cd_sha cd0 b)" using assms(1,2) by simp_all
  obtain root c i rs where old: "old = base_json cd root c i rs" "valid_shards rs" "sha256_text c" "sha256_text i"
    using base_identity_Inr [OF assms(4) sha(2)] base_json_codec [OF assms(2,3)] by metis
  obtain root' c' i' rs' where new: "new = base_json cd root' c' i' rs'" "valid_shards rs'" "sha256_text c'" "sha256_text i'"
    using base_identity_Inr [OF assms(5) sha(1)] by metis
  have like: "base_like cd root c i rs saved" using base_like_json assms(6,7) old(1) by blast
  have "obj_get saved ''fingerprint'' = obj_get old ''fingerprint''"
    using like old(1) by (simp add: base_like_def base_json_reads)
  with validation_of_bases [OF like old(2-4) base_like_self new(2-4) sha(1), of fs] show ?thesis
    by (simp add: old(1) new(1) base_json_reads)
qed

definition sample_shard :: bytes where
  "sample_shard = [2, 0, 0, 0, 0, 0, 0, 0, 123, 125, 7, 8, 9]"

definition sample_codec :: "jvalue codec" where
  "sample_codec =
     \<lparr>rd_json = Some, rd_sha256 = (\<lambda>_. replicate 64 CHR ''0''), rd_readable = (\<lambda>_. True),
      cd_sha = (\<lambda>_. replicate 64 CHR ''a''), cd_dumps = (\<lambda>_. ''{}''), cd_json_file = (\<lambda>v. (2, v)), cd_garbage = VNull,
      cd_tensors = (\<lambda>_. None), cd_bytes = (\<lambda>_. sample_shard),
      cd_fstat = (\<lambda>_ _. \<lparr>fs_dev = 1, fs_ino = 7, fs_ctime_ns = 100, fs_size = 13\<rparr>), cd_cwd = []\<rparr>"

definition sample_checkpoint :: "jvalue tree" where
  "sample_checkpoint =
     [([''m''], Dir 0 False), ([''m'', ''config.json''], File 2 (VObject [])),
      ([''m'', safetensors_index],
         File 9 (VObject [(''weight_map'', VObject [(''w'', VStr ''a.safetensors'')])])),
      ([''m'', ''a.safetensors''], File 13 VNull)]"

definition moved_inode :: "jvalue codec" where
  "moved_inode = sample_codec\<lparr>cd_fstat := (\<lambda>_ _. \<lparr>fs_dev = 1, fs_ino = 8, fs_ctime_ns = 200, fs_size = 13\<rparr>)\<rparr>"

theorem rawint4_validation_exact_witness:
  "\<exists>old new.
     rawint4_base_identity sample_codec sample_checkpoint ''/m'' = Inr old \<and>
     rawint4_base_identity moved_inode sample_checkpoint ''/m'' = Inr new \<and>
     validate_rawint4_base_identity sample_codec sample_checkpoint (VObject old) (VObject old) = Inr () \<and>
     validate_rawint4_base_identity moved_inode sample_checkpoint (VObject old) (VObject new) \<noteq> Inr ()"
proof -
  have "is_ok (rawint4_base_identity sample_codec sample_checkpoint ''/m'')"
    "is_ok (rawint4_base_identity moved_inode sample_checkpoint ''/m'')" by code_simp+
  then obtain old new where
    old: "rawint4_base_identity sample_codec sample_checkpoint ''/m'' = Inr old" and
    new: "rawint4_base_identity moved_inode sample_checkpoint ''/m'' = Inr new"
    by (auto simp: is_ok_iff)
  have ok: "case rawint4_base_identity sample_codec sample_checkpoint ''/m'' of Inl _ \<Rightarrow> False
      | Inr old \<Rightarrow> jwf (VObject old) \<and> jsame (VObject old) (VObject old)" by code_simp
  have ne: "case rawint4_base_identity sample_codec sample_checkpoint ''/m'' of Inl _ \<Rightarrow> False
      | Inr old \<Rightarrow> (case rawint4_base_identity moved_inode sample_checkpoint ''/m'' of Inl _ \<Rightarrow> False
         | Inr new \<Rightarrow> same_source moved_inode sample_checkpoint (location new) (location old) \<and>
             shard_identities old \<noteq> shard_identities new)" by code_simp
  have "sha256_text (replicate 64 CHR ''a'')" by code_simp
  then have sha: "\<forall>b. sha256_text (cd_sha sample_codec b)" "\<forall>b. sha256_text (cd_sha moved_inode b)"
    "cd_sha sample_codec = cd_sha moved_inode" "cd_dumps sample_codec = cd_dumps moved_inode"
    by (simp_all add: sample_codec_def moved_inode_def)
  have o: "jsame (VObject old) (VObject old)" "jwf (VObject old)" using ok old by simp_all
  show ?thesis
    using old new ne rawint4_validation_exact [OF sha(1) refl refl old old o]
      rawint4_validation_exact [OF sha(2,3,4) old new o] by auto
qed

end
