(* ===== verification/NonExpertCache.thy ===== *)
theory NonExpertCache
  imports Artifacts
begin

text \<open>
  The cache of converted non-expert weights (\<open>_inspect_cache_tensors\<close>,
  \<open>write_kt_non_expert_cache_manifest\<close>, \<open>_validate_non_expert_cache\<close> of
  \<open>kt-kernel/python/sft/artifacts.py\<close>): the producer publishes a manifest over an already converted
  directory, the loader accepts the directory only with a manifest that describes it exactly.
\<close>

definition nonexpert_manifest :: string where
  "nonexpert_manifest = ''kt_non_expert_manifest.json''"

section \<open>Tensor names\<close>

text \<open>\<open>_FP32_ROUTER_BIAS.fullmatch(key)\<close> and \<open>_ROUTED_EXPERT.search(key)\<close>; \<open>$\<close> also matches before a final newline.\<close>

definition fp32_router_bias :: "string \<Rightarrow> bool" where
  "fp32_router_bias key =
     (case split_on (CHR ''.'') key of
        [a, b, c, d, e, f] \<Rightarrow>
          a = ''model'' \<and> b = ''layers'' \<and> c \<noteq> [] \<and> list_all is_digit c \<and> d = ''mlp'' \<and> e = ''gate'' \<and>
          f = ''e_score_correction_bias''
      | _ \<Rightarrow> False)"

definition routed_expert :: "string \<Rightarrow> bool" where
  "routed_expert key =
     (let parts = split_on (CHR ''.'') key in
      ''experts'' \<in> set parts \<or> last parts = ''experts'' @ [CHR 0x0A])"

text \<open>The prefix of the multi-token-prediction layer; Python's \<open>bool\<close> is an \<open>int\<close>.\<close>

definition mtp_prefix :: "(string, jvalue) dict \<Rightarrow> string option" where
  "mtp_prefix source_config =
     (case obj_get source_config ''num_hidden_layers'' of
        VInt n \<Rightarrow> Some (''model.layers.'' @ str_of_int n @ ''.'')
      | VBool b \<Rightarrow> Some (''model.layers.'' @ (if b then ''True'' else ''False'') @ ''.'')
      | _ \<Rightarrow> None)"

definition rejected_prefix :: "(string, jvalue) dict \<Rightarrow> string option" where
  "rejected_prefix source_config =
     (if obj_get source_config ''model_type'' = VStr ''deepseek_v3'' then mtp_prefix source_config else None)"

section \<open>The shards\<close>

record file_rec =
  fr_name :: string
  fr_bytes :: int
  fr_sha :: string

record observed =
  ob_keys :: "string list"
  ob_bytes :: int
  ob_dtypes :: "(string, int) dict"

definition expected_dtype :: "string \<Rightarrow> string" where
  "expected_dtype key = (if fp32_router_bias key then ''F32'' else ''BF16'')"

definition observe_tensor :: "string option \<Rightarrow> string \<Rightarrow> tensor_meta \<Rightarrow> observed \<Rightarrow> observed result" where
  "observe_tensor rejected key t ob =
     (if key \<in> set (ob_keys ob) then Inl (ArtifactError ''duplicate tensor across cache shards'')
      else if tm_dtype t \<noteq> expected_dtype key then Inl (ArtifactError ''cache tensor has the wrong dtype'')
      else if routed_expert key \<or> ends_with key ''.weight_scale_inv''
      then Inl (ArtifactError ''cache contains routed/quantized tensor'')
      else if (case rejected of None \<Rightarrow> False | Some p \<Rightarrow> starts_with p key)
      then Inl (ArtifactError ''cache contains excluded MTP tensor'')
      else Inr \<lparr>ob_keys = ob_keys ob @ [key],
                ob_bytes = ob_bytes ob + prod_list (tm_shape t) * (if tm_dtype t = ''F32'' then 4 else 2),
                ob_dtypes = dset (ob_dtypes ob) (tm_dtype t)
                  (1 + (case dget (ob_dtypes ob) (tm_dtype t) of None \<Rightarrow> 0 | Some n \<Rightarrow> n))\<rparr>)"

fun observe_tensors :: "string option \<Rightarrow> (string \<times> tensor_meta) list \<Rightarrow> observed \<Rightarrow> observed result" where
  "observe_tensors rejected [] ob = Inr ob"
| "observe_tensors rejected ((key, t) # ts) ob =
     rbind (observe_tensor rejected key t ob) (\<lambda>ob'. observe_tensors rejected ts ob')"

fun inspect_files ::
  "'c codec \<Rightarrow> 'c tree \<Rightarrow> path \<Rightarrow> string option \<Rightarrow> bool \<Rightarrow> (string, file_rec) dict \<Rightarrow> string list \<Rightarrow> observed
     \<Rightarrow> observed result" where
  "inspect_files cd fs root rejected verify_hashes records [] ob = Inr ob"
| "inspect_files cd fs root rejected verify_hashes records (name # names) ob =
     (let path = root @ [name] in
      case dget records name of
        None \<Rightarrow> Inl (KeyError name)
      | Some r \<Rightarrow>
          rbind (require (regular_file fs path) (ArtifactError ''cache artifact must be a regular file'')) (\<lambda>_.
          rbind (require (file_size fs path = fr_bytes r) (ArtifactError ''cache size mismatch'')) (\<lambda>_.
          rbind (if verify_hashes then sha256_file cd fs path else Inr (fr_sha r)) (\<lambda>digest.
          rbind (require (digest = fr_sha r) (ArtifactError ''cache SHA256 mismatch'')) (\<lambda>_.
          if name = safetensors_index then inspect_files cd fs root rejected verify_hashes records names ob
          else
            rbind (open_shard cd fs path) (\<lambda>ts.
            rbind (observe_tensors rejected ts ob) (\<lambda>ob'.
            inspect_files cd fs root rejected verify_hashes records names ob')))))))"

definition inspect_cache_tensors ::
  "'c codec \<Rightarrow> 'c tree \<Rightarrow> path \<Rightarrow> (string, jvalue) dict \<Rightarrow> (string, jvalue) dict \<Rightarrow> bool \<Rightarrow> (string, file_rec) dict
     \<Rightarrow> (observed \<times> path list) result" where
  "inspect_cache_tensors cd fs root index source_config verify_hashes file_records =
     (case obj_get index ''weight_map'' of
        VObject weight_map \<Rightarrow>
          (if weight_map = [] then Inl (ArtifactError ''weight_map must be a non-empty object'')
           else
             rbind (shard_names weight_map) (\<lambda>shards.
             let expected_files = sort (remdups (safetensors_index # shards)) in
             if set (dkeys file_records) \<noteq> set expected_files
             then Inl (ArtifactError ''cache file inventory differs from its index'')
             else
               rbind (inspect_files cd fs root (rejected_prefix source_config) verify_hashes file_records expected_files
                        \<lparr>ob_keys = [], ob_bytes = 0, ob_dtypes = []\<rparr>) (\<lambda>ob.
               if set (ob_keys ob) \<noteq> set (dkeys weight_map)
               then Inl (ArtifactError ''cache shard keys do not match the safetensors index'')
               else Inr (ob, map (\<lambda>name. root @ [name]) (filter (\<lambda>name. name \<noteq> safetensors_index) expected_files)))))
      | _ \<Rightarrow> Inl (ArtifactError ''weight_map must be a non-empty object''))"

section \<open>Fingerprints\<close>

definition dtypes_json :: "(string, int) dict \<Rightarrow> jvalue" where
  "dtypes_json counts = VObject (map (\<lambda>(k, n). (k, VInt n)) counts)"

definition cache_fingerprint ::
  "'c codec \<Rightarrow> int \<Rightarrow> string \<Rightarrow> file_rec list \<Rightarrow> int \<Rightarrow> int \<Rightarrow> (string, int) dict \<Rightarrow> string" where
  "cache_fingerprint cd version source_fingerprint records tensor_count tensor_bytes dtype_counts =
     sha_text cd (''kt-non-expert-cache-v'' @ str_of_int version @ nul @ source_fingerprint @ nul @
       str_of_int tensor_count @ nul @ str_of_int tensor_bytes @ nul @ cd_dumps cd (dtypes_json dtype_counts) @ nul @
       concat (map (\<lambda>r. fr_name r @ nul @ str_of_int (fr_bytes r) @ nul @ fr_sha r @ nul) (sort_key fr_name records)))"

definition source_fingerprint :: "'c codec \<Rightarrow> string \<Rightarrow> string \<Rightarrow> string" where
  "source_fingerprint cd config_digest index_digest =
     sha_text cd (''kt-source-checkpoint-v2'' @ nul @ config_digest @ nul @ index_digest)"

section \<open>What producer and loader share\<close>

text \<open>The FP8 block size that the source configuration must declare.\<close>

definition fp8_block_size :: "(string, jvalue) dict \<Rightarrow> jvalue list result" where
  "fp8_block_size source_config =
     (case obj_get source_config ''quantization_config'' of
        VObject quantization \<Rightarrow>
          (if obj_get quantization ''quant_method'' \<noteq> VStr ''fp8'' then Inl (ArtifactError ''must describe an FP8 checkpoint'')
           else case obj_get quantization ''weight_block_size'' of
             VList [VInt a, VInt b] \<Rightarrow>
               (if 0 < a \<and> 0 < b then Inr [VInt a, VInt b] else Inl (ArtifactError ''invalid source FP8 weight_block_size''))
           | _ \<Rightarrow> Inl (ArtifactError ''invalid source FP8 weight_block_size''))
      | _ \<Rightarrow> Inl (ArtifactError ''must describe an FP8 checkpoint''))"

definition converter_json :: "string \<Rightarrow> int \<Rightarrow> jvalue list \<Rightarrow> jvalue" where
  "converter_json producer version block_size =
     VObject [(''name'', VStr producer), (''version'', VInt version), (''default_dtype'', VStr ''BF16''),
       (''fp32_exceptions'', VList [VStr ''model.layers.*.mlp.gate.e_score_correction_bias'']),
       (''weight_block_size'', VList block_size)]"

definition nonexpert_producer :: string where
  "nonexpert_producer = ''kt-kernel.prepare-non-expert-cache''"

definition legacy_producer :: string where
  "legacy_producer = ''llamafactory.prepare-kt-cache''"

section \<open>The producer\<close>

fun string_values :: "(string \<times> jvalue) list \<Rightarrow> string list result" where
  "string_values [] = Inr []"
| "string_values ((_, v) # d) =
     (case v of VStr s \<Rightarrow> rbind (string_values d) (\<lambda>ss. Inr (s # ss)) | _ \<Rightarrow> Inl (TypeError ''unsupported operand''))"

text \<open>\<open>sorted(set(cache_index.get("weight_map", {}).values()))\<close>.\<close>

definition listed_shards :: "(string, jvalue) dict \<Rightarrow> string list result" where
  "listed_shards cache_index =
     (case dget cache_index ''weight_map'' of
        None \<Rightarrow> Inr []
      | Some (VObject weight_map) \<Rightarrow> rbind (string_values weight_map) (\<lambda>names. Inr (sort (remdups names)))
      | Some _ \<Rightarrow> Inl (AttributeError ''values''))"

fun cache_records :: "'c codec \<Rightarrow> 'c tree \<Rightarrow> path list \<Rightarrow> (string, file_rec) dict \<Rightarrow> (string, file_rec) dict result" where
  "cache_records cd fs [] records = Inr records"
| "cache_records cd fs (p # ps) records =
     (if \<not> regular_file fs p \<or> dmem records (last p) then Inl (ArtifactError ''invalid or duplicate cache artifact'')
      else
        rbind (sha256_file cd fs p) (\<lambda>digest.
        cache_records cd fs ps (dset records (last p) \<lparr>fr_name = last p, fr_bytes = file_size fs p, fr_sha = digest\<rparr>)))"

definition file_rec_json :: "file_rec \<Rightarrow> jvalue" where
  "file_rec_json r = VObject [(''name'', VStr (fr_name r)), (''size'', VInt (fr_bytes r)), (''sha256'', VStr (fr_sha r))]"

text \<open>\<open>[records[name] for name in sorted(records)]\<close>.\<close>

definition record_list :: "(string, file_rec) dict \<Rightarrow> file_rec list" where
  "record_list records = map (\<lambda>name. the (dget records name)) (sort (dkeys records))"

definition source_json :: "'c codec \<Rightarrow> path \<Rightarrow> string \<Rightarrow> string \<Rightarrow> (string, jvalue) dict" where
  "source_json cd source config_digest index_digest =
     [(''model_name_or_path'', VStr (path_text source)),
      (''fingerprint'', VStr (source_fingerprint cd config_digest index_digest)),
      (''config_sha256'', VStr config_digest), (''index_sha256'', VStr index_digest)]"

definition tensors_json :: "observed \<Rightarrow> (string, jvalue) dict" where
  "tensors_json ob =
     [(''count'', VInt (int (length (ob_keys ob)))), (''bytes'', VInt (ob_bytes ob)), (''dtypes'', dtypes_json (ob_dtypes ob))]"

definition cache_payload ::
  "'c codec \<Rightarrow> path \<Rightarrow> string \<Rightarrow> string \<Rightarrow> jvalue list \<Rightarrow> file_rec list \<Rightarrow> observed \<Rightarrow> (string, jvalue) dict" where
  "cache_payload cd source config_digest index_digest block_size records ob =
     [(''version'', VInt 2), (''status'', VStr ''ready''),
      (''fingerprint'',
         VStr (cache_fingerprint cd 2 (source_fingerprint cd config_digest index_digest) records
           (int (length (ob_keys ob))) (ob_bytes ob) (ob_dtypes ob))),
      (''source'', VObject (source_json cd source config_digest index_digest)),
      (''converter'', converter_json nonexpert_producer 2 block_size),
      (''files'', VList (map file_rec_json records)),
      (''tensors'', VObject (tensors_json ob))]"

definition describe_cache ::
  "'c codec \<Rightarrow> 'c tree \<Rightarrow> path \<Rightarrow> path \<Rightarrow> (string, jvalue) dict result" where
  "describe_cache cd fs root source =
     (if exists_at fs (root @ [nonexpert_manifest]) then Inl (ArtifactError ''cache manifest already exists'')
      else
        rbind (read_json cd fs (source @ [''config.json''])) (\<lambda>source_config.
        rbind (read_json cd fs (source @ [safetensors_index])) (\<lambda>_.
        rbind (read_json cd fs (root @ [safetensors_index])) (\<lambda>cache_index.
        rbind (sha256_file cd fs (source @ [''config.json''])) (\<lambda>config_digest.
        rbind (sha256_file cd fs (source @ [safetensors_index])) (\<lambda>index_digest.
        rbind (listed_shards cache_index) (\<lambda>shards.
        rbind (cache_records cd fs ((root @ [safetensors_index]) # map (subpath root) shards) []) (\<lambda>records.
        rbind (inspect_cache_tensors cd fs root cache_index source_config True records) (\<lambda>(ob, _).
        rbind (fp8_block_size source_config) (\<lambda>block_size.
        Inr (cache_payload cd source config_digest index_digest block_size (record_list records) ob)))))))))))"

definition write_kt_non_expert_cache_manifest ::
  "'c codec \<Rightarrow> (nat \<Rightarrow> io) \<Rightarrow> string \<Rightarrow> string \<Rightarrow> string \<Rightarrow> ('c disk, (string, jvalue) dict) eop" where
  "write_kt_non_expert_cache_manifest cd io token cache_path source_path =
     ebind (disk_query (\<lambda>fs. safe_root fs cache_path)) (\<lambda>root.
     ebind (disk_query (\<lambda>fs. safe_root fs source_path)) (\<lambda>source.
     ebind (disk_query (\<lambda>fs. describe_cache cd fs root source)) (\<lambda>payload.
     ebind (write_json_atomic cd io token root nonexpert_manifest payload) (\<lambda>_.
     ereturn payload))))"

section \<open>The loader\<close>

record cache =
  kc_path :: path
  kc_manifest_path :: path
  kc_manifest :: "(string, jvalue) dict"
  kc_checkpoint_files :: "path list"
  kc_weight_keys :: "string list"
  kc_source_config :: "(string, jvalue) dict"

fun parse_files :: "jvalue list \<Rightarrow> (string, file_rec) dict \<Rightarrow> (string, file_rec) dict result" where
  "parse_files [] records = Inr records"
| "parse_files (v # vs) records =
     (case v of
        VObject d \<Rightarrow>
          rbind (require_string (obj_get d ''name'')) (\<lambda>name.
          rbind (require (is_basename name \<and> \<not> dmem records name) (ArtifactError ''invalid or duplicate filename'')) (\<lambda>_.
          rbind (require_positive (obj_get d ''size'')) (\<lambda>n.
          rbind (require_sha256 (obj_get d ''sha256'')) (\<lambda>digest.
          parse_files vs (dset records name \<lparr>fr_name = name, fr_bytes = n, fr_sha = digest\<rparr>)))))
      | _ \<Rightarrow> Inl (ArtifactError ''files entry must be an object''))"

text \<open>\<open>version not in {1, 2}\<close>; \<open>True\<close> and \<open>1.0\<close> are in the set.\<close>

definition cache_version :: "jvalue \<Rightarrow> int result" where
  "cache_version v =
     (case v of
        VList _ \<Rightarrow> Inl (TypeError ''unhashable'')
      | VObject _ \<Rightarrow> Inl (TypeError ''unhashable'')
      | _ \<Rightarrow> if equals_int v 1 then Inr 1 else if equals_int v 2 then Inr 2 else Inl (ArtifactError ''unsupported version''))"

definition check_source_file :: "'c codec \<Rightarrow> 'c tree \<Rightarrow> (string, jvalue) dict \<Rightarrow> string \<Rightarrow> path \<Rightarrow> string result" where
  "check_source_file cd fs source_record field p =
     rbind (require_sha256 (obj_get source_record field)) (\<lambda>expected.
     if \<not> regular_file fs p then Inl (ArtifactError ''source file does not match'')
     else rbind (sha256_file cd fs p) (\<lambda>digest.
       if digest = expected then Inr expected else Inl (ArtifactError ''source file does not match'')))"

definition check_source ::
  "'c codec \<Rightarrow> 'c tree \<Rightarrow> int \<Rightarrow> path \<Rightarrow> (string, jvalue) dict \<Rightarrow> string result" where
  "check_source cd fs version source source_record =
     rbind (require_string (obj_get source_record ''model_name_or_path'')) (\<lambda>recorded.
     rbind (require (same_source cd fs (path_text source) recorded) (ArtifactError ''cache source does not match'')) (\<lambda>_.
     rbind (require_sha256 (obj_get source_record ''fingerprint'')) (\<lambda>fingerprint.
     rbind (check_source_file cd fs source_record ''config_sha256'' (source @ [''config.json''])) (\<lambda>config_digest.
     rbind (check_source_file cd fs source_record ''index_sha256'' (source @ [safetensors_index])) (\<lambda>index_digest.
     if version = 2 \<and> fingerprint \<noteq> source_fingerprint cd config_digest index_digest
     then Inl (ArtifactError ''source fingerprint is invalid'') else Inr fingerprint)))))"

definition check_tensors_field :: "jvalue \<Rightarrow> observed \<Rightarrow> unit result" where
  "check_tensors_field v ob =
     (case v of
        VObject tensors \<Rightarrow>
          rbind (require (equals_int (obj_get tensors ''count'') (int (length (ob_keys ob))))
                   (ArtifactError ''tensor count does not match the index'')) (\<lambda>_.
          require (equals_int (obj_get tensors ''bytes'') (ob_bytes ob) \<and>
                   jeq (obj_get tensors ''dtypes'') (dtypes_json (ob_dtypes ob)))
            (ArtifactError ''tensor metadata does not match cache shards''))
      | _ \<Rightarrow> Inl (ArtifactError ''tensors must be an object''))"

definition check_cache_manifest ::
  "'c codec \<Rightarrow> 'c tree \<Rightarrow> path \<Rightarrow> path \<Rightarrow> bool \<Rightarrow> (string, jvalue) dict \<Rightarrow> cache result" where
  "check_cache_manifest cd fs root source verify_hashes manifest =
     rbind (cache_version (obj_get manifest ''version'')) (\<lambda>version.
          rbind (require (obj_get manifest ''status'' = VStr ''ready'') (ArtifactError ''status must be ready'')) (\<lambda>_.
          rbind (require_sha256 (obj_get manifest ''fingerprint'')) (\<lambda>fingerprint.
          case obj_get manifest ''source'' of
            VObject source_record \<Rightarrow>
              rbind (check_source cd fs version source source_record) (\<lambda>source_fp.
              rbind (read_json cd fs (source @ [''config.json''])) (\<lambda>source_config.
              rbind (fp8_block_size source_config) (\<lambda>block_size.
              rbind (require (jeq (obj_get manifest ''converter'')
                        (converter_json (if version = 1 then legacy_producer else nonexpert_producer) version block_size))
                      (ArtifactError ''converter contract is unsupported'')) (\<lambda>_.
              case obj_get manifest ''files'' of
                VList files \<Rightarrow>
                  (if files = [] then Inl (ArtifactError ''files must be a non-empty list'')
                   else
                     rbind (parse_files files []) (\<lambda>records.
                     rbind (read_json cd fs (root @ [safetensors_index])) (\<lambda>cache_index.
                     rbind (inspect_cache_tensors cd fs root cache_index source_config verify_hashes records)
                       (\<lambda>(ob, checkpoint_files).
                     rbind (check_tensors_field (obj_get manifest ''tensors'') ob) (\<lambda>_.
                     if fingerprint = cache_fingerprint cd version source_fp (map snd records)
                          (int (length (ob_keys ob))) (ob_bytes ob) (ob_dtypes ob)
                     then Inr \<lparr>kc_path = root, kc_manifest_path = root @ [nonexpert_manifest], kc_manifest = manifest,
                               kc_checkpoint_files = checkpoint_files, kc_weight_keys = ob_keys ob,
                               kc_source_config = source_config\<rparr>
                     else Inl (ArtifactError ''fingerprint does not match its records''))))))
              | _ \<Rightarrow> Inl (ArtifactError ''files must be a non-empty list'')))))
          | _ \<Rightarrow> Inl (ArtifactError ''source must be an object''))))"

definition validate_non_expert_cache ::
  "'c codec \<Rightarrow> 'c tree \<Rightarrow> string \<Rightarrow> string \<Rightarrow> bool \<Rightarrow> cache result" where
  "validate_non_expert_cache cd fs cache_path source_path verify_hashes =
     rbind (safe_root fs cache_path) (\<lambda>root.
     rbind (safe_root fs source_path) (\<lambda>source.
     rbind (read_json cd fs (root @ [nonexpert_manifest])) (\<lambda>manifest.
     check_cache_manifest cd fs root source verify_hashes manifest)))"

end
