(* ===== verification/NonExpertCacheSound.thy ===== *)
theory NonExpertCacheSound
  imports NonExpertCache
begin

text \<open>
  The manifest that the producer publishes is accepted by the loader, and what the loader accepts is
  exactly a set of non-expert tensors.
\<close>

section \<open>A tree with one more file\<close>

definition added :: "path \<Rightarrow> int \<times> 'c \<Rightarrow> 'c tree \<Rightarrow> 'c tree \<Rightarrow> bool" where
  "added p doc fs fs' \<longleftrightarrow> dget fs p = None \<and>
     (\<forall>q. dget fs' q = (if q = p then Some (File (fst doc) (snd doc)) else dget fs q))"

lemma added_links: "added p doc fs fs' \<Longrightarrow> same_links fs fs'"
  by (auto simp: added_def same_links_def link_target_def fun_eq_iff)

lemma added_resolve: "added p doc fs fs' \<Longrightarrow> resolve fs' q = resolve fs q"
  using resolve_same [OF added_links] by metis

lemma added_stat: "added p doc fs fs' \<Longrightarrow> stat fs q = Some n \<Longrightarrow> stat fs' q = Some n"
  by (auto simp: stat_def added_resolve [of p doc fs fs'] added_def)

lemma added_is_link: "added p doc fs fs' \<Longrightarrow> is_link fs' q = is_link fs q"
  by (auto simp: is_link_def lstat_def phys_def added_resolve [of p doc fs fs'] added_def)

lemma added_dir_at: "added p doc fs fs' \<Longrightarrow> dir_at fs' q = dir_at fs q"
  by (auto simp: dir_at_def is_dir_def stat_def added_resolve [of p doc fs fs'] added_def)

lemmas added_eqs = added_resolve added_is_link added_dir_at

lemma added_safe_root:
  assumes "added p doc fs fs'"
  shows "safe_root fs' s = safe_root fs s"
  by (simp add: safe_root_def Let_def added_eqs [OF assms])

lemma added_regular:
  assumes "added p doc fs fs'" "regular_file fs q"
  shows "regular_file fs' q"
  using assms(2) added_stat [OF assms(1), of q]
  by (auto simp: regular_file_def added_eqs [OF assms(1)] is_file_def split: option.splits node.splits)

lemma added_size:
  assumes "added p doc fs fs'" "regular_file fs q"
  shows "file_size fs' q = file_size fs q"
  using assms(2) added_stat [OF assms(1), of q]
  by (auto simp: regular_file_def is_file_def file_size_def split: option.splits node.splits)

lemma added_sha: "added p doc fs fs' \<Longrightarrow> sha256_file cd fs q = Inr s \<Longrightarrow> sha256_file cd fs' q = Inr s"
  using added_stat [of p doc fs fs' q] unfolding sha256_file_Inr by blast

lemma added_json: "added p doc fs fs' \<Longrightarrow> read_json cd fs q = Inr d \<Longrightarrow> read_json cd fs' q = Inr d"
  using added_stat [of p doc fs fs' q] added_regular [of p doc fs fs' q] unfolding read_json_Inr by blast

lemma added_open:
  assumes "added p doc fs fs'" "open_shard cd fs q = Inr ts"
  shows "open_shard cd fs' q = Inr ts"
  using assms(2) added_stat [OF assms(1), of q] by (auto simp: open_shard_def split: option.splits node.splits)

lemma added_new:
  assumes ext: "added p doc fs fs'" and dir: "real_path fs dir" and p: "p = dir @ [x]"
  shows "regular_file fs' p \<and> stat fs' p = Some (File (fst doc) (snd doc))"
proof -
  have "resolve fs' dir = dir" using real_path_resolve [OF dir] added_resolve [OF ext] by simp
  with ext show ?thesis unfolding p regular_file_def is_link_def is_file_def
    by (simp add: lstat_child stat_def resolve_child link_target_def added_def)
qed

section \<open>The shards, read twice\<close>

lemma inspect_files_step:
  assumes "dget records name = Some r" "regular_file fs (root @ [name])" "file_size fs (root @ [name]) = fr_bytes r"
    "(if v then sha256_file cd fs (root @ [name]) else Inr (fr_sha r)) = Inr (fr_sha r)"
  shows "inspect_files cd fs root rej v records (name # names) ob =
    (if name = safetensors_index then inspect_files cd fs root rej v records names ob
     else rbind (open_shard cd fs (root @ [name])) (\<lambda>ts. rbind (observe_tensors rej ts ob) (\<lambda>ob'.
       inspect_files cd fs root rej v records names ob')))"
  using assms by (simp add: Let_def)

lemma inspect_files_head:
  assumes "inspect_files cd fs root rej v records (name # names) ob = Inr ob'"
  shows "\<exists>r. dget records name = Some r \<and> regular_file fs (root @ [name]) \<and> file_size fs (root @ [name]) = fr_bytes r \<and>
    (v \<longrightarrow> sha256_file cd fs (root @ [name]) = Inr (fr_sha r))"
proof (cases "dget records name")
  case None
  with assms show ?thesis by (simp add: Let_def)
next
  case (Some r)
  with assms show ?thesis by (auto simp: Let_def simp del: inspect_files.simps(1) split: if_splits)
qed

lemma inspect_files_again:
  assumes ext: "added p doc fs fs'"
    and same: "\<And>name. name \<in> set names \<Longrightarrow> dget records' name = dget records name"
    and run: "inspect_files cd fs root rej True records names ob = Inr ob'"
  shows "inspect_files cd fs' root rej v records' names ob = Inr ob'"
  using same run
proof (induction names arbitrary: ob)
  case (Cons name names)
  obtain r where r: "dget records name = Some r" and f: "regular_file fs (root @ [name])"
    "file_size fs (root @ [name]) = fr_bytes r" "sha256_file cd fs (root @ [name]) = Inr (fr_sha r)"
    using inspect_files_head [OF Cons.prems(2)] by blast
  have rest: "inspect_files cd fs root rej True records names ob1 = Inr ob' \<Longrightarrow>
      inspect_files cd fs' root rej v records' names ob1 = Inr ob'" for ob1
    using Cons.IH Cons.prems(1) by simp
  have here: "inspect_files cd fs root rej True records (name # names) ob =
    (if name = safetensors_index then inspect_files cd fs root rej True records names ob
     else rbind (open_shard cd fs (root @ [name])) (\<lambda>ts. rbind (observe_tensors rej ts ob) (\<lambda>ob'.
       inspect_files cd fs root rej True records names ob')))"
    by (rule inspect_files_step) (simp_all add: r f)
  have there: "inspect_files cd fs' root rej v records' (name # names) ob =
    (if name = safetensors_index then inspect_files cd fs' root rej v records' names ob
     else rbind (open_shard cd fs' (root @ [name])) (\<lambda>ts. rbind (observe_tensors rej ts ob) (\<lambda>ob'.
       inspect_files cd fs' root rej v records' names ob')))"
  proof (rule inspect_files_step [of _ _ r])
    show "dget records' name = Some r" using Cons.prems(1) [of name] r by simp
    show "(if v then sha256_file cd fs' (root @ [name]) else Inr (fr_sha r)) = Inr (fr_sha r)"
      using added_sha [OF ext f(3)] by (cases v) simp_all
  qed (use added_regular [OF ext f(1)] added_size [OF ext f(1)] f(2) in simp_all)
  show ?case
    unfolding there using Cons.prems(2) [unfolded here] rest added_open [OF ext] by (auto split: if_splits)
qed simp

lemma inspect_cache_Inr:
  "inspect_cache_tensors cd fs root index config v records = Inr (ob, files) \<longleftrightarrow>
     (\<exists>weight_map shards. obj_get index ''weight_map'' = VObject weight_map \<and> weight_map \<noteq> [] \<and>
        shard_names weight_map = Inr shards \<and> set (dkeys records) = set (safetensors_index # shards) \<and>
        inspect_files cd fs root (rejected_prefix config) v records (sort (remdups (safetensors_index # shards)))
          \<lparr>ob_keys = [], ob_bytes = 0, ob_dtypes = []\<rparr> = Inr ob \<and>
        set (ob_keys ob) = set (dkeys weight_map) \<and>
        files = map (\<lambda>name. root @ [name])
          (filter (\<lambda>name. name \<noteq> safetensors_index) (sort (remdups (safetensors_index # shards)))))"
proof (cases "obj_get index ''weight_map''")
  case (VObject weight_map)
  show ?thesis
    unfolding inspect_cache_tensors_def VObject jvalue.case Let_def by (auto split: if_splits simp del: remdups.simps inspect_files.simps)
qed (simp_all add: inspect_cache_tensors_def)

lemma inspect_again:
  assumes ext: "added p doc fs fs'"
    and same: "\<And>name. dget records' name = dget records name"
    and run: "inspect_cache_tensors cd fs root index config True records = Inr (ob, files)"
  shows "inspect_cache_tensors cd fs' root index config v records' = Inr (ob, files)"
proof -
  have "dmem records' k \<longleftrightarrow> dmem records k" for k using same [of k] dget_None_iff by metis
  then have keys: "set (dkeys records') = set (dkeys records)" by (auto simp: dmem_def)
  show ?thesis
    using run inspect_files_again [OF ext, of _ records' records] same unfolding inspect_cache_Inr keys by blast
qed

section \<open>The file records\<close>

text \<open>The record that the producer makes of the file \<open>p\<close>.\<close>

definition record_of :: "'c codec \<Rightarrow> 'c tree \<Rightarrow> path \<Rightarrow> file_rec" where
  "record_of cd fs p =
     \<lparr>fr_name = last p, fr_bytes = file_size fs p, fr_sha = (case sha256_file cd fs p of Inr s \<Rightarrow> s | Inl _ \<Rightarrow> [])\<rparr>"

lemma cache_records_Inr:
  "cache_records cd fs ps records = Inr records' \<Longrightarrow>
     records' = records @ map (\<lambda>p. (last p, record_of cd fs p)) ps \<and>
     (dwf records \<longrightarrow> dwf records') \<and>
     (\<forall>p \<in> set ps. regular_file fs p \<and> sha256_file cd fs p = Inr (fr_sha (record_of cd fs p)))"
proof (induction ps arbitrary: records)
  case (Cons p ps)
  then obtain digest where p: "regular_file fs p" "\<not> dmem records (last p)" "sha256_file cd fs p = Inr digest" and
    rest: "cache_records cd fs ps (dset records (last p) \<lparr>fr_name = last p, fr_bytes = file_size fs p, fr_sha = digest\<rparr>) = Inr records'"
    by (auto split: if_splits)
  have rec: "record_of cd fs p = \<lparr>fr_name = last p, fr_bytes = file_size fs p, fr_sha = digest\<rparr>"
    by (simp add: record_of_def p(3))
  note ih = Cons.IH [OF rest, folded rec]
  have "dwf records \<longrightarrow> dwf records'" using ih dwf_dset [of records] by blast
  moreover have "records' = records @ map (\<lambda>p. (last p, record_of cd fs p)) (p # ps)"
    using ih p(2) by (simp add: dset_fresh)
  ultimately show ?case using ih p(1,3) rec by simp
qed simp

lemma parse_files_ok:
  assumes "list_all2 (\<lambda>r v. \<exists>d. v = VObject d \<and> obj_get d ''name'' = VStr (fr_name r) \<and> obj_get d ''size'' = VInt (fr_bytes r) \<and>
      obj_get d ''sha256'' = VStr (fr_sha r)) rs vs"
    and "\<forall>r \<in> set rs. fr_name r \<noteq> [] \<and> is_basename (fr_name r) \<and> 0 < fr_bytes r \<and> sha256_text (fr_sha r)"
    and "distinct (map fr_name rs)" "dwf records" "set (dkeys records) \<inter> fr_name ` set rs = {}"
  shows "parse_files vs records = Inr (records @ map (\<lambda>r. (fr_name r, r)) rs)"
  using assms
proof (induction arbitrary: records rule: list_all2_induct)
  case (Cons r rs v vs)
  then obtain d where d: "v = VObject d" "obj_get d ''name'' = VStr (fr_name r)" "obj_get d ''size'' = VInt (fr_bytes r)"
    "obj_get d ''sha256'' = VStr (fr_sha r)" by blast
  have fresh: "\<not> dmem records (fr_name r)" using Cons.prems(4) by (auto simp: dmem_def)
  have "parse_files vs (records @ [(fr_name r, r)]) = Inr ((records @ [(fr_name r, r)]) @ map (\<lambda>r. (fr_name r, r)) rs)"
    using Cons.prems fresh by (intro Cons.IH) (auto simp: dwf_def dmem_def)
  moreover have "fr_sha r \<noteq> []" using Cons.prems(1) by auto
  ultimately show ?case using d fresh Cons.prems(1)
    by (cases r) (simp add: require_string_def require_positive_def require_sha256_def dset_fresh)
qed simp

section \<open>What the observation collects\<close>

lemma observe_tensor_Inr:
  assumes "observe_tensor rej key t ob = Inr ob'"
  shows "key \<notin> set (ob_keys ob)" "tm_dtype t = expected_dtype key" "\<not> routed_expert key"
    "\<not> ends_with key ''.weight_scale_inv''" "rej = Some p \<Longrightarrow> \<not> starts_with p key"
    "ob_keys ob' = ob_keys ob @ [key]" "dwf (ob_dtypes ob) \<Longrightarrow> dwf (ob_dtypes ob')"
  using assms by (auto simp: observe_tensor_def split: if_splits option.splits)

text \<open>A tensor that may be in the cache.\<close>

definition cacheable :: "string option \<Rightarrow> string \<Rightarrow> tensor_meta \<Rightarrow> bool" where
  "cacheable rej key t \<longleftrightarrow> tm_dtype t = expected_dtype key \<and> \<not> routed_expert key \<and>
     \<not> ends_with key ''.weight_scale_inv'' \<and> (\<forall>p. rej = Some p \<longrightarrow> \<not> starts_with p key)"

lemma observe_tensors_Inr:
  "observe_tensors rej ts ob = Inr ob' \<Longrightarrow>
     ob_keys ob' = ob_keys ob @ map fst ts \<and> (distinct (ob_keys ob) \<longrightarrow> distinct (ob_keys ob')) \<and>
     (dwf (ob_dtypes ob) \<longrightarrow> dwf (ob_dtypes ob')) \<and> (\<forall>(key, t) \<in> set ts. cacheable rej key t)"
proof (induction ts arbitrary: ob rule: list.induct)
  case (Cons kt ts)
  obtain key t where kt: "kt = (key, t)" by force
  with Cons.prems obtain ob1 where o: "observe_tensor rej key t ob = Inr ob1" "observe_tensors rej ts ob1 = Inr ob'"
    by auto
  have c: "cacheable rej key t"
    unfolding cacheable_def using observe_tensor_Inr(2,3,4,5) [OF o(1)] by blast
  note keys = observe_tensor_Inr(6) [OF o(1)] and new = observe_tensor_Inr(1) [OF o(1)] and wf = observe_tensor_Inr(7) [OF o(1)]
  note ih = Cons.IH [OF o(2)]
  have "distinct (ob_keys ob) \<longrightarrow> distinct (ob_keys ob1)" using keys new by simp
  with ih have "distinct (ob_keys ob) \<longrightarrow> distinct (ob_keys ob')" by blast
  moreover have "dwf (ob_dtypes ob) \<longrightarrow> dwf (ob_dtypes ob')" using ih wf by blast
  moreover have "ob_keys ob' = ob_keys ob @ map fst (kt # ts)" using ih keys kt by simp
  moreover have "\<forall>(key, t) \<in> set (kt # ts). cacheable rej key t" using ih c kt by simp
  ultimately show ?case by blast
qed simp

lemma inspect_files_Inr:
  "inspect_files cd fs root rej v records names ob = Inr ob' \<Longrightarrow>
     (distinct (ob_keys ob) \<longrightarrow> distinct (ob_keys ob')) \<and> (dwf (ob_dtypes ob) \<longrightarrow> dwf (ob_dtypes ob')) \<and>
     (\<forall>name \<in> set names. \<exists>r. dget records name = Some r \<and> regular_file fs (root @ [name]) \<and>
        file_size fs (root @ [name]) = fr_bytes r \<and> (v \<longrightarrow> sha256_file cd fs (root @ [name]) = Inr (fr_sha r))) \<and>
     (\<forall>name \<in> set names. name \<noteq> safetensors_index \<longrightarrow> (\<exists>ts. open_shard cd fs (root @ [name]) = Inr ts \<and>
        (\<forall>(key, t) \<in> set ts. cacheable rej key t \<and> key \<in> set (ob_keys ob')))) \<and>
     set (ob_keys ob) \<subseteq> set (ob_keys ob') \<and>
     (\<forall>key \<in> set (ob_keys ob'). key \<in> set (ob_keys ob) \<or> (\<exists>name \<in> set names. name \<noteq> safetensors_index \<and>
        (\<exists>ts. open_shard cd fs (root @ [name]) = Inr ts \<and> key \<in> set (dkeys ts))))"
proof (induction names arbitrary: ob)
  case (Cons name names)
  obtain r where r: "dget records name = Some r" and f: "regular_file fs (root @ [name])"
    "file_size fs (root @ [name]) = fr_bytes r" "v \<longrightarrow> sha256_file cd fs (root @ [name]) = Inr (fr_sha r)"
    using inspect_files_head [OF Cons.prems] by blast
  have step: "inspect_files cd fs root rej v records (name # names) ob =
    (if name = safetensors_index then inspect_files cd fs root rej v records names ob
     else rbind (open_shard cd fs (root @ [name])) (\<lambda>ts. rbind (observe_tensors rej ts ob) (\<lambda>ob1.
       inspect_files cd fs root rej v records names ob1)))"
    by (rule inspect_files_step) (use r f in auto)
  show ?case
  proof (cases "name = safetensors_index")
    case True
    then have "inspect_files cd fs root rej v records names ob = Inr ob'" using Cons.prems unfolding step by simp
    from Cons.IH [OF this] True r f show ?thesis by auto
  next
    case False
    then obtain ts ob1 where o: "open_shard cd fs (root @ [name]) = Inr ts" "observe_tensors rej ts ob = Inr ob1"
      "inspect_files cd fs root rej v records names ob1 = Inr ob'" using Cons.prems unfolding step by auto
    note ih = Cons.IH [OF o(3)] and new = observe_tensors_Inr [OF o(2)]
    have keys: "set (ob_keys ob1) = set (ob_keys ob) \<union> set (dkeys ts)" using new by (simp add: dkeys_def)
    have here: "\<exists>ts. open_shard cd fs (root @ [name]) = Inr ts \<and>
        (\<forall>(key, t) \<in> set ts. cacheable rej key t \<and> key \<in> set (ob_keys ob'))"
    proof (intro exI conjI)
      have "key \<in> set (ob_keys ob')" if "(key, t) \<in> set ts" for key t
      proof -
        have "key \<in> set (dkeys ts)" using that by (force simp: dkeys_def)
        then show ?thesis using keys ih by blast
      qed
      with new show "\<forall>(key, t) \<in> set ts. cacheable rej key t \<and> key \<in> set (ob_keys ob')" by blast
    qed (rule o(1))
    have origin: "key \<in> set (ob_keys ob) \<or> (\<exists>n \<in> set (name # names). n \<noteq> safetensors_index \<and>
        (\<exists>ts. open_shard cd fs (root @ [n]) = Inr ts \<and> key \<in> set (dkeys ts)))" if "key \<in> set (ob_keys ob')" for key
    proof -
      from that ih consider "key \<in> set (ob_keys ob)" | "key \<in> set (dkeys ts)" | n where "n \<in> set names"
        "n \<noteq> safetensors_index \<and> (\<exists>ts. open_shard cd fs (root @ [n]) = Inr ts \<and> key \<in> set (dkeys ts))"
        unfolding keys by blast
      then show ?thesis using False o(1) by cases auto
    qed
    have mono: "set (ob_keys ob) \<subseteq> set (ob_keys ob')" using keys ih by blast
    show ?thesis
    proof (intro conjI)
      show "distinct (ob_keys ob) \<longrightarrow> distinct (ob_keys ob')" "dwf (ob_dtypes ob) \<longrightarrow> dwf (ob_dtypes ob')"
        using ih new by blast+
      show "\<forall>n \<in> set (name # names). \<exists>r. dget records n = Some r \<and> regular_file fs (root @ [n]) \<and>
          file_size fs (root @ [n]) = fr_bytes r \<and> (v \<longrightarrow> sha256_file cd fs (root @ [n]) = Inr (fr_sha r))"
        using ih r f by simp
      show "\<forall>n \<in> set (name # names). n \<noteq> safetensors_index \<longrightarrow> (\<exists>ts. open_shard cd fs (root @ [n]) = Inr ts \<and>
          (\<forall>(key, t) \<in> set ts. cacheable rej key t \<and> key \<in> set (ob_keys ob')))"
        using ih here by simp
      show "\<forall>key \<in> set (ob_keys ob'). key \<in> set (ob_keys ob) \<or> (\<exists>n \<in> set (name # names). n \<noteq> safetensors_index \<and>
          (\<exists>ts. open_shard cd fs (root @ [n]) = Inr ts \<and> key \<in> set (dkeys ts)))"
        using origin by blast
    qed (rule mono)
  qed
qed simp

section \<open>An accepted cache\<close>

lemma check_cache_manifest_Inr:
  assumes "check_cache_manifest cd fs root source v manifest = Inr c"
  shows "\<exists>index ob records. inspect_cache_tensors cd fs root index (kc_source_config c) v records = Inr (ob, kc_checkpoint_files c) \<and>
     kc_weight_keys c = ob_keys ob"
proof -
  from assms obtain version source_record where
    s: "obj_get manifest ''source'' = VObject source_record" and v: "cache_version (obj_get manifest ''version'') = Inr version"
    by (cases "obj_get manifest ''source''") (auto simp: check_cache_manifest_def)
  from assms obtain files where "obj_get manifest ''files'' = VList files"
    by (cases "obj_get manifest ''files''") (auto simp: check_cache_manifest_def s v)
  with assms s v show ?thesis by (auto simp: check_cache_manifest_def split: if_splits) blast+
qed

lemma accepted_keys:
  assumes "inspect_cache_tensors cd fs root index config v records = Inr (ob, files)"
  shows "distinct (ob_keys ob)"
    "key \<in> set (ob_keys ob) \<longleftrightarrow> (\<exists>p \<in> set files. \<exists>ts. open_shard cd fs p = Inr ts \<and> key \<in> set (dkeys ts))"
    "p \<in> set files \<Longrightarrow> regular_file fs p \<and> (\<exists>ts. open_shard cd fs p = Inr ts \<and>
       (\<forall>(key, t) \<in> set ts. cacheable (rejected_prefix config) key t))"
proof -
  obtain names where run: "inspect_files cd fs root (rejected_prefix config) v records names
      \<lparr>ob_keys = [], ob_bytes = 0, ob_dtypes = []\<rparr> = Inr ob" and
    files: "files = map (\<lambda>name. root @ [name]) (filter (\<lambda>name. name \<noteq> safetensors_index) names)"
    using assms unfolding inspect_cache_Inr by blast
  note facts = inspect_files_Inr [OF run, simplified]
  show "distinct (ob_keys ob)" using facts by blast
  show "p \<in> set files \<Longrightarrow> regular_file fs p \<and> (\<exists>ts. open_shard cd fs p = Inr ts \<and>
       (\<forall>(key, t) \<in> set ts. cacheable (rejected_prefix config) key t))"
    using facts unfolding files by fastforce
  show "key \<in> set (ob_keys ob) \<longleftrightarrow> (\<exists>p \<in> set files. \<exists>ts. open_shard cd fs p = Inr ts \<and> key \<in> set (dkeys ts))"
  proof
    assume "key \<in> set (ob_keys ob)"
    with facts show "\<exists>p \<in> set files. \<exists>ts. open_shard cd fs p = Inr ts \<and> key \<in> set (dkeys ts)"
      unfolding files by fastforce
  next
    assume "\<exists>p \<in> set files. \<exists>ts. open_shard cd fs p = Inr ts \<and> key \<in> set (dkeys ts)"
    then obtain name ts where n: "name \<in> set names" "name \<noteq> safetensors_index"
      "open_shard cd fs (root @ [name]) = Inr ts" "key \<in> set (dkeys ts)" unfolding files by auto
    from n(4) obtain t where "(key, t) \<in> set ts" by (auto simp: dkeys_def)
    moreover obtain ts' where "open_shard cd fs (root @ [name]) = Inr ts'"
      "\<forall>(key, t) \<in> set ts'. cacheable (rejected_prefix config) key t \<and> key \<in> set (ob_keys ob)"
      using facts n(1,2) by blast
    ultimately show "key \<in> set (ob_keys ob)" using n(3) by auto
  qed
qed

section \<open>A published cache\<close>

text \<open>Files that hold a document or tensors are not empty.\<close>

definition sizes_positive :: "'c codec \<Rightarrow> 'c tree \<Rightarrow> bool" where
  "sizes_positive cd fs \<longleftrightarrow>
     (\<forall>p n c. dget fs p = Some (File n c) \<and> (rd_json cd c \<noteq> None \<or> cd_tensors cd c \<noteq> None) \<longrightarrow> 0 < n)"

definition digests_ok :: "'c codec \<Rightarrow> bool" where
  "digests_ok cd \<longleftrightarrow> (\<forall>b. sha256_text (cd_sha cd b)) \<and> (\<forall>c. sha256_text (rd_sha256 cd c))"

lemma shard_names_values: "shard_names weight_map = Inr names \<Longrightarrow> string_values weight_map = Inr names"
  by (induction weight_map arbitrary: names rule: shard_names.induct) (auto split: if_splits jvalue.splits)

lemma subpath_basename:
  assumes "safetensors_name s"
  shows "subpath root s = root @ [s]"
proof -
  have s: "slash \<notin> set s" "ends_with s ''.safetensors''" using assms by (simp_all add: safetensors_name_def is_basename_def)
  then have "s \<noteq> []" "s \<noteq> ''.''" by (auto simp: ends_with_def)
  moreover from this s(1) have "\<not> is_absolute s" by (cases s) (auto simp: is_absolute_def)
  ultimately show ?thesis using s(1) by (simp add: subpath_def path_parts_def)
qed

lemma converter_wf: "block_size = [VInt a, VInt b] \<Longrightarrow> jwf (converter_json producer version block_size)"
  by (simp add: converter_json_def)

lemma dtypes_wf: "dwf counts \<Longrightarrow> jwf (dtypes_json counts)"
  by (auto simp: dtypes_json_def dwf_def dkeys_def list_all_iff comp_def case_prod_beta)

lemma fp8_block_size_Inr: "fp8_block_size config = Inr bs \<Longrightarrow> \<exists>a b. bs = [VInt a, VInt b]"
  by (auto simp: fp8_block_size_def split: jvalue.splits if_splits list.splits)

lemma payload_wf:
  assumes "dwf (ob_dtypes ob)" "bs = [VInt a, VInt b]"
  shows "jwf (VObject (cache_payload cd source c i bs rs ob))"
  using dtypes_wf [OF assms(1)] converter_wf [OF assms(2)]
  by (simp add: cache_payload_def source_json_def tensors_json_def list_all_iff file_rec_json_def)

lemma size_positive:
  assumes "sizes_positive cd fs" "stat fs p = Some (File n c)" "rd_json cd c \<noteq> None \<or> cd_tensors cd c \<noteq> None"
  shows "0 < file_size fs p"
proof -
  have "0 < n" using assms unfolding sizes_positive_def stat_def by blast
  with assms(2) show ?thesis by (simp add: file_size_def)
qed

lemma describe_cache_Inr:
  assumes "describe_cache cd fs root source = Inr payload"
  shows "\<exists>config ii index c i shards records ob files bs.
     read_json cd fs (source @ [''config.json'']) = Inr config \<and> read_json cd fs (source @ [safetensors_index]) = Inr ii \<and>
     read_json cd fs (root @ [safetensors_index]) = Inr index \<and>
     sha256_file cd fs (source @ [''config.json'']) = Inr c \<and> sha256_file cd fs (source @ [safetensors_index]) = Inr i \<and>
     listed_shards index = Inr shards \<and>
     cache_records cd fs ((root @ [safetensors_index]) # map (subpath root) shards) [] = Inr records \<and>
     inspect_cache_tensors cd fs root index config True records = Inr (ob, files) \<and> fp8_block_size config = Inr bs \<and>
     payload = cache_payload cd source c i bs (record_list records) ob"
  using assms unfolding describe_cache_def by (auto simp del: cache_records.simps split: if_splits)

text \<open>The records of a described cache, in the order in which the manifest lists them.\<close>

lemma described_records:
  assumes index: "read_json cd fs (root @ [safetensors_index]) = Inr index"
    and listed: "listed_shards index = Inr shards"
    and recs: "cache_records cd fs ((root @ [safetensors_index]) # map (subpath root) shards) [] = Inr records"
    and run: "inspect_cache_tensors cd fs root index config True records = Inr (ob, files)"
    and pos: "sizes_positive cd fs" and dig: "digests_ok cd"
  shows "distinct (map fr_name (record_list records)) \<and>
    (\<forall>r \<in> set (record_list records). fr_name r \<noteq> [] \<and> is_basename (fr_name r) \<and> 0 < fr_bytes r \<and> sha256_text (fr_sha r)) \<and>
    (\<forall>name. dget (map (\<lambda>r. (fr_name r, r)) (record_list records)) name = dget records name) \<and> record_list records \<noteq> []"
proof -
  obtain weight_map names where w: "obj_get index ''weight_map'' = VObject weight_map" "shard_names weight_map = Inr names"
    and keys: "set (dkeys records) = set (safetensors_index # names)"
    and insp: "inspect_files cd fs root (rejected_prefix config) True records (sort (remdups (safetensors_index # names)))
          \<lparr>ob_keys = [], ob_bytes = 0, ob_dtypes = []\<rparr> = Inr ob"
    using run unfolding inspect_cache_Inr by blast
  have "dget index ''weight_map'' = Some (VObject weight_map)" using w(1) by (auto simp: obj_get_def split: option.splits)
  then have sh: "shards = sort (remdups names)"
    using listed shard_names_values [OF w(2)] by (simp add: listed_shards_def)
  have sub: "subpath root s = root @ [s]" if "s \<in> set shards" for s
    using subpath_basename shard_names_Inr [OF w(2)] that sh by simp
  have "records = map (\<lambda>p. (last p, record_of cd fs p)) ((root @ [safetensors_index]) # map (subpath root) shards) \<and> dwf records"
    and reg: "\<forall>p \<in> set ((root @ [safetensors_index]) # map (subpath root) shards).
        regular_file fs p \<and> sha256_file cd fs p = Inr (fr_sha (record_of cd fs p))"
    using cache_records_Inr [OF recs] unfolding append_Nil by (blast intro: dwf_simps(1))+
  then have rec0: "records = map (\<lambda>p. (last p, record_of cd fs p)) ((root @ [safetensors_index]) # map (subpath root) shards)"
    and wf: "dwf records" by blast+
  have rec: "records = map (\<lambda>s. (s, record_of cd fs (root @ [s]))) (safetensors_index # shards)"
    unfolding rec0 by (simp add: sub)
  have get: "dget records s = (if s \<in> set (dkeys records) then Some (record_of cd fs (root @ [s])) else None)" for s
    unfolding rec by (simp add: dget_def dkeys_def comp_def map_of_map_restrict)
  have list: "record_list records = map (\<lambda>s. record_of cd fs (root @ [s])) (sort (dkeys records))"
    unfolding record_list_def by (rule map_cong) (simp_all add: get)
  have fn: "fr_name (record_of cd fs (root @ [s])) = s" for s by (simp add: record_of_def)
  have names_list: "map fr_name (record_list records) = sort (dkeys records)" by (simp add: list fn comp_def)
  have good: "s \<noteq> [] \<and> is_basename s \<and> 0 < fr_bytes (record_of cd fs (root @ [s])) \<and> sha256_text (fr_sha (record_of cd fs (root @ [s])))"
    if s: "s \<in> set (dkeys records)" for s
  proof -
    have s': "s \<in> set (safetensors_index # names)" using s keys by simp
    have digest: "sha256_text (fr_sha (record_of cd fs (root @ [s])))"
    proof -
      have "root @ [s] \<in> set ((root @ [safetensors_index]) # map (subpath root) shards)"
        using s' sub unfolding sh by (auto simp: image_iff)
      with reg have "sha256_file cd fs (root @ [s]) = Inr (fr_sha (record_of cd fs (root @ [s])))" by blast
      then obtain c where "rd_sha256 cd c = fr_sha (record_of cd fs (root @ [s]))" unfolding sha256_file_Inr by blast
      with dig show ?thesis unfolding digests_ok_def by metis
    qed
    have "0 < file_size fs (root @ [s])"
    proof (cases "s = safetensors_index")
      case True
      from index True obtain n c where "stat fs (root @ [s]) = Some (File n c)" "rd_json cd c \<noteq> None"
        by (auto simp: read_json_Inr)
      then show ?thesis by (auto intro: size_positive [OF pos])
    next
      case False
      moreover have "s \<in> set (sort (remdups (safetensors_index # names)))" using s' by auto
      ultimately obtain ts where "open_shard cd fs (root @ [s]) = Inr ts" using inspect_files_Inr [OF insp] by blast
      then obtain n c where "stat fs (root @ [s]) = Some (File n c)" "cd_tensors cd c \<noteq> None"
        by (auto simp: open_shard_def split: option.splits node.splits)
      then show ?thesis by (auto intro: size_positive [OF pos])
    qed
    moreover have "s \<noteq> [] \<and> is_basename s"
      using s' shard_names_Inr [OF w(2)]
      by (auto simp: safetensors_index_def is_basename_def slash_def safetensors_name_def ends_with_def)
    ultimately show ?thesis using digest by (simp add: record_of_def)
  qed
  have d: "distinct (sort (dkeys records))" using wf by (simp add: dwf_def)
  have "dget (map (\<lambda>r. (fr_name r, r)) (record_list records)) s = dget records s" for s
    unfolding get by (simp add: list fn comp_def dget_def map_of_map_restrict)
  moreover have "record_list records \<noteq> []"
  proof -
    have "safetensors_index \<in> set (map fr_name (record_list records))" using names_list keys by simp
    then show ?thesis by auto
  qed
  moreover have "\<forall>r \<in> set (record_list records). fr_name r \<noteq> [] \<and> is_basename (fr_name r) \<and> 0 < fr_bytes r \<and> sha256_text (fr_sha r)"
    using good by (simp add: list fn)
  moreover have "distinct (map fr_name (record_list records))" unfolding names_list by (rule d)
  ultimately show ?thesis by blast
qed

lemma files_like:
  assumes "jsame (VList (map file_rec_json rs)) (VList vs)" "\<forall>v \<in> set vs. jwf v"
  shows "list_all2 (\<lambda>r v. \<exists>d. v = VObject d \<and> obj_get d ''name'' = VStr (fr_name r) \<and> obj_get d ''size'' = VInt (fr_bytes r) \<and>
      obj_get d ''sha256'' = VStr (fr_sha r)) rs vs"
proof -
  have len: "length vs = length rs" and each: "\<And>k. k < length rs \<Longrightarrow> jsame (file_rec_json (rs ! k)) (vs ! k)"
    using assms(1) by (simp_all add: jsame_list_nth)
  have "\<exists>d. vs ! k = VObject d \<and> obj_get d ''name'' = VStr (fr_name (rs ! k)) \<and> obj_get d ''size'' = VInt (fr_bytes (rs ! k)) \<and>
      obj_get d ''sha256'' = VStr (fr_sha (rs ! k))" if "k < length rs" for k
  proof -
    note same = each [OF that, unfolded file_rec_json_def]
    obtain d where d: "vs ! k = VObject d" using jsame_object_cases [OF same] by blast
    have "dwf d" using assms(2) that len d by (metis jwf.simps(2) nth_mem)
    note get = jsame_get [OF same [unfolded d] _ this]
    from get [of "''name''"] get [of "''size''"] get [of "''sha256''"] d show ?thesis by (simp add: obj_get_def)
  qed
  with len show ?thesis by (simp add: list_all2_conv_all_nth)
qed

lemma object_field_wf: "jwf (VObject m) \<Longrightarrow> jwf (obj_get m k)"
  using map_of_SomeD [of m k] by (fastforce simp: obj_get_def dget_def list_all_iff split: option.splits)

lemma check_source_ok:
  assumes same: "jsame (VObject (source_json cd source ch ih)) (VObject sr)" and wf: "dwf sr"
    and dig: "digests_ok cd" "sha256_text ch" "sha256_text ih"
    and config: "regular_file fs (source @ [''config.json''])" "sha256_file cd fs (source @ [''config.json'']) = Inr ch"
    and index: "regular_file fs (source @ [safetensors_index])" "sha256_file cd fs (source @ [safetensors_index]) = Inr ih"
  shows "check_source cd fs 2 source sr = Inr (source_fingerprint cd ch ih)"
proof -
  note get = jsame_get [OF same _ wf]
  have f: "obj_get sr ''model_name_or_path'' = VStr (path_text source)" "obj_get sr ''config_sha256'' = VStr ch"
    "obj_get sr ''fingerprint'' = VStr (source_fingerprint cd ch ih)" "obj_get sr ''index_sha256'' = VStr ih"
    using get [of "''model_name_or_path''"] get [of "''fingerprint''"] get [of "''config_sha256''"] get [of "''index_sha256''"]
    by (simp_all add: source_json_def obj_get_def)
  have "sha256_text (source_fingerprint cd ch ih)" using dig(1) by (simp add: digests_ok_def source_fingerprint_def sha_text_def)
  moreover have "check_source_file cd fs sr ''config_sha256'' (source @ [''config.json'']) = Inr ch"
    "check_source_file cd fs sr ''index_sha256'' (source @ [safetensors_index]) = Inr ih"
    using f(2,4) dig(2,3) config index by (simp_all add: check_source_file_def)
  moreover have "same_source cd fs (path_text source) (path_text source)" by (simp add: same_source_def Let_def)
  ultimately show ?thesis unfolding check_source_def f(1,3) by (simp add: path_text_def require_string_def)
qed

text \<open>A manifest that was read back, checked over a tree that shows the same files.\<close>

lemma published_manifest_checks:
  assumes same: "jsame (VObject (cache_payload cd source ch ih bs rs ob)) (VObject m)" and mwf: "jwf (VObject m)"
    and pwf: "jwf (VObject (cache_payload cd source ch ih bs rs ob))" and dig: "digests_ok cd"
    and src: "\<And>sr. jsame (VObject (source_json cd source ch ih)) (VObject sr) \<Longrightarrow> dwf sr \<Longrightarrow>
        check_source cd fs 2 source sr = Inr (source_fingerprint cd ch ih)"
    and config: "read_json cd fs (source @ [''config.json'']) = Inr config" and bs: "fp8_block_size config = Inr bs"
    and index: "read_json cd fs (root @ [safetensors_index]) = Inr index"
    and rs: "rs \<noteq> []" "distinct (map fr_name rs)"
      "\<forall>r \<in> set rs. fr_name r \<noteq> [] \<and> is_basename (fr_name r) \<and> 0 < fr_bytes r \<and> sha256_text (fr_sha r)"
    and insp: "inspect_cache_tensors cd fs root index config v (map (\<lambda>r. (fr_name r, r)) rs) = Inr (ob, files)"
  shows "check_cache_manifest cd fs root source v m =
    Inr \<lparr>kc_path = root, kc_manifest_path = root @ [nonexpert_manifest], kc_manifest = m, kc_checkpoint_files = files,
         kc_weight_keys = ob_keys ob, kc_source_config = config\<rparr>"
proof -
  let ?p = "cache_payload cd source ch ih bs rs ob"
  have wf: "dwf ?p" "dwf m" using pwf mwf by simp_all
  note get = jsame_get [OF same wf]
  have p: "obj_get ?p ''version'' = VInt 2" "obj_get ?p ''status'' = VStr ''ready''"
    "obj_get ?p ''source'' = VObject (source_json cd source ch ih)" "obj_get ?p ''files'' = VList (map file_rec_json rs)"
    "obj_get ?p ''converter'' = converter_json nonexpert_producer 2 bs" "obj_get ?p ''tensors'' = VObject (tensors_json ob)"
    "obj_get ?p ''fingerprint'' = VStr (cache_fingerprint cd 2 (source_fingerprint cd ch ih) rs
       (int (length (ob_keys ob))) (ob_bytes ob) (ob_dtypes ob))"
    by (simp_all add: cache_payload_def obj_get_def)
  have scalars: "obj_get m ''version'' = VInt 2" "obj_get m ''status'' = VStr ''ready''"
    "obj_get m ''fingerprint'' = VStr (cache_fingerprint cd 2 (source_fingerprint cd ch ih) rs
       (int (length (ob_keys ob))) (ob_bytes ob) (ob_dtypes ob))"
    using get [of "''version''"] get [of "''status''"] get [of "''fingerprint''"] unfolding p by simp_all
  have v2: "cache_version (VInt 2) = Inr 2" by (simp add: cache_version_def equals_int_def)
  have fp: "require_sha256 (VStr (cache_fingerprint cd 2 (source_fingerprint cd ch ih) rs
       (int (length (ob_keys ob))) (ob_bytes ob) (ob_dtypes ob))) = Inr (cache_fingerprint cd 2 (source_fingerprint cd ch ih) rs
       (int (length (ob_keys ob))) (ob_bytes ob) (ob_dtypes ob))"
    using dig by (simp add: digests_ok_def cache_fingerprint_def sha_text_def)
  obtain sr where sr: "obj_get m ''source'' = VObject sr"
    using get [of "''source''"] unfolding p by (blast dest: jsame_object_cases)
  have check: "check_source cd fs 2 source sr = Inr (source_fingerprint cd ch ih)"
    using src get [of "''source''"] object_field_wf [OF mwf, of "''source''"] unfolding p sr by simp
  have conv: "jeq (obj_get m ''converter'') (converter_json nonexpert_producer 2 bs)"
    using jsame_jeq_sym [OF get [of "''converter''"] object_field_wf [OF pwf] object_field_wf [OF mwf]] unfolding p .
  obtain vs where vs: "obj_get m ''files'' = VList vs"
    using get [of "''files''"] unfolding p by (cases "obj_get m ''files''") simp_all
  have "\<forall>v \<in> set vs. jwf v" using object_field_wf [OF mwf, of "''files''"] unfolding vs by (simp add: list_all_iff)
  from files_like [OF _ this] get [of "''files''"] have like: "list_all2 (\<lambda>r v. \<exists>d. v = VObject d \<and>
      obj_get d ''name'' = VStr (fr_name r) \<and> obj_get d ''size'' = VInt (fr_bytes r) \<and> obj_get d ''sha256'' = VStr (fr_sha r)) rs vs"
    unfolding p vs by simp
  have parse: "parse_files vs [] = Inr (map (\<lambda>r. (fr_name r, r)) rs)"
    using parse_files_ok [OF like rs(3,2), of "[]"] by simp
  have nonempty: "vs \<noteq> []" using like rs(1) by auto
  obtain ts where ts: "obj_get m ''tensors'' = VObject ts"
    using get [of "''tensors''"] unfolding p by (blast dest: jsame_object_cases)
  have twf: "dwf (tensors_json ob)" "dwf ts" "jwf (VObject ts)" "jwf (VObject (tensors_json ob))"
    using object_field_wf [OF mwf, of "''tensors''"] object_field_wf [OF pwf, of "''tensors''"] unfolding ts p by simp_all
  have tsame: "jsame (VObject (tensors_json ob)) (VObject ts)" using get [of "''tensors''"] unfolding p ts .
  note tget = jsame_get [OF tsame twf(1,2)]
  have dt: "jeq (obj_get ts ''dtypes'') (dtypes_json (ob_dtypes ob))"
    using jsame_jeq_sym [OF tget [of "''dtypes''"] object_field_wf [OF twf(4)] object_field_wf [OF twf(3)]]
    by (simp add: tensors_json_def obj_get_def)
  have tensors: "check_tensors_field (VObject ts) ob = Inr ()"
    using tget [of "''count''"] tget [of "''bytes''"] dt
    by (simp add: check_tensors_field_def tensors_json_def obj_get_def equals_int_def)
  have fields: "map snd (map (\<lambda>r. (fr_name r, r)) rs) = rs" by (simp add: comp_def)
  show ?thesis
    unfolding check_cache_manifest_def scalars v2 rbind_simps sr vs ts jvalue.case fp check config bs parse index insp
      prod.case tensors fields
    using conv nonempty by simp
qed

section \<open>Properties\<close>

text \<open>
  C24. The manifest that the producer publishes is accepted. When
  \<open>write_kt_non_expert_cache_manifest\<close> returns, on any directory that had no entry of that name, the
  loader accepts the cache for the same source, with or without verifying hashes, and the document it
  read is the published one.
\<close>

theorem written_cache_validates:
  assumes "tree_wf (dk_tree d)" "json_law cd" "digests_ok cd" "sizes_positive cd (dk_tree d)"
    and "safe_root (dk_tree d) cache_path = Inr root" "dget (dk_tree d) (root @ [nonexpert_manifest]) = None"
    and "rd_readable cd (root @ [nonexpert_manifest])"
    and "write_kt_non_expert_cache_manifest cd io token cache_path source_path d = (Inr payload, d')"
  shows "\<exists>c. validate_non_expert_cache cd (dk_tree d') cache_path source_path verify_hashes = Inr c \<and>
    kc_path c = root \<and> jsame (VObject payload) (VObject (kc_manifest c))"
proof -
  let ?fs = "dk_tree d" and ?fs' = "dk_tree d'" and ?doc = "cd_json_file cd (VObject payload)"
  obtain source where src: "safe_root ?fs source_path = Inr source" and desc: "describe_cache cd ?fs root source = Inr payload"
    and wr: "write_json_atomic cd io token root nonexpert_manifest payload d = (Inr (), d')"
    using assms(5,8) by (auto simp: write_kt_non_expert_cache_manifest_def ebind_eq_Inr disk_query_def)
  have real: "real_path ?fs root" using safe_root_real [OF assms(1,5)] .
  have ext: "added (root @ [nonexpert_manifest]) ?doc ?fs ?fs'"
    using write_json_atomic_cases [OF wr real] assms(6) by (auto simp: written_def added_def)
  obtain config ii index ch ih shards records ob files bs where
    rd: "read_json cd ?fs (source @ [''config.json'']) = Inr config" "read_json cd ?fs (source @ [safetensors_index]) = Inr ii"
      "read_json cd ?fs (root @ [safetensors_index]) = Inr index"
    and sha: "sha256_file cd ?fs (source @ [''config.json'']) = Inr ch" "sha256_file cd ?fs (source @ [safetensors_index]) = Inr ih"
    and listed: "listed_shards index = Inr shards"
    and recs: "cache_records cd ?fs ((root @ [safetensors_index]) # map (subpath root) shards) [] = Inr records"
    and insp: "inspect_cache_tensors cd ?fs root index config True records = Inr (ob, files)"
    and bs: "fp8_block_size config = Inr bs"
    and payload: "payload = cache_payload cd source ch ih bs (record_list records) ob"
    using describe_cache_Inr [OF desc] by blast
  note records = described_records [OF rd(3) listed recs insp assms(4,3)]
  obtain a b where ab: "bs = [VInt a, VInt b]" using fp8_block_size_Inr [OF bs] by blast
  have obwf: "dwf (ob_dtypes ob)" using insp unfolding inspect_cache_Inr by (auto dest!: inspect_files_Inr)
  have pwf: "jwf (VObject payload)" unfolding payload by (rule payload_wf [OF obwf ab])
  then obtain w where w: "rd_json cd (snd ?doc) = Some w" "jsame (VObject payload) w" "jwf w"
    using assms(2) unfolding json_law_def by blast
  from jsame_object_cases [OF w(2)] obtain m where m: "w = VObject m" by blast
  have read: "read_json cd ?fs' (root @ [nonexpert_manifest]) = Inr m"
    using added_new [OF ext real refl] assms(7) w(1) m by (simp add: read_json_Inr)
  have digests: "sha256_text ch" "sha256_text ih"
    using sha assms(3) unfolding sha256_file_Inr digests_ok_def by metis+
  have reg: "regular_file ?fs' (source @ [''config.json''])" "regular_file ?fs' (source @ [safetensors_index])"
    using rd(1,2) added_regular [OF ext] by (simp_all add: read_json_Inr)
  have "check_cache_manifest cd ?fs' root source verify_hashes m =
    Inr \<lparr>kc_path = root, kc_manifest_path = root @ [nonexpert_manifest], kc_manifest = m, kc_checkpoint_files = files,
         kc_weight_keys = ob_keys ob, kc_source_config = config\<rparr>"
  proof (rule published_manifest_checks [OF w(2) [unfolded m payload] w(3) [unfolded m] pwf [unfolded payload] assms(3)
        _ added_json [OF ext rd(1)] bs added_json [OF ext rd(3)]])
    fix sr assume "jsame (VObject (source_json cd source ch ih)) (VObject sr)" "dwf sr"
    then show "check_source cd ?fs' 2 source sr = Inr (source_fingerprint cd ch ih)"
      by (rule check_source_ok [OF _ _ assms(3) digests reg(1) added_sha [OF ext sha(1)] reg(2) added_sha [OF ext sha(2)]])
  next
    show "inspect_cache_tensors cd ?fs' root index config verify_hashes (map (\<lambda>r. (fr_name r, r)) (record_list records)) = Inr (ob, files)"
      by (rule inspect_again [OF ext _ insp]) (use records in blast)
  qed (use records in blast)+
  with src assms(5) read w(2) m show ?thesis
    by (simp add: validate_non_expert_cache_def added_safe_root [OF ext])
qed

text \<open>
  C30. What an accepted cache holds. The weight keys that the loader hands on are distinct, they are
  exactly the tensors in the headers of the checkpoint files, each of these files is a regular file, and
  every tensor in them is a non-expert one of the expected type: no routed expert, no FP8 scale, nothing
  of the excluded prediction layer, BF16 but for the FP32 router bias.
\<close>

theorem accepted_cache_exact:
  assumes "validate_non_expert_cache cd fs cache_path source_path verify_hashes = Inr c"
  shows "distinct (kc_weight_keys c) \<and>
    (\<forall>key. key \<in> set (kc_weight_keys c) \<longleftrightarrow>
       (\<exists>p \<in> set (kc_checkpoint_files c). \<exists>ts. open_shard cd fs p = Inr ts \<and> key \<in> set (dkeys ts))) \<and>
    (\<forall>p \<in> set (kc_checkpoint_files c). regular_file fs p \<and> (\<exists>ts. open_shard cd fs p = Inr ts \<and>
       (\<forall>(key, t) \<in> set ts. tm_dtype t = expected_dtype key \<and> \<not> routed_expert key \<and> \<not> ends_with key ''.weight_scale_inv'' \<and>
          (\<forall>q. rejected_prefix (kc_source_config c) = Some q \<longrightarrow> \<not> starts_with q key))))"
proof -
  obtain root source manifest where "check_cache_manifest cd fs root source verify_hashes manifest = Inr c"
    using assms by (auto simp: validate_non_expert_cache_def)
  from check_cache_manifest_Inr [OF this] obtain index ob records where
    i: "inspect_cache_tensors cd fs root index (kc_source_config c) verify_hashes records = Inr (ob, kc_checkpoint_files c)" and
    k: "kc_weight_keys c = ob_keys ob" by blast
  show ?thesis unfolding k using accepted_keys [OF i] unfolding cacheable_def by blast
qed

section \<open>A cache on disk\<close>

definition cache_codec :: "jvalue codec" where
  "cache_codec =
     \<lparr>rd_json = Some, rd_sha256 = (\<lambda>_. replicate 64 CHR ''0''), rd_readable = (\<lambda>_. True),
      cd_sha = (\<lambda>_. replicate 64 CHR ''a''), cd_dumps = (\<lambda>_. ''{}''), cd_json_file = (\<lambda>v. (2, v)), cd_garbage = VNull,
      cd_tensors = (\<lambda>c. if c = VStr ''shard''
         then Some [(''model.embed_tokens.weight'', \<lparr>tm_shape = [2, 3], tm_dtype = ''BF16''\<rparr>),
                    (''model.layers.3.mlp.gate.e_score_correction_bias'', \<lparr>tm_shape = [4], tm_dtype = ''F32''\<rparr>)]
         else None),
      cd_bytes = (\<lambda>_. []), cd_fstat = (\<lambda>_ _. \<lparr>fs_dev = 1, fs_ino = 7, fs_ctime_ns = 100, fs_size = 13\<rparr>), cd_cwd = []\<rparr>"

definition cache_config :: jvalue where
  "cache_config =
     VObject [(''num_hidden_layers'', VInt 4), (''model_type'', VStr ''deepseek_v3''),
       (''quantization_config'', VObject [(''quant_method'', VStr ''fp8''), (''weight_block_size'', VList [VInt 128, VInt 128])])]"

definition cache_tree :: "jvalue tree" where
  "cache_tree =
     [([''s''], Dir 0 False), ([''s'', ''config.json''], File 90 cache_config),
      ([''s'', safetensors_index], File 40 (VObject [])), ([''c''], Dir 0 False),
      ([''c'', safetensors_index],
         File 50 (VObject [(''weight_map'', VObject [(''model.embed_tokens.weight'', VStr ''a.safetensors''),
           (''model.layers.3.mlp.gate.e_score_correction_bias'', VStr ''a.safetensors'')])])),
      ([''c'', ''a.safetensors''], File 60 (VStr ''shard''))]"

lemma cache_codec_laws: "json_law cache_codec" "digests_ok cache_codec"
proof -
  show "json_law cache_codec" by (auto simp: json_law_def cache_codec_def intro: jsame_refl)
  have "sha256_text (replicate 64 CHR ''a'')" "sha256_text (replicate 64 CHR ''0'')" by code_simp+
  then show "digests_ok cache_codec" by (simp add: digests_ok_def cache_codec_def)
qed

lemma cache_tree_facts: "tree_wf cache_tree" "sizes_positive cache_codec cache_tree"
proof -
  have "dwf cache_tree" by (simp add: cache_tree_def safetensors_index_def)
  then show "tree_wf cache_tree"
    by (subst tree_wf_all) (simp_all add: cache_tree_def entry_name_def safetensors_index_def slash_def)
  show "sizes_positive cache_codec cache_tree"
    by (auto simp: sizes_positive_def cache_tree_def split: if_splits)
qed

theorem written_cache_validates_witness:
  "\<exists>payload d' c.
     write_kt_non_expert_cache_manifest cache_codec (\<lambda>_. Done) ''r'' ''/c'' ''/s'' \<lparr>dk_tree = cache_tree, dk_tick = 0\<rparr> = (Inr payload, d') \<and>
     validate_non_expert_cache cache_codec (dk_tree d') ''/c'' ''/s'' True = Inr c"
proof -
  let ?run = "write_kt_non_expert_cache_manifest cache_codec (\<lambda>_. Done) ''r'' ''/c'' ''/s'' \<lparr>dk_tree = cache_tree, dk_tick = 0\<rparr>"
  have "is_ok (fst ?run)" by code_simp
  then obtain payload d' where run: "?run = (Inr payload, d')" by (metis is_ok_iff prod.collapse)
  have "safe_root cache_tree ''/c'' = Inr [''c'']" "dget cache_tree ([''c''] @ [nonexpert_manifest]) = None" by code_simp+
  with written_cache_validates [OF _ cache_codec_laws _ _ _ _ run, of "[''c'']" True] cache_tree_facts run
  show ?thesis by (auto simp: cache_codec_def)
qed

theorem accepted_cache_exact_witness:
  "\<exists>(d' :: jvalue disk) c. validate_non_expert_cache cache_codec (dk_tree d') ''/c'' ''/s'' False = Inr c \<and>
     set (kc_weight_keys c) = {''model.embed_tokens.weight'', ''model.layers.3.mlp.gate.e_score_correction_bias''} \<and>
     distinct (kc_weight_keys c)"
proof -
  let ?d = "snd (write_kt_non_expert_cache_manifest cache_codec (\<lambda>_. Done) ''r'' ''/c'' ''/s'' \<lparr>dk_tree = cache_tree, dk_tick = 0\<rparr>)"
  have v: "case validate_non_expert_cache cache_codec (dk_tree ?d) ''/c'' ''/s'' False of Inl _ \<Rightarrow> False
    | Inr c \<Rightarrow> kc_weight_keys c = [''model.embed_tokens.weight'', ''model.layers.3.mlp.gate.e_score_correction_bias'']" by code_simp
  then obtain c where c: "validate_non_expert_cache cache_codec (dk_tree ?d) ''/c'' ''/s'' False = Inr c"
    by (auto split: sum.splits)
  with v have "kc_weight_keys c = [''model.embed_tokens.weight'', ''model.layers.3.mlp.gate.e_score_correction_bias'']" by simp
  then have s: "set (kc_weight_keys c) = {''model.embed_tokens.weight'', ''model.layers.3.mlp.gate.e_score_correction_bias''}"
    by simp
  show ?thesis
    by (rule exI [of _ ?d], rule exI [of _ c]) (intro conjI, rule c, rule s, rule conjunct1 [OF accepted_cache_exact [OF c]])
qed

end
