(* ===== verification/AdapterModel.thy ===== *)
theory AdapterModel
  imports RawInt4Base
begin

text \<open>
  What an adapter bundle records about the live model (\<open>kt-kernel/python/sft/artifacts.py\<close>): the
  wrappers and the load plan found by walking the module objects, the shapes of the fused LoRA
  parameters, and the provenance of the expert weights. Modules are objects in a heap, named by numbers,
  since \<open>base_model\<close>, \<open>model\<close> and \<open>module\<close> may lead back to an object already seen.
\<close>

section \<open>Objects\<close>

text \<open>The attributes that are read of a wrapper; \<open>None\<close> for one that is absent, or not an \<open>int\<close> where the code asks for one.\<close>

record 'a awrap =
  aw_layer :: "int option"
  aw_rank :: "int option"
  aw_alpha :: "jvalue option"
  aw_inner :: bool
  aw_inner_alpha :: jvalue
  aw_use_fused :: bool
  aw_fused_experts :: bool
  aw_fused_params :: "'a tensor list option"
  aw_expert_num :: "int option"
  aw_intermediate :: "int option"
  aw_hidden :: "int option"
  aw_format :: "jvalue option"
  aw_quant :: "jvalue option"
  aw_lora_experts :: "('a tensor \<times> 'a tensor \<times> 'a tensor) list option"
  aw_full :: "'a ckw option"
  aw_dirty :: bool

record load_plan =
  pl_source :: string
  pl_weight_path :: string
  pl_weight_keys :: "string list"
  pl_manifest :: "(string, jvalue) dict"
  pl_manifest_path :: path
  pl_routed_weight_path :: string
  pl_routed_manifest :: "(string, jvalue) dict"
  pl_routed_manifest_path :: path
  pl_lora_rank :: "int option"
  pl_lora_alpha :: "ratio pyfloat option"

datatype attr = Missing | IsNone | Ref nat

record config_view =
  cv_format :: "jvalue option"
  cv_private_name :: string
  cv_name :: string

record mnode =
  mn_wrappers :: "nat list option"
  mn_plan :: "load_plan option"
  mn_format :: "jvalue option"
  mn_quant :: "jvalue option"
  mn_config :: "config_view option"
  mn_base_model :: attr
  mn_model :: attr
  mn_module :: attr

text \<open>The heap of modules, the wrappers they hold (by number), and the object the caller passes.\<close>

record 'a kt_model =
  km_nodes :: "(nat, mnode) dict"
  km_wrappers :: "'a awrap list"
  km_root :: nat

definition refs :: "attr \<Rightarrow> nat list" where
  "refs a = (case a of Ref n \<Rightarrow> [n] | _ \<Rightarrow> [])"

definition node_children :: "mnode \<Rightarrow> nat list" where
  "node_children n = refs (mn_base_model n) @ refs (mn_model n) @ refs (mn_module n)"

section \<open>The walk over the modules\<close>

text \<open>The objects in the order in which the queue yields them, each once.\<close>

function walk :: "(nat, mnode) dict \<Rightarrow> nat list \<Rightarrow> nat list \<Rightarrow> nat list" where
  "walk g visited [] = []"
| "walk g visited (x # queue) =
     (if x \<in> set visited then walk g visited queue
      else case dget g x of
        None \<Rightarrow> walk g visited queue
      | Some n \<Rightarrow> x # walk g (x # visited) (queue @ filter (\<lambda>c. c \<noteq> x) (node_children n)))"
  by pat_completeness auto

termination
proof (relation "measures [\<lambda>(g, visited, queue). card (set (dkeys g) - set visited), \<lambda>(g, visited, queue). length queue]")
  fix g :: "(nat, mnode) dict" and visited x queue n
  assume "x \<notin> set visited" "dget g x = Some n"
  then have "x \<in> set (dkeys g) - set visited" using dget_Some_dmem [of g x n] by (simp add: dmem_def)
  then have "card (set (dkeys g) - set (x # visited)) < card (set (dkeys g) - set visited)"
    by (intro psubset_card_mono) auto
  then show "((g, x # visited, queue @ filter (\<lambda>c. c \<noteq> x) (node_children n)), g, visited, x # queue)
      \<in> measures [\<lambda>(g, visited, queue). card (set (dkeys g) - set visited), \<lambda>(g, visited, queue). length queue]"
    by simp
qed simp_all

definition module_order :: "'a kt_model \<Rightarrow> mnode list" where
  "module_order m = map (\<lambda>x. the (dget (km_nodes m) x)) (walk (km_nodes m) [] [km_root m])"

text \<open>\<open>_find_wrappers\<close> and \<open>_find_plan\<close>: the first object on the walk that has one.\<close>

definition find_wrappers :: "'a kt_model \<Rightarrow> nat list" where
  "find_wrappers m =
     (case filter (\<lambda>n. mn_wrappers n \<noteq> None) (module_order m) of [] \<Rightarrow> [] | n # _ \<Rightarrow> the (mn_wrappers n))"

definition find_plan :: "'a kt_model \<Rightarrow> load_plan option" where
  "find_plan m =
     (case filter (\<lambda>n. mn_plan n \<noteq> None) (module_order m) of [] \<Rightarrow> None | n # _ \<Rightarrow> mn_plan n)"

definition wrapper_at :: "'a kt_model \<Rightarrow> nat \<Rightarrow> 'a awrap" where
  "wrapper_at m i = km_wrappers m ! i"

definition kt_wrappers :: "'a kt_model \<Rightarrow> 'a awrap list" where
  "kt_wrappers m = map (wrapper_at m) (find_wrappers m)"

section \<open>Fused LoRA parameters\<close>

definition fused_lora_names :: "string list" where
  "fused_lora_names = [''gate_lora_a'', ''gate_lora_b'', ''up_lora_a'', ''up_lora_b'', ''down_lora_a'', ''down_lora_b'']"

definition dtype_of :: "string \<Rightarrow> string result" where
  "dtype_of dtype =
     (if dtype = ''torch.bfloat16'' then Inr ''BF16''
      else if dtype = ''torch.float16'' then Inr ''F16''
      else if dtype = ''torch.float32'' then Inr ''F32''
      else if dtype = ''torch.float64'' then Inr ''F64''
      else Inl (ArtifactError ''unsupported fused expert LoRA dtype''))"

definition has_fused :: "'a awrap \<Rightarrow> bool" where
  "has_fused w = (case aw_fused_params w of Some (_ # _) \<Rightarrow> True | _ \<Rightarrow> False)"

definition wrapper_uses_fused_lora :: "'a awrap \<Rightarrow> bool" where
  "wrapper_uses_fused_lora w \<longleftrightarrow>
     (case aw_rank w of Some r \<Rightarrow> r > 0 | None \<Rightarrow> False) \<and>
     (aw_use_fused w \<or> aw_fused_experts w \<or> aw_fused_params w \<noteq> None)"

definition fused_key :: "int \<Rightarrow> string \<Rightarrow> string" where
  "fused_key layer name = ''layers.'' @ str_of_int layer @ ''.experts.'' @ name"

fun live_entries :: "int \<Rightarrow> (string \<times> 'a tensor) list \<Rightarrow> (string \<times> tensor_meta) list result" where
  "live_entries layer [] = Inr []"
| "live_entries layer ((name, p) # ps) =
     rbind (dtype_of (tn_dtype p)) (\<lambda>dtype.
     rbind (live_entries layer ps) (\<lambda>rest.
     Inr ((fused_key layer name, \<lparr>tm_shape = tn_shape p, tm_dtype = dtype\<rparr>) # rest)))"

definition derived_shapes :: "int \<Rightarrow> int \<Rightarrow> int \<Rightarrow> int \<Rightarrow> int list list" where
  "derived_shapes expert_num intermediate hidden rank =
     [[expert_num, rank, hidden], [expert_num, intermediate, rank], [expert_num, rank, hidden],
      [expert_num, intermediate, rank], [expert_num, rank, intermediate], [expert_num, hidden, rank]]"

definition derived_entries :: "int \<Rightarrow> 'a awrap \<Rightarrow> (string \<times> tensor_meta) list result" where
  "derived_entries layer w =
     (case (aw_expert_num w, aw_intermediate w, aw_hidden w, aw_rank w) of
        (Some e, Some i, Some h, Some r) \<Rightarrow>
          (if e > 0 \<and> i > 0 \<and> h > 0 \<and> r > 0
           then Inr (map (\<lambda>(name, shape). (fused_key layer name, \<lparr>tm_shape = shape, tm_dtype = ''BF16''\<rparr>))
                       (zip fused_lora_names (derived_shapes e i h r)))
           else Inl (ArtifactError ''cannot derive its fused LoRA contract''))
      | _ \<Rightarrow> Inl (ArtifactError ''cannot derive its fused LoRA contract''))"

fun contract_entries :: "'a awrap list \<Rightarrow> int list \<Rightarrow> (string \<times> tensor_meta) list result" where
  "contract_entries [] seen = Inr []"
| "contract_entries (w # ws) seen =
     (if \<not> has_fused w \<and> \<not> wrapper_uses_fused_lora w then contract_entries ws seen
      else case aw_layer w of
        None \<Rightarrow> Inl (ArtifactError ''invalid or duplicate KT wrapper layer'')
      | Some layer \<Rightarrow>
          if layer \<in> set seen then Inl (ArtifactError ''invalid or duplicate KT wrapper layer'')
          else if has_fused w \<and> length (the (aw_fused_params w)) \<noteq> length fused_lora_names
          then Inl (ArtifactError ''expected six fused LoRA parameters'')
          else
            rbind (if has_fused w then live_entries layer (zip fused_lora_names (the (aw_fused_params w)))
                   else derived_entries layer w) (\<lambda>entries.
            rbind (contract_entries ws (layer # seen)) (\<lambda>rest. Inr (entries @ rest))))"

text \<open>\<open>dict(sorted(contract.items()))\<close>; the keys are distinct because the layers are.\<close>

definition fused_lora_contract :: "'a kt_model \<Rightarrow> (string, tensor_meta) dict result" where
  "fused_lora_contract m =
     rbind (contract_entries (kt_wrappers m) []) (\<lambda>entries. Inr (sort_key fst entries))"

definition contract_json :: "(string, tensor_meta) dict \<Rightarrow> jvalue" where
  "contract_json contract =
     VObject (map (\<lambda>(key, t). (key, VObject [(''shape'', VList (map VInt (tm_shape t))), (''dtype'', VStr (tm_dtype t))])) contract)"

section \<open>Provenance\<close>

definition weight_formats :: "string list" where
  "weight_formats = [''bf16'', ''int8'', ''fp8'', ''rawint4'']"

definition node_provenance :: "mnode \<Rightarrow> jvalue list" where
  "node_provenance n =
     (case mn_format n of Some v \<Rightarrow> [v] | None \<Rightarrow> []) @
     (case mn_config n of Some c \<Rightarrow> (case cv_format c of Some v \<Rightarrow> [v] | None \<Rightarrow> []) | None \<Rightarrow> [])"

definition format_provenance :: "'a kt_model \<Rightarrow> load_plan option \<Rightarrow> jvalue list" where
  "format_provenance m plan =
     concat (map node_provenance (module_order m)) @
     concat (map (\<lambda>w. case aw_format w of Some v \<Rightarrow> [v] | None \<Rightarrow> []) (kt_wrappers m)) @
     (case plan of Some p \<Rightarrow> [obj_get (pl_routed_manifest p) ''expert_weight_format''] | None \<Rightarrow> [])"

fun normalized_formats :: "jvalue list \<Rightarrow> string list result" where
  "normalized_formats [] = Inr []"
| "normalized_formats (v # vs) =
     (case v of
        VStr s \<Rightarrow>
          (if lower (strip s) \<in> set weight_formats
           then rbind (normalized_formats vs) (\<lambda>fs. Inr (lower (strip s) # fs))
           else Inl (ArtifactError ''invalid expert_weight_format''))
      | _ \<Rightarrow> Inl (ArtifactError ''invalid expert_weight_format''))"

definition runtime_expert_weight_format :: "'a kt_model \<Rightarrow> load_plan option \<Rightarrow> string result" where
  "runtime_expert_weight_format m plan =
     rbind (normalized_formats (format_provenance m plan)) (\<lambda>formats.
     case remdups formats of
       [] \<Rightarrow> (if plan \<noteq> None then Inl (ArtifactError ''validated pretrained plan lacks routed expert format provenance'')
              else Inr ''bf16'')
     | [f] \<Rightarrow> Inr f
     | _ \<Rightarrow> Inl (ArtifactError ''conflicting KT expert weight provenance''))"

definition rawint4_expected :: "(string, jvalue) dict" where
  "rawint4_expected =
     [(''bits'', VInt 4), (''group_size'', VInt 32), (''signed'', VBool True), (''symmetric'', VBool True),
      (''zero_point'', VBool False), (''format'', VStr ''pack-quantized''),
      (''weight_layout'', VStr ''compressed-tensors-rawint4-g32-v1'')]"

definition rawint4_provenance_ok :: "jvalue \<Rightarrow> bool" where
  "rawint4_provenance_ok v =
     (case v of
        VObject d \<Rightarrow> set (dkeys d) = set (dkeys rawint4_expected) \<and>
          list_all (\<lambda>(name, expected). dget d name = Some expected) rawint4_expected
      | _ \<Rightarrow> False)"

definition runtime_rawint4_quantization :: "'a kt_model \<Rightarrow> (string, jvalue) dict result" where
  "runtime_rawint4_quantization m =
     (let provenance =
        concat (map (\<lambda>n. case mn_quant n of Some v \<Rightarrow> [v] | None \<Rightarrow> []) (module_order m)) @
        concat (map (\<lambda>w. case aw_quant w of Some v \<Rightarrow> [v] | None \<Rightarrow> []) (kt_wrappers m)) in
      if provenance = [] then Inl (ArtifactError ''RAWINT4 runtime lacks quantization provenance'')
      else if list_all rawint4_provenance_ok provenance then Inr rawint4_expected
      else Inl (ArtifactError ''invalid RAWINT4 quantization provenance''))"

definition base_model_name :: "'a kt_model \<Rightarrow> load_plan option \<Rightarrow> string option" where
  "base_model_name m plan =
     (case plan of
        Some p \<Rightarrow> Some (pl_source p)
      | None \<Rightarrow>
          (case filter (\<lambda>s. s \<noteq> []) (map (\<lambda>n. case mn_config n of
                  None \<Rightarrow> []
                | Some c \<Rightarrow> (if cv_private_name c \<noteq> [] then cv_private_name c else cv_name c)) (module_order m)) of
             [] \<Rightarrow> None
           | s # _ \<Rightarrow> Some s))"

section \<open>\<open>float\<close> of an integer\<close>

fun bit_length :: "nat \<Rightarrow> nat" where
  "bit_length n = (if n = 0 then 0 else Suc (bit_length (n div 2)))"

declare bit_length.simps [simp del]

text \<open>Rounding to 53 bits, ties to even; \<open>OverflowError\<close> beyond the largest double.\<close>

definition float_of_int :: "int \<Rightarrow> ratio result" where
  "float_of_int n =
     (let a = nat \<bar>n\<bar>; k = bit_length a in
      if k \<le> 53 then Inr (n, 1)
      else
        let e = k - 53; q = a div 2 ^ e; r = a mod 2 ^ e;
            q' = (if 2 * r > 2 ^ e \<or> (2 * r = 2 ^ e \<and> odd q) then q + 1 else q) in
        if q' * 2 ^ e \<ge> 2 ^ 1024 then Inl (ValueError ''OverflowError'')
        else Inr (sgn n * int (q' * 2 ^ e), 1))"

text \<open>A finite positive LoRA alpha, as a float.\<close>

definition alpha_value :: "jvalue \<Rightarrow> ratio result" where
  "alpha_value v =
     (case v of
        VInt n \<Rightarrow>
          rbind (float_of_int n) (\<lambda>q. if fst q > 0 then Inr q else Inl (ArtifactError ''invalid or inconsistent LoRA alpha''))
      | VFloat (Finite q) \<Rightarrow> (if fst q > 0 then Inr q else Inl (ArtifactError ''invalid or inconsistent LoRA alpha''))
      | _ \<Rightarrow> Inl (ArtifactError ''invalid or inconsistent LoRA alpha''))"

definition wrapper_alpha :: "'a awrap \<Rightarrow> jvalue" where
  "wrapper_alpha w =
     (case aw_alpha w of Some v \<Rightarrow> v | None \<Rightarrow> (if aw_inner w then aw_inner_alpha w else VNull))"

text \<open>\<open>bool(v)\<close>.\<close>

definition truthy :: "jvalue \<Rightarrow> bool" where
  "truthy v =
     (case v of
        VNull \<Rightarrow> False | VBool b \<Rightarrow> b | VInt n \<Rightarrow> n \<noteq> 0 | VFloat (Finite q) \<Rightarrow> fst q \<noteq> 0 | VFloat _ \<Rightarrow> True
      | VStr s \<Rightarrow> s \<noteq> [] | VList xs \<Rightarrow> xs \<noteq> [] | VObject d \<Rightarrow> d \<noteq> [])"

text \<open>Sets of values are compared by \<open>==\<close>; a set has one element when every value equals the first.\<close>

definition common_value :: "jvalue list \<Rightarrow> jvalue option" where
  "common_value vs = (case vs of [] \<Rightarrow> None | v # rest \<Rightarrow> (if list_all (jeq v) rest then Some v else None))"

definition lora_settings :: "'a kt_model \<Rightarrow> load_plan option \<Rightarrow> (int \<times> ratio) result" where
  "lora_settings m plan =
     (let wrappers = filter wrapper_uses_fused_lora (kt_wrappers m) in
      case remdups (map (\<lambda>w. the (aw_rank w)) wrappers) of
        [rank] \<Rightarrow>
          if list_ex (\<lambda>v. case v of VList _ \<Rightarrow> True | VObject _ \<Rightarrow> True | _ \<Rightarrow> False) (map wrapper_alpha wrappers)
          then Inl (TypeError ''unhashable'')
          else (case common_value (map wrapper_alpha wrappers) of
             None \<Rightarrow> Inl (ArtifactError ''invalid or inconsistent LoRA alpha'')
           | Some v \<Rightarrow>
               rbind (alpha_value v) (\<lambda>alpha.
               if (case plan of Some p \<Rightarrow> pl_lora_rank p \<noteq> None \<and> pl_lora_rank p \<noteq> Some rank | None \<Rightarrow> False)
               then Inl (ArtifactError ''LoRA rank does not match the pretrained plan'')
               else if (case plan of Some p \<Rightarrow>
                          (case pl_lora_alpha p of Some f \<Rightarrow> \<not> feq f (Finite alpha) | None \<Rightarrow> False) | None \<Rightarrow> False)
               then Inl (ArtifactError ''LoRA alpha does not match the pretrained plan'')
               else Inr (rank, alpha)))
      | _ \<Rightarrow> Inl (ArtifactError ''inconsistent LoRA ranks''))"

definition routed_fingerprint :: "'c codec \<Rightarrow> 'c tree \<Rightarrow> load_plan \<Rightarrow> jvalue result" where
  "routed_fingerprint cd fs p =
     (if truthy (obj_get (pl_routed_manifest p) ''fingerprint'') then Inr (obj_get (pl_routed_manifest p) ''fingerprint'')
      else rbind (sha256_file cd fs (pl_routed_manifest_path p)) (\<lambda>s. Inr (VStr s)))"

definition plan_provenance ::
  "'c codec \<Rightarrow> 'c tree \<Rightarrow> load_plan \<Rightarrow> (string \<times> (string, jvalue) dict \<times> (string, jvalue) dict) result" where
  "plan_provenance cd fs p =
     (case obj_get (pl_manifest p) ''source'' of
        VObject source \<Rightarrow>
          rbind (require_sha256 (obj_get source ''fingerprint'')) (\<lambda>base_fingerprint.
          rbind (require_sha256 (obj_get (pl_manifest p) ''fingerprint'')) (\<lambda>cache_fingerprint.
          rbind (sha256_file cd fs (pl_routed_manifest_path p)) (\<lambda>digest.
          rbind (routed_fingerprint cd fs p) (\<lambda>fingerprint.
          Inr (base_fingerprint,
               [(''path'', VStr (pl_weight_path p)), (''fingerprint'', VStr cache_fingerprint)],
               [(''path'', VStr (pl_routed_weight_path p)), (''manifest'', VStr (last (pl_routed_manifest_path p))),
                (''manifest_sha256'', VStr digest), (''fingerprint'', fingerprint)])))))
      | _ \<Rightarrow> Inl (ArtifactError ''validated non-expert manifest lost its source provenance''))"

definition adapter_provenance :: "'c codec \<Rightarrow> 'c tree \<Rightarrow> 'a kt_model \<Rightarrow> load_plan option \<Rightarrow> (string, jvalue) dict result" where
  "adapter_provenance cd fs m plan =
     rbind (lora_settings m plan) (\<lambda>(rank, alpha).
     rbind (runtime_expert_weight_format m plan) (\<lambda>fmt.
     if plan \<noteq> None \<and> fmt \<noteq> ''int8'' then Inl (ArtifactError ''load plan requires INT8 routed expert provenance'')
     else
       let name = base_model_name m plan;
           head = (\<lambda>base. [(''expert_weight_format'', VStr fmt), (''base'', VObject base),
                     (''lora'', VObject [(''rank'', VInt rank), (''alpha'', VFloat (Finite alpha))])]);
           plain = [(''model_name_or_path'', case name of Some s \<Rightarrow> VStr s | None \<Rightarrow> VNull)] in
       if fmt = ''rawint4'' then
         rbind (runtime_rawint4_quantization m) (\<lambda>quantization.
         case name of
           Some (c # s) \<Rightarrow>
             rbind (rawint4_base_identity cd fs (c # s)) (\<lambda>base.
             Inr (head base @ [(''expert_quantization'', VObject quantization)]))
         | _ \<Rightarrow> Inl (ArtifactError ''RAWINT4 adapter provenance requires a local base checkpoint path''))
       else case plan of
         None \<Rightarrow> Inr (head plain)
       | Some p \<Rightarrow>
           rbind (plan_provenance cd fs p) (\<lambda>(base_fingerprint, non_expert_cache, int8_experts).
           Inr (head (plain @ [(''fingerprint'', VStr base_fingerprint)]) @
                [(''non_expert_cache'', VObject non_expert_cache), (''int8_experts'', VObject int8_experts)]))))"

end
