(* ===== verification/AdapterSave.thy ===== *)
theory AdapterSave
  imports AdapterModel
begin

text \<open>
  Saving an adapter: the three writers of \<open>kt-kernel/python/sft/lora.py\<close> (full-weight shards, LoRA
  experts merged into the standard adapter file, fused LoRA tensors) and \<open>save_kt_adapter_artifacts\<close> of
  \<open>artifacts.py\<close>, which runs them in a staging directory, moves what they produced into the bundle and
  publishes a manifest over it. Every operation on the disk may fail.
\<close>

record ('c, 'a) adapter_io = "'c codec" +
  ai_save :: "(string, 'a tensor) dict \<Rightarrow> int \<times> 'c"
  ai_load :: "'c \<Rightarrow> (string, 'a tensor) dict option"
  ai_torch_load :: "'c \<Rightarrow> (string, 'a tensor) dict option"
  ai_copy :: "'a tensor \<Rightarrow> 'a tensor \<Rightarrow> 'a tensor option"
  ai_full_view :: "'c \<Rightarrow> 'a ccontent"
  ai_full_file :: "'a ccontent \<Rightarrow> 'c"
  ai_rank :: int
  ai_full_io :: "nat \<Rightarrow> io"
  ai_full_remove :: "string \<Rightarrow> bool"
  ai_full_size :: "'a shard \<Rightarrow> int"

text \<open>The random parts of the names that one save makes up.\<close>

record tokens =
  tk_stage :: string
  tk_fused :: string
  tk_manifest :: string
  tk_generation :: string

section \<open>The writers\<close>

text \<open>\<open>_find_kt_wrappers\<close> of \<open>lora.py\<close>: it unwraps \<open>base_model\<close> and \<open>model\<close> once each, never \<open>module\<close>.\<close>

definition node_at :: "'a kt_model \<Rightarrow> attr \<Rightarrow> mnode option" where
  "node_at m a = (case a of Ref n \<Rightarrow> dget (km_nodes m) n | _ \<Rightarrow> None)"

definition wrappers_of :: "mnode option \<Rightarrow> nat list option" where
  "wrappers_of n = (case n of None \<Rightarrow> None | Some n \<Rightarrow> mn_wrappers n)"

fun unwrap :: "'a kt_model \<Rightarrow> (mnode \<Rightarrow> attr) list \<Rightarrow> mnode option \<Rightarrow> nat list option \<Rightarrow> nat list option" where
  "unwrap m [] cur wrappers = wrappers"
| "unwrap m (attribute # rest) cur wrappers =
     (case map_option attribute cur of
        None \<Rightarrow> unwrap m rest cur wrappers
      | Some Missing \<Rightarrow> unwrap m rest cur wrappers
      | Some a \<Rightarrow>
          (case wrappers_of (node_at m a) of
             Some (w # ws) \<Rightarrow> Some (w # ws)
           | found \<Rightarrow> unwrap m rest (node_at m a) found))"

definition lora_find_kt_wrappers :: "'a kt_model \<Rightarrow> nat list option" where
  "lora_find_kt_wrappers m =
     (case wrappers_of (node_at m (Ref (km_root m))) of
        Some ws \<Rightarrow> Some ws
      | None \<Rightarrow> unwrap m [mn_base_model, mn_model] (node_at m (Ref (km_root m))) None)"

definition lora_wrappers :: "'a kt_model \<Rightarrow> nat list" where
  "lora_wrappers m = (case lora_find_kt_wrappers m of None \<Rightarrow> [] | Some ws \<Rightarrow> ws)"

text \<open>\<open>f"{layer_idx}"\<close>.\<close>

definition layer_text :: "'a awrap \<Rightarrow> string" where
  "layer_text w = (case aw_layer w of Some i \<Rightarrow> str_of_int i | None \<Rightarrow> ''None'')"

text \<open>Opening a file for writing: a file that is there is overwritten, and links are followed.\<close>

definition put_file :: "path \<Rightarrow> int \<times> 'c \<Rightarrow> 'c tree \<Rightarrow> 'c tree result" where
  "put_file p doc fs =
     (case stat fs p of
        Some (Dir _ _) \<Rightarrow> Inl (OSError ''is a directory'')
      | Some _ \<Rightarrow> Inr (dset fs (resolve fs p) (File (fst doc) (snd doc)))
      | None \<Rightarrow> (if dir_at fs (butlast (resolve fs p)) then Inr (dset fs (resolve fs p) (File (fst doc) (snd doc)))
                 else Inl (FileNotFoundError ''open'')))"

definition truncated :: "path \<Rightarrow> 'c codec \<Rightarrow> 'c tree \<Rightarrow> 'c tree" where
  "truncated p cd fs = (case put_file p (1, cd_garbage cd) fs of Inl _ \<Rightarrow> fs | Inr fs' \<Rightarrow> fs')"

text \<open>The full-weight checkpoint writes a directory of its own files; what it does not know it does not read.\<close>

definition dir_view :: "('c, 'a) adapter_io \<Rightarrow> 'c tree \<Rightarrow> path \<Rightarrow> 'a cdir" where
  "dir_view ai fs dir =
     map (\<lambda>name. (name, case stat fs (dir @ [name]) of Some (File n c) \<Rightarrow> CFile n (ai_full_view ai c) | _ \<Rightarrow> CSub))
       (iterdir fs dir)"

fun store_entries :: "('c, 'a) adapter_io \<Rightarrow> path \<Rightarrow> 'a cdir \<Rightarrow> (string \<times> 'a centry) list \<Rightarrow> 'c tree \<Rightarrow> 'c tree" where
  "store_entries ai dir view [] fs = fs"
| "store_entries ai dir view ((name, e) # es) fs =
     (if dget view name = Some e then store_entries ai dir view es fs
      else case e of
        CFile n c \<Rightarrow> store_entries ai dir view es (dset fs (phys fs (dir @ [name])) (File n (ai_full_file ai c)))
      | CSub \<Rightarrow> store_entries ai dir view es fs)"

definition drop_entries :: "path \<Rightarrow> string list \<Rightarrow> 'c tree \<Rightarrow> 'c tree" where
  "drop_entries dir names fs = foldl (\<lambda>fs name. ddel fs (phys fs (dir @ [name]))) fs names"

definition store_view :: "('c, 'a) adapter_io \<Rightarrow> path \<Rightarrow> 'a cdir \<Rightarrow> 'c tree \<Rightarrow> 'c tree" where
  "store_view ai dir view' fs =
     (let view = dir_view ai fs dir in
      store_entries ai dir view view' (drop_entries dir (filter (\<lambda>name. \<not> dmem view' name) (dkeys view)) fs))"

definition save_full :: "('c, 'a) adapter_io \<Rightarrow> tokens \<Rightarrow> 'a awrap list \<Rightarrow> path \<Rightarrow> ('c disk, unit) eop" where
  "save_full ai tk ws dir d =
     (let full = concat (map (\<lambda>w. case aw_full w of Some c \<Rightarrow> [c] | None \<Rightarrow> []) ws);
          (r, view') = save_full_weight_checkpoint (ai_rank ai) (ai_full_io ai) (ai_full_remove ai) (ai_full_size ai)
                         (tk_generation tk) full (dir_view ai (dk_tree d) dir);
          d' = d\<lparr>dk_tree := store_view ai dir view' (dk_tree d)\<rparr> in
      case r of Inl e \<Rightarrow> (Inl e, d') | Inr _ \<Rightarrow> (Inr (), d'))"

definition safetensors_adapter :: string where
  "safetensors_adapter = ''adapter_model.safetensors''"

definition bin_adapter :: string where
  "bin_adapter = ''adapter_model.bin''"

definition expert_key :: "'a awrap \<Rightarrow> nat \<Rightarrow> string \<Rightarrow> string" where
  "expert_key w e proj =
     ''base_model.model.model.layers.'' @ layer_text w @ ''.mlp.lora_experts.'' @ str_of_int (int e) @ ''.'' @ proj @ ''.weight''"

definition lora_expert_tensors :: "'a awrap \<Rightarrow> (string \<times> 'a tensor) list" where
  "lora_expert_tensors w =
     (case aw_lora_experts w of
        None \<Rightarrow> []
      | Some experts \<Rightarrow>
          concat (map (\<lambda>(e, (gate, up, down)).
            [(expert_key w e ''le_gate'', gate), (expert_key w e ''le_up'', up), (expert_key w e ''le_down'', down)])
            (enumerate 0 experts)))"

definition merge_tensors :: "(string, 'a tensor) dict \<Rightarrow> (string \<times> 'a tensor) list \<Rightarrow> (string, 'a tensor) dict" where
  "merge_tensors sd ts = foldl (\<lambda>sd (k, t). dset sd k t) sd ts"

definition existing_adapter :: "('c, 'a) adapter_io \<Rightarrow> path \<Rightarrow> 'c tree \<Rightarrow> (string, 'a tensor) dict result" where
  "existing_adapter ai dir fs =
     (if path_exists fs (dir @ [safetensors_adapter]) then
        (case stat fs (dir @ [safetensors_adapter]) of
           Some (File _ c) \<Rightarrow> (case ai_load ai c of Some sd \<Rightarrow> Inr sd | None \<Rightarrow> Inl (OSError ''SafetensorError''))
         | _ \<Rightarrow> Inl (OSError ''is a directory''))
      else if path_exists fs (dir @ [bin_adapter]) then
        (case stat fs (dir @ [bin_adapter]) of
           Some (File _ c) \<Rightarrow> (case ai_torch_load ai c of Some sd \<Rightarrow> Inr sd | None \<Rightarrow> Inl (RuntimeError ''torch.load''))
         | _ \<Rightarrow> Inl (OSError ''is a directory''))
      else Inr [])"

definition save_lora_experts_to_adapter ::
  "('c, 'a) adapter_io \<Rightarrow> (nat \<Rightarrow> io) \<Rightarrow> 'a awrap list \<Rightarrow> path \<Rightarrow> ('c disk, unit) eop" where
  "save_lora_experts_to_adapter ai io ws dir =
     (if ws = [] then ereturn ()
      else
        ebind (disk_query (existing_adapter ai dir)) (\<lambda>sd.
        let sd' = merge_tensors sd (concat (map lora_expert_tensors ws)); p = dir @ [safetensors_adapter] in
        disk_op io (put_file p (ai_save ai sd')) (truncated p (codec.truncate ai))))"

definition fused_file :: string where
  "fused_file = ''fused_expert_lora.safetensors''"

definition fused_temp :: "string \<Rightarrow> string" where
  "fused_temp token = ''.fused_expert_lora.'' @ token @ ''.safetensors.tmp''"

definition fused_tensors :: "'a awrap list \<Rightarrow> (string, 'a tensor) dict" where
  "fused_tensors ws =
     merge_tensors [] (concat (map (\<lambda>w.
       if has_fused w
       then map (\<lambda>(p, name). (''layers.'' @ layer_text w @ ''.experts.'' @ name, p)) (zip (the (aw_fused_params w)) fused_lora_names)
       else []) ws))"

text \<open>\<open>try: save_file; os.replace; finally: os.remove\<close> (a missing temporary file is ignored).\<close>

definition finally_remove :: "(nat \<Rightarrow> io) \<Rightarrow> path \<Rightarrow> ('c disk, unit) eop \<Rightarrow> ('c disk, unit) eop" where
  "finally_remove io temp body d =
     (case body d of (r, d') \<Rightarrow>
        (case unlink_temp io temp d' of (Inr _, d'') \<Rightarrow> (r, d'') | (Inl e, d'') \<Rightarrow> (Inl e, d'')))"

definition save_fused_expert_lora ::
  "('c, 'a) adapter_io \<Rightarrow> (nat \<Rightarrow> io) \<Rightarrow> tokens \<Rightarrow> 'a awrap list \<Rightarrow> path \<Rightarrow> ('c disk, unit) eop" where
  "save_fused_expert_lora ai io tk ws dir =
     (let tensors = fused_tensors ws; temp = dir @ [fused_temp (tk_fused tk)] in
      if tensors = [] then ereturn ()
      else
        ebind (disk_op io (create_file temp 0 (cd_garbage ai)) id) (\<lambda>_.
        finally_remove io temp
          (ebind (disk_op io (put_file temp (ai_save ai tensors)) (truncated temp (codec.truncate ai))) (\<lambda>_.
           disk_op io (replace_file temp (dir @ [fused_file])) id))))"

definition save_kt_moe_to_adapter ::
  "('c, 'a) adapter_io \<Rightarrow> (nat \<Rightarrow> io) \<Rightarrow> tokens \<Rightarrow> 'a kt_model \<Rightarrow> path \<Rightarrow> ('c disk, unit) eop" where
  "save_kt_moe_to_adapter ai io tk m dir =
     (let ws = map (wrapper_at m) (lora_wrappers m) in
      if ws = [] then ereturn ()
      else
        ebind (if list_ex (\<lambda>w. case aw_full w of Some c \<Rightarrow> cw_full c | None \<Rightarrow> False) ws then save_full ai tk ws dir
               else ereturn ()) (\<lambda>_.
        ebind (if list_ex (\<lambda>w. aw_lora_experts w \<noteq> None) ws then save_lora_experts_to_adapter ai io ws dir
               else ereturn ()) (\<lambda>_.
        if list_ex has_fused ws then save_fused_expert_lora ai io tk ws dir else ereturn ())))"

section \<open>The bundle\<close>

definition adapter_manifest :: string where
  "adapter_manifest = ''kt_adapter_manifest.json''"

definition adapter_config :: string where
  "adapter_config = ''adapter_config.json''"

definition standard_adapters :: "string list" where
  "standard_adapters = [safetensors_adapter, bin_adapter]"

record adapter_manifest_view =
  am_path :: path
  am_payload :: "(string, jvalue) dict"
  am_artifact_paths :: "path list"

definition invalidate_ready_manifest :: "(nat \<Rightarrow> io) \<Rightarrow> path \<Rightarrow> ('c disk, unit) eop" where
  "invalidate_ready_manifest io p =
     ebind (egets dk_tree) (\<lambda>fs.
     if \<not> path_exists fs p \<and> \<not> is_link fs p then ereturn ()
     else if \<not> regular_file fs p then eraise (ArtifactError ''existing KT adapter manifest must be a regular file'')
     else ebind (disk_op io (unlink p) id) (\<lambda>_. fsync io))"

text \<open>\<open>output.mkdir(parents=True, exist_ok=True)\<close>.\<close>

function make_dirs :: "path \<Rightarrow> 'c tree \<Rightarrow> 'c tree result" where
  "make_dirs p fs =
     (if p = [] \<or> is_dir fs p then Inr fs
      else if path_exists fs p \<or> is_link fs p then Inl (FileExistsError ''mkdir'')
      else rbind (make_dirs (butlast p) fs) (\<lambda>fs'. Inr (dset fs' (phys fs' p) (Dir 0 False))))"
  by pat_completeness auto
termination by (relation "measure (\<lambda>(p, fs). length p)") auto

declare make_dirs.simps [simp del]

definition validate_fused_file :: "'c codec \<Rightarrow> 'c tree \<Rightarrow> path \<Rightarrow> (string, tensor_meta) dict \<Rightarrow> unit result" where
  "validate_fused_file cd fs p contract =
     (if \<not> regular_file fs p then Inl (ArtifactError ''missing regular fused expert LoRA file'')
      else
        rbind (open_shard cd fs p) (\<lambda>actual.
        if set (dkeys actual) \<noteq> set (dkeys contract) then Inl (ArtifactError ''invalid fused LoRA keys'')
        else require (list_all (\<lambda>(key, t). dget actual key = Some t) contract) (ArtifactError ''shape or dtype does not match the runtime'')))"

definition artifact_record :: "'c codec \<Rightarrow> 'c tree \<Rightarrow> path \<Rightarrow> (string, tensor_meta) dict option \<Rightarrow> jvalue result" where
  "artifact_record cd fs p contract =
     (if \<not> regular_file fs p then Inl (ArtifactError ''adapter artifact must be a regular file'')
      else
        rbind (sha256_file cd fs p) (\<lambda>digest.
        Inr (VObject ([(''size'', VInt (file_size fs p)), (''sha256'', VStr digest)] @
               (case contract of None \<Rightarrow> []
                | Some c \<Rightarrow> [(''tensor_count'', VInt (int (length c))), (''tensors'', contract_json c)])))))"

fun artifact_records ::
  "'c codec \<Rightarrow> 'c tree \<Rightarrow> path \<Rightarrow> (string, tensor_meta) dict \<Rightarrow> string list \<Rightarrow> (string, jvalue) dict
     \<Rightarrow> (string, jvalue) dict result" where
  "artifact_records cd fs root contract [] artifacts = Inr artifacts"
| "artifact_records cd fs root contract (name # names) artifacts =
     rbind (artifact_record cd fs (root @ [name]) (if name = fused_file then Some contract else None)) (\<lambda>r.
     artifact_records cd fs root contract names (dset artifacts name r))"

text \<open>\<open>shutil.copy2\<close> of a file, and the moves of the staged files.\<close>

definition copy_file :: "path \<Rightarrow> path \<Rightarrow> 'c tree \<Rightarrow> 'c tree result" where
  "copy_file src dst fs =
     (case stat fs src of
        Some (File n c) \<Rightarrow> put_file dst (n, c) fs
      | Some _ \<Rightarrow> Inl (OSError ''is a directory'')
      | None \<Rightarrow> Inl (FileNotFoundError ''copy2''))"

fun sync_entries :: "(nat \<Rightarrow> io) \<Rightarrow> path \<Rightarrow> string list \<Rightarrow> ('c disk, unit) eop" where
  "sync_entries io staging [] = ereturn ()"
| "sync_entries io staging (name # names) =
     ebind (eassert (\<lambda>d. regular_file (dk_tree d) (staging @ [name])) (ArtifactError ''unsupported staged adapter entry'')) (\<lambda>_.
     ebind (fsync io) (\<lambda>_. sync_entries io staging names))"

fun move_entries :: "(nat \<Rightarrow> io) \<Rightarrow> path \<Rightarrow> path \<Rightarrow> string list \<Rightarrow> ('c disk, unit) eop" where
  "move_entries io staging output [] = ereturn ()"
| "move_entries io staging output (name # names) =
     ebind (disk_op io (replace_file (staging @ [name]) (output @ [name])) id) (\<lambda>_.
     move_entries io staging output names)"

definition make_stage :: "path \<Rightarrow> 'c tree \<Rightarrow> 'c tree result" where
  "make_stage p fs =
     (if \<not> is_dir fs (butlast p) then Inl (FileNotFoundError ''mkdtemp'')
      else if lstat fs p \<noteq> None then Inl (FileExistsError ''mkdtemp'')
      else Inr (dset fs (phys fs p) (Dir 0 False)))"

text \<open>\<open>shutil.rmtree(staging, ignore_errors=True)\<close>.\<close>

definition remove_tree :: "(nat \<Rightarrow> io) \<Rightarrow> path \<Rightarrow> 'c disk \<Rightarrow> 'c disk" where
  "remove_tree io p d = snd (disk_op io (\<lambda>fs. Inr (filter (\<lambda>(q, n). \<not> prefix (phys fs p) q) fs)) id d)"

text \<open>What happens between \<open>try\<close> and \<open>finally\<close>.\<close>

definition publish_bundle ::
  "('c, 'a) adapter_io \<Rightarrow> (nat \<Rightarrow> io) \<Rightarrow> tokens \<Rightarrow> 'a kt_model \<Rightarrow> path \<Rightarrow> path \<Rightarrow> string \<Rightarrow> (string, tensor_meta) dict
     \<Rightarrow> load_plan option \<Rightarrow> ('c disk, adapter_manifest_view) eop" where
  "publish_bundle ai io tk m output staging standard contract plan =
     ebind (disk_op io (copy_file (output @ [standard]) (staging @ [standard]))
              (truncated (staging @ [standard]) (codec.truncate ai))) (\<lambda>_.
     ebind (save_kt_moe_to_adapter ai io tk m staging) (\<lambda>_.
     ebind (disk_query (\<lambda>fs. validate_fused_file (codec.truncate ai) fs (staging @ [fused_file]) contract)) (\<lambda>_.
     ebind (egets (\<lambda>d. iterdir (dk_tree d) staging)) (\<lambda>produced.
     ebind (sync_entries io staging produced) (\<lambda>_.
     ebind (elift (require (fused_file \<in> set produced) (ArtifactError ''staging did not produce the fused file''))) (\<lambda>_.
     ebind (move_entries io staging output (sort produced)) (\<lambda>_.
     ebind (fsync io) (\<lambda>_.
     ebind (disk_query (\<lambda>fs. artifact_record (codec.truncate ai) fs (output @ [adapter_config]) None)) (\<lambda>config_record.
     ebind (disk_query (\<lambda>fs. artifact_records (codec.truncate ai) fs output contract (sort produced)
              [(adapter_config, config_record)])) (\<lambda>artifacts.
     ebind (disk_query (\<lambda>fs. adapter_provenance (codec.truncate ai) fs m plan)) (\<lambda>provenance.
     let payload = [(''version'', VInt 1), (''status'', VStr ''ready'')] @ provenance @ [(''artifacts'', VObject artifacts)] in
     ebind (write_json_atomic (codec.truncate ai) io (tk_manifest tk) output adapter_manifest payload) (\<lambda>_.
     ereturn \<lparr>am_path = output @ [adapter_manifest], am_payload = payload,
              am_artifact_paths = map (\<lambda>name. output @ [name]) (sort (dkeys artifacts))\<rparr>))))))))))))"

text \<open>The plan must still describe what is on disk.\<close>

definition plan_unchanged :: "'c codec \<Rightarrow> 'c tree \<Rightarrow> load_plan option \<Rightarrow> unit result" where
  "plan_unchanged cd fs plan =
     (case plan of
        None \<Rightarrow> Inr ()
      | Some p \<Rightarrow>
          rbind (read_json cd fs (pl_manifest_path p)) (\<lambda>current_cache.
          rbind (read_json cd fs (pl_routed_manifest_path p)) (\<lambda>current_routed.
          require (jeq (VObject current_cache) (VObject (pl_manifest p)) \<and>
                   jeq (VObject current_routed) (VObject (pl_routed_manifest p)))
            (ArtifactError ''KT pretrained artifact provenance changed after model loading''))))"

definition stage_name :: "string \<Rightarrow> string" where
  "stage_name token = ''.kt-adapter-stage.'' @ token"

definition save_kt_adapter_artifacts ::
  "('c, 'a) adapter_io \<Rightarrow> (nat \<Rightarrow> io) \<Rightarrow> tokens \<Rightarrow> 'a kt_model \<Rightarrow> string \<Rightarrow> ('c disk, adapter_manifest_view option) eop" where
  "save_kt_adapter_artifacts ai io tk m output_dir =
     (let output = absolute_path (codec.truncate ai) output_dir in
      ebind (elift (fused_lora_contract m)) (\<lambda>contract.
      ebind (eassert (\<lambda>d. \<not> is_link (dk_tree d) output) (ArtifactError ''adapter output must not be a symlink'')) (\<lambda>_.
      ebind (disk_op io (make_dirs output) id) (\<lambda>_.
      ebind (invalidate_ready_manifest io (output @ [adapter_manifest])) (\<lambda>_.
      if contract = [] then ebind (save_kt_moe_to_adapter ai io tk m output) (\<lambda>_. ereturn None)
      else
        ebind (eassert (\<lambda>d. regular_file (dk_tree d) (output @ [adapter_config]))
                 (ArtifactError ''KT adapter save requires adapter_config.json'')) (\<lambda>_.
        ebind (egets (\<lambda>d. filter (\<lambda>name. is_file (dk_tree d) (output @ [name])) standard_adapters)) (\<lambda>standard.
        ebind (elift (require (length standard = 1) (ArtifactError ''requires exactly one standard adapter file''))) (\<lambda>_.
        let plan = find_plan m; staging = output @ [stage_name (tk_stage tk)] in
        ebind (disk_query (\<lambda>fs. plan_unchanged (codec.truncate ai) fs plan)) (\<lambda>_.
        ebind (disk_op io (make_stage staging) id) (\<lambda>_ d.
        case publish_bundle ai io tk m output staging (hd standard) contract plan d of
          (Inl e, d') \<Rightarrow> (Inl e, remove_tree io staging d')
        | (Inr v, d') \<Rightarrow> (Inr (Some v), remove_tree io staging d')))))))))))"

end
