(* ===== verification/AdapterLoad.thy ===== *)
theory AdapterLoad
  imports AdapterSave
begin

text \<open>
  Loading an adapter: \<open>_validate_adapter_manifest\<close> and \<open>load_kt_adapter_artifacts\<close> of
  \<open>kt-kernel/python/sft/artifacts.py\<close>, and the readers of \<open>lora.py\<close> that copy the tensors into the
  wrappers (full weights, LoRA experts, fused LoRA).
\<close>

section \<open>The manifest against the files and the model\<close>

definition saved_format :: "(string, jvalue) dict \<Rightarrow> jvalue" where
  "saved_format payload =
     (if obj_get payload ''expert_weight_format'' = VNull \<and> dmem payload ''non_expert_cache'' \<and> dmem payload ''int8_experts''
      then VStr ''int8'' else obj_get payload ''expert_weight_format'')"

definition provenance_matches ::
  "'c codec \<Rightarrow> 'c tree \<Rightarrow> (string, jvalue) dict \<Rightarrow> (string, jvalue) dict \<Rightarrow> unit result" where
  "provenance_matches cd fs payload expected =
     (if saved_format payload \<noteq> obj_get expected ''expert_weight_format''
      then Inl (ArtifactError ''expert_weight_format does not match the runtime'')
      else
        rbind (if saved_format payload = VStr ''rawint4''
               then validate_rawint4_base_identity cd fs (obj_get payload ''base'') (obj_get expected ''base'')
               else require (jeq (obj_get payload ''base'') (obj_get expected ''base''))
                      (ArtifactError ''base does not match the runtime'')) (\<lambda>_.
        rbind (require (jeq (obj_get payload ''lora'') (obj_get expected ''lora''))
                 (ArtifactError ''lora does not match the runtime'')) (\<lambda>_.
        require (list_all (\<lambda>field. jeq (obj_get payload field) (obj_get expected field))
                   [''non_expert_cache'', ''int8_experts'', ''expert_quantization''])
          (ArtifactError ''field does not match the runtime''))))"

fun check_artifacts :: "'c codec \<Rightarrow> 'c tree \<Rightarrow> path \<Rightarrow> (string \<times> jvalue) list \<Rightarrow> path list result" where
  "check_artifacts cd fs root [] = Inr []"
| "check_artifacts cd fs root ((name, v) # artifacts) =
     (case v of
        VObject r \<Rightarrow>
          (if \<not> is_basename name then Inl (ArtifactError ''invalid artifact record'')
           else
             let p = root @ path_parts name in
             if \<not> jeq (obj_get r ''size'') (if regular_file fs p then VInt (file_size fs p) else VNull)
             then Inl (ArtifactError ''size mismatch'')
             else case obj_get r ''sha256'' of
               VStr digest \<Rightarrow>
                 rbind (sha256_file cd fs p) (\<lambda>actual.
                 if actual \<noteq> digest then Inl (ArtifactError ''SHA256 mismatch'')
                 else rbind (check_artifacts cd fs root artifacts) (\<lambda>ps. Inr (p # ps)))
             | _ \<Rightarrow> Inl (ArtifactError ''SHA256 mismatch''))
      | _ \<Rightarrow> Inl (ArtifactError ''invalid artifact record''))"

definition validate_adapter_manifest ::
  "'c codec \<Rightarrow> 'c tree \<Rightarrow> 'a kt_model \<Rightarrow> path \<Rightarrow> adapter_manifest_view result" where
  "validate_adapter_manifest cd fs m root =
     rbind (read_json cd fs (root @ [adapter_manifest])) (\<lambda>payload.
     if \<not> equals_int (obj_get payload ''version'') 1 \<or> obj_get payload ''status'' \<noteq> VStr ''ready''
     then Inl (ArtifactError ''expected version=1 and status=ready'')
     else
       rbind (adapter_provenance cd fs m (find_plan m)) (\<lambda>expected.
       rbind (provenance_matches cd fs payload expected) (\<lambda>_.
       case obj_get payload ''artifacts'' of
         VObject artifacts \<Rightarrow>
           (if \<not> dmem artifacts fused_file then Inl (ArtifactError ''artifacts must include fused expert LoRA'')
            else if length (filter (\<lambda>name. name \<in> set standard_adapters) (dkeys artifacts)) \<noteq> 1 \<or>
                    \<not> dmem artifacts adapter_config
            then Inl (ArtifactError ''invalid standard adapter inventory'')
            else
              rbind (check_artifacts cd fs root artifacts) (\<lambda>paths.
              rbind (fused_lora_contract m) (\<lambda>contract.
              let fused_record = object_fields (obj_get artifacts fused_file) in
              if \<not> equals_int (obj_get fused_record ''tensor_count'') (int (length contract)) \<or>
                 \<not> jeq (obj_get fused_record ''tensors'') (contract_json contract)
              then Inl (ArtifactError ''fused tensor contract does not match the runtime'')
              else
                rbind (validate_fused_file cd fs (root @ [fused_file]) contract) (\<lambda>_.
                Inr \<lparr>am_path = root @ [adapter_manifest], am_payload = payload, am_artifact_paths = sort_key path_text paths\<rparr>))))
       | _ \<Rightarrow> Inl (ArtifactError ''artifacts must include fused expert LoRA''))))"

section \<open>The readers\<close>

definition set_wrapper :: "nat \<Rightarrow> 'a awrap \<Rightarrow> 'a kt_model \<Rightarrow> 'a kt_model" where
  "set_wrapper i w m = m\<lparr>km_wrappers := (km_wrappers m)[i := w]\<rparr>"

text \<open>The expected tensors of the owned wrappers: key, wrapper and position of the parameter.\<close>

fun owned_fused :: "'a kt_model \<Rightarrow> nat list \<Rightarrow> string list \<Rightarrow> (string \<times> nat \<times> nat) list result" where
  "owned_fused m [] seen = Inr []"
| "owned_fused m (i # is) seen =
     (let w = wrapper_at m i in
      if \<not> has_fused w then owned_fused m is seen
      else if length (the (aw_fused_params w)) \<noteq> length fused_lora_names
      then Inl (RuntimeError ''expected six fused expert LoRA parameters'')
      else if layer_text w \<in> set seen then Inl (RuntimeError ''Duplicate owned fused expert LoRA layer'')
      else
        rbind (owned_fused m is (layer_text w # seen)) (\<lambda>rest.
        Inr (map (\<lambda>(k, name). (''layers.'' @ layer_text w @ ''.experts.'' @ name, i, k)) (enumerate 0 fused_lora_names) @ rest)))"

definition fused_param :: "'a kt_model \<Rightarrow> nat \<Rightarrow> nat \<Rightarrow> 'a tensor" where
  "fused_param m i k = the (aw_fused_params (wrapper_at m i)) ! k"

text \<open>\<open>param.data.copy_(saved[key])\<close> keeps the parameter's shape and dtype.\<close>

definition copy_fused :: "(string, 'a tensor) dict \<Rightarrow> string \<times> nat \<times> nat \<Rightarrow> 'a kt_model \<Rightarrow> 'a kt_model" where
  "copy_fused saved e m =
     (case e of (key, i, k) \<Rightarrow>
        let w = wrapper_at m i; ps = the (aw_fused_params w) in
        set_wrapper i (w\<lparr>aw_fused_params := Some (ps[k := (ps ! k)\<lparr>tn_data := tn_data (the (dget saved key))\<rparr>]),
                         aw_dirty := True\<rparr>) m)"

definition load_fused_expert_lora ::
  "('c, 'a) adapter_io \<Rightarrow> 'c tree \<Rightarrow> nat list \<Rightarrow> path \<Rightarrow> ('a kt_model, int) eop" where
  "load_fused_expert_lora ai fs is root =
     ebind (\<lambda>m. (owned_fused m is [], m)) (\<lambda>expected.
     if expected = [] then ereturn 0
     else case stat fs (root @ [fused_file]) of
       Some (File _ c) \<Rightarrow>
         (case ai_load ai c of
            None \<Rightarrow> eraise (OSError ''SafetensorError'')
          | Some saved \<Rightarrow>
              ebind (elift (require (set (dkeys saved) = set (map fst expected)) (RuntimeError ''Invalid fused key set''))) (\<lambda>_.
              ebind (eassert (\<lambda>m. list_all (\<lambda>(key, i, k).
                         tn_shape (the (dget saved key)) = tn_shape (fused_param m i k) \<and>
                         tn_dtype (the (dget saved key)) = tn_dtype (fused_param m i k)) expected)
                       (RuntimeError ''shape or dtype mismatch'')) (\<lambda>_.
              ebind (eupd (fold (copy_fused saved) expected)) (\<lambda>_.
              ereturn (int (length expected))))))
     | _ \<Rightarrow> eraise (FileNotFoundError ''Missing fused_expert_lora.safetensors''))"

text \<open>\<open>lora_expert_pattern.match(key)\<close>: layer, expert and projection; what follows the match is free.\<close>

definition digits_prefix :: "string \<Rightarrow> (nat \<times> string) option" where
  "digits_prefix s =
     (if takeWhile is_digit s = [] then None
      else map_option (\<lambda>n. (n, dropWhile is_digit s)) (parse_nat (takeWhile is_digit s)))"

definition expert_projections :: "string list" where
  "expert_projections = [''le_gate'', ''le_up'', ''le_down'']"

definition expert_key_groups :: "string \<Rightarrow> (nat \<times> nat \<times> string) option" where
  "expert_key_groups key =
     Option.bind (strip_prefix ''base_model.model.model.layers.'' key) (\<lambda>s.
     Option.bind (digits_prefix s) (\<lambda>(l, s).
     Option.bind (strip_prefix ''.mlp.lora_experts.'' s) (\<lambda>s.
     Option.bind (digits_prefix s) (\<lambda>(e, s).
     case filter (\<lambda>proj. strip_prefix (''.'' @ proj @ ''.weight'') s \<noteq> None) expert_projections of
       [] \<Rightarrow> None
     | proj # _ \<Rightarrow> Some (l, e, proj)))))"

text \<open>\<open>layer_weights.setdefault(layer, {}).setdefault(expert, {})[proj] = tensor\<close>.\<close>

type_synonym 'a layer_weights = "(nat, (nat, (string, 'a tensor) dict) dict) dict"

definition setdefault :: "('k, ('l, 'v) dict) dict \<Rightarrow> 'k \<Rightarrow> ('l, 'v) dict" where
  "setdefault d k = (case dget d k of None \<Rightarrow> [] | Some v \<Rightarrow> v)"

definition add_weight :: "string \<times> 'a tensor \<Rightarrow> 'a layer_weights \<Rightarrow> 'a layer_weights" where
  "add_weight kt lw =
     (case expert_key_groups (fst kt) of
        None \<Rightarrow> lw
      | Some (l, e, proj) \<Rightarrow>
          dset lw l (dset (setdefault lw l) e (dset (setdefault (setdefault lw l) e) proj (snd kt))))"

text \<open>\<open>wrapper_map\<close>: for each layer the last wrapper that has LoRA experts.\<close>

definition expert_owner :: "'a kt_model \<Rightarrow> nat list \<Rightarrow> nat \<Rightarrow> nat option" where
  "expert_owner m is l =
     (case filter (\<lambda>i. aw_lora_experts (wrapper_at m i) \<noteq> None \<and> aw_layer (wrapper_at m i) = Some (int l)) is of
        [] \<Rightarrow> None | j # js \<Rightarrow> Some (last (j # js)))"

definition get_expert :: "string \<Rightarrow> 'a tensor \<times> 'a tensor \<times> 'a tensor \<Rightarrow> 'a tensor" where
  "get_expert proj x = (case x of (gate, up, down) \<Rightarrow> if proj = ''le_gate'' then gate else if proj = ''le_up'' then up else down)"

definition set_expert :: "string \<Rightarrow> 'a tensor \<Rightarrow> 'a tensor \<times> 'a tensor \<times> 'a tensor \<Rightarrow> 'a tensor \<times> 'a tensor \<times> 'a tensor" where
  "set_expert proj t x =
     (case x of (gate, up, down) \<Rightarrow>
        if proj = ''le_gate'' then (t, up, down) else if proj = ''le_up'' then (gate, t, down) else (gate, up, t))"

text \<open>\<open>weight.data.copy_(tensor)\<close>: \<open>ai_copy\<close> gives the parameter's new value, or no value when the shapes do not fit.\<close>

definition copy_projection ::
  "('c, 'a) adapter_io \<Rightarrow> nat \<Rightarrow> nat \<Rightarrow> (string, 'a tensor) dict \<Rightarrow> string \<Rightarrow> ('a kt_model, unit) eop" where
  "copy_projection ai i e projs proj m =
     (case dget projs proj of
        None \<Rightarrow> (Inr (), m)
      | Some t \<Rightarrow>
          (let w = wrapper_at m i; experts = the (aw_lora_experts w) in
           case ai_copy ai (get_expert proj (experts ! e)) t of
             None \<Rightarrow> (Inl (RuntimeError ''copy_''), m)
           | Some t' \<Rightarrow> (Inr (), set_wrapper i (w\<lparr>aw_lora_experts := Some (experts[e := set_expert proj t' (experts ! e)])\<rparr>) m)))"

fun each :: "('b \<Rightarrow> ('s, unit) eop) \<Rightarrow> 'b list \<Rightarrow> ('s, unit) eop" where
  "each f [] = ereturn ()"
| "each f (x # xs) = ebind (f x) (\<lambda>_. each f xs)"

definition copy_layer ::
  "('c, 'a) adapter_io \<Rightarrow> nat list \<Rightarrow> nat \<times> (nat, (string, 'a tensor) dict) dict \<Rightarrow> ('a kt_model, unit) eop" where
  "copy_layer ai is le m =
     (case expert_owner m is (fst le) of
        None \<Rightarrow> (Inr (), m)
      | Some i \<Rightarrow>
          each (\<lambda>(e, projs) m.
            if e \<ge> length (the (aw_lora_experts (wrapper_at m i))) then (Inr (), m)
            else each (copy_projection ai i e projs) expert_projections m) (snd le) m)"

definition lora_experts_file :: string where
  "lora_experts_file = ''lora_experts.safetensors''"

text \<open>\<open>safe_open\<close> is used for the fallback \<open>adapter_model.bin\<close> as well.\<close>

definition load_lora_experts_from_adapter ::
  "('c, 'a) adapter_io \<Rightarrow> 'c tree \<Rightarrow> nat list \<Rightarrow> path \<Rightarrow> ('a kt_model, unit) eop" where
  "load_lora_experts_from_adapter ai fs is root =
     ebind (egets (\<lambda>m. list_all (\<lambda>i. aw_lora_experts (wrapper_at m i) = None) is)) (\<lambda>none.
     if none then ereturn ()
     else case filter (\<lambda>name. path_exists fs (root @ [name])) [lora_experts_file, safetensors_adapter, bin_adapter] of
       [] \<Rightarrow> ereturn ()
     | name # _ \<Rightarrow>
         (case stat fs (root @ [name]) of
            Some (File _ c) \<Rightarrow>
              (case ai_load ai c of
                 None \<Rightarrow> eraise (OSError ''SafetensorError'')
               | Some saved \<Rightarrow> each (copy_layer ai is) (fold add_weight saved []))
          | _ \<Rightarrow> eraise (OSError ''is a directory'')))"

definition full_views :: "'a kt_model \<Rightarrow> nat list \<Rightarrow> 'a ckw list" where
  "full_views m is = concat (map (\<lambda>i. case aw_full (wrapper_at m i) of Some c \<Rightarrow> [c] | None \<Rightarrow> []) is)"

fun put_full_views :: "nat list \<Rightarrow> 'a ckw list \<Rightarrow> 'a kt_model \<Rightarrow> 'a kt_model" where
  "put_full_views [] cs m = m"
| "put_full_views (i # is) cs m =
     (case aw_full (wrapper_at m i) of
        None \<Rightarrow> put_full_views is cs m
      | Some _ \<Rightarrow>
          (case cs of
             [] \<Rightarrow> m
           | c # cs' \<Rightarrow> put_full_views is cs' (set_wrapper i ((wrapper_at m i)\<lparr>aw_full := Some c\<rparr>) m)))"

text \<open>The full-weight checkpoint of one process.\<close>

definition load_full :: "('c, 'a) adapter_io \<Rightarrow> 'c tree \<Rightarrow> nat list \<Rightarrow> path \<Rightarrow> ('a kt_model, unit) eop" where
  "load_full ai fs is root m =
     (case load_full_weight_checkpoint 0 1 False None None (dir_view ai fs root) (full_views m is) of
        (Inl e, cs) \<Rightarrow> (Inl e, put_full_views is cs m)
      | (Inr _, cs) \<Rightarrow> (Inr (), put_full_views is cs m))"

definition load_kt_moe_from_adapter :: "('c, 'a) adapter_io \<Rightarrow> 'c tree \<Rightarrow> path \<Rightarrow> ('a kt_model, unit) eop" where
  "load_kt_moe_from_adapter ai fs root m =
     (let is = lora_wrappers m; ws = map (wrapper_at m) is in
      if is = [] then (Inr (), m)
      else
        ebind (if list_ex (\<lambda>w. case aw_full w of Some c \<Rightarrow> cw_full c | None \<Rightarrow> False) ws then load_full ai fs is root
               else ereturn ()) (\<lambda>_.
        ebind (if list_ex (\<lambda>w. aw_lora_experts w \<noteq> None) ws then load_lora_experts_from_adapter ai fs is root
               else ereturn ()) (\<lambda>_.
        if list_ex has_fused ws then ebind (load_fused_expert_lora ai fs is root) (\<lambda>_. ereturn ()) else ereturn ())) m)"

text \<open>\<open>adapt\<close> is \<open>kt_adapt_peft_lora\<close>, which gives the wrappers of an owner rank their parameters.\<close>

definition load_kt_adapter_artifacts ::
  "('c, 'a) adapter_io \<Rightarrow> ('a kt_model, unit) eop \<Rightarrow> 'c tree \<Rightarrow> string \<Rightarrow> ('a kt_model, adapter_manifest_view option) eop" where
  "load_kt_adapter_artifacts ai adapt fs adapter_path =
     ebind (elift (safe_root fs adapter_path)) (\<lambda>root.
     ebind (egets (\<lambda>m. list_ex aw_inner (kt_wrappers m))) (\<lambda>owner.
     ebind (if owner then adapt else ereturn ()) (\<lambda>_.
     ebind (\<lambda>m. (fused_lora_contract m, m)) (\<lambda>contract.
     ebind (if exists_at fs (root @ [adapter_manifest])
            then (\<lambda>m. (rbind (validate_adapter_manifest (codec.truncate ai) fs m root) (\<lambda>v. Inr (Some v)), m))
            else if contract \<noteq> [] then eraise (ArtifactError ''fused adapter is missing its manifest'')
            else ereturn None) (\<lambda>manifest.
     ebind (load_kt_moe_from_adapter ai fs root) (\<lambda>_.
     ereturn manifest))))))"

end
