(* ===== verification/AdapterSample.thy ===== *)
theory AdapterSample
  imports AdapterLoad
begin

text \<open>A small model and a bundle directory, on which the properties of saving and loading adapters are evaluated.\<close>

datatype bundle_content = Doc jvalue | Tensors "(string, nat tensor) dict" | Part

definition header_dtype :: "string \<Rightarrow> string" where
  "header_dtype s = (case dtype_of s of Inl _ \<Rightarrow> ''I8'' | Inr d \<Rightarrow> d)"

definition tensor_header :: "bundle_content \<Rightarrow> (string, tensor_meta) dict option" where
  "tensor_header c =
     (case c of
        Tensors sd \<Rightarrow> Some (map (\<lambda>(k, t). (k, \<lparr>tm_shape = tn_shape t, tm_dtype = header_dtype (tn_dtype t)\<rparr>)) sd)
      | _ \<Rightarrow> None)"

definition sample_io :: "(bundle_content, nat) adapter_io" where
  "sample_io =
     \<lparr>rd_json = (\<lambda>c. case c of Doc v \<Rightarrow> Some v | _ \<Rightarrow> None), rd_sha256 = (\<lambda>_. replicate 64 CHR ''0''), rd_readable = (\<lambda>_. True),
      cd_sha = (\<lambda>_. replicate 64 CHR ''a''), cd_dumps = (\<lambda>_. ''{}''), cd_json_file = (\<lambda>v. (2, Doc v)), cd_garbage = Part,
      cd_tensors = tensor_header, cd_bytes = (\<lambda>_. []),
      cd_fstat = (\<lambda>_ _. \<lparr>fs_dev = 1, fs_ino = 7, fs_ctime_ns = 100, fs_size = 13\<rparr>), cd_cwd = [],
      ai_save = (\<lambda>sd. (int (length sd), Tensors sd)),
      ai_load = (\<lambda>c. case c of Tensors sd \<Rightarrow> Some sd | _ \<Rightarrow> None), ai_torch_load = (\<lambda>c. case c of Tensors sd \<Rightarrow> Some sd | _ \<Rightarrow> None),
      ai_copy = (\<lambda>p t. if tn_shape p = tn_shape t then Some (p\<lparr>tn_data := tn_data t\<rparr>) else None),
      ai_full_view = (\<lambda>_. Garbage), ai_full_file = (\<lambda>_. Part), ai_rank = 0, ai_full_io = (\<lambda>_. Done),
      ai_full_remove = (\<lambda>_. True), ai_full_size = (\<lambda>_. 8)\<rparr>"

definition sample_param :: "int list \<Rightarrow> nat \<Rightarrow> nat tensor" where
  "sample_param shape x = \<lparr>tn_shape = shape, tn_dtype = ''torch.bfloat16'', tn_data = x\<rparr>"

definition sample_wrapper :: "nat \<Rightarrow> nat awrap" where
  "sample_wrapper x =
     \<lparr>aw_layer = Some 3, aw_rank = Some 2, aw_alpha = Some (VInt 16), aw_inner = False, aw_inner_alpha = VNull,
      aw_use_fused = True, aw_fused_experts = False,
      aw_fused_params = Some (map (\<lambda>(k, shape). sample_param shape (x + k)) (enumerate 0 (derived_shapes 1 3 4 2))),
      aw_expert_num = Some 1, aw_intermediate = Some 3, aw_hidden = Some 4, aw_format = Some (VStr ''BF16''), aw_quant = None,
      aw_lora_experts = None, aw_full = None, aw_dirty = False\<rparr>"

definition sample_node :: "nat list option \<Rightarrow> attr \<Rightarrow> attr \<Rightarrow> mnode" where
  "sample_node ws base inner =
     \<lparr>mn_wrappers = ws, mn_plan = None, mn_format = None, mn_quant = None, mn_config = None,
      mn_base_model = base, mn_model = Missing, mn_module = inner\<rparr>"

text \<open>A PEFT model: the wrappers hang on its \<open>base_model\<close>, which points back to it.\<close>

definition sample_model :: "nat \<Rightarrow> nat kt_model" where
  "sample_model x =
     \<lparr>km_nodes = [(0, sample_node None (Ref 1) Missing), (1, sample_node (Some [0]) (Ref 0) Missing)],
      km_wrappers = [sample_wrapper x], km_root = 0\<rparr>"

definition sample_bundle :: "string \<Rightarrow> bundle_content tree" where
  "sample_bundle standard =
     [([''o''], Dir 0 False), ([''o'', adapter_config], File 9 (Doc (VObject []))),
      ([''o'', standard], File 4 (Tensors [(''base_model.q.lora_A.weight'', sample_param [2, 4] 70)]))]"

definition sample_tokens :: tokens where
  "sample_tokens = \<lparr>tk_stage = ''s'', tk_fused = ''f'', tk_manifest = ''m'', tk_generation = ''g''\<rparr>"

definition sample_save :: "nat kt_model \<Rightarrow> (nat \<Rightarrow> io) \<Rightarrow> string \<Rightarrow> adapter_manifest_view option result \<times> bundle_content disk" where
  "sample_save m io standard =
     save_kt_adapter_artifacts sample_io io sample_tokens m ''/o'' \<lparr>dk_tree = sample_bundle standard, dk_tick = 0\<rparr>"

end
