(* ===== verification/AdapterPublish.thy ===== *)
theory AdapterPublish
  imports AdapterSample FullWeightsSave
begin

text \<open>
  Saving an adapter is atomic for a reader of the manifest: whatever operation fails, the bundle has no
  manifest, or was not touched, or has a manifest whose records describe the files that are there.
\<close>

section \<open>Writing confined to a set of paths\<close>

text \<open>Every entry is as before, or it is one of \<open>W\<close> and is a file or absent.\<close>

definition confined :: "path set \<Rightarrow> 'c tree \<Rightarrow> 'c tree \<Rightarrow> bool" where
  "confined W fs fs' \<longleftrightarrow>
     (\<forall>q. dget fs' q = dget fs q \<or> q \<in> W \<and> (dget fs' q = None \<or> (\<exists>n c. dget fs' q = Some (File n c))))"

lemma confined_refl [simp]: "confined W fs fs"
  by (simp add: confined_def)

lemma confined_trans: "confined W fs fs' \<Longrightarrow> confined W fs' fs'' \<Longrightarrow> confined W fs fs''"
  unfolding confined_def by metis

lemma confined_mono: "confined W fs fs' \<Longrightarrow> W \<subseteq> W' \<Longrightarrow> confined W' fs fs'"
  unfolding confined_def by blast

lemma confined_dset: "q \<in> W \<Longrightarrow> confined W fs (dset fs q (File n c))"
  by (simp add: confined_def)

lemma confined_ddel: "q \<in> W \<Longrightarrow> confined W fs (ddel fs q)"
  by (simp add: confined_def)

lemma confined_outside: "confined W fs fs' \<Longrightarrow> q \<notin> W \<Longrightarrow> dget fs' q = dget fs q"
  unfolding confined_def by blast

text \<open>A directory reached without links, none of whose children is a link.\<close>

definition own_dir :: "'c tree \<Rightarrow> path \<Rightarrow> bool" where
  "own_dir fs dir \<longleftrightarrow> real_path fs dir \<and> (\<forall>x t. dget fs (dir @ [x]) \<noteq> Some (Link t))"

definition entries_of :: "path \<Rightarrow> string set \<Rightarrow> path set" where
  "entries_of dir names = {dir @ [x] |x. x \<in> names}"

lemma entries_ofI: "x \<in> names \<Longrightarrow> dir @ [x] \<in> entries_of dir names"
  by (auto simp: entries_of_def)

lemma entries_of_length: "q \<in> entries_of dir names \<Longrightarrow> length q = Suc (length dir)"
  by (auto simp: entries_of_def)

lemma real_path_confined:
  "real_path fs dir \<Longrightarrow> confined W fs fs' \<Longrightarrow> (\<And>k. k \<le> length dir \<Longrightarrow> take k dir \<notin> W) \<Longrightarrow> real_path fs' dir"
  unfolding real_path_def by (metis confined_outside)

lemma own_dir_confined:
  assumes "own_dir fs dir" "confined W fs fs'" "\<And>k. k \<le> length dir \<Longrightarrow> take k dir \<notin> W"
  shows "own_dir fs' dir"
proof -
  have "dget fs' (dir @ [x]) \<noteq> Some (Link t)" for x t
  proof -
    from assms(2) have "dget fs' (dir @ [x]) = dget fs (dir @ [x]) \<or> dget fs' (dir @ [x]) = None \<or> (\<exists>n c. dget fs' (dir @ [x]) = Some (File n c))"
      unfolding confined_def by blast
    then show ?thesis using assms(1) unfolding own_dir_def by auto
  qed
  with assms(1) real_path_confined [OF _ assms(2,3)] show ?thesis unfolding own_dir_def by blast
qed

lemma own_resolve: "own_dir fs dir \<Longrightarrow> resolve fs dir = dir"
  by (simp add: own_dir_def real_path_resolve)

lemma own_child:
  assumes "own_dir fs dir"
  shows "resolve fs (dir @ [x]) = dir @ [x]" "phys fs (dir @ [x]) = dir @ [x]"
    "stat fs (dir @ [x]) = dget fs (dir @ [x])" "lstat fs (dir @ [x]) = dget fs (dir @ [x])"
proof -
  have r: "resolve fs dir = dir" using assms by (rule own_resolve)
  then show p: "phys fs (dir @ [x]) = dir @ [x]" by (simp add: phys_def)
  have "link_target fs (dir @ [x]) = None"
    using assms by (auto simp: own_dir_def link_target_def split: option.split node.split)
  then show q: "resolve fs (dir @ [x]) = dir @ [x]" using resolve_child [OF r] by simp
  show "stat fs (dir @ [x]) = dget fs (dir @ [x])" "lstat fs (dir @ [x]) = dget fs (dir @ [x])"
    by (simp_all add: stat_def lstat_def p q)
qed

section \<open>Each operation is confined\<close>

lemma put_file_confined:
  assumes "own_dir fs dir" "put_file (dir @ [x]) doc fs = Inr fs'" "dir @ [x] \<in> W"
  shows "confined W fs fs'" "dget fs' (dir @ [x]) = Some (File (fst doc) (snd doc))"
  using assms own_child [OF assms(1), where x = x] own_resolve [OF assms(1)]
  by (auto simp: put_file_def confined_dset split: option.splits node.splits if_splits)

lemma truncated_confined: "own_dir fs dir \<Longrightarrow> dir @ [x] \<in> W \<Longrightarrow> confined W fs (truncated (dir @ [x]) cd fs)"
  by (auto simp: truncated_def split: sum.split intro: put_file_confined)

lemma create_file_confined:
  "own_dir fs dir \<Longrightarrow> create_file (dir @ [x]) n c fs = Inr fs' \<Longrightarrow> dir @ [x] \<in> W \<Longrightarrow> confined W fs fs'"
  using own_child [of fs dir, where x = x] by (auto simp: create_file_def confined_dset split: if_splits)

lemma unlink_confined:
  "own_dir fs dir \<Longrightarrow> unlink (dir @ [x]) fs = Inr fs' \<Longrightarrow> dir @ [x] \<in> W \<Longrightarrow> confined W fs fs'"
  using own_child [of fs dir, where x = x] by (auto simp: unlink_def confined_ddel split: option.splits node.splits)

lemma replace_file_confined:
  assumes "resolve fs dir = dir" "resolve fs dir' = dir'" "replace_file (dir @ [x]) (dir' @ [y]) fs = Inr fs'"
    "dir @ [x] \<in> W" "dir' @ [y] \<in> W"
  shows "confined W fs fs'"
proof -
  from assms(1-3) obtain n c where "fs' = dset (ddel fs (dir @ [x])) (dir' @ [y]) (File n c)"
    by (auto simp: replace_file_def phys_def lstat_def split: option.splits node.splits)
  then show ?thesis
    using confined_trans [OF confined_ddel [OF assms(4), of fs] confined_dset [OF assms(5)]] by simp
qed

text \<open>Operations on the disk keep \<open>confined W fs0\<close> when their effects do.\<close>

definition stays :: "path set \<Rightarrow> 'c tree \<Rightarrow> ('c disk, 'a) eop \<Rightarrow> bool" where
  "stays W fs0 m \<longleftrightarrow>
     etriple (\<lambda>d. confined W fs0 (dk_tree d)) m (\<lambda>_ d. confined W fs0 (dk_tree d)) (\<lambda>d. confined W fs0 (dk_tree d))"

lemma staysD: "stays W fs0 m \<Longrightarrow> confined W fs0 (dk_tree d) \<Longrightarrow> confined W fs0 (dk_tree (snd (m d)))"
  unfolding stays_def by (rule etriple_both [of "\<lambda>d. confined W fs0 (dk_tree d)" m "\<lambda>d. confined W fs0 (dk_tree d)" d])

lemma staysI: "(\<And>d. confined W fs0 (dk_tree d) \<Longrightarrow> confined W fs0 (dk_tree (snd (m d)))) \<Longrightarrow> stays W fs0 m"
  unfolding stays_def etriple_def by (intro allI impI) (simp add: case_prod_beta split: sum.split)

lemma stays_ebind: "stays W fs0 m \<Longrightarrow> (\<And>a. stays W fs0 (k a)) \<Longrightarrow> stays W fs0 (ebind m k)"
  unfolding stays_def by (rule etriple_ebind)

lemma stays_pure:
  "stays W fs0 (ereturn a)" "stays W fs0 (eraise e)" "stays W fs0 (elift r)" "stays W fs0 (egets g)"
  "stays W fs0 (eassert b e)" "stays W fs0 (disk_query f)"
  by (auto simp: stays_def etriple_def ereturn_def eraise_def elift_def egets_def eassert_def disk_query_def
      split: sum.split)

lemma stays_disk_op:
  assumes "\<And>fs fs'. confined W fs0 fs \<Longrightarrow> f fs = Inr fs' \<Longrightarrow> confined W fs0 fs'"
    "\<And>fs. confined W fs0 fs \<Longrightarrow> confined W fs0 (g fs)"
  shows "stays W fs0 (disk_op io f g)"
  using assms by (intro staysI) (auto simp: disk_op_def Let_def split: sum.split io.split)

lemma stays_fsync: "stays W fs0 (fsync io)"
  unfolding fsync_def by (rule stays_disk_op) auto

lemmas stays_rules = stays_ebind stays_pure stays_fsync

section \<open>The writers stay in the staging directory\<close>

text \<open>A staging directory is reached without links, no part of the way to it is written, and at first it is empty.\<close>

definition stage_for :: "path set \<Rightarrow> 'c tree \<Rightarrow> path \<Rightarrow> bool" where
  "stage_for W fs0 stage \<longleftrightarrow> own_dir fs0 stage \<and> (\<forall>k \<le> length stage. take k stage \<notin> W)"

definition vacant :: "'c tree \<Rightarrow> path \<Rightarrow> bool" where
  "vacant fs0 stage \<longleftrightarrow> (\<forall>x. dget fs0 (stage @ [x]) = None)"

lemma stage_own: "stage_for W fs0 stage \<Longrightarrow> confined W fs0 fs \<Longrightarrow> own_dir fs stage"
  unfolding stage_for_def using own_dir_confined by blast

lemma stage_entry: "vacant fs0 stage \<Longrightarrow> confined W fs0 fs \<Longrightarrow> dmem fs (stage @ [x]) \<Longrightarrow> stage @ [x] \<in> W"
  unfolding vacant_def confined_def by (metis dget_None_iff)

lemma stage_iterdir:
  "stage_for W fs0 stage \<Longrightarrow> vacant fs0 stage \<Longrightarrow> confined W fs0 fs \<Longrightarrow> x \<in> set (iterdir fs stage) \<Longrightarrow> stage @ [x] \<in> W"
  using stage_own [of W fs0 stage fs] own_resolve [of fs stage] stage_entry [of fs0 stage W fs x]
  by (simp add: iterdir_def children_mem)

lemma stays_put_file:
  assumes "stage_for W fs0 stage" "stage @ [x] \<in> W"
  shows "stays W fs0 (disk_op io (put_file (stage @ [x]) doc) (truncated (stage @ [x]) cd))"
proof (rule stays_disk_op)
  fix fs fs' assume c: "confined W fs0 fs" "put_file (stage @ [x]) doc fs = Inr fs'"
  from put_file_confined(1) [OF stage_own [OF assms(1) c(1)] c(2) assms(2)] c(1) show "confined W fs0 fs'"
    using confined_trans by blast
next
  fix fs assume c: "confined W fs0 fs"
  from truncated_confined [OF stage_own [OF assms(1) c] assms(2)] c show "confined W fs0 (truncated (stage @ [x]) cd fs)"
    using confined_trans by blast
qed

lemma stays_simple_op:
  assumes "\<And>fs fs'. own_dir fs stage \<Longrightarrow> f fs = Inr fs' \<Longrightarrow> confined W fs fs'" "stage_for W fs0 stage"
  shows "stays W fs0 (disk_op io f id)"
  using assms stage_own confined_trans by (intro stays_disk_op) (auto, blast)

lemma stays_create_file:
  "stage_for W fs0 stage \<Longrightarrow> stage @ [x] \<in> W \<Longrightarrow> stays W fs0 (disk_op io (create_file (stage @ [x]) n c) id)"
  by (rule stays_simple_op) (rule create_file_confined)

lemma stays_unlink: "stage_for W fs0 stage \<Longrightarrow> stage @ [x] \<in> W \<Longrightarrow> stays W fs0 (disk_op io (unlink (stage @ [x])) id)"
  by (rule stays_simple_op) (rule unlink_confined)

lemma stays_replace_file:
  "stage_for W fs0 stage \<Longrightarrow> stage @ [x] \<in> W \<Longrightarrow> stage @ [y] \<in> W \<Longrightarrow>
     stays W fs0 (disk_op io (replace_file (stage @ [x]) (stage @ [y])) id)"
  by (rule stays_simple_op) (rule replace_file_confined [OF own_resolve own_resolve])

lemma stays_unlink_temp:
  assumes "stage_for W fs0 stage" "stage @ [x] \<in> W"
  shows "stays W fs0 (unlink_temp io (stage @ [x]))"
proof (rule staysI)
  fix d :: "_ disk" assume "confined W fs0 (dk_tree d)"
  then show "confined W fs0 (dk_tree (snd (unlink_temp io (stage @ [x]) d)))"
    using staysD [OF stays_unlink [OF assms, of io], of d] by (simp add: unlink_temp_def)
qed

lemma stays_finally_remove:
  assumes "stage_for W fs0 stage" "stage @ [x] \<in> W" "stays W fs0 body"
  shows "stays W fs0 (finally_remove io (stage @ [x]) body)"
proof (rule staysI)
  fix d :: "_ disk" assume d: "confined W fs0 (dk_tree d)"
  obtain r d' where b: "body d = (r, d')" by force
  obtain r' d'' where u: "unlink_temp io (stage @ [x]) d' = (r', d'')" by force
  have "confined W fs0 (dk_tree d')" using staysD [OF assms(3) d] b by simp
  with staysD [OF stays_unlink_temp [OF assms(1,2)], of d' io] u have "confined W fs0 (dk_tree d'')" by simp
  then show "confined W fs0 (dk_tree (snd (finally_remove io (stage @ [x]) body d)))"
    using b u by (simp add: finally_remove_def split: sum.split)
qed

lemma stays_copy_file:
  assumes "stage_for W fs0 stage" "stage @ [x] \<in> W"
  shows "stays W fs0 (disk_op io (copy_file src (stage @ [x])) (truncated (stage @ [x]) cd))"
proof (rule stays_disk_op)
  fix fs fs' assume c: "confined W fs0 fs" "copy_file src (stage @ [x]) fs = Inr fs'"
  then obtain doc where "put_file (stage @ [x]) doc fs = Inr fs'"
    by (auto simp: copy_file_def split: option.splits node.splits)
  from put_file_confined(1) [OF stage_own [OF assms(1) c(1)] this assms(2)] c(1) show "confined W fs0 fs'"
    using confined_trans by blast
next
  fix fs assume c: "confined W fs0 fs"
  from truncated_confined [OF stage_own [OF assms(1) c] assms(2)] c show "confined W fs0 (truncated (stage @ [x]) cd fs)"
    using confined_trans by blast
qed

lemma stays_if: "stays W fs0 m \<Longrightarrow> stays W fs0 m' \<Longrightarrow> stays W fs0 (if b then m else m')"
  by simp

lemma stays_lora_experts:
  "stage_for W fs0 stage \<Longrightarrow> stage @ [safetensors_adapter] \<in> W \<Longrightarrow> stays W fs0 (save_lora_experts_to_adapter ai io ws stage)"
  unfolding save_lora_experts_to_adapter_def Let_def
  by (intro stays_if stays_rules stays_put_file)

lemma stays_fused:
  assumes "stage_for W fs0 stage" "stage @ [fused_file] \<in> W" "stage @ [fused_temp (tk_fused tk)] \<in> W"
  shows "stays W fs0 (save_fused_expert_lora ai io tk ws stage)"
  unfolding save_fused_expert_lora_def Let_def
  by (intro stays_if stays_rules stays_create_file stays_finally_remove stays_put_file stays_replace_file assms)

section \<open>The full-weight shards\<close>

text \<open>No name is added that is neither the index nor one of the new generation.\<close>

definition never :: "string \<Rightarrow> ('a sv, 'b) eop \<Rightarrow> bool" where
  "never n m \<longleftrightarrow>
     etriple (\<lambda>s. \<not> dmem (sv_dir s) n) m (\<lambda>_ s. \<not> dmem (sv_dir s) n) (\<lambda>s. \<not> dmem (sv_dir s) n)"

lemma never_ebind: "never n m \<Longrightarrow> (\<And>a. never n (k a)) \<Longrightarrow> never n (ebind m k)"
  unfolding never_def by (rule etriple_ebind)

lemma never_pure: "never n (ereturn a)" "never n (elift r)" "never n (eassert b e)" "never n (egets g)"
  by (auto simp: never_def etriple_def ereturn_def elift_def eassert_def egets_def split: sum.split)

lemma never_upd: "(\<And>s. sv_dir (f s) = sv_dir s) \<Longrightarrow> never n (eupd f)"
  by (simp add: never_def etriple_def eupd_def)

lemma never_io:
  assumes "\<And>dir dir'. \<not> dmem dir n \<Longrightarrow> f dir = Inr dir' \<Longrightarrow> \<not> dmem dir' n" "\<And>dir. \<not> dmem dir n \<Longrightarrow> \<not> dmem (g dir) n"
  shows "never n (io_op io f g)"
  unfolding never_def by (rule etriple_io) (use assms in auto)

lemma never_write: "t \<noteq> n \<Longrightarrow> never n (io_write io t m c)"
  unfolding io_write_def by (rule never_io) (auto dest: write_Inr)

lemma never_replace: "t \<noteq> n \<Longrightarrow> never n (io_replace io src t)"
  unfolding io_replace_def by (rule never_io) (auto dest!: replace_Inr)

lemma never_idle: "never n (io_op io Inr id)"
  by (rule never_io) auto

lemma new_name_differs:
  "n \<notin> new_names gen \<Longrightarrow> shard_temp gen i \<noteq> n \<and> shard_name gen i \<noteq> n \<and> index_temp gen \<noteq> n"
  by (auto simp: new_names_def)

lemma never_save_layer: "n \<notin> new_names gen \<Longrightarrow> never n (save_layer io sz gen w)"
  unfolding save_layer_def Let_def
  by (intro never_ebind never_pure never_upd never_write never_replace never_idle) (simp_all add: new_name_differs)

lemma never_save_layers: "n \<notin> new_names gen \<Longrightarrow> never n (save_layers io sz gen ws)"
  by (induction ws) (auto intro: never_ebind never_pure never_save_layer)

lemma never_save_index: "n \<notin> new_names gen \<Longrightarrow> n \<noteq> index_name \<Longrightarrow> never n (save_index io gen)"
  unfolding save_index_def
  by (intro never_ebind never_pure never_upd never_write never_replace) (simp_all add: new_name_differs)

lemma remove_absent: "cd_remove rm x dir = Inr dir' \<Longrightarrow> \<not> dmem dir n \<Longrightarrow> \<not> dmem dir' n"
  by (auto simp: cd_remove_def split: option.splits centry.splits if_splits)

lemma remove_all_absent: "\<not> dmem dir n \<Longrightarrow> \<not> dmem (snd (remove_all rm names dir)) n"
  by (induction rm names dir rule: remove_all.induct) (auto split: sum.split exn.split dest: remove_absent)

lemma drop_absent: "\<not> dmem dir n \<Longrightarrow> \<not> dmem (drop_superseded rm created e dir) n"
  by (auto simp: drop_superseded_def split: jentry.split sum.split dest: remove_absent)

lemma superseded_absent: "\<not> dmem dir n \<Longrightarrow> \<not> dmem (fold (drop_superseded rm created) es dir) n"
  by (induction es arbitrary: dir) (simp_all add: drop_absent)

lemma save_full_names:
  assumes "save_full_weight_checkpoint rank io rm sz gen ws dir = (r, dir')" "dmem dir' n"
  shows "dmem dir n \<or> n \<in> insert index_name (new_names gen)"
proof (rule ccontr)
  assume n: "\<not> (dmem dir n \<or> n \<in> insert index_name (new_names gen))"
  let ?s0 = "\<lparr>sv_dir = dir, sv_tick = 0, sv_temps = [], sv_created = [], sv_entries = [], sv_seen = []\<rparr>"
  let ?m = "ebind (save_layers io sz gen (sort_key cw_layer_idx (filter cw_full ws))) (\<lambda>_. save_index io gen)"
  obtain res s where run: "?m ?s0 = (res, s)" by fastforce
  have "never n ?m" using n by (intro never_ebind never_save_layers never_save_index) auto
  moreover have "\<not> dmem (sv_dir ?s0) n" using n by simp
  ultimately have s: "\<not> dmem (sv_dir s) n"
    using run etriple_both [of "\<lambda>s. \<not> dmem (sv_dir s) n" ?m "\<lambda>s. \<not> dmem (sv_dir s) n" ?s0] unfolding never_def by simp
  show False
  proof (cases "filter cw_full ws = [] \<or> rank \<noteq> 0")
    case True
    with assms n show False by (auto simp: save_full_weight_checkpoint_def)
  next
    case False
    then have "dir' = snd (remove_all rm (sv_temps s @ sv_created s) (sv_dir s)) \<or>
        dir' = fold (drop_superseded rm (sv_created s)) (previous_entries dir) (sv_dir s)"
      using assms(1) run by (auto simp: save_full_weight_checkpoint_def split: sum.splits prod.splits option.splits)
    with s assms(2) remove_all_absent superseded_absent show False by metis
  qed
qed

lemma drop_entries_confined:
  assumes "stage_for W fs0 stage" "\<forall>x \<in> set names. stage @ [x] \<in> W" "confined W fs0 fs"
  shows "confined W fs0 (drop_entries stage names fs)"
  using assms(2,3)
proof (induction names arbitrary: fs)
  case (Cons x names)
  have "confined W fs0 (ddel fs (phys fs (stage @ [x])))"
    using confined_trans [OF Cons.prems(2) confined_ddel] Cons.prems(1) own_child(2) [OF stage_own [OF assms(1) Cons.prems(2)]] by simp
  with Cons show ?case by (simp add: drop_entries_def)
qed (simp add: drop_entries_def)

lemma store_entries_confined:
  assumes "stage_for W fs0 stage"
  shows "\<forall>x. dmem es x \<longrightarrow> stage @ [x] \<in> W \<Longrightarrow> confined W fs0 fs \<Longrightarrow> confined W fs0 (store_entries ai stage view es fs)"
proof (induction es arbitrary: fs)
  case (Cons p es)
  obtain x e where p: "p = (x, e)" by force
  have x: "stage @ [x] \<in> W" and es: "\<forall>x. dmem es x \<longrightarrow> stage @ [x] \<in> W" using Cons.prems(1) unfolding p by auto
  note ph = own_child(2) [OF stage_own [OF assms Cons.prems(2)], where x = x]
  have set: "confined W fs0 (dset fs (stage @ [x]) (File n c))" for n c
    using confined_trans [OF Cons.prems(2) confined_dset [OF x]] .
  from Cons.IH [OF es Cons.prems(2)] Cons.IH [OF es set] show ?case unfolding p by (simp add: ph split: centry.split)
qed simp

lemma stays_save_full:
  assumes "stage_for W fs0 stage" "vacant fs0 stage" "\<And>n. n \<in> insert index_name (new_names (tk_generation tk)) \<Longrightarrow> stage @ [n] \<in> W"
  shows "stays W fs0 (save_full ai tk ws stage)"
proof (rule staysI)
  fix d :: "_ disk" assume d: "confined W fs0 (dk_tree d)"
  let ?view = "dir_view ai (dk_tree d) stage"
  let ?full = "concat (map (\<lambda>w. case aw_full w of Some c \<Rightarrow> [c] | None \<Rightarrow> []) ws)"
  obtain r view' where s: "save_full_weight_checkpoint (ai_rank ai) (ai_full_io ai) (ai_full_remove ai) (ai_full_size ai)
      (tk_generation tk) ?full ?view = (r, view')" by force
  have old: "stage @ [n] \<in> W" if "dmem ?view n" for n
    using stage_iterdir [OF assms(1,2) d, of n] that by (auto simp: dir_view_def dmem_def dkeys_def)
  have new: "stage @ [n] \<in> W" if "dmem view' n" for n
    using save_full_names [OF s that] old assms(3) by blast
  have "confined W fs0 (store_view ai stage view' (dk_tree d))"
    unfolding store_view_def Let_def
    by (intro store_entries_confined [OF assms(1)] drop_entries_confined [OF assms(1)] d)
      (auto simp: dmem_iff [symmetric] intro: old new)
  then show "confined W fs0 (dk_tree (snd (save_full ai tk ws stage d)))"
    using s by (simp add: save_full_def Let_def split: sum.split)
qed

lemma stays_moe:
  assumes "stage_for W fs0 stage"
    "stage @ [safetensors_adapter] \<in> W" "stage @ [fused_file] \<in> W" "stage @ [fused_temp (tk_fused tk)] \<in> W"
    "(\<forall>i \<in> set (lora_wrappers m). aw_full (wrapper_at m i) = None) \<or>
     vacant fs0 stage \<and> (\<forall>n \<in> insert index_name (new_names (tk_generation tk)). stage @ [n] \<in> W)"
  shows "stays W fs0 (save_kt_moe_to_adapter ai io tk m stage)"
proof -
  let ?ws = "map (wrapper_at m) (lora_wrappers m)"
  have "stays W fs0 (if list_ex (\<lambda>w. case aw_full w of Some c \<Rightarrow> cw_full c | None \<Rightarrow> False) ?ws then save_full ai tk ?ws stage else ereturn ())"
    using assms(5)
  proof
    assume "\<forall>i \<in> set (lora_wrappers m). aw_full (wrapper_at m i) = None"
    then have "\<not> list_ex (\<lambda>w. case aw_full w of Some c \<Rightarrow> cw_full c | None \<Rightarrow> False) ?ws" by (auto simp: list_ex_iff)
    then show ?thesis by (simp add: stays_pure)
  next
    assume "vacant fs0 stage \<and> (\<forall>n \<in> insert index_name (new_names (tk_generation tk)). stage @ [n] \<in> W)"
    then have v: "vacant fs0 stage" and n: "\<And>n. n \<in> insert index_name (new_names (tk_generation tk)) \<Longrightarrow> stage @ [n] \<in> W" by blast+
    show ?thesis by (intro stays_if stays_pure stays_save_full assms(1) v n)
  qed
  note full = this
  show ?thesis
    unfolding save_kt_moe_to_adapter_def Let_def
    by (rule stays_if [OF stays_pure(1)], rule stays_ebind [OF full])
      (intro stays_if stays_ebind stays_pure stays_lora_experts stays_fused assms(1-4))
qed

section \<open>Publishing\<close>

lemma stays_etriple: "stays W fs0 m \<Longrightarrow> (\<And>d. confined W fs0 (dk_tree d) \<Longrightarrow> E d) \<Longrightarrow>
    etriple (\<lambda>d. confined W fs0 (dk_tree d)) m (\<lambda>_ d. confined W fs0 (dk_tree d)) E"
  unfolding stays_def by (erule etriple_weaken) auto

lemma etriple_fact: "(F \<Longrightarrow> etriple P m Q E) \<Longrightarrow> etriple (\<lambda>s. P s \<and> F) m Q E"
  by (auto simp: etriple_def)

lemma etriple_require: "(\<And>d. P d \<Longrightarrow> E d) \<Longrightarrow> etriple P (elift (require b e)) (\<lambda>_ d. P d \<and> b) E"
  by (simp add: etriple_def elift_def require_def)

lemma etriple_query:
  "(\<And>d. P d \<Longrightarrow> E d) \<Longrightarrow> etriple P (disk_query f) (\<lambda>a d. P d \<and> f (dk_tree d) = Inr a) E"
  by (auto simp: etriple_def disk_query_def split: sum.split)

text \<open>The paths that one save writes before the manifest: some names, in the staging directory and in the bundle.\<close>

definition both_dirs :: "path \<Rightarrow> path \<Rightarrow> string set \<Rightarrow> path set" where
  "both_dirs stage output names = entries_of stage names \<union> entries_of output names"

lemma both_dirs_iff [simp]:
  "stage @ [x] \<in> both_dirs stage output names \<longleftrightarrow> x \<in> names \<or> (\<exists>y \<in> names. stage @ [x] = output @ [y])"
  "output @ [x] \<in> both_dirs stage output names \<longleftrightarrow> x \<in> names \<or> (\<exists>y \<in> names. output @ [x] = stage @ [y])"
  by (auto simp: both_dirs_def entries_of_def)

lemma both_dirs_short:
  assumes "stage = output @ [s]" "s \<notin> names"
  shows "k \<le> length stage \<Longrightarrow> take k stage \<notin> both_dirs stage output names"
    "k \<le> length output \<Longrightarrow> take k output \<notin> both_dirs stage output names"
proof -
  have len: "length q = Suc (length stage) \<or> q \<noteq> stage \<and> length q = Suc (length output)"
    if "q \<in> both_dirs stage output names" for q
    using that assms by (auto simp: both_dirs_def entries_of_def)
  show "take k stage \<notin> both_dirs stage output names" if "k \<le> length stage"
    using len [of "take k stage"] that assms(1) by (cases "k = length stage") auto
  show "take k output \<notin> both_dirs stage output names" if "k \<le> length output"
    using len [of "take k output"] that assms(1) by auto
qed

lemma stays_move:
  assumes "stage_for W fs0 stage" "real_path fs0 output" "\<And>k. k \<le> length output \<Longrightarrow> take k output \<notin> W"
  shows "\<forall>x \<in> set names. stage @ [x] \<in> W \<and> output @ [x] \<in> W \<Longrightarrow> stays W fs0 (move_entries io stage output names)"
proof (induction names)
  case (Cons x names)
  have "stays W fs0 (disk_op io (replace_file (stage @ [x]) (output @ [x])) id)"
  proof (rule stays_disk_op)
    fix fs fs' assume c: "confined W fs0 fs" and r: "replace_file (stage @ [x]) (output @ [x]) fs = Inr fs'"
    have "resolve fs stage = stage" "resolve fs output = output"
      using own_resolve [OF stage_own [OF assms(1) c]] real_path_resolve [OF real_path_confined [OF assms(2) c assms(3)]] by auto
    from replace_file_confined [OF this r] Cons.prems c show "confined W fs0 fs'"
      using confined_trans by (metis list.set_intros(1))
  qed simp
  moreover have "stays W fs0 (move_entries io stage output names)" using Cons by simp
  ultimately show ?case unfolding move_entries.simps by (intro stays_ebind)
qed (unfold move_entries.simps, rule stays_pure(1))

text \<open>Moving keeps the contents, and operations that only synchronize keep the tree.\<close>

lemma move_entries_contents:
  assumes "stage_for W fs0 stage" "real_path fs0 output" "\<And>k. k \<le> length output \<Longrightarrow> take k output \<notin> W"
    and stage: "stage = output @ [s]"
  shows "move_entries io stage output names d = (Inr u, d') \<Longrightarrow> confined W fs0 (dk_tree d) \<Longrightarrow>
    \<forall>x \<in> set names. stage @ [x] \<in> W \<and> output @ [x] \<in> W \<Longrightarrow>
    (\<forall>x \<in> set names. (\<exists>n c. dget (dk_tree d) (stage @ [x]) = Some (File n c)) \<and>
        dget (dk_tree d') (output @ [x]) = dget (dk_tree d) (stage @ [x])) \<and>
    (\<forall>z. z \<notin> set names \<longrightarrow> dget (dk_tree d') (output @ [z]) = dget (dk_tree d) (output @ [z]))"
proof (induction names arbitrary: d)
  case (Cons x names)
  let ?op = "disk_op io (replace_file (stage @ [x]) (output @ [x])) id"
  from Cons.prems(1) obtain d1 where op: "?op d = (Inr (), d1)" and rest: "move_entries io stage output names d1 = (Inr u, d')"
    by (auto simp: ebind_eq_Inr)
  have r: "replace_file (stage @ [x]) (output @ [x]) (dk_tree d) = Inr (dk_tree d1)" using disk_op_cases(1) [OF op] .
  have dirs: "resolve (dk_tree d) stage = stage" "resolve (dk_tree d) output = output"
    using own_resolve [OF stage_own [OF assms(1) Cons.prems(2)]]
      real_path_resolve [OF real_path_confined [OF assms(2) Cons.prems(2) assms(3)]] by auto
  obtain n c where f: "dget (dk_tree d) (stage @ [x]) = Some (File n c)"
    and t: "dk_tree d1 = dset (ddel (dk_tree d) (stage @ [x])) (output @ [x]) (File n c)"
    using r dirs by (auto simp: replace_file_def phys_def lstat_def split: option.splits node.splits)
  have c1: "confined W fs0 (dk_tree d1)"
    using confined_trans [OF Cons.prems(2) replace_file_confined [OF dirs r]] Cons.prems(3) by simp
  from Cons.IH [OF rest c1] Cons.prems(3)
  have IH: "\<forall>y \<in> set names. (\<exists>n c. dget (dk_tree d1) (stage @ [y]) = Some (File n c)) \<and>
        dget (dk_tree d') (output @ [y]) = dget (dk_tree d1) (stage @ [y])"
    "\<forall>z. z \<notin> set names \<longrightarrow> dget (dk_tree d') (output @ [z]) = dget (dk_tree d1) (output @ [z])" by auto
  have new: "x \<notin> set names"
  proof
    assume "x \<in> set names"
    with IH(1) have "dget (dk_tree d1) (stage @ [x]) \<noteq> None" by auto
    then show False unfolding t by (simp add: stage)
  qed
  have other: "dget (dk_tree d1) (stage @ [y]) = dget (dk_tree d) (stage @ [y])" if "y \<noteq> x" for y
    using that unfolding t by (simp add: stage)
  have mid: "dget (dk_tree d1) (output @ [z]) = dget (dk_tree d) (output @ [z])" if "z \<noteq> x" for z
    using that unfolding t by (auto simp: stage)
  show ?case
  proof (intro conjI ballI allI impI)
    fix y assume y: "y \<in> set (x # names)"
    show "\<exists>n c. dget (dk_tree d) (stage @ [y]) = Some (File n c)" using y f IH(1) other new by (cases "y = x") auto
    show "dget (dk_tree d') (output @ [y]) = dget (dk_tree d) (stage @ [y])"
    proof (cases "y = x")
      case True
      with IH(2) new f show ?thesis unfolding t by simp
    next
      case False
      with y IH(1) other [OF False] show ?thesis by simp
    qed
  next
    fix z assume "z \<notin> set (x # names)"
    with IH(2) mid show "dget (dk_tree d') (output @ [z]) = dget (dk_tree d) (output @ [z])" by simp
  qed
qed simp

lemma sync_tree: "dk_tree (snd (sync_entries io stage names d)) = dk_tree d"
proof (induction names arbitrary: d)
  case (Cons x names)
  obtain r d1 where f: "fsync io d = (r, d1)" by force
  have "dk_tree d1 = dk_tree d" using fsync_tree [of io d] f by simp
  with Cons [of d1] f show ?case by (auto simp: ebind_def eassert_def split: sum.split)
qed simp

lemma etriple_same_tree:
  fixes m :: "('c disk, 'a) eop"
  assumes "\<And>d. dk_tree (snd (m d)) = dk_tree d" "\<And>d. P (dk_tree d) \<Longrightarrow> E d"
  shows "etriple (\<lambda>d. P (dk_tree d)) m (\<lambda>_ d. P (dk_tree d)) E"
  unfolding etriple_def
proof (intro allI impI)
  fix d :: "'c disk" assume "P (dk_tree d)"
  then have "P (dk_tree (snd (m d)))" using assms(1) by simp
  with assms(2) show "case m d of (Inl _, d') \<Rightarrow> E d' | (Inr _, d') \<Rightarrow> P (dk_tree d')" by (auto split: prod.split sum.split)
qed

text \<open>A node that is a file with exactly the tensors of the contract.\<close>

definition fused_fits :: "'c codec \<Rightarrow> (string, tensor_meta) dict \<Rightarrow> 'c node option \<Rightarrow> bool" where
  "fused_fits cd contract node \<longleftrightarrow>
     (\<exists>n c actual. node = Some (File n c) \<and> cd_tensors cd c = Some actual \<and>
        set (dkeys actual) = set (dkeys contract) \<and> (\<forall>(key, t) \<in> set contract. dget actual key = Some t))"

text \<open>What a published manifest says of the tree in which it stands.\<close>

definition records_hold ::
  "'c codec \<Rightarrow> 'c tree \<Rightarrow> path \<Rightarrow> (string, tensor_meta) dict \<Rightarrow> (string, jvalue) dict \<Rightarrow> bool" where
  "records_hold cd fs output contract artifacts \<longleftrightarrow>
     (\<forall>name r. dget artifacts name = Some r \<longrightarrow>
        artifact_record cd fs (output @ [name]) (if name = fused_file then Some contract else None) = Inr r)"

lemma artifact_records_Inr:
  assumes "artifact_records cd fs output contract names as0 = Inr artifacts" "records_hold cd fs output contract as0"
  shows "records_hold cd fs output contract artifacts \<and> set (dkeys artifacts) = set (dkeys as0) \<union> set names"
  using assms
proof (induction names arbitrary: as0)
  case (Cons name names)
  then obtain r where r: "artifact_record cd fs (output @ [name]) (if name = fused_file then Some contract else None) = Inr r"
    and rest: "artifact_records cd fs output contract names (dset as0 name r) = Inr artifacts"
    by (auto simp: rbind_eq_Inr)
  have "records_hold cd fs output contract (dset as0 name r)"
    unfolding records_hold_def
  proof (intro allI impI)
    fix n q assume "dget (dset as0 name r) n = Some q"
    with Cons.prems(2) r show "artifact_record cd fs (output @ [n]) (if n = fused_file then Some contract else None) = Inr q"
      unfolding records_hold_def by (cases "name = n") simp_all
  qed
  from Cons.IH [OF rest this] have "records_hold cd fs output contract artifacts"
    and "set (dkeys artifacts) = set (dkeys (dset as0 name r)) \<union> set names" by blast+
  then show ?case by (auto simp: dkeys_dset dmem_iff)
qed simp

lemma artifact_records_wf:
  "artifact_records cd fs output contract names as0 = Inr artifacts \<Longrightarrow> dwf as0 \<Longrightarrow> dwf artifacts"
  by (induction names arbitrary: as0) (auto simp: rbind_eq_Inr)

lemma artifact_record_Inr:
  "artifact_record cd fs p c = Inr r \<Longrightarrow> regular_file fs p"
  by (auto simp: artifact_record_def split: if_splits)

text \<open>A record depends on the file only.\<close>

lemma regular_child:
  "resolve fs dir = dir \<Longrightarrow> regular_file fs (dir @ [x]) \<longleftrightarrow> (\<exists>n c. dget fs (dir @ [x]) = Some (File n c))"
  "resolve fs dir = dir \<Longrightarrow> dget fs (dir @ [x]) = Some (File n c) \<Longrightarrow> stat fs (dir @ [x]) = Some (File n c)"
proof -
  assume d: "resolve fs dir = dir"
  have l: "lstat fs (dir @ [x]) = dget fs (dir @ [x])" using lstat_child [OF d] .
  have s: "stat fs (dir @ [x]) = dget fs (dir @ [x])" if "\<not> is_link fs (dir @ [x])"
    using that l resolve_child [OF d, of x] by (auto simp: stat_def is_link_def link_target_def split: option.splits node.splits)
  show "regular_file fs (dir @ [x]) \<longleftrightarrow> (\<exists>n c. dget fs (dir @ [x]) = Some (File n c))"
    using s l by (auto simp: regular_file_def is_file_def is_link_def split: option.splits node.splits)
  show "dget fs (dir @ [x]) = Some (File n c) \<Longrightarrow> stat fs (dir @ [x]) = Some (File n c)"
    using s l by (simp add: is_link_def)
qed

lemma validate_fused_child:
  assumes "resolve fs dir = dir"
  shows "validate_fused_file cd fs (dir @ [x]) contract = Inr () \<longleftrightarrow> fused_fits cd contract (dget fs (dir @ [x]))"
proof (cases "regular_file fs (dir @ [x])")
  case True
  then obtain n c where f: "dget fs (dir @ [x]) = Some (File n c)" using regular_child(1) [OF assms] by blast
  from regular_child(2) [OF assms f] True f show ?thesis
    by (auto simp: validate_fused_file_def open_shard_def fused_fits_def list_all_iff require_def rbind_eq_Inr split: option.splits if_splits)
next
  case False
  then show ?thesis using regular_child(1) [OF assms] by (auto simp: validate_fused_file_def fused_fits_def)
qed

lemma artifact_record_kept:
  assumes "artifact_record cd fs (dir @ [x]) c = Inr r" "resolve fs dir = dir" "resolve fs' dir = dir"
    "dget fs' (dir @ [x]) = dget fs (dir @ [x])"
  shows "artifact_record cd fs' (dir @ [x]) c = Inr r"
proof -
  obtain n d where f: "dget fs (dir @ [x]) = Some (File n d)"
    using artifact_record_Inr [OF assms(1)] regular_child(1) [OF assms(2)] by blast
  then have f': "dget fs' (dir @ [x]) = Some (File n d)" using assms(4) by simp
  have "stat fs (dir @ [x]) = Some (File n d)" "stat fs' (dir @ [x]) = Some (File n d)"
    "regular_file fs (dir @ [x])" "regular_file fs' (dir @ [x])"
    using regular_child [OF assms(2)] regular_child [OF assms(3)] f f' by blast+
  then have "sha256_file cd fs (dir @ [x]) = sha256_file cd fs' (dir @ [x])" "file_size fs (dir @ [x]) = file_size fs' (dir @ [x])"
    "regular_file fs (dir @ [x]) = regular_file fs' (dir @ [x])"
    by (simp_all add: sha256_file_def file_size_def)
  then have "artifact_record cd fs (dir @ [x]) c = artifact_record cd fs' (dir @ [x]) c" by (simp only: artifact_record_def)
  with assms(1) show ?thesis by (simp only:)
qed

definition bundle_payload :: "(string, jvalue) dict \<Rightarrow> (string, jvalue) dict \<Rightarrow> (string, jvalue) dict" where
  "bundle_payload provenance artifacts =
     [(''version'', VInt 1), (''status'', VStr ''ready'')] @ provenance @ [(''artifacts'', VObject artifacts)]"

text \<open>The tree in which the manifest stands, and the one just before it was written.\<close>

definition announced ::
  "path set \<Rightarrow> 'c tree \<Rightarrow> 'c codec \<Rightarrow> tokens \<Rightarrow> 'a kt_model \<Rightarrow> path \<Rightarrow> (string, tensor_meta) dict \<Rightarrow> load_plan option
     \<Rightarrow> string list \<Rightarrow> (string, jvalue) dict \<Rightarrow> 'c tree \<Rightarrow> bool" where
  "announced W fs2 cd tk m output contract plan names payload fs \<longleftrightarrow>
     (\<exists>fs3 artifacts provenance.
        confined W fs2 fs3 \<and>
        written (temp_path output adapter_manifest (tk_manifest tk)) (output @ [adapter_manifest]) (cd_json_file cd (VObject payload)) fs3 fs \<and>
        records_hold cd fs3 output contract artifacts \<and> set (dkeys artifacts) = insert adapter_config (set names) \<and> dwf artifacts \<and>
        adapter_provenance cd fs3 m plan = Inr provenance \<and> payload = bundle_payload provenance artifacts \<and>
        fused_fits cd contract (dget fs3 (output @ [fused_file])))"

definition produced_ok :: "path set \<Rightarrow> path \<Rightarrow> string list \<Rightarrow> string list \<Rightarrow> bool" where
  "produced_ok W stage keep names \<longleftrightarrow>
     fused_file \<in> set names \<and> set keep \<subseteq> set names \<and> (\<forall>x \<in> set names. stage @ [x] \<in> W)"

text \<open>The states in which a save can stop.\<close>

definition publishing ::
  "path set \<Rightarrow> 'c tree \<Rightarrow> 'c codec \<Rightarrow> tokens \<Rightarrow> 'a kt_model \<Rightarrow> path \<Rightarrow> path \<Rightarrow> (string, tensor_meta) dict \<Rightarrow> load_plan option
     \<Rightarrow> string list \<Rightarrow> 'c tree \<Rightarrow> bool" where
  "publishing W fs2 cd tk m output stage contract plan keep fs \<longleftrightarrow>
     confined W fs2 fs \<or>
     (\<exists>fs3. confined W fs2 fs3 \<and> only_temp (temp_path output adapter_manifest (tk_manifest tk)) fs3 fs) \<or>
     (\<exists>names payload. produced_ok W stage keep names \<and> announced W fs2 cd tk m output contract plan names payload fs)"

lemma write_manifest_triple:
  fixes fs2 :: "'c tree" and cd :: "'c codec"
  assumes out: "real_path fs2 output" "\<And>k. k \<le> length output \<Longrightarrow> take k output \<notin> W"
    and ok: "produced_ok W stage keep names"
  shows "etriple (\<lambda>d. (((confined W fs2 (dk_tree d) \<and> fused_fits cd contract (dget (dk_tree d) (output @ [fused_file]))) \<and>
        artifact_record cd (dk_tree d) (output @ [adapter_config]) None = Inr config_record) \<and>
        artifact_records cd (dk_tree d) output contract (sort names) [(adapter_config, config_record)] = Inr artifacts) \<and>
        adapter_provenance cd (dk_tree d) m plan = Inr provenance)
    (write_json_atomic cd io (tk_manifest tk) output adapter_manifest (bundle_payload provenance artifacts))
    (\<lambda>_ d. announced W fs2 cd tk m output contract plan names (bundle_payload provenance artifacts) (dk_tree d))
    (\<lambda>d. publishing W fs2 cd tk m output stage contract plan keep (dk_tree d))"
  unfolding etriple_def
proof (intro allI impI)
  fix d :: "'c disk"
  let ?P = "bundle_payload provenance artifacts" and ?fs = "dk_tree d"
  let ?w = "write_json_atomic cd io (tk_manifest tk) output adapter_manifest ?P"
  assume d: "(((confined W fs2 ?fs \<and> fused_fits cd contract (dget ?fs (output @ [fused_file]))) \<and> artifact_record cd ?fs (output @ [adapter_config]) None = Inr config_record) \<and>
        artifact_records cd ?fs output contract (sort names) [(adapter_config, config_record)] = Inr artifacts) \<and>
        adapter_provenance cd ?fs m plan = Inr provenance"
  have real: "real_path ?fs output" using real_path_confined [OF out(1) _ out(2)] d by blast
  have wf: "dwf artifacts" using artifact_records_wf [of cd ?fs "output" contract "sort names" "[(adapter_config, config_record)]"] d by simp
  have "records_hold cd ?fs output contract [(adapter_config, config_record)]"
    using d by (auto simp: records_hold_def adapter_config_def fused_file_def)
  with d artifact_records_Inr have records: "records_hold cd ?fs output contract artifacts"
    and keys: "set (dkeys artifacts) = insert adapter_config (set names)" by fastforce+
  obtain r d' where run: "?w d = (r, d')" by force
  have complete: "announced W fs2 cd tk m output contract plan names ?P (dk_tree d')"
    if "written (temp_path output adapter_manifest (tk_manifest tk)) (output @ [adapter_manifest]) (cd_json_file cd (VObject ?P)) ?fs (dk_tree d')"
    unfolding announced_def using that d records keys wf by blast
  from write_json_atomic_cases [OF run real]
  show "case ?w d of (Inl _, d') \<Rightarrow> publishing W fs2 cd tk m output stage contract plan keep (dk_tree d')
    | (Inr _, d') \<Rightarrow> announced W fs2 cd tk m output contract plan names ?P (dk_tree d')"
  proof
    assume "written (temp_path output adapter_manifest (tk_manifest tk)) (output @ [adapter_manifest]) (cd_json_file cd (VObject ?P)) ?fs (dk_tree d')"
    from complete [OF this] ok show ?thesis by (auto simp: run publishing_def split: sum.split)
  next
    assume "(\<exists>e. r = Inl e) \<and> only_temp (temp_path output adapter_manifest (tk_manifest tk)) ?fs (dk_tree d')"
    with d show ?thesis by (auto simp: run publishing_def)
  qed
qed

lemma publish_bundle_triple:
  fixes ai :: "('c, 'a) adapter_io"
  assumes stage: "stage_for W fs2 stage" "vacant fs2 stage"
    and out: "real_path fs2 output" "\<And>k. k \<le> length output \<Longrightarrow> take k output \<notin> W" and below: "stage = output @ [s]"
    and W: "stage @ [standard] \<in> W" "\<And>x. stage @ [x] \<in> W \<Longrightarrow> output @ [x] \<in> W"
    and moe: "etriple (\<lambda>d. confined W fs2 (dk_tree d) \<and> dmem (dk_tree d) (stage @ [standard]))
        (save_kt_moe_to_adapter ai io tk m stage)
        (\<lambda>_ d. confined W fs2 (dk_tree d) \<and> (\<forall>x \<in> set keep. dmem (dk_tree d) (stage @ [x])))
        (\<lambda>d. confined W fs2 (dk_tree d))"
  shows "etriple (\<lambda>d. dk_tree d = fs2) (publish_bundle ai io tk m output stage standard contract plan)
    (\<lambda>v d. am_path v = output @ [adapter_manifest] \<and>
       (\<exists>names. produced_ok W stage keep names \<and>
          announced W fs2 (codec.truncate ai) tk m output contract plan names (am_payload v) (dk_tree d)))
    (\<lambda>d. publishing W fs2 (codec.truncate ai) tk m output stage contract plan keep (dk_tree d))"
proof -
  let ?cd = "codec.truncate ai" and ?C = "\<lambda>d :: 'c disk. confined W fs2 (dk_tree d)"
  let ?E = "\<lambda>d :: 'c disk. publishing W fs2 ?cd tk m output stage contract plan keep (dk_tree d)"
  let ?K = "\<lambda>d :: 'c disk. ?C d \<and> (\<forall>x \<in> set keep. dmem (dk_tree d) (stage @ [x]))"
    and ?J = "\<lambda>d :: 'c disk. ?C d \<and> dmem (dk_tree d) (stage @ [standard])"
  have E: "?E d" if "?C d" for d :: "'c disk" using that by (simp add: publishing_def)
  have copy: "etriple (\<lambda>d. dk_tree d = fs2)
      (disk_op io (copy_file (output @ [standard]) (stage @ [standard])) (truncated (stage @ [standard]) ?cd)) (\<lambda>_. ?J) ?E"
    unfolding etriple_def
  proof (intro allI impI)
    fix d :: "'c disk" assume d: "dk_tree d = fs2"
    let ?op = "disk_op io (copy_file (output @ [standard]) (stage @ [standard])) (truncated (stage @ [standard]) ?cd)"
    have own: "own_dir fs2 stage" using stage(1) by (simp add: stage_for_def)
    show "case ?op d of (Inl _, d') \<Rightarrow> ?E d' | (Inr _, d') \<Rightarrow> ?J d'"
    proof (cases "?op d")
      case (Pair r d')
      show ?thesis
      proof (cases r)
        case (Inl e)
        with Pair disk_op_cases(2) d have "dk_tree d' = fs2 \<or> dk_tree d' = truncated (stage @ [standard]) ?cd fs2" by metis
        then have "?C d'" using truncated_confined [OF own W(1), of ?cd] by auto
        with E Pair Inl show ?thesis by simp
      next
        case (Inr u)
        with Pair disk_op_cases(1) d have "copy_file (output @ [standard]) (stage @ [standard]) fs2 = Inr (dk_tree d')" by metis
        then obtain doc where "put_file (stage @ [standard]) doc fs2 = Inr (dk_tree d')"
          by (auto simp: copy_file_def split: option.splits node.splits)
        from put_file_confined [OF own this W(1)] have "?J d'" by (auto dest: dget_Some_dmem)
        with Pair Inr show ?thesis by simp
      qed
    qed
  qed
  have moe': "etriple ?J (save_kt_moe_to_adapter ai io tk m stage) (\<lambda>_. ?K) ?E"
    by (rule etriple_weaken [OF moe]) (use E in auto)
  let ?CF = "\<lambda>d :: 'c disk. ?C d \<and> fused_fits ?cd contract (dget (dk_tree d) (stage @ [fused_file]))"
  let ?CG = "\<lambda>d :: 'c disk. ?C d \<and> fused_fits ?cd contract (dget (dk_tree d) (output @ [fused_file]))"
  have checked: "etriple ?K (disk_query (\<lambda>fs. validate_fused_file ?cd fs (stage @ [fused_file]) contract))
      (\<lambda>_ d. ?K d \<and> fused_fits ?cd contract (dget (dk_tree d) (stage @ [fused_file]))) ?E"
    unfolding etriple_def
  proof (intro allI impI)
    fix d :: "'c disk" assume d: "?K d"
    then have "resolve (dk_tree d) stage = stage" using own_resolve [OF stage_own [OF stage(1)]] by blast
    note fits = validate_fused_child [OF this, of ?cd fused_file contract]
    show "case disk_query (\<lambda>fs. validate_fused_file ?cd fs (stage @ [fused_file]) contract) d of (Inl _, d') \<Rightarrow> ?E d'
      | (Inr _, d') \<Rightarrow> ?K d' \<and> fused_fits ?cd contract (dget (dk_tree d') (stage @ [fused_file]))"
    proof (cases "validate_fused_file ?cd (dk_tree d) (stage @ [fused_file]) contract")
      case (Inl e)
      with E d show ?thesis by (simp add: disk_query_def)
    next
      case (Inr u)
      with fits d show ?thesis by (simp add: disk_query_def)
    qed
  qed
  have listed: "etriple (\<lambda>d. ?K d \<and> fused_fits ?cd contract (dget (dk_tree d) (stage @ [fused_file]))) (egets (\<lambda>d. iterdir (dk_tree d) stage))
      (\<lambda>names d. ?CF d \<and> set keep \<subseteq> set names \<and> (\<forall>x \<in> set names. stage @ [x] \<in> W)) ?E"
    unfolding etriple_def
  proof (intro allI impI)
    fix d :: "'c disk" assume d: "?K d \<and> fused_fits ?cd contract (dget (dk_tree d) (stage @ [fused_file]))"
    have "x \<in> set (iterdir (dk_tree d) stage)" if "dmem (dk_tree d) (stage @ [x])" for x
      using that own_resolve [OF stage_own [OF stage(1)]] d by (simp add: iterdir_def children_mem)
    with d have "set keep \<subseteq> set (iterdir (dk_tree d) stage)" by auto
    moreover have "\<forall>x \<in> set (iterdir (dk_tree d) stage). stage @ [x] \<in> W" using d stage_iterdir [OF stage] by blast
    ultimately show "case egets (\<lambda>d. iterdir (dk_tree d) stage) d of (Inl _, d') \<Rightarrow> ?E d'
      | (Inr names, d') \<Rightarrow> ?CF d' \<and> set keep \<subseteq> set names \<and> (\<forall>x \<in> set names. stage @ [x] \<in> W)" using d by (simp add: egets_def)
  qed
  have rest: "etriple ?CF
    (ebind (move_entries io stage output (sort names)) (\<lambda>_.
     ebind (fsync io) (\<lambda>_.
     ebind (disk_query (\<lambda>fs. artifact_record ?cd fs (output @ [adapter_config]) None)) (\<lambda>config_record.
     ebind (disk_query (\<lambda>fs. artifact_records ?cd fs output contract (sort names)
              [(adapter_config, config_record)])) (\<lambda>artifacts.
     ebind (disk_query (\<lambda>fs. adapter_provenance ?cd fs m plan)) (\<lambda>provenance.
     let payload = [(''version'', VInt 1), (''status'', VStr ''ready'')] @ provenance @ [(''artifacts'', VObject artifacts)] in
     ebind (write_json_atomic ?cd io (tk_manifest tk) output adapter_manifest payload) (\<lambda>_.
     ereturn \<lparr>am_path = output @ [adapter_manifest], am_payload = payload,
              am_artifact_paths = map (\<lambda>name. output @ [name]) (sort (dkeys artifacts))\<rparr>)))))))
    (\<lambda>v d. am_path v = output @ [adapter_manifest] \<and>
       announced W fs2 ?cd tk m output contract plan names (am_payload v) (dk_tree d)) ?E"
    if ok: "produced_ok W stage keep names" for names
  proof -
    have names: "\<forall>x \<in> set (sort names). stage @ [x] \<in> W \<and> output @ [x] \<in> W" using ok W(2) by (auto simp: produced_ok_def)
    have moved: "etriple ?CF (move_entries io stage output (sort names)) (\<lambda>_. ?CG) ?E"
      unfolding etriple_def
    proof (intro allI impI)
      fix d :: "'c disk" assume d: "?CF d"
      obtain r d' where run: "move_entries io stage output (sort names) d = (r, d')" by force
      have c': "?C d'" using staysD [OF stays_move [OF stage(1) out names, of io]] d run by (metis snd_conv)
      have "?CG d'" if "r = Inr ()"
        using move_entries_contents [OF stage(1) out below run [unfolded that] _ names] d c' ok by (auto simp: produced_ok_def)
      with c' E show "case move_entries io stage output (sort names) d of (Inl _, d') \<Rightarrow> ?E d' | (Inr _, d') \<Rightarrow> ?CG d'"
        unfolding run by (auto split: sum.split)
    qed
    have synced: "etriple ?CG (fsync io) (\<lambda>_. ?CG) ?E"
      by (rule etriple_same_tree [OF fsync_tree]) (use E in blast)
    show ?thesis
      apply (rule etriple_ebind [OF moved])
      apply (rule etriple_ebind [OF synced])
      apply (rule etriple_ebind [OF etriple_query], erule conjunct1 [THEN E])
      apply (rule etriple_ebind [OF etriple_query], erule conjunct1 [THEN conjunct1, THEN E])
      apply (rule etriple_ebind [OF etriple_query], erule conjunct1 [THEN conjunct1, THEN conjunct1, THEN E])
      unfolding Let_def
      apply (rule etriple_ebind)
       apply (rule write_manifest_triple [OF out ok, unfolded bundle_payload_def])
      apply (unfold etriple_def ereturn_def)
      apply simp_all
      done
  qed
  show ?thesis
    unfolding publish_bundle_def
    apply (rule etriple_ebind [OF copy])
    apply (rule etriple_ebind [OF moe'])
    apply (rule etriple_ebind [OF checked])
    apply (rule etriple_ebind [OF listed])
    apply (rule etriple_fact)
    apply (rule etriple_ebind [OF etriple_same_tree [OF sync_tree]], erule conjunct1 [THEN E])
    apply (rule etriple_ebind [OF etriple_require], erule conjunct1 [THEN E])
    apply (rule etriple_fact)
    apply (rule etriple_weaken [OF rest])
       apply (auto simp: produced_ok_def)
    done
qed

end
