(* ===== verification/AdapterPublishAll.thy ===== *)
theory AdapterPublishAll
  imports AdapterPublish
begin

text \<open>The whole of \<open>save_kt_adapter_artifacts\<close>: every state in which it can stop.\<close>

definition cleared :: "path \<Rightarrow> 'c tree \<Rightarrow> 'c tree" where
  "cleared p fs = filter (\<lambda>(q, n). \<not> prefix (phys fs p) q) fs"

lemma dget_filter_keys: "dget (filter (\<lambda>(k, v). P k) d) k = (if P k then dget d k else None)"
  by (induction d) auto

lemma dget_cleared: "dget (cleared p fs) q = (if prefix (phys fs p) q then None else dget fs q)"
  by (simp add: cleared_def dget_filter_keys)

lemma remove_tree_cases: "dk_tree (remove_tree io p d) = dk_tree d \<or> dk_tree (remove_tree io p d) = cleared p (dk_tree d)"
  by (simp add: remove_tree_def disk_op_def Let_def cleared_def split: io.split)

text \<open>The way to the bundle.\<close>

definition stage_path :: "path \<Rightarrow> tokens \<Rightarrow> path" where
  "stage_path output tk = output @ [stage_name (tk_stage tk)]"

definition without_manifest :: "path \<Rightarrow> 'c tree \<Rightarrow> 'c tree" where
  "without_manifest output fs = ddel fs (output @ [adapter_manifest])"

definition staged :: "path \<Rightarrow> tokens \<Rightarrow> 'c tree \<Rightarrow> 'c tree" where
  "staged output tk fs = dset (without_manifest output fs) (stage_path output tk) (Dir 0 False)"

lemma name_facts [simp]:
  "adapter_manifest \<noteq> stage_name t" "stage_name t \<noteq> adapter_manifest" "fused_file \<noteq> stage_name t" "fused_temp u \<noteq> stage_name t"
  "safetensors_adapter \<noteq> stage_name t" "bin_adapter \<noteq> stage_name t" "adapter_config \<noteq> stage_name t"
  "fused_file \<noteq> adapter_manifest" "fused_temp u \<noteq> adapter_manifest" "safetensors_adapter \<noteq> adapter_manifest"
  "bin_adapter \<noteq> adapter_manifest" "adapter_config \<noteq> adapter_manifest" "adapter_config \<noteq> fused_file"
  "index_name \<noteq> adapter_manifest" "index_name \<noteq> stage_name t"
  by (simp_all add: stage_name_def adapter_manifest_def fused_file_def fused_temp_def safetensors_adapter_def bin_adapter_def
      adapter_config_def index_name_def)

lemma new_names_facts: "x \<in> new_names gen \<Longrightarrow> x \<noteq> adapter_manifest \<and> x \<noteq> stage_name t"
  by (auto simp: new_names_def index_temp_def index_name_def shard_name_def shard_temp_def adapter_manifest_def stage_name_def)

lemma invalidate_triple:
  assumes real: "real_path fs output"
  shows "etriple (\<lambda>d. dk_tree d = fs) (invalidate_ready_manifest io (output @ [adapter_manifest]))
    (\<lambda>_ d. dk_tree d = without_manifest output fs) (\<lambda>d. dk_tree d = fs \<or> dk_tree d = without_manifest output fs)"
proof -
  let ?M = "output @ [adapter_manifest]"
  have dir: "resolve fs output = output" using real by (rule real_path_resolve)
  have l: "lstat fs ?M = dget fs ?M" using lstat_child [OF dir] .
  have absent: "without_manifest output fs = fs" if "\<not> path_exists fs ?M" "\<not> is_link fs ?M"
  proof -
    have "dget fs ?M = None"
      using that l resolve_child [OF dir, of adapter_manifest]
      by (auto simp: path_exists_def is_link_def stat_def link_target_def split: option.splits node.splits)
    then show ?thesis by (simp add: without_manifest_def ddel_fresh dget_None_iff)
  qed
  have removed: "etriple (\<lambda>d. dk_tree d = fs) (disk_op io (unlink ?M) id) (\<lambda>_ d. dk_tree d = without_manifest output fs) (\<lambda>d. dk_tree d = fs)"
    using dir by (auto simp: etriple_def disk_op_def Let_def unlink_def phys_def without_manifest_def
        split: sum.splits io.splits option.splits node.splits)
  have synced: "etriple (\<lambda>d. dk_tree d = fs') (fsync io) (\<lambda>_ d. dk_tree d = fs') (\<lambda>d. dk_tree d = fs')" for fs' :: "'a tree"
    by (auto simp: etriple_def fsync_def disk_op_def Let_def split: io.splits)
  have both: "etriple (\<lambda>d. dk_tree d = fs) (ebind (disk_op io (unlink ?M) id) (\<lambda>_. fsync io))
      (\<lambda>_ d. dk_tree d = without_manifest output fs) (\<lambda>d. dk_tree d = fs \<or> dk_tree d = without_manifest output fs)"
    by (rule etriple_ebind [OF etriple_weaken [OF removed] etriple_weaken [OF synced]]) auto
  have body: "etriple (\<lambda>d. dk_tree d = fs)
      (if \<not> path_exists fs ?M \<and> \<not> is_link fs ?M then ereturn ()
       else if \<not> regular_file fs ?M then eraise (ArtifactError ''existing KT adapter manifest must be a regular file'')
       else ebind (disk_op io (unlink ?M) id) (\<lambda>_. fsync io))
      (\<lambda>_ d. dk_tree d = without_manifest output fs) (\<lambda>d. dk_tree d = fs \<or> dk_tree d = without_manifest output fs)"
    using both absent by (simp add: etriple_def)
  show ?thesis
    unfolding invalidate_ready_manifest_def
    using body by (auto simp: etriple_def ebind_def egets_def)
qed

lemma without_manifest_real: "real_path fs output \<Longrightarrow> real_path (without_manifest output fs) output"
  by (rule real_path_agree) (auto simp: without_manifest_def)

lemma staged_facts:
  assumes wf: "tree_wf fs" and real: "real_path fs output" and free: "dget (without_manifest output fs) (stage_path output tk) = None"
  shows "own_dir (staged output tk fs) (stage_path output tk)" "vacant (staged output tk fs) (stage_path output tk)"
    "real_path (staged output tk fs) output"
proof -
  let ?S = "stage_path output tk" and ?fs1 = "without_manifest output fs" and ?fs2 = "staged output tk fs"
  note r1 = without_manifest_real [OF real]
  show r2: "real_path ?fs2 output"
    by (rule real_path_agree [OF r1]) (auto simp: staged_def stage_path_def)
  have none: "dget ?fs2 (?S @ [x]) = None" for x
  proof (rule ccontr)
    assume "dget ?fs2 (?S @ [x]) \<noteq> None"
    then obtain n where "dget fs (?S @ [x]) = Some n"
      by (auto simp: staged_def without_manifest_def stage_path_def split: if_splits)
    with wf have "butlast (?S @ [x]) \<noteq> [] \<longrightarrow> (\<exists>u w. dget fs (butlast (?S @ [x])) = Some (Dir u w))" unfolding tree_wf_def by blast
    moreover have "butlast (?S @ [x]) = ?S" "?S \<noteq> []" by (simp_all add: stage_path_def butlast_append)
    ultimately have "dget fs ?S \<noteq> None" by auto
    moreover have "?S \<noteq> output @ [adapter_manifest]" by (simp add: stage_path_def)
    ultimately show False using free by (auto simp: without_manifest_def)
  qed
  then show "vacant ?fs2 ?S" by (simp add: vacant_def)
  have "real_path ?fs2 ?S"
    unfolding real_path_def
  proof (intro allI impI)
    fix k assume k: "0 < k \<and> k \<le> length ?S"
    show "\<exists>u w. dget ?fs2 (take k ?S) = Some (Dir u w)"
    proof (cases "k \<le> length output")
      case True
      with r2 k have "\<exists>u w. dget ?fs2 (take k output) = Some (Dir u w)" unfolding real_path_def by blast
      with True show ?thesis by (simp add: stage_path_def)
    next
      case False
      with k have "take k ?S = ?S" by (simp add: stage_path_def)
      then show ?thesis by (auto simp: staged_def)
    qed
  qed
  with none show "own_dir ?fs2 ?S" by (simp add: own_dir_def)
qed

lemma make_stage_Inr:
  assumes "real_path fs output" "make_stage (stage_path output tk) (without_manifest output fs) = Inr fs'"
  shows "fs' = staged output tk fs" "dget (without_manifest output fs) (stage_path output tk) = None"
proof -
  have dir: "resolve (without_manifest output fs) output = output"
    using real_path_resolve [OF without_manifest_real [OF assms(1)]] .
  from assms(2) show "fs' = staged output tk fs" "dget (without_manifest output fs) (stage_path output tk) = None"
    by (auto simp: make_stage_def stage_path_def lstat_def phys_def dir staged_def split: if_splits)
qed

lemma make_dirs_real: "real_path fs output \<Longrightarrow> make_dirs output fs = Inr fs"
  using real_path_dir real_path_resolve by (subst make_dirs.simps) (fastforce simp: dir_at_def)

section \<open>All of the states in which a save can stop\<close>

text \<open>
  By the name of the standard adapter, \<open>names_of\<close> gives the names a save may write and \<open>keep\<close> names
  that are in the staging directory when the writers are done.
\<close>

definition save_paths :: "path \<Rightarrow> tokens \<Rightarrow> (string \<Rightarrow> string set) \<Rightarrow> string \<Rightarrow> path set" where
  "save_paths output tk names_of standard = both_dirs (stage_path output tk) output (names_of standard)"

definition standards_in :: "'c tree \<Rightarrow> path \<Rightarrow> string list" where
  "standards_in fs output = filter (\<lambda>name. is_file fs (output @ [name])) standard_adapters"

definition stopped ::
  "(string \<Rightarrow> string list) \<Rightarrow> (string \<Rightarrow> string set) \<Rightarrow> 'c codec \<Rightarrow> tokens \<Rightarrow> 'a kt_model \<Rightarrow> path \<Rightarrow> (string, tensor_meta) dict \<Rightarrow> 'c tree \<Rightarrow> 'c tree \<Rightarrow> bool" where
  "stopped keep names_of cd tk m output contract fs fs' \<longleftrightarrow>
     fs' = fs \<or> fs' = without_manifest output fs \<or>
     (\<exists>standard fs4. standard \<in> set standard_adapters \<and>
        dget (without_manifest output fs) (stage_path output tk) = None \<and>
        publishing (save_paths output tk names_of standard) (staged output tk fs) cd tk m output (stage_path output tk) contract
          (find_plan m) (keep standard) fs4 \<and>
        (fs' = fs4 \<or> fs' = cleared (stage_path output tk) fs4))"

definition saved ::
  "(string \<Rightarrow> string list) \<Rightarrow> (string \<Rightarrow> string set) \<Rightarrow> 'c codec \<Rightarrow> tokens \<Rightarrow> 'a kt_model \<Rightarrow> path \<Rightarrow> (string, tensor_meta) dict \<Rightarrow> 'c tree
     \<Rightarrow> adapter_manifest_view option \<Rightarrow> 'c tree \<Rightarrow> bool" where
  "saved keep names_of cd tk m output contract fs v fs' \<longleftrightarrow>
     (\<exists>w standard names fs4. v = Some w \<and> am_path w = output @ [adapter_manifest] \<and> standard \<in> set standard_adapters \<and>
        standards_in (without_manifest output fs) output = [standard] \<and>
        dget (without_manifest output fs) (stage_path output tk) = None \<and>
        produced_ok (save_paths output tk names_of standard) (stage_path output tk) (keep standard) names \<and>
        announced (save_paths output tk names_of standard) (staged output tk fs) cd tk m output contract (find_plan m) names
          (am_payload w) fs4 \<and>
        (fs' = fs4 \<or> fs' = cleared (stage_path output tk) fs4))"

lemma save_adapter_triple:
  fixes ai :: "('c, 'a) adapter_io" and fs :: "'c tree"
  assumes wf: "tree_wf fs" and real: "real_path fs (absolute_path (codec.truncate ai) output_dir)"
    and contract: "fused_lora_contract m = Inr contract" "contract \<noteq> []"
    and names: "\<And>standard. standard \<in> set standard_adapters \<Longrightarrow>
      standard \<in> names_of standard \<and> adapter_manifest \<notin> names_of standard \<and> stage_name (tk_stage tk) \<notin> names_of standard"
    and moe: "\<And>output W standard fs2. standard \<in> set standard_adapters \<Longrightarrow> W = save_paths output tk names_of standard \<Longrightarrow>
      stage_for W fs2 (stage_path output tk) \<Longrightarrow> vacant fs2 (stage_path output tk) \<Longrightarrow>
      etriple (\<lambda>d. confined W fs2 (dk_tree d) \<and> dmem (dk_tree d) (stage_path output tk @ [standard]))
        (save_kt_moe_to_adapter ai io tk m (stage_path output tk))
        (\<lambda>_ d. confined W fs2 (dk_tree d) \<and> (\<forall>x \<in> set (keep standard). dmem (dk_tree d) (stage_path output tk @ [x])))
        (\<lambda>d. confined W fs2 (dk_tree d))"
  shows "etriple (\<lambda>d. dk_tree d = fs) (save_kt_adapter_artifacts ai io tk m output_dir)
    (\<lambda>v d. saved keep names_of (codec.truncate ai) tk m (absolute_path (codec.truncate ai) output_dir) contract fs v (dk_tree d))
    (\<lambda>d. stopped keep names_of (codec.truncate ai) tk m (absolute_path (codec.truncate ai) output_dir) contract fs (dk_tree d))"
proof -
  let ?cd = "codec.truncate ai" and ?O = "absolute_path (codec.truncate ai) output_dir" and ?S = "stage_path (absolute_path (codec.truncate ai) output_dir) tk"
  let ?fs1 = "without_manifest ?O fs" and ?fs2 = "staged ?O tk fs"
  let ?Q = "\<lambda>v (d :: 'c disk). saved keep names_of ?cd tk m ?O contract fs v (dk_tree d)"
  let ?E = "\<lambda>d :: 'c disk. stopped keep names_of ?cd tk m ?O contract fs (dk_tree d)"
  let ?P0 = "\<lambda>d :: 'c disk. dk_tree d = fs" and ?P1 = "\<lambda>d :: 'c disk. dk_tree d = ?fs1"
  have E: "?P0 d \<Longrightarrow> ?E d" "?P1 d \<Longrightarrow> ?E d" for d by (simp_all add: stopped_def)
  have found: "etriple ?P0 (elift (fused_lora_contract m)) (\<lambda>c d. ?P0 d \<and> c = contract) ?E"
    using contract by (simp add: etriple_def elift_def)
  have dirs: "etriple ?P0 (disk_op io (make_dirs ?O) id) (\<lambda>_. ?P0) ?E"
    using make_dirs_real [OF real] E(1) by (auto simp: etriple_def disk_op_def Let_def split: io.splits)
  have inval: "etriple ?P0 (invalidate_ready_manifest io (?O @ [adapter_manifest])) (\<lambda>_. ?P1) ?E"
    by (rule etriple_weaken [OF invalidate_triple [OF real]]) (use E in auto)
  have guard: "etriple P (eassert b e) (\<lambda>_. P) ?E" "etriple P (egets g) (\<lambda>_. P) ?E" "etriple P (disk_query f) (\<lambda>_. P) ?E"
    if "\<And>d. P d \<Longrightarrow> ?E d" for P b e and g :: "'c disk \<Rightarrow> string list" and f :: "'c tree \<Rightarrow> unit result"
    using that by (auto simp: etriple_def eassert_def egets_def disk_query_def split: sum.splits)
  have listed: "etriple ?P1 (egets (\<lambda>d. filter (\<lambda>name. is_file (dk_tree d) (?O @ [name])) standard_adapters))
      (\<lambda>standard d. ?P1 d \<and> standards_in ?fs1 ?O = standard) ?E"
    by (simp add: etriple_def egets_def standards_in_def)
  have make: "etriple ?P1 (disk_op io (make_stage ?S) id) (\<lambda>_ d. dk_tree d = ?fs2 \<and> dget ?fs1 ?S = None) ?E"
    using make_stage_Inr [OF real, of tk] E(2) by (auto simp: etriple_def disk_op_def Let_def split: sum.splits io.splits)
  have head: "standards_in ?fs1 ?O = [hd xs] \<and> hd xs \<in> set standard_adapters" if "length xs = 1" "standards_in ?fs1 ?O = xs" for xs
  proof -
    have one: "xs = [hd xs]" using that(1) by (cases xs) auto
    then have "hd xs \<in> set xs" by (metis list.set_intros(1))
    then have "hd xs \<in> set standard_adapters" using that(2) unfolding standards_in_def by auto
    with one that(2) show ?thesis by simp
  qed
  have publish: "etriple (\<lambda>d. dk_tree d = ?fs2)
      (\<lambda>d. case publish_bundle ai io tk m ?O ?S standard contract (find_plan m) d of
        (Inl e, d') \<Rightarrow> (Inl e, remove_tree io ?S d')
      | (Inr v, d') \<Rightarrow> (Inr (Some v), remove_tree io ?S d')) ?Q ?E"
    if "standards_in ?fs1 ?O = [standard] \<and> standard \<in> set standard_adapters" and free: "dget ?fs1 ?S = None" for standard
  proof -
    from that(1) have one: "standards_in ?fs1 ?O = [standard]" and std: "standard \<in> set standard_adapters" by blast+
    let ?W = "save_paths ?O tk names_of standard"
    note facts = staged_facts [OF wf real free]
    have S: "?S = ?O @ [stage_name (tk_stage tk)]" by (simp add: stage_path_def)
    have out: "stage_name (tk_stage tk) \<notin> names_of standard" using names [OF std] by blast
    have W: "?W = both_dirs ?S ?O (names_of standard)" by (simp add: save_paths_def)
    note short = both_dirs_short [OF S out, folded W]
    have stage: "stage_for ?W ?fs2 ?S" using facts(1) short(1) by (simp add: stage_for_def)
    have W1: "?S @ [standard] \<in> ?W" using names [OF std] by (simp add: W)
    have W2: "?O @ [x] \<in> ?W" if "?S @ [x] \<in> ?W" for x
      using that unfolding W by auto
    have pub: "etriple (\<lambda>d. dk_tree d = ?fs2) (publish_bundle ai io tk m ?O ?S standard contract (find_plan m))
        (\<lambda>v d. am_path v = ?O @ [adapter_manifest] \<and> (\<exists>names. produced_ok ?W ?S (keep standard) names \<and>
           announced ?W ?fs2 ?cd tk m ?O contract (find_plan m) names (am_payload v) (dk_tree d)))
        (\<lambda>d. publishing ?W ?fs2 ?cd tk m ?O ?S contract (find_plan m) (keep standard) (dk_tree d))"
      by (rule publish_bundle_triple [OF stage facts(2,3) short(2) S W1 W2 moe [OF std refl stage facts(2)]]) auto
    show ?thesis
      unfolding etriple_def
    proof (intro allI impI)
      fix d :: "'c disk" assume d: "dk_tree d = ?fs2"
      let ?run = "publish_bundle ai io tk m ?O ?S standard contract (find_plan m) d"
      show "case (case ?run of (Inl e, d') \<Rightarrow> (Inl e, remove_tree io ?S d') | (Inr v, d') \<Rightarrow> (Inr (Some v), remove_tree io ?S d')) of
          (Inl e, d') \<Rightarrow> ?E d' | (Inr v, d') \<Rightarrow> ?Q v d'"
      proof (cases ?run)
        case (Pair r d')
        note cl = remove_tree_cases [of io ?S d']
        show ?thesis
        proof (cases r)
          case (Inl e)
          from etripleD(2) [OF pub d Pair [unfolded Inl]] cl std free show ?thesis
            unfolding Pair Inl prod.case sum.case stopped_def by blast
        next
          case (Inr v)
          from etripleD(1) [OF pub d Pair [unfolded Inr]] cl std one free show ?thesis
            unfolding Pair Inr prod.case sum.case saved_def by blast
        qed
      qed
    qed
  qed
  show ?thesis
    unfolding save_kt_adapter_artifacts_def Let_def stage_path_def [symmetric]
    apply (rule etriple_ebind [OF found], rule etriple_fact)
    apply (rule etriple_ebind [OF guard(1)], erule E)
    apply (rule etriple_ebind [OF dirs])
    apply (rule etriple_ebind [OF inval])
    apply (simp only: contract(2) if_False)
    apply (rule etriple_ebind [OF guard(1)], erule E)
    apply (rule etriple_ebind [OF listed], rule etriple_fact)
    apply (rule etriple_ebind [OF etriple_require], erule E, rule etriple_fact)
    apply (rule etriple_ebind [OF guard(3)], erule E)
    apply (rule etriple_ebind [OF make], rule etriple_fact)
    apply (rule publish)
     apply (erule (1) head)
    apply assumption
    done
qed

section \<open>What a reader finds\<close>

definition manifest_describes ::
  "'c codec \<Rightarrow> path \<Rightarrow> (string, tensor_meta) dict \<Rightarrow> (string, jvalue) dict \<Rightarrow> 'c tree \<Rightarrow> bool" where
  "manifest_describes cd output contract payload fs \<longleftrightarrow>
     (let doc = cd_json_file cd (VObject payload) in dget fs (output @ [adapter_manifest]) = Some (File (fst doc) (snd doc))) \<and>
     (\<exists>artifacts. obj_get payload ''artifacts'' = VObject artifacts \<and> dmem artifacts fused_file \<and> dmem artifacts adapter_config \<and>
        records_hold cd fs output contract artifacts) \<and>
     fused_fits cd contract (dget fs (output @ [fused_file]))"

lemma provenance_keys: "adapter_provenance cd fs m plan = Inr provenance \<Longrightarrow> \<not> dmem provenance ''artifacts''"
  by (cases "base_model_name m plan"; cases "the (base_model_name m plan)")
    (auto simp: adapter_provenance_def rbind_eq_Inr Let_def split: if_splits option.splits)

lemma payload_artifacts:
  "adapter_provenance cd fs m plan = Inr provenance \<Longrightarrow> obj_get (bundle_payload provenance artifacts) ''artifacts'' = VObject artifacts"
  using provenance_keys [of cd fs m plan provenance]
  by (simp add: obj_get_def bundle_payload_def dget_append dget_None_iff [symmetric])

text \<open>The start of a save that got as far as its staging directory, and the names it may write.\<close>

definition save_ready :: "'c tree \<Rightarrow> path \<Rightarrow> tokens \<Rightarrow> string set \<Rightarrow> bool" where
  "save_ready fs dir tk names \<longleftrightarrow>
     tree_wf fs \<and> real_path fs dir \<and> dget (without_manifest dir fs) (stage_path dir tk) = None \<and>
     adapter_manifest \<notin> names \<and> stage_name (tk_stage tk) \<notin> names"

definition written_paths :: "path \<Rightarrow> tokens \<Rightarrow> string set \<Rightarrow> path set" where
  "written_paths dir tk names = both_dirs (stage_path dir tk) dir names"

lemma written_paths_iff [simp]:
  "dir @ [x] \<in> written_paths dir tk names \<longleftrightarrow> x \<in> names" "stage_path dir tk @ [x] \<in> written_paths dir tk names \<longleftrightarrow> x \<in> names"
  by (auto simp: written_paths_def both_dirs_def entries_of_def stage_path_def)

lemma written_paths_below: "q \<in> written_paths dir tk names \<Longrightarrow> prefix dir q"
  by (auto simp: written_paths_def both_dirs_def entries_of_def stage_path_def prefix_def)

lemma not_below_stage: "prefix (stage_path dir tk) (dir @ [x]) \<longleftrightarrow> x = stage_name (tk_stage tk)"
  by (auto simp: stage_path_def)

lemma ready_real:
  assumes "save_ready fs dir tk names" "confined (written_paths dir tk names) (staged dir tk fs) fs3"
  shows "real_path fs3 dir" "dget fs3 (dir @ [adapter_manifest]) = None"
    "\<not> prefix dir q \<Longrightarrow> dget fs3 q = dget fs q"
proof -
  let ?W = "written_paths dir tk names"
  have r: "real_path (staged dir tk fs) dir" using assms(1) staged_facts(3) unfolding save_ready_def by blast
  have "take k dir \<notin> ?W" if "k \<le> length dir" for k
    using both_dirs_short(2) [of "stage_path dir tk" dir "stage_name (tk_stage tk)" names k] that assms(1)
    unfolding written_paths_def save_ready_def stage_path_def by blast
  with real_path_confined [OF r assms(2)] show "real_path fs3 dir" by blast
  have "dir @ [adapter_manifest] \<notin> ?W" using assms(1) by (simp add: save_ready_def)
  from confined_outside [OF assms(2) this] show "dget fs3 (dir @ [adapter_manifest]) = None"
    by (simp add: staged_def without_manifest_def stage_path_def)
  show "dget fs3 q = dget fs q" if "\<not> prefix dir q"
  proof -
    have "q \<notin> ?W" "q \<noteq> dir @ [adapter_manifest]" "q \<noteq> stage_path dir tk"
      using that written_paths_below by (auto simp: stage_path_def)
    with confined_outside [OF assms(2)] show ?thesis by (auto simp: staged_def without_manifest_def)
  qed
qed

text \<open>Whatever the clean-up did.\<close>

lemma cleared_entry:
  assumes "real_path fs4 dir" "fs' = fs4 \<or> fs' = cleared (stage_path dir tk) fs4" "\<not> prefix (stage_path dir tk) q"
  shows "dget fs' q = dget fs4 q"
  using assms real_path_resolve [OF assms(1)] by (auto simp: dget_cleared phys_def stage_path_def)

lemma cleared_real:
  assumes "real_path fs4 dir" "fs' = fs4 \<or> fs' = cleared (stage_path dir tk) fs4"
  shows "real_path fs' dir"
proof (rule real_path_agree [OF assms(1)])
  fix q :: path assume "length q \<le> length dir"
  then have "\<not> prefix (stage_path dir tk) q" by (auto simp: stage_path_def dest: prefix_length_le)
  from cleared_entry [OF assms this] show "dget fs' q = dget fs4 q" .
qed

lemma announced_describes:
  assumes ready: "save_ready fs dir tk names"
    and ann: "announced (written_paths dir tk names) (staged dir tk fs) cd tk m dir contract plan produced payload fs4"
    and ok: "produced_ok (written_paths dir tk names) (stage_path dir tk) keep produced"
    and fs': "fs' = fs4 \<or> fs' = cleared (stage_path dir tk) fs4"
  shows "manifest_describes cd dir contract payload fs'" "\<not> prefix dir q \<Longrightarrow> dget fs' q = dget fs q" "real_path fs' dir"
proof -
  let ?M = "dir @ [adapter_manifest]" and ?doc = "cd_json_file cd (VObject payload)"
  from ann obtain fs3 artifacts provenance where c: "confined (written_paths dir tk names) (staged dir tk fs) fs3"
    and w: "written (temp_path dir adapter_manifest (tk_manifest tk)) ?M ?doc fs3 fs4"
    and records: "records_hold cd fs3 dir contract artifacts" and keys: "set (dkeys artifacts) = insert adapter_config (set produced)"
    and prov: "adapter_provenance cd fs3 m plan = Inr provenance" and payload: "payload = bundle_payload provenance artifacts"
    and fits: "fused_fits cd contract (dget fs3 (dir @ [fused_file]))"
    unfolding announced_def by blast
  have get4: "dget fs4 q = (if q = ?M then Some (File (fst ?doc) (snd ?doc)) else dget fs3 q)" for q
    using w unfolding written_def by blast
  have real3: "real_path fs3 dir" using ready_real(1) [OF ready c] .
  have real4: "real_path fs4 dir" by (rule real_path_agree [OF real3]) (auto simp: get4)
  show real': "real_path fs' dir" using cleared_real [OF real4 fs'] .
  have get': "dget fs' (dir @ [x]) = dget fs4 (dir @ [x])" if "x \<noteq> stage_name (tk_stage tk)" for x
    using cleared_entry [OF real4 fs'] not_below_stage [of dir tk x] that by blast
  have member: "x \<noteq> adapter_manifest \<and> x \<noteq> stage_name (tk_stage tk)" if "dmem artifacts x" for x
  proof (cases "x = adapter_config")
    case False
    with that keys ok have "x \<in> names" by (auto simp: dmem_def produced_ok_def)
    with ready show ?thesis by (auto simp: save_ready_def)
  qed simp
  have "records_hold cd fs' dir contract artifacts"
    unfolding records_hold_def
  proof (intro allI impI)
    fix x r assume a: "dget artifacts x = Some r"
    then have x: "x \<noteq> adapter_manifest" "x \<noteq> stage_name (tk_stage tk)" using member dget_Some_dmem by metis+
    have r: "artifact_record cd fs3 (dir @ [x]) (if x = fused_file then Some contract else None) = Inr r"
      using records a unfolding records_hold_def by blast
    have "dget fs' (dir @ [x]) = dget fs3 (dir @ [x])" using get' [OF x(2)] get4 [of "dir @ [x]"] x(1) by simp
    from artifact_record_kept [OF r real_path_resolve [OF real3] real_path_resolve [OF real'] this]
    show "artifact_record cd fs' (dir @ [x]) (if x = fused_file then Some contract else None) = Inr r" .
  qed
  moreover have "dget fs' ?M = Some (File (fst ?doc) (snd ?doc))" using get' [of adapter_manifest] get4 [of ?M] by simp
  moreover have "dget fs' (dir @ [fused_file]) = dget fs3 (dir @ [fused_file])"
    using get' [of fused_file] get4 [of "dir @ [fused_file]"] by simp
  moreover have "dmem artifacts fused_file" "dmem artifacts adapter_config" using keys ok by (auto simp: dmem_def produced_ok_def)
  ultimately show "manifest_describes cd dir contract payload fs'"
    unfolding manifest_describes_def Let_def using payload_artifacts [OF prov] payload fits by auto
  show "dget fs' q = dget fs q" if "\<not> prefix dir q"
  proof -
    have "\<not> prefix (stage_path dir tk) q" using that by (auto simp: stage_path_def prefix_def)
    from cleared_entry [OF real4 fs' this] get4 [of q] that ready_real(3) [OF ready c that] show ?thesis by auto
  qed
qed

end
