(* ===== verification/AdapterWalk.thy ===== *)
theory AdapterWalk
  imports AdapterSample
begin

text \<open>
  The walk over the modules visits every reachable object once, so the wrappers and the load plan are
  found wherever they hang; and what follows when the two ways of finding wrappers disagree.
\<close>

section \<open>Reachability\<close>

inductive reachable_from :: "(nat, mnode) dict \<Rightarrow> nat \<Rightarrow> nat \<Rightarrow> bool" for g x where
  here: "dmem g x \<Longrightarrow> reachable_from g x x"
| step: "reachable_from g x y \<Longrightarrow> dget g y = Some n \<Longrightarrow> z \<in> set (node_children n) \<Longrightarrow> dmem g z \<Longrightarrow> reachable_from g x z"

lemma reachable_first:
  "dget g x = Some n \<Longrightarrow> y \<in> set (node_children n) \<Longrightarrow> reachable_from g y z \<Longrightarrow> reachable_from g x z"
proof (erule reachable_from.induct)
  assume "dget g x = Some n" "y \<in> set (node_children n)" "dmem g y"
  then show "reachable_from g x y" by (meson dget_Some_dmem reachable_from.intros)
qed (rule reachable_from.step)

lemma walk_new: "y \<in> set (walk g visited queue) \<Longrightarrow> y \<notin> set visited \<and> dmem g y"
  by (induction g visited queue rule: walk.induct) (auto split: if_splits option.splits dest: dget_Some_dmem)

lemma walk_distinct: "distinct (walk g visited queue)"
  by (induction g visited queue rule: walk.induct) (auto split: option.split dest: walk_new)

lemma walk_reachable: "y \<in> set (walk g visited queue) \<Longrightarrow> \<exists>x \<in> set queue. reachable_from g x y"
proof (induction g visited queue rule: walk.induct)
  case (2 g visited x queue)
  show ?case
  proof (cases "x \<in> set visited")
    case True
    with 2 show ?thesis by auto
  next
    case new: False
    show ?thesis
    proof (cases "dget g x")
      case None
      with 2 new show ?thesis by auto
    next
      case (Some n)
      with 2(4) new consider "y = x" | "y \<in> set (walk g (x # visited) (queue @ filter (\<lambda>c. c \<noteq> x) (node_children n)))" by auto
      then show ?thesis
      proof cases
        case 1
        have "reachable_from g x x" using Some by (meson dget_Some_dmem reachable_from.here)
        with 1 show ?thesis by auto
      next
        case found: 2
        from "2.IH"(3) [OF new Some found] obtain q where
          "q \<in> set queue \<or> q \<in> set (node_children n)" "reachable_from g q y" by auto
        with reachable_first [OF Some] show ?thesis by auto
      qed
    qed
  qed
qed simp

text \<open>Everything on the queue, and every child of what is visited, is visited.\<close>

lemma walk_closed:
  "(\<forall>q \<in> set queue. dmem g q \<longrightarrow> q \<in> set visited \<union> set (walk g visited queue)) \<and>
   (\<forall>y \<in> set (walk g visited queue). \<forall>n. dget g y = Some n \<longrightarrow>
      (\<forall>z \<in> set (node_children n). dmem g z \<longrightarrow> z \<in> set visited \<union> set (walk g visited queue)))"
proof (induction g visited queue rule: walk.induct)
  case (2 g visited x queue)
  show ?case
  proof (cases "x \<in> set visited")
    case True
    from "2.IH"(1) [OF True] True show ?thesis by auto
  next
    case new: False
    show ?thesis
    proof (cases "dget g x")
      case None
      then have w: "walk g visited (x # queue) = walk g visited queue" using new by simp
      from None have x: "\<not> dmem g x" by (simp add: dget_None_iff)
      from "2.IH"(2) [OF new None] x show ?thesis unfolding w by auto
    next
      case (Some n)
      let ?rest = "walk g (x # visited) (queue @ filter (\<lambda>c. c \<noteq> x) (node_children n))"
      have w: "walk g visited (x # queue) = x # ?rest" using new Some by simp
      note IH = "2.IH"(3) [OF new Some]
      have "z \<in> set visited \<union> set (x # ?rest)" if "z \<in> set (node_children n)" "dmem g z" for z
        using IH that by (cases "z = x") auto
      with IH Some show ?thesis unfolding w by auto
    qed
  qed
qed simp

lemma walk_all:
  assumes "reachable_from g r y"
  shows "y \<in> set (walk g [] [r])"
  using assms
proof induction
  case here
  then show ?case using walk_closed [of "[r]" g "[]"] by simp
next
  case (step y n z)
  then show ?case using walk_closed [of "[r]" g "[]"] by simp
qed

lemma walk_is_reachable: "set (walk g [] [r]) = {y. reachable_from g r y}"
  using walk_all walk_reachable [of _ g "[]" "[r]"] by auto

text \<open>
  C34. The search for the wrappers and for the load plan is a terminating breadth-first walk that visits
  every module object reachable through \<open>base_model\<close>, \<open>model\<close> and \<open>module\<close> exactly once, whatever cycles
  these form; so \<open>_find_plan\<close> returns no plan exactly when no reachable object has one, and
  \<open>_find_wrappers\<close> returns the wrappers of a reachable object, or none when no reachable object has any.
\<close>

theorem module_search_complete:
  "distinct (walk (km_nodes m) [] [km_root m]) \<and>
   set (module_order m) = {n. \<exists>x. reachable_from (km_nodes m) (km_root m) x \<and> dget (km_nodes m) x = Some n} \<and>
   (find_plan m = None \<longleftrightarrow> {n \<in> set (module_order m). mn_plan n \<noteq> None} = {}) \<and>
   (if {n \<in> set (module_order m). mn_wrappers n \<noteq> None} = {} then find_wrappers m = []
    else Some (find_wrappers m) \<in> mn_wrappers ` set (module_order m))"
proof (intro conjI)
  show "distinct (walk (km_nodes m) [] [km_root m])" by (rule walk_distinct)
  show "set (module_order m) = {n. \<exists>x. reachable_from (km_nodes m) (km_root m) x \<and> dget (km_nodes m) x = Some n}"
  proof -
    have "dmem (km_nodes m) x" if "reachable_from (km_nodes m) (km_root m) x" for x using that by cases auto
    then show ?thesis unfolding module_order_def set_map walk_is_reachable by (force dest!: dmem_dget)
  qed
  have first: "filter P xs = y # ys \<Longrightarrow> P y \<and> y \<in> set xs" for P and xs ys :: "mnode list" and y
    using filter_eq_singleton_hd by metis
  show "find_plan m = None \<longleftrightarrow> {n \<in> set (module_order m). mn_plan n \<noteq> None} = {}"
    by (auto simp: find_plan_def filter_empty_conv split: list.splits dest!: first)
  show "if {n \<in> set (module_order m). mn_wrappers n \<noteq> None} = {} then find_wrappers m = []
    else Some (find_wrappers m) \<in> mn_wrappers ` set (module_order m)"
  proof (cases "filter (\<lambda>n. mn_wrappers n \<noteq> None) (module_order m)")
    case Nil
    then show ?thesis by (auto simp: find_wrappers_def filter_empty_conv)
  next
    case (Cons n ns)
    from first [OF this] have "mn_wrappers n \<noteq> None" "n \<in> set (module_order m)" by blast+
    moreover from this Cons have "mn_wrappers n = Some (find_wrappers m)" by (simp add: find_wrappers_def)
    ultimately show ?thesis by (auto simp: image_iff intro!: bexI [of _ n])
  qed
qed

section \<open>Wrappers that the loader does not find\<close>

text \<open>
  C39. A model whose wrappers hang below \<open>module\<close>, as in a data-parallel wrapping, passes the validation of
  an adapter bundle and is not restored: when \<open>_find_kt_wrappers\<close> of \<open>lora.py\<close> finds none, the load still
  returns the accepted manifest, and the model is what it was after the manifest was checked.
\<close>

theorem unreached_wrappers_not_restored:
  assumes "lora_wrappers m = []" "safe_root fs adapter_path = Inr dir"
    and adapted: "(if list_ex aw_inner (kt_wrappers m0) then adapt m0 else (Inr (), m0)) = (Inr (), m)"
    and valid: "validate_adapter_manifest (codec.truncate ai) fs m dir = Inr v"
  shows "load_kt_adapter_artifacts ai adapt fs adapter_path m0 = (Inr (Some v), m)"
proof -
  have "exists_at fs (dir @ [adapter_manifest])" "is_ok (fused_lora_contract m)"
    using valid
    by (auto simp: validate_adapter_manifest_def rbind_eq_Inr read_json_Inr Let_def exists_at_def regular_file_def is_file_def
        path_exists_def is_ok_iff split: if_splits jvalue.splits option.splits)
  then show ?thesis
    using assms(1,2) adapted valid
    by (auto simp: is_ok_iff load_kt_adapter_artifacts_def elift_def egets_def ebind_def ereturn_def
        load_kt_moe_from_adapter_def split: if_splits)
qed

definition wrapped_model :: "nat \<Rightarrow> nat kt_model" where
  "wrapped_model x =
     \<lparr>km_nodes = [(0, sample_node None Missing (Ref 1)), (1, sample_node (Some [0]) Missing IsNone)],
      km_wrappers = [sample_wrapper x], km_root = 0\<rparr>"

definition bundle_disk :: "bundle_content disk" where
  "bundle_disk = snd (sample_save (sample_model 10) (\<lambda>_. Done) safetensors_adapter)"

theorem unreached_wrappers_not_restored_witness:
  "\<exists>v. load_kt_adapter_artifacts sample_io (ereturn ()) (dk_tree bundle_disk) ''/o'' (wrapped_model 40) = (Inr (Some v), wrapped_model 40) \<and>
     find_wrappers (wrapped_model 40) = [0]"
proof -
  let ?m = "wrapped_model 40"
  have "is_ok (validate_adapter_manifest (codec.truncate sample_io) (dk_tree bundle_disk) ?m [''o''])" by code_simp
  then obtain v where v: "validate_adapter_manifest (codec.truncate sample_io) (dk_tree bundle_disk) ?m [''o''] = Inr v"
    unfolding is_ok_iff by blast
  have none: "lora_wrappers ?m = []" and found: "find_wrappers ?m = [0]" by code_simp+
  have safe: "safe_root (dk_tree bundle_disk) ''/o'' = Inr [''o'']" by code_simp
  have adapted: "(if list_ex aw_inner (kt_wrappers ?m) then adapt ?m else (Inr (), ?m)) = (Inr (), ?m)" for adapt :: "(nat kt_model, unit) eop"
    by (simp add: kt_wrappers_def found) (simp add: wrapper_at_def wrapped_model_def sample_wrapper_def)
  from unreached_wrappers_not_restored [OF none safe adapted v, where adapt = "ereturn ()"] found
  show ?thesis by (intro exI [of _ v] conjI)
qed

end
