(* ===== verification/AdapterRestore.thy ===== *)
theory AdapterRestore
  imports AdapterWalk
begin

text \<open>
  Loading an adapter: once its manifest has been accepted the restoration cannot fail half way, and it
  puts exactly the saved tensors into the fused parameters of the wrappers.
\<close>

section \<open>The contract and the parameters\<close>

text \<open>An entry of the contract describes the parameter at a position.\<close>

definition describes :: "'a kt_model \<Rightarrow> string \<times> tensor_meta \<Rightarrow> string \<times> nat \<times> nat \<Rightarrow> bool" where
  "describes m e x \<longleftrightarrow>
     (case (e, x) of ((key, t), (key', i, k)) \<Rightarrow>
        key = key' \<and> tm_shape t = tn_shape (fused_param m i k) \<and>
        dtype_of (tn_dtype (fused_param m i k)) = Inr (tm_dtype t))"

lemma live_entries_Inr:
  assumes "live_entries layer nps = Inr es"
  shows "list_all2 (\<lambda>e np. fst e = fused_key layer (fst np) \<and> tm_shape (snd e) = tn_shape (snd np) \<and>
           dtype_of (tn_dtype (snd np)) = Inr (tm_dtype (snd e))) es nps"
  using assms
proof (induction layer nps arbitrary: es rule: live_entries.induct)
  case (2 layer name p ps)
  then show ?case by (auto simp: rbind_eq_Inr)
qed simp

definition positions :: "string \<Rightarrow> nat \<Rightarrow> (string \<times> nat \<times> nat) list" where
  "positions layer i = map (\<lambda>(k, name). (''layers.'' @ layer @ ''.experts.'' @ name, i, k)) (enumerate 0 fused_lora_names)"

lemma positions_unfold:
  "positions (str_of_int l) i = map (\<lambda>k. (fused_key l (fused_lora_names ! k), i, k)) [0..<6]"
  by (simp add: positions_def fused_lora_names_def fused_key_def upt_conv_Cons)

lemma positions_describe:
  assumes "live_entries l (zip fused_lora_names ps) = Inr es" "aw_fused_params (wrapper_at m i) = Some ps" "length ps = 6"
  shows "list_all2 (describes m) es (positions (str_of_int l) i)"
proof -
  have six: "length fused_lora_names = 6" by (simp add: fused_lora_names_def)
  note e = live_entries_Inr [OF assms(1)]
  have len: "length es = 6" using list_all2_lengthD [OF e] six assms(3) by simp
  have "describes m (es ! k) (positions (str_of_int l) i ! k)" if "k < 6" for k
    using list_all2_nthD [OF e, of k] that len six assms(2,3)
    by (auto simp: describes_def positions_unfold fused_param_def split: prod.splits)
  with len show ?thesis by (simp add: list_all2_conv_all_nth positions_unfold)
qed

lemma contract_owned:
  assumes "contract_entries (map (wrapper_at m) is) seen = Inr es"
    "\<And>i. i \<in> set is \<Longrightarrow> wrapper_uses_fused_lora (wrapper_at m i) \<Longrightarrow> has_fused (wrapper_at m i)"
  shows "\<exists>ow. owned_fused m is (map str_of_int seen) = Inr ow \<and> list_all2 (describes m) es ow"
  using assms
proof (induction "is" arbitrary: seen es)
  case (Cons i "is")
  let ?w = "wrapper_at m i"
  have six: "length fused_lora_names = 6" by (simp add: fused_lora_names_def)
  show ?case
  proof (cases "has_fused ?w")
    case False
    then have "\<not> wrapper_uses_fused_lora ?w" using Cons.prems(2) [of i] by auto
    with False Cons.prems(1) have "contract_entries (map (wrapper_at m) is) seen = Inr es" by simp
    with Cons.IH [of seen es] Cons.prems(2) False show ?thesis by auto
  next
    case True
    with Cons.prems(1) obtain l es1 es2 where l: "aw_layer ?w = Some l" "l \<notin> set seen"
      and len: "length (the (aw_fused_params ?w)) = 6"
      and live: "live_entries l (zip fused_lora_names (the (aw_fused_params ?w))) = Inr es1"
      and rest: "contract_entries (map (wrapper_at m) is) (l # seen) = Inr es2" and es: "es = es1 @ es2"
      by (auto simp: rbind_eq_Inr six split: option.splits if_splits)
    from True obtain ps where ps: "aw_fused_params ?w = Some ps"
      by (auto simp: has_fused_def split: option.splits)
    from Cons.IH [OF rest] Cons.prems(2) obtain ow where ow:
      "owned_fused m is (str_of_int l # map str_of_int seen) = Inr ow" "list_all2 (describes m) es2 ow" by auto
    have "layer_text ?w = str_of_int l" using l by (simp add: layer_text_def)
    moreover have "str_of_int l \<notin> set (map str_of_int seen)" using l(2) by (auto simp: str_of_int_inj)
    ultimately have "owned_fused m (i # is) (map str_of_int seen) = Inr (positions (str_of_int l) i @ ow)"
      using True len ow(1) six by (simp add: Let_def positions_def)
    moreover have "list_all2 (describes m) es (positions (str_of_int l) i @ ow)"
      unfolding es using positions_describe [OF live [unfolded ps option.sel] ps] len ps ow(2)
      by (auto intro: list_all2_appendI)
    ultimately show ?thesis by blast
  qed
qed simp

lemma contract_layers:
  "contract_entries (map (wrapper_at m) is) seen = Inr es \<Longrightarrow> i \<in> set is \<Longrightarrow> has_fused (wrapper_at m i) \<Longrightarrow>
     aw_layer (wrapper_at m i) \<noteq> None"
  by (induction "is" arbitrary: seen es) (auto simp: rbind_eq_Inr split: if_splits option.splits)

lemma owned_nonempty:
  "owned_fused m is seen = Inr ow \<Longrightarrow> i \<in> set is \<Longrightarrow> has_fused (wrapper_at m i) \<Longrightarrow> ow \<noteq> []"
  by (induction "is" arbitrary: seen ow)
    (auto simp: rbind_eq_Inr Let_def fused_lora_names_def split: if_splits)

section \<open>Copying\<close>

definition restored :: "(string, 'a tensor) dict \<Rightarrow> 'a awrap \<Rightarrow> 'a awrap" where
  "restored saved w =
     (if has_fused w
      then w\<lparr>aw_fused_params := Some (map (\<lambda>(name, p). p\<lparr>tn_data := tn_data (the (dget saved (fused_key (the (aw_layer w)) name)))\<rparr>)
                                      (zip fused_lora_names (the (aw_fused_params w)))), aw_dirty := True\<rparr>
      else w)"

lemma six_elements: "length ps = 6 \<Longrightarrow> \<exists>a b c d e f. ps = [a, b, c, d, e, f]"
  by (auto simp: numeral_eq_Suc length_Suc_conv)

lemma wrapper_at_set [simp]:
  "i < length (km_wrappers m) \<Longrightarrow> wrapper_at (set_wrapper i w m) j = (if j = i then w else wrapper_at m j)"
  "length (km_wrappers (set_wrapper i w m)) = length (km_wrappers m)"
  "km_nodes (set_wrapper i w m) = km_nodes m" "km_root (set_wrapper i w m) = km_root m"
  by (auto simp: wrapper_at_def set_wrapper_def)

lemma set_wrapper_twice [simp]: "set_wrapper i w (set_wrapper i w' m) = set_wrapper i w m"
  by (simp add: set_wrapper_def)

lemma copy_positions:
  assumes "has_fused w" "aw_layer w = Some l" "length (the (aw_fused_params w)) = 6"
    "i < length (km_wrappers m)" "wrapper_at m i = w"
  shows "fold (copy_fused saved) (positions (str_of_int l) i) m = set_wrapper i (restored saved w) m"
proof -
  from assms(1) obtain ps where ps: "aw_fused_params w = Some ps"
    by (auto simp: has_fused_def split: option.splits)
  with assms(3) obtain a b c d e f where "ps = [a, b, c, d, e, f]" using six_elements [of ps] by auto
  with assms ps show ?thesis
    by (simp add: positions_unfold copy_fused_def Let_def restored_def upt_conv_Cons fused_lora_names_def)
qed

lemma owned_seen:
  "owned_fused m is seen = Inr ow \<Longrightarrow> i \<in> set is \<Longrightarrow> has_fused (wrapper_at m i) \<Longrightarrow>
     layer_text (wrapper_at m i) \<notin> set seen \<and> length (the (aw_fused_params (wrapper_at m i))) = 6"
proof (induction "is" arbitrary: seen ow)
  case (Cons j "is")
  show ?case
  proof (cases "has_fused (wrapper_at m j)")
    case True
    with Cons.prems(1) obtain ow' where "owned_fused m is (layer_text (wrapper_at m j) # seen) = Inr ow'"
      and j: "layer_text (wrapper_at m j) \<notin> set seen" "length (the (aw_fused_params (wrapper_at m j))) = 6"
      by (auto simp: Let_def rbind_eq_Inr fused_lora_names_def split: if_splits)
    with Cons.IH [OF this(1)] Cons.prems(2,3) show ?thesis by auto
  next
    case False
    with Cons show ?thesis by (auto simp: Let_def)
  qed
qed simp

lemma copy_owned:
  assumes "owned_fused m is seen = Inr ow" "\<And>i. i \<in> set is \<Longrightarrow> i < length (km_wrappers m)"
    "\<And>i. i \<in> set is \<Longrightarrow> has_fused (wrapper_at m i) \<Longrightarrow> aw_layer (wrapper_at m i) \<noteq> None"
    "length (km_wrappers m1) = length (km_wrappers m)"
    "\<And>i. i \<in> set is \<Longrightarrow> has_fused (wrapper_at m i) \<Longrightarrow> wrapper_at m1 i = wrapper_at m i"
  shows "length (km_wrappers (fold (copy_fused saved) ow m1)) = length (km_wrappers m) \<and>
    km_nodes (fold (copy_fused saved) ow m1) = km_nodes m1 \<and> km_root (fold (copy_fused saved) ow m1) = km_root m1 \<and>
    (\<forall>j. wrapper_at (fold (copy_fused saved) ow m1) j =
      (if j \<in> set is \<and> has_fused (wrapper_at m j) then restored saved (wrapper_at m j) else wrapper_at m1 j))"
  using assms
proof (induction "is" arbitrary: seen ow m1)
  case (Cons i "is")
  let ?w = "wrapper_at m i"
  show ?case
  proof (cases "has_fused ?w")
    case False
    with Cons.prems(1) have "owned_fused m is seen = Inr ow" by (simp add: Let_def)
    from Cons.IH [OF this Cons.prems(2,3,4,5)] False show ?thesis by auto
  next
    case True
    from True Cons.prems(3) [of i] obtain l where l: "aw_layer ?w = Some l" by auto
    then have lt: "layer_text ?w = str_of_int l" by (simp add: layer_text_def)
    from True Cons.prems(1) obtain ow' where ow': "owned_fused m is (layer_text ?w # seen) = Inr ow'"
      and len: "length (the (aw_fused_params ?w)) = 6" and ow: "ow = positions (str_of_int l) i @ ow'"
      by (auto simp: Let_def rbind_eq_Inr positions_def lt fused_lora_names_def split: if_splits)
    let ?m2 = "set_wrapper i (restored saved ?w) m1"
    have bound: "i < length (km_wrappers m1)" using Cons.prems(2,4) by simp
    have first: "fold (copy_fused saved) (positions (str_of_int l) i) m1 = ?m2"
      using copy_positions [OF True l len bound] Cons.prems(5) [of i] True by simp
    have other: "wrapper_at ?m2 j = wrapper_at m j" if "j \<in> set is" "has_fused (wrapper_at m j)" for j
    proof -
      have "j \<noteq> i" using owned_seen [OF ow' that] by auto
      with that bound Cons.prems(5) [of j] show ?thesis by simp
    qed
    from Cons.IH [OF ow' Cons.prems(2,3) _ other] Cons.prems(4)
    have IH: "length (km_wrappers (fold (copy_fused saved) ow' ?m2)) = length (km_wrappers m) \<and>
      km_nodes (fold (copy_fused saved) ow' ?m2) = km_nodes ?m2 \<and> km_root (fold (copy_fused saved) ow' ?m2) = km_root ?m2 \<and>
      (\<forall>j. wrapper_at (fold (copy_fused saved) ow' ?m2) j =
        (if j \<in> set is \<and> has_fused (wrapper_at m j) then restored saved (wrapper_at m j) else wrapper_at ?m2 j))" by auto
    have "i \<notin> set is" using owned_seen [OF ow' _ True] by auto
    with IH bound True show ?thesis unfolding ow by (auto simp: first)
  qed
qed simp

section \<open>Restoring\<close>

text \<open>
  What \<open>safe_open\<close> and \<open>load_file\<close> say of one file: a tensor for every entry of the header, of the
  shape it records and of the dtype it names.
\<close>

definition tensor_law :: "('c, 'a) adapter_io \<Rightarrow> bool" where
  "tensor_law ai \<longleftrightarrow>
     (\<forall>c ts. cd_tensors ai c = Some ts \<longrightarrow>
        (\<exists>sd. ai_load ai c = Some sd \<and> set (dkeys sd) = set (dkeys ts) \<and>
           (\<forall>k t. dget sd k = Some t \<longrightarrow>
              (\<exists>h. dget ts k = Some h \<and> tn_shape t = tm_shape h \<and>
                   (\<forall>dtype. dtype_of dtype = Inr (tm_dtype h) \<longrightarrow> tn_dtype t = dtype)))))"

lemma validate_fused_file_Inr:
  assumes "validate_fused_file cd fs p contract = Inr u"
  shows "\<exists>n c actual. stat fs p = Some (File n c) \<and> cd_tensors cd c = Some actual \<and>
    set (dkeys actual) = set (dkeys contract) \<and> (\<forall>(key, t) \<in> set contract. dget actual key = Some t)"
  using assms
  by (auto simp: validate_fused_file_def open_shard_def rbind_eq_Inr list_all_iff
      split: if_splits option.splits node.splits)

lemma validated_parts:
  assumes "validate_adapter_manifest cd fs m root = Inr v"
  obtains contract u where "fused_lora_contract m = Inr contract" "regular_file fs (root @ [adapter_manifest])"
    "validate_fused_file cd fs (root @ [fused_file]) contract = Inr u"
  using assms
  by (auto simp: validate_adapter_manifest_def rbind_eq_Inr read_json_Inr Let_def split: if_splits jvalue.splits)

lemma fused_file_fits:
  assumes law: "tensor_law ai" and shaped: "list_all2 (describes m) es ow"
    and valid: "validate_fused_file (codec.truncate ai) fs p (sort_key fst es) = Inr u"
    and at: "stat fs p = Some (File n c)"
  shows "\<exists>saved. ai_load ai c = Some saved \<and> set (dkeys saved) = set (map fst ow) \<and>
    list_all (\<lambda>(key, i, k). tn_shape (the (dget saved key)) = tn_shape (fused_param m i k) \<and>
                tn_dtype (the (dget saved key)) = tn_dtype (fused_param m i k)) ow"
proof -
  from validate_fused_file_Inr [OF valid] at obtain actual where
    a: "cd_tensors ai c = Some actual" and keys: "set (dkeys actual) = set (dkeys es)"
    and known: "\<forall>(key, t) \<in> set es. dget actual key = Some t"
    by (auto simp: codec.defs dkeys_def)
  then have all: "\<And>key t. (key, t) \<in> set es \<Longrightarrow> dget actual key = Some t" by blast
  from law a obtain saved where s: "ai_load ai c = Some saved" "set (dkeys saved) = set (dkeys actual)"
    and t: "\<And>k t. dget saved k = Some t \<Longrightarrow> \<exists>h. dget actual k = Some h \<and> tn_shape t = tm_shape h \<and>
              (\<forall>dtype. dtype_of dtype = Inr (tm_dtype h) \<longrightarrow> tn_dtype t = dtype)"
    unfolding tensor_law_def by blast
  have fsts: "map fst es = map fst ow"
    using shaped by (induction rule: list_all2_induct) (auto simp: describes_def split: prod.splits)
  have "tn_shape (the (dget saved key)) = tn_shape (fused_param m i k) \<and>
      tn_dtype (the (dget saved key)) = tn_dtype (fused_param m i k)" if x: "(key, i, k) \<in> set ow" for key i k
  proof -
    from x shaped obtain h where h: "(key, h) \<in> set es" "describes m (key, h) (key, i, k)"
      by (auto simp: list_all2_conv_all_nth in_set_conv_nth describes_def split: prod.splits)
        (metis fst_conv prod.collapse snd_conv)
    from all [OF h(1)] have "dget actual key = Some h" .
    moreover from this have "key \<in> set (dkeys saved)" unfolding s(2) by (meson dget_Some_dmem dmem_def)
    then obtain t' where "dget saved key = Some t'" by (metis dget_None_iff dmem_def option.exhaust)
    ultimately show ?thesis using t [of key t'] h(2) by (auto simp: describes_def)
  qed
  then have "list_all (\<lambda>(key, i, k). tn_shape (the (dget saved key)) = tn_shape (fused_param m i k) \<and>
      tn_dtype (the (dget saved key)) = tn_dtype (fused_param m i k)) ow" by (auto simp: list_all_iff)
  moreover have "set (dkeys saved) = set (map fst ow)" unfolding fsts [symmetric] s(2) keys by (simp add: dkeys_def)
  ultimately show ?thesis using s(1) by blast
qed

text \<open>
  C13. Loading a bundle whose manifest is accepted restores every fused parameter and cannot fail on the
  way: whatever the names and shapes in the file, acceptance implies that the file is there, that it
  parses, that its keys are those of the owned wrappers and that every shape and dtype fits, so
  \<open>load_kt_adapter_artifacts\<close> returns the manifest, the six parameters of each wrapper found take the
  saved data, and nothing else of the model changes. It is stated for a model whose wrappers are found
  by both walks, with fused LoRA only, on a rank that owns all of the parameters or none.
\<close>

theorem validated_adapter_restores:
  assumes "tensor_law ai" "safe_root fs adapter_path = Inr root"
    and adapted: "(if list_ex aw_inner (kt_wrappers m0) then adapt m0 else (Inr (), m0)) = (Inr (), m)"
    and valid: "validate_adapter_manifest (codec.truncate ai) fs m root = Inr v"
    and found: "lora_wrappers m = find_wrappers m"
    and plain: "\<And>i. i \<in> set (find_wrappers m) \<Longrightarrow> i < length (km_wrappers m) \<and>
      aw_full (wrapper_at m i) = None \<and> aw_lora_experts (wrapper_at m i) = None"
    and owned: "(\<forall>i \<in> set (find_wrappers m). wrapper_uses_fused_lora (wrapper_at m i) \<longrightarrow> has_fused (wrapper_at m i)) \<or>
      (\<forall>i \<in> set (find_wrappers m). \<not> has_fused (wrapper_at m i))"
  shows "\<exists>n c saved m'. stat fs (root @ [fused_file]) = Some (File n c) \<and> ai_load ai c = Some saved \<and>
    load_kt_adapter_artifacts ai adapt fs adapter_path m0 = (Inr (Some v), m') \<and>
    km_nodes m' = km_nodes m \<and> km_root m' = km_root m \<and> length (km_wrappers m') = length (km_wrappers m) \<and>
    (\<forall>j. wrapper_at m' j = (if j \<in> set (find_wrappers m) then restored saved (wrapper_at m j) else wrapper_at m j))"
proof -
  let ?is = "find_wrappers m" and ?cd = "codec.truncate ai"
  from validated_parts [OF valid] obtain contract u where contract: "fused_lora_contract m = Inr contract"
    and man: "regular_file fs (root @ [adapter_manifest])"
    and fused: "validate_fused_file ?cd fs (root @ [fused_file]) contract = Inr u" by blast
  from contract obtain es where es: "contract_entries (map (wrapper_at m) ?is) [] = Inr es" "contract = sort_key fst es"
    by (auto simp: fused_lora_contract_def kt_wrappers_def rbind_eq_Inr)
  have there: "exists_at fs (root @ [adapter_manifest])"
    using man by (auto simp: exists_at_def regular_file_def is_file_def path_exists_def split: option.splits)
  have moe: "load_kt_adapter_artifacts ai adapt fs adapter_path m0 = (Inr (Some v), m')"
    if "load_kt_moe_from_adapter ai fs root m = (Inr (), m')" for m'
    using assms(2) adapted contract valid there that
    by (auto simp: load_kt_adapter_artifacts_def elift_def egets_def ebind_def ereturn_def split: if_splits)
  have none: "\<not> list_ex (\<lambda>w. case aw_full w of Some c \<Rightarrow> cw_full c | None \<Rightarrow> False) (map (wrapper_at m) ?is)"
    "\<not> list_ex (\<lambda>w. aw_lora_experts w \<noteq> None) (map (wrapper_at m) ?is)"
    using plain by (auto simp: list_ex_iff)
  from validate_fused_file_Inr [OF fused] obtain n c actual where
    f: "stat fs (root @ [fused_file]) = Some (File n c)" "cd_tensors ai c = Some actual"
    by (auto simp: codec.defs)
  then obtain saved0 where s0: "ai_load ai c = Some saved0" using assms(1) unfolding tensor_law_def by blast
  show ?thesis
  proof (cases "list_ex has_fused (map (wrapper_at m) ?is)")
    case False
    then have "load_kt_moe_from_adapter ai fs root m = (Inr (), m)"
      using none by (simp add: load_kt_moe_from_adapter_def found Let_def ebind_def ereturn_def)
    moreover have "restored saved0 (wrapper_at m j) = wrapper_at m j" if "j \<in> set ?is" for j
      using False that by (auto simp: restored_def list_ex_iff)
    ultimately show ?thesis using moe f(1) s0 by auto
  next
    case True
    then have all: "wrapper_uses_fused_lora (wrapper_at m i) \<Longrightarrow> has_fused (wrapper_at m i)" if "i \<in> set ?is" for i
      using owned that by (auto simp: list_ex_iff)
    from contract_owned [OF es(1) all] obtain ow where ow: "owned_fused m ?is [] = Inr ow" "list_all2 (describes m) es ow"
      by auto
    from fused_file_fits [OF assms(1) ow(2) fused [unfolded es(2)] f(1)] obtain saved where
      s: "ai_load ai c = Some saved" "set (dkeys saved) = set (map fst ow)"
        "list_all (\<lambda>(key, i, k). tn_shape (the (dget saved key)) = tn_shape (fused_param m i k) \<and>
                tn_dtype (the (dget saved key)) = tn_dtype (fused_param m i k)) ow" by blast
    have layered: "aw_layer (wrapper_at m i) \<noteq> None" if "i \<in> set ?is" "has_fused (wrapper_at m i)" for i
      using contract_layers [OF es(1)] that by auto
    have filled: "ow \<noteq> []" using owned_nonempty [OF ow(1)] True by (auto simp: list_ex_iff)
    let ?m' = "fold (copy_fused saved) ow m"
    have "load_fused_expert_lora ai fs ?is root m = (Inr (int (length ow)), ?m')"
      using ow(1) filled f(1) s
      by (simp add: load_fused_expert_lora_def ebind_def eupd_def ereturn_def elift_def eassert_def require_def)
    then have "load_kt_moe_from_adapter ai fs root m = (Inr (), ?m')"
      using none True by (auto simp: load_kt_moe_from_adapter_def found Let_def ebind_def ereturn_def)
    moreover note copy_owned [OF ow(1) _ layered refl refl, of saved]
    moreover have "restored saved (wrapper_at m j) = wrapper_at m j" if "\<not> has_fused (wrapper_at m j)" for j
      using that by (simp add: restored_def)
    ultimately show ?thesis using moe [of ?m'] f(1) s(1) plain by auto
  qed
qed

section \<open>A bundle on disk\<close>

lemma sample_tensor_law: "tensor_law sample_io"
  unfolding tensor_law_def
proof (intro allI impI)
  fix c ts assume "cd_tensors sample_io c = Some ts"
  then obtain sd where c: "c = Tensors sd"
    and ts: "ts = map (\<lambda>(k, t). (k, \<lparr>tm_shape = tn_shape t, tm_dtype = header_dtype (tn_dtype t)\<rparr>)) sd"
    by (auto simp: sample_io_def tensor_header_def split: bundle_content.splits)
  have keys: "dkeys ts = dkeys sd" unfolding ts dkeys_def by (induction sd) auto
  have "\<exists>h. dget ts k = Some h \<and> tn_shape t = tm_shape h \<and> (\<forall>dtype. dtype_of dtype = Inr (tm_dtype h) \<longrightarrow> tn_dtype t = dtype)"
    if "dget sd k = Some t" for k t
  proof -
    have "dget ts k = Some \<lparr>tm_shape = tn_shape t, tm_dtype = header_dtype (tn_dtype t)\<rparr>"
      using that unfolding ts by (induction sd) (auto split: if_splits)
    moreover have "dtype_of dtype = Inr (header_dtype d) \<Longrightarrow> d = dtype" for dtype d
      by (auto simp: header_dtype_def dtype_of_def split: if_splits)
    ultimately show ?thesis by auto
  qed
  then show "\<exists>sd. ai_load sample_io c = Some sd \<and> set (dkeys sd) = set (dkeys ts) \<and>
      (\<forall>k t. dget sd k = Some t \<longrightarrow> (\<exists>h. dget ts k = Some h \<and> tn_shape t = tm_shape h \<and>
         (\<forall>dtype. dtype_of dtype = Inr (tm_dtype h) \<longrightarrow> tn_dtype t = dtype)))"
    using c keys by (auto simp: sample_io_def)
qed

lemma bundle_disk_valid:
  "is_ok (validate_adapter_manifest (codec.truncate sample_io) (dk_tree bundle_disk) (sample_model 40) [''o''])"
  "safe_root (dk_tree bundle_disk) ''/o'' = Inr [''o'']"
  by code_simp+

lemma bundle_disk_fused:
  "(case stat (dk_tree bundle_disk) ([''o''] @ [fused_file]) of Some (File _ c) \<Rightarrow> ai_load sample_io c | _ \<Rightarrow> None) =
     Some (map (\<lambda>(k, p). (fused_key 3 (fused_lora_names ! k), p)) (enumerate 0 (the (aw_fused_params (sample_wrapper 10)))))"
  by code_simp

theorem validated_adapter_restores_witness:
  "\<exists>v m'. load_kt_adapter_artifacts sample_io (ereturn ()) (dk_tree bundle_disk) ''/o'' (sample_model 40) = (Inr (Some v), m') \<and>
     map tn_data (the (aw_fused_params (wrapper_at m' 0))) = [10, 11, 12, 13, 14, 15] \<and> aw_dirty (wrapper_at m' 0)"
proof -
  let ?m = "sample_model 40"
  obtain v where v: "validate_adapter_manifest (codec.truncate sample_io) (dk_tree bundle_disk) ?m [''o''] = Inr v"
    using bundle_disk_valid(1) unfolding is_ok_iff by blast
  have found: "find_wrappers ?m = [0]" "lora_wrappers ?m = find_wrappers ?m" by code_simp+
  have w: "wrapper_at ?m 0 = sample_wrapper 40" by (simp add: wrapper_at_def sample_model_def)
  have adapted: "(if list_ex aw_inner (kt_wrappers ?m) then adapt ?m else (Inr (), ?m)) = (Inr (), ?m)" for adapt :: "(nat kt_model, unit) eop"
    by (simp add: kt_wrappers_def found(1) w) (simp add: sample_wrapper_def)
  have plain: "i < length (km_wrappers ?m) \<and> aw_full (wrapper_at ?m i) = None \<and> aw_lora_experts (wrapper_at ?m i) = None"
    if "i \<in> set (find_wrappers ?m)" for i
    using that w by (simp add: found(1)) (simp add: sample_model_def sample_wrapper_def)
  have owned: "(\<forall>i \<in> set (find_wrappers ?m). wrapper_uses_fused_lora (wrapper_at ?m i) \<longrightarrow> has_fused (wrapper_at ?m i)) \<or>
      (\<forall>i \<in> set (find_wrappers ?m). \<not> has_fused (wrapper_at ?m i))" by code_simp
  let ?saved = "map (\<lambda>(k, p). (fused_key 3 (fused_lora_names ! k), p)) (enumerate 0 (the (aw_fused_params (sample_wrapper 10))))"
  obtain n c saved m' where run: "stat (dk_tree bundle_disk) ([''o''] @ [fused_file]) = Some (File n c)" "ai_load sample_io c = Some saved"
    "load_kt_adapter_artifacts sample_io (ereturn ()) (dk_tree bundle_disk) ''/o'' ?m = (Inr (Some v), m')"
    and all: "\<forall>j. wrapper_at m' j = (if j \<in> set (find_wrappers ?m) then restored saved (wrapper_at ?m j) else wrapper_at ?m j)"
    using validated_adapter_restores [OF sample_tensor_law bundle_disk_valid(2) adapted v found(2) plain owned, where adapt = "ereturn ()"]
    by blast
  have "saved = ?saved" using bundle_disk_fused unfolding run(1) option.case node.case run(2) option.inject .
  then have w': "wrapper_at m' 0 = restored ?saved (sample_wrapper 40)" using all [rule_format, of 0] w found(1) by simp
  have d: "map tn_data (the (aw_fused_params (restored ?saved (sample_wrapper 40)))) = [10, 11, 12, 13, 14, 15]"
    "aw_dirty (restored ?saved (sample_wrapper 40))" by code_simp+
  show ?thesis
    by (rule exI [of _ v], rule exI [of _ m'], intro conjI) (rule run(3), rule d(1) [folded w'], rule d(2) [folded w'])
qed

end
