(* ===== verification/AdapterSound.thy ===== *)
theory AdapterSound
  imports AdapterPublishAll AdapterRestore
begin

text \<open>Saving an adapter never leaves a manifest that lies.\<close>

section \<open>Saving\<close>

lemma stopped_describes:
  assumes wf: "tree_wf fs" and real: "real_path fs dir"
    and names: "\<And>s. adapter_manifest \<notin> names_of s \<and> stage_name (tk_stage tk) \<notin> names_of s"
    and stop: "stopped keep names_of cd tk m dir contract fs fs'"
  shows "(fs' = fs \<or> dget fs' (dir @ [adapter_manifest]) = None \<or> (\<exists>payload. manifest_describes cd dir contract payload fs')) \<and>
    (\<forall>q. prefix dir q \<or> dget fs' q = dget fs q)"
proof -
  let ?M = "dir @ [adapter_manifest]"
  have first: "fs' = without_manifest dir fs \<Longrightarrow> dget fs' ?M = None \<and> (\<forall>q. prefix dir q \<or> dget fs' q = dget fs q)"
    by (auto simp: without_manifest_def)
  have later: "(dget fs' ?M = None \<or> (\<exists>payload. manifest_describes cd dir contract payload fs')) \<and> (\<forall>q. prefix dir q \<or> dget fs' q = dget fs q)"
    if free: "dget (without_manifest dir fs) (stage_path dir tk) = None"
      and pub: "publishing (save_paths dir tk names_of s) (staged dir tk fs) cd tk m dir (stage_path dir tk) contract (find_plan m) (keep s) fs4"
      and fs': "fs' = fs4 \<or> fs' = cleared (stage_path dir tk) fs4" for s fs4
  proof -
    have ready: "save_ready fs dir tk (names_of s)" using wf real free names by (simp add: save_ready_def)
    note paths = pub [unfolded publishing_def save_paths_def, folded written_paths_def]
    have outside: "\<not> prefix (stage_path dir tk) q" if "\<not> prefix dir q" for q
      using that by (auto simp: stage_path_def prefix_def)
    have manifest: "\<not> prefix (stage_path dir tk) ?M" using not_below_stage [of dir tk adapter_manifest] by simp
    from paths show ?thesis
    proof (elim disjE exE conjE)
      assume c: "confined (written_paths dir tk (names_of s)) (staged dir tk fs) fs4"
      from cleared_entry [OF ready_real(1) [OF ready c] fs'] ready_real(2,3) [OF ready c] outside manifest show ?thesis by metis
    next
      fix fs3
      assume c: "confined (written_paths dir tk (names_of s)) (staged dir tk fs) fs3"
        and t: "only_temp (temp_path dir adapter_manifest (tk_manifest tk)) fs3 fs4"
      have r4: "real_path fs4 dir" using real_path_temp(1) [OF ready_real(1) [OF ready c] disjI1 [OF t]] .
      have "dget fs4 ?M = dget fs3 ?M" using t temp_not_target(2) unfolding only_temp_def by metis
      moreover have "dget fs4 q = dget fs3 q" if "\<not> prefix dir q" for q
      proof -
        have "q \<noteq> temp_path dir adapter_manifest (tk_manifest tk)" using that by (auto simp: temp_path_def)
        with t show ?thesis unfolding only_temp_def by blast
      qed
      ultimately show ?thesis
        using cleared_entry [OF r4 fs'] ready_real(2,3) [OF ready c] outside manifest by metis
    next
      fix produced payload
      assume "produced_ok (written_paths dir tk (names_of s)) (stage_path dir tk) (keep s) produced"
        "announced (written_paths dir tk (names_of s)) (staged dir tk fs) cd tk m dir contract (find_plan m) produced payload fs4"
      from announced_describes [OF ready this(2,1) fs'] show ?thesis by blast
    qed
  qed
  consider "fs' = fs" | "fs' = without_manifest dir fs" | s fs4 where
      "dget (without_manifest dir fs) (stage_path dir tk) = None"
      "publishing (save_paths dir tk names_of s) (staged dir tk fs) cd tk m dir (stage_path dir tk) contract (find_plan m) (keep s) fs4"
      "fs' = fs4 \<or> fs' = cleared (stage_path dir tk) fs4"
    using stop unfolding stopped_def by blast
  then show ?thesis
  proof cases
    case 1
    then show ?thesis by simp
  next
    case 2
    from first [OF 2] show ?thesis by simp
  next
    case 3
    from later [OF 3] show ?thesis by simp
  qed
qed

text \<open>Every name but those of the manifest and of the staging directory.\<close>

definition any_name :: "tokens \<Rightarrow> string \<Rightarrow> string set" where
  "any_name tk s = - {adapter_manifest, stage_name (tk_stage tk)}"

lemma moe_any_name:
  assumes "stage_for (save_paths dir tk (any_name tk) s) fs2 (stage_path dir tk)" "vacant fs2 (stage_path dir tk)"
  shows "stays (save_paths dir tk (any_name tk) s) fs2 (save_kt_moe_to_adapter ai io tk m (stage_path dir tk))"
proof (rule stays_moe [OF assms(1)])
  show "(\<forall>i \<in> set (lora_wrappers m). aw_full (wrapper_at m i) = None) \<or>
      vacant fs2 (stage_path dir tk) \<and>
      (\<forall>n \<in> insert index_name (new_names (tk_generation tk)). stage_path dir tk @ [n] \<in> save_paths dir tk (any_name tk) s)"
    using assms(2) new_names_facts by (auto simp: save_paths_def written_paths_def [symmetric] any_name_def)
qed (auto simp: save_paths_def written_paths_def [symmetric] any_name_def)

text \<open>
  C8. Saving an adapter never leaves a manifest that lies. Let any operation of \<open>save_kt_adapter_artifacts\<close>
  fail, at any point, half way or not, and any check raise: afterwards the file tree is unchanged, or the
  bundle has no manifest, or it has the complete new one (only a last \<open>fsync\<close> or the removal of a
  temporary file failed), whose records give the true size, digest and contract of every file it lists,
  the fused file and the adapter configuration among them. A save that returns has published such a
  manifest, the one it returns; and no run changes anything outside the bundle directory. The directory
  is reached without links.
\<close>

theorem adapter_save_never_lies:
  fixes ai :: "('c, 'a) adapter_io" and d :: "'c disk"
  assumes "tree_wf (dk_tree d)" "real_path (dk_tree d) (absolute_path (codec.truncate ai) output_dir)"
    "fused_lora_contract m = Inr contract" "contract \<noteq> []"
    and run: "save_kt_adapter_artifacts ai io tk m output_dir d = (r, d')"
  shows "(case r of
      Inl e \<Rightarrow> dk_tree d' = dk_tree d \<or>
        dget (dk_tree d') (absolute_path (codec.truncate ai) output_dir @ [adapter_manifest]) = None \<or>
        (\<exists>payload. manifest_describes (codec.truncate ai) (absolute_path (codec.truncate ai) output_dir) contract payload (dk_tree d'))
    | Inr v \<Rightarrow> (\<exists>w. v = Some w \<and>
        manifest_describes (codec.truncate ai) (absolute_path (codec.truncate ai) output_dir) contract (am_payload w) (dk_tree d'))) \<and>
    (\<forall>q. prefix (absolute_path (codec.truncate ai) output_dir) q \<or> dget (dk_tree d') q = dget (dk_tree d) q)"
proof -
  let ?O = "absolute_path (codec.truncate ai) output_dir"
  have std: "s \<in> any_name tk s \<and> adapter_manifest \<notin> any_name tk s \<and> stage_name (tk_stage tk) \<notin> any_name tk s"
    if "s \<in> set standard_adapters" for s using that by (auto simp: any_name_def standard_adapters_def)
  have triple: "etriple (\<lambda>d. dk_tree d = dk_tree d0) (save_kt_adapter_artifacts ai io tk m output_dir)
    (\<lambda>v d'. saved (\<lambda>_. []) (any_name tk) (codec.truncate ai) tk m ?O contract (dk_tree d0) v (dk_tree d'))
    (\<lambda>d'. stopped (\<lambda>_. []) (any_name tk) (codec.truncate ai) tk m ?O contract (dk_tree d0) (dk_tree d'))" if "d0 = d" for d0
    unfolding that
  proof (rule save_adapter_triple [OF assms(1-4) std])
    fix dir W s and fs2 :: "'c tree"
    assume "W = save_paths dir tk (any_name tk) s" "stage_for W fs2 (stage_path dir tk)" "vacant fs2 (stage_path dir tk)"
    with moe_any_name have "stays W fs2 (save_kt_moe_to_adapter ai io tk m (stage_path dir tk))" by blast
    then show "etriple (\<lambda>d. confined W fs2 (dk_tree d) \<and> dmem (dk_tree d) (stage_path dir tk @ [s]))
        (save_kt_moe_to_adapter ai io tk m (stage_path dir tk))
        (\<lambda>_ d. confined W fs2 (dk_tree d) \<and> (\<forall>x \<in> set []. dmem (dk_tree d) (stage_path dir tk @ [x])))
        (\<lambda>d. confined W fs2 (dk_tree d))"
      unfolding stays_def by (rule etriple_weaken) auto
  qed
  show ?thesis
  proof (cases r)
    case (Inl e)
    have names: "adapter_manifest \<notin> any_name tk s \<and> stage_name (tk_stage tk) \<notin> any_name tk s" for s by (simp add: any_name_def)
    have "stopped (\<lambda>_. []) (any_name tk) (codec.truncate ai) tk m ?O contract (dk_tree d) (dk_tree d')"
      using etripleD(2) [OF triple [OF refl] refl run [unfolded Inl]] .
    from stopped_describes [where names_of = "any_name tk", OF assms(1,2) names this] Inl show ?thesis by simp
  next
    case (Inr v)
    from etripleD(1) [OF triple [OF refl] refl run [unfolded Inr]]
    obtain w s names fs4 where s: "v = Some w" "dget (without_manifest ?O (dk_tree d)) (stage_path ?O tk) = None"
      "produced_ok (written_paths ?O tk (any_name tk s)) (stage_path ?O tk) ((\<lambda>_. []) s) names"
      "announced (written_paths ?O tk (any_name tk s)) (staged ?O tk (dk_tree d)) (codec.truncate ai) tk m ?O contract (find_plan m) names
         (am_payload w) fs4" "dk_tree d' = fs4 \<or> dk_tree d' = cleared (stage_path ?O tk) fs4"
      unfolding saved_def save_paths_def written_paths_def [symmetric] by blast
    have ready: "save_ready (dk_tree d) ?O tk (any_name tk s)" using assms(1,2) s(2) by (simp add: save_ready_def any_name_def)
    from announced_describes [OF ready s(4,3,5)] s(1) Inr show ?thesis by auto
  qed
qed

lemma sample_bundle_facts:
  "tree_wf (sample_bundle safetensors_adapter)" "real_path (sample_bundle safetensors_adapter) [''o'']"
proof -
  let ?fs = "sample_bundle safetensors_adapter"
  have "dwf ?fs" by (simp add: sample_bundle_def adapter_config_def safetensors_adapter_def)
  then show "tree_wf ?fs"
    by (subst tree_wf_all) (simp_all add: sample_bundle_def entry_name_def adapter_config_def safetensors_adapter_def slash_def)
  have "k = 1" if "0 < k" "k \<le> length [''o'']" for k :: nat using that by simp
  then show "real_path ?fs [''o'']" unfolding real_path_def by (auto simp: sample_bundle_def)
qed

text \<open>The last \<open>fsync\<close> fails: the save raises, and the manifest it leaves is the complete one.\<close>

theorem adapter_save_never_lies_witness:
  "\<exists>e (d' :: bundle_content disk) contract payload.
     sample_save (sample_model 10) (\<lambda>n. if n = 14 then Fails else Done) safetensors_adapter = (Inl e, d') \<and>
     manifest_describes (codec.truncate sample_io) [''o''] contract payload (dk_tree d')"
proof -
  let ?io = "\<lambda>n :: nat. if n = 14 then Fails else Done" and ?m = "sample_model 10"
  let ?d = "\<lparr>dk_tree = sample_bundle safetensors_adapter, dk_tick = 0\<rparr> :: bundle_content disk"
  let ?run = "sample_save ?m ?io safetensors_adapter"
  have e: "\<not> is_ok (fst ?run)" and there: "dget (dk_tree (snd ?run)) ([''o''] @ [adapter_manifest]) \<noteq> None"
    and before: "dget (sample_bundle safetensors_adapter) ([''o''] @ [adapter_manifest]) = None" by code_simp+
  from there before have changed: "dk_tree (snd ?run) \<noteq> sample_bundle safetensors_adapter" by metis
  obtain r d' where run: "?run = (r, d')" by force
  have c: "case fused_lora_contract ?m of Inr (_ # _) \<Rightarrow> True | _ \<Rightarrow> False" by code_simp
  then obtain contract where contract: "fused_lora_contract ?m = Inr contract" "contract \<noteq> []"
    by (auto split: sum.splits list.splits)
  have out: "absolute_path (codec.truncate sample_io) ''/o'' = [''o'']" by code_simp
  obtain err where r: "r = Inl err" using e run by (cases r) auto
  have real: "real_path (dk_tree ?d) (absolute_path (codec.truncate sample_io) ''/o'')" unfolding out using sample_bundle_facts(2) by simp
  have wf: "tree_wf (dk_tree ?d)" using sample_bundle_facts(1) by simp
  have run': "save_kt_adapter_artifacts sample_io ?io sample_tokens ?m ''/o'' ?d = (r, d')" using run unfolding sample_save_def .
  from adapter_save_never_lies [OF wf real contract run', unfolded r out sum.case]
  obtain payload where "manifest_describes (codec.truncate sample_io) [''o''] contract payload (dk_tree d')"
    using there changed run by auto
  with run r show ?thesis by blast
qed

end
