(* ===== verification/AdapterRoundtrip.thy ===== *)
theory AdapterRoundtrip
  imports AdapterPublishAll
begin

text \<open>
  A bundle that a save returns is one that the loader accepts: the document is parsed back, its
  provenance is that of the model, and its records are those of the files.
\<close>

section \<open>Distinct keys\<close>

lemma str_of_int_no_dot: "CHR ''.'' \<notin> set (str_of_int i)"
proof -
  have "CHR ''.'' \<notin> set (digits n)" for n using digits_are_digits [of n] by auto
  then show ?thesis by (simp add: str_of_int_def)
qed

lemma fused_key_inj: "fused_key l x = fused_key l' y \<longleftrightarrow> l = l' \<and> x = y"
proof
  have tw: "takeWhile (\<lambda>c. c \<noteq> CHR ''.'') (str_of_int i @ CHR ''.'' # s) = str_of_int i" for i s
    using str_of_int_no_dot [of i] by (subst takeWhile_append2) auto
  assume "fused_key l x = fused_key l' y"
  then have eq: "str_of_int l @ CHR ''.'' # (''experts.'' @ x) = str_of_int l' @ CHR ''.'' # (''experts.'' @ y)"
    by (simp add: fused_key_def)
  then have "str_of_int l = str_of_int l'" using tw [of l] tw [of l'] by metis
  with eq show "l = l' \<and> x = y" by (simp add: str_of_int_inj)
qed simp

text \<open>Every key is one of a layer not seen before, under one of the six names.\<close>

lemma live_keys: "live_entries l nps = Inr es \<Longrightarrow> dkeys es = map (fused_key l) (map fst nps)"
  by (induction l nps arbitrary: es rule: live_entries.induct) (auto simp: rbind_eq_Inr dkeys_def)

lemma derived_keys:
  assumes "derived_entries l w = Inr es"
  shows "dkeys es = map (fused_key l) fused_lora_names"
proof -
  obtain e i h r where "es = map (\<lambda>(name, shape). (fused_key l name, \<lparr>tm_shape = shape, tm_dtype = ''BF16''\<rparr>))
      (zip fused_lora_names (derived_shapes e i h r))"
    using assms unfolding derived_entries_def by (simp split: option.splits prod.splits if_splits) blast
  moreover have "length (derived_shapes e i h r) = length fused_lora_names" by (simp add: derived_shapes_def fused_lora_names_def)
  then have "map fst (zip fused_lora_names (derived_shapes e i h r)) = fused_lora_names" by simp
  then have "map (fused_key l \<circ> fst) (zip fused_lora_names (derived_shapes e i h r)) = map (fused_key l) fused_lora_names"
    unfolding list.map_comp [symmetric] by (rule arg_cong)
  ultimately show ?thesis by (simp add: dkeys_def case_prod_unfold comp_def)
qed

lemma layer_keys:
  assumes "(if has_fused w then live_entries l (zip fused_lora_names (the (aw_fused_params w))) else derived_entries l w) = Inr es"
    "has_fused w \<longrightarrow> length (the (aw_fused_params w)) = length fused_lora_names"
  shows "dkeys es = map (fused_key l) fused_lora_names"
  using assms live_keys [of l "zip fused_lora_names (the (aw_fused_params w))" es] derived_keys [of l w es]
  by (cases "has_fused w") simp_all

lemma contract_entries_keys:
  assumes "contract_entries ws seen = Inr es"
  shows "dwf es \<and> (\<forall>key \<in> set (dkeys es). \<exists>l x. key = fused_key l x \<and> l \<notin> set seen)"
  using assms
proof (induction ws arbitrary: seen es)
  case (Cons w ws)
  show ?case
  proof (cases "\<not> has_fused w \<and> \<not> wrapper_uses_fused_lora w")
    case True
    with Cons.prems Cons.IH show ?thesis by simp
  next
    case False
    with Cons.prems obtain l es1 es2 where l: "l \<notin> set seen"
      and len: "has_fused w \<longrightarrow> length (the (aw_fused_params w)) = length fused_lora_names"
      and one: "(if has_fused w then live_entries l (zip fused_lora_names (the (aw_fused_params w))) else derived_entries l w) = Inr es1"
      and rest: "contract_entries ws (l # seen) = Inr es2" and es: "es = es1 @ es2"
      by (auto simp: rbind_eq_Inr split: option.splits if_splits)
    note k1 = layer_keys [OF one len] and k2 = Cons.IH [OF rest]
    have "distinct (map (fused_key l) fused_lora_names)"
      by (simp add: distinct_map inj_on_def fused_key_inj) (simp add: fused_lora_names_def)
    moreover have "fused_key l x \<notin> set (dkeys es2)" for x using k2 by (auto simp: fused_key_inj)
    ultimately have "dwf es" using k1 k2 by (auto simp: dwf_def es dkeys_def)
    moreover have "\<exists>l x. key = fused_key l x \<and> l \<notin> set seen" if "key \<in> set (dkeys es)" for key
    proof -
      from that have "key \<in> set (dkeys es1) \<or> key \<in> set (dkeys es2)" by (auto simp: es dkeys_def)
      then show ?thesis
      proof
        assume "key \<in> set (dkeys es1)"
        with k1 l show ?thesis by auto
      next
        assume "key \<in> set (dkeys es2)"
        with k2 obtain l' x where "key = fused_key l' x \<and> l' \<notin> set (l # seen)" by blast
        then show ?thesis by auto
      qed
    qed
    ultimately show ?thesis by blast
  qed
qed simp

lemma contract_wf:
  assumes "fused_lora_contract m = Inr contract"
  shows "dwf contract"
proof -
  from assms obtain es where es: "contract_entries (kt_wrappers m) [] = Inr es" "contract = sort_key fst es"
    by (auto simp: fused_lora_contract_def rbind_eq_Inr)
  have "dwf es" using contract_entries_keys [OF es(1)] by blast
  moreover have "mset (dkeys (sort_key fst es)) = mset (dkeys es)" unfolding dkeys_def mset_map by simp
  ultimately show ?thesis unfolding es(2) dwf_def by (metis mset_eq_imp_distinct_iff)
qed

lemma contract_json_wf: "dwf contract \<Longrightarrow> jwf (contract_json contract)"
proof -
  assume d: "dwf contract"
  have "dkeys (map (\<lambda>(key, t). (key, VObject [(''shape'', VList (map VInt (tm_shape t))), (''dtype'', VStr (tm_dtype t))])) contract) = dkeys contract"
    by (simp add: dkeys_def case_prod_unfold)
  with d show ?thesis by (auto simp: contract_json_def dwf_def list_all_iff)
qed

lemma record_wf:
  assumes "artifact_record cd fs p c = Inr r" "\<And>contract. c = Some contract \<Longrightarrow> dwf contract"
  shows "jwf r"
  using assms contract_json_wf
  by (cases c) (auto simp: artifact_record_def rbind_eq_Inr dmem_def dkeys_def split: if_splits)

lemma jwf_dget: "jwf (VObject d) \<Longrightarrow> dget d k = Some v \<Longrightarrow> jwf v"
  by (auto simp: list_all_iff dget_def dest!: map_of_SomeD)

lemma jwf_obj_get: "jwf (VObject d) \<Longrightarrow> jwf (obj_get d k)"
  using jwf_dget [of d k] by (simp add: obj_get_def split: option.split)

section \<open>Provenance without a plan\<close>

definition plain_provenance :: "string \<Rightarrow> string option \<Rightarrow> int \<Rightarrow> ratio \<Rightarrow> (string, jvalue) dict" where
  "plain_provenance fmt name rank alpha =
     [(''expert_weight_format'', VStr fmt),
      (''base'', VObject [(''model_name_or_path'', case name of Some s \<Rightarrow> VStr s | None \<Rightarrow> VNull)]),
      (''lora'', VObject [(''rank'', VInt rank), (''alpha'', VFloat (Finite alpha))])]"

lemma provenance_plain:
  assumes "adapter_provenance cd fs m None = Inr provenance" "runtime_expert_weight_format m None \<noteq> Inr ''rawint4''"
  obtains fmt name rank alpha where "provenance = plain_provenance fmt name rank alpha" "fmt \<noteq> ''rawint4''"
    "\<And>fs'. adapter_provenance cd fs' m None = Inr provenance"
proof -
  from assms obtain rank alpha fmt where p: "lora_settings m None = Inr (rank, alpha)" "runtime_expert_weight_format m None = Inr fmt"
    and f: "fmt \<noteq> ''rawint4''"
    by (auto simp: adapter_provenance_def rbind_eq_Inr)
  have all: "adapter_provenance cd fs' m None = Inr (plain_provenance fmt (base_model_name m None) rank alpha)" for fs'
    using p f by (simp add: adapter_provenance_def plain_provenance_def Let_def)
  with assms(1) have eq: "provenance = plain_provenance fmt (base_model_name m None) rank alpha" by simp
  show thesis by (rule that [OF eq f]) (use all eq in simp)
qed

lemma plain_payload_wf:
  assumes "dwf artifacts" "\<forall>p \<in> set artifacts. jwf (snd p)"
  shows "jwf (VObject (bundle_payload (plain_provenance fmt name rank alpha) artifacts))"
  using assms by (simp add: bundle_payload_def plain_provenance_def dmem_def dkeys_def list_all_iff split: option.split)

lemma provenance_accepted:
  assumes same: "jsame (VObject (bundle_payload (plain_provenance fmt name rank alpha) artifacts)) (VObject e)"
    and wf: "jwf (VObject (bundle_payload (plain_provenance fmt name rank alpha) artifacts))" "jwf (VObject e)"
    and fmt: "fmt \<noteq> ''rawint4''"
  shows "provenance_matches cd fs e (plain_provenance fmt name rank alpha) = Inr ()"
    "equals_int (obj_get e ''version'') 1" "obj_get e ''status'' = VStr ''ready''"
proof -
  let ?p = "bundle_payload (plain_provenance fmt name rank alpha) artifacts" and ?x = "plain_provenance fmt name rank alpha"
  have get: "jsame (obj_get ?p k) (obj_get e k)" for k using jsame_get [OF same] wf by simp
  have at: "obj_get ?p ''version'' = VInt 1" "obj_get ?p ''status'' = VStr ''ready''"
    "obj_get ?p ''expert_weight_format'' = VStr fmt" "obj_get ?p ''base'' = obj_get ?x ''base''" "obj_get ?p ''lora'' = obj_get ?x ''lora''"
    "obj_get ?p ''non_expert_cache'' = VNull" "obj_get ?p ''int8_experts'' = VNull" "obj_get ?p ''expert_quantization'' = VNull"
    by (simp_all add: bundle_payload_def plain_provenance_def obj_get_def)
  have e: "obj_get e ''version'' = VInt 1" "obj_get e ''status'' = VStr ''ready''" "obj_get e ''expert_weight_format'' = VStr fmt"
    "obj_get e ''non_expert_cache'' = VNull" "obj_get e ''int8_experts'' = VNull" "obj_get e ''expert_quantization'' = VNull"
    using get [of "''version''"] get [of "''status''"] get [of "''expert_weight_format''"] get [of "''non_expert_cache''"]
      get [of "''int8_experts''"] get [of "''expert_quantization''"] by (simp_all add: at)
  then show "equals_int (obj_get e ''version'') 1" "obj_get e ''status'' = VStr ''ready''" by (simp_all add: equals_int_def)
  note wfe = jwf_obj_get [OF wf(2)]
  have mirror: "jeq (obj_get e k) (obj_get ?x k)" if "obj_get ?p k = obj_get ?x k" "jwf (obj_get ?x k)" for k
    using jsame_jeq_sym [OF get [of k, unfolded that(1)] that(2) wfe] .
  have "jwf (obj_get ?x ''base'')" "jwf (obj_get ?x ''lora'')"
    by (simp_all add: plain_provenance_def obj_get_def dmem_def dkeys_def split: option.split)
  note parts = mirror [OF at(4) this(1)] mirror [OF at(5) this(2)]
  have x: "obj_get ?x ''expert_weight_format'' = VStr fmt" "obj_get ?x ''non_expert_cache'' = VNull"
    "obj_get ?x ''int8_experts'' = VNull" "obj_get ?x ''expert_quantization'' = VNull"
    by (simp_all add: plain_provenance_def obj_get_def)
  have "saved_format e = VStr fmt" using e by (simp add: saved_format_def)
  then show "provenance_matches cd fs e ?x = Inr ()" using parts fmt e x by (simp add: provenance_matches_def require_def)
qed

section \<open>Records read back\<close>

lemma record_fields:
  assumes "artifact_record cd fs p c = Inr r" "jsame r v" "jwf r" "jwf v"
  obtains fields digest where "v = VObject fields" "dwf fields" "regular_file fs p" "sha256_file cd fs p = Inr digest"
    "obj_get fields ''size'' = VInt (file_size fs p)" "obj_get fields ''sha256'' = VStr digest"
    "\<And>contract. c = Some contract \<Longrightarrow> obj_get fields ''tensor_count'' = VInt (int (length contract)) \<and>
       jeq (obj_get fields ''tensors'') (contract_json contract)"
proof -
  from assms(1) obtain digest rest where reg: "regular_file fs p" and sha: "sha256_file cd fs p = Inr digest"
    and r: "r = VObject ([(''size'', VInt (file_size fs p)), (''sha256'', VStr digest)] @ rest)"
    and rest: "\<And>contract. c = Some contract \<Longrightarrow>
       rest = [(''tensor_count'', VInt (int (length contract))), (''tensors'', contract_json contract)]"
    by (cases c) (auto simp: artifact_record_def rbind_eq_Inr split: if_splits)
  from assms(2) r obtain fields where v: "v = VObject fields" using jsame_object_cases by blast
  have wf: "dwf fields" using assms(4) v by simp
  let ?d = "[(''size'', VInt (file_size fs p)), (''sha256'', VStr digest)] @ rest"
  have get: "jsame (obj_get ?d k) (obj_get fields k)" for k
    by (rule jsame_get) (use assms(2,3) r v wf in simp_all)
  have size: "obj_get fields ''size'' = VInt (file_size fs p)" using get [of "''size''"] by (simp add: obj_get_def)
  have hash: "obj_get fields ''sha256'' = VStr digest" using get [of "''sha256''"] by (simp add: obj_get_def)
  have "obj_get fields ''tensor_count'' = VInt (int (length contract)) \<and> jeq (obj_get fields ''tensors'') (contract_json contract)"
    if c: "c = Some contract" for contract
  proof
    show "obj_get fields ''tensor_count'' = VInt (int (length contract))"
      using get [of "''tensor_count''"] rest [OF c] by (simp add: obj_get_def)
    have "obj_get ?d ''tensors'' = contract_json contract" using rest [OF c] by (simp add: obj_get_def)
    moreover from this have "jsame (contract_json contract) (obj_get fields ''tensors'')" using get [of "''tensors''"] by simp
    moreover have "jwf (contract_json contract)" using assms(3) r rest [OF c] by simp
    moreover have "jwf (obj_get fields ''tensors'')" by (rule jwf_obj_get) (use assms(4) v in simp)
    ultimately show "jeq (obj_get fields ''tensors'') (contract_json contract)" using jsame_jeq_sym by blast
  qed
  with that [OF v wf reg sha size hash] show thesis by blast
qed

lemma artifacts_checked:
  assumes "\<And>name v. (name, v) \<in> set as \<Longrightarrow> entry_name name \<and>
    (\<exists>c r. artifact_record cd fs (dir @ [name]) c = Inr r \<and> jsame r v \<and> jwf r \<and> jwf v)"
  shows "\<exists>ps. check_artifacts cd fs dir as = Inr ps"
  using assms
proof (induction as)
  case (Cons a as)
  obtain name v where a: "a = (name, v)" by fastforce
  have n: "entry_name name" using Cons.prems [of name v] a by auto
  obtain c r where r: "artifact_record cd fs (dir @ [name]) c = Inr r" "jsame r v" "jwf r" "jwf v"
    using Cons.prems [of name v] a by auto
  obtain fields digest where v: "v = VObject fields" "regular_file fs (dir @ [name])" "sha256_file cd fs (dir @ [name]) = Inr digest"
    "obj_get fields ''size'' = VInt (file_size fs (dir @ [name]))" "obj_get fields ''sha256'' = VStr digest"
    using record_fields [OF r] by metis
  obtain ps where ps: "check_artifacts cd fs dir as = Inr ps" using Cons.IH Cons.prems by (meson list.set_intros(2))
  have parts: "path_parts name = [name]" using path_parts_join [of "[name]"] n by simp
  have "is_basename name" using n by (simp add: is_basename_def entry_name_def)
  then show ?case using v ps by (simp add: a parts Let_def numbers_equal_def number_of_def feq_refl)
qed simp

section \<open>A save that keeps the standard adapter\<close>

definition plain_names :: "tokens \<Rightarrow> string \<Rightarrow> string set" where
  "plain_names tk s = {s, fused_file, fused_temp (tk_fused tk)}"

lemma stays_moe_plain:
  assumes "stage_for W fs0 stage" "stage @ [fused_file] \<in> W" "stage @ [fused_temp (tk_fused tk)] \<in> W"
    "\<forall>i \<in> set (lora_wrappers m). aw_full (wrapper_at m i) = None \<and> aw_lora_experts (wrapper_at m i) = None"
  shows "stays W fs0 (save_kt_moe_to_adapter ai io tk m stage)"
proof -
  let ?ws = "map (wrapper_at m) (lora_wrappers m)"
  have "\<not> list_ex (\<lambda>w. case aw_full w of Some c \<Rightarrow> cw_full c | None \<Rightarrow> False) ?ws" "\<not> list_ex (\<lambda>w. aw_lora_experts w \<noteq> None) ?ws"
    using assms(4) by (auto simp: list_ex_iff)
  then show ?thesis
    unfolding save_kt_moe_to_adapter_def Let_def
    by (simp only: if_False) (intro stays_if stays_ebind stays_pure stays_fused assms(1-3))
qed

text \<open>A writer that stays within some names of the staging directory keeps every other entry of it.\<close>

lemma stays_keeps:
  fixes fs2 :: "'c tree" and op :: "('c disk, 'b) eop"
  assumes "stage_for W fs2 stage" "\<And>x. x \<in> V \<Longrightarrow> stage @ [x] \<in> W" "s \<notin> V"
    and op: "\<And>fs0. stage_for (entries_of stage V) fs0 stage \<Longrightarrow> stays (entries_of stage V) fs0 op"
  shows "etriple (\<lambda>d. confined W fs2 (dk_tree d) \<and> dmem (dk_tree d) (stage @ [s])) op
    (\<lambda>_ d. confined W fs2 (dk_tree d) \<and> dmem (dk_tree d) (stage @ [s])) (\<lambda>d. confined W fs2 (dk_tree d))"
  unfolding etriple_def
proof (intro allI impI)
  fix d :: "'c disk" assume d: "confined W fs2 (dk_tree d) \<and> dmem (dk_tree d) (stage @ [s])"
  let ?V = "entries_of stage V"
  have "take k stage \<notin> ?V" if "k \<le> length stage" for k using that entries_of_length [of "take k stage" stage] by fastforce
  then have "stage_for ?V (dk_tree d) stage" using stage_own [OF assms(1)] d by (simp add: stage_for_def)
  from staysD [OF op [OF this] confined_refl] have c: "confined ?V (dk_tree d) (dk_tree (snd (op d)))" .
  have "?V \<subseteq> W" using assms(2) by (auto simp: entries_of_def)
  with c d have all: "confined W fs2 (dk_tree (snd (op d)))" using confined_mono confined_trans by blast
  have "stage @ [s] \<notin> ?V" using assms(3) by (auto simp: entries_of_def)
  from confined_outside [OF c this] d have "dmem (dk_tree (snd (op d))) (stage @ [s])" by (metis dget_None_iff)
  with all show "case op d of (Inl _, d') \<Rightarrow> confined W fs2 (dk_tree d')
      | (Inr _, d') \<Rightarrow> confined W fs2 (dk_tree d') \<and> dmem (dk_tree d') (stage @ [s])"
    by (auto split: prod.split sum.split)
qed

lemma standard_not_fused:
  "s \<in> set standard_adapters \<Longrightarrow> s \<notin> {fused_file, fused_temp t}"
  by (auto simp: standard_adapters_def safetensors_adapter_def bin_adapter_def fused_file_def fused_temp_def)

lemma moe_keeps_standard:
  assumes "stage_for W fs2 stage" "\<And>x. x \<in> plain_names tk s \<Longrightarrow> stage @ [x] \<in> W" "s \<in> set standard_adapters"
    "\<forall>i \<in> set (lora_wrappers m). aw_full (wrapper_at m i) = None \<and> aw_lora_experts (wrapper_at m i) = None"
  shows "etriple (\<lambda>d. confined W fs2 (dk_tree d) \<and> dmem (dk_tree d) (stage @ [s])) (save_kt_moe_to_adapter ai io tk m stage)
    (\<lambda>_ d. confined W fs2 (dk_tree d) \<and> dmem (dk_tree d) (stage @ [s])) (\<lambda>d. confined W fs2 (dk_tree d))"
  by (rule stays_keeps [OF assms(1) _ standard_not_fused [OF assms(3), of "tk_fused tk"]])
    (auto intro!: assms(2) stays_moe_plain [OF _ _ _ assms(4)] entries_ofI simp: plain_names_def)

lemma save_contract:
  assumes "save_kt_adapter_artifacts ai io tk m output_dir d = (Inr (Some w), d')"
  obtains contract where "fused_lora_contract m = Inr contract" "contract \<noteq> []"
  using assms by (auto simp: save_kt_adapter_artifacts_def Let_def ebind_eq_Inr elift_def ereturn_def split: if_splits)

section \<open>The loader on a published bundle\<close>

lemma one_standard:
  assumes "dwf d" "set (dkeys d) = insert adapter_config (set names)" "standard \<in> set names" "set names \<subseteq> plain_names tk standard"
    "standard \<in> set standard_adapters"
  shows "length (filter (\<lambda>name. name \<in> set standard_adapters) (dkeys d)) = 1"
proof -
  have "x = standard" if "x \<in> set (dkeys d)" "x \<in> set standard_adapters" for x
    using that assms(2,4) by (auto simp: plain_names_def standard_adapters_def safetensors_adapter_def bin_adapter_def fused_file_def
        fused_temp_def adapter_config_def)
  then have "set (filter (\<lambda>name. name \<in> set standard_adapters) (dkeys d)) = {standard}" using assms(2,3,5) by auto
  moreover have "distinct (filter (\<lambda>name. name \<in> set standard_adapters) (dkeys d))" using assms(1) by (simp add: dwf_def)
  ultimately show ?thesis using distinct_card by (metis card.empty card_insert_disjoint empty_iff finite.emptyI One_nat_def)
qed

lemma plain_entry_names:
  assumes "slash \<notin> set (tk_fused tk)" "standard \<in> set standard_adapters" "x \<in> insert adapter_config (plain_names tk standard)"
  shows "entry_name x"
  using assms by (auto simp: plain_names_def entry_name_def slash_def standard_adapters_def safetensors_adapter_def bin_adapter_def
      fused_file_def fused_temp_def adapter_config_def)

lemma bundle_accepted:
  assumes describes: "manifest_describes cd dir contract payload fs" and dir: "resolve fs dir = dir"
    and payload: "payload = bundle_payload (plain_provenance fmt name rank alpha) artifacts" "fmt \<noteq> ''rawint4''"
    and prov: "adapter_provenance cd fs m (find_plan m) = Inr (plain_provenance fmt name rank alpha)"
    and contract: "fused_lora_contract m = Inr contract"
    and keys: "dwf artifacts" "set (dkeys artifacts) = insert adapter_config (set names)" "standard \<in> set names"
      "set names \<subseteq> plain_names tk standard" "fused_file \<in> set names"
    and std: "standard \<in> set standard_adapters" "slash \<notin> set (tk_fused tk)"
    and law: "json_law cd" "rd_readable cd (dir @ [adapter_manifest])"
  shows "\<exists>v. validate_adapter_manifest cd fs m dir = Inr v \<and> am_path v = dir @ [adapter_manifest] \<and>
    jsame (VObject payload) (VObject (am_payload v))"
proof -
  have at: "obj_get payload ''artifacts'' = VObject artifacts" using payload_artifacts [OF prov] payload(1) by simp
  then have records: "records_hold cd fs dir contract artifacts" and fits: "fused_fits cd contract (dget fs (dir @ [fused_file]))"
    and doc: "dget fs (dir @ [adapter_manifest]) = Some (File (fst (cd_json_file cd (VObject payload))) (snd (cd_json_file cd (VObject payload))))"
    using describes by (auto simp: manifest_describes_def Let_def)
  have entered: "artifact_record cd fs (dir @ [x]) (if x = fused_file then Some contract else None) = Inr r \<and> jwf r"
    if "dget artifacts x = Some r" for x r
  proof -
    have a: "artifact_record cd fs (dir @ [x]) (if x = fused_file then Some contract else None) = Inr r"
      using records that unfolding records_hold_def by blast
    from record_wf [OF a] contract_wf [OF contract] a show ?thesis by (simp split: if_splits)
  qed
  have "\<forall>p \<in> set artifacts. jwf (snd p)" using entered dget_mem [OF keys(1)] by fastforce
  from plain_payload_wf [OF keys(1) this] have wf: "jwf (VObject payload)" unfolding payload(1) .
  with law(1) obtain v where v: "rd_json cd (snd (cd_json_file cd (VObject payload))) = Some v" "jsame (VObject payload) v" "jwf v"
    unfolding json_law_def by blast
  from jsame_object_cases [OF v(2)] obtain e where e: "v = VObject e" by blast
  have read: "read_json cd fs (dir @ [adapter_manifest]) = Inr e"
    using regular_child [OF dir, of adapter_manifest] doc v(1) e law(2) by (auto simp: read_json_Inr)
  note same = v(2) [unfolded e] and wfe = v(3) [unfolded e]
  note accepted = provenance_accepted [OF same [unfolded payload(1)] wf [unfolded payload(1)] wfe payload(2)]
  have "jsame (VObject artifacts) (obj_get e ''artifacts'')" using jsame_get [OF same, of "''artifacts''"] wf wfe at by simp
  then obtain listed where listed: "obj_get e ''artifacts'' = VObject listed" "jsame (VObject artifacts) (VObject listed)" using jsame_object_cases by metis
  have "jwf (VObject listed)" using jwf_obj_get [OF wfe, of "''artifacts''"] listed(1) by simp
  then have lwf: "dwf listed" "\<And>x q. dget listed x = Some q \<Longrightarrow> jwf q" using jwf_dget by auto
  note obj = jsame_object [OF listed(2) keys(1) lwf(1)]
  have lkeys: "set (dkeys listed) = insert adapter_config (set names)" using obj(1) keys(2) by simp
  have entry: "\<exists>r. artifact_record cd fs (dir @ [x]) (if x = fused_file then Some contract else None) = Inr r \<and> jsame r q \<and> jwf r \<and> jwf q"
    if "dget listed x = Some q" for x q
    using obj(3) [OF that] entered lwf(2) [OF that] by blast
  have "\<exists>ps. check_artifacts cd fs dir listed = Inr ps"
  proof (rule artifacts_checked)
    fix x q assume xq: "(x, q) \<in> set listed"
    then have "x \<in> insert adapter_config (plain_names tk standard)" using lkeys keys(4) by (force simp: dkeys_def)
    with plain_entry_names [OF std(2,1)] entry [OF dget_mem [OF lwf(1) xq]]
    show "entry_name x \<and> (\<exists>c r. artifact_record cd fs (dir @ [x]) c = Inr r \<and> jsame r q \<and> jwf r \<and> jwf q)" by blast
  qed
  then obtain ps where ps: "check_artifacts cd fs dir listed = Inr ps" by blast
  have there: "dmem listed fused_file" "dmem listed adapter_config" using lkeys keys(5) by (simp_all add: dmem_def)
  then obtain q where q: "dget listed fused_file = Some q" using dmem_dget by metis
  from entry [OF q] obtain r where r: "artifact_record cd fs (dir @ [fused_file]) (Some contract) = Inr r" "jsame r q" "jwf r" "jwf q" by auto
  obtain fields where fields: "q = VObject fields" "obj_get fields ''tensor_count'' = VInt (int (length contract))"
    "jeq (obj_get fields ''tensors'') (contract_json contract)"
    using record_fields [OF r] by metis
  have fused: "validate_fused_file cd fs (dir @ [fused_file]) contract = Inr ()" using validate_fused_child [OF dir] fits by blast
  have "object_fields (obj_get listed fused_file) = fields" using q fields(1) by (simp add: obj_get_def object_fields_def)
  with read accepted prov listed(1) there one_standard [OF lwf(1) lkeys keys(3,4) std(1)] ps contract fields(2,3) fused
  have "validate_adapter_manifest cd fs m dir =
      Inr \<lparr>am_path = dir @ [adapter_manifest], am_payload = e, am_artifact_paths = sort_key path_text ps\<rparr>"
    by (simp add: validate_adapter_manifest_def equals_int_def Let_def)
  with same show ?thesis by simp
qed

text \<open>
  C16. What a save returns, the loader accepts. When \<open>save_kt_adapter_artifacts\<close> returns a manifest,
  whatever the disk held before and whatever its operations did on the way, \<open>_validate_adapter_manifest\<close>
  accepts the bundle for the same model and reads the same document. It is stated for adapters with fused
  LoRA only, without a pretrained plan and not on a RAWINT4 base, and for JSON documents that are read as
  they were written.
\<close>

theorem saved_adapter_validates:
  fixes ai :: "('c, 'a) adapter_io" and d :: "'c disk"
  assumes "tree_wf (dk_tree d)" "real_path (dk_tree d) (absolute_path (codec.truncate ai) output_dir)"
    and law: "json_law (codec.truncate ai)" "rd_readable ai (absolute_path (codec.truncate ai) output_dir @ [adapter_manifest])"
      "slash \<notin> set (tk_fused tk)"
    and plain: "find_plan m = None" "runtime_expert_weight_format m None \<noteq> Inr ''rawint4''"
      "\<forall>i \<in> set (lora_wrappers m). aw_full (wrapper_at m i) = None \<and> aw_lora_experts (wrapper_at m i) = None"
    and run: "save_kt_adapter_artifacts ai io tk m output_dir d = (Inr (Some w), d')"
  shows "\<exists>v. validate_adapter_manifest (codec.truncate ai) (dk_tree d') m (absolute_path (codec.truncate ai) output_dir) = Inr v \<and>
    am_path v = am_path w \<and> jsame (VObject (am_payload w)) (VObject (am_payload v))"
proof -
  let ?cd = "codec.truncate ai" and ?O = "absolute_path (codec.truncate ai) output_dir" and ?names = "plain_names tk"
  from save_contract [OF run] obtain contract where contract: "fused_lora_contract m = Inr contract" "contract \<noteq> []" .
  have names: "s \<in> ?names s \<and> adapter_manifest \<notin> ?names s \<and> stage_name (tk_stage tk) \<notin> ?names s"
    if "s \<in> set standard_adapters" for s
    using that by (auto simp: plain_names_def standard_adapters_def adapter_manifest_def fused_file_def fused_temp_def stage_name_def
        safetensors_adapter_def bin_adapter_def)
  have triple: "etriple (\<lambda>d'. dk_tree d' = dk_tree d) (save_kt_adapter_artifacts ai io tk m output_dir)
    (\<lambda>v d'. saved (\<lambda>s. [s]) ?names ?cd tk m ?O contract (dk_tree d) v (dk_tree d'))
    (\<lambda>d'. stopped (\<lambda>s. [s]) ?names ?cd tk m ?O contract (dk_tree d) (dk_tree d'))"
  proof (rule save_adapter_triple [OF assms(1,2) contract names])
    fix dir W s and fs2 :: "'c tree"
    assume s: "s \<in> set standard_adapters" and W: "W = save_paths dir tk ?names s" and stage: "stage_for W fs2 (stage_path dir tk)"
    have "stage_path dir tk @ [x] \<in> W" if "x \<in> ?names s" for x using that by (simp add: W save_paths_def)
    from moe_keeps_standard [OF stage this s plain(3)]
    show "etriple (\<lambda>d. confined W fs2 (dk_tree d) \<and> dmem (dk_tree d) (stage_path dir tk @ [s]))
        (save_kt_moe_to_adapter ai io tk m (stage_path dir tk))
        (\<lambda>_ d. confined W fs2 (dk_tree d) \<and> (\<forall>x \<in> set [s]. dmem (dk_tree d) (stage_path dir tk @ [x])))
        (\<lambda>d. confined W fs2 (dk_tree d))"
      by simp
  qed
  from etripleD(1) [OF triple refl run]
  obtain s produced fs4 where s: "am_path w = ?O @ [adapter_manifest]" "s \<in> set standard_adapters"
    "dget (without_manifest ?O (dk_tree d)) (stage_path ?O tk) = None"
    "produced_ok (written_paths ?O tk (?names s)) (stage_path ?O tk) [s] produced"
    "announced (written_paths ?O tk (?names s)) (staged ?O tk (dk_tree d)) ?cd tk m ?O contract (find_plan m) produced (am_payload w) fs4"
    "dk_tree d' = fs4 \<or> dk_tree d' = cleared (stage_path ?O tk) fs4"
    unfolding saved_def save_paths_def written_paths_def [symmetric] by blast
  have ready: "save_ready (dk_tree d) ?O tk (?names s)" using assms(1,2) s(3) names [OF s(2)] by (simp add: save_ready_def)
  note ann = announced_describes [OF ready s(5,4,6)]
  from s(5) obtain fs3 artifacts provenance where prov: "adapter_provenance ?cd fs3 m None = Inr provenance"
    and keys: "dwf artifacts" "set (dkeys artifacts) = insert adapter_config (set produced)"
    and payload: "am_payload w = bundle_payload provenance artifacts"
    unfolding announced_def plain(1) by blast
  obtain fmt name rank alpha where p: "provenance = plain_provenance fmt name rank alpha" "fmt \<noteq> ''rawint4''"
    "\<And>fs'. adapter_provenance ?cd fs' m None = Inr provenance"
    using provenance_plain [OF prov plain(2)] by metis
  have made: "s \<in> set produced" "set produced \<subseteq> ?names s" "fused_file \<in> set produced"
    using s(4) by (auto simp: produced_ok_def)
  have "rd_readable ?cd (?O @ [adapter_manifest])" using law(2) by (simp add: codec.defs)
  from bundle_accepted [OF ann(1) real_path_resolve [OF ann(3)] payload [unfolded p(1)] p(2) p(3) [folded plain(1), unfolded p(1)]
      contract(1) keys made(1,2,3) s(2) law(3,1) this] s(1)
  show ?thesis by simp
qed

lemma sample_bin_bundle:
  "tree_wf (sample_bundle bin_adapter)" "real_path (sample_bundle bin_adapter) [''o'']"
proof -
  let ?fs = "sample_bundle bin_adapter"
  have "dwf ?fs" by (simp add: sample_bundle_def adapter_config_def bin_adapter_def)
  then show "tree_wf ?fs"
    by (subst tree_wf_all) (simp_all add: sample_bundle_def entry_name_def adapter_config_def bin_adapter_def slash_def)
  have "k = 1" if "0 < k" "k \<le> length [''o'']" for k :: nat using that by simp
  then show "real_path ?fs [''o'']" unfolding real_path_def by (auto simp: sample_bundle_def)
qed

text \<open>Nothing fails: the bundle on disk is accepted for a model with the same provenance.\<close>

theorem saved_adapter_validates_witness:
  "\<exists>w (d' :: bundle_content disk) v. sample_save (sample_model 10) (\<lambda>_. Done) bin_adapter = (Inr (Some w), d') \<and>
     validate_adapter_manifest (codec.truncate sample_io) (dk_tree d') (sample_model 10) [''o''] = Inr v \<and>
     jsame (VObject (am_payload w)) (VObject (am_payload v))"
proof -
  let ?m = "sample_model 10"
  let ?d = "\<lparr>dk_tree = sample_bundle bin_adapter, dk_tick = 0\<rparr> :: bundle_content disk"
  have "case fst (sample_save ?m (\<lambda>_. Done) bin_adapter) of Inr (Some _) \<Rightarrow> True | _ \<Rightarrow> False" by code_simp
  then obtain w d' where run: "sample_save ?m (\<lambda>_. Done) bin_adapter = (Inr (Some w), d')"
    by (cases "sample_save ?m (\<lambda>_. Done) bin_adapter") (auto split: sum.splits option.splits)
  have out: "absolute_path (codec.truncate sample_io) ''/o'' = [''o'']" by code_simp
  have law: "json_law (codec.truncate sample_io)"
    by (auto simp: json_law_def sample_io_def codec.defs intro: jsame_refl)
  have read: "rd_readable sample_io p" for p by (simp add: sample_io_def)
  have m: "find_plan ?m = None" "runtime_expert_weight_format ?m None \<noteq> Inr ''rawint4''" "slash \<notin> set (tk_fused sample_tokens)" by code_simp+
  have plain: "\<forall>i \<in> set (lora_wrappers ?m). aw_full (wrapper_at ?m i) = None \<and> aw_lora_experts (wrapper_at ?m i) = None" by code_simp
  have real: "real_path (dk_tree ?d) (absolute_path (codec.truncate sample_io) ''/o'')" unfolding out using sample_bin_bundle(2) by simp
  have wf: "tree_wf (dk_tree ?d)" using sample_bin_bundle(1) by simp
  from saved_adapter_validates [OF wf real law read m(3) m(1,2) plain run [unfolded sample_save_def]] run
  show ?thesis unfolding out by blast
qed

end
