(* ===== verification/AdapterTwoStandards.thy ===== *)
theory AdapterTwoStandards
  imports AdapterRoundtrip
begin

text \<open>
  A save that returns and whose bundle no model can load: LoRA experts next to a standard adapter stored
  as \<open>adapter_model.bin\<close>.
\<close>

section \<open>The writers leave two standard adapters\<close>

definition two_names :: "tokens \<Rightarrow> string \<Rightarrow> string set" where
  "two_names tk s = {safetensors_adapter, bin_adapter, fused_file, fused_temp (tk_fused tk)}"

lemma lora_experts_write:
  fixes fs2 :: "'c tree" and ai :: "('c, 'a) adapter_io"
  assumes stage: "stage_for W fs2 stage" "stage @ [safetensors_adapter] \<in> W" and ws: "ws \<noteq> []"
  shows "etriple (\<lambda>d. confined W fs2 (dk_tree d)) (save_lora_experts_to_adapter ai io ws stage)
    (\<lambda>_ d. confined W fs2 (dk_tree d) \<and> dmem (dk_tree d) (stage @ [safetensors_adapter])) (\<lambda>d. confined W fs2 (dk_tree d))"
  unfolding etriple_def
proof (intro allI impI)
  fix d :: "'c disk" assume d: "confined W fs2 (dk_tree d)"
  obtain r d' where run: "save_lora_experts_to_adapter ai io ws stage d = (r, d')" by force
  have c: "confined W fs2 (dk_tree d')" using staysD [OF stays_lora_experts [OF stage] d] run by (metis snd_conv)
  have "dmem (dk_tree d') (stage @ [safetensors_adapter])" if r: "r = Inr ()"
  proof -
    from run [unfolded r] ws obtain sd d0 where q: "disk_query (existing_adapter ai stage) d = (Inr sd, d0)"
      and w: "disk_op io (put_file (stage @ [safetensors_adapter]) (ai_save ai (merge_tensors sd (concat (map lora_expert_tensors ws)))))
        (truncated (stage @ [safetensors_adapter]) (codec.truncate ai)) d0 = (Inr (), d')"
      by (auto simp: save_lora_experts_to_adapter_def Let_def ebind_eq_Inr)
    have "dk_tree d0 = dk_tree d" using q by (auto simp: disk_query_def split: sum.splits)
    then have "own_dir (dk_tree d0) stage" using stage_own [OF stage(1) d] by simp
    from put_file_confined(2) [OF this disk_op_cases(1) [OF w] stage(2)] show ?thesis by (rule dget_Some_dmem)
  qed
  with c show "case save_lora_experts_to_adapter ai io ws stage d of (Inl _, d') \<Rightarrow> confined W fs2 (dk_tree d')
      | (Inr _, d') \<Rightarrow> confined W fs2 (dk_tree d') \<and> dmem (dk_tree d') (stage @ [safetensors_adapter])"
    unfolding run by (auto split: sum.split)
qed

lemma etriple_conj: "etriple P m Q E \<Longrightarrow> etriple P' m Q' E \<Longrightarrow> etriple (\<lambda>s. P s \<and> P' s) m (\<lambda>a s. Q a s \<and> Q' a s) E"
  by (fastforce simp: etriple_def split: prod.splits sum.splits)

definition only_lora_experts :: "'a kt_model \<Rightarrow> bool" where
  "only_lora_experts m \<longleftrightarrow>
     list_ex (\<lambda>i. aw_lora_experts (wrapper_at m i) \<noteq> None) (lora_wrappers m) \<and>
     list_all (\<lambda>i. aw_full (wrapper_at m i) = None) (lora_wrappers m)"

lemma moe_leaves_two:
  fixes fs2 :: "'c tree" and ai :: "('c, 'a) adapter_io"
  assumes stage: "stage_for W fs2 stage" and W: "\<And>x. x \<in> two_names tk s \<Longrightarrow> stage @ [x] \<in> W"
    and s: "s \<in> set standard_adapters" and m: "only_lora_experts m"
  shows "etriple (\<lambda>d. confined W fs2 (dk_tree d) \<and> dmem (dk_tree d) (stage @ [s])) (save_kt_moe_to_adapter ai io tk m stage)
    (\<lambda>_ d. confined W fs2 (dk_tree d) \<and> (\<forall>x \<in> {s, safetensors_adapter}. dmem (dk_tree d) (stage @ [x])))
    (\<lambda>d. confined W fs2 (dk_tree d))"
proof -
  let ?ws = "map (wrapper_at m) (lora_wrappers m)" and ?C = "\<lambda>d :: 'c disk. confined W fs2 (dk_tree d)"
  let ?S = "\<lambda>d :: 'c disk. dmem (dk_tree d) (stage @ [safetensors_adapter])"
  let ?moe = "save_kt_moe_to_adapter ai io tk m stage"
  have names: "stage @ [safetensors_adapter] \<in> W" "stage @ [fused_file] \<in> W" "stage @ [fused_temp (tk_fused tk)] \<in> W"
    by (simp_all add: W two_names_def)
  have ws: "?ws \<noteq> []" "list_ex (\<lambda>w. aw_lora_experts w \<noteq> None) ?ws"
    "\<not> list_ex (\<lambda>w. case aw_full w of Some c \<Rightarrow> cw_full c | None \<Rightarrow> False) ?ws"
    using m by (auto simp: only_lora_experts_def list_ex_iff list_all_iff)
  let ?fused = "if list_ex has_fused ?ws then save_fused_expert_lora ai io tk ?ws stage else ereturn ()"
  have steps: "?moe = ebind (ereturn ()) (\<lambda>_. ebind (save_lora_experts_to_adapter ai io ?ws stage) (\<lambda>_. ?fused))"
    unfolding save_kt_moe_to_adapter_def Let_def using ws by simp
  have "etriple (\<lambda>d. ?C d \<and> ?S d) ?fused (\<lambda>_ d. ?C d \<and> ?S d) ?C"
    by (rule stays_keeps [where V = "{fused_file, fused_temp (tk_fused tk)}", OF stage])
      (use names standard_not_fused [of safetensors_adapter "tk_fused tk"] in
        \<open>auto intro!: stays_if stays_fused stays_pure entries_ofI simp: standard_adapters_def\<close>)
  then have both: "etriple ?C ?moe (\<lambda>_ d. ?C d \<and> ?S d) ?C"
    unfolding steps
    by (intro etriple_ebind [OF _ etriple_ebind [OF lora_experts_write [OF stage names(1) ws(1)]]])
      (auto simp: etriple_def ereturn_def)
  show ?thesis
  proof (cases "s = safetensors_adapter")
    case True
    show ?thesis by (rule etriple_weaken [OF both]) (simp_all add: True)
  next
    case False
    then have "s \<notin> {safetensors_adapter, fused_file, fused_temp (tk_fused tk)}" using standard_not_fused [OF s] by blast
    then have "etriple (\<lambda>d. ?C d \<and> dmem (dk_tree d) (stage @ [s])) ?moe (\<lambda>_ d. ?C d \<and> dmem (dk_tree d) (stage @ [s])) ?C"
      by (rule stays_keeps [where V = "{safetensors_adapter, fused_file, fused_temp (tk_fused tk)}", OF stage, rotated])
        (use names m in \<open>auto intro!: stays_moe entries_ofI simp: only_lora_experts_def list_all_iff\<close>)
    from etriple_conj [OF this both] show ?thesis by (rule etriple_weaken) auto
  qed
qed

section \<open>No loader accepts the bundle\<close>

lemma accepted_one_standard:
  assumes "validate_adapter_manifest cd fs m dir = Inr v"
  obtains e artifacts where "read_json cd fs (dir @ [adapter_manifest]) = Inr e" "obj_get e ''artifacts'' = VObject artifacts"
    "length (filter (\<lambda>name. name \<in> set standard_adapters) (dkeys artifacts)) = 1"
  using assms
  by (auto simp: validate_adapter_manifest_def rbind_eq_Inr Let_def split: if_splits jvalue.splits)

lemma two_standards:
  assumes "safetensors_adapter \<in> set ks" "bin_adapter \<in> set ks"
  shows "length (filter (\<lambda>name. name \<in> set standard_adapters) ks) \<noteq> 1"
proof
  let ?f = "filter (\<lambda>name. name \<in> set standard_adapters) ks"
  assume "length ?f = 1"
  then obtain x where "?f = [x]" by (cases ?f) auto
  moreover have "safetensors_adapter \<in> set ?f" "bin_adapter \<in> set ?f" using assms by (simp_all add: standard_adapters_def)
  moreover have "safetensors_adapter \<noteq> bin_adapter" by (simp add: safetensors_adapter_def bin_adapter_def)
  ultimately show False by simp
qed

lemma two_standards_refused:
  assumes describes: "manifest_describes cd dir contract payload fs" and dir: "resolve fs dir = dir"
    and at: "obj_get payload ''artifacts'' = VObject artifacts" "dwf artifacts" "{safetensors_adapter, bin_adapter} \<subseteq> set (dkeys artifacts)"
    and law: "json_law cd" "jwf (VObject payload)"
  shows "\<not> is_ok (validate_adapter_manifest cd fs m dir)"
proof
  assume "is_ok (validate_adapter_manifest cd fs m dir)"
  then obtain v where "validate_adapter_manifest cd fs m dir = Inr v" by (auto simp: is_ok_iff)
  then obtain e listed where e: "read_json cd fs (dir @ [adapter_manifest]) = Inr e" "obj_get e ''artifacts'' = VObject listed"
    "length (filter (\<lambda>name. name \<in> set standard_adapters) (dkeys listed)) = 1" by (rule accepted_one_standard)
  have doc: "dget fs (dir @ [adapter_manifest]) = Some (File (fst (cd_json_file cd (VObject payload))) (snd (cd_json_file cd (VObject payload))))"
    using describes by (simp add: manifest_describes_def Let_def)
  obtain w where w: "rd_json cd (snd (cd_json_file cd (VObject payload))) = Some w" "jsame (VObject payload) w" "jwf w"
    using law unfolding json_law_def by blast
  have "w = VObject e" using e(1) regular_child(2) [OF dir doc] w(1) by (auto simp: read_json_Inr)
  with w have same: "jsame (VObject payload) (VObject e)" "jwf (VObject e)" by simp_all
  have "jsame (VObject artifacts) (VObject listed)" using jsame_get [OF same(1), of "''artifacts''"] law(2) same(2) at(1) e(2) by simp
  moreover have "jwf (VObject listed)" using jwf_obj_get [OF same(2), of "''artifacts''"] e(2) by simp
  then have "dwf listed" by simp
  ultimately have "set (dkeys artifacts) = set (dkeys listed)" using jsame_object(1) [OF _ at(2)] by metis
  with two_standards [of "dkeys listed"] at(3) e(3) show False by auto
qed

lemma is_bin_kept:
  assumes real: "real_path fs output" and bin: "regular_file fs (output @ [bin_adapter])" and one: "standards_in (without_manifest output fs) output = [s]"
  shows "s = bin_adapter"
proof -
  note dir = real_path_resolve [OF real] and dir' = real_path_resolve [OF without_manifest_real [OF real]]
  obtain n c where "dget fs (output @ [bin_adapter]) = Some (File n c)" using bin regular_child(1) [OF dir] by blast
  then have "dget (without_manifest output fs) (output @ [bin_adapter]) = Some (File n c)"
    using name_facts(11) [symmetric] by (simp add: without_manifest_def)
  then have "is_file (without_manifest output fs) (output @ [bin_adapter])"
    using regular_child(1) [OF dir', of bin_adapter] by (auto simp: regular_file_def)
  then have "bin_adapter \<in> set (standards_in (without_manifest output fs) output)" by (simp add: standards_in_def standard_adapters_def)
  with one show ?thesis by simp
qed

text \<open>
  C40. A save that is bound to be refused. Let a model have LoRA experts (and no full-weight wrappers) and
  the adapter directory its standard adapter in a regular file \<open>adapter_model.bin\<close>. Whenever \<open>save_kt_adapter_artifacts\<close>
  returns, whatever the disk held and did, the ready manifest it has published lists a second standard
  file, the \<open>adapter_model.safetensors\<close> that \<open>save_lora_experts_to_adapter\<close> wrote, and
  \<open>_validate_adapter_manifest\<close> refuses the bundle for every model, the saved one included. The JSON
  document is read as it was written, and the payload, a dictionary, has no key twice.
\<close>

theorem bin_adapter_bundle_refused:
  fixes ai :: "('c, 'a) adapter_io" and d :: "'c disk"
  assumes "tree_wf (dk_tree d)" "real_path (dk_tree d) (absolute_path (codec.truncate ai) output_dir)"
    and law: "json_law (codec.truncate ai)" and model: "only_lora_experts m"
    and bin: "regular_file (dk_tree d) (absolute_path (codec.truncate ai) output_dir @ [bin_adapter])"
    and run: "save_kt_adapter_artifacts ai io tk m output_dir d = (Inr (Some w), d')" and dict: "jwf (VObject (am_payload w))"
  shows "(\<exists>artifacts. obj_get (am_payload w) ''artifacts'' = VObject artifacts \<and> dmem artifacts safetensors_adapter \<and> dmem artifacts bin_adapter) \<and>
    \<not> is_ok (validate_adapter_manifest (codec.truncate ai) (dk_tree d') m' (absolute_path (codec.truncate ai) output_dir))"
proof -
  let ?cd = "codec.truncate ai" and ?O = "absolute_path (codec.truncate ai) output_dir" and ?names = "two_names tk"
  from save_contract [OF run] obtain contract where contract: "fused_lora_contract m = Inr contract" "contract \<noteq> []" .
  have names: "s \<in> ?names s \<and> adapter_manifest \<notin> ?names s \<and> stage_name (tk_stage tk) \<notin> ?names s"
    if "s \<in> set standard_adapters" for s
    using that by (auto simp: two_names_def standard_adapters_def adapter_manifest_def fused_file_def fused_temp_def stage_name_def
        safetensors_adapter_def bin_adapter_def)
  let ?keep = "\<lambda>s. [s, safetensors_adapter]"
  have triple: "etriple (\<lambda>d'. dk_tree d' = dk_tree d) (save_kt_adapter_artifacts ai io tk m output_dir)
    (\<lambda>v d'. saved ?keep ?names ?cd tk m ?O contract (dk_tree d) v (dk_tree d'))
    (\<lambda>d'. stopped ?keep ?names ?cd tk m ?O contract (dk_tree d) (dk_tree d'))"
  proof (rule save_adapter_triple [OF assms(1,2) contract names])
    fix dir W s and fs2 :: "'c tree"
    assume s: "s \<in> set standard_adapters" and W: "W = save_paths dir tk ?names s" and stage: "stage_for W fs2 (stage_path dir tk)"
    have "stage_path dir tk @ [x] \<in> W" if "x \<in> ?names s" for x using that by (simp add: W save_paths_def)
    from moe_leaves_two [OF stage this s model]
    show "etriple (\<lambda>d. confined W fs2 (dk_tree d) \<and> dmem (dk_tree d) (stage_path dir tk @ [s]))
        (save_kt_moe_to_adapter ai io tk m (stage_path dir tk))
        (\<lambda>_ d. confined W fs2 (dk_tree d) \<and> (\<forall>x \<in> set (?keep s). dmem (dk_tree d) (stage_path dir tk @ [x])))
        (\<lambda>d. confined W fs2 (dk_tree d))" by simp
  qed
  from etripleD(1) [OF triple refl run]
  obtain s produced fs4 where s: "s \<in> set standard_adapters" "standards_in (without_manifest ?O (dk_tree d)) ?O = [s]"
    "dget (without_manifest ?O (dk_tree d)) (stage_path ?O tk) = None"
    "produced_ok (written_paths ?O tk (?names s)) (stage_path ?O tk) (?keep s) produced"
    "announced (written_paths ?O tk (?names s)) (staged ?O tk (dk_tree d)) ?cd tk m ?O contract (find_plan m) produced (am_payload w) fs4"
    "dk_tree d' = fs4 \<or> dk_tree d' = cleared (stage_path ?O tk) fs4"
    unfolding saved_def save_paths_def written_paths_def [symmetric] by blast
  have "s = bin_adapter" using is_bin_kept [OF assms(2) bin s(2)] .
  with s(4) have made: "{safetensors_adapter, bin_adapter} \<subseteq> set produced" by (auto simp: produced_ok_def)
  have ready: "save_ready (dk_tree d) ?O tk (?names s)" using assms(1,2) s(3) names [OF s(1)] by (simp add: save_ready_def)
  note ann = announced_describes [OF ready s(5,4,6)]
  from s(5) obtain fs3 artifacts provenance where prov: "adapter_provenance ?cd fs3 m (find_plan m) = Inr provenance"
    and keys: "dwf artifacts" "set (dkeys artifacts) = insert adapter_config (set produced)"
    and payload: "am_payload w = bundle_payload provenance artifacts"
    unfolding announced_def by blast
  have at: "obj_get (am_payload w) ''artifacts'' = VObject artifacts" unfolding payload by (rule payload_artifacts [OF prov])
  have both: "{safetensors_adapter, bin_adapter} \<subseteq> set (dkeys artifacts)" using keys(2) made by blast
  from two_standards_refused [OF ann(1) real_path_resolve [OF ann(3)] at keys(1) both law dict] at both
  show ?thesis by (simp add: dmem_def)
qed

section \<open>A model and a disk where this happens\<close>

definition expert_model :: "nat kt_model" where
  "expert_model =
     \<lparr>km_nodes = [(0, sample_node (Some [0]) Missing Missing)],
      km_wrappers = [(sample_wrapper 10)\<lparr>aw_lora_experts := Some [(sample_param [2] 1, sample_param [2] 2, sample_param [2] 3)]\<rparr>],
      km_root = 0\<rparr>"

text \<open>The save returns; with \<open>adapter_model.safetensors\<close> the same save gives a bundle that is accepted.\<close>

lemma expert_bundles:
  "is_ok (fst (sample_save expert_model (\<lambda>_. Done) bin_adapter))"
  "is_ok (validate_adapter_manifest (codec.truncate sample_io)
     (dk_tree (snd (sample_save expert_model (\<lambda>_. Done) safetensors_adapter))) expert_model [''o''])"
  by code_simp+

theorem bin_adapter_bundle_refused_witness:
  "\<exists>w (d' :: bundle_content disk). sample_save expert_model (\<lambda>_. Done) bin_adapter = (Inr (Some w), d') \<and>
     \<not> is_ok (validate_adapter_manifest (codec.truncate sample_io) (dk_tree d') expert_model [''o''])"
proof -
  let ?d = "\<lparr>dk_tree = sample_bundle bin_adapter, dk_tick = 0\<rparr> :: bundle_content disk"
  let ?run = "sample_save expert_model (\<lambda>_. Done) bin_adapter"
  have "case fst ?run of Inr (Some w) \<Rightarrow> jwf (VObject (am_payload w)) | _ \<Rightarrow> False" by code_simp
  then obtain w d' where run: "?run = (Inr (Some w), d')" and dict: "jwf (VObject (am_payload w))"
    by (cases ?run) (auto split: sum.splits option.splits)
  have out: "absolute_path (codec.truncate sample_io) ''/o'' = [''o'']" by code_simp
  have law: "json_law (codec.truncate sample_io)"
    by (auto simp: json_law_def sample_io_def codec.defs intro: jsame_refl)
  have model: "only_lora_experts expert_model" by code_simp
  have bin: "regular_file (dk_tree ?d) (absolute_path (codec.truncate sample_io) ''/o'' @ [bin_adapter])" by code_simp
  have real: "real_path (dk_tree ?d) (absolute_path (codec.truncate sample_io) ''/o'')" unfolding out using sample_bin_bundle(2) by simp
  have wf: "tree_wf (dk_tree ?d)" using sample_bin_bundle(1) by simp
  from bin_adapter_bundle_refused [OF wf real law model bin run [unfolded sample_save_def] dict] run
  show ?thesis unfolding out by blast
qed

end
