(* ===== verification/Spec2Isabelle.thy ===== *)
theory Spec2Isabelle
  imports Prelude Device WorkerPool Placement BufferCache MoEForward SftWrapper MoEFactory SftConfig SftWrap EphemeralLifecycle FullWeightsLoad KTBackwardAll CpuDetect Tuna WeightManifestSound RoutingSound RawInt4Sound NonExpertCacheSound AdapterSound AdapterTwoStandards
begin

text \<open>
  KTransformers, the Python core of kt-kernel: mixture-of-experts layers whose routed experts run on
  the CPU while the rest of the model runs on the GPU. Inference goes through \<open>BaseMoEWrapper\<close>
  (\<open>kt-kernel/python/experts_base.py\<close>, created by \<open>experts.py\<close>), fine-tuning (SFT) through
  \<open>BaseSFTMoEWrapper\<close> (\<open>sft/base.py\<close>) inside a \<open>KTMoELayerWrapper\<close> (\<open>sft/layer.py\<close>, \<open>sft/autograd.py\<close>), with
  weights published in an ephemeral store (\<open>sft/ephemeral.py\<close>) and saved by \<open>sft/checkpoint.py\<close>. All
  paths below are relative to \<open>kt-kernel/python\<close>.

  Conventions. A Python exception is a value of \<open>exn\<close> (\<open>Prelude\<close>); a function that may raise returns
  \<open>exn + 'a\<close>, a stateful one is a state transformer \<open>('s, 'a) eop\<close> that returns the state also when it
  raises, because \<open>except\<close> clauses and later calls see it. Python ints are \<open>int\<close> or \<open>nat\<close> (they do not
  wrap), dicts are association lists with the laws of \<open>Prelude\<close>, tensors are lists of rows or only
  the metadata that the code inspects. Calls into the compiled extension, torch or the operating
  system that may fail take their outcome from a record of faults, over which the theorems quantify.

  Inference.
  \<^item> \<open>Device\<close>, \<open>WorkerPool\<close>: the probes of \<open>experts_base.py\<close> (graph capture, ACL callback worker) and
    \<open>_MoEBase\<close>: the CPUInfer instance behind Python class attributes, the partition of threads.
  \<^item> \<open>Placement\<close>: GPU expert masks and deferral; \<open>topk\<close> is a parameter with its documented contract.
  \<^item> \<open>BufferCache\<close>: \<open>KExpertsCPUBuffer\<close>, the pinned buffers shared by all layers; invariants over every
    sequence of operations.
  \<^item> \<open>MoEForward\<close>: \<open>forward\<close> as an interleaving of the Python thread, the device stream and the FIFO CPU
    worker. Every interleaving ends, and its result refines the specification of one layer, also where
    the device never runs the callbacks of its stream.
  \<^item> \<open>NativeMoE\<close> (\<open>utils/amx.py\<close>), \<open>MoEFactory\<close> (\<open>experts.py\<close>): what is checked before native code runs,
    kernel selection, activation contracts.

  Fine-tuning, one process.
  \<^item> \<open>SftGrads\<close>, \<open>SftWrapper\<close> (\<open>sft/base.py\<close>): the authoritative gradient window and the checkpoint-output
    cache, each with an abstract machine it refines, and the bookkeeping of forward and backward
    under every failure of the C++ tasks.
  \<^item> \<open>SftBackend\<close>, \<open>SftConfig\<close>, \<open>SftWrap\<close> (\<open>sft/backend.py\<close>, \<open>sft/config.py\<close>, \<open>sft/wrapper.py\<close>): method names,
    the configuration dataclass and what wrapping a model decides before it loads weights.
    \<open>PyText\<close> has \<open>int(str)\<close> and \<open>str(int)\<close>.

  Fine-tuning, several ranks.
  \<^item> \<open>Collectives\<close>: a rank is a tree of communication requests, a system of ranks steps when its next
    communication is matched, and a system that cannot step before all ranks have returned is a
    deadlock. This is the documented behaviour of \<open>torch.distributed\<close>. \<open>spmd n M S R\<close> says that all \<open>n\<close>
    ranks running \<open>M\<close> from \<open>S\<close> return, with \<open>R\<close>; outcomes are unique (\<open>finishes_unique\<close>), so this
    excludes deadlocks.
  \<^item> \<open>DistUtils\<close> (\<open>sft/dist_utils.py\<close>): agreement, gather and scatter, and the shared failures of
    \<open>sft/autograd.py\<close>.
  \<^item> \<open>KTLayer\<close>, \<open>KTForward\<close>, \<open>KTForwardEq\<close>, \<open>KTBackward\<close>, \<open>KTBackwardAll\<close> (\<open>sft/layer.py\<close>, \<open>sft/autograd.py\<close>):
    forward and backward of a layer. The distributed passes compute what one process computes on
    the concatenated tokens (the optimizer gradients scaled by the number of ranks), and the ranks
    leave them together as far as they agree; two deadlocks mark the limits. The
    expert arithmetic is a parameter (\<open>moe\<close>, \<open>bwd\<close>), and the ids and weights of a rank are what routing
    returned.
  \<^item> \<open>Routing\<close>, \<open>RoutingSound\<close> (\<open>sft/layer.py\<close>): \<open>DeepSeekRoutingSpec.from_modules\<close> and \<open>_compute_routing\<close> over
    an ordered field: which experts are selected, their weights, and the shape of every result.

  Files.
  \<^item> \<open>FileTree\<close>: a file system of directories, files and symbolic links with the operations the code
    calls. Paths with \<open>..\<close> components are outside the model.
  \<^item> \<open>Ephemeral\<close>, \<open>EphemeralStore\<close>, \<open>EphemeralPublish\<close>, \<open>EphemeralOpen\<close>, \<open>EphemeralLifecycle\<close>
    (\<open>sft/ephemeral.py\<close>): publishing, opening, consuming, finishing and cleaning up the store of INT8
    weights. An interruption is a prefix of the effects of an operation.
  \<^item> \<open>FullWeights\<close>, \<open>FullWeightsSave\<close>, \<open>FullWeightsLoad\<close> (\<open>sft/checkpoint.py\<close>): saving with rollback under any
    failing file operation, the checks of the loader and the round trip. JSON documents and
    safetensors containers are kept decoded.
  \<^item> \<open>Json\<close>: decoded JSON values, with the comparisons and conversions the validators use.
  \<^item> \<open>WeightManifest\<close>, \<open>WeightManifestSound\<close> (\<open>sft/weight_manifest.py\<close>): the validation of a persistent weight
    tree, and what an accepted tree contains.

  Artifacts and caches (\<open>sft/artifacts.py\<close>).
  \<^item> \<open>Artifacts\<close>: the contracts of an artifact, the atomic publication of a JSON document and the disk
    operations under it, each of which may fail.
  \<^item> \<open>RawInt4Base\<close>, \<open>RawInt4Sound\<close>: the sampled identity of a RAWINT4 checkpoint: which bytes are hashed
    and which replacements the identity notices.
  \<^item> \<open>NonExpertCache\<close>, \<open>NonExpertCacheSound\<close>: the producer and the loader of the cache of weights that are
    not experts, and what a loaded cache is known to be.
  \<^item> \<open>AdapterModel\<close>, \<open>AdapterSave\<close>, \<open>AdapterLoad\<close>: saving, validating and restoring adapter bundles, with the
    readers and writers of \<open>sft/lora.py\<close> they call. The containers' encoding is a parameter (a codec
    that decodes what it encodes).
  \<^item> \<open>AdapterPublish\<close>, \<open>AdapterPublishAll\<close>, \<open>AdapterSound\<close>: a save with any failing operation leaves no manifest
    that describes other bytes than those on disk. \<open>AdapterRoundtrip\<close>: what a save of fused LoRA returns is
    accepted by the loader; \<open>AdapterTwoStandards\<close>: a kind of save that no loader accepts. \<open>AdapterWalk\<close>, \<open>AdapterRestore\<close>: the search for the wrapped layers, and what loading an
    accepted bundle restores. \<open>AdapterSample\<close> has concrete models and bundles for the witnesses.

  Start-up and tools.
  \<^item> \<open>CpuDetect\<close> (\<open>_cpu_detect.py\<close>): choosing and loading the variant of the extension. The chain of
    fallbacks is well-founded by the level of the variant, so loading is total without fuel. What a
    variant needs is taken from \<open>setup.py\<close>, which builds it.
  \<^item> \<open>Tuna\<close> (\<open>cli/utils/tuna_engine.py\<close>): the search for the largest number of GPU experts; it terminates
    because the interval shrinks, with a bound on the number of server starts.

  Properties are numbered C1, C2, ... in the order of their importance and stand in the theory of
  the component they are about; each has a comment that states it, and a witness when it has
  hypotheses. Recursion is structural or over the list at hand; the only fuel is the number of steps
  of a run (\<open>run_system\<close>, the runs of \<open>MoEForward\<close>), and the theorems claim that some number suffices.

  Not modelled. The numerical content of the experts and of tensors, and floating-point rounding
  (third-party and C++ code); \<open>sft/amx.py\<close>, \<open>sft/weights.py\<close>, \<open>utils/loader.py\<close> and \<open>utils/llamafile.py\<close> beyond the facts used
  here (they move bytes between files, tensors and C++ buffers); \<open>sft/lora.py\<close> beyond
  saving and loading, and the PEFT part of \<open>sft/layer.py\<close> (surgery on third-party modules); the device maps
  and the loading of a pretrained model in \<open>sft/artifacts.py\<close>; logging and profiling; the command line
  interface beyond \<open>Tuna\<close>, which is terminal interaction and subprocesses; the archived code under \<open>archive\<close>,
  which the library does not use.
\<close>

end
